(* ===== verification/Prelude.thy ===== *)
theory Prelude
  imports
    Main
    "HOL-Library.Word"
    "HOL-Library.Multiset"
    "HOL-Library.List_Lexorder"
    "HOL-Library.Char_ord"
    "HOL-Library.AList"
    "HOL-Library.Sublist"
    "HOL-Library.Code_Target_Nat"
begin

text \<open>
  Shared vocabulary of the development: the integer widths of the Rust source, its
  \<^verbatim>\<open>Result\<close> as a sum type with the early-return operator, byte strings (a Rust
  \<^verbatim>\<open>String\<close> or \<^verbatim>\<open>Vec<u8>\<close> of text is the list of its UTF-8 bytes), decimal formatting,
  \<^verbatim>\<open>HashMap\<close> as an association list with distinct keys in iteration order, and
  \<^verbatim>\<open>slice::sort_by\<close> with a comparator.
\<close>

unbundle bit_operations_syntax

type_synonym u8 = "8 word"
type_synonym u32 = "32 word"
type_synonym u64 = "64 word"

text \<open>The collections the component theories add to.\<close>

named_theorems result_simps \<open>case distinctions on results\<close>
named_theorems validate_simps \<open>validators, reduced to the condition they check\<close>


section \<open>Results\<close>

text \<open>\<^verbatim>\<open>Err(e)\<close> is \<^term>\<open>Inl e\<close> and \<^verbatim>\<open>Ok(x)\<close> is \<^term>\<open>Inr x\<close>; \<^verbatim>\<open>?\<close> is \<open>and_then\<close>.\<close>

fun and_then :: "'e + 'a \<Rightarrow> ('a \<Rightarrow> 'e + 'b) \<Rightarrow> 'e + 'b" where
  "and_then (Inl e) f = Inl e"
| "and_then (Inr x) f = f x"

fun map_err :: "('e \<Rightarrow> 'f) \<Rightarrow> 'e + 'a \<Rightarrow> 'f + 'a" where
  "map_err g (Inl e) = Inl (g e)"
| "map_err g (Inr x) = Inr x"

fun map_ok :: "('a \<Rightarrow> 'b) \<Rightarrow> 'e + 'a \<Rightarrow> 'e + 'b" where
  "map_ok g (Inl e) = Inl e"
| "map_ok g (Inr x) = Inr (g x)"

fun is_ok :: "'e + 'a \<Rightarrow> bool" where
  "is_ok (Inl _) = False"
| "is_ok (Inr _) = True"

definition ok_or :: "'e \<Rightarrow> 'a option \<Rightarrow> 'e + 'a" where
  "ok_or e x = (case x of None \<Rightarrow> Inl e | Some y \<Rightarrow> Inr y)"

text \<open>A loop of checks that stops at the first error: \<^verbatim>\<open>for x in xs { f(x)?; }\<close>.\<close>

fun try_all :: "('a \<Rightarrow> 'e + unit) \<Rightarrow> 'a list \<Rightarrow> 'e + unit" where
  "try_all f [] = Inr ()"
| "try_all f (x # xs) = and_then (f x) (\<lambda>_. try_all f xs)"

text \<open>\<^verbatim>\<open>iter.map(f).collect::<Result<Vec<_>, _>>()\<close>.\<close>

fun try_map :: "('a \<Rightarrow> 'e + 'b) \<Rightarrow> 'a list \<Rightarrow> 'e + 'b list" where
  "try_map f [] = Inr []"
| "try_map f (x # xs) = and_then (f x) (\<lambda>y. map_ok (\<lambda>ys. y # ys) (try_map f xs))"

lemma and_then_Inr_iff [result_simps]:
  "and_then m f = Inr y \<longleftrightarrow> (\<exists>x. m = Inr x \<and> f x = Inr y)"
  by (cases m) auto

lemma and_then_Inl_iff [result_simps]:
  "and_then m f = Inl e \<longleftrightarrow> m = Inl e \<or> (\<exists>x. m = Inr x \<and> f x = Inl e)"
  by (cases m) auto

lemma map_err_Inr_iff [result_simps]: "map_err g m = Inr x \<longleftrightarrow> m = Inr x"
  by (cases m) auto

lemma map_err_Inl_iff [result_simps]: "map_err g m = Inl f \<longleftrightarrow> (\<exists>e. m = Inl e \<and> f = g e)"
  by (cases m) auto

lemma map_ok_Inr_iff [result_simps]: "map_ok g m = Inr y \<longleftrightarrow> (\<exists>x. m = Inr x \<and> y = g x)"
  by (cases m) auto

lemma map_ok_Inl_iff [result_simps]: "map_ok g m = Inl e \<longleftrightarrow> m = Inl e"
  by (cases m) auto

lemma ok_or_Inr_iff [result_simps]: "ok_or e x = Inr y \<longleftrightarrow> x = Some y"
  by (auto simp: ok_or_def split: option.splits)

lemma ok_or_Inl_iff [result_simps]: "ok_or e x = Inl f \<longleftrightarrow> x = None \<and> f = e"
  by (auto simp: ok_or_def split: option.splits)

lemma is_ok_iff: "is_ok m \<longleftrightarrow> (\<exists>x. m = Inr x)"
  by (cases m) auto

lemma and_then_assoc: "and_then (and_then m f) g = and_then m (\<lambda>x. and_then (f x) g)"
  by (cases m) auto

lemma is_ok_and_then: "is_ok (and_then m f) \<longleftrightarrow> (\<exists>x. m = Inr x \<and> is_ok (f x))"
  by (cases m) auto

lemma try_all_ok_iff [result_simps]: "try_all f xs = Inr () \<longleftrightarrow> (\<forall>x \<in> set xs. f x = Inr ())"
  by (induction xs) (auto simp: result_simps)

lemma try_all_append: "try_all f (xs @ ys) = and_then (try_all f xs) (\<lambda>_. try_all f ys)"
  by (induction xs) (auto simp: and_then_assoc)

lemma try_map_Inr_iff: "try_map f xs = Inr ys \<longleftrightarrow> list_all2 (\<lambda>x y. f x = Inr y) xs ys"
proof (induction xs arbitrary: ys)
  case Nil
  then show ?case by auto
next
  case (Cons x xs)
  then show ?case by (cases ys) (auto simp: result_simps)
qed

lemma try_map_all_ok: "(\<And>x. x \<in> set xs \<Longrightarrow> f x = Inr (g x)) \<Longrightarrow> try_map f xs = Inr (map g xs)"
  by (induction xs) auto


section \<open>Text\<close>

text \<open>
  A \<^typ>\<open>string\<close> holds the bytes of a UTF-8 text. \<^verbatim>\<open>s.len()\<close> is \<^term>\<open>length s\<close>;
  \<^verbatim>\<open>s.chars().count()\<close> counts the bytes that do not continue a character
  (continuation bytes are \<^verbatim>\<open>10xxxxxx\<close>).
\<close>

definition is_continuation :: "char \<Rightarrow> bool" where
  "is_continuation c = (of_char c AND (0xC0 :: u8) = 0x80)"

definition chars_count :: "string \<Rightarrow> nat" where
  "chars_count s = length (filter (\<lambda>c. \<not> is_continuation c) s)"

text \<open>\<^verbatim>\<open>format!\<close>: the pieces of a message, kept together by the simplifier.\<close>

definition msg :: "string list \<Rightarrow> string" where
  "msg = concat"

text \<open>Decimal formatting of unsigned integers, and zero padding as in \<^verbatim>\<open>{:06}\<close>.\<close>

fun digit_char :: "nat \<Rightarrow> char" where
  "digit_char n = char_of (48 + n)"

fun show_nat :: "nat \<Rightarrow> string" where
  "show_nat n = (if n < 10 then [digit_char n] else show_nat (n div 10) @ [digit_char (n mod 10)])"

declare show_nat.simps [simp del]

definition show_u64 :: "u64 \<Rightarrow> string" where
  "show_u64 w = show_nat (unat w)"

definition show_int :: "int \<Rightarrow> string" where
  "show_int i = (if i < 0 then ''-'' @ show_nat (nat (- i)) else show_nat (nat i))"

text \<open>
  Width padding with zeros: the sign counts toward the width and stays in front, as Rust's
  \<^verbatim>\<open>{:04}\<close> does for signed integers.
\<close>

definition pad_zeros :: "nat \<Rightarrow> string \<Rightarrow> string" where
  "pad_zeros w s = replicate (w - length s) CHR ''0'' @ s"

definition show_int_pad :: "nat \<Rightarrow> int \<Rightarrow> string" where
  "show_int_pad w i =
     (if i < 0 then ''-'' @ pad_zeros (w - 1) (show_nat (nat (- i))) else pad_zeros w (show_nat (nat i)))"

text \<open>\<^verbatim>\<open>str::strip_prefix\<close>, \<^verbatim>\<open>str::split_once\<close> and \<^verbatim>\<open>str::contains\<close>.\<close>

fun strip_prefix :: "string \<Rightarrow> string \<Rightarrow> string option" where
  "strip_prefix [] s = Some s"
| "strip_prefix (p # ps) [] = None"
| "strip_prefix (p # ps) (c # cs) = (if p = c then strip_prefix ps cs else None)"

fun split_once :: "char \<Rightarrow> string \<Rightarrow> (string \<times> string) option" where
  "split_once d [] = None"
| "split_once d (c # cs) =
     (if c = d then Some ([], cs)
      else map_option (\<lambda>(a, b). (c # a, b)) (split_once d cs))"

fun str_contains :: "string \<Rightarrow> string \<Rightarrow> bool" where
  "str_contains [] pat = (pat = [])"
| "str_contains (c # cs) pat = (prefix pat (c # cs) \<or> str_contains cs pat)"

lemma strip_prefix_Some_iff: "strip_prefix p s = Some r \<longleftrightarrow> s = p @ r"
  by (induction p s rule: strip_prefix.induct) auto

lemma split_once_Some_iff: "split_once d s = Some (a, b) \<longleftrightarrow> s = a @ d # b \<and> d \<notin> set a"
proof (induction s arbitrary: a)
  case Nil
  then show ?case by simp
next
  case (Cons c cs)
  then show ?case by (cases a) auto
qed

lemma split_once_None_iff: "split_once d s = None \<longleftrightarrow> d \<notin> set s"
  by (induction s) auto

lemma str_contains_iff: "str_contains s pat \<longleftrightarrow> (\<exists>a b. s = a @ pat @ b)"
proof (induction s)
  case Nil
  then show ?case by auto
next
  case (Cons c cs)
  have "(\<exists>a b. c # cs = a @ pat @ b) \<longleftrightarrow> prefix pat (c # cs) \<or> (\<exists>a b. cs = a @ pat @ b)"
    by (auto simp: prefix_def Cons_eq_append_conv)
  with Cons.IH show ?case by simp
qed

lemma str_contains_infix: "str_contains (a @ pat @ b) pat"
  by (auto simp: str_contains_iff)

lemma str_contains_prefix: "str_contains (pat @ b) pat"
  using str_contains_infix [of "[]" pat b] by simp


subsection \<open>Decimal formatting is injective\<close>

lemma digit_char_inj: "m < 10 \<Longrightarrow> n < 10 \<Longrightarrow> digit_char m = digit_char n \<Longrightarrow> m = n"
proof -
  assume "m < 10" "n < 10" "digit_char m = digit_char n"
  then have "of_char (char_of (48 + m) :: char) = (of_char (char_of (48 + n) :: char) :: nat)"
    by simp
  then show "m = n"
    using \<open>m < 10\<close> \<open>n < 10\<close> by simp
qed

lemma show_nat_not_Nil [simp]: "show_nat n \<noteq> []" "[] \<noteq> show_nat n"
  by (subst show_nat.simps; simp)+

lemma show_nat_inj: "show_nat m = show_nat n \<Longrightarrow> m = n"
proof (induction m arbitrary: n rule: show_nat.induct)
  case (1 m)
  show ?case
  proof (cases "m < 10 \<or> n < 10")
    case True
    from True "1.prems" have "m < 10 \<and> n < 10 \<and> digit_char m = digit_char n"
      by (auto simp: show_nat.simps [of m] show_nat.simps [of n] simp del: digit_char.simps split: if_splits)
    then show ?thesis
      using digit_char_inj by blast
  next
    case False
    then have eq: "show_nat (m div 10) = show_nat (n div 10)"
      and d: "digit_char (m mod 10) = digit_char (n mod 10)"
      using "1.prems"
      by (auto simp: show_nat.simps [of m] show_nat.simps [of n] simp del: digit_char.simps split: if_splits)
    have "m div 10 = n div 10"
      using "1.IH" False eq by auto
    moreover have "m mod 10 = n mod 10"
      using digit_char_inj [OF _ _ d] by simp
    ultimately show ?thesis
      by (metis div_mult_mod_eq)
  qed
qed

lemma show_u64_inj: "show_u64 v = show_u64 w \<longleftrightarrow> v = w"
  unfolding show_u64_def using show_nat_inj by (metis word_unat_eq_iff)

lemma digits_of_show_nat: "set (show_nat n) \<subseteq> digit_char ` {0..<10}"
proof (induction n rule: show_nat.induct)
  case (1 n)
  then show ?case
    by (subst show_nat.simps) (auto simp del: digit_char.simps)
qed

lemma slash_not_in_show_nat: "CHR ''/'' \<notin> set (show_nat n)"
proof -
  have "digit_char d \<noteq> CHR ''/''" if "d < 10" for d
  proof
    assume "digit_char d = CHR ''/''"
    then have "(of_char (digit_char d) :: nat) = of_char CHR ''/''" by simp
    with that show False by simp
  qed
  then show ?thesis
    using digits_of_show_nat [of n] by force
qed


subsection \<open>Trimming and parsing\<close>

text \<open>
  \<^verbatim>\<open>str::trim\<close> removes the characters with the Unicode property \<^verbatim>\<open>White_Space\<close>, given here
  by their UTF-8 bytes.
\<close>

definition whitespace :: "string list" where
  "whitespace =
     map (\<lambda>n. [char_of n]) ([9, 10, 11, 12, 13, 32] :: nat list) @
     map (map char_of) ([[0xC2, 0x85], [0xC2, 0xA0], [0xE1, 0x9A, 0x80]] :: nat list list) @
     map (\<lambda>n. [char_of (0xE2 :: nat), char_of (0x80 :: nat), char_of n])
       ([0x80, 0x81, 0x82, 0x83, 0x84, 0x85, 0x86, 0x87, 0x88, 0x89, 0x8A, 0xA8, 0xA9, 0xAF] :: nat list) @
     map (map char_of) ([[0xE2, 0x81, 0x9F], [0xE3, 0x80, 0x80]] :: nat list list)"

fun strip_any :: "string list \<Rightarrow> string \<Rightarrow> string option" where
  "strip_any [] s = None"
| "strip_any (w # ws) s =
     (if w = [] then strip_any ws s
      else case strip_prefix w s of Some r \<Rightarrow> Some r | None \<Rightarrow> strip_any ws s)"

lemma strip_any_shorter: "strip_any ws s = Some r \<Longrightarrow> length r < length s"
  by (induction ws) (auto simp: strip_prefix_Some_iff split: if_splits option.splits)

function trim_front :: "string list \<Rightarrow> string \<Rightarrow> string" where
  "trim_front ws s = (case strip_any ws s of None \<Rightarrow> s | Some r \<Rightarrow> trim_front ws r)"
  by pat_completeness simp

termination
  by (relation "measure (length \<circ> snd)") (auto dest: strip_any_shorter)

declare trim_front.simps [simp del]

definition str_trim :: "string \<Rightarrow> string" where
  "str_trim s = rev (trim_front (map rev whitespace) (rev (trim_front whitespace s)))"

text \<open>\<^verbatim>\<open>str::parse\<close> of an unsigned integer of the given bound.\<close>

definition digit_value :: "char \<Rightarrow> nat option" where
  "digit_value c = (let n = of_char c :: nat in if 48 \<le> n \<and> n \<le> 57 then Some (n - 48) else None)"

fun parse_digits :: "nat \<Rightarrow> nat \<Rightarrow> string \<Rightarrow> nat option" where
  "parse_digits bound acc [] = Some acc"
| "parse_digits bound acc (c # cs) =
     (case digit_value c of
        None \<Rightarrow> None
      | Some d \<Rightarrow> if acc * 10 + d < bound then parse_digits bound (acc * 10 + d) cs else None)"

definition parse_unsigned :: "nat \<Rightarrow> string \<Rightarrow> nat option" where
  "parse_unsigned bound s =
     (let digits = (case s of CHR ''+'' # cs \<Rightarrow> cs | _ \<Rightarrow> s)
      in if digits = [] then None else parse_digits bound 0 digits)"

definition parse_u32 :: "string \<Rightarrow> nat option" where
  "parse_u32 = parse_unsigned (2 ^ 32)"


section \<open>Hash maps in iteration order\<close>

text \<open>
  A \<^verbatim>\<open>HashMap\<close> is the list of its entries in the order an iteration visits them, with
  distinct keys. Rust leaves that order unspecified, so a result that depends on it is
  proved independent of it (\<open>mset\<close>-equal lists give the same result).
\<close>

type_synonym ('k, 'v) hmap = "('k \<times> 'v) list"

definition hm_ok :: "('k, 'v) hmap \<Rightarrow> bool" where
  "hm_ok m = distinct (map fst m)"

definition hm_get :: "('k, 'v) hmap \<Rightarrow> 'k \<Rightarrow> 'v option" where
  "hm_get m k = map_of m k"

definition hm_insert :: "'k \<Rightarrow> 'v \<Rightarrow> ('k, 'v) hmap \<Rightarrow> ('k, 'v) hmap" where
  "hm_insert k v m = AList.update k v m"

lemma hm_ok_Nil [simp]: "hm_ok []"
  by (simp add: hm_ok_def)

lemma hm_ok_insert [simp]: "hm_ok m \<Longrightarrow> hm_ok (hm_insert k v m)"
  by (simp add: hm_ok_def hm_insert_def distinct_update)

lemma hm_get_Nil [simp]: "hm_get [] k = None"
  by (simp add: hm_get_def)

lemma hm_get_insert [simp]: "hm_get (hm_insert k v m) j = (if j = k then Some v else hm_get m j)"
  by (auto simp: hm_get_def hm_insert_def update_conv')

lemma hm_keys_insert [simp]: "fst ` set (hm_insert k v m) = insert k (fst ` set m)"
  by (simp add: hm_insert_def dom_update)

lemma hm_get_eq_Some_iff: "hm_ok m \<Longrightarrow> hm_get m k = Some v \<longleftrightarrow> (k, v) \<in> set m"
  by (simp add: hm_ok_def hm_get_def)

lemma hm_get_eq_None_iff: "hm_get m k = None \<longleftrightarrow> k \<notin> fst ` set m"
  by (simp add: hm_get_def map_of_eq_None_iff)


section \<open>Sorting with a comparator\<close>

datatype ordering = Less | Equal | Greater

fun reverse_ordering :: "ordering \<Rightarrow> ordering" where
  "reverse_ordering Less = Greater"
| "reverse_ordering Equal = Equal"
| "reverse_ordering Greater = Less"

fun then_with :: "ordering \<Rightarrow> ordering \<Rightarrow> ordering" where
  "then_with Equal o2 = o2"
| "then_with Less o2 = Less"
| "then_with Greater o2 = Greater"

definition cmp_ord :: "'a::linorder \<Rightarrow> 'a \<Rightarrow> ordering" where
  "cmp_ord a b = (if a < b then Less else if a = b then Equal else Greater)"

text \<open>\<^verbatim>\<open>sort_by\<close> is a stable sort; insertion keeps equal elements in their order.\<close>

fun insert_by :: "('a \<Rightarrow> 'a \<Rightarrow> ordering) \<Rightarrow> 'a \<Rightarrow> 'a list \<Rightarrow> 'a list" where
  "insert_by c x [] = [x]"
| "insert_by c x (y # ys) = (if c x y = Greater then y # insert_by c x ys else x # y # ys)"

definition sort_by :: "('a \<Rightarrow> 'a \<Rightarrow> ordering) \<Rightarrow> 'a list \<Rightarrow> 'a list" where
  "sort_by c xs = foldr (insert_by c) xs []"

lemma sort_by_Nil [simp]: "sort_by c [] = []"
  and sort_by_Cons [simp]: "sort_by c (x # xs) = insert_by c x (sort_by c xs)"
  by (simp_all add: sort_by_def)

lemma mset_insert_by [simp]: "mset (insert_by c x xs) = add_mset x (mset xs)"
  by (induction xs) auto

lemma mset_sort_by [simp]: "mset (sort_by c xs) = mset xs"
  by (induction xs) auto

lemma set_sort_by [simp]: "set (sort_by c xs) = set xs"
  by (metis mset_sort_by set_mset_mset)

lemma length_sort_by [simp]: "length (sort_by c xs) = length xs"
  by (metis mset_sort_by size_mset)

text \<open>
  The contract of a comparator that the sort relies on: it is the comparison of a key in a
  linear order.
\<close>

locale key_comparator =
  fixes c :: "'a \<Rightarrow> 'a \<Rightarrow> ordering"
    and key :: "'a \<Rightarrow> 'k::linorder"
  assumes cmp_key: "c x y = cmp_ord (key x) (key y)"
begin

lemma greater_iff: "c x y = Greater \<longleftrightarrow> key y < key x"
  by (auto simp: cmp_key cmp_ord_def)

lemma insert_by_insort: "insert_by c x xs = insort_key key x xs"
  by (induction xs) (auto simp: greater_iff not_less)

lemma sort_by_sort_key: "sort_by c xs = sort_key key xs"
  by (induction xs) (simp_all add: insert_by_insort sort_key_def)

lemma sorted_sort_by: "sorted (map key (sort_by c xs))"
  by (simp add: sort_by_sort_key)

lemma sort_by_perm:
  assumes "mset xs = mset ys" and "inj_on key (set xs)"
  shows "sort_by c xs = sort_by c ys"
  unfolding sort_by_sort_key
proof (rule properties_for_sort_key)
  show "mset (sort_key key ys) = mset xs"
    using assms by simp
  show "sorted (map key (sort_key key ys))"
    by simp
  fix k
  assume "k \<in> set (sort_key key ys)"
  moreover have "set xs = set ys"
    using assms(1) by (metis set_mset_mset)
  ultimately have k: "k \<in> set xs" "k \<in> set ys"
    by simp_all
  have only_k: "filter (\<lambda>x. key k = key x) zs = replicate (count_list zs k) k"
    if "set zs \<subseteq> set xs" for zs
    using that
  proof (induction zs)
    case (Cons z zs)
    then show ?case
      using assms(2) k(1) by (auto dest: inj_onD)
  qed simp
  have "count_list (sort_key key ys) k = count_list xs k"
    using assms(1) by (metis count_mset mset_sort)
  moreover have "set (sort_key key ys) \<subseteq> set xs"
    using \<open>set xs = set ys\<close> by simp
  ultimately show "filter (\<lambda>x. key k = key x) (sort_key key ys) = filter (\<lambda>x. key k = key x) xs"
    by (simp add: only_k)
qed

end

text \<open>Comparison by the element itself, as \<^verbatim>\<open>Vec<String>::sort\<close>.\<close>

interpretation self_cmp: key_comparator "cmp_ord :: 'a::linorder \<Rightarrow> 'a \<Rightarrow> ordering" "\<lambda>x. x"
  by unfold_locales simp

end
