(* ===== verification/Floats.thy ===== *)
theory Floats
  imports Prelude "HOL-Library.Log_Nat"
begin

text \<open>
  IEEE 754 binary32 and binary64 as the source's \<^verbatim>\<open>f32\<close> and \<^verbatim>\<open>f64\<close> use them: bit
  patterns in a word, comparison, and the correctly rounded (nearest, ties to even)
  operations.  A magnitude pattern (the pattern without its sign bit) of a format with
  \<open>F\<close> fraction bits stands for a natural number of units, the unit being the smallest
  subnormal; rounding maps a fraction of units back to the nearest pattern.  Everything is
  integer arithmetic, so closed terms evaluate.
\<close>


section \<open>Patterns and rounding, for any format\<close>

text \<open>The number of units of a finite magnitude pattern.\<close>

definition mag_val :: "nat \<Rightarrow> nat \<Rightarrow> nat" where
  "mag_val F n = (if n < 2 ^ F then n else (2 ^ F + n mod 2 ^ F) * 2 ^ (n div 2 ^ F - 1))"

text \<open>The pattern of infinity, for \<open>E\<close> exponent bits.\<close>

definition inf_mag :: "nat \<Rightarrow> nat \<Rightarrow> nat" where
  "inf_mag F E = (2 ^ E - 1) * 2 ^ F"

text \<open>The integer nearest to \<open>a / b\<close>, ties to even.\<close>

definition rne :: "nat \<Rightarrow> nat \<Rightarrow> nat" where
  "rne a b = (let q = a div b; r = a mod b
              in if 2 * r < b \<or> (2 * r = b \<and> even q) then q else Suc q)"

text \<open>The magnitude pattern nearest to \<open>a / b\<close> units, saturating at infinity.\<close>

definition round_mag :: "nat \<Rightarrow> nat \<Rightarrow> nat \<Rightarrow> nat \<Rightarrow> nat" where
  "round_mag F E a b =
     (let k = floorlog 2 (a div b) - Suc F
      in min (inf_mag F E) (k * 2 ^ F + rne a (b * 2 ^ k)))"


subsection \<open>Rounding is monotone\<close>

lemma rne_ge_div: "a div b \<le> rne a b"
  by (simp add: rne_def Let_def)

lemma rne_le_Suc_div: "rne a b \<le> Suc (a div b)"
  by (simp add: rne_def Let_def)

lemma div_le_of_frac_le:
  fixes a b c d :: nat
  assumes "0 < b" "0 < d" "a * d \<le> c * b"
  shows "a div b \<le> c div d"
proof -
  have "a div b = (a * d) div (b * d)"
    using assms(2) by simp
  also have "\<dots> \<le> (c * b) div (b * d)"
    using assms(3) by (rule div_le_mono)
  also have "\<dots> = c div d"
    using assms(1) by (simp add: mult.commute)
  finally show ?thesis .
qed

lemma rne_mono:
  assumes b: "0 < b" and d: "0 < d" and le: "a * d \<le> c * b"
  shows "rne a b \<le> rne c d"
proof (cases "a div b < c div d")
  case True
  then show ?thesis
    using rne_le_Suc_div [of a b] rne_ge_div [of c d] by linarith
next
  case False
  then have q: "a div b = c div d"
    using div_le_of_frac_le [OF b d le] by simp
  define q where "q = c div d"
  have a: "a = q * b + a mod b" and c: "c = q * d + c mod d"
    unfolding q_def using q by (metis div_mult_mod_eq)+
  have "(q * b + a mod b) * d \<le> (q * d + c mod d) * b"
    using le a c by metis
  then have r: "(a mod b) * d \<le> (c mod d) * b"
    by (simp add: algebra_simps)
  have key: "b \<le> 2 * (a mod b) \<Longrightarrow> d \<le> 2 * (c mod d)"
  proof -
    assume "b \<le> 2 * (a mod b)"
    then have "b * d \<le> 2 * ((c mod d) * b)"
      using r by (metis (no_types) mult.assoc mult_le_mono order_trans order_refl)
    then show "d \<le> 2 * (c mod d)"
      using b by (simp add: mult.commute mult.left_commute)
  qed
  have strict: "2 * (c mod d) = d \<Longrightarrow> 2 * (a mod b) \<le> b"
  proof -
    assume "2 * (c mod d) = d"
    then have "2 * ((a mod b) * d) \<le> d * b"
      using r by (metis mult.assoc mult_le_mono2)
    then show "2 * (a mod b) \<le> b"
      using d by (simp add: mult.commute mult.left_commute)
  qed
  show ?thesis
    unfolding rne_def Let_def q using key strict by auto
qed

lemma rne_exact: "0 < b \<Longrightarrow> rne (n * b) b = n"
  by (simp add: rne_def)

lemma floorlog_binade:
  assumes "Suc F < floorlog 2 q"
  shows "2 ^ F * 2 ^ (floorlog 2 q - Suc F) \<le> q \<and> q < 2 ^ Suc F * 2 ^ (floorlog 2 q - Suc F)"
proof -
  have q: "0 < q"
    using assms by (cases q) (auto simp: floorlog_def)
  have "2 ^ (floorlog 2 q - 1) \<le> q \<and> q < 2 ^ floorlog 2 q"
    using floorlog_bounds [OF q, of 2] by simp
  moreover have "2 ^ F * 2 ^ (floorlog 2 q - Suc F) = (2 ^ (floorlog 2 q - 1) :: nat)"
    using assms by (simp flip: power_add)
  moreover have "2 ^ Suc F * 2 ^ (floorlog 2 q - Suc F) = (2 ^ floorlog 2 q :: nat)"
    using assms by (simp flip: power_add del: power_Suc)
  ultimately show ?thesis
    by simp
qed

text \<open>The unsaturated pattern, and its bounds by the exponent \<open>k\<close>.\<close>

definition pattern :: "nat \<Rightarrow> nat \<Rightarrow> nat \<Rightarrow> nat" where
  "pattern F a b = (let k = floorlog 2 (a div b) - Suc F in k * 2 ^ F + rne a (b * 2 ^ k))"

lemma round_mag_pattern: "round_mag F E a b = min (inf_mag F E) (pattern F a b)"
  by (simp add: round_mag_def pattern_def Let_def)

lemma pattern_bounds:
  fixes F a b :: nat
  defines "k \<equiv> floorlog 2 (a div b) - Suc F"
  assumes b: "0 < b"
  shows "pattern F a b \<le> k * 2 ^ F + 2 ^ Suc F"
    and "0 < k \<Longrightarrow> k * 2 ^ F + 2 ^ F \<le> pattern F a b"
proof -
  have pat: "pattern F a b = k * 2 ^ F + rne a (b * 2 ^ k)"
    by (simp add: pattern_def k_def Let_def)
  have "a div b < 2 ^ Suc F * 2 ^ k"
  proof (cases "k = 0")
    case True
    then have "a div b < 2 ^ Suc F"
      using floorlog_leD [of 2 "a div b" "Suc F"] k_def by simp
    then show ?thesis using True by simp
  next
    case False
    then show ?thesis
      using floorlog_binade [of F "a div b"] unfolding k_def by auto
  qed
  then have "a div (b * 2 ^ k) < 2 ^ Suc F"
    by (simp add: div_mult2_eq less_mult_imp_div_less)
  then have "rne a (b * 2 ^ k) \<le> 2 ^ Suc F"
    using rne_le_Suc_div [of a "b * 2 ^ k"] by linarith
  then show "pattern F a b \<le> k * 2 ^ F + 2 ^ Suc F"
    by (simp add: pat)
  assume "0 < k"
  then have "2 ^ F * 2 ^ k \<le> a div b"
    using floorlog_binade [of F "a div b"] unfolding k_def by auto
  then have "2 ^ F \<le> a div (b * 2 ^ k)"
    by (simp add: div_mult2_eq less_eq_div_iff_mult_less_eq)
  then show "k * 2 ^ F + 2 ^ F \<le> pattern F a b"
    using rne_ge_div [of a "b * 2 ^ k"] by (simp add: pat)
qed

lemma pattern_mono:
  assumes b: "0 < b" and d: "0 < d" and le: "a * d \<le> c * b"
  shows "pattern F a b \<le> pattern F c d"
proof -
  define k1 where "k1 = floorlog 2 (a div b) - Suc F"
  define k2 where "k2 = floorlog 2 (c div d) - Suc F"
  have "floorlog 2 (a div b) \<le> floorlog 2 (c div d)"
    by (rule floorlog_mono) (rule div_le_of_frac_le [OF assms])
  then have "k1 \<le> k2"
    by (simp add: k1_def k2_def)
  then consider "k1 = k2" | "k1 < k2"
    by linarith
  then show ?thesis
  proof cases
    case 1
    have "a * (d * 2 ^ k2) \<le> c * (b * 2 ^ k2)"
      using le by (simp flip: mult.assoc)
    then have "rne a (b * 2 ^ k1) \<le> rne c (d * 2 ^ k2)"
      using b d 1 by (intro rne_mono) simp_all
    then show ?thesis
      using 1 by (simp add: pattern_def Let_def k1_def k2_def)
  next
    case 2
    have "pattern F a b \<le> k1 * 2 ^ F + 2 ^ Suc F"
      using pattern_bounds(1) [OF b] k1_def by simp
    also have "\<dots> = Suc k1 * 2 ^ F + 2 ^ F"
      by simp
    also have "\<dots> \<le> k2 * 2 ^ F + 2 ^ F"
      using 2 by (simp only: add_le_cancel_right mult_le_mono1 Suc_leI)
    also have "\<dots> \<le> pattern F c d"
      using pattern_bounds(2) [OF d, of c F] 2 k2_def by simp
    finally show ?thesis .
  qed
qed

lemma round_mag_mono:
  "0 < b \<Longrightarrow> 0 < d \<Longrightarrow> a * d \<le> c * b \<Longrightarrow> round_mag F E a b \<le> round_mag F E c d"
  using pattern_mono [of b d a c F] by (simp add: round_mag_pattern min.coboundedI2)

lemma round_mag_le_inf: "round_mag F E a b \<le> inf_mag F E"
  by (simp add: round_mag_pattern)


subsection \<open>Representable values are fixed\<close>

lemma floorlog_in_binade:
  assumes "2 ^ F \<le> m" "m < 2 ^ Suc F"
  shows "floorlog 2 m = Suc F"
  using floorlog_leI [of m 2 "Suc F"] floorlog_ge_SucI [of 2 F m] assms by simp

lemma pattern_mag_val: "pattern F (mag_val F n) (Suc 0) = n"
proof (cases "n < 2 ^ F")
  case True
  then have "floorlog 2 n \<le> Suc F"
    by (intro floorlog_leI) simp_all
  then show ?thesis
    using True rne_exact [of 1 n] by (simp add: pattern_def mag_val_def Let_def)
next
  case False
  define e where "e = n div 2 ^ F - 1"
  define m where "m = 2 ^ F + n mod 2 ^ F"
  have "n div 2 ^ F \<noteq> 0"
    using False by (simp add: div_eq_0_iff)
  then have n: "n = e * 2 ^ F + m"
    unfolding e_def m_def by (metis One_nat_def Suc_pred add.assoc add.commute div_mult_mod_eq mult_Suc neq0_conv)
  have m: "2 ^ F \<le> m" "m < 2 ^ Suc F"
    by (simp_all add: m_def)
  have v: "mag_val F n = m * 2 ^ e"
    using False by (simp add: mag_val_def m_def e_def)
  have "0 < m"
    using m(1) by (metis less_le_trans pos2 zero_less_power)
  then have "floorlog 2 (mag_val F n) = Suc F + e"
    using floorlog_in_binade [OF m] v by simp
  then show ?thesis
    using rne_exact [of "2 ^ e" m] v n by (simp add: pattern_def Let_def)
qed

lemma round_mag_mag_val: "n \<le> inf_mag F E \<Longrightarrow> round_mag F E (mag_val F n) (Suc 0) = n"
  by (simp add: round_mag_pattern pattern_mag_val)

lemma mag_val_zero [simp]: "mag_val F 0 = 0"
  by (simp add: mag_val_def)

lemma round_mag_zero [simp]: "0 < b \<Longrightarrow> round_mag F E 0 b = 0"
  by (simp add: round_mag_def rne_def floorlog_def)

lemma mag_val_mono: "m \<le> n \<Longrightarrow> mag_val F m \<le> mag_val F n"
proof (rule ccontr)
  assume "m \<le> n" and "\<not> mag_val F m \<le> mag_val F n"
  then have "pattern F (mag_val F n) (Suc 0) \<le> pattern F (mag_val F m) (Suc 0)"
    by (intro pattern_mono) simp_all
  then have "m = n"
    using \<open>m \<le> n\<close> by (simp add: pattern_mag_val)
  then show False
    using \<open>\<not> _\<close> by simp
qed

lemma mag_val_inj: "mag_val F m = mag_val F n \<Longrightarrow> m = n"
  by (metis pattern_mag_val)

lemma mag_val_pos: "0 < n \<Longrightarrow> 0 < mag_val F n"
  using mag_val_inj [of F n 0] by fastforce

lemma pattern_shifted:
  assumes "m < 2 ^ Suc F"
  shows "mag_val F (pattern F (m * 2 ^ e) (Suc 0)) = m * 2 ^ e"
proof (cases "m = 0")
  case True
  then show ?thesis
    by (simp add: pattern_def rne_def floorlog_def)
next
  case False
  define k where "k = floorlog 2 (m * 2 ^ e) - Suc F"
  have fl: "floorlog 2 (m * 2 ^ e) = floorlog 2 m + e"
    using False by simp
  have "floorlog 2 m \<le> Suc F"
    using assms by (intro floorlog_leI) simp_all
  then have k: "k \<le> e"
    by (simp add: k_def fl)
  define q where "q = m * 2 ^ (e - k)"
  have v: "m * 2 ^ e = q * 2 ^ k"
    using k by (simp add: q_def flip: power_add)
  have p: "pattern F (m * 2 ^ e) (Suc 0) = k * 2 ^ F + q"
  proof -
    have "floorlog 2 (q * 2 ^ k) - Suc F = k"
      using v k_def by simp
    then show ?thesis
      using rne_exact [of "2 ^ k" q] v by (simp add: pattern_def Let_def)
  qed
  show ?thesis
  proof (cases "k = 0")
    case True
    then have "floorlog 2 (m * 2 ^ e) \<le> Suc F"
      by (simp add: k_def)
    then have "q < 2 ^ Suc F"
      using True v floorlog_leD [of 2 q "Suc F"] by simp
    then have "q div 2 ^ F \<le> 1"
      by (simp add: less_mult_imp_div_less flip: less_Suc_eq_le)
    moreover have "2 ^ F + q mod 2 ^ F = q" if "\<not> q < 2 ^ F"
      using that \<open>q < 2 ^ Suc F\<close> by (simp add: le_mod_geq less_diff_conv2)
    moreover have "pattern F (m * 2 ^ e) (Suc 0) = q" "m * 2 ^ e = q"
      using True p v by simp_all
    ultimately show ?thesis
      by (simp add: mag_val_def)
  next
    case False
    have fk: "floorlog 2 (q * 2 ^ k) - Suc F = k"
      using v k_def by metis
    then have "Suc F < floorlog 2 (q * 2 ^ k)"
      using False by linarith
    from floorlog_binade [OF this] fk
    have "2 ^ F * 2 ^ k \<le> q * 2 ^ k" "q * 2 ^ k < 2 ^ Suc F * 2 ^ k"
      by (simp_all only:)
    then have q: "2 ^ F \<le> q" "q < 2 ^ Suc F"
      by simp_all
    obtain r where r: "q = 2 ^ F + r" "r < 2 ^ F"
    proof (rule that [of "q - 2 ^ F"])
      show "q = 2 ^ F + (q - 2 ^ F)" "q - 2 ^ F < 2 ^ F"
        using q by simp_all
    qed
    have "k * 2 ^ F + q = Suc k * 2 ^ F + r"
      using r by simp
    then have "(k * 2 ^ F + q) div 2 ^ F = Suc k" "(k * 2 ^ F + q) mod 2 ^ F = r"
      using r(2) by (simp_all del: mult_Suc)
    moreover have "\<not> k * 2 ^ F + q < 2 ^ F"
      using q by simp
    ultimately show ?thesis
      using p v r by (simp add: mag_val_def)
  qed
qed


section \<open>Signed operations, for any format\<close>

text \<open>
  A full pattern has its sign in bit \<open>E + F\<close>.  \<open>ulp_exp\<close> is the exponent of the unit: a
  finite magnitude is \<open>mag_val F m * 2 ^ - ulp_exp F E\<close>.
\<close>

definition ulp_exp :: "nat \<Rightarrow> nat \<Rightarrow> nat" where
  "ulp_exp F E = 2 ^ (E - 1) + F - 2"

definition fl_sign :: "nat \<Rightarrow> nat \<Rightarrow> nat \<Rightarrow> bool" where
  "fl_sign F E x = (2 ^ (E + F) \<le> x)"

definition fl_mag :: "nat \<Rightarrow> nat \<Rightarrow> nat \<Rightarrow> nat" where
  "fl_mag F E x = x mod 2 ^ (E + F)"

definition fl_pack :: "nat \<Rightarrow> nat \<Rightarrow> bool \<Rightarrow> nat \<Rightarrow> nat" where
  "fl_pack F E s m = (if s then 2 ^ (E + F) + m else m)"

definition fl_is_nan :: "nat \<Rightarrow> nat \<Rightarrow> nat \<Rightarrow> bool" where
  "fl_is_nan F E x = (inf_mag F E < fl_mag F E x)"

definition fl_is_inf :: "nat \<Rightarrow> nat \<Rightarrow> nat \<Rightarrow> bool" where
  "fl_is_inf F E x = (fl_mag F E x = inf_mag F E)"

definition fl_is_finite :: "nat \<Rightarrow> nat \<Rightarrow> nat \<Rightarrow> bool" where
  "fl_is_finite F E x = (fl_mag F E x < inf_mag F E)"

text \<open>The pattern an operation returns for a NaN; Rust leaves its payload open.\<close>

definition fl_nan :: "nat \<Rightarrow> nat \<Rightarrow> nat" where
  "fl_nan F E = inf_mag F E + 2 ^ (F - 1)"

definition fl_units :: "nat \<Rightarrow> nat \<Rightarrow> nat \<Rightarrow> int" where
  "fl_units F E x = (if fl_sign F E x then - 1 else 1) * int (mag_val F (fl_mag F E x))"

definition fl_add :: "nat \<Rightarrow> nat \<Rightarrow> nat \<Rightarrow> nat \<Rightarrow> nat" where
  "fl_add F E x y =
     (if fl_is_nan F E x \<or> fl_is_nan F E y then fl_nan F E
      else if fl_is_inf F E x then
        (if fl_is_inf F E y \<and> fl_sign F E x \<noteq> fl_sign F E y then fl_nan F E else x)
      else if fl_is_inf F E y then y
      else let s = fl_units F E x + fl_units F E y
           in if s = 0 then fl_pack F E (fl_sign F E x \<and> fl_sign F E y) 0
              else fl_pack F E (s < 0) (round_mag F E (nat \<bar>s\<bar>) 1))"

definition fl_neg :: "nat \<Rightarrow> nat \<Rightarrow> nat \<Rightarrow> nat" where
  "fl_neg F E x = fl_pack F E (\<not> fl_sign F E x) (fl_mag F E x)"

definition fl_abs :: "nat \<Rightarrow> nat \<Rightarrow> nat \<Rightarrow> nat" where
  "fl_abs F E x = fl_mag F E x"

definition fl_mul :: "nat \<Rightarrow> nat \<Rightarrow> nat \<Rightarrow> nat \<Rightarrow> nat" where
  "fl_mul F E x y =
     (let s = (fl_sign F E x \<noteq> fl_sign F E y)
      in if fl_is_nan F E x \<or> fl_is_nan F E y then fl_nan F E
         else if fl_is_inf F E x \<or> fl_is_inf F E y then
           (if fl_mag F E x = 0 \<or> fl_mag F E y = 0 then fl_nan F E
            else fl_pack F E s (inf_mag F E))
         else fl_pack F E s
           (round_mag F E (mag_val F (fl_mag F E x) * mag_val F (fl_mag F E y)) (2 ^ ulp_exp F E)))"

definition fl_div :: "nat \<Rightarrow> nat \<Rightarrow> nat \<Rightarrow> nat \<Rightarrow> nat" where
  "fl_div F E x y =
     (let s = (fl_sign F E x \<noteq> fl_sign F E y)
      in if fl_is_nan F E x \<or> fl_is_nan F E y then fl_nan F E
         else if fl_is_inf F E x then
           (if fl_is_inf F E y then fl_nan F E else fl_pack F E s (inf_mag F E))
         else if fl_is_inf F E y then fl_pack F E s 0
         else if fl_mag F E y = 0 then
           (if fl_mag F E x = 0 then fl_nan F E else fl_pack F E s (inf_mag F E))
         else fl_pack F E s
           (round_mag F E (mag_val F (fl_mag F E x) * 2 ^ ulp_exp F E) (mag_val F (fl_mag F E y))))"

text \<open>Conversion of an unsigned integer (\<^verbatim>\<open>as f32\<close>), rounded to nearest.\<close>

definition fl_of_nat :: "nat \<Rightarrow> nat \<Rightarrow> nat \<Rightarrow> nat" where
  "fl_of_nat F E n = round_mag F E (n * 2 ^ ulp_exp F E) 1"

text \<open>
  Numeric comparison goes by a key on which \<open>-0\<close> and \<open>+0\<close> agree, \<^verbatim>\<open>total_cmp\<close> by one that
  separates them and orders NaNs by sign and payload.
\<close>

definition fl_key :: "nat \<Rightarrow> nat \<Rightarrow> nat \<Rightarrow> int" where
  "fl_key F E x = (if fl_sign F E x then - int (fl_mag F E x) else int (fl_mag F E x))"

definition fl_total_key :: "nat \<Rightarrow> nat \<Rightarrow> nat \<Rightarrow> int" where
  "fl_total_key F E x = (if fl_sign F E x then - int (fl_mag F E x) - 1 else int (fl_mag F E x))"

definition fl_lt :: "nat \<Rightarrow> nat \<Rightarrow> nat \<Rightarrow> nat \<Rightarrow> bool" where
  "fl_lt F E x y \<longleftrightarrow> \<not> fl_is_nan F E x \<and> \<not> fl_is_nan F E y \<and> fl_key F E x < fl_key F E y"

definition fl_eq :: "nat \<Rightarrow> nat \<Rightarrow> nat \<Rightarrow> nat \<Rightarrow> bool" where
  "fl_eq F E x y \<longleftrightarrow> \<not> fl_is_nan F E x \<and> \<not> fl_is_nan F E y \<and> fl_key F E x = fl_key F E y"


subsection \<open>Non-negative patterns\<close>

text \<open>
  The patterns up to infinity are the non-negative numbers, in the order of the patterns.
\<close>

lemma inf_mag_less: "0 < F \<Longrightarrow> inf_mag F E < 2 ^ (E + F)"
  by (simp add: inf_mag_def power_add)

lemma nonneg_fields:
  assumes "x \<le> inf_mag F E" "0 < F"
  shows "fl_mag F E x = x" "\<not> fl_sign F E x" "\<not> fl_is_nan F E x"
    "fl_is_inf F E x \<longleftrightarrow> x = inf_mag F E" "fl_is_finite F E x \<longleftrightarrow> x < inf_mag F E"
    "fl_key F E x = int x" "fl_total_key F E x = int x" "fl_units F E x = int (mag_val F x)"
proof -
  have "x < 2 ^ (E + F)"
    using assms inf_mag_less [of F E] by linarith
  then show m: "fl_mag F E x = x" and s: "\<not> fl_sign F E x"
    by (simp_all add: fl_mag_def fl_sign_def)
  show "\<not> fl_is_nan F E x" "fl_is_inf F E x \<longleftrightarrow> x = inf_mag F E"
    "fl_is_finite F E x \<longleftrightarrow> x < inf_mag F E" "fl_key F E x = int x" "fl_total_key F E x = int x"
    "fl_units F E x = int (mag_val F x)"
    using m s assms(1)
    by (simp_all add: fl_is_nan_def fl_is_inf_def fl_is_finite_def fl_key_def fl_total_key_def fl_units_def)
qed

lemma fl_add_nonneg:
  assumes "x \<le> inf_mag F E" "y \<le> inf_mag F E" "0 < F"
  shows "fl_add F E x y =
    (if x = inf_mag F E \<or> y = inf_mag F E then inf_mag F E
     else round_mag F E (mag_val F x + mag_val F y) 1)"
proof -
  have "nat \<bar>int (mag_val F x) + int (mag_val F y)\<bar> = mag_val F x + mag_val F y"
    by simp
  then show ?thesis
    using nonneg_fields [OF assms(1,3)] nonneg_fields [OF assms(2,3)]
    by (auto simp: fl_add_def fl_pack_def Let_def simp flip: of_nat_add)
qed

lemma fl_add_le_inf:
  "x \<le> inf_mag F E \<Longrightarrow> y \<le> inf_mag F E \<Longrightarrow> 0 < F \<Longrightarrow> fl_add F E x y \<le> inf_mag F E"
  by (simp add: fl_add_nonneg round_mag_le_inf)

lemma fl_add_mono:
  assumes "x \<le> x'" "y \<le> y'" "x' \<le> inf_mag F E" "y' \<le> inf_mag F E" "0 < F"
  shows "fl_add F E x y \<le> fl_add F E x' y'"
proof -
  have "mag_val F x + mag_val F y \<le> mag_val F x' + mag_val F y'"
    using assms(1,2) by (intro add_mono mag_val_mono)
  then have "round_mag F E (mag_val F x + mag_val F y) 1
      \<le> round_mag F E (mag_val F x' + mag_val F y') 1"
    by (intro round_mag_mono) simp_all
  then show ?thesis
    using assms by (auto simp: fl_add_nonneg round_mag_le_inf)
qed

lemma fl_add_zero: "x \<le> inf_mag F E \<Longrightarrow> 0 < F \<Longrightarrow> fl_add F E 0 x = x"
  by (auto simp: fl_add_nonneg round_mag_mag_val)

lemma fl_add_ge_left:
  assumes "x \<le> inf_mag F E" "y \<le> inf_mag F E" "0 < F"
  shows "x \<le> fl_add F E x y"
proof -
  have "fl_add F E x 0 = x"
    using assms by (auto simp: fl_add_nonneg round_mag_mag_val inf_mag_def)
  then show ?thesis
    using fl_add_mono [of x x 0 y F E] assms by simp
qed

lemma fl_add_commute_nonneg:
  "x \<le> inf_mag F E \<Longrightarrow> y \<le> inf_mag F E \<Longrightarrow> 0 < F \<Longrightarrow> fl_add F E x y = fl_add F E y x"
  by (auto simp: fl_add_nonneg add.commute)

lemma fl_of_nat_le_inf: "fl_of_nat F E n \<le> inf_mag F E"
  by (simp add: fl_of_nat_def round_mag_le_inf)

lemma fl_of_nat_mono: "m \<le> n \<Longrightarrow> fl_of_nat F E m \<le> fl_of_nat F E n"
  unfolding fl_of_nat_def by (rule round_mag_mono) simp_all

text \<open>Integers of at most \<open>F + 1\<close> bits are exact, so a bound by counting survives rounding.\<close>

lemma fl_add_bounded_by_count:
  assumes "x \<le> fl_of_nat F E m" "y \<le> fl_of_nat F E n" "m + n < 2 ^ Suc F" "0 < F"
    and fin: "fl_of_nat F E (m + n) < inf_mag F E"
  shows "fl_add F E x y \<le> fl_of_nat F E (m + n)"
proof -
  let ?u = "ulp_exp F E"
  have exact: "mag_val F (fl_of_nat F E k) = k * 2 ^ ?u" if "k \<le> m + n" for k
  proof -
    have "fl_of_nat F E k < inf_mag F E"
      using fl_of_nat_mono [OF that, of F E] fin by simp
    then have "fl_of_nat F E k = pattern F (k * 2 ^ ?u) (Suc 0)"
      by (simp add: fl_of_nat_def round_mag_pattern min_def split: if_splits)
    then show ?thesis
      using pattern_shifted [of k F ?u] that assms(3) by simp
  qed
  have fins: "fl_of_nat F E m < inf_mag F E" "fl_of_nat F E n < inf_mag F E"
    using fl_of_nat_mono [of m "m + n" F E] fl_of_nat_mono [of n "m + n" F E] fin by simp_all
  have "fl_add F E x y \<le> fl_add F E (fl_of_nat F E m) (fl_of_nat F E n)"
    using assms fins by (intro fl_add_mono) simp_all
  also have "\<dots> = fl_of_nat F E (m + n)"
    using fins exact [of m] exact [of n] assms(4)
    by (simp add: fl_add_nonneg fl_of_nat_def flip: add_mult_distrib)
  finally show ?thesis .
qed

text \<open>Division of a positive number is antitone in the divisor.\<close>

lemma fl_div_nonneg:
  assumes "x \<le> inf_mag F E" "x < inf_mag F E" "0 < y" "y \<le> inf_mag F E" "0 < F"
  shows "fl_div F E x y =
    (if y = inf_mag F E then 0
     else round_mag F E (mag_val F x * 2 ^ ulp_exp F E) (mag_val F y))"
  using nonneg_fields [OF assms(1,5)] nonneg_fields [OF assms(4,5)] assms
  by (simp add: fl_div_def fl_pack_def Let_def)

lemma fl_div_le_inf:
  "x < inf_mag F E \<Longrightarrow> 0 < y \<Longrightarrow> y \<le> inf_mag F E \<Longrightarrow> 0 < F \<Longrightarrow> fl_div F E x y \<le> inf_mag F E"
  by (simp add: fl_div_nonneg round_mag_le_inf)

lemma fl_div_antimono:
  assumes "x < inf_mag F E" "0 < y" "y \<le> z" "z \<le> inf_mag F E" "0 < F"
  shows "fl_div F E x z \<le> fl_div F E x y"
proof -
  have "mag_val F y \<le> mag_val F z" "0 < mag_val F y" "0 < mag_val F z"
    using assms by (auto intro: mag_val_mono mag_val_pos)
  then have "round_mag F E (mag_val F x * 2 ^ ulp_exp F E) (mag_val F z)
      \<le> round_mag F E (mag_val F x * 2 ^ ulp_exp F E) (mag_val F y)"
    by (intro round_mag_mono) simp_all
  then show ?thesis
    using assms by (auto simp: fl_div_nonneg)
qed


section \<open>The two formats of the source\<close>

type_synonym f32 = "32 word"
type_synonym f64 = "64 word"

definition f32_add :: "f32 \<Rightarrow> f32 \<Rightarrow> f32" where
  "f32_add x y = of_nat (fl_add 23 8 (unat x) (unat y))"

definition f32_sub :: "f32 \<Rightarrow> f32 \<Rightarrow> f32" where
  "f32_sub x y = of_nat (fl_add 23 8 (unat x) (fl_neg 23 8 (unat y)))"

definition f32_mul :: "f32 \<Rightarrow> f32 \<Rightarrow> f32" where
  "f32_mul x y = of_nat (fl_mul 23 8 (unat x) (unat y))"

definition f32_div :: "f32 \<Rightarrow> f32 \<Rightarrow> f32" where
  "f32_div x y = of_nat (fl_div 23 8 (unat x) (unat y))"

definition f32_abs :: "f32 \<Rightarrow> f32" where
  "f32_abs x = of_nat (fl_abs 23 8 (unat x))"

definition f32_of_nat :: "nat \<Rightarrow> f32" where
  "f32_of_nat n = of_nat (fl_of_nat 23 8 n)"

definition f32_is_finite :: "f32 \<Rightarrow> bool" where
  "f32_is_finite x = fl_is_finite 23 8 (unat x)"

definition f32_is_nan :: "f32 \<Rightarrow> bool" where
  "f32_is_nan x = fl_is_nan 23 8 (unat x)"

definition f32_lt :: "f32 \<Rightarrow> f32 \<Rightarrow> bool" where
  "f32_lt x y = fl_lt 23 8 (unat x) (unat y)"

definition f32_eq :: "f32 \<Rightarrow> f32 \<Rightarrow> bool" where
  "f32_eq x y = fl_eq 23 8 (unat x) (unat y)"

definition f32_le :: "f32 \<Rightarrow> f32 \<Rightarrow> bool" where
  "f32_le x y = (f32_lt x y \<or> f32_eq x y)"

text \<open>\<^verbatim>\<open>f32::partial_cmp\<close> is \<^term>\<open>None\<close> when a NaN is involved.\<close>

definition f32_partial_cmp :: "f32 \<Rightarrow> f32 \<Rightarrow> ordering option" where
  "f32_partial_cmp x y =
     (if f32_lt x y then Some Less else if f32_eq x y then Some Equal
      else if f32_lt y x then Some Greater else None)"

definition f32_total_key :: "f32 \<Rightarrow> int" where
  "f32_total_key x = fl_total_key 23 8 (unat x)"

definition f32_total_cmp :: "f32 \<Rightarrow> f32 \<Rightarrow> ordering" where
  "f32_total_cmp x y = cmp_ord (f32_total_key x) (f32_total_key y)"

definition f32_clamp :: "f32 \<Rightarrow> f32 \<Rightarrow> f32 \<Rightarrow> f32" where
  "f32_clamp lo hi x = (let y = (if f32_lt x lo then lo else x) in if f32_lt hi y then hi else y)"

definition f32_one :: f32 where "f32_one = 0x3F800000"

definition f64_is_finite :: "f64 \<Rightarrow> bool" where
  "f64_is_finite x = fl_is_finite 52 11 (unat x)"

definition f64_eq :: "f64 \<Rightarrow> f64 \<Rightarrow> bool" where
  "f64_eq x y = fl_eq 52 11 (unat x) (unat y)"

definition f64_of_nat :: "nat \<Rightarrow> f64" where
  "f64_of_nat n = of_nat (fl_of_nat 52 11 n)"

definition f64_of_int :: "int \<Rightarrow> f64" where
  "f64_of_int i =
     (if i < 0 then of_nat (fl_neg 52 11 (fl_of_nat 52 11 (nat (- i)))) else f64_of_nat (nat i))"

text \<open>The non-negative \<^verbatim>\<open>f32\<close> numbers, infinity included.\<close>

definition f32_nonneg :: "f32 \<Rightarrow> bool" where
  "f32_nonneg x \<longleftrightarrow> unat x \<le> inf_mag 23 8"

lemma inf32: "inf_mag 23 8 = 0x7F800000"
  by (simp add: inf_mag_def)

lemma unat_of_nonneg32: "n \<le> inf_mag 23 8 \<Longrightarrow> unat (of_nat n :: f32) = n"
  by (simp add: unat_of_nat take_bit_eq_mod inf32)

lemma f32_nonneg_zero [simp]: "f32_nonneg 0"
  by (simp add: f32_nonneg_def)

lemma f32_nonneg_one [simp]: "f32_nonneg f32_one"
  by (simp add: f32_nonneg_def f32_one_def inf32)

lemma unat_f32_add: "f32_nonneg x \<Longrightarrow> f32_nonneg y \<Longrightarrow> unat (f32_add x y) = fl_add 23 8 (unat x) (unat y)"
  unfolding f32_add_def f32_nonneg_def by (intro unat_of_nonneg32 fl_add_le_inf) simp_all

lemma f32_add_nonneg [simp]: "f32_nonneg x \<Longrightarrow> f32_nonneg y \<Longrightarrow> f32_nonneg (f32_add x y)"
  using unat_f32_add [of x y] fl_add_le_inf [of "unat x" 23 8 "unat y"]
  by (simp add: f32_nonneg_def)

lemma f32_add_mono:
  assumes "x \<le> x'" "y \<le> y'" "f32_nonneg x'" "f32_nonneg y'"
  shows "f32_add x y \<le> f32_add x' y'"
proof -
  have "f32_nonneg x" "f32_nonneg y"
    using assms by (auto simp: f32_nonneg_def word_le_nat_alt)
  then show ?thesis
    using assms fl_add_mono [of "unat x" "unat x'" "unat y" "unat y'" 23 8]
    by (simp add: word_le_nat_alt unat_f32_add f32_nonneg_def)
qed

lemma f32_add_zero: "f32_nonneg x \<Longrightarrow> f32_add 0 x = x"
  using unat_f32_add [of 0 x] fl_add_zero [of "unat x" 23 8]
  by (simp add: f32_nonneg_def word_unat_eq_iff)

lemma f32_add_ge_left: "f32_nonneg x \<Longrightarrow> f32_nonneg y \<Longrightarrow> x \<le> f32_add x y"
  using fl_add_ge_left [of "unat x" 23 8 "unat y"]
  by (simp add: word_le_nat_alt unat_f32_add f32_nonneg_def)

lemma f32_add_commute: "f32_nonneg x \<Longrightarrow> f32_nonneg y \<Longrightarrow> f32_add x y = f32_add y x"
  using fl_add_commute_nonneg [of "unat x" 23 8 "unat y"]
  by (simp add: word_unat_eq_iff unat_f32_add f32_nonneg_def)

lemma f32_nonneg_compare:
  assumes "f32_nonneg x" "f32_nonneg y"
  shows "f32_lt x y \<longleftrightarrow> x < y" "f32_eq x y \<longleftrightarrow> x = y" "f32_le x y \<longleftrightarrow> x \<le> y" "\<not> f32_is_nan x"
    "f32_partial_cmp x y = Some (cmp_ord x y)" "f32_total_cmp x y = cmp_ord x y"
    "f32_is_finite x \<longleftrightarrow> unat x < inf_mag 23 8"
proof -
  have b: "unat x \<le> inf_mag 23 8" "unat y \<le> inf_mag 23 8"
    using assms by (simp_all add: f32_nonneg_def)
  note fx = nonneg_fields [OF b(1), simplified] and fy = nonneg_fields [OF b(2), simplified]
  show lt: "f32_lt x y \<longleftrightarrow> x < y" and eq: "f32_eq x y \<longleftrightarrow> x = y"
    using fx fy by (simp_all add: f32_lt_def f32_eq_def fl_lt_def fl_eq_def word_less_def word_uint_eq_iff)
  have lt': "f32_lt y x \<longleftrightarrow> y < x"
    using fx fy by (simp add: f32_lt_def fl_lt_def word_less_def)
  show "f32_le x y \<longleftrightarrow> x \<le> y" "\<not> f32_is_nan x"
    using lt eq fx by (auto simp: f32_le_def f32_is_nan_def)
  show "f32_partial_cmp x y = Some (cmp_ord x y)"
    using lt eq lt' by (auto simp: f32_partial_cmp_def cmp_ord_def)
  show "f32_total_cmp x y = cmp_ord x y"
    using fx fy by (simp add: f32_total_cmp_def f32_total_key_def cmp_ord_def word_less_def word_uint_eq_iff)
  show "f32_is_finite x \<longleftrightarrow> unat x < inf_mag 23 8"
    using fx by (simp add: f32_is_finite_def)
qed

text \<open>\<^verbatim>\<open>total_cmp\<close> identifies no two patterns.\<close>

lemma f32_total_key_inj:
  assumes "f32_total_key x = f32_total_key y"
  shows "x = y"
proof -
  have d: "unat z = (if 2 ^ 31 \<le> unat z then 2 ^ 31 + unat z mod 2 ^ 31 else unat z mod 2 ^ 31)" for z :: f32
  proof -
    have "unat z < 2 ^ 32"
      using unsigned_less [of z] by (simp only: len_bit0 len_num1) simp
    then show ?thesis
      by (auto simp: le_mod_geq)
  qed
  define a b where "a = unat x" and "b = unat y"
  have "fl_total_key 23 8 a = fl_total_key 23 8 b"
    using assms by (simp add: f32_total_key_def a_def b_def)
  then have "a = b"
    using d [of x] d [of y] unfolding a_def [symmetric] b_def [symmetric]
    by (auto simp: fl_total_key_def fl_sign_def fl_mag_def split: if_splits)
  then show "x = y"
    by (simp add: word_unat_eq_iff a_def b_def)
qed



section \<open>Evaluation\<close>

text \<open>
  The simplifier computes the length of a numeral from its binary digits; with the equations
  of \<open>fl_eval\<close> it evaluates an operation on literal patterns.
\<close>

lemma floorlog_2_numeral [simp]:
  "floorlog 2 (numeral (num.Bit0 n)) = Suc (floorlog 2 (numeral n))"
  "floorlog 2 (numeral (num.Bit1 n)) = Suc (floorlog 2 (numeral n))"
  "floorlog 2 (Suc 0) = Suc 0" "floorlog 2 (1::nat) = Suc 0" "floorlog 2 0 = 0" "floorlog 2 (numeral num.One) = Suc 0"
  by (subst compute_floorlog; simp)+

lemmas fl_eval = f32_of_nat_def f32_add_def f32_sub_def f32_mul_def f32_div_def f32_lt_def f32_eq_def f32_le_def
  f32_is_nan_def f32_is_finite_def f32_total_key_def fl_of_nat_def fl_add_def fl_mul_def fl_div_def fl_neg_def
  fl_is_nan_def fl_is_inf_def fl_is_finite_def fl_lt_def fl_eq_def fl_key_def fl_total_key_def
  fl_mag_def fl_sign_def fl_units_def fl_pack_def fl_nan_def ulp_exp_def mag_val_def inf_mag_def round_mag_def
  rne_def Let_def

end
