(* ===== verification/Models.thy ===== *)
theory Models
  imports Floats
begin

text \<open>
  The data of the system (\<^verbatim>\<open>src/models/*.rs\<close>, \<^verbatim>\<open>src/error.rs\<close>) and its validators. A
  validator returns the first rule that is broken, in the order of the source; the lemmas in
  \<open>validate_simps\<close> reduce each to the condition it checks. JSON text lengths
  (\<^verbatim>\<open>serde_json::to_vec\<close>) are an argument, as the serialiser is not part of the source.
\<close>


section \<open>Errors\<close>

datatype validation_error =
    Required string
  | LengthOutOfRange string nat nat
  | RangeOutOfRange string nat nat
  | MustBePositive string
  | InvalidValue string
  | Mismatch string string
  | TooLarge string nat

datatype search_error = SearchValidation validation_error | SearchExecution string
datatype index_error = IndexValidation validation_error | IndexOperation string
datatype publish_error = PublishValidation validation_error | PublishOperation string
datatype ingest_error = IngestValidation validation_error | IngestOperation string

text \<open>The messages of \<^verbatim>\<open>thiserror\<close>'s \<^verbatim>\<open>Display\<close>.\<close>

fun show_validation_error :: "validation_error \<Rightarrow> string" where
  "show_validation_error (Required f) = f @ '' is required''"
| "show_validation_error (LengthOutOfRange f lo hi) =
     f @ '' must be between '' @ show_nat lo @ '' and '' @ show_nat hi"
| "show_validation_error (RangeOutOfRange f lo hi) =
     f @ '' must be between '' @ show_nat lo @ '' and '' @ show_nat hi"
| "show_validation_error (MustBePositive f) = f @ '' must be positive''"
| "show_validation_error (InvalidValue f) = f @ '' has an invalid value''"
| "show_validation_error (Mismatch f expected) = f @ '' must match '' @ expected"
| "show_validation_error (TooLarge f n) =
     f @ '' exceeds the maximum size of '' @ show_nat n @ '' bytes''"

fun show_search_error :: "search_error \<Rightarrow> string" where
  "show_search_error (SearchValidation e) = show_validation_error e"
| "show_search_error (SearchExecution m) = ''search execution failed: '' @ m"

fun show_index_error :: "index_error \<Rightarrow> string" where
  "show_index_error (IndexValidation e) = show_validation_error e"
| "show_index_error (IndexOperation m) = ''index operation failed: '' @ m"

fun show_publish_error :: "publish_error \<Rightarrow> string" where
  "show_publish_error (PublishValidation e) = show_validation_error e"
| "show_publish_error (PublishOperation m) = ''publish operation failed: '' @ m"

fun show_ingest_error :: "ingest_error \<Rightarrow> string" where
  "show_ingest_error (IngestValidation e) = show_validation_error e"
| "show_ingest_error (IngestOperation m) = ''ingest operation failed: '' @ m"

text \<open>A check followed by the rest of a validator: \<^verbatim>\<open>if c { return Err(e); }\<close>.\<close>

definition ensure :: "bool \<Rightarrow> 'e \<Rightarrow> 'e + unit \<Rightarrow> 'e + unit" where
  "ensure ok e rest = (if ok then rest else Inl e)"

lemma ensure_ok_iff [validate_simps, result_simps]:
  "ensure ok e rest = Inr () \<longleftrightarrow> ok \<and> rest = Inr ()"
  by (simp add: ensure_def)


section \<open>JSON values\<close>

text \<open>
  Metadata values. Of a number the source observes only \<^verbatim>\<open>as_f64\<close>, so a number is that
  \<^typ>\<open>f64\<close>.
\<close>

datatype json =
    JNull
  | JBool bool
  | JNumber f64
  | JString string
  | JArray "json list"
  | JObject "(string \<times> json) list"

type_synonym metadata = "(string, json) hmap"

fun as_str :: "json \<Rightarrow> string option" where
  "as_str (JString s) = Some s"
| "as_str _ = None"

fun as_bool :: "json \<Rightarrow> bool option" where
  "as_bool (JBool b) = Some b"
| "as_bool _ = None"

fun as_f64 :: "json \<Rightarrow> f64 option" where
  "as_f64 (JNumber x) = Some x"
| "as_f64 _ = None"


section \<open>Documents and write-ahead log records\<close>

definition MIN_PLAUSIBLE_EPOCH_MILLIS :: int where
  "MIN_PLAUSIBLE_EPOCH_MILLIS = 1000000000000"

definition DOCUMENT_TEXT_MAX_BYTES :: nat where "DOCUMENT_TEXT_MAX_BYTES = 100000"
definition DOCUMENT_METADATA_MAX_BYTES :: nat where "DOCUMENT_METADATA_MAX_BYTES = 10000"

definition is_plausible_epoch_millis :: "int \<Rightarrow> bool" where
  "is_plausible_epoch_millis v = (MIN_PLAUSIBLE_EPOCH_MILLIS \<le> v)"

record document =
  doc_id :: string
  doc_text :: string
  doc_embedding :: "f32 list option"
  doc_metadata :: metadata
  doc_timestamp :: int

text \<open>
  \<open>mlen\<close> is the length of the serialised metadata, \<^term>\<open>None\<close> when the serialiser fails.
\<close>

definition document_validate :: "(metadata \<Rightarrow> nat option) \<Rightarrow> document \<Rightarrow> validation_error + unit" where
  "document_validate mlen d =
     ensure (doc_id d \<noteq> []) (Required ''doc_id'')
    (ensure (length (doc_id d) \<le> 256) (LengthOutOfRange ''doc_id'' 1 256)
    (ensure (doc_text d \<noteq> []) (Required ''text'')
    (ensure (length (doc_text d) \<le> DOCUMENT_TEXT_MAX_BYTES) (TooLarge ''text'' DOCUMENT_TEXT_MAX_BYTES)
    (ensure (\<forall>e \<in> set_option (doc_embedding d). \<forall>v \<in> set e. f32_is_finite v) (InvalidValue ''embedding'')
    (case mlen (doc_metadata d) of
       None \<Rightarrow> Inl (InvalidValue ''metadata'')
     | Some n \<Rightarrow>
         ensure (n \<le> DOCUMENT_METADATA_MAX_BYTES) (TooLarge ''metadata'' DOCUMENT_METADATA_MAX_BYTES)
        (ensure (is_plausible_epoch_millis (doc_timestamp d)) (InvalidValue ''timestamp'')
           (Inr ())))))))"

definition document_validate_for_embedding_dim ::
  "(metadata \<Rightarrow> nat option) \<Rightarrow> nat \<Rightarrow> document \<Rightarrow> validation_error + unit" where
  "document_validate_for_embedding_dim mlen edim d =
     and_then (document_validate mlen d) (\<lambda>_.
       ensure (\<forall>e \<in> set_option (doc_embedding d). length e = edim) (InvalidValue ''embedding'') (Inr ()))"

datatype wal_operation = Upsert | Delete

record wal_record =
  event_id :: string
  rec_doc_id :: string
  rec_op :: wal_operation
  rec_document :: "document option"
  rec_timestamp :: int

definition wal_record_validate :: "(metadata \<Rightarrow> nat option) \<Rightarrow> wal_record \<Rightarrow> validation_error + unit" where
  "wal_record_validate mlen r =
     ensure (event_id r \<noteq> []) (Required ''event_id'')
    (ensure (rec_doc_id r \<noteq> []) (Required ''doc_id'')
    (ensure (is_plausible_epoch_millis (rec_timestamp r)) (InvalidValue ''timestamp'')
    (case (rec_op r, rec_document r) of
       (Upsert, None) \<Rightarrow> Inl (Required ''document'')
     | (Delete, Some _) \<Rightarrow> Inl (InvalidValue ''document'')
     | (_, Some d) \<Rightarrow>
         if doc_id d \<noteq> rec_doc_id r then Inl (Mismatch ''doc_id'' ''document.doc_id'')
         else document_validate mlen d
     | _ \<Rightarrow> Inr ())))"

lemma document_validate_ok [validate_simps]:
  "document_validate mlen d = Inr () \<longleftrightarrow>
     doc_id d \<noteq> [] \<and> length (doc_id d) \<le> 256 \<and> doc_text d \<noteq> [] \<and> length (doc_text d) \<le> 100000 \<and>
     (\<forall>e. doc_embedding d = Some e \<longrightarrow> (\<forall>v \<in> set e. f32_is_finite v)) \<and>
     (\<exists>n. mlen (doc_metadata d) = Some n \<and> n \<le> 10000) \<and> 1000000000000 \<le> doc_timestamp d"
  by (auto simp: document_validate_def validate_simps DOCUMENT_TEXT_MAX_BYTES_def
      DOCUMENT_METADATA_MAX_BYTES_def is_plausible_epoch_millis_def MIN_PLAUSIBLE_EPOCH_MILLIS_def
      split: option.splits)

lemma document_validate_dim_ok [validate_simps]:
  "document_validate_for_embedding_dim mlen edim d = Inr () \<longleftrightarrow>
     document_validate mlen d = Inr () \<and> (\<forall>e. doc_embedding d = Some e \<longrightarrow> length e = edim)"
  by (auto simp: document_validate_for_embedding_dim_def result_simps)

lemma wal_record_validate_ok [validate_simps]:
  "wal_record_validate mlen r = Inr () \<longleftrightarrow>
     event_id r \<noteq> [] \<and> rec_doc_id r \<noteq> [] \<and> 1000000000000 \<le> rec_timestamp r \<and>
     (case rec_op r of
        Upsert \<Rightarrow> (\<exists>d. rec_document r = Some d \<and> doc_id d = rec_doc_id r \<and> document_validate mlen d = Inr ())
      | Delete \<Rightarrow> rec_document r = None)"
  by (auto simp: wal_record_validate_def ensure_ok_iff is_plausible_epoch_millis_def
      MIN_PLAUSIBLE_EPOCH_MILLIS_def split: wal_operation.splits option.splits)


section \<open>Index manifests and the local cache\<close>

record shard_manifest =
  shard_id :: u32
  shard_document_count :: u64
  lance_path :: string
  tantivy_path :: string

record index_manifest =
  version_id :: u64
  created_at :: int
  embedding_dim :: nat
  document_count :: u64
  num_shards :: nat
  shards :: "shard_manifest list"

definition validate_s3_uri :: "string \<Rightarrow> string \<Rightarrow> validation_error + unit" where
  "validate_s3_uri v field =
     (case strip_prefix ''s3://'' v of
        None \<Rightarrow> Inl (InvalidValue field)
      | Some tail \<Rightarrow>
          let (bucket, key) = (case split_once CHR ''/'' tail of None \<Rightarrow> (tail, []) | Some p \<Rightarrow> p)
          in if bucket = [] \<or> key = [] then Inl (InvalidValue field) else Inr ())"

text \<open>\<^verbatim>\<open>document_count\<close> sums as \<^verbatim>\<open>usize\<close>: the release build wraps around.\<close>

definition index_manifest_validate :: "index_manifest \<Rightarrow> validation_error + unit" where
  "index_manifest_validate m =
     ensure (num_shards m \<noteq> 0) (MustBePositive ''num_shards'')
    (ensure (embedding_dim m \<noteq> 0) (MustBePositive ''embedding_dim'')
    (ensure (is_plausible_epoch_millis (created_at m)) (InvalidValue ''created_at'')
    (ensure (length (shards m) = num_shards m) (Mismatch ''shards'' ''len(shards) == num_shards'')
    (ensure (sum_list (map shard_document_count (shards m)) = document_count m)
       (Mismatch ''document_count'' ''sum(shard.document_count)'')
    (try_all (\<lambda>s. and_then (validate_s3_uri (lance_path s) ''lance_path'')
        (\<lambda>_. validate_s3_uri (tantivy_path s) ''tantivy_path'')) (shards m))))))"

definition is_s3_uri :: "string \<Rightarrow> bool" where
  "is_s3_uri v \<longleftrightarrow> (\<exists>bucket key. v = ''s3://'' @ bucket @ CHR ''/'' # key \<and>
     bucket \<noteq> [] \<and> CHR ''/'' \<notin> set bucket \<and> key \<noteq> [])"

lemma is_s3_uri_alt:
  "is_s3_uri v \<longleftrightarrow> (\<exists>s b k. strip_prefix ''s3://'' v = Some s \<and> split_once CHR ''/'' s = Some (b, k) \<and>
     b \<noteq> [] \<and> k \<noteq> [])"
  unfolding is_s3_uri_def strip_prefix_Some_iff split_once_Some_iff by auto

lemma validate_s3_uri_ok [validate_simps]: "validate_s3_uri v field = Inr () \<longleftrightarrow> is_s3_uri v"
  unfolding is_s3_uri_alt validate_s3_uri_def
  by (auto simp: Let_def split: option.splits prod.splits if_splits)

lemma index_manifest_validate_ok [validate_simps]:
  "index_manifest_validate m = Inr () \<longleftrightarrow>
     num_shards m \<noteq> 0 \<and> embedding_dim m \<noteq> 0 \<and> 1000000000000 \<le> created_at m \<and>
     length (shards m) = num_shards m \<and>
     sum_list (map shard_document_count (shards m)) = document_count m \<and>
     (\<forall>s \<in> set (shards m). is_s3_uri (lance_path s) \<and> is_s3_uri (tantivy_path s))"
  by (auto simp: index_manifest_validate_def ensure_ok_iff try_all_ok_iff and_then_Inr_iff
      validate_s3_uri_ok is_plausible_epoch_millis_def MIN_PLAUSIBLE_EPOCH_MILLIS_def)

text \<open>
  \<^verbatim>\<open>Path::components\<close>: repeated separators and \<^verbatim>\<open>.\<close> are dropped, except a leading \<^verbatim>\<open>.\<close> of a
  relative path.
\<close>

datatype path_component = RootDir | CurDir | ParentDir | Normal string

fun split_on :: "char \<Rightarrow> string \<Rightarrow> string list" where
  "split_on d [] = [[]]"
| "split_on d (c # cs) =
     (if c = d then [] # split_on d cs
      else (case split_on d cs of [] \<Rightarrow> [[c]] | p # ps \<Rightarrow> (c # p) # ps))"

definition segment_component :: "string \<Rightarrow> path_component" where
  "segment_component s = (if s = ''..'' then ParentDir else Normal s)"

definition path_components :: "string \<Rightarrow> path_component list" where
  "path_components p =
     (let segs = split_on CHR ''/'' p;
          normal = map segment_component (filter (\<lambda>s. s \<noteq> [] \<and> s \<noteq> ''.'') segs)
      in if p = [] then []
         else if hd p = CHR ''/'' then RootDir # normal
         else if hd segs = ''.'' then CurDir # normal
         else normal)"

record index_cache =
  cache_dir :: string
  max_size_bytes :: u64
  current_version :: "u64 option"

definition MAX_CACHE_SIZE_BYTES :: u64 where "MAX_CACHE_SIZE_BYTES = 10 * 1024 * 1024 * 1024"

definition is_under_tmp :: "string \<Rightarrow> bool" where
  "is_under_tmp p =
     (case path_components p of
        RootDir # Normal part # rest \<Rightarrow> part = ''tmp'' \<and> ParentDir \<notin> set rest
      | _ \<Rightarrow> False)"

definition index_cache_validate :: "index_cache \<Rightarrow> validation_error + unit" where
  "index_cache_validate c =
     ensure (is_under_tmp (cache_dir c)) (InvalidValue ''cache_dir'')
    (ensure (max_size_bytes c \<le> MAX_CACHE_SIZE_BYTES)
       (TooLarge ''max_size_bytes'' (unat MAX_CACHE_SIZE_BYTES))
    (ensure (current_version c \<noteq> Some 0) (InvalidValue ''current_version'') (Inr ())))"


section \<open>Search requests and responses\<close>

datatype filter_value = StringEquals string | BoolEquals bool | NumberEquals f64

datatype chunk_source = StaticChunk | DynamicChunk

datatype corpus_type = Legal | Contract | Rfc | OtherCorpus u8

definition corpus_type_from_id :: "u8 \<Rightarrow> corpus_type" where
  "corpus_type_from_id i =
     (if i = 0 then Legal else if i = 1 then Contract else if i = 2 then Rfc else OtherCorpus i)"

record corpus_weights =
  static_bias :: f32
  dynamic_bias :: f32

definition in_unit_range :: "f32 \<Rightarrow> bool" where
  "in_unit_range x = (f32_le 0 x \<and> f32_le x f32_one)"

definition corpus_weights_validate :: "corpus_weights \<Rightarrow> validation_error + unit" where
  "corpus_weights_validate w =
     ensure (in_unit_range (static_bias w)) (InvalidValue ''static_bias'')
    (ensure (in_unit_range (dynamic_bias w)) (InvalidValue ''dynamic_bias'') (Inr ()))"

definition QUERY_MAX_CHARS :: nat where "QUERY_MAX_CHARS = 1000"
definition TOP_K_MAX :: nat where "TOP_K_MAX = 100"

record search_request =
  req_query :: string
  top_k :: nat
  req_filters :: "(string, filter_value) hmap option"
  include_metadata :: bool
  req_corpus_weights :: "corpus_weights option"

fun filter_value_validate :: "filter_value \<Rightarrow> validation_error + unit" where
  "filter_value_validate (StringEquals v) = ensure (v \<noteq> []) (Required ''filters.value'') (Inr ())"
| "filter_value_validate (NumberEquals v) = ensure (f64_is_finite v) (InvalidValue ''filters.value'') (Inr ())"
| "filter_value_validate (BoolEquals _) = Inr ()"

definition is_ascii_alphabetic :: "char \<Rightarrow> bool" where
  "is_ascii_alphabetic c =
     (let n = of_char c :: nat in (65 \<le> n \<and> n \<le> 90) \<or> (97 \<le> n \<and> n \<le> 122))"

definition is_ascii_alphanumeric :: "char \<Rightarrow> bool" where
  "is_ascii_alphanumeric c =
     (is_ascii_alphabetic c \<or> (let n = of_char c :: nat in 48 \<le> n \<and> n \<le> 57))"

text \<open>
  The source iterates over characters; a character outside ASCII fails every test of the
  validator, as do the bytes of its encoding.
\<close>

fun validate_filter_field_name :: "string \<Rightarrow> validation_error + unit" where
  "validate_filter_field_name [] = Inl (Required ''filters.field'')"
| "validate_filter_field_name (first # chars) =
     (if \<not> (is_ascii_alphabetic first \<or> first = CHR ''_'') then Inl (InvalidValue ''filters.field'')
      else if \<exists>ch \<in> set chars. \<not> (is_ascii_alphanumeric ch \<or> ch = CHR ''_'')
           then Inl (InvalidValue ''filters.field'')
      else Inr ())"

definition search_request_validate :: "search_request \<Rightarrow> validation_error + unit" where
  "search_request_validate r =
     ensure (chars_count (req_query r) \<noteq> 0) (Required ''query'')
    (ensure (chars_count (req_query r) \<le> QUERY_MAX_CHARS) (LengthOutOfRange ''query'' 1 QUERY_MAX_CHARS)
    (ensure (top_k r \<noteq> 0 \<and> top_k r \<le> TOP_K_MAX) (RangeOutOfRange ''top_k'' 1 TOP_K_MAX)
    (and_then
       (case req_filters r of
          None \<Rightarrow> Inr ()
        | Some fs \<Rightarrow> try_all (\<lambda>(field, v).
            and_then (validate_filter_field_name field) (\<lambda>_. filter_value_validate v)) fs)
       (\<lambda>_. case req_corpus_weights r of None \<Rightarrow> Inr () | Some w \<Rightarrow> corpus_weights_validate w))))"

datatype search_source = Vector | Keyword | Hybrid | Static

record citation =
  resource_id :: string
  source_type :: string
  source_ref :: string
  cit_title :: "string option"
  cit_url :: "string option"

definition md_str :: "metadata \<Rightarrow> string \<Rightarrow> string option" where
  "md_str m k = Option.bind (hm_get m k) as_str"

definition citation_from_metadata :: "metadata \<Rightarrow> citation option" where
  "citation_from_metadata m =
     Option.bind (md_str m ''resource_id'') (\<lambda>rid.
     Option.bind (md_str m ''source_type'') (\<lambda>st.
     Option.bind (md_str m ''source_ref'') (\<lambda>sr.
       Some \<lparr>resource_id = rid, source_type = st, source_ref = sr,
             cit_title = md_str m ''title'', cit_url = md_str m ''url''\<rparr>)))"

record search_result =
  res_doc_id :: string
  res_score :: f32
  res_text :: string
  res_metadata :: "metadata option"
  res_source :: search_source
  res_chunk_source :: chunk_source
  res_corpus_type :: "corpus_type option"
  res_citation :: "citation option"

definition search_result_validate :: "search_result \<Rightarrow> validation_error + unit" where
  "search_result_validate r =
     ensure (res_doc_id r \<noteq> []) (Required ''doc_id'')
    (ensure (f32_is_finite (res_score r)) (InvalidValue ''score'') (Inr ()))"

record search_response =
  static_chunks :: "search_result list"
  static_count :: nat
  dynamic_chunks :: "search_result list"
  dynamic_count :: nat
  latency_ms :: u64
  index_version :: u64
  static_release_id :: "string option"

definition search_response_validate :: "nat \<Rightarrow> search_response \<Rightarrow> validation_error + unit" where
  "search_response_validate max_chunks r =
     ensure (length (static_chunks r) \<le> static_count r)
       (Mismatch ''static_chunks'' ''static_chunks.len() <= static_count'')
    (ensure (length (dynamic_chunks r) \<le> dynamic_count r)
       (Mismatch ''dynamic_chunks'' ''dynamic_chunks.len() <= dynamic_count'')
    (ensure (length (static_chunks r) \<le> max_chunks)
       (Mismatch ''static_chunks'' ''static_chunks.len() <= max_chunks_per_path'')
    (ensure (length (dynamic_chunks r) \<le> max_chunks)
       (Mismatch ''dynamic_chunks'' ''dynamic_chunks.len() <= max_chunks_per_path'')
    (and_then (try_all search_result_validate (static_chunks r))
       (\<lambda>_. try_all search_result_validate (dynamic_chunks r))))))"

lemma search_result_validate_ok [validate_simps]:
  "search_result_validate r = Inr () \<longleftrightarrow> res_doc_id r \<noteq> [] \<and> f32_is_finite (res_score r)"
  by (simp add: search_result_validate_def ensure_ok_iff)

lemma search_response_validate_ok [validate_simps]:
  "search_response_validate n r = Inr () \<longleftrightarrow>
     length (static_chunks r) \<le> min n (static_count r) \<and>
     length (dynamic_chunks r) \<le> min n (dynamic_count r) \<and>
     (\<forall>c \<in> set (static_chunks r) \<union> set (dynamic_chunks r). res_doc_id c \<noteq> [] \<and> f32_is_finite (res_score c))"
  by (auto simp: search_response_validate_def validate_simps result_simps)

lemma corpus_weights_validate_ok [validate_simps]:
  "corpus_weights_validate w = Inr () \<longleftrightarrow> in_unit_range (static_bias w) \<and> in_unit_range (dynamic_bias w)"
  by (simp add: corpus_weights_validate_def ensure_ok_iff)

definition filter_field_ok :: "string \<Rightarrow> bool" where
  "filter_field_ok s \<longleftrightarrow> s \<noteq> [] \<and> (is_ascii_alphabetic (hd s) \<or> hd s = CHR ''_'') \<and>
     (\<forall>c \<in> set s. is_ascii_alphanumeric c \<or> c = CHR ''_'')"

lemma validate_filter_field_name_ok [validate_simps]:
  "validate_filter_field_name s = Inr () \<longleftrightarrow> filter_field_ok s"
  by (cases s) (auto simp: filter_field_ok_def is_ascii_alphanumeric_def)

lemma search_request_validate_ok [validate_simps]:
  "search_request_validate r = Inr () \<longleftrightarrow>
     chars_count (req_query r) \<in> {1..1000} \<and> top_k r \<in> {1..100} \<and>
     (\<forall>fs. req_filters r = Some fs \<longrightarrow>
        (\<forall>(field, v) \<in> set fs. filter_field_ok field \<and> filter_value_validate v = Inr ())) \<and>
     (\<forall>w. req_corpus_weights r = Some w \<longrightarrow> in_unit_range (static_bias w) \<and> in_unit_range (dynamic_bias w))"
  by (auto simp: search_request_validate_def validate_simps result_simps
      QUERY_MAX_CHARS_def TOP_K_MAX_def Suc_le_eq split: option.splits)

end
