(* ===== verification/Wal.thy ===== *)
theory Wal
  imports Models
begin

text \<open>
  The write-ahead log (\<^verbatim>\<open>src/write/wal.rs\<close>): JSONL segments in a byte store, and the date
  partitioned key of a segment. The store is the interface \<open>wal_storage\<close>; the JSON
  serialiser and parser are the arguments \<open>ser\<close> and \<open>de\<close>, an error being the message of
  the library.
\<close>


section \<open>Segment keys\<close>

text \<open>\<^verbatim>\<open>i64\<close> division truncates toward zero, \<^verbatim>\<open>div_euclid\<close> is \<^term>\<open>(div)\<close> for a positive divisor.\<close>

definition trunc_div :: "int \<Rightarrow> int \<Rightarrow> int" where
  "trunc_div a b = sgn a * sgn b * (\<bar>a\<bar> div \<bar>b\<bar>)"

definition as_i32 :: "int \<Rightarrow> int" where
  "as_i32 v = (v + 2 ^ 31) mod 2 ^ 32 - 2 ^ 31"

definition as_u32 :: "int \<Rightarrow> nat" where
  "as_u32 v = nat (v mod 2 ^ 32)"

definition civil_from_days :: "int \<Rightarrow> int \<times> nat \<times> nat" where
  "civil_from_days days_since_epoch =
     (let z = days_since_epoch + 719468;
          era = trunc_div (if z \<ge> 0 then z else z - 146096) 146097;
          doe = z - era * 146097;
          yoe = trunc_div (doe - trunc_div doe 1460 + trunc_div doe 36524 - trunc_div doe 146096) 365;
          y = yoe + era * 400;
          doy = doe - (365 * yoe + trunc_div yoe 4 - trunc_div yoe 100);
          mp = trunc_div (5 * doy + 2) 153;
          day = doy - trunc_div (153 * mp + 2) 5 + 1;
          month = mp + (if mp < 10 then 3 else - 9);
          year = y + (if month \<le> 2 then 1 else 0)
      in (as_i32 year, as_u32 month, as_u32 day))"

definition WAL_PREFIX :: string where "WAL_PREFIX = ''wal/''"

definition validate_segment_id :: "string \<Rightarrow> ingest_error + unit" where
  "validate_segment_id i =
     (if i = [] \<or> CHR ''/'' \<in> set i \<or> str_contains i ''..'' \<or> CHR 0x5C \<in> set i
      then Inl (IngestValidation (InvalidValue ''segment_id''))
      else Inr ())"

definition segment_key :: "int \<Rightarrow> string \<Rightarrow> ingest_error + string" where
  "segment_key timestamp_millis segment_id =
     and_then (validate_segment_id segment_id) (\<lambda>_.
       let (year, month, day) = civil_from_days (timestamp_millis div 86400000)
       in Inr (WAL_PREFIX @ show_int_pad 4 year @ ''/'' @ pad_zeros 2 (show_nat month) @ ''/'' @
            pad_zeros 2 (show_nat day) @ ''/'' @ segment_id @ ''.jsonl''))"

text \<open>
  The Gregorian calendar: the day number of a date, counted from \<^verbatim>\<open>1970-01-01\<close>, by the
  days before the year and before the month.
\<close>

definition is_leap :: "int \<Rightarrow> bool" where
  "is_leap y \<longleftrightarrow> y mod 4 = 0 \<and> (y mod 100 \<noteq> 0 \<or> y mod 400 = 0)"

definition month_days :: "int \<Rightarrow> nat \<Rightarrow> int" where
  "month_days y m =
     (if m = 2 then (if is_leap y then 29 else 28) else if m \<in> {4, 6, 9, 11} then 30 else 31)"

definition days_before_month :: "int \<Rightarrow> nat \<Rightarrow> int" where
  "days_before_month y m = sum_list (map (month_days y) [1..<m])"

text \<open>Days from \<^verbatim>\<open>0000-01-01\<close> to the first of January of year \<open>y\<close>.\<close>

definition days_before_year :: "int \<Rightarrow> int" where
  "days_before_year y = 365 * y + (y + 3) div 4 - (y + 99) div 100 + (y + 399) div 400"

definition day_number :: "int \<times> nat \<times> nat \<Rightarrow> int" where
  "day_number = (\<lambda>(y, m, d). days_before_year y + days_before_month y m + int d - 1 - 719528)"

definition valid_date :: "int \<times> nat \<times> nat \<Rightarrow> bool" where
  "valid_date = (\<lambda>(y, m, d). 1 \<le> m \<and> m \<le> 12 \<and> 1 \<le> d \<and> int d \<le> month_days y m)"

lemma div_step:
  fixes y n m :: int
  assumes "0 < n" "m + 1 = n"
  shows "(y + n) div n = (y + m) div n + (if y mod n = 0 then 1 else 0)"
proof -
  define q r where "q = y div n" and "r = y mod n"
  have y: "y = n * q + r" and r: "0 \<le> r" "r < n"
    using assms by (simp_all add: q_def r_def)
  have "(y + n) div n = q + 1"
    using assms by (simp add: q_def)
  moreover have "(y + m) div n = q + (r + m) div n"
    unfolding y using assms by (simp add: add.assoc)
  moreover have "(r + m) div n = (if r = 0 then 0 else 1)"
    using r assms by (auto simp: div_pos_pos_trivial intro: int_div_pos_eq [of _ _ 1 "r - 1"])
  ultimately show ?thesis
    by (simp add: r_def)
qed

lemma days_before_year_step: "days_before_year (y + 1) = days_before_year y + (if is_leap y then 366 else 365)"
proof -
  have dv: "y mod 400 = 0 \<Longrightarrow> y mod 100 = 0" "y mod 100 = 0 \<Longrightarrow> y mod 4 = 0"
    using dvd_trans [of 100 400 y] dvd_trans [of 4 100 y] by (simp_all add: mod_eq_0_iff_dvd)
  have s: "(y + 1 + 3) div 4 = (y + 3) div 4 + (if y mod 4 = 0 then 1 else 0)"
    "(y + 1 + 99) div 100 = (y + 99) div 100 + (if y mod 100 = 0 then 1 else 0)"
    "(y + 1 + 399) div 400 = (y + 399) div 400 + (if y mod 400 = 0 then 1 else 0)"
  proof -
    have e: "y + 1 + 3 = y + 4" "y + 1 + 99 = y + 100" "y + 1 + 399 = y + 400"
      by simp_all
    show "(y + 1 + 3) div 4 = (y + 3) div 4 + (if y mod 4 = 0 then 1 else 0)"
      "(y + 1 + 99) div 100 = (y + 99) div 100 + (if y mod 100 = 0 then 1 else 0)"
      "(y + 1 + 399) div 400 = (y + 399) div 400 + (if y mod 400 = 0 then 1 else 0)"
      unfolding e by (rule div_step; simp)+
  qed
  show ?thesis
    unfolding days_before_year_def is_leap_def s using dv
    by (cases "y mod 4 = 0"; cases "y mod 100 = 0"; cases "y mod 400 = 0") simp_all
qed

lemma trunc_div_pos [simp]: "0 \<le> a \<Longrightarrow> 0 < b \<Longrightarrow> trunc_div a b = a div b"
  by (cases "a = 0") (auto simp: trunc_div_def)

lemma era_floor: "trunc_div (if z \<ge> 0 then z else z - 146096) 146097 = z div 146097"
proof (cases "z \<ge> 0")
  case False
  then have "trunc_div (z - 146096) 146097 = - ((146096 - z) div 146097)"
    by (simp add: trunc_div_def)
  also have "\<dots> = z div 146097"
  proof -
    define q r where "q = z div 146097" and "r = z mod 146097"
    have "146096 - z = (146096 - r) + 146097 * - q" and "0 \<le> r" "r < 146097"
      by (simp_all add: q_def r_def algebra_simps)
    then have "(146096 - z) div 146097 = - q"
      by (simp only: div_mult_self2)
    then show ?thesis by (simp add: q_def)
  qed
  finally show ?thesis using False by simp
qed simp

lemma days_before_month_unfold:
  "days_before_month y 1 = 0" "days_before_month y 2 = 31"
  "days_before_month y 3 = (if is_leap y then 60 else 59)"
  "days_before_month y 4 = (if is_leap y then 91 else 90)"
  "days_before_month y 5 = (if is_leap y then 121 else 120)"
  "days_before_month y 6 = (if is_leap y then 152 else 151)"
  "days_before_month y 7 = (if is_leap y then 182 else 181)"
  "days_before_month y 8 = (if is_leap y then 213 else 212)"
  "days_before_month y 9 = (if is_leap y then 244 else 243)"
  "days_before_month y 10 = (if is_leap y then 274 else 273)"
  "days_before_month y 11 = (if is_leap y then 305 else 304)"
  "days_before_month y 12 = (if is_leap y then 335 else 334)"
  by (simp_all add: days_before_month_def month_days_def upt_conv_Cons)

text \<open>The year of the era and the day of the year, in years that begin in March.\<close>

lemma year_of_era:
  fixes doe :: int
  defines "yoe \<equiv> (doe - doe div 1460 + doe div 36524 - doe div 146096) div 365"
  defines "doy \<equiv> doe - (365 * yoe + yoe div 4 - yoe div 100)"
  assumes "0 \<le> doe" "doe < 146097"
  shows "0 \<le> yoe" "yoe \<le> 399" "0 \<le> doy" "doy \<le> 365"
    "doy = 365 \<Longrightarrow> (yoe + 1) mod 4 = 0 \<and> ((yoe + 1) mod 100 \<noteq> 0 \<or> yoe + 1 = 400)"
proof -
  define c where "c = (if doe div 36524 = 4 then 3 else doe div 36524)"
  define e where "e = doe - 36524 * c"
  have c: "0 \<le> c" "c \<le> 3" "0 \<le> e" "e \<le> 36524" "e = 36524 \<Longrightarrow> c = 3"
    using assms(3,4) unfolding c_def e_def by (auto split: if_splits)
  define q where "q = e div 1461"
  define f where "f = e mod 1461"
  have q: "0 \<le> q" "q \<le> 24" "0 \<le> f" "f \<le> 1460"
    using c(3,4) by (simp_all add: q_def f_def)
  define y where "y = (if f div 365 = 4 then 3 else f div 365)"
  define d where "d = f - 365 * y"
  have y: "0 \<le> y" "y \<le> 3" "0 \<le> d" "d \<le> 365" "d = 365 \<Longrightarrow> y = 3"
    using q(3,4) unfolding y_def d_def by (auto split: if_splits)
  have doe: "doe = 36524 * c + 1461 * q + 365 * y + d"
    by (simp add: d_def f_def q_def e_def)
  have d1: "doe div 36524 - doe div 146096 = c"
  proof (cases "doe = 146096")
    case True
    then show ?thesis by (simp add: c_def)
  next
    case False
    then have "doe div 146096 = 0"
      using assms(3,4) by (intro div_pos_pos_trivial) simp_all
    moreover have "doe div 36524 \<le> 3"
      using False assms(4) by linarith
    ultimately show ?thesis
      by (simp add: c_def)
  qed
  define g where "g = 24 * c + q + 365 * y + d"
  have "doe = 1460 * (25 * c + q) + g"
    by (simp add: doe g_def)
  then have g: "doe div 1460 = 25 * c + q + g div 1460"
    by simp
  have "0 \<le> g" "g < 2920"
    using c(1,2) q(1,2) y(1-4) by (simp_all add: g_def)
  then have g2: "g div 1460 = (if g \<ge> 1460 then 1 else 0)"
    by (auto intro: int_div_pos_eq [of _ _ 1 "g - 1460"])
  have b: "0 \<le> d - g div 1460 \<and> d - g div 1460 < 365"
  proof (cases "d = 365 \<or> d = 0")
    case True
    then show ?thesis
      using c(1,2) q(1,2) y(1-2) y(5) unfolding g2 by (auto simp: g_def)
  next
    case False
    then show ?thesis
      using y(3,4) unfolding g2 by auto
  qed
  have n: "doe - doe div 1460 + doe div 36524 - doe div 146096
      = 365 * (100 * c + 4 * q + y) + (d - g div 1460)"
    using d1 g doe by simp
  then have yoe: "yoe = 100 * c + 4 * q + y"
    unfolding yoe_def n using b by (simp only: div_mult_self4 div_pos_pos_trivial)
  have "yoe div 4 = 25 * c + q" "yoe div 100 = c"
    using y(1,2) q(1,2) unfolding yoe by simp_all
  then have doy: "doy = d"
    unfolding doy_def by (simp add: yoe doe)
  show "0 \<le> yoe" "yoe \<le> 399" "0 \<le> doy" "doy \<le> 365"
    using c(1,2) q(1,2) y by (simp_all add: yoe doy)
  assume "doy = 365"
  then have "y = 3" and "d = 365"
    using y(5) doy by simp_all
  then have "yoe + 1 = 4 * (q + 1 + 25 * c)" "yoe + 1 = 4 * (q + 1) + 100 * c"
    by (simp_all add: yoe)
  then have "(yoe + 1) mod 4 = 0" "(yoe + 1) mod 100 = (4 * (q + 1)) mod 100"
    by (metis mod_mult_self1_is_0, metis mod_mult_self2)
  moreover have "q = 24 \<Longrightarrow> c = 3"
  proof -
    assume "q = 24"
    moreover have "e = 1461 * q + f"
      by (simp add: q_def f_def)
    ultimately have "e = 36524"
      using \<open>y = 3\<close> \<open>d = 365\<close> d_def by simp
    then show "c = 3" by (rule c(5))
  qed
  ultimately show "(yoe + 1) mod 4 = 0 \<and> ((yoe + 1) mod 100 \<noteq> 0 \<or> yoe + 1 = 400)"
    using q(1,2) \<open>y = 3\<close> by (cases "q = 24") (auto simp: yoe)
qed


text \<open>The month of a day of a March-based year, and the day of that month.\<close>

lemma month_of_doy:
  fixes doy :: int
  defines "mp \<equiv> (5 * doy + 2) div 153"
  assumes "0 \<le> doy" "doy \<le> 365"
  shows "mp \<in> {0..11}" "(153 * mp + 2) div 5 \<le> doy"
    "doy < (if mp = 11 then 366 else (153 * (mp + 1) + 2) div 5)"
proof -
  have m: "153 * mp \<le> 5 * doy + 2" "5 * doy + 2 < 153 * mp + 153" "0 \<le> mp"
    using assms(2) unfolding mp_def by simp_all
  then show "mp \<in> {0..11}"
    using assms(3) by simp
  show "(153 * mp + 2) div 5 \<le> doy"
    using m(1) by linarith
  show "doy < (if mp = 11 then 366 else (153 * (mp + 1) + 2) div 5)"
    using m(2) assms(3) by (auto simp: algebra_simps)
qed

lemma twelve_cases:
  fixes m :: int
  assumes "m \<in> {0..11}"
  obtains "m = 0" | "m = 1" | "m = 2" | "m = 3" | "m = 4" | "m = 5"
    | "m = 6" | "m = 7" | "m = 8" | "m = 9" | "m = 10" | "m = 11"
proof -
  have "m \<in> set [0..11]"
    using assms by simp
  then show ?thesis
    using that by (auto simp: upto.simps)
qed

definition march_days :: "int \<Rightarrow> int" where
  "march_days y = 365 * y + y div 4 - y div 100 + y div 400 + 60"

lemma march_days_next: "days_before_year (y + 1) = march_days y + 306"
proof -
  have e: "y + 1 + 3 = y + 4" "y + 1 + 99 = y + 100" "y + 1 + 399 = y + 400"
    by simp_all
  show ?thesis
    unfolding days_before_year_def march_days_def e by simp
qed

lemma march_days_this: "days_before_year y + (if is_leap y then 60 else 59) = march_days y"
  using days_before_year_step [of y] march_days_next [of y] by (simp split: if_splits)

lemma civil_date_march:
  fixes y doy :: int
  defines "mp \<equiv> (5 * doy + 2) div 153"
  defines "day \<equiv> doy - (153 * mp + 2) div 5 + 1"
  defines "month \<equiv> mp + (if mp < 10 then 3 else - 9)"
  defines "year \<equiv> y + (if month \<le> 2 then 1 else 0)"
  assumes doy: "0 \<le> doy" "doy \<le> 365" and leap: "doy = 365 \<Longrightarrow> is_leap (y + 1)"
  shows "valid_date (year, nat month, nat day)"
    and "day_number (year, nat month, nat day) = march_days y + doy - 719528"
    and "month \<in> {1..12}" "day \<in> {1..31}"
proof -
  note m = month_of_doy [OF doy, folded mp_def]
  have leap': "is_leap (y + 1) \<or> doy \<le> 364"
    using leap doy(2) by linarith
  have one: "days_before_month year (Suc 0) = 0"
    using days_before_month_unfold(1) [of year] by simp
  have d: "days_before_month year (nat month) + day - 1 + days_before_year year = march_days y + doy
      \<and> month \<in> {1..12} \<and> 1 \<le> day \<and> day \<le> month_days year (nat month)"
    using m(1)
    by (rule twelve_cases)
      (use m(2,3) doy leap' one march_days_next [of y] march_days_this [of y] in
        \<open>auto simp: day_def month_def year_def days_before_month_unfold month_days_def\<close>)
  then show "valid_date (year, nat month, nat day)" "month \<in> {1..12}"
    by (auto simp: valid_date_def)
  show "day \<in> {1..31}"
    using d by (auto simp: month_days_def split: if_splits)
  show "day_number (year, nat month, nat day) = march_days y + doy - 719528"
    using d by (simp add: day_number_def)
qed

lemma march_days_era:
  assumes "0 \<le> yoe" "yoe \<le> 399"
  shows "march_days (yoe + era * 400) = 365 * yoe + yoe div 4 - yoe div 100 + 146097 * era + 60"
proof -
  have "(yoe + era * 400) div 4 = yoe div 4 + era * 100"
    using div_mult_self1 [of 4 yoe "era * 100"] by (simp add: mult.assoc)
  moreover have "(yoe + era * 400) div 100 = yoe div 100 + era * 4"
    using div_mult_self1 [of 100 yoe "era * 4"] by (simp add: mult.assoc)
  moreover have "(yoe + era * 400) div 400 = era"
    using assms by simp
  ultimately show ?thesis
    by (simp add: march_days_def)
qed

lemma leap_of_era:
  assumes "(yoe + 1) mod 4 = 0 \<and> ((yoe + 1) mod 100 \<noteq> 0 \<or> yoe + 1 = 400)"
  shows "is_leap (yoe + era * 400 + 1)"
proof -
  have e: "yoe + era * 400 + 1 = (yoe + 1) + 4 * (era * 100)"
    "yoe + era * 400 + 1 = (yoe + 1) + 100 * (era * 4)"
    "yoe + era * 400 + 1 = (yoe + 1) + 400 * era"
    by simp_all
  have "(yoe + era * 400 + 1) mod 4 = (yoe + 1) mod 4"
    "(yoe + era * 400 + 1) mod 100 = (yoe + 1) mod 100"
    "(yoe + era * 400 + 1) mod 400 = (yoe + 1) mod 400"
    by (metis e(1) mod_mult_self2, metis e(2) mod_mult_self2, metis e(3) mod_mult_self2)
  with assms show ?thesis
    by (auto simp: is_leap_def)
qed

text \<open>Every day an \<^verbatim>\<open>i64\<close> millisecond timestamp can name.\<close>

definition I64_DAYS :: int where "I64_DAYS = 106751991168"

text \<open>
  The date in a segment key is right: for every day an \<^verbatim>\<open>i64\<close> millisecond timestamp can
  name, the Gregorian date computed is a valid one whose day number, counted from 1970-01-01
  by the calendar's own rules, is that day.
\<close>

theorem civil_from_days_correct:
  assumes "\<bar>n\<bar> \<le> I64_DAYS"
  shows "valid_date (civil_from_days n) \<and> day_number (civil_from_days n) = n"
proof -
  define z era doe where "z = n + 719468" and "era = z div 146097" and "doe = z - era * 146097"
  define yoe where "yoe = (doe - doe div 1460 + doe div 36524 - doe div 146096) div 365"
  define y doy where "y = yoe + era * 400" and "doy = doe - (365 * yoe + yoe div 4 - yoe div 100)"
  define mp where "mp = (5 * doy + 2) div 153"
  define day month where "day = doy - (153 * mp + 2) div 5 + 1" and "month = mp + (if mp < 10 then 3 else - 9)"
  define year where "year = y + (if month \<le> 2 then 1 else 0)"
  have doe: "0 \<le> doe" "doe < 146097"
    by (simp_all add: doe_def era_def minus_div_mult_eq_mod)
  note yo = year_of_era [OF doe, folded yoe_def, folded doy_def]
  have leap: "doy = 365 \<Longrightarrow> is_leap (y + 1)"
    unfolding y_def by (rule leap_of_era) (rule yo(5))
  note date = civil_date_march [OF yo(3,4) leap, folded mp_def, folded day_def month_def, folded year_def]
  have era: "\<bar>era\<bar> \<le> 740000"
    using assms unfolding era_def z_def I64_DAYS_def by linarith
  have "\<bar>year\<bar> < 2 ^ 31"
    using era yo(1,2) unfolding year_def y_def by (auto split: if_splits)
  then have "as_i32 year = year"
    by (simp add: as_i32_def)
  moreover have "as_u32 month = nat month" "as_u32 day = nat day"
    using date(3,4) by (simp_all add: as_u32_def)
  moreover have nonneg: "0 \<le> doe - doe div 1460 + doe div 36524 - doe div 146096" "0 \<le> mp"
    using doe date(3) yo(3) by (simp_all add: mp_def)
  moreover have t1: "trunc_div (if z \<ge> 0 then z else z - 146096) 146097 = era"
    unfolding era_def by (rule era_floor)
  moreover have t2: "trunc_div doe 1460 = doe div 1460" "trunc_div doe 36524 = doe div 36524"
    "trunc_div doe 146096 = doe div 146096"
    using doe(1) by (simp_all only: trunc_div_pos zero_less_numeral)
  moreover have t3: "trunc_div (doe - doe div 1460 + doe div 36524 - doe div 146096) 365 = yoe"
    unfolding yoe_def using nonneg(1) by (simp only: trunc_div_pos zero_less_numeral)
  moreover have t4: "trunc_div yoe 4 = yoe div 4" "trunc_div yoe 100 = yoe div 100"
    using yo(1) by (simp_all only: trunc_div_pos zero_less_numeral)
  moreover have t5: "trunc_div (5 * doy + 2) 153 = mp" "trunc_div (153 * mp + 2) 5 = (153 * mp + 2) div 5"
    using yo(3) nonneg(2) by (simp_all add: mp_def [symmetric]) 
  ultimately have civ: "civil_from_days n = (year, nat month, nat day)"
    unfolding civil_from_days_def Let_def z_def [symmetric] t1 doe_def [symmetric] t2 t3
      t4 y_def [symmetric] doy_def [symmetric] t5 day_def [symmetric]
      month_def [symmetric] year_def [symmetric]
    by (simp only:)
  have "march_days y + doy - 719528 = n"
    unfolding y_def march_days_era [OF yo(1,2)] doy_def by (simp add: doe_def z_def)
  with date(1,2) show ?thesis
    by (simp add: civ)
qed

lemma civil_from_days_correct_witness:
  "civil_from_days 19675 = (2023, 11, 14) \<and> day_number (civil_from_days 19675) = 19675"
proof -
  have "civil_from_days 19675 = (2023, 11, 14)"
    by code_simp
  then show ?thesis
    using civil_from_days_correct [of 19675] by (simp add: I64_DAYS_def)
qed


section \<open>Segment contents\<close>

definition LF :: char where "LF = CHR 0x0A"
definition CR :: char where "CR = CHR 0x0D"

text \<open>\<^verbatim>\<open>str::from_utf8\<close>: a byte sequence is UTF-8 in the sense of RFC 3629.\<close>

definition byte_in :: "nat \<Rightarrow> nat \<Rightarrow> char \<Rightarrow> bool" where
  "byte_in lo hi c = (lo \<le> (of_char c :: nat) \<and> (of_char c :: nat) \<le> hi)"

text \<open>The rest after one well-formed character.\<close>

fun utf8_step :: "string \<Rightarrow> string option" where
  "utf8_step (a # cs) =
     (if byte_in 0 0x7F a then Some cs
      else case cs of
        [] \<Rightarrow> None
      | b # cs2 \<Rightarrow>
          if byte_in 0xC2 0xDF a then (if byte_in 0x80 0xBF b then Some cs2 else None)
          else case cs2 of
            [] \<Rightarrow> None
          | c # cs3 \<Rightarrow>
              if byte_in 0xE0 0xEF a then
                (if byte_in (if a = CHR 0xE0 then 0xA0 else 0x80) (if a = CHR 0xED then 0x9F else 0xBF) b \<and>
                    byte_in 0x80 0xBF c
                 then Some cs3 else None)
              else case cs3 of
                [] \<Rightarrow> None
              | d # cs4 \<Rightarrow>
                  if byte_in 0xF0 0xF4 a \<and>
                     byte_in (if a = CHR 0xF0 then 0x90 else 0x80) (if a = CHR 0xF4 then 0x8F else 0xBF) b \<and>
                     byte_in 0x80 0xBF c \<and> byte_in 0x80 0xBF d
                  then Some cs4 else None)"
| "utf8_step [] = None"

lemma utf8_step_suffix: "utf8_step s = Some r \<Longrightarrow> \<exists>p. p \<noteq> [] \<and> s = p @ r \<and> (\<forall>t. utf8_step (p @ t) = Some t)"
proof (cases s)
  case (Cons a cs)
  assume *: "utf8_step s = Some r"
  consider "byte_in 0 0x7F a" "r = cs"
    | b cs2 where "\<not> byte_in 0 0x7F a" "byte_in 0xC2 0xDF a" "cs = b # cs2" "r = cs2" "byte_in 0x80 0xBF b"
    | b c cs3 where "\<not> byte_in 0 0x7F a" "\<not> byte_in 0xC2 0xDF a" "byte_in 0xE0 0xEF a" "cs = b # c # cs3" "r = cs3"
    | b c d cs4 where "\<not> byte_in 0 0x7F a" "\<not> byte_in 0xC2 0xDF a" "\<not> byte_in 0xE0 0xEF a"
        "cs = b # c # d # cs4" "r = cs4"
    using * Cons by (auto split: list.splits if_splits)
  then show ?thesis
  proof cases
    case 1
    then show ?thesis using Cons by (intro exI [of _ "[a]"]) simp
  next
    case 2
    then show ?thesis using Cons by (intro exI [of _ "[a, b]"]) simp
  next
    case 3
    then show ?thesis using Cons * by (intro exI [of _ "[a, b, c]"]) (simp split: if_split_asm)
  next
    case 4
    then show ?thesis using Cons * by (intro exI [of _ "[a, b, c, d]"]) (simp split: if_split_asm)
  qed
qed simp

function utf8_valid :: "string \<Rightarrow> bool" where
  "utf8_valid s = (s = [] \<or> (case utf8_step s of None \<Rightarrow> False | Some r \<Rightarrow> utf8_valid r))"
  by pat_completeness simp

termination
  by (relation "measure length") (auto dest!: utf8_step_suffix)

declare utf8_valid.simps [simp del]

lemma utf8_valid_Nil [simp]: "utf8_valid []"
  by (subst utf8_valid.simps) simp

lemma utf8_valid_append: "utf8_valid a \<Longrightarrow> utf8_valid (a @ b) = utf8_valid b"
proof (induction a rule: utf8_valid.induct)
  case (1 a)
  show ?case
  proof (cases "a = []")
    case False
    with "1.prems" obtain r where r: "utf8_step a = Some r" "utf8_valid r"
      by (subst (asm) utf8_valid.simps) (auto split: option.splits)
    then obtain p where p: "p \<noteq> []" "a = p @ r" "\<forall>t. utf8_step (p @ t) = Some t"
      using utf8_step_suffix by blast
    have "utf8_valid (a @ b) = utf8_valid (r @ b)"
      using p by (subst utf8_valid.simps) simp
    then show ?thesis
      using "1.IH" [OF r(1) r(2)] by simp
  qed simp
qed

lemma utf8_valid_ascii: "\<forall>c \<in> set s. (of_char c :: nat) < 128 \<Longrightarrow> utf8_valid s"
proof (induction s)
  case (Cons c s)
  then have "utf8_step (c # s) = Some s"
    by (simp add: byte_in_def)
  then show ?case
    using Cons by (subst utf8_valid.simps) simp
qed simp

lemma utf8_valid_LF: "utf8_valid [CHR 0x0A]"
  by (subst utf8_valid.simps) (simp add: byte_in_def)

text \<open>\<^verbatim>\<open>str::lines\<close>: split after each newline, then drop it and a carriage return before it.\<close>

fun split_inclusive :: "string \<Rightarrow> string list" where
  "split_inclusive [] = []"
| "split_inclusive (c # cs) =
     (if c = LF then [c] # split_inclusive cs
      else (case split_inclusive cs of [] \<Rightarrow> [[c]] | l # ls \<Rightarrow> (c # l) # ls))"

definition strip_eol :: "string \<Rightarrow> string" where
  "strip_eol l =
     (if l \<noteq> [] \<and> last l = LF then
        (let m = butlast l in if m \<noteq> [] \<and> last m = CR then butlast m else m)
      else l)"

definition str_lines :: "string \<Rightarrow> string list" where
  "str_lines s = map strip_eol (split_inclusive s)"

definition wal_append ::
  "(metadata \<Rightarrow> nat option) \<Rightarrow> (wal_record \<Rightarrow> string + string) \<Rightarrow>
   (string \<Rightarrow> string \<Rightarrow> 's \<Rightarrow> (ingest_error + unit) \<times> 's) \<Rightarrow>
   string \<Rightarrow> wal_record \<Rightarrow> 's \<Rightarrow> (ingest_error + unit) \<times> 's" where
  "wal_append mlen ser append_op key r s =
     (case wal_record_validate mlen r of
        Inl e \<Rightarrow> (Inl (IngestValidation e), s)
      | Inr _ \<Rightarrow>
          (case ser r of
             Inl m \<Rightarrow> (Inl (IngestOperation m), s)
           | Inr line \<Rightarrow> append_op key (line @ [LF]) s))"

definition wal_read ::
  "(metadata \<Rightarrow> nat option) \<Rightarrow> (string \<Rightarrow> string + wal_record) \<Rightarrow> (string \<Rightarrow> string) \<Rightarrow>
   (string \<Rightarrow> 's \<Rightarrow> ingest_error + string) \<Rightarrow> string \<Rightarrow> 's \<Rightarrow> ingest_error + wal_record list" where
  "wal_read mlen de utf8_msg read_op key s =
     and_then (read_op key s) (\<lambda>bytes.
     and_then (if utf8_valid bytes then Inr bytes else Inl (IngestOperation (utf8_msg bytes))) (\<lambda>contents.
       try_map (\<lambda>line.
         and_then (map_err IngestOperation (de line)) (\<lambda>r.
         and_then (map_err IngestValidation (wal_record_validate mlen r)) (\<lambda>_. Inr r)))
       (str_lines contents)))"

lemma utf8_valid_concat: "(\<And>x. x \<in> set xs \<Longrightarrow> utf8_valid x) \<Longrightarrow> utf8_valid (concat xs)"
  by (induction xs) (simp_all add: utf8_valid_append)

lemma split_inclusive_line: "LF \<notin> set l \<Longrightarrow> split_inclusive (l @ LF # s) = (l @ [LF]) # split_inclusive s"
  by (induction l) auto

text \<open>The JSONL text of records, and what the serialiser and the parser must do on each.\<close>

definition jsonl :: "(wal_record \<Rightarrow> string + string) \<Rightarrow> wal_record list \<Rightarrow> string" where
  "jsonl ser rs = concat (map (\<lambda>r. case ser r of Inl _ \<Rightarrow> [] | Inr l \<Rightarrow> l @ [LF]) rs)"

definition codec_on ::
  "(wal_record \<Rightarrow> string + string) \<Rightarrow> (string \<Rightarrow> string + wal_record) \<Rightarrow> wal_record \<Rightarrow> bool" where
  "codec_on ser de r =
     (case ser r of
        Inl _ \<Rightarrow> False
      | Inr l \<Rightarrow> LF \<notin> set l \<and> CR \<notin> set l \<and> utf8_valid l \<and> de l = Inr r)"

lemma str_lines_jsonl:
  "(\<And>r. r \<in> set rs \<Longrightarrow> codec_on ser de r) \<Longrightarrow>
     str_lines (jsonl ser rs) = map (\<lambda>r. case ser r of Inl _ \<Rightarrow> [] | Inr l \<Rightarrow> l) rs"
proof (induction rs)
  case (Cons r rs)
  from Cons.prems [of r] obtain l where l: "ser r = Inr l" "LF \<notin> set l" "CR \<notin> set l"
    by (auto simp: codec_on_def split: sum.splits)
  have "l \<noteq> [] \<Longrightarrow> last l \<noteq> CR"
    using l(3) last_in_set by metis
  then have "strip_eol (l @ [LF]) = l"
    by (auto simp: strip_eol_def Let_def)
  with Cons l show ?case
    by (simp add: jsonl_def str_lines_def split_inclusive_line)
qed (simp add: jsonl_def str_lines_def)

lemma utf8_valid_jsonl:
  assumes "\<And>r. r \<in> set rs \<Longrightarrow> codec_on ser de r"
  shows "utf8_valid (jsonl ser rs)"
  unfolding jsonl_def
proof (rule utf8_valid_concat)
  fix x
  assume "x \<in> set (map (\<lambda>r. case ser r of Inl _ \<Rightarrow> [] | Inr l \<Rightarrow> l @ [LF]) rs)"
  then show "utf8_valid x"
    using assms utf8_valid_LF by (fastforce simp: codec_on_def utf8_valid_append LF_def split: sum.splits)
qed

lemma jsonl_append: "jsonl ser (rs @ ts) = jsonl ser rs @ jsonl ser ts"
  by (simp add: jsonl_def)

lemma wal_read_jsonl:
  assumes "read_op key s = Inr (jsonl ser rs)"
    and "\<And>r. r \<in> set rs \<Longrightarrow> codec_on ser de r \<and> wal_record_validate mlen r = Inr ()"
  shows "wal_read mlen de utf8_msg read_op key s = Inr rs"
proof -
  have "try_map (\<lambda>line. and_then (map_err IngestOperation (de line)) (\<lambda>r.
      and_then (map_err IngestValidation (wal_record_validate mlen r)) (\<lambda>_. Inr r)))
      (map (\<lambda>r. case ser r of Inl _ \<Rightarrow> [] | Inr l \<Rightarrow> l) rs) = Inr rs"
    using assms(2) by (induction rs) (fastforce simp: codec_on_def split: sum.splits)+
  then show ?thesis
    using assms utf8_valid_jsonl [of rs ser de] str_lines_jsonl [of rs ser de]
    by (simp add: wal_read_def)
qed


section \<open>The store a log is written to\<close>

text \<open>
  \<^verbatim>\<open>WalStorage\<close>: an append that succeeds extends the segment, leaves every other segment as
  it was, and one that fails changes nothing.
\<close>

definition segment_bytes :: "(string \<Rightarrow> 's \<Rightarrow> ingest_error + string) \<Rightarrow> string \<Rightarrow> 's \<Rightarrow> string" where
  "segment_bytes read_op k s = (case read_op k s of Inl _ \<Rightarrow> [] | Inr b \<Rightarrow> b)"

locale wal_storage =
  fixes append_op :: "string \<Rightarrow> string \<Rightarrow> 's \<Rightarrow> (ingest_error + unit) \<times> 's"
    and read_op :: "string \<Rightarrow> 's \<Rightarrow> ingest_error + string"
  assumes append_reads: "append_op k b s = (Inr (), s') \<Longrightarrow> read_op k s' = Inr (segment_bytes read_op k s @ b)"
    and append_frame: "append_op k b s = (r, s') \<Longrightarrow> j \<noteq> k \<Longrightarrow> read_op j s' = read_op j s"
    and append_fails: "append_op k b s = (Inl e, s') \<Longrightarrow> s' = s"
begin

lemma segment_bytes_append:
  "append_op k b s = (Inr (), s') \<Longrightarrow> segment_bytes read_op k s' = segment_bytes read_op k s @ b"
  by (simp add: segment_bytes_def append_reads)

text \<open>Appended records are read back after the ones that were there.\<close>

lemma read_after_append:
  assumes "append_op k (jsonl ser ts) s = (Inr (), s')"
    and "segment_bytes read_op k s = jsonl ser rs"
    and "\<And>r. r \<in> set (rs @ ts) \<Longrightarrow> codec_on ser de r \<and> wal_record_validate mlen r = Inr ()"
  shows "wal_read mlen de utf8_msg read_op k s' = Inr (rs @ ts)"
proof (rule wal_read_jsonl)
  show "read_op k s' = Inr (jsonl ser (rs @ ts))"
    using append_reads [OF assms(1)] assms(2) by (simp add: jsonl_append)
qed (use assms(3) in blast)

lemma read_other_segment:
  "append_op k b s = (r, s') \<Longrightarrow> j \<noteq> k \<Longrightarrow>
     wal_read mlen de utf8_msg read_op j s' = wal_read mlen de utf8_msg read_op j s"
  by (simp add: wal_read_def append_frame)

lemma wal_append_one:
  assumes "wal_append mlen ser append_op k r s = (Inr (), s')"
  shows "wal_record_validate mlen r = Inr ()" "append_op k (jsonl ser [r]) s = (Inr (), s')"
  using assms by (auto simp: wal_append_def jsonl_def split: sum.splits)

lemma wal_append_fails: "wal_append mlen ser append_op k r s = (Inl e, s') \<Longrightarrow> s' = s"
  by (auto simp: wal_append_def append_fails split: sum.splits)

end

end
