(* ===== verification/Write_Api.thy ===== *)
theory Write_Api
  imports Wal
begin

text \<open>
  The write path (\<^verbatim>\<open>src/write/api.rs\<close>, \<^verbatim>\<open>src/write_lambda.rs\<close>): a batch of documents or
  of deletions becomes one segment of records and one build job. The clock value and the
  UUID of the batch are arguments. What a backend promises of the combined write is the
  interface \<open>atomic_write\<close>; the default of the trait writes in two steps.
\<close>


section \<open>Batches\<close>

record queue_batch =
  qb_batch_id :: string
  qb_wal_key :: string
  qb_accepted_count :: nat
  qb_wal_event_ids :: "string list"

record write_response =
  wr_accepted_count :: nat
  wr_wal_event_ids :: "string list"
  wr_batch_id :: string
  wr_wal_key :: string

definition api_event_id :: "string \<Rightarrow> nat \<Rightarrow> string" where
  "api_event_id batch_id index = batch_id @ ''-'' @ pad_zeros 6 (show_nat (index + 1))"

definition validate_timestamp :: "int \<Rightarrow> ingest_error + unit" where
  "validate_timestamp t =
     (if t < 1000000000000 then Inl (IngestValidation (InvalidValue ''timestamp'')) else Inr ())"

definition validate_doc_id :: "string \<Rightarrow> ingest_error + unit" where
  "validate_doc_id i =
     (if i = [] then Inl (IngestValidation (Required ''doc_id''))
      else if 256 < length i then Inl (IngestValidation (LengthOutOfRange ''doc_id'' 1 256))
      else Inr ())"

fun serialize_records ::
  "(metadata \<Rightarrow> nat option) \<Rightarrow> (wal_record \<Rightarrow> string + string) \<Rightarrow> wal_record list \<Rightarrow> ingest_error + string" where
  "serialize_records mlen ser [] = Inr []"
| "serialize_records mlen ser (r # rs) =
     and_then (map_err IngestValidation (wal_record_validate mlen r)) (\<lambda>_.
     and_then (map_err IngestOperation (ser r)) (\<lambda>line.
       map_ok (\<lambda>bytes. line @ [LF] @ bytes) (serialize_records mlen ser rs)))"

text \<open>\<^verbatim>\<open>BuildQueue::append_and_enqueue\<close>, the default of the trait.\<close>

definition default_append_and_enqueue ::
  "(string \<Rightarrow> string \<Rightarrow> 's \<Rightarrow> (ingest_error + unit) \<times> 's) \<Rightarrow>
   (queue_batch \<Rightarrow> 's \<Rightarrow> (ingest_error + unit) \<times> 's) \<Rightarrow>
   string \<Rightarrow> string \<Rightarrow> queue_batch \<Rightarrow> 's \<Rightarrow> (ingest_error + unit) \<times> 's" where
  "default_append_and_enqueue append_bytes enqueue wal_key wal_bytes batch s =
     (case append_bytes wal_key wal_bytes s of
        (Inl e, s1) \<Rightarrow> (Inl e, s1)
      | (Inr _, s1) \<Rightarrow>
          (case enqueue batch s1 of
             (Inr _, s2) \<Rightarrow> (Inr (), s2)
           | (Inl e, s2) \<Rightarrow>
               (Inl (IngestOperation (msg [show_ingest_error e, '' (batch_id='', qb_batch_id batch,
                  '', wal_key='', wal_key, '', wal_persisted=true)''])), s2)))"

text \<open>\<^verbatim>\<open>WriteApi::append_and_enqueue\<close>; \<open>op\<close> is the method of the queue.\<close>

definition api_append_and_enqueue ::
  "(metadata \<Rightarrow> nat option) \<Rightarrow> (wal_record \<Rightarrow> string + string) \<Rightarrow>
   (string \<Rightarrow> string \<Rightarrow> queue_batch \<Rightarrow> 's \<Rightarrow> (ingest_error + unit) \<times> 's) \<Rightarrow>
   string \<Rightarrow> string \<Rightarrow> wal_record list \<Rightarrow> 's \<Rightarrow> (ingest_error + unit) \<times> 's" where
  "api_append_and_enqueue mlen ser op batch_id wal_key records s =
     (case serialize_records mlen ser records of
        Inl e \<Rightarrow> (Inl e, s)
      | Inr bytes \<Rightarrow>
          op wal_key bytes
            \<lparr>qb_batch_id = batch_id, qb_wal_key = wal_key, qb_accepted_count = length records,
             qb_wal_event_ids = map event_id records\<rparr> s)"

text \<open>The part \<^verbatim>\<open>ingest\<close> and \<^verbatim>\<open>delete\<close> share after validation of their input.\<close>

definition write_records ::
  "(metadata \<Rightarrow> nat option) \<Rightarrow> (wal_record \<Rightarrow> string + string) \<Rightarrow>
   (string \<Rightarrow> string \<Rightarrow> queue_batch \<Rightarrow> 's \<Rightarrow> (ingest_error + unit) \<times> 's) \<Rightarrow> int \<Rightarrow> string \<Rightarrow>
   (string \<Rightarrow> wal_record list) \<Rightarrow> 's \<Rightarrow> (ingest_error + write_response) \<times> 's" where
  "write_records mlen ser op timestamp uuid mk_records s =
     (let batch_id = ''batch-'' @ uuid
      in case segment_key timestamp batch_id of
           Inl e \<Rightarrow> (Inl e, s)
         | Inr wal_key \<Rightarrow>
             (let records = mk_records batch_id
              in case api_append_and_enqueue mlen ser op batch_id wal_key records s of
                   (Inl e, s') \<Rightarrow> (Inl e, s')
                 | (Inr _, s') \<Rightarrow>
                     (Inr \<lparr>wr_accepted_count = length records, wr_wal_event_ids = map event_id records,
                           wr_batch_id = batch_id, wr_wal_key = wal_key\<rparr>, s')))"

definition upsert_records :: "int \<Rightarrow> document list \<Rightarrow> string \<Rightarrow> wal_record list" where
  "upsert_records timestamp documents batch_id =
     map (\<lambda>(index, d). \<lparr>event_id = api_event_id batch_id index, rec_doc_id = doc_id d, rec_op = Upsert,
            rec_document = Some d, rec_timestamp = timestamp\<rparr>)
       (enumerate 0 documents)"

definition delete_records :: "int \<Rightarrow> string list \<Rightarrow> string \<Rightarrow> wal_record list" where
  "delete_records timestamp doc_ids batch_id =
     map (\<lambda>(index, i). \<lparr>event_id = api_event_id batch_id index, rec_doc_id = i, rec_op = Delete,
            rec_document = None, rec_timestamp = timestamp\<rparr>)
       (enumerate 0 doc_ids)"

definition ingest ::
  "(metadata \<Rightarrow> nat option) \<Rightarrow> (wal_record \<Rightarrow> string + string) \<Rightarrow>
   (string \<Rightarrow> string \<Rightarrow> queue_batch \<Rightarrow> 's \<Rightarrow> (ingest_error + unit) \<times> 's) \<Rightarrow> int \<Rightarrow> string \<Rightarrow>
   document list \<Rightarrow> 's \<Rightarrow> (ingest_error + write_response) \<times> 's" where
  "ingest mlen ser op timestamp uuid documents s =
     (if documents = [] then (Inl (IngestValidation (Required ''documents'')), s)
      else case and_then (map_err IngestValidation (try_all (document_validate mlen) documents))
                  (\<lambda>_. validate_timestamp timestamp) of
             Inl e \<Rightarrow> (Inl e, s)
           | Inr _ \<Rightarrow> write_records mlen ser op timestamp uuid (upsert_records timestamp documents) s)"

definition delete_docs ::
  "(metadata \<Rightarrow> nat option) \<Rightarrow> (wal_record \<Rightarrow> string + string) \<Rightarrow>
   (string \<Rightarrow> string \<Rightarrow> queue_batch \<Rightarrow> 's \<Rightarrow> (ingest_error + unit) \<times> 's) \<Rightarrow> int \<Rightarrow> string \<Rightarrow>
   string list \<Rightarrow> 's \<Rightarrow> (ingest_error + write_response) \<times> 's" where
  "delete_docs mlen ser op timestamp uuid doc_ids s =
     (if doc_ids = [] then (Inl (IngestValidation (Required ''doc_ids'')), s)
      else case and_then (try_all validate_doc_id doc_ids) (\<lambda>_. validate_timestamp timestamp) of
             Inl e \<Rightarrow> (Inl e, s)
           | Inr _ \<Rightarrow> write_records mlen ser op timestamp uuid (delete_records timestamp doc_ids) s)"

text \<open>\<^verbatim>\<open>write_lambda.rs\<close>: one handler for both requests, and the error the client sees.\<close>

datatype write_request = IngestRequest "document list" | DeleteRequest "string list"

record write_lambda_error =
  error_type :: string
  error_message :: string

fun write_lambda_error_from :: "ingest_error \<Rightarrow> write_lambda_error" where
  "write_lambda_error_from (IngestValidation e) =
     \<lparr>error_type = ''validation_error'', error_message = show_validation_error e\<rparr>"
| "write_lambda_error_from (IngestOperation m) =
     \<lparr>error_type = ''operation_error'', error_message = show_ingest_error (IngestOperation m)\<rparr>"

definition handle_write_request ::
  "(document list \<Rightarrow> 's \<Rightarrow> (ingest_error + write_response) \<times> 's) \<Rightarrow>
   (string list \<Rightarrow> 's \<Rightarrow> (ingest_error + write_response) \<times> 's) \<Rightarrow>
   write_request \<Rightarrow> 's \<Rightarrow> (write_lambda_error + write_response) \<times> 's" where
  "handle_write_request ingest_handler delete_handler request s =
     (case request of
        IngestRequest documents \<Rightarrow> map_prod (map_err write_lambda_error_from) id (ingest_handler documents s)
      | DeleteRequest doc_ids \<Rightarrow> map_prod (map_err write_lambda_error_from) id (delete_handler doc_ids s))"


section \<open>What a batch writes\<close>

lemma pad_zeros_inj:
  assumes "pad_zeros w (show_nat m) = pad_zeros w (show_nat n)" and "m \<noteq> 0" "n \<noteq> 0"
  shows "m = n"
proof -
  have hd: "show_nat k = c # cs \<Longrightarrow> k \<noteq> 0 \<Longrightarrow> c \<noteq> CHR ''0''" for k c cs
  proof (induction k arbitrary: c cs rule: show_nat.induct)
    case (1 k)
    show ?case
    proof (cases "k < 10")
      case True
      then have "c = digit_char k"
        using "1.prems" by (simp add: show_nat.simps)
      moreover have "digit_char 0 = CHR ''0''"
        by code_simp
      ultimately have "c = CHR ''0'' \<Longrightarrow> digit_char k = digit_char 0"
        by (simp only:)
      then show ?thesis
        using digit_char_inj [OF True zero_less_numeral] "1.prems"(2) by blast
    next
      case False
      then obtain ds where "show_nat (k div 10) = c # ds"
        using "1.prems"(1) show_nat_not_Nil(1) [of "k div 10"]
        by (cases "show_nat (k div 10)") (auto simp: show_nat.simps [of k])
      moreover have "k div 10 \<noteq> 0"
        using False by simp
      ultimately show ?thesis
        using "1.IH" [OF False] by blast
    qed
  qed
  have drop: "dropWhile (\<lambda>c. c = CHR ''0'') (pad_zeros w (show_nat k)) = show_nat k" if "k \<noteq> 0" for k
    using hd [of k] that by (cases "show_nat k") (auto simp: pad_zeros_def dropWhile_append)
  then show ?thesis
    using assms show_nat_inj by metis
qed

lemma api_event_id_inj: "api_event_id b i = api_event_id b j \<longleftrightarrow> i = j"
  using pad_zeros_inj [of 6 "i + 1" "j + 1"] by (auto simp: api_event_id_def)

lemma event_ids_upsert:
  "map event_id (upsert_records t ds b) = map (api_event_id b) [0..<length ds]"
  by (rule nth_equalityI) (simp_all add: upsert_records_def nth_enumerate_eq)

lemma event_ids_delete:
  "map event_id (delete_records t ds b) = map (api_event_id b) [0..<length ds]"
  by (rule nth_equalityI) (simp_all add: delete_records_def nth_enumerate_eq)

lemma distinct_event_ids: "distinct (map (api_event_id b) [0..<n])"
  by (simp add: distinct_map inj_on_def api_event_id_inj)

lemma serialize_records_ok:
  "serialize_records mlen ser rs = Inr bytes \<longleftrightarrow>
     (\<forall>r \<in> set rs. wal_record_validate mlen r = Inr () \<and> (\<exists>l. ser r = Inr l)) \<and> bytes = jsonl ser rs"
  by (induction rs arbitrary: bytes) (auto simp: result_simps jsonl_def)

text \<open>What is stored has a line for every record, in order: none is left out.\<close>

lemma serialize_records_lines:
  "serialize_records mlen ser rs = Inr bytes \<Longrightarrow>
     \<exists>lines. list_all2 (\<lambda>r l. ser r = Inr l) rs lines \<and> bytes = concat (map (\<lambda>l. l @ [LF]) lines)"
proof (induction rs arbitrary: bytes)
  case (Cons r rs)
  then obtain l rest lines where "ser r = Inr l" "bytes = (l @ [LF]) @ rest"
    "list_all2 (\<lambda>r l. ser r = Inr l) rs lines" "rest = concat (map (\<lambda>l. l @ [LF]) lines)"
    by (fastforce simp: result_simps)
  then show ?case
    by (intro exI [of _ "l # lines"]) simp
qed simp

lemma serialize_records_unit:
  "is_ok (serialize_records mlen ser rs) \<longleftrightarrow>
     (\<forall>r \<in> set rs. wal_record_validate mlen r = Inr () \<and> is_ok (ser r))"
  by (auto simp: is_ok_iff serialize_records_ok)

definition upsert_of :: "int \<Rightarrow> string \<times> document \<Rightarrow> wal_record" where
  "upsert_of t = (\<lambda>(i, d). \<lparr>event_id = i, rec_doc_id = doc_id d, rec_op = Upsert, rec_document = Some d, rec_timestamp = t\<rparr>)"

definition delete_of :: "int \<Rightarrow> string \<times> string \<Rightarrow> wal_record" where
  "delete_of t = (\<lambda>(i, d). \<lparr>event_id = i, rec_doc_id = d, rec_op = Delete, rec_document = None, rec_timestamp = t\<rparr>)"

lemma upsert_records_zip: "upsert_records t ds b = map (upsert_of t) (zip (map event_id (upsert_records t ds b)) ds)"
  by (rule nth_equalityI) (simp_all add: upsert_records_def upsert_of_def nth_enumerate_eq)

lemma delete_records_zip: "delete_records t ds b = map (delete_of t) (zip (map event_id (delete_records t ds b)) ds)"
  by (rule nth_equalityI) (simp_all add: delete_records_def delete_of_def nth_enumerate_eq)

lemma upsert_records_valid:
  assumes "\<forall>d \<in> set ds. document_validate mlen d = Inr ()" "validate_timestamp t = Inr ()"
    "r \<in> set (upsert_records t ds b)"
  shows "wal_record_validate mlen r = Inr ()"
proof -
  obtain i d where "r = \<lparr>event_id = api_event_id b i, rec_doc_id = doc_id d, rec_op = Upsert,
      rec_document = Some d, rec_timestamp = t\<rparr>" "d \<in> set ds"
    using assms(3) by (auto simp: upsert_records_def in_set_enumerate_eq)
  with assms(1,2) show ?thesis
    by (auto simp: validate_timestamp_def wal_record_validate_ok api_event_id_def split: if_splits)
       (simp_all add: document_validate_ok)
qed

lemma delete_records_valid:
  assumes "\<forall>i \<in> set ds. validate_doc_id i = Inr ()" "validate_timestamp t = Inr ()"
    "r \<in> set (delete_records t ds b)"
  shows "wal_record_validate mlen r = Inr ()"
proof -
  obtain i j where "r = \<lparr>event_id = api_event_id b i, rec_doc_id = j, rec_op = Delete,
      rec_document = None, rec_timestamp = t\<rparr>" "j \<in> set ds"
    using assms(3) by (auto simp: delete_records_def in_set_enumerate_eq)
  with assms(1,2) show ?thesis
    by (auto simp: validate_timestamp_def validate_doc_id_def wal_record_validate_ok api_event_id_def
        split: if_splits)
qed


section \<open>The combined write as an interface\<close>

text \<open>
  What an atomic backend promises: a write that succeeds extends the segment and queues the
  job of the batch, one that fails changes nothing.
\<close>

locale atomic_write =
  fixes op :: "string \<Rightarrow> string \<Rightarrow> queue_batch \<Rightarrow> 's \<Rightarrow> (ingest_error + unit) \<times> 's"
    and read_op :: "string \<Rightarrow> 's \<Rightarrow> ingest_error + string"
    and queued :: "queue_batch \<Rightarrow> 's \<Rightarrow> bool"
  assumes op_writes: "op k b q s = (Inr (), s') \<Longrightarrow> read_op k s' = Inr (segment_bytes read_op k s @ b)"
    and op_queues: "op k b q s = (Inr (), s') \<Longrightarrow> queued q s'"
    and op_fails: "op k b q s = (Inl e, s') \<Longrightarrow> s' = s"
begin

lemma write_records_fails: "write_records mlen ser op t uuid mk s = (Inl e, s') \<Longrightarrow> s' = s"
  by (auto simp: write_records_def api_append_and_enqueue_def Let_def op_fails
      split: sum.splits prod.splits)

lemma write_records_ok:
  assumes "write_records mlen ser op t uuid mk s = (Inr resp, s')"
  shows "wr_batch_id resp = ''batch-'' @ uuid"
    and "segment_key t (wr_batch_id resp) = Inr (wr_wal_key resp)"
    and "\<forall>r \<in> set (mk (wr_batch_id resp)). wal_record_validate mlen r = Inr ()"
    and "read_op (wr_wal_key resp) s' =
      Inr (segment_bytes read_op (wr_wal_key resp) s @ jsonl ser (mk (wr_batch_id resp)))"
    and "queued \<lparr>qb_batch_id = wr_batch_id resp, qb_wal_key = wr_wal_key resp,
      qb_accepted_count = length (mk (wr_batch_id resp)), qb_wal_event_ids = wr_wal_event_ids resp\<rparr> s'"
    and "wr_accepted_count resp = length (mk (wr_batch_id resp))"
    and "wr_wal_event_ids resp = map event_id (mk (wr_batch_id resp))"
    and "\<exists>lines. list_all2 (\<lambda>r l. ser r = Inr l) (mk (wr_batch_id resp)) lines \<and>
      read_op (wr_wal_key resp) s' =
        Inr (segment_bytes read_op (wr_wal_key resp) s @ concat (map (\<lambda>l. l @ [LF]) lines))"
proof -
  obtain key bytes where *: "segment_key t (''batch-'' @ uuid) = Inr key"
    "serialize_records mlen ser (mk (''batch-'' @ uuid)) = Inr bytes"
    "op key bytes \<lparr>qb_batch_id = ''batch-'' @ uuid, qb_wal_key = key,
       qb_accepted_count = length (mk (''batch-'' @ uuid)),
       qb_wal_event_ids = map event_id (mk (''batch-'' @ uuid))\<rparr> s = (Inr (), s')"
    "resp = \<lparr>wr_accepted_count = length (mk (''batch-'' @ uuid)),
       wr_wal_event_ids = map event_id (mk (''batch-'' @ uuid)),
       wr_batch_id = ''batch-'' @ uuid, wr_wal_key = key\<rparr>"
    using assms
    by (auto simp: write_records_def api_append_and_enqueue_def Let_def simp del: append_Cons
        split: sum.splits prod.splits)
  then show "wr_batch_id resp = ''batch-'' @ uuid" "segment_key t (wr_batch_id resp) = Inr (wr_wal_key resp)"
    "wr_accepted_count resp = length (mk (wr_batch_id resp))"
    "wr_wal_event_ids resp = map event_id (mk (wr_batch_id resp))"
    by (simp_all del: append_Cons)
  from *(2) have b: "bytes = jsonl ser (mk (''batch-'' @ uuid))"
    "\<forall>r \<in> set (mk (''batch-'' @ uuid)). wal_record_validate mlen r = Inr ()"
    by (simp_all add: serialize_records_ok)
  then show "\<forall>r \<in> set (mk (wr_batch_id resp)). wal_record_validate mlen r = Inr ()"
    using *(4) by (simp del: append_Cons)
  show "read_op (wr_wal_key resp) s' =
      Inr (segment_bytes read_op (wr_wal_key resp) s @ jsonl ser (mk (wr_batch_id resp)))"
    using op_writes [OF *(3)] *(4) b(1) by (simp del: append_Cons)
  show "queued \<lparr>qb_batch_id = wr_batch_id resp, qb_wal_key = wr_wal_key resp,
      qb_accepted_count = length (mk (wr_batch_id resp)), qb_wal_event_ids = wr_wal_event_ids resp\<rparr> s'"
    using op_queues [OF *(3)] *(4) by (simp del: append_Cons)
  show "\<exists>lines. list_all2 (\<lambda>r l. ser r = Inr l) (mk (wr_batch_id resp)) lines \<and>
      read_op (wr_wal_key resp) s' =
        Inr (segment_bytes read_op (wr_wal_key resp) s @ concat (map (\<lambda>l. l @ [LF]) lines))"
    using serialize_records_lines [OF *(2)] op_writes [OF *(3)] *(4) by (auto simp del: append_Cons)
qed

lemma ingest_fails: "ingest mlen ser op t uuid ds s = (Inl e, s') \<Longrightarrow> s' = s"
  by (auto simp: ingest_def write_records_fails split: sum.splits if_splits)

lemma delete_docs_fails: "delete_docs mlen ser op t uuid ds s = (Inl e, s') \<Longrightarrow> s' = s"
  by (auto simp: delete_docs_def write_records_fails split: sum.splits if_splits)

lemma ingest_ok:
  "ingest mlen ser op t uuid ds s = (Inr resp, s') \<Longrightarrow>
     write_records mlen ser op t uuid (upsert_records t ds) s = (Inr resp, s') \<and> ds \<noteq> [] \<and>
     (\<forall>d \<in> set ds. document_validate mlen d = Inr ()) \<and> 1000000000000 \<le> t"
  by (auto simp: ingest_def result_simps validate_timestamp_def split: sum.splits if_splits)

lemma delete_docs_ok:
  "delete_docs mlen ser op t uuid ds s = (Inr resp, s') \<Longrightarrow>
     write_records mlen ser op t uuid (delete_records t ds) s = (Inr resp, s') \<and> ds \<noteq> [] \<and>
     (\<forall>i \<in> set ds. validate_doc_id i = Inr ()) \<and> 1000000000000 \<le> t"
  by (auto simp: delete_docs_def result_simps validate_timestamp_def split: sum.splits if_splits)

end

end
