(* ===== verification/Sqlite_Wal.thy ===== *)
theory Sqlite_Wal
  imports Wal
begin

text \<open>
  The shared database of the local backend (\<^verbatim>\<open>src/local/sqlite/{mod,schema,wal}.rs\<close>): its
  tables as one state, transactions that roll back, and the WAL store on it. An operation
  takes the failures of its SQL statements as an argument: statement \<open>n\<close> of the operation
  fails with the message \<open>flt n\<close>, if there is one. The mutex of the handle and the
  \<^verbatim>\<open>IMMEDIATE\<close> transactions make each operation one step.
\<close>


section \<open>Tables\<close>

datatype job_state = Ready | Claimed

record job_row =
  job_body :: string
  job_state :: job_state
  job_attempts :: int
  job_available_at :: int
  job_claimed_at :: "int option"
  job_claim_token :: "string option"

record dead_row =
  dead_body :: string
  dead_attempts :: int
  dead_last_error :: string
  dead_died_at :: int

record db =
  wal_segments :: "(string, string) hmap"
  build_jobs :: "(string, job_row) hmap"
  dead_jobs :: "(string, dead_row) hmap"
  active_head :: "string option"
  static_release_head :: "string option"

text \<open>The tables \<^verbatim>\<open>schema::init\<close> creates in a new file.\<close>

definition empty_db :: db where
  "empty_db = \<lparr>wal_segments = [], build_jobs = [], dead_jobs = [], active_head = None,
     static_release_head = None\<rparr>"

type_synonym sql_faults = "nat \<Rightarrow> string option"

definition no_faults :: sql_faults where "no_faults = (\<lambda>_. None)"

definition sql :: "sql_faults \<Rightarrow> nat \<Rightarrow> 'a \<Rightarrow> string + 'a" where
  "sql flt n x = (case flt n of Some e \<Rightarrow> Inl e | None \<Rightarrow> Inr x)"

text \<open>
  The body of a transaction gives a value and the new state; an error drops the
  transaction, which leaves the state as it was. A single statement outside a transaction
  behaves the same.
\<close>

definition in_tx :: "'e + 'a \<times> 's \<Rightarrow> 's \<Rightarrow> ('e + 'a) \<times> 's" where
  "in_tx r s = (case r of Inl e \<Rightarrow> (Inl e, s) | Inr (x, s') \<Rightarrow> (Inr x, s'))"

lemma sql_no_faults [simp]: "sql no_faults n x = Inr x"
  by (simp add: sql_def no_faults_def)

lemma sql_Inr_iff [result_simps]: "sql flt n x = Inr y \<longleftrightarrow> flt n = None \<and> y = x"
  by (auto simp: sql_def split: option.splits)

lemma in_tx_Inr_iff: "in_tx r s = (Inr x, s') \<longleftrightarrow> r = Inr (x, s')"
  by (auto simp: in_tx_def split: sum.splits)

lemma in_tx_Inl: "in_tx r s = (Inl e, s') \<Longrightarrow> s' = s"
  by (auto simp: in_tx_def split: sum.splits)

lemma in_tx_cases:
  obtains (rolled_back) e where "in_tx r s = (Inl e, s)" "r = Inl e"
    | (committed) x s' where "in_tx r s = (Inr x, s')" "r = Inr (x, s')"
  by (cases r) (auto simp: in_tx_def)


section \<open>The WAL store\<close>

definition op_err :: "string \<Rightarrow> string \<Rightarrow> ingest_error" where
  "op_err context e = IngestOperation (msg [context, '': '', e])"

definition append_wal_segment :: "sql_faults \<Rightarrow> nat \<Rightarrow> string \<Rightarrow> string \<Rightarrow> db \<Rightarrow> string + db" where
  "append_wal_segment flt n key bytes s =
     and_then (sql flt n (hm_get (wal_segments s) key)) (\<lambda>existing.
       let buf = (case existing of None \<Rightarrow> [] | Some d \<Rightarrow> d) @ bytes
       in sql flt (Suc n) (s\<lparr>wal_segments := hm_insert key buf (wal_segments s)\<rparr>))"

definition sqlite_wal_append :: "sql_faults \<Rightarrow> string \<Rightarrow> string \<Rightarrow> db \<Rightarrow> (ingest_error + unit) \<times> db" where
  "sqlite_wal_append flt key bytes s = in_tx
     (and_then (map_err (op_err (msg [''failed to open WAL append tx for '', key])) (sql flt 0 ())) (\<lambda>_.
      and_then (map_err (op_err (msg [''failed to append WAL '', key])) (append_wal_segment flt 1 key bytes s)) (\<lambda>s'.
      map_err (op_err (msg [''failed to commit WAL append for '', key])) (sql flt 3 ((), s'))))) s"

definition sqlite_wal_read :: "sql_faults \<Rightarrow> string \<Rightarrow> db \<Rightarrow> ingest_error + string" where
  "sqlite_wal_read flt key s =
     and_then (map_err (op_err (msg [''failed to read WAL '', key])) (sql flt 0 (hm_get (wal_segments s) key)))
       (ok_or (IngestOperation (msg [''failed to read WAL '', key, '': segment not found''])))"

definition sqlite_list_wal_keys :: "sql_faults \<Rightarrow> db \<Rightarrow> string + string list" where
  "sqlite_list_wal_keys flt s =
     and_then (map_err (\<lambda>e. msg [''failed to prepare list_wal_keys: '', e]) (sql flt 0 ())) (\<lambda>_.
     and_then (map_err (\<lambda>e. msg [''failed to query wal_segments: '', e]) (sql flt 1 ())) (\<lambda>_.
     map_err (\<lambda>e. msg [''failed to read wal_segments row: '', e]) (sql flt 2 (sort (map fst (wal_segments s))))))"

lemma append_wal_segment_Inr:
  "append_wal_segment flt n key bytes s = Inr s' \<Longrightarrow>
     s' = s\<lparr>wal_segments := hm_insert key
       ((case hm_get (wal_segments s) key of None \<Rightarrow> [] | Some d \<Rightarrow> d) @ bytes) (wal_segments s)\<rparr>"
  by (auto simp: append_wal_segment_def result_simps Let_def)

lemma sqlite_wal_append_Inr:
  "sqlite_wal_append flt key bytes s = (Inr x, s') \<Longrightarrow> append_wal_segment flt 1 key bytes s = Inr s'"
  by (auto simp: sqlite_wal_append_def in_tx_Inr_iff result_simps)

lemma sqlite_wal_append_cases:
  "sqlite_wal_append flt key bytes s = (r, s') \<Longrightarrow>
     (r = Inr () \<and> append_wal_segment flt 1 key bytes s = Inr s') \<or> (\<exists>e. r = Inl e \<and> s' = s)"
proof (cases r)
  case (Inl e)
  then show "sqlite_wal_append flt key bytes s = (r, s') \<Longrightarrow> ?thesis"
    unfolding sqlite_wal_append_def by (auto dest: in_tx_Inl)
next
  case (Inr u)
  then show "sqlite_wal_append flt key bytes s = (r, s') \<Longrightarrow> ?thesis"
    by (auto dest: sqlite_wal_append_Inr)
qed

interpretation sqlite_wal: wal_storage "sqlite_wal_append flt" "sqlite_wal_read no_faults" for flt
proof
  fix k b and s s' :: db
  assume "sqlite_wal_append flt k b s = (Inr (), s')"
  then show "sqlite_wal_read no_faults k s' = Inr (segment_bytes (sqlite_wal_read no_faults) k s @ b)"
    by (auto dest!: sqlite_wal_append_Inr append_wal_segment_Inr
        simp: sqlite_wal_read_def segment_bytes_def ok_or_def split: option.splits)
next
  fix k b and s s' :: db and r j
  assume "sqlite_wal_append flt k b s = (r, s')" "j \<noteq> k"
  then show "sqlite_wal_read no_faults j s' = sqlite_wal_read no_faults j s"
    using sqlite_wal_append_cases [of flt k b s r s']
    by (auto simp: sqlite_wal_read_def dest!: append_wal_segment_Inr)
next
  fix k b and s s' :: db and e
  assume "sqlite_wal_append flt k b s = (Inl e, s')"
  then show "s' = s"
    unfolding sqlite_wal_append_def by (rule in_tx_Inl)
qed

text \<open>
  Records appended to a segment of the SQLite log, and read back later, come back
  complete and in order, after those the segment already held.
\<close>

theorem wal_append_then_read:
  assumes "segment_bytes (sqlite_wal_read no_faults) key s = jsonl ser old"
    and "sqlite_wal_append flt key (jsonl ser new) s = (Inr (), s')"
    and "\<forall>r \<in> set (old @ new). codec_on ser de r \<and> wal_record_validate mlen r = Inr ()"
  shows "wal_read mlen de utf8_msg (sqlite_wal_read no_faults) key s' = Inr (old @ new)"
  using sqlite_wal.read_after_append [OF assms(2,1)] assms(3) by blast

definition sample_delete :: wal_record where
  "sample_delete = \<lparr>event_id = ''b-000001'', rec_doc_id = ''doc-1'', rec_op = Delete, rec_document = None,
     rec_timestamp = 1700000000000\<rparr>"

lemma wal_append_then_read_witness:
  "wal_read (\<lambda>_. Some 2) (\<lambda>_. Inr sample_delete) (\<lambda>_. []) (sqlite_wal_read no_faults) ''wal/k''
     (snd (sqlite_wal_append no_faults ''wal/k'' (jsonl (\<lambda>_. Inr ''{}'') [sample_delete]) empty_db))
   = Inr ([] @ [sample_delete])"
proof (rule wal_append_then_read)
  show "segment_bytes (sqlite_wal_read no_faults) ''wal/k'' empty_db = jsonl (\<lambda>_. Inr ''{}'') []"
    by code_simp
  show "sqlite_wal_append no_faults ''wal/k'' (jsonl (\<lambda>_. Inr ''{}'') [sample_delete]) empty_db =
      (Inr (), snd (sqlite_wal_append no_faults ''wal/k'' (jsonl (\<lambda>_. Inr ''{}'') [sample_delete]) empty_db))"
    by code_simp
  show "\<forall>r \<in> set ([] @ [sample_delete]). codec_on (\<lambda>_. Inr ''{}'') (\<lambda>_. Inr sample_delete) r \<and>
      wal_record_validate (\<lambda>_. Some 2) r = Inr ()"
    by (simp add: codec_on_def) code_simp
qed

end
