(* ===== verification/Heads.thy ===== *)
theory Heads
  imports Sqlite_Wal
begin

text \<open>
  The pointers to the active versions (\<^verbatim>\<open>src/storage/{s3_paths,head,static_head,
  manifest_store,static_release_store}.rs\<close>, \<^verbatim>\<open>src/local/sqlite/{manifest,static_release}.rs\<close>):
  their keys, their validation, and the read side on files and on the database. Parsing of
  JSON is an argument, an error being the message of the library.
\<close>


section \<open>Keys\<close>

definition INDEX_HEAD_KEY :: string where "INDEX_HEAD_KEY = ''index/_head''"
definition STATIC_HEAD_KEY :: string where "STATIC_HEAD_KEY = ''static/_head''"

definition version_manifest_key :: "u64 \<Rightarrow> string" where
  "version_manifest_key v = ''index/versions/'' @ show_u64 v @ ''/manifest.json''"

definition static_release_dir_key :: "string \<Rightarrow> string" where
  "static_release_dir_key i = ''static/releases/'' @ i"

definition static_release_manifest_key :: "string \<Rightarrow> string" where
  "static_release_manifest_key i = ''static/releases/'' @ i @ ''/release_manifest.json''"

lemma version_manifest_key_inj: "version_manifest_key v = version_manifest_key w \<longleftrightarrow> v = w"
  by (simp add: version_manifest_key_def show_u64_inj)

lemma static_release_manifest_key_inj:
  "static_release_manifest_key i = static_release_manifest_key j \<longleftrightarrow> i = j"
  by (simp add: static_release_manifest_key_def)

lemma head_keys_distinct [simp]:
  "INDEX_HEAD_KEY \<noteq> STATIC_HEAD_KEY" "STATIC_HEAD_KEY \<noteq> INDEX_HEAD_KEY"
  "version_manifest_key v \<noteq> INDEX_HEAD_KEY" "version_manifest_key v \<noteq> STATIC_HEAD_KEY"
  by (simp_all add: INDEX_HEAD_KEY_def STATIC_HEAD_KEY_def version_manifest_key_def)


section \<open>The pointer documents\<close>

record manifest_head =
  mh_version_id :: u64
  mh_manifest_path :: string
  mh_updated_at :: int

datatype head_error =
    HeadParse string
  | VersionMustBePositive
  | ImplausibleUpdatedAt
  | ManifestPathMismatch string

fun show_head_error :: "head_error \<Rightarrow> string" where
  "show_head_error (HeadParse m) = msg [''failed to parse manifest head: '', m]"
| "show_head_error VersionMustBePositive = ''version_id must be positive''"
| "show_head_error ImplausibleUpdatedAt = ''updated_at must be a plausible epoch millis value''"
| "show_head_error (ManifestPathMismatch expected) =
     msg [''manifest_path must match version_id; expected '', expected]"

definition manifest_head_new :: "u64 \<Rightarrow> int \<Rightarrow> manifest_head" where
  "manifest_head_new v t =
     \<lparr>mh_version_id = v, mh_manifest_path = version_manifest_key v, mh_updated_at = t\<rparr>"

definition manifest_head_validate :: "manifest_head \<Rightarrow> head_error + unit" where
  "manifest_head_validate h =
     ensure (mh_version_id h \<noteq> 0) VersionMustBePositive
    (ensure (\<not> mh_updated_at h < MIN_PLAUSIBLE_EPOCH_MILLIS) ImplausibleUpdatedAt
    (let expected = version_manifest_key (mh_version_id h)
     in ensure (mh_manifest_path h = expected) (ManifestPathMismatch expected) (Inr ())))"

definition manifest_head_from_json ::
  "(string \<Rightarrow> string + manifest_head) \<Rightarrow> string \<Rightarrow> head_error + manifest_head" where
  "manifest_head_from_json de bytes =
     and_then (map_err HeadParse (de bytes)) (\<lambda>h.
     and_then (manifest_head_validate h) (\<lambda>_. Inr h))"

record static_release_head =
  sh_release_id :: string
  sh_manifest_path :: string
  sh_updated_at :: int

datatype static_head_error =
    StaticHeadParse string
  | InvalidReleaseId
  | StaticImplausibleUpdatedAt
  | StaticManifestPathMismatch string

fun show_static_head_error :: "static_head_error \<Rightarrow> string" where
  "show_static_head_error (StaticHeadParse m) = msg [''failed to parse static release head: '', m]"
| "show_static_head_error InvalidReleaseId = ''release_id must be exactly 64 lowercase hex characters''"
| "show_static_head_error StaticImplausibleUpdatedAt = ''updated_at must be a plausible epoch millis value''"
| "show_static_head_error (StaticManifestPathMismatch expected) =
     msg [''manifest_path must match release_id; expected '', expected]"

definition RELEASE_ID_HEX_LEN :: nat where "RELEASE_ID_HEX_LEN = 64"

definition is_lower_hex :: "char \<Rightarrow> bool" where
  "is_lower_hex c = (let n = of_char c :: nat in (48 \<le> n \<and> n \<le> 57) \<or> (97 \<le> n \<and> n \<le> 102))"

definition is_release_id :: "string \<Rightarrow> bool" where
  "is_release_id i = (length i = RELEASE_ID_HEX_LEN \<and> (\<forall>b \<in> set i. is_lower_hex b))"

definition static_release_head_new :: "string \<Rightarrow> int \<Rightarrow> static_release_head" where
  "static_release_head_new i t =
     \<lparr>sh_release_id = i, sh_manifest_path = static_release_manifest_key i, sh_updated_at = t\<rparr>"

definition static_release_head_validate :: "static_release_head \<Rightarrow> static_head_error + unit" where
  "static_release_head_validate h =
     ensure (is_release_id (sh_release_id h)) InvalidReleaseId
    (ensure (\<not> sh_updated_at h < MIN_PLAUSIBLE_EPOCH_MILLIS) StaticImplausibleUpdatedAt
    (let expected = static_release_manifest_key (sh_release_id h)
     in ensure (sh_manifest_path h = expected) (StaticManifestPathMismatch expected) (Inr ())))"

definition static_release_head_from_json ::
  "(string \<Rightarrow> string + static_release_head) \<Rightarrow> string \<Rightarrow> static_head_error + static_release_head" where
  "static_release_head_from_json de bytes =
     and_then (map_err StaticHeadParse (de bytes)) (\<lambda>h.
     and_then (static_release_head_validate h) (\<lambda>_. Inr h))"

lemma manifest_head_validate_ok [validate_simps]:
  "manifest_head_validate h = Inr () \<longleftrightarrow>
     mh_version_id h \<noteq> 0 \<and> 1000000000000 \<le> mh_updated_at h \<and>
     h = manifest_head_new (mh_version_id h) (mh_updated_at h)"
  by (cases h) (auto simp: manifest_head_validate_def manifest_head_new_def ensure_ok_iff Let_def
      MIN_PLAUSIBLE_EPOCH_MILLIS_def)

lemma static_release_head_validate_ok [validate_simps]:
  "static_release_head_validate h = Inr () \<longleftrightarrow>
     is_release_id (sh_release_id h) \<and> 1000000000000 \<le> sh_updated_at h \<and>
     h = static_release_head_new (sh_release_id h) (sh_updated_at h)"
  by (cases h) (auto simp: static_release_head_validate_def static_release_head_new_def ensure_ok_iff Let_def
      MIN_PLAUSIBLE_EPOCH_MILLIS_def)

lemma manifest_head_from_json_ok:
  "manifest_head_from_json de bytes = Inr h \<longleftrightarrow> de bytes = Inr h \<and> manifest_head_validate h = Inr ()"
  by (auto simp: manifest_head_from_json_def result_simps)

lemma static_release_head_from_json_ok:
  "static_release_head_from_json de bytes = Inr h \<longleftrightarrow> de bytes = Inr h \<and> static_release_head_validate h = Inr ()"
  by (auto simp: static_release_head_from_json_def result_simps)


section \<open>The read side\<close>

text \<open>Reading a file: \<^verbatim>\<open>NotFound\<close>, or another error with its message.\<close>

datatype io_error = NotFound | OtherIo string

datatype manifest_store_error =
    MissingHead string
  | MissingManifest string
  | InvalidHead string
  | InvalidManifest string string
  | ManifestStoreIo string io_error

record active_manifest =
  am_head :: manifest_head
  am_manifest :: index_manifest

text \<open>\<^verbatim>\<open>Path::join\<close>: an absolute second path replaces the first.\<close>

definition path_join :: "string \<Rightarrow> string \<Rightarrow> string" where
  "path_join base p =
     (if p \<noteq> [] \<and> hd p = CHR ''/'' then p
      else if base = [] \<or> last base = CHR ''/'' then base @ p
      else base @ ''/'' @ p)"

definition head_error_message :: "head_error \<Rightarrow> string" where
  "head_error_message e = (case e of HeadParse m \<Rightarrow> m | other \<Rightarrow> show_head_error other)"

text \<open>\<open>rd\<close> reads a file as UTF-8 text; \<open>is_head\<close> selects the error of a missing file.\<close>

definition ms_read_to_string ::
  "(string \<Rightarrow> io_error + string) \<Rightarrow> string \<Rightarrow> bool \<Rightarrow> manifest_store_error + string" where
  "ms_read_to_string rd path is_head =
     map_err (\<lambda>e. case e of
         NotFound \<Rightarrow> if is_head then MissingHead path else MissingManifest path
       | OtherIo m \<Rightarrow> ManifestStoreIo path (OtherIo m)) (rd path)"

definition local_load_head ::
  "(string \<Rightarrow> io_error + string) \<Rightarrow> (string \<Rightarrow> string + manifest_head) \<Rightarrow> string \<Rightarrow>
   manifest_store_error + manifest_head" where
  "local_load_head rd de_head base =
     and_then (ms_read_to_string rd (path_join base INDEX_HEAD_KEY) True) (\<lambda>contents.
       map_err (InvalidHead \<circ> head_error_message) (manifest_head_from_json de_head contents))"

text \<open>The part both stores share: the manifest the head names must parse, validate and agree.\<close>

definition load_manifest_of_head ::
  "(string \<Rightarrow> io_error + string) \<Rightarrow> (string \<Rightarrow> string + index_manifest) \<Rightarrow> string \<Rightarrow> manifest_head \<Rightarrow>
   manifest_store_error + active_manifest" where
  "load_manifest_of_head rd de_manifest base head =
     (let path = path_join base (mh_manifest_path head)
      in and_then (ms_read_to_string rd path False) (\<lambda>contents.
         and_then (map_err (InvalidManifest path) (de_manifest contents)) (\<lambda>manifest.
         and_then (map_err (InvalidManifest path \<circ> show_validation_error) (index_manifest_validate manifest)) (\<lambda>_.
         if version_id manifest \<noteq> mh_version_id head
         then Inl (InvalidManifest path ''manifest version_id must match _head version_id'')
         else Inr \<lparr>am_head = head, am_manifest = manifest\<rparr>))))"

definition local_load_active_manifest ::
  "(string \<Rightarrow> io_error + string) \<Rightarrow> (string \<Rightarrow> string + manifest_head) \<Rightarrow> (string \<Rightarrow> string + index_manifest) \<Rightarrow>
   string \<Rightarrow> manifest_store_error + active_manifest" where
  "local_load_active_manifest rd de_head de_manifest base =
     and_then (local_load_head rd de_head base) (load_manifest_of_head rd de_manifest base)"

definition load_active_version :: "manifest_store_error + manifest_head \<Rightarrow> manifest_store_error + u64" where
  "load_active_version loaded = map_ok mh_version_id loaded"

definition sqlite_load_head ::
  "sql_faults \<Rightarrow> (string \<Rightarrow> string + manifest_head) \<Rightarrow> db \<Rightarrow> manifest_store_error + manifest_head" where
  "sqlite_load_head flt de_head s =
     and_then (map_err (\<lambda>e. InvalidHead (msg [''failed to read active head: '', e])) (sql flt 0 (active_head s))) (\<lambda>bytes.
     and_then (ok_or (MissingHead INDEX_HEAD_KEY) bytes) (\<lambda>bytes.
       map_err (InvalidHead \<circ> head_error_message) (manifest_head_from_json de_head bytes)))"

definition sqlite_load_active_manifest ::
  "sql_faults \<Rightarrow> (string \<Rightarrow> io_error + string) \<Rightarrow> (string \<Rightarrow> string + manifest_head) \<Rightarrow>
   (string \<Rightarrow> string + index_manifest) \<Rightarrow> string \<Rightarrow> db \<Rightarrow> manifest_store_error + active_manifest" where
  "sqlite_load_active_manifest flt rd de_head de_manifest base s =
     and_then (sqlite_load_head flt de_head s) (load_manifest_of_head rd de_manifest base)"

datatype static_release_store_error =
    StaticStoreInvalid string
  | StaticStoreIo string io_error

fun invalid_head :: "static_head_error \<Rightarrow> static_release_store_error" where
  "invalid_head (StaticHeadParse m) = StaticStoreInvalid m"
| "invalid_head other = StaticStoreInvalid (show_static_head_error other)"

definition local_load_active_release ::
  "(string \<Rightarrow> io_error + string) \<Rightarrow> (string \<Rightarrow> string + static_release_head) \<Rightarrow> string \<Rightarrow>
   static_release_store_error + static_release_head option" where
  "local_load_active_release rd de base =
     (let path = path_join base STATIC_HEAD_KEY
      in case rd path of
           Inl NotFound \<Rightarrow> Inr None
         | Inl e \<Rightarrow> Inl (StaticStoreIo path e)
         | Inr bytes \<Rightarrow> map_err invalid_head (map_ok Some (static_release_head_from_json de bytes)))"

definition sqlite_load_active_release ::
  "sql_faults \<Rightarrow> (string \<Rightarrow> string + static_release_head) \<Rightarrow> db \<Rightarrow>
   static_release_store_error + static_release_head option" where
  "sqlite_load_active_release flt de s =
     and_then (map_err (\<lambda>e. StaticStoreInvalid (msg [''failed to read static release head: '', e]))
       (sql flt 0 (static_release_head s))) (\<lambda>bytes.
     case bytes of
       Some b \<Rightarrow> map_err invalid_head (map_ok Some (static_release_head_from_json de b))
     | None \<Rightarrow> Inr None)"

text \<open>
  C11. Whatever bytes are stored, a version the file store or the database store
  reports as active is consistent: its head names its own manifest, the manifest carries the
  version of the head and satisfies every rule of the manifest validator.
\<close>

theorem active_manifest_consistent:
  assumes "local_load_active_manifest rd de_head de_manifest base = Inr am \<or>
    sqlite_load_active_manifest flt rd de_head de_manifest base s = Inr am"
  shows "version_id (am_manifest am) = mh_version_id (am_head am) \<and>
    am_head am = manifest_head_new (mh_version_id (am_head am)) (mh_updated_at (am_head am)) \<and>
    mh_version_id (am_head am) \<noteq> 0 \<and> 1000000000000 \<le> mh_updated_at (am_head am) \<and>
    index_manifest_validate (am_manifest am) = Inr ()"
proof -
  have "manifest_head_validate (am_head am) = Inr () \<and> version_id (am_manifest am) = mh_version_id (am_head am) \<and>
      index_manifest_validate (am_manifest am) = Inr ()"
    using assms
    by (auto simp: local_load_active_manifest_def sqlite_load_active_manifest_def local_load_head_def
        sqlite_load_head_def load_manifest_of_head_def Let_def result_simps manifest_head_from_json_ok
        split: if_splits)
  then show ?thesis
    by (simp add: manifest_head_validate_ok)
qed

definition sample_shard :: shard_manifest where
  "sample_shard = \<lparr>shard_id = 0, shard_document_count = 2, lance_path = ''s3://b/l'', tantivy_path = ''s3://b/t''\<rparr>"

definition sample_manifest :: "u64 \<Rightarrow> index_manifest" where
  "sample_manifest v = \<lparr>version_id = v, created_at = 1700000000000, embedding_dim = 4, document_count = 2,
     num_shards = 1, shards = [sample_shard]\<rparr>"

lemma sample_manifest_valid: "index_manifest_validate (sample_manifest v) = Inr ()"
proof -
  have "validate_s3_uri ''s3://b/l'' [] = Inr ()" "validate_s3_uri ''s3://b/t'' [] = Inr ()"
    by code_simp+
  then show ?thesis
    by (simp add: index_manifest_validate_ok validate_s3_uri_ok sample_manifest_def sample_shard_def)
qed

lemma active_manifest_consistent_witness:
  "version_id (am_manifest \<lparr>am_head = manifest_head_new 7 1700000000000, am_manifest = sample_manifest 7\<rparr>) = 7"
proof -
  have "local_load_active_manifest (\<lambda>_. Inr []) (\<lambda>_. Inr (manifest_head_new 7 1700000000000))
      (\<lambda>_. Inr (sample_manifest 7)) ''/r'' =
      Inr \<lparr>am_head = manifest_head_new 7 1700000000000, am_manifest = sample_manifest 7\<rparr>"
    by (simp add: local_load_active_manifest_def local_load_head_def ms_read_to_string_def
        manifest_head_from_json_def manifest_head_validate_def manifest_head_new_def ensure_def
        MIN_PLAUSIBLE_EPOCH_MILLIS_def load_manifest_of_head_def sample_manifest_valid Let_def)
       (simp add: sample_manifest_def)
  from active_manifest_consistent [OF disjI1 [OF this]] show ?thesis
    by (simp add: manifest_head_new_def)
qed

end
