(* ===== verification/Publish_Storage.thy ===== *)
theory Publish_Storage
  imports Heads
begin

text \<open>
  The storage a publisher writes to (\<^verbatim>\<open>src/indexing/publisher.rs\<close> for the trait,
  \<^verbatim>\<open>src/local/fs_publish.rs\<close>, \<^verbatim>\<open>src/local/sqlite/head.rs\<close>): artifacts on the file system,
  pointers in single rows of the database, changed by compare-and-swap on a content tag.
  The operating system is an argument, a record of the calls the source makes.
\<close>


section \<open>The operations of a storage\<close>

record versioned_object =
  vo_bytes :: string
  vo_etag :: string

datatype upload_mode = CreateOnly | Overwrite

record 's publish_ops =
  op_upload_directory :: "string \<Rightarrow> string \<Rightarrow> upload_mode \<Rightarrow> 's \<Rightarrow> (publish_error + unit) \<times> 's"
  op_upload_file :: "string \<Rightarrow> string \<Rightarrow> upload_mode \<Rightarrow> 's \<Rightarrow> (publish_error + unit) \<times> 's"
  op_read :: "string \<Rightarrow> 's \<Rightarrow> publish_error + versioned_object option"
  op_cas :: "string \<Rightarrow> string option \<Rightarrow> string \<Rightarrow> 's \<Rightarrow> (publish_error + bool) \<times> 's"


section \<open>The file system store\<close>

text \<open>The calls to the operating system, on a file system of any type \<^typ>\<open>'f\<close>.\<close>

record 'f os_ops =
  os_is_dir :: "string \<Rightarrow> 'f \<Rightarrow> bool"
  os_exists :: "string \<Rightarrow> 'f \<Rightarrow> bool"
  os_read_dir :: "string \<Rightarrow> 'f \<Rightarrow> string + (string + string) list"
  os_create_dir_all :: "string \<Rightarrow> 'f \<Rightarrow> (string + unit) \<times> 'f"
  os_copy :: "string \<Rightarrow> string \<Rightarrow> 'f \<Rightarrow> (string + unit) \<times> 'f"
  os_read :: "string \<Rightarrow> 'f \<Rightarrow> io_error + string"
  os_write :: "string \<Rightarrow> string \<Rightarrow> 'f \<Rightarrow> (string + unit) \<times> 'f"
  os_rename :: "string \<Rightarrow> string \<Rightarrow> 'f \<Rightarrow> (string + unit) \<times> 'f"
  os_remove_dir_all :: "string \<Rightarrow> 'f \<Rightarrow> (string + unit) \<times> 'f"
  os_remove_file :: "string \<Rightarrow> 'f \<Rightarrow> (string + unit) \<times> 'f"

definition reject_head_key :: "string \<Rightarrow> string \<Rightarrow> publish_error + unit" where
  "reject_head_key key operation =
     (if key = INDEX_HEAD_KEY \<or> key = STATIC_HEAD_KEY
      then Inl (PublishOperation (msg [''filesystem '', operation, '' of '', key,
        '' is retired: the pointer lives in SQLite; route through sqlite::LocalPublishStorage'']))
      else Inr ())"

text \<open>FNV-1a on 64 bits, printed as 16 hexadecimal digits.\<close>

definition fnv_step :: "u64 \<Rightarrow> char \<Rightarrow> u64" where
  "fnv_step hash byte = (hash XOR of_char byte) * 0x100000001b3"

definition hex_digit :: "nat \<Rightarrow> char" where
  "hex_digit n = (if n < 10 then char_of (48 + n) else char_of (87 + n))"

definition hex_digits :: "nat \<Rightarrow> nat \<Rightarrow> string" where
  "hex_digits w n = map (\<lambda>i. hex_digit (n div 16 ^ i mod 16)) (rev [0..<w])"

definition etag_of :: "string \<Rightarrow> string" where
  "etag_of bytes = hex_digits 16 (unat (foldl fnv_step 0xcbf29ce484222325 bytes))"

definition path_parent :: "string \<Rightarrow> string option" where
  "path_parent p = (let up = rev (dropWhile (\<lambda>c. c \<noteq> CHR ''/'') (rev p))
     in if p = [] then None else if up = [] then Some [] else if up = ''/'' then
          (if length p = 1 then None else Some ''/'') else Some (butlast up))"

text \<open>
  \<^verbatim>\<open>copy_tree\<close>, with the nesting depth as fuel: a tree deeper than the fuel gives
  \<^term>\<open>None\<close>.
\<close>

fun copy_entries :: "(string \<Rightarrow> 'f \<Rightarrow> ((string + unit) \<times> 'f) option) \<Rightarrow> (string + string) list \<Rightarrow> 'f \<Rightarrow>
    ((string + unit) \<times> 'f) option" where
  "copy_entries copy [] fs = Some (Inr (), fs)"
| "copy_entries copy (Inl e # es) fs = Some (Inl e, fs)"
| "copy_entries copy (Inr name # es) fs =
     (case copy name fs of
        None \<Rightarrow> None
      | Some (Inl e, fs1) \<Rightarrow> Some (Inl e, fs1)
      | Some (Inr _, fs1) \<Rightarrow> copy_entries copy es fs1)"

fun copy_tree :: "'f os_ops \<Rightarrow> nat \<Rightarrow> string \<Rightarrow> string \<Rightarrow> 'f \<Rightarrow> ((string + unit) \<times> 'f) option" where
  "copy_tree os 0 source dest fs = None"
| "copy_tree os (Suc n) source dest fs =
     (if os_is_dir os source fs then
        (case os_create_dir_all os dest fs of
           (Inl e, fs1) \<Rightarrow> Some (Inl e, fs1)
         | (Inr _, fs1) \<Rightarrow>
             (case os_read_dir os source fs1 of
                Inl e \<Rightarrow> Some (Inl e, fs1)
              | Inr entries \<Rightarrow>
                  copy_entries (\<lambda>name. copy_tree os n (path_join source name) (path_join dest name)) entries fs1))
      else
        (case (case path_parent dest of None \<Rightarrow> (Inr (), fs) | Some parent \<Rightarrow> os_create_dir_all os parent fs) of
           (Inl e, fs1) \<Rightarrow> Some (Inl e, fs1)
         | (Inr _, fs1) \<Rightarrow> Some (os_copy os source dest fs1)))"

text \<open>The fuel is the depth of the tree a caller copies.\<close>

definition fs_upload ::
  "'f os_ops \<Rightarrow> nat \<Rightarrow> string \<Rightarrow> string \<Rightarrow> string \<Rightarrow> string \<Rightarrow> string \<Rightarrow> upload_mode \<Rightarrow> 'f \<Rightarrow>
   (publish_error + unit) \<times> 'f" where
  "fs_upload os depth base operation what key source mode fs =
     (case reject_head_key key operation of
        Inl e \<Rightarrow> (Inl e, fs)
      | Inr _ \<Rightarrow>
          (let dest = path_join base key
           in if mode = CreateOnly \<and> os_exists os dest fs then
                (Inl (PublishOperation (msg [(if what = ''dir'' then ''directory'' else what), '' '', key, '' already exists''])), fs)
              else
                (case copy_tree os depth source dest fs of
                   None \<Rightarrow> (Inl (PublishOperation (msg [''failed to upload '', what, '' '', key])), fs)
                 | Some (Inl e, fs1) \<Rightarrow> (Inl (PublishOperation (msg [''failed to upload '', what, '' '', key, '': '', e])), fs1)
                 | Some (Inr _, fs1) \<Rightarrow> (Inr (), fs1))))"

definition fs_read :: "'f os_ops \<Rightarrow> string \<Rightarrow> string \<Rightarrow> 'f \<Rightarrow> publish_error + versioned_object option" where
  "fs_read os base key fs =
     and_then (reject_head_key key ''read'') (\<lambda>_.
       case os_read os (path_join base key) fs of
         Inr bytes \<Rightarrow> Inr (Some \<lparr>vo_bytes = bytes, vo_etag = etag_of bytes\<rparr>)
       | Inl NotFound \<Rightarrow> Inr None
       | Inl (OtherIo e) \<Rightarrow> Inl (PublishOperation (msg [''failed to read '', key, '': '', e])))"

definition fs_cas ::
  "'f os_ops \<Rightarrow> string \<Rightarrow> string \<Rightarrow> string option \<Rightarrow> string \<Rightarrow> 'f \<Rightarrow> (publish_error + bool) \<times> 'f" where
  "fs_cas os base key expected new_value fs =
     (case reject_head_key key ''compare_and_swap'' of
        Inl e \<Rightarrow> (Inl e, fs)
      | Inr _ \<Rightarrow>
          (let path = path_join base key
           in case (case os_read os path fs of
                      Inr bytes \<Rightarrow> Inr (Some (etag_of bytes))
                    | Inl NotFound \<Rightarrow> Inr None
                    | Inl (OtherIo e) \<Rightarrow> Inl (PublishOperation (msg [''failed to read '', key, '' for CAS: '', e]))) of
                Inl e \<Rightarrow> (Inl e, fs)
              | Inr current \<Rightarrow>
                  if current \<noteq> expected then (Inr False, fs)
                  else
                    (case (case path_parent path of None \<Rightarrow> (Inr (), fs) | Some parent \<Rightarrow> os_create_dir_all os parent fs) of
                       (Inl e, fs1) \<Rightarrow> (Inl (PublishOperation (msg [''failed to create dir for '', key, '': '', e])), fs1)
                     | (Inr _, fs1) \<Rightarrow>
                         (case os_write os path new_value fs1 of
                            (Inl e, fs2) \<Rightarrow> (Inl (PublishOperation (msg [''failed to CAS-write '', key, '': '', e])), fs2)
                          | (Inr _, fs2) \<Rightarrow> (Inr True, fs2)))))"


section \<open>What a content tag says\<close>

text \<open>
  The tag is FNV-1a in 64 bits, a multiply-and-xor checksum; here it is over the natural numbers,
  as the algorithm is published. Equal tags mean equal checksums and no more than that, and every
  change of a single byte changes it.
\<close>

definition fnv1a :: "string \<Rightarrow> nat" where
  "fnv1a bytes = foldl (\<lambda>h c. (h XOR of_char c) * 1099511628211 mod 2 ^ 64) 14695981039346656037 bytes"

definition one_byte_change :: "string \<Rightarrow> string \<Rightarrow> bool" where
  "one_byte_change a b \<longleftrightarrow> (\<exists>p c d q. a = p @ c # q \<and> b = p @ d # q \<and> c \<noteq> d)"

lemma hex_digit_inj: "m < 16 \<Longrightarrow> n < 16 \<Longrightarrow> hex_digit m = hex_digit n \<longleftrightarrow> m = n"
proof -
  have "list_all (\<lambda>m. list_all (\<lambda>n. (hex_digit m = hex_digit n) = (m = n)) [0..<16]) [0..<16]"
    by code_simp
  then show "m < 16 \<Longrightarrow> n < 16 \<Longrightarrow> hex_digit m = hex_digit n \<longleftrightarrow> m = n"
    by (simp add: list_all_iff)
qed

lemma hex_digits_inj:
  assumes "hex_digits w m = hex_digits w n" "m < 16 ^ w" "n < 16 ^ w"
  shows "m = n"
  using assms
proof (induction w arbitrary: m n)
  case (Suc w)
  have snoc: "hex_digits (Suc w) x = hex_digits w (x div 16) @ [hex_digit (x mod 16)]" for x
  proof -
    have "rev [0..<Suc w] = map Suc (rev [0..<w]) @ [0]"
      by (simp add: upt_conv_Cons map_Suc_upt rev_map [symmetric] del: upt_Suc)
    then show ?thesis
      by (simp add: hex_digits_def div_mult2_eq o_def)
  qed
  have "hex_digits w (m div 16) = hex_digits w (n div 16)" "m mod 16 = n mod 16"
    using Suc.prems(1) by (simp_all add: snoc hex_digit_inj)
  moreover have "m div 16 < 16 ^ w" "n div 16 < 16 ^ w"
    using Suc.prems(2,3) by (simp_all add: less_mult_imp_div_less mult.commute)
  ultimately show ?case
    using Suc.IH [of "m div 16" "n div 16"] by (metis div_mult_mod_eq)
qed simp

lemma unat_char: "unat (of_char c :: u64) = of_char c"
proof -
  have "unat (of_nat (of_char c) :: u64) = of_char c mod 2 ^ 64"
    by (simp only: unsigned_of_nat take_bit_eq_mod) simp
  also have "\<dots> = of_char c"
    by (cases c) (intro mod_less, simp add: horner_sum_foldr of_bool_def)
  finally show ?thesis
    by (simp only: of_nat_of_char)
qed

lemma unat_fnv: "unat (foldl fnv_step h bytes) = foldl (\<lambda>h c. (h XOR of_char c) * 1099511628211 mod 2 ^ 64) (unat h) bytes"
proof (induction bytes arbitrary: h)
  case (Cons c bytes)
  have "unat (fnv_step h c) = (unat h XOR of_char c) * 1099511628211 mod 2 ^ 64"
    by (simp add: fnv_step_def unat_word_ariths unsigned_xor_eq unat_char)
  then show ?case
    by (simp add: Cons.IH)
qed simp

lemma fnv1a_fold: "fnv1a bytes = unat (foldl fnv_step 0xcbf29ce484222325 bytes)"
  by (simp add: fnv1a_def unat_fnv)

lemma etag_of_iff: "etag_of a = etag_of b \<longleftrightarrow> fnv1a a = fnv1a b"
proof -
  have e: "etag_of x = hex_digits 16 (fnv1a x)" for x
    by (simp add: etag_of_def fnv1a_fold)
  have "fnv1a x < 16 ^ 16" for x
    unfolding fnv1a_fold using unsigned_less [of "foldl fnv_step 0xcbf29ce484222325 x", where 'a = nat] by simp
  then show ?thesis
    using hex_digits_inj [of 16] by (auto simp: e)
qed

lemma fnv_unmultiply: "(x :: u64) * 0x100000001b3 = y * 0x100000001b3 \<Longrightarrow> x = y"
proof -
  have one: "(0x100000001b3 :: u64) * 0xce965057aff6957b = 1"
    by simp
  assume "x * 0x100000001b3 = y * 0x100000001b3"
  then have "x * 0x100000001b3 * 0xce965057aff6957b = y * 0x100000001b3 * 0xce965057aff6957b"
    by (rule arg_cong)
  then show "x = y"
    unfolding mult.assoc one mult_1_right .
qed

lemma fnv_step_inj: "fnv_step g c = fnv_step h c \<longleftrightarrow> g = h"
proof
  assume "fnv_step g c = fnv_step h c"
  then have "g XOR of_char c = h XOR of_char c"
    unfolding fnv_step_def by (rule fnv_unmultiply)
  then have "(g XOR of_char c) XOR of_char c = (h XOR of_char c) XOR of_char c"
    by (rule arg_cong)
  then show "g = h"
    by (simp add: xor.assoc)
qed simp

lemma fnv_step_byte: "fnv_step h c = fnv_step h d \<longleftrightarrow> c = d"
proof
  assume "fnv_step h c = fnv_step h d"
  then have "h XOR of_char c = h XOR of_char d"
    unfolding fnv_step_def by (rule fnv_unmultiply)
  then have "h XOR (h XOR of_char c) = h XOR (h XOR of_char d)"
    by (rule arg_cong)
  then have "(of_char c :: u64) = of_char d"
    by (simp add: xor.assoc [symmetric])
  then have "(of_char c :: nat) = of_char d"
    by (metis unat_char)
  then show "c = d"
    by simp
qed simp

lemma fnv_steps_inj: "foldl fnv_step g bytes = foldl fnv_step h bytes \<longleftrightarrow> g = h"
  by (induction bytes arbitrary: g h) (simp_all add: fnv_step_inj)

lemma one_byte_change_seen:
  assumes "one_byte_change a b"
  shows "etag_of a \<noteq> etag_of b"
proof
  obtain p c d q where *: "a = p @ c # q" "b = p @ d # q" "c \<noteq> d"
    using assms unfolding one_byte_change_def by blast
  assume "etag_of a = etag_of b"
  then have "foldl fnv_step 0xcbf29ce484222325 a = foldl fnv_step 0xcbf29ce484222325 b"
    by (simp add: etag_of_iff fnv1a_fold word_unat_eq_iff)
  then show False
    using * by (simp add: fnv_steps_inj fnv_step_byte)
qed


section \<open>The local store: pointers in the database, artifacts in files\<close>

record 'f local_store =
  ls_db :: db
  ls_fs :: 'f

datatype head_table = ActiveHeadTable | StaticHeadTable

definition head_table :: "string \<Rightarrow> head_table option" where
  "head_table key =
     (if key = INDEX_HEAD_KEY then Some ActiveHeadTable
      else if key = STATIC_HEAD_KEY then Some StaticHeadTable
      else None)"

fun get_head_row :: "head_table \<Rightarrow> db \<Rightarrow> string option" where
  "get_head_row ActiveHeadTable s = active_head s"
| "get_head_row StaticHeadTable s = static_release_head s"

fun set_head_row :: "head_table \<Rightarrow> string \<Rightarrow> db \<Rightarrow> db" where
  "set_head_row ActiveHeadTable v s = s\<lparr>active_head := Some v\<rparr>"
| "set_head_row StaticHeadTable v s = s\<lparr>static_release_head := Some v\<rparr>"

definition cas_err :: "string \<Rightarrow> string \<Rightarrow> publish_error" where
  "cas_err context e = PublishOperation (msg [context, '': '', e])"

definition head_row_read :: "sql_faults \<Rightarrow> nat \<Rightarrow> head_table \<Rightarrow> db \<Rightarrow> publish_error + string option" where
  "head_row_read flt n table s = map_err (cas_err ''failed to read head'') (sql flt n (get_head_row table s))"

text \<open>Statement 0 is the read of \<^verbatim>\<open>local_read\<close>; the transaction has its own numbers.\<close>

definition head_row_cas ::
  "sql_faults \<Rightarrow> head_table \<Rightarrow> string option \<Rightarrow> string \<Rightarrow> db \<Rightarrow> (publish_error + bool) \<times> db" where
  "head_row_cas flt table expected new_value s = in_tx
     (and_then (map_err (cas_err ''failed to open head CAS tx'') (sql flt 1 ())) (\<lambda>_.
      and_then (head_row_read flt 2 table s) (\<lambda>current.
      if map_option etag_of current \<noteq> expected then Inr (False, s)
      else
        and_then (map_err (cas_err ''failed to write head CAS'') (sql flt 3 (set_head_row table new_value s))) (\<lambda>s1.
        map_err (cas_err ''failed to commit head CAS'') (sql flt 4 (True, s1)))))) s"

definition on_fs :: "('f \<Rightarrow> 'r \<times> 'f) \<Rightarrow> 'f local_store \<Rightarrow> 'r \<times> 'f local_store" where
  "on_fs f s = (case f (ls_fs s) of (r, fs) \<Rightarrow> (r, s\<lparr>ls_fs := fs\<rparr>))"

definition on_db :: "(db \<Rightarrow> 'r \<times> db) \<Rightarrow> 'f local_store \<Rightarrow> 'r \<times> 'f local_store" where
  "on_db f s = (case f (ls_db s) of (r, d) \<Rightarrow> (r, s\<lparr>ls_db := d\<rparr>))"

definition local_read ::
  "sql_faults \<Rightarrow> 'f os_ops \<Rightarrow> string \<Rightarrow> string \<Rightarrow> 'f local_store \<Rightarrow> publish_error + versioned_object option" where
  "local_read flt os base key s =
     (case head_table key of
        None \<Rightarrow> fs_read os base key (ls_fs s)
      | Some table \<Rightarrow>
          map_ok (map_option (\<lambda>bytes. \<lparr>vo_bytes = bytes, vo_etag = etag_of bytes\<rparr>))
            (head_row_read flt 0 table (ls_db s)))"

definition local_cas ::
  "sql_faults \<Rightarrow> 'f os_ops \<Rightarrow> string \<Rightarrow> string \<Rightarrow> string option \<Rightarrow> string \<Rightarrow> 'f local_store \<Rightarrow>
   (publish_error + bool) \<times> 'f local_store" where
  "local_cas flt os base key expected new_value s =
     (case head_table key of
        None \<Rightarrow> on_fs (fs_cas os base key expected new_value) s
      | Some table \<Rightarrow> on_db (head_row_cas flt table expected new_value) s)"

definition local_publish_ops ::
  "sql_faults \<Rightarrow> 'f os_ops \<Rightarrow> nat \<Rightarrow> string \<Rightarrow> 'f local_store publish_ops" where
  "local_publish_ops flt os depth base =
     \<lparr>op_upload_directory = (\<lambda>key source mode.
        on_fs (fs_upload os depth base ''upload_directory'' ''dir'' key source mode)),
      op_upload_file = (\<lambda>key source mode.
        on_fs (fs_upload os depth base ''upload_file'' ''file'' key source mode)),
      op_read = local_read flt os base,
      op_cas = local_cas flt os base\<rparr>"


section \<open>The contract of the pointers\<close>

text \<open>
  What a publisher relies on, for the pointer keys: a read returns the tag of what it read;
  a swap succeeds only on the expected tag and then the new value is there; a swap that is
  refused or fails changes no pointer; uploads and swaps of one pointer change no other.
  \<open>peek\<close> is what an undisturbed read finds.
\<close>

locale publish_storage =
  fixes ops :: "'s publish_ops"
    and peek :: "string \<Rightarrow> 's \<Rightarrow> string option"
    and pointer :: "string \<Rightarrow> bool"
    and tag :: "string \<Rightarrow> string"
  assumes read_peeks: "pointer k \<Longrightarrow> op_read ops k s = Inr ob \<Longrightarrow>
      ob = map_option (\<lambda>b. \<lparr>vo_bytes = b, vo_etag = tag b\<rparr>) (peek k s)"
    and cas_swaps: "pointer k \<Longrightarrow> op_cas ops k e v s = (Inr True, s') \<Longrightarrow>
      map_option tag (peek k s) = e \<and> peek k s' = Some v"
    and cas_refuses: "pointer k \<Longrightarrow> op_cas ops k e v s = (Inr False, s') \<Longrightarrow>
      map_option tag (peek k s) \<noteq> e \<and> s' = s"
    and cas_fails: "pointer k \<Longrightarrow> op_cas ops k e v s = (Inl err, s') \<Longrightarrow> s' = s"
    and cas_frame: "pointer k \<Longrightarrow> pointer j \<Longrightarrow> j \<noteq> k \<Longrightarrow> op_cas ops k e v s = (r, s') \<Longrightarrow> peek j s' = peek j s"
    and upload_frame: "pointer j \<Longrightarrow> op_upload_directory ops k src m s = (u, s') \<Longrightarrow> peek j s' = peek j s"
      "pointer j \<Longrightarrow> op_upload_file ops k src m s = (u, s') \<Longrightarrow> peek j s' = peek j s"
begin

text \<open>Two writers that read the same pointer: the second swap is refused.\<close>

lemma second_cas_refused:
  assumes "pointer k" "op_cas ops k e v s = (Inr True, s1)" "op_cas ops k e w s1 = (Inr ok, s2)"
    and "e \<noteq> Some (tag v)"
  shows "ok = False \<and> s2 = s1"
proof (cases ok)
  case True
  then have "map_option tag (peek k s1) = e"
    using cas_swaps [OF assms(1), of e w s1 s2] assms(3) by simp
  then show ?thesis
    using cas_swaps [OF assms(1,2)] assms(4) by simp
next
  case False
  then show ?thesis
    using cas_refuses [OF assms(1), of e w s1 s2] assms(3) by simp
qed

end

definition is_pointer_key :: "string \<Rightarrow> bool" where
  "is_pointer_key k = (k = INDEX_HEAD_KEY \<or> k = STATIC_HEAD_KEY)"

definition local_peek :: "string \<Rightarrow> 'f local_store \<Rightarrow> string option" where
  "local_peek k s = Option.bind (head_table k) (\<lambda>t. get_head_row t (ls_db s))"

lemma head_table_pointer: "is_pointer_key k \<longleftrightarrow> (\<exists>t. head_table k = Some t)"
  by (auto simp: is_pointer_key_def head_table_def)

lemma get_set_head_row [simp]:
  "get_head_row t (set_head_row u v s) = (if t = u then Some v else get_head_row t s)"
  by (cases t; cases u) simp_all

lemma head_table_inj: "head_table j = Some t \<Longrightarrow> head_table k = Some t \<Longrightarrow> j = k"
  by (auto simp: head_table_def split: if_splits)

lemma head_row_cas_cases:
  assumes "head_row_cas flt table expected v s = (r, s')"
  obtains (swaps) "r = Inr True" "map_option etag_of (get_head_row table s) = expected"
      "s' = set_head_row table v s"
    | (refuses) "r = Inr False" "map_option etag_of (get_head_row table s) \<noteq> expected" "s' = s"
    | (fails) e where "r = Inl e" "s' = s"
proof (cases r)
  case (Inl e)
  with assms have "s' = s"
    unfolding head_row_cas_def by (auto dest: in_tx_Inl)
  with Inl show thesis
    using fails by blast
next
  case (Inr ok)
  with assms have "head_row_cas flt table expected v s = (Inr ok, s')"
    by simp
  then show thesis
    using swaps refuses Inr unfolding head_row_cas_def in_tx_Inr_iff
    by (auto simp: result_simps head_row_read_def split: if_splits)
qed

lemma local_cas_pointer:
  "head_table k = Some t \<Longrightarrow> local_cas flt os base k e v s = on_db (head_row_cas flt t e v) s"
  by (simp add: local_cas_def)

lemma on_db_eq: "on_db f s = (r, s') \<longleftrightarrow> (\<exists>d. f (ls_db s) = (r, d) \<and> s' = s\<lparr>ls_db := d\<rparr>)"
  by (auto simp: on_db_def split: prod.splits)

lemma on_fs_db: "on_fs f s = (r, s') \<Longrightarrow> ls_db s' = ls_db s"
  by (auto simp: on_fs_def split: prod.splits)

interpretation local_pub: publish_storage
  "local_publish_ops flt os depth base" local_peek is_pointer_key etag_of for flt os depth base
proof
  fix k and s :: "'a local_store" and v
  assume "is_pointer_key k" "op_read (local_publish_ops flt os depth base) k s = Inr v"
  then show "v = map_option (\<lambda>b. \<lparr>vo_bytes = b, vo_etag = etag_of b\<rparr>) (local_peek k s)"
    by (auto simp: head_table_pointer local_publish_ops_def local_read_def head_row_read_def
        local_peek_def result_simps)
next
  fix k e v and s s' :: "'a local_store"
  assume "is_pointer_key k" "op_cas (local_publish_ops flt os depth base) k e v s = (Inr True, s')"
  then show "map_option etag_of (local_peek k s) = e \<and> local_peek k s' = Some v"
    by (auto simp: head_table_pointer local_publish_ops_def local_cas_pointer on_db_eq local_peek_def
        elim!: head_row_cas_cases)
next
  fix k e v and s s' :: "'a local_store"
  assume "is_pointer_key k" "op_cas (local_publish_ops flt os depth base) k e v s = (Inr False, s')"
  then show "map_option etag_of (local_peek k s) \<noteq> e \<and> s' = s"
    by (auto simp: head_table_pointer local_publish_ops_def local_cas_pointer on_db_eq local_peek_def
        elim!: head_row_cas_cases)
next
  fix k e v err and s s' :: "'a local_store"
  assume "is_pointer_key k" "op_cas (local_publish_ops flt os depth base) k e v s = (Inl err, s')"
  then show "s' = s"
    by (auto simp: head_table_pointer local_publish_ops_def local_cas_pointer on_db_eq
        elim!: head_row_cas_cases)
next
  fix k j e v r and s s' :: "'a local_store"
  assume *: "is_pointer_key k" "is_pointer_key j" "j \<noteq> k"
    "op_cas (local_publish_ops flt os depth base) k e v s = (r, s')"
  have "head_table k \<noteq> head_table j"
    using *(1-3) head_table_inj by (fastforce simp: head_table_pointer)
  with * show "local_peek j s' = local_peek j s"
    by (auto simp: head_table_pointer local_publish_ops_def local_cas_pointer on_db_eq local_peek_def
        elim!: head_row_cas_cases)
next
  fix j k src m r and s s' :: "'a local_store"
  assume "is_pointer_key j" "op_upload_directory (local_publish_ops flt os depth base) k src m s = (r, s')"
  then show "local_peek j s' = local_peek j s"
    by (auto simp: local_publish_ops_def local_peek_def dest!: on_fs_db)
next
  fix j k src m r and s s' :: "'a local_store"
  assume "is_pointer_key j" "op_upload_file (local_publish_ops flt os depth base) k src m s = (r, s')"
  then show "local_peek j s' = local_peek j s"
    by (auto simp: local_publish_ops_def local_peek_def dest!: on_fs_db)
qed

end
