(* ===== verification/Publisher.thy ===== *)
theory Publisher
  imports Publish_Storage
begin

text \<open>
  Publishing and rolling back a version (\<^verbatim>\<open>src/indexing/publisher.rs\<close>). Other processes
  may act between the storage calls of one publication: \<open>env n\<close> is what they do before its
  \<open>n\<close>-th phase. The artifact directory is read through \<open>src_ops\<close>, the operating system's
  answers at the time.
\<close>


section \<open>Requests and checks\<close>

record publish_request =
  pr_manifest :: index_manifest
  pr_expected_current_version :: "u64 option"
  pr_updated_at :: int

record rollback_request =
  rr_target_version_id :: u64
  rr_expected_current_version :: "u64 option"
  rr_updated_at :: int

record publish_result =
  activated_version_id :: u64
  previous_version_id :: "u64 option"

record src_ops =
  so_canonicalize :: "string \<Rightarrow> string + string"
  so_metadata_is_dir :: "string \<Rightarrow> string + bool"
  so_is_symlink :: "string \<Rightarrow> string + bool"
  so_is_dir :: "string \<Rightarrow> bool"
  so_read_dir :: "string \<Rightarrow> string + (string + string) list"
  so_read :: "string \<Rightarrow> string + string"

text \<open>\<^verbatim>\<open>{:?}\<close> of an \<^verbatim>\<open>Option<u64>\<close>.\<close>

definition debug_version :: "u64 option \<Rightarrow> string" where
  "debug_version v = (case v of None \<Rightarrow> ''None'' | Some n \<Rightarrow> msg [''Some('', show_u64 n, '')''])"

definition parse_head :: "(string \<Rightarrow> string + manifest_head) \<Rightarrow> string \<Rightarrow> publish_error + manifest_head" where
  "parse_head de bytes =
     map_err (\<lambda>e. case e of
         HeadParse m \<Rightarrow> PublishOperation (msg [''failed to parse current manifest head: '', m])
       | VersionMustBePositive \<Rightarrow> PublishValidation (InvalidValue ''version_id'')
       | ImplausibleUpdatedAt \<Rightarrow> PublishValidation (InvalidValue ''updated_at'')
       | ManifestPathMismatch _ \<Rightarrow>
           PublishValidation (Mismatch ''manifest_path'' ''version_manifest_key(version_id)''))
       (manifest_head_from_json de bytes)"

definition path_is_absolute :: "string \<Rightarrow> bool" where
  "path_is_absolute p = (p \<noteq> [] \<and> hd p = CHR ''/'')"

definition is_normal :: "path_component \<Rightarrow> bool" where
  "is_normal c = (case c of Normal _ \<Rightarrow> True | _ \<Rightarrow> False)"

definition validate_relative_storage_key :: "string \<Rightarrow> publish_error + unit" where
  "validate_relative_storage_key key =
     (if key = [] \<or> path_is_absolute key \<or> (\<exists>c \<in> set (path_components key). \<not> is_normal c)
      then Inl (PublishValidation (InvalidValue ''artifact_key'')) else Inr ())"

definition s3_key :: "string \<Rightarrow> publish_error + string" where
  "s3_key v =
     (case strip_prefix ''s3://'' v of
        None \<Rightarrow> Inl (PublishValidation (InvalidValue ''s3_path''))
      | Some tail \<Rightarrow>
          (case split_once CHR ''/'' tail of
             None \<Rightarrow> Inl (PublishValidation (InvalidValue ''s3_path''))
           | Some (bucket, key) \<Rightarrow>
               if bucket = [] \<or> key = [] then Inl (PublishValidation (InvalidValue ''s3_path''))
               else and_then (validate_relative_storage_key key) (\<lambda>_. Inr key)))"

definition path_starts_with :: "string \<Rightarrow> string \<Rightarrow> bool" where
  "path_starts_with p base = prefix (path_components base) (path_components p)"

definition artifact_source_path :: "src_ops \<Rightarrow> string \<Rightarrow> string \<Rightarrow> publish_error + string" where
  "artifact_source_path src artifact_root key =
     and_then (validate_relative_storage_key key) (\<lambda>_.
     and_then (map_err (\<lambda>e. PublishOperation (msg [''failed to canonicalize artifact root '', artifact_root, '': '', e]))
       (so_canonicalize src artifact_root)) (\<lambda>base.
     let joined = path_join artifact_root key
     in and_then (map_err (\<lambda>e. PublishOperation (msg [''failed to canonicalize artifact source '', joined, '': '', e]))
          (so_canonicalize src joined)) (\<lambda>canonical.
        if \<not> path_starts_with canonical base
        then Inl (PublishOperation (msg [''artifact source escapes artifact root: '', joined, '' -> '', canonical]))
        else Inr canonical)))"

definition validate_publish_version :: "u64 \<Rightarrow> publish_error + unit" where
  "validate_publish_version v =
     (if v = 0 then Inl (PublishValidation (MustBePositive ''version_id'')) else Inr ())"

definition validate_updated_at :: "int \<Rightarrow> publish_error + unit" where
  "validate_updated_at t =
     (if t < MIN_PLAUSIBLE_EPOCH_MILLIS then Inl (PublishValidation (InvalidValue ''updated_at'')) else Inr ())"

definition validate_manifest_file_matches_request ::
  "src_ops \<Rightarrow> (string \<Rightarrow> string + index_manifest) \<Rightarrow> string \<Rightarrow> index_manifest \<Rightarrow> publish_error + unit" where
  "validate_manifest_file_matches_request src de path expected =
     and_then (map_err (\<lambda>e. PublishOperation (msg [''failed to read manifest source '', path, '': '', e]))
       (so_read src path)) (\<lambda>bytes.
     and_then (map_err (\<lambda>e. PublishOperation (msg [''failed to parse manifest source '', path, '': '', e]))
       (de bytes)) (\<lambda>manifest.
     if manifest \<noteq> expected
     then Inl (PublishOperation (msg [''manifest source '', path, '' does not match publish request manifest'']))
     else Inr ()))"

definition validate_stored_manifest ::
  "(string \<Rightarrow> string + index_manifest) \<Rightarrow> string \<Rightarrow> string \<Rightarrow> u64 \<Rightarrow> publish_error + unit" where
  "validate_stored_manifest de key bytes expected_version =
     and_then (map_err (\<lambda>e. PublishOperation (msg [''failed to parse stored manifest '', key, '': '', e])) (de bytes)) (\<lambda>m.
     and_then (map_err PublishValidation (index_manifest_validate m)) (\<lambda>_.
     if version_id m \<noteq> expected_version
     then Inl (PublishOperation (msg [''stored manifest '', key,
       '' does not match rollback target version '', show_u64 expected_version]))
     else Inr ()))"

text \<open>
  The walk over a directory tree with an explicit stack; \<open>fuel\<close> bounds the entries
  visited, and a larger tree gives \<^term>\<open>None\<close>.
\<close>

fun walk_tree :: "src_ops \<Rightarrow> string \<Rightarrow> nat \<Rightarrow> string list \<Rightarrow> (publish_error + unit) option" where
  "walk_tree src base fuel [] = Some (Inr ())"
| "walk_tree src base 0 (p # stack) = None"
| "walk_tree src base (Suc fuel) (p # stack) =
     (case so_is_symlink src p of
        Inl e \<Rightarrow> Some (Inl (PublishOperation (msg [''failed to inspect artifact source '', p, '': '', e])))
      | Inr True \<Rightarrow>
          (case so_canonicalize src p of
             Inl e \<Rightarrow> Some (Inl (PublishOperation (msg [''failed to canonicalize artifact source '', p, '': '', e])))
           | Inr canonical \<Rightarrow>
               if \<not> path_starts_with canonical base
               then Some (Inl (PublishOperation (msg [''artifact source escapes artifact root: '', p, '' -> '', canonical])))
               else walk_tree src base fuel stack)
      | Inr False \<Rightarrow>
          (if so_is_dir src p then
             (case and_then (map_err (\<lambda>e. PublishOperation (msg [''failed to read artifact directory '', p, '': '', e]))
                     (so_read_dir src p))
                   (\<lambda>entries. try_map (map_err (\<lambda>e. PublishOperation
                     (msg [''failed to read artifact directory '', p, '': '', e]))) entries) of
                Inl e \<Rightarrow> Some (Inl e)
              | Inr paths \<Rightarrow> walk_tree src base fuel (rev paths @ stack))
           else walk_tree src base fuel stack))"

definition validate_directory_tree_within_root ::
  "src_ops \<Rightarrow> nat \<Rightarrow> string \<Rightarrow> string \<Rightarrow> (publish_error + unit) option" where
  "validate_directory_tree_within_root src fuel artifact_root directory =
     (case so_metadata_is_dir src directory of
        Inl e \<Rightarrow> Some (Inl (PublishOperation (msg [''failed to inspect artifact source '', directory, '': '', e])))
      | Inr False \<Rightarrow> Some (Inl (PublishOperation (msg [''publish source is not a directory: '', directory])))
      | Inr True \<Rightarrow>
          (case so_canonicalize src artifact_root of
             Inl e \<Rightarrow> Some (Inl (PublishOperation (msg [''failed to canonicalize artifact root '', artifact_root, '': '', e])))
           | Inr base \<Rightarrow> walk_tree src base fuel [directory]))"

text \<open>A walk that does not end within the fuel is an error of the model.\<close>

definition tree_ok :: "src_ops \<Rightarrow> nat \<Rightarrow> string \<Rightarrow> string \<Rightarrow> publish_error + unit" where
  "tree_ok src fuel artifact_root directory =
     (case validate_directory_tree_within_root src fuel artifact_root directory of
        Some r \<Rightarrow> r
      | None \<Rightarrow> Inl (PublishOperation ''artifact tree too large''))"

record prepared_upload =
  pu_key :: string
  pu_source :: string

definition prepare_shard ::
  "src_ops \<Rightarrow> nat \<Rightarrow> string \<Rightarrow> shard_manifest \<Rightarrow> publish_error + prepared_upload list" where
  "prepare_shard src fuel artifact_root shard =
     and_then (s3_key (lance_path shard)) (\<lambda>lance_key.
     and_then (s3_key (tantivy_path shard)) (\<lambda>tantivy_key.
     and_then (artifact_source_path src artifact_root lance_key) (\<lambda>lance_source.
     and_then (artifact_source_path src artifact_root tantivy_key) (\<lambda>tantivy_source.
     and_then (tree_ok src fuel artifact_root lance_source) (\<lambda>_.
     and_then (tree_ok src fuel artifact_root tantivy_source) (\<lambda>_.
     Inr [\<lparr>pu_key = lance_key, pu_source = lance_source\<rparr>,
          \<lparr>pu_key = tantivy_key, pu_source = tantivy_source\<rparr>]))))))"


section \<open>Publish and rollback\<close>

fun upload_all :: "'s publish_ops \<Rightarrow> prepared_upload list \<Rightarrow> 's \<Rightarrow> (publish_error + unit) \<times> 's" where
  "upload_all ops [] s = (Inr (), s)"
| "upload_all ops (u # us) s =
     (case op_upload_directory ops (pu_key u) (pu_source u) CreateOnly s of
        (Inl e, s1) \<Rightarrow> (Inl e, s1)
      | (Inr _, s1) \<Rightarrow> upload_all ops us s1)"

definition read_current_head ::
  "'s publish_ops \<Rightarrow> (string \<Rightarrow> string + manifest_head) \<Rightarrow> 's \<Rightarrow>
   publish_error + (versioned_object \<times> manifest_head) option" where
  "read_current_head ops de s =
     and_then (op_read ops INDEX_HEAD_KEY s) (\<lambda>obj.
       case obj of
         None \<Rightarrow> Inr None
       | Some ob \<Rightarrow> map_ok (\<lambda>h. Some (ob, h)) (parse_head de (vo_bytes ob)))"

definition observed_head_version ::
  "'s publish_ops \<Rightarrow> (string \<Rightarrow> string + manifest_head) \<Rightarrow> 's \<Rightarrow> publish_error + u64 option" where
  "observed_head_version ops de s = map_ok (map_option (mh_version_id \<circ> snd)) (read_current_head ops de s)"

text \<open>The swap of the pointer, common to both; \<open>what\<close> is the word its conflict message uses.\<close>

definition swap_head ::
  "(nat \<Rightarrow> 's \<Rightarrow> 's) \<Rightarrow> 's publish_ops \<Rightarrow> (string \<Rightarrow> string + manifest_head) \<Rightarrow> (manifest_head \<Rightarrow> string) \<Rightarrow>
   string \<Rightarrow> u64 \<Rightarrow> int \<Rightarrow> u64 option \<Rightarrow> (versioned_object \<times> manifest_head) option \<Rightarrow> 's \<Rightarrow>
   (publish_error + publish_result) \<times> 's" where
  "swap_head env ops de ser what version updated_at expected current s =
     (case op_cas ops INDEX_HEAD_KEY (map_option (vo_etag \<circ> fst) current)
             (ser (manifest_head_new version updated_at)) s of
        (Inl e, s1) \<Rightarrow> (Inl e, s1)
      | (Inr True, s1) \<Rightarrow>
          (Inr \<lparr>activated_version_id = version,
                previous_version_id = map_option (mh_version_id \<circ> snd) current\<rparr>, s1)
      | (Inr False, s1) \<Rightarrow>
          (let s2 = env 3 s1
           in case observed_head_version ops de s2 of
                Inl e \<Rightarrow> (Inl e, s2)
              | Inr observed \<Rightarrow>
                  (Inl (PublishOperation (msg [what,
                     '' conflict: active version changed during _head update (expected '',
                     debug_version expected, '', observed '', debug_version observed, '')''])), s2)))"

definition publish_checks :: "publish_request \<Rightarrow> manifest_head option \<Rightarrow> publish_error + unit" where
  "publish_checks request head =
     and_then (validate_publish_version (version_id (pr_manifest request))) (\<lambda>_.
     and_then
       (case pr_expected_current_version request of
          None \<Rightarrow> Inr ()
        | Some expected \<Rightarrow>
            if map_option mh_version_id head \<noteq> Some expected
            then Inl (PublishOperation (msg [''publish conflict: expected current version '',
              debug_version (Some expected), '', found '', debug_version (map_option mh_version_id head)]))
            else Inr ())
       (\<lambda>_. case head of
          None \<Rightarrow> Inr ()
        | Some h \<Rightarrow>
            if version_id (pr_manifest request) \<le> mh_version_id h
            then Inl (PublishOperation (msg [''publish conflict: version_id '', show_u64 (version_id (pr_manifest request)),
              '' must be greater than active version '', show_u64 (mh_version_id h)]))
            else Inr ()))"

definition prepare_publish ::
  "src_ops \<Rightarrow> nat \<Rightarrow> (string \<Rightarrow> string + index_manifest) \<Rightarrow> string \<Rightarrow> index_manifest \<Rightarrow>
   publish_error + string \<times> prepared_upload list" where
  "prepare_publish src fuel de artifact_root manifest =
     and_then (artifact_source_path src artifact_root (version_manifest_key (version_id manifest))) (\<lambda>manifest_source.
     and_then (validate_manifest_file_matches_request src de manifest_source manifest) (\<lambda>_.
     map_ok (\<lambda>uploads. (manifest_source, concat uploads))
       (try_map (prepare_shard src fuel artifact_root) (shards manifest))))"

definition publish ::
  "(nat \<Rightarrow> 's \<Rightarrow> 's) \<Rightarrow> 's publish_ops \<Rightarrow> src_ops \<Rightarrow> nat \<Rightarrow> (string \<Rightarrow> string + manifest_head) \<Rightarrow>
   (manifest_head \<Rightarrow> string) \<Rightarrow> (string \<Rightarrow> string + index_manifest) \<Rightarrow> string \<Rightarrow> publish_request \<Rightarrow> 's \<Rightarrow>
   (publish_error + publish_result) \<times> 's" where
  "publish env ops src fuel de ser de_manifest artifact_root request s =
     (case and_then (map_err PublishValidation (index_manifest_validate (pr_manifest request)))
             (\<lambda>_. validate_updated_at (pr_updated_at request)) of
        Inl e \<Rightarrow> (Inl e, s)
      | Inr _ \<Rightarrow>
          (let s0 = env 0 s
           in case and_then (read_current_head ops de s0) (\<lambda>current.
                  and_then (publish_checks request (map_option snd current)) (\<lambda>_.
                  map_ok (\<lambda>prep. (current, prep))
                    (prepare_publish src fuel de_manifest artifact_root (pr_manifest request)))) of
                Inl e \<Rightarrow> (Inl e, s0)
              | Inr (current, manifest_source, uploads) \<Rightarrow>
                  (case upload_all ops uploads (env 1 s0) of
                     (Inl e, s1) \<Rightarrow> (Inl e, s1)
                   | (Inr _, s1) \<Rightarrow>
                       (case op_upload_file ops (version_manifest_key (version_id (pr_manifest request)))
                               manifest_source CreateOnly s1 of
                          (Inl e, s2) \<Rightarrow> (Inl e, s2)
                        | (Inr _, s2) \<Rightarrow>
                            swap_head env ops de ser ''publish'' (version_id (pr_manifest request))
                              (pr_updated_at request) (pr_expected_current_version request) current
                              (env 2 s2)))))"

text \<open>The head is read in one instant, the target manifest in the next.\<close>

definition rollback_checks ::
  "(nat \<Rightarrow> 's \<Rightarrow> 's) \<Rightarrow> 's publish_ops \<Rightarrow> (string \<Rightarrow> string + manifest_head) \<Rightarrow> (string \<Rightarrow> string + index_manifest) \<Rightarrow>
   rollback_request \<Rightarrow> 's \<Rightarrow> publish_error + (versioned_object \<times> manifest_head) option" where
  "rollback_checks env ops de de_manifest request s =
     and_then (read_current_head ops de s) (\<lambda>current.
     let active = map_option (mh_version_id \<circ> snd) current;
         key = version_manifest_key (rr_target_version_id request)
     in if active \<noteq> rr_expected_current_version request
        then Inl (PublishOperation (msg [''rollback conflict: expected current version '',
          debug_version (rr_expected_current_version request), '', found '', debug_version active]))
        else
          and_then (op_read ops key (env 1 s)) (\<lambda>obj.
          and_then (ok_or (PublishOperation (msg [''rollback target manifest missing: '', key])) obj) (\<lambda>ob.
          and_then (validate_stored_manifest de_manifest key (vo_bytes ob) (rr_target_version_id request)) (\<lambda>_.
          Inr current))))"

definition rollback ::
  "(nat \<Rightarrow> 's \<Rightarrow> 's) \<Rightarrow> 's publish_ops \<Rightarrow> (string \<Rightarrow> string + manifest_head) \<Rightarrow> (manifest_head \<Rightarrow> string) \<Rightarrow>
   (string \<Rightarrow> string + index_manifest) \<Rightarrow> rollback_request \<Rightarrow> 's \<Rightarrow> (publish_error + publish_result) \<times> 's" where
  "rollback env ops de ser de_manifest request s =
     (case and_then (validate_publish_version (rr_target_version_id request))
             (\<lambda>_. validate_updated_at (rr_updated_at request)) of
        Inl e \<Rightarrow> (Inl e, s)
      | Inr _ \<Rightarrow>
          (let s0 = env 0 s
           in case rollback_checks env ops de de_manifest request s0 of
                Inl e \<Rightarrow> (Inl e, env 1 s0)
              | Inr current \<Rightarrow>
                  swap_head env ops de ser ''rollback'' (rr_target_version_id request) (rr_updated_at request)
                    (rr_expected_current_version request) current (env 2 (env 1 s0))))"


section \<open>What a publication does to the pointers\<close>

context publish_storage
begin

lemma upload_all_frame: "pointer j \<Longrightarrow> upload_all ops us s = (r, s') \<Longrightarrow> peek j s' = peek j s"
  by (induction us arbitrary: s) (auto dest: upload_frame(1) split: prod.splits sum.splits)

lemma read_current_head_peek:
  assumes "pointer INDEX_HEAD_KEY" "read_current_head ops de s = Inr current"
  shows "map_option (vo_bytes \<circ> fst) current = peek INDEX_HEAD_KEY s"
    and "map_option (vo_etag \<circ> fst) current = map_option tag (peek INDEX_HEAD_KEY s)"
    and "current = Some (ob, h) \<Longrightarrow> manifest_head_from_json de (vo_bytes ob) = Inr h"
proof -
  obtain obj where obj: "op_read ops INDEX_HEAD_KEY s = Inr obj"
    "(case obj of None \<Rightarrow> Inr None | Some ob \<Rightarrow> map_ok (\<lambda>h. Some (ob, h)) (parse_head de (vo_bytes ob))) = Inr current"
    using assms(2) by (auto simp: read_current_head_def and_then_Inr_iff)
  note peek = read_peeks [OF assms(1) obj(1)]
  show "map_option (vo_bytes \<circ> fst) current = peek INDEX_HEAD_KEY s"
    "map_option (vo_etag \<circ> fst) current = map_option tag (peek INDEX_HEAD_KEY s)"
    "current = Some (ob, h) \<Longrightarrow> manifest_head_from_json de (vo_bytes ob) = Inr h"
    using obj(2) peek by (cases "peek INDEX_HEAD_KEY s"; auto simp: result_simps parse_head_def)+
qed

lemma swap_head_cases:
  assumes "pointer INDEX_HEAD_KEY"
    and "swap_head env ops de ser what v t expected current s = (r, s')"
  obtains (swapped) "r = Inr \<lparr>activated_version_id = v, previous_version_id = map_option (mh_version_id \<circ> snd) current\<rparr>"
      "op_cas ops INDEX_HEAD_KEY (map_option (vo_etag \<circ> fst) current) (ser (manifest_head_new v t)) s = (Inr True, s')"
    | (failed) e where "r = Inl e" "s' = s"
    | (refused) e where "r = Inl e" "s' = env 3 s"
        "map_option tag (peek INDEX_HEAD_KEY s) \<noteq> map_option (vo_etag \<circ> fst) current"
proof (cases "op_cas ops INDEX_HEAD_KEY (map_option (vo_etag \<circ> fst) current) (ser (manifest_head_new v t)) s")
  case (Pair c s1)
  consider e where "c = Inl e" | "c = Inr True" | "c = Inr False"
    by (cases c) auto
  then show ?thesis
  proof cases
    case 1
    with Pair have "s1 = s"
      using cas_fails [OF assms(1)] by simp
    with 1 Pair assms(2) show ?thesis
      by (intro failed [of e]) (simp_all add: swap_head_def)
  next
    case 2
    with Pair assms(2) show ?thesis
      by (intro swapped) (simp_all add: swap_head_def)
  next
    case 3
    with Pair have s1: "map_option tag (peek INDEX_HEAD_KEY s) \<noteq> map_option (vo_etag \<circ> fst) current" "s1 = s"
      using cas_refuses [OF assms(1), of "map_option (vo_etag \<circ> fst) current" "ser (manifest_head_new v t)" s s1]
      by simp_all
    with 3 Pair assms(2) obtain e where "r = Inl e" "s' = env 3 s"
      by (auto simp: swap_head_def Let_def split: sum.splits)
    then show ?thesis
      using s1(1) by (rule refused)
  qed
qed

lemma swap_head_frame:
  assumes p: "pointer INDEX_HEAD_KEY"
    and "swap_head env ops de ser what v t expected current s = (Inl e, s')"
  shows "s' = s \<or> s' = env 3 s"
  using swap_head_cases [OF assms] by blast

lemma publish_ok:
  assumes p: "pointer INDEX_HEAD_KEY"
    and ok: "publish env ops src fuel de ser de_manifest artifact_root request s = (Inr res, s')"
  defines "v \<equiv> version_id (pr_manifest request)"
  obtains current s1 where
    "read_current_head ops de (env 0 s) = Inr current"
    "publish_checks request (map_option snd current) = Inr ()"
    "op_cas ops INDEX_HEAD_KEY (map_option (vo_etag \<circ> fst) current)
       (ser (manifest_head_new v (pr_updated_at request))) s1 = (Inr True, s')"
    "res = \<lparr>activated_version_id = v, previous_version_id = map_option (mh_version_id \<circ> snd) current\<rparr>"
    "index_manifest_validate (pr_manifest request) = Inr ()" "\<not> pr_updated_at request < MIN_PLAUSIBLE_EPOCH_MILLIS"
proof -
  obtain current s2 where *: "read_current_head ops de (env 0 s) = Inr current"
    "publish_checks request (map_option snd current) = Inr ()"
    "index_manifest_validate (pr_manifest request) = Inr ()" "validate_updated_at (pr_updated_at request) = Inr ()"
    "swap_head env ops de ser ''publish'' v (pr_updated_at request) (pr_expected_current_version request)
       current s2 = (Inr res, s')"
    using ok unfolding publish_def Let_def v_def
    by (auto simp: result_simps split: sum.splits prod.splits)
  then show thesis
    using that [OF *(1,2)] swap_head_cases [OF p *(5)]
    by (fastforce simp: validate_updated_at_def split: if_splits)
qed

lemma publish_fails:
  assumes p: "pointer INDEX_HEAD_KEY" "pointer j"
    and R: "reflp R" "transp R" and env: "\<And>n s. R (peek j s) (peek j (env n s))"
    and err: "publish env ops src fuel de ser de_manifest artifact_root request s = (Inl e, s')"
  shows "R (peek j s) (peek j s')"
proof -
  have via: "R (peek j x) (peek j (env n y))" if "R (peek j x) (peek j y)" for n x y
    using that env R(2) by (meson transpE)
  have swap: "R (peek j x) (peek j y')"
    if "R (peek j x) (peek j y)" "swap_head env ops de ser what v t expected current y = (Inl e', y')"
    for x y y' what v t expected current e'
    using swap_head_frame [OF p(1) that(2)] via that(1) by blast
  show ?thesis
    using err reflpD [OF R(1), of "peek j s"] unfolding publish_def Let_def
    by (auto dest!: upload_all_frame [OF p(2)] upload_frame(2) [OF p(2)] intro!: via intro: swap [rotated]
        split: sum.splits prod.splits)
qed

lemma rollback_ok:
  assumes p: "pointer INDEX_HEAD_KEY"
    and ok: "rollback env ops de ser de_manifest request s = (Inr res, s')"
  obtains current s1 where
    "rollback_checks env ops de de_manifest request (env 0 s) = Inr current"
    "op_cas ops INDEX_HEAD_KEY (map_option (vo_etag \<circ> fst) current)
       (ser (manifest_head_new (rr_target_version_id request) (rr_updated_at request))) s1 = (Inr True, s')"
    "res = \<lparr>activated_version_id = rr_target_version_id request,
      previous_version_id = map_option (mh_version_id \<circ> snd) current\<rparr>"
    "rr_target_version_id request \<noteq> 0" "\<not> rr_updated_at request < MIN_PLAUSIBLE_EPOCH_MILLIS"
proof -
  obtain current where *: "rollback_checks env ops de de_manifest request (env 0 s) = Inr current"
    "validate_publish_version (rr_target_version_id request) = Inr ()"
    "validate_updated_at (rr_updated_at request) = Inr ()"
    "swap_head env ops de ser ''rollback'' (rr_target_version_id request) (rr_updated_at request)
       (rr_expected_current_version request) current (env 2 (env 1 (env 0 s))) = (Inr res, s')"
    using ok unfolding rollback_def Let_def by (auto simp: result_simps split: sum.splits)
  then show thesis
    using that [OF *(1)] swap_head_cases [OF p *(4)]
    by (fastforce simp: validate_updated_at_def validate_publish_version_def split: if_splits)
qed

lemma rollback_fails:
  assumes p: "pointer INDEX_HEAD_KEY"
    and R: "reflp R" "transp R" and env: "\<And>n s. R (peek j s) (peek j (env n s))"
    and err: "rollback env ops de ser de_manifest request s = (Inl e, s')"
  shows "R (peek j s) (peek j s')"
proof -
  have via: "R (peek j x) (peek j (env n y))" if "R (peek j x) (peek j y)" for n x y
    using that env R(2) by (meson transpE)
  show ?thesis
    using err reflpD [OF R(1), of "peek j s"] unfolding rollback_def Let_def
    by (auto dest!: swap_head_frame [OF p] intro!: via split: sum.splits if_splits)
qed

end


section \<open>The local store\<close>

text \<open>
  What other processes do to a pointer is a relation \<open>R\<close>: every step of theirs is in it, and it is
  closed under doing nothing and under sequences of steps. A failing publication then moves a
  pointer only within \<open>R\<close>: it adds no step of its own.
\<close>

definition others_move :: "(nat \<Rightarrow> 'f local_store \<Rightarrow> 'f local_store) \<Rightarrow> string \<Rightarrow> (string option \<Rightarrow> string option \<Rightarrow> bool) \<Rightarrow> bool" where
  "others_move env k R \<longleftrightarrow> reflp R \<and> transp R \<and> (\<forall>n s. R (local_peek k s) (local_peek k (env n s)))"

text \<open>The version of the pointer bytes, as a publisher parses them.\<close>

definition pointer_version :: "(string \<Rightarrow> string + manifest_head) \<Rightarrow> string option \<Rightarrow> u64 option" where
  "pointer_version de bytes =
     Option.bind bytes (\<lambda>b. case manifest_head_from_json de b of Inl _ \<Rightarrow> None | Inr h \<Rightarrow> Some (mh_version_id h))"

lemma current_pointer_version:
  assumes "read_current_head (local_publish_ops flt os depth base) de s = Inr current"
  shows "map_option (mh_version_id \<circ> snd) current = pointer_version de (local_peek INDEX_HEAD_KEY s)"
    and "map_option (vo_etag \<circ> fst) current = map_option etag_of (local_peek INDEX_HEAD_KEY s)"
proof -
  have p: "is_pointer_key INDEX_HEAD_KEY"
    by (simp add: is_pointer_key_def)
  note r = local_pub.read_current_head_peek [OF p assms]
  show "map_option (vo_etag \<circ> fst) current = map_option etag_of (local_peek INDEX_HEAD_KEY s)"
    by (rule r(2))
  show "map_option (mh_version_id \<circ> snd) current = pointer_version de (local_peek INDEX_HEAD_KEY s)"
    using r(3) by (cases current) (auto simp: pointer_version_def r(1) [symmetric])
qed

text \<open>
  C4. A publication that succeeds, whatever other processes do meanwhile, activates
  exactly the version it was asked to, with a path derived from it; the version is greater
  than the one it read as active, which is the expected one if the request names one; and
  the pointer it replaced in that instant still had the content tag of the one it read.
\<close>

theorem publish_advances:
  assumes "publish env (local_publish_ops flt os depth base) src fuel de ser de_manifest artifact_root request s
    = (Inr res, s')"
  shows "activated_version_id res = version_id (pr_manifest request) \<and>
    previous_version_id res = pointer_version de (local_peek INDEX_HEAD_KEY (env 0 s)) \<and>
    (\<forall>p \<in> set_option (previous_version_id res). p < activated_version_id res) \<and>
    (\<forall>e \<in> set_option (pr_expected_current_version request). previous_version_id res = Some e) \<and>
    local_peek INDEX_HEAD_KEY s' =
      Some (ser (manifest_head_new (activated_version_id res) (pr_updated_at request))) \<and>
    (\<exists>s1. local_cas flt os base INDEX_HEAD_KEY (map_option etag_of (local_peek INDEX_HEAD_KEY (env 0 s)))
        (ser (manifest_head_new (activated_version_id res) (pr_updated_at request))) s1 = (Inr True, s') \<and>
      map_option etag_of (local_peek INDEX_HEAD_KEY s1) =
        map_option etag_of (local_peek INDEX_HEAD_KEY (env 0 s)))"
proof -
  have p: "is_pointer_key INDEX_HEAD_KEY"
    by (simp add: is_pointer_key_def)
  obtain current s1 where *:
    "read_current_head (local_publish_ops flt os depth base) de (env 0 s) = Inr current"
    "publish_checks request (map_option snd current) = Inr ()"
    "op_cas (local_publish_ops flt os depth base) INDEX_HEAD_KEY (map_option (vo_etag \<circ> fst) current)
       (ser (manifest_head_new (version_id (pr_manifest request)) (pr_updated_at request))) s1 = (Inr True, s')"
    "res = \<lparr>activated_version_id = version_id (pr_manifest request),
       previous_version_id = map_option (mh_version_id \<circ> snd) current\<rparr>"
    using local_pub.publish_ok [OF p assms] by metis
  note prev = current_pointer_version [OF *(1)]
  have "\<forall>p \<in> set_option (map_option (mh_version_id \<circ> snd) current). p < version_id (pr_manifest request)"
    "\<forall>e \<in> set_option (pr_expected_current_version request). map_option (mh_version_id \<circ> snd) current = Some e"
    using *(2)
    by (cases current; auto simp: publish_checks_def result_simps option.map_comp not_le split: option.splits if_splits)+
  moreover have "local_cas flt os base INDEX_HEAD_KEY (map_option etag_of (local_peek INDEX_HEAD_KEY (env 0 s)))
      (ser (manifest_head_new (version_id (pr_manifest request)) (pr_updated_at request))) s1 = (Inr True, s')"
    using *(3) prev(2) by (simp add: local_publish_ops_def)
  moreover note local_pub.cas_swaps [OF p *(3)]
  ultimately show ?thesis
    using *(4) prev by auto
qed

definition demo_os :: "unit os_ops" where
  "demo_os = \<lparr>os_is_dir = (\<lambda>_ _. False), os_exists = (\<lambda>_ _. False), os_read_dir = (\<lambda>_ _. Inr []),
     os_create_dir_all = (\<lambda>_ f. (Inr (), f)), os_copy = (\<lambda>_ _ f. (Inr (), f)),
     os_read = (\<lambda>_ _. Inl NotFound), os_write = (\<lambda>_ _ f. (Inr (), f)),
     os_rename = (\<lambda>_ _ f. (Inr (), f)), os_remove_dir_all = (\<lambda>_ f. (Inr (), f)), os_remove_file = (\<lambda>_ f. (Inr (), f))\<rparr>"

definition demo_src :: src_ops where
  "demo_src = \<lparr>so_canonicalize = Inr, so_metadata_is_dir = (\<lambda>_. Inr True), so_is_symlink = (\<lambda>_. Inr False),
     so_is_dir = (\<lambda>_. False), so_read_dir = (\<lambda>_. Inr []), so_read = (\<lambda>_. Inr [])\<rparr>"

definition demo_store :: "unit local_store" where
  "demo_store = \<lparr>ls_db = empty_db, ls_fs = ()\<rparr>"

definition demo_publish_request :: publish_request where
  "demo_publish_request = \<lparr>pr_manifest = sample_manifest 7, pr_expected_current_version = None,
     pr_updated_at = 1700000000001\<rparr>"

definition demo_ops :: "unit local_store publish_ops" where
  "demo_ops = local_publish_ops no_faults demo_os 1 ''/data''"

definition demo_publish :: "(publish_error + publish_result) \<times> unit local_store" where
  "demo_publish = publish (\<lambda>_ s. s) demo_ops demo_src 5 (\<lambda>_. Inr (manifest_head_new 7 1700000000001))
     (\<lambda>_. ''head7'') (\<lambda>_. Inr (sample_manifest 7)) ''/art'' demo_publish_request demo_store"

lemma demo_publish_ok: "demo_publish = (Inr \<lparr>activated_version_id = 7, previous_version_id = None\<rparr>, snd demo_publish)"
  by code_simp

lemma publish_advances_witness:
  "local_peek INDEX_HEAD_KEY (snd demo_publish) = Some ''head7''"
  using publish_advances [OF demo_publish_ok [unfolded demo_publish_def demo_ops_def]]
  by (simp add: demo_publish_def demo_ops_def)


text \<open>
  C7. A publication or a rollback that fails, at any check, upload, statement or swap,
  makes no change of its own to either pointer: however the pointers of other processes move
  meanwhile (a reflexive and transitive relation that holds of each of their steps), the pointer
  found afterwards is the one found before, moved by other processes only. In particular a swap
  that is lost leaves the pointer of the winner, and with no other process nothing changes.
\<close>

theorem publish_failure_keeps_pointers:
  assumes "is_pointer_key k" and "others_move env k R"
    and "publish env (local_publish_ops flt os depth base) src fuel de ser de_manifest artifact_root request s
        = (Inl e, s') \<or>
      rollback env (local_publish_ops flt os depth base) de ser de_manifest request' s = (Inl e, s')"
  shows "R (local_peek k s) (local_peek k s')"
proof -
  have p: "is_pointer_key INDEX_HEAD_KEY"
    by (simp add: is_pointer_key_def)
  have R: "reflp R" "transp R" "\<And>n s. R (local_peek k s) (local_peek k (env n s))"
    using assms(2) by (auto simp: others_move_def)
  show ?thesis
    using assms(3)
    by (elim disjE) (rule local_pub.publish_fails [OF p assms(1) R(1,2), where env = env, OF R(3)], assumption,
      rule local_pub.rollback_fails [OF p R(1,2), where env = env, OF R(3)])
qed

definition demo_published :: "unit local_store" where
  "demo_published = \<lparr>ls_db = empty_db\<lparr>active_head := Some ''head7''\<rparr>, ls_fs = ()\<rparr>"

lemmas demo_simps = demo_ops_def local_publish_ops_def local_read_def local_cas_def head_table_def
  head_row_read_def head_row_cas_def in_tx_def on_db_def demo_published_def read_current_head_def
  parse_head_def manifest_head_from_json_def manifest_head_validate_def ensure_def manifest_head_new_def
  MIN_PLAUSIBLE_EPOCH_MILLIS_def validate_updated_at_def validate_publish_version_def Let_def

text \<open>
  A publication that loses the race: the head is absent when it is read, and another process
  writes one before the swap. The head of the other process is what is left.
\<close>

definition racing_env :: "nat \<Rightarrow> unit local_store \<Rightarrow> unit local_store" where
  "racing_env n s = (if n = 2 then s\<lparr>ls_db := (ls_db s)\<lparr>active_head := Some ''other''\<rparr>\<rparr> else s)"

definition demo_race :: "(publish_error + publish_result) \<times> unit local_store" where
  "demo_race = publish racing_env demo_ops demo_src 5 (\<lambda>_. Inr (manifest_head_new 7 1700000000001))
     (\<lambda>_. ''head7'') (\<lambda>_. Inr (sample_manifest 7)) ''/art'' demo_publish_request demo_store"

lemma demo_race_lost: "\<exists>e. demo_race = (Inl e, snd demo_race) \<and> local_peek INDEX_HEAD_KEY (snd demo_race) \<noteq> None"
proof -
  let ?us = "[\<lparr>pu_key = ''l'', pu_source = ''/art/l''\<rparr>, \<lparr>pu_key = ''t'', pu_source = ''/art/t''\<rparr>]"
  have p: "prepare_publish demo_src 5 (\<lambda>_. Inr (sample_manifest 7)) ''/art'' (sample_manifest 7) =
      Inr (''/art/index/versions/7/manifest.json'', ?us)"
    and u: "upload_all demo_ops ?us demo_store = (Inr (), demo_store)"
    and f: "op_upload_file demo_ops (version_manifest_key 7) ''/art/index/versions/7/manifest.json'' CreateOnly demo_store =
      (Inr (), demo_store)"
    by code_simp+
  have 0: "read_current_head demo_ops (\<lambda>_. Inr (manifest_head_new 7 1700000000001)) demo_store = Inr None"
    by code_simp
  have v: "version_id (sample_manifest 7) = 7"
    by (simp add: sample_manifest_def)
  have r: "racing_env 0 s = s" "racing_env (Suc 0) s = s" for s
    by (simp_all add: racing_env_def)
  have "publish_checks demo_publish_request None = Inr ()" "validate_updated_at 1700000000001 = Inr ()"
    by code_simp+
  then have "demo_race = swap_head racing_env demo_ops (\<lambda>_. Inr (manifest_head_new 7 1700000000001)) (\<lambda>_. ''head7'')
      ''publish'' 7 1700000000001 None None (racing_env 2 demo_store)"
    using p u f 0 by (simp add: demo_race_def publish_def demo_publish_request_def sample_manifest_valid v Let_def r
        del: upload_all.simps)
  moreover have "op_cas demo_ops INDEX_HEAD_KEY None ''head7'' (racing_env 2 demo_store) = (Inr False, racing_env 2 demo_store)"
    by (simp add: demo_simps racing_env_def demo_store_def)
  ultimately obtain e where e: "demo_race = (Inl e, racing_env 3 (racing_env 2 demo_store))"
    by (auto simp: swap_head_def Let_def split: sum.splits)
  then show ?thesis
    unfolding e by (simp add: racing_env_def local_peek_def head_table_def)
qed

lemma racing_env_moves: "others_move racing_env INDEX_HEAD_KEY (\<lambda>a b. b = a \<or> b = Some ''other'')"
  by (auto simp: others_move_def reflp_def transp_def racing_env_def local_peek_def head_table_def)

lemma publish_failure_keeps_pointers_witness:
  "local_peek INDEX_HEAD_KEY (snd demo_race) = Some ''other''"
proof -
  obtain e where e: "demo_race = (Inl e, snd demo_race)" "local_peek INDEX_HEAD_KEY (snd demo_race) \<noteq> None"
    using demo_race_lost by blast
  have "local_peek INDEX_HEAD_KEY demo_store = None"
    by (simp add: demo_store_def local_peek_def head_table_def empty_db_def)
  moreover have "is_pointer_key INDEX_HEAD_KEY"
    by (simp add: is_pointer_key_def)
  then have "local_peek INDEX_HEAD_KEY (snd demo_race) = local_peek INDEX_HEAD_KEY demo_store \<or>
      local_peek INDEX_HEAD_KEY (snd demo_race) = Some ''other''"
    using publish_failure_keeps_pointers [OF _ racing_env_moves
        disjI1 [OF e(1) [unfolded demo_race_def demo_ops_def]]]
    unfolding demo_race_def demo_ops_def by blast
  ultimately show ?thesis
    using e(2) by metis
qed

text \<open>
  A rollback that succeeds activates the version it was asked for, from exactly the
  active version the caller named, and only to a stored manifest that parses, satisfies the
  validator and carries that version.
\<close>

theorem rollback_restores:
  assumes "rollback env (local_publish_ops flt os depth base) de ser de_manifest request s = (Inr res, s')"
  shows "activated_version_id res = rr_target_version_id request \<and>
    previous_version_id res = rr_expected_current_version request \<and>
    pointer_version de (local_peek INDEX_HEAD_KEY (env 0 s)) = rr_expected_current_version request \<and>
    local_peek INDEX_HEAD_KEY s' =
      Some (ser (manifest_head_new (rr_target_version_id request) (rr_updated_at request))) \<and>
    (\<exists>ob m. local_read flt os base (version_manifest_key (rr_target_version_id request)) (env 1 (env 0 s)) = Inr (Some ob) \<and>
      de_manifest (vo_bytes ob) = Inr m \<and> index_manifest_validate m = Inr () \<and>
      version_id m = rr_target_version_id request)"
proof -
  have p: "is_pointer_key INDEX_HEAD_KEY"
    by (simp add: is_pointer_key_def)
  obtain current s1 where *:
    "rollback_checks env (local_publish_ops flt os depth base) de de_manifest request (env 0 s) = Inr current"
    "op_cas (local_publish_ops flt os depth base) INDEX_HEAD_KEY (map_option (vo_etag \<circ> fst) current)
       (ser (manifest_head_new (rr_target_version_id request) (rr_updated_at request))) s1 = (Inr True, s')"
    "res = \<lparr>activated_version_id = rr_target_version_id request,
      previous_version_id = map_option (mh_version_id \<circ> snd) current\<rparr>"
    using local_pub.rollback_ok [OF p assms] by metis
  obtain ob m where c: "read_current_head (local_publish_ops flt os depth base) de (env 0 s) = Inr current"
    "map_option (mh_version_id \<circ> snd) current = rr_expected_current_version request"
    "local_read flt os base (version_manifest_key (rr_target_version_id request)) (env 1 (env 0 s)) = Inr (Some ob)"
    "de_manifest (vo_bytes ob) = Inr m" "index_manifest_validate m = Inr ()"
    "version_id m = rr_target_version_id request"
    using *(1)
    by (auto simp: rollback_checks_def Let_def result_simps validate_stored_manifest_def
        local_publish_ops_def split: if_splits)
  show ?thesis
    using *(3) c current_pointer_version(1) [OF c(1)] local_pub.cas_swaps [OF p *(2)] by auto
qed

definition demo_os8 :: "unit os_ops" where
  "demo_os8 = demo_os\<lparr>os_read := (\<lambda>_ _. Inr ''m8'')\<rparr>"

definition demo_rollback_request :: rollback_request where
  "demo_rollback_request = \<lparr>rr_target_version_id = 3, rr_expected_current_version = Some 7,
     rr_updated_at = 1700000000002\<rparr>"

definition demo_rollback :: "(publish_error + publish_result) \<times> unit local_store" where
  "demo_rollback = rollback (\<lambda>_ s. s) (local_publish_ops no_faults demo_os8 1 ''/data'')
     (\<lambda>_. Inr (manifest_head_new 7 1700000000001)) (\<lambda>_. ''head3'') (\<lambda>_. Inr (sample_manifest 3))
     demo_rollback_request demo_published"

lemma demo_rollback_ok:
  "demo_rollback = (Inr \<lparr>activated_version_id = 3, previous_version_id = Some 7\<rparr>, snd demo_rollback)"
proof -
  have [simp]: "reject_head_key (version_manifest_key 3) ''read'' = Inr ()"
    by (simp add: reject_head_key_def)
  show ?thesis
    by (simp add: demo_rollback_def rollback_def rollback_checks_def demo_rollback_request_def fs_read_def
        demo_os8_def demo_os_def ok_or_def validate_stored_manifest_def sample_manifest_valid swap_head_def demo_simps)
       (simp add: sample_manifest_def)
qed

lemma rollback_restores_witness: "local_peek INDEX_HEAD_KEY (snd demo_rollback) = Some ''head3''"
  using rollback_restores [OF demo_rollback_ok [unfolded demo_rollback_def]]
  by (simp add: demo_rollback_def)

text \<open>What a publication leaves in the head table, as the manifest store reads it.\<close>

lemma published_head_loads:
  assumes "publish env (local_publish_ops flt os depth base) src fuel de ser de_manifest artifact_root request s
    = (Inr res, s')"
    and "de (ser (manifest_head_new (version_id (pr_manifest request)) (pr_updated_at request))) =
      Inr (manifest_head_new (version_id (pr_manifest request)) (pr_updated_at request))"
  shows "sqlite_load_head no_faults de (ls_db s') =
      Inr (manifest_head_new (version_id (pr_manifest request)) (pr_updated_at request)) \<and>
    load_active_version (sqlite_load_head no_faults de (ls_db s')) = Inr (activated_version_id res)"
proof -
  have p: "is_pointer_key INDEX_HEAD_KEY"
    by (simp add: is_pointer_key_def)
  obtain current s1 where *:
    "read_current_head (local_publish_ops flt os depth base) de (env 0 s) = Inr current"
    "publish_checks request (map_option snd current) = Inr ()"
    "op_cas (local_publish_ops flt os depth base) INDEX_HEAD_KEY (map_option (vo_etag \<circ> fst) current)
       (ser (manifest_head_new (version_id (pr_manifest request)) (pr_updated_at request))) s1 = (Inr True, s')"
    "res = \<lparr>activated_version_id = version_id (pr_manifest request),
       previous_version_id = map_option (mh_version_id \<circ> snd) current\<rparr>"
    "index_manifest_validate (pr_manifest request) = Inr ()"
    "\<not> pr_updated_at request < MIN_PLAUSIBLE_EPOCH_MILLIS"
    by (rule local_pub.publish_ok [OF p assms(1)])
  have "local_peek INDEX_HEAD_KEY s' =
      Some (ser (manifest_head_new (version_id (pr_manifest request)) (pr_updated_at request)))"
    using local_pub.cas_swaps [OF p *(3)] by blast
  then have "active_head (ls_db s') =
      Some (ser (manifest_head_new (version_id (pr_manifest request)) (pr_updated_at request)))"
    by (simp add: local_peek_def head_table_def)
  moreover have "version_id (pr_manifest request) \<noteq> 0"
    using *(2) by (auto simp: publish_checks_def result_simps validate_publish_version_def split: if_splits)
  ultimately show ?thesis
    using assms(2) *(4,6)
    by (simp add: sqlite_load_head_def ok_or_def manifest_head_from_json_def manifest_head_validate_def
        load_active_version_def ensure_def manifest_head_new_def Let_def)
qed

text \<open>
  C10. The read side sees what the publish side wrote: after a publication the manifest
  store on the same database loads exactly the new head.
\<close>

theorem published_version_is_served:
  assumes "publish env (local_publish_ops flt os depth base) src fuel de ser de_manifest artifact_root request s
    = (Inr res, s')"
    and "de (ser (manifest_head_new (version_id (pr_manifest request)) (pr_updated_at request))) =
      Inr (manifest_head_new (version_id (pr_manifest request)) (pr_updated_at request))"
  shows "sqlite_load_head no_faults de (ls_db s') =
      Inr (manifest_head_new (version_id (pr_manifest request)) (pr_updated_at request)) \<and>
    load_active_version (sqlite_load_head no_faults de (ls_db s')) = Inr (activated_version_id res)"
  by (rule published_head_loads [OF assms])

lemma published_version_is_served_witness:
  "sqlite_load_head no_faults (\<lambda>_. Inr (manifest_head_new 7 1700000000001)) (ls_db (snd demo_publish)) =
     Inr (manifest_head_new 7 1700000000001)"
proof -
  have v: "version_id (pr_manifest demo_publish_request) = 7" "pr_updated_at demo_publish_request = 1700000000001"
    by (simp_all add: demo_publish_request_def sample_manifest_def)
  from published_version_is_served [OF demo_publish_ok [unfolded demo_publish_def demo_ops_def]] show ?thesis
    unfolding v demo_publish_def demo_ops_def by blast
qed

end
