(* ===== verification/Snapshot.thy ===== *)
theory Snapshot
  imports Publish_Storage
begin

text \<open>
  Building an index version (\<^verbatim>\<open>src/indexing/builder.rs\<close>, \<^verbatim>\<open>src/storage/staged_publish.rs\<close>):
  the snapshot of the latest document per id, the manifest, and the staging of artifacts that
  are renamed into place at the end. LanceDB, Tantivy and the embedding model are arguments.
\<close>


section \<open>The latest snapshot\<close>

text \<open>
  \<^verbatim>\<open>HashMap::into_values\<close> visits the entries in an unspecified order: \<open>iter\<close> permutes them.
\<close>

definition latest_step :: "(string, wal_record) hmap \<Rightarrow> wal_record \<Rightarrow> (string, wal_record) hmap" where
  "latest_step m r =
     (case hm_get m (rec_doc_id r) of
        Some current \<Rightarrow> if rec_timestamp r < rec_timestamp current then m else hm_insert (rec_doc_id r) r m
      | None \<Rightarrow> hm_insert (rec_doc_id r) r m)"

fun latest_by_doc_id ::
  "(metadata \<Rightarrow> nat option) \<Rightarrow> wal_record list \<Rightarrow> (string, wal_record) hmap \<Rightarrow> index_error + (string, wal_record) hmap" where
  "latest_by_doc_id mlen [] m = Inr m"
| "latest_by_doc_id mlen (r # rs) m =
     and_then (map_err IndexValidation (wal_record_validate mlen r)) (\<lambda>_. latest_by_doc_id mlen rs (latest_step m r))"

definition live_document :: "wal_record \<Rightarrow> document option" where
  "live_document r = (case rec_op r of Upsert \<Rightarrow> rec_document r | Delete \<Rightarrow> None)"

definition cmp_doc_id :: "document \<Rightarrow> document \<Rightarrow> ordering" where
  "cmp_doc_id a b = cmp_ord (doc_id a) (doc_id b)"

definition materialize_latest_snapshot ::
  "((string, wal_record) hmap \<Rightarrow> (string, wal_record) hmap) \<Rightarrow> (metadata \<Rightarrow> nat option) \<Rightarrow> wal_record list \<Rightarrow>
   index_error + document list" where
  "materialize_latest_snapshot iter mlen records =
     map_ok (\<lambda>m. sort_by cmp_doc_id (List.map_filter (live_document \<circ> snd) (iter m)))
       (latest_by_doc_id mlen records [])"

interpretation doc_cmp: key_comparator cmp_doc_id doc_id
  by unfold_locales (simp add: cmp_doc_id_def)


subsection \<open>What the snapshot contains\<close>

text \<open>
  The record that decides about an id: of the records for it with the greatest timestamp, the
  last in replay order.
\<close>

definition latest_record :: "wal_record list \<Rightarrow> string \<Rightarrow> wal_record option" where
  "latest_record rs i =
     (let own = filter (\<lambda>r. rec_doc_id r = i) rs
      in if own = [] then None
         else Some (last (filter (\<lambda>r. rec_timestamp r = Max (rec_timestamp ` set own)) own)))"

lemma latest_record_Nil [simp]: "latest_record [] i = None"
  by (simp add: latest_record_def)

lemma latest_record_other: "rec_doc_id r \<noteq> i \<Longrightarrow> latest_record (rs @ [r]) i = latest_record rs i"
  by (simp add: latest_record_def)

lemma latest_record_Some:
  assumes "latest_record rs i = Some c"
  shows "c \<in> set rs" "rec_doc_id c = i"
    "r \<in> set rs \<Longrightarrow> rec_doc_id r = i \<Longrightarrow> rec_timestamp r \<le> rec_timestamp c"
    "rec_timestamp c = Max (rec_timestamp ` set (filter (\<lambda>r. rec_doc_id r = i) rs))"
proof -
  define own where "own = filter (\<lambda>r. rec_doc_id r = i) rs"
  define t where "t = Max (rec_timestamp ` set own)"
  have own: "own \<noteq> []" "c = last (filter (\<lambda>r. rec_timestamp r = t) own)"
    using assms by (auto simp: latest_record_def own_def t_def Let_def split: if_splits)
  have "t \<in> rec_timestamp ` set own"
    unfolding t_def using own(1) by (intro Max_in) simp_all
  then have "filter (\<lambda>r. rec_timestamp r = t) own \<noteq> []"
    by (auto simp: filter_empty_conv)
  then have c: "c \<in> set own" "rec_timestamp c = t"
    using own(2) last_in_set by fastforce+
  then show "c \<in> set rs" "rec_doc_id c = i"
    "rec_timestamp c = Max (rec_timestamp ` set (filter (\<lambda>r. rec_doc_id r = i) rs))"
    by (auto simp: own_def t_def)
  assume "r \<in> set rs" "rec_doc_id r = i"
  then show "rec_timestamp r \<le> rec_timestamp c"
    unfolding c(2) t_def by (intro Max_ge) (auto simp: own_def)
qed

lemma latest_record_snoc:
  assumes "rec_doc_id r = i"
  shows "latest_record (rs @ [r]) i =
    (case latest_record rs i of
       Some c \<Rightarrow> if rec_timestamp r < rec_timestamp c then Some c else Some r
     | None \<Rightarrow> Some r)"
proof (cases "latest_record rs i")
  case None
  then have "filter (\<lambda>r. rec_doc_id r = i) rs = []"
    by (simp add: latest_record_def Let_def split: if_splits)
  then show ?thesis
    using None assms by (simp add: latest_record_def)
next
  case (Some c)
  define own where "own = filter (\<lambda>r. rec_doc_id r = i) rs"
  have own: "own \<noteq> []" and t: "rec_timestamp c = Max (rec_timestamp ` set own)"
    using Some latest_record_Some(4) [OF Some] by (auto simp: latest_record_def own_def Let_def split: if_splits)
  have m: "Max (rec_timestamp ` set (own @ [r])) = max (rec_timestamp r) (rec_timestamp c)"
    using own by (simp add: t)
  have l: "latest_record (rs @ [r]) i =
      Some (last (filter (\<lambda>x. rec_timestamp x = max (rec_timestamp r) (rec_timestamp c)) (own @ [r])))"
    using assms m by (simp add: latest_record_def own_def)
  show ?thesis
  proof (cases "rec_timestamp r < rec_timestamp c")
    case True
    then show ?thesis
      using l Some t own by (simp add: latest_record_def own_def max_def)
  next
    case False
    then show ?thesis
      using l Some by (simp add: max_def)
  qed
qed

lemma latest_by_doc_id_fold:
  "latest_by_doc_id mlen rs m =
     and_then (try_all (\<lambda>r. map_err IndexValidation (wal_record_validate mlen r)) rs) (\<lambda>_. Inr (foldl latest_step m rs))"
  by (induction rs arbitrary: m) (simp_all add: and_then_assoc)

lemma foldl_latest_ok: "hm_ok m \<Longrightarrow> hm_ok (foldl latest_step m rs)"
  by (induction rs arbitrary: m) (auto simp: latest_step_def split: option.splits)

lemma foldl_latest: "hm_get (foldl latest_step [] rs) i = latest_record rs i"
proof (induction rs rule: rev_induct)
  case (snoc r rs)
  then show ?case
    by (cases "rec_doc_id r = i")
      (auto simp: latest_step_def latest_record_snoc latest_record_other split: option.splits)
qed simp

lemma set_map_filter: "set (List.map_filter f xs) = {y. \<exists>x \<in> set xs. f x = Some y}"
  by (auto simp: List.map_filter_def image_iff) (metis option.sel option.distinct(1))+

lemma materialize_ok:
  "materialize_latest_snapshot iter mlen rs = Inr docs \<longleftrightarrow>
     (\<forall>r \<in> set rs. wal_record_validate mlen r = Inr ()) \<and>
     docs = sort_by cmp_doc_id (List.map_filter (live_document \<circ> snd) (iter (foldl latest_step [] rs)))"
  by (auto simp: materialize_latest_snapshot_def latest_by_doc_id_fold result_simps)

lemma live_document_eq: "live_document r = Some d \<longleftrightarrow> rec_op r = Upsert \<and> rec_document r = Some d"
  by (cases "rec_op r") (simp_all add: live_document_def)

lemma live_document_id:
  "wal_record_validate mlen r = Inr () \<Longrightarrow> live_document r = Some d \<Longrightarrow> doc_id d = rec_doc_id r"
  by (auto simp: wal_record_validate_ok live_document_def split: wal_operation.splits)

lemma snapshot_latest:
  assumes "\<forall>m. mset (iter m) = mset m"
    and "materialize_latest_snapshot iter mlen rs = Inr docs"
  shows "sorted (map doc_id docs) \<and> distinct (map doc_id docs) \<and>
    (\<forall>d. d \<in> set docs \<longleftrightarrow> (\<exists>r. latest_record rs (doc_id d) = Some r \<and> rec_op r = Upsert \<and> rec_document r = Some d)) \<and>
    materialize_latest_snapshot (\<lambda>m. m) mlen rs = Inr docs"
proof -
  define m where "m = foldl latest_step [] rs"
  have ok: "\<forall>r \<in> set rs. wal_record_validate mlen r = Inr ()"
    and docs: "docs = sort_by cmp_doc_id (List.map_filter (live_document \<circ> snd) (iter m))"
    using assms(2) by (simp_all add: materialize_ok m_def)
  have m: "hm_ok m" and get: "hm_get m i = latest_record rs i" for i
    by (simp_all add: m_def foldl_latest_ok foldl_latest)
  have in_m: "(i, r) \<in> set m \<longleftrightarrow> latest_record rs i = Some r" for i r
    using hm_get_eq_Some_iff [OF m] get by metis
  have iter: "mset (iter m) = mset m" "set (iter m) = set m"
    using assms(1) by (auto dest: mset_eq_setD)
  have ids: "doc_id d = i" if "(i, r) \<in> set m" "live_document r = Some d" for i r d
    using that ok latest_record_Some(1,2) live_document_id by (metis in_m)
  have dist: "distinct (map doc_id (List.map_filter (live_document \<circ> snd) xs))"
    if "distinct (map fst xs)" "set xs \<subseteq> set m" for xs
    using that
  proof (induction xs)
    case (Cons x xs)
    obtain i r where x: "x = (i, r)" by (cases x)
    have "i \<notin> doc_id ` set (List.map_filter (live_document \<circ> snd) xs)"
    proof
      assume "i \<in> doc_id ` set (List.map_filter (live_document \<circ> snd) xs)"
      then obtain j r' d where "(j, r') \<in> set xs" "live_document r' = Some d" "doc_id d = i"
        by (auto simp: set_map_filter)
      moreover from this have "j = i"
        using ids Cons.prems(2) by (metis insert_subset list.simps(15) subsetD)
      ultimately show False
        using Cons.prems(1) x by (auto intro: rev_image_eqI)
    qed
    moreover have "distinct (map doc_id (List.map_filter (live_document \<circ> snd) xs))"
      by (rule Cons.IH) (use Cons.prems in simp_all)
    moreover have "doc_id d = i" if "live_document r = Some d" for d
      using ids [of i r d] that Cons.prems(2) x by simp
    ultimately show ?case
      by (cases "live_document r") (simp_all add: x List.map_filter_simps del: comp_apply, simp_all add: comp_def)
  qed (simp add: List.map_filter_simps)
  have keys: "distinct (map fst (iter m))"
    using m iter(1) unfolding hm_ok_def by (metis mset_eq_imp_distinct_iff mset_map)
  have "distinct (map doc_id docs)"
    using dist [OF keys] iter(2) unfolding docs by (metis mset_eq_imp_distinct_iff mset_map mset_sort_by order_refl)
  moreover have "sorted (map doc_id docs)"
    unfolding docs by (rule doc_cmp.sorted_sort_by)
  moreover have "d \<in> set docs \<longleftrightarrow> (\<exists>r. latest_record rs (doc_id d) = Some r \<and> rec_op r = Upsert \<and> rec_document r = Some d)" for d
  proof -
    have "d \<in> set docs \<longleftrightarrow> (\<exists>i r. latest_record rs i = Some r \<and> live_document r = Some d)"
      unfolding docs using in_m by (simp add: set_map_filter iter(2) Bex_def split_paired_Ex)
    also have "\<dots> \<longleftrightarrow> (\<exists>r. latest_record rs (doc_id d) = Some r \<and> live_document r = Some d)"
      using ids in_m by metis
    finally show ?thesis
      by (simp add: live_document_eq)
  qed
  moreover have "materialize_latest_snapshot (\<lambda>m. m) mlen rs = Inr docs"
  proof -
    have "mset (List.map_filter (live_document \<circ> snd) xs) = mset (List.map_filter (live_document \<circ> snd) ys)"
      if "mset xs = mset ys" for xs ys :: "(string \<times> wal_record) list"
      using that by (simp add: List.map_filter_def mset_filter)
    then have "sort_by cmp_doc_id (List.map_filter (live_document \<circ> snd) m) = docs"
      unfolding docs
      by (rule doc_cmp.sort_by_perm [OF _ distinct_map [THEN iffD1, THEN conjunct2]])
        (use iter(1) dist [of m] m in \<open>auto simp: hm_ok_def\<close>)
    then show ?thesis
      using ok by (simp add: materialize_ok m_def)
  qed
  ultimately show ?thesis
    by blast
qed

text \<open>
  C5. The snapshot of a log lists, sorted by id and without duplicates, exactly the documents
  whose deciding record (greatest timestamp, then last in replay order) is an upsert; the
  order in which the hash map is iterated does not matter.
\<close>

theorem snapshot_is_latest:
  assumes "\<forall>m. mset (iter m) = mset m"
    and "materialize_latest_snapshot iter mlen rs = Inr docs"
  shows "sorted (map doc_id docs) \<and> distinct (map doc_id docs) \<and>
    (\<forall>d. d \<in> set docs \<longleftrightarrow> (\<exists>r. latest_record rs (doc_id d) = Some r \<and> rec_op r = Upsert \<and> rec_document r = Some d)) \<and>
    materialize_latest_snapshot (\<lambda>m. m) mlen rs = Inr docs"
  by (rule snapshot_latest [OF assms])

definition sample_doc :: "string \<Rightarrow> string \<Rightarrow> document" where
  "sample_doc i t = \<lparr>doc_id = i, doc_text = t, doc_embedding = None, doc_metadata = [], doc_timestamp = 1700000000000\<rparr>"

definition sample_upsert :: "string \<Rightarrow> string \<Rightarrow> int \<Rightarrow> wal_record" where
  "sample_upsert i t ts = \<lparr>event_id = ''e'', rec_doc_id = i, rec_op = Upsert, rec_document = Some (sample_doc i t),
     rec_timestamp = ts\<rparr>"

definition sample_log :: "wal_record list" where
  "sample_log = [sample_upsert ''b'' ''t'' 1700000000000, sample_upsert ''a'' ''old'' 1700000000000,
     sample_upsert ''a'' ''new'' 1700000000001]"

lemma snapshot_is_latest_witness:
  "\<forall>d. d \<in> set [sample_doc ''a'' ''new'', sample_doc ''b'' ''t''] \<longleftrightarrow>
     (\<exists>r. latest_record sample_log (doc_id d) = Some r \<and> rec_op r = Upsert \<and> rec_document r = Some d)"
proof -
  have "materialize_latest_snapshot rev (\<lambda>_. Some 2) sample_log
      = Inr [sample_doc ''a'' ''new'', sample_doc ''b'' ''t'']"
    by code_simp
  moreover have "\<forall>m :: (string, wal_record) hmap. mset (rev m) = mset m"
    by simp
  ultimately show ?thesis
    using snapshot_is_latest [of rev "\<lambda>_. Some 2" sample_log] by blast
qed


section \<open>Staging\<close>

definition staged_dir_name :: "string \<Rightarrow> nat \<Rightarrow> nat \<Rightarrow> string" where
  "staged_dir_name label pid nonce = msg [''.'', label, ''-staging-'', show_nat pid, ''-'', show_nat nonce]"

definition staged_create :: "'f os_ops \<Rightarrow> string \<Rightarrow> string \<Rightarrow> nat \<Rightarrow> nat \<Rightarrow> 'f \<Rightarrow> (index_error + string) \<times> 'f" where
  "staged_create os base label pid nonce fs =
     (let staged = path_join base (staged_dir_name label pid nonce)
      in case os_create_dir_all os staged fs of
           (Inl e, fs1) \<Rightarrow> (Inl (IndexOperation (msg [''failed to create staging directory '', staged, '': '', e])), fs1)
         | (Inr _, fs1) \<Rightarrow> (Inr staged, fs1))"

definition append_cleanup_failure :: "index_error \<Rightarrow> index_error + unit \<Rightarrow> index_error" where
  "append_cleanup_failure e cleanup =
     (case cleanup of
        Inr _ \<Rightarrow> e
      | Inl c \<Rightarrow> IndexOperation (msg [show_index_error e, ''; cleanup failed: '', show_index_error c]))"

fun join_with :: "string \<Rightarrow> string list \<Rightarrow> string" where
  "join_with sep [] = []"
| "join_with sep [x] = x"
| "join_with sep (x # y # xs) = msg [x, sep, join_with sep (y # xs)]"

definition combine_cleanup_results :: "(index_error + unit) list \<Rightarrow> index_error + unit" where
  "combine_cleanup_results results =
     (let errors = List.map_filter (\<lambda>r. case r of Inl e \<Rightarrow> Some (show_index_error e) | Inr _ \<Rightarrow> None) results
      in if errors = [] then Inr () else Inl (IndexOperation (join_with ''; '' errors)))"

definition remove_dir_all_if_exists :: "'f os_ops \<Rightarrow> string \<Rightarrow> 'f \<Rightarrow> (index_error + unit) \<times> 'f" where
  "remove_dir_all_if_exists os path fs =
     (if \<not> os_exists os path fs then (Inr (), fs)
      else case os_remove_dir_all os path fs of
        (Inl e, fs1) \<Rightarrow> (Inl (IndexOperation (msg [''failed to remove directory '', path, '': '', e])), fs1)
      | (Inr _, fs1) \<Rightarrow> (Inr (), fs1))"

definition remove_path_if_exists :: "'f os_ops \<Rightarrow> string \<Rightarrow> 'f \<Rightarrow> (index_error + unit) \<times> 'f" where
  "remove_path_if_exists os path fs =
     (if \<not> os_exists os path fs then (Inr (), fs)
      else if os_is_dir os path fs then
        (case os_remove_dir_all os path fs of
           (Inl e, fs1) \<Rightarrow> (Inl (IndexOperation (msg [''failed to remove directory '', path, '': '', e])), fs1)
         | (Inr _, fs1) \<Rightarrow> (Inr (), fs1))
      else
        (case os_remove_file os path fs of
           (Inl e, fs1) \<Rightarrow> (Inl (IndexOperation (msg [''failed to remove file '', path, '': '', e])), fs1)
         | (Inr _, fs1) \<Rightarrow> (Inr (), fs1)))"

definition move_into_place :: "'f os_ops \<Rightarrow> string \<Rightarrow> string \<Rightarrow> 'f \<Rightarrow> (index_error + unit) \<times> 'f" where
  "move_into_place os source destination fs =
     (case path_parent destination of
        None \<Rightarrow> (Inl (IndexOperation (msg [''path '', destination, '' has no parent''])), fs)
      | Some parent \<Rightarrow>
          (case os_create_dir_all os parent fs of
             (Inl e, fs1) \<Rightarrow> (Inl (IndexOperation (msg [''failed to create directory '', parent, '': '', e])), fs1)
           | (Inr _, fs1) \<Rightarrow>
               (case os_rename os source destination fs1 of
                  (Inl e, fs2) \<Rightarrow> (Inl (IndexOperation (msg [''failed to publish staged artifact from '', source,
                     '' to '', destination, '': '', e])), fs2)
                | (Inr _, fs2) \<Rightarrow> (Inr (), fs2))))"

fun cleanup_moved :: "'f os_ops \<Rightarrow> string list \<Rightarrow> 'f \<Rightarrow> (index_error + unit) list \<times> 'f" where
  "cleanup_moved os [] fs = ([], fs)"
| "cleanup_moved os (d # ds) fs =
     (case remove_path_if_exists os d fs of
        (r, fs1) \<Rightarrow> (case cleanup_moved os ds fs1 of (rs, fs2) \<Rightarrow> (r # rs, fs2)))"

text \<open>\<^verbatim>\<open>StagedDir::commit\<close>; \<open>moved\<close> are the destinations moved so far.\<close>

fun commit_moves ::
  "'f os_ops \<Rightarrow> string \<Rightarrow> string list \<Rightarrow> (string \<times> string) list \<Rightarrow> 'f \<Rightarrow> (index_error + unit) \<times> 'f" where
  "commit_moves os staged moved [] fs = remove_dir_all_if_exists os staged fs"
| "commit_moves os staged moved ((source, destination) # moves) fs =
     (case move_into_place os source destination fs of
        (Inl e, fs1) \<Rightarrow>
          (case cleanup_moved os moved fs1 of
             (cleanups, fs2) \<Rightarrow>
               (case remove_dir_all_if_exists os staged fs2 of
                  (last_cleanup, fs3) \<Rightarrow>
                    (Inl (append_cleanup_failure e (combine_cleanup_results (cleanups @ [last_cleanup]))), fs3)))
      | (Inr _, fs1) \<Rightarrow> commit_moves os staged (moved @ [destination]) moves fs1)"

text \<open>
  \<^verbatim>\<open>StagedDir::commit_replace_dir\<close>; \<open>backup\<close> is the name it derives from the destination,
  the process and the clock.
\<close>

definition commit_replace_dir ::
  "'f os_ops \<Rightarrow> string \<Rightarrow> string \<Rightarrow> string \<Rightarrow> 'f \<Rightarrow> (index_error + unit) \<times> 'f" where
  "commit_replace_dir os staged backup destination fs =
     (let had_previous = os_exists os destination fs;
          swap_in = (\<lambda>fs1.
            case os_rename os staged destination fs1 of
              (Inr _, fs2) \<Rightarrow> if had_previous then remove_dir_all_if_exists os backup fs2 else (Inr (), fs2)
            | (Inl e, fs2) \<Rightarrow>
                (case (if had_previous then
                         (case os_rename os backup destination fs2 of
                            (Inl re, fs3) \<Rightarrow> ([Inl (IndexOperation (msg
                               [''failed to restore previous directory '', destination, '': '', re]))], fs3)
                          | (Inr _, fs3) \<Rightarrow> ([Inr ()], fs3))
                       else ([], fs2)) of
                   (restores, fs3) \<Rightarrow>
                     (case remove_dir_all_if_exists os staged fs3 of
                        (last_cleanup, fs4) \<Rightarrow>
                          (Inl (append_cleanup_failure
                             (IndexOperation (msg [''failed to publish staged artifact from '', staged, '' to '',
                                destination, '': '', e]))
                             (combine_cleanup_results (restores @ [last_cleanup]))), fs4))))
      in if had_previous then
           (case os_rename os destination backup fs of
              (Inl e, fs1) \<Rightarrow>
                (case remove_dir_all_if_exists os staged fs1 of
                   (cleanup, fs2) \<Rightarrow>
                     (Inl (append_cleanup_failure
                        (IndexOperation (msg [''failed to move previous directory '', destination, '' aside: '', e]))
                        cleanup), fs2))
            | (Inr _, fs1) \<Rightarrow> swap_in fs1)
         else swap_in fs)"


section \<open>Building a version\<close>

record build_index_request =
  bi_version_id :: u64
  bi_created_at :: int
  bi_embedding_dim :: nat
  bi_records :: "wal_record list"

record build_index_result =
  br_manifest :: index_manifest
  br_documents :: "document list"

definition ARTIFACT_BUCKET :: string where "ARTIFACT_BUCKET = ''local-artifacts''"
definition SHARD_ID :: u32 where "SHARD_ID = 0"

definition lance_dir_key :: "u64 \<Rightarrow> string" where
  "lance_dir_key v = msg [''lance/v'', show_u64 v, ''/shard_0'']"

definition index_dir_key :: "u64 \<Rightarrow> string" where
  "index_dir_key v = msg [''index/v'', show_u64 v, ''/shard_0'']"

definition build_manifest :: "build_index_request \<Rightarrow> nat \<Rightarrow> index_error + index_manifest" where
  "build_manifest request n =
     (let v = bi_version_id request;
          manifest = \<lparr>version_id = v, created_at = bi_created_at request,
            embedding_dim = bi_embedding_dim request, document_count = of_nat n, num_shards = 1,
            shards = [\<lparr>shard_id = SHARD_ID, shard_document_count = of_nat n,
              lance_path = msg [''s3://'', ARTIFACT_BUCKET, ''/'', lance_dir_key v],
              tantivy_path = msg [''s3://'', ARTIFACT_BUCKET, ''/'', index_dir_key v]\<rparr>]\<rparr>
      in and_then (map_err IndexValidation (index_manifest_validate manifest)) (\<lambda>_. Inr manifest))"

record staged_build =
  sb_dir :: string
  staged_lance_dir :: string
  staged_index_dir :: string
  staged_manifest_path :: string
  final_lance_dir :: string
  final_index_dir :: string
  final_manifest_path :: string

definition staged_build_new ::
  "'f os_ops \<Rightarrow> string \<Rightarrow> nat \<Rightarrow> nat \<Rightarrow> u64 \<Rightarrow> 'f \<Rightarrow> (index_error + staged_build) \<times> 'f" where
  "staged_build_new os artifact_root pid nonce v fs =
     map_prod (map_ok (\<lambda>dir. \<lparr>sb_dir = dir,
         staged_lance_dir = path_join dir (lance_dir_key v), staged_index_dir = path_join dir (index_dir_key v),
         staged_manifest_path = path_join dir (version_manifest_key v),
         final_lance_dir = path_join artifact_root (lance_dir_key v),
         final_index_dir = path_join artifact_root (index_dir_key v),
         final_manifest_path = path_join artifact_root (version_manifest_key v)\<rparr>)) id
       (staged_create os artifact_root ''index-build'' pid nonce fs)"

definition ensure_target_is_publishable :: "'f os_ops \<Rightarrow> string \<Rightarrow> 'f \<Rightarrow> index_error + unit" where
  "ensure_target_is_publishable os path fs =
     (if os_exists os path fs then Inl (IndexOperation (msg [''publish target already exists: '', path]))
      else case path_parent path of
        None \<Rightarrow> Inl (IndexOperation (msg [''path '', path, '' has no parent'']))
      | Some parent \<Rightarrow>
          if os_exists os parent fs \<and> \<not> os_is_dir os parent fs
          then Inl (IndexOperation (msg [''publish target parent is not a directory: '', parent]))
          else Inr ())"

definition write_json_file :: "'f os_ops \<Rightarrow> (index_manifest \<Rightarrow> string + string) \<Rightarrow> string \<Rightarrow> index_manifest \<Rightarrow> 'f \<Rightarrow>
    (index_error + unit) \<times> 'f" where
  "write_json_file os ser path m fs =
     (case path_parent path of
        None \<Rightarrow> (Inl (IndexOperation (msg [''path '', path, '' has no parent''])), fs)
      | Some parent \<Rightarrow>
          (case os_create_dir_all os parent fs of
             (Inl e, fs1) \<Rightarrow> (Inl (IndexOperation (msg [''failed to create directory '', parent, '': '', e])), fs1)
           | (Inr _, fs1) \<Rightarrow>
               (case ser m of
                  Inl e \<Rightarrow> (Inl (IndexOperation (msg [''failed to serialize json for '', path, '': '', e])), fs1)
                | Inr contents \<Rightarrow>
                    (case os_write os path contents fs1 of
                       (Inl e, fs2) \<Rightarrow> (Inl (IndexOperation (msg [''failed to write '', path, '': '', e])), fs2)
                     | (Inr _, fs2) \<Rightarrow> (Inr (), fs2)))))"

text \<open>The libraries a build calls: the vector table and the keyword index it writes.\<close>

record 'f build_libs =
  lib_write_lance :: "string \<Rightarrow> document list \<Rightarrow> nat \<Rightarrow> 'f \<Rightarrow> (index_error + unit) \<times> 'f"
  lib_write_keyword :: "string \<Rightarrow> document list \<Rightarrow> 'f \<Rightarrow> (index_error + unit) \<times> 'f"
  lib_embed :: "string \<Rightarrow> string + f32 list"
  lib_before_publish :: "(index_error + unit) option"

definition write_staged_build ::
  "'f os_ops \<Rightarrow> 'f build_libs \<Rightarrow> (index_manifest \<Rightarrow> string + string) \<Rightarrow> staged_build \<Rightarrow> document list \<Rightarrow>
   index_manifest \<Rightarrow> 'f \<Rightarrow> (index_error + unit) \<times> 'f" where
  "write_staged_build os libs ser sb documents manifest fs =
     (case and_then (ensure_target_is_publishable os (final_lance_dir sb) fs) (\<lambda>_.
           and_then (ensure_target_is_publishable os (final_index_dir sb) fs) (\<lambda>_.
             ensure_target_is_publishable os (final_manifest_path sb) fs)) of
        Inl e \<Rightarrow> (Inl e, fs)
      | Inr _ \<Rightarrow>
          (case lib_write_lance libs (staged_lance_dir sb) documents (embedding_dim manifest) fs of
             (Inl e, fs1) \<Rightarrow> (Inl e, fs1)
           | (Inr _, fs1) \<Rightarrow>
               (case lib_write_keyword libs (staged_index_dir sb) documents fs1 of
                  (Inl e, fs2) \<Rightarrow> (Inl e, fs2)
                | (Inr _, fs2) \<Rightarrow> write_json_file os ser (staged_manifest_path sb) manifest fs2)))"

definition stage_build ::
  "'f os_ops \<Rightarrow> 'f build_libs \<Rightarrow> (index_manifest \<Rightarrow> string + string) \<Rightarrow> string \<Rightarrow> nat \<Rightarrow> nat \<Rightarrow> u64 \<Rightarrow>
   document list \<Rightarrow> index_manifest \<Rightarrow> 'f \<Rightarrow> (index_error + staged_build) \<times> 'f" where
  "stage_build os libs ser artifact_root pid nonce v documents manifest fs =
     (case staged_build_new os artifact_root pid nonce v fs of
        (Inl e, fs1) \<Rightarrow> (Inl e, fs1)
      | (Inr sb, fs1) \<Rightarrow>
          (case write_staged_build os libs ser sb documents manifest fs1 of
             (Inr _, fs2) \<Rightarrow> (Inr sb, fs2)
           | (Inl e, fs2) \<Rightarrow>
               (case remove_dir_all_if_exists os (sb_dir sb) fs2 of
                  (cleanup, fs3) \<Rightarrow> (Inl (append_cleanup_failure e cleanup), fs3))))"

definition publish_staged_build ::
  "'f os_ops \<Rightarrow> 'f build_libs \<Rightarrow> staged_build \<Rightarrow> 'f \<Rightarrow> (index_error + unit) \<times> 'f" where
  "publish_staged_build os libs sb fs =
     (case lib_before_publish libs of
        Some (Inl e) \<Rightarrow>
          (case remove_dir_all_if_exists os (sb_dir sb) fs of
             (cleanup, fs1) \<Rightarrow> (Inl (append_cleanup_failure e cleanup), fs1))
      | _ \<Rightarrow>
          commit_moves os (sb_dir sb) []
            [(staged_lance_dir sb, final_lance_dir sb), (staged_index_dir sb, final_index_dir sb),
             (staged_manifest_path sb, final_manifest_path sb)] fs)"

definition embed_document ::
  "(string \<Rightarrow> string + f32 list) \<Rightarrow> (metadata \<Rightarrow> nat option) \<Rightarrow> nat \<Rightarrow> document \<Rightarrow> index_error + document" where
  "embed_document gen mlen edim d =
     and_then
       (case doc_embedding d of
          Some _ \<Rightarrow> Inr d
        | None \<Rightarrow> map_err IndexOperation (map_ok (\<lambda>e. d\<lparr>doc_embedding := Some e\<rparr>) (gen (doc_text d))))
       (\<lambda>d'. and_then (map_err IndexValidation (document_validate_for_embedding_dim mlen edim d')) (\<lambda>_. Inr d'))"

definition prepare_build ::
  "((string, wal_record) hmap \<Rightarrow> (string, wal_record) hmap) \<Rightarrow> (metadata \<Rightarrow> nat option) \<Rightarrow>
   (string \<Rightarrow> string + f32 list) \<Rightarrow> build_index_request \<Rightarrow> index_error + document list \<times> index_manifest" where
  "prepare_build iter mlen gen request =
     (if bi_version_id request = 0 then Inl (IndexOperation ''version_id must be positive'')
      else
        and_then (materialize_latest_snapshot iter mlen (bi_records request)) (\<lambda>snapshot.
        and_then (try_map (embed_document gen mlen (bi_embedding_dim request)) snapshot) (\<lambda>documents.
        and_then (build_manifest request (length documents)) (\<lambda>manifest.
        Inr (documents, manifest)))))"

definition build_index ::
  "((string, wal_record) hmap \<Rightarrow> (string, wal_record) hmap) \<Rightarrow> (metadata \<Rightarrow> nat option) \<Rightarrow> 'f os_ops \<Rightarrow>
   'f build_libs \<Rightarrow> (index_manifest \<Rightarrow> string + string) \<Rightarrow> string \<Rightarrow> nat \<Rightarrow> nat \<Rightarrow> build_index_request \<Rightarrow> 'f \<Rightarrow>
   (index_error + build_index_result) \<times> 'f" where
  "build_index iter mlen os libs ser artifact_root pid nonce request fs =
     (case prepare_build iter mlen (lib_embed libs) request of
        Inl e \<Rightarrow> (Inl e, fs)
      | Inr (documents, manifest) \<Rightarrow>
          (case stage_build os libs ser artifact_root pid nonce (bi_version_id request) documents manifest fs of
             (Inl e, fs1) \<Rightarrow> (Inl e, fs1)
           | (Inr sb, fs1) \<Rightarrow>
               (case publish_staged_build os libs sb fs1 of
                  (Inl e, fs2) \<Rightarrow> (Inl e, fs2)
                | (Inr _, fs2) \<Rightarrow> (Inr \<lparr>br_manifest = manifest, br_documents = documents\<rparr>, fs2))))"


subsection \<open>What a build produces\<close>

lemma embed_document_ok:
  assumes "embed_document gen mlen edim d = Inr d'"
  shows "doc_id d' = doc_id d" "document_validate mlen d' = Inr ()"
    "\<exists>e. doc_embedding d' = Some e \<and> length e = edim \<and> (\<forall>v \<in> set e. f32_is_finite v)"
  using assms
  by (auto simp: embed_document_def result_simps document_validate_dim_ok document_validate_ok
      split: option.splits)

lemma try_map_embed_ids:
  "try_map (embed_document gen mlen edim) ds = Inr ds' \<Longrightarrow> map doc_id ds' = map doc_id ds"
  unfolding try_map_Inr_iff
  by (induction ds ds' rule: list_all2_induct) (auto dest: embed_document_ok(1))

lemma build_manifest_ok:
  "build_manifest request n = Inr m \<Longrightarrow>
     index_manifest_validate m = Inr () \<and> version_id m = bi_version_id request \<and>
     document_count m = of_nat n \<and> embedding_dim m = bi_embedding_dim request"
  by (auto simp: build_manifest_def Let_def result_simps)

lemma prepare_build_ok:
  assumes "prepare_build iter mlen gen request = Inr (docs, manifest)"
  shows "index_manifest_validate manifest = Inr ()" "version_id manifest = bi_version_id request"
    "bi_version_id request \<noteq> 0" "document_count manifest = of_nat (length docs)"
    "embedding_dim manifest = bi_embedding_dim request"
    "\<exists>snapshot. materialize_latest_snapshot iter mlen (bi_records request) = Inr snapshot \<and>
       map doc_id docs = map doc_id snapshot"
    "d \<in> set docs \<Longrightarrow> document_validate mlen d = Inr () \<and>
       (\<exists>e. doc_embedding d = Some e \<and> length e = bi_embedding_dim request)"
proof -
  obtain snapshot where *: "bi_version_id request \<noteq> 0"
    "materialize_latest_snapshot iter mlen (bi_records request) = Inr snapshot"
    "try_map (embed_document gen mlen (bi_embedding_dim request)) snapshot = Inr docs"
    "build_manifest request (length docs) = Inr manifest"
    using assms by (auto simp: prepare_build_def result_simps split: if_splits)
  show "index_manifest_validate manifest = Inr ()" "version_id manifest = bi_version_id request"
    "bi_version_id request \<noteq> 0" "document_count manifest = of_nat (length docs)"
    "embedding_dim manifest = bi_embedding_dim request"
    using *(1) build_manifest_ok [OF *(4)] by simp_all
  show "\<exists>snapshot. materialize_latest_snapshot iter mlen (bi_records request) = Inr snapshot \<and>
       map doc_id docs = map doc_id snapshot"
    using *(2) try_map_embed_ids [OF *(3)] by (intro exI [of _ snapshot] conjI)
  assume "d \<in> set docs"
  then obtain d0 where "embed_document gen mlen (bi_embedding_dim request) d0 = Inr d"
    using *(3) unfolding try_map_Inr_iff by (auto simp: in_set_conv_nth list_all2_conv_all_nth)
  note d = embed_document_ok(2,3) [OF this]
  obtain e where "doc_embedding d = Some e" "length e = bi_embedding_dim request"
    using d(2) by (elim exE conjE)
  then show "document_validate mlen d = Inr () \<and>
      (\<exists>e. doc_embedding d = Some e \<and> length e = bi_embedding_dim request)"
    using d(1) by simp
qed

lemma build_index_Inr:
  assumes "build_index iter mlen os libs ser artifact_root pid nonce request fs = (Inr res, fs')"
  shows "prepare_build iter mlen (lib_embed libs) request = Inr (br_documents res, br_manifest res)"
  using assms unfolding build_index_def by (auto split: sum.splits prod.splits)

text \<open>What a document has become when it is indexed: itself, with an embedding of the requested dimension.\<close>

definition embedded :: "(string \<Rightarrow> string + f32 list) \<Rightarrow> nat \<Rightarrow> document \<Rightarrow> document \<Rightarrow> bool" where
  "embedded gen edim d d' \<longleftrightarrow>
     (case doc_embedding d of
        Some _ \<Rightarrow> d' = d
      | None \<Rightarrow> \<exists>e. gen (doc_text d) = Inr e \<and> d' = d\<lparr>doc_embedding := Some e\<rparr>) \<and>
     (\<exists>e. doc_embedding d' = Some e \<and> length e = edim)"

text \<open>The documents indexed are those of the latest state of a log, sorted by id, each with its embedding.\<close>

definition indexes_latest :: "(string \<Rightarrow> string + f32 list) \<Rightarrow> nat \<Rightarrow> wal_record list \<Rightarrow> document list \<Rightarrow> bool" where
  "indexes_latest gen edim records docs \<longleftrightarrow>
     sorted (map doc_id docs) \<and> distinct (map doc_id docs) \<and>
     (\<forall>i. i \<in> doc_id ` set docs \<longleftrightarrow> (\<exists>r. latest_record records i = Some r \<and> rec_op r = Upsert)) \<and>
     (\<forall>d' \<in> set docs. \<exists>r d. latest_record records (doc_id d') = Some r \<and> rec_op r = Upsert \<and>
        rec_document r = Some d \<and> embedded gen edim d d')"

lemma embed_document_embedded:
  assumes "embed_document gen mlen edim d = Inr d'"
  shows "embedded gen edim d d'"
  using assms embed_document_ok [OF assms]
  by (auto simp: embed_document_def embedded_def result_simps split: option.splits)

lemma prepared_latest:
  assumes iter: "\<forall>m. mset (iter m) = mset m"
    and p: "prepare_build iter mlen gen request = Inr (docs, manifest)"
  shows "indexes_latest gen (bi_embedding_dim request) (bi_records request) docs"
proof -
  obtain snapshot where *: "materialize_latest_snapshot iter mlen (bi_records request) = Inr snapshot"
    "try_map (embed_document gen mlen (bi_embedding_dim request)) snapshot = Inr docs"
    using p by (auto simp: prepare_build_def result_simps split: if_splits)
  note latest = snapshot_latest [OF iter *(1)]
  have in_snap: "d \<in> set snapshot \<longleftrightarrow>
      (\<exists>r. latest_record (bi_records request) (doc_id d) = Some r \<and> rec_op r = Upsert \<and> rec_document r = Some d)" for d
    using latest by blast
  have ids: "map doc_id docs = map doc_id snapshot"
    by (rule try_map_embed_ids [OF *(2)])
  have own: "rec_document r \<noteq> None" if "latest_record (bi_records request) i = Some r" "rec_op r = Upsert" for r i
    using *(1) latest_record_Some(1) [OF that(1)] that(2)
    by (fastforce simp: materialize_ok wal_record_validate_ok)
  have doc: "doc_id d = i" if "latest_record (bi_records request) i = Some r" "rec_op r = Upsert" "rec_document r = Some d" for r i d
    using *(1) latest_record_Some(1,2) [OF that(1)] that(2,3) live_document_id [of mlen r d]
    by (auto simp: materialize_ok live_document_eq)
  have "i \<in> doc_id ` set docs \<longleftrightarrow> (\<exists>r. latest_record (bi_records request) i = Some r \<and> rec_op r = Upsert)" for i
  proof -
    have "doc_id ` set docs = doc_id ` set snapshot"
      using arg_cong [OF ids, of set] by simp
    show ?thesis
    proof
      assume "i \<in> doc_id ` set docs"
      then obtain d where "d \<in> set snapshot" "doc_id d = i"
        unfolding \<open>doc_id ` set docs = doc_id ` set snapshot\<close> by blast
      then show "\<exists>r. latest_record (bi_records request) i = Some r \<and> rec_op r = Upsert"
        using in_snap by blast
    next
      assume "\<exists>r. latest_record (bi_records request) i = Some r \<and> rec_op r = Upsert"
      then obtain r d where r: "latest_record (bi_records request) i = Some r" "rec_op r = Upsert" "rec_document r = Some d"
        using own by blast
      from doc [OF this] have i: "doc_id d = i" .
      then have "d \<in> set snapshot"
        using in_snap r by blast
      then show "i \<in> doc_id ` set docs"
        unfolding \<open>doc_id ` set docs = doc_id ` set snapshot\<close> using i by blast
    qed
  qed
  moreover have "\<exists>r d. latest_record (bi_records request) (doc_id d') = Some r \<and> rec_op r = Upsert \<and>
      rec_document r = Some d \<and> embedded gen (bi_embedding_dim request) d d'" if "d' \<in> set docs" for d'
  proof -
    obtain k where k: "k < length docs" "d' = docs ! k"
      using \<open>d' \<in> set docs\<close> by (auto simp: in_set_conv_nth)
    have len: "length snapshot = length docs"
      using arg_cong [OF ids, of length] by simp
    have "embed_document gen mlen (bi_embedding_dim request) (snapshot ! k) = Inr d'"
      using *(2) k unfolding try_map_Inr_iff by (simp add: list_all2_conv_all_nth)
    moreover have "doc_id (snapshot ! k) = doc_id d'" "snapshot ! k \<in> set snapshot"
      using ids k len by (metis nth_map, simp)
    ultimately show ?thesis
      using in_snap [of "snapshot ! k"] embed_document_embedded by auto
  qed
  ultimately show ?thesis
    using latest ids unfolding indexes_latest_def by simp
qed

text \<open>
  A build that succeeds yields a manifest that satisfies the validator, carries the
  requested version and counts the documents it indexed; these are exactly the ids of the
  latest snapshot, each document valid and with an embedding of the requested dimension.
\<close>

theorem build_is_consistent:
  assumes "build_index iter mlen os libs ser artifact_root pid nonce request fs = (Inr res, fs')"
  shows "index_manifest_validate (br_manifest res) = Inr () \<and>
    version_id (br_manifest res) = bi_version_id request \<and> bi_version_id request \<noteq> 0 \<and>
    document_count (br_manifest res) = of_nat (length (br_documents res)) \<and>
    (\<exists>snapshot. materialize_latest_snapshot iter mlen (bi_records request) = Inr snapshot \<and>
       map doc_id (br_documents res) = map doc_id snapshot) \<and>
    (\<forall>d \<in> set (br_documents res). document_validate mlen d = Inr () \<and>
       (\<exists>e. doc_embedding d = Some e \<and> length e = bi_embedding_dim request))"
  using prepare_build_ok [OF build_index_Inr [OF assms]] by blast

definition calm_os :: "unit os_ops" where
  "calm_os = \<lparr>os_is_dir = (\<lambda>_ _. False), os_exists = (\<lambda>_ _. False), os_read_dir = (\<lambda>_ _. Inr []),
     os_create_dir_all = (\<lambda>_ f. (Inr (), f)), os_copy = (\<lambda>_ _ f. (Inr (), f)),
     os_read = (\<lambda>_ _. Inl NotFound), os_write = (\<lambda>_ _ f. (Inr (), f)),
     os_rename = (\<lambda>_ _ f. (Inr (), f)), os_remove_dir_all = (\<lambda>_ f. (Inr (), f)), os_remove_file = (\<lambda>_ f. (Inr (), f))\<rparr>"

definition calm_libs :: "unit build_libs" where
  "calm_libs = \<lparr>lib_write_lance = (\<lambda>_ _ _ f. (Inr (), f)), lib_write_keyword = (\<lambda>_ _ f. (Inr (), f)),
     lib_embed = (\<lambda>_. Inr [0, 0]), lib_before_publish = None\<rparr>"

definition sample_build_request :: build_index_request where
  "sample_build_request = \<lparr>bi_version_id = 3, bi_created_at = 1700000000005, bi_embedding_dim = 2,
     bi_records = sample_log\<rparr>"

definition sample_build :: "(index_error + build_index_result) \<times> unit" where
  "sample_build = build_index (\<lambda>m. m) (\<lambda>_. Some 2) calm_os calm_libs (\<lambda>_. Inr []) ''/a'' 1 2 sample_build_request ()"

definition sample_build_result :: build_index_result where
  "sample_build_result = (case fst sample_build of Inr r \<Rightarrow> r | Inl _ \<Rightarrow> \<lparr>br_manifest = sample_manifest 0, br_documents = []\<rparr>)"

lemma sample_build_ok: "sample_build = (Inr sample_build_result, ())"
  by code_simp

lemma build_is_consistent_witness:
  "index_manifest_validate (br_manifest sample_build_result) = Inr () \<and>
   version_id (br_manifest sample_build_result) = bi_version_id sample_build_request"
  using build_is_consistent [OF sample_build_ok [unfolded sample_build_def]] by blast


subsection \<open>A version that was staged cannot be built again\<close>

text \<open>
  The guard against overwriting: when an artifact of the version is in place, the build
  fails. The one effect before the guard is the staging directory, which the operating
  system creates without removing anything.
\<close>

lemma build_target_exists:
  assumes create: "\<And>q r fs1. os_create_dir_all os q fs = (r, fs1) \<Longrightarrow> os_exists os p fs1"
    and p: "p = path_join artifact_root (lance_dir_key (bi_version_id request))"
  shows "\<exists>e fs'. build_index iter mlen os libs ser artifact_root pid nonce request fs = (Inl e, fs')"
proof (cases "prepare_build iter mlen (lib_embed libs) request")
  case (Inl e)
  then show ?thesis
    by (simp add: build_index_def)
next
  case (Inr dm)
  obtain docs manifest where dm: "dm = (docs, manifest)"
    by (cases dm)
  have "\<exists>e fs'. stage_build os libs ser artifact_root pid nonce (bi_version_id request) docs manifest fs = (Inl e, fs')"
  proof (cases "staged_build_new os artifact_root pid nonce (bi_version_id request) fs")
    case (Pair r fs1)
    show ?thesis
    proof (cases r)
      case (Inl e)
      then show ?thesis
        using Pair by (simp add: stage_build_def)
    next
      case (Inr sb)
      have "final_lance_dir sb = p"
        using Pair Inr p
        by (auto simp: staged_build_new_def map_prod_def result_simps split: prod.splits)
      moreover have "os_exists os p fs1"
        using Pair Inr create
        by (auto simp: staged_build_new_def staged_create_def Let_def map_prod_def split: prod.splits sum.splits)
      ultimately have "write_staged_build os libs ser sb docs manifest fs1 =
          (Inl (IndexOperation (msg [''publish target already exists: '', p])), fs1)"
        by (simp add: write_staged_build_def ensure_target_is_publishable_def)
      then show ?thesis
        using Pair Inr by (auto simp: stage_build_def split: prod.splits)
    qed
  qed
  then show ?thesis
    using Inr dm by (auto simp: build_index_def)
qed


subsection \<open>Committing a staged build rolls back\<close>

text \<open>
  What the rollback needs of the operating system: removing a path removes it and creates
  nothing, creating a directory creates nothing but it and its ancestors, renaming creates
  nothing but the destination and what is below it, and a rename that fails creates nothing.
\<close>

definition below :: "string \<Rightarrow> string \<Rightarrow> bool" where
  "below p q \<longleftrightarrow> q = p \<or> (\<exists>t. q = p @ CHR ''/'' # t)"

definition os_posix :: "'f os_ops \<Rightarrow> bool" where
  "os_posix os \<longleftrightarrow>
     (\<forall>p fs. is_ok (fst (os_remove_dir_all os p fs)) \<longrightarrow> \<not> os_exists os p (snd (os_remove_dir_all os p fs))) \<and>
     (\<forall>p fs. is_ok (fst (os_remove_file os p fs)) \<longrightarrow> \<not> os_exists os p (snd (os_remove_file os p fs))) \<and>
     (\<forall>p q fs. os_exists os q (snd (os_remove_dir_all os p fs)) \<longrightarrow> os_exists os q fs) \<and>
     (\<forall>p q fs. os_exists os q (snd (os_remove_file os p fs)) \<longrightarrow> os_exists os q fs) \<and>
     (\<forall>p q fs. os_exists os q (snd (os_create_dir_all os p fs)) \<longrightarrow> os_exists os q fs \<or> below q p) \<and>
     (\<forall>p q d fs. os_exists os q (snd (os_rename os p d fs)) \<longrightarrow>
        os_exists os q fs \<or> is_ok (fst (os_rename os p d fs)) \<and> below d q)"

lemma os_posixD:
  assumes "os_posix os"
  shows "is_ok (fst (os_remove_dir_all os p fs)) \<Longrightarrow> \<not> os_exists os p (snd (os_remove_dir_all os p fs))"
    "is_ok (fst (os_remove_file os p fs)) \<Longrightarrow> \<not> os_exists os p (snd (os_remove_file os p fs))"
    "os_exists os q (snd (os_remove_dir_all os p fs)) \<Longrightarrow> os_exists os q fs"
    "os_exists os q (snd (os_remove_file os p fs)) \<Longrightarrow> os_exists os q fs"
    "os_exists os q (snd (os_create_dir_all os p fs)) \<Longrightarrow> os_exists os q fs \<or> below q p"
    "os_exists os q (snd (os_rename os p d fs)) \<Longrightarrow> os_exists os q fs \<or> is_ok (fst (os_rename os p d fs)) \<and> below d q"
proof -
  note os = assms [unfolded os_posix_def]
  note os1 = os [THEN conjunct2]
  note os2 = os1 [THEN conjunct2]
  note os3 = os2 [THEN conjunct2]
  note os4 = os3 [THEN conjunct2]
  show "is_ok (fst (os_remove_dir_all os p fs)) \<Longrightarrow> \<not> os_exists os p (snd (os_remove_dir_all os p fs))"
    by (rule os [THEN conjunct1, rule_format])
  show "is_ok (fst (os_remove_file os p fs)) \<Longrightarrow> \<not> os_exists os p (snd (os_remove_file os p fs))"
    by (rule os1 [THEN conjunct1, rule_format])
  show "os_exists os q (snd (os_remove_dir_all os p fs)) \<Longrightarrow> os_exists os q fs"
    by (rule os2 [THEN conjunct1, rule_format])
  show "os_exists os q (snd (os_remove_file os p fs)) \<Longrightarrow> os_exists os q fs"
    by (rule os3 [THEN conjunct1, rule_format])
  show "os_exists os q (snd (os_create_dir_all os p fs)) \<Longrightarrow> os_exists os q fs \<or> below q p"
    by (rule os4 [THEN conjunct1, rule_format])
  show "os_exists os q (snd (os_rename os p d fs)) \<Longrightarrow> os_exists os q fs \<or> is_ok (fst (os_rename os p d fs)) \<and> below d q"
    by (rule os4 [THEN conjunct2, rule_format])
qed

lemma remove_path_gone:
  assumes "os_posix os" "remove_path_if_exists os p fs = (Inr u, fs')"
  shows "\<not> os_exists os p fs'"
  using assms(2) os_posixD(1,2) [OF assms(1), of p fs]
  by (cases "os_remove_dir_all os p fs"; cases "os_remove_file os p fs")
    (auto simp: remove_path_if_exists_def split: if_splits sum.splits)

lemma remove_path_shrinks:
  assumes "os_posix os" "remove_path_if_exists os p fs = (r, fs')" "os_exists os q fs'"
  shows "os_exists os q fs"
  using assms(2,3) os_posixD(3,4) [OF assms(1), of q p fs]
  by (cases "os_remove_dir_all os p fs"; cases "os_remove_file os p fs")
    (auto simp: remove_path_if_exists_def split: if_splits sum.splits)

lemma remove_dir_shrinks:
  assumes "os_posix os" "remove_dir_all_if_exists os p fs = (r, fs')" "os_exists os q fs'"
  shows "os_exists os q fs"
  using assms(2,3) os_posixD(3) [OF assms(1), of q p fs]
  by (cases "os_remove_dir_all os p fs") (auto simp: remove_dir_all_if_exists_def split: if_splits sum.splits)

lemma remove_dir_gone:
  assumes "os_posix os" "remove_dir_all_if_exists os p fs = (Inr u, fs')"
  shows "\<not> os_exists os p fs'"
  using assms(2) os_posixD(1) [OF assms(1), of p fs]
  by (cases "os_remove_dir_all os p fs") (auto simp: remove_dir_all_if_exists_def split: if_splits sum.splits)

lemma move_into_place_creates:
  assumes os: "os_posix os" and m: "move_into_place os source d fs = (r, fs')" and q: "os_exists os q fs'"
    and up: "\<forall>p. path_parent d = Some p \<longrightarrow> \<not> below q p"
  shows "os_exists os q fs \<or> is_ok r \<and> below d q"
proof (cases "path_parent d")
  case None
  then show ?thesis
    using m q by (simp add: move_into_place_def)
next
  case (Some p)
  obtain r1 fs1 where 1: "os_create_dir_all os p fs = (r1, fs1)"
    by (cases "os_create_dir_all os p fs")
  obtain r2 fs2 where 2: "os_rename os source d fs1 = (r2, fs2)"
    by (cases "os_rename os source d fs1")
  have c: "os_exists os q fs1 \<Longrightarrow> os_exists os q fs"
    using os_posixD(5) [OF os, of q p fs] up 1 Some by simp
  have n: "os_exists os q fs2 \<Longrightarrow> os_exists os q fs1 \<or> is_ok r2 \<and> below d q"
    using os_posixD(6) [OF os, of q source d fs1] 2 by simp
  show ?thesis
    using m q c n Some 1 2 by (auto simp: move_into_place_def split: sum.splits)
qed

lemma cleanup_moved_shrinks:
  "os_posix os \<Longrightarrow> cleanup_moved os ds fs = (rs, fs') \<Longrightarrow> os_exists os q fs' \<Longrightarrow> os_exists os q fs"
proof (induction ds arbitrary: fs rs)
  case (Cons d ds)
  obtain r fs1 rs1 where "remove_path_if_exists os d fs = (r, fs1)" "cleanup_moved os ds fs1 = (rs1, fs')"
    using Cons.prems(2) by (auto split: prod.splits)
  then show ?case
    using Cons.IH Cons.prems(1,3) remove_path_shrinks by metis
qed simp

lemma cleanup_moved_gone:
  assumes "os_posix os" "cleanup_moved os ds fs = (rs, fs')" "\<forall>r \<in> set rs. is_ok r" "d \<in> set ds"
  shows "\<not> os_exists os d fs'"
  using assms(2-4)
proof (induction ds arbitrary: fs rs)
  case (Cons d' ds)
  obtain r fs1 rs1 where *: "remove_path_if_exists os d' fs = (r, fs1)" "cleanup_moved os ds fs1 = (rs1, fs')"
    "rs = r # rs1"
    using Cons.prems(1) by (auto split: prod.splits)
  show ?case
  proof (cases "d = d'")
    case True
    obtain u where "r = Inr u"
      using Cons.prems(2) *(3) by (auto simp: is_ok_iff)
    then show ?thesis
      using remove_path_gone [OF assms(1)] cleanup_moved_shrinks [OF assms(1) *(2)] *(1) True by blast
  next
    case False
    then show ?thesis
      using Cons.IH [OF *(2)] Cons.prems(2,3) *(3) by simp
  qed
qed simp

lemma combine_ok_iff: "combine_cleanup_results rs = Inr () \<longleftrightarrow> (\<forall>r \<in> set rs. is_ok r)"
proof -
  have "List.map_filter (\<lambda>r. case r of Inl e \<Rightarrow> Some (show_index_error e) | Inr _ \<Rightarrow> None) rs = [] \<longleftrightarrow> (\<forall>r \<in> set rs. is_ok r)"
    by (induction rs) (auto simp: List.map_filter_simps split: sum.splits)
  then show ?thesis
    by (simp add: combine_cleanup_results_def Let_def)
qed

text \<open>The destinations of one commit do not lie above or below each other.\<close>

definition independent :: "string list \<Rightarrow> bool" where
  "independent ds \<longleftrightarrow> (\<forall>d \<in> set ds. \<forall>d' \<in> set ds.
     (d \<noteq> d' \<longrightarrow> \<not> below d d') \<and> (\<forall>p. path_parent d = Some p \<longrightarrow> \<not> below d' p))"

lemma independentD:
  "independent ds \<Longrightarrow> d \<in> set ds \<Longrightarrow> q \<in> set ds \<Longrightarrow>
    (d \<noteq> q \<longrightarrow> \<not> below d q) \<and> (\<forall>p. path_parent d = Some p \<longrightarrow> \<not> below q p)"
  by (simp add: independent_def)

text \<open>The file system after every move of a list has succeeded.\<close>

fun all_moved :: "'f os_ops \<Rightarrow> (string \<times> string) list \<Rightarrow> 'f \<Rightarrow> 'f option" where
  "all_moved os [] fs = Some fs"
| "all_moved os ((source, d) # moves) fs =
     (case move_into_place os source d fs of (Inl _, _) \<Rightarrow> None | (Inr _, fs1) \<Rightarrow> all_moved os moves fs1)"

lemma all_moved_snoc:
  "all_moved os (moves @ [(source, d)]) fs =
     (case all_moved os moves fs of None \<Rightarrow> None
      | Some fs1 \<Rightarrow> (case move_into_place os source d fs1 of (Inl _, _) \<Rightarrow> None | (Inr _, fs2) \<Rightarrow> Some fs2))"
  by (induction os moves fs rule: all_moved.induct) (auto split: prod.splits sum.splits)

text \<open>
  How a commit that failed with \<open>e\<close> may leave things: nothing of it is there; or a move failed and
  the removal of what had been moved, or of the staging directory, failed too, which the error
  says; or every move succeeded and the removal of the staging directory alone failed.
\<close>

definition commit_outcome :: "'f os_ops \<Rightarrow> string \<Rightarrow> (string \<times> string) list \<Rightarrow> 'f \<Rightarrow> index_error \<Rightarrow> 'f \<Rightarrow> bool" where
  "commit_outcome os staged moves fs e fs' \<longleftrightarrow>
     (\<forall>d \<in> set (map snd moves). \<not> os_exists os d fs') \<and> \<not> os_exists os staged fs' \<or>
     (\<exists>pre source d post fs1 cause fs2 rs fs3 r c.
        moves = pre @ (source, d) # post \<and> all_moved os pre fs = Some fs1 \<and>
        move_into_place os source d fs1 = (Inl cause, fs2) \<and>
        cleanup_moved os (map snd pre) fs2 = (rs, fs3) \<and> remove_dir_all_if_exists os staged fs3 = (r, fs') \<and>
        (\<exists>x \<in> set (rs @ [r]). \<not> is_ok x) \<and>
        e = IndexOperation (msg [show_index_error cause, ''; cleanup failed: '', show_index_error c])) \<or>
     (\<exists>fs1. all_moved os moves fs = Some fs1 \<and> remove_dir_all_if_exists os staged fs1 = (Inl e, fs'))"

lemma commit_moves_rolls_back:
  assumes os: "os_posix os" and ds: "independent (map snd (pre @ moves))"
    and pre: "all_moved os pre fs0 = Some fs"
    and free: "\<forall>d \<in> set (map snd (pre @ moves)) - set (map snd pre). \<not> os_exists os d fs"
    and fails: "commit_moves os staged (map snd pre) moves fs = (Inl e, fs')"
  shows "commit_outcome os staged (pre @ moves) fs0 e fs'"
  using ds pre free fails
proof (induction moves arbitrary: pre fs)
  case Nil
  then show ?case
    by (auto simp: commit_outcome_def)
next
  case (Cons m moves)
  obtain source d where m: "m = (source, d)"
    by (cases m)
  obtain r fs1 where 1: "move_into_place os source d fs = (r, fs1)"
    by (cases "move_into_place os source d fs")
  let ?ds = "map snd (pre @ m # moves)" and ?moved = "map snd pre"
  have d: "d \<in> set ?ds"
    using m by simp
  have free1: "\<not> os_exists os q fs1" if "q \<in> set ?ds - set ?moved" "is_ok r \<longrightarrow> q \<noteq> d" for q
  proof
    assume q: "os_exists os q fs1"
    have "\<forall>p. path_parent d = Some p \<longrightarrow> \<not> below q p" "q \<noteq> d \<longrightarrow> \<not> below d q"
      using independentD [OF Cons.prems(1) d DiffD1 [OF that(1)]] by blast+
    moreover have "\<not> os_exists os q fs"
      using Cons.prems(3) that(1) by blast
    ultimately show False
      using move_into_place_creates [OF os 1 q] that(2) by (cases "q = d") simp_all
  qed
  show ?case
  proof (cases r)
    case (Inr u)
    have rest: "commit_moves os staged (map snd (pre @ [m])) moves fs1 = (Inl e, fs')"
      using Cons.prems(4) 1 m Inr by simp
    have "commit_outcome os staged ((pre @ [m]) @ moves) fs0 e fs'"
      by (rule Cons.IH [OF _ _ _ rest]) (use Cons.prems(1,2) free1 1 m Inr in \<open>auto simp: all_moved_snoc\<close>)
    then show ?thesis
      by simp
  next
    case (Inl cause)
    obtain rs fs2 where 2: "cleanup_moved os ?moved fs1 = (rs, fs2)"
      by (cases "cleanup_moved os ?moved fs1")
    obtain r3 fs3 where 3: "remove_dir_all_if_exists os staged fs2 = (r3, fs3)"
      by (cases "remove_dir_all_if_exists os staged fs2")
    have e: "e = append_cleanup_failure cause (combine_cleanup_results (rs @ [r3]))" "fs' = fs3"
      using Cons.prems(4) 1 2 3 m Inl by auto
    show ?thesis
    proof (cases "combine_cleanup_results (rs @ [r3])")
      case (Inl c)
      then have "\<exists>x \<in> set (rs @ [r3]). \<not> is_ok x"
        using combine_ok_iff [of "rs @ [r3]"] by auto
      moreover have "e = IndexOperation (msg [show_index_error cause, ''; cleanup failed: '', show_index_error c])"
        using e Inl by (simp add: append_cleanup_failure_def)
      ultimately show ?thesis
        unfolding commit_outcome_def
        using 1 [unfolded \<open>r = Inl cause\<close>] 2 3 [folded e(2)] Cons.prems(2) m by blast
    next
      case (Inr u)
      then have ok: "\<forall>x \<in> set rs. is_ok x" "is_ok r3"
        using combine_ok_iff [of "rs @ [r3]"] by auto
      have "\<not> os_exists os q fs3" if "q \<in> set ?ds" for q
      proof (cases "q \<in> set ?moved")
        case True
        then show ?thesis
          using cleanup_moved_gone [OF os 2 ok(1)] remove_dir_shrinks [OF os 3] by blast
      next
        case False
        then show ?thesis
          using free1 [of q] that Inl \<open>r = Inl cause\<close> cleanup_moved_shrinks [OF os 2] remove_dir_shrinks [OF os 3]
          by auto
      qed
      moreover have "\<not> os_exists os staged fs3"
        using remove_dir_gone [OF os] 3 ok(2) by (auto simp: is_ok_iff)
      ultimately show ?thesis
        using e unfolding commit_outcome_def by blast
    qed
  qed
qed

definition staged_moves :: "staged_build \<Rightarrow> (string \<times> string) list" where
  "staged_moves sb = [(staged_lance_dir sb, final_lance_dir sb), (staged_index_dir sb, final_index_dir sb),
     (staged_manifest_path sb, final_manifest_path sb)]"

text \<open>
  C8. Publishing a staged build fails as a whole: starting where none of the three destinations
  exists, a failed commit leaves none of them and no staging directory behind, unless a move failed
  and then its clean-up failed as well, which the error reports, or all three artifacts were moved
  and only the emptied staging directory could not be removed. The three destinations do not lie
  above or below each other, and the operating system creates and removes no more than it is asked to.
\<close>

theorem staged_publish_rolls_back:
  assumes "os_posix os" "lib_before_publish libs = None"
    and "independent [final_lance_dir sb, final_index_dir sb, final_manifest_path sb]"
    and "\<forall>d \<in> {final_lance_dir sb, final_index_dir sb, final_manifest_path sb}. \<not> os_exists os d fs"
    and "publish_staged_build os libs sb fs = (Inl e, fs')"
  shows "commit_outcome os (sb_dir sb) (staged_moves sb) fs e fs'"
proof -
  have "commit_moves os (sb_dir sb) (map snd []) (staged_moves sb) fs = (Inl e, fs')"
    using assms(5) by (simp add: publish_staged_build_def assms(2) staged_moves_def del: commit_moves.simps)
  then show ?thesis
    using commit_moves_rolls_back [OF assms(1), of "[]" "staged_moves sb" fs fs] assms(3,4)
    by (simp add: staged_moves_def)
qed

text \<open>A file tree given by the list of its paths, whose renames to \<^verbatim>\<open>/b\<close> fail.\<close>

definition below_exec :: "string \<Rightarrow> string \<Rightarrow> bool" where
  "below_exec p q \<longleftrightarrow> q = p \<or> take (Suc (length p)) q = p @ ''/''"

lemma below_exec: "below_exec p q \<longleftrightarrow> below p q"
proof -
  have "(\<exists>t. q = p @ CHR ''/'' # t) \<longleftrightarrow> take (Suc (length p)) q = p @ ''/''"
  proof
    assume "take (Suc (length p)) q = p @ ''/''"
    then have "q = (p @ ''/'') @ drop (Suc (length p)) q"
      by (metis append_take_drop_id)
    then show "\<exists>t. q = p @ CHR ''/'' # t"
      by (metis append.assoc append_Cons append_Nil)
  qed auto
  then show ?thesis
    by (simp add: below_exec_def below_def)
qed

definition tree_os :: "string list os_ops" where
  "tree_os = \<lparr>os_is_dir = (\<lambda>_ _. True), os_exists = (\<lambda>p f. p \<in> set f), os_read_dir = (\<lambda>_ _. Inr []),
     os_create_dir_all = (\<lambda>p f. (Inr (), p # f)), os_copy = (\<lambda>_ _ f. (Inr (), f)),
     os_read = (\<lambda>_ _. Inl NotFound), os_write = (\<lambda>_ _ f. (Inr (), f)),
     os_rename = (\<lambda>s d f. if d = ''/b'' then (Inl ''EIO'', f) else (Inr (), d # filter (\<lambda>q. \<not> below_exec s q) f)),
     os_remove_dir_all = (\<lambda>p f. (Inr (), filter (\<lambda>q. \<not> below_exec p q) f)),
     os_remove_file = (\<lambda>p f. (Inr (), filter (\<lambda>q. \<not> below_exec p q) f))\<rparr>"

lemma tree_os_posix: "os_posix tree_os"
  by (auto simp: os_posix_def tree_os_def below_exec below_def)

definition sample_staged :: staged_build where
  "sample_staged = \<lparr>sb_dir = ''/s'', staged_lance_dir = ''/s/a'', staged_index_dir = ''/s/b'',
     staged_manifest_path = ''/s/c'', final_lance_dir = ''/a'', final_index_dir = ''/b'', final_manifest_path = ''/c''\<rparr>"

definition tree_libs :: "string list build_libs" where
  "tree_libs = \<lparr>lib_write_lance = (\<lambda>_ _ _ f. (Inr (), f)), lib_write_keyword = (\<lambda>_ _ f. (Inr (), f)),
     lib_embed = (\<lambda>_. Inr [0, 0]), lib_before_publish = None\<rparr>"

lemma staged_publish_rolls_back_witness:
  "\<exists>e fs'. publish_staged_build tree_os tree_libs sample_staged [''/s'', ''/s/a''] = (Inl e, fs') \<and>
     commit_outcome tree_os ''/s'' (staged_moves sample_staged) [''/s'', ''/s/a''] e fs'"
proof -
  obtain e fs' where p: "publish_staged_build tree_os tree_libs sample_staged [''/s'', ''/s/a''] = (Inl e, fs')"
    and "is_ok (fst (publish_staged_build tree_os tree_libs sample_staged [''/s'', ''/s/a''])) = False"
  proof -
    have "is_ok (fst (publish_staged_build tree_os tree_libs sample_staged [''/s'', ''/s/a''])) = False"
      by code_simp
    then show ?thesis
      using that by (cases "publish_staged_build tree_os tree_libs sample_staged [''/s'', ''/s/a'']"; cases "fst (publish_staged_build tree_os tree_libs sample_staged [''/s'', ''/s/a''])") auto
  qed
  have par: "path_parent ''/a'' = Some ''/''" "path_parent ''/b'' = Some ''/''" "path_parent ''/c'' = Some ''/''"
    by code_simp+
  have "independent [''/a'', ''/b'', ''/c'']"
    by (simp add: independent_def par below_def)
  then show ?thesis
    using staged_publish_rolls_back [OF tree_os_posix, of tree_libs sample_staged "[''/s'', ''/s/a'']" e fs'] p
    by (auto simp: sample_staged_def tree_libs_def tree_os_def)
qed

end
