(* ===== verification/Sqlite_Queue.thy ===== *)
theory Sqlite_Queue
  imports Write_Api Sqlite_Wal
begin

text \<open>
  The build queue on the shared database (\<^verbatim>\<open>src/local/sqlite/queue.rs\<close>,
  \<^verbatim>\<open>src/contracts.rs\<close>): enqueueing, the atomic write of a segment with its job, claiming
  with fresh tokens and leases, acknowledgement, retry with backoff and dead letters.  The
  clock value and the random tokens of a call are arguments.
\<close>


section \<open>Producing jobs\<close>

definition DEFAULT_MAX_ATTEMPTS :: nat where "DEFAULT_MAX_ATTEMPTS = 3"
definition DEFAULT_LEASE_MS :: int where "DEFAULT_LEASE_MS = 300000"
definition DEFAULT_BACKOFF_MS :: int where "DEFAULT_BACKOFF_MS = 1000"

text \<open>\<open>var\<close> is the environment variable, \<^term>\<open>None\<close> when it is unset or not UTF-8.\<close>

definition max_attempts_from_env :: "string option \<Rightarrow> nat" where
  "max_attempts_from_env var =
     (case Option.bind var (\<lambda>v. parse_u32 (str_trim v)) of
        Some n \<Rightarrow> if 1 \<le> n then n else DEFAULT_MAX_ATTEMPTS
      | None \<Rightarrow> DEFAULT_MAX_ATTEMPTS)"

text \<open>
  The upsert of a job row; on conflict it resets the columns it names and keeps the claim
  token. \<open>js\<close> is the JSON serialiser.
\<close>

definition upsert_job :: "string \<Rightarrow> string \<Rightarrow> (string, job_row) hmap \<Rightarrow> (string, job_row) hmap" where
  "upsert_job batch_id body jobs =
     hm_insert batch_id
       (case hm_get jobs batch_id of
          None \<Rightarrow> \<lparr>job_body = body, job_state = Ready, job_attempts = 0, job_available_at = 0,
                  job_claimed_at = None, job_claim_token = None\<rparr>
        | Some row \<Rightarrow> row\<lparr>job_body := body, job_state := Ready, job_attempts := 0, job_available_at := 0,
                  job_claimed_at := None\<rparr>) jobs"

definition insert_build_job ::
  "(queue_batch \<Rightarrow> string option) \<Rightarrow> sql_faults \<Rightarrow> nat \<Rightarrow> queue_batch \<Rightarrow> db \<Rightarrow> string + db" where
  "insert_build_job js flt n batch s =
     (let body = (case js batch of None \<Rightarrow> [] | Some b \<Rightarrow> b)
      in sql flt n (s\<lparr>build_jobs := upsert_job (qb_batch_id batch) body (build_jobs s)\<rparr>))"

definition sqlite_enqueue ::
  "(queue_batch \<Rightarrow> string option) \<Rightarrow> sql_faults \<Rightarrow> queue_batch \<Rightarrow> db \<Rightarrow> (ingest_error + unit) \<times> db" where
  "sqlite_enqueue js flt batch s = in_tx
     (map_err (\<lambda>e. IngestOperation (msg [''failed to enqueue build job '', qb_batch_id batch, '': '', e]))
       (map_ok (\<lambda>s'. ((), s')) (insert_build_job js flt 0 batch s))) s"

text \<open>
  The log a caller hands to the queue: one on a database handle, or any other. Two handles
  are the same connection when they are equal.
\<close>

datatype wal_handle = SqliteWalHandle nat | OtherWal

definition shares_db :: "wal_handle \<Rightarrow> nat \<Rightarrow> bool" where
  "shares_db wal q = (case wal of SqliteWalHandle h \<Rightarrow> h = q | OtherWal \<Rightarrow> False)"

definition misconfigured_msg :: "string \<Rightarrow> string" where
  "misconfigured_msg batch_id = msg
     [''misconfigured local write path: SqliteBuildQueue::append_and_enqueue '',
      ''requires the WriteApi WAL to be a SqliteWalStorage sharing this queue's '',
      ''SqliteDb handle; construct both from one SqliteDb (batch_id='', batch_id, '')'']"

definition sqlite_append_and_enqueue ::
  "(queue_batch \<Rightarrow> string option) \<Rightarrow> sql_faults \<Rightarrow> wal_handle \<Rightarrow> nat \<Rightarrow>
   string \<Rightarrow> string \<Rightarrow> queue_batch \<Rightarrow> db \<Rightarrow> (ingest_error + unit) \<times> db" where
  "sqlite_append_and_enqueue js flt wal q wal_key wal_bytes batch s =
     (if \<not> shares_db wal q then (Inl (IngestOperation (misconfigured_msg (qb_batch_id batch))), s)
      else in_tx
        (and_then (map_err (op_err ''failed to open atomic write tx'') (sql flt 0 ())) (\<lambda>_.
         and_then (map_err (op_err (msg [''failed to append WAL '', wal_key, '' (atomic)'']))
           (append_wal_segment flt 1 wal_key wal_bytes s)) (\<lambda>s1.
         and_then (map_err (\<lambda>e. IngestOperation (msg [''failed to enqueue build job '', qb_batch_id batch,
             '' (atomic, wal_persisted=false): '', e])) (insert_build_job js flt 3 batch s1)) (\<lambda>s2.
         map_err (op_err (msg [''failed to commit atomic write '', qb_batch_id batch])) (sql flt 4 ((), s2)))))) s)"


section \<open>Consuming jobs\<close>

record build_job =
  job_receipt :: string
  bj_body :: string

record source_config =
  cfg_lease_ms :: int
  cfg_max_attempts :: nat
  cfg_base_backoff_ms :: int

definition default_source_config :: "string option \<Rightarrow> source_config" where
  "default_source_config var =
     \<lparr>cfg_lease_ms = DEFAULT_LEASE_MS, cfg_max_attempts = max_attempts_from_env var,
      cfg_base_backoff_ms = DEFAULT_BACKOFF_MS\<rparr>"

text \<open>\<^verbatim>\<open>UPDATE \<dots> WHERE\<close>: the rows of the table a condition selects are replaced.\<close>

definition update_where :: "(job_row \<Rightarrow> bool) \<Rightarrow> (string \<Rightarrow> job_row \<Rightarrow> job_row) \<Rightarrow>
    (string, job_row) hmap \<Rightarrow> (string, job_row) hmap" where
  "update_where P f jobs = map (\<lambda>(b, r). (b, if P r then f b r else r)) jobs"

definition lease_expired :: "int \<Rightarrow> job_row \<Rightarrow> bool" where
  "lease_expired deadline r =
     (job_state r = Claimed \<and> (case job_claimed_at r of None \<Rightarrow> False | Some t \<Rightarrow> t \<le> deadline))"

definition reclaim_expired :: "int \<Rightarrow> db \<Rightarrow> db" where
  "reclaim_expired deadline s = s\<lparr>build_jobs :=
     update_where (lease_expired deadline)
       (\<lambda>_ r. r\<lparr>job_state := Ready, job_claimed_at := None, job_claim_token := None\<rparr>) (build_jobs s)\<rparr>"

definition job_due :: "int \<Rightarrow> job_row \<Rightarrow> bool" where
  "job_due now r = (job_state r = Ready \<and> job_available_at r \<le> now)"

text \<open>\<open>rand b\<close> is the random token the statement generates for the row of batch \<open>b\<close>.\<close>

definition claim_due :: "(string \<Rightarrow> string) \<Rightarrow> int \<Rightarrow> db \<Rightarrow> build_job list \<times> db" where
  "claim_due rand now s =
     (map (\<lambda>(b, r). \<lparr>job_receipt = rand b, bj_body = job_body r\<rparr>)
        (filter (\<lambda>(b, r). job_due now r) (build_jobs s)),
      s\<lparr>build_jobs := update_where (job_due now)
        (\<lambda>b r. r\<lparr>job_state := Claimed, job_claimed_at := Some now, job_claim_token := Some (rand b)\<rparr>)
        (build_jobs s)\<rparr>)"

definition receive ::
  "source_config \<Rightarrow> sql_faults \<Rightarrow> (string \<Rightarrow> string) \<Rightarrow> int \<Rightarrow> db \<Rightarrow> (string + build_job list) \<times> db" where
  "receive cfg flt rand now s = in_tx
     (and_then (map_err (\<lambda>e. msg [''failed to open receive tx: '', e]) (sql flt 0 ())) (\<lambda>_.
      and_then (map_err (\<lambda>e. msg [''failed to reclaim expired leases: '', e])
        (sql flt 1 (reclaim_expired (now - cfg_lease_ms cfg) s))) (\<lambda>s1.
      and_then (map_err (\<lambda>e. msg [''failed to prepare claim: '', e]) (sql flt 2 ())) (\<lambda>_.
      and_then (map_err (\<lambda>e. msg [''failed to claim build jobs: '', e]) (sql flt 3 ())) (\<lambda>_.
      and_then (map_err (\<lambda>e. msg [''failed to read claimed job: '', e]) (sql flt 4 (claim_due rand now s1)))
      (\<lambda>(jobs, s2).
      map_err (\<lambda>e. msg [''failed to commit receive tx: '', e]) (sql flt 5 (jobs, s2)))))))) s"

definition holds_claim :: "string \<Rightarrow> job_row \<Rightarrow> bool" where
  "holds_claim token r = (job_claim_token r = Some token \<and> job_state r = Claimed)"

definition ack :: "sql_faults \<Rightarrow> build_job \<Rightarrow> db \<Rightarrow> (string + unit) \<times> db" where
  "ack flt job s = in_tx
     (map_err (\<lambda>e. msg [''failed to ack claim '', job_receipt job, '': '', e])
       (sql flt 0 ((), s\<lparr>build_jobs := filter (\<lambda>(_, r). \<not> holds_claim (job_receipt job) r) (build_jobs s)\<rparr>))) s"

text \<open>\<^verbatim>\<open>BuildJobSource::nack\<close>, the default of the trait.\<close>

definition default_nack :: "(build_job \<Rightarrow> 's \<Rightarrow> (string + unit) \<times> 's) \<Rightarrow> build_job \<Rightarrow> string \<Rightarrow> 's \<Rightarrow> (string + unit) \<times> 's" where
  "default_nack ack_op job error s = ack_op job s"

definition bury :: "string \<Rightarrow> job_row \<Rightarrow> int \<Rightarrow> string \<Rightarrow> int \<Rightarrow> db \<Rightarrow> db" where
  "bury b r attempts error now s = s\<lparr>dead_jobs := hm_insert b
     \<lparr>dead_body = job_body r, dead_attempts = attempts, dead_last_error = error, dead_died_at = now\<rparr> (dead_jobs s)\<rparr>"

definition delete_token :: "string \<Rightarrow> db \<Rightarrow> db" where
  "delete_token token s = s\<lparr>build_jobs := filter (\<lambda>(_, r). job_claim_token r \<noteq> Some token) (build_jobs s)\<rparr>"

definition requeue_token :: "string \<Rightarrow> int \<Rightarrow> int \<Rightarrow> db \<Rightarrow> db" where
  "requeue_token token attempts available_at s = s\<lparr>build_jobs :=
     update_where (\<lambda>r. job_claim_token r = Some token)
       (\<lambda>_ r. r\<lparr>job_state := Ready, job_attempts := attempts, job_available_at := available_at,
                job_claimed_at := None, job_claim_token := None\<rparr>) (build_jobs s)\<rparr>"

text \<open>The transaction of \<^verbatim>\<open>nack\<close>, up to its commit.\<close>

definition nack_tx ::
  "source_config \<Rightarrow> sql_faults \<Rightarrow> int \<Rightarrow> string \<Rightarrow> string \<Rightarrow> db \<Rightarrow> string + unit \<times> db" where
  "nack_tx cfg flt now token error s =
     and_then (map_err (\<lambda>e. msg [''failed to open nack tx: '', e]) (sql flt 0 ())) (\<lambda>_.
     and_then (map_err (\<lambda>e. msg [''failed to read claim '', token, '' for nack: '', e])
       (sql flt 1 (find (\<lambda>(_, r). holds_claim token r) (build_jobs s)))) (\<lambda>current.
     case current of
       None \<Rightarrow> map_err (\<lambda>e. msg [''failed to commit no-op nack: '', e]) (sql flt 2 ((), s))
     | Some (b, r) \<Rightarrow>
         (let new_attempts = job_attempts r + 1
          in and_then
            (if cfg_max_attempts cfg \<le> as_u32 new_attempts then
               and_then (map_err (\<lambda>e. msg [''failed to dead-letter job '', b, '': '', e])
                 (sql flt 3 (bury b r new_attempts error now s))) (\<lambda>s1.
               map_err (\<lambda>e. msg [''failed to remove dead job '', b, '': '', e])
                 (sql flt 4 (delete_token token s1)))
             else
               map_err (\<lambda>e. msg [''failed to requeue job '', b, '': '', e])
                 (sql flt 3 (requeue_token token new_attempts
                   (now + cfg_base_backoff_ms cfg * new_attempts) s)))
            (\<lambda>s2. map_err (\<lambda>e. msg [''failed to commit nack tx: '', e]) (sql flt 5 ((), s2))))))"

definition nack ::
  "source_config \<Rightarrow> sql_faults \<Rightarrow> int \<Rightarrow> build_job \<Rightarrow> string \<Rightarrow> db \<Rightarrow> (string + unit) \<times> db" where
  "nack cfg flt now job error s = in_tx (nack_tx cfg flt now (job_receipt job) error s) s"


section \<open>The combined write is atomic\<close>

lemma insert_build_job_Inr:
  "insert_build_job js flt n batch s = Inr s' \<Longrightarrow>
     s' = s\<lparr>build_jobs := upsert_job (qb_batch_id batch) (case js batch of None \<Rightarrow> [] | Some b \<Rightarrow> b) (build_jobs s)\<rparr>"
  by (auto simp: insert_build_job_def result_simps Let_def)

definition job_queued :: "(queue_batch \<Rightarrow> string option) \<Rightarrow> queue_batch \<Rightarrow> db \<Rightarrow> bool" where
  "job_queued js batch s =
     (\<exists>r \<in> set_option (hm_get (build_jobs s) (qb_batch_id batch)).
        job_state r = Ready \<and> job_attempts r = 0 \<and> job_available_at r = 0 \<and>
        job_body r = (case js batch of None \<Rightarrow> [] | Some b \<Rightarrow> b))"

lemma job_queued_upsert:
  "job_queued js batch (s\<lparr>build_jobs := upsert_job (qb_batch_id batch)
     (case js batch of None \<Rightarrow> [] | Some b \<Rightarrow> b) (build_jobs s')\<rparr>)"
  by (simp add: job_queued_def upsert_job_def split: option.splits)

lemma sqlite_append_and_enqueue_Inr:
  assumes "sqlite_append_and_enqueue js flt wal q k b batch s = (Inr x, s')"
  shows "shares_db wal q"
    and "s' = s\<lparr>wal_segments := hm_insert k
        ((case hm_get (wal_segments s) k of None \<Rightarrow> [] | Some d \<Rightarrow> d) @ b) (wal_segments s),
      build_jobs := upsert_job (qb_batch_id batch) (case js batch of None \<Rightarrow> [] | Some b \<Rightarrow> b) (build_jobs s)\<rparr>"
  using assms
  by (auto simp: sqlite_append_and_enqueue_def in_tx_Inr_iff result_simps
      dest!: append_wal_segment_Inr insert_build_job_Inr split: if_splits)

lemma sqlite_append_and_enqueue_Inl:
  "sqlite_append_and_enqueue js flt wal q k b batch s = (Inl e, s') \<Longrightarrow> s' = s"
  unfolding sqlite_append_and_enqueue_def by (auto dest: in_tx_Inl split: if_splits)

interpretation sqlite_write: atomic_write
  "sqlite_append_and_enqueue js flt wal q" "sqlite_wal_read no_faults" "job_queued js" for js flt wal q
proof
  fix k b batch and s s' :: db
  assume *: "sqlite_append_and_enqueue js flt wal q k b batch s = (Inr (), s')"
  note s' = sqlite_append_and_enqueue_Inr(2) [OF *]
  show "sqlite_wal_read no_faults k s' = Inr (segment_bytes (sqlite_wal_read no_faults) k s @ b)"
    by (auto simp: s' sqlite_wal_read_def segment_bytes_def ok_or_def split: option.splits)
  show "job_queued js batch s'"
    unfolding s' by (simp add: job_queued_def upsert_job_def split: option.splits)
next
  fix k b batch e and s s' :: db
  assume "sqlite_append_and_enqueue js flt wal q k b batch s = (Inl e, s')"
  then show "s' = s"
    by (rule sqlite_append_and_enqueue_Inl)
qed


text \<open>
  C3. Ingesting into the SQLite backend either fails and leaves the database as it was,
  or every document is valid and there are distinct event ids, one per document, such that the
  segment the response names is extended by exactly one line per document, in order, each the
  serialisation of the upsert record of that document with its event id, and a ready build job for
  the batch is queued. In particular no record whose serialisation fails is dropped: such a call fails.
\<close>

theorem ingest_all_or_nothing:
  "case ingest mlen ser (sqlite_append_and_enqueue js flt wal q) t uuid ds s of
     (Inl e, s') \<Rightarrow> s' = s
   | (Inr resp, s') \<Rightarrow>
       ds \<noteq> [] \<and> list_all (\<lambda>d. document_validate mlen d = Inr ()) ds \<and> 1000000000000 \<le> t \<and>
       wr_accepted_count resp = length ds \<and>
       length (wr_wal_event_ids resp) = length ds \<and> distinct (wr_wal_event_ids resp) \<and>
       segment_key t (wr_batch_id resp) = Inr (wr_wal_key resp) \<and>
       (\<exists>lines. list_all2 (\<lambda>(i, d) l. ser \<lparr>event_id = i, rec_doc_id = doc_id d, rec_op = Upsert,
              rec_document = Some d, rec_timestamp = t\<rparr> = Inr l)
            (zip (wr_wal_event_ids resp) ds) lines \<and>
          sqlite_wal_read no_faults (wr_wal_key resp) s' =
            Inr (segment_bytes (sqlite_wal_read no_faults) (wr_wal_key resp) s @ concat (map (\<lambda>l. l @ [LF]) lines))) \<and>
       job_queued js \<lparr>qb_batch_id = wr_batch_id resp, qb_wal_key = wr_wal_key resp,
         qb_accepted_count = length ds, qb_wal_event_ids = wr_wal_event_ids resp\<rparr> s'"
proof (cases "ingest mlen ser (sqlite_append_and_enqueue js flt wal q) t uuid ds s")
  case (Pair r s')
  show ?thesis
  proof (cases r)
    case (Inl e)
    then show ?thesis
      using sqlite_write.ingest_fails Pair by fastforce
  next
    case (Inr resp)
    note ok = sqlite_write.ingest_ok [OF Pair [unfolded Inr]]
    note w = sqlite_write.write_records_ok [OF conjunct1 [OF ok]]
    have len: "length (upsert_records t ds b) = length ds" for b
      by (simp add: upsert_records_def)
    have z: "upsert_records t ds (wr_batch_id resp) = map (upsert_of t) (zip (wr_wal_event_ids resp) ds)"
      unfolding w(7) by (rule upsert_records_zip)
    have "\<exists>lines. list_all2 (\<lambda>(i, d) l. ser \<lparr>event_id = i, rec_doc_id = doc_id d, rec_op = Upsert,
              rec_document = Some d, rec_timestamp = t\<rparr> = Inr l)
        (zip (wr_wal_event_ids resp) ds) lines \<and>
      sqlite_wal_read no_faults (wr_wal_key resp) s' =
        Inr (segment_bytes (sqlite_wal_read no_faults) (wr_wal_key resp) s @ concat (map (\<lambda>l. l @ [LF]) lines))"
      using w(8) unfolding z list_all2_map1 by (simp add: upsert_of_def split_def)
    moreover have "length (wr_wal_event_ids resp) = length ds" "distinct (wr_wal_event_ids resp)"
      using w(7) by (simp_all add: event_ids_upsert distinct_event_ids)
    ultimately show ?thesis
      using w(2,5,6) ok Pair Inr by (simp add: len list_all_iff)
  qed
qed

text \<open>
  The same holds of deletions, whose records carry no document.
\<close>

theorem delete_all_or_nothing:
  "case delete_docs mlen ser (sqlite_append_and_enqueue js flt wal q) t uuid ids s of
     (Inl e, s') \<Rightarrow> s' = s
   | (Inr resp, s') \<Rightarrow>
       ids \<noteq> [] \<and> list_all (\<lambda>i. validate_doc_id i = Inr ()) ids \<and> 1000000000000 \<le> t \<and>
       wr_accepted_count resp = length ids \<and>
       length (wr_wal_event_ids resp) = length ids \<and> distinct (wr_wal_event_ids resp) \<and>
       segment_key t (wr_batch_id resp) = Inr (wr_wal_key resp) \<and>
       (\<exists>lines. list_all2 (\<lambda>(i, d) l. ser \<lparr>event_id = i, rec_doc_id = d, rec_op = Delete,
              rec_document = None, rec_timestamp = t\<rparr> = Inr l)
            (zip (wr_wal_event_ids resp) ids) lines \<and>
          sqlite_wal_read no_faults (wr_wal_key resp) s' =
            Inr (segment_bytes (sqlite_wal_read no_faults) (wr_wal_key resp) s @ concat (map (\<lambda>l. l @ [LF]) lines))) \<and>
       job_queued js \<lparr>qb_batch_id = wr_batch_id resp, qb_wal_key = wr_wal_key resp,
         qb_accepted_count = length ids, qb_wal_event_ids = wr_wal_event_ids resp\<rparr> s'"
proof (cases "delete_docs mlen ser (sqlite_append_and_enqueue js flt wal q) t uuid ids s")
  case (Pair r s')
  show ?thesis
  proof (cases r)
    case (Inl e)
    then show ?thesis
      using sqlite_write.delete_docs_fails Pair by fastforce
  next
    case (Inr resp)
    note ok = sqlite_write.delete_docs_ok [OF Pair [unfolded Inr]]
    note w = sqlite_write.write_records_ok [OF conjunct1 [OF ok]]
    have len: "length (delete_records t ids b) = length ids" for b
      by (simp add: delete_records_def)
    have z: "delete_records t ids (wr_batch_id resp) = map (delete_of t) (zip (wr_wal_event_ids resp) ids)"
      unfolding w(7) by (rule delete_records_zip)
    have "\<exists>lines. list_all2 (\<lambda>(i, d) l. ser \<lparr>event_id = i, rec_doc_id = d, rec_op = Delete,
              rec_document = None, rec_timestamp = t\<rparr> = Inr l)
        (zip (wr_wal_event_ids resp) ids) lines \<and>
      sqlite_wal_read no_faults (wr_wal_key resp) s' =
        Inr (segment_bytes (sqlite_wal_read no_faults) (wr_wal_key resp) s @ concat (map (\<lambda>l. l @ [LF]) lines))"
      using w(8) unfolding z list_all2_map1 by (simp add: delete_of_def split_def)
    moreover have "length (wr_wal_event_ids resp) = length ids" "distinct (wr_wal_event_ids resp)"
      using w(7) by (simp_all add: event_ids_delete distinct_event_ids)
    ultimately show ?thesis
      using w(2,5,6) ok Pair Inr by (simp add: len list_all_iff)
  qed
qed


section \<open>The queue as a state machine\<close>

text \<open>
  One operation of any worker or writer, with the set of tokens issued so far as a ghost.
  SQLite draws 128 random bits for a token, which the rule states as its being new.
\<close>

inductive queue_step ::
  "(queue_batch \<Rightarrow> string option) \<Rightarrow> source_config \<Rightarrow> db \<times> string set \<Rightarrow> db \<times> string set \<Rightarrow> bool"
  for js cfg where
  step_enqueue: "queue_step js cfg (s, T) (snd (sqlite_enqueue js flt batch s), T)"
| step_write: "queue_step js cfg (s, T) (snd (sqlite_append_and_enqueue js flt wal q k b batch s), T)"
| step_receive: "inj_on rand (fst ` set (build_jobs s)) \<Longrightarrow> rand ` fst ` set (build_jobs s) \<inter> T = {} \<Longrightarrow>
    queue_step js cfg (s, T) (snd (receive cfg flt rand now s), T \<union> rand ` fst ` set (build_jobs s))"
| step_ack: "queue_step js cfg (s, T) (snd (ack flt job s), T)"
| step_nack: "queue_step js cfg (s, T) (snd (nack cfg flt now job error s), T)"

inductive_cases queue_stepE [elim]: "queue_step js cfg (s, T) (s', T')"

definition row_ok :: "source_config \<Rightarrow> string set \<Rightarrow> job_row \<Rightarrow> bool" where
  "row_ok cfg T r \<longleftrightarrow> set_option (job_claim_token r) \<subseteq> T \<and>
     (job_state r = Claimed \<longrightarrow> job_claim_token r \<noteq> None \<and> job_claimed_at r \<noteq> None) \<and>
     0 \<le> job_attempts r \<and> job_attempts r < int (cfg_max_attempts cfg)"

definition tokens_unique :: "(string, job_row) hmap \<Rightarrow> bool" where
  "tokens_unique jobs \<longleftrightarrow>
     (\<forall>(b, r) \<in> set jobs. \<forall>(b', r') \<in> set jobs.
        job_claim_token r \<noteq> None \<and> job_claim_token r = job_claim_token r' \<longrightarrow> b = b')"

definition queue_inv :: "source_config \<Rightarrow> db \<times> string set \<Rightarrow> bool" where
  "queue_inv cfg = (\<lambda>(s, T). hm_ok (build_jobs s) \<and> tokens_unique (build_jobs s) \<and>
     (\<forall>(b, r) \<in> set (build_jobs s). row_ok cfg T r) \<and>
     hm_ok (dead_jobs s) \<and> (\<forall>(b, d) \<in> set (dead_jobs s). dead_attempts d = int (cfg_max_attempts cfg)))"

lemma keys_update_where [simp]: "map fst (update_where P f jobs) = map fst jobs"
  by (simp add: update_where_def case_prod_beta)

lemma hm_ok_update_where [simp]: "hm_ok (update_where P f jobs) = hm_ok jobs"
  by (simp add: hm_ok_def)

lemma in_update_where:
  "(b, r') \<in> set (update_where P f jobs) \<longleftrightarrow> (\<exists>r. (b, r) \<in> set jobs \<and> r' = (if P r then f b r else r))"
  by (force simp: update_where_def)

lemma hm_ok_filter: "hm_ok m \<Longrightarrow> hm_ok (filter P m)"
  by (simp add: hm_ok_def distinct_map_filter)

text \<open>The effect of each operation on the tables.\<close>

lemma receive_cases:
  obtains (fails) e where "receive cfg flt rand now s = (Inl e, s)"
    | (claims) "receive cfg flt rand now s =
        map_prod Inr id (claim_due rand now (reclaim_expired (now - cfg_lease_ms cfg) s))"
proof (cases "receive cfg flt rand now s")
  case (Pair r s')
  show ?thesis
  proof (cases r)
    case (Inl e)
    with Pair have "s' = s"
      unfolding receive_def by (auto dest: in_tx_Inl)
    with Pair Inl show ?thesis
      using fails by blast
  next
    case (Inr jobs)
    with Pair have "receive cfg flt rand now s = (Inr jobs, s')"
      by simp
    then have "claim_due rand now (reclaim_expired (now - cfg_lease_ms cfg) s) = (jobs, s')"
      unfolding receive_def in_tx_Inr_iff by (auto simp: result_simps split: prod.splits)
    with Pair Inr show ?thesis
      by (intro claims) simp
  qed
qed

lemma ack_cases:
  obtains (fails) e where "ack flt job s = (Inl e, s)"
    | (acks) "ack flt job s = (Inr (), s\<lparr>build_jobs :=
        filter (\<lambda>(_, r). \<not> holds_claim (job_receipt job) r) (build_jobs s)\<rparr>)"
proof (cases "ack flt job s")
  case (Pair r s')
  show ?thesis
  proof (cases r)
    case (Inl e)
    with Pair have "s' = s"
      unfolding ack_def by (auto dest: in_tx_Inl)
    with Pair Inl show ?thesis
      using fails by blast
  next
    case (Inr u)
    with Pair have *: "ack flt job s = (Inr (), s')"
      by simp
    then have "s' = s\<lparr>build_jobs := filter (\<lambda>(_, r). \<not> holds_claim (job_receipt job) r) (build_jobs s)\<rparr>"
      unfolding ack_def in_tx_Inr_iff by (simp add: result_simps)
    with * show ?thesis
      by (intro acks) simp
  qed
qed

lemma nack_cases:
  obtains (fails) e where "nack cfg flt now job error s = (Inl e, s)"
    | (stale) "find (\<lambda>(_, r). holds_claim (job_receipt job) r) (build_jobs s) = None"
        "nack cfg flt now job error s = (Inr (), s)"
    | (buries) b r where
        "find (\<lambda>(_, r). holds_claim (job_receipt job) r) (build_jobs s) = Some (b, r)"
        "cfg_max_attempts cfg \<le> as_u32 (job_attempts r + 1)"
        "nack cfg flt now job error s =
           (Inr (), delete_token (job_receipt job) (bury b r (job_attempts r + 1) error now s))"
    | (requeues) b r where
        "find (\<lambda>(_, r). holds_claim (job_receipt job) r) (build_jobs s) = Some (b, r)"
        "\<not> cfg_max_attempts cfg \<le> as_u32 (job_attempts r + 1)"
        "nack cfg flt now job error s = (Inr (), requeue_token (job_receipt job) (job_attempts r + 1)
           (now + cfg_base_backoff_ms cfg * (job_attempts r + 1)) s)"
proof (cases rule: in_tx_cases [of "nack_tx cfg flt now (job_receipt job) error s" s])
  case (rolled_back e)
  then show ?thesis
    by (intro fails) (simp add: nack_def)
next
  case (committed u s')
  then have "nack cfg flt now job error s = (Inr (), s')"
    by (simp add: nack_def)
  with committed(2) show ?thesis
    by (cases "find (\<lambda>(_, r). holds_claim (job_receipt job) r) (build_jobs s)")
      (auto simp: nack_tx_def Let_def result_simps split: if_splits intro: stale buries requeues)
qed


subsection \<open>The invariant\<close>

lemma row_ok_mono: "row_ok cfg T r \<Longrightarrow> T \<subseteq> U \<Longrightarrow> row_ok cfg U r"
  by (auto simp: row_ok_def)

lemma tokens_uniqueI:
  "(\<And>b r b' r' t. (b, r) \<in> set jobs \<Longrightarrow> (b', r') \<in> set jobs \<Longrightarrow> job_claim_token r = Some t \<Longrightarrow>
     job_claim_token r' = Some t \<Longrightarrow> b = b') \<Longrightarrow> tokens_unique jobs"
  unfolding tokens_unique_def by (auto, metis option.exhaust)

lemma tokens_uniqueD:
  "tokens_unique jobs \<Longrightarrow> (b, r) \<in> set jobs \<Longrightarrow> (b', r') \<in> set jobs \<Longrightarrow> job_claim_token r = Some t \<Longrightarrow>
     job_claim_token r' = Some t \<Longrightarrow> b = b'"
  unfolding tokens_unique_def by fastforce

text \<open>Rows whose token was that batch's token before keep the tokens unique.\<close>

lemma tokens_unique_sub:
  assumes "tokens_unique jobs"
    and "\<And>b r t. (b, r) \<in> set jobs' \<Longrightarrow> job_claim_token r = Some t \<Longrightarrow>
      \<exists>r0. (b, r0) \<in> set jobs \<and> job_claim_token r0 = Some t"
  shows "tokens_unique jobs'"
proof (rule tokens_uniqueI)
  fix b r b' r' t
  assume "(b, r) \<in> set jobs'" "(b', r') \<in> set jobs'" "job_claim_token r = Some t" "job_claim_token r' = Some t"
  then obtain r0 r0' where "(b, r0) \<in> set jobs" "job_claim_token r0 = Some t"
    "(b', r0') \<in> set jobs" "job_claim_token r0' = Some t"
    using assms(2) by meson
  then show "b = b'"
    using tokens_uniqueD [OF assms(1)] by metis
qed

lemma queue_invI:
  assumes "hm_ok (build_jobs s)" "tokens_unique (build_jobs s)"
    "\<And>b r. (b, r) \<in> set (build_jobs s) \<Longrightarrow> row_ok cfg T r" "hm_ok (dead_jobs s)"
    "\<And>b d. (b, d) \<in> set (dead_jobs s) \<Longrightarrow> dead_attempts d = int (cfg_max_attempts cfg)"
  shows "queue_inv cfg (s, T)"
  using assms by (auto simp: queue_inv_def)

lemma queue_invD:
  assumes "queue_inv cfg (s, T)"
  shows "hm_ok (build_jobs s)" "tokens_unique (build_jobs s)"
    "(b, r) \<in> set (build_jobs s) \<Longrightarrow> row_ok cfg T r" "hm_ok (dead_jobs s)"
    "(b, d) \<in> set (dead_jobs s) \<Longrightarrow> dead_attempts d = int (cfg_max_attempts cfg)"
  using assms by (auto simp: queue_inv_def)

lemma upsert_job_rows:
  assumes "hm_ok jobs" "(b, r) \<in> set (upsert_job k body jobs)"
  shows "(b \<noteq> k \<and> (b, r) \<in> set jobs) \<or>
    (b = k \<and> job_state r = Ready \<and> job_attempts r = 0 \<and>
     (job_claim_token r = None \<or> (\<exists>r0. (b, r0) \<in> set jobs \<and> job_claim_token r = job_claim_token r0)))"
proof -
  have "hm_ok (upsert_job k body jobs)"
    using assms(1) by (simp add: upsert_job_def)
  then have "hm_get (upsert_job k body jobs) b = Some r"
    using assms(2) by (simp add: hm_get_eq_Some_iff)
  then show ?thesis
    by (cases "hm_get jobs k") (auto simp: upsert_job_def hm_get_eq_Some_iff [OF assms(1)] split: if_splits)
qed

lemma queue_inv_upsert:
  assumes inv: "queue_inv cfg (s, T)" and "0 < cfg_max_attempts cfg"
  shows "queue_inv cfg (s\<lparr>build_jobs := upsert_job k body (build_jobs s)\<rparr>, T)"
proof (rule queue_invI; simp)
  note new = upsert_job_rows [OF queue_invD(1) [OF inv], of _ _ k body]
  show "hm_ok (upsert_job k body (build_jobs s))"
    using queue_invD(1) [OF inv] by (simp add: upsert_job_def)
  show "tokens_unique (upsert_job k body (build_jobs s))"
    by (rule tokens_unique_sub [OF queue_invD(2) [OF inv]]) (use new in fastforce)
  fix b r
  assume "(b, r) \<in> set (upsert_job k body (build_jobs s))"
  from new [OF this] consider "(b, r) \<in> set (build_jobs s)"
    | "job_state r = Ready" "job_attempts r = 0" "job_claim_token r = None"
    | r0 where "job_state r = Ready" "job_attempts r = 0" "(b, r0) \<in> set (build_jobs s)"
        "job_claim_token r = job_claim_token r0"
    by metis
  then show "row_ok cfg T r"
  proof cases
    case 3
    then show ?thesis
      using queue_invD(3) [OF inv 3(3)] assms(2) by (simp add: row_ok_def)
  qed (use queue_invD(3) [OF inv] assms(2) in \<open>auto simp: row_ok_def\<close>)
qed (use queue_invD(4,5) [OF inv] in auto)

lemma queue_inv_frame:
  "build_jobs s' = build_jobs s \<Longrightarrow> dead_jobs s' = dead_jobs s \<Longrightarrow> queue_inv cfg (s', T) = queue_inv cfg (s, T)"
  by (simp add: queue_inv_def)

lemma sqlite_enqueue_cases:
  obtains "snd (sqlite_enqueue js flt batch s) = s"
    | "snd (sqlite_enqueue js flt batch s) = s\<lparr>build_jobs := upsert_job (qb_batch_id batch)
        (case js batch of None \<Rightarrow> [] | Some b \<Rightarrow> b) (build_jobs s)\<rparr>"
  unfolding sqlite_enqueue_def
  by (cases "insert_build_job js flt 0 batch s") (auto simp: in_tx_def dest: insert_build_job_Inr)

lemma queue_inv_enqueue:
  assumes "queue_inv cfg (s, T)" "0 < cfg_max_attempts cfg"
  shows "queue_inv cfg (snd (sqlite_enqueue js flt batch s), T)"
  by (cases rule: sqlite_enqueue_cases [of js flt batch s])
    (simp_all add: assms queue_inv_upsert)

lemma queue_inv_write:
  assumes "queue_inv cfg (s, T)" "0 < cfg_max_attempts cfg"
  shows "queue_inv cfg (snd (sqlite_append_and_enqueue js flt wal q k b batch s), T)"
proof (cases "sqlite_append_and_enqueue js flt wal q k b batch s")
  case (Pair r s')
  show ?thesis
  proof (cases r)
    case (Inl e)
    then show ?thesis
      using Pair sqlite_append_and_enqueue_Inl assms(1) by fastforce
  next
    case (Inr u)
    let ?u = "s\<lparr>build_jobs := upsert_job (qb_batch_id batch)
      (case js batch of None \<Rightarrow> [] | Some b \<Rightarrow> b) (build_jobs s)\<rparr>"
    have "queue_inv cfg (s', T) = queue_inv cfg (?u, T)"
      using sqlite_append_and_enqueue_Inr(2) [OF Pair [unfolded Inr]] by (intro queue_inv_frame) simp_all
    then show ?thesis
      using queue_inv_upsert [OF assms] Pair by simp
  qed
qed

lemma queue_inv_reclaim:
  assumes inv: "queue_inv cfg (s, T)"
  shows "queue_inv cfg (reclaim_expired d s, T)"
proof (rule queue_invI)
  show "tokens_unique (build_jobs (reclaim_expired d s))"
    by (rule tokens_unique_sub [OF queue_invD(2) [OF inv]])
      (auto simp: reclaim_expired_def in_update_where split: if_splits)
  fix b r
  assume "(b, r) \<in> set (build_jobs (reclaim_expired d s))"
  then obtain r0 where "(b, r0) \<in> set (build_jobs s)" "r = (if lease_expired d r0
      then r0\<lparr>job_state := Ready, job_claimed_at := None, job_claim_token := None\<rparr> else r0)"
    by (auto simp: reclaim_expired_def in_update_where)
  then show "row_ok cfg T r"
    using queue_invD(3) [OF inv, of b r0] by (simp add: row_ok_def)
qed (use queue_invD [OF inv] in \<open>auto simp: reclaim_expired_def\<close>)

lemma queue_inv_claim:
  assumes inv: "queue_inv cfg (s, T)"
    and fresh: "inj_on rand (fst ` set (build_jobs s))" "rand ` fst ` set (build_jobs s) \<inter> T = {}"
  shows "queue_inv cfg (snd (claim_due rand now s), T \<union> rand ` fst ` set (build_jobs s))"
proof (rule queue_invI)
  let ?jobs = "build_jobs (snd (claim_due rand now s))"
  let ?U = "T \<union> rand ` fst ` set (build_jobs s)"
  have row: "\<exists>r0. (b, r0) \<in> set (build_jobs s) \<and> row_ok cfg T r0 \<and>
      r = (if job_due now r0
           then r0\<lparr>job_state := Claimed, job_claimed_at := Some now, job_claim_token := Some (rand b)\<rparr> else r0)"
    if "(b, r) \<in> set ?jobs" for b r
    using that queue_invD(3) [OF inv] by (auto simp: claim_due_def in_update_where)
  show "tokens_unique ?jobs"
  proof (rule tokens_uniqueI)
    fix b r b' r' t
    assume m: "(b, r) \<in> set ?jobs" "(b', r') \<in> set ?jobs"
      and t: "job_claim_token r = Some t" "job_claim_token r' = Some t"
    from row [OF m(1)] obtain r0 where r0: "(b, r0) \<in> set (build_jobs s)" "row_ok cfg T r0"
      "t = rand b \<or> job_claim_token r0 = Some t"
      using t(1) by (auto split: if_splits)
    from row [OF m(2)] obtain r1 where r1: "(b', r1) \<in> set (build_jobs s)" "row_ok cfg T r1"
      "t = rand b' \<or> job_claim_token r1 = Some t"
      using t(2) by (auto split: if_splits)
    have "rand b \<notin> T" "rand b' \<notin> T"
      using fresh(2) r0(1) r1(1) by force+
    moreover have "t \<in> T" if "job_claim_token r0 = Some t \<or> job_claim_token r1 = Some t"
      using that r0(2) r1(2) by (auto simp: row_ok_def)
    ultimately consider "rand b = rand b'" | "job_claim_token r0 = Some t" "job_claim_token r1 = Some t"
      using r0(3) r1(3) by blast
    then show "b = b'"
    proof cases
      case 1
      then show ?thesis
        using inj_onD [OF fresh(1)] r0(1) r1(1) by (metis fst_conv image_eqI)
    next
      case 2
      then show ?thesis
        by (rule tokens_uniqueD [OF queue_invD(2) [OF inv] r0(1) r1(1)])
    qed
  qed
  fix b r
  assume m: "(b, r) \<in> set ?jobs"
  then obtain r0 where r0: "(b, r0) \<in> set (build_jobs s)" "row_ok cfg T r0"
    "r = (if job_due now r0
        then r0\<lparr>job_state := Claimed, job_claimed_at := Some now, job_claim_token := Some (rand b)\<rparr> else r0)"
    using row by blast
  moreover have "rand b \<in> ?U"
    using r0(1) by (auto intro: rev_image_eqI)
  ultimately show "row_ok cfg ?U r"
    using row_ok_mono [of cfg T r0 ?U] by (auto simp: row_ok_def)
qed (use queue_invD [OF inv] in \<open>auto simp: claim_due_def\<close>)

lemma keys_reclaim [simp]: "fst ` set (build_jobs (reclaim_expired d s)) = fst ` set (build_jobs s)"
  unfolding reclaim_expired_def by (simp flip: set_map)

lemma queue_inv_receive:
  assumes "queue_inv cfg (s, T)" "inj_on rand (fst ` set (build_jobs s))"
    "rand ` fst ` set (build_jobs s) \<inter> T = {}"
  shows "queue_inv cfg (snd (receive cfg flt rand now s), T \<union> rand ` fst ` set (build_jobs s))"
proof (cases rule: receive_cases [of cfg flt rand now s])
  case (fails e)
  have "queue_inv cfg (s, T \<union> rand ` fst ` set (build_jobs s))"
    by (rule queue_invI)
      (use queue_invD [OF assms(1)] row_ok_mono [of cfg T _ "T \<union> rand ` fst ` set (build_jobs s)"] in blast)+
  with fails show ?thesis
    by simp
next
  case claims
  then show ?thesis
    using queue_inv_claim [of cfg "reclaim_expired (now - cfg_lease_ms cfg) s" T rand now]
      queue_inv_reclaim [OF assms(1)] assms(2,3) by simp
qed

lemma tokens_unique_filter: "tokens_unique jobs \<Longrightarrow> tokens_unique (filter P jobs)"
  by (rule tokens_unique_sub) auto

lemma queue_inv_filter:
  assumes inv: "queue_inv cfg (s, T)"
  shows "queue_inv cfg (s\<lparr>build_jobs := filter P (build_jobs s)\<rparr>, T)"
  by (rule queue_invI) (use queue_invD [OF inv] in \<open>auto simp: hm_ok_filter tokens_unique_filter\<close>)

lemma queue_inv_ack: "queue_inv cfg (s, T) \<Longrightarrow> queue_inv cfg (snd (ack flt job s), T)"
  by (cases rule: ack_cases [of flt job s]) (simp_all add: queue_inv_filter)

lemma find_row: "find (\<lambda>(_, r). P r) rows = Some (b, r) \<Longrightarrow> (b, r) \<in> set rows \<and> P r"
  by (auto simp: find_Some_iff) (metis case_prod_conv nth_mem)

lemma as_u32_small: "0 \<le> v \<Longrightarrow> v < 2 ^ 32 \<Longrightarrow> as_u32 v = nat v"
  by (simp add: as_u32_def)

lemma queue_inv_bury:
  assumes inv: "queue_inv cfg (s, T)" and "n = int (cfg_max_attempts cfg)"
  shows "queue_inv cfg (bury b r n error now s, T)"
proof (rule queue_invI)
  have ok: "hm_ok (dead_jobs (bury b r n error now s))"
    using queue_invD(4) [OF inv] by (simp add: bury_def)
  then show "hm_ok (dead_jobs (bury b r n error now s))" .
  fix b' d
  assume "(b', d) \<in> set (dead_jobs (bury b r n error now s))"
  then have "hm_get (dead_jobs (bury b r n error now s)) b' = Some d"
    using hm_get_eq_Some_iff [OF ok] by blast
  then show "dead_attempts d = int (cfg_max_attempts cfg)"
    using assms(2) queue_invD(5) [OF inv] hm_get_eq_Some_iff [OF queue_invD(4) [OF inv]]
    by (auto simp: bury_def split: if_splits)
qed (use queue_invD [OF inv] in \<open>auto simp: bury_def\<close>)

lemma queue_inv_nack:
  assumes inv: "queue_inv cfg (s, T)" and max: "cfg_max_attempts cfg < 2 ^ 32"
  shows "queue_inv cfg (snd (nack cfg flt now job error s), T)"
proof (cases rule: nack_cases [of cfg flt now job error s])
  case (buries b r)
  have "row_ok cfg T r"
    using find_row [OF buries(1)] queue_invD(3) [OF inv] by blast
  then have "0 \<le> job_attempts r" "job_attempts r + 1 \<le> int (cfg_max_attempts cfg)"
    by (simp_all add: row_ok_def)
  then have "job_attempts r + 1 = int (cfg_max_attempts cfg)"
    using buries(2) max as_u32_small [of "job_attempts r + 1"] by simp
  then show ?thesis
    using buries(3) queue_inv_filter [OF queue_inv_bury [OF inv]] by (simp add: delete_token_def)
next
  case (requeues b r)
  have r: "row_ok cfg T r"
    using find_row [OF requeues(1)] queue_invD(3) [OF inv] by blast
  then have n: "0 \<le> job_attempts r + 1" "job_attempts r + 1 < int (cfg_max_attempts cfg)"
    using requeues(2) max by (simp_all add: row_ok_def as_u32_small)
  have "queue_inv cfg (requeue_token t (job_attempts r + 1) a s, T)" for t a
  proof (rule queue_invI)
    show "tokens_unique (build_jobs (requeue_token t (job_attempts r + 1) a s))"
      by (rule tokens_unique_sub [OF queue_invD(2) [OF inv]])
        (auto simp: requeue_token_def in_update_where split: if_splits)
    fix b' r'
    assume "(b', r') \<in> set (build_jobs (requeue_token t (job_attempts r + 1) a s))"
    then obtain r0 where "(b', r0) \<in> set (build_jobs s)" "r' = (if job_claim_token r0 = Some t
        then r0\<lparr>job_state := Ready, job_attempts := job_attempts r + 1, job_available_at := a,
                job_claimed_at := None, job_claim_token := None\<rparr> else r0)"
      by (auto simp: requeue_token_def in_update_where)
    then show "row_ok cfg T r'"
      using queue_invD(3) [OF inv, of b' r0] n by (simp add: row_ok_def)
  qed (use queue_invD [OF inv] in \<open>auto simp: requeue_token_def\<close>)
  with requeues show ?thesis
    by simp
qed (use inv in simp_all)


definition cfg_ok :: "source_config \<Rightarrow> bool" where
  "cfg_ok cfg = (0 < cfg_max_attempts cfg \<and> cfg_max_attempts cfg < 2 ^ 32)"

lemma queue_step_inv:
  assumes "queue_step js cfg st st'" "queue_inv cfg st" "cfg_ok cfg"
  shows "queue_inv cfg st'"
  using assms
  by (induction rule: queue_step.induct)
    (simp_all only: cfg_ok_def queue_inv_enqueue queue_inv_write queue_inv_receive queue_inv_ack queue_inv_nack)

lemma queue_steps_inv:
  "(queue_step js cfg)\<^sup>*\<^sup>* st st' \<Longrightarrow> queue_inv cfg st \<Longrightarrow> cfg_ok cfg \<Longrightarrow> queue_inv cfg st'"
  by (induction rule: rtranclp_induct) (auto intro: queue_step_inv)

lemma queue_inv_empty: "queue_inv cfg (empty_db, {})"
  by (rule queue_invI) (simp_all add: empty_db_def tokens_unique_def)

definition queue_reachable :: "(queue_batch \<Rightarrow> string option) \<Rightarrow> source_config \<Rightarrow> db \<times> string set \<Rightarrow> bool" where
  "queue_reachable js cfg st \<longleftrightarrow> (queue_step js cfg)\<^sup>*\<^sup>* (empty_db, {}) st"

text \<open>
  C6. Whatever workers and writers do, and whatever statements fail, a batch has one job
  row, no two rows carry the same claim token, a claimed row has a token and a claim time,
  a live job has been tried fewer than the maximal number of times, and a dead one exactly
  that often.
\<close>

theorem queue_invariant:
  assumes "queue_reachable js cfg st" "cfg_ok cfg"
  shows "queue_inv cfg st"
  using assms queue_steps_inv queue_inv_empty unfolding queue_reachable_def by blast

definition demo_cfg :: source_config where
  "demo_cfg = \<lparr>cfg_lease_ms = 300000, cfg_max_attempts = 3, cfg_base_backoff_ms = 1000\<rparr>"

definition demo_batch :: queue_batch where
  "demo_batch = \<lparr>qb_batch_id = ''b1'', qb_wal_key = ''wal/k'', qb_accepted_count = 1,
     qb_wal_event_ids = [''b1-000001'']\<rparr>"

definition demo_queued :: db where
  "demo_queued = snd (sqlite_enqueue (\<lambda>_. Some ''{}'') no_faults demo_batch empty_db)"

definition demo_claimed :: db where
  "demo_claimed = snd (receive demo_cfg no_faults (\<lambda>b. ''t-'' @ b) 1000 demo_queued)"

lemma demo_keys: "fst ` set (build_jobs demo_queued) = {''b1''}"
  by code_simp

lemma demo_reach: "queue_reachable (\<lambda>_. Some ''{}'') demo_cfg (demo_claimed, {''t-b1''})"
proof -
  have "queue_step (\<lambda>_. Some ''{}'') demo_cfg (empty_db, {}) (demo_queued, {})"
    unfolding demo_queued_def by (rule step_enqueue)
  moreover have "queue_step (\<lambda>_. Some ''{}'') demo_cfg (demo_queued, {})
      (demo_claimed, {} \<union> (\<lambda>b. ''t-'' @ b) ` fst ` set (build_jobs demo_queued))"
    unfolding demo_claimed_def by (rule step_receive) (simp_all add: inj_on_def)
  ultimately show ?thesis
    unfolding queue_reachable_def by (auto simp: demo_keys intro: rtranclp.rtrancl_into_rtrancl)
qed

lemma demo_cfg_ok: "cfg_ok demo_cfg"
  by (simp add: cfg_ok_def demo_cfg_def)

lemma queue_invariant_witness: "queue_inv demo_cfg (demo_claimed, {''t-b1''})"
  by (rule queue_invariant [OF demo_reach demo_cfg_ok])


subsection \<open>Receipts\<close>

definition has_claim :: "string \<Rightarrow> db \<Rightarrow> bool" where
  "has_claim t s \<longleftrightarrow> (\<exists>(b, r) \<in> set (build_jobs s). holds_claim t r)"

lemma ack_stale: "\<not> has_claim (job_receipt job) s \<Longrightarrow> snd (ack flt job s) = s"
proof -
  assume "\<not> has_claim (job_receipt job) s"
  then have "filter (\<lambda>(_, r). \<not> holds_claim (job_receipt job) r) (build_jobs s) = build_jobs s"
    by (auto simp: has_claim_def filter_id_conv)
  then show ?thesis
    by (cases rule: ack_cases [of flt job s]) simp_all
qed

lemma nack_stale: "\<not> has_claim (job_receipt job) s \<Longrightarrow> snd (nack cfg flt now job error s) = s"
  by (cases rule: nack_cases [of cfg flt now job error s])
    (auto simp: has_claim_def dest!: find_row)

lemma no_claim_upsert:
  assumes "queue_inv cfg (s, T)" "\<not> has_claim t s"
  shows "\<not> has_claim t (s'\<lparr>build_jobs := upsert_job k body (build_jobs s)\<rparr>)"
proof
  assume "has_claim t (s'\<lparr>build_jobs := upsert_job k body (build_jobs s)\<rparr>)"
  then obtain b r where r: "(b, r) \<in> set (upsert_job k body (build_jobs s))" "holds_claim t r"
    by (auto simp: has_claim_def)
  from upsert_job_rows [OF queue_invD(1) [OF assms(1)] r(1)] r(2) assms(2) show False
    by (auto simp: has_claim_def holds_claim_def)
qed

lemma no_claim_step:
  assumes "queue_step js cfg (s, T) (s', T')" "queue_inv cfg (s, T)" "t \<in> T" "\<not> has_claim t s"
  shows "t \<in> T' \<and> \<not> has_claim t s'"
  using assms(1)
proof cases
  case (step_enqueue flt batch)
  then show ?thesis
    using no_claim_upsert [OF assms(2,4)] assms(3,4)
    by (cases rule: sqlite_enqueue_cases [of js flt batch s]) simp_all
next
  case (step_write flt wal q k b batch)
  show ?thesis
  proof (cases "sqlite_append_and_enqueue js flt wal q k b batch s")
    case (Pair r s1)
    show ?thesis
    proof (cases r)
      case (Inl e)
      then show ?thesis
        using Pair sqlite_append_and_enqueue_Inl step_write assms(3,4) by fastforce
    next
      case (Inr u)
      then show ?thesis
        using sqlite_append_and_enqueue_Inr(2) [OF Pair [unfolded Inr]] step_write Pair assms(3)
          no_claim_upsert [OF assms(2,4)] by simp
    qed
  qed
next
  case (step_receive rand flt now)
  have "\<not> has_claim t (snd (claim_due rand now (reclaim_expired d s)))" for d
  proof
    assume "has_claim t (snd (claim_due rand now (reclaim_expired d s)))"
    then obtain b r where "(b, r) \<in> set (build_jobs s)" "t = rand b \<or> holds_claim t r"
      by (auto simp: has_claim_def claim_due_def reclaim_expired_def in_update_where holds_claim_def
          split: if_splits)
    then have "t = rand b" "b \<in> fst ` set (build_jobs s)"
      using assms(4) by (force simp: has_claim_def)+
    then show False
      using step_receive assms(3) by auto
  qed
  then show ?thesis
    using step_receive assms(3,4)
    by (cases rule: receive_cases [of cfg flt rand now s]) simp_all
next
  case (step_ack flt job)
  then show ?thesis
    using assms(3,4)
    by (cases rule: ack_cases [of flt job s]) (auto simp: has_claim_def)
next
  case (step_nack flt now job error)
  then show ?thesis
    using assms(3,4)
    by (cases rule: nack_cases [of cfg flt now job error s])
      (auto simp: has_claim_def holds_claim_def delete_token_def bury_def requeue_token_def in_update_where
        split: if_splits)
qed

lemma no_claim_steps:
  assumes "(queue_step js cfg)\<^sup>*\<^sup>* (s, T) (s', T')" "queue_inv cfg (s, T)" "cfg_ok cfg" "t \<in> T" "\<not> has_claim t s"
  shows "t \<in> T' \<and> \<not> has_claim t s'"
  using assms(1)
proof (induction rule: rtranclp_induct2)
  case (step s1 T1 s2 T2)
  have "queue_inv cfg (s1, T1)"
    by (rule queue_steps_inv [OF step(1) assms(2,3)])
  then show ?case
    using no_claim_step [OF step(2)] step(3) by blast
qed (use assms in simp)

text \<open>
  Once a receipt no longer holds its job (it was acknowledged, retried or its lease
  was reclaimed), acknowledging or rejecting with it changes nothing, then and ever after:
  it cannot touch a later delivery of the same job.
\<close>

theorem stale_receipt_noop:
  assumes "queue_reachable js cfg (s, T)" "cfg_ok cfg" "job_receipt job \<in> T"
    and "\<not> has_claim (job_receipt job) s"
    and "(queue_step js cfg)\<^sup>*\<^sup>* (s, T) (s', T')"
  shows "snd (ack flt job s') = s' \<and> snd (nack cfg flt' now job error s') = s'"
proof -
  have "queue_inv cfg (s, T)"
    by (rule queue_steps_inv [OF _ queue_inv_empty assms(2)]) (use assms(1) in \<open>simp add: queue_reachable_def\<close>)
  then have "\<not> has_claim (job_receipt job) s'"
    using no_claim_steps [OF assms(5) _ assms(2,3,4)] by blast
  then show ?thesis
    by (simp add: ack_stale nack_stale)
qed

definition demo_job :: build_job where
  "demo_job = \<lparr>job_receipt = ''t-b1'', bj_body = ''{}''\<rparr>"

definition demo_acked :: db where
  "demo_acked = snd (ack no_faults demo_job demo_claimed)"

lemma stale_receipt_noop_witness:
  "snd (ack no_faults demo_job demo_acked) = demo_acked \<and>
   snd (nack demo_cfg no_faults 9000 demo_job ''boom'' demo_acked) = demo_acked"
proof (rule stale_receipt_noop)
  show "queue_reachable (\<lambda>_. Some ''{}'') demo_cfg (demo_acked, {''t-b1''})"
    using demo_reach step_ack [of "\<lambda>_. Some ''{}''" demo_cfg demo_claimed "{''t-b1''}" no_faults demo_job]
    unfolding queue_reachable_def demo_acked_def by (rule rtranclp.rtrancl_into_rtrancl)
  show "cfg_ok demo_cfg"
    by (rule demo_cfg_ok)
  show "job_receipt demo_job \<in> {''t-b1''}"
    by (simp add: demo_job_def)
  show "\<not> has_claim (job_receipt demo_job) demo_acked"
    by code_simp
qed (rule rtranclp.rtrancl_refl)


subsection \<open>Retry and dead letters\<close>

text \<open>The one row that holds a receipt.\<close>

lemma find_claim:
  assumes inv: "queue_inv cfg (s, T)" and r: "(b, r) \<in> set (build_jobs s)" "holds_claim t r"
  shows "find (\<lambda>(_, r). holds_claim t r) (build_jobs s) = Some (b, r)"
proof (cases "find (\<lambda>(_, r). holds_claim t r) (build_jobs s)")
  case None
  then show ?thesis
    using r by (auto simp: find_None_iff)
next
  case (Some p)
  obtain b' r' where p: "p = (b', r')" by (cases p)
  from find_row [OF Some [unfolded p]] have r': "(b', r') \<in> set (build_jobs s)" "holds_claim t r'"
    by blast+
  have "b = b'"
    using tokens_uniqueD [OF queue_invD(2) [OF inv] r(1) r'(1)] r(2) r'(2) by (simp add: holds_claim_def)
  moreover have "hm_get (build_jobs s) b = Some r" "hm_get (build_jobs s) b' = Some r'"
    using r(1) r'(1) by (simp_all add: hm_get_eq_Some_iff [OF queue_invD(1) [OF inv]])
  ultimately show ?thesis
    using Some p by simp
qed

lemma hm_get_update_where:
  "hm_get (update_where P f jobs) b = map_option (\<lambda>r. if P r then f b r else r) (hm_get jobs b)"
  by (induction jobs) (auto simp: update_where_def hm_get_def)

lemma hm_get_filter:
  "hm_ok m \<Longrightarrow> hm_get (filter P m) b =
     (case hm_get m b of None \<Rightarrow> None | Some v \<Rightarrow> if P (b, v) then Some v else None)"
  by (induction m) (auto simp: hm_get_def hm_ok_def map_of_eq_None_iff split: option.splits
      intro: rev_image_eqI)

lemma holder_iff:
  assumes inv: "queue_inv cfg (s, T)" and r: "(b, r) \<in> set (build_jobs s)" "holds_claim t r"
    and r': "hm_get (build_jobs s) b' = Some r'"
  shows "job_claim_token r' = Some t \<longleftrightarrow> b' = b"
proof -
  have m: "(b', r') \<in> set (build_jobs s)"
    using r' by (simp add: hm_get_eq_Some_iff [OF queue_invD(1) [OF inv]])
  show ?thesis
  proof
    assume "job_claim_token r' = Some t"
    then show "b' = b"
      using tokens_uniqueD [OF queue_invD(2) [OF inv] m r(1)] r(2) by (simp add: holds_claim_def)
  next
    assume "b' = b"
    then have "r' = r"
      using r(1) r' by (simp add: hm_get_eq_Some_iff [OF queue_invD(1) [OF inv], symmetric])
    then show "job_claim_token r' = Some t"
      using r(2) by (simp add: holds_claim_def)
  qed
qed

text \<open>
  Rejecting a delivery that still holds its job puts the job back with one more
  attempt and a delay linear in the attempts, until the attempt that reaches the maximum,
  which moves it to the dead letters with its body and the error; no other row changes.
\<close>

theorem nack_retries_then_buries:
  assumes inv: "queue_inv cfg (s, T)" and cfg: "cfg_ok cfg"
    and r: "(b, r) \<in> set (build_jobs s)" "holds_claim (job_receipt job) r"
  shows "\<exists>s'. nack cfg no_faults now job error s = (Inr (), s') \<and>
    (let n = job_attempts r + 1; final = (n = int (cfg_max_attempts cfg))
     in hm_get (build_jobs s') = (hm_get (build_jobs s))(b :=
          if final then None
          else Some (r\<lparr>job_state := Ready, job_attempts := n,
            job_available_at := now + cfg_base_backoff_ms cfg * n,
            job_claimed_at := None, job_claim_token := None\<rparr>)) \<and>
        hm_get (dead_jobs s') =
          (if final then (hm_get (dead_jobs s))(b \<mapsto>
             \<lparr>dead_body = job_body r, dead_attempts = n, dead_last_error = error, dead_died_at = now\<rparr>)
           else hm_get (dead_jobs s)))"
proof -
  define n where "n = job_attempts r + 1"
  have ok: "hm_ok (build_jobs s)"
    by (rule queue_invD(1) [OF inv])
  have row: "row_ok cfg T r"
    by (rule queue_invD(3) [OF inv r(1)])
  have n: "cfg_max_attempts cfg \<le> as_u32 n \<longleftrightarrow> n = int (cfg_max_attempts cfg)"
    using row cfg as_u32_small [of n] by (auto simp: row_ok_def cfg_ok_def n_def)
  define s' where "s' = (if n = int (cfg_max_attempts cfg)
        then delete_token (job_receipt job) (bury b r n error now s)
        else requeue_token (job_receipt job) n (now + cfg_base_backoff_ms cfg * n) s)"
  have nack: "nack cfg no_faults now job error s = (Inr (), s')"
    using n by (simp add: nack_def nack_tx_def find_claim [OF inv r] in_tx_def Let_def n_def [symmetric] s'_def)
  have tok: "job_claim_token r' = Some (job_receipt job) \<longleftrightarrow> b' = b"
    if "hm_get (build_jobs s) b' = Some r'" for b' r'
    by (rule holder_iff [OF inv r that])
  have own: "hm_get (build_jobs s) b = Some r"
    using r(1) by (simp add: hm_get_eq_Some_iff [OF ok])
  have "hm_get (build_jobs s') = (hm_get (build_jobs s))(b :=
      if n = int (cfg_max_attempts cfg) then None
      else Some (r\<lparr>job_state := Ready, job_attempts := n,
        job_available_at := now + cfg_base_backoff_ms cfg * n,
        job_claimed_at := None, job_claim_token := None\<rparr>))"
  proof
    fix b'
    show "hm_get (build_jobs s') b' = ((hm_get (build_jobs s))(b :=
      if n = int (cfg_max_attempts cfg) then None
      else Some (r\<lparr>job_state := Ready, job_attempts := n,
        job_available_at := now + cfg_base_backoff_ms cfg * n,
        job_claimed_at := None, job_claim_token := None\<rparr>))) b'"
      using own tok [of b'] ok
      by (cases "hm_get (build_jobs s) b'")
        (auto simp: s'_def delete_token_def bury_def requeue_token_def hm_get_filter hm_get_update_where)
  qed
  moreover have "hm_get (dead_jobs s') =
      (if n = int (cfg_max_attempts cfg) then (hm_get (dead_jobs s))(b \<mapsto>
         \<lparr>dead_body = job_body r, dead_attempts = n, dead_last_error = error, dead_died_at = now\<rparr>)
       else hm_get (dead_jobs s))"
    by (auto simp: s'_def delete_token_def bury_def requeue_token_def)
  ultimately show ?thesis
    using nack by (simp add: n_def Let_def)
qed

lemma demo_claimed_inv: "queue_inv demo_cfg (demo_claimed, {''t-b1''})"
  using demo_reach queue_steps_inv [OF _ queue_inv_empty demo_cfg_ok] by (simp add: queue_reachable_def)

definition demo_row :: job_row where
  "demo_row = \<lparr>job_body = ''{}'', job_state = Claimed, job_attempts = 0, job_available_at = 0,
     job_claimed_at = Some 1000, job_claim_token = Some ''t-b1''\<rparr>"

lemma demo_row_in: "(''b1'', demo_row) \<in> set (build_jobs demo_claimed)"
  "holds_claim (job_receipt demo_job) demo_row"
  by code_simp+

lemma nack_retries_then_buries_witness:
  "\<exists>s'. nack demo_cfg no_faults 5000 demo_job ''boom'' demo_claimed = (Inr (), s') \<and>
    (let n = job_attempts demo_row + 1; final = (n = int (cfg_max_attempts demo_cfg))
     in hm_get (build_jobs s') = (hm_get (build_jobs demo_claimed))(''b1'' :=
          if final then None
          else Some (demo_row\<lparr>job_state := Ready, job_attempts := n,
            job_available_at := 5000 + cfg_base_backoff_ms demo_cfg * n,
            job_claimed_at := None, job_claim_token := None\<rparr>)) \<and>
        hm_get (dead_jobs s') =
          (if final then (hm_get (dead_jobs demo_claimed))(''b1'' \<mapsto>
             \<lparr>dead_body = job_body demo_row, dead_attempts = n, dead_last_error = ''boom'', dead_died_at = 5000\<rparr>)
           else hm_get (dead_jobs demo_claimed)))"
  by (rule nack_retries_then_buries [OF demo_claimed_inv demo_cfg_ok demo_row_in])

lemma keys_update_where_set [simp]: "fst ` set (update_where P f jobs) = fst ` set jobs"
  by (simp flip: set_map)

lemma receive_keeps_jobs:
  "fst ` set (build_jobs (snd (receive cfg flt rand now s))) = fst ` set (build_jobs s)"
  "dead_jobs (snd (receive cfg flt rand now s)) = dead_jobs s"
  by (cases rule: receive_cases [of cfg flt rand now s]; simp add: claim_due_def reclaim_expired_def)+

lemma nack_keeps_jobs:
  assumes inv: "queue_inv cfg (s, T)"
  shows "fst ` set (build_jobs (snd (nack cfg flt' now' job error s))) \<union>
      fst ` set (dead_jobs (snd (nack cfg flt' now' job error s))) =
    fst ` set (build_jobs s) \<union> fst ` set (dead_jobs s)"
proof (cases rule: nack_cases [of cfg flt' now' job error s])
  case (buries b r)
  note r = find_row [OF buries(1), THEN conjunct1] find_row [OF buries(1), THEN conjunct2]
  have "fst ` set (build_jobs s) =
      insert b (fst ` set (build_jobs (delete_token (job_receipt job) (bury b r n error now' s))))" for n
  proof -
    have "b' \<in> fst ` set (filter (\<lambda>(_, r). job_claim_token r \<noteq> Some (job_receipt job)) (build_jobs s)) \<or> b' = b"
      if m: "(b', r') \<in> set (build_jobs s)" for b' r'
    proof (rule disjCI)
      assume "b' \<noteq> b"
      then have "job_claim_token r' \<noteq> Some (job_receipt job)"
        using holder_iff [OF inv r, of b' r'] m
        by (simp add: hm_get_eq_Some_iff [OF queue_invD(1) [OF inv]])
      with m show "b' \<in> fst ` set (filter (\<lambda>(_, r). job_claim_token r \<noteq> Some (job_receipt job)) (build_jobs s))"
        by (intro rev_image_eqI [of "(b', r')"]) simp_all
    qed
    moreover have "b \<in> fst ` set (build_jobs s)"
      using r(1) by (auto intro: rev_image_eqI)
    ultimately show ?thesis
      unfolding delete_token_def bury_def by (intro equalityI subsetI) (force, auto)
  qed
  then show ?thesis
    using buries(3) by (auto simp: delete_token_def bury_def)
next
  case (requeues b r)
  then show ?thesis
    by (simp add: requeue_token_def)
qed simp_all

text \<open>
  Neither claiming, nor reclaiming an expired lease, nor rejecting a delivery ever
  loses a job: the batches with a live or a dead job are the same before and after, whatever
  statement fails.
\<close>

theorem jobs_are_conserved:
  assumes inv: "queue_inv cfg (s, T)"
  shows "fst ` set (build_jobs (snd (receive cfg flt rand now s))) = fst ` set (build_jobs s) \<and>
    dead_jobs (snd (receive cfg flt rand now s)) = dead_jobs s \<and>
    fst ` set (build_jobs (snd (nack cfg flt' now' job error s))) \<union>
      fst ` set (dead_jobs (snd (nack cfg flt' now' job error s))) =
    fst ` set (build_jobs s) \<union> fst ` set (dead_jobs s)"
  by (intro conjI receive_keeps_jobs nack_keeps_jobs [OF inv])

lemma jobs_are_conserved_witness:
  "fst ` set (build_jobs (snd (receive demo_cfg no_faults (\<lambda>b. ''u-'' @ b) 900000 demo_claimed))) =
      fst ` set (build_jobs demo_claimed) \<and>
    dead_jobs (snd (receive demo_cfg no_faults (\<lambda>b. ''u-'' @ b) 900000 demo_claimed)) = dead_jobs demo_claimed \<and>
    fst ` set (build_jobs (snd (nack demo_cfg no_faults 5000 demo_job ''boom'' demo_claimed))) \<union>
      fst ` set (dead_jobs (snd (nack demo_cfg no_faults 5000 demo_job ''boom'' demo_claimed))) =
    fst ` set (build_jobs demo_claimed) \<union> fst ` set (dead_jobs demo_claimed)"
  by (rule jobs_are_conserved [OF demo_claimed_inv])


subsection \<open>Deliveries\<close>

definition deliverable :: "source_config \<Rightarrow> int \<Rightarrow> job_row \<Rightarrow> bool" where
  "deliverable cfg now r =
     ((job_state r = Ready \<or> lease_expired (now - cfg_lease_ms cfg) r) \<and> job_available_at r \<le> now)"

text \<open>
  A successful poll delivers exactly the jobs that are ready or whose lease has
  expired, and are due, each with its body and a receipt of its own that now holds the job; a
  job under a live lease is not delivered and keeps its row.
\<close>

theorem receive_delivers:
  assumes inv: "queue_inv cfg (s, T)"
    and fresh: "inj_on rand (fst ` set (build_jobs s))"
  shows "\<exists>jobs s'. receive cfg no_faults rand now s = (Inr jobs, s') \<and>
    distinct (map job_receipt jobs) \<and>
    set jobs = {\<lparr>job_receipt = rand b, bj_body = job_body r\<rparr> | b r.
      (b, r) \<in> set (build_jobs s) \<and> deliverable cfg now r} \<and>
    (\<forall>(b, r) \<in> set (build_jobs s).
       (deliverable cfg now r \<longrightarrow> has_claim (rand b) s') \<and>
       (job_state r = Claimed \<and> \<not> lease_expired (now - cfg_lease_ms cfg) r \<longrightarrow> (b, r) \<in> set (build_jobs s')))"
proof -
  let ?s1 = "reclaim_expired (now - cfg_lease_ms cfg) s"
  let ?reclaimed = "\<lambda>r. r\<lparr>job_state := Ready, job_claimed_at := None, job_claim_token := None\<rparr>"
  let ?row = "\<lambda>r. if lease_expired (now - cfg_lease_ms cfg) r then ?reclaimed r else r"
  obtain jobs s' where cl: "claim_due rand now ?s1 = (jobs, s')"
    by (cases "claim_due rand now ?s1")
  have rows: "(b, r') \<in> set (build_jobs ?s1) \<longleftrightarrow> (\<exists>r. (b, r) \<in> set (build_jobs s) \<and> r' = ?row r)" for b r'
    by (simp add: reclaim_expired_def in_update_where)
  have due: "job_due now (?row r) \<longleftrightarrow> deliverable cfg now r" for r
    by (auto simp: job_due_def deliverable_def lease_expired_def)
  have jobs: "jobs = map (\<lambda>(b, r). \<lparr>job_receipt = rand b, bj_body = job_body r\<rparr>)
      (filter (\<lambda>(b, r). job_due now r) (build_jobs ?s1))"
    and jobs': "build_jobs s' = update_where (job_due now)
        (\<lambda>b r. r\<lparr>job_state := Claimed, job_claimed_at := Some now, job_claim_token := Some (rand b)\<rparr>)
        (build_jobs ?s1)"
    using cl by (auto simp: claim_due_def)
  have "receive cfg no_faults rand now s = (Inr jobs, s')"
    by (simp add: receive_def cl in_tx_def)
  moreover have "distinct (map job_receipt jobs)"
  proof -
    have "hm_ok (build_jobs ?s1)"
      by (rule queue_invD(1) [OF queue_inv_reclaim [OF inv]])
    then have "distinct (map fst (filter (\<lambda>(b, r). job_due now r) (build_jobs ?s1)))"
      by (simp add: hm_ok_def distinct_map_filter)
    moreover have "fst ` set (filter (\<lambda>(b, r). job_due now r) (build_jobs ?s1)) \<subseteq> fst ` set (build_jobs s)"
      using keys_reclaim [of "now - cfg_lease_ms cfg" s] by (metis filter_is_subset image_mono)
    ultimately have "distinct (map rand (map fst (filter (\<lambda>(b, r). job_due now r) (build_jobs ?s1))))"
      using inj_on_subset [OF fresh] by (simp only: distinct_map [of rand] set_map)
    then show ?thesis
      by (simp add: jobs comp_def case_prod_beta)
  qed
  moreover have "set jobs = {\<lparr>job_receipt = rand b, bj_body = job_body r\<rparr> | b r.
      (b, r) \<in> set (build_jobs s) \<and> deliverable cfg now r}" (is "_ = ?J")
  proof -
    have "x \<in> set jobs \<longleftrightarrow> (\<exists>b r. (b, r) \<in> set (build_jobs s) \<and> deliverable cfg now r \<and>
        x = \<lparr>job_receipt = rand b, bj_body = job_body r\<rparr>)" for x
    proof -
      have body: "job_body (?row r) = job_body r" for r
        by simp
      have "x \<in> set jobs \<longleftrightarrow> (\<exists>b r'. (b, r') \<in> set (build_jobs ?s1) \<and> job_due now r' \<and>
          x = \<lparr>job_receipt = rand b, bj_body = job_body r'\<rparr>)"
        unfolding jobs by auto
      also have "\<dots> \<longleftrightarrow> (\<exists>b r. (b, r) \<in> set (build_jobs s) \<and> job_due now (?row r) \<and>
          x = \<lparr>job_receipt = rand b, bj_body = job_body (?row r)\<rparr>)"
        unfolding rows by blast
      finally show ?thesis
        unfolding due body .
    qed
    then show ?thesis
      by (intro set_eqI) (simp only: mem_Collect_eq, metis)
  qed
  moreover have "has_claim (rand b) s'" if "(b, r) \<in> set (build_jobs s)" "deliverable cfg now r" for b r
  proof -
    have "(b, ?row r) \<in> set (build_jobs ?s1)" "job_due now (?row r)"
      using that rows due by blast+
    then have "(b, (?row r)\<lparr>job_state := Claimed, job_claimed_at := Some now, job_claim_token := Some (rand b)\<rparr>)
        \<in> set (build_jobs s')"
      unfolding jobs' in_update_where by (intro exI [of _ "?row r"]) simp
    then show ?thesis
      by (force simp: has_claim_def holds_claim_def)
  qed
  moreover have "(b, r) \<in> set (build_jobs s')"
    if "(b, r) \<in> set (build_jobs s)" "job_state r = Claimed" "\<not> lease_expired (now - cfg_lease_ms cfg) r" for b r
  proof -
    have "(b, r) \<in> set (build_jobs ?s1)" "\<not> job_due now r"
      using that rows [of b r] by (auto simp: job_due_def)
    then show ?thesis
      unfolding jobs' in_update_where by (intro exI [of _ r]) simp
  qed
  ultimately show ?thesis
    by (intro exI [of _ jobs] exI [of _ s']) blast
qed

lemma receive_delivers_witness:
  "\<exists>jobs s'. receive demo_cfg no_faults (\<lambda>b. ''u-'' @ b) 301000 demo_claimed = (Inr jobs, s') \<and>
    distinct (map job_receipt jobs) \<and>
    set jobs = {\<lparr>job_receipt = ''u-'' @ b, bj_body = job_body r\<rparr> | b r.
      (b, r) \<in> set (build_jobs demo_claimed) \<and> deliverable demo_cfg 301000 r} \<and>
    (\<forall>(b, r) \<in> set (build_jobs demo_claimed).
       (deliverable demo_cfg 301000 r \<longrightarrow> has_claim (''u-'' @ b) s') \<and>
       (job_state r = Claimed \<and> \<not> lease_expired (301000 - cfg_lease_ms demo_cfg) r \<longrightarrow>
          (b, r) \<in> set (build_jobs s')))"
  by (rule receive_delivers [OF demo_claimed_inv, of "\<lambda>b. ''u-'' @ b"]) (simp add: inj_on_def)

text \<open>
  Enqueueing a batch again while a worker holds its job keeps the old token in the row: the
  upsert resets every other column. The row is ready, so the token holds nothing.
\<close>

lemma reenqueue_keeps_token:
  "map (\<lambda>(b, r). (job_state r, job_claim_token r))
     (build_jobs (snd (sqlite_enqueue (\<lambda>_. Some ''{}'') no_faults demo_batch demo_claimed)))
   = [(Ready, Some ''t-b1'')]"
  by code_simp

end
