(* ===== verification/Build_Worker.thy ===== *)
theory Build_Worker
  imports Publisher Snapshot Sqlite_Queue
begin

text \<open>
  The build worker (\<^verbatim>\<open>src/build_lambda.rs\<close>, \<^verbatim>\<open>src/build_worker.rs\<close>, \<^verbatim>\<open>src/http/build.rs\<close> and
  the build and publish closures of \<^verbatim>\<open>src/app.rs\<close>): a queued job becomes a full snapshot
  build under the version after the current head, published by compare-and-swap, retried
  once on a conflict; then the job is acknowledged or rejected.
\<close>


section \<open>Requests and errors\<close>

record build_request =
  brq_batch_id :: string
  brq_wal_key :: string
  brq_version_id :: u64
  brq_embedding_dim :: nat

record build_response =
  resp_activated_version_id :: u64
  resp_previous_version_id :: "u64 option"
  resp_document_count :: nat

record build_lambda_error =
  ble_type :: string
  ble_message :: string

definition lambda_error_of_index :: "index_error \<Rightarrow> build_lambda_error" where
  "lambda_error_of_index e =
     (case e of
        IndexValidation v \<Rightarrow> \<lparr>ble_type = ''build_error'', ble_message = show_validation_error v\<rparr>
      | IndexOperation m \<Rightarrow> \<lparr>ble_type = ''build_error'', ble_message = show_index_error (IndexOperation m)\<rparr>)"

definition lambda_error_of_publish :: "publish_error \<Rightarrow> build_lambda_error" where
  "lambda_error_of_publish e =
     (case e of
        PublishValidation v \<Rightarrow> \<lparr>ble_type = ''publish_error'', ble_message = show_validation_error v\<rparr>
      | PublishOperation m \<Rightarrow> \<lparr>ble_type = ''publish_error'', ble_message = show_publish_error (PublishOperation m)\<rparr>)"

definition handle_build_request ::
  "('r \<Rightarrow> 's \<Rightarrow> (index_error + build_index_result) \<times> 's) \<Rightarrow>
   (index_manifest \<Rightarrow> 's \<Rightarrow> (publish_error + publish_result) \<times> 's) \<Rightarrow> 'r \<Rightarrow> 's \<Rightarrow>
   (build_lambda_error + build_response) \<times> 's" where
  "handle_build_request build_handler publish_handler request s =
     (case build_handler request s of
        (Inl e, s1) \<Rightarrow> (Inl (lambda_error_of_index e), s1)
      | (Inr built, s1) \<Rightarrow>
          (case publish_handler (br_manifest built) s1 of
             (Inl e, s2) \<Rightarrow> (Inl (lambda_error_of_publish e), s2)
           | (Inr published, s2) \<Rightarrow>
               (Inr \<lparr>resp_activated_version_id = activated_version_id published,
                  resp_previous_version_id = previous_version_id published,
                  resp_document_count = length (br_documents built)\<rparr>, s2)))"

record snapshot_build_request =
  sbr_batch_id :: string
  sbr_wal_keys :: "string list"
  sbr_version_id :: u64
  sbr_embedding_dim :: nat

text \<open>The closures of a server; the number tells the calls of one job apart (their clock and faults).\<close>

record 's build_state =
  bs_build :: "nat \<Rightarrow> snapshot_build_request \<Rightarrow> 's \<Rightarrow> (index_error + build_index_result) \<times> 's"
  bs_publish :: "nat \<Rightarrow> index_manifest \<Rightarrow> u64 option \<Rightarrow> 's \<Rightarrow> (publish_error + publish_result) \<times> 's"

definition run_build ::
  "'s build_state \<Rightarrow> nat \<Rightarrow> snapshot_build_request \<Rightarrow> u64 option \<Rightarrow> 's \<Rightarrow> (build_lambda_error + build_response) \<times> 's" where
  "run_build st n request expected =
     handle_build_request (bs_build st n) (\<lambda>manifest. bs_publish st n manifest expected) request"

datatype http_build_response = BuildJson build_response | BuildErrorResponse nat string string

definition status_code_for_error_type :: "string \<Rightarrow> nat" where
  "status_code_for_error_type t =
     (if t = ''validation_error'' then 400 else if t = ''not_found'' then 404 else 500)"

definition error_response :: "string \<Rightarrow> string \<Rightarrow> http_build_response" where
  "error_response t m = BuildErrorResponse (status_code_for_error_type t) t m"

definition handle_build ::
  "(string \<Rightarrow> string + build_request) \<Rightarrow> 's build_state \<Rightarrow> string \<Rightarrow> 's \<Rightarrow> http_build_response \<times> 's" where
  "handle_build de st body s =
     (case de body of
        Inl m \<Rightarrow> (error_response ''validation_error'' (msg [''failed to deserialize build request: '', m]), s)
      | Inr r \<Rightarrow>
          (case run_build st 0 \<lparr>sbr_batch_id = brq_batch_id r, sbr_wal_keys = [brq_wal_key r],
                   sbr_version_id = brq_version_id r, sbr_embedding_dim = brq_embedding_dim r\<rparr> None s of
             (Inr resp, s1) \<Rightarrow> (BuildJson resp, s1)
           | (Inl e, s1) \<Rightarrow> (error_response (ble_type e) (ble_message e), s1)))"


section \<open>Processing a job\<close>

record queue_build_message =
  qm_batch_id :: string
  qm_wal_key :: string

definition next_version_id ::
  "'s publish_ops \<Rightarrow> (string \<Rightarrow> string + manifest_head) \<Rightarrow> 's \<Rightarrow> string + u64 \<times> u64 option" where
  "next_version_id ops de s =
     and_then (map_err (\<lambda>e. msg [''failed to read index head: '', show_publish_error e])
         (op_read ops INDEX_HEAD_KEY s)) (\<lambda>obj.
       case obj of
         None \<Rightarrow> Inr (1, None)
       | Some ob \<Rightarrow>
           map_ok (\<lambda>head. (mh_version_id head + 1, Some (mh_version_id head)))
             (map_err (\<lambda>e. msg [''failed to parse index head: '', show_head_error e])
               (manifest_head_from_json de (vo_bytes ob))))"

text \<open>\<^verbatim>\<open>str::parse::<usize>\<close>, with the messages of \<^verbatim>\<open>ParseIntError\<close>; \<open>dbg\<close> is \<^verbatim>\<open>{:?}\<close> of a string.\<close>

definition parse_usize :: "string \<Rightarrow> string + nat" where
  "parse_usize s =
     (let digits = (case s of CHR ''+'' # cs \<Rightarrow> cs | _ \<Rightarrow> s)
      in if s = [] then Inl ''cannot parse integer from empty string''
         else if digits = [] \<or> (\<exists>c \<in> set digits. digit_value c = None) then
           (case parse_digits (2 ^ 64) 0 (takeWhile (\<lambda>c. digit_value c \<noteq> None) digits) of
              None \<Rightarrow> Inl ''number too large to fit in target type''
            | Some _ \<Rightarrow> Inl ''invalid digit found in string'')
         else case parse_digits (2 ^ 64) 0 digits of
           None \<Rightarrow> Inl ''number too large to fit in target type''
         | Some n \<Rightarrow> Inr n)"

definition embedding_dim_from_env :: "(string \<Rightarrow> string) \<Rightarrow> string option \<Rightarrow> string + nat" where
  "embedding_dim_from_env dbg var =
     (case var of
        Some value \<Rightarrow>
          map_err (\<lambda>e. msg [''invalid LTSEARCH_BUILD_EMBEDDING_DIM='', dbg value, '': '', e])
            (parse_usize (str_trim value))
      | None \<Rightarrow> Inl ''missing LTSEARCH_BUILD_EMBEDDING_DIM'')"

definition ascii_lower :: "char \<Rightarrow> char" where
  "ascii_lower c = (let n = of_char c :: nat in if 65 \<le> n \<and> n \<le> 90 then char_of (n + 32) else c)"

definition parse_worker_enabled :: "string option \<Rightarrow> bool" where
  "parse_worker_enabled raw =
     (map_option (\<lambda>v. map ascii_lower (str_trim v)) raw \<notin>
        {Some ''0'', Some ''false'', Some ''no'', Some ''off''})"

definition is_publish_cas_conflict :: "build_lambda_error \<Rightarrow> bool" where
  "is_publish_cas_conflict e =
     (ble_type e = ''publish_error'' \<and> str_contains (ble_message e) ''publish conflict'')"

text \<open>\<^verbatim>\<open>Vec::dedup\<close>: of equal neighbours the first is kept.\<close>

fun dedup :: "'a list \<Rightarrow> 'a list" where
  "dedup [] = []"
| "dedup [x] = [x]"
| "dedup (x # y # xs) = (if x = y then dedup (x # xs) else x # dedup (y # xs))"

definition snapshot_wal_keys :: "string list \<Rightarrow> string \<Rightarrow> string list" where
  "snapshot_wal_keys listed message_wal_key =
     dedup (sort (if message_wal_key \<in> set listed then listed else listed @ [message_wal_key]))"

definition snapshot_request :: "queue_build_message \<Rightarrow> string list \<Rightarrow> u64 \<Rightarrow> nat \<Rightarrow> snapshot_build_request" where
  "snapshot_request m wal_keys v edim =
     \<lparr>sbr_batch_id = qm_batch_id m, sbr_wal_keys = wal_keys, sbr_version_id = v, sbr_embedding_dim = edim\<rparr>"

definition show_lambda_error :: "build_lambda_error \<Rightarrow> string" where
  "show_lambda_error e = msg [ble_type e, '': '', ble_message e]"

text \<open>What a worker is started with, besides the job source.\<close>

record 's worker =
  wk_state :: "'s build_state"
  wk_ops :: "nat \<Rightarrow> 's publish_ops"
  wk_list_wal_keys :: "'s \<Rightarrow> string + string list"
  wk_de_message :: "string \<Rightarrow> string + queue_build_message"
  wk_de_head :: "string \<Rightarrow> string + manifest_head"
  wk_dbg :: "string \<Rightarrow> string"
  wk_dim_env :: "string option"

definition prepare_message ::
  "'s worker \<Rightarrow> string \<Rightarrow> 's \<Rightarrow> string + queue_build_message \<times> nat \<times> string list" where
  "prepare_message w body s =
     and_then (map_err (\<lambda>e. msg [''failed to parse queue message: '', e]) (wk_de_message w body)) (\<lambda>m.
     and_then (embedding_dim_from_env (wk_dbg w) (wk_dim_env w)) (\<lambda>edim.
     map_ok (\<lambda>listed. (m, edim, snapshot_wal_keys listed (qm_wal_key m)))
       (map_err (\<lambda>e. msg [''failed to list WAL segments: '', e]) (wk_list_wal_keys w s))))"

definition attempt ::
  "'s worker \<Rightarrow> nat \<Rightarrow> queue_build_message \<times> nat \<times> string list \<Rightarrow> 's \<Rightarrow>
   (string + build_lambda_error + build_response) \<times> 's" where
  "attempt w n = (\<lambda>(m, edim, keys) s.
     case next_version_id (wk_ops w n) (wk_de_head w) s of
       Inl e \<Rightarrow> (Inl e, s)
     | Inr (v, expected) \<Rightarrow>
         map_prod Inr id (run_build (wk_state w) n (snapshot_request m keys v edim) expected s))"

definition process_queue_message :: "'s worker \<Rightarrow> string \<Rightarrow> 's \<Rightarrow> (string + u64) \<times> 's" where
  "process_queue_message w body s =
     (case prepare_message w body s of
        Inl e \<Rightarrow> (Inl e, s)
      | Inr prep \<Rightarrow>
          (case attempt w 0 prep s of
             (Inl e, s1) \<Rightarrow> (Inl e, s1)
           | (Inr (Inr resp), s1) \<Rightarrow> (Inr (resp_activated_version_id resp), s1)
           | (Inr (Inl e), s1) \<Rightarrow>
               if is_publish_cas_conflict e then
                 (case attempt w 1 prep s1 of
                    (Inl e, s2) \<Rightarrow> (Inl e, s2)
                  | (Inr r, s2) \<Rightarrow> (map_err show_lambda_error (map_ok resp_activated_version_id r), s2))
               else (Inl (show_lambda_error e), s1)))"


section \<open>The job loop\<close>

text \<open>A job source; the number tells the calls of one pass apart.\<close>

record 's job_source =
  src_receive :: "'s \<Rightarrow> (string + build_job list) \<times> 's"
  src_ack :: "nat \<Rightarrow> build_job \<Rightarrow> 's \<Rightarrow> (string + unit) \<times> 's"
  src_nack :: "nat \<Rightarrow> build_job \<Rightarrow> string \<Rightarrow> 's \<Rightarrow> (string + unit) \<times> 's"

fun settle_jobs ::
  "(nat \<Rightarrow> string \<Rightarrow> 's \<Rightarrow> (string + u64) \<times> 's) \<Rightarrow> 's job_source \<Rightarrow> nat \<Rightarrow> build_job list \<Rightarrow> nat \<Rightarrow> 's \<Rightarrow> nat \<times> 's" where
  "settle_jobs process source n [] settled s = (settled, s)"
| "settle_jobs process source n (job # jobs) settled s =
     (case process n (bj_body job) s of
        (outcome, s1) \<Rightarrow>
          (case (case outcome of Inr _ \<Rightarrow> src_ack source n job s1 | Inl e \<Rightarrow> src_nack source n job e s1) of
             (signal, s2) \<Rightarrow>
               settle_jobs process source (Suc n) jobs (if is_ok signal then Suc settled else settled) s2))"

definition run_build_job_loop_once ::
  "(nat \<Rightarrow> string \<Rightarrow> 's \<Rightarrow> (string + u64) \<times> 's) \<Rightarrow> 's job_source \<Rightarrow> 's \<Rightarrow> nat \<times> 's" where
  "run_build_job_loop_once process source s =
     (case src_receive source s of
        (Inl e, s1) \<Rightarrow> (0, s1)
      | (Inr jobs, s1) \<Rightarrow> settle_jobs process source 0 jobs 0 s1)"


section \<open>The local closures\<close>

text \<open>What the local process gets from its environment, and the libraries it calls.\<close>

record 'f local_node =
  nd_root :: string
  nd_os :: "'f os_ops"
  nd_depth :: nat
  nd_walk_fuel :: nat
  nd_libs :: "'f build_libs"
  nd_embedder :: "string + (string \<Rightarrow> string + f32 list)"
  nd_source :: "'f \<Rightarrow> src_ops"
  nd_iter :: "(string, wal_record) hmap \<Rightarrow> (string, wal_record) hmap"
  nd_metadata_len :: "metadata \<Rightarrow> nat option"
  nd_de_record :: "string \<Rightarrow> string + wal_record"
  nd_utf8_msg :: "string \<Rightarrow> string"
  nd_ser_manifest :: "index_manifest \<Rightarrow> string + string"
  nd_de_manifest :: "string \<Rightarrow> string + index_manifest"
  nd_ser_head :: "manifest_head \<Rightarrow> string"
  nd_de_head :: "string \<Rightarrow> string + manifest_head"
  nd_pid :: nat
  nd_nonce :: "nat \<Rightarrow> nat"
  nd_now :: "nat \<Rightarrow> int"
  nd_sql :: "nat \<Rightarrow> sql_faults"
  nd_env :: "nat \<Rightarrow> nat \<Rightarrow> 'f local_store \<Rightarrow> 'f local_store"

definition staging_dir :: "string \<Rightarrow> string" where
  "staging_dir base = path_join base ''staging''"

fun read_segments :: "'f local_node \<Rightarrow> nat \<Rightarrow> string list \<Rightarrow> db \<Rightarrow> index_error + wal_record list" where
  "read_segments nd n [] d = Inr []"
| "read_segments nd n (k # ks) d =
     and_then (map_err (\<lambda>e. IndexOperation (msg [''failed to read WAL records from '', k, '': '', show_ingest_error e]))
         (wal_read (nd_metadata_len nd) (nd_de_record nd) (nd_utf8_msg nd) (sqlite_wal_read (nd_sql nd n)) k d))
       (\<lambda>segment. map_ok (\<lambda>rest. segment @ rest) (read_segments nd n ks d))"

definition local_build_closure ::
  "'f local_node \<Rightarrow> nat \<Rightarrow> snapshot_build_request \<Rightarrow> 'f local_store \<Rightarrow>
   (index_error + build_index_result) \<times> 'f local_store" where
  "local_build_closure nd n request s =
     (case and_then (read_segments nd n (sbr_wal_keys request) (ls_db s)) (\<lambda>records.
             map_ok (Pair records) (map_err IndexOperation (nd_embedder nd))) of
        Inl e \<Rightarrow> (Inl e, s)
      | Inr (records, gen) \<Rightarrow>
          on_fs (build_index (nd_iter nd) (nd_metadata_len nd) (nd_os nd) ((nd_libs nd)\<lparr>lib_embed := gen\<rparr>)
              (nd_ser_manifest nd) (staging_dir (nd_root nd)) (nd_pid nd) (nd_nonce nd n)
              \<lparr>bi_version_id = sbr_version_id request, bi_created_at = nd_now nd n,
               bi_embedding_dim = sbr_embedding_dim request, bi_records = records\<rparr>) s)"

definition node_ops :: "'f local_node \<Rightarrow> nat \<Rightarrow> 'f local_store publish_ops" where
  "node_ops nd n = local_publish_ops (nd_sql nd n) (nd_os nd) (nd_depth nd) (nd_root nd)"

definition local_publish_closure ::
  "'f local_node \<Rightarrow> nat \<Rightarrow> index_manifest \<Rightarrow> u64 option \<Rightarrow> 'f local_store \<Rightarrow>
   (publish_error + publish_result) \<times> 'f local_store" where
  "local_publish_closure nd n manifest expected s =
     publish (nd_env nd n) (node_ops nd n) (nd_source nd (ls_fs s)) (nd_walk_fuel nd) (nd_de_head nd)
       (nd_ser_head nd) (nd_de_manifest nd) (staging_dir (nd_root nd))
       \<lparr>pr_manifest = manifest, pr_expected_current_version = expected, pr_updated_at = nd_now nd n\<rparr> s"

definition local_build_state :: "'f local_node \<Rightarrow> 'f local_store build_state" where
  "local_build_state nd = \<lparr>bs_build = local_build_closure nd, bs_publish = local_publish_closure nd\<rparr>"

definition local_worker ::
  "'f local_node \<Rightarrow> (string \<Rightarrow> string + queue_build_message) \<Rightarrow> (string \<Rightarrow> string) \<Rightarrow> string option \<Rightarrow>
   'f local_store worker" where
  "local_worker nd de dbg dim_env =
     \<lparr>wk_state = local_build_state nd, wk_ops = node_ops nd,
      wk_list_wal_keys = (\<lambda>s. sqlite_list_wal_keys (nd_sql nd 0) (ls_db s)), wk_de_message = de,
      wk_de_head = nd_de_head nd, wk_dbg = dbg, wk_dim_env = dim_env\<rparr>"

definition local_job_source ::
  "source_config \<Rightarrow> (nat \<Rightarrow> sql_faults) \<Rightarrow> (string \<Rightarrow> string) \<Rightarrow> (nat \<Rightarrow> int) \<Rightarrow> 'f local_store job_source" where
  "local_job_source cfg flt rand now =
     \<lparr>src_receive = on_db (receive cfg (flt 0) rand (now 0)),
      src_ack = (\<lambda>n job. on_db (ack (flt (Suc n)) job)),
      src_nack = (\<lambda>n job error. on_db (nack cfg (flt (Suc n)) (now (Suc n)) job error))\<rparr>"


section \<open>What a job is built from\<close>

lemma set_dedup [simp]: "set (dedup xs) = set xs"
  by (induction xs rule: dedup.induct) auto

lemma sorted_dedup: "sorted xs \<Longrightarrow> sorted (dedup xs) \<and> distinct (dedup xs)"
proof (induction xs rule: dedup.induct)
  case (3 x y xs)
  show ?case
  proof (cases "x = y")
    case False
    then have "x < y" "x \<notin> set (dedup (y # xs))"
      using 3(3) by force+
    then show ?thesis
      using 3(2) [OF False] 3(3) False by simp
  qed (use 3 in simp)
qed simp_all

text \<open>
  The input of a snapshot build is the set of listed segments together with the one of
  the job that triggered it, each once and in ascending order of the keys.
\<close>

theorem snapshot_keys_complete:
  "set (snapshot_wal_keys listed key) = insert key (set listed) \<and>
   sorted (snapshot_wal_keys listed key) \<and> distinct (snapshot_wal_keys listed key)"
proof -
  have "sorted (sort (if key \<in> set listed then listed else listed @ [key]))"
    by simp
  from sorted_dedup [OF this] show ?thesis
    by (auto simp: snapshot_wal_keys_def)
qed


section \<open>The worker publishes the successor of the head\<close>

text \<open>What a server relies on of its closures: a build and its publication keep the version.\<close>

locale build_backend =
  fixes st :: "'s build_state"
  assumes builds_version: "bs_build st n request s = (Inr res, s1) \<Longrightarrow>
      version_id (br_manifest res) = sbr_version_id request"
    and publishes_version: "bs_publish st n manifest expected s2 = (Inr pub, s3) \<Longrightarrow>
      activated_version_id pub = version_id manifest"
begin

lemma run_build_version:
  assumes "run_build st n request expected s = (Inr resp, s')"
  obtains built s1 pub where "bs_build st n request s = (Inr built, s1)"
    "bs_publish st n (br_manifest built) expected s1 = (Inr pub, s')"
    "resp_activated_version_id resp = sbr_version_id request"
    "resp_previous_version_id resp = previous_version_id pub"
proof -
  obtain built s1 pub where *: "bs_build st n request s = (Inr built, s1)"
    "bs_publish st n (br_manifest built) expected s1 = (Inr pub, s')"
    "resp = \<lparr>resp_activated_version_id = activated_version_id pub,
       resp_previous_version_id = previous_version_id pub, resp_document_count = length (br_documents built)\<rparr>"
    using assms unfolding run_build_def handle_build_request_def
    by (auto split: sum.splits prod.splits)
  show thesis
    by (rule that [OF *(1,2)]) (simp_all add: *(3) publishes_version [OF *(2)] builds_version [OF *(1)])
qed

end

lemma process_ok:
  assumes "process_queue_message w body s = (Inr v, s')"
  obtains n m edim keys s1 u expected resp where "prepare_message w body s = Inr (m, edim, keys)"
    "next_version_id (wk_ops w n) (wk_de_head w) s1 = Inr (u, expected)"
    "run_build (wk_state w) n (snapshot_request m keys u edim) expected s1 = (Inr resp, s')"
    "v = resp_activated_version_id resp"
    "n = 0 \<and> s1 = s \<or>
     n = 1 \<and> (\<exists>e. attempt w 0 (m, edim, keys) s = (Inr (Inl e), s1) \<and> is_publish_cas_conflict e)"
proof -
  obtain prep where prep: "prepare_message w body s = Inr prep"
    using assms by (auto simp: process_queue_message_def split: sum.splits)
  obtain m edim keys where p: "prep = (m, edim, keys)"
    by (cases prep)
  have att: "\<exists>u expected. next_version_id (wk_ops w n) (wk_de_head w) s1 = Inr (u, expected) \<and>
      run_build (wk_state w) n (snapshot_request m keys u edim) expected s1 = (Inr resp, s2)"
    if "attempt w n prep s1 = (Inr (Inr resp), s2)" for n s1 s2 resp
    using that by (auto simp: attempt_def p map_prod_def split: sum.splits prod.splits)
  consider (first) resp where "attempt w 0 prep s = (Inr (Inr resp), s')" "v = resp_activated_version_id resp"
    | (second) e s1 resp where "attempt w 0 prep s = (Inr (Inl e), s1)" "is_publish_cas_conflict e"
        "attempt w 1 prep s1 = (Inr (Inr resp), s')" "v = resp_activated_version_id resp"
    using assms prep by (auto simp: process_queue_message_def result_simps split: sum.splits prod.splits if_splits)
  then show thesis
  proof cases
    case first
    then show ?thesis
      using that [of m edim keys 0 s] prep p att [OF first(1)] by blast
  next
    case second
    then show ?thesis
      using that [of m edim keys 1 s1] prep p att [OF second(3)] by blast
  qed
qed


lemma local_publish_version:
  assumes "local_publish_closure nd n manifest expected s = (Inr pub, s')"
  shows "activated_version_id pub = version_id manifest"
    and "previous_version_id pub = expected \<or> expected = None"
proof -
  have p: "is_pointer_key INDEX_HEAD_KEY"
    by (simp add: is_pointer_key_def)
  define request where "request = \<lparr>pr_manifest = manifest, pr_expected_current_version = expected,
    pr_updated_at = nd_now nd n\<rparr>"
  obtain current s1 where r:
    "read_current_head (local_publish_ops (nd_sql nd n) (nd_os nd) (nd_depth nd) (nd_root nd)) (nd_de_head nd)
       (nd_env nd n 0 s) = Inr current"
    "publish_checks request (map_option snd current) = Inr ()"
    "op_cas (local_publish_ops (nd_sql nd n) (nd_os nd) (nd_depth nd) (nd_root nd)) INDEX_HEAD_KEY
       (map_option (vo_etag \<circ> fst) current)
       (nd_ser_head nd (manifest_head_new (version_id (pr_manifest request)) (pr_updated_at request))) s1 = (Inr True, s')"
    "pub = \<lparr>activated_version_id = version_id (pr_manifest request),
       previous_version_id = map_option (mh_version_id \<circ> snd) current\<rparr>"
    "index_manifest_validate (pr_manifest request) = Inr ()" "\<not> pr_updated_at request < MIN_PLAUSIBLE_EPOCH_MILLIS"
    by (rule local_pub.publish_ok [OF p assms [unfolded local_publish_closure_def node_ops_def, folded request_def]])
  note * = r(2,4)
  show "activated_version_id pub = version_id manifest"
    using *(2) by (simp add: request_def)
  show "previous_version_id pub = expected \<or> expected = None"
    using * unfolding request_def by (cases expected) (auto simp: publish_checks_def result_simps option.map_comp split: if_splits)
qed

text \<open>What a build puts into the staging area of a node: the files of exactly these documents and this manifest.\<close>

definition build_wrote :: "'f local_node \<Rightarrow> nat \<Rightarrow> document list \<Rightarrow> index_manifest \<Rightarrow> 'f \<Rightarrow> 'f \<Rightarrow> bool" where
  "build_wrote nd n docs manifest fs fs' \<longleftrightarrow>
     (\<exists>sb fs1 fs2 fs3 fs4 fs5.
        staged_build_new (nd_os nd) (staging_dir (nd_root nd)) (nd_pid nd) (nd_nonce nd n) (version_id manifest) fs =
          (Inr sb, fs1) \<and>
        lib_write_lance (nd_libs nd) (staged_lance_dir sb) docs (embedding_dim manifest) fs1 = (Inr (), fs2) \<and>
        lib_write_keyword (nd_libs nd) (staged_index_dir sb) docs fs2 = (Inr (), fs3) \<and>
        write_json_file (nd_os nd) (nd_ser_manifest nd) (staged_manifest_path sb) manifest fs3 = (Inr (), fs4) \<and>
        all_moved (nd_os nd) (staged_moves sb) fs4 = Some fs5 \<and>
        remove_dir_all_if_exists (nd_os nd) (sb_dir sb) fs5 = (Inr (), fs'))"

lemma commit_moves_all:
  "commit_moves os staged moved moves fs = (Inr u, fs') \<Longrightarrow>
     \<exists>fs1. all_moved os moves fs = Some fs1 \<and> remove_dir_all_if_exists os staged fs1 = (Inr (), fs')"
  by (induction os staged moved moves fs rule: commit_moves.induct) (auto split: prod.splits sum.splits)

lemma build_index_wrote:
  assumes "build_index iter mlen (nd_os nd) ((nd_libs nd)\<lparr>lib_embed := gen\<rparr>) (nd_ser_manifest nd)
      (staging_dir (nd_root nd)) (nd_pid nd) (nd_nonce nd n) request fs = (Inr res, fs')"
  shows "build_wrote nd n (br_documents res) (br_manifest res) fs fs'"
proof -
  obtain docs manifest where p: "prepare_build iter mlen gen request = Inr (docs, manifest)"
    and res: "res = \<lparr>br_manifest = manifest, br_documents = docs\<rparr>"
    using assms by (auto simp: build_index_def split: sum.splits prod.splits)
  obtain sb fs0 where st: "stage_build (nd_os nd) ((nd_libs nd)\<lparr>lib_embed := gen\<rparr>) (nd_ser_manifest nd)
      (staging_dir (nd_root nd)) (nd_pid nd) (nd_nonce nd n) (bi_version_id request) docs manifest fs = (Inr sb, fs0)"
    and pub: "publish_staged_build (nd_os nd) ((nd_libs nd)\<lparr>lib_embed := gen\<rparr>) sb fs0 = (Inr (), fs')"
    using assms by (auto simp: build_index_def p split: sum.splits prod.splits)
  have v: "version_id manifest = bi_version_id request"
    using prepare_build_ok(2) [OF p] .
  obtain fs1 where 1: "staged_build_new (nd_os nd) (staging_dir (nd_root nd)) (nd_pid nd) (nd_nonce nd n)
      (bi_version_id request) fs = (Inr sb, fs1)"
    and w: "write_staged_build (nd_os nd) ((nd_libs nd)\<lparr>lib_embed := gen\<rparr>) (nd_ser_manifest nd) sb docs manifest fs1 = (Inr (), fs0)"
    using st by (auto simp: stage_build_def split: sum.splits prod.splits)
  obtain fs2 fs3 where 2: "lib_write_lance (nd_libs nd) (staged_lance_dir sb) docs (embedding_dim manifest) fs1 = (Inr (), fs2)"
    "lib_write_keyword (nd_libs nd) (staged_index_dir sb) docs fs2 = (Inr (), fs3)"
    "write_json_file (nd_os nd) (nd_ser_manifest nd) (staged_manifest_path sb) manifest fs3 = (Inr (), fs0)"
    using w by (auto simp: write_staged_build_def split: sum.splits prod.splits)
  obtain fs5 where 3: "all_moved (nd_os nd) (staged_moves sb) fs0 = Some fs5"
    "remove_dir_all_if_exists (nd_os nd) (sb_dir sb) fs5 = (Inr (), fs')"
    using pub commit_moves_all [of "nd_os nd" "sb_dir sb" "[]" "staged_moves sb" fs0 "()" fs']
    by (auto simp: publish_staged_build_def staged_moves_def simp del: commit_moves.simps all_moved.simps
        split: option.splits sum.splits prod.splits)
  show ?thesis
    unfolding build_wrote_def res using 1 2 3 v by auto
qed

text \<open>What one read of the log gives: the records of every segment, in the order of the keys.\<close>

definition segments_read :: "'f local_node \<Rightarrow> nat \<Rightarrow> string list \<Rightarrow> db \<Rightarrow> wal_record list \<Rightarrow> bool" where
  "segments_read nd n keys d records \<longleftrightarrow>
     (\<exists>segs. list_all2 (\<lambda>k seg. wal_read (nd_metadata_len nd) (nd_de_record nd) (nd_utf8_msg nd)
          (sqlite_wal_read (nd_sql nd n)) k d = Inr seg) keys segs \<and>
        records = concat segs)"

lemma read_segments_all: "read_segments nd n keys d = Inr records \<Longrightarrow> segments_read nd n keys d records"
proof (induction keys arbitrary: records)
  case (Cons k ks)
  then obtain seg rest where "wal_read (nd_metadata_len nd) (nd_de_record nd) (nd_utf8_msg nd)
      (sqlite_wal_read (nd_sql nd n)) k d = Inr seg" "read_segments nd n ks d = Inr rest" "records = seg @ rest"
    by (auto simp: result_simps)
  moreover from this obtain segs where "list_all2 (\<lambda>k seg. wal_read (nd_metadata_len nd) (nd_de_record nd) (nd_utf8_msg nd)
      (sqlite_wal_read (nd_sql nd n)) k d = Inr seg) ks segs" "rest = concat segs"
    using Cons.IH unfolding segments_read_def by blast
  ultimately show ?case
    unfolding segments_read_def by (intro exI [of _ "seg # segs"]) simp
qed (simp add: segments_read_def)

lemma local_build_ok:
  assumes "local_build_closure nd n request s = (Inr res, s')"
  obtains records gen where "read_segments nd n (sbr_wal_keys request) (ls_db s) = Inr records"
    "prepare_build (nd_iter nd) (nd_metadata_len nd) gen \<lparr>bi_version_id = sbr_version_id request,
       bi_created_at = nd_now nd n, bi_embedding_dim = sbr_embedding_dim request, bi_records = records\<rparr> =
     Inr (br_documents res, br_manifest res)"
    "nd_embedder nd = Inr gen" "s' = s\<lparr>ls_fs := ls_fs s'\<rparr>"
    "build_wrote nd n (br_documents res) (br_manifest res) (ls_fs s) (ls_fs s')"
proof -
  obtain records gen where *: "read_segments nd n (sbr_wal_keys request) (ls_db s) = Inr records"
    "on_fs (build_index (nd_iter nd) (nd_metadata_len nd) (nd_os nd) ((nd_libs nd)\<lparr>lib_embed := gen\<rparr>)
        (nd_ser_manifest nd) (staging_dir (nd_root nd)) (nd_pid nd) (nd_nonce nd n)
        \<lparr>bi_version_id = sbr_version_id request, bi_created_at = nd_now nd n,
         bi_embedding_dim = sbr_embedding_dim request, bi_records = records\<rparr>) s = (Inr res, s')"
    "nd_embedder nd = Inr gen"
    using assms by (auto simp: local_build_closure_def result_simps split: sum.splits prod.splits)
  then obtain fs' where "build_index (nd_iter nd) (nd_metadata_len nd) (nd_os nd) ((nd_libs nd)\<lparr>lib_embed := gen\<rparr>)
        (nd_ser_manifest nd) (staging_dir (nd_root nd)) (nd_pid nd) (nd_nonce nd n)
        \<lparr>bi_version_id = sbr_version_id request, bi_created_at = nd_now nd n,
         bi_embedding_dim = sbr_embedding_dim request, bi_records = records\<rparr> (ls_fs s) = (Inr res, fs')"
    "s' = s\<lparr>ls_fs := fs'\<rparr>"
    using *(2) by (auto simp: on_fs_def split: prod.splits)
  with that [OF *(1)] *(3) build_index_Inr [OF this(1)] build_index_wrote [OF this(1)] show thesis
    by simp
qed

interpretation local_backend: build_backend "local_build_state nd" for nd :: "'f local_node"
proof
  fix n request res and s s1 :: "'f local_store"
  assume "bs_build (local_build_state nd) n request s = (Inr res, s1)"
  then have "local_build_closure nd n request s = (Inr res, s1)"
    by (simp add: local_build_state_def)
  then obtain records gen where "prepare_build (nd_iter nd) (nd_metadata_len nd) gen \<lparr>bi_version_id = sbr_version_id request,
       bi_created_at = nd_now nd n, bi_embedding_dim = sbr_embedding_dim request, bi_records = records\<rparr> =
     Inr (br_documents res, br_manifest res)"
    by (rule local_build_ok)
  from prepare_build_ok(2) [OF this] show "version_id (br_manifest res) = sbr_version_id request"
    by simp
next
  fix n manifest expected pub and s2 s3 :: "'f local_store"
  assume "bs_publish (local_build_state nd) n manifest expected s2 = (Inr pub, s3)"
  then show "activated_version_id pub = version_id manifest"
    using local_publish_version(1) by (simp add: local_build_state_def)
qed


lemma next_version_local:
  assumes "next_version_id (node_ops nd n) (nd_de_head nd) s = Inr (u, expected)"
  shows "u = (case pointer_version (nd_de_head nd) (local_peek INDEX_HEAD_KEY s) of None \<Rightarrow> 1 | Some h \<Rightarrow> h + 1)"
    and "expected = pointer_version (nd_de_head nd) (local_peek INDEX_HEAD_KEY s)"
proof -
  have p: "is_pointer_key INDEX_HEAD_KEY"
    by (simp add: is_pointer_key_def)
  obtain obj where obj: "op_read (node_ops nd n) INDEX_HEAD_KEY s = Inr obj"
    and rest: "(case obj of None \<Rightarrow> Inr (1, None) | Some ob \<Rightarrow>
      map_ok (\<lambda>head. (mh_version_id head + 1, Some (mh_version_id head)))
        (map_err (\<lambda>e. msg [''failed to parse index head: '', show_head_error e])
          (manifest_head_from_json (nd_de_head nd) (vo_bytes ob)))) = Inr (u, expected)"
    using assms unfolding next_version_id_def by (auto simp: result_simps)
  have "obj = map_option (\<lambda>b. \<lparr>vo_bytes = b, vo_etag = etag_of b\<rparr>) (local_peek INDEX_HEAD_KEY s)"
    by (rule local_pub.read_peeks [OF p obj [unfolded node_ops_def]])
  with rest show "u = (case pointer_version (nd_de_head nd) (local_peek INDEX_HEAD_KEY s) of None \<Rightarrow> 1 | Some h \<Rightarrow> h + 1)"
    "expected = pointer_version (nd_de_head nd) (local_peek INDEX_HEAD_KEY s)"
    by (cases "local_peek INDEX_HEAD_KEY s"; auto simp: pointer_version_def result_simps)+
qed

text \<open>
  C1. When the local worker reports a version for a job, that version is the successor of
  the head it observed (1 without one). The records of every segment the log listed and of the
  job's own were read, in key order; the documents indexed are exactly those of the latest state of
  these records, each with its embedding; the artifacts written to the staging area are those of
  these documents under a manifest of this version that counts them; that manifest was published,
  and the head now served is exactly that version. It took at most two attempts, the second only
  after a conflict. The hash map of the snapshot may be iterated in any order; the head is what
  its own serialisation parses to.
\<close>

theorem worker_publishes_snapshot:
  assumes "process_queue_message (local_worker nd de dbg dim_env) body s = (Inr v, s')"
    and "\<forall>n. nd_de_head nd (nd_ser_head nd (manifest_head_new v (nd_now nd n))) = Inr (manifest_head_new v (nd_now nd n))"
    and "\<forall>m. mset (nd_iter nd m) = mset m"
  shows "\<exists>n m edim listed keys s1 fs1 records gen docs manifest expected pub.
    de body = Inr m \<and> sqlite_list_wal_keys (nd_sql nd 0) (ls_db s) = Inr listed \<and>
    embedding_dim_from_env dbg dim_env = Inr edim \<and> nd_embedder nd = Inr gen \<and>
    set keys = insert (qm_wal_key m) (set listed) \<and> sorted keys \<and> distinct keys \<and>
    (n = 0 \<and> s1 = s \<or> n = 1 \<and> (\<exists>e. attempt (local_worker nd de dbg dim_env) 0 (m, edim, keys) s = (Inr (Inl e), s1) \<and>
        is_publish_cas_conflict e)) \<and>
    segments_read nd n keys (ls_db s1) records \<and>
    indexes_latest gen edim records docs \<and>
    version_id manifest = v \<and> embedding_dim manifest = edim \<and> document_count manifest = of_nat (length docs) \<and>
    build_wrote nd n docs manifest (ls_fs s1) fs1 \<and>
    expected = pointer_version (nd_de_head nd) (local_peek INDEX_HEAD_KEY s1) \<and>
    v = (case expected of None \<Rightarrow> 1 | Some h \<Rightarrow> h + 1) \<and>
    local_publish_closure nd n manifest expected (s1\<lparr>ls_fs := fs1\<rparr>) = (Inr pub, s') \<and>
    activated_version_id pub = v \<and>
    sqlite_load_head no_faults (nd_de_head nd) (ls_db s') = Inr (manifest_head_new v (nd_now nd n))"
proof -
  define w where "w = local_worker nd de dbg dim_env"
  have w: "wk_ops w = node_ops nd" "wk_state w = local_build_state nd" "wk_de_head w = nd_de_head nd"
    "wk_list_wal_keys w = (\<lambda>s. sqlite_list_wal_keys (nd_sql nd 0) (ls_db s))" "wk_de_message w = de"
    "wk_dbg w = dbg" "wk_dim_env w = dim_env"
    by (simp_all add: w_def local_worker_def)
  obtain n m edim keys s1 u expected resp where 1: "prepare_message w body s = Inr (m, edim, keys)"
    "next_version_id (wk_ops w n) (wk_de_head w) s1 = Inr (u, expected)"
    "run_build (wk_state w) n (snapshot_request m keys u edim) expected s1 = (Inr resp, s')"
    "v = resp_activated_version_id resp"
    "n = 0 \<and> s1 = s \<or>
     n = 1 \<and> (\<exists>e. attempt w 0 (m, edim, keys) s = (Inr (Inl e), s1) \<and> is_publish_cas_conflict e)"
    by (rule process_ok [OF assms(1) [folded w_def]])
  obtain listed where 2: "de body = Inr m" "sqlite_list_wal_keys (nd_sql nd 0) (ls_db s) = Inr listed"
    "keys = snapshot_wal_keys listed (qm_wal_key m)" "embedding_dim_from_env dbg dim_env = Inr edim"
    using 1(1) by (auto simp: prepare_message_def result_simps w)
  obtain built s2 pub where 3: "bs_build (local_build_state nd) n (snapshot_request m keys u edim) s1 = (Inr built, s2)"
    "bs_publish (local_build_state nd) n (br_manifest built) expected s2 = (Inr pub, s')"
    "resp_activated_version_id resp = sbr_version_id (snapshot_request m keys u edim)"
    by (rule local_backend.run_build_version [OF 1(3) [unfolded w]])
  have v: "v = u" "version_id (br_manifest built) = u"
    using 1(4) 3(3) local_backend.builds_version [OF 3(1)] by (simp_all add: snapshot_request_def)
  obtain records gen where 4: "read_segments nd n keys (ls_db s1) = Inr records"
    "prepare_build (nd_iter nd) (nd_metadata_len nd) gen \<lparr>bi_version_id = u, bi_created_at = nd_now nd n,
       bi_embedding_dim = edim, bi_records = records\<rparr> = Inr (br_documents built, br_manifest built)"
    "nd_embedder nd = Inr gen" "s2 = s1\<lparr>ls_fs := ls_fs s2\<rparr>"
    "build_wrote nd n (br_documents built) (br_manifest built) (ls_fs s1) (ls_fs s2)"
    by (rule local_build_ok [OF 3(1) [unfolded local_build_state_def build_state.select_convs]])
      (simp add: snapshot_request_def)
  have docs: "indexes_latest gen edim records (br_documents built)"
    using prepared_latest [OF assms(3) 4(2)] by simp
  note manifest = prepare_build_ok(4,5) [OF 4(2)]
  have pub: "local_publish_closure nd n (br_manifest built) expected (s1\<lparr>ls_fs := ls_fs s2\<rparr>) = (Inr pub, s')"
    using 3(2) 4(4) by (simp add: local_build_state_def)
  have "activated_version_id pub = v"
    using local_publish_version(1) [OF pub] v by simp
  moreover have "sqlite_load_head no_faults (nd_de_head nd) (ls_db s') = Inr (manifest_head_new v (nd_now nd n))"
    using published_head_loads [OF pub [unfolded local_publish_closure_def node_ops_def]] assms(2) v
    by simp
  moreover note nxt = next_version_local [OF 1(2) [unfolded w]]
  moreover note snapshot_keys_complete [of listed "qm_wal_key m"]
  ultimately show ?thesis
    using 1(5) 2 4(3,5) read_segments_all [OF 4(1)] docs manifest pub v unfolding w_def
    by (intro exI [of _ n] exI [of _ m] exI [of _ edim] exI [of _ listed] exI [of _ keys] exI [of _ s1]
        exI [of _ "ls_fs s2"] exI [of _ records] exI [of _ gen] exI [of _ "br_documents built"]
        exI [of _ "br_manifest built"] exI [of _ expected] exI [of _ pub]) simp
qed


text \<open>A node on which every library answers, with one segment in the log.\<close>

definition demo_node :: "unit local_node" where
  "demo_node = \<lparr>nd_root = ''/data'', nd_os = calm_os, nd_depth = 1, nd_walk_fuel = 5, nd_libs = calm_libs,
     nd_embedder = Inr (\<lambda>_. Inr [0, 0]), nd_source = (\<lambda>_. demo_src), nd_iter = (\<lambda>m. m),
     nd_metadata_len = (\<lambda>_. Some 2), nd_de_record = (\<lambda>_. Inr (sample_upsert ''a'' ''t'' 1700000000000)),
     nd_utf8_msg = (\<lambda>_. []), nd_ser_manifest = (\<lambda>_. Inr []),
     nd_de_manifest = (\<lambda>_. map_err show_index_error (build_manifest \<lparr>bi_version_id = 1, bi_created_at = 1700000000005,
        bi_embedding_dim = 2, bi_records = []\<rparr> 1)),
     nd_ser_head = (\<lambda>_. ''head1''), nd_de_head = (\<lambda>_. Inr (manifest_head_new 1 1700000000005)), nd_pid = 1,
     nd_nonce = (\<lambda>n. n), nd_now = (\<lambda>_. 1700000000005), nd_sql = (\<lambda>_. no_faults), nd_env = (\<lambda>_ _ s. s)\<rparr>"

definition demo_message :: queue_build_message where
  "demo_message = \<lparr>qm_batch_id = ''b'', qm_wal_key = ''wal/k''\<rparr>"

definition demo_log_store :: "unit local_store" where
  "demo_log_store = \<lparr>ls_db = empty_db\<lparr>wal_segments := [(''wal/k'', ''{}'' @ [LF])]\<rparr>, ls_fs = ()\<rparr>"

definition demo_process :: "(string + u64) \<times> unit local_store" where
  "demo_process = process_queue_message
     (local_worker demo_node (\<lambda>_. Inr demo_message) (\<lambda>s. s) (Some '' 2'')) ''{}'' demo_log_store"

lemma demo_process_ok: "demo_process = (Inr 1, snd demo_process)"
  by code_simp

lemma worker_publishes_snapshot_witness:
  "sqlite_load_head no_faults (nd_de_head demo_node) (ls_db (snd demo_process)) =
     Inr (manifest_head_new 1 1700000000005)"
proof -
  have "\<forall>n. nd_de_head demo_node (nd_ser_head demo_node (manifest_head_new 1 (nd_now demo_node n))) =
      Inr (manifest_head_new 1 (nd_now demo_node n))" "\<forall>m. mset (nd_iter demo_node m) = mset m"
    "\<forall>n. nd_now demo_node n = 1700000000005"
    by (simp_all add: demo_node_def)
  with worker_publishes_snapshot [OF demo_process_ok [unfolded demo_process_def]] show ?thesis
    unfolding demo_process_def by metis
qed


section \<open>No job is lost\<close>

lemma upload_all_keeps:
  assumes "\<And>k src m s. f (snd (op_upload_directory ops k src m s)) = f s"
  shows "f (snd (upload_all ops us s)) = f s"
proof (induction us arbitrary: s)
  case (Cons u us)
  then show ?case
    using assms [of "pu_key u" "pu_source u" CreateOnly s]
    by (cases "op_upload_directory ops (pu_key u) (pu_source u) CreateOnly s") (auto split: sum.splits)
qed simp

lemma swap_head_keeps:
  assumes "\<And>k e v s. f (snd (op_cas ops k e v s)) = f s" "\<And>n s. f (env n s) = f s"
  shows "f (snd (swap_head env ops de ser what v t expected current s)) = f s"
  using assms(1) [of INDEX_HEAD_KEY "map_option (vo_etag \<circ> fst) current" "ser (manifest_head_new v t)" s]
  by (cases "op_cas ops INDEX_HEAD_KEY (map_option (vo_etag \<circ> fst) current) (ser (manifest_head_new v t)) s")
    (auto simp: swap_head_def Let_def assms(2) split: sum.splits bool.splits)

lemma publish_keeps:
  assumes dir: "\<And>k src m s. f (snd (op_upload_directory ops k src m s)) = f s"
    and fil: "\<And>k src m s. f (snd (op_upload_file ops k src m s)) = f s"
    and cas: "\<And>k e v s. f (snd (op_cas ops k e v s)) = f s" and env: "\<And>n s. f (env n s) = f s"
  shows "f (snd (publish env ops src fuel de ser de_manifest artifact_root request s)) = f s"
proof -
  define key where "key = version_manifest_key (version_id (pr_manifest request))"
  have u: "upload_all ops us s = (r, s') \<Longrightarrow> f s' = f s" for us s r s'
    using upload_all_keeps [of f ops us s, OF dir] by simp
  have v: "op_upload_file ops k p m s = (r, s') \<Longrightarrow> f s' = f s" for k p m s r s'
    using fil [of k p m s] by simp
  note w = swap_head_keeps [of f ops env, OF cas env]
  show ?thesis
    unfolding publish_def Let_def key_def [symmetric]
    by (auto simp: env w dest!: u v split: sum.splits prod.splits)
qed

text \<open>The tables of the queue, which a build and its publication do not touch.\<close>

definition queue_tables :: "'f local_store \<Rightarrow> (string, job_row) hmap \<times> (string, dead_row) hmap" where
  "queue_tables s = (build_jobs (ls_db s), dead_jobs (ls_db s))"

lemma local_ops_keep:
  "queue_tables (snd (op_upload_directory (local_publish_ops flt os depth base) k src m s)) = queue_tables s"
  "queue_tables (snd (op_upload_file (local_publish_ops flt os depth base) k src m s)) = queue_tables s"
  "queue_tables (snd (op_cas (local_publish_ops flt os depth base) k e v s)) = queue_tables s"
proof -
  have fs: "queue_tables (snd (on_fs g s)) = queue_tables s" for g :: "'a \<Rightarrow> 'r \<times> 'a"
    using on_fs_db [of g s] by (cases "on_fs g s") (auto simp: queue_tables_def)
  show "queue_tables (snd (op_upload_directory (local_publish_ops flt os depth base) k src m s)) = queue_tables s"
    "queue_tables (snd (op_upload_file (local_publish_ops flt os depth base) k src m s)) = queue_tables s"
    by (simp_all add: local_publish_ops_def fs)
  have set: "build_jobs (set_head_row t v d) = build_jobs d" "dead_jobs (set_head_row t v d) = dead_jobs d" for t d
    by (cases t; simp)+
  have db: "queue_tables (snd (on_db (head_row_cas flt t e v) s)) = queue_tables s" for t
  proof (cases "head_row_cas flt t e v (ls_db s)")
    case (Pair r d)
    then show ?thesis
      by (rule head_row_cas_cases) (simp_all add: queue_tables_def on_db_def Pair set)
  qed
  show "queue_tables (snd (op_cas (local_publish_ops flt os depth base) k e v s)) = queue_tables s"
    by (simp add: local_publish_ops_def local_cas_def fs db split: option.splits)
qed

lemma run_build_keeps:
  assumes "\<And>n r s. f (snd (bs_build st n r s)) = f s" "\<And>n m ex s. f (snd (bs_publish st n m ex s)) = f s"
  shows "f (snd (run_build st n request expected s)) = f s"
proof (cases "bs_build st n request s")
  case (Pair r s1)
  have 1: "f s1 = f s"
    using assms(1) [of n request s] Pair by simp
  show ?thesis
  proof (cases r)
    case (Inr built)
    then show ?thesis
      using assms(2) [of n "br_manifest built" expected s1] 1 Pair
      by (cases "bs_publish st n (br_manifest built) expected s1")
        (auto simp: run_build_def handle_build_request_def split: sum.splits)
  qed (use Pair 1 in \<open>simp add: run_build_def handle_build_request_def\<close>)
qed

lemma process_keeps:
  assumes "\<And>n r s. f (snd (bs_build (wk_state w) n r s)) = f s"
    "\<And>n m ex s. f (snd (bs_publish (wk_state w) n m ex s)) = f s"
  shows "f (snd (process_queue_message w body s)) = f s"
proof -
  have att: "f (snd (attempt w n prep s)) = f s" for n prep s
    using run_build_keeps [of f "wk_state w", OF assms]
    by (auto simp: attempt_def split: prod.splits sum.splits)
  then have att': "attempt w n prep s = (r, s') \<Longrightarrow> f s' = f s" for n prep s r s'
    by (metis snd_conv)
  show ?thesis
    by (auto simp: process_queue_message_def dest!: att' split: sum.splits prod.splits)
qed

lemma local_process_keeps:
  assumes "\<And>i n s. queue_tables (nd_env nd i n s) = queue_tables s"
  shows "queue_tables (snd (process_queue_message (local_worker nd de dbg dim_env) body s)) = queue_tables s"
proof (rule process_keeps)
  fix n r and s :: "'a local_store"
  show "queue_tables (snd (bs_build (wk_state (local_worker nd de dbg dim_env)) n r s)) = queue_tables s"
    by (auto simp: local_worker_def local_build_state_def local_build_closure_def queue_tables_def on_fs_def
        split: sum.splits prod.splits)
next
  fix n m ex and s :: "'a local_store"
  show "queue_tables (snd (bs_publish (wk_state (local_worker nd de dbg dim_env)) n m ex s)) = queue_tables s"
    unfolding local_worker_def local_build_state_def local_publish_closure_def node_ops_def
    by simp (rule publish_keeps; rule local_ops_keep assms)
qed


text \<open>While jobs are settled, the rows a receipt claims are those its job was made from.\<close>

definition jobs_match :: "(string \<Rightarrow> string) \<Rightarrow> (string, job_row) hmap \<Rightarrow> build_job list \<Rightarrow> db \<Rightarrow> bool" where
  "jobs_match rand rows jobs d \<longleftrightarrow> (\<forall>(b, r) \<in> set (build_jobs d). (\<exists>r0. (b, r0) \<in> set rows \<and> job_body r0 = job_body r) \<and>
     (\<forall>j \<in> set jobs. holds_claim (job_receipt j) r \<longrightarrow> bj_body j = job_body r \<and> job_receipt j = rand b))"

lemma jobs_match_mono:
  assumes "jobs_match rand rows jobs d" "set jobs' \<subseteq> set jobs"
    and "\<And>b r. (b, r) \<in> set (build_jobs d') \<Longrightarrow> \<exists>r1. (b, r1) \<in> set (build_jobs d) \<and> job_body r1 = job_body r \<and>
      (\<forall>t. holds_claim t r \<longrightarrow> holds_claim t r1)"
  shows "jobs_match rand rows jobs' d'"
  unfolding jobs_match_def
proof (clarify, intro conjI ballI impI)
  fix b r
  assume "(b, r) \<in> set (build_jobs d')"
  then obtain r1 where r1: "(b, r1) \<in> set (build_jobs d)" "job_body r1 = job_body r"
    "\<And>t. holds_claim t r \<Longrightarrow> holds_claim t r1"
    using assms(3) by blast
  then have *: "\<exists>r0. (b, r0) \<in> set rows \<and> job_body r0 = job_body r1"
    "\<And>j. j \<in> set jobs \<Longrightarrow> holds_claim (job_receipt j) r1 \<Longrightarrow> bj_body j = job_body r1 \<and> job_receipt j = rand b"
    using assms(1) unfolding jobs_match_def by blast+
  show "\<exists>r0. (b, r0) \<in> set rows \<and> job_body r0 = job_body r"
    using *(1) r1(2) by simp
  fix j
  assume "j \<in> set jobs'" "holds_claim (job_receipt j) r"
  then show "bj_body j = job_body r" "job_receipt j = rand b"
    using *(2) [of j] r1(2,3) assms(2) by auto
qed

lemma ack_rows: "(b, r) \<in> set (build_jobs (snd (ack flt job d))) \<Longrightarrow> (b, r) \<in> set (build_jobs d)"
  by (cases rule: ack_cases [of flt job d]) auto

lemma nack_rows:
  "(b, r) \<in> set (build_jobs (snd (nack cfg flt now job e d))) \<Longrightarrow>
     \<exists>r1. (b, r1) \<in> set (build_jobs d) \<and> job_body r1 = job_body r \<and> (\<forall>t. holds_claim t r \<longrightarrow> holds_claim t r1)"
  by (cases rule: nack_cases [of cfg flt now job e d])
    (auto simp: delete_token_def bury_def requeue_token_def in_update_where holds_claim_def split: if_splits)

lemma settle_local_jobs:
  assumes cfg: "cfg_ok cfg" and frame: "\<And>n body s. queue_tables (snd (process n body s)) = queue_tables s"
    and "queue_inv cfg (ls_db s, T)" "jobs_match rand rows jobs (ls_db s)"
    and "settle_jobs process (local_job_source cfg flt rand now) n jobs k s = (k', s')"
    and "b \<in> fst ` set (build_jobs (ls_db s)) \<union> fst ` set (dead_jobs (ls_db s))"
    and "b \<notin> fst ` set (build_jobs (ls_db s')) \<union> fst ` set (dead_jobs (ls_db s'))"
  shows "\<exists>i m s1 r v s2. i < length jobs \<and>
    settle_jobs process (local_job_source cfg flt rand now) n (take i jobs) k s = (m, s1) \<and> (b, r) \<in> set rows \<and>
    jobs ! i = \<lparr>job_receipt = rand b, bj_body = job_body r\<rparr> \<and> process (n + i) (job_body r) s1 = (Inr v, s2)"
  using assms(3-)
proof (induction jobs arbitrary: n k s)
  case (Cons j js)
  obtain out s1 where p: "process n (bj_body j) s = (out, s1)"
    by (cases "process n (bj_body j) s")
  have t1: "build_jobs (ls_db s1) = build_jobs (ls_db s)" "dead_jobs (ls_db s1) = dead_jobs (ls_db s)"
    using frame [of n "bj_body j" s] p by (simp_all add: queue_tables_def)
  then have inv1: "queue_inv cfg (ls_db s1, T)"
    using Cons.prems(1) queue_inv_frame by metis
  have match1: "jobs_match rand rows (j # js) (ls_db s1)"
    using Cons.prems(2) by (simp add: jobs_match_def t1)
  have later: ?case if step: "\<And>xs. settle_jobs process (local_job_source cfg flt rand now) n (j # xs) k s =
        settle_jobs process (local_job_source cfg flt rand now) (Suc n) xs k2 t"
    and rest: "\<exists>i m s1 r v s2. i < length js \<and>
      settle_jobs process (local_job_source cfg flt rand now) (Suc n) (take i js) k2 t = (m, s1) \<and> (b, r) \<in> set rows \<and>
      js ! i = \<lparr>job_receipt = rand b, bj_body = job_body r\<rparr> \<and> process (Suc n + i) (job_body r) s1 = (Inr v, s2)" for k2 t
  proof -
    obtain i m s1 r v s2 where "i < length js"
      "settle_jobs process (local_job_source cfg flt rand now) (Suc n) (take i js) k2 t = (m, s1)" "(b, r) \<in> set rows"
      "js ! i = \<lparr>job_receipt = rand b, bj_body = job_body r\<rparr>" "process (Suc n + i) (job_body r) s1 = (Inr v, s2)"
      using rest by blast
    then show ?thesis
      using step [of "take i js"]
      by (intro exI [of _ "Suc i"] exI [of _ m] exI [of _ s1] exI [of _ r] exI [of _ v] exI [of _ s2])
        (simp del: settle_jobs.simps)
  qed
  show ?case
  proof (cases out)
    case (Inl e)
    define d2 where "d2 = snd (nack cfg (flt (Suc n)) (now (Suc n)) j e (ls_db s1))"
    define k2 where "k2 = (if is_ok (fst (nack cfg (flt (Suc n)) (now (Suc n)) j e (ls_db s1))) then Suc k else k)"
    have step: "settle_jobs process (local_job_source cfg flt rand now) n (j # xs) k s =
        settle_jobs process (local_job_source cfg flt rand now) (Suc n) xs k2 (s1\<lparr>ls_db := d2\<rparr>)" for xs
      using p Inl by (cases "nack cfg (flt (Suc n)) (now (Suc n)) j e (ls_db s1)") (simp add: local_job_source_def on_db_def d2_def k2_def)
    have rest: "settle_jobs process (local_job_source cfg flt rand now) (Suc n) js k2 (s1\<lparr>ls_db := d2\<rparr>) = (k', s')"
      using Cons.prems(3) step by simp
    have inv2: "queue_inv cfg (d2, T)"
      using queue_inv_nack [OF inv1] cfg by (simp add: d2_def cfg_ok_def)
    have match2: "jobs_match rand rows js d2"
      using jobs_match_mono [OF match1, of js d2] nack_rows unfolding d2_def by fastforce
    have "b \<in> fst ` set (build_jobs d2) \<union> fst ` set (dead_jobs d2)"
      using nack_keeps_jobs [OF inv1] Cons.prems(4) t1 by (simp add: d2_def)
    then show ?thesis
      by (intro later [OF step] Cons.IH) (use inv2 match2 rest Cons.prems(5) in simp_all)
  next
    case (Inr v)
    define d2 where "d2 = snd (ack (flt (Suc n)) j (ls_db s1))"
    define k2 where "k2 = (if is_ok (fst (ack (flt (Suc n)) j (ls_db s1))) then Suc k else k)"
    have step: "settle_jobs process (local_job_source cfg flt rand now) n (j # xs) k s =
        settle_jobs process (local_job_source cfg flt rand now) (Suc n) xs k2 (s1\<lparr>ls_db := d2\<rparr>)" for xs
      using p Inr by (cases "ack (flt (Suc n)) j (ls_db s1)") (simp add: local_job_source_def on_db_def d2_def k2_def)
    have rest: "settle_jobs process (local_job_source cfg flt rand now) (Suc n) js k2 (s1\<lparr>ls_db := d2\<rparr>) = (k', s')"
      using Cons.prems(3) step by simp
    have inv2: "queue_inv cfg (d2, T)"
      using queue_inv_ack [OF inv1] by (simp add: d2_def)
    have match2: "jobs_match rand rows js d2"
      using jobs_match_mono [OF match1, of js d2] ack_rows unfolding d2_def by fastforce
    show ?thesis
    proof (cases "b \<in> fst ` set (build_jobs d2) \<union> fst ` set (dead_jobs d2)")
      case True
      then show ?thesis
        by (intro later [OF step] Cons.IH) (use inv2 match2 rest Cons.prems(5) in simp_all)
    next
      case False
      have "dead_jobs d2 = dead_jobs (ls_db s1)"
        unfolding d2_def by (cases rule: ack_cases [of "flt (Suc n)" j "ls_db s1"]) simp_all
      then have "b \<in> fst ` set (build_jobs (ls_db s1))" "b \<notin> fst ` set (build_jobs d2)"
        using False Cons.prems(4) t1 by auto
      then obtain r where r: "(b, r) \<in> set (build_jobs (ls_db s1))" "(b, r) \<notin> set (build_jobs d2)"
        by force
      then have "holds_claim (job_receipt j) r"
        unfolding d2_def by (cases rule: ack_cases [of "flt (Suc n)" j "ls_db s1"]) auto
      then have j: "bj_body j = job_body r" "job_receipt j = rand b" "\<exists>r0. (b, r0) \<in> set rows \<and> job_body r0 = job_body r"
        using match1 r(1) unfolding jobs_match_def by auto
      then obtain r0 where r0: "(b, r0) \<in> set rows" "job_body r0 = job_body r"
        by blast
      show ?thesis
        using p Inr j(1,2) r0 by (intro exI [of _ 0] exI [of _ k] exI [of _ s] exI [of _ r0] exI [of _ v] exI [of _ s1])
          (simp add: build_job.equality)
    qed
  qed
qed simp

lemma receive_jobs_match:
  assumes inv: "queue_inv cfg (d, T)"
    and fresh: "inj_on rand (fst ` set (build_jobs d))" "rand ` fst ` set (build_jobs d) \<inter> T = {}"
    and r: "receive cfg flt rand now d = (Inr jobs, d')"
  shows "jobs_match rand (build_jobs d) jobs d'"
proof -
  define d1 where "d1 = reclaim_expired (now - cfg_lease_ms cfg) d"
  have claim: "claim_due rand now d1 = (jobs, d')"
    using r by (cases rule: receive_cases [of cfg flt rand now d]) (auto simp: d1_def map_prod_def split: prod.splits)
  have rows1: "\<exists>r0. (b, r0) \<in> set (build_jobs d) \<and> job_body r0 = job_body r1 \<and>
      (job_claim_token r1 = None \<or> job_claim_token r1 = job_claim_token r0)"
    if "(b, r1) \<in> set (build_jobs d1)" for b r1
    using that by (auto simp: d1_def reclaim_expired_def in_update_where)
  have tokens: "job_claim_token r1 = Some t \<Longrightarrow> t \<in> T" if "(b, r1) \<in> set (build_jobs d1)" for b r1 t
    using rows1 [OF that] queue_invD(3) [OF inv] by (force simp: row_ok_def)
  have ok1: "hm_ok (build_jobs d1)"
    using queue_invD(1) [OF queue_inv_reclaim [OF inv]] by (simp add: d1_def)
  show ?thesis
    unfolding jobs_match_def
  proof (clarify, intro conjI ballI impI)
    fix b r
    assume "(b, r) \<in> set (build_jobs d')"
    then obtain r1 where r1: "(b, r1) \<in> set (build_jobs d1)"
      "r = (if job_due now r1 then r1\<lparr>job_state := Claimed, job_claimed_at := Some now, job_claim_token := Some (rand b)\<rparr>
            else r1)"
      using claim by (auto simp: claim_due_def in_update_where)
    show "\<exists>r0. (b, r0) \<in> set (build_jobs d) \<and> job_body r0 = job_body r"
      using rows1 [OF r1(1)] r1(2) by auto
    fix j
    assume j: "j \<in> set jobs" "holds_claim (job_receipt j) r"
    obtain b' r' where j': "(b', r') \<in> set (build_jobs d1)" "j = \<lparr>job_receipt = rand b', bj_body = job_body r'\<rparr>"
      using j(1) claim by (auto simp: claim_due_def)
    have keys: "b \<in> fst ` set (build_jobs d)" "b' \<in> fst ` set (build_jobs d)"
      using rows1 [OF r1(1)] rows1 [OF j'(1)] by (auto intro: rev_image_eqI)
    have "job_claim_token r = Some (rand b')"
      using j(2) j'(2) by (simp add: holds_claim_def)
    moreover have "rand b' \<notin> T"
      using fresh(2) keys(2) by blast
    ultimately have "job_due now r1" "rand b' = rand b"
      using r1 tokens [OF r1(1)] by (auto split: if_splits)
    then have "b' = b"
      using inj_onD [OF fresh(1) _ keys(2,1)] by simp
    then have "r' = r1"
      using ok1 j'(1) r1(1) by (metis hm_get_eq_Some_iff option.inject)
    then show "bj_body j = job_body r" "job_receipt j = rand b"
      using j'(2) r1(2) \<open>b' = b\<close> by simp_all
  qed
qed

text \<open>
  C2. A pass of the worker loop over the SQLite queue loses no job whose build did not
  succeed: when a batch is neither queued nor a dead letter afterwards, then this pass claimed its
  job, reached it after settling the jobs before it, and processed it in that state to a published
  version, whatever statement, build or publication fails. The tokens of the pass are fresh, and
  what other processes do during a publication leaves the tables of the queue alone.
\<close>

theorem unpublished_jobs_survive:
  assumes "queue_inv cfg (ls_db s, T)" "cfg_ok cfg"
    and "inj_on rand (fst ` set (build_jobs (ls_db s)))" "rand ` fst ` set (build_jobs (ls_db s)) \<inter> T = {}"
    and "\<forall>k i n s. queue_tables (nd_env (nd k) i n s) = queue_tables s"
    and "run_build_job_loop_once (\<lambda>k. process_queue_message (local_worker (nd k) de dbg dim_env))
      (local_job_source cfg flt rand now) s = (settled, s')"
    and "b \<in> fst ` set (build_jobs (ls_db s))"
    and "b \<notin> fst ` set (build_jobs (ls_db s')) \<union> fst ` set (dead_jobs (ls_db s'))"
  shows "\<exists>jobs d k m s1 r v s2.
    receive cfg (flt 0) rand (now 0) (ls_db s) = (Inr jobs, d) \<and> k < length jobs \<and>
    settle_jobs (\<lambda>k. process_queue_message (local_worker (nd k) de dbg dim_env)) (local_job_source cfg flt rand now)
      0 (take k jobs) 0 (s\<lparr>ls_db := d\<rparr>) = (m, s1) \<and>
    (b, r) \<in> set (build_jobs (ls_db s)) \<and> jobs ! k = \<lparr>job_receipt = rand b, bj_body = job_body r\<rparr> \<and>
    process_queue_message (local_worker (nd k) de dbg dim_env) (job_body r) s1 = (Inr v, s2)"
proof -
  obtain res d where r: "receive cfg (flt 0) rand (now 0) (ls_db s) = (res, d)"
    by (cases "receive cfg (flt 0) rand (now 0) (ls_db s)")
  have keep: "fst ` set (build_jobs d) = fst ` set (build_jobs (ls_db s))"
    using receive_keeps_jobs(1) [of cfg "flt 0" rand "now 0" "ls_db s"] r by simp
  have inv: "queue_inv cfg (d, T \<union> rand ` fst ` set (build_jobs (ls_db s)))"
    using queue_inv_receive [OF assms(1,3,4), of "flt 0" "now 0"] r by simp
  show ?thesis
  proof (cases res)
    case (Inl e)
    then have "s' = s\<lparr>ls_db := d\<rparr>"
      using assms(6) r by (simp add: run_build_job_loop_once_def local_job_source_def on_db_def)
    then show ?thesis
      using assms(7,8) keep by simp
  next
    case (Inr jobs)
    have settle: "settle_jobs (\<lambda>k. process_queue_message (local_worker (nd k) de dbg dim_env))
        (local_job_source cfg flt rand now) 0 jobs 0 (s\<lparr>ls_db := d\<rparr>) = (settled, s')"
      using assms(6) r Inr
      by (simp add: run_build_job_loop_once_def local_job_source_def [of cfg flt rand now] on_db_def)
    have match: "jobs_match rand (build_jobs (ls_db s)) jobs d"
      by (rule receive_jobs_match [OF assms(1,3,4) r [unfolded Inr]])
    have frame: "queue_tables (snd (process_queue_message (local_worker (nd k) de dbg dim_env) body s)) = queue_tables s"
      for k body s
      by (rule local_process_keeps) (use assms(5) in blast)
    have "\<exists>i m s1 r v s2. i < length jobs \<and>
      settle_jobs (\<lambda>k. process_queue_message (local_worker (nd k) de dbg dim_env)) (local_job_source cfg flt rand now)
        0 (take i jobs) 0 (s\<lparr>ls_db := d\<rparr>) = (m, s1) \<and> (b, r) \<in> set (build_jobs (ls_db s)) \<and>
      jobs ! i = \<lparr>job_receipt = rand b, bj_body = job_body r\<rparr> \<and>
      process_queue_message (local_worker (nd (0 + i)) de dbg dim_env) (job_body r) s1 = (Inr v, s2)"
      by (rule settle_local_jobs [OF assms(2) frame _ _ settle, of "T \<union> rand ` fst ` set (build_jobs (ls_db s))"])
        (use inv match keep assms(7,8) in simp_all)
    then show ?thesis
      using r Inr by (auto simp del: settle_jobs.simps)
  qed
qed


definition demo_job_store :: "unit local_store" where
  "demo_job_store = \<lparr>ls_db = demo_queued\<lparr>wal_segments := [(''wal/k'', ''{}'' @ [LF])]\<rparr>, ls_fs = ()\<rparr>"

definition demo_pass :: "nat \<times> unit local_store" where
  "demo_pass = run_build_job_loop_once
     (\<lambda>k. process_queue_message (local_worker demo_node (\<lambda>_. Inr demo_message) (\<lambda>s. s) (Some ''2'')))
     (local_job_source demo_cfg (\<lambda>_. no_faults) (\<lambda>b. ''t-'' @ b) (\<lambda>_. 1000)) demo_job_store"

lemma demo_pass_settles: "fst demo_pass = 1 \<and> build_jobs (ls_db (snd demo_pass)) = [] \<and> dead_jobs (ls_db (snd demo_pass)) = []"
  by code_simp

lemma demo_job_store_queue: "build_jobs (ls_db demo_job_store) = build_jobs demo_queued"
  "dead_jobs (ls_db demo_job_store) = dead_jobs demo_queued"
  by (simp_all add: demo_job_store_def)

lemma demo_queued_inv: "queue_inv demo_cfg (demo_queued, {})"
proof -
  have "queue_step (\<lambda>_. Some ''{}'') demo_cfg (empty_db, {}) (demo_queued, {})"
    unfolding demo_queued_def by (rule step_enqueue)
  from queue_step_inv [OF this queue_inv_empty demo_cfg_ok] show ?thesis .
qed

lemma unpublished_jobs_survive_witness:
  "\<exists>jobs d k s1 r v s2. receive demo_cfg no_faults (\<lambda>b. ''t-'' @ b) 1000 (ls_db demo_job_store) = (Inr jobs, d) \<and>
     (''b1'', r) \<in> set (build_jobs (ls_db demo_job_store)) \<and>
     jobs ! k = \<lparr>job_receipt = ''t-'' @ ''b1'', bj_body = job_body r\<rparr> \<and>
     process_queue_message (local_worker demo_node (\<lambda>_. Inr demo_message) (\<lambda>s. s) (Some ''2'')) (job_body r) s1 =
       (Inr v, s2)"
proof -
  have inv: "queue_inv demo_cfg (ls_db demo_job_store, {})"
    using demo_queued_inv queue_inv_frame [OF demo_job_store_queue] by blast
  have keys: "fst ` set (build_jobs (ls_db demo_job_store)) = {''b1''}"
    by (simp add: demo_job_store_queue demo_keys)
  have env: "\<forall>k i n s. queue_tables (nd_env ((\<lambda>_. demo_node) (k::nat)) i n s) = queue_tables s"
    by (simp add: demo_node_def)
  have pass: "run_build_job_loop_once
      (\<lambda>k. process_queue_message (local_worker ((\<lambda>_. demo_node) k) (\<lambda>_. Inr demo_message) (\<lambda>s. s) (Some ''2'')))
      (local_job_source demo_cfg (\<lambda>_. no_faults) (\<lambda>b. ''t-'' @ b) (\<lambda>_. 1000)) demo_job_store = (fst demo_pass, snd demo_pass)"
    by (simp add: demo_pass_def)
  have fresh: "inj_on (\<lambda>b. ''t-'' @ b) (fst ` set (build_jobs (ls_db demo_job_store)))"
    "(\<lambda>b. ''t-'' @ b) ` fst ` set (build_jobs (ls_db demo_job_store)) \<inter> {} = {}"
    by (simp_all add: keys)
  have "''b1'' \<in> fst ` set (build_jobs (ls_db demo_job_store))"
    "''b1'' \<notin> fst ` set (build_jobs (ls_db (snd demo_pass))) \<union> fst ` set (dead_jobs (ls_db (snd demo_pass)))"
    using demo_pass_settles by (simp_all add: keys)
  from unpublished_jobs_survive [OF inv demo_cfg_ok fresh env pass this] show ?thesis
    by (elim exE conjE) (intro exI conjI, assumption+)
qed


section \<open>A version left in the staging directory blocks the worker\<close>

text \<open>
  Laws of the operating system: creating a directory removes nothing, and removing one
  removes nothing outside it.
\<close>

definition os_keeps :: "'f os_ops \<Rightarrow> bool" where
  "os_keeps os \<longleftrightarrow>
     (\<forall>p q fs. os_exists os p fs \<longrightarrow> os_exists os p (snd (os_create_dir_all os q fs))) \<and>
     (\<forall>p q fs. os_exists os p fs \<longrightarrow> \<not> below q p \<longrightarrow> os_exists os p (snd (os_remove_dir_all os q fs)))"

definition staged_lance_path :: "'f local_node \<Rightarrow> u64 \<Rightarrow> string" where
  "staged_lance_path nd v = path_join (staging_dir (nd_root nd)) (lance_dir_key v)"

definition stuck_version :: "'f local_node \<Rightarrow> 'f local_store \<Rightarrow> bool" where
  "stuck_version nd s \<longleftrightarrow> (\<exists>u expected. next_version_id (node_ops nd 0) (nd_de_head nd) s = Inr (u, expected) \<and>
     os_exists (nd_os nd) (staged_lance_path nd u) (ls_fs s))"

lemma staging_not_below: "\<not> below (path_join base (staged_dir_name label pid nonce)) (path_join base (lance_dir_key v))"
proof -
  have a: "staged_dir_name label pid nonce = CHR ''.'' # msg [label, ''-staging-'', show_nat pid, ''-'', show_nat nonce]"
    by (simp add: staged_dir_name_def msg_def)
  have b: "lance_dir_key v = CHR ''l'' # drop 1 (lance_dir_key v)"
    by (simp add: lance_dir_key_def msg_def)
  have j: "path_join base (c # x) = (if base = [] \<or> last base = CHR ''/'' then base else base @ ''/'') @ c # x"
    if "c \<noteq> CHR ''/''" for c x
    using that by (simp add: path_join_def)
  show ?thesis
    unfolding a by (subst b) (simp add: below_def j)
qed

lemma build_index_target_exists:
  assumes os: "os_keeps os" and ex: "os_exists os p fs"
    and p: "p = path_join artifact_root (lance_dir_key (bi_version_id request))"
    and r: "build_index iter mlen os libs ser artifact_root pid nonce request fs = (r, fs')"
  shows "\<not> is_ok r \<and> os_exists os p fs'"
proof (cases "prepare_build iter mlen (lib_embed libs) request")
  case (Inl e)
  then show ?thesis
    using r ex by (auto simp: build_index_def)
next
  case (Inr dm)
  obtain docs manifest where dm: "dm = (docs, manifest)"
    by (cases dm)
  let ?dir = "path_join artifact_root (staged_dir_name ''index-build'' pid nonce)"
  obtain c fs1 where c: "os_create_dir_all os ?dir fs = (c, fs1)"
    by (cases "os_create_dir_all os ?dir fs")
  have ex1: "os_exists os p fs1"
    using os ex c unfolding os_keeps_def by (metis snd_conv)
  show ?thesis
  proof (cases c)
    case (Inl e)
    then show ?thesis
      using r Inr dm c ex1
      by (auto simp: build_index_def stage_build_def staged_build_new_def staged_create_def Let_def)
  next
    case (Inr u)
    obtain sb where sb: "staged_build_new os artifact_root pid nonce (bi_version_id request) fs = (Inr sb, fs1)"
      "sb_dir sb = ?dir" "final_lance_dir sb = p"
      using c Inr p by (auto simp: staged_build_new_def staged_create_def Let_def)
    have w: "write_staged_build os libs ser sb docs manifest fs1 =
        (Inl (IndexOperation (msg [''publish target already exists: '', p])), fs1)"
      using ex1 sb(3) by (simp add: write_staged_build_def ensure_target_is_publishable_def)
    obtain d fs2 where d: "remove_dir_all_if_exists os ?dir fs1 = (d, fs2)"
      by (cases "remove_dir_all_if_exists os ?dir fs1")
    have "os_exists os p (snd (os_remove_dir_all os ?dir fs1))"
      using os ex1 staging_not_below unfolding os_keeps_def p by blast
    then have "os_exists os p fs2"
      using d ex1 by (cases "os_remove_dir_all os ?dir fs1")
        (auto simp: remove_dir_all_if_exists_def split: if_splits sum.splits)
    moreover have "r = Inl (append_cleanup_failure (IndexOperation (msg [''publish target already exists: '', p])) d) \<and> fs' = fs2"
      using r \<open>prepare_build iter mlen (lib_embed libs) request = Inr dm\<close> dm sb(1,2) w d
      by (simp add: build_index_def stage_build_def)
    ultimately show ?thesis
      by simp
  qed
qed


lemma next_version_db:
  "ls_db s' = ls_db s \<Longrightarrow> next_version_id (node_ops nd n) de s' = next_version_id (node_ops nd n) de s"
  by (simp add: next_version_id_def node_ops_def local_publish_ops_def local_read_def head_table_def)

text \<open>
  C9. Once the staging directory holds the artifact of the version after the head, as it does
  after a build whose publication failed, every job fails: the worker returns an error, the
  database with its head stays as it was, and the artifact stays in the way of the next job.
\<close>

theorem staged_version_blocks_worker:
  assumes "os_keeps (nd_os nd)" "stuck_version nd s"
  shows "\<exists>e s'. process_queue_message (local_worker nd de dbg dim_env) body s = (Inl e, s') \<and>
    ls_db s' = ls_db s \<and> stuck_version nd s'"
proof -
  define w where "w = local_worker nd de dbg dim_env"
  have w: "wk_ops w = node_ops nd" "wk_state w = local_build_state nd" "wk_de_head w = nd_de_head nd"
    by (simp_all add: w_def local_worker_def)
  obtain u expected where u: "next_version_id (node_ops nd 0) (nd_de_head nd) s = Inr (u, expected)"
    "os_exists (nd_os nd) (staged_lance_path nd u) (ls_fs s)"
    using assms(2) unfolding stuck_version_def by blast
  have stuck: "stuck_version nd s'" if "ls_db s' = ls_db s" "os_exists (nd_os nd) (staged_lance_path nd u) (ls_fs s')" for s'
    using u(1) that next_version_db [OF that(1), of nd 0 "nd_de_head nd"] unfolding stuck_version_def by auto
  show ?thesis
  proof (cases "prepare_message w body s")
    case (Inl e)
    then show ?thesis
      using assms(2) by (simp add: process_queue_message_def w_def)
  next
    case (Inr prep)
    obtain m edim keys where prep: "prep = (m, edim, keys)"
      by (cases prep)
    define request where "request = snapshot_request m keys u edim"
    obtain r s1 where b: "local_build_closure nd 0 request s = (r, s1)"
      by (cases "local_build_closure nd 0 request s")
    have fails: "\<not> is_ok r \<and> ls_db s1 = ls_db s \<and> os_exists (nd_os nd) (staged_lance_path nd u) (ls_fs s1)"
    proof (cases "and_then (read_segments nd 0 (sbr_wal_keys request) (ls_db s)) (\<lambda>records.
        map_ok (Pair records) (map_err IndexOperation (nd_embedder nd)))")
      case (Inl e)
      then show ?thesis
        using b u(2) by (auto simp: local_build_closure_def)
    next
      case (Inr rg)
      obtain records gen where rg: "rg = (records, gen)"
        by (cases rg)
      obtain fs' where bi: "build_index (nd_iter nd) (nd_metadata_len nd) (nd_os nd) ((nd_libs nd)\<lparr>lib_embed := gen\<rparr>)
          (nd_ser_manifest nd) (staging_dir (nd_root nd)) (nd_pid nd) (nd_nonce nd 0)
          \<lparr>bi_version_id = sbr_version_id request, bi_created_at = nd_now nd 0,
           bi_embedding_dim = sbr_embedding_dim request, bi_records = records\<rparr> (ls_fs s) = (r, fs')" "s1 = s\<lparr>ls_fs := fs'\<rparr>"
        using b Inr rg by (auto simp: local_build_closure_def on_fs_def split: prod.splits)
      from build_index_target_exists [OF assms(1) u(2) _ bi(1)] show ?thesis
        using bi(2) by (simp add: staged_lance_path_def request_def snapshot_request_def)
    qed
    then obtain e where e: "r = Inl e"
      by (cases r) simp_all
    have "run_build (wk_state w) 0 request expected s = (Inl (lambda_error_of_index e), s1)"
      using b e by (simp add: run_build_def handle_build_request_def w local_build_state_def)
    then have "attempt w 0 prep s = (Inr (Inl (lambda_error_of_index e)), s1)"
      using u(1) by (simp add: attempt_def prep w request_def)
    moreover have "\<not> is_publish_cas_conflict (lambda_error_of_index e)"
      by (simp add: is_publish_cas_conflict_def lambda_error_of_index_def split: index_error.split)
    ultimately have "process_queue_message w body s = (Inl (show_lambda_error (lambda_error_of_index e)), s1)"
      using Inr by (simp add: process_queue_message_def)
    then show ?thesis
      using fails stuck unfolding w_def by blast
  qed
qed

text \<open>A publication that fails after a build: the file tree keeps the artifact.\<close>

definition tree_node :: "string list local_node" where
  "tree_node = \<lparr>nd_root = ''/d'', nd_os = tree_os, nd_depth = 1, nd_walk_fuel = 5, nd_libs = tree_libs,
     nd_embedder = Inr (\<lambda>_. Inr [0, 0]), nd_source = (\<lambda>_. demo_src\<lparr>so_canonicalize := \<lambda>_. Inl ''EIO''\<rparr>),
     nd_iter = (\<lambda>m. m), nd_metadata_len = (\<lambda>_. Some 2),
     nd_de_record = (\<lambda>_. Inr (sample_upsert ''a'' ''t'' 1700000000000)),
     nd_utf8_msg = (\<lambda>_. []), nd_ser_manifest = (\<lambda>_. Inr []), nd_de_manifest = (\<lambda>_. Inl []),
     nd_ser_head = (\<lambda>_. ''head1''), nd_de_head = (\<lambda>_. Inr (manifest_head_new 1 1700000000005)), nd_pid = 1,
     nd_nonce = (\<lambda>n. n), nd_now = (\<lambda>_. 1700000000005), nd_sql = (\<lambda>_. no_faults), nd_env = (\<lambda>_ _ s. s)\<rparr>"

definition tree_failed :: "string list local_store" where
  "tree_failed = snd (process_queue_message (local_worker tree_node (\<lambda>_. Inr demo_message) (\<lambda>s. s) (Some ''2''))
     ''{}'' \<lparr>ls_db = empty_db\<lparr>wal_segments := [(''wal/k'', ''{}'' @ [LF])]\<rparr>, ls_fs = []\<rparr>)"

lemma tree_os_keeps: "os_keeps tree_os"
  by (auto simp: os_keeps_def tree_os_def below_exec)

lemma tree_failed_stuck: "stuck_version tree_node tree_failed"
proof -
  have "next_version_id (node_ops tree_node 0) (nd_de_head tree_node) tree_failed = Inr (1, None)"
    by code_simp
  moreover have "os_exists (nd_os tree_node) (staged_lance_path tree_node 1) (ls_fs tree_failed)"
    by code_simp
  ultimately show ?thesis
    unfolding stuck_version_def by blast
qed

lemma staged_version_blocks_worker_witness:
  "\<exists>e s'. process_queue_message (local_worker tree_node (\<lambda>_. Inr demo_message) (\<lambda>s. s) (Some ''2'')) ''{}'' tree_failed
      = (Inl e, s') \<and> ls_db s' = ls_db tree_failed \<and> stuck_version tree_node s'"
proof -
  have "os_keeps (nd_os tree_node)"
    by (simp add: tree_node_def tree_os_keeps)
  from staged_version_blocks_worker [OF this tree_failed_stuck] show ?thesis .
qed

end
