(* ===== verification/Ranking.thy ===== *)
theory Ranking
  imports Models
begin

text \<open>
  Ranking and filtering of search results (\<^verbatim>\<open>src/query/ranker.rs\<close>, \<^verbatim>\<open>src/query/filter.rs\<close> and
  the ranking helpers of \<^verbatim>\<open>src/query/retrieval_common.rs\<close>): reciprocal rank fusion in
  \<^verbatim>\<open>f32\<close> arithmetic, the deterministic order of results, de-duplication and metadata filters.
  Hash maps are iterated in an order given by an argument that permutes the entries.
\<close>


section \<open>The order of results\<close>

text \<open>Descending score in the total order of \<^verbatim>\<open>f32\<close>, then ascending id.\<close>

datatype rank_key = RankKey (rk_score: f32) (rk_id: string)

instantiation rank_key :: linorder
begin

definition less_eq_rank_key :: "rank_key \<Rightarrow> rank_key \<Rightarrow> bool" where
  "less_eq_rank_key a b \<longleftrightarrow>
     f32_total_key (rk_score b) < f32_total_key (rk_score a) \<or>
     rk_score a = rk_score b \<and> rk_id a \<le> rk_id b"

definition less_rank_key :: "rank_key \<Rightarrow> rank_key \<Rightarrow> bool" where
  "less_rank_key a b \<longleftrightarrow>
     f32_total_key (rk_score b) < f32_total_key (rk_score a) \<or>
     rk_score a = rk_score b \<and> rk_id a < rk_id b"

instance
proof
  fix x y z :: rank_key
  show "x < y \<longleftrightarrow> x \<le> y \<and> \<not> y \<le> x"
    by (auto simp: less_eq_rank_key_def less_rank_key_def)
  show "x \<le> x"
    by (simp add: less_eq_rank_key_def)
  show "x \<le> y \<Longrightarrow> y \<le> z \<Longrightarrow> x \<le> z"
    by (auto simp: less_eq_rank_key_def)
  show "x \<le> y \<Longrightarrow> y \<le> x \<Longrightarrow> x = y"
    by (cases x; cases y) (auto simp: less_eq_rank_key_def)
  show "x \<le> y \<or> y \<le> x"
    using f32_total_key_inj [of "rk_score x" "rk_score y"] by (fastforce simp: less_eq_rank_key_def)
qed

end

definition result_key :: "search_result \<Rightarrow> rank_key" where
  "result_key r = RankKey (res_score r) (res_doc_id r)"

definition compare_search_results :: "search_result \<Rightarrow> search_result \<Rightarrow> ordering" where
  "compare_search_results left right =
     then_with (f32_total_cmp (res_score right) (res_score left)) (cmp_ord (res_doc_id left) (res_doc_id right))"

interpretation result_order: key_comparator compare_search_results result_key
proof
  fix x y
  show "compare_search_results x y = cmp_ord (result_key x) (result_key y)"
    using f32_total_key_inj [of "res_score x" "res_score y"]
    by (auto simp: compare_search_results_def f32_total_cmp_def cmp_ord_def result_key_def less_rank_key_def)
qed


section \<open>Validation helpers\<close>

definition validate_top_k :: "nat \<Rightarrow> search_error + unit" where
  "validate_top_k k =
     (if k = 0 \<or> TOP_K_MAX < k then Inl (SearchValidation (RangeOutOfRange ''top_k'' 1 TOP_K_MAX)) else Inr ())"

definition validate_query_embedding :: "f32 list \<Rightarrow> search_error + unit" where
  "validate_query_embedding e =
     (if e = [] then Inl (SearchValidation (Required ''query_embedding''))
      else if \<exists>v \<in> set e. \<not> f32_is_finite v then Inl (SearchValidation (InvalidValue ''query_embedding''))
      else Inr ())"

definition validate_embedding_dim :: "f32 list \<Rightarrow> nat \<Rightarrow> search_error + unit" where
  "validate_embedding_dim e expected =
     (if length e \<noteq> expected then Inl (SearchValidation (InvalidValue ''query_embedding'')) else Inr ())"


section \<open>The best result per document\<close>

definition dedupe_step :: "(string, search_result) hmap \<Rightarrow> search_result \<Rightarrow> (string, search_result) hmap" where
  "dedupe_step m r =
     (case hm_get m (res_doc_id r) of
        Some existing \<Rightarrow> if f32_le (res_score r) (res_score existing) then m else hm_insert (res_doc_id r) r m
      | None \<Rightarrow> hm_insert (res_doc_id r) r m)"

definition dedupe_best_by_doc_id ::
  "((string, search_result) hmap \<Rightarrow> (string, search_result) hmap) \<Rightarrow> search_result list \<Rightarrow> nat \<Rightarrow> search_result list" where
  "dedupe_best_by_doc_id iter results k =
     take k (sort_by compare_search_results (map snd (iter (foldl dedupe_step [] results))))"

text \<open>The result that stays for one id: the first of those with the greatest score.\<close>

definition better :: "search_result option \<Rightarrow> search_result \<Rightarrow> search_result option" where
  "better acc r =
     (case acc of
        None \<Rightarrow> Some r
      | Some e \<Rightarrow> if f32_le (res_score r) (res_score e) then Some e else Some r)"

definition best_for :: "search_result list \<Rightarrow> string \<Rightarrow> search_result option" where
  "best_for rs i = foldl better None (filter (\<lambda>r. res_doc_id r = i) rs)"

lemma f32_le_key:
  assumes "\<not> f32_is_nan x" "\<not> f32_is_nan y"
  shows "f32_le x y \<longleftrightarrow> fl_key 23 8 (unat x) \<le> fl_key 23 8 (unat y)"
  using assms by (auto simp: f32_le_def f32_lt_def f32_eq_def fl_lt_def fl_eq_def f32_is_nan_def)

lemma foldl_dedupe_ok: "hm_ok m \<Longrightarrow> hm_ok (foldl dedupe_step m rs)"
  by (induction rs arbitrary: m) (auto simp: dedupe_step_def split: option.splits)

lemma foldl_dedupe: "hm_get (foldl dedupe_step [] rs) i = best_for rs i"
  by (induction rs rule: rev_induct)
    (auto simp: best_for_def dedupe_step_def better_def split: option.splits)

lemma best_for_snoc:
  "best_for (rs @ [x]) i = (if res_doc_id x = i then better (best_for rs i) x else best_for rs i)"
  by (simp add: best_for_def)

lemma best_for_Nil [simp]: "best_for [] i = None"
  by (simp add: best_for_def)

lemma best_for_None: "best_for rs i = None \<longleftrightarrow> (\<forall>r \<in> set rs. res_doc_id r \<noteq> i)"
  by (induction rs rule: rev_induct) (auto simp: best_for_snoc better_def split: option.splits)

lemma best_for_mem: "best_for rs i = Some r \<Longrightarrow> r \<in> set rs \<and> res_doc_id r = i"
  by (induction rs rule: rev_induct) (auto simp: best_for_snoc better_def split: option.splits if_splits)

lemma best_for_max:
  assumes "best_for rs i = Some r" "\<forall>r \<in> set rs. \<not> f32_is_nan (res_score r)" "r' \<in> set rs" "res_doc_id r' = i"
  shows "f32_le (res_score r') (res_score r)"
  using assms
proof (induction rs arbitrary: r rule: rev_induct)
  case (snoc x rs)
  have nan: "\<not> f32_is_nan (res_score y)" if "y \<in> set (rs @ [x])" for y
    using snoc.prems(2) that by blast
  show ?case
  proof (cases "res_doc_id x = i")
    case False
    then show ?thesis
      using snoc.IH [of r] snoc.prems by (simp add: best_for_snoc) blast
  next
    case True
    then have r: "better (best_for rs i) x = Some r"
      using snoc.prems(1) by (simp add: best_for_snoc)
    show ?thesis
    proof (cases "best_for rs i")
      case None
      then have "r' = x" "r = x"
        using best_for_None [of rs i] snoc.prems(3,4) r by (auto simp: better_def)
      then show ?thesis
        using nan [of x] by (simp add: f32_le_key)
    next
      case (Some e)
      have e: "e \<in> set rs"
        using best_for_mem [OF Some] by simp
      have r': "r = (if f32_le (res_score x) (res_score e) then e else x)"
        using r Some by (auto simp: better_def)
      have "f32_le (res_score r') (res_score e) \<or> r' = x"
        using snoc.IH [OF Some] snoc.prems(2-4) by auto
      then show ?thesis
        using nan [OF snoc.prems(3)] nan [of x] nan [of e] e r' by (auto simp: f32_le_key)
    qed
  qed
qed simp

text \<open>All of the results that stay, in order; the hash map is iterated in some order.\<close>

lemma dedupe_full:
  assumes "\<forall>m. mset (iter m) = mset m"
  obtains full where "\<And>k. dedupe_best_by_doc_id iter results k = take k full"
    "distinct (map res_doc_id full)" "sorted (map result_key full)"
    "\<And>r. r \<in> set full \<longleftrightarrow> best_for results (res_doc_id r) = Some r"
    "full = sort_by compare_search_results (map snd (foldl dedupe_step [] results))"
proof
  define m where "m = foldl dedupe_step [] results"
  define full where "full = sort_by compare_search_results (map snd (iter m))"
  have ok: "hm_ok m" and get: "hm_get m i = best_for results i" for i
    by (simp_all add: m_def foldl_dedupe_ok foldl_dedupe)
  have in_m: "(i, r) \<in> set m \<longleftrightarrow> best_for results i = Some r" for i r
    using hm_get_eq_Some_iff [OF ok] get by metis
  have ids: "res_doc_id r = i" if "(i, r) \<in> set m" for i r
    using that in_m best_for_mem by blast
  have iter: "mset (iter m) = mset m" "set (iter m) = set m"
    using assms(1) by (auto dest: mset_eq_setD)
  have keys: "map res_doc_id (map snd xs) = map fst xs" if "set xs \<subseteq> set m" for xs
    using that ids by (auto simp: subset_iff)
  have dist: "distinct (map res_doc_id (map snd m))"
    unfolding keys [OF order_refl] using ok by (simp add: hm_ok_def)
  have perm: "mset (map snd (iter m)) = mset (map snd m)"
    using iter(1) by simp
  show "dedupe_best_by_doc_id iter results k = take k full" for k
    by (simp add: dedupe_best_by_doc_id_def full_def m_def)
  show "r \<in> set full \<longleftrightarrow> best_for results (res_doc_id r) = Some r" for r
  proof -
    have "r \<in> set full \<longleftrightarrow> (\<exists>i. (i, r) \<in> set m)"
      by (force simp: full_def iter(2))
    also have "\<dots> \<longleftrightarrow> (res_doc_id r, r) \<in> set m"
      using ids by blast
    finally show ?thesis
      by (simp add: in_m)
  qed
  show "distinct (map res_doc_id full)"
    unfolding full_def using dist perm by (metis mset_eq_imp_distinct_iff mset_map mset_sort_by)
  show "sorted (map result_key full)"
    unfolding full_def by (rule result_order.sorted_sort_by)
  show "full = sort_by compare_search_results (map snd (foldl dedupe_step [] results))"
    unfolding full_def m_def [symmetric]
  proof (rule result_order.sort_by_perm [OF perm])
    have "inj_on res_doc_id (set (map snd (iter m)))"
      using dist perm by (metis distinct_map mset_eq_setD)
    then show "inj_on result_key (set (map snd (iter m)))"
      by (auto simp: inj_on_def result_key_def)
  qed
qed

lemma best_for_exists: "r \<in> set results \<Longrightarrow> \<exists>e. best_for results (res_doc_id r) = Some e"
  using best_for_None [of results "res_doc_id r"] by (cases "best_for results (res_doc_id r)") auto

text \<open>
  De-duplication keeps, for every document among the results, its best-scored one, and
  returns the first \<^verbatim>\<open>top_k\<close> of them in the order of descending score and ascending id, each
  document once; the order in which the hash map is iterated does not matter.
\<close>

theorem dedupe_keeps_the_best:
  assumes "\<forall>m. mset (iter m) = mset m" and "\<forall>r \<in> set results. \<not> f32_is_nan (res_score r)"
  shows "\<exists>full. dedupe_best_by_doc_id iter results k = take k full \<and>
    distinct (map res_doc_id full) \<and> sorted (map result_key full) \<and>
    res_doc_id ` set full = res_doc_id ` set results \<and> set full \<subseteq> set results \<and>
    (\<forall>r \<in> set full. \<forall>r' \<in> set results. res_doc_id r' = res_doc_id r \<longrightarrow> f32_le (res_score r') (res_score r)) \<and>
    dedupe_best_by_doc_id iter results k = dedupe_best_by_doc_id (\<lambda>m. m) results k"
proof -
  obtain full where full: "\<And>k. dedupe_best_by_doc_id iter results k = take k full"
      "distinct (map res_doc_id full)" "sorted (map result_key full)"
      and mem: "\<And>r. r \<in> set full \<longleftrightarrow> best_for results (res_doc_id r) = Some r"
      and eq: "full = sort_by compare_search_results (map snd (foldl dedupe_step [] results))"
    using dedupe_full [OF assms(1), of results] by metis
  have sub: "set full \<subseteq> set results"
    using mem best_for_mem by blast
  moreover have "res_doc_id ` set full = res_doc_id ` set results"
  proof
    show "res_doc_id ` set full \<subseteq> res_doc_id ` set results"
      by (rule image_mono [OF sub])
    show "res_doc_id ` set results \<subseteq> res_doc_id ` set full"
    proof
      fix i
      assume "i \<in> res_doc_id ` set results"
      then obtain e where e: "best_for results i = Some e"
        using best_for_exists by blast
      then have "e \<in> set full" "res_doc_id e = i"
        using mem [of e] best_for_mem [OF e] by simp_all
      then show "i \<in> res_doc_id ` set full"
        by blast
    qed
  qed
  moreover have "\<forall>r \<in> set full. \<forall>r' \<in> set results. res_doc_id r' = res_doc_id r \<longrightarrow> f32_le (res_score r') (res_score r)"
    using mem best_for_max assms(2) by metis
  moreover have "dedupe_best_by_doc_id iter results k = dedupe_best_by_doc_id (\<lambda>m. m) results k"
    unfolding full(1) eq by (simp add: dedupe_best_by_doc_id_def)
  ultimately show ?thesis
    using full by blast
qed


definition scored_result :: "string \<Rightarrow> f32 \<Rightarrow> search_result" where
  "scored_result i x = \<lparr>res_doc_id = i, res_score = x, res_text = i, res_metadata = None, res_source = Vector,
     res_chunk_source = DynamicChunk, res_corpus_type = None, res_citation = None\<rparr>"

lemma dedupe_keeps_the_best_witness:
  "\<exists>full. dedupe_best_by_doc_id rev [scored_result ''a'' 1, scored_result ''a'' 2, scored_result ''b'' 1] 1 = take 1 full \<and>
     distinct (map res_doc_id full) \<and> sorted (map result_key full) \<and> res_doc_id ` set full = {''a'', ''b''}"
proof -
  have "\<forall>m :: (string, search_result) hmap. mset (rev m) = mset m"
    by simp
  moreover have "\<forall>r \<in> set [scored_result ''a'' 1, scored_result ''a'' 2, scored_result ''b'' 1]. \<not> f32_is_nan (res_score r)"
    by (simp add: scored_result_def f32_is_nan_def fl_is_nan_def fl_mag_def inf32)
  ultimately show ?thesis
    using dedupe_keeps_the_best [of rev "[scored_result ''a'' 1, scored_result ''a'' 2, scored_result ''b'' 1]" 1]
    by (auto simp: scored_result_def)
qed


section \<open>Filters\<close>

text \<open>\<^verbatim>\<open>src/query/filter.rs\<close>; the conjunction over the fields of a filter does not depend on their order.\<close>

fun matches_filter_value :: "json \<Rightarrow> filter_value \<Rightarrow> bool" where
  "matches_filter_value actual (StringEquals v) \<longleftrightarrow> as_str actual = Some v"
| "matches_filter_value actual (BoolEquals v) \<longleftrightarrow> as_bool actual = Some v"
| "matches_filter_value actual (NumberEquals v) \<longleftrightarrow> (case as_f64 actual of None \<Rightarrow> False | Some x \<Rightarrow> f64_eq x v)"

definition matches_filters :: "search_result \<Rightarrow> (string, filter_value) hmap \<Rightarrow> bool" where
  "matches_filters r filters =
     (case res_metadata r of
        None \<Rightarrow> False
      | Some metadata \<Rightarrow> \<forall>(field, expected) \<in> set filters.
          (case hm_get metadata field of None \<Rightarrow> False | Some actual \<Rightarrow> matches_filter_value actual expected))"

definition apply_filters :: "search_result list \<Rightarrow> (string, filter_value) hmap option \<Rightarrow> search_result list" where
  "apply_filters results filters =
     (case filters of
        None \<Rightarrow> results
      | Some fs \<Rightarrow> if fs = [] then results else filter (\<lambda>r. matches_filters r fs) results)"

definition strip_metadata :: "search_result list \<Rightarrow> search_result list" where
  "strip_metadata results = map (\<lambda>r. r\<lparr>res_metadata := None\<rparr>) results"

lemma apply_filters_subset: "set (apply_filters rs fs) \<subseteq> set rs"
  by (auto simp: apply_filters_def split: option.splits if_splits)

lemma apply_filters_length: "length (apply_filters rs fs) \<le> length rs"
  by (auto simp: apply_filters_def split: option.splits)

definition wanted :: "(string, filter_value) hmap option \<Rightarrow> search_result \<Rightarrow> bool" where
  "wanted filters r \<longleftrightarrow> (\<forall>fs. filters = Some fs \<longrightarrow> fs \<noteq> [] \<longrightarrow> matches_filters r fs)"

lemma apply_filters_iff: "r \<in> set (apply_filters rs fs) \<longleftrightarrow> r \<in> set rs \<and> wanted fs r"
  by (auto simp: apply_filters_def wanted_def split: option.splits)

end
