(* ===== verification/Fusion.thy ===== *)
theory Fusion
  imports Ranking
begin

text \<open>
  Reciprocal rank fusion of the vector and keyword results (\<^verbatim>\<open>HybridRanker\<close>,
  \<^verbatim>\<open>src/query/ranker.rs\<close>), with its scores rounded as \<^verbatim>\<open>f32\<close> rounds them. A panic
  (\<^verbatim>\<open>unwrap\<close>, \<^verbatim>\<open>expect\<close>) is the value \<^term>\<open>None\<close>; it is shown not to happen.
\<close>


section \<open>The ranker\<close>

definition hybrid_ranker_new :: "f32 \<Rightarrow> f32 option" where
  "hybrid_ranker_new k = (if f32_lt 0 k then Some k else None)"

definition compute_rrf_score :: "f32 \<Rightarrow> nat \<Rightarrow> f32" where
  "compute_rrf_score k rank = f32_div f32_one (f32_add k (f32_of_nat rank))"

definition merge_metadata :: "metadata option \<Rightarrow> metadata option \<Rightarrow> metadata option" where
  "merge_metadata existing incoming =
     (case (existing, incoming) of
        (Some e, Some i) \<Rightarrow>
          Some (foldl (\<lambda>m (key, v). case hm_get m key of None \<Rightarrow> hm_insert key v m | Some _ \<Rightarrow> m) e i)
      | (None, Some i) \<Rightarrow> Some i
      | _ \<Rightarrow> existing)"

definition merge_result_payload :: "search_result \<Rightarrow> search_result \<Rightarrow> search_result" where
  "merge_result_payload existing incoming =
     (let e = existing\<lparr>res_metadata := merge_metadata (res_metadata existing) (res_metadata incoming)\<rparr>
      in if res_citation e = None then e\<lparr>res_citation := res_citation incoming\<rparr> else e)"

definition add_score :: "(string, f32) hmap \<Rightarrow> string \<Rightarrow> f32 \<Rightarrow> (string, f32) hmap" where
  "add_score m i x = hm_insert i (f32_add (case hm_get m i of None \<Rightarrow> 0 | Some y \<Rightarrow> y) x) m"

type_synonym fusion_state = "(string, f32) hmap \<times> (string, search_result) hmap"

fun fuse_vector :: "f32 \<Rightarrow> nat \<Rightarrow> search_result list \<Rightarrow> fusion_state \<Rightarrow> fusion_state" where
  "fuse_vector k index [] st = st"
| "fuse_vector k index (r # rs) (scores, docs) = fuse_vector k (Suc index) rs
     (add_score scores (res_doc_id r) (compute_rrf_score k (index + 1)),
      case hm_get docs (res_doc_id r) of None \<Rightarrow> hm_insert (res_doc_id r) r docs | Some _ \<Rightarrow> docs)"

fun fuse_keyword :: "f32 \<Rightarrow> nat \<Rightarrow> search_result list \<Rightarrow> fusion_state \<Rightarrow> fusion_state" where
  "fuse_keyword k index [] st = st"
| "fuse_keyword k index (r # rs) (scores, docs) = fuse_keyword k (Suc index) rs
     (add_score scores (res_doc_id r) (compute_rrf_score k (index + 1)),
      case hm_get docs (res_doc_id r) of
        None \<Rightarrow> hm_insert (res_doc_id r) r docs
      | Some existing \<Rightarrow> hm_insert (res_doc_id r) (merge_result_payload existing r) docs)"

definition fused_results :: "(string \<times> f32) list \<Rightarrow> (string, search_result) hmap \<Rightarrow> search_result list option" where
  "fused_results entries docs =
     (if \<exists>(i, x) \<in> set entries. hm_get docs i = None then None
      else Some (map (\<lambda>(i, x). (the (hm_get docs i))\<lparr>res_score := x, res_source := Hybrid\<rparr>) entries))"

definition compare_fused :: "search_result \<Rightarrow> search_result \<Rightarrow> ordering" where
  "compare_fused left right =
     then_with (case f32_partial_cmp (res_score right) (res_score left) of None \<Rightarrow> Equal | Some c \<Rightarrow> c)
       (cmp_ord (res_doc_id left) (res_doc_id right))"

text \<open>
  A sort of two or more results compares each of them at least once, and the comparison of a
  NaN with anything panics.
\<close>

definition sort_fused :: "search_result list \<Rightarrow> search_result list option" where
  "sort_fused rs =
     (if 2 \<le> length rs \<and> (\<exists>r \<in> set rs. f32_is_nan (res_score r)) then None
      else Some (sort_by compare_fused rs))"

definition fuse ::
  "f32 \<Rightarrow> ((string, f32) hmap \<Rightarrow> (string, f32) hmap) \<Rightarrow> search_result list \<Rightarrow> search_result list \<Rightarrow>
   search_result list option" where
  "fuse k iter vector_results keyword_results =
     (case fuse_keyword k 0 keyword_results (fuse_vector k 0 vector_results ([], [])) of
        (scores, docs) \<Rightarrow> Option.bind (fused_results (iter scores) docs) sort_fused)"


section \<open>Scores\<close>

lemma positive_f32: "f32_lt 0 k \<Longrightarrow> f32_nonneg k \<and> 0 < unat k"
proof -
  assume "f32_lt 0 k"
  then have *: "\<not> fl_is_nan 23 8 (unat k)" "0 < fl_key 23 8 (unat k)"
    by (simp_all add: f32_lt_def fl_lt_def fl_key_def fl_sign_def fl_mag_def)
  then have s: "\<not> fl_sign 23 8 (unat k)" "0 < fl_mag 23 8 (unat k)"
    by (auto simp: fl_key_def split: if_splits)
  then have "fl_mag 23 8 (unat k) = unat k"
    by (simp add: fl_sign_def fl_mag_def)
  then show ?thesis
    using *(1) s(2) by (simp add: f32_nonneg_def fl_is_nan_def)
qed

lemma f32_nonneg_of_nat [simp]: "f32_nonneg (f32_of_nat n)"
  using fl_of_nat_le_inf [of 23 8 n] unat_of_nonneg32 [of "fl_of_nat 23 8 n"]
  by (simp add: f32_nonneg_def f32_of_nat_def)

lemma f32_of_nat_mono: "m \<le> n \<Longrightarrow> f32_of_nat m \<le> f32_of_nat n"
  using fl_of_nat_mono [of m n 23 8] fl_of_nat_le_inf [of 23 8]
  by (simp add: f32_of_nat_def word_le_nat_alt unat_of_nonneg32)

lemma f32_div_nonneg:
  assumes "f32_nonneg x" "f32_is_finite x" "f32_nonneg y" "0 < unat y"
  shows "unat (f32_div x y) = fl_div 23 8 (unat x) (unat y)" "f32_nonneg (f32_div x y)"
proof -
  have "unat x < inf_mag 23 8"
    using assms(1,2) f32_nonneg_compare(7) [OF assms(1,1)] by simp
  then have le: "fl_div 23 8 (unat x) (unat y) \<le> inf_mag 23 8"
    using assms by (intro fl_div_le_inf) (simp_all add: f32_nonneg_def)
  then show "unat (f32_div x y) = fl_div 23 8 (unat x) (unat y)"
    by (simp add: f32_div_def unat_of_nonneg32)
  with le show "f32_nonneg (f32_div x y)"
    by (simp add: f32_nonneg_def)
qed

lemma f32_one_finite [simp]: "f32_is_finite f32_one"
  by (simp add: f32_is_finite_def fl_is_finite_def fl_mag_def f32_one_def inf32)

lemma rrf_denominator:
  assumes "f32_lt 0 k"
  shows "f32_nonneg (f32_add k (f32_of_nat n))" "0 < unat (f32_add k (f32_of_nat n))"
    "m \<le> n \<Longrightarrow> f32_add k (f32_of_nat m) \<le> f32_add k (f32_of_nat n)"
proof -
  note k = positive_f32 [OF assms]
  show "f32_nonneg (f32_add k (f32_of_nat n))"
    using k by simp
  have "k \<le> f32_add k (f32_of_nat n)"
    using k by (intro f32_add_ge_left) simp_all
  then show "0 < unat (f32_add k (f32_of_nat n))"
    using k by (simp add: word_le_nat_alt)
  show "m \<le> n \<Longrightarrow> f32_add k (f32_of_nat m) \<le> f32_add k (f32_of_nat n)"
    using k by (intro f32_add_mono f32_of_nat_mono) simp_all
qed

lemma rrf_score_nonneg [simp]: "f32_lt 0 k \<Longrightarrow> f32_nonneg (compute_rrf_score k n)"
  unfolding compute_rrf_score_def by (intro f32_div_nonneg(2) rrf_denominator) simp_all

lemma rrf_score_antimono:
  assumes "f32_lt 0 k" "m \<le> n"
  shows "compute_rrf_score k n \<le> compute_rrf_score k m"
proof -
  note d = rrf_denominator [OF assms(1)]
  have "unat f32_one < inf_mag 23 8"
    by (simp add: f32_one_def inf32)
  then have "fl_div 23 8 (unat f32_one) (unat (f32_add k (f32_of_nat n))) \<le>
      fl_div 23 8 (unat f32_one) (unat (f32_add k (f32_of_nat m)))"
    using d(1) [of n] d(1) [of m] d(2) [of m] d(3) [OF assms(2)]
    by (intro fl_div_antimono) (simp_all add: word_le_nat_alt f32_nonneg_def)
  then show ?thesis
    unfolding compute_rrf_score_def word_le_nat_alt
    using d f32_div_nonneg(1) [of f32_one] by simp
qed


section \<open>What fusion computes\<close>

text \<open>The scores a list contributes to an id, and their sum over both lists.\<close>

fun contribs :: "f32 \<Rightarrow> nat \<Rightarrow> search_result list \<Rightarrow> string \<Rightarrow> f32 list" where
  "contribs k n [] i = []"
| "contribs k n (r # rs) i =
     (if res_doc_id r = i then [compute_rrf_score k (n + 1)] else []) @ contribs k (Suc n) rs i"

definition rrf_sum :: "f32 \<Rightarrow> search_result list \<Rightarrow> search_result list \<Rightarrow> string \<Rightarrow> f32" where
  "rrf_sum k vs ks i = foldl f32_add 0 (contribs k 0 vs i @ contribs k 0 ks i)"

text \<open>The score map after some contributions.\<close>

definition scored :: "(string, f32) hmap \<Rightarrow> (string \<Rightarrow> f32 list) \<Rightarrow> bool" where
  "scored m c \<longleftrightarrow> hm_ok m \<and> (\<forall>i. hm_get m i = (if c i = [] then None else Some (foldl f32_add 0 (c i))))"

lemma scored_add:
  assumes "scored m c"
  shows "scored (add_score m j x) (\<lambda>i. c i @ (if j = i then [x] else []))"
  using assms by (auto simp: scored_def add_score_def)

definition first_for :: "search_result list \<Rightarrow> string \<Rightarrow> search_result option" where
  "first_for rs i = find (\<lambda>r. res_doc_id r = i) rs"

text \<open>Every document is represented by its first result, with only its payload completed.\<close>

definition same_core :: "search_result \<Rightarrow> search_result \<Rightarrow> bool" where
  "same_core a b \<longleftrightarrow> res_doc_id a = res_doc_id b \<and> res_text a = res_text b \<and>
     res_chunk_source a = res_chunk_source b \<and> res_corpus_type a = res_corpus_type b"

definition doc_for :: "(string, search_result) hmap \<Rightarrow> search_result list \<Rightarrow> bool" where
  "doc_for docs seen \<longleftrightarrow> (\<forall>i. case hm_get docs i of
      None \<Rightarrow> first_for seen i = None
    | Some d \<Rightarrow> (\<exists>r. first_for seen i = Some r \<and> same_core d r))"

lemma find_snoc: "find P (xs @ [x]) = (case find P xs of None \<Rightarrow> if P x then Some x else None | Some y \<Rightarrow> Some y)"
  by (induction xs) auto

lemma first_for_id: "first_for rs i = Some r \<Longrightarrow> res_doc_id r = i \<and> r \<in> set rs"
  by (auto simp: first_for_def find_Some_iff)

lemma doc_for_keep:
  assumes "doc_for docs seen" "hm_get docs (res_doc_id r) = Some d"
  shows "doc_for docs (seen @ [r])"
  unfolding doc_for_def
proof
  fix i
  show "case hm_get docs i of None \<Rightarrow> first_for (seen @ [r]) i = None
      | Some d \<Rightarrow> \<exists>r'. first_for (seen @ [r]) i = Some r' \<and> same_core d r'"
    using assms spec [OF assms(1) [unfolded doc_for_def], of i]
    by (cases "res_doc_id r = i") (auto simp: first_for_def find_snoc split: option.splits)
qed

lemma doc_for_new:
  assumes "doc_for docs seen" "hm_get docs (res_doc_id r) = None"
  shows "doc_for (hm_insert (res_doc_id r) r docs) (seen @ [r])"
  unfolding doc_for_def
proof
  fix i
  show "case hm_get (hm_insert (res_doc_id r) r docs) i of None \<Rightarrow> first_for (seen @ [r]) i = None
      | Some d \<Rightarrow> \<exists>r'. first_for (seen @ [r]) i = Some r' \<and> same_core d r'"
    using assms spec [OF assms(1) [unfolded doc_for_def], of i]
    by (cases "res_doc_id r = i") (auto simp: first_for_def find_snoc same_core_def split: option.splits)
qed

lemma same_core_merge: "same_core d r \<Longrightarrow> same_core (merge_result_payload d r') r"
  by (simp add: same_core_def merge_result_payload_def Let_def)

lemma doc_for_merge:
  assumes "doc_for docs seen" "hm_get docs (res_doc_id r) = Some d"
  shows "doc_for (hm_insert (res_doc_id r) (merge_result_payload d r) docs) (seen @ [r])"
  using doc_for_keep [OF assms] assms(2) same_core_merge
  unfolding doc_for_def by (fastforce split: option.splits if_splits)

lemma fuse_vector_inv:
  assumes "scored scores c" "doc_for docs seen"
  shows "case fuse_vector k n rs (scores, docs) of (scores', docs') \<Rightarrow>
    scored scores' (\<lambda>i. c i @ contribs k n rs i) \<and> doc_for docs' (seen @ rs)"
  using assms
proof (induction rs arbitrary: n scores docs c seen)
  case (Cons r rs)
  define docs1 where "docs1 = (case hm_get docs (res_doc_id r) of None \<Rightarrow> hm_insert (res_doc_id r) r docs | Some _ \<Rightarrow> docs)"
  have "doc_for docs1 (seen @ [r])"
    using doc_for_keep [OF Cons.prems(2), of r] doc_for_new [OF Cons.prems(2), of r]
    by (cases "hm_get docs (res_doc_id r)") (simp_all add: docs1_def)
  from Cons.IH [OF scored_add [OF Cons.prems(1), of "res_doc_id r" "compute_rrf_score k (n + 1)"] this, of "Suc n"]
  show ?case
    by (simp add: docs1_def)
qed simp

lemma fuse_keyword_inv:
  assumes "scored scores c" "doc_for docs seen"
  shows "case fuse_keyword k n rs (scores, docs) of (scores', docs') \<Rightarrow>
    scored scores' (\<lambda>i. c i @ contribs k n rs i) \<and> doc_for docs' (seen @ rs)"
  using assms
proof (induction rs arbitrary: n scores docs c seen)
  case (Cons r rs)
  define docs1 where "docs1 = (case hm_get docs (res_doc_id r) of None \<Rightarrow> hm_insert (res_doc_id r) r docs
    | Some e \<Rightarrow> hm_insert (res_doc_id r) (merge_result_payload e r) docs)"
  have "doc_for docs1 (seen @ [r])"
    using doc_for_merge [OF Cons.prems(2), of r] doc_for_new [OF Cons.prems(2), of r]
    by (cases "hm_get docs (res_doc_id r)") (simp_all add: docs1_def)
  from Cons.IH [OF scored_add [OF Cons.prems(1), of "res_doc_id r" "compute_rrf_score k (n + 1)"] this, of "Suc n"]
  show ?case
    by (simp add: docs1_def)
qed simp


lemma contribs_nonneg: "f32_lt 0 k \<Longrightarrow> x \<in> set (contribs k n rs i) \<Longrightarrow> f32_nonneg x"
  by (induction rs arbitrary: n) (auto split: if_splits)

lemma contribs_Nil: "contribs k n rs i = [] \<longleftrightarrow> (\<forall>r \<in> set rs. res_doc_id r \<noteq> i)"
  by (induction rs arbitrary: n) auto

lemma foldl_add_nonneg: "f32_nonneg a \<Longrightarrow> \<forall>x \<in> set xs. f32_nonneg x \<Longrightarrow> f32_nonneg (foldl f32_add a xs)"
  by (induction xs arbitrary: a) auto

lemma rrf_sum_nonneg: "f32_lt 0 k \<Longrightarrow> f32_nonneg (rrf_sum k vs ks i)"
  unfolding rrf_sum_def by (intro foldl_add_nonneg) (auto dest: contribs_nonneg)

lemma sort_by_cong:
  "(\<And>x y. x \<in> set xs \<Longrightarrow> y \<in> set xs \<Longrightarrow> c x y = d x y) \<Longrightarrow> sort_by c xs = sort_by d xs"
proof (induction xs)
  case (Cons x xs)
  have "insert_by c x ys = insert_by d x ys" if "set ys \<subseteq> set xs" for ys
    using that Cons.prems by (induction ys) auto
  then show ?case
    using Cons by simp
qed simp

lemma compare_fused_nonneg:
  "f32_nonneg (res_score x) \<Longrightarrow> f32_nonneg (res_score y) \<Longrightarrow> compare_fused x y = compare_search_results x y"
  by (simp add: compare_fused_def compare_search_results_def f32_nonneg_compare)

lemma fuse_outcome:
  assumes k: "f32_lt 0 k" and iter: "\<forall>m. mset (iter m) = mset m"
  obtains scores docs where "hm_ok scores"
    "\<And>i. hm_get scores i = (if (\<forall>r \<in> set (vs @ ks). res_doc_id r \<noteq> i) then None else Some (rrf_sum k vs ks i))"
    "doc_for docs (vs @ ks)"
    "\<And>f. \<forall>m. mset (f m) = mset m \<Longrightarrow> fuse k f vs ks = Some (sort_by compare_search_results
       (map (\<lambda>(i, x). (the (hm_get docs i))\<lparr>res_score := x, res_source := Hybrid\<rparr>) (f scores)))"
proof -
  obtain sc1 d1 where 1: "fuse_vector k 0 vs ([], []) = (sc1, d1)"
    by fastforce
  obtain scores docs where 2: "fuse_keyword k 0 ks (sc1, d1) = (scores, docs)"
    by fastforce
  have "scored sc1 (contribs k 0 vs)" "doc_for d1 vs"
    using fuse_vector_inv [of "[]" "\<lambda>_. []" "[]" "[]" k 0 vs] 1
    by (simp_all add: scored_def doc_for_def first_for_def)
  from fuse_keyword_inv [OF this, of k 0 ks] 2
  have sc: "scored scores (\<lambda>i. contribs k 0 vs i @ contribs k 0 ks i)" and docs: "doc_for docs (vs @ ks)"
    by simp_all
  have get: "hm_get scores i = (if (\<forall>r \<in> set (vs @ ks). res_doc_id r \<noteq> i) then None else Some (rrf_sum k vs ks i))" for i
    using sc by (auto simp: scored_def rrf_sum_def contribs_Nil)
  have ok: "hm_ok scores"
    using sc by (simp add: scored_def)
  have entry: "\<exists>d. hm_get docs i = Some d \<and> f32_nonneg x" if "(i, x) \<in> set scores" for i x
  proof -
    have g: "hm_get scores i = Some x"
      using that hm_get_eq_Some_iff [OF ok] by simp
    then have "first_for (vs @ ks) i \<noteq> None" "x = rrf_sum k vs ks i"
      using get [of i] by (auto simp: first_for_def find_None_iff split: if_splits)
    then show ?thesis
      using spec [OF docs [unfolded doc_for_def], of i] rrf_sum_nonneg [OF k] by (auto split: option.splits)
  qed
  have "fuse k f vs ks = Some (sort_by compare_search_results
       (map (\<lambda>(i, x). (the (hm_get docs i))\<lparr>res_score := x, res_source := Hybrid\<rparr>) (f scores)))"
    if f: "\<forall>m. mset (f m) = mset m" for f
  proof -
    define out where "out = map (\<lambda>(i, x). (the (hm_get docs i))\<lparr>res_score := x, res_source := Hybrid\<rparr>) (f scores)"
    have set: "set (f scores) = set scores"
      using f by (metis mset_eq_setD)
    have fr: "fused_results (f scores) docs = Some out"
      using entry by (fastforce simp: fused_results_def set out_def)
    have nonneg: "f32_nonneg (res_score r)" if "r \<in> set out" for r
      using that entry by (auto simp: out_def set)
    then have "\<not> f32_is_nan (res_score r)" if "r \<in> set out" for r
      using that f32_nonneg_compare(4) by blast
    then have "sort_fused out = Some (sort_by compare_search_results out)"
      using nonneg by (auto simp: sort_fused_def compare_fused_nonneg intro: sort_by_cong)
    then show ?thesis
      using fr by (simp add: fuse_def 1 2 out_def)
  qed
  then show thesis
    using that ok get docs by blast
qed

lemma fusion_result:
  assumes "f32_lt 0 k" and "\<forall>m. mset (iter m) = mset m"
  shows "\<exists>out. fuse k iter vs ks = Some out \<and> distinct (map res_doc_id out) \<and>
    res_doc_id ` set out = res_doc_id ` set (vs @ ks) \<and> sorted (map result_key out) \<and>
    (\<forall>r \<in> set out. res_score r = rrf_sum k vs ks (res_doc_id r) \<and> res_source r = Hybrid \<and>
       (\<exists>r0. first_for (vs @ ks) (res_doc_id r) = Some r0 \<and> same_core r r0)) \<and>
    fuse k iter vs ks = fuse k (\<lambda>m. m) vs ks"
proof -
  obtain scores docs where o: "hm_ok scores"
    "\<And>i. hm_get scores i = (if (\<forall>r \<in> set (vs @ ks). res_doc_id r \<noteq> i) then None else Some (rrf_sum k vs ks i))"
    "doc_for docs (vs @ ks)"
    "\<And>f. \<forall>m. mset (f m) = mset m \<Longrightarrow> fuse k f vs ks = Some (sort_by compare_search_results
       (map (\<lambda>(i, x). (the (hm_get docs i))\<lparr>res_score := x, res_source := Hybrid\<rparr>) (f scores)))"
    using fuse_outcome [OF assms, of vs ks] by blast
  define mk where "mk = (\<lambda>(i, x). (the (hm_get docs i))\<lparr>res_score := x, res_source := Hybrid\<rparr>)"
  define out where "out = sort_by compare_search_results (map mk (iter scores))"
  have f1: "fuse k iter vs ks = Some out" and f2: "fuse k (\<lambda>m. m) vs ks = Some (sort_by compare_search_results (map mk scores))"
    using o(4) [OF assms(2)] o(4) [of "\<lambda>m. m"] by (simp_all add: out_def mk_def)
  have perm: "mset (iter scores) = mset scores" "set (iter scores) = set scores"
    using assms(2) by (auto dest: mset_eq_setD)
  have entry: "\<exists>d r0. hm_get docs i = Some d \<and> first_for (vs @ ks) i = Some r0 \<and> same_core d r0 \<and>
      res_doc_id d = i \<and> x = rrf_sum k vs ks i"
    if "(i, x) \<in> set scores" for i x
  proof -
    have g: "hm_get scores i = Some x"
      using that hm_get_eq_Some_iff [OF o(1)] by simp
    then have ff: "first_for (vs @ ks) i \<noteq> None" and x: "x = rrf_sum k vs ks i"
      using o(2) [of i] by (auto simp: first_for_def find_None_iff split: if_splits)
    then obtain d r0 where "hm_get docs i = Some d" "first_for (vs @ ks) i = Some r0" "same_core d r0"
      using spec [OF o(3) [unfolded doc_for_def], of i] by (auto split: option.splits)
    then show ?thesis
      using x first_for_id by (auto simp: same_core_def)
  qed
  have ids: "map res_doc_id (map mk xs) = map fst xs" if "set xs \<subseteq> set scores" for xs
    using that by (auto simp: mk_def dest!: entry subsetD)
  have dist: "distinct (map res_doc_id (map mk scores))"
    unfolding ids [OF order_refl] using o(1) by (simp add: hm_ok_def)
  have pm: "mset (map mk (iter scores)) = mset (map mk scores)"
    using perm(1) by simp
  have out_set: "set out = mk ` set scores"
    by (simp add: out_def perm(2))
  have "distinct (map res_doc_id out)"
    unfolding out_def using dist pm by (metis mset_eq_imp_distinct_iff mset_map mset_sort_by)
  moreover have "res_doc_id ` set out = res_doc_id ` set (vs @ ks)"
  proof -
    have "res_doc_id ` set out = fst ` set scores"
      using ids [OF order_refl] unfolding out_set by (metis list.set_map)
    also have "\<dots> = {i. hm_get scores i \<noteq> None}"
      using hm_get_eq_None_iff [of scores] by auto
    also have "\<dots> = res_doc_id ` set (vs @ ks)"
      using o(2) by (auto split: if_splits)
    finally show ?thesis .
  qed
  moreover have "sorted (map result_key out)"
    unfolding out_def by (rule result_order.sorted_sort_by)
  moreover have "\<forall>r \<in> set out. res_score r = rrf_sum k vs ks (res_doc_id r) \<and> res_source r = Hybrid \<and>
       (\<exists>r0. first_for (vs @ ks) (res_doc_id r) = Some r0 \<and> same_core r r0)"
  proof
    fix r
    assume "r \<in> set out"
    then obtain i x where ix: "(i, x) \<in> set scores" "r = mk (i, x)"
      using out_set by auto
    from entry [OF ix(1)] show "res_score r = rrf_sum k vs ks (res_doc_id r) \<and> res_source r = Hybrid \<and>
       (\<exists>r0. first_for (vs @ ks) (res_doc_id r) = Some r0 \<and> same_core r r0)"
      by (auto simp: ix(2) mk_def same_core_def)
  qed
  moreover have "out = sort_by compare_search_results (map mk scores)"
    unfolding out_def
  proof (rule result_order.sort_by_perm [OF pm])
    have "inj_on res_doc_id (set (map mk (iter scores)))"
      using dist pm by (metis distinct_map mset_eq_setD)
    then show "inj_on result_key (set (map mk (iter scores)))"
      by (auto simp: inj_on_def result_key_def)
  qed
  ultimately show ?thesis
    using f1 f2 by (intro exI [of _ out]) simp
qed


text \<open>
  C14. Fusion never panics and returns every document of either list exactly once, ordered by
  descending score and ascending id; the score is the rounded sum of the reciprocal ranks, in
  the order they were added, and the document is represented by its first result, the vector
  one if there is one. The iteration order of the hash map does not matter.
\<close>

theorem fusion_is_exact:
  assumes "f32_lt 0 k" and "\<forall>m. mset (iter m) = mset m"
  shows "\<exists>out. fuse k iter vs ks = Some out \<and> distinct (map res_doc_id out) \<and>
    res_doc_id ` set out = res_doc_id ` set (vs @ ks) \<and> sorted (map result_key out) \<and>
    (\<forall>r \<in> set out. res_score r = rrf_sum k vs ks (res_doc_id r) \<and> res_source r = Hybrid \<and>
       (\<exists>r0. first_for (vs @ ks) (res_doc_id r) = Some r0 \<and> same_core r r0)) \<and>
    fuse k iter vs ks = fuse k (\<lambda>m. m) vs ks"
  by (rule fusion_result [OF assms])

definition demo_result :: "string \<Rightarrow> f32 \<Rightarrow> search_result" where
  "demo_result i x = \<lparr>res_doc_id = i, res_score = x, res_text = i, res_metadata = None, res_source = Keyword,
     res_chunk_source = DynamicChunk, res_corpus_type = None, res_citation = None\<rparr>"

text \<open>The constant of the query router.\<close>

definition rrf_60 :: f32 where "rrf_60 = 0x42700000"

lemma rrf_60_positive: "f32_lt 0 rrf_60"
  by code_simp

lemma fusion_is_exact_witness:
  "\<exists>out. fuse rrf_60 rev [demo_result ''a'' 0, demo_result ''b'' 0] [demo_result ''b'' 0, demo_result ''c'' 0] = Some out \<and>
     distinct (map res_doc_id out) \<and> res_doc_id ` set out = {''a'', ''b'', ''c''}"
proof -
  have "\<forall>m :: (string, f32) hmap. mset (rev m) = mset m"
    by simp
  from fusion_is_exact [OF rrf_60_positive this,
      of "[demo_result ''a'' 0, demo_result ''b'' 0]" "[demo_result ''b'' 0, demo_result ''c'' 0]"]
  show ?thesis
    by (auto simp: demo_result_def)
qed


section \<open>Agreement of both lists\<close>

text \<open>One document is ahead of another in a ranking, or the other is not ranked there.\<close>

definition ahead :: "search_result list \<Rightarrow> string \<Rightarrow> string \<Rightarrow> bool" where
  "ahead rs a b \<longleftrightarrow> (\<forall>j < length rs. res_doc_id (rs ! j) = b \<longrightarrow> (\<exists>i \<le> j. res_doc_id (rs ! i) = a))"

lemma contribs_at:
  assumes "distinct (map res_doc_id rs)" "j < length rs"
  shows "contribs k n rs (res_doc_id (rs ! j)) = [compute_rrf_score k (n + j + 1)]"
  using assms
proof (induction rs arbitrary: n j)
  case (Cons r rs)
  show ?case
  proof (cases j)
    case 0
    moreover have "contribs k (Suc n) rs (res_doc_id r) = []"
      unfolding contribs_Nil using Cons.prems(1) by (simp, metis imageI)
    ultimately show ?thesis
      by simp
  next
    case (Suc m)
    then have "m < length rs"
      using Cons.prems(2) by simp
    then have "res_doc_id (rs ! m) \<in> res_doc_id ` set rs"
      by (intro imageI nth_mem)
    then have "res_doc_id (rs ! m) \<noteq> res_doc_id r"
      using Cons.prems(1) by auto
    then show ?thesis
      using Cons.IH [of m "Suc n"] Cons.prems \<open>m < length rs\<close> Suc by simp
  qed
qed simp

lemma ahead_contribs:
  assumes "distinct (map res_doc_id rs)" "ahead rs a b" "f32_lt 0 k"
  shows "contribs k 0 rs b = [] \<or> (\<exists>x y. contribs k 0 rs a = [x] \<and> contribs k 0 rs b = [y] \<and> y \<le> x)"
proof (cases "contribs k 0 rs b = []")
  case False
  then obtain j where j: "j < length rs" "res_doc_id (rs ! j) = b"
    unfolding contribs_Nil by (metis in_set_conv_nth)
  then obtain i where i: "i \<le> j" "res_doc_id (rs ! i) = a"
    using assms(2) unfolding ahead_def by blast
  have "contribs k 0 rs a = [compute_rrf_score k (i + 1)]" "contribs k 0 rs b = [compute_rrf_score k (j + 1)]"
    using contribs_at [OF assms(1), of i k 0] contribs_at [OF assms(1), of j k 0] i j by simp_all
  then show ?thesis
    using rrf_score_antimono [OF assms(3), of "i + 1" "j + 1"] i(1) by simp
qed simp

lemma contribs_short: "distinct (map res_doc_id rs) \<Longrightarrow> contribs k n rs i = [] \<or> (\<exists>x. contribs k n rs i = [x])"
proof (cases "contribs k n rs i = []")
  case False
  assume "distinct (map res_doc_id rs)"
  moreover obtain j where "j < length rs" "res_doc_id (rs ! j) = i"
    using False unfolding contribs_Nil by (metis in_set_conv_nth)
  ultimately show ?thesis
    using contribs_at [of rs j k n] by blast
qed simp

lemma rrf_sum_ahead:
  assumes "f32_lt 0 k" "distinct (map res_doc_id vs)" "distinct (map res_doc_id ks)" "ahead vs a b" "ahead ks a b"
  shows "rrf_sum k vs ks b \<le> rrf_sum k vs ks a"
proof -
  note nn = contribs_nonneg [OF assms(1)]
  have zero: "f32_add 0 x = x" if "f32_nonneg x" for x
    by (rule f32_add_zero [OF that])
  note cv = ahead_contribs [OF assms(2,4,1)] and ck = ahead_contribs [OF assms(3,5,1)]
  have leb: "0 \<le> z" for z :: f32
    by simp
  show ?thesis
  proof (cases "contribs k 0 vs b = []")
    case True
    show ?thesis
    proof (cases "contribs k 0 ks b = []")
      case True
      then show ?thesis
        using \<open>contribs k 0 vs b = []\<close> by (simp add: rrf_sum_def)
    next
      case False
      then obtain x y where xy: "contribs k 0 ks a = [x]" "contribs k 0 ks b = [y]" "y \<le> x"
        using ck by blast
      have n: "f32_nonneg x" "f32_nonneg y"
        using nn [of _ 0 ks] xy(1,2) by (metis list.set_intros(1))+
      consider "contribs k 0 vs a = []" | z where "contribs k 0 vs a = [z]"
        using contribs_short [OF assms(2), of k 0 a] by blast
      then show ?thesis
      proof cases
        case 1
        then show ?thesis
          using xy n \<open>contribs k 0 vs b = []\<close> by (simp add: rrf_sum_def zero)
      next
        case 2
        then have z: "f32_nonneg z"
          using nn [of z 0 vs a] by simp
        have "y \<le> f32_add z x"
          using f32_add_ge_left [of x z] f32_add_commute [OF z n(1)] xy(3) n z by simp
        then show ?thesis
          using xy n 2 z \<open>contribs k 0 vs b = []\<close> by (simp add: rrf_sum_def zero)
      qed
    qed
  next
    case False
    then obtain x y where xy: "contribs k 0 vs a = [x]" "contribs k 0 vs b = [y]" "y \<le> x"
      using cv by blast
    have n: "f32_nonneg x" "f32_nonneg y"
      using nn [of _ 0 vs] xy(1,2) by (metis list.set_intros(1))+
    show ?thesis
    proof (cases "contribs k 0 ks b = []")
      case True
      consider "contribs k 0 ks a = []" | z where "contribs k 0 ks a = [z]"
        using contribs_short [OF assms(3), of k 0 a] by blast
      then show ?thesis
      proof cases
        case 1
        then show ?thesis
          using xy n True by (simp add: rrf_sum_def zero)
      next
        case 2
        then have z: "f32_nonneg z"
          using nn [of z 0 ks a] by simp
        then show ?thesis
          using xy n True 2 f32_add_ge_left [OF n(1) z] by (simp add: rrf_sum_def zero)
      qed
    next
      case False
      then obtain z w where zw: "contribs k 0 ks a = [z]" "contribs k 0 ks b = [w]" "w \<le> z"
        using ck by blast
      have m: "f32_nonneg z" "f32_nonneg w"
        using nn [of _ 0 ks] zw(1,2) by (metis list.set_intros(1))+
      show ?thesis
        using xy zw n m f32_add_mono [OF xy(3) zw(3) n(1) m(1)] by (simp add: rrf_sum_def zero)
    qed
  qed
qed

text \<open>
  When both rankings list a document ahead of another (or do not list the other), fusion
  does not turn them around: the score of the first is at least that of the second, despite
  rounding, and it comes earlier unless the rounded scores are equal.
\<close>

theorem fusion_respects_agreement:
  assumes "f32_lt 0 k" "\<forall>m. mset (iter m) = mset m"
    and "distinct (map res_doc_id vs)" "distinct (map res_doc_id ks)"
    and "ahead vs (res_doc_id a) (res_doc_id b)" "ahead ks (res_doc_id a) (res_doc_id b)"
    and "fuse k iter vs ks = Some out" "a \<in> set out" "b \<in> set out"
  shows "f32_le (res_score b) (res_score a) \<and> (res_score a = res_score b \<or> result_key a < result_key b)"
proof -
  obtain out' where o: "fuse k iter vs ks = Some out'"
    "\<forall>r \<in> set out'. res_score r = rrf_sum k vs ks (res_doc_id r) \<and> res_source r = Hybrid \<and>
       (\<exists>r0. first_for (vs @ ks) (res_doc_id r) = Some r0 \<and> same_core r r0)"
    using fusion_result [OF assms(1,2), of vs ks] by (elim exE conjE) (rule that)
  then have score: "res_score r = rrf_sum k vs ks (res_doc_id r)" if "r \<in> set out" for r
    using that assms(7) by simp
  have le: "res_score b \<le> res_score a"
    using rrf_sum_ahead [OF assms(1,3-6)] score assms(8,9) by simp
  have nn: "f32_nonneg (res_score a)" "f32_nonneg (res_score b)"
    using rrf_sum_nonneg [OF assms(1)] score assms(8,9) by simp_all
  have "result_key a < result_key b" if "res_score b < res_score a"
  proof -
    have "f32_total_cmp (res_score b) (res_score a) = Less"
      using f32_nonneg_compare(6) [OF nn(2,1)] that by (simp add: cmp_ord_def)
    then show ?thesis
      by (auto simp: less_rank_key_def result_key_def f32_total_cmp_def cmp_ord_def split: if_splits)
  qed
  then show ?thesis
    using le f32_nonneg_compare(3) [OF nn(2,1)] by (cases "res_score b < res_score a") auto
qed

lemma fusion_respects_agreement_witness:
  "\<exists>out a b. fuse rrf_60 (\<lambda>m. m) [demo_result ''a'' 0, demo_result ''b'' 0] [demo_result ''c'' 0, demo_result ''a'' 0] =
      Some out \<and> a \<in> set out \<and> b \<in> set out \<and> res_doc_id a = ''a'' \<and> res_doc_id b = ''b'' \<and>
      f32_le (res_score b) (res_score a)"
proof -
  define vs ks where "vs = [demo_result ''a'' 0, demo_result ''b'' 0]" and "ks = [demo_result ''c'' 0, demo_result ''a'' 0]"
  have iter: "\<forall>m :: (string, f32) hmap. mset ((\<lambda>m. m) m) = mset m"
    by simp
  obtain out where out: "fuse rrf_60 (\<lambda>m. m) vs ks = Some out" "res_doc_id ` set out = res_doc_id ` set (vs @ ks)"
    using fusion_result [OF rrf_60_positive iter, of vs ks] by (elim exE conjE) (rule that)
  have "''a'' \<in> res_doc_id ` set out" "''b'' \<in> res_doc_id ` set out"
    unfolding out(2) by (simp_all add: vs_def ks_def demo_result_def)
  then obtain a b where ab: "a \<in> set out" "b \<in> set out" "res_doc_id a = ''a''" "res_doc_id b = ''b''"
    by (elim imageE) (metis that)
  have ah: "ahead vs ''a'' ''b''" "ahead ks ''a'' ''b''"
    by (auto simp: ahead_def vs_def ks_def demo_result_def less_Suc_eq)
  have "distinct (map res_doc_id vs)" "distinct (map res_doc_id ks)"
    by (simp_all add: vs_def ks_def demo_result_def)
  then have "f32_le (res_score b) (res_score a)"
    using fusion_respects_agreement [OF rrf_60_positive iter _ _ _ _ out(1) ab(1,2)] ab(3,4) ah by simp
  with out(1) ab show ?thesis
    unfolding vs_def ks_def by blast
qed

end
