(* ===== verification/Router.thy ===== *)
theory Router
  imports Fusion Heads
begin

text \<open>
  The query router (\<^verbatim>\<open>src/query/router.rs\<close>): embedding with retry and keyword-only fallback,
  the three retrievers of a search, fusion, the widening search under filters, and the checked
  response. A panic that leaves the router is \<^term>\<open>None\<close>. Whether a panic of a retriever thread is
  caught where the source joins the thread depends on how the program is built: the release profile
  (\<^verbatim>\<open>Cargo.toml\<close>) aborts the process, the others unwind, and then the scope of the threads panics
  itself when a second thread has panicked that an early return left unjoined.
\<close>


section \<open>The collaborators of the router\<close>

datatype 'a joined = Returned 'a | Panicked "string option"

type_synonym retrieved = "(search_error + search_result list) joined"

record router =
  rt_load_manifest :: "manifest_store_error + active_manifest"
  rt_show_store_error :: "manifest_store_error \<Rightarrow> string"
  rt_generate :: "nat \<Rightarrow> string \<Rightarrow> string + f32 list"
  rt_keyword :: "active_manifest \<Rightarrow> string \<Rightarrow> nat \<Rightarrow> retrieved"
  rt_vector :: "active_manifest \<Rightarrow> f32 list \<Rightarrow> nat \<Rightarrow> retrieved"
  rt_static :: "active_manifest \<Rightarrow> f32 list \<Rightarrow> nat \<Rightarrow> retrieved"
  rt_rrf_k :: f32
  rt_iter :: "(string, f32) hmap \<Rightarrow> (string, f32) hmap"
  rt_static_release_id :: "string option"
  rt_latency :: u64
  rt_unwinds :: bool

record grouped_results =
  gr_static :: "search_result list"
  gr_dynamic :: "search_result list"

definition EMBEDDING_GENERATION_MAX_ATTEMPTS :: nat where "EMBEDDING_GENERATION_MAX_ATTEMPTS = 2"
definition SEARCH_WINDOW_MAX :: nat where "SEARCH_WINDOW_MAX = 100"

definition retrieval_window :: "nat \<Rightarrow> nat" where
  "retrieval_window k = min (max k 1 * 3) SEARCH_WINDOW_MAX"

definition panic_payload_message :: "string \<Rightarrow> string option \<Rightarrow> string" where
  "panic_payload_message context payload =
     (case payload of
        Some m \<Rightarrow> msg [context, '' panicked: '', m]
      | None \<Rightarrow> msg [context, '' panicked with non-string payload''])"

definition validate_results :: "search_result list \<Rightarrow> search_error + unit" where
  "validate_results rs = map_err SearchValidation (try_all search_result_validate rs)"

text \<open>\<open>fuel\<close> counts the attempts left, \<open>n\<close> those made.\<close>

fun generate_attempts :: "(nat \<Rightarrow> string \<Rightarrow> string + f32 list) \<Rightarrow> nat \<Rightarrow> nat \<Rightarrow> string \<Rightarrow> string \<Rightarrow> string + f32 list" where
  "generate_attempts gen n 0 last_error query = Inl last_error"
| "generate_attempts gen n (Suc fuel) last_error query =
     (case gen n query of
        Inr e \<Rightarrow> Inr e
      | Inl e \<Rightarrow> generate_attempts gen (Suc n) fuel e query)"

definition generate_embedding_with_retry :: "(nat \<Rightarrow> string \<Rightarrow> string + f32 list) \<Rightarrow> string \<Rightarrow> string + f32 list" where
  "generate_embedding_with_retry gen query = generate_attempts gen 0 EMBEDDING_GENERATION_MAX_ATTEMPTS [] query"

definition query_requires_iterative_filtering :: "search_request \<Rightarrow> bool" where
  "query_requires_iterative_filtering r = (case req_filters r of None \<Rightarrow> False | Some fs \<Rightarrow> fs \<noteq> [])"


section \<open>One search\<close>

definition join_thread :: "string \<Rightarrow> 'a joined \<Rightarrow> search_error + 'a" where
  "join_thread context j =
     (case j of
        Returned x \<Rightarrow> Inr x
      | Panicked payload \<Rightarrow> Inl (SearchExecution (panic_payload_message context payload)))"

definition panicked :: "'a joined \<Rightarrow> bool" where
  "panicked j = (case j of Returned _ \<Rightarrow> False | Panicked _ \<Rightarrow> True)"

text \<open>\<^verbatim>\<open>std::thread::scope\<close> ends with a panic when a thread nobody joined has panicked.\<close>

definition scope_ends :: "'a joined list \<Rightarrow> 'r \<Rightarrow> 'r option" where
  "scope_ends unjoined r = (if \<exists>j \<in> set unjoined. panicked j then None else Some r)"

definition join_retrievers ::
  "bool \<Rightarrow> retrieved \<Rightarrow> retrieved \<Rightarrow> retrieved \<Rightarrow>
   (search_error + search_result list \<times> search_result list \<times> search_result list) option" where
  "join_retrievers unwinds static keyword vector =
     (if \<not> unwinds \<and> (\<exists>j \<in> {static, keyword, vector}. panicked j) then None
      else
        (case join_thread ''static retrieval'' static of
           Inl e \<Rightarrow> scope_ends [keyword, vector] (Inl e)
         | Inr static_results \<Rightarrow>
             (case join_thread ''keyword retrieval'' keyword of
                Inl e \<Rightarrow> scope_ends [vector] (Inl e)
              | Inr keyword_results \<Rightarrow>
                  (case join_thread ''vector retrieval'' vector of
                     Inl e \<Rightarrow> Some (Inl e)
                   | Inr vector_results \<Rightarrow>
                       Some (and_then static_results (\<lambda>s. and_then keyword_results (\<lambda>kw.
                         and_then vector_results (\<lambda>v. Inr (s, kw, v)))))))))"

definition search_grouped ::
  "router \<Rightarrow> active_manifest \<Rightarrow> string \<Rightarrow> f32 list \<Rightarrow> nat \<Rightarrow> (search_error + grouped_results) option" where
  "search_grouped rt am query embedding k =
     (case join_retrievers (rt_unwinds rt) (rt_static rt am embedding k) (rt_keyword rt am query k)
             (rt_vector rt am embedding k) of
        None \<Rightarrow> None
      | Some joined \<Rightarrow>
          (case and_then joined (\<lambda>(s, kw, v).
                  and_then (validate_results s) (\<lambda>_. and_then (validate_results kw) (\<lambda>_.
                  and_then (validate_results v) (\<lambda>_. Inr (s, kw, v))))) of
             Inl e \<Rightarrow> Some (Inl e)
           | Inr (s, kw, v) \<Rightarrow>
               map_option (\<lambda>d. Inr \<lparr>gr_static = s, gr_dynamic = d\<rparr>) (fuse (rt_rrf_k rt) (rt_iter rt) v kw)))"

definition search_keyword_only ::
  "router \<Rightarrow> active_manifest \<Rightarrow> string \<Rightarrow> nat \<Rightarrow> (search_error + search_result list) option" where
  "search_keyword_only rt am query k =
     (case rt_keyword rt am query k of
        Panicked _ \<Rightarrow> None
      | Returned r \<Rightarrow> Some (and_then r (\<lambda>rs. and_then (validate_results rs) (\<lambda>_. Inr rs))))"

definition fallback_warning :: "search_request \<Rightarrow> string \<Rightarrow> string" where
  "fallback_warning request e =
     msg [''embedding generation failed after '', show_nat EMBEDDING_GENERATION_MAX_ATTEMPTS,
       '' attempts; falling back to keyword-only retrieval: query='', req_query request, '', top_k='',
       show_nat (top_k request), '', error='', e]"

text \<open>The results for one window, from the embedding or the fallback.\<close>

definition search_window ::
  "router \<Rightarrow> search_request \<Rightarrow> active_manifest \<Rightarrow> string + f32 list \<Rightarrow> nat \<Rightarrow> (search_error + grouped_results) option" where
  "search_window rt request am embedding window =
     (case embedding of
        Inr e \<Rightarrow> search_grouped rt am (req_query request) e window
      | Inl _ \<Rightarrow> map_option (map_ok (\<lambda>rs. \<lparr>gr_static = [], gr_dynamic = rs\<rparr>))
          (search_keyword_only rt am (req_query request) window))"

definition fallback_warnings :: "search_request \<Rightarrow> string + f32 list \<Rightarrow> string list" where
  "fallback_warnings request embedding =
     (case embedding of Inl e \<Rightarrow> [fallback_warning request e] | Inr _ \<Rightarrow> [])"

definition search_single_pass ::
  "router \<Rightarrow> search_request \<Rightarrow> active_manifest \<Rightarrow> string + f32 list \<Rightarrow>
   (search_error + grouped_results) option \<times> string list" where
  "search_single_pass rt request am embedding =
     (search_window rt request am embedding (retrieval_window (top_k request)), fallback_warnings request embedding)"

function iterate_filtering ::
  "router \<Rightarrow> search_request \<Rightarrow> active_manifest \<Rightarrow> string + f32 list \<Rightarrow> nat \<Rightarrow> bool \<Rightarrow>
   (search_error + grouped_results) option \<times> string list" where
  "iterate_filtering rt request am embedding k warned =
     (let warnings = (if warned then [] else fallback_warnings request embedding);
          warned' = (warned \<or> warnings \<noteq> [])
      in case search_window rt request am embedding (retrieval_window k) of
           None \<Rightarrow> (None, warnings)
         | Some (Inl e) \<Rightarrow> (Some (Inl e), warnings)
         | Some (Inr results) \<Rightarrow>
             if top_k request \<le> length (apply_filters (gr_dynamic results) (req_filters request)) \<or>
                SEARCH_WINDOW_MAX \<le> k
             then (Some (Inr results), warnings)
             else let next_k = min (k * 2) SEARCH_WINDOW_MAX
                  in if next_k = k then (Some (Inr results), warnings)
                     else map_prod id (append warnings)
                       (iterate_filtering rt request am embedding next_k warned'))"
  by pat_completeness auto

termination
  by (relation "measure (\<lambda>(rt, request, am, embedding, k, warned). SEARCH_WINDOW_MAX - k)")
    (auto simp: SEARCH_WINDOW_MAX_def)

declare iterate_filtering.simps [simp del]

definition search_with_iterative_filtering ::
  "router \<Rightarrow> search_request \<Rightarrow> active_manifest \<Rightarrow> string + f32 list \<Rightarrow>
   (search_error + grouped_results) option \<times> string list" where
  "search_with_iterative_filtering rt request am embedding =
     iterate_filtering rt request am embedding (max (top_k request) 1) False"

definition respond ::
  "router \<Rightarrow> search_request \<Rightarrow> active_manifest \<Rightarrow> grouped_results \<Rightarrow> search_error + search_response" where
  "respond rt request am results =
     (let window = retrieval_window (top_k request);
          s = take window (apply_filters (gr_static results) (req_filters request));
          d = take window (apply_filters (gr_dynamic results) (req_filters request));
          s' = (if include_metadata request then s else strip_metadata s);
          d' = (if include_metadata request then d else strip_metadata d);
          response = \<lparr>static_chunks = s', static_count = length s', dynamic_chunks = d',
            dynamic_count = length d', latency_ms = rt_latency rt,
            index_version = mh_version_id (am_head am), static_release_id = rt_static_release_id rt\<rparr>
      in and_then (map_err SearchValidation (search_response_validate window response)) (\<lambda>_. Inr response))"

definition router_search :: "router \<Rightarrow> search_request \<Rightarrow> (search_error + search_response) option \<times> string list" where
  "router_search rt request =
     (case search_request_validate request of
        Inl e \<Rightarrow> (Some (Inl (SearchValidation e)), [])
      | Inr _ \<Rightarrow>
          (case rt_load_manifest rt of
             Inl e \<Rightarrow> (Some (Inl (SearchExecution (rt_show_store_error rt e))), [])
           | Inr am \<Rightarrow>
               (let embedding = generate_embedding_with_retry (rt_generate rt) (req_query request)
                in map_prod (map_option (\<lambda>r. and_then r (respond rt request am))) id
                     (if query_requires_iterative_filtering request
                      then search_with_iterative_filtering rt request am embedding
                      else search_single_pass rt request am embedding))))"



section \<open>The response\<close>

definition shown :: "search_request \<Rightarrow> search_result list \<Rightarrow> search_result list" where
  "shown request rs =
     (let chosen = take (retrieval_window (top_k request)) (apply_filters rs (req_filters request))
      in if include_metadata request then chosen else strip_metadata chosen)"

lemma window_le: "retrieval_window k \<le> 100"
  by (simp add: retrieval_window_def SEARCH_WINDOW_MAX_def)

lemma respond_ok:
  "respond rt request am results = Inr resp \<longleftrightarrow>
     resp = \<lparr>static_chunks = shown request (gr_static results), static_count = length (shown request (gr_static results)),
       dynamic_chunks = shown request (gr_dynamic results),
       dynamic_count = length (shown request (gr_dynamic results)), latency_ms = rt_latency rt,
       index_version = mh_version_id (am_head am), static_release_id = rt_static_release_id rt\<rparr> \<and>
     (\<forall>c \<in> set (shown request (gr_static results)) \<union> set (shown request (gr_dynamic results)).
        res_doc_id c \<noteq> [] \<and> f32_is_finite (res_score c))"
  by (auto simp: respond_def Let_def shown_def result_simps search_response_validate_ok strip_metadata_def)

definition window_suffices :: "search_request \<Rightarrow> grouped_results \<Rightarrow> bool" where
  "window_suffices request results \<longleftrightarrow>
     top_k request \<le> length (apply_filters (gr_dynamic results) (req_filters request))"

lemma iterate_filtering_step:
  fixes request embedding warned
  defines "W \<equiv> (if warned then [] else fallback_warnings request embedding)"
  shows "iterate_filtering rt request am embedding k warned =
    (case search_window rt request am embedding (retrieval_window k) of
       None \<Rightarrow> (None, W)
     | Some (Inl e) \<Rightarrow> (Some (Inl e), W)
     | Some (Inr results) \<Rightarrow>
         if window_suffices request results \<or> 100 \<le> k \<or> min (k * 2) 100 = k then (Some (Inr results), W)
         else map_prod id (append W)
           (iterate_filtering rt request am embedding (min (k * 2) 100) (warned \<or> W \<noteq> [])))"
  unfolding W_def
  by (subst iterate_filtering.simps)
    (simp add: Let_def SEARCH_WINDOW_MAX_def window_suffices_def split: option.split sum.split)

lemma retrieval_window_eq: "1 \<le> k \<Longrightarrow> retrieval_window k = min (3 * k) 100"
  by (simp add: retrieval_window_def SEARCH_WINDOW_MAX_def max_def mult.commute)

lemma doubled_twice: "(1::nat) \<le> k \<Longrightarrow> min (2 ^ i * min (k * 2) 100) 100 = min (2 ^ Suc i * k) 100"
proof (cases "k * 2 \<le> 100")
  case False
  have "(1::nat) \<le> 2 ^ i"
    by simp
  then have big: "100 \<le> 2 ^ i * (k * 2)" "100 \<le> 2 ^ i * (100 :: nat)"
    using False mult_le_mono [of 1 "2 ^ i" 100 "k * 2"] mult_le_mono [of 1 "2 ^ i" 100 100] by linarith+
  have "min (k * 2) 100 = 100"
    using False by simp
  moreover have "2 ^ Suc i * k = 2 ^ i * (k * 2)"
    by simp
  ultimately show ?thesis
    using big by (metis min.absorb2)
qed (simp add: min_def mult.commute mult.left_commute)

lemma iterate_filtering_ok:
  assumes "iterate_filtering rt request am embedding k warned = (Some (Inr results), ws)" "1 \<le> k" "k \<le> 100"
  shows "\<exists>i. search_window rt request am embedding (retrieval_window (min (2 ^ i * k) 100)) = Some (Inr results) \<and>
    (window_suffices request results \<or> min (2 ^ i * k) 100 = 100) \<and>
    (\<forall>j < i. \<exists>r. search_window rt request am embedding (retrieval_window (min (2 ^ j * k) 100)) = Some (Inr r) \<and>
       \<not> window_suffices request r)"
  using assms
proof (induction k arbitrary: warned ws rule: measure_induct_rule [of "\<lambda>k. 100 - k"])
  case (less k)
  obtain r where r: "search_window rt request am embedding (retrieval_window k) = Some (Inr r)"
    using less.prems(1) iterate_filtering_step [of rt request am embedding k warned]
    by (auto split: option.splits sum.splits)
  define W where "W = (if warned then [] else fallback_warnings request embedding)"
  note step = iterate_filtering_step [of rt request am embedding k warned, unfolded r, folded W_def, simplified]
  show ?case
  proof (cases "window_suffices request r \<or> 100 \<le> k")
    case True
    then have "results = r"
      using less.prems(1) step by auto
    then show ?thesis
      using True r less.prems(3) by (intro exI [of _ 0]) (auto simp: min_def)
  next
    case False
    then have lt: "k < min (k * 2) 100"
      using less.prems(2) by simp
    obtain x ws' where rec: "iterate_filtering rt request am embedding (min (k * 2) 100) (warned \<or> W \<noteq> []) = (x, ws')"
      by fastforce
    then have "x = Some (Inr results)"
      using less.prems(1) step False lt by simp
    have "100 - min (k * 2) 100 < 100 - k" "1 \<le> min (k * 2) 100" "min (k * 2) 100 \<le> 100"
      using lt less.prems(2) by linarith+
    from less.IH [OF this(1) rec [unfolded \<open>x = Some (Inr results)\<close>] this(2,3)] obtain i where
      i: "search_window rt request am embedding (retrieval_window (min (2 ^ Suc i * k) 100)) = Some (Inr results)"
      "window_suffices request results \<or> min (2 ^ Suc i * k) 100 = 100"
      "\<forall>j < i. \<exists>r. search_window rt request am embedding (retrieval_window (min (2 ^ Suc j * k) 100)) = Some (Inr r) \<and>
         \<not> window_suffices request r"
      unfolding doubled_twice [OF less.prems(2)] by blast
    have "\<exists>r. search_window rt request am embedding (retrieval_window (min (2 ^ j * k) 100)) = Some (Inr r) \<and>
        \<not> window_suffices request r" if "j < Suc i" for j
    proof (cases j)
      case 0
      then show ?thesis
        using r False by auto
    next
      case (Suc j')
      then show ?thesis
        using i(3) that by auto
    qed
    then show ?thesis
      using i(1,2) by blast
  qed
qed

lemma router_search_ok:
  assumes "router_search rt request = (Some (Inr resp), ws)"
  defines "embedding \<equiv> generate_embedding_with_retry (rt_generate rt) (req_query request)"
  obtains am results k where "search_request_validate request = Inr ()" "rt_load_manifest rt = Inr am"
    "search_window rt request am embedding (retrieval_window k) = Some (Inr results)"
    "respond rt request am results = Inr resp"
    "if query_requires_iterative_filtering request
     then \<exists>i. k = min (2 ^ i * top_k request) 100 \<and> (window_suffices request results \<or> k = 100) \<and>
       (\<forall>j < i. \<exists>r. search_window rt request am embedding (retrieval_window (min (2 ^ j * top_k request) 100)) =
            Some (Inr r) \<and> \<not> window_suffices request r)
     else k = top_k request"
proof -
  have v: "search_request_validate request = Inr ()"
    using assms(1) by (cases "search_request_validate request") (auto simp: router_search_def)
  obtain am where am: "rt_load_manifest rt = Inr am"
    using assms(1) v by (cases "rt_load_manifest rt") (auto simp: router_search_def)
  define found where "found = (if query_requires_iterative_filtering request
      then search_with_iterative_filtering rt request am embedding
      else search_single_pass rt request am embedding)"
  obtain x ws' where x: "found = (x, ws')"
    by fastforce
  have "map_prod (map_option (\<lambda>r. and_then r (respond rt request am))) id found = (Some (Inr resp), ws)"
    using assms(1) v am unfolding found_def embedding_def by (simp add: router_search_def Let_def)
  then have "map_option (\<lambda>r. and_then r (respond rt request am)) x = Some (Inr resp)"
    by (simp add: x)
  then obtain results where res: "x = Some (Inr results)" "respond rt request am results = Inr resp"
    by (auto simp: result_simps)
  have range: "1 \<le> top_k request" "top_k request \<le> 100"
    using v by (simp_all add: search_request_validate_ok)
  show thesis
  proof (cases "query_requires_iterative_filtering request")
    case True
    then have "iterate_filtering rt request am embedding (max (top_k request) 1) False = (Some (Inr results), ws')"
      using x res by (simp add: found_def search_with_iterative_filtering_def)
    then have "iterate_filtering rt request am embedding (top_k request) False = (Some (Inr results), ws')"
      using range by (simp add: max_def)
    from iterate_filtering_ok [OF this range] obtain i where
      "search_window rt request am embedding (retrieval_window (min (2 ^ i * top_k request) 100)) = Some (Inr results)"
      "window_suffices request results \<or> min (2 ^ i * top_k request) 100 = 100"
      "\<forall>j < i. \<exists>r. search_window rt request am embedding (retrieval_window (min (2 ^ j * top_k request) 100)) =
         Some (Inr r) \<and> \<not> window_suffices request r"
      by blast
    then show ?thesis
      using that [OF v am _ res(2), of "min (2 ^ i * top_k request) 100"] True by auto
  next
    case False
    then have "search_window rt request am embedding (retrieval_window (top_k request)) = Some (Inr results)"
      using x res by (simp add: found_def search_single_pass_def)
    then show ?thesis
      using that [OF v am _ res(2), of "top_k request"] False by simp
  qed
qed

text \<open>
  What the filters of a request ask for, stated on its own: with any filters at all, the metadata
  are there and hold, at every field, a value equal to the one given.
\<close>

fun json_is :: "json \<Rightarrow> filter_value \<Rightarrow> bool" where
  "json_is actual (StringEquals v) \<longleftrightarrow> actual = JString v"
| "json_is actual (BoolEquals v) \<longleftrightarrow> actual = JBool v"
| "json_is actual (NumberEquals v) \<longleftrightarrow> (\<exists>x. as_f64 actual = Some x \<and> f64_eq x v)"

definition passes :: "(string, filter_value) hmap option \<Rightarrow> search_result \<Rightarrow> bool" where
  "passes filters r \<longleftrightarrow> filters \<in> {None, Some []} \<or>
     (\<exists>fs metadata. filters = Some fs \<and> res_metadata r = Some metadata \<and>
        (\<forall>field expected. (field, expected) \<in> set fs \<longrightarrow>
           (\<exists>actual. hm_get metadata field = Some actual \<and> json_is actual expected)))"

lemma json_is_iff: "matches_filter_value actual expected \<longleftrightarrow> json_is actual expected"
  by (cases expected; cases actual) auto

lemma apply_filters_passes: "apply_filters rs filters = filter (passes filters) rs"
proof -
  have "matches_filters r fs \<longleftrightarrow> (\<exists>metadata. res_metadata r = Some metadata \<and>
      (\<forall>field expected. (field, expected) \<in> set fs \<longrightarrow>
         (\<exists>actual. hm_get metadata field = Some actual \<and> json_is actual expected)))" for r fs
  proof -
    have opt: "(case found of None \<Rightarrow> False | Some actual \<Rightarrow> matches_filter_value actual expected) \<longleftrightarrow>
        (\<exists>actual. found = Some actual \<and> json_is actual expected)" for found expected
      by (cases found) (simp_all add: json_is_iff)
    show ?thesis
      by (cases "res_metadata r") (auto simp: matches_filters_def opt)
  qed
  then show ?thesis
    by (auto simp: apply_filters_def passes_def split: option.splits intro!: filter_cong)
qed

text \<open>The results of one path as a client is to see them: the best of those that pass, metadata as asked for.\<close>

definition visible :: "search_request \<Rightarrow> search_result list \<Rightarrow> search_result list" where
  "visible request rs =
     map (\<lambda>r. if include_metadata request then r else r\<lparr>res_metadata := None\<rparr>)
       (take (min (3 * top_k request) 100) (filter (passes (req_filters request)) rs))"

lemma shown_visible: "top_k request \<in> {1..100} \<Longrightarrow> shown request rs = visible request rs"
  by (simp add: shown_def visible_def strip_metadata_def apply_filters_passes retrieval_window_eq Let_def)

text \<open>
  C12. A response carries the version of the active manifest and, on each path, the first
  results (exactly as many as there are, up to three times \<^verbatim>\<open>top_k\<close> and at most 100) that match
  every filter of the request, in the order they were found, with metadata only if asked for.
  They come from a search of the retrievers whose width is three times \<^verbatim>\<open>top_k\<close>, at most 100.
  With filters this \<^verbatim>\<open>top_k\<close> is doubled (at most to 100) as long as fewer dynamic results than
  the client asked for match every filter.
\<close>

theorem router_response_is_sound:
  assumes "router_search rt request = (Some (Inr resp), ws)"
  defines "embedding \<equiv> generate_embedding_with_retry (rt_generate rt) (req_query request)"
  defines "enough \<equiv> \<lambda>results. top_k request \<le> length (filter (passes (req_filters request)) (gr_dynamic results))"
  shows "\<exists>am results k. rt_load_manifest rt = Inr am \<and> index_version resp = mh_version_id (am_head am) \<and>
    search_window rt request am embedding (min (3 * k) 100) = Some (Inr results) \<and>
    static_chunks resp = visible request (gr_static results) \<and>
    dynamic_chunks resp = visible request (gr_dynamic results) \<and>
    static_count resp = length (static_chunks resp) \<and> dynamic_count resp = length (dynamic_chunks resp) \<and>
    (\<forall>c \<in> set (static_chunks resp) \<union> set (dynamic_chunks resp). f32_is_finite (res_score c) \<and> res_doc_id c \<noteq> []) \<and>
    (if req_filters request \<in> {None, Some []} then k = top_k request
     else \<exists>i. k = min (2 ^ i * top_k request) 100 \<and> (enough results \<or> k = 100) \<and>
       (\<forall>j < i. \<exists>narrow. search_window rt request am embedding (min (3 * min (2 ^ j * top_k request) 100) 100) =
            Some (Inr narrow) \<and> \<not> enough narrow))"
proof -
  obtain am results k where r: "search_request_validate request = Inr ()" "rt_load_manifest rt = Inr am"
    "search_window rt request am embedding (retrieval_window k) = Some (Inr results)"
    "respond rt request am results = Inr resp"
    "if query_requires_iterative_filtering request
     then \<exists>i. k = min (2 ^ i * top_k request) 100 \<and> (window_suffices request results \<or> k = 100) \<and>
       (\<forall>j < i. \<exists>r. search_window rt request am embedding (retrieval_window (min (2 ^ j * top_k request) 100)) =
            Some (Inr r) \<and> \<not> window_suffices request r)
     else k = top_k request"
    unfolding embedding_def by (rule router_search_ok [OF assms(1)])
  have top: "top_k request \<in> {1..100}"
    using r(1) by (simp add: search_request_validate_ok)
  have resp: "static_chunks resp = visible request (gr_static results)" "dynamic_chunks resp = visible request (gr_dynamic results)"
    "static_count resp = length (static_chunks resp)" "dynamic_count resp = length (dynamic_chunks resp)"
    "index_version resp = mh_version_id (am_head am)"
    and chunks: "\<forall>c \<in> set (visible request (gr_static results)) \<union> set (visible request (gr_dynamic results)).
      res_doc_id c \<noteq> [] \<and> f32_is_finite (res_score c)"
    using r(4) by (simp_all add: respond_ok shown_visible [OF top])
  have enough: "window_suffices request x \<longleftrightarrow> enough x" for x
    by (simp add: window_suffices_def enough_def apply_filters_passes)
  have wide: "retrieval_window (min (2 ^ i * top_k request) 100) = min (3 * min (2 ^ i * top_k request) 100) 100" for i
    using top by (intro retrieval_window_eq) simp
  have filtering: "query_requires_iterative_filtering request \<longleftrightarrow> req_filters request \<notin> {None, Some []}"
    by (auto simp: query_requires_iterative_filtering_def split: option.splits)
  have "retrieval_window k = min (3 * k) 100"
    using r(5) top wide by (auto simp: retrieval_window_eq split: if_splits)
  then show ?thesis
    using r(2,3,5) resp chunks unfolding filtering enough wide
    by (intro exI [of _ am] exI [of _ results] exI [of _ k]) (simp split: if_splits)
qed


section \<open>Failing collaborators\<close>

text \<open>
  How many retriever threads may panic in one search: one when a panic unwinds, none when it aborts.
\<close>

definition tolerable :: "router \<Rightarrow> active_manifest \<Rightarrow> string \<Rightarrow> f32 list \<Rightarrow> nat \<Rightarrow> bool" where
  "tolerable rt am q e k \<longleftrightarrow>
     of_bool (panicked (rt_static rt am e k)) + of_bool (panicked (rt_keyword rt am q k)) +
     of_bool (panicked (rt_vector rt am e k)) \<le> (if rt_unwinds rt then 1 else 0 :: nat)"

text \<open>The report of a retriever thread that panicked.\<close>

definition retriever_panic :: "router \<Rightarrow> active_manifest \<Rightarrow> string \<Rightarrow> f32 list \<Rightarrow> nat \<Rightarrow> string \<Rightarrow> bool" where
  "retriever_panic rt am q e k m \<longleftrightarrow>
     (\<exists>p. rt_static rt am e k = Panicked p \<and> m = panic_payload_message ''static retrieval'' p \<or>
        rt_keyword rt am q k = Panicked p \<and> m = panic_payload_message ''keyword retrieval'' p \<or>
        rt_vector rt am e k = Panicked p \<and> m = panic_payload_message ''vector retrieval'' p)"

lemma join_retrievers_returns:
  assumes "tolerable rt am q e k"
  shows "join_retrievers (rt_unwinds rt) (rt_static rt am e k) (rt_keyword rt am q k) (rt_vector rt am e k) \<noteq> None"
  using assms
  by (auto simp: tolerable_def join_retrievers_def join_thread_def scope_ends_def panicked_def
      split: joined.splits if_splits)

lemma search_grouped_returns:
  assumes "f32_lt 0 (rt_rrf_k rt)" "\<forall>m. mset (rt_iter rt m) = mset m" "tolerable rt am q e k"
  shows "search_grouped rt am q e k \<noteq> None"
proof -
  have "fuse (rt_rrf_k rt) (rt_iter rt) v kw \<noteq> None" for v kw
    using fusion_result [OF assms(1,2), of v kw] by blast
  then show ?thesis
    using join_retrievers_returns [OF assms(3)] by (auto simp: search_grouped_def split: sum.splits)
qed

lemma search_grouped_reports:
  assumes "tolerable rt am q e k" "retriever_panic rt am q e k m"
  shows "search_grouped rt am q e k = Some (Inl (SearchExecution m))"
  using assms
  by (auto simp: tolerable_def retriever_panic_def search_grouped_def join_retrievers_def join_thread_def
      scope_ends_def panicked_def split: joined.splits if_splits)

text \<open>
  A second panic ends the router itself: the first one leaves its scope early, with the other
  thread not joined.  Where panics abort, the first is enough.
\<close>

lemma second_panic_ends_router:
  assumes "rt_static rt am e k = Panicked p" "rt_vector rt am e k = Panicked p' \<or> \<not> rt_unwinds rt"
  shows "search_grouped rt am q e k = None"
  using assms
  by (auto simp: search_grouped_def join_retrievers_def join_thread_def scope_ends_def panicked_def)

lemma search_window_returns:
  assumes "f32_lt 0 (rt_rrf_k rt)" "\<forall>m. mset (rt_iter rt m) = mset m"
    and "case embedding of Inr e \<Rightarrow> tolerable rt am (req_query request) e w
      | Inl _ \<Rightarrow> \<not> panicked (rt_keyword rt am (req_query request) w)"
  shows "search_window rt request am embedding w \<noteq> None"
proof (cases embedding)
  case (Inl e)
  then show ?thesis
    using assms(3) by (simp add: search_window_def search_keyword_only_def panicked_def split: joined.splits)
next
  case (Inr e)
  then show ?thesis
    using search_grouped_returns [OF assms(1,2)] assms(3) by (simp add: search_window_def)
qed

lemma iterate_filtering_returns:
  assumes "\<forall>w. search_window rt request am embedding w \<noteq> None"
  shows "fst (iterate_filtering rt request am embedding k warned) \<noteq> None"
proof (induction k arbitrary: warned rule: measure_induct_rule [of "\<lambda>k. 100 - k"])
  case (less k)
  define W where "W = (if warned then [] else fallback_warnings request embedding)"
  obtain r where r: "search_window rt request am embedding (retrieval_window k) = Some r"
    using assms by blast
  note step = iterate_filtering_step [of rt request am embedding k warned, unfolded r, folded W_def, simplified]
  show ?case
  proof (cases "100 \<le> k \<or> min (k * 2) 100 = k")
    case True
    then show ?thesis
      unfolding step by (auto split: sum.split)
  next
    case False
    then have "100 - min (k * 2) 100 < 100 - k"
      by linarith
    from less.IH [OF this] have "fst (iterate_filtering rt request am embedding (min (k * 2) 100) (warned \<or> W \<noteq> [])) \<noteq> None"
      by blast
    then show ?thesis
      unfolding step by (simp split: sum.split)
  qed
qed

text \<open>
  C13. The router always returns a response or an error, whatever the retrievers return, as long
  as no more retriever threads panic in one search than the build can take: none in the release profile,
  which aborts the process on a panic, and one where panics unwind (a second one would panic the
  scope of the threads); and the keyword retriever, called directly when the embedding has failed,
  does not panic there. The one panic that is tolerated becomes the error that names its thread.
  Fusion, whose sort may panic on an inconsistent order, never does.
\<close>

theorem router_never_panics:
  assumes "f32_lt 0 (rt_rrf_k rt)" "\<forall>m. mset (rt_iter rt m) = mset m"
    and "\<forall>am k. case generate_embedding_with_retry (rt_generate rt) (req_query request) of
      Inr e \<Rightarrow> tolerable rt am (req_query request) e k
    | Inl _ \<Rightarrow> \<not> panicked (rt_keyword rt am (req_query request) k)"
  shows "fst (router_search rt request) \<noteq> None \<and>
    (\<forall>am e m. search_request_validate request = Inr () \<longrightarrow> rt_load_manifest rt = Inr am \<longrightarrow>
       generate_embedding_with_retry (rt_generate rt) (req_query request) = Inr e \<longrightarrow>
       retriever_panic rt am (req_query request) e (min (3 * top_k request) 100) m \<longrightarrow>
       fst (router_search rt request) = Some (Inl (SearchExecution m)))"
proof (cases "search_request_validate request")
  case (Inl e)
  then show ?thesis
    by (simp add: router_search_def)
next
  case v: (Inr u)
  show ?thesis
  proof (cases "rt_load_manifest rt")
    case (Inl e)
    then show ?thesis
      using v by (simp add: router_search_def)
  next
    case (Inr am)
    define embedding where "embedding = generate_embedding_with_retry (rt_generate rt) (req_query request)"
    have w: "search_window rt request am embedding n \<noteq> None" for n
      by (rule search_window_returns [OF assms(1,2)]) (use assms(3) in \<open>simp add: embedding_def\<close>)
    then have "fst (search_with_iterative_filtering rt request am embedding) \<noteq> None"
      "fst (search_single_pass rt request am embedding) \<noteq> None"
      by (simp_all add: search_with_iterative_filtering_def search_single_pass_def iterate_filtering_returns)
    then have "fst (router_search rt request) \<noteq> None"
      using v Inr by (simp add: router_search_def Let_def embedding_def [symmetric])
    moreover have "fst (router_search rt request) = Some (Inl (SearchExecution m))"
      if e: "embedding = Inr e" and m: "retriever_panic rt am (req_query request) e (min (3 * top_k request) 100) m" for e m
    proof -
      have top: "1 \<le> top_k request"
        using v by (simp add: search_request_validate_ok)
      have "tolerable rt am (req_query request) e (min (3 * top_k request) 100)"
        using spec [OF spec [OF assms(3)], of am "min (3 * top_k request) 100"] e unfolding embedding_def by simp
      from search_grouped_reports [OF this m]
      have "search_window rt request am embedding (retrieval_window (top_k request)) = Some (Inl (SearchExecution m))"
        using top by (simp add: search_window_def e retrieval_window_eq)
      then have "fst (search_with_iterative_filtering rt request am embedding) = Some (Inl (SearchExecution m))"
        "fst (search_single_pass rt request am embedding) = Some (Inl (SearchExecution m))"
        using top by (simp_all add: search_with_iterative_filtering_def search_single_pass_def max_def
            iterate_filtering_step [of rt request am embedding "top_k request" False])
      then show ?thesis
        using v Inr by (simp add: router_search_def Let_def embedding_def [symmetric])
    qed
    ultimately show ?thesis
      using Inr by (simp add: embedding_def)
  qed
qed

definition keyword_valid :: "router \<Rightarrow> search_request \<Rightarrow> active_manifest \<Rightarrow> bool" where
  "keyword_valid rt request am \<longleftrightarrow> (\<forall>k. \<exists>rs. rt_keyword rt am (req_query request) k = Returned (Inr rs) \<and>
     (\<forall>r \<in> set rs. res_doc_id r \<noteq> [] \<and> f32_is_finite (res_score r)))"

lemma validate_results_ok:
  "validate_results rs = Inr () \<longleftrightarrow> (\<forall>r \<in> set rs. res_doc_id r \<noteq> [] \<and> f32_is_finite (res_score r))"
  by (simp add: validate_results_def result_simps search_result_validate_ok)

lemma fallback_window:
  assumes "keyword_valid rt request am"
  obtains rs where "search_window rt request am (Inl e) w = Some (Inr \<lparr>gr_static = [], gr_dynamic = rs\<rparr>)"
    "rt_keyword rt am (req_query request) w = Returned (Inr rs)"
    "\<forall>r \<in> set rs. res_doc_id r \<noteq> [] \<and> f32_is_finite (res_score r)"
proof -
  obtain rs where rs: "rt_keyword rt am (req_query request) w = Returned (Inr rs)"
    "\<forall>r \<in> set rs. res_doc_id r \<noteq> [] \<and> f32_is_finite (res_score r)"
    using assms unfolding keyword_valid_def by blast
  then have "validate_results rs = Inr ()"
    by (simp add: validate_results_ok)
  then show thesis
    using that rs by (simp add: search_window_def search_keyword_only_def)
qed

lemma fallback_iterates:
  assumes "keyword_valid rt request am"
  shows "\<exists>rs w. iterate_filtering rt request am (Inl e) k warned =
      (Some (Inr \<lparr>gr_static = [], gr_dynamic = rs\<rparr>), if warned then [] else [fallback_warning request e]) \<and>
    rt_keyword rt am (req_query request) w = Returned (Inr rs) \<and>
    (\<forall>r \<in> set rs. res_doc_id r \<noteq> [] \<and> f32_is_finite (res_score r))"
proof (induction k arbitrary: warned rule: measure_induct_rule [of "\<lambda>k. 100 - k"])
  case (less k)
  obtain rs where rs: "search_window rt request am (Inl e) (retrieval_window k) = Some (Inr \<lparr>gr_static = [], gr_dynamic = rs\<rparr>)"
    "rt_keyword rt am (req_query request) (retrieval_window k) = Returned (Inr rs)"
    "\<forall>r \<in> set rs. res_doc_id r \<noteq> [] \<and> f32_is_finite (res_score r)"
    by (rule fallback_window [OF assms])
  define W where "W = (if warned then [] else [fallback_warning request e])"
  have w: "(if warned then [] else fallback_warnings request (Inl e)) = W" "warned \<or> W \<noteq> [] \<longleftrightarrow> True"
    by (simp_all add: W_def fallback_warnings_def)
  note step = iterate_filtering_step [of rt request am "Inl e" k warned, unfolded rs(1) w, simplified]
  show ?case
  proof (cases "window_suffices request \<lparr>gr_static = [], gr_dynamic = rs\<rparr> \<or> 100 \<le> k \<or> min (k * 2) 100 = k")
    case True
    then show ?thesis
      using step rs(2,3) unfolding W_def [symmetric] by auto
  next
    case False
    then have "100 - min (k * 2) 100 < 100 - k"
      by linarith
    from less.IH [OF this, of True] obtain rs' w' where
      "iterate_filtering rt request am (Inl e) (min (k * 2) 100) True = (Some (Inr \<lparr>gr_static = [], gr_dynamic = rs'\<rparr>), [])"
      "rt_keyword rt am (req_query request) w' = Returned (Inr rs')"
      "\<forall>r \<in> set rs'. res_doc_id r \<noteq> [] \<and> f32_is_finite (res_score r)"
      by auto
    then show ?thesis
      using step False unfolding W_def [symmetric] by auto
  qed
qed

lemma apply_filters_take: "set (shown request rs) \<subseteq> set rs \<union> (\<lambda>r. r\<lparr>res_metadata := None\<rparr>) ` set rs"
  using set_take_subset [of "retrieval_window (top_k request)" "apply_filters rs (req_filters request)"]
    apply_filters_subset [of rs "req_filters request"]
  by (auto simp: shown_def Let_def strip_metadata_def)

text \<open>
  When the embedding fails twice, a valid request is still answered, with keyword results
  only, and the fallback is reported exactly once however often the search is widened.
\<close>

theorem embedding_failure_degrades:
  assumes "search_request_validate request = Inr ()" "rt_load_manifest rt = Inr am"
    and "rt_generate rt 0 (req_query request) = Inl e0" "rt_generate rt 1 (req_query request) = Inl e"
    and "keyword_valid rt request am"
  shows "\<exists>resp w rs. router_search rt request = (Some (Inr resp), [fallback_warning request e]) \<and>
    static_chunks resp = [] \<and> rt_keyword rt am (req_query request) w = Returned (Inr rs) \<and>
    dynamic_chunks resp = shown request rs"
proof -
  have e: "generate_embedding_with_retry (rt_generate rt) (req_query request) = Inl e"
    using assms(3,4) by (simp add: generate_embedding_with_retry_def EMBEDDING_GENERATION_MAX_ATTEMPTS_def numeral_2_eq_2)
  define found where "found = (if query_requires_iterative_filtering request
      then search_with_iterative_filtering rt request am (Inl e)
      else search_single_pass rt request am (Inl e))"
  obtain rs w where found: "found = (Some (Inr \<lparr>gr_static = [], gr_dynamic = rs\<rparr>), [fallback_warning request e])"
    "rt_keyword rt am (req_query request) w = Returned (Inr rs)"
    "\<forall>r \<in> set rs. res_doc_id r \<noteq> [] \<and> f32_is_finite (res_score r)"
  proof (cases "query_requires_iterative_filtering request")
    case True
    then show ?thesis
      using fallback_iterates [OF assms(5), of e "max (top_k request) 1" False] that
      by (auto simp: found_def search_with_iterative_filtering_def)
  next
    case False
    obtain rs where "search_window rt request am (Inl e) (retrieval_window (top_k request)) =
        Some (Inr \<lparr>gr_static = [], gr_dynamic = rs\<rparr>)"
      "rt_keyword rt am (req_query request) (retrieval_window (top_k request)) = Returned (Inr rs)"
      "\<forall>r \<in> set rs. res_doc_id r \<noteq> [] \<and> f32_is_finite (res_score r)"
      by (rule fallback_window [OF assms(5)])
    then show ?thesis
      using that False by (simp add: found_def search_single_pass_def fallback_warnings_def)
  qed
  have "\<forall>c \<in> set (shown request rs). res_doc_id c \<noteq> [] \<and> f32_is_finite (res_score c)"
    using apply_filters_take [of request rs] found(3) by auto
  moreover have "shown request [] = []"
    by (simp add: shown_def apply_filters_def strip_metadata_def split: option.splits)
  ultimately obtain resp where resp: "respond rt request am \<lparr>gr_static = [], gr_dynamic = rs\<rparr> = Inr resp"
    "static_chunks resp = []" "dynamic_chunks resp = shown request rs"
    using respond_ok [of rt request am "\<lparr>gr_static = [], gr_dynamic = rs\<rparr>"] by auto
  have "router_search rt request = (Some (Inr resp), [fallback_warning request e])"
    using assms(1,2) e found(1) resp(1) unfolding found_def by (simp add: router_search_def Let_def split: if_splits)
  then show ?thesis
    using resp(2,3) found(2) by blast
qed

text \<open>
  When the embedding succeeds the dynamic chunks of a response are in the order of
  descending score and ascending id and name every document once.
\<close>

theorem router_ranks_dynamic_chunks:
  assumes "router_search rt request = (Some (Inr resp), ws)"
    and "f32_lt 0 (rt_rrf_k rt)" "\<forall>m. mset (rt_iter rt m) = mset m"
    and "is_ok (generate_embedding_with_retry (rt_generate rt) (req_query request))"
  shows "sorted (map result_key (dynamic_chunks resp)) \<and> distinct (map res_doc_id (dynamic_chunks resp))"
proof -
  obtain am results k where r: "search_request_validate request = Inr ()" "rt_load_manifest rt = Inr am"
    "search_window rt request am (generate_embedding_with_retry (rt_generate rt) (req_query request))
       (retrieval_window k) = Some (Inr results)"
    "respond rt request am results = Inr resp"
    by (rule router_search_ok [OF assms(1)])
  obtain e where e: "generate_embedding_with_retry (rt_generate rt) (req_query request) = Inr e"
    using assms(4) by (auto simp: is_ok_iff)
  have "search_grouped rt am (req_query request) e (retrieval_window k) = Some (Inr results)"
    using r(3) by (simp add: e search_window_def)
  then obtain kw v where f: "fuse (rt_rrf_k rt) (rt_iter rt) v kw = Some (gr_dynamic results)"
    by (auto simp: search_grouped_def split: option.splits sum.splits prod.splits)
  have d: "sorted (map result_key (gr_dynamic results))" "distinct (map res_doc_id (gr_dynamic results))"
    using fusion_result [OF assms(2,3), of v kw] f by auto
  have "sorted (map result_key (take n (apply_filters (gr_dynamic results) fs)))"
    "distinct (map res_doc_id (take n (apply_filters (gr_dynamic results) fs)))" for n fs
    using d by (auto simp: apply_filters_def take_map [symmetric] sorted_filter distinct_map_filter
        intro!: sorted_wrt_take distinct_take split: option.splits)
  moreover have "map result_key (strip_metadata rs) = map result_key rs"
    "map res_doc_id (strip_metadata rs) = map res_doc_id rs" for rs
    by (simp_all add: strip_metadata_def result_key_def)
  ultimately have "sorted (map result_key (shown request (gr_dynamic results)))"
    "distinct (map res_doc_id (shown request (gr_dynamic results)))"
    by (simp_all add: shown_def Let_def)
  then show ?thesis
    using r(4) by (simp add: respond_ok)
qed



section \<open>A router to run\<close>

definition demo_active :: active_manifest where
  "demo_active = \<lparr>am_head = manifest_head_new 7 1700000000001, am_manifest = sample_manifest 7\<rparr>"

definition demo_router :: "(nat \<Rightarrow> string \<Rightarrow> string + f32 list) \<Rightarrow> router" where
  "demo_router gen = \<lparr>rt_load_manifest = Inr demo_active, rt_show_store_error = (\<lambda>_. []), rt_generate = gen,
     rt_keyword = (\<lambda>_ _ k. Returned (Inr (take k [demo_result ''a'' 1, demo_result ''b'' 0]))),
     rt_vector = (\<lambda>_ _ k. Returned (Inr [])), rt_static = (\<lambda>_ _ _. Returned (Inr [])), rt_rrf_k = rrf_60,
     rt_iter = (\<lambda>m. m), rt_static_release_id = None, rt_latency = 0,
     rt_unwinds = True\<rparr>"

definition demo_request :: search_request where
  "demo_request = \<lparr>req_query = ''q'', top_k = 2, req_filters = None, include_metadata = True, req_corpus_weights = None\<rparr>"

definition demo_down :: router where "demo_down = demo_router (\<lambda>_ _. Inl ''down'')"
definition demo_up :: router where "demo_up = demo_router (\<lambda>_ _. Inr [f32_one])"

lemma demo_request_valid: "search_request_validate demo_request = Inr ()"
  by code_simp

lemma demo_keyword_valid: "keyword_valid (demo_router gen) demo_request am"
proof -
  have "res_doc_id r \<noteq> [] \<and> f32_is_finite (res_score r)"
    if "r \<in> set (take k [demo_result ''a'' 1, demo_result ''b'' 0])" for r k
    using in_set_takeD [OF that]
    by (auto simp: demo_result_def f32_is_finite_def fl_is_finite_def fl_mag_def inf32)
  then show ?thesis
    unfolding keyword_valid_def demo_router_def by auto
qed

lemma demo_load: "rt_load_manifest (demo_router gen) = Inr demo_active"
  by (simp add: demo_router_def)

lemma demo_iter: "\<forall>m :: (string, f32) hmap. mset (rt_iter (demo_router gen) m) = mset m"
  "f32_lt 0 (rt_rrf_k (demo_router gen))"
  using rrf_60_positive by (simp_all add: demo_router_def)

lemma embedding_failure_degrades_witness:
  "\<exists>resp. router_search demo_down demo_request = (Some (Inr resp), [fallback_warning demo_request ''down'']) \<and>
     static_chunks resp = []"
  using embedding_failure_degrades [OF demo_request_valid, of demo_down demo_active "''down''" "''down''"]
  by (auto simp: demo_down_def demo_load demo_keyword_valid) (auto simp: demo_router_def)

text \<open>A router whose static retriever panics, in a build whose panics unwind.\<close>

definition demo_panicking :: router where
  "demo_panicking = demo_up\<lparr>rt_static := (\<lambda>_ _ _. Panicked (Some ''boom''))\<rparr>"

lemma router_never_panics_witness:
  "fst (router_search demo_panicking demo_request) =
     Some (Inl (SearchExecution ''static retrieval panicked: boom''))"
proof -
  have r: "f32_lt 0 (rt_rrf_k demo_panicking)" "\<forall>m. mset (rt_iter demo_panicking m) = mset m"
    using demo_iter by (simp_all add: demo_panicking_def demo_up_def)
  have e: "generate_embedding_with_retry (rt_generate demo_panicking) (req_query demo_request) = Inr [f32_one]"
    by (simp add: generate_embedding_with_retry_def EMBEDDING_GENERATION_MAX_ATTEMPTS_def numeral_2_eq_2
        demo_panicking_def demo_up_def demo_router_def)
  have "\<forall>am k. tolerable demo_panicking am (req_query demo_request) [f32_one] k"
    by (simp add: tolerable_def panicked_def demo_panicking_def demo_up_def demo_router_def)
  then have t: "\<forall>am k. case generate_embedding_with_retry (rt_generate demo_panicking) (req_query demo_request) of
      Inr e \<Rightarrow> tolerable demo_panicking am (req_query demo_request) e k
    | Inl _ \<Rightarrow> \<not> panicked (rt_keyword demo_panicking am (req_query demo_request) k)"
    by (simp add: e)
  have "rt_load_manifest demo_panicking = Inr demo_active"
    by (simp add: demo_panicking_def demo_up_def demo_load)
  moreover have "retriever_panic demo_panicking demo_active (req_query demo_request) [f32_one]
      (min (3 * top_k demo_request) 100) ''static retrieval panicked: boom''"
    unfolding retriever_panic_def
    by (rule exI [of _ "Some ''boom''"]) (simp add: demo_panicking_def panic_payload_message_def msg_def)
  ultimately show ?thesis
    using router_never_panics [OF r t] demo_request_valid e by blast
qed

text \<open>The scores of the first two ranks, 1/61 and 1/62, as the fusion computes them.\<close>

lemma demo_scores:
  "compute_rrf_score rrf_60 (Suc 0) = 0x3C864B8A" "compute_rrf_score rrf_60 2 = 0x3C842108"
  "compute_rrf_score rrf_60 (Suc (Suc 0)) = 0x3C842108"
  "f32_add 0 0x3C864B8A = 0x3C864B8A" "f32_add 0 0x3C842108 = 0x3C842108"
  by (simp_all add: compute_rrf_score_def rrf_60_def f32_one_def fl_eval)

lemma demo_order:
  "f32_partial_cmp 0x3C842108 0x3C864B8A = Some Less" "f32_partial_cmp 0x3C864B8A 0x3C842108 = Some Greater"
  "\<not> f32_is_nan 0x3C864B8A" "\<not> f32_is_nan 0x3C842108" "f32_is_finite 0x3C864B8A" "f32_is_finite 0x3C842108"
  "f32_is_finite 0" "f32_is_finite 1"
  by (simp_all add: f32_partial_cmp_def fl_eval)

definition demo_response :: search_response where
  "demo_response = \<lparr>static_chunks = [], static_count = 0,
     dynamic_chunks = [(demo_result ''a'' 0x3C864B8A)\<lparr>res_source := Hybrid\<rparr>, (demo_result ''b'' 0x3C842108)\<lparr>res_source := Hybrid\<rparr>],
     dynamic_count = 2, latency_ms = 0, index_version = 7, static_release_id = None\<rparr>"

lemma demo_fuse:
  "fuse rrf_60 (\<lambda>m. m) [] [demo_result ''a'' 1, demo_result ''b'' 0] =
     Some [(demo_result ''a'' 0x3C864B8A)\<lparr>res_source := Hybrid\<rparr>, (demo_result ''b'' 0x3C842108)\<lparr>res_source := Hybrid\<rparr>]"
  by (simp add: fuse_def demo_result_def add_score_def demo_scores fused_results_def sort_fused_def compare_fused_def
      demo_order hm_get_def hm_insert_def cmp_ord_def)

lemma demo_search: "router_search demo_up demo_request = (Some (Inr demo_response), [])"
proof -
  have g: "search_grouped demo_up demo_active ''q'' [f32_one] 6 =
      Some (Inr \<lparr>gr_static = [], gr_dynamic = dynamic_chunks demo_response\<rparr>)"
    using demo_fuse
    by (simp add: search_grouped_def join_retrievers_def demo_up_def demo_router_def join_thread_def validate_results_def
        demo_response_def search_result_validate_def ensure_def demo_order)
      (simp add: demo_result_def demo_order)
  have e: "generate_embedding_with_retry (rt_generate demo_up) ''q'' = Inr [f32_one]"
    by (simp add: generate_embedding_with_retry_def EMBEDDING_GENERATION_MAX_ATTEMPTS_def numeral_2_eq_2
        demo_up_def demo_router_def)
  have w: "retrieval_window 2 = 6"
    by (simp add: retrieval_window_def SEARCH_WINDOW_MAX_def)
  have r: "req_query demo_request = ''q''" "top_k demo_request = 2" "req_filters demo_request = None"
    "include_metadata demo_request"
    by (simp_all add: demo_request_def)
  have "shown demo_request [] = []" "shown demo_request (dynamic_chunks demo_response) = dynamic_chunks demo_response"
    by (simp_all add: shown_def r w apply_filters_def Let_def demo_response_def)
  then have resp: "respond demo_up demo_request demo_active \<lparr>gr_static = [], gr_dynamic = dynamic_chunks demo_response\<rparr> =
      Inr demo_response"
    by (simp add: respond_ok) (simp add: demo_response_def demo_result_def demo_order demo_up_def demo_router_def
        demo_active_def manifest_head_new_def)
  show ?thesis
    using g e resp demo_request_valid
    by (simp add: router_search_def demo_up_def [THEN arg_cong, of rt_load_manifest] demo_load
        query_requires_iterative_filtering_def search_single_pass_def search_window_def fallback_warnings_def r w Let_def)
qed

lemma router_response_is_sound_witness:
  "index_version demo_response = 7 \<and>
   (\<exists>results. search_window demo_up demo_request demo_active
        (generate_embedding_with_retry (rt_generate demo_up) (req_query demo_request)) 6 = Some (Inr results) \<and>
      dynamic_chunks demo_response = visible demo_request (gr_dynamic results))"
proof -
  have nf: "req_filters demo_request = None"
    by (simp add: demo_request_def)
  obtain am results k where *: "rt_load_manifest demo_up = Inr am" "index_version demo_response = mh_version_id (am_head am)"
    "search_window demo_up demo_request am (generate_embedding_with_retry (rt_generate demo_up) (req_query demo_request))
      (min (3 * k) 100) = Some (Inr results)"
    "dynamic_chunks demo_response = visible demo_request (gr_dynamic results)"
    "k = top_k demo_request"
    using router_response_is_sound [OF demo_search] nf by (simp only: insert_iff simp_thms if_True) blast
  have "am = demo_active"
    using *(1) by (simp add: demo_up_def demo_load)
  moreover have "k = 2"
    using *(5) by (simp add: demo_request_def)
  moreover have "mh_version_id (am_head demo_active) = 7"
    by (simp add: demo_active_def manifest_head_new_def)
  ultimately show ?thesis
    using *(2-4) by auto
qed

lemma router_ranks_dynamic_chunks_witness:
  "sorted (map result_key (dynamic_chunks demo_response)) \<and> distinct (map res_doc_id (dynamic_chunks demo_response))"
proof (rule router_ranks_dynamic_chunks [OF demo_search])
  show "f32_lt 0 (rt_rrf_k demo_up)" "\<forall>m. mset (rt_iter demo_up m) = mset m"
    by (simp_all add: demo_up_def demo_iter)
  show "is_ok (generate_embedding_with_retry (rt_generate demo_up) (req_query demo_request))"
    by (simp add: generate_embedding_with_retry_def EMBEDDING_GENERATION_MAX_ATTEMPTS_def numeral_2_eq_2
        demo_up_def demo_router_def)
qed

end
