(* ===== verification/Context.thy ===== *)
theory Context
  imports Ranking Wal
begin

text \<open>
  The context handed to the language model (\<^verbatim>\<open>src/query/context_builder.rs\<close>): the
  reference blocks, the token estimate and the budget that drops the lowest-ranked blocks.
  The Chinese texts of the source are given by their UTF-8 bytes.
\<close>


section \<open>Characters of a string\<close>

definition bytes :: "nat list \<Rightarrow> string" where
  "bytes ns = map char_of ns"

fun decode_char :: "string \<Rightarrow> nat" where
  "decode_char [a] = of_char a"
| "decode_char [a, b] = of_char a mod 32 * 64 + of_char b mod 64"
| "decode_char [a, b, c] = (of_char a mod 16 * 64 + of_char b mod 64) * 64 + of_char c mod 64"
| "decode_char [a, b, c, d] =
     ((of_char a mod 8 * 64 + of_char b mod 64) * 64 + of_char c mod 64) * 64 + of_char d mod 64"
| "decode_char _ = 0"

text \<open>\<^verbatim>\<open>str::chars\<close>.\<close>

function utf8_chars :: "string \<Rightarrow> nat list" where
  "utf8_chars s =
     (case utf8_step s of
        None \<Rightarrow> []
      | Some r \<Rightarrow> decode_char (take (length s - length r) s) # utf8_chars r)"
  by pat_completeness simp

termination
  by (relation "measure length") (auto dest!: utf8_step_suffix)

declare utf8_chars.simps [simp del]

lemma utf8_chars_Nil [simp]: "utf8_chars [] = []"
  by (subst utf8_chars.simps) simp

lemma utf8_chars_append: "utf8_valid a \<Longrightarrow> utf8_chars (a @ b) = utf8_chars a @ utf8_chars b"
proof (induction a rule: utf8_valid.induct)
  case (1 a)
  show ?case
  proof (cases "a = []")
    case False
    with "1.prems" obtain r where r: "utf8_step a = Some r" "utf8_valid r"
      by (subst (asm) utf8_valid.simps) (auto split: option.splits)
    then obtain p where p: "p \<noteq> []" "a = p @ r" "\<forall>t. utf8_step (p @ t) = Some t"
      using utf8_step_suffix by blast
    have "utf8_chars (a @ b) = decode_char p # utf8_chars (r @ b)"
      using p by (subst utf8_chars.simps) simp
    moreover have "utf8_chars a = decode_char p # utf8_chars r"
      using p by (subst utf8_chars.simps) simp
    ultimately show ?thesis
      using "1.IH" [OF r(1) r(2)] by simp
  qed simp
qed

lemma utf8_valid_show_nat [simp]: "utf8_valid (show_nat n)"
proof (rule utf8_valid_ascii, rule ballI)
  fix c
  assume "c \<in> set (show_nat n)"
  then obtain d where "d < 10" "c = digit_char d"
    using digits_of_show_nat [of n] by auto
  moreover have "list_all (\<lambda>d. (of_char (digit_char d) :: nat) < 128) [0..<10]"
    by code_simp
  ultimately show "(of_char c :: nat) < 128"
    by (simp add: list_all_iff)
qed


section \<open>Texts of the source\<close>

definition context_header :: string where
  "context_header = bytes [61, 61, 61, 32, 229, 143, 130, 232, 128, 131, 232, 181, 132, 230, 150, 153, 32, 61, 61, 61, 10, 10]"

definition question_mark :: string where
  "question_mark = bytes [61, 61, 61, 32, 233, 151, 174, 233, 162, 152, 32, 61, 61, 61, 10]"

definition prompt_head :: string where
  "prompt_head = bytes [228, 189, 160, 230, 152, 175, 228, 184, 128, 228, 184, 170, 228, 184, 147, 228, 184, 154, 231, 154,
     132, 230, 150, 135, 230, 161, 163, 230, 163, 128, 231, 180, 162, 229, 138, 169, 230, 137, 139, 227,
     128, 130, 10, 10, 229, 143, 130, 232, 128, 131, 232, 181, 132, 230, 150, 153, 229, 136, 134, 228,
     184, 186, 228, 184, 164, 231, 177, 187, 239, 188, 154, 10, 45, 32, 91, 230, 179, 149, 232, 167,
     132, 47, 229, 144, 136, 229, 144, 140, 47, 82, 70, 67, 93, 239, 188, 154, 230, 157, 165, 232, 135,
     170, 229, 133, 177, 228, 186, 171, 230, 157, 131, 229, 168, 129, 230, 150, 135, 230, 161, 163, 229,
     186, 147, 239, 188, 136, 230, 179, 149, 229, 190, 139, 230, 179, 149, 232, 167, 132, 227, 128, 129,
     229, 144, 136, 229, 144, 140, 230, 168, 161, 230, 157, 191, 227, 128, 129, 82, 70, 67, 231, 173,
     137, 239, 188, 137, 10, 45, 32, 91, 231, 148, 168, 230, 136, 183, 230, 149, 176, 230, 141, 174, 93,
     239, 188, 154, 230, 157, 165, 232, 135, 170, 231, 148, 168, 230, 136, 183, 231, 154, 132, 231, 167,
     129, 230, 156, 137, 230, 150, 135, 230, 161, 163, 10, 10]"

definition prompt_tail :: string where
  "prompt_tail = bytes [10, 10, 229, 155, 158, 231, 173, 148, 230, 151, 182, 229, 143, 170, 229, 188, 149, 231, 148, 168,
     228, 184, 142, 233, 151, 174, 233, 162, 152, 231, 155, 180, 230, 142, 165, 231, 155, 184, 229, 133,
     179, 231, 154, 132, 229, 134, 133, 229, 174, 185, 239, 188, 140, 229, 191, 189, 231, 149, 165, 230,
     151, 160, 229, 133, 179, 231, 137, 135, 230, 174, 181, 227, 128, 130, 10, 229, 188, 149, 231, 148,
     168, 230, 151, 182, 230, 179, 168, 230, 152, 142, 230, 157, 165, 230, 186, 144, 231, 177, 187, 229,
     158, 139, 227, 128, 130]"

definition prefer_static :: string where
  "prefer_static = bytes [229, 166, 130, 230, 179, 149, 232, 167, 132, 47, 229, 144, 136, 229, 144, 140, 228, 184, 142, 231,
     148, 168, 230, 136, 183, 230, 149, 176, 230, 141, 174, 229, 134, 178, 231, 170, 129, 239, 188, 140,
     228, 187, 165, 230, 179, 149, 232, 167, 132, 47, 229, 144, 136, 229, 144, 140, 228, 184, 186, 229,
     135, 134, 227, 128, 130]"

definition prefer_dynamic :: string where
  "prefer_dynamic = bytes [228, 188, 152, 229, 133, 136, 229, 143, 130, 232, 128, 131, 231, 148, 168, 230, 136, 183, 230, 149,
     176, 230, 141, 174, 239, 188, 140, 228, 184, 141, 232, 182, 179, 230, 151, 182, 232, 161, 165, 229,
     133, 133, 229, 188, 149, 231, 148, 168, 230, 179, 149, 232, 167, 132, 47, 229, 144, 136, 229, 144,
     140, 227, 128, 130]"

definition prefer_none :: string where
  "prefer_none = bytes [231, 187, 188, 229, 144, 136, 228, 184, 164, 231, 177, 187, 230, 157, 165, 230, 186, 144, 229, 155,
     158, 231, 173, 148, 239, 188, 140, 228, 184, 141, 229, 129, 143, 229, 144, 145, 228, 187, 187, 228,
     189, 149, 228, 184, 128, 230, 150, 185, 227, 128, 130]"

definition label_legal :: string where
  "label_legal = bytes [230, 179, 149, 232, 167, 132]"

definition label_contract :: string where
  "label_contract = bytes [229, 144, 136, 229, 144, 140]"

definition label_other :: string where
  "label_other = bytes [230, 179, 149, 232, 167, 132, 47, 229, 144, 136, 229, 144, 140]"

definition label_user :: string where
  "label_user = bytes [231, 148, 168, 230, 136, 183, 230, 149, 176, 230, 141, 174]"


section \<open>Blocks and estimates\<close>

definition is_cjk :: "nat \<Rightarrow> bool" where
  "is_cjk c =
     (0x3000 \<le> c \<and> c \<le> 0x303F \<or> 0x3400 \<le> c \<and> c \<le> 0x4DBF \<or> 0x4E00 \<le> c \<and> c \<le> 0x9FFF \<or> 0xF900 \<le> c \<and> c \<le> 0xFAFF \<or>
      0xFF00 \<le> c \<and> c \<le> 0xFFEF \<or> 0x20000 \<le> c \<and> c \<le> 0x2FA1F \<or> 0x30000 \<le> c \<and> c \<le> 0x3134F)"

definition count_chars :: "string \<Rightarrow> nat \<times> nat" where
  "count_chars text = foldl (\<lambda>(cjk, other) c. if is_cjk c then (cjk + 1, other) else (cjk, other + 1)) (0, 0) (utf8_chars text)"

definition estimate_tokens :: "string \<Rightarrow> nat" where
  "estimate_tokens text = (case count_chars text of (cjk, other) \<Rightarrow> cjk + (other + 3) div 4)"

definition corpus_type_label :: "corpus_type option \<Rightarrow> string" where
  "corpus_type_label ct =
     (case ct of
        Some Legal \<Rightarrow> label_legal
      | Some Contract \<Rightarrow> label_contract
      | Some Rfc \<Rightarrow> ''RFC''
      | _ \<Rightarrow> label_other)"

definition chunk_block :: "string \<Rightarrow> nat \<Rightarrow> search_result \<Rightarrow> string" where
  "chunk_block label index r =
     (case Option.bind (res_citation r) cit_title of
        Some title \<Rightarrow> msg [''['', label, '' #'', show_nat (index + 1), ''] '', title, [LF], res_text r, [LF, LF]]
      | None \<Rightarrow> msg [''['', label, '' #'', show_nat (index + 1), '']'', [LF], res_text r, [LF, LF]])"

definition static_chunk_block :: "nat \<Rightarrow> search_result \<Rightarrow> string" where
  "static_chunk_block index r = chunk_block (corpus_type_label (res_corpus_type r)) index r"

definition dynamic_chunk_block :: "nat \<Rightarrow> search_result \<Rightarrow> string" where
  "dynamic_chunk_block index r = chunk_block label_user index r"

definition build_context :: "search_result list \<Rightarrow> search_result list \<Rightarrow> string \<Rightarrow> string" where
  "build_context ss ds query =
     msg [context_header, concat (map (\<lambda>(i, r). static_chunk_block i r) (enumerate 0 ss)),
       concat (map (\<lambda>(i, r). dynamic_chunk_block i r) (enumerate 0 ds)), question_mark, query]"

definition drop_static :: "nat \<Rightarrow> nat \<Rightarrow> nat \<Rightarrow> nat \<Rightarrow> bool" where
  "drop_static kept_static kept_dynamic static_total dynamic_total =
     (if kept_dynamic = 0 then True
      else if kept_static = 0 then False
      else if static_total \<noteq> dynamic_total then dynamic_total < static_total
      else kept_dynamic < kept_static)"

function drop_loop ::
  "nat \<Rightarrow> nat \<Rightarrow> nat list \<Rightarrow> nat list \<Rightarrow> nat \<Rightarrow> nat \<Rightarrow> nat \<Rightarrow> nat \<Rightarrow> nat \<times> nat" where
  "drop_loop fixed max_tokens sc dc ks kd st dt =
     (if max_tokens < fixed + st + dt \<and> (0 < ks \<or> 0 < kd) then
        (if drop_static ks kd st dt
         then drop_loop fixed max_tokens sc dc (ks - 1) kd (st - sc ! (ks - 1)) dt
         else drop_loop fixed max_tokens sc dc ks (kd - 1) st (dt - dc ! (kd - 1)))
      else (ks, kd))"
  by pat_completeness auto

termination
  by (relation "measure (\<lambda>(fixed, max_tokens, sc, dc, ks, kd, st, dt). ks + kd)") (auto simp: drop_static_def split: if_splits)

declare drop_loop.simps [simp del]

definition build_context_bounded :: "search_result list \<Rightarrow> search_result list \<Rightarrow> string \<Rightarrow> nat \<Rightarrow> string" where
  "build_context_bounded ss ds query max_tokens =
     (let fixed = estimate_tokens (build_context [] [] query);
          sc = map (\<lambda>(i, r). estimate_tokens (static_chunk_block i r)) (enumerate 0 ss);
          dc = map (\<lambda>(i, r). estimate_tokens (dynamic_chunk_block i r)) (enumerate 0 ds)
      in case drop_loop fixed max_tokens sc dc (length ss) (length ds) (sum_list sc) (sum_list dc) of
           (ks, kd) \<Rightarrow> build_context (take ks ss) (take kd ds) query)"

text \<open>The literal 0.7 as an \<^verbatim>\<open>f32\<close>.\<close>

definition f32_07 :: f32 where "f32_07 = 0x3F333333"

definition weight_instruction :: "corpus_weights option \<Rightarrow> string" where
  "weight_instruction weights =
     (case weights of
        Some w \<Rightarrow> if f32_lt f32_07 (static_bias w) then prefer_static
                 else if f32_lt f32_07 (dynamic_bias w) then prefer_dynamic else prefer_none
      | None \<Rightarrow> prefer_none)"

definition build_system_prompt :: "corpus_weights option \<Rightarrow> string" where
  "build_system_prompt weights = msg [prompt_head, weight_instruction weights, prompt_tail]"


section \<open>The budget\<close>

lemma count_chars_eq:
  "count_chars t = (length (filter is_cjk (utf8_chars t)), length (filter (\<lambda>c. \<not> is_cjk c) (utf8_chars t)))"
proof -
  have "foldl (\<lambda>(cjk, other) c. if is_cjk c then (cjk + 1, other) else (cjk, other + 1)) (a, b) cs =
      (a + length (filter is_cjk cs), b + length (filter (\<lambda>c. \<not> is_cjk c) cs))" for a b cs
    by (induction cs arbitrary: a b) auto
  then show ?thesis
    by (simp add: count_chars_def)
qed

definition tokens :: "nat \<times> nat \<Rightarrow> nat" where
  "tokens p = fst p + (snd p + 3) div 4"

definition plus_pair :: "nat \<times> nat \<Rightarrow> nat \<times> nat \<Rightarrow> nat \<times> nat" where
  "plus_pair p q = (fst p + fst q, snd p + snd q)"

lemma estimate_tokens_eq: "estimate_tokens t = tokens (count_chars t)"
  by (simp add: estimate_tokens_def tokens_def case_prod_beta)

lemma count_chars_append: "utf8_valid a \<Longrightarrow> count_chars (a @ b) = plus_pair (count_chars a) (count_chars b)"
  by (simp add: count_chars_eq plus_pair_def utf8_chars_append)

lemma tokens_plus: "tokens (plus_pair p q) \<le> tokens p + tokens q"
proof -
  have "(x + y + 3) div 4 \<le> (x + 3) div 4 + (y + 3) div (4::nat)" for x y
    by linarith
  from this [of "snd p" "snd q"] show ?thesis
    by (simp add: tokens_def plus_pair_def)
qed

lemma estimate_concat:
  "\<forall>b \<in> set bs. utf8_valid b \<Longrightarrow> tokens (count_chars (concat bs)) \<le> sum_list (map estimate_tokens bs)"
proof (induction bs)
  case Nil
  then show ?case
    by (simp add: count_chars_eq tokens_def)
next
  case (Cons b bs)
  then show ?case
    using tokens_plus [of "count_chars b" "count_chars (concat bs)"]
    by (simp add: count_chars_append estimate_tokens_eq)
qed

definition result_utf8 :: "search_result \<Rightarrow> bool" where
  "result_utf8 r \<longleftrightarrow> utf8_valid (res_text r) \<and>
     (\<forall>c t. res_citation r = Some c \<longrightarrow> cit_title c = Some t \<longrightarrow> utf8_valid t)"

lemma utf8_valid_concat_all: "\<forall>x \<in> set xs. utf8_valid x \<Longrightarrow> utf8_valid (concat xs)"
  using utf8_valid_concat by blast

lemma utf8_constants:
  "utf8_valid context_header" "utf8_valid question_mark" "utf8_valid label_legal" "utf8_valid label_contract"
  "utf8_valid label_other" "utf8_valid label_user" "utf8_valid ''RFC''" "utf8_valid ''[''" "utf8_valid '' #''"
  "utf8_valid ''] ''" "utf8_valid '']''" "utf8_valid [LF]" "utf8_valid [LF, LF]"
  by code_simp+

lemma utf8_valid_msg: "list_all utf8_valid xs \<Longrightarrow> utf8_valid (msg xs)"
  by (simp add: msg_def list_all_iff utf8_valid_concat_all)

lemma chunk_block_utf8:
  assumes "result_utf8 r" "utf8_valid label"
  shows "utf8_valid (chunk_block label i r)"
proof (cases "Option.bind (res_citation r) cit_title")
  case None
  then show ?thesis
    using assms by (simp add: chunk_block_def utf8_valid_msg utf8_constants result_utf8_def)
next
  case (Some t)
  then have "utf8_valid t"
    using assms(1) by (auto simp: result_utf8_def bind_eq_Some_conv)
  then show ?thesis
    using Some assms by (simp add: chunk_block_def utf8_valid_msg utf8_constants result_utf8_def)
qed

lemma blocks_utf8:
  assumes "result_utf8 r"
  shows "utf8_valid (static_chunk_block i r)" "utf8_valid (dynamic_chunk_block i r)"
  unfolding static_chunk_block_def dynamic_chunk_block_def
  by (intro chunk_block_utf8 assms; simp add: corpus_type_label_def utf8_constants split: option.split corpus_type.split)+

definition static_costs :: "search_result list \<Rightarrow> nat list" where
  "static_costs ss = map (\<lambda>(i, r). estimate_tokens (static_chunk_block i r)) (enumerate 0 ss)"

definition dynamic_costs :: "search_result list \<Rightarrow> nat list" where
  "dynamic_costs ds = map (\<lambda>(i, r). estimate_tokens (dynamic_chunk_block i r)) (enumerate 0 ds)"

text \<open>The budgeted cost of keeping the first chunks of either group.\<close>

definition block_cost :: "search_result list \<Rightarrow> search_result list \<Rightarrow> string \<Rightarrow> nat \<Rightarrow> nat \<Rightarrow> nat" where
  "block_cost ss ds query ks kd =
     estimate_tokens (build_context [] [] query) + sum_list (take ks (static_costs ss)) + sum_list (take kd (dynamic_costs ds))"

lemma take_enumerate: "enumerate n (take k xs) = take k (enumerate n xs)"
  by (induction xs arbitrary: n k) (auto simp: take_Cons split: nat.split)

lemma estimate_le_cost:
  assumes "\<forall>r \<in> set ss \<union> set ds. result_utf8 r"
  shows "estimate_tokens (build_context ss ds query) \<le>
    estimate_tokens (build_context [] [] query) + sum_list (static_costs ss) + sum_list (dynamic_costs ds)"
proof -
  define S where "S = map (\<lambda>(i, r). static_chunk_block i r) (enumerate 0 ss)"
  define D where "D = map (\<lambda>(i, r). dynamic_chunk_block i r) (enumerate 0 ds)"
  have v: "\<forall>b \<in> set S. utf8_valid b" "\<forall>b \<in> set D. utf8_valid b"
    using assms blocks_utf8 unfolding S_def D_def by (auto dest!: in_set_enumerate_eq [THEN iffD1])
  have c: "sum_list (static_costs ss) = sum_list (map estimate_tokens S)"
    "sum_list (dynamic_costs ds) = sum_list (map estimate_tokens D)"
    by (simp_all add: static_costs_def dynamic_costs_def S_def D_def comp_def case_prod_unfold)
  have ctx: "build_context ss ds query = context_header @ concat S @ concat D @ question_mark @ query"
    by (simp add: build_context_def msg_def S_def D_def)
  have empty: "build_context [] [] query = context_header @ question_mark @ query"
    by (simp add: build_context_def msg_def)
  note vc = utf8_valid_concat_all [OF v(1)] utf8_valid_concat_all [OF v(2)] utf8_constants(1,2)
  define h q where "h = count_chars context_header" and "q = count_chars (question_mark @ query)"
  have "count_chars (build_context ss ds query) =
      plus_pair h (plus_pair (count_chars (concat S)) (plus_pair (count_chars (concat D)) q))"
    unfolding ctx h_def q_def by (simp only: count_chars_append vc)
  also have "\<dots> = plus_pair (plus_pair h q) (plus_pair (count_chars (concat S)) (count_chars (concat D)))"
    by (simp add: plus_pair_def)
  finally have "estimate_tokens (build_context ss ds query) \<le>
      tokens (plus_pair h q) + (tokens (count_chars (concat S)) + tokens (count_chars (concat D)))"
    using tokens_plus [of "plus_pair h q" "plus_pair (count_chars (concat S)) (count_chars (concat D))"]
      tokens_plus [of "count_chars (concat S)" "count_chars (concat D)"]
    by (simp add: estimate_tokens_eq)
  moreover have "tokens (plus_pair h q) = estimate_tokens (build_context [] [] query)"
    unfolding empty estimate_tokens_eq h_def q_def by (simp only: count_chars_append vc)
  ultimately show ?thesis
    using estimate_concat [OF v(1)] estimate_concat [OF v(2)] c by linarith
qed

lemma sum_take_pred:
  assumes "0 < k" "k \<le> length xs"
  shows "sum_list (take k xs) - xs ! (k - 1) = sum_list (take (k - 1) (xs :: nat list))"
proof -
  obtain j where j: "k = Suc j" "j < length xs"
    using assms by (cases k) auto
  then show ?thesis
    by (simp add: take_Suc_conv_app_nth)
qed

lemma drop_loop_result:
  fixes sc dc :: "nat list"
  assumes "ks \<le> length sc" "kd \<le> length dc"
    and "drop_loop fixed m sc dc ks kd (sum_list (take ks sc)) (sum_list (take kd dc)) = (ks', kd')"
  defines "cost i j \<equiv> fixed + sum_list (take i sc) + sum_list (take j dc)"
  shows "ks' \<le> ks \<and> kd' \<le> kd \<and> (cost ks' kd' \<le> m \<or> ks' = 0 \<and> kd' = 0) \<and>
    (ks' = ks \<and> kd' = kd \<or> m < cost (Suc ks') kd' \<or> m < cost ks' (Suc kd'))"
  using assms(1-3)
proof (induction "ks + kd" arbitrary: ks kd rule: less_induct)
  case less
  let ?st = "sum_list (take ks sc)" and ?dt = "sum_list (take kd dc)"
  note step = less.prems(3) [unfolded drop_loop.simps [of fixed m sc dc ks kd ?st ?dt]]
  show ?case
  proof (cases "m < fixed + ?st + ?dt \<and> (0 < ks \<or> 0 < kd)")
    case False
    then show ?thesis
      using step by (auto simp: cost_def)
  next
    case True
    show ?thesis
    proof (cases "drop_static ks kd ?st ?dt")
      case s: True
      then have ks: "0 < ks"
        using True by (auto simp: drop_static_def split: if_splits)
      have "drop_loop fixed m sc dc (ks - 1) kd (sum_list (take (ks - 1) sc)) ?dt = (ks', kd')"
        using step True s sum_take_pred [OF ks less.prems(1)] by simp
      from less.hyps [OF _ _ less.prems(2) this] have ih: "ks' \<le> ks - 1 \<and> kd' \<le> kd \<and> (cost ks' kd' \<le> m \<or> ks' = 0 \<and> kd' = 0) \<and>
          (ks' = ks - 1 \<and> kd' = kd \<or> m < cost (Suc ks') kd' \<or> m < cost ks' (Suc kd'))"
        using ks less.prems(1) by simp
      have over: "m < cost ks kd"
        using True by (simp add: cost_def)
      have "m < cost (Suc ks') kd'" if e: "ks' = ks - 1 \<and> kd' = kd"
      proof -
        have "Suc ks' = ks" "kd' = kd"
          using e ks by simp_all
        then show ?thesis
          using over by simp
      qed
      moreover have "ks' \<le> ks"
        using ih diff_le_self le_trans by blast
      ultimately show ?thesis
        using ih by argo
    next
      case d: False
      then have kd: "0 < kd"
        using True by (auto simp: drop_static_def split: if_splits)
      have "drop_loop fixed m sc dc ks (kd - 1) ?st (sum_list (take (kd - 1) dc)) = (ks', kd')"
        using step True d sum_take_pred [OF kd less.prems(2)] by simp
      from less.hyps [OF _ less.prems(1) _ this] have ih: "ks' \<le> ks \<and> kd' \<le> kd - 1 \<and> (cost ks' kd' \<le> m \<or> ks' = 0 \<and> kd' = 0) \<and>
          (ks' = ks \<and> kd' = kd - 1 \<or> m < cost (Suc ks') kd' \<or> m < cost ks' (Suc kd'))"
        using kd less.prems(2) by simp
      have over: "m < cost ks kd"
        using True by (simp add: cost_def)
      have "m < cost ks' (Suc kd')" if e: "ks' = ks \<and> kd' = kd - 1"
      proof -
        have "Suc kd' = kd" "ks' = ks"
          using e kd by simp_all
        then show ?thesis
          using over by simp
      qed
      moreover have "kd' \<le> kd"
        using ih diff_le_self le_trans by blast
      ultimately show ?thesis
        using ih by argo
    qed
  qed
qed

text \<open>
  C25. The bounded context keeps the highest-ranked chunks of both groups; unless even the empty
  context is over the budget its token estimate is within it, and chunks are only dropped
  while the summed block estimates exceed the budget.
\<close>

theorem context_fits_budget:
  assumes "\<forall>r \<in> set ss \<union> set ds. result_utf8 r"
  shows "\<exists>ks kd. build_context_bounded ss ds query m = build_context (take ks ss) (take kd ds) query \<and>
    (estimate_tokens (build_context_bounded ss ds query m) \<le> m \<or> ks = 0 \<and> kd = 0) \<and>
    (length ss \<le> ks \<and> length ds \<le> kd \<or> m < block_cost ss ds query (Suc ks) kd \<or> m < block_cost ss ds query ks (Suc kd))"
proof -
  let ?fixed = "estimate_tokens (build_context [] [] query)"
  obtain ks kd where k: "drop_loop ?fixed m (static_costs ss) (dynamic_costs ds) (length ss) (length ds)
      (sum_list (static_costs ss)) (sum_list (dynamic_costs ds)) = (ks, kd)"
    by fastforce
  have len: "length (static_costs ss) = length ss" "length (dynamic_costs ds) = length ds"
    by (simp_all add: static_costs_def dynamic_costs_def)
  have r: "ks \<le> length ss \<and> kd \<le> length ds \<and> (block_cost ss ds query ks kd \<le> m \<or> ks = 0 \<and> kd = 0) \<and>
    (ks = length ss \<and> kd = length ds \<or> m < block_cost ss ds query (Suc ks) kd \<or> m < block_cost ss ds query ks (Suc kd))"
    using drop_loop_result [of "length ss" "static_costs ss" "length ds" "dynamic_costs ds" ?fixed m ks kd] k len
    by (simp add: block_cost_def)
  have b: "build_context_bounded ss ds query m = build_context (take ks ss) (take kd ds) query"
    using k by (simp add: build_context_bounded_def static_costs_def dynamic_costs_def Let_def)
  have "estimate_tokens (build_context (take ks ss) (take kd ds) query) \<le> block_cost ss ds query ks kd"
    using estimate_le_cost [of "take ks ss" "take kd ds" query] assms
    by (auto simp: block_cost_def static_costs_def dynamic_costs_def take_enumerate take_map dest: in_set_takeD)
  then show ?thesis
    using b r by (intro exI [of _ ks] exI [of _ kd]) auto
qed

definition demo_chunk :: search_result where
  "demo_chunk = \<lparr>res_doc_id = ''a'', res_score = 0, res_text = ''text'', res_metadata = None, res_source = Vector,
     res_chunk_source = DynamicChunk, res_corpus_type = None, res_citation = None\<rparr>"

lemma context_fits_budget_witness:
  "estimate_tokens (build_context_bounded [demo_chunk] [demo_chunk, demo_chunk] ''q'' 30) \<le> 30"
proof -
  have v: "\<forall>r \<in> set [demo_chunk] \<union> set [demo_chunk, demo_chunk]. result_utf8 r"
    by (simp add: result_utf8_def demo_chunk_def) code_simp
  have "estimate_tokens (build_context [] [] ''q'') \<le> 30"
    by code_simp
  with context_fits_budget [OF v, of "''q''" 30] show ?thesis
    by (metis take0)
qed

end
