(* ===== verification/Floats_Wide.thy ===== *)
theory Floats_Wide
  imports Floats
begin

text \<open>
  The rest of the floating-point operations of the static index codecs: binary64 arithmetic,
  square roots, conversions between the widths, sums and \<^verbatim>\<open>next_up\<close>.
\<close>


section \<open>Square root and conversion, for any format\<close>

text \<open>The integer square root, two bits of the argument at a time.\<close>

fun isqrt :: "nat \<Rightarrow> nat" where
  "isqrt n = (if n = 0 then 0
              else let r = 2 * isqrt (n div 4) in if (r + 1) * (r + 1) \<le> n then r + 1 else r)"

declare isqrt.simps [simp del]

lemma isqrt_0 [simp]: "isqrt 0 = 0"
  by (simp add: isqrt.simps)

lemma isqrt_bounds: "isqrt n * isqrt n \<le> n \<and> n < (isqrt n + 1) * (isqrt n + 1)"
proof (induction n rule: isqrt.induct)
  case (1 n)
  show ?case
  proof (cases "n = 0")
    case False
    define s where "s = isqrt (n div 4)"
    have ih: "s * s \<le> n div 4" "n div 4 < (s + 1) * (s + 1)"
      using "1.IH" [OF False] by (simp_all add: s_def)
    have lo: "(2 * s) * (2 * s) \<le> n"
      using ih(1) by simp
    have "n < 4 * ((s + 1) * (s + 1))"
      using ih(2) by simp
    then have hi: "n < (2 * s + 1 + 1) * (2 * s + 1 + 1)"
      by (simp add: algebra_simps)
    have e: "isqrt n = (if (2 * s + 1) * (2 * s + 1) \<le> n then 2 * s + 1 else 2 * s)"
      using False by (subst isqrt.simps) (simp add: Let_def s_def)
    show ?thesis
    proof (cases "(2 * s + 1) * (2 * s + 1) \<le> n")
      case True
      then show ?thesis
        using hi e by simp
    next
      case False
      then show ?thesis
        using lo e by simp
    qed
  qed simp
qed

text \<open>
  The root of \<open>m\<close> units is the root of \<open>m * 2 ^ ulp_exp\<close> in units; the last bit of the doubled
  argument is sticky, so that rounding sees on which side of a boundary the root lies.
\<close>

definition fl_sqrt :: "nat \<Rightarrow> nat \<Rightarrow> nat \<Rightarrow> nat" where
  "fl_sqrt F E x =
     (if fl_is_nan F E x then fl_nan F E
      else if fl_mag F E x = 0 then x
      else if fl_sign F E x then fl_nan F E
      else if fl_is_inf F E x then x
      else let n = mag_val F (fl_mag F E x) * 2 ^ ulp_exp F E; s = isqrt n
           in round_mag F E (2 * s + (if s * s = n then 0 else 1)) 2)"

definition fl_convert :: "nat \<Rightarrow> nat \<Rightarrow> nat \<Rightarrow> nat \<Rightarrow> nat \<Rightarrow> nat" where
  "fl_convert F E F' E' x =
     (if fl_is_nan F E x then fl_nan F' E'
      else if fl_is_inf F E x then fl_pack F' E' (fl_sign F E x) (inf_mag F' E')
      else fl_pack F' E' (fl_sign F E x)
        (round_mag F' E' (mag_val F (fl_mag F E x) * 2 ^ ulp_exp F' E') (2 ^ ulp_exp F E)))"


section \<open>Operations of \<^verbatim>\<open>f64\<close> and conversions\<close>

definition f64_add :: "f64 \<Rightarrow> f64 \<Rightarrow> f64" where
  "f64_add x y = of_nat (fl_add 52 11 (unat x) (unat y))"

definition f64_neg :: "f64 \<Rightarrow> f64" where
  "f64_neg x = of_nat (fl_neg 52 11 (unat x))"

definition f64_sub :: "f64 \<Rightarrow> f64 \<Rightarrow> f64" where
  "f64_sub x y = of_nat (fl_add 52 11 (unat x) (fl_neg 52 11 (unat y)))"

definition f64_mul :: "f64 \<Rightarrow> f64 \<Rightarrow> f64" where
  "f64_mul x y = of_nat (fl_mul 52 11 (unat x) (unat y))"

definition f64_div :: "f64 \<Rightarrow> f64 \<Rightarrow> f64" where
  "f64_div x y = of_nat (fl_div 52 11 (unat x) (unat y))"

definition f64_sqrt :: "f64 \<Rightarrow> f64" where
  "f64_sqrt x = of_nat (fl_sqrt 52 11 (unat x))"

definition f64_lt :: "f64 \<Rightarrow> f64 \<Rightarrow> bool" where
  "f64_lt x y = fl_lt 52 11 (unat x) (unat y)"

definition f64_is_nan :: "f64 \<Rightarrow> bool" where
  "f64_is_nan x = fl_is_nan 52 11 (unat x)"

definition f64_le :: "f64 \<Rightarrow> f64 \<Rightarrow> bool" where
  "f64_le x y = (f64_lt x y \<or> f64_eq x y)"

definition f64_abs :: "f64 \<Rightarrow> f64" where
  "f64_abs x = of_nat (fl_abs 52 11 (unat x))"

text \<open>\<^verbatim>\<open>f64::min\<close> and \<^verbatim>\<open>f64::max\<close> return the other argument for a NaN.\<close>

definition f64_min :: "f64 \<Rightarrow> f64 \<Rightarrow> f64" where
  "f64_min x y = (if f64_is_nan x then y else if f64_is_nan y then x else if f64_lt y x then y else x)"

definition f64_max :: "f64 \<Rightarrow> f64 \<Rightarrow> f64" where
  "f64_max x y = (if f64_is_nan x then y else if f64_is_nan y then x else if f64_lt x y then y else x)"

definition f32_sqrt :: "f32 \<Rightarrow> f32" where
  "f32_sqrt x = of_nat (fl_sqrt 23 8 (unat x))"

definition f32_neg :: "f32 \<Rightarrow> f32" where
  "f32_neg x = of_nat (fl_neg 23 8 (unat x))"

text \<open>\<^verbatim>\<open>f64::from(x)\<close> and \<^verbatim>\<open>x as f32\<close>.\<close>

definition f64_of_f32 :: "f32 \<Rightarrow> f64" where
  "f64_of_f32 x = of_nat (fl_convert 23 8 52 11 (unat x))"

definition f32_of_f64 :: "f64 \<Rightarrow> f32" where
  "f32_of_f64 x = of_nat (fl_convert 52 11 23 8 (unat x))"

text \<open>\<^verbatim>\<open>f32::next_up\<close>.\<close>

definition f32_next_up :: "f32 \<Rightarrow> f32" where
  "f32_next_up x =
     (if f32_is_nan x \<or> x = 0x7F800000 then x
      else if fl_mag 23 8 (unat x) = 0 then 1
      else if fl_sign 23 8 (unat x) then x - 1 else x + 1)"

text \<open>\<^verbatim>\<open>iter().sum()\<close>: the fold starts from negative zero, the neutral element.\<close>

definition f32_sum :: "f32 list \<Rightarrow> f32" where
  "f32_sum xs = foldl f32_add 0x80000000 xs"

definition f64_sum :: "f64 list \<Rightarrow> f64" where
  "f64_sum xs = foldl f64_add 0x8000000000000000 xs"

definition f32_minus_one :: f32 where "f32_minus_one = 0xBF800000"


section \<open>Comparison and values\<close>

text \<open>Finite numbers compare as their values, in units.\<close>

lemma mag_val_less_iff: "mag_val F m < mag_val F n \<longleftrightarrow> m < n"
  using mag_val_mono [of m n F] mag_val_mono [of n m F] mag_val_inj [of F m n] by (metis leD leI nat_less_le)

lemma mag_val_le_iff: "mag_val F m \<le> mag_val F n \<longleftrightarrow> m \<le> n"
  using mag_val_less_iff [of F n m] by linarith

lemma mag_val_eq_0_iff [simp]: "mag_val F m = 0 \<longleftrightarrow> m = 0"
  using mag_val_inj [of F m 0] by auto

lemma fl_key_le_iff: "fl_key F E x \<le> fl_key F E y \<longleftrightarrow> fl_units F E x \<le> fl_units F E y"
proof -
  have "- int (mag_val F m) \<le> int (mag_val F n) \<and> - int m \<le> int n" for m n
    by simp
  moreover have "int (mag_val F m) \<le> - int (mag_val F n) \<longleftrightarrow> int m \<le> - int n" for m n
    using mag_val_eq_0_iff [of F m] mag_val_eq_0_iff [of F n] by linarith
  ultimately show ?thesis
    by (simp add: fl_key_def fl_units_def mag_val_le_iff)
qed

lemma fl_key_less_iff: "fl_key F E x < fl_key F E y \<longleftrightarrow> fl_units F E x < fl_units F E y"
  using fl_key_le_iff [of F E y x] by linarith

definition f32_units :: "f32 \<Rightarrow> int" where
  "f32_units x = fl_units 23 8 (unat x)"

lemma f32_finite_not_nan: "f32_is_finite x \<Longrightarrow> \<not> f32_is_nan x"
  by (simp add: f32_is_finite_def f32_is_nan_def fl_is_finite_def fl_is_nan_def)

lemma f32_le_units: "f32_is_finite x \<Longrightarrow> f32_is_finite y \<Longrightarrow> f32_le x y \<longleftrightarrow> f32_units x \<le> f32_units y"
  using f32_finite_not_nan [of x] f32_finite_not_nan [of y] fl_key_le_iff [of 23 8 "unat x" "unat y"]
  by (auto simp: f32_le_def f32_lt_def f32_eq_def fl_lt_def fl_eq_def f32_is_nan_def f32_units_def)

lemma f32_lt_units: "f32_is_finite x \<Longrightarrow> f32_is_finite y \<Longrightarrow> f32_lt x y \<longleftrightarrow> f32_units x < f32_units y"
  using f32_finite_not_nan [of x] f32_finite_not_nan [of y] fl_key_less_iff [of 23 8 "unat x" "unat y"]
  by (auto simp: f32_lt_def fl_lt_def f32_is_nan_def f32_units_def)


section \<open>Exact results\<close>

lemma unat_bound: "unat (w :: 'a::len word) < 2 ^ LENGTH('a)"
  by (rule unsigned_less)

text \<open>A result that is representable is returned unrounded.\<close>

lemma round_mag_exact:
  assumes "0 < b" "m \<le> inf_mag F E"
  shows "round_mag F E (mag_val F m * b) b = m"
proof (rule antisym)
  have "round_mag F E (mag_val F m * b) b \<le> round_mag F E (mag_val F m) (Suc 0)"
    using assms by (intro round_mag_mono) simp_all
  then show "round_mag F E (mag_val F m * b) b \<le> m"
    using assms by (simp add: round_mag_mag_val)
  have "round_mag F E (mag_val F m) (Suc 0) \<le> round_mag F E (mag_val F m * b) b"
    using assms by (intro round_mag_mono) simp_all
  then show "m \<le> round_mag F E (mag_val F m * b) b"
    using assms by (simp add: round_mag_mag_val)
qed

lemma representable:
  assumes "k < 2 ^ Suc F" "k * 2 ^ e < mag_val F (inf_mag F E)"
  obtains m where "mag_val F m = k * 2 ^ e" "m < inf_mag F E"
  using pattern_shifted [OF assms(1), of e] assms(2) mag_val_less_iff by metis

lemma mag_val_scaled: "\<exists>k e. mag_val F m = k * 2 ^ e \<and> k < 2 ^ Suc F"
proof (cases "m < 2 ^ F")
  case True
  then have "mag_val F m = m * 2 ^ 0 \<and> m < 2 ^ Suc F"
    by (simp add: mag_val_def)
  then show ?thesis
    by blast
next
  case False
  then have "mag_val F m = (2 ^ F + m mod 2 ^ F) * 2 ^ (m div 2 ^ F - 1) \<and> 2 ^ F + m mod 2 ^ F < 2 ^ Suc F"
    by (simp add: mag_val_def)
  then show ?thesis
    by blast
qed

lemma fl_pack_fields:
  assumes "m < 2 ^ (E + F)"
  shows "fl_mag F E (fl_pack F E s m) = m" "fl_sign F E (fl_pack F E s m) = s"
    "fl_pack F E s m < 2 ^ Suc (E + F)"
    "fl_key F E (fl_pack F E s m) = (if s then - int m else int m)"
    "fl_units F E (fl_pack F E s m) = (if s then - int (mag_val F m) else int (mag_val F m))"
  using assms by (simp_all add: fl_mag_def fl_sign_def fl_pack_def fl_key_def fl_units_def)

text \<open>The fields of a word.\<close>

definition f64_units :: "f64 \<Rightarrow> int" where
  "f64_units x = fl_units 52 11 (unat x)"

lemma inf64: "inf_mag 52 11 = 0x7FF0000000000000"
  by (simp add: inf_mag_def)

lemma f64_pack_units:
  assumes "m < inf_mag 52 11"
  shows "f64_units (of_nat (fl_pack 52 11 s m)) = (if s then - int (mag_val 52 m) else int (mag_val 52 m))"
    and "f64_is_finite (of_nat (fl_pack 52 11 s m))"
proof -
  have m: "m < 2 ^ (11 + 52)"
    using assms by (simp add: inf64)
  then have "fl_pack 52 11 s m < 2 ^ 64"
    using fl_pack_fields(3) [OF m] by simp
  then have u: "unat (of_nat (fl_pack 52 11 s m) :: f64) = fl_pack 52 11 s m"
    by (simp add: unat_of_nat take_bit_nat_eq_self)
  show "f64_units (of_nat (fl_pack 52 11 s m)) = (if s then - int (mag_val 52 m) else int (mag_val 52 m))"
    unfolding f64_units_def u by (rule fl_pack_fields(5) [OF m])
  show "f64_is_finite (of_nat (fl_pack 52 11 s m))"
    unfolding f64_is_finite_def fl_is_finite_def u fl_pack_fields(1) [OF m] by (rule assms)
qed

lemma f64_fields:
  assumes "f64_is_finite x"
  shows "\<not> fl_is_nan 52 11 (unat x)" "\<not> fl_is_inf 52 11 (unat x)" "fl_mag 52 11 (unat x) < inf_mag 52 11"
    "f64_units x = (if fl_sign 52 11 (unat x) then - int (mag_val 52 (fl_mag 52 11 (unat x)))
                    else int (mag_val 52 (fl_mag 52 11 (unat x))))"
  using assms by (simp_all add: f64_is_finite_def fl_is_finite_def fl_is_nan_def fl_is_inf_def f64_units_def
      fl_units_def)

lemma f32_fields:
  assumes "f32_is_finite x"
  shows "\<not> fl_is_nan 23 8 (unat x)" "\<not> fl_is_inf 23 8 (unat x)" "fl_mag 23 8 (unat x) < inf_mag 23 8"
    "f32_units x = (if fl_sign 23 8 (unat x) then - int (mag_val 23 (fl_mag 23 8 (unat x)))
                    else int (mag_val 23 (fl_mag 23 8 (unat x))))"
  using assms by (simp_all add: f32_is_finite_def fl_is_finite_def fl_is_nan_def fl_is_inf_def f32_units_def
      fl_units_def)

lemma ulp64: "ulp_exp 52 11 = 1074"
  by (simp add: ulp_exp_def)

lemma ulp32: "ulp_exp 23 8 = 149"
  by (simp add: ulp_exp_def)

lemma mag_inf64: "mag_val 52 (inf_mag 52 11) = 2 ^ 2098"
  by (simp add: inf64 mag_val_def flip: power_add)

lemma mag_inf32: "mag_val 23 (inf_mag 23 8) = 2 ^ 277"
  by (simp add: inf32 mag_val_def flip: power_add)

lemma f64_lt_units: "f64_is_finite x \<Longrightarrow> f64_is_finite y \<Longrightarrow> f64_lt x y \<longleftrightarrow> f64_units x < f64_units y"
  using f64_fields(1) [of x] f64_fields(1) [of y]
  by (simp add: f64_lt_def fl_lt_def f64_units_def fl_key_less_iff)

text \<open>Widening is exact: one unit of \<^verbatim>\<open>f32\<close> is \<open>2 ^ 925\<close> units of \<^verbatim>\<open>f64\<close>.\<close>

lemma f64_of_f32_exact:
  assumes "f32_is_finite x"
  shows "f64_is_finite (f64_of_f32 x)" "f64_units (f64_of_f32 x) = f32_units x * 2 ^ 925"
proof -
  define m where "m = fl_mag 23 8 (unat x)"
  have m: "m < inf_mag 23 8"
    using f32_fields [OF assms] by (simp add: m_def)
  obtain k e where k: "mag_val 23 m = k * 2 ^ e" "k < 2 ^ Suc 23"
    using mag_val_scaled by blast
  have "mag_val 23 m < 2 ^ 277"
    using m mag_inf32 mag_val_less_iff by metis
  then have "mag_val 23 m * 2 ^ 925 < 2 ^ 277 * 2 ^ 925"
    by (rule mult_less_mono1) simp
  also have "(2 ^ 277 * 2 ^ 925 :: nat) \<le> 2 ^ 2098"
    by (simp only: flip: power_add) (rule power_increasing, simp_all)
  finally have b: "k * 2 ^ (e + 925) < mag_val 52 (inf_mag 52 11)"
    using k(1) mag_inf64 by (simp add: power_add mult.assoc)
  have k52: "k < 2 ^ Suc 52"
    using k(2) by simp
  obtain m' where m': "mag_val 52 m' = k * 2 ^ (e + 925)" "m' < inf_mag 52 11"
    using representable [OF k52 b] .
  have v: "mag_val 52 m' = mag_val 23 m * 2 ^ 925"
    using m'(1) k(1) by (simp add: power_add mult.assoc)
  have eq: "mag_val 23 m * 2 ^ 1074 = mag_val 52 m' * 2 ^ 149"
    unfolding v by (simp flip: power_add)
  have r: "round_mag 52 11 (mag_val 23 m * 2 ^ ulp_exp 52 11) (2 ^ ulp_exp 23 8) = m'"
    unfolding ulp64 ulp32 eq using m'(2) by (intro round_mag_exact) simp_all
  have c: "f64_of_f32 x = of_nat (fl_pack 52 11 (fl_sign 23 8 (unat x)) m')"
    using f32_fields [OF assms] r by (simp add: f64_of_f32_def fl_convert_def m_def)
  show "f64_is_finite (f64_of_f32 x)"
    unfolding c by (rule f64_pack_units(2) [OF m'(2)])
  show "f64_units (f64_of_f32 x) = f32_units x * 2 ^ 925"
    unfolding c f64_pack_units(1) [OF m'(2)] v f32_fields(4) [OF assms] m_def by simp
qed

text \<open>A sum that fits the significand, and its half, are exact.\<close>

lemma f64_add_exact:
  assumes "f64_is_finite x" "f64_is_finite y"
    and s: "f64_units x + f64_units y = k * 2 ^ e" and k: "\<bar>k\<bar> < 2 ^ 53" and b: "\<bar>k\<bar> * 2 ^ e < 2 ^ 2098"
  shows "f64_is_finite (f64_add x y)" "f64_units (f64_add x y) = k * 2 ^ e"
proof -
  define n where "n = nat \<bar>k\<bar>"
  have n: "n < 2 ^ Suc 52" "int n = \<bar>k\<bar>"
    using k by (simp_all add: n_def zless_nat_conj nat_less_iff)
  have "int (n * 2 ^ e) < int (2 ^ 2098)"
    using b n(2) by (simp only: of_nat_mult of_nat_power of_nat_numeral)
  then have "n * 2 ^ e < mag_val 52 (inf_mag 52 11)"
    unfolding mag_inf64 of_nat_less_iff .
  then obtain m where m: "mag_val 52 m = n * 2 ^ e" "m < inf_mag 52 11"
    using representable [OF n(1)] by blast
  define z where "z = f64_units x + f64_units y"
  have "nat \<bar>z\<bar> = mag_val 52 m"
    unfolding z_def s m(1) by (simp add: abs_mult n_def nat_mult_distrib nat_power_eq)
  then have r: "round_mag 52 11 (nat \<bar>z\<bar>) 1 = m"
    using round_mag_mag_val [of m 52 11] m(2) by simp
  have z0: "z = 0 \<longleftrightarrow> m = 0"
    using \<open>nat \<bar>z\<bar> = mag_val 52 m\<close> by auto
  obtain sg where a: "f64_add x y = of_nat (fl_pack 52 11 sg m)" "z \<noteq> 0 \<longrightarrow> sg = (z < 0)"
    using f64_fields [OF assms(1)] f64_fields [OF assms(2)] r z0
    by (cases "z = 0") (auto simp: f64_add_def fl_add_def f64_units_def z_def Let_def)
  show "f64_is_finite (f64_add x y)"
    unfolding a(1) by (rule f64_pack_units(2) [OF m(2)])
  have "f64_units (f64_add x y) = z"
    unfolding a(1) f64_pack_units(1) [OF m(2)] using a(2) \<open>nat \<bar>z\<bar> = mag_val 52 m\<close> z0 by auto
  then show "f64_units (f64_add x y) = k * 2 ^ e"
    using s by (simp add: z_def)
qed

lemma f64_half_exact:
  assumes "f64_is_finite x" and s: "f64_units x = 2 * (k * 2 ^ e)" and k: "\<bar>k\<bar> < 2 ^ 53"
  shows "f64_is_finite (f64_div x 0x4000000000000000)" "f64_units (f64_div x 0x4000000000000000) = k * 2 ^ e"
proof -
  define n where "n = nat \<bar>k\<bar>"
  have n: "n < 2 ^ Suc 52" "int n = \<bar>k\<bar>"
    using k by (simp_all add: n_def nat_less_iff)
  define p where "p = fl_mag 52 11 (unat x)"
  have p: "p < inf_mag 52 11" "f64_units x = (if fl_sign 52 11 (unat x) then - int (mag_val 52 p) else int (mag_val 52 p))"
    using f64_fields [OF assms(1)] by (simp_all add: p_def)
  have "int (mag_val 52 p) = \<bar>f64_units x\<bar>"
    unfolding p(2) by simp
  also have "\<dots> = int (2 * (n * 2 ^ e))"
    unfolding s by (simp add: abs_mult n(2))
  finally have pv: "mag_val 52 p = 2 * (n * 2 ^ e)"
    by (simp only: of_nat_eq_iff)
  have "n * 2 ^ e \<le> mag_val 52 p"
    by (simp add: pv)
  also have "\<dots> < mag_val 52 (inf_mag 52 11)"
    using p(1) by (simp only: mag_val_less_iff)
  finally obtain m where m: "mag_val 52 m = n * 2 ^ e" "m < inf_mag 52 11"
    using representable [OF n(1)] by blast
  have two: "mag_val 52 (fl_mag 52 11 (unat (0x4000000000000000 :: f64))) = 2 * 2 ^ 1074"
    by (simp add: fl_mag_def mag_val_def flip: power_add power_Suc)
  have two': "\<not> fl_is_nan 52 11 (unat (0x4000000000000000 :: f64))" "\<not> fl_is_inf 52 11 (unat (0x4000000000000000 :: f64))"
      "\<not> fl_sign 52 11 (unat (0x4000000000000000 :: f64))" "fl_mag 52 11 (unat (0x4000000000000000 :: f64)) \<noteq> 0"
    by (simp_all add: fl_is_nan_def fl_is_inf_def fl_sign_def fl_mag_def inf64)
  have eq: "mag_val 52 p * 2 ^ 1074 = mag_val 52 m * (2 * 2 ^ 1074)"
    unfolding pv m(1) by simp
  have r: "round_mag 52 11 (mag_val 52 p * 2 ^ ulp_exp 52 11) (2 * 2 ^ 1074) = m"
    unfolding ulp64 eq using m(2) by (intro round_mag_exact) simp_all
  have d: "f64_div x 0x4000000000000000 = of_nat (fl_pack 52 11 (fl_sign 52 11 (unat x)) m)"
    using f64_fields [OF assms(1)] two two' r by (simp add: f64_div_def fl_div_def Let_def p_def)
  show "f64_is_finite (f64_div x 0x4000000000000000)"
    unfolding d by (rule f64_pack_units(2) [OF m(2)])
  have "2 * f64_units (f64_div x 0x4000000000000000) = f64_units x"
    unfolding d f64_pack_units(1) [OF m(2)] p(2) pv m(1) by simp
  then show "f64_units (f64_div x 0x4000000000000000) = k * 2 ^ e"
    unfolding s by simp
qed

text \<open>
  Narrowing rounds monotonically: it stays on the same side of every \<^verbatim>\<open>f32\<close> number.
\<close>

definition f32_key :: "f32 \<Rightarrow> int" where
  "f32_key x = fl_key 23 8 (unat x)"

lemma f32_le_key_iff: "f32_is_finite x \<Longrightarrow> \<not> f32_is_nan t \<Longrightarrow> f32_le t x \<longleftrightarrow> f32_key t \<le> f32_key x"
  using f32_finite_not_nan [of x]
  by (auto simp: f32_le_def f32_lt_def f32_eq_def fl_lt_def fl_eq_def f32_is_nan_def f32_key_def)

lemma f32_key_units: "f32_key x \<le> f32_key y \<longleftrightarrow> f32_units x \<le> f32_units y"
  by (simp add: f32_key_def f32_units_def fl_key_le_iff)

lemma narrow_fields:
  assumes "f64_is_finite y"
  shows "\<not> f32_is_nan (f32_of_f64 y)"
    and "f32_key (f32_of_f64 y) =
      (let r = round_mag 23 8 (mag_val 52 (fl_mag 52 11 (unat y)) * 2 ^ 149) (2 ^ 1074)
       in if fl_sign 52 11 (unat y) then - int r else int r)"
proof -
  define r where "r = round_mag 23 8 (mag_val 52 (fl_mag 52 11 (unat y)) * 2 ^ 149) (2 ^ 1074)"
  have "r \<le> inf_mag 23 8"
    unfolding r_def by (rule round_mag_le_inf)
  then have r: "r < 2 ^ (8 + 23)"
    by (simp add: inf32)
  have c: "f32_of_f64 y = of_nat (fl_pack 23 8 (fl_sign 52 11 (unat y)) r)"
    using f64_fields [OF assms] by (simp add: f32_of_f64_def fl_convert_def ulp64 ulp32 r_def)
  have "fl_pack 23 8 (fl_sign 52 11 (unat y)) r < 2 ^ 32"
    using fl_pack_fields(3) [OF r] by simp
  then have u: "unat (f32_of_f64 y) = fl_pack 23 8 (fl_sign 52 11 (unat y)) r"
    unfolding c by (simp add: unat_of_nat take_bit_nat_eq_self)
  show "\<not> f32_is_nan (f32_of_f64 y)"
    using \<open>r \<le> inf_mag 23 8\<close> unfolding f32_is_nan_def fl_is_nan_def u fl_pack_fields(1) [OF r] by simp
  show "f32_key (f32_of_f64 y) =
      (let r = round_mag 23 8 (mag_val 52 (fl_mag 52 11 (unat y)) * 2 ^ 149) (2 ^ 1074)
       in if fl_sign 52 11 (unat y) then - int r else int r)"
    unfolding f32_key_def u Let_def r_def [symmetric] by (rule fl_pack_fields(4) [OF r])
qed

lemma round_narrow_le:
  assumes "v \<le> mag_val 23 m * 2 ^ 925" "m \<le> inf_mag 23 8"
  shows "round_mag 23 8 (v * 2 ^ 149) (2 ^ 1074) \<le> m"
proof -
  have "v * 2 ^ 149 \<le> mag_val 23 m * 2 ^ 925 * 2 ^ 149"
    using assms(1) by (rule mult_le_mono1)
  also have "\<dots> = mag_val 23 m * 2 ^ 1074"
    by (simp only: mult.assoc flip: power_add) simp
  finally have "round_mag 23 8 (v * 2 ^ 149) (2 ^ 1074) \<le> round_mag 23 8 (mag_val 23 m * 2 ^ 1074) (2 ^ 1074)"
    by (intro round_mag_mono) simp_all
  then show ?thesis
    using round_mag_exact [of "2 ^ 1074" m 23 8] assms(2) by simp
qed

lemma round_narrow_ge:
  assumes "mag_val 23 m * 2 ^ 925 \<le> v" "m \<le> inf_mag 23 8"
  shows "m \<le> round_mag 23 8 (v * 2 ^ 149) (2 ^ 1074)"
proof -
  have "mag_val 23 m * 2 ^ 1074 = mag_val 23 m * 2 ^ 925 * 2 ^ 149"
    by (simp only: mult.assoc flip: power_add) simp
  also have "\<dots> \<le> v * 2 ^ 149"
    using assms(1) by (rule mult_le_mono1)
  finally have "round_mag 23 8 (mag_val 23 m * 2 ^ 1074) (2 ^ 1074) \<le> round_mag 23 8 (v * 2 ^ 149) (2 ^ 1074)"
    by (intro round_mag_mono) simp_all
  then show ?thesis
    using round_mag_exact [of "2 ^ 1074" m 23 8] assms(2) by simp
qed

text \<open>The sign and magnitude of both sides, for the two directions of monotonicity.\<close>

lemma narrow_setting:
  assumes y: "f64_is_finite y" and x: "f32_is_finite x"
  obtains s v t m where "f64_units y = (if s then - int v else int v)"
    "f32_units x * 2 ^ 925 = (if t then - int (mag_val 23 m * 2 ^ 925) else int (mag_val 23 m * 2 ^ 925))"
    "f32_key x = (if t then - int m else int m)" "m \<le> inf_mag 23 8"
    "f32_key (f32_of_f64 y) = (if s then - int (round_mag 23 8 (v * 2 ^ 149) (2 ^ 1074))
       else int (round_mag 23 8 (v * 2 ^ 149) (2 ^ 1074)))"
proof (rule that)
  show "f64_units y = (if fl_sign 52 11 (unat y) then - int (mag_val 52 (fl_mag 52 11 (unat y)))
      else int (mag_val 52 (fl_mag 52 11 (unat y))))"
    by (rule f64_fields(4) [OF y])
  show "f32_units x * 2 ^ 925 = (if fl_sign 23 8 (unat x)
      then - int (mag_val 23 (fl_mag 23 8 (unat x)) * 2 ^ 925) else int (mag_val 23 (fl_mag 23 8 (unat x)) * 2 ^ 925))"
    unfolding f32_fields(4) [OF x] by simp
  show "f32_key x = (if fl_sign 23 8 (unat x) then - int (fl_mag 23 8 (unat x)) else int (fl_mag 23 8 (unat x)))"
    by (simp add: f32_key_def fl_key_def)
  show "fl_mag 23 8 (unat x) \<le> inf_mag 23 8"
    using f32_fields(3) [OF x] by simp
  show "f32_key (f32_of_f64 y) = (if fl_sign 52 11 (unat y)
      then - int (round_mag 23 8 (mag_val 52 (fl_mag 52 11 (unat y)) * 2 ^ 149) (2 ^ 1074))
      else int (round_mag 23 8 (mag_val 52 (fl_mag 52 11 (unat y)) * 2 ^ 149) (2 ^ 1074)))"
    using narrow_fields(2) [OF y] unfolding Let_def .
qed

lemma narrow_zero: "int v \<le> 0 \<Longrightarrow> int (round_mag 23 8 (v * 2 ^ 149) (2 ^ 1074)) = 0"
  by simp

lemma narrow_le:
  assumes y: "f64_is_finite y" and x: "f32_is_finite x" and le: "f64_units y \<le> f32_units x * 2 ^ 925"
  shows "f32_key (f32_of_f64 y) \<le> f32_key x"
proof -
  obtain s v t m where yu: "f64_units y = (if s then - int v else int v)"
    and xu: "f32_units x * 2 ^ 925 = (if t then - int (mag_val 23 m * 2 ^ 925) else int (mag_val 23 m * 2 ^ 925))"
    and xk: "f32_key x = (if t then - int m else int m)" and m: "m \<le> inf_mag 23 8"
    and yk: "f32_key (f32_of_f64 y) = (if s then - int (round_mag 23 8 (v * 2 ^ 149) (2 ^ 1074))
       else int (round_mag 23 8 (v * 2 ^ 149) (2 ^ 1074)))"
    by (rule narrow_setting [OF y x])
  define w where "w = mag_val 23 m * 2 ^ 925"
  note xu = xu [folded w_def] and lo = round_narrow_le [of v m, folded w_def, OF _ m]
    and hi = round_narrow_ge [of m v, folded w_def, OF _ m]
  have w0: "w = 0 \<longleftrightarrow> m = 0"
    by (simp add: w_def)
  show ?thesis
  proof (cases s; cases t)
    assume "s" "t"
    then have "w \<le> v"
      using le unfolding yu xu by simp
    then show ?thesis
      unfolding yk xk using hi \<open>s\<close> \<open>t\<close> by simp
  next
    assume "s" "\<not> t"
    then show ?thesis
      unfolding yk xk by simp
  next
    assume "\<not> s" "t"
    then have "int v \<le> 0" "w = 0"
      using le unfolding yu xu by simp_all
    then show ?thesis
      unfolding yk xk using narrow_zero [of v] w0 by simp
  next
    assume "\<not> s" "\<not> t"
    then have "v \<le> w"
      using le unfolding yu xu by simp
    then show ?thesis
      unfolding yk xk using lo \<open>\<not> s\<close> \<open>\<not> t\<close> by simp
  qed
qed

lemma narrow_ge:
  assumes y: "f64_is_finite y" and x: "f32_is_finite x" and le: "f32_units x * 2 ^ 925 \<le> f64_units y"
  shows "f32_key x \<le> f32_key (f32_of_f64 y)"
proof -
  obtain s v t m where yu: "f64_units y = (if s then - int v else int v)"
    and xu: "f32_units x * 2 ^ 925 = (if t then - int (mag_val 23 m * 2 ^ 925) else int (mag_val 23 m * 2 ^ 925))"
    and xk: "f32_key x = (if t then - int m else int m)" and m: "m \<le> inf_mag 23 8"
    and yk: "f32_key (f32_of_f64 y) = (if s then - int (round_mag 23 8 (v * 2 ^ 149) (2 ^ 1074))
       else int (round_mag 23 8 (v * 2 ^ 149) (2 ^ 1074)))"
    by (rule narrow_setting [OF y x])
  define w where "w = mag_val 23 m * 2 ^ 925"
  note xu = xu [folded w_def] and lo = round_narrow_le [of v m, folded w_def, OF _ m]
    and hi = round_narrow_ge [of m v, folded w_def, OF _ m]
  have w0: "w = 0 \<longleftrightarrow> m = 0"
    by (simp add: w_def)
  show ?thesis
  proof (cases s; cases t)
    assume "s" "t"
    then have "v \<le> w"
      using le unfolding yu xu by simp
    then show ?thesis
      unfolding yk xk using lo \<open>s\<close> \<open>t\<close> by simp
  next
    assume "s" "\<not> t"
    then have "w = 0" "int v \<le> 0"
      using le unfolding yu xu by simp_all
    then show ?thesis
      unfolding yk xk using narrow_zero [of v] w0 by simp
  next
    assume "\<not> s" "t"
    then show ?thesis
      unfolding yk xk by simp
  next
    assume "\<not> s" "\<not> t"
    then have "w \<le> v"
      using le unfolding yu xu by simp
    then show ?thesis
      unfolding yk xk using hi \<open>\<not> s\<close> \<open>\<not> t\<close> by simp
  qed
qed

text \<open>Between a number and its \<^verbatim>\<open>next_up\<close> there is no other.\<close>

lemma next_up_key:
  assumes "f32_is_finite x"
  shows "f32_key (f32_next_up x) = f32_key x + 1" "\<not> f32_is_nan (f32_next_up x)"
proof -
  define n where "n = unat x"
  have n: "n < 2 ^ 32"
    using unat_bound [of x] by (simp add: n_def)
  have fin: "n mod 2 ^ 31 < 2139095040"
    using f32_fields(3) [OF assms] by (simp add: fl_mag_def inf32 n_def)
  have x: "\<not> f32_is_nan x" "x \<noteq> 0x7F800000"
    using f32_finite_not_nan [OF assms] fin by (auto simp: n_def)
  have u': "unat x = n"
    by (simp add: n_def)
  have "f32_key (f32_next_up x) = f32_key x + 1 \<and> \<not> f32_is_nan (f32_next_up x)"
  proof (cases "n mod 2 ^ 31 = 0")
    case True
    then have "f32_next_up x = 1" "f32_key x = 0"
      using x by (simp_all add: f32_next_up_def fl_mag_def f32_key_def fl_key_def u')
    then show ?thesis
      by (simp add: f32_key_def fl_key_def fl_mag_def fl_sign_def f32_is_nan_def fl_is_nan_def inf32)
  next
    case mag: False
    show ?thesis
    proof (cases "2 ^ 31 \<le> n")
      case True
      then obtain k where k: "n = 2 ^ 31 + k"
        using le_Suc_ex by blast
      then have k31: "k < 2 ^ 31" "k \<noteq> 0"
        using n mag by simp_all
      have up: "f32_next_up x = x - 1"
        using x mag True by (simp add: f32_next_up_def fl_mag_def fl_sign_def u')
      have "x \<noteq> 0"
        using True u' by auto
      then have "unat (x - 1) = n - 1"
        by (simp add: unat_minus_one u')
      then have u: "unat (x - 1) = 2 ^ 31 + (k - 1)"
        using k k31 by simp
      have r: "(2 ^ 31 + (k - 1)) mod 2 ^ 31 = k - 1" "n mod 2 ^ 31 = k"
        using k31 k mod_add_self1 [of "2 ^ 31" "k - 1"] by simp_all
      show ?thesis
        unfolding up f32_key_def fl_key_def f32_is_nan_def fl_is_nan_def fl_mag_def fl_sign_def u u' inf32
        using r fin k31 k by simp
    next
      case False
      then have n31: "n mod 2 ^ 31 = n" "n < 2139095040"
        using fin by simp_all
      have up: "f32_next_up x = x + 1"
        using x mag False by (simp add: f32_next_up_def fl_mag_def fl_sign_def u')
      have "unat (1 + x) \<noteq> 0"
        using n31(2) u' by (simp add: unat_word_ariths)
      then have "1 + x \<noteq> 0"
        by (metis unat_0)
      then have "unat (x + 1) = n + 1"
        using unatSuc [of x] u' by (auto simp: add.commute)
      then show ?thesis
        unfolding up f32_key_def fl_key_def f32_is_nan_def fl_is_nan_def fl_mag_def fl_sign_def inf32 u'
        using n31 by simp
    qed
  qed
  then show "f32_key (f32_next_up x) = f32_key x + 1" "\<not> f32_is_nan (f32_next_up x)"
    by blast+
qed

text \<open>Negation flips the sign bit and nothing else.\<close>

lemma f64_neg_neg [simp]: "f64_neg (f64_neg x) = x"
proof -
  define n where "n = unat x"
  have n: "n < 2 ^ 64"
    using unat_bound [of x] by (simp add: n_def)
  have m: "n mod 2 ^ 63 < 2 ^ (11 + 52)"
    by simp
  have p: "fl_neg 52 11 n = fl_pack 52 11 (\<not> fl_sign 52 11 n) (n mod 2 ^ 63)"
    by (simp add: fl_neg_def fl_mag_def)
  have "unat (f64_neg x) = fl_neg 52 11 n"
    using fl_pack_fields(3) [OF m] by (simp add: f64_neg_def p unat_of_nat take_bit_nat_eq_self flip: n_def)
  moreover have "fl_neg 52 11 (fl_pack 52 11 s k) = fl_pack 52 11 (\<not> s) k" if "k < 2 ^ (11 + 52)" for s k
    using fl_pack_fields(1,2) [OF that] by (simp add: fl_neg_def)
  then have "fl_neg 52 11 (fl_neg 52 11 n) = fl_pack 52 11 (fl_sign 52 11 n) (n mod 2 ^ 63)"
    unfolding p using m by simp
  moreover have "fl_pack 52 11 (fl_sign 52 11 n) (n mod 2 ^ 63) = n"
    using n by (auto simp: fl_pack_def fl_sign_def le_mod_geq)
  ultimately show ?thesis
    by (simp add: f64_neg_def n_def)
qed

lemmas fl_wide_eval = f64_add_def f64_neg_def f64_sub_def f64_mul_def f64_div_def f64_sqrt_def f64_lt_def
  f32_sqrt_def f32_neg_def f64_of_f32_def f32_of_f64_def f32_next_up_def f32_sum_def f64_sum_def
  fl_sqrt_def fl_convert_def f32_units_def

end
