(* ===== verification/Bytes.thy ===== *)
theory Bytes
  imports Floats_Wide Wal
begin

text \<open>
  Byte strings of the static index files: little-endian integers, slices, chunks, the
  packed bits of the codes, and the text read back from a file.  A file is a list of bytes;
  a slice out of range is \<^term>\<open>None\<close>, the panic of the source.
\<close>

unbundle bit_operations_syntax

type_synonym blob = "u8 list"


section \<open>Little-endian integers\<close>

fun le_bytes :: "nat \<Rightarrow> nat \<Rightarrow> blob" where
  "le_bytes 0 n = []"
| "le_bytes (Suc k) n = of_nat (n mod 256) # le_bytes k (n div 256)"

fun le_nat :: "blob \<Rightarrow> nat" where
  "le_nat [] = 0"
| "le_nat (b # bs) = unat b + 256 * le_nat bs"

definition u32_to_le :: "u32 \<Rightarrow> blob" where
  "u32_to_le w = le_bytes 4 (unat w)"

definition u64_to_le :: "u64 \<Rightarrow> blob" where
  "u64_to_le w = le_bytes 8 (unat w)"

definition u32_from_le :: "blob \<Rightarrow> u32" where
  "u32_from_le b = of_nat (le_nat b)"

definition u64_from_le :: "blob \<Rightarrow> u64" where
  "u64_from_le b = of_nat (le_nat b)"

lemma length_le_bytes [simp]: "length (le_bytes k n) = k"
  by (induction k arbitrary: n) auto

lemma le_nat_le_bytes: "n < 256 ^ k \<Longrightarrow> le_nat (le_bytes k n) = n"
proof (induction k arbitrary: n)
  case (Suc k)
  then have "n div 256 < 256 ^ k"
    by (simp add: less_mult_imp_div_less mult.commute)
  then show ?case
    using Suc.IH by (simp add: unat_of_nat)
qed simp

lemma le_nat_bound: "le_nat bs < 256 ^ length bs"
proof (induction bs)
  case (Cons b bs)
  have "unat b < 256"
    using unat_bound [of b] by simp
  then show ?case
    using Cons by simp
qed simp

lemma le_bytes_le_nat: "le_bytes (length bs) (le_nat bs) = bs"
proof (induction bs)
  case (Cons b bs)
  have "unat b < 256"
    using unat_bound [of b] by simp
  then show ?case
    using Cons by (simp add: div_add1_eq)
qed simp

lemma length_u32_to_le [simp]: "length (u32_to_le w) = 4"
  by (simp add: u32_to_le_def)

lemma length_u64_to_le [simp]: "length (u64_to_le w) = 8"
  by (simp add: u64_to_le_def)

lemma u32_from_to_le [simp]: "u32_from_le (u32_to_le w) = w"
  using unat_bound [of w] by (simp add: u32_from_le_def u32_to_le_def le_nat_le_bytes)

lemma u64_from_to_le [simp]: "u64_from_le (u64_to_le w) = w"
  using unat_bound [of w] by (simp add: u64_from_le_def u64_to_le_def le_nat_le_bytes)

lemma u32_to_from_le: "length b = 4 \<Longrightarrow> u32_to_le (u32_from_le b) = b"
  using le_nat_bound [of b] le_bytes_le_nat [of b]
  by (simp add: u32_from_le_def u32_to_le_def unat_of_nat)

lemma u64_to_from_le: "length b = 8 \<Longrightarrow> u64_to_le (u64_from_le b) = b"
  using le_nat_bound [of b] le_bytes_le_nat [of b]
  by (simp add: u64_from_le_def u64_to_le_def unat_of_nat)

lemma u32_to_le_inj: "u32_to_le v = u32_to_le w \<longleftrightarrow> v = w"
  by (metis u32_from_to_le)

lemma u64_to_le_inj: "u64_to_le v = u64_to_le w \<longleftrightarrow> v = w"
  by (metis u64_from_to_le)


section \<open>Slices and chunks\<close>

definition span :: "'a list \<Rightarrow> nat \<Rightarrow> nat \<Rightarrow> 'a list" where
  "span xs a n = take n (drop a xs)"

text \<open>\<^verbatim>\<open>&xs[a..b]\<close>; the panic of a range out of bounds is \<^term>\<open>None\<close>.\<close>

definition slice :: "'a list \<Rightarrow> nat \<Rightarrow> nat \<Rightarrow> 'a list option" where
  "slice xs a b = (if a \<le> b \<and> b \<le> length xs then Some (span xs a (b - a)) else None)"

fun chunks :: "nat \<Rightarrow> 'a list \<Rightarrow> 'a list list" where
  "chunks n xs = (if n = 0 \<or> xs = [] then [] else take n xs # chunks n (drop n xs))"

fun chunks_exact :: "nat \<Rightarrow> 'a list \<Rightarrow> 'a list list" where
  "chunks_exact n xs = (if n = 0 \<or> length xs < n then [] else take n xs # chunks_exact n (drop n xs))"

declare chunks.simps [simp del] chunks_exact.simps [simp del]

lemma length_span: "a + n \<le> length xs \<Longrightarrow> length (span xs a n) = n"
  by (simp add: span_def)

lemma span_append_left: "a + n \<le> length xs \<Longrightarrow> span (xs @ ys) a n = span xs a n"
  by (simp add: span_def)

lemma span_append_right: "length xs \<le> a \<Longrightarrow> span (xs @ ys) a n = span ys (a - length xs) n"
  by (simp add: span_def)

lemma span_middle: "length p = a \<Longrightarrow> length q = n \<Longrightarrow> span (p @ q @ r) a n = q"
  by (simp add: span_def)

lemma slice_middle: "length p = a \<Longrightarrow> a + length q = b \<Longrightarrow> slice (p @ q @ r) a b = Some q"
  by (auto simp: slice_def span_def)

lemma slice_SomeD: "slice xs a b = Some ys \<Longrightarrow> length ys = b - a \<and> b \<le> length xs \<and> a \<le> b"
  by (auto simp: slice_def span_def split: if_splits)

lemma length_chunks_exact: "n \<noteq> 0 \<Longrightarrow> length (chunks_exact n xs) = length xs div n"
proof (induction n xs rule: chunks_exact.induct)
  case (1 n xs)
  show ?case
  proof (cases "length xs < n")
    case True
    then show ?thesis
      by (subst chunks_exact.simps) simp
  next
    case False
    then show ?thesis
      using "1.IH" "1.prems" by (subst chunks_exact.simps) (simp add: le_div_geq)
  qed
qed

lemma chunks_exact_lengths: "c \<in> set (chunks_exact n xs) \<Longrightarrow> length c = n"
proof (induction n xs rule: chunks_exact.induct)
  case (1 n xs)
  show ?case
  proof (cases "n = 0 \<or> length xs < n")
    case True
    then have "chunks_exact n xs = []"
      by (subst chunks_exact.simps) auto
    then show ?thesis
      using "1.prems" by simp
  next
    case False
    then have c: "chunks_exact n xs = take n xs # chunks_exact n (drop n xs)"
      by (subst chunks_exact.simps) auto
    show ?thesis
      using "1.IH" [OF False] "1.prems" False by (auto simp: c)
  qed
qed

lemma nth_chunks_exact: "i < length (chunks_exact n xs) \<Longrightarrow> chunks_exact n xs ! i = span xs (i * n) n"
proof (induction n xs arbitrary: i rule: chunks_exact.induct)
  case (1 n xs)
  show ?case
  proof (cases "n = 0 \<or> length xs < n")
    case True
    then have "chunks_exact n xs = []"
      by (subst chunks_exact.simps) auto
    then show ?thesis
      using "1.prems" by simp
  next
    case False
    then have c: "chunks_exact n xs = take n xs # chunks_exact n (drop n xs)"
      by (subst chunks_exact.simps) auto
    show ?thesis
      using "1.IH" [OF False] "1.prems" False
      by (cases i) (auto simp: c span_def add.commute)
  qed
qed

lemma chunks_exact_concat:
  "\<forall>c \<in> set cs. length c = n \<Longrightarrow> 0 < n \<Longrightarrow> chunks_exact n (concat cs) = cs"
proof (induction cs)
  case Nil
  then show ?case
    by (simp add: chunks_exact.simps)
next
  case (Cons c cs)
  then show ?case
    by (subst chunks_exact.simps) auto
qed

lemma concat_chunks_exact: "n \<noteq> 0 \<Longrightarrow> n dvd length xs \<Longrightarrow> concat (chunks_exact n xs) = xs"
proof (induction n xs rule: chunks_exact.induct)
  case (1 n xs)
  show ?case
  proof (cases "length xs < n")
    case True
    then have "xs = []"
      using "1.prems" nat_dvd_not_less [of "length xs" n] by auto
    then show ?thesis
      by (simp add: chunks_exact.simps)
  next
    case False
    then have "n dvd length (drop n xs)"
      using "1.prems" by (simp add: dvd_diff_nat)
    then show ?thesis
      using "1.IH" "1.prems" False by (subst chunks_exact.simps) simp
  qed
qed


section \<open>Packed bits\<close>

text \<open>
  \<open>bytes[i] |= v << s\<close> and \<open>(bytes[i] >> s) & mask\<close>.
\<close>

definition or_byte :: "blob \<Rightarrow> nat \<Rightarrow> u8 \<Rightarrow> blob" where
  "or_byte bs i v = bs[i := bs ! i OR v]"

definition field_at :: "blob \<Rightarrow> nat \<Rightarrow> nat \<Rightarrow> u8 \<Rightarrow> u8" where
  "field_at bs i s m = drop_bit s (bs ! i) AND m"

lemma length_or_byte [simp]: "length (or_byte bs i v) = length bs"
  by (simp add: or_byte_def)

lemma bit_or_byte:
  "i < length bs \<Longrightarrow> bit (or_byte bs i v ! j) n \<longleftrightarrow> bit (bs ! j) n \<or> (i = j \<and> bit v n)"
  by (cases "i = j") (auto simp: or_byte_def bit_or_iff)


text \<open>
  An array of fields of \<open>w\<close> bits, \<open>p\<close> to a byte, written one after the other into zeroed
  bytes.
\<close>

definition pack_fields :: "nat \<Rightarrow> nat \<Rightarrow> (nat \<Rightarrow> u8) \<Rightarrow> nat \<Rightarrow> nat \<Rightarrow> blob" where
  "pack_fields w p v m n =
     fold (\<lambda>i bs. or_byte bs (i div p) (push_bit (w * (i mod p)) (v i))) [0..<n] (replicate m 0)"

lemma length_pack_fields [simp]: "length (pack_fields w p v m n) = m"
  by (induction n) (simp_all add: pack_fields_def)

lemma bit_pack_fields:
  "n \<le> m * p \<Longrightarrow> 0 < p \<Longrightarrow> b < m \<Longrightarrow>
     bit (pack_fields w p v m n ! b) k \<longleftrightarrow> (\<exists>i<n. i div p = b \<and> bit (push_bit (w * (i mod p)) (v i)) k)"
proof (induction n)
  case (Suc n)
  have "n div p < m"
    using Suc.prems by (simp add: div_less_iff_less_mult)
  moreover have "pack_fields w p v m (Suc n) =
      or_byte (pack_fields w p v m n) (n div p) (push_bit (w * (n mod p)) (v n))"
    by (simp add: pack_fields_def)
  ultimately show ?case
    using Suc by (auto simp: bit_or_byte less_Suc_eq)
qed (simp add: pack_fields_def)

text \<open>Every field reads back, whatever was written beside it.\<close>

lemma read_pack_fields:
  assumes n: "n \<le> m * p" and w: "0 < w" "w * p \<le> 8" and i: "i < n" and v: "\<forall>j < n. take_bit w (v j) = v j"
    and p: "0 < p"
  shows "field_at (pack_fields w p v m n) (i div p) (w * (i mod p)) (mask w) = v i"
proof (rule bit_eqI)
  fix k
  assume k: "possible_bit TYPE(u8) k"
  define s where "s = w * (i mod p)"
  have b: "i div p < m"
    using i n p by (simp add: div_less_iff_less_mult)
  have vbits: "bit (v j) q \<Longrightarrow> q < w" if "j < n" for j q
    using v that by (metis bit_take_bit_iff)
  have only: "j = i" if "j < n" "j div p = i div p" "bit (push_bit (w * (j mod p)) (v j)) (s + k)" "k < w" for j
  proof -
    have q: "w * (j mod p) \<le> s + k" "s + k - w * (j mod p) < w"
      using that(3) vbits [OF that(1)] by (auto simp: bit_push_bit_iff)
    then have "w * (j mod p) < w * (i mod p + 1)" "w * (i mod p) < w * (j mod p + 1)"
      using that(4) by (simp_all add: s_def algebra_simps)
    then have "j mod p < i mod p + 1" "i mod p < j mod p + 1"
      by (metis mult_less_cancel1)+
    then have "j mod p = i mod p"
      by linarith
    then show ?thesis
      using that(2) by (metis div_mult_mod_eq)
  qed
  have fit: "s + k < 8" if "k < w"
  proof -
    have "i mod p + 1 \<le> p"
      using p by (simp add: Suc_leI)
    then have "w * (i mod p + 1) \<le> w * p"
      by (rule mult_le_mono2)
    then show ?thesis
      using that w(2) by (simp add: s_def)
  qed
  have "bit (field_at (pack_fields w p v m n) (i div p) s (mask w)) k \<longleftrightarrow>
      bit (pack_fields w p v m n ! (i div p)) (s + k) \<and> k < w"
    using k by (auto simp: field_at_def bit_simps)
  also have "\<dots> \<longleftrightarrow> (\<exists>j<n. j div p = i div p \<and> bit (push_bit (w * (j mod p)) (v j)) (s + k)) \<and> k < w"
    using bit_pack_fields [OF n p b] by simp
  also have "\<dots> \<longleftrightarrow> bit (push_bit s (v i)) (s + k) \<and> k < w"
    using only i unfolding s_def by blast
  also have "\<dots> \<longleftrightarrow> bit (v i) k"
    using vbits [OF i, of k] fit by (auto simp: bit_simps)
  finally show "bit (field_at (pack_fields w p v m n) (i div p) (w * (i mod p)) (mask w)) k = bit (v i) k"
    by (simp add: s_def)
qed

section \<open>Text in files\<close>

definition text_bytes :: "string \<Rightarrow> blob" where
  "text_bytes s = map of_char s"

definition bytes_text :: "blob \<Rightarrow> string" where
  "bytes_text b = map (\<lambda>w. char_of (unat w)) b"

text \<open>\<^verbatim>\<open>std::str::from_utf8\<close>.\<close>

definition from_utf8 :: "blob \<Rightarrow> string option" where
  "from_utf8 b = (if utf8_valid (bytes_text b) then Some (bytes_text b) else None)"

lemma length_text_bytes [simp]: "length (text_bytes s) = length s"
  by (simp add: text_bytes_def)

lemma bytes_text_bytes [simp]: "bytes_text (text_bytes s) = s"
proof -
  have "unat (of_char c :: u8) = of_char c" for c
  proof -
    have "(of_char c :: nat) < 256"
      by simp
    moreover have "(of_char c :: u8) = of_nat (of_char c)"
      by (simp only: of_nat_of_char)
    ultimately show ?thesis
      by (simp add: unat_of_nat)
  qed
  then show ?thesis
    by (simp add: bytes_text_def text_bytes_def o_def)
qed

lemma from_utf8_text_bytes: "utf8_valid s \<Longrightarrow> from_utf8 (text_bytes s) = Some s"
  by (simp add: from_utf8_def)

lemma text_bytes_inj: "text_bytes s = text_bytes t \<longleftrightarrow> s = t"
  by (metis bytes_text_bytes)

end
