(* ===== verification/Codec_Config.thy ===== *)
theory Codec_Config
  imports Bytes
begin

text \<open>
  Codec identity and parameters of the static indexes (\<^verbatim>\<open>src/index/codec_config.rs\<close>, and
  the codec section of a release manifest in \<^verbatim>\<open>src/index/release_manifest.rs\<close>).
  SHA-256 (crate \<^verbatim>\<open>sha2\<close>) is an argument of the fingerprint.
\<close>


section \<open>Identifiers\<close>

datatype turbo_codec_id = Legacy3BitV1 | TurboQuantProdV1

definition all_codecs :: "turbo_codec_id list" where
  "all_codecs = [Legacy3BitV1, TurboQuantProdV1]"

fun codec_code :: "turbo_codec_id \<Rightarrow> u32" where
  "codec_code Legacy3BitV1 = 1"
| "codec_code TurboQuantProdV1 = 2"

definition codec_from_code :: "u32 \<Rightarrow> turbo_codec_id option" where
  "codec_from_code code =
     (if code = 1 then Some Legacy3BitV1 else if code = 2 then Some TurboQuantProdV1 else None)"

fun codec_name :: "turbo_codec_id \<Rightarrow> string" where
  "codec_name Legacy3BitV1 = ''legacy_3bit_v1''"
| "codec_name TurboQuantProdV1 = ''turbo_quant_prod_v1''"

definition codec_from_name :: "string \<Rightarrow> turbo_codec_id option" where
  "codec_from_name name = find (\<lambda>codec. codec_name codec = name) all_codecs"

datatype norm_policy = AsIs | NormalizeAndStore

definition all_policies :: "norm_policy list" where
  "all_policies = [AsIs, NormalizeAndStore]"

fun policy_code :: "norm_policy \<Rightarrow> u8" where
  "policy_code AsIs = 0"
| "policy_code NormalizeAndStore = 1"

fun policy_name :: "norm_policy \<Rightarrow> string" where
  "policy_name AsIs = ''as_is''"
| "policy_name NormalizeAndStore = ''normalize_and_store''"

definition policy_from_name :: "string \<Rightarrow> norm_policy option" where
  "policy_from_name name = find (\<lambda>policy. policy_name policy = name) all_policies"

fun supports_dim :: "turbo_codec_id \<Rightarrow> u32 \<Rightarrow> bool" where
  "supports_dim Legacy3BitV1 d = (d = 512)"
| "supports_dim TurboQuantProdV1 d = (d = 512)"

fun codec_norm_policy :: "turbo_codec_id \<Rightarrow> norm_policy" where
  "codec_norm_policy Legacy3BitV1 = AsIs"
| "codec_norm_policy TurboQuantProdV1 = NormalizeAndStore"

lemma codec_from_code_iff: "codec_from_code n = Some c \<longleftrightarrow> n = codec_code c"
  by (cases c) (auto simp: codec_from_code_def)

lemma codec_code_inj [simp]: "codec_code c = codec_code d \<longleftrightarrow> c = d"
  by (cases c; cases d) auto

lemma codec_from_name_iff: "codec_from_name s = Some c \<longleftrightarrow> s = codec_name c"
  by (cases c) (auto simp: codec_from_name_def all_codecs_def)

lemma policy_from_name_iff: "policy_from_name s = Some p \<longleftrightarrow> s = policy_name p"
  by (cases p) (auto simp: policy_from_name_def all_policies_def)

lemma policy_code_inj [simp]: "policy_code p = policy_code q \<longleftrightarrow> p = q"
  by (cases p; cases q) auto


section \<open>Configurations\<close>

record turbo_quant_config =
  cfg_codec_id :: turbo_codec_id
  cfg_dim :: u32
  cfg_mse_bits :: u8
  cfg_qjl_dim :: u32
  cfg_mse_seed :: u64
  cfg_qjl_seed :: u64
  cfg_generator_version :: u32
  cfg_norm_policy :: norm_policy

definition GAUSSIAN_GENERATOR_VERSION :: u32 where "GAUSSIAN_GENERATOR_VERSION = 1"

definition CODEC_FINGERPRINT_LEN :: nat where "CODEC_FINGERPRINT_LEN = 8"

definition legacy_v1 :: turbo_quant_config where
  "legacy_v1 =
     \<lparr> cfg_codec_id = Legacy3BitV1, cfg_dim = 512, cfg_mse_bits = 2, cfg_qjl_dim = 512,
       cfg_mse_seed = 7, cfg_qjl_seed = 11, cfg_generator_version = 0, cfg_norm_policy = AsIs \<rparr>"

definition prod_v1 :: turbo_quant_config where
  "prod_v1 =
     \<lparr> cfg_codec_id = TurboQuantProdV1, cfg_dim = 512, cfg_mse_bits = 2, cfg_qjl_dim = 512,
       cfg_mse_seed = 163, cfg_qjl_seed = 165, cfg_generator_version = GAUSSIAN_GENERATOR_VERSION,
       cfg_norm_policy = NormalizeAndStore \<rparr>"

text \<open>A shift by 32 or more panics.\<close>

definition centroids_per_dim :: "turbo_quant_config \<Rightarrow> u32 option" where
  "centroids_per_dim c =
     (if unat (cfg_mse_bits c) < 32 then Some (push_bit (unat (cfg_mse_bits c)) 1) else None)"

definition total_bits :: "turbo_quant_config \<Rightarrow> f64" where
  "total_bits c =
     f64_add (f64_of_nat (unat (cfg_mse_bits c)))
       (f64_div (f64_of_nat (unat (cfg_qjl_dim c))) (f64_of_nat (unat (cfg_dim c))))"

datatype config_error =
    ZeroDim
  | UnsupportedMseBits u8
  | ZeroQjlDim
  | UnsupportedDim turbo_codec_id u32
  | UnsupportedNormPolicy turbo_codec_id norm_policy
  | UnsupportedLegacyLayout u8 u32
  | NotAV3Codec turbo_codec_id
  | NotAV4Codec turbo_codec_id
  | UnknownCodecName string
  | UnknownNormPolicyName string

definition validate_config :: "turbo_quant_config \<Rightarrow> config_error + unit" where
  "validate_config c =
     (if cfg_dim c = 0 then Inl ZeroDim
      else if \<not> (1 \<le> cfg_mse_bits c \<and> cfg_mse_bits c \<le> 4) then Inl (UnsupportedMseBits (cfg_mse_bits c))
      else if cfg_qjl_dim c = 0 then Inl ZeroQjlDim
      else if \<not> supports_dim (cfg_codec_id c) (cfg_dim c)
        then Inl (UnsupportedDim (cfg_codec_id c) (cfg_dim c))
      else if cfg_norm_policy c \<noteq> codec_norm_policy (cfg_codec_id c)
        then Inl (UnsupportedNormPolicy (cfg_codec_id c) (cfg_norm_policy c))
      else if cfg_codec_id c = Legacy3BitV1 \<and> (cfg_mse_bits c \<noteq> 2 \<or> cfg_qjl_dim c \<noteq> cfg_dim c)
        then Inl (UnsupportedLegacyLayout (cfg_mse_bits c) (cfg_qjl_dim c))
      else Inr ())"

lemma validate_config_ok_iff:
  "validate_config c = Inr () \<longleftrightarrow>
     cfg_dim c = 512 \<and> 1 \<le> cfg_mse_bits c \<and> cfg_mse_bits c \<le> 4 \<and> cfg_qjl_dim c \<noteq> 0 \<and>
     cfg_norm_policy c = codec_norm_policy (cfg_codec_id c) \<and>
     (cfg_codec_id c = Legacy3BitV1 \<longrightarrow> cfg_mse_bits c = 2 \<and> cfg_qjl_dim c = cfg_dim c)"
  by (cases "cfg_codec_id c") (auto simp: validate_config_def)


section \<open>The codec section of a release manifest\<close>

record codec_metadata =
  cm_dim :: u32
  cm_centroids_per_dim :: u32
  cm_centroids_seed :: u64
  cm_projection_seed :: u64

record v4_codec_metadata =
  v4_codec_id :: string
  v4_dim :: u32
  v4_mse_bits :: u8
  v4_qjl_dim :: u32
  v4_rotation_seed :: u64
  v4_qjl_seed :: u64
  v4_generator_version :: u32
  v4_norm_policy :: string

datatype manifest_codec = CodecV4 v4_codec_metadata | CodecV3 codec_metadata

text \<open>A validated configuration has fewer than 32 bits, so the shift does not panic.\<close>

definition to_v3_codec_metadata :: "turbo_quant_config \<Rightarrow> (config_error + codec_metadata) option" where
  "to_v3_codec_metadata c =
     (case validate_config c of
        Inl e \<Rightarrow> Some (Inl e)
      | Inr _ \<Rightarrow>
          if cfg_codec_id c \<noteq> Legacy3BitV1 then Some (Inl (NotAV3Codec (cfg_codec_id c)))
          else map_option
            (\<lambda>n. Inr \<lparr> cm_dim = cfg_dim c, cm_centroids_per_dim = n,
                       cm_centroids_seed = cfg_mse_seed c, cm_projection_seed = cfg_qjl_seed c \<rparr>)
            (centroids_per_dim c))"

definition to_v4_codec_metadata :: "turbo_quant_config \<Rightarrow> config_error + v4_codec_metadata" where
  "to_v4_codec_metadata c =
     and_then (validate_config c) (\<lambda>_.
       if cfg_codec_id c \<noteq> TurboQuantProdV1 then Inl (NotAV4Codec (cfg_codec_id c))
       else Inr \<lparr> v4_codec_id = codec_name (cfg_codec_id c), v4_dim = cfg_dim c,
                  v4_mse_bits = cfg_mse_bits c, v4_qjl_dim = cfg_qjl_dim c,
                  v4_rotation_seed = cfg_mse_seed c, v4_qjl_seed = cfg_qjl_seed c,
                  v4_generator_version = cfg_generator_version c,
                  v4_norm_policy = policy_name (cfg_norm_policy c) \<rparr>)"

definition from_v4_codec_metadata :: "v4_codec_metadata \<Rightarrow> config_error + turbo_quant_config" where
  "from_v4_codec_metadata m =
     and_then (ok_or (UnknownCodecName (v4_codec_id m)) (codec_from_name (v4_codec_id m))) (\<lambda>codec_id.
     and_then (ok_or (UnknownNormPolicyName (v4_norm_policy m)) (policy_from_name (v4_norm_policy m))) (\<lambda>policy.
       if codec_id \<noteq> TurboQuantProdV1 then Inl (NotAV4Codec codec_id)
       else
         let config =
           \<lparr> cfg_codec_id = codec_id, cfg_dim = v4_dim m, cfg_mse_bits = v4_mse_bits m,
             cfg_qjl_dim = v4_qjl_dim m, cfg_mse_seed = v4_rotation_seed m, cfg_qjl_seed = v4_qjl_seed m,
             cfg_generator_version = v4_generator_version m, cfg_norm_policy = policy \<rparr>
         in and_then (validate_config config) (\<lambda>_. Inr config)))"

fun manifest_codec_dim :: "manifest_codec \<Rightarrow> u32" where
  "manifest_codec_dim (CodecV3 c) = cm_dim c"
| "manifest_codec_dim (CodecV4 c) = v4_dim c"

definition TURBO_VERSION_V2 :: u32 where "TURBO_VERSION_V2 = 2"
definition TURBO_VERSION_V3 :: u32 where "TURBO_VERSION_V3 = 3"
definition TURBO_VERSION_V4 :: u32 where "TURBO_VERSION_V4 = 4"

fun manifest_codec_version :: "manifest_codec \<Rightarrow> u32" where
  "manifest_codec_version (CodecV3 c) = TURBO_VERSION_V3"
| "manifest_codec_version (CodecV4 c) = TURBO_VERSION_V4"

text \<open>
  The codec section of a version 4 manifest and the configuration it
  was written from determine each other: a configuration is written as a section exactly when
  that section reads back as that configuration.
\<close>

theorem v4_metadata_roundtrip:
  "to_v4_codec_metadata c = Inr m \<longleftrightarrow> from_v4_codec_metadata m = Inr c"
proof -
  have "to_v4_codec_metadata c = Inr m \<longleftrightarrow>
      validate_config c = Inr () \<and> cfg_codec_id c = TurboQuantProdV1 \<and>
      m = \<lparr> v4_codec_id = codec_name (cfg_codec_id c), v4_dim = cfg_dim c,
            v4_mse_bits = cfg_mse_bits c, v4_qjl_dim = cfg_qjl_dim c,
            v4_rotation_seed = cfg_mse_seed c, v4_qjl_seed = cfg_qjl_seed c,
            v4_generator_version = cfg_generator_version c,
            v4_norm_policy = policy_name (cfg_norm_policy c) \<rparr>"
    by (auto simp: to_v4_codec_metadata_def result_simps split: if_splits)
  also have "\<dots> \<longleftrightarrow> from_v4_codec_metadata m = Inr c"
    by (cases c; cases m)
       (auto simp: from_v4_codec_metadata_def result_simps codec_from_name_iff policy_from_name_iff Let_def
         split: if_splits)
  finally show ?thesis .
qed


section \<open>Fingerprint\<close>

definition canonical_bytes :: "turbo_quant_config \<Rightarrow> blob" where
  "canonical_bytes c =
     u32_to_le (codec_code (cfg_codec_id c)) @ u32_to_le (cfg_dim c) @ [cfg_mse_bits c] @
     u32_to_le (cfg_qjl_dim c) @ u64_to_le (cfg_mse_seed c) @ u64_to_le (cfg_qjl_seed c) @
     u32_to_le (cfg_generator_version c) @ [policy_code (cfg_norm_policy c)]"

definition FINGERPRINT_DOMAIN :: blob where
  "FINGERPRINT_DOMAIN = text_bytes ''ltsearch/turbo-codec-fingerprint/v1''"

definition fingerprint_input :: "(blob \<Rightarrow> blob) \<Rightarrow> turbo_quant_config \<Rightarrow> (string \<times> blob) list \<Rightarrow> blob" where
  "fingerprint_input sha256 c files =
     FINGERPRINT_DOMAIN @ canonical_bytes c @
     concat (map (\<lambda>(name, bytes). u64_to_le (of_nat (length name)) @ text_bytes name @ sha256 bytes)
       (sort_by (\<lambda>a b. cmp_ord (fst a) (fst b)) files))"

definition fingerprint :: "(blob \<Rightarrow> blob) \<Rightarrow> turbo_quant_config \<Rightarrow> (string \<times> blob) list \<Rightarrow> blob" where
  "fingerprint sha256 c files = take CODEC_FINGERPRINT_LEN (sha256 (fingerprint_input sha256 c files))"

lemma length_canonical_bytes [simp]: "length (canonical_bytes c) = 34"
  by (simp add: canonical_bytes_def)


lemma canonical_bytes_inj: "canonical_bytes c = canonical_bytes d \<longleftrightarrow> c = d"
  by (cases c; cases d)
     (auto simp: canonical_bytes_def u32_to_le_inj u64_to_le_inj)

interpretation by_name: key_comparator "\<lambda>a b :: string \<times> blob. cmp_ord (fst a) (fst b)" fst
  by unfold_locales simp

lemma fingerprint_order:
  assumes "mset files = mset files'" "distinct (map fst files)"
  shows "fingerprint sha256 c files = fingerprint sha256 c files'"
proof -
  have "inj_on fst (set files)"
    using assms(2) by (simp add: distinct_map)
  then show ?thesis
    using by_name.sort_by_perm [OF assms(1)] by (simp add: fingerprint_def fingerprint_input_def)
qed

text \<open>Whatever the digest returns, the fingerprint fits the eight bytes of a header.\<close>

lemma length_fingerprint: "length (sha256 x) = 32 \<Longrightarrow>
    x = fingerprint_input sha256 c files \<Longrightarrow> length (fingerprint sha256 c files) = 8"
  by (simp add: fingerprint_def CODEC_FINGERPRINT_LEN_def)


section \<open>Messages\<close>

text \<open>
  \<^verbatim>\<open>Display\<close> of a configuration error; \<open>quoted\<close> is the standard library's \<^verbatim>\<open>Debug\<close> of a
  string.
\<close>

fun debug_policy :: "norm_policy \<Rightarrow> string" where
  "debug_policy AsIs = ''AsIs''"
| "debug_policy NormalizeAndStore = ''NormalizeAndStore''"

fun show_config_error :: "(string \<Rightarrow> string) \<Rightarrow> config_error \<Rightarrow> string" where
  "show_config_error quoted ZeroDim = ''dim must be positive''"
| "show_config_error quoted (UnsupportedMseBits b) = ''mse_bits must be in 1..=4, got '' @ show_nat (unat b)"
| "show_config_error quoted ZeroQjlDim = ''qjl_dim must be positive''"
| "show_config_error quoted (UnsupportedDim c d) =
     msg [''codec '', codec_name c, '' does not support dim '', show_nat (unat d)]"
| "show_config_error quoted (UnsupportedNormPolicy c p) =
     msg [''codec '', codec_name c, '' requires norm policy '', debug_policy (codec_norm_policy c),
          '', got '', debug_policy p]"
| "show_config_error quoted (UnsupportedLegacyLayout b q) =
     msg [''codec '', codec_name Legacy3BitV1, '' requires mse_bits 2 and qjl_dim == dim, got mse_bits '',
          show_nat (unat b), '' and qjl_dim '', show_nat (unat q)]"
| "show_config_error quoted (NotAV3Codec c) = msg [''codec '', codec_name c, '' has no v3 manifest representation'']"
| "show_config_error quoted (NotAV4Codec c) = msg [''codec '', codec_name c, '' has no v4 manifest representation'']"
| "show_config_error quoted (UnknownCodecName n) = ''unknown codec_id '' @ quoted n"
| "show_config_error quoted (UnknownNormPolicyName n) = ''unknown norm_policy '' @ quoted n"

end
