(* ===== verification/Assets.thy ===== *)
theory Assets
  imports Codec_Config
begin

text \<open>
  The asset files of the codecs: the centroid table and the projection matrix of the legacy
  codec (\<^verbatim>\<open>src/index/assets.rs\<close>), the Lloyd-Max codebook file (\<^verbatim>\<open>codebook.rs\<close>), the rotation
  (\<^verbatim>\<open>rotation.rs\<close>) and the QJL matrix (\<^verbatim>\<open>qjl.rs\<close>), with the products the codecs take.  The random
  number generator (crates \<^verbatim>\<open>rand\<close>, \<^verbatim>\<open>rand_chacha\<close>) is an argument.
\<close>


section \<open>Errors and values\<close>

datatype asset_error =
    InvalidSize nat nat
  | InvalidLayout nat nat
  | DimensionMismatch nat nat
  | InvalidDim
  | InvalidMagic blob blob
  | UnsupportedCodebookBits u32
  | CentroidsNotAscending

text \<open>\<^verbatim>\<open>Debug\<close> of a byte array.\<close>

fun join_numbers :: "blob \<Rightarrow> string" where
  "join_numbers [] = []"
| "join_numbers [b] = show_nat (unat b)"
| "join_numbers (b # bs) = show_nat (unat b) @ '', '' @ join_numbers bs"

definition debug_bytes :: "blob \<Rightarrow> string" where
  "debug_bytes bs = msg [''['', join_numbers bs, '']'']"

fun show_asset_error :: "asset_error \<Rightarrow> string" where
  "show_asset_error (InvalidSize m a) =
     msg [''asset size mismatch: expected at least '', show_nat m, '' bytes, got '', show_nat a]"
| "show_asset_error (InvalidLayout e a) =
     msg [''asset value count mismatch: expected '', show_nat e, '', got '', show_nat a]"
| "show_asset_error (DimensionMismatch e a) =
     msg [''dimension mismatch: expected '', show_nat e, '', got '', show_nat a]"
| "show_asset_error InvalidDim = ''dimensions must be positive''"
| "show_asset_error (InvalidMagic e a) =
     msg [''invalid magic bytes: expected '', debug_bytes e, '', got '', debug_bytes a]"
| "show_asset_error (UnsupportedCodebookBits b) = ''codebook bits must be in 1..=4, got '' @ show_nat (unat b)"
| "show_asset_error CentroidsNotAscending = ''codebook centroids must be finite and strictly ascending''"

definition parse_values :: "blob \<Rightarrow> u32 \<Rightarrow> u32 \<Rightarrow> asset_error + f32 list" where
  "parse_values data first_dim second_dim =
     (let expected = unat first_dim * unat second_dim
      in if first_dim = 0 \<or> second_dim = 0 then Inl InvalidDim
         else if \<not> 4 dvd length data then Inl (InvalidLayout expected (length data div 4))
         else if length data div 4 \<noteq> expected then Inl (InvalidLayout expected (length data div 4))
         else Inr (map u32_from_le (chunks_exact 4 data)))"

definition write_values :: "f32 list \<Rightarrow> blob" where
  "write_values values = concat (map u32_to_le values)"

lemma length_write_values [simp]: "length (write_values vs) = 4 * length vs"
  by (induction vs) (simp_all add: write_values_def)

lemma chunks_write_values: "chunks_exact 4 (write_values vs) = map u32_to_le vs"
  unfolding write_values_def by (rule chunks_exact_concat) auto

lemma parse_values_iff:
  "parse_values data m n = Inr vs \<longleftrightarrow>
     m \<noteq> 0 \<and> n \<noteq> 0 \<and> length vs = unat m * unat n \<and> data = write_values vs"
proof
  assume p: "parse_values data m n = Inr vs"
  then have d: "m \<noteq> 0" "n \<noteq> 0" "4 dvd length data" "length data div 4 = unat m * unat n"
      "vs = map u32_from_le (chunks_exact 4 data)"
    by (auto simp: parse_values_def Let_def split: if_splits)
  have "map u32_to_le vs = chunks_exact 4 data"
    using chunks_exact_lengths [of _ 4 data] by (auto simp: d(5) u32_to_from_le intro: map_idI)
  then have "write_values vs = data"
    using concat_chunks_exact [of 4 data] d(3) by (simp add: write_values_def)
  then show "m \<noteq> 0 \<and> n \<noteq> 0 \<and> length vs = unat m * unat n \<and> data = write_values vs"
    using d by (simp add: length_chunks_exact)
next
  assume a: "m \<noteq> 0 \<and> n \<noteq> 0 \<and> length vs = unat m * unat n \<and> data = write_values vs"
  then show "parse_values data m n = Inr vs"
    by (simp add: parse_values_def Let_def chunks_write_values o_def)
qed

text \<open>The sum of the products of two slices, in index order.\<close>

definition dot :: "f32 list \<Rightarrow> f32 list \<Rightarrow> f32" where
  "dot xs ys = f32_sum (map2 f32_mul xs ys)"


section \<open>File formats\<close>

text \<open>
  The contract of an asset file: what was written reads back, and what reads back was written
  so.  It makes the parser the inverse of the writer.
\<close>

locale asset_format =
  fixes to_b :: "'a \<Rightarrow> blob"
    and from_b :: "blob \<Rightarrow> asset_error + 'a"
    and ok :: "'a \<Rightarrow> bool"
  assumes read_write: "ok a \<Longrightarrow> from_b (to_b a) = Inr a"
    and write_read: "from_b b = Inr a \<Longrightarrow> ok a \<and> to_b a = b"
begin

lemma exact: "from_b b = Inr a \<longleftrightarrow> ok a \<and> b = to_b a"
  using read_write write_read by blast

lemma to_b_inj: "ok a \<Longrightarrow> ok a' \<Longrightarrow> to_b a = to_b a' \<longleftrightarrow> a = a'"
  using read_write by (metis sum.inject(2))

lemma rejected: "\<not> is_ok (from_b b) \<Longrightarrow> ok a \<Longrightarrow> b \<noteq> to_b a"
  using read_write by (auto simp: is_ok_iff)

end


subsection \<open>Centroid table and projection matrix\<close>

definition ASSET_HEADER_SIZE :: nat where "ASSET_HEADER_SIZE = 8"

record centroid_table =
  ct_dim :: u32
  ct_centroids_per_dim :: u32
  ct_values :: "f32 list"

record projection_matrix =
  pm_input_dim :: u32
  pm_output_dim :: u32
  pm_values :: "f32 list"

text \<open>
  \<open>uniform seed n\<close> is the \<open>n\<close>-th \<^verbatim>\<open>random_range(-1.0..=1.0)\<close> of the generator seeded with
  \<open>seed\<close>.
\<close>

definition centroid_table_generate :: "(u64 \<Rightarrow> nat \<Rightarrow> f32) \<Rightarrow> u32 \<Rightarrow> u32 \<Rightarrow> u64 \<Rightarrow> centroid_table option" where
  "centroid_table_generate uniform d k seed =
     (if 0 < d \<and> 0 < k
      then Some \<lparr> ct_dim = d, ct_centroids_per_dim = k,
                  ct_values = map (uniform seed) [0..<unat d * unat k] \<rparr>
      else None)"

definition centroid_table_from_bytes :: "blob \<Rightarrow> asset_error + centroid_table" where
  "centroid_table_from_bytes bytes =
     (if length bytes < ASSET_HEADER_SIZE then Inl (InvalidSize ASSET_HEADER_SIZE (length bytes))
      else if length bytes = ASSET_HEADER_SIZE then Inl (InvalidSize (ASSET_HEADER_SIZE + 4) (length bytes))
      else let d = u32_from_le (span bytes 0 4); k = u32_from_le (span bytes 4 4)
           in map_ok (\<lambda>values. \<lparr> ct_dim = d, ct_centroids_per_dim = k, ct_values = values \<rparr>)
                (parse_values (drop ASSET_HEADER_SIZE bytes) d k))"

definition centroid_table_to_bytes :: "centroid_table \<Rightarrow> blob" where
  "centroid_table_to_bytes t =
     u32_to_le (ct_dim t) @ u32_to_le (ct_centroids_per_dim t) @ write_values (ct_values t)"

definition projection_generate :: "(u64 \<Rightarrow> nat \<Rightarrow> f32) \<Rightarrow> u32 \<Rightarrow> u32 \<Rightarrow> u64 \<Rightarrow> projection_matrix option" where
  "projection_generate uniform m n seed =
     (if 0 < m \<and> 0 < n
      then Some \<lparr> pm_input_dim = m, pm_output_dim = n,
                  pm_values = map (uniform seed) [0..<unat n * unat m] \<rparr>
      else None)"

definition projection_from_rows :: "f32 list list \<Rightarrow> projection_matrix option" where
  "projection_from_rows rows =
     (case rows of
        [] \<Rightarrow> None
      | row # _ \<Rightarrow>
          if 0 < length row \<and> list_all (\<lambda>r. length r = length row) rows
          then Some \<lparr> pm_input_dim = of_nat (length row), pm_output_dim = of_nat (length rows),
                      pm_values = concat rows \<rparr>
          else None)"

definition projection_from_bytes :: "blob \<Rightarrow> asset_error + projection_matrix" where
  "projection_from_bytes bytes =
     (if length bytes < ASSET_HEADER_SIZE then Inl (InvalidSize ASSET_HEADER_SIZE (length bytes))
      else if length bytes = ASSET_HEADER_SIZE then Inl (InvalidSize (ASSET_HEADER_SIZE + 4) (length bytes))
      else let m = u32_from_le (span bytes 0 4); n = u32_from_le (span bytes 4 4)
           in map_ok (\<lambda>values. \<lparr> pm_input_dim = m, pm_output_dim = n, pm_values = values \<rparr>)
                (parse_values (drop ASSET_HEADER_SIZE bytes) n m))"

definition projection_to_bytes :: "projection_matrix \<Rightarrow> blob" where
  "projection_to_bytes p =
     u32_to_le (pm_input_dim p) @ u32_to_le (pm_output_dim p) @ write_values (pm_values p)"

text \<open>
  Every table and matrix holds the values its dimensions announce (lemmas
  \<open>centroid_table_generate_ok\<close>, \<open>projection_generate_ok\<close> and the interpretations below), so no
  row below is out of range.
\<close>

definition centroid_table_ok :: "centroid_table \<Rightarrow> bool" where
  "centroid_table_ok t \<longleftrightarrow> ct_dim t \<noteq> 0 \<and> ct_centroids_per_dim t \<noteq> 0 \<and>
     length (ct_values t) = unat (ct_dim t) * unat (ct_centroids_per_dim t)"

definition projection_ok :: "projection_matrix \<Rightarrow> bool" where
  "projection_ok p \<longleftrightarrow> pm_input_dim p \<noteq> 0 \<and> pm_output_dim p \<noteq> 0 \<and>
     length (pm_values p) = unat (pm_output_dim p) * unat (pm_input_dim p)"

definition project_checked :: "projection_matrix \<Rightarrow> f32 list \<Rightarrow> asset_error + f32 list" where
  "project_checked p input =
     (let d = unat (pm_input_dim p)
      in if length input \<noteq> d then Inl (DimensionMismatch d (length input))
         else Inr (map (\<lambda>row_index. dot (span (pm_values p) (row_index * d) d) input)
                     [0..<unat (pm_output_dim p)]))"

definition project :: "projection_matrix \<Rightarrow> f32 list \<Rightarrow> f32 list option" where
  "project p input = (case project_checked p input of Inl _ \<Rightarrow> None | Inr out \<Rightarrow> Some out)"

lemma centroid_table_generate_ok: "centroid_table_generate u d k s = Some t \<Longrightarrow> centroid_table_ok t"
  by (auto simp: centroid_table_generate_def centroid_table_ok_def split: if_splits)

lemma projection_generate_ok: "projection_generate u m n s = Some p \<Longrightarrow> projection_ok p"
  by (auto simp: projection_generate_def projection_ok_def split: if_splits)

lemma project_checked_length: "project_checked p x = Inr y \<Longrightarrow> length y = unat (pm_output_dim p)"
  by (auto simp: project_checked_def Let_def split: if_splits)

lemma drop_header8: "8 \<le> length b \<Longrightarrow> b = span b 0 4 @ span b 4 4 @ drop 8 b"
  by (metis (no_types, lifting) add_0 append.assoc append_take_drop_id drop_0 numeral_Bit0 span_def take_add)

interpretation centroid_file: asset_format centroid_table_to_bytes centroid_table_from_bytes centroid_table_ok
proof
  fix t
  assume ok: "centroid_table_ok t"
  then have "parse_values (write_values (ct_values t)) (ct_dim t) (ct_centroids_per_dim t) = Inr (ct_values t)"
    unfolding parse_values_iff by (simp add: centroid_table_ok_def)
  moreover have "ct_values t \<noteq> []"
    using ok by (auto simp: centroid_table_ok_def unat_eq_zero)
  ultimately show "centroid_table_from_bytes (centroid_table_to_bytes t) = Inr t"
    by (simp add: centroid_table_from_bytes_def centroid_table_to_bytes_def ASSET_HEADER_SIZE_def span_def Let_def)
next
  fix b t
  assume p: "centroid_table_from_bytes b = Inr t"
  then have l: "8 < length b" and v: "parse_values (drop 8 b) (ct_dim t) (ct_centroids_per_dim t) = Inr (ct_values t)"
    and d: "ct_dim t = u32_from_le (span b 0 4)" "ct_centroids_per_dim t = u32_from_le (span b 4 4)"
    by (auto simp: centroid_table_from_bytes_def ASSET_HEADER_SIZE_def Let_def map_ok_Inr_iff split: if_splits)
  have "u32_to_le (ct_dim t) = span b 0 4" "u32_to_le (ct_centroids_per_dim t) = span b 4 4"
    using l by (simp_all add: d u32_to_from_le length_span)
  then show "centroid_table_ok t \<and> centroid_table_to_bytes t = b"
    using v drop_header8 [of b] l unfolding parse_values_iff
    by (simp add: centroid_table_ok_def centroid_table_to_bytes_def)
qed

interpretation projection_file: asset_format projection_to_bytes projection_from_bytes projection_ok
proof
  fix p
  assume ok: "projection_ok p"
  then have "parse_values (write_values (pm_values p)) (pm_output_dim p) (pm_input_dim p) = Inr (pm_values p)"
    unfolding parse_values_iff by (simp add: projection_ok_def)
  moreover have "pm_values p \<noteq> []"
    using ok by (auto simp: projection_ok_def unat_eq_zero)
  ultimately show "projection_from_bytes (projection_to_bytes p) = Inr p"
    by (simp add: projection_from_bytes_def projection_to_bytes_def ASSET_HEADER_SIZE_def span_def Let_def)
next
  fix b p
  assume p: "projection_from_bytes b = Inr p"
  then have l: "8 < length b" and v: "parse_values (drop 8 b) (pm_output_dim p) (pm_input_dim p) = Inr (pm_values p)"
    and d: "pm_input_dim p = u32_from_le (span b 0 4)" "pm_output_dim p = u32_from_le (span b 4 4)"
    by (auto simp: projection_from_bytes_def ASSET_HEADER_SIZE_def Let_def map_ok_Inr_iff split: if_splits)
  have "u32_to_le (pm_input_dim p) = span b 0 4" "u32_to_le (pm_output_dim p) = span b 4 4"
    using l by (simp_all add: d u32_to_from_le length_span)
  then show "projection_ok p \<and> projection_to_bytes p = b"
    using v drop_header8 [of b] l unfolding parse_values_iff
    by (simp add: projection_ok_def projection_to_bytes_def)
qed

end
