(* ===== verification/Codebook.thy ===== *)
theory Codebook
  imports Assets
begin

text \<open>
  The Lloyd-Max codebook of the \<^verbatim>\<open>TurboQuantProdV1\<close> codec (\<^verbatim>\<open>src/index/codebook.rs\<close>): its
  file, the thresholds between the centroids, encoding, and the offline solver.  The
  functions of crate \<^verbatim>\<open>libm\<close> the solver calls are arguments.
\<close>


section \<open>Codebook\<close>

definition CODEBOOK_MAGIC :: blob where "CODEBOOK_MAGIC = text_bytes ''TQCB''"
definition CODEBOOK_FILE :: string where "CODEBOOK_FILE = ''codebook.bin''"
definition CODEBOOK_HEADER_SIZE :: nat where "CODEBOOK_HEADER_SIZE = 12"
definition MAX_BITS :: u32 where "MAX_BITS = 4"

text \<open>A decimal literal: the nearest pattern to \<open>a / b\<close>.\<close>

definition f32_literal :: "nat \<Rightarrow> nat \<Rightarrow> f32" where
  "f32_literal a b = of_nat (round_mag 23 8 (a * 2 ^ ulp_exp 23 8) b)"

definition f64_literal :: "nat \<Rightarrow> nat \<Rightarrow> f64" where
  "f64_literal a b = of_nat (round_mag 52 11 (a * 2 ^ ulp_exp 52 11) b)"

definition D512_B2_CENTROIDS :: "f32 list" where
  "D512_B2_CENTROIDS =
     [f32_neg (f32_literal 6669391 100000000), f32_neg (f32_literal 2000666 100000000),
      f32_literal 2000666 100000000, f32_literal 6669391 100000000]"

record lloyd_max_codebook =
  cb_dim :: u32
  cb_bits :: u8
  cb_centroids :: "f32 list"
  cb_thresholds :: "f32 list"

definition f64_two :: f64 where "f64_two = 0x4000000000000000"

definition midpoint :: "f64 \<Rightarrow> f64 \<Rightarrow> f64" where
  "midpoint lower upper = f64_div (f64_add lower upper) f64_two"

definition threshold_between :: "f32 \<Rightarrow> f32 \<Rightarrow> f32" where
  "threshold_between lower upper =
     (let mid = midpoint (f64_of_f32 lower) (f64_of_f32 upper); nearest = f32_of_f64 mid
      in if f64_lt (f64_of_f32 nearest) mid then f32_next_up nearest else nearest)"

text \<open>\<^verbatim>\<open>windows(2)\<close>.\<close>

definition windows2 :: "'a list \<Rightarrow> ('a \<times> 'a) list" where
  "windows2 xs = zip xs (tl xs)"

definition from_centroids :: "u32 \<Rightarrow> u8 \<Rightarrow> f32 list \<Rightarrow> lloyd_max_codebook" where
  "from_centroids d bits centroids =
     \<lparr> cb_dim = d, cb_bits = bits, cb_centroids = centroids,
       cb_thresholds = map (\<lambda>(lower, upper). threshold_between lower upper) (windows2 centroids) \<rparr>"

definition committed :: "u32 \<Rightarrow> u8 \<Rightarrow> lloyd_max_codebook option" where
  "committed d bits = (if d = 512 \<and> bits = 2 then Some (from_centroids d bits D512_B2_CENTROIDS) else None)"

definition codebook_to_bytes :: "lloyd_max_codebook \<Rightarrow> blob" where
  "codebook_to_bytes cb =
     CODEBOOK_MAGIC @ u32_to_le (cb_dim cb) @ u32_to_le (ucast (cb_bits cb)) @ write_values (cb_centroids cb)"

definition is_ascending :: "f32 list \<Rightarrow> bool" where
  "is_ascending cs = list_all (\<lambda>(lower, upper). f32_lt lower upper) (windows2 cs)"

definition codebook_from_bytes :: "blob \<Rightarrow> asset_error + lloyd_max_codebook" where
  "codebook_from_bytes bytes =
     (if length bytes < CODEBOOK_HEADER_SIZE then Inl (InvalidSize CODEBOOK_HEADER_SIZE (length bytes))
      else if span bytes 0 4 \<noteq> CODEBOOK_MAGIC then Inl (InvalidMagic CODEBOOK_MAGIC (span bytes 0 4))
      else
        let d = u32_from_le (span bytes 4 4); bits = u32_from_le (span bytes 8 4)
        in if d = 0 then Inl InvalidDim
           else if \<not> (1 \<le> bits \<and> bits \<le> MAX_BITS) then Inl (UnsupportedCodebookBits bits)
           else and_then (parse_values (drop CODEBOOK_HEADER_SIZE bytes) (push_bit (unat bits) 1) 1) (\<lambda>centroids.
             if \<not> is_ascending centroids \<or> \<not> list_all f32_is_finite centroids then Inl CentroidsNotAscending
             else Inr (from_centroids d (ucast bits) centroids)))"

definition codebook_encode :: "lloyd_max_codebook \<Rightarrow> f32 \<Rightarrow> u8" where
  "codebook_encode cb x = sum_list (map (\<lambda>t. if f32_le t x then 1 else 0) (cb_thresholds cb))"

text \<open>An index outside the codebook panics.\<close>

definition codebook_decode :: "lloyd_max_codebook \<Rightarrow> u8 \<Rightarrow> f32 option" where
  "codebook_decode cb index =
     (if unat index < length (cb_centroids cb) then Some (cb_centroids cb ! unat index) else None)"

definition codebook_ok :: "lloyd_max_codebook \<Rightarrow> bool" where
  "codebook_ok cb \<longleftrightarrow>
     cb_dim cb \<noteq> 0 \<and> 1 \<le> cb_bits cb \<and> cb_bits cb \<le> 4 \<and> length (cb_centroids cb) = 2 ^ unat (cb_bits cb) \<and>
     is_ascending (cb_centroids cb) \<and> list_all f32_is_finite (cb_centroids cb) \<and>
     cb = from_centroids (cb_dim cb) (cb_bits cb) (cb_centroids cb)"

lemma unat_shift: "n < 32 \<Longrightarrow> unat (push_bit n (1 :: u32)) = 2 ^ n"
proof -
  assume n: "n < 32"
  then have "(2 :: nat) ^ n < 2 ^ 32"
    by (rule power_strict_increasing) simp
  moreover have "(push_bit n 1 :: u32) = of_nat (2 ^ n)"
    by (simp add: push_bit_eq_mult)
  ultimately show ?thesis
    by (simp only: unat_of_nat take_bit_eq_mod len_bit0 len_num1) simp
qed

lemma unat_ucast_small:
  "unat w < 2 ^ LENGTH('b) \<Longrightarrow> unat (ucast (w :: 'a::len word) :: 'b::len word) = unat w"
  by (simp add: unsigned_ucast_eq unsigned_take_bit_eq take_bit_nat_eq_self)

lemma bits_byte:
  fixes bits :: u32
  assumes "1 \<le> bits" "bits \<le> 4"
  shows "1 \<le> unat bits" "unat bits \<le> 4" "unat (ucast bits :: u8) = unat bits" "ucast (ucast bits :: u8) = bits"
proof -
  show n: "1 \<le> unat bits" "unat bits \<le> 4"
    using assms by (simp_all add: word_le_nat_alt)
  then show u: "unat (ucast bits :: u8) = unat bits"
    by (intro unat_ucast_small) simp
  then have "unat (ucast (ucast bits :: u8) :: u32) = unat bits"
    using n by (subst unat_ucast_small) simp_all
  then show "ucast (ucast bits :: u8) = bits"
    by (simp only: word_unat_eq_iff)
qed

lemma drop_header12: "12 \<le> length b \<Longrightarrow> b = span b 0 4 @ span b 4 4 @ span b 8 4 @ drop 12 b"
proof -
  have "b = take 4 b @ take 4 (drop 4 b) @ take 4 (drop 8 b) @ drop 12 b"
    using append_take_drop_id [of 4 b] append_take_drop_id [of 4 "drop 4 b"] append_take_drop_id [of 4 "drop 8 b"]
    by simp
  then show ?thesis
    by (simp add: span_def)
qed

interpretation codebook_file: asset_format codebook_to_bytes codebook_from_bytes codebook_ok
proof
  fix cb
  assume ok: "codebook_ok cb"
  define n where "n = unat (cb_bits cb)"
  have n: "1 \<le> n" "n \<le> 4"
    using ok by (simp_all add: codebook_ok_def n_def word_le_nat_alt)
  have u: "unat (ucast (cb_bits cb) :: u32) = n"
    using n by (subst unat_ucast_small) (simp_all add: n_def)
  then have b: "1 \<le> (ucast (cb_bits cb) :: u32)" "(ucast (cb_bits cb) :: u32) \<le> MAX_BITS"
    using n by (simp_all add: word_le_nat_alt MAX_BITS_def)
  have bk: "ucast (ucast (cb_bits cb) :: u32) = cb_bits cb"
  proof -
    have "unat (ucast (ucast (cb_bits cb) :: u32) :: u8) = unat (cb_bits cb)"
      using n u by (subst unat_ucast_small) (simp_all add: n_def)
    then show ?thesis
      by (simp only: word_unat_eq_iff)
  qed
  have "(push_bit n 1 :: u32) \<noteq> 0"
    using unat_shift [of n] n by (auto simp: word_unat_eq_iff)
  then have v: "parse_values (write_values (cb_centroids cb)) (push_bit n 1) 1 = Inr (cb_centroids cb)"
    using ok unat_shift [of n] n unfolding parse_values_iff by (simp add: codebook_ok_def n_def)
  show "codebook_from_bytes (codebook_to_bytes cb) = Inr cb"
    using ok b bk v
    by (simp add: codebook_from_bytes_def codebook_to_bytes_def CODEBOOK_HEADER_SIZE_def span_def Let_def
        CODEBOOK_MAGIC_def u codebook_ok_def)
next
  fix b cb
  assume p: "codebook_from_bytes b = Inr cb"
  define bits :: u32 where "bits = u32_from_le (span b 8 4)"
  have l: "12 \<le> length b" and m: "span b 0 4 = CODEBOOK_MAGIC" and d: "u32_from_le (span b 4 4) \<noteq> 0"
    and bits: "1 \<le> bits" "bits \<le> 4" and asc: "is_ascending (cb_centroids cb)"
    and fin: "list_all f32_is_finite (cb_centroids cb)"
    and cb: "cb = from_centroids (u32_from_le (span b 4 4)) (ucast bits) (cb_centroids cb)"
    and v: "parse_values (drop 12 b) (push_bit (unat bits) 1) 1 = Inr (cb_centroids cb)"
    using p by (auto simp: codebook_from_bytes_def CODEBOOK_HEADER_SIZE_def Let_def result_simps bits_def
        MAX_BITS_def from_centroids_def split: if_splits)
  note bb = bits_byte [OF bits]
  have v': "length (cb_centroids cb) = 2 ^ unat bits" "drop 12 b = write_values (cb_centroids cb)"
    using v unat_shift [of "unat bits"] bb(2) unfolding parse_values_iff by simp_all
  have f: "cb_dim cb = u32_from_le (span b 4 4)" "cb_bits cb = ucast bits"
    using cb by (simp_all add: from_centroids_def) (metis lloyd_max_codebook.select_convs)+
  have "u32_to_le (cb_dim cb) = span b 4 4" "u32_to_le (ucast (cb_bits cb)) = span b 8 4"
    using l bb(4) unfolding f by (simp_all add: bits_def u32_to_from_le length_span)
  then have "codebook_to_bytes cb = b"
    using drop_header12 [OF l] m v'(2) by (simp add: codebook_to_bytes_def)
  moreover have "codebook_ok cb"
    unfolding codebook_ok_def f using d bb v'(1) asc fin cb
    by (simp add: word_le_nat_alt)
  ultimately show "codebook_ok cb \<and> codebook_to_bytes cb = b"
    by simp
qed


section \<open>Encoding is rounding to the nearest centroid\<close>

text \<open>
  Two centroids whose sum \<^verbatim>\<open>f64\<close> holds: both are multiples of a power of two that leaves the
  sum 53 bits.
\<close>

definition exact_sum :: "f32 \<Rightarrow> f32 \<Rightarrow> bool" where
  "exact_sum a b = list_ex (\<lambda>j. 2 ^ j dvd f32_units a \<and> 2 ^ j dvd f32_units b \<and>
     \<bar>f32_units a + f32_units b\<bar> < 2 ^ 53 * 2 ^ j) [0..<254]"

lemma exact_sumI:
  "j < 254 \<Longrightarrow> 2 ^ j dvd f32_units a \<Longrightarrow> 2 ^ j dvd f32_units b \<Longrightarrow>
     \<bar>f32_units a + f32_units b\<bar> < 2 ^ 53 * 2 ^ j \<Longrightarrow> exact_sum a b"
  unfolding exact_sum_def list_ex_iff by (rule bexI [of _ j]) simp_all

lemma f32_units_bound: "f32_is_finite x \<Longrightarrow> \<bar>f32_units x\<bar> < 2 ^ 277"
proof -
  assume x: "f32_is_finite x"
  then have "mag_val 23 (fl_mag 23 8 (unat x)) < 2 ^ 277"
    using f32_fields(3) [OF x] mag_inf32 mag_val_less_iff by metis
  then have "int (mag_val 23 (fl_mag 23 8 (unat x))) < int (2 ^ 277)"
    by (simp only: of_nat_less_iff)
  then show ?thesis
    unfolding f32_fields(4) [OF x] by simp
qed

lemma f32_finite_between:
  assumes "f32_is_finite a" "f32_is_finite b" "\<not> f32_is_nan n" "f32_key a \<le> f32_key n" "f32_key n \<le> f32_key b"
  shows "f32_is_finite n"
proof -
  have "\<bar>f32_key a\<bar> < int (inf_mag 23 8)" "\<bar>f32_key b\<bar> < int (inf_mag 23 8)"
    using f32_fields(3) [OF assms(1)] f32_fields(3) [OF assms(2)] by (simp_all add: f32_key_def fl_key_def)
  then have "\<bar>f32_key n\<bar> < int (inf_mag 23 8)"
    using assms(4,5) by linarith
  then show ?thesis
    by (simp add: f32_is_finite_def fl_is_finite_def f32_key_def fl_key_def split: if_splits)
qed

lemma midpoint_exact:
  assumes "f32_is_finite a" "f32_is_finite b" "exact_sum a b"
  defines "mid \<equiv> midpoint (f64_of_f32 a) (f64_of_f32 b)"
  shows "f64_is_finite mid" "f64_units mid = (f32_units a + f32_units b) * 2 ^ 924"
proof -
  obtain j where j: "2 ^ j dvd f32_units a" "2 ^ j dvd f32_units b" "j < 254"
      "\<bar>f32_units a + f32_units b\<bar> < 2 ^ 53 * 2 ^ j"
    using assms(3) by (auto simp: exact_sum_def list_ex_iff)
  then obtain k where k: "f32_units a + f32_units b = k * 2 ^ j"
    by (metis dvd_add dvd_def mult.commute)
  have k53: "\<bar>k\<bar> < 2 ^ 53"
    using j(4) unfolding k by (simp add: abs_mult)
  define s where "s = f32_units a + f32_units b"
  have kb: "\<bar>s\<bar> < 2 ^ 278"
    using f32_units_bound [OF assms(1)] f32_units_bound [OF assms(2)] by (simp add: s_def)
  have "\<bar>k\<bar> * 2 ^ (j + 925) = \<bar>s\<bar> * 2 ^ 925"
    unfolding s_def k by (simp add: abs_mult power_add)
  also have "\<dots> < 2 ^ 278 * 2 ^ 925"
    using kb by (rule mult_strict_right_mono) simp
  also have "\<dots> \<le> (2 ^ 2098 :: int)"
    by (simp only: flip: power_add) (rule power_increasing, simp_all)
  finally have b: "\<bar>k\<bar> * 2 ^ (j + 925) < 2 ^ 2098" .
  note wa = f64_of_f32_exact [OF assms(1)] and wb = f64_of_f32_exact [OF assms(2)]
  have sum: "f64_units (f64_of_f32 a) + f64_units (f64_of_f32 b) = k * 2 ^ (j + 925)"
    unfolding wa(2) wb(2) using k by (simp add: power_add flip: distrib_right)
  note add = f64_add_exact [OF wa(1) wb(1) sum k53 b]
  have two: "k * 2 ^ (j + 925) = 2 * (k * 2 ^ (j + 924))"
    by (simp flip: power_Suc)
  note half = f64_half_exact [OF add(1) add(2) [unfolded two] k53]
  show "f64_is_finite mid"
    unfolding mid_def midpoint_def f64_two_def by (rule half(1))
  show "f64_units mid = (f32_units a + f32_units b) * 2 ^ 924"
    unfolding mid_def midpoint_def f64_two_def half(2) k by (simp add: power_add)
qed

lemma threshold_separates:
  assumes a: "f32_is_finite a" and b: "f32_is_finite b" and ab: "f32_lt a b" and e: "exact_sum a b"
    and x: "f32_is_finite x"
  shows "f32_le (threshold_between a b) x \<longleftrightarrow> f32_units a + f32_units b \<le> 2 * f32_units x"
proof -
  define mid where "mid = midpoint (f64_of_f32 a) (f64_of_f32 b)"
  define n where "n = f32_of_f64 mid"
  define s where "s = f32_units a + f32_units b"
  note m = midpoint_exact [OF a b e, folded mid_def s_def]
  have scale: "(2 * u) * 2 ^ 924 = u * 2 ^ 925" for u :: int
    by (simp flip: power_Suc)
  have up: "s * 2 ^ 924 \<le> u * 2 ^ 925 \<longleftrightarrow> s \<le> 2 * u" and down: "u * 2 ^ 925 \<le> s * 2 ^ 924 \<longleftrightarrow> 2 * u \<le> s" for u
    unfolding scale [of u, symmetric] by simp_all
  have hi: "s \<le> 2 * f32_units y \<Longrightarrow> f32_key n \<le> f32_key y" if "f32_is_finite y" for y
    unfolding n_def using m that by (intro narrow_le) (simp_all only: up)
  have lo: "2 * f32_units y \<le> s \<Longrightarrow> f32_key y \<le> f32_key n" if "f32_is_finite y" for y
    unfolding n_def using m that by (intro narrow_ge) (simp_all only: down)
  have u: "f32_units a < f32_units b"
    using ab f32_lt_units [OF a b] by simp
  have nan: "\<not> f32_is_nan n"
    unfolding n_def by (rule narrow_fields(1) [OF m(1)])
  have n: "f32_is_finite n"
    using u by (intro f32_finite_between [OF a b nan] lo hi a b) (simp_all add: s_def)
  note wn = f64_of_f32_exact [OF n]
  have lt: "f64_lt (f64_of_f32 n) mid \<longleftrightarrow> 2 * f32_units n < s"
    unfolding f64_lt_units [OF wn(1) m(1)] wn(2) m(2) using up [of "f32_units n"] by linarith
  have t: "threshold_between a b = (if 2 * f32_units n < s then f32_next_up n else n)"
    by (simp add: threshold_between_def Let_def lt flip: mid_def n_def)
  note ku = f32_key_units
  show ?thesis
  proof (cases "2 * f32_units n < s")
    case True
    note nu = next_up_key [OF n]
    have "f32_le (threshold_between a b) x \<longleftrightarrow> \<not> f32_key x \<le> f32_key n"
      using True f32_le_key_iff [OF x nu(2)] nu(1) by (auto simp: t)
    also have "\<dots> \<longleftrightarrow> s \<le> 2 * f32_units x"
      using lo [OF x] ku [of x n] True by linarith
    finally show ?thesis
      by (simp add: s_def)
  next
    case False
    have "f32_le (threshold_between a b) x \<longleftrightarrow> f32_key n \<le> f32_key x"
      using False f32_le_key_iff [OF x nan] by (simp add: t)
    also have "\<dots> \<longleftrightarrow> s \<le> 2 * f32_units x"
      using hi [OF x] ku [of n x] False by linarith
    finally show ?thesis
      by (simp add: s_def)
  qed
qed

text \<open>A count of passed thresholds is the index of a nearest point.\<close>

lemma nearest_by_count:
  fixes c :: "nat \<Rightarrow> int" and x :: int
  assumes asc: "\<And>i j. i < j \<Longrightarrow> j < N \<Longrightarrow> c i < c j" and N: "0 < N"
  defines "i \<equiv> length (filter (\<lambda>k. c k + c (Suc k) \<le> 2 * x) [0..<N - 1])"
  shows "i < N" "j < N \<Longrightarrow> \<bar>x - c i\<bar> \<le> \<bar>x - c j\<bar>"
proof -
  let ?P = "\<lambda>k. c k + c (Suc k) \<le> 2 * x"
  have mono: "c k \<le> c k'" if "k \<le> k'" "k' < N" for k k'
    using that asc [of k k'] by (cases "k = k'") (simp_all add: order_less_imp_le)
  have down: "?P k" if "?P k'" "k \<le> k'" "k' < N - 1" for k k'
  proof -
    have "c k \<le> c k'" "c (Suc k) \<le> c (Suc k')"
      using that by (intro mono; simp)+
    then show ?thesis
      using that(1) by linarith
  qed
  have "\<exists>m \<le> n. filter ?P [0..<n] = [0..<m] \<and> (m < n \<longrightarrow> \<not> ?P m)" if "n \<le> N - 1" for n
    using that
  proof (induction n)
    case (Suc n)
    then obtain m where m: "m \<le> n" "filter ?P [0..<n] = [0..<m]" "m < n \<longrightarrow> \<not> ?P m"
      by auto
    show ?case
    proof (cases "?P n")
      case True
      then have "m = n"
        using m down [of n m] Suc.prems by (metis Suc_le_lessD le_neq_implies_less)
      then show ?thesis
        using True m by (intro exI [of _ "Suc n"]) simp
    next
      case False
      then show ?thesis
        using m by (intro exI [of _ m]) (auto simp: less_Suc_eq)
    qed
  qed simp
  then obtain m where m: "m \<le> N - 1" "filter ?P [0..<N - 1] = [0..<m]" "m < N - 1 \<longrightarrow> \<not> ?P m"
    by blast
  then have i: "i = m"
    by (simp add: i_def)
  show "i < N"
    using m(1) N i by simp
  show "\<bar>x - c i\<bar> \<le> \<bar>x - c j\<bar>" if "j < N"
  proof (cases j i rule: linorder_cases)
    case less
    then have "i - 1 \<in> set (filter ?P [0..<N - 1])"
      using m(2) i by simp
    then have p: "c (i - 1) + c i \<le> 2 * x"
      using less by auto
    have "c j \<le> c (i - 1)" "c j < c i"
      using less \<open>i < N\<close> by (auto intro: mono asc)
    then show ?thesis
      using p by linarith
  next
    case greater
    then have "\<not> ?P i"
      using m(3) i that by simp
    moreover have "c (Suc i) \<le> c j" "c i < c j"
      using greater that by (auto intro: mono asc)
    ultimately show ?thesis
      by linarith
  qed simp
qed

lemma sum_list_indicator: "sum_list (map (\<lambda>t. if P t then 1 else 0) ts) = (of_nat (length (filter P ts)) :: u8)"
  by (induction ts) simp_all

lemma windows2_upt: "windows2 xs = map (\<lambda>k. (xs ! k, xs ! Suc k)) [0..<length xs - 1]"
  by (rule nth_equalityI) (auto simp: windows2_def nth_tl)

lemma codebook_encode_count:
  assumes ok: "codebook_ok cb" and e: "list_all (\<lambda>(a, b). exact_sum a b) (windows2 (cb_centroids cb))"
    and x: "f32_is_finite x"
  defines "c \<equiv> \<lambda>k. f32_units (cb_centroids cb ! k)"
  shows "unat (codebook_encode cb x) = length (filter (\<lambda>k. c k + c (Suc k) \<le> 2 * f32_units x) [0..<length (cb_centroids cb) - 1])"
proof -
  define cs where "cs = cb_centroids cb"
  have cb: "cb = from_centroids (cb_dim cb) (cb_bits cb) cs"
    using ok by (simp add: codebook_ok_def cs_def)
  have "cb_thresholds cb = cb_thresholds (from_centroids (cb_dim cb) (cb_bits cb) cs)"
    using arg_cong [OF cb, of cb_thresholds] .
  then have t: "cb_thresholds cb = map (\<lambda>k. threshold_between (cs ! k) (cs ! Suc k)) [0..<length cs - 1]"
    by (simp add: from_centroids_def windows2_upt)
  have le: "f32_le (threshold_between (cs ! k) (cs ! Suc k)) x \<longleftrightarrow> c k + c (Suc k) \<le> 2 * f32_units x"
    if "k < length cs - 1" for k
    unfolding c_def cs_def [symmetric]
  proof (rule threshold_separates [OF _ _ _ _ x])
    show "f32_is_finite (cs ! k)" "f32_is_finite (cs ! Suc k)"
      using ok that by (simp_all add: codebook_ok_def list_all_length cs_def)
    show "f32_lt (cs ! k) (cs ! Suc k)"
      using ok that by (simp add: codebook_ok_def is_ascending_def windows2_upt cs_def list_all_iff)
    show "exact_sum (cs ! k) (cs ! Suc k)"
      using e that by (simp add: windows2_upt cs_def list_all_iff)
  qed
  have "filter (\<lambda>t. f32_le t x) (cb_thresholds cb) =
      map (\<lambda>k. threshold_between (cs ! k) (cs ! Suc k))
        (filter (\<lambda>k. c k + c (Suc k) \<le> 2 * f32_units x) [0..<length cs - 1])"
    unfolding t filter_map o_def by (intro arg_cong [where f = "map _"] filter_cong) (simp_all add: le)
  then have n: "length (filter (\<lambda>t. f32_le t x) (cb_thresholds cb)) =
      length (filter (\<lambda>k. c k + c (Suc k) \<le> 2 * f32_units x) [0..<length cs - 1])"
    by simp
  have "unat (cb_bits cb) \<le> 4"
    using ok by (simp add: codebook_ok_def word_le_nat_alt)
  then have "length cs \<le> 2 ^ 4"
    using ok power_increasing [of "unat (cb_bits cb)" 4 "2::nat"] by (simp add: codebook_ok_def cs_def)
  moreover have "length (filter (\<lambda>k. c k + c (Suc k) \<le> 2 * f32_units x) [0..<length cs - 1]) \<le> length cs - 1"
    using length_filter_le [of _ "[0..<length cs - 1]"] by simp
  ultimately show ?thesis
    by (simp add: codebook_encode_def sum_list_indicator n unat_of_nat take_bit_nat_eq_self flip: cs_def)
qed

text \<open>
  For every codebook a file can hold, as long as \<^verbatim>\<open>f64\<close> holds the sums of
  adjacent centroids, encoding a finite number and decoding the index gives a centroid at
  least distance from it; distances are exact, in units of the smallest \<^verbatim>\<open>f32\<close>, and decoding
  never panics.
\<close>

theorem encode_nearest:
  assumes "codebook_ok cb" and "list_all (\<lambda>(a, b). exact_sum a b) (windows2 (cb_centroids cb))"
    and "f32_is_finite x"
  shows "\<exists>c. codebook_decode cb (codebook_encode cb x) = Some c \<and>
    (\<forall>c' \<in> set (cb_centroids cb). \<bar>f32_units x - f32_units c\<bar> \<le> \<bar>f32_units x - f32_units c'\<bar>)"
proof -
  define cs where "cs = cb_centroids cb"
  define c where "c k = f32_units (cs ! k)" for k
  define i where "i = unat (codebook_encode cb x)"
  have "length cs = 2 ^ unat (cb_bits cb)"
    using assms(1) by (simp add: codebook_ok_def cs_def)
  then have N: "0 < length cs"
    by simp
  have fin: "f32_is_finite (cs ! k)" if "k < length cs" for k
    using assms(1) that by (simp add: codebook_ok_def list_all_length cs_def)
  have step: "c k < c (Suc k)" if "Suc k < length cs" for k
  proof -
    have "is_ascending cs" and k: "k < length cs - 1"
      using assms(1) that by (simp_all add: codebook_ok_def cs_def)
    then have "f32_lt (cs ! k) (cs ! Suc k)"
      by (simp add: is_ascending_def windows2_upt list_all_iff)
    then show ?thesis
      using fin [of k] fin [of "Suc k"] that by (simp add: c_def f32_lt_units)
  qed
  have asc: "c k < c k'" if "k < k'" "k' < length cs" for k k'
    using that
  proof (induction k')
    case (Suc k')
    then show ?case
      using step [of k'] by (cases "k = k'") (auto intro: less_trans)
  qed simp
  note near = nearest_by_count [where N = "length cs" and c = c and x = "f32_units x", OF asc N]
  have i: "i = length (filter (\<lambda>k. c k + c (Suc k) \<le> 2 * f32_units x) [0..<length cs - 1])"
    unfolding i_def c_def cs_def by (rule codebook_encode_count [OF assms])
  have "codebook_decode cb (codebook_encode cb x) = Some (cs ! i)"
    using near(1) by (simp add: codebook_decode_def i flip: cs_def i_def)
  moreover have "\<bar>f32_units x - f32_units (cs ! i)\<bar> \<le> \<bar>f32_units x - f32_units c'\<bar>" if "c' \<in> set cs" for c'
    using that near(2) by (auto simp: in_set_conv_nth i c_def)
  ultimately show ?thesis
    unfolding cs_def by blast
qed

section \<open>The committed codebook rounds to the nearest centroid\<close>

lemma committed_centroids: "D512_B2_CENTROIDS = [0xBD8896D1, 0xBCA3E502, 0x3CA3E502, 0x3D8896D1]"
  by (simp add: D512_B2_CENTROIDS_def f32_literal_def f32_neg_def fl_eval)

lemma committed_ok:
  assumes "committed d bits = Some cb"
  shows "codebook_ok cb" "list_all (\<lambda>(a, b). exact_sum a b) (windows2 (cb_centroids cb))"
    "cb_dim cb = 512" "cb_bits cb = 2" "length (cb_centroids cb) = 4"
proof -
  have cb: "cb = from_centroids 512 2 D512_B2_CENTROIDS"
    using assms by (auto simp: committed_def split: if_splits)
  show "codebook_ok cb"
    unfolding cb codebook_ok_def
    by (simp add: from_centroids_def committed_centroids is_ascending_def windows2_def fl_eval)
  show "list_all (\<lambda>(a, b). exact_sum a b) (windows2 (cb_centroids cb))"
  proof -
    have "exact_sum 0xBD8896D1 0xBCA3E502" "exact_sum 0xBCA3E502 0x3CA3E502" "exact_sum 0x3CA3E502 0x3D8896D1"
      by (rule exact_sumI [of 120]; simp add: f32_units_def fl_eval)+
    then show ?thesis
      unfolding cb by (simp add: from_centroids_def committed_centroids windows2_def)
  qed
  show "cb_dim cb = 512" "cb_bits cb = 2" "length (cb_centroids cb) = 4"
    unfolding cb by (simp_all add: from_centroids_def D512_B2_CENTROIDS_def)
qed

lemma encode_nearest_witness:
  "\<exists>c. codebook_decode (from_centroids 512 2 D512_B2_CENTROIDS)
        (codebook_encode (from_centroids 512 2 D512_B2_CENTROIDS) 0x3D319031) = Some c \<and>
    (\<forall>c' \<in> set (cb_centroids (from_centroids 512 2 D512_B2_CENTROIDS)).
       \<bar>f32_units 0x3D319031 - f32_units c\<bar> \<le> \<bar>f32_units 0x3D319031 - f32_units c'\<bar>)"
proof (rule encode_nearest)
  have c: "committed 512 2 = Some (from_centroids 512 2 D512_B2_CENTROIDS)"
    by (simp add: committed_def)
  show "codebook_ok (from_centroids 512 2 D512_B2_CENTROIDS)"
      "list_all (\<lambda>(a, b). exact_sum a b) (windows2 (cb_centroids (from_centroids 512 2 D512_B2_CENTROIDS)))"
    by (rule committed_ok [OF c])+
  show "f32_is_finite 0x3D319031"
    by (simp add: fl_eval)
qed

end
