(* ===== verification/Lloyd_Max.thy ===== *)
theory Lloyd_Max
  imports Codebook
begin

text \<open>
  The offline Lloyd-Max solver (\<^verbatim>\<open>LloydMaxSolution\<close> and \<^verbatim>\<open>CoordinateDensity\<close> in
  \<^verbatim>\<open>src/index/codebook.rs\<close>), in \<^verbatim>\<open>f64\<close> arithmetic.  The functions of crate \<^verbatim>\<open>libm\<close> are a
  record of arguments.
\<close>


section \<open>The density of a coordinate\<close>

record libm =
  lm_asin :: "f64 \<Rightarrow> f64"
  lm_sin :: "f64 \<Rightarrow> f64"
  lm_log1p :: "f64 \<Rightarrow> f64"
  lm_exp :: "f64 \<Rightarrow> f64"

definition f64_one :: f64 where "f64_one = 0x3FF0000000000000"
definition FRAC_PI_2 :: f64 where "FRAC_PI_2 = 0x3FF921FB54442D18"

definition GAUSSIAN_POSITIVE_LEVELS :: "f64 list list" where
  "GAUSSIAN_POSITIVE_LEVELS =
     [[f64_literal 7978845608 (10 ^ 10)],
      [f64_literal 4527800346 (10 ^ 10), f64_literal 1510417608 (10 ^ 9)],
      [f64_literal 2450941789 (10 ^ 10), f64_literal 7560052812 (10 ^ 10),
       f64_literal 1343909279 (10 ^ 9), f64_literal 2151945705 (10 ^ 9)],
      [f64_literal 1283950299 (10 ^ 10), f64_literal 3880482995 (10 ^ 10), f64_literal 6567591185 (10 ^ 10),
       f64_literal 9423404565 (10 ^ 10), f64_literal 1256231197 (10 ^ 9), f64_literal 1618046386 (10 ^ 9),
       f64_literal 2069017227 (10 ^ 9), f64_literal 2732589571 (10 ^ 9)]]"

definition CONVERGENCE_TOLERANCE :: f64 where "CONVERGENCE_TOLERANCE = f64_literal 1 (10 ^ 13)"
definition MAX_ITERATIONS :: nat where "MAX_ITERATIONS = 10000"

definition GAUSS_LEGENDRE_8 :: "(f64 \<times> f64) list" where
  "GAUSS_LEGENDRE_8 =
     [(f64_literal 1834346424956498 (10 ^ 16), f64_literal 362683783378362 (10 ^ 15)),
      (f64_literal 525532409916329 (10 ^ 15), f64_literal 31370664587788727 (10 ^ 17)),
      (f64_literal 7966664774136267 (10 ^ 16), f64_literal 22238103445337448 (10 ^ 17)),
      (f64_literal 9602898564975363 (10 ^ 16), f64_literal 10122853629037626 (10 ^ 17))]"

definition PANELS_PER_CELL :: nat where "PANELS_PER_CELL = 16"
definition THETA_CUTOFF_SCALE :: f64 where "THETA_CUTOFF_SCALE = f64_of_nat 12"

record coordinate_density =
  cd_half_exponent :: f64
  cd_normalization :: f64
  cd_theta_max :: f64

definition density_at :: "libm \<Rightarrow> coordinate_density \<Rightarrow> f64 \<Rightarrow> f64" where
  "density_at lm cd x =
     lm_exp lm (f64_mul (cd_half_exponent cd) (lm_log1p lm (f64_mul (f64_neg x) x)))"

definition panel_sum ::
  "libm \<Rightarrow> coordinate_density \<Rightarrow> (f64 \<Rightarrow> f64) \<Rightarrow> f64 \<Rightarrow> f64 \<Rightarrow> f64 \<Rightarrow> f64" where
  "panel_sum lm cd g center half_width acc =
     foldl (\<lambda>acc (node, weight).
         foldl (\<lambda>acc theta.
             let x = lm_sin lm theta
             in f64_add acc (f64_mul (f64_mul weight (g x)) (density_at lm cd x)))
           acc [f64_sub center (f64_mul node half_width), f64_add center (f64_mul node half_width)])
       acc GAUSS_LEGENDRE_8"

definition integrate :: "libm \<Rightarrow> coordinate_density \<Rightarrow> f64 \<Rightarrow> f64 \<Rightarrow> (f64 \<Rightarrow> f64) \<Rightarrow> f64" where
  "integrate lm cd lo hi g =
     (let half_width = f64_div (f64_sub hi lo) (f64_of_nat (2 * PANELS_PER_CELL));
          total = foldl (\<lambda>acc panel.
              panel_sum lm cd g (f64_add lo (f64_mul (f64_of_nat (2 * panel + 1)) half_width)) half_width acc)
            0 [0..<PANELS_PER_CELL]
      in f64_mul (f64_mul (cd_normalization cd) half_width) total)"

definition density_new :: "libm \<Rightarrow> u32 \<Rightarrow> coordinate_density" where
  "density_new lm n =
     (let d = f64_of_nat (unat n); d2 = f64_sub d f64_two;
          cd = \<lparr> cd_half_exponent = f64_div d2 f64_two, cd_normalization = f64_one,
                 cd_theta_max = f64_min (f64_div THETA_CUTOFF_SCALE (f64_sqrt d2)) FRAC_PI_2 \<rparr>
      in cd\<lparr> cd_normalization :=
               f64_div f64_one (f64_mul f64_two (integrate lm cd 0 (cd_theta_max cd) (\<lambda>_. f64_one))) \<rparr>)"

definition positive_cells :: "libm \<Rightarrow> coordinate_density \<Rightarrow> f64 list \<Rightarrow> f64 list" where
  "positive_cells lm cd positive =
     0 # map (\<lambda>(a, b). lm_asin lm (midpoint a b)) (windows2 positive) @ [cd_theta_max cd]"


section \<open>Lloyd's algorithm\<close>

definition lloyd_step :: "libm \<Rightarrow> coordinate_density \<Rightarrow> f64 list \<Rightarrow> f64 list" where
  "lloyd_step lm cd positive =
     map (\<lambda>(lo, hi). f64_div (integrate lm cd lo hi (\<lambda>x. x)) (integrate lm cd lo hi (\<lambda>_. f64_one)))
       (windows2 (positive_cells lm cd positive))"

definition largest_shift :: "f64 list \<Rightarrow> f64 list \<Rightarrow> f64" where
  "largest_shift new old = foldl f64_max 0 (map2 (\<lambda>a b. f64_abs (f64_sub a b)) new old)"

text \<open>The loop gives up (it panics, \<^term>\<open>None\<close>) after \<^const>\<open>MAX_ITERATIONS\<close> iterations.\<close>

function lloyd_loop ::
  "libm \<Rightarrow> coordinate_density \<Rightarrow> f64 \<Rightarrow> f64 list \<Rightarrow> nat \<Rightarrow> (f64 list \<times> nat) option" where
  "lloyd_loop lm cd tolerance positive iterations =
     (let next_levels = lloyd_step lm cd positive;
          shift = largest_shift next_levels positive;
          iterations' = iterations + 1
      in if f64_le shift tolerance then Some (next_levels, iterations')
         else if iterations' < MAX_ITERATIONS then lloyd_loop lm cd tolerance next_levels iterations'
         else None)"
  by pat_completeness auto

termination
  by (relation "measure (\<lambda>(_, _, _, _, n). MAX_ITERATIONS - n)") (auto simp: MAX_ITERATIONS_def)

declare lloyd_loop.simps [simp del]

record lloyd_max_solution =
  sol_dim :: u32
  sol_bits :: u8
  sol_centroids :: "f64 list"
  sol_thresholds :: "f64 list"
  sol_coordinate_mse :: f64
  sol_iterations :: nat

definition start_levels :: "u32 \<Rightarrow> u8 \<Rightarrow> f64 list" where
  "start_levels n bits =
     (let sigma = f64_div f64_one (f64_sqrt (f64_of_nat (unat n)));
          gaussian = GAUSSIAN_POSITIVE_LEVELS ! (unat bits - 1);
          scale = f64_min sigma (f64_div f64_one (last gaussian))
      in map (\<lambda>level. f64_mul level scale) gaussian)"

definition solution_mse :: "libm \<Rightarrow> coordinate_density \<Rightarrow> f64 list \<Rightarrow> f64" where
  "solution_mse lm cd positive =
     f64_mul f64_two
       (f64_sum (map2 (\<lambda>(lo, hi) centroid.
            integrate lm cd lo hi (\<lambda>x. f64_mul (f64_sub x centroid) (f64_sub x centroid)))
          (windows2 (positive_cells lm cd positive)) positive))"

definition solve :: "libm \<Rightarrow> u32 \<Rightarrow> u8 \<Rightarrow> lloyd_max_solution option" where
  "solve lm n bits =
     (if \<not> (3 \<le> n \<and> 1 \<le> bits \<and> bits \<le> 4) then None
      else
        let cd = density_new lm n;
            tolerance = f64_mul CONVERGENCE_TOLERANCE (f64_div f64_one (f64_sqrt (f64_of_nat (unat n))))
        in map_option (\<lambda>(positive, iterations).
             let centroids = map f64_neg (rev positive) @ positive
             in \<lparr> sol_dim = n, sol_bits = bits, sol_centroids = centroids,
                  sol_thresholds = map (\<lambda>(a, b). midpoint a b) (windows2 centroids),
                  sol_coordinate_mse = solution_mse lm cd positive, sol_iterations = iterations \<rparr>)
             (lloyd_loop lm cd tolerance (start_levels n bits) 0))"

definition distortion :: "lloyd_max_solution \<Rightarrow> f64" where
  "distortion s = f64_mul (f64_of_nat (unat (sol_dim s))) (sol_coordinate_mse s)"

definition to_codebook :: "lloyd_max_solution \<Rightarrow> lloyd_max_codebook" where
  "to_codebook s = from_centroids (sol_dim s) (sol_bits s) (map f32_of_f64 (sol_centroids s))"


section \<open>What a solution looks like\<close>

lemma length_windows2 [simp]: "length (windows2 xs) = length xs - 1"
  by (simp add: windows2_def)

lemma length_lloyd_step: "positive \<noteq> [] \<Longrightarrow> length (lloyd_step lm cd positive) = length positive"
  by (cases positive) (simp_all add: lloyd_step_def positive_cells_def)

lemma lloyd_loop_result:
  "lloyd_loop lm cd tol positive n = Some (out, k) \<Longrightarrow> positive \<noteq> [] \<Longrightarrow>
     length out = length positive \<and> n < k \<and> (n < MAX_ITERATIONS \<longrightarrow> k \<le> MAX_ITERATIONS)"
proof (induction lm cd tol positive n arbitrary: out k rule: lloyd_loop.induct)
  case (1 lm cd tol positive n)
  define nx where "nx = lloyd_step lm cd positive"
  have l: "length nx = length positive"
    using length_lloyd_step [OF "1.prems"(2)] by (simp add: nx_def)
  show ?case
  proof (cases "f64_le (largest_shift nx positive) tol")
    case True
    then have "out = nx" "k = n + 1"
      using "1.prems"(1) by (subst (asm) lloyd_loop.simps, simp add: Let_def nx_def)+
    then show ?thesis
      using l by (simp add: MAX_ITERATIONS_def)
  next
    case False
    then have m: "n + 1 < MAX_ITERATIONS" and r: "lloyd_loop lm cd tol nx (n + 1) = Some (out, k)"
      using "1.prems"(1) by (subst (asm) lloyd_loop.simps, simp add: Let_def nx_def split: if_splits)+
    have "nx \<noteq> []"
      using l "1.prems"(2) by auto
    then show ?thesis
      using "1.IH" [OF refl refl refl] False m r l by (simp add: nx_def)
  qed
qed

lemma length_start_levels:
  assumes "1 \<le> bits" "bits \<le> 4"
  shows "length (start_levels n bits) = 2 ^ (unat bits - 1)"
proof -
  have "unat bits = 1 \<or> unat bits = 2 \<or> unat bits = 3 \<or> unat bits = 4"
    using assms by (simp add: word_le_nat_alt) linarith
  then show ?thesis
    by (auto simp: start_levels_def GAUSSIAN_POSITIVE_LEVELS_def Let_def)
qed

text \<open>
  The solver mirrors the positive half, so a solution is exactly symmetric, with a centroid
  for every index, after at most \<^const>\<open>MAX_ITERATIONS\<close> iterations.
\<close>

lemma solve_symmetric:
  assumes "solve lm n bits = Some s"
  shows "rev (map f64_neg (sol_centroids s)) = sol_centroids s"
    and "length (sol_centroids s) = 2 ^ unat bits"
    and "length (sol_thresholds s) = 2 ^ unat bits - 1"
    and "sol_iterations s \<le> MAX_ITERATIONS"
proof -
  have b: "1 \<le> bits" "bits \<le> 4"
    using assms by (auto simp: solve_def split: if_splits)
  obtain cd tol positive k where l: "lloyd_loop lm cd tol (start_levels n bits) 0 = Some (positive, k)"
    and c: "sol_centroids s = map f64_neg (rev positive) @ positive" "sol_iterations s = k"
    and t: "sol_thresholds s = map (\<lambda>(a, b). midpoint a b) (windows2 (sol_centroids s))"
    using assms by (auto simp: solve_def Let_def split: if_splits)
  have "start_levels n bits \<noteq> []"
    using length_start_levels [OF b, of n] by (metis list.size(3) power_not_zero zero_neq_numeral)
  note r = lloyd_loop_result [OF l this]
  have p: "length positive = 2 ^ (unat bits - 1)"
    using r length_start_levels [OF b] by simp
  show "rev (map f64_neg (sol_centroids s)) = sol_centroids s"
    unfolding c by (simp add: rev_map o_def)
  have "1 \<le> unat bits"
    using b by (simp add: word_le_nat_alt)
  then have "2 ^ unat bits = 2 * (2 ^ (unat bits - 1) :: nat)"
    by (simp flip: power_Suc)
  then show len: "length (sol_centroids s) = 2 ^ unat bits"
    unfolding c using p by simp
  show "length (sol_thresholds s) = 2 ^ unat bits - 1"
    unfolding t using len by simp
  show "sol_iterations s \<le> MAX_ITERATIONS"
    using r c by (simp add: MAX_ITERATIONS_def)
qed

end
