(* ===== verification/Image_Format.thy ===== *)
theory Image_Format
  imports Codec_Config
begin

text \<open>
  The binary layouts of a static index image: the header of \<^verbatim>\<open>turbo_static.bin\<close>
  (\<^verbatim>\<open>src/index/header.rs\<close>), the fixed-size records (\<^verbatim>\<open>record.rs\<close>) and the metadata records
  (\<^verbatim>\<open>meta.rs\<close>, \<^verbatim>\<open>meta_ext.rs\<close>).  The source writes a record as its in-memory bytes and reads it
  back by a pointer cast; on the little-endian targets it builds for, both are the field
  offsets of \<^verbatim>\<open>repr(C)\<close>.
\<close>


section \<open>Header\<close>

definition TURBO_MAGIC :: blob where "TURBO_MAGIC = text_bytes ''TQNT''"

definition HEADER_SIZE :: nat where "HEADER_SIZE = 32"

record header_codec =
  hc_codec_id :: turbo_codec_id
  hc_fingerprint :: blob

record turbo_header =
  th_version :: u32
  th_dim :: u32
  th_record_count :: u64
  th_codec :: "header_codec option"

datatype header_error =
    HeaderInvalidSize nat nat
  | HeaderInvalidMagic blob
  | HeaderInvalidDim
  | UnsupportedVersion u32
  | UnsupportedLayout u32 u32
  | RecordCountOverflow u64
  | UnknownCodec u32
  | UnsupportedCodec u32 turbo_codec_id

datatype record_layout = V2Dim512 | V3Dim512 | V4Dim512

definition header_new :: "u32 \<Rightarrow> u64 \<Rightarrow> turbo_header option" where
  "header_new d n =
     (if 0 < d then Some \<lparr> th_version = TURBO_VERSION_V2, th_dim = d, th_record_count = n, th_codec = None \<rparr>
      else None)"

definition header_new_v3 :: "u32 \<Rightarrow> u64 \<Rightarrow> turbo_header option" where
  "header_new_v3 d n =
     (if 0 < d then Some \<lparr> th_version = TURBO_VERSION_V3, th_dim = d, th_record_count = n, th_codec = None \<rparr>
      else None)"

definition header_new_v4 :: "u32 \<Rightarrow> u64 \<Rightarrow> header_codec \<Rightarrow> turbo_header option" where
  "header_new_v4 d n codec =
     (if 0 < d then Some \<lparr> th_version = TURBO_VERSION_V4, th_dim = d, th_record_count = n, th_codec = Some codec \<rparr>
      else None)"

definition header_codec_id :: "turbo_header \<Rightarrow> turbo_codec_id option" where
  "header_codec_id h = map_option hc_codec_id (th_codec h)"

definition header_fingerprint :: "turbo_header \<Rightarrow> blob option" where
  "header_fingerprint h = map_option hc_fingerprint (th_codec h)"

definition layout_from_header :: "turbo_header \<Rightarrow> header_error + record_layout" where
  "layout_from_header h =
     (if th_version h = TURBO_VERSION_V2 \<and> th_dim h = 512 then Inr V2Dim512
      else if th_version h = TURBO_VERSION_V3 \<and> th_dim h = 512 then Inr V3Dim512
      else if th_version h = TURBO_VERSION_V4 \<and> th_dim h = 512 then
        (case header_codec_id h of
           Some TurboQuantProdV1 \<Rightarrow> Inr V4Dim512
         | Some codec_id \<Rightarrow> Inl (UnsupportedCodec TURBO_VERSION_V4 codec_id)
         | None \<Rightarrow> Inl (UnknownCodec 0))
      else Inl (UnsupportedLayout (th_version h) (th_dim h)))"

fun record_size :: "record_layout \<Rightarrow> nat" where
  "record_size V2Dim512 = 208"
| "record_size V3Dim512 = 208"
| "record_size V4Dim512 = 208"

definition checked_mul_u64 :: "nat \<Rightarrow> nat \<Rightarrow> nat option" where
  "checked_mul_u64 a b = (if a * b < 2 ^ 64 then Some (a * b) else None)"

definition checked_add_u64 :: "nat \<Rightarrow> nat \<Rightarrow> nat option" where
  "checked_add_u64 a b = (if a + b < 2 ^ 64 then Some (a + b) else None)"

definition expected_file_size :: "turbo_header \<Rightarrow> header_error + nat" where
  "expected_file_size h =
     and_then (layout_from_header h) (\<lambda>layout.
       ok_or (RecordCountOverflow (th_record_count h))
         (Option.bind (checked_mul_u64 (unat (th_record_count h)) (record_size layout))
            (\<lambda>records. checked_add_u64 records HEADER_SIZE)))"

definition header_to_bytes :: "turbo_header \<Rightarrow> blob" where
  "header_to_bytes h =
     TURBO_MAGIC @ u32_to_le (th_version h) @ u32_to_le (th_dim h) @ u64_to_le (th_record_count h) @
     (case th_codec h of
        Some codec \<Rightarrow> u32_to_le (codec_code (hc_codec_id codec)) @ hc_fingerprint codec
      | None \<Rightarrow> replicate 12 0)"

definition header_from_bytes :: "blob \<Rightarrow> header_error + turbo_header" where
  "header_from_bytes buf =
     (if length buf < HEADER_SIZE then Inl (HeaderInvalidSize HEADER_SIZE (length buf))
      else if span buf 0 4 \<noteq> TURBO_MAGIC then Inl (HeaderInvalidMagic (span buf 0 4))
      else
        let version = u32_from_le (span buf 4 4); d = u32_from_le (span buf 8 4);
            count = u64_from_le (span buf 12 8); code = u32_from_le (span buf 20 4)
        in if version \<notin> {TURBO_VERSION_V2, TURBO_VERSION_V3, TURBO_VERSION_V4}
             then Inl (UnsupportedVersion version)
           else if d = 0 then Inl HeaderInvalidDim
           else map_ok
             (\<lambda>codec. \<lparr> th_version = version, th_dim = d, th_record_count = count, th_codec = codec \<rparr>)
             (if version = TURBO_VERSION_V4 then
                map_ok (\<lambda>codec_id. Some \<lparr> hc_codec_id = codec_id, hc_fingerprint = span buf 24 8 \<rparr>)
                  (ok_or (UnknownCodec code) (codec_from_code code))
              else Inr None))"

text \<open>
  What a header in memory satisfies: the constructors and the parser leave nothing else.
\<close>

definition header_ok :: "turbo_header \<Rightarrow> bool" where
  "header_ok h \<longleftrightarrow>
     th_version h \<in> {TURBO_VERSION_V2, TURBO_VERSION_V3, TURBO_VERSION_V4} \<and> th_dim h \<noteq> 0 \<and>
     (th_codec h \<noteq> None \<longleftrightarrow> th_version h = TURBO_VERSION_V4) \<and>
     (\<forall>codec. th_codec h = Some codec \<longrightarrow> length (hc_fingerprint codec) = 8)"

lemma header_new_ok:
  "header_new d n = Some h \<Longrightarrow> header_ok h"
  "header_new_v3 d n = Some h \<Longrightarrow> header_ok h"
  "header_new_v4 d n codec = Some h \<Longrightarrow> length (hc_fingerprint codec) = 8 \<Longrightarrow> header_ok h"
  by (auto simp: header_new_def header_new_v3_def header_new_v4_def header_ok_def TURBO_VERSION_V2_def
      TURBO_VERSION_V3_def TURBO_VERSION_V4_def split: if_splits)

lemma length_header_to_bytes: "header_ok h \<Longrightarrow> length (header_to_bytes h) = HEADER_SIZE"
  by (auto simp: header_to_bytes_def header_ok_def TURBO_MAGIC_def HEADER_SIZE_def split: option.splits)

text \<open>The fields of a header in its bytes.\<close>

lemma header_bytes_fields:
  assumes "header_ok h"
  shows "span (header_to_bytes h) 0 4 = TURBO_MAGIC"
    and "span (header_to_bytes h) 4 4 = u32_to_le (th_version h)"
    and "span (header_to_bytes h) 8 4 = u32_to_le (th_dim h)"
    and "span (header_to_bytes h) 12 8 = u64_to_le (th_record_count h)"
    and "th_codec h = Some codec \<Longrightarrow> span (header_to_bytes h) 20 4 = u32_to_le (codec_code (hc_codec_id codec))"
    and "th_codec h = Some codec \<Longrightarrow> span (header_to_bytes h) 24 8 = hc_fingerprint codec"
  using assms by (auto simp: header_to_bytes_def header_ok_def TURBO_MAGIC_def span_def)

text \<open>The parser reads the fields and nothing else; a version below 4 ignores the last twelve bytes.\<close>

definition used_bytes :: "turbo_header \<Rightarrow> nat" where
  "used_bytes h = (if th_version h = TURBO_VERSION_V4 then 32 else 20)"

lemma header_from_bytes_fields:
  "header_from_bytes b = Inr h \<longleftrightarrow>
     32 \<le> length b \<and> span b 0 4 = TURBO_MAGIC \<and> th_version h = u32_from_le (span b 4 4) \<and>
     th_dim h = u32_from_le (span b 8 4) \<and> th_record_count h = u64_from_le (span b 12 8) \<and>
     th_version h \<in> {TURBO_VERSION_V2, TURBO_VERSION_V3, TURBO_VERSION_V4} \<and> th_dim h \<noteq> 0 \<and>
     (if th_version h = TURBO_VERSION_V4
      then \<exists>codec. th_codec h = Some codec \<and> u32_from_le (span b 20 4) = codec_code (hc_codec_id codec) \<and>
             hc_fingerprint codec = span b 24 8
      else th_codec h = None)"
proof -
  obtain v d n c where h: "h = \<lparr> th_version = v, th_dim = d, th_record_count = n, th_codec = c \<rparr>"
    by (cases h)
  define v' d' n' x where "v' = u32_from_le (span b 4 4)" and "d' = u32_from_le (span b 8 4)"
    and "n' = u64_from_le (span b 12 8)" and "x = u32_from_le (span b 20 4)"
  have c4: "map_ok (\<lambda>codec_id. Some \<lparr> hc_codec_id = codec_id, hc_fingerprint = span b 24 8 \<rparr>)
        (ok_or (UnknownCodec x) (codec_from_code x)) = Inr c \<longleftrightarrow>
      (\<exists>codec. c = Some codec \<and> x = codec_code (hc_codec_id codec) \<and> hc_fingerprint codec = span b 24 8)"
  proof (cases "codec_from_code x")
    case None
    then have "x \<noteq> codec_code cid" for cid
      using codec_from_code_iff [of x cid] by simp
    then show ?thesis
      using None by (simp add: ok_or_def)
  next
    case (Some cid)
    then have "x = codec_code cid"
      by (simp add: codec_from_code_iff)
    then show ?thesis
      using Some by (cases c) (auto simp: ok_or_def intro!: header_codec.equality)
  qed
  show ?thesis
    unfolding header_from_bytes_def Let_def HEADER_SIZE_def h v'_def [symmetric] d'_def [symmetric]
      n'_def [symmetric] x_def [symmetric]
    using c4 by (auto simp: map_ok_Inr_iff)
qed

lemma span_take_eq:
  assumes "take n b = take n c" "a + k \<le> n"
  shows "span b a k = span c a k"
proof -
  have "take (a + k) b = take (a + k) c"
    using arg_cong [OF assms(1), of "take (a + k)"] assms(2) by (simp add: min_absorb1)
  then show ?thesis
    by (simp add: span_def take_drop add.commute)
qed

lemma take_eq_spans: "take (a + k) b = take a b @ span b a k"
  by (simp add: span_def take_add)

text \<open>
  Parsing accepts exactly the printed headers: a buffer parses to a header
  if and only if the header is one the constructors can build, the buffer holds at least 32
  bytes, and it agrees with the header's own bytes on everything the version uses (20 bytes, or
  all 32 in version 4).
\<close>

theorem header_parse_exact:
  "header_from_bytes b = Inr h \<longleftrightarrow>
     header_ok h \<and> HEADER_SIZE \<le> length b \<and>
     take (used_bytes h) b = take (used_bytes h) (header_to_bytes h)"
proof
  assume p: "header_from_bytes b = Inr h"
  note f = p [unfolded header_from_bytes_fields]
  have l: "length (span b a k) = k" if "a + k \<le> 32" for a k
    using f that by (intro length_span) linarith
  have ok: "header_ok h"
    using f l [of 24 8] by (auto simp: header_ok_def TURBO_VERSION_V2_def TURBO_VERSION_V3_def
        TURBO_VERSION_V4_def split: if_splits)
  have le: "u32_to_le (u32_from_le (span b a 4)) = span b a 4" if "a + 4 \<le> 32" for a
    using l [OF that] by (rule u32_to_from_le)
  have le8: "u64_to_le (u64_from_le (span b 12 8)) = span b 12 8"
    using l [of 12 8] by (intro u64_to_from_le) simp
  have s20: "take 20 xs = span xs 0 4 @ span xs 4 4 @ span xs 8 4 @ span xs 12 8" for xs :: blob
    using take_eq_spans [of 0 4 xs] take_eq_spans [of 4 4 xs] take_eq_spans [of 8 4 xs]
      take_eq_spans [of 12 8 xs] by simp
  have s32: "take 32 xs = take 20 xs @ span xs 20 4 @ span xs 24 8" for xs :: blob
    using take_eq_spans [of 20 4 xs] take_eq_spans [of 24 8 xs] by simp
  note bf = header_bytes_fields [OF ok]
  have t20: "take 20 b = take 20 (header_to_bytes h)"
    unfolding s20 using f bf(1-4) le [of 4] le [of 8] le8 by simp
  have "take (used_bytes h) b = take (used_bytes h) (header_to_bytes h)"
  proof (cases "th_version h = TURBO_VERSION_V4")
    case True
    then obtain codec where c: "th_codec h = Some codec"
        "u32_from_le (span b 20 4) = codec_code (hc_codec_id codec)" "hc_fingerprint codec = span b 24 8"
      using f by auto
    have "take 32 b = take 32 (header_to_bytes h)"
      unfolding s32 using t20 bf(5,6) [OF c(1)] c(2,3) le [of 20] by simp
    then show ?thesis
      using True by (simp add: used_bytes_def)
  next
    case False
    then show ?thesis
      using t20 by (simp add: used_bytes_def)
  qed
  then show "header_ok h \<and> HEADER_SIZE \<le> length b \<and>
      take (used_bytes h) b = take (used_bytes h) (header_to_bytes h)"
    using ok f by (simp add: HEADER_SIZE_def)
next
  assume a: "header_ok h \<and> HEADER_SIZE \<le> length b \<and>
      take (used_bytes h) b = take (used_bytes h) (header_to_bytes h)"
  then have ok: "header_ok h" and t: "take (used_bytes h) b = take (used_bytes h) (header_to_bytes h)"
    by blast+
  have u: "20 \<le> used_bytes h"
    by (simp add: used_bytes_def)
  note sp = span_take_eq [OF t] and bf = header_bytes_fields [OF ok]
  have "span b 0 4 = TURBO_MAGIC" "span b 4 4 = u32_to_le (th_version h)"
      "span b 8 4 = u32_to_le (th_dim h)" "span b 12 8 = u64_to_le (th_record_count h)"
    using sp [of 0 4] sp [of 4 4] sp [of 8 4] sp [of 12 8] u bf(1-4) by simp_all
  moreover have "\<exists>codec. th_codec h = Some codec \<and> u32_from_le (span b 20 4) = codec_code (hc_codec_id codec) \<and>
      hc_fingerprint codec = span b 24 8" if v: "th_version h = TURBO_VERSION_V4"
  proof -
    obtain codec where c: "th_codec h = Some codec"
      using ok v by (auto simp: header_ok_def)
    have "used_bytes h = 32"
      using v by (simp add: used_bytes_def)
    then show ?thesis
      using sp [of 20 4] sp [of 24 8] bf(5,6) [OF c] c by simp
  qed
  moreover have "th_codec h = None" if "th_version h \<noteq> TURBO_VERSION_V4"
    using ok that by (auto simp: header_ok_def)
  ultimately show "header_from_bytes b = Inr h"
    using a unfolding header_from_bytes_fields by (simp add: header_ok_def HEADER_SIZE_def)
qed


section \<open>Records\<close>

text \<open>
  The contract of a record type of the files: a record is written as a fixed number of bytes
  and read back from them.  A region of such records is an array.
\<close>

locale fixed_layout =
  fixes enc :: "'r \<Rightarrow> blob"
    and dec :: "blob \<Rightarrow> 'r"
    and width :: nat
    and ok :: "'r \<Rightarrow> bool"
  assumes enc_length: "ok r \<Longrightarrow> length (enc r) = width"
    and dec_enc: "ok r \<Longrightarrow> dec (enc r) = r"
    and width_pos: "0 < width"
begin

lemma region_length: "\<forall>r \<in> set rs. ok r \<Longrightarrow> length (concat (map enc rs)) = width * length rs"
  by (induction rs) (simp_all add: enc_length)

lemma region_span:
  assumes "\<forall>r \<in> set rs. ok r" "i < length rs"
  shows "span (concat (map enc rs)) (i * width) width = enc (rs ! i)"
proof -
  have "chunks_exact width (concat (map enc rs)) = map enc rs"
    using assms(1) width_pos by (intro chunks_exact_concat) (auto simp: enc_length)
  then show ?thesis
    using nth_chunks_exact [of i width "concat (map enc rs)"] assms(2) by simp
qed

lemma region_read:
  "\<forall>r \<in> set rs. ok r \<Longrightarrow> i < length rs \<Longrightarrow> dec (span (concat (map enc rs)) (i * width) width) = rs ! i"
  by (simp add: region_span dec_enc)

lemma region_slice:
  assumes "\<forall>r \<in> set rs. ok r" "i < length rs"
  shows "slice (concat (map enc rs)) (i * width) (i * width + width) = Some (enc (rs ! i))"
proof -
  have "(i + 1) * width \<le> length rs * width"
    using assms(2) by (intro mult_le_mono1) simp
  then show ?thesis
    using region_span [OF assms] region_length [OF assms(1)] by (simp add: slice_def algebra_simps)
qed

end

record turbo_record512 =
  tr_doc_id :: u64
  tr_idx :: blob
  tr_qjl :: blob
  tr_gamma :: f32
  tr_reserved :: blob

record turbo_prod_record512 =
  pr_doc_id :: u64
  pr_idx :: blob
  pr_signs :: blob
  pr_gamma :: f32
  pr_norm :: f32

definition turbo_record_bytes :: "turbo_record512 \<Rightarrow> blob" where
  "turbo_record_bytes r =
     u64_to_le (tr_doc_id r) @ tr_idx r @ tr_qjl r @ u32_to_le (tr_gamma r) @ tr_reserved r"

definition prod_record_bytes :: "turbo_prod_record512 \<Rightarrow> blob" where
  "prod_record_bytes r =
     u64_to_le (pr_doc_id r) @ pr_idx r @ pr_signs r @ u32_to_le (pr_gamma r) @ u32_to_le (pr_norm r)"

text \<open>The casts of a mapped region to a typed record.\<close>

definition turbo_record_cast :: "blob \<Rightarrow> turbo_record512" where
  "turbo_record_cast b =
     \<lparr> tr_doc_id = u64_from_le (span b 0 8), tr_idx = span b 8 128, tr_qjl = span b 136 64,
       tr_gamma = u32_from_le (span b 200 4), tr_reserved = span b 204 4 \<rparr>"

definition prod_record_cast :: "blob \<Rightarrow> turbo_prod_record512" where
  "prod_record_cast b =
     \<lparr> pr_doc_id = u64_from_le (span b 0 8), pr_idx = span b 8 128, pr_signs = span b 136 64,
       pr_gamma = u32_from_le (span b 200 4), pr_norm = u32_from_le (span b 204 4) \<rparr>"

definition turbo_record_ok :: "turbo_record512 \<Rightarrow> bool" where
  "turbo_record_ok r \<longleftrightarrow> length (tr_idx r) = 128 \<and> length (tr_qjl r) = 64 \<and> length (tr_reserved r) = 4"

definition prod_record_ok :: "turbo_prod_record512 \<Rightarrow> bool" where
  "prod_record_ok r \<longleftrightarrow> length (pr_idx r) = 128 \<and> length (pr_signs r) = 64"

interpretation turbo_layout: fixed_layout turbo_record_bytes turbo_record_cast 208 turbo_record_ok
proof
  fix r
  assume "turbo_record_ok r"
  then show "length (turbo_record_bytes r) = 208" "turbo_record_cast (turbo_record_bytes r) = r"
    by (simp_all add: turbo_record_ok_def turbo_record_bytes_def turbo_record_cast_def span_def)
qed simp

interpretation prod_layout: fixed_layout prod_record_bytes prod_record_cast 208 prod_record_ok
proof
  fix r
  assume "prod_record_ok r"
  then show "length (prod_record_bytes r) = 208" "prod_record_cast (prod_record_bytes r) = r"
    by (simp_all add: prod_record_ok_def prod_record_bytes_def prod_record_cast_def span_def)
qed simp

record field_ranges =
  fr_doc_id :: nat
  fr_idx :: "nat \<times> nat"
  fr_qjl :: "nat \<times> nat"
  fr_gamma :: nat
  fr_norm :: "nat option"

fun layout_fields :: "record_layout \<Rightarrow> field_ranges" where
  "layout_fields V2Dim512 = \<lparr> fr_doc_id = 0, fr_idx = (8, 136), fr_qjl = (136, 200), fr_gamma = 200, fr_norm = None \<rparr>"
| "layout_fields V3Dim512 = \<lparr> fr_doc_id = 0, fr_idx = (8, 136), fr_qjl = (136, 200), fr_gamma = 200, fr_norm = None \<rparr>"
| "layout_fields V4Dim512 = \<lparr> fr_doc_id = 0, fr_idx = (8, 136), fr_qjl = (136, 200), fr_gamma = 200, fr_norm = Some 204 \<rparr>"

record record_ref =
  ref_data :: blob
  ref_layout :: record_layout

definition record_ref_new :: "blob \<Rightarrow> record_layout \<Rightarrow> record_ref option" where
  "record_ref_new data layout =
     (if record_size layout \<le> length data then Some \<lparr> ref_data = data, ref_layout = layout \<rparr> else None)"

definition ref_doc_id :: "record_ref \<Rightarrow> u64 option" where
  "ref_doc_id r = (let start = fr_doc_id (layout_fields (ref_layout r))
                   in map_option u64_from_le (slice (ref_data r) start (start + 8)))"

definition ref_idx :: "record_ref \<Rightarrow> blob option" where
  "ref_idx r = (let (a, b) = fr_idx (layout_fields (ref_layout r)) in slice (ref_data r) a b)"

definition ref_qjl :: "record_ref \<Rightarrow> blob option" where
  "ref_qjl r = (let (a, b) = fr_qjl (layout_fields (ref_layout r)) in slice (ref_data r) a b)"

definition ref_gamma :: "record_ref \<Rightarrow> f32 option" where
  "ref_gamma r = (let start = fr_gamma (layout_fields (ref_layout r))
                  in map_option u32_from_le (slice (ref_data r) start (start + 4)))"

definition ref_norm :: "record_ref \<Rightarrow> f32 option option" where
  "ref_norm r = (case fr_norm (layout_fields (ref_layout r)) of
                   None \<Rightarrow> Some None
                 | Some start \<Rightarrow> map_option (\<lambda>b. Some (u32_from_le b)) (slice (ref_data r) start (start + 4)))"

text \<open>The byte view of a record and its typed view read the same fields, and neither panics.\<close>

lemma record_ref_typed:
  assumes "record_ref_new data layout = Some r"
  shows "ref_doc_id r = Some (tr_doc_id (turbo_record_cast data))"
    and "ref_idx r = Some (tr_idx (turbo_record_cast data))"
    and "ref_qjl r = Some (tr_qjl (turbo_record_cast data))"
    and "ref_gamma r = Some (tr_gamma (turbo_record_cast data))"
    and "ref_norm r = Some (if layout = V4Dim512 then Some (pr_norm (prod_record_cast data)) else None)"
  using assms
  by (cases layout; auto simp: record_ref_new_def ref_doc_id_def ref_idx_def ref_qjl_def ref_gamma_def ref_norm_def
      slice_def turbo_record_cast_def prod_record_cast_def Let_def split: if_splits)+


section \<open>Metadata records\<close>

definition META_RECORD_SIZE :: nat where "META_RECORD_SIZE = 40"

definition META_EXT_RECORD_SIZE :: nat where "META_EXT_RECORD_SIZE = 24"

record meta_record =
  mr_doc_id :: u64
  mr_text_offset :: u64
  mr_title_offset :: u64
  mr_text_len :: u32
  mr_title_len :: u32
  mr_corpus_type :: u8
  mr_pad :: blob

record meta_ext_record =
  me_docid_offset :: u64
  me_meta_json_offset :: u64
  me_docid_len :: u32
  me_meta_json_len :: u32

definition meta_record_bytes :: "meta_record \<Rightarrow> blob" where
  "meta_record_bytes m =
     u64_to_le (mr_doc_id m) @ u64_to_le (mr_text_offset m) @ u64_to_le (mr_title_offset m) @
     u32_to_le (mr_text_len m) @ u32_to_le (mr_title_len m) @ [mr_corpus_type m] @ mr_pad m"

definition meta_record_cast :: "blob \<Rightarrow> meta_record" where
  "meta_record_cast b =
     \<lparr> mr_doc_id = u64_from_le (span b 0 8), mr_text_offset = u64_from_le (span b 8 8),
       mr_title_offset = u64_from_le (span b 16 8), mr_text_len = u32_from_le (span b 24 4),
       mr_title_len = u32_from_le (span b 28 4), mr_corpus_type = b ! 32, mr_pad = span b 33 7 \<rparr>"

definition meta_ext_record_bytes :: "meta_ext_record \<Rightarrow> blob" where
  "meta_ext_record_bytes m =
     u64_to_le (me_docid_offset m) @ u64_to_le (me_meta_json_offset m) @
     u32_to_le (me_docid_len m) @ u32_to_le (me_meta_json_len m)"

definition meta_ext_record_cast :: "blob \<Rightarrow> meta_ext_record" where
  "meta_ext_record_cast b =
     \<lparr> me_docid_offset = u64_from_le (span b 0 8), me_meta_json_offset = u64_from_le (span b 8 8),
       me_docid_len = u32_from_le (span b 16 4), me_meta_json_len = u32_from_le (span b 20 4) \<rparr>"

interpretation meta_layout: fixed_layout meta_record_bytes meta_record_cast META_RECORD_SIZE "\<lambda>m. length (mr_pad m) = 7"
proof
  fix m :: meta_record
  assume "length (mr_pad m) = 7"
  then show "length (meta_record_bytes m) = META_RECORD_SIZE" "meta_record_cast (meta_record_bytes m) = m"
    by (simp_all add: meta_record_bytes_def meta_record_cast_def span_def META_RECORD_SIZE_def nth_append)
qed (simp add: META_RECORD_SIZE_def)

interpretation meta_ext_layout: fixed_layout meta_ext_record_bytes meta_ext_record_cast META_EXT_RECORD_SIZE "\<lambda>_. True"
proof
  fix m :: meta_ext_record
  show "length (meta_ext_record_bytes m) = META_EXT_RECORD_SIZE"
      "meta_ext_record_cast (meta_ext_record_bytes m) = m"
    by (simp_all add: meta_ext_record_bytes_def meta_ext_record_cast_def span_def META_EXT_RECORD_SIZE_def)
qed (simp add: META_EXT_RECORD_SIZE_def)

text \<open>
  The accessors index a blob without a check of their own; \<^term>\<open>None\<close> is the panic.  The sum
  of offset and length is taken at the width of \<^verbatim>\<open>usize\<close>.
\<close>

definition usize_add :: "nat \<Rightarrow> nat \<Rightarrow> nat" where
  "usize_add a b = (a + b) mod 2 ^ 64"

definition text_from_blob :: "meta_record \<Rightarrow> blob \<Rightarrow> (unit + string) option" where
  "text_from_blob m blob =
     (let start = unat (mr_text_offset m); end = usize_add start (unat (mr_text_len m))
      in map_option (\<lambda>b. ok_or () (from_utf8 b)) (slice blob start end))"

definition title_from_blob :: "meta_record \<Rightarrow> blob \<Rightarrow> (unit + string option) option" where
  "title_from_blob m blob =
     (if mr_title_len m = 0 then Some (Inr None)
      else let start = unat (mr_title_offset m); end = usize_add start (unat (mr_title_len m))
           in map_option (\<lambda>b. map_ok Some (ok_or () (from_utf8 b))) (slice blob start end))"

definition doc_id_from_blob :: "meta_ext_record \<Rightarrow> blob \<Rightarrow> (unit + string) option" where
  "doc_id_from_blob m blob =
     (let start = unat (me_docid_offset m); end = usize_add start (unat (me_docid_len m))
      in map_option (\<lambda>b. ok_or () (from_utf8 b)) (slice blob start end))"

definition metadata_json_from_blob :: "meta_ext_record \<Rightarrow> blob \<Rightarrow> (unit + string) option" where
  "metadata_json_from_blob m blob =
     (let start = unat (me_meta_json_offset m); end = usize_add start (unat (me_meta_json_len m))
      in map_option (\<lambda>b. ok_or () (from_utf8 b)) (slice blob start end))"

end
