(* ===== verification/Legacy_Codec.thy ===== *)
theory Legacy_Codec
  imports Image_Format Assets
begin

text \<open>
  The codec of version 2 and 3 indexes, \<^verbatim>\<open>Legacy3BitV1\<close> (\<^verbatim>\<open>src/index/turbo_codec.rs\<close>): two
  bits per dimension for the nearest centroid and one sign bit per projected residual, and
  the scoring of records with a prepared query.
\<close>


section \<open>Encoding\<close>

definition IDX_BITS_PER_DIM :: nat where "IDX_BITS_PER_DIM = 2"
definition IDX_MASK :: u8 where "IDX_MASK = 3"
definition EXPECTED_CENTROIDS_PER_DIM :: nat where "EXPECTED_CENTROIDS_PER_DIM = 4"
definition RECORD_512_DIM :: nat where "RECORD_512_DIM = 512"

record encoded_turbo_vector =
  ev_idx :: blob
  ev_qjl :: blob
  ev_gamma :: f32

definition validate_codec_inputs ::
  "nat \<Rightarrow> centroid_table \<Rightarrow> projection_matrix \<Rightarrow> asset_error + unit" where
  "validate_codec_inputs n centroids projection =
     (if unat (ct_dim centroids) \<noteq> n then Inl (DimensionMismatch n (unat (ct_dim centroids)))
      else if unat (ct_centroids_per_dim centroids) \<noteq> EXPECTED_CENTROIDS_PER_DIM
        then Inl (InvalidLayout EXPECTED_CENTROIDS_PER_DIM (unat (ct_centroids_per_dim centroids)))
      else if unat (pm_input_dim projection) \<noteq> n
        then Inl (DimensionMismatch n (unat (pm_input_dim projection)))
      else if unat (pm_output_dim projection) \<noteq> n
        then Inl (DimensionMismatch n (unat (pm_output_dim projection)))
      else Inr ())"

definition idx_len :: "nat \<Rightarrow> nat" where
  "idx_len n = (n * IDX_BITS_PER_DIM + 7) div 8"

definition qjl_len :: "nat \<Rightarrow> nat" where
  "qjl_len n = (n + 7) div 8"

text \<open>The best centroid so far: its index, value and distance.\<close>

definition nearer :: "f32 \<Rightarrow> nat \<times> f32 \<Rightarrow> nat \<times> f32 \<times> f32 \<Rightarrow> nat \<times> f32 \<times> f32" where
  "nearer value = (\<lambda>(index, candidate) (best_index, best_value, best_distance).
     let distance = f32_abs (f32_sub value candidate)
     in if f32_lt distance best_distance then (index, candidate, distance)
        else (best_index, best_value, best_distance))"

definition nearest_centroid :: "f32 \<Rightarrow> centroid_table \<Rightarrow> nat \<Rightarrow> nat \<times> f32" where
  "nearest_centroid value centroids n =
     (let values = span (ct_values centroids) (n * EXPECTED_CENTROIDS_PER_DIM) EXPECTED_CENTROIDS_PER_DIM;
          (index, best, _) = fold (nearer value) (tl (zip [0..<length values] values))
            (0, hd values, f32_abs (f32_sub value (hd values)))
      in (index, best))"

definition centroid_value :: "centroid_table \<Rightarrow> nat \<Rightarrow> nat \<Rightarrow> f32" where
  "centroid_value centroids n k = ct_values centroids ! (n * EXPECTED_CENTROIDS_PER_DIM + k)"

definition write_idx :: "nat \<Rightarrow> u8 \<Rightarrow> blob \<Rightarrow> blob" where
  "write_idx n index out =
     (let bit_offset = n * IDX_BITS_PER_DIM
      in or_byte out (bit_offset div 8) (push_bit (bit_offset mod 8) index))"

definition read_idx :: "blob \<Rightarrow> nat \<Rightarrow> u8" where
  "read_idx bytes n =
     (let bit_offset = n * IDX_BITS_PER_DIM
      in field_at bytes (bit_offset div 8) (bit_offset mod 8) IDX_MASK)"

definition write_sign_bit :: "nat \<Rightarrow> bool \<Rightarrow> blob \<Rightarrow> blob" where
  "write_sign_bit n is_non_negative out =
     (if is_non_negative then or_byte out (n div 8) (push_bit (n mod 8) 1) else out)"

definition read_sign_bit :: "blob \<Rightarrow> nat \<Rightarrow> bool" where
  "read_sign_bit bytes n = (field_at bytes (n div 8) (n mod 8) 1 = 1)"

definition encode_vector ::
  "f32 list \<Rightarrow> centroid_table \<Rightarrow> projection_matrix \<Rightarrow> asset_error + encoded_turbo_vector" where
  "encode_vector vector centroids projection =
     and_then (validate_codec_inputs (length vector) centroids projection) (\<lambda>_.
       let n = length vector;
           nearest = (\<lambda>i. nearest_centroid (vector ! i) centroids i);
           idx = fold (\<lambda>i. write_idx i (of_nat (fst (nearest i)))) [0..<n] (replicate (idx_len n) 0);
           residual = map (\<lambda>i. f32_sub (vector ! i) (snd (nearest i))) [0..<n]
       in and_then (project_checked projection residual) (\<lambda>projected.
            Inr \<lparr> ev_idx = idx,
                  ev_qjl = fold (\<lambda>i. write_sign_bit i (f32_le 0 (projected ! i))) [0..<length projected]
                    (replicate (qjl_len (length projected)) 0),
                  ev_gamma = f32_sqrt (f32_sum (map (\<lambda>r. f32_mul r r) residual)) \<rparr>))"


section \<open>Scoring\<close>

record score_breakdown =
  sb_centroid_term :: f32
  sb_qjl_term :: f32
  sb_gamma_multiplier :: f32

definition score_total :: "score_breakdown \<Rightarrow> f32" where
  "score_total b = f32_add (sb_centroid_term b) (f32_mul (sb_gamma_multiplier b) (sb_qjl_term b))"

record prepared_turbo_query =
  pt_centroid_lut :: "f32 list list"
  pt_projected_query :: "f32 list"

definition prepare_turbo_query ::
  "f32 list \<Rightarrow> centroid_table \<Rightarrow> projection_matrix \<Rightarrow> asset_error + prepared_turbo_query" where
  "prepare_turbo_query query centroids projection =
     (if length query \<noteq> RECORD_512_DIM then Inl (DimensionMismatch RECORD_512_DIM (length query))
      else and_then (validate_codec_inputs (length query) centroids projection) (\<lambda>_.
        let lut = map (\<lambda>i. map (\<lambda>k. f32_mul (query ! i) (centroid_value centroids i k)) [0..<EXPECTED_CENTROIDS_PER_DIM])
                    [0..<RECORD_512_DIM]
        in and_then (project_checked projection query) (\<lambda>projected.
             if length projected \<noteq> RECORD_512_DIM
             then Inl (DimensionMismatch RECORD_512_DIM (length projected))
             else Inr \<lparr> pt_centroid_lut = lut, pt_projected_query = projected \<rparr>)))"

definition turbo_score_breakdown :: "prepared_turbo_query \<Rightarrow> turbo_record512 \<Rightarrow> score_breakdown" where
  "turbo_score_breakdown q r =
     \<lparr> sb_centroid_term =
         f32_sum (map (\<lambda>(n, products). products ! unat (read_idx (tr_idx r) n))
           (zip [0..<length (pt_centroid_lut q)] (pt_centroid_lut q))),
       sb_qjl_term =
         f32_sum (map (\<lambda>(n, value). f32_mul value (if read_sign_bit (tr_qjl r) n then f32_one else f32_minus_one))
           (zip [0..<length (pt_projected_query q)] (pt_projected_query q))),
       sb_gamma_multiplier = tr_gamma r \<rparr>"

definition turbo_score :: "prepared_turbo_query \<Rightarrow> turbo_record512 \<Rightarrow> f32" where
  "turbo_score q r = score_total (turbo_score_breakdown q r)"


section \<open>The packed codes read back\<close>

lemma write_idx_fields: "fold (\<lambda>i. write_idx i (v i)) [0..<n] (replicate m 0) = pack_fields 2 4 v m n"
proof -
  have "write_idx i (v i) bs = or_byte bs (i div 4) (push_bit (2 * (i mod 4)) (v i))" for i bs
  proof -
    have "i * 2 div 8 = i div 4" "i * 2 mod 8 = 2 * (i mod 4)"
      using mult_mod_right [of 2 i 4] by (simp_all add: mult.commute)
    then show ?thesis
      by (simp add: write_idx_def IDX_BITS_PER_DIM_def Let_def)
  qed
  then have "(\<lambda>i. write_idx i (v i)) = (\<lambda>i bs. or_byte bs (i div 4) (push_bit (2 * (i mod 4)) (v i)))"
    by (intro ext)
  then show ?thesis
    by (simp add: pack_fields_def)
qed

lemma read_idx_field: "read_idx bs i = field_at bs (i div 4) (2 * (i mod 4)) (mask 2)"
proof -
  have "i * 2 div 8 = i div 4" "i * 2 mod 8 = 2 * (i mod 4)"
    using mult_mod_right [of 2 i 4] by (simp_all add: mult.commute)
  moreover have "IDX_MASK = mask 2"
    by (simp add: IDX_MASK_def mask_eq_exp_minus_1)
  ultimately show ?thesis
    by (simp add: read_idx_def IDX_BITS_PER_DIM_def Let_def)
qed

lemma or_byte_zero [simp]: "or_byte bs i 0 = bs"
  by (simp add: or_byte_def)

lemma write_sign_fields:
  "fold (\<lambda>i. write_sign_bit i (P i)) [0..<n] (replicate m 0) =
     pack_fields 1 8 (\<lambda>i. if P i then 1 else 0) m n"
proof -
  have "write_sign_bit i (P i) bs = or_byte bs (i div 8) (push_bit (1 * (i mod 8)) (if P i then 1 else 0))" for i bs
    by (simp add: write_sign_bit_def)
  then have "(\<lambda>i. write_sign_bit i (P i)) =
      (\<lambda>i bs. or_byte bs (i div 8) (push_bit (1 * (i mod 8)) (if P i then 1 else 0)))"
    by (intro ext)
  then show ?thesis
    by (simp add: pack_fields_def)
qed

lemma small_field: "v < 4 \<Longrightarrow> take_bit 2 (of_nat v :: u8) = of_nat v"
proof -
  assume "v < 4"
  then have "v = 0 \<or> v = 1 \<or> v = 2 \<or> v = 3"
    by linarith
  then show ?thesis
    by auto
qed

lemma read_idx_written:
  assumes "i < n" "n \<le> 4 * m" "\<forall>j < n. v j < 4"
  shows "read_idx (fold (\<lambda>i. write_idx i (of_nat (v i))) [0..<n] (replicate m 0)) i = of_nat (v i)"
  unfolding write_idx_fields read_idx_field
  using assms by (intro read_pack_fields) (simp_all add: small_field)

lemma read_sign_written:
  assumes "i < n" "n \<le> 8 * m"
  shows "read_sign_bit (fold (\<lambda>i. write_sign_bit i (P i)) [0..<n] (replicate m 0)) i = P i"
proof -
  have "field_at (pack_fields 1 8 (\<lambda>i. if P i then 1 else 0) m n) (i div 8) (1 * (i mod 8)) (mask 1) =
      (if P i then 1 else 0)"
    using assms by (intro read_pack_fields) (auto simp: take_bit_Suc_0)
  then show ?thesis
    unfolding write_sign_fields by (simp add: read_sign_bit_def mask_eq_exp_minus_1)
qed

section \<open>A record scores as the codec defines\<close>

lemma nearest_centroid_value:
  assumes ok: "centroid_table_ok c" and k: "unat (ct_centroids_per_dim c) = 4" and i: "i < unat (ct_dim c)"
    and r: "nearest_centroid x c i = (index, best)"
  shows "index < 4" "best = centroid_value c i index"
proof -
  define vs where "vs = span (ct_values c) (i * 4) 4"
  have "(i + 1) * 4 \<le> unat (ct_dim c) * 4"
    using i by (intro mult_le_mono1) simp
  then have len: "length vs = 4" and vs: "vs ! j = ct_values c ! (i * 4 + j)" if "j < 4" for j
    using ok k that by (simp_all add: vs_def span_def centroid_table_ok_def)
  have l4: "length vs = 4"
    using len [of 0] by simp
  have inv: "case fold (nearer x) ps (b, v, d) of (b', v', d') \<Rightarrow> b' < 4 \<and> v' = vs ! b'"
    if "\<forall>(j, y) \<in> set ps. j < 4 \<and> y = vs ! j" "b < 4" "v = vs ! b" for ps b v d
    using that
  proof (induction ps arbitrary: b v d)
    case (Cons p ps)
    then show ?case
      by (cases p) (auto simp: nearer_def Let_def)
  qed simp
  have "set (tl (zip [0..<4] vs)) \<subseteq> set (zip [0..<4] vs)"
    by (cases "zip [0..<4] vs") auto
  then have "\<forall>(j, y) \<in> set (tl (zip [0..<4] vs)). j < 4 \<and> y = vs ! j"
    by (auto simp: set_zip dest!: subsetD)
  moreover have "hd vs = vs ! 0"
    using l4 by (cases vs) simp_all
  ultimately have "case fold (nearer x) (tl (zip [0..<4] vs)) (0, hd vs, f32_abs (f32_sub x (hd vs))) of
      (b', v', d') \<Rightarrow> b' < 4 \<and> v' = vs ! b'"
    by (intro inv) simp_all
  moreover have "nearest_centroid x c i =
      (case fold (nearer x) (tl (zip [0..<4] vs)) (0, hd vs, f32_abs (f32_sub x (hd vs))) of (b, v, d) \<Rightarrow> (b, v))"
    by (simp add: nearest_centroid_def EXPECTED_CENTROIDS_PER_DIM_def l4 Let_def flip: vs_def)
  ultimately have "index < 4 \<and> best = vs ! index"
    using r by (auto split: prod.splits)
  then show "index < 4" "best = centroid_value c i index"
    using vs by (auto simp: centroid_value_def EXPECTED_CENTROIDS_PER_DIM_def)
qed

text \<open>The scorer's formula, on what the encoder chose: no packing, no tables.\<close>

definition reference_score :: "f32 list \<Rightarrow> f32 list \<Rightarrow> f32 \<Rightarrow> centroid_table \<Rightarrow> projection_matrix \<Rightarrow> f32" where
  "reference_score query vector gamma c p =
     (let n = length vector;
          chosen = (\<lambda>i. snd (nearest_centroid (vector ! i) c i));
          residual = map (\<lambda>i. f32_sub (vector ! i) (chosen i)) [0..<n];
          row = (\<lambda>j. span (pm_values p) (j * n) n);
          sign = (\<lambda>j. if f32_le 0 (dot (row j) residual) then f32_one else f32_minus_one)
      in f32_add (f32_sum (map (\<lambda>i. f32_mul (query ! i) (chosen i)) [0..<n]))
           (f32_mul gamma (f32_sum (map (\<lambda>j. f32_mul (dot (row j) query) (sign j)) [0..<n]))))"

lemma fold_sign_map:
  "fold (\<lambda>i. write_sign_bit i (f32_le 0 (map g [0..<n] ! i))) [0..<n] z =
     fold (\<lambda>i. write_sign_bit i (f32_le 0 (g i))) [0..<n] z"
  by (rule fold_cong) simp_all

lemma zip_upt_nth: "map f (zip [0..<length xs] xs) = map (\<lambda>i. f (i, xs ! i)) [0..<length xs]"
  by (rule nth_equalityI) simp_all

text \<open>
  Scoring the record an encoder wrote, with a prepared query, is bit for
  bit the formula of the codec on the unpacked choices: the products of the query with the
  chosen centroids, plus gamma times the projected query under the signs of the projected
  residual. Packing into bytes and the lookup table lose nothing.
\<close>

theorem legacy_score_exact:
  assumes "centroid_table_ok c" and "projection_ok p"
    and e: "encode_vector vector c p = Inr e" and q: "prepare_turbo_query query c p = Inr prepared"
    and r: "tr_idx record = ev_idx e" "tr_qjl record = ev_qjl e"
  shows "turbo_score prepared record = reference_score query vector (tr_gamma record) c p"
proof -
  define n where "n = length vector"
  define near where "near i = nearest_centroid (vector ! i) c i" for i
  define residual where "residual = map (\<lambda>i. f32_sub (vector ! i) (snd (near i))) [0..<n]"
  define row where "row j = span (pm_values p) (j * n) n" for j
  from e have v: "unat (ct_dim c) = n" "unat (ct_centroids_per_dim c) = 4" "unat (pm_input_dim p) = n"
      "unat (pm_output_dim p) = n"
    by (auto simp: encode_vector_def validate_codec_inputs_def result_simps n_def EXPECTED_CENTROIDS_PER_DIM_def
        split: if_splits)
  from q have n: "length query = 512" "n = 512"
    using v(1) by (auto simp: prepare_turbo_query_def validate_codec_inputs_def result_simps RECORD_512_DIM_def
        split: if_splits)
  have proj: "project_checked p x = Inr (map (\<lambda>j. dot (row j) x) [0..<n])" if "length x = n" for x
    using that v by (simp add: project_checked_def row_def)
  have near4: "fst (near i) < 4" "snd (near i) = centroid_value c i (fst (near i))" if "i < n" for i
    using nearest_centroid_value [OF assms(1) v(2), of i "vector ! i" "fst (near i)" "snd (near i)"] that v(1)
    by (simp_all add: near_def)
  have idx: "ev_idx e = fold (\<lambda>i. write_idx i (of_nat (fst (near i)))) [0..<n] (replicate (idx_len n) 0)"
    and qjl: "ev_qjl e = fold (\<lambda>i. write_sign_bit i (f32_le 0 (dot (row i) residual))) [0..<n] (replicate (qjl_len n) 0)"
    using e proj [of residual] v
    by (auto simp: encode_vector_def result_simps validate_codec_inputs_def EXPECTED_CENTROIDS_PER_DIM_def Let_def
        residual_def near_def fold_sign_map simp flip: n_def)
  have ridx: "unat (read_idx (tr_idx record) i) = fst (near i)" if "i < n" for i
  proof -
    have "read_idx (tr_idx record) i = of_nat (fst (near i))"
      unfolding r idx using that near4 n by (intro read_idx_written) (simp_all add: idx_len_def IDX_BITS_PER_DIM_def)
    then show ?thesis
      using near4(1) [OF that] by (simp add: unat_of_nat take_bit_nat_eq_self)
  qed
  have rsign: "read_sign_bit (tr_qjl record) j = f32_le 0 (dot (row j) residual)" if "j < n" for j
    unfolding r qjl using that n by (intro read_sign_written) (simp_all add: qjl_len_def)
  have lut: "pt_centroid_lut prepared = map (\<lambda>i. map (\<lambda>k. f32_mul (query ! i) (centroid_value c i k)) [0..<4]) [0..<n]"
    and pq: "pt_projected_query prepared = map (\<lambda>j. dot (row j) query) [0..<n]"
    using q proj [of query] n v
    by (auto simp: prepare_turbo_query_def result_simps RECORD_512_DIM_def EXPECTED_CENTROIDS_PER_DIM_def Let_def
        validate_codec_inputs_def)
  have "sb_centroid_term (turbo_score_breakdown prepared record) =
      f32_sum (map (\<lambda>i. f32_mul (query ! i) (snd (near i))) [0..<n])"
    unfolding turbo_score_breakdown_def zip_upt_nth
    by (simp add: lut) (intro arg_cong [where f = f32_sum] map_cong, simp_all add: ridx near4)
  moreover have "sb_qjl_term (turbo_score_breakdown prepared record) =
      f32_sum (map (\<lambda>j. f32_mul (dot (row j) query)
        (if f32_le 0 (dot (row j) residual) then f32_one else f32_minus_one)) [0..<n])"
    unfolding turbo_score_breakdown_def zip_upt_nth
    by (simp add: pq) (intro arg_cong [where f = f32_sum] map_cong, simp_all add: rsign)
  ultimately show ?thesis
    unfolding turbo_score_def score_total_def reference_score_def Let_def
    by (simp add: turbo_score_breakdown_def near_def residual_def row_def flip: n_def)
qed

lemma encode_vector_returns:
  "validate_codec_inputs (length v) c p = Inr () \<Longrightarrow> \<exists>e. encode_vector v c p = Inr e"
  by (auto simp: encode_vector_def validate_codec_inputs_def Let_def project_checked_def split: if_splits)

lemma prepare_turbo_query_returns:
  "length q = 512 \<Longrightarrow> validate_codec_inputs (length q) c p = Inr () \<Longrightarrow> \<exists>t. prepare_turbo_query q c p = Inr t"
  by (auto simp: prepare_turbo_query_def validate_codec_inputs_def Let_def project_checked_def RECORD_512_DIM_def
      split: if_splits)

definition demo_table :: centroid_table where
  "demo_table = \<lparr> ct_dim = 512, ct_centroids_per_dim = 4,
     ct_values = concat (replicate 512 [f32_minus_one, 0, f32_one, 0x40000000]) \<rparr>"

definition demo_projection :: projection_matrix where
  "demo_projection = \<lparr> pm_input_dim = 512, pm_output_dim = 512, pm_values = replicate (512 * 512) f32_one \<rparr>"

lemma legacy_score_exact_witness:
  "\<exists>e prepared. encode_vector (replicate 512 f32_one) demo_table demo_projection = Inr e \<and>
     prepare_turbo_query (replicate 512 0x40000000) demo_table demo_projection = Inr prepared \<and>
     turbo_score prepared \<lparr> tr_doc_id = 7, tr_idx = ev_idx e, tr_qjl = ev_qjl e, tr_gamma = ev_gamma e,
                             tr_reserved = replicate 4 0 \<rparr> =
       reference_score (replicate 512 0x40000000) (replicate 512 f32_one) (ev_gamma e) demo_table demo_projection"
proof -
  have v: "validate_codec_inputs 512 demo_table demo_projection = Inr ()"
    by (simp add: validate_codec_inputs_def demo_table_def demo_projection_def EXPECTED_CENTROIDS_PER_DIM_def)
  obtain e where e: "encode_vector (replicate 512 f32_one) demo_table demo_projection = Inr e"
    using encode_vector_returns [of "replicate 512 f32_one"] v by auto
  obtain q where q: "prepare_turbo_query (replicate 512 0x40000000) demo_table demo_projection = Inr q"
    using prepare_turbo_query_returns [of "replicate 512 0x40000000"] v by auto
  have "centroid_table_ok demo_table" "projection_ok demo_projection"
    by (simp_all add: centroid_table_ok_def projection_ok_def demo_table_def demo_projection_def length_concat
        sum_list_replicate)
  from legacy_score_exact [OF this e q]
  have "turbo_score q \<lparr> tr_doc_id = 7, tr_idx = ev_idx e, tr_qjl = ev_qjl e, tr_gamma = ev_gamma e,
      tr_reserved = replicate 4 0 \<rparr> =
    reference_score (replicate 512 0x40000000) (replicate 512 f32_one) (ev_gamma e) demo_table demo_projection"
    by simp
  then show ?thesis
    using e q by blast
qed

end
