(* ===== verification/Gaussian.thy ===== *)
theory Gaussian
  imports Floats_Wide
begin

text \<open>
  The standard-normal sampler of the codec assets (\<^verbatim>\<open>src/index/gaussian.rs\<close>): Box-Muller
  over the words of a ChaCha8 keystream.  The keystream (crate \<^verbatim>\<open>rand_chacha\<close>) and the
  logarithm, sine and cosine of crate \<^verbatim>\<open>libm\<close> are arguments: \<open>words seed stream n\<close> is the
  \<open>n\<close>-th 64-bit word for a seed and a stream.
\<close>


section \<open>The stream\<close>

record sampler =
  sm_words :: "u64 \<Rightarrow> u64 \<Rightarrow> nat \<Rightarrow> u64"
  sm_log :: "f64 \<Rightarrow> f64"
  sm_sincos :: "f64 \<Rightarrow> f64 \<times> f64"

record normal_stream =
  ns_seed :: u64
  ns_stream_id :: u64
  ns_position :: nat
  ns_pending :: "f64 option"

definition stream_new :: "u64 \<Rightarrow> u64 \<Rightarrow> normal_stream" where
  "stream_new seed stream_id =
     \<lparr> ns_seed = seed, ns_stream_id = stream_id, ns_position = 0, ns_pending = None \<rparr>"

definition TAU :: f64 where "TAU = 0x401921FB54442D18"
definition f64_half :: f64 where "f64_half = 0x3FE0000000000000"

text \<open>\<^verbatim>\<open>unit_open\<close>: the top 52 bits plus one half, scaled by \<open>2 ^ -52\<close>.\<close>

definition unit_open :: "u64 \<Rightarrow> f64" where
  "unit_open word =
     f64_mul (f64_add (f64_of_nat (unat (drop_bit 12 word))) f64_half)
       (f64_div (f64_of_nat 1) (f64_of_nat (2 ^ 52)))"

definition box_muller :: "sampler \<Rightarrow> u64 \<Rightarrow> u64 \<Rightarrow> f64 \<times> f64" where
  "box_muller sm w0 w1 =
     (let radius = f64_sqrt (f64_mul (f64_neg (f64_of_nat 2)) (sm_log sm (unit_open w0)));
          (sin, cos) = sm_sincos sm (f64_mul TAU (unit_open w1))
      in (f64_mul radius cos, f64_mul radius sin))"

definition next_value :: "sampler \<Rightarrow> normal_stream \<Rightarrow> f64 \<times> normal_stream" where
  "next_value sm s =
     (case ns_pending s of
        Some value \<Rightarrow> (value, s\<lparr> ns_pending := None \<rparr>)
      | None \<Rightarrow>
          let w0 = sm_words sm (ns_seed s) (ns_stream_id s) (ns_position s);
              w1 = sm_words sm (ns_seed s) (ns_stream_id s) (ns_position s + 1);
              (first, second) = box_muller sm w0 w1
          in (first, s\<lparr> ns_position := ns_position s + 2, ns_pending := Some second \<rparr>))"

text \<open>\<^verbatim>\<open>fill\<close> writes the next \<open>n\<close> values.\<close>

fun fill :: "sampler \<Rightarrow> nat \<Rightarrow> normal_stream \<Rightarrow> f64 list \<times> normal_stream" where
  "fill sm 0 s = ([], s)"
| "fill sm (Suc n) s =
     (let (value, s1) = next_value sm s; (rest, s2) = fill sm n s1 in (value # rest, s2))"

definition fill_standard_normal :: "sampler \<Rightarrow> u64 \<Rightarrow> u64 \<Rightarrow> nat \<Rightarrow> f64 list" where
  "fill_standard_normal sm seed stream_id n = fst (fill sm n (stream_new seed stream_id))"


section \<open>The sequence of a seed and a stream\<close>

text \<open>Value \<open>i\<close> of the sequence depends on words \<open>2 * (i div 2)\<close> and the next alone.\<close>

definition normal_value :: "sampler \<Rightarrow> u64 \<Rightarrow> u64 \<Rightarrow> nat \<Rightarrow> f64" where
  "normal_value sm seed stream_id i =
     (let k = 2 * (i div 2);
          pair = box_muller sm (sm_words sm seed stream_id k) (sm_words sm seed stream_id (k + 1))
      in if even i then fst pair else snd pair)"

text \<open>A stream that has returned \<open>i\<close> values.\<close>

definition stream_at :: "sampler \<Rightarrow> u64 \<Rightarrow> u64 \<Rightarrow> nat \<Rightarrow> normal_stream" where
  "stream_at sm seed stream_id i =
     \<lparr> ns_seed = seed, ns_stream_id = stream_id, ns_position = 2 * ((i + 1) div 2),
       ns_pending = (if even i then None else Some (normal_value sm seed stream_id i)) \<rparr>"

lemma stream_new_at: "stream_new seed sid = stream_at sm seed sid 0"
  by (simp add: stream_new_def stream_at_def)

lemma next_value_at:
  "next_value sm (stream_at sm seed sid i) = (normal_value sm seed sid i, stream_at sm seed sid (Suc i))"
proof (cases "even i")
  case True
  then obtain k where k: "i = 2 * k"
    by blast
  then have "Suc i div 2 = k" "Suc (Suc i) div 2 = Suc k" "(i + 1) div 2 = k"
    by simp_all
  then show ?thesis
    using True k by (simp add: next_value_def stream_at_def normal_value_def Let_def case_prod_beta)
next
  case False
  then show ?thesis
    by (simp add: next_value_def stream_at_def)
qed

lemma fill_at:
  "fill sm n (stream_at sm seed sid i) =
     (map (normal_value sm seed sid) [i..<i + n], stream_at sm seed sid (i + n))"
proof (induction n arbitrary: i)
  case (Suc n)
  have "[i..<i + Suc n] = i # [Suc i..<Suc i + n]"
    by (simp add: upt_conv_Cons del: upt_Suc)
  then show ?case
    using Suc [of "Suc i"] by (simp add: next_value_at del: upt_Suc)
qed simp

text \<open>Filling buffers of the given sizes, one after the other.\<close>

fun fill_pieces :: "sampler \<Rightarrow> nat list \<Rightarrow> normal_stream \<Rightarrow> f64 list list" where
  "fill_pieces sm [] s = []"
| "fill_pieces sm (n # sizes) s = (let (values, s') = fill sm n s in values # fill_pieces sm sizes s')"

lemma fill_pieces_at:
  "concat (fill_pieces sm sizes (stream_at sm seed sid i)) =
     map (normal_value sm seed sid) [i..<i + sum_list sizes]"
proof (induction sizes arbitrary: i)
  case (Cons n sizes)
  have "[i..<i + (n + sum_list sizes)] = [i..<i + n] @ [i + n..<i + n + sum_list sizes]"
    using upt_add_eq_append [of i "i + n" "sum_list sizes"] by (simp add: add.assoc)
  then show ?case
    using Cons.IH by (simp add: fill_at)
qed simp

text \<open>
  Filling a buffer in pieces of any sizes gives the values of one fill, in
  order: reading the stream piece by piece and reading it at once return the same sequence.
\<close>

theorem fill_in_pieces:
  "concat (fill_pieces sm sizes (stream_new seed stream_id)) =
     fill_standard_normal sm seed stream_id (sum_list sizes)"
  unfolding stream_new_at [of seed stream_id sm] fill_pieces_at fill_standard_normal_def fill_at by simp

lemma fill_prefix: "n \<le> m \<Longrightarrow> fill_standard_normal sm seed sid n = take n (fill_standard_normal sm seed sid m)"
  unfolding fill_standard_normal_def stream_new_at [of seed sid sm] fill_at by (simp add: take_map)

lemma length_fill: "length (fill_standard_normal sm seed sid n) = n"
  unfolding fill_standard_normal_def stream_new_at [of seed sid sm] fill_at by simp

end
