(* ===== verification/Matrices.thy ===== *)
theory Matrices
  imports Assets Gaussian
begin

text \<open>
  The two matrices of the \<^verbatim>\<open>TurboQuantProdV1\<close> codec: the Haar-random rotation
  (\<^verbatim>\<open>src/index/rotation.rs\<close>) and the Gaussian QJL matrix (\<^verbatim>\<open>src/index/qjl.rs\<close>), their
  generation, files and products.
\<close>


section \<open>Householder QR\<close>

text \<open>A \<open>d\<close> by \<open>d\<close> matrix of the generator is the list of its columns.\<close>

record reflector =
  rf_v :: "f64 list"
  rf_beta :: f64

definition sum_of_squares :: "f64 list \<Rightarrow> f64" where
  "sum_of_squares xs = f64_sum (map (\<lambda>x. f64_mul x x) xs)"

text \<open>The reflector of a vector, and the vector overwritten with its image.\<close>

definition zeroing_below_first :: "f64 list \<Rightarrow> reflector \<times> f64 list" where
  "zeroing_below_first x =
     (let norm = f64_sqrt (sum_of_squares x)
      in if f64_eq norm 0 then (\<lparr> rf_v = replicate (length x) 0, rf_beta = 0 \<rparr>, x)
         else let alpha = (if f64_lt (hd x) 0 then norm else f64_neg norm);
                  v = f64_sub (hd x) alpha # tl x
              in (\<lparr> rf_v = v, rf_beta = f64_div (f64_of_nat 2) (sum_of_squares v) \<rparr>,
                  alpha # replicate (length x - 1) 0))"

definition reflector_apply :: "reflector \<Rightarrow> f64 list \<Rightarrow> f64 list" where
  "reflector_apply h y =
     (let scale = f64_mul (rf_beta h) (f64_sum (map2 f64_mul (rf_v h) y))
      in map2 (\<lambda>y v. f64_sub y (f64_mul scale v)) y (rf_v h))"

text \<open>Work on the entries of a column from \<open>k\<close> on.\<close>

definition below :: "nat \<Rightarrow> (f64 list \<Rightarrow> f64 list) \<Rightarrow> f64 list \<Rightarrow> f64 list" where
  "below k f column = take k column @ f (drop k column)"

definition qr_step :: "nat \<Rightarrow> f64 list list \<times> reflector list \<Rightarrow> f64 list list \<times> reflector list" where
  "qr_step k = (\<lambda>(columns, reflectors).
     let (h, image) = zeroing_below_first (drop k (columns ! k));
         columns = take k columns @ [take k (columns ! k) @ image] @
           map (below k (reflector_apply h)) (drop (Suc k) columns)
     in (columns, reflectors @ [h]))"

definition identity_columns :: "nat \<Rightarrow> f64 list list" where
  "identity_columns d = map (\<lambda>j. (replicate d 0)[j := f64_of_nat 1]) [0..<d]"

definition accumulate_q :: "nat \<Rightarrow> reflector list \<Rightarrow> f64 list list" where
  "accumulate_q d reflectors =
     fold (\<lambda>(k, h) columns. take k columns @ map (below k (reflector_apply h)) (drop k columns))
       (rev (zip [0..<length reflectors] reflectors)) (identity_columns d)"

text \<open>\<^verbatim>\<open>householder_qr\<close> returns \<open>Q\<close> and leaves \<open>R\<close> in its argument.\<close>

definition householder_qr :: "nat \<Rightarrow> f64 list list \<Rightarrow> f64 list list \<times> f64 list list" where
  "householder_qr d a =
     (let (r, reflectors) = fold qr_step [0..<d] (a, []) in (accumulate_q d reflectors, r))"

definition positive_step :: "nat \<Rightarrow> f64 list list \<times> f64 list list \<Rightarrow> f64 list list \<times> f64 list list" where
  "positive_step j = (\<lambda>(q, r).
     if f64_lt (r ! j ! j) 0
     then (q[j := map f64_neg (q ! j)], map (\<lambda>column. column[j := f64_neg (column ! j)]) r)
     else (q, r))"

definition make_r_diagonal_positive ::
  "nat \<Rightarrow> f64 list list \<Rightarrow> f64 list list \<Rightarrow> f64 list list \<times> f64 list list" where
  "make_r_diagonal_positive d q r = fold positive_step [0..<d] (q, r)"


section \<open>Rotation\<close>

definition ROTATION_MAGIC :: blob where "ROTATION_MAGIC = text_bytes ''TQRT''"
definition ROTATION_FILE :: string where "ROTATION_FILE = ''rotation.bin''"
definition ROTATION_HEADER_SIZE :: nat where "ROTATION_HEADER_SIZE = 20"

definition ROTATION_STREAM_ID :: u64 where
  "ROTATION_STREAM_ID = u64_from_le (text_bytes ''rotation'')"

record rotation =
  rot_dim :: u32
  rot_seed :: u64
  rot_generator_version :: u32
  rot_matrix :: "f32 list"

definition rotation_generate :: "sampler \<Rightarrow> u32 \<Rightarrow> u64 \<Rightarrow> rotation option" where
  "rotation_generate sm n seed =
     (if n = 0 then None
      else
        let d = unat n;
            (q, r) = householder_qr d (chunks_exact d (fill_standard_normal sm seed ROTATION_STREAM_ID (d * d)));
            (q, r) = make_r_diagonal_positive d q r
        in Some \<lparr> rot_dim = n, rot_seed = seed, rot_generator_version = GAUSSIAN_GENERATOR_VERSION,
                  rot_matrix = concat (map (\<lambda>i. map (\<lambda>j. f32_of_f64 (q ! j ! i)) [0..<d]) [0..<d]) \<rparr>)"

definition rotation_check_len :: "rotation \<Rightarrow> nat \<Rightarrow> asset_error + unit" where
  "rotation_check_len rot n =
     (if n \<noteq> unat (rot_dim rot) then Inl (DimensionMismatch (unat (rot_dim rot)) n) else Inr ())"

text \<open>
  The output slice of the source is an argument that is overwritten; only its length matters.
\<close>

definition rotate_vec :: "rotation \<Rightarrow> f32 list \<Rightarrow> nat \<Rightarrow> asset_error + f32 list" where
  "rotate_vec rot x out_len =
     and_then (rotation_check_len rot (length x)) (\<lambda>_.
     and_then (rotation_check_len rot out_len) (\<lambda>_.
       Inr (map (\<lambda>row. dot row x) (chunks_exact (length x) (rot_matrix rot)))))"

definition inverse_rotate :: "rotation \<Rightarrow> f32 list \<Rightarrow> nat \<Rightarrow> asset_error + f32 list" where
  "inverse_rotate rot y out_len =
     and_then (rotation_check_len rot (length y)) (\<lambda>_.
     and_then (rotation_check_len rot out_len) (\<lambda>_.
       Inr (foldl (\<lambda>out (weight, row). map2 (\<lambda>slot value. f32_add slot (f32_mul weight value)) out row)
              (replicate out_len 0) (zip y (chunks_exact (length y) (rot_matrix rot))))))"

definition rotation_to_bytes :: "rotation \<Rightarrow> blob" where
  "rotation_to_bytes rot =
     ROTATION_MAGIC @ u32_to_le (rot_dim rot) @ u64_to_le (rot_seed rot) @
     u32_to_le (rot_generator_version rot) @ write_values (rot_matrix rot)"

definition rotation_from_bytes :: "blob \<Rightarrow> asset_error + rotation" where
  "rotation_from_bytes bytes =
     (if length bytes < ROTATION_HEADER_SIZE then Inl (InvalidSize ROTATION_HEADER_SIZE (length bytes))
      else if span bytes 0 4 \<noteq> ROTATION_MAGIC then Inl (InvalidMagic ROTATION_MAGIC (span bytes 0 4))
      else
        let n = u32_from_le (span bytes 4 4); seed = u64_from_le (span bytes 8 8);
            version = u32_from_le (span bytes 16 4)
        in map_ok (\<lambda>matrix. \<lparr> rot_dim = n, rot_seed = seed, rot_generator_version = version, rot_matrix = matrix \<rparr>)
             (parse_values (drop ROTATION_HEADER_SIZE bytes) n n))"

definition rotation_ok :: "rotation \<Rightarrow> bool" where
  "rotation_ok rot \<longleftrightarrow> rot_dim rot \<noteq> 0 \<and> length (rot_matrix rot) = unat (rot_dim rot) * unat (rot_dim rot)"

lemma header_spans20:
  "20 \<le> length b \<Longrightarrow> b = span b 0 4 @ span b 4 4 @ span b 8 8 @ span b 16 4 @ drop 20 b"
proof -
  have "b = take 4 b @ take 4 (drop 4 b) @ take 8 (drop 8 b) @ take 4 (drop 16 b) @ drop 20 b"
    using append_take_drop_id [of 4 b] append_take_drop_id [of 4 "drop 4 b"] append_take_drop_id [of 8 "drop 8 b"]
      append_take_drop_id [of 4 "drop 16 b"]
    by simp
  then show ?thesis
    by (simp add: span_def)
qed

interpretation rotation_file: asset_format rotation_to_bytes rotation_from_bytes rotation_ok
proof
  fix rot
  assume ok: "rotation_ok rot"
  then have "parse_values (write_values (rot_matrix rot)) (rot_dim rot) (rot_dim rot) = Inr (rot_matrix rot)"
    unfolding parse_values_iff by (simp add: rotation_ok_def)
  then show "rotation_from_bytes (rotation_to_bytes rot) = Inr rot"
    by (simp add: rotation_from_bytes_def rotation_to_bytes_def ROTATION_HEADER_SIZE_def ROTATION_MAGIC_def
        span_def Let_def)
next
  fix b rot
  assume p: "rotation_from_bytes b = Inr rot"
  then have l: "20 \<le> length b" and m: "span b 0 4 = ROTATION_MAGIC"
    and v: "parse_values (drop 20 b) (rot_dim rot) (rot_dim rot) = Inr (rot_matrix rot)"
    and d: "rot_dim rot = u32_from_le (span b 4 4)" "rot_seed rot = u64_from_le (span b 8 8)"
      "rot_generator_version rot = u32_from_le (span b 16 4)"
    by (auto simp: rotation_from_bytes_def ROTATION_HEADER_SIZE_def Let_def map_ok_Inr_iff split: if_splits)
  have "u32_to_le (rot_dim rot) = span b 4 4" "u64_to_le (rot_seed rot) = span b 8 8"
      "u32_to_le (rot_generator_version rot) = span b 16 4"
    using l by (simp_all add: d u32_to_from_le u64_to_from_le length_span)
  then show "rotation_ok rot \<and> rotation_to_bytes rot = b"
    using v m header_spans20 [OF l] unfolding parse_values_iff
    by (simp add: rotation_ok_def rotation_to_bytes_def)
qed

lemma length_concat_const: "\<forall>x \<in> set xs. length (f x) = n \<Longrightarrow> length (concat (map f xs)) = length xs * n"
  by (induction xs) simp_all

lemma rotation_generate_ok:
  assumes "rotation_generate sm n seed = Some rot"
  shows "rotation_ok rot" "rot_dim rot = n" "rot_seed rot = seed"
    "rot_generator_version rot = GAUSSIAN_GENERATOR_VERSION"
proof -
  obtain q where n: "n \<noteq> 0" and rot: "rot = \<lparr> rot_dim = n, rot_seed = seed,
      rot_generator_version = GAUSSIAN_GENERATOR_VERSION,
      rot_matrix = concat (map (\<lambda>i. map (\<lambda>j. f32_of_f64 (q ! j ! i)) [0..<unat n]) [0..<unat n]) \<rparr>"
    using assms by (auto simp: rotation_generate_def Let_def split: if_splits prod.splits)
  show "rotation_ok rot"
    using n by (simp add: rotation_ok_def rot length_concat_const [where n = "unat n"])
  show "rot_dim rot = n" "rot_seed rot = seed" "rot_generator_version rot = GAUSSIAN_GENERATOR_VERSION"
    by (simp_all add: rot)
qed

lemma rotate_vec_ok_iff:
  "rotate_vec rot x n = Inr y \<longleftrightarrow>
     length x = unat (rot_dim rot) \<and> n = unat (rot_dim rot) \<and>
     y = map (\<lambda>row. dot row x) (chunks_exact (length x) (rot_matrix rot))"
  by (auto simp: rotate_vec_def rotation_check_len_def)

lemma rotate_vec_length:
  "rotation_ok rot \<Longrightarrow> rotate_vec rot x n = Inr y \<Longrightarrow> length y = unat (rot_dim rot)"
  by (auto simp: rotate_vec_ok_iff rotation_ok_def length_chunks_exact unat_eq_zero)


subsection \<open>The sign convention\<close>

lemma f64_neg_negative: "f64_lt x 0 \<Longrightarrow> \<not> f64_lt (f64_neg x) 0"
proof -
  assume lt: "f64_lt x 0"
  define n where "n = unat x"
  have s: "fl_sign 52 11 n"
    using lt by (auto simp: f64_lt_def fl_lt_def fl_key_def n_def fl_mag_def fl_sign_def split: if_splits)
  have m: "fl_mag 52 11 n < 2 ^ (11 + 52)"
    by (simp add: fl_mag_def)
  have "unat (f64_neg x) = fl_pack 52 11 False (fl_mag 52 11 n)"
    using s fl_pack_fields(3) [OF m] by (simp add: f64_neg_def fl_neg_def n_def unat_of_nat take_bit_nat_eq_self)
  then have "fl_key 52 11 (unat (f64_neg x)) = int (fl_mag 52 11 n)"
    using fl_pack_fields(4) [OF m, of False] by simp
  moreover have "fl_key 52 11 (unat (0 :: f64)) = 0"
    by (simp add: fl_key_def fl_mag_def)
  ultimately show ?thesis
    by (simp add: f64_lt_def fl_lt_def)
qed

lemma positive_step_shape:
  assumes "length r = d" "\<forall>c \<in> set r. length c = d"
  shows "length (snd (positive_step j (q, r))) = d" "\<forall>c \<in> set (snd (positive_step j (q, r))). length c = d"
  using assms by (auto simp: positive_step_def)

lemma positive_step_diagonal:
  assumes "length r = d" "\<forall>c \<in> set r. length c = d" "i < d" "j < d"
  shows "snd (positive_step j (q, r)) ! i ! i =
    (if i = j \<and> f64_lt (r ! j ! j) 0 then f64_neg (r ! i ! i) else r ! i ! i)"
proof -
  have "length (r ! i) = d"
    using assms by simp
  then show ?thesis
    using assms by (auto simp: positive_step_def)
qed

text \<open>After the sign change no diagonal entry of \<open>R\<close> is negative.\<close>

lemma diagonal_not_negative:
  assumes "length r = d" "\<forall>c \<in> set r. length c = d" "i < d"
  shows "\<not> f64_lt (snd (make_r_diagonal_positive d q r) ! i ! i) 0"
proof -
  have inv: "length (snd s) = d \<and> (\<forall>c \<in> set (snd s). length c = d) \<and> (\<forall>i < k. \<not> f64_lt (snd s ! i ! i) 0)"
    if "s = fold positive_step [0..<k] (q, r)" "k \<le> d" for k s
    using that
  proof (induction k arbitrary: s)
    case 0
    then show ?case
      using assms by simp
  next
    case (Suc k)
    define s0 where "s0 = fold positive_step [0..<k] (q, r)"
    note ih = Suc.IH [OF s0_def Suc_leD [OF Suc.prems(2)]]
    obtain q0 r0 where s0: "s0 = (q0, r0)"
      by (cases s0)
    have s: "s = positive_step k (q0, r0)"
      using Suc.prems(1) by (simp add: s0 [symmetric] s0_def)
    have r0: "length r0 = d" "\<forall>c \<in> set r0. length c = d" "\<forall>i < k. \<not> f64_lt (r0 ! i ! i) 0"
      using ih by (simp_all add: s0)
    have "\<not> f64_lt (snd s ! i ! i) 0" if "i < Suc k" for i
      unfolding s using positive_step_diagonal [OF r0(1,2), of i k q0] that Suc.prems(2) r0(3)
        f64_neg_negative [of "r0 ! i ! i"]
      by (cases "i = k") auto
    then show ?case
      using positive_step_shape [OF r0(1,2), of k q0] s by simp
  qed
  show ?thesis
    using inv [OF refl order_refl] assms(3) by (simp add: make_r_diagonal_positive_def)
qed


section \<open>QJL matrix\<close>

definition QJL_MAGIC :: blob where "QJL_MAGIC = text_bytes ''TQJL''"
definition QJL_FILE :: string where "QJL_FILE = ''qjl.bin''"
definition QJL_HEADER_SIZE :: nat where "QJL_HEADER_SIZE = 24"

definition QJL_STREAM_ID :: u64 where
  "QJL_STREAM_ID = u64_from_le (text_bytes ''qjl_sign'')"

record qjl_matrix =
  qjl_dim :: u32
  qjl_qjl_dim :: u32
  qjl_seed :: u64
  qjl_generator_version :: u32
  qjl_values :: "f32 list"

text \<open>One row after the other is filled from the stream and narrowed.\<close>

definition qjl_generate :: "sampler \<Rightarrow> u32 \<Rightarrow> u32 \<Rightarrow> u64 \<Rightarrow> qjl_matrix option" where
  "qjl_generate sm d m seed =
     (if \<not> (0 < d \<and> 0 < m) then None
      else Some \<lparr> qjl_dim = d, qjl_qjl_dim = m, qjl_seed = seed,
                  qjl_generator_version = GAUSSIAN_GENERATOR_VERSION,
                  qjl_values = concat (map (map f32_of_f64)
                    (fill_pieces sm (replicate (unat m) (unat d)) (stream_new seed QJL_STREAM_ID))) \<rparr>)"

definition signs_len :: "qjl_matrix \<Rightarrow> nat" where
  "signs_len s = (unat (qjl_qjl_dim s) + 7) div 8"

definition check_len :: "nat \<Rightarrow> nat \<Rightarrow> asset_error + unit" where
  "check_len expected actual =
     (if actual \<noteq> expected then Inl (DimensionMismatch expected actual) else Inr ())"

definition set_sign :: "nat \<Rightarrow> bool \<Rightarrow> blob \<Rightarrow> blob" where
  "set_sign j nonneg signs = or_byte signs (j div 8) (push_bit (j mod 8) (if nonneg then 1 else 0))"

definition qjl_encode :: "qjl_matrix \<Rightarrow> f32 list \<Rightarrow> blob \<Rightarrow> asset_error + blob" where
  "qjl_encode s residual signs =
     and_then (check_len (unat (qjl_dim s)) (length residual)) (\<lambda>_.
     and_then (check_len (signs_len s) (length signs)) (\<lambda>_.
       let rows = chunks_exact (length residual) (qjl_values s)
       in Inr (fold (\<lambda>(j, row). set_sign j (f32_le 0 (dot row residual)))
            (zip [0..<length rows] rows) (replicate (length signs) 0))))"

record prepared_qjl_query =
  pq_projected :: "f32 list"
  pq_scale :: f32

definition prepare_qjl_query :: "qjl_matrix \<Rightarrow> f32 list \<Rightarrow> asset_error + prepared_qjl_query" where
  "prepare_qjl_query s query =
     and_then (check_len (unat (qjl_dim s)) (length query)) (\<lambda>_.
       Inr \<lparr> pq_projected = map (\<lambda>row. dot row query) (chunks_exact (length query) (qjl_values s)),
             pq_scale = f32_of_f64 (f64_div (f64_sqrt 0x3FF921FB54442D18) (f64_of_nat (unat (qjl_qjl_dim s)))) \<rparr>)"

definition qjl_to_bytes :: "qjl_matrix \<Rightarrow> blob" where
  "qjl_to_bytes s =
     QJL_MAGIC @ u32_to_le (qjl_dim s) @ u32_to_le (qjl_qjl_dim s) @ u64_to_le (qjl_seed s) @
     u32_to_le (qjl_generator_version s) @ write_values (qjl_values s)"

definition qjl_from_bytes :: "blob \<Rightarrow> asset_error + qjl_matrix" where
  "qjl_from_bytes bytes =
     (if length bytes < QJL_HEADER_SIZE then Inl (InvalidSize QJL_HEADER_SIZE (length bytes))
      else if span bytes 0 4 \<noteq> QJL_MAGIC then Inl (InvalidMagic QJL_MAGIC (span bytes 0 4))
      else
        let d = u32_from_le (span bytes 4 4); m = u32_from_le (span bytes 8 4);
            seed = u64_from_le (span bytes 12 8); version = u32_from_le (span bytes 20 4)
        in map_ok (\<lambda>values. \<lparr> qjl_dim = d, qjl_qjl_dim = m, qjl_seed = seed, qjl_generator_version = version,
                              qjl_values = values \<rparr>)
             (parse_values (drop QJL_HEADER_SIZE bytes) m d))"

text \<open>\<^verbatim>\<open>estimate\<close> asserts the length of the sign code.\<close>

definition signed_sum :: "prepared_qjl_query \<Rightarrow> blob \<Rightarrow> f32 option" where
  "signed_sum q signs =
     (if length signs \<noteq> (length (pq_projected q) + 7) div 8 then None
      else Some (foldl (\<lambda>sum (values, byte).
          foldl (\<lambda>sum (i, value). f32_add sum (if bit byte i then value else f32_neg value))
            sum (zip [0..<length values] values))
        0 (zip (chunks 8 (pq_projected q)) signs)))"

definition qjl_estimate :: "prepared_qjl_query \<Rightarrow> blob \<Rightarrow> f32 \<Rightarrow> f32 option" where
  "qjl_estimate q signs gamma =
     map_option (\<lambda>sum. f32_mul (f32_mul gamma (pq_scale q)) sum) (signed_sum q signs)"

definition qjl_ok :: "qjl_matrix \<Rightarrow> bool" where
  "qjl_ok s \<longleftrightarrow> qjl_dim s \<noteq> 0 \<and> qjl_qjl_dim s \<noteq> 0 \<and>
     length (qjl_values s) = unat (qjl_qjl_dim s) * unat (qjl_dim s)"

lemma header_spans24:
  "24 \<le> length b \<Longrightarrow> b = span b 0 4 @ span b 4 4 @ span b 8 4 @ span b 12 8 @ span b 20 4 @ drop 24 b"
proof -
  have "b = take 4 b @ take 4 (drop 4 b) @ take 4 (drop 8 b) @ take 8 (drop 12 b) @ take 4 (drop 20 b) @ drop 24 b"
    using append_take_drop_id [of 4 b] append_take_drop_id [of 4 "drop 4 b"] append_take_drop_id [of 4 "drop 8 b"]
      append_take_drop_id [of 8 "drop 12 b"] append_take_drop_id [of 4 "drop 20 b"]
    by simp
  then show ?thesis
    by (simp add: span_def)
qed

interpretation qjl_file: asset_format qjl_to_bytes qjl_from_bytes qjl_ok
proof
  fix s
  assume ok: "qjl_ok s"
  then have "parse_values (write_values (qjl_values s)) (qjl_qjl_dim s) (qjl_dim s) = Inr (qjl_values s)"
    unfolding parse_values_iff by (simp add: qjl_ok_def)
  then show "qjl_from_bytes (qjl_to_bytes s) = Inr s"
    by (simp add: qjl_from_bytes_def qjl_to_bytes_def QJL_HEADER_SIZE_def QJL_MAGIC_def span_def Let_def)
next
  fix b s
  assume p: "qjl_from_bytes b = Inr s"
  then have l: "24 \<le> length b" and m: "span b 0 4 = QJL_MAGIC"
    and v: "parse_values (drop 24 b) (qjl_qjl_dim s) (qjl_dim s) = Inr (qjl_values s)"
    and d: "qjl_dim s = u32_from_le (span b 4 4)" "qjl_qjl_dim s = u32_from_le (span b 8 4)"
      "qjl_seed s = u64_from_le (span b 12 8)" "qjl_generator_version s = u32_from_le (span b 20 4)"
    by (auto simp: qjl_from_bytes_def QJL_HEADER_SIZE_def Let_def map_ok_Inr_iff split: if_splits)
  have "u32_to_le (qjl_dim s) = span b 4 4" "u32_to_le (qjl_qjl_dim s) = span b 8 4"
      "u64_to_le (qjl_seed s) = span b 12 8" "u32_to_le (qjl_generator_version s) = span b 20 4"
    using l by (simp_all add: d u32_to_from_le u64_to_from_le length_span)
  then show "qjl_ok s \<and> qjl_to_bytes s = b"
    using v m header_spans24 [OF l] unfolding parse_values_iff
    by (simp add: qjl_ok_def qjl_to_bytes_def)
qed

text \<open>Row \<open>j\<close>, column \<open>i\<close> is draw \<open>j * d + i\<close>: a matrix with fewer rows is a prefix.\<close>

lemma qjl_generate_draws:
  assumes "qjl_generate sm d m seed = Some s"
  shows "qjl_values s = map f32_of_f64 (fill_standard_normal sm seed QJL_STREAM_ID (unat m * unat d))"
    "qjl_ok s" "qjl_dim s = d" "qjl_qjl_dim s = m" "qjl_seed s = seed"
    "qjl_generator_version s = GAUSSIAN_GENERATOR_VERSION"
proof -
  have "concat (map (map f32_of_f64) (fill_pieces sm (replicate (unat m) (unat d)) (stream_new seed QJL_STREAM_ID))) =
      map f32_of_f64 (fill_standard_normal sm seed QJL_STREAM_ID (unat m * unat d))"
    unfolding fill_standard_normal_def stream_new_at [of seed QJL_STREAM_ID sm] fill_at
    by (simp add: fill_pieces_at sum_list_replicate flip: map_concat)
  then show v: "qjl_values s = map f32_of_f64 (fill_standard_normal sm seed QJL_STREAM_ID (unat m * unat d))"
    and f: "qjl_dim s = d" "qjl_qjl_dim s = m" "qjl_seed s = seed"
      "qjl_generator_version s = GAUSSIAN_GENERATOR_VERSION"
    using assms by (auto simp: qjl_generate_def split: if_splits)
  show "qjl_ok s"
    using assms f v by (auto simp: qjl_ok_def length_fill qjl_generate_def split: if_splits)
qed

lemma qjl_generate_prefix:
  assumes "qjl_generate sm d m seed = Some s" "qjl_generate sm d m' seed = Some s'" "m \<le> m'"
  shows "qjl_values s = take (length (qjl_values s)) (qjl_values s')"
proof -
  have "unat m * unat d \<le> unat m' * unat d"
    using assms(3) by (simp add: word_le_nat_alt)
  then show ?thesis
    unfolding qjl_generate_draws(1) [OF assms(1)] qjl_generate_draws(1) [OF assms(2)]
    using fill_prefix [of "unat m * unat d" "unat m' * unat d"] by (simp add: length_fill take_map)
qed

end
