(* ===== verification/Prod_Codec.thy ===== *)
theory Prod_Codec
  imports Image_Format Codebook Matrices
begin

text \<open>
  The codec of version 4 indexes, \<^verbatim>\<open>TurboQuantProdV1\<close> (\<^verbatim>\<open>src/index/turbo_prod.rs\<close>):
  assembly from its assets, encoding of a document vector and scoring of a code with a
  prepared query.
\<close>


section \<open>The codec and its assets\<close>

datatype turbo_prod_error =
    ProdConfig config_error
  | NotTurboQuantProd turbo_codec_id
  | ProdUnsupportedMseBits u8
  | NoCommittedCodebook u32 u8
  | UnsupportedGeneratorVersion u32
  | AssetMismatch string string nat nat
  | NotTheCommittedCodebook
  | ProdDimensionMismatch nat nat
  | NonFiniteInput
  | NormOverflow

record turbo_quant_prod =
  tp_config :: turbo_quant_config
  tp_rotation :: rotation
  tp_codebook :: lloyd_max_codebook
  tp_qjl :: qjl_matrix

definition IDX_BITS :: u8 where "IDX_BITS = 2"
definition COORDINATES_PER_BYTE :: nat where "COORDINATES_PER_BYTE = 4"

definition check_config :: "turbo_quant_config \<Rightarrow> turbo_prod_error + unit" where
  "check_config c =
     and_then (map_err ProdConfig (validate_config c)) (\<lambda>_.
       if cfg_codec_id c \<noteq> TurboQuantProdV1 then Inl (NotTurboQuantProd (cfg_codec_id c))
       else if cfg_mse_bits c \<noteq> IDX_BITS then Inl (ProdUnsupportedMseBits (cfg_mse_bits c))
       else Inr ())"

definition committed_codebook :: "turbo_quant_config \<Rightarrow> turbo_prod_error + lloyd_max_codebook" where
  "committed_codebook c =
     ok_or (NoCommittedCodebook (cfg_dim c) (cfg_mse_bits c)) (committed (cfg_dim c) (cfg_mse_bits c))"

definition asset_checks ::
  "turbo_quant_config \<Rightarrow> rotation \<Rightarrow> lloyd_max_codebook \<Rightarrow> qjl_matrix \<Rightarrow> (string \<times> string \<times> nat \<times> nat) list" where
  "asset_checks c rot cb s =
     [(''rotation'', ''dim'', unat (cfg_dim c), unat (rot_dim rot)),
      (''rotation'', ''seed'', unat (cfg_mse_seed c), unat (rot_seed rot)),
      (''rotation'', ''generator_version'', unat (cfg_generator_version c), unat (rot_generator_version rot)),
      (''codebook'', ''dim'', unat (cfg_dim c), unat (cb_dim cb)),
      (''codebook'', ''bits'', unat (cfg_mse_bits c), unat (cb_bits cb)),
      (''qjl'', ''dim'', unat (cfg_dim c), unat (qjl_dim s)),
      (''qjl'', ''qjl_dim'', unat (cfg_qjl_dim c), unat (qjl_qjl_dim s)),
      (''qjl'', ''seed'', unat (cfg_qjl_seed c), unat (qjl_seed s)),
      (''qjl'', ''generator_version'', unat (cfg_generator_version c), unat (qjl_generator_version s))]"

definition asset_check :: "string \<times> string \<times> nat \<times> nat \<Rightarrow> turbo_prod_error + unit" where
  "asset_check = (\<lambda>(asset, field, expected, actual).
     if expected \<noteq> actual then Inl (AssetMismatch asset field expected actual) else Inr ())"

text \<open>\<^verbatim>\<open>PartialEq\<close> of two codebooks compares their numbers, so \<open>-0\<close> equals \<open>0\<close>.\<close>

definition same_floats :: "f32 list \<Rightarrow> f32 list \<Rightarrow> bool" where
  "same_floats xs ys = list_all2 f32_eq xs ys"

definition codebook_eq :: "lloyd_max_codebook \<Rightarrow> lloyd_max_codebook \<Rightarrow> bool" where
  "codebook_eq a b \<longleftrightarrow> cb_dim a = cb_dim b \<and> cb_bits a = cb_bits b \<and>
     same_floats (cb_centroids a) (cb_centroids b) \<and> same_floats (cb_thresholds a) (cb_thresholds b)"

definition from_assets ::
  "turbo_quant_config \<Rightarrow> rotation \<Rightarrow> lloyd_max_codebook \<Rightarrow> qjl_matrix \<Rightarrow> turbo_prod_error + turbo_quant_prod" where
  "from_assets c rot cb s =
     and_then (check_config c) (\<lambda>_.
     and_then (try_all asset_check (asset_checks c rot cb s)) (\<lambda>_.
     and_then (committed_codebook c) (\<lambda>expected.
       if \<not> codebook_eq cb expected then Inl NotTheCommittedCodebook
       else Inr \<lparr> tp_config = c, tp_rotation = rot, tp_codebook = cb, tp_qjl = s \<rparr>)))"

text \<open>Generating a matrix of dimension zero panics; a checked configuration has none.\<close>

definition prod_generate :: "sampler \<Rightarrow> turbo_quant_config \<Rightarrow> (turbo_prod_error + turbo_quant_prod) option" where
  "prod_generate sm c =
     (case check_config c of
        Inl e \<Rightarrow> Some (Inl e)
      | Inr _ \<Rightarrow>
          if cfg_generator_version c \<noteq> GAUSSIAN_GENERATOR_VERSION
          then Some (Inl (UnsupportedGeneratorVersion (cfg_generator_version c)))
          else
            (case committed_codebook c of
               Inl e \<Rightarrow> Some (Inl e)
             | Inr cb \<Rightarrow>
                 Option.bind (rotation_generate sm (cfg_dim c) (cfg_mse_seed c)) (\<lambda>rot.
                 map_option (from_assets c rot cb) (qjl_generate sm (cfg_dim c) (cfg_qjl_dim c) (cfg_qjl_seed c)))))"

definition prod_idx_len :: "turbo_quant_prod \<Rightarrow> nat" where
  "prod_idx_len p = (unat (cfg_dim (tp_config p)) + (COORDINATES_PER_BYTE - 1)) div COORDINATES_PER_BYTE"

definition prod_signs_len :: "turbo_quant_prod \<Rightarrow> nat" where
  "prod_signs_len p = signs_len (tp_qjl p)"

definition holds_codes_of :: "turbo_quant_prod \<Rightarrow> bool" where
  "holds_codes_of p \<longleftrightarrow> prod_idx_len p = 128 \<and> prod_signs_len p = 64"

definition prod_check_len :: "turbo_quant_prod \<Rightarrow> nat \<Rightarrow> turbo_prod_error + unit" where
  "prod_check_len p n =
     (let expected = unat (cfg_dim (tp_config p))
      in if n \<noteq> expected then Inl (ProdDimensionMismatch expected n) else Inr ())"


section \<open>Encoding\<close>

record encoded_turbo_prod =
  ep_idx :: blob
  ep_signs :: blob
  ep_gamma :: f32
  ep_norm :: f32

definition f64_norm :: "f32 list \<Rightarrow> f64" where
  "f64_norm xs = f64_sqrt (f64_sum (map (\<lambda>x. f64_mul (f64_of_f32 x) (f64_of_f32 x)) xs))"

definition unit_vector :: "f32 list \<Rightarrow> f64 \<Rightarrow> f32 list" where
  "unit_vector vector nrm =
     (if f64_eq nrm 0 then replicate (length vector) 0
      else map (\<lambda>x. f32_of_f64 (f64_div (f64_of_f32 x) nrm)) vector)"

text \<open>
  One coordinate: its index goes into the packed code, the decoded centroid is subtracted.
\<close>

definition encode_coordinate ::
  "lloyd_max_codebook \<Rightarrow> nat \<Rightarrow> f32 \<Rightarrow> blob \<times> f32 list \<Rightarrow> (blob \<times> f32 list) option" where
  "encode_coordinate cb i value = (\<lambda>(idx, residual).
     let index = codebook_encode cb value
     in map_option (\<lambda>centroid.
          (or_byte idx (i div COORDINATES_PER_BYTE)
             (push_bit (unat IDX_BITS * (i mod COORDINATES_PER_BYTE)) index),
           residual @ [f32_sub value centroid]))
        (codebook_decode cb index))"

fun encode_coordinates ::
  "lloyd_max_codebook \<Rightarrow> nat \<Rightarrow> f32 list \<Rightarrow> blob \<times> f32 list \<Rightarrow> (blob \<times> f32 list) option" where
  "encode_coordinates cb i [] acc = Some acc"
| "encode_coordinates cb i (x # xs) acc =
     Option.bind (encode_coordinate cb i x acc) (encode_coordinates cb (Suc i) xs)"

text \<open>The two \<^verbatim>\<open>expect\<close> calls and an index outside the codebook panic.\<close>

definition prod_encode :: "turbo_quant_prod \<Rightarrow> f32 list \<Rightarrow> (turbo_prod_error + encoded_turbo_prod) option" where
  "prod_encode p vector =
     (case prod_check_len p (length vector) of
        Inl e \<Rightarrow> Some (Inl e)
      | Inr _ \<Rightarrow>
          if \<not> list_all f32_is_finite vector then Some (Inl NonFiniteInput)
          else
            let norm = f64_norm vector
            in if \<not> f32_is_finite (f32_of_f64 norm) then Some (Inl NormOverflow)
               else
                 (case rotate_vec (tp_rotation p) (unit_vector vector norm) (length vector) of
                    Inl _ \<Rightarrow> None
                  | Inr rotated \<Rightarrow>
                      Option.bind (encode_coordinates (tp_codebook p) 0 rotated (replicate (prod_idx_len p) 0, []))
                        (\<lambda>(idx, residual).
                          case qjl_encode (tp_qjl p) residual (replicate (signs_len (tp_qjl p)) 0) of
                            Inl _ \<Rightarrow> None
                          | Inr signs \<Rightarrow> Some (Inr
                              \<lparr> ep_idx = idx, ep_signs = signs, ep_gamma = f32_of_f64 (f64_norm residual),
                                ep_norm = f32_of_f64 norm \<rparr>))))"

definition prod_record_new :: "u64 \<Rightarrow> encoded_turbo_prod \<Rightarrow> turbo_prod_record512 option" where
  "prod_record_new doc e =
     (if length (ep_idx e) = 128 \<and> length (ep_signs e) = 64
      then Some \<lparr> pr_doc_id = doc, pr_idx = ep_idx e, pr_signs = ep_signs e, pr_gamma = ep_gamma e,
                  pr_norm = ep_norm e \<rparr>
      else None)"


section \<open>Scoring\<close>

record turbo_prod_code =
  tc_idx :: blob
  tc_signs :: blob
  tc_gamma :: f32
  tc_norm :: f32

definition encoded_code :: "encoded_turbo_prod \<Rightarrow> turbo_prod_code" where
  "encoded_code e = \<lparr> tc_idx = ep_idx e, tc_signs = ep_signs e, tc_gamma = ep_gamma e, tc_norm = ep_norm e \<rparr>"

definition record_code :: "turbo_prod_record512 \<Rightarrow> turbo_prod_code" where
  "record_code r = \<lparr> tc_idx = pr_idx r, tc_signs = pr_signs r, tc_gamma = pr_gamma r, tc_norm = pr_norm r \<rparr>"

record prepared_prod_query =
  pp_lut :: "f32 list list"
  pp_qjl :: prepared_qjl_query

text \<open>A codebook with fewer than four centroids would panic in the table.\<close>

definition prepare_prod_query ::
  "turbo_quant_prod \<Rightarrow> f32 list \<Rightarrow> (turbo_prod_error + prepared_prod_query) option" where
  "prepare_prod_query p query =
     (case prod_check_len p (length query) of
        Inl e \<Rightarrow> Some (Inl e)
      | Inr _ \<Rightarrow>
          (case rotate_vec (tp_rotation p) query (length query) of
             Inl _ \<Rightarrow> None
           | Inr rotated \<Rightarrow>
               let centroids = cb_centroids (tp_codebook p)
               in if length centroids < 4 then None
                  else (case prepare_qjl_query (tp_qjl p) rotated of
                          Inl _ \<Rightarrow> None
                        | Inr qjl \<Rightarrow> Some (Inr
                            \<lparr> pp_lut = map (\<lambda>value. map (\<lambda>k. f32_mul value (centroids ! k)) [0..<4]) rotated,
                              pp_qjl = qjl \<rparr>))))"

record prod_score_terms =
  ps_mse_term :: f32
  ps_qjl_term :: f32
  ps_norm :: f32

definition prod_score_total :: "prod_score_terms \<Rightarrow> f32" where
  "prod_score_total b = f32_mul (ps_norm b) (f32_add (ps_mse_term b) (ps_qjl_term b))"

definition mse_term :: "f32 list list \<Rightarrow> blob \<Rightarrow> f32" where
  "mse_term lut idx =
     foldl (\<lambda>acc (products, byte).
         foldl (\<lambda>acc (slot, product_row).
             f32_add acc (product_row ! unat (drop_bit (unat IDX_BITS * slot) byte AND 3)))
           acc (zip [0..<length products] products))
       0 (zip (chunks COORDINATES_PER_BYTE lut) idx)"

definition prod_score_breakdown :: "prepared_prod_query \<Rightarrow> turbo_prod_code \<Rightarrow> prod_score_terms option" where
  "prod_score_breakdown q code =
     (if length (tc_idx code) \<noteq> (length (pp_lut q) + (COORDINATES_PER_BYTE - 1)) div COORDINATES_PER_BYTE
      then None
      else map_option (\<lambda>estimate.
             \<lparr> ps_mse_term = mse_term (pp_lut q) (tc_idx code), ps_qjl_term = estimate, ps_norm = tc_norm code \<rparr>)
             (qjl_estimate (pp_qjl q) (tc_signs code) (tc_gamma code)))"

definition prod_score :: "prepared_prod_query \<Rightarrow> turbo_prod_code \<Rightarrow> f32 option" where
  "prod_score q code = map_option prod_score_total (prod_score_breakdown q code)"

section \<open>A well-formed codec\<close>

text \<open>
  What an assembled codec satisfies when its assets come from files or generators: the assets
  have the shapes the configuration names, and the codebook has the four centroids of the
  committed one.
\<close>

definition prod_ok :: "turbo_quant_prod \<Rightarrow> bool" where
  "prod_ok p \<longleftrightarrow>
     check_config (tp_config p) = Inr () \<and> rotation_ok (tp_rotation p) \<and> qjl_ok (tp_qjl p) \<and>
     rot_dim (tp_rotation p) = cfg_dim (tp_config p) \<and> qjl_dim (tp_qjl p) = cfg_dim (tp_config p) \<and>
     qjl_qjl_dim (tp_qjl p) = cfg_qjl_dim (tp_config p) \<and>
     length (cb_centroids (tp_codebook p)) = 4 \<and> length (cb_thresholds (tp_codebook p)) = 3"

lemma check_config_ok_iff:
  "check_config c = Inr () \<longleftrightarrow> validate_config c = Inr () \<and> cfg_codec_id c = TurboQuantProdV1 \<and> cfg_mse_bits c = 2"
  by (auto simp: check_config_def result_simps IDX_BITS_def)

lemma try_asset_checks_ok_iff:
  "try_all asset_check (asset_checks c rot cb s) = Inr () \<longleftrightarrow>
     cfg_dim c = rot_dim rot \<and> cfg_mse_seed c = rot_seed rot \<and> cfg_generator_version c = rot_generator_version rot \<and>
     cfg_dim c = cb_dim cb \<and> cfg_mse_bits c = cb_bits cb \<and> cfg_dim c = qjl_dim s \<and> cfg_qjl_dim c = qjl_qjl_dim s \<and>
     cfg_qjl_seed c = qjl_seed s \<and> cfg_generator_version c = qjl_generator_version s"
  unfolding try_all_ok_iff asset_checks_def asset_check_def word_unat_eq_iff by (simp split: if_splits)

lemma committed_codebook_ok:
  assumes "check_config c = Inr ()"
  shows "committed_codebook c = Inr (from_centroids 512 2 D512_B2_CENTROIDS)"
proof -
  have "cfg_dim c = 512" "cfg_mse_bits c = 2"
    using assms by (auto simp: check_config_ok_iff validate_config_ok_iff)
  then show ?thesis
    by (simp add: committed_codebook_def committed_def ok_or_def)
qed

lemma codebook_eq_lengths:
  "codebook_eq a b \<Longrightarrow> length (cb_centroids a) = length (cb_centroids b) \<and>
     length (cb_thresholds a) = length (cb_thresholds b)"
  by (auto simp: codebook_eq_def same_floats_def dest: list_all2_lengthD)

lemma from_assets_ok_iff:
  "from_assets c rot cb s = Inr p \<longleftrightarrow>
     check_config c = Inr () \<and> try_all asset_check (asset_checks c rot cb s) = Inr () \<and>
     codebook_eq cb (from_centroids 512 2 D512_B2_CENTROIDS) \<and>
     p = \<lparr> tp_config = c, tp_rotation = rot, tp_codebook = cb, tp_qjl = s \<rparr>"
  by (auto simp: from_assets_def result_simps committed_codebook_ok)

lemma committed_lengths:
  "length (cb_centroids (from_centroids 512 2 D512_B2_CENTROIDS)) = 4"
  "length (cb_thresholds (from_centroids 512 2 D512_B2_CENTROIDS)) = 3"
  by (simp_all add: from_centroids_def windows2_def D512_B2_CENTROIDS_def)

lemma from_assets_prod_ok:
  assumes "from_assets c rot cb s = Inr p" "rotation_ok rot" "qjl_ok s"
  shows "prod_ok p" "tp_config p = c"
proof -
  have f: "check_config c = Inr ()" "try_all asset_check (asset_checks c rot cb s) = Inr ()"
      "codebook_eq cb (from_centroids 512 2 D512_B2_CENTROIDS)"
    and p: "p = \<lparr> tp_config = c, tp_rotation = rot, tp_codebook = cb, tp_qjl = s \<rparr>"
    using assms(1) by (simp_all add: from_assets_ok_iff)
  show "tp_config p = c"
    by (simp add: p)
  have "rot_dim rot = cfg_dim c" "qjl_dim s = cfg_dim c" "qjl_qjl_dim s = cfg_qjl_dim c"
    using f(2) unfolding try_asset_checks_ok_iff by metis+
  then show "prod_ok p"
    using f(1) codebook_eq_lengths [OF f(3)] assms(2,3)
    by (simp add: p prod_ok_def committed_lengths)
qed

lemma committed_threshold_number:
  assumes "t \<in> set (cb_thresholds (from_centroids 512 2 D512_B2_CENTROIDS))"
  shows "\<not> f32_is_nan t"
proof -
  let ?cb = "from_centroids 512 2 D512_B2_CENTROIDS"
  have c: "committed 512 2 = Some ?cb"
    by (simp add: committed_def)
  obtain a b where ab: "(a, b) \<in> set (windows2 D512_B2_CENTROIDS)" "t = threshold_between a b"
    using assms by (auto simp: from_centroids_def)
  have "exact_sum a b"
    using committed_ok(2) [OF c] ab(1) by (auto simp: from_centroids_def list_all_iff)
  moreover have "f32_lt a b" "f32_is_finite a" "f32_is_finite b"
    using ab(1) by (auto simp: committed_centroids windows2_def fl_eval)
  ultimately have "f32_le t b"
    using threshold_separates [of a b b] f32_lt_units [of a b] by (simp add: ab(2))
  then show ?thesis
    by (auto simp: f32_le_def f32_lt_def f32_eq_def fl_lt_def fl_eq_def f32_is_nan_def)
qed

lemma committed_eq_refl:
  "codebook_eq (from_centroids 512 2 D512_B2_CENTROIDS) (from_centroids 512 2 D512_B2_CENTROIDS)"
proof -
  have eq: "f32_eq x x" if "\<not> f32_is_nan x" for x
    using that by (simp add: f32_eq_def fl_eq_def f32_is_nan_def)
  have "f32_eq x x" if "x \<in> set D512_B2_CENTROIDS" for x
    using that by (auto simp: committed_centroids fl_eval)
  then show ?thesis
    using committed_threshold_number eq
    by (auto simp: codebook_eq_def same_floats_def list_all2_same from_centroids_def)
qed


section \<open>Encoding does not panic and unpacks\<close>

lemma zip_upt_map: "zip [0..<length xs] xs = map (\<lambda>i. (i, xs ! i)) [0..<length xs]"
  by (rule nth_equalityI) simp_all

lemma fold_zip_upt: "fold f (zip [0..<length xs] xs) z = fold (\<lambda>i. f (i, xs ! i)) [0..<length xs] z"
  by (simp add: zip_upt_map fold_map o_def)

lemma foldl_zip_upt: "foldl f z (zip [0..<length xs] xs) = foldl (\<lambda>a i. f a (i, xs ! i)) z [0..<length xs]"
  by (simp add: zip_upt_map foldl_map)

lemma upt_shift_tail: "p \<le> n \<Longrightarrow> [0..<n] = [0..<p] @ map (\<lambda>i. i + p) [0..<n - p]"
  using upt_add_eq_append [of 0 p "n - p"] by (simp add: map_add_upt)

text \<open>A fold over the bytes of a code and the fields of each byte is a fold over the fields.\<close>

lemma foldl_chunks:
  assumes "0 < p" "length bs = (length xs + (p - 1)) div p"
  shows "foldl (\<lambda>acc (ps, b). foldl (\<lambda>acc (i, x). f acc x b i) acc (zip [0..<length ps] ps)) a (zip (chunks p xs) bs) =
    foldl (\<lambda>acc j. f acc (xs ! j) (bs ! (j div p)) (j mod p)) a [0..<length xs]"
  using assms
proof (induction p xs arbitrary: a bs rule: chunks.induct)
  case (1 p xs)
  show ?case
  proof (cases "xs = []")
    case True
    then show ?thesis
      by (simp add: chunks.simps)
  next
    case False
    define n where "n = length xs"
    have n: "0 < n"
      using False by (simp add: n_def)
    have c: "chunks p xs = take p xs # chunks p (drop p xs)"
      using False "1.prems"(1) by (subst chunks.simps) simp
    have "p \<le> n + (p - 1)"
      using n by linarith
    then have "0 < length bs"
      using "1.prems" by (simp add: div_greater_zero_iff flip: n_def)
    then obtain b bs' where bs: "bs = b # bs'"
      by (cases bs) simp_all
    define a' where "a' = foldl (\<lambda>acc (i, x). f acc x b i) a (zip [0..<length (take p xs)] (take p xs))"
    have head: "a' = foldl (\<lambda>acc j. f acc (xs ! j) (bs ! (j div p)) (j mod p)) a [0..<min n p]"
      unfolding a'_def foldl_zip_upt by (rule foldl_cong) (auto simp: bs n_def)
    have len: "length bs' = (length (drop p xs) + (p - 1)) div p"
    proof (cases "p \<le> n")
      case True
      then have "n + (p - 1) = p + (n - p + (p - 1))"
        by simp
      then have "(n + (p - 1)) div p = Suc ((n - p + (p - 1)) div p)"
        using "1.prems"(1) by (metis div_add_self1 Suc_eq_plus1 add.commute less_numeral_extra(3))
      then show ?thesis
        using "1.prems"(2) by (simp add: bs n_def)
    next
      case small: False
      then have "(n + (p - 1)) div p = 1"
        using n by (intro div_nat_eqI) simp_all
      then show ?thesis
        using "1.prems" small by (simp add: bs n_def)
    qed
    have tail: "foldl (\<lambda>acc j. f acc (xs ! j) (bs ! (j div p)) (j mod p)) a' (map (\<lambda>i. i + p) [0..<n - p]) =
        foldl (\<lambda>acc j. f acc (drop p xs ! j) (bs' ! (j div p)) (j mod p)) a' [0..<n - p]"
      unfolding foldl_map using "1.prems"(1)
      by (intro foldl_cong) (auto simp: bs n_def add.commute)
    have "[0..<n] = [0..<min n p] @ map (\<lambda>i. i + p) [0..<n - p]"
      using upt_shift_tail [of p n] by (cases "p \<le> n") (simp_all add: min_def)
    then show ?thesis
      using "1.IH" [of bs' a'] False "1.prems"(1) len tail head
      by (simp add: c bs a'_def n_def)
  qed
qed

lemma codebook_encode_bound: "length (cb_thresholds cb) = 3 \<Longrightarrow> unat (codebook_encode cb x) < 4"
proof -
  assume "length (cb_thresholds cb) = 3"
  then have "length (filter (\<lambda>t. f32_le t x) (cb_thresholds cb)) \<le> 3"
    using length_filter_le [of _ "cb_thresholds cb"] by metis
  then show ?thesis
    by (simp add: codebook_encode_def sum_list_indicator unat_of_nat take_bit_nat_eq_self)
qed

definition chosen_centroid :: "lloyd_max_codebook \<Rightarrow> f32 \<Rightarrow> f32" where
  "chosen_centroid cb x = cb_centroids cb ! unat (codebook_encode cb x)"

lemma encode_coordinates_step:
  assumes "length (cb_centroids cb) = 4" "length (cb_thresholds cb) = 3" "i + length xs = length ys"
    "xs = drop i ys"
  shows "encode_coordinates cb i xs (idx, res) =
    Some (fold (\<lambda>k bs. or_byte bs (k div 4) (push_bit (2 * (k mod 4)) (codebook_encode cb (ys ! k)))) [i..<length ys] idx,
          res @ map (\<lambda>x. f32_sub x (chosen_centroid cb x)) xs)"
  using assms(3,4)
proof (induction xs arbitrary: i idx res)
  case (Cons x xs)
  have i: "i < length ys"
    using Cons.prems(1) by simp
  have "x # xs = ys ! i # drop (Suc i) ys"
    using Cons.prems(2) Cons_nth_drop_Suc [OF i] by (rule trans [OF _ sym])
  then have x: "x = ys ! i" "xs = drop (Suc i) ys"
    by simp_all
  have d: "codebook_decode cb (codebook_encode cb x) = Some (chosen_centroid cb x)"
    using codebook_encode_bound [OF assms(2), of x] assms(1) by (simp add: codebook_decode_def chosen_centroid_def)
  have u: "[i..<length ys] = i # [Suc i..<length ys]"
    using i by (rule upt_conv_Cons)
  have l: "Suc i + length xs = length ys"
    using Cons.prems(1) by simp
  show ?case
    unfolding encode_coordinates.simps encode_coordinate_def prod.case Let_def d option.map bind.bind_lunit
      Cons.IH [OF l x(2)] u
    by (simp add: COORDINATES_PER_BYTE_def IDX_BITS_def x(1))
qed simp

lemma encode_coordinates_all:
  assumes "length (cb_centroids cb) = 4" "length (cb_thresholds cb) = 3"
  shows "encode_coordinates cb 0 xs (replicate m 0, []) =
    Some (pack_fields 2 4 (\<lambda>k. codebook_encode cb (xs ! k)) m (length xs),
          map (\<lambda>x. f32_sub x (chosen_centroid cb x)) xs)"
  using encode_coordinates_step [OF assms, of 0 xs xs "replicate m 0" "[]"] by (simp add: pack_fields_def)

lemma qjl_encode_fields:
  assumes "qjl_ok s" "length residual = unat (qjl_dim s)"
  shows "qjl_encode s residual (replicate (signs_len s) 0) =
    Inr (pack_fields 1 8 (\<lambda>j. if f32_le 0 (dot (chunks_exact (length residual) (qjl_values s) ! j) residual) then 1 else 0)
      (signs_len s) (unat (qjl_qjl_dim s)))"
proof -
  have n: "length (chunks_exact (unat (qjl_dim s)) (qjl_values s)) = unat (qjl_qjl_dim s)"
    using assms(1) by (simp add: qjl_ok_def length_chunks_exact unat_eq_zero)
  have "set_sign j = (\<lambda>b bs. or_byte bs (j div 8) (push_bit (1 * (j mod 8)) (if b then 1 else 0)))" for j
    by (intro ext) (simp add: set_sign_def)
  then show ?thesis
    using assms n by (simp add: qjl_encode_def check_len_def Let_def fold_zip_upt pack_fields_def)
qed


text \<open>The codec never panics on a vector of its dimension, and its codes have fixed lengths.\<close>

lemma prod_encode_cases:
  assumes ok: "prod_ok p" and len: "length vector = unat (cfg_dim (tp_config p))"
    and fin: "list_all f32_is_finite vector" and nrm: "f32_is_finite (f32_of_f64 (f64_norm vector))"
    and x: "rotate_vec (tp_rotation p) (unit_vector vector (f64_norm vector)) (length vector) = Inr x"
  defines "cb \<equiv> tp_codebook p" and "s \<equiv> tp_qjl p"
  defines "residual \<equiv> map (\<lambda>v. f32_sub v (chosen_centroid cb v)) x"
  shows "prod_encode p vector = Some (Inr
    \<lparr> ep_idx = pack_fields 2 4 (\<lambda>k. codebook_encode cb (x ! k)) (prod_idx_len p) (length vector),
      ep_signs = pack_fields 1 8 (\<lambda>j. if f32_le 0 (dot (chunks_exact (length vector) (qjl_values s) ! j) residual) then 1 else 0)
        (signs_len s) (unat (qjl_qjl_dim s)),
      ep_gamma = f32_of_f64 (f64_norm residual), ep_norm = f32_of_f64 (f64_norm vector) \<rparr>)"
proof -
  have lx: "length x = length vector"
    using rotate_vec_length [OF _ x] ok len by (simp add: prod_ok_def)
  then have lr: "length residual = unat (qjl_dim (tp_qjl p))"
    using ok len by (simp add: residual_def prod_ok_def)
  have c: "length (cb_centroids (tp_codebook p)) = 4" "length (cb_thresholds (tp_codebook p)) = 3"
      and q: "qjl_ok (tp_qjl p)"
    using ok by (simp_all add: prod_ok_def)
  have l: "length residual = length vector"
    by (simp add: residual_def lx)
  show ?thesis
    using qjl_encode_fields [OF q lr] fin nrm x encode_coordinates_all [OF c, of x "prod_idx_len p"]
    by (simp add: prod_encode_def prod_check_len_def len Let_def residual_def [symmetric] cb_def s_def lx l
        flip: cb_def)
qed

lemma prod_rotate_returns:
  assumes "prod_ok p" "length v = unat (cfg_dim (tp_config p))"
  shows "\<exists>x. rotate_vec (tp_rotation p) v (length v) = Inr x \<and> length x = length v"
proof -
  have "\<exists>x. rotate_vec (tp_rotation p) v (length v) = Inr x"
    using assms by (simp add: rotate_vec_ok_iff prod_ok_def)
  then show ?thesis
    using rotate_vec_length [of "tp_rotation p"] assms by (auto simp: prod_ok_def)
qed

lemma prod_encode_panic_free: "prod_ok p \<Longrightarrow> prod_encode p vector \<noteq> None"
proof (cases "length vector = unat (cfg_dim (tp_config p)) \<and> list_all f32_is_finite vector \<and>
    f32_is_finite (f32_of_f64 (f64_norm vector))")
  case True
  assume ok: "prod_ok p"
  have u: "length (unit_vector vector (f64_norm vector)) = length vector"
    by (simp add: unit_vector_def)
  obtain x where "rotate_vec (tp_rotation p) (unit_vector vector (f64_norm vector)) (length vector) = Inr x"
    using prod_rotate_returns [OF ok, of "unit_vector vector (f64_norm vector)"] True by (auto simp: u)
  then show ?thesis
    using prod_encode_cases [OF ok] True by auto
next
  case False
  then show ?thesis
    by (auto simp: prod_encode_def prod_check_len_def Let_def)
qed


lemma prod_encode_okD:
  assumes "prod_ok p" "prod_encode p vector = Some (Inr e)"
  shows "length vector = unat (cfg_dim (tp_config p))" "list_all f32_is_finite vector"
    "f32_is_finite (f32_of_f64 (f64_norm vector))"
  using assms(2) by (auto simp: prod_encode_def prod_check_len_def Let_def split: if_splits)


section \<open>A code scores as the codec defines\<close>

definition prod_reference :: "turbo_quant_prod \<Rightarrow> f32 list \<Rightarrow> f32 list \<Rightarrow> f32" where
  "prod_reference p query vector =
     (let rotation_rows = chunks_exact (length vector) (rot_matrix (tp_rotation p));
          qjl_rows = chunks_exact (length vector) (qjl_values (tp_qjl p));
          nrm = f64_norm vector;
          x = map (\<lambda>row. dot row (unit_vector vector nrm)) rotation_rows;
          y = map (\<lambda>row. dot row query) rotation_rows;
          chosen = map (chosen_centroid (tp_codebook p)) x;
          residual = map2 f32_sub x chosen;
          scale = f32_of_f64 (f64_div (f64_sqrt 0x3FF921FB54442D18) (f64_of_nat (unat (qjl_qjl_dim (tp_qjl p)))))
      in f32_mul (f32_of_f64 nrm)
           (f32_add (foldl f32_add 0 (map2 f32_mul y chosen))
              (f32_mul (f32_mul (f32_of_f64 (f64_norm residual)) scale)
                 (foldl f32_add 0 (map (\<lambda>row. if f32_le 0 (dot row residual) then dot row y else f32_neg (dot row y))
                    qjl_rows)))))"

lemma mse_term_fields:
  assumes "length idx = (length lut + 3) div 4"
  shows "mse_term lut idx =
    foldl f32_add 0 (map (\<lambda>i. lut ! i ! unat (field_at idx (i div 4) (2 * (i mod 4)) (mask 2))) [0..<length lut])"
  using foldl_chunks [of 4 idx lut "\<lambda>acc row byte slot. f32_add acc (row ! unat (drop_bit (2 * slot) byte AND 3))" 0]
    assms
  by (simp add: mse_term_def COORDINATES_PER_BYTE_def IDX_BITS_def field_at_def mask_eq_exp_minus_1 foldl_map)

lemma signed_sum_fields:
  assumes "length signs = (length (pq_projected q) + 7) div 8"
  shows "signed_sum q signs =
    Some (foldl f32_add 0 (map (\<lambda>i. if bit (signs ! (i div 8)) (i mod 8) then pq_projected q ! i
      else f32_neg (pq_projected q ! i)) [0..<length (pq_projected q)]))"
  using foldl_chunks [of 8 signs "pq_projected q" "\<lambda>acc value byte i. f32_add acc (if bit byte i then value else f32_neg value)" 0]
    assms
  by (simp add: signed_sum_def foldl_map)

lemma take_bit_small: "unat v < 2 ^ n \<Longrightarrow> take_bit n v = (v :: u8)"
  by (simp add: word_unat_eq_iff unsigned_take_bit_eq take_bit_nat_eq_self)

text \<open>
  C26. For a well-formed codec, scoring an encoded vector with a prepared query
  does not panic and is bit for bit the formula of the module documentation: the norm times the
  sum of the rotated query with the chosen centroids plus gamma times the scaled, signed sum of
  the projected query, in the order of the indices.  The packed bytes, the table and the loops
  over chunks lose nothing.
\<close>

theorem prod_score_exact:
  assumes ok: "prod_ok p" and e: "prod_encode p vector = Some (Inr e)"
    and q: "prepare_prod_query p query = Some (Inr prepared)"
  shows "prod_score prepared (encoded_code e) = Some (prod_reference p query vector)"
proof -
  define cb where "cb = tp_codebook p"
  define s where "s = tp_qjl p"
  define n where "n = length vector"
  define m where "m = unat (qjl_qjl_dim s)"
  define rows where "rows = chunks_exact n (rot_matrix (tp_rotation p))"
  define srows where "srows = chunks_exact n (qjl_values s)"
  define unit where "unit = unit_vector vector (f64_norm vector)"
  define x where "x = map (\<lambda>row. dot row unit) rows"
  define y where "y = map (\<lambda>row. dot row query) rows"
  define residual where "residual = map (\<lambda>v. f32_sub v (chosen_centroid cb v)) x"
  note v = prod_encode_okD [OF ok e]
  have n: "n = unat (cfg_dim (tp_config p))" "length query = n"
    using v(1) q by (auto simp: n_def prepare_prod_query_def prod_check_len_def Let_def split: if_splits)
  have d: "n = unat (rot_dim (tp_rotation p))" "n = unat (qjl_dim s)" "0 < n"
    using ok n by (auto simp: prod_ok_def s_def rotation_ok_def unat_gt_0)
  have lr: "length rows = n" and ls: "length srows = m"
    using ok d by (simp_all add: rows_def srows_def prod_ok_def rotation_ok_def qjl_ok_def length_chunks_exact s_def m_def)
  have rx: "rotate_vec (tp_rotation p) unit (length vector) = Inr x"
    using d(1) by (simp add: rotate_vec_ok_iff unit_def unit_vector_def x_def rows_def n_def)
  have ry: "rotate_vec (tp_rotation p) query (length query) = Inr y"
    using d(1) n(2) by (simp add: rotate_vec_ok_iff y_def rows_def)
  have lx: "length x = n" and ly: "length y = n"
    by (simp_all add: x_def y_def lr)
  have c: "length (cb_centroids cb) = 4" "length (cb_thresholds cb) = 3"
    using ok by (simp_all add: prod_ok_def cb_def)
  have e': "e = \<lparr> ep_idx = pack_fields 2 4 (\<lambda>k. codebook_encode cb (x ! k)) (prod_idx_len p) n,
      ep_signs = pack_fields 1 8 (\<lambda>j. if f32_le 0 (dot (srows ! j) residual) then 1 else 0) (signs_len s) m,
      ep_gamma = f32_of_f64 (f64_norm residual), ep_norm = f32_of_f64 (f64_norm vector) \<rparr>"
    using prod_encode_cases [OF ok v rx [unfolded unit_def]] e
    by (simp add: cb_def s_def n_def m_def residual_def srows_def)
  have prepared: "pp_lut prepared = map (\<lambda>value. map (\<lambda>k. f32_mul value (cb_centroids cb ! k)) [0..<4]) y"
      "prepare_qjl_query s y = Inr (pp_qjl prepared)"
    using q ry c n by (auto simp: prepare_prod_query_def prod_check_len_def Let_def cb_def s_def split: sum.splits)
  have "pp_qjl prepared = \<lparr> pq_projected = map (\<lambda>row. dot row y) srows,
      pq_scale = f32_of_f64 (f64_div (f64_sqrt 0x3FF921FB54442D18) (f64_of_nat m)) \<rparr>"
    using prepared(2) ly d(2) by (simp add: prepare_qjl_query_def check_len_def m_def srows_def)
  then have pq: "pq_projected (pp_qjl prepared) = map (\<lambda>row. dot row y) srows"
      "pq_scale (pp_qjl prepared) = f32_of_f64 (f64_div (f64_sqrt 0x3FF921FB54442D18) (f64_of_nat m))"
    by simp_all
  have idx: "prod_idx_len p = (n + 3) div 4"
    by (simp add: prod_idx_len_def COORDINATES_PER_BYTE_def n(1))
  have field: "field_at (ep_idx e) (i div 4) (2 * (i mod 4)) (mask 2) = codebook_encode cb (x ! i)" if "i < n" for i
    using that codebook_encode_bound [OF c(2)] unfolding e' idx encoded_turbo_prod.select_convs
    by (intro read_pack_fields) (simp_all add: take_bit_small)
  have lut: "pp_lut prepared ! i ! unat (field_at (ep_idx e) (i div 4) (2 * (i mod 4)) (mask 2)) =
      f32_mul (y ! i) (chosen_centroid cb (x ! i))" if "i < n" for i
    using codebook_encode_bound [OF c(2)] that ly by (simp add: field prepared(1) chosen_centroid_def)
  have mse: "mse_term (pp_lut prepared) (ep_idx e) =
      foldl f32_add 0 (map (\<lambda>i. f32_mul (y ! i) (chosen_centroid cb (x ! i))) [0..<n])"
  proof -
    have l: "length (pp_lut prepared) = n" "length (ep_idx e) = (n + 3) div 4"
      by (simp_all add: prepared(1) ly e' idx)
    have "map (\<lambda>i. pp_lut prepared ! i ! unat (field_at (ep_idx e) (i div 4) (2 * (i mod 4)) (mask 2))) [0..<n] =
        map (\<lambda>i. f32_mul (y ! i) (chosen_centroid cb (x ! i))) [0..<n]"
      by (rule map_cong [OF refl]) (simp add: lut)
    then show ?thesis
      using mse_term_fields [of "ep_idx e" "pp_lut prepared"] by (simp only: l)
  qed
  have sign: "bit (ep_signs e ! (j div 8)) (j mod 8) \<longleftrightarrow> f32_le 0 (dot (srows ! j) residual)" if "j < m" for j
  proof -
    have "field_at (ep_signs e) (j div 8) (1 * (j mod 8)) (mask 1) =
        (if f32_le 0 (dot (srows ! j) residual) then 1 else 0)"
      using that unfolding e' encoded_turbo_prod.select_convs signs_len_def m_def
      by (intro read_pack_fields) (simp_all add: take_bit_Suc_0)
    then have "bit (field_at (ep_signs e) (j div 8) (j mod 8) (mask 1)) 0 = f32_le 0 (dot (srows ! j) residual)"
      by (simp split: if_splits)
    then show ?thesis
      by (simp add: field_at_def bit_simps)
  qed
  have est: "qjl_estimate (pp_qjl prepared) (ep_signs e) (ep_gamma e) =
      Some (f32_mul (f32_mul (f32_of_f64 (f64_norm residual)) (f32_of_f64 (f64_div (f64_sqrt 0x3FF921FB54442D18) (f64_of_nat m))))
        (foldl f32_add 0 (map (\<lambda>j. if f32_le 0 (dot (srows ! j) residual) then dot (srows ! j) y
           else f32_neg (dot (srows ! j) y)) [0..<m])))"
  proof -
    have "length (ep_signs e) = (length (pq_projected (pp_qjl prepared)) + 7) div 8"
      by (simp add: e' signs_len_def pq ls flip: m_def)
    note sum = signed_sum_fields [OF this]
    have "map (\<lambda>i. if bit (ep_signs e ! (i div 8)) (i mod 8) then pq_projected (pp_qjl prepared) ! i
        else f32_neg (pq_projected (pp_qjl prepared) ! i)) [0..<m] =
      map (\<lambda>j. if f32_le 0 (dot (srows ! j) residual) then dot (srows ! j) y else f32_neg (dot (srows ! j) y)) [0..<m]"
      by (rule map_cong [OF refl]) (simp add: sign pq ls)
    moreover have "length (pq_projected (pp_qjl prepared)) = m"
      by (simp add: pq ls)
    moreover have "ep_gamma e = f32_of_f64 (f64_norm residual)"
      by (simp add: e')
    ultimately show ?thesis
      using sum by (simp only: qjl_estimate_def option.map pq(2))
  qed
  have "prod_score prepared (encoded_code e) = Some (f32_mul (ep_norm e)
      (f32_add (mse_term (pp_lut prepared) (ep_idx e))
        (the (qjl_estimate (pp_qjl prepared) (ep_signs e) (ep_gamma e)))))"
    by (simp add: prod_score_def prod_score_breakdown_def encoded_code_def est prepared(1) ly COORDINATES_PER_BYTE_def
        prod_score_total_def) (simp add: e' idx)
  moreover have "map2 f32_mul y (map (chosen_centroid cb) x) = map (\<lambda>i. f32_mul (y ! i) (chosen_centroid cb (x ! i))) [0..<n]"
      "map2 f32_sub x (map (chosen_centroid cb) x) = residual"
      "map g srows = map (\<lambda>j. g (srows ! j)) [0..<m]" for g :: "f32 list \<Rightarrow> f32"
    by (rule nth_equalityI; simp add: lx ly ls residual_def)+
  ultimately show ?thesis
    unfolding prod_reference_def Let_def n_def [symmetric] rows_def [symmetric] s_def [symmetric] srows_def [symmetric]
      cb_def [symmetric] unit_def [symmetric] x_def [symmetric] y_def [symmetric] m_def [symmetric]
    by (simp add: mse est) (simp add: e')
qed


definition demo_prod :: turbo_quant_prod where
  "demo_prod = \<lparr> tp_config = prod_v1,
     tp_rotation = \<lparr> rot_dim = 512, rot_seed = 163, rot_generator_version = 1,
       rot_matrix = concat (map (\<lambda>i. (replicate 512 0)[i := f32_one]) [0..<512]) \<rparr>,
     tp_codebook = from_centroids 512 2 D512_B2_CENTROIDS,
     tp_qjl = \<lparr> qjl_dim = 512, qjl_qjl_dim = 512, qjl_seed = 165, qjl_generator_version = 1,
       qjl_values = replicate (512 * 512) f32_one \<rparr> \<rparr>"

lemma prod_v1_checked: "check_config prod_v1 = Inr ()"
  by (simp add: check_config_ok_iff validate_config_ok_iff prod_v1_def)

lemma demo_prod_ok: "prod_ok demo_prod"
  using prod_v1_checked
  by (simp add: prod_ok_def demo_prod_def rotation_ok_def qjl_ok_def committed_lengths
      length_concat_const [where n = 512]) (simp add: prod_v1_def)

lemma isqrt_square: "isqrt (r * r) = r"
proof -
  define s where "s = isqrt (r * r)"
  have b: "s * s \<le> r * r" "r * r < (s + 1) * (s + 1)"
    using isqrt_bounds [of "r * r"] by (simp_all add: s_def)
  have "s \<le> r"
    using b(1) mult_strict_mono' [of r s r s] by (cases "r < s") simp_all
  moreover have "r < s + 1"
    using b(2) mult_le_mono [of "s + 1" r "s + 1" r] by (cases "s + 1 \<le> r") simp_all
  ultimately show ?thesis
    by (simp add: s_def)
qed

lemma pattern_one:
  defines "one \<equiv> 0x3FF0000000000000 :: nat"
  shows "mag_val 52 one = 2 ^ ulp_exp 52 11" "fl_mag 52 11 one = one" "\<not> fl_is_nan 52 11 one" "\<not> fl_is_inf 52 11 one"
    "\<not> fl_sign 52 11 one" "fl_pack 52 11 False one = one" "one \<le> inf_mag 52 11"
  unfolding one_def by (simp_all add: fl_eval)

lemma f64_sqrt_one: "f64_sqrt 0x3FF0000000000000 = 0x3FF0000000000000"
proof -
  have "round_mag 52 11 (2 * 2 ^ ulp_exp 52 11) 2 = 0x3FF0000000000000"
    using round_mag_exact [of 2 "0x3FF0000000000000" 52 11] pattern_one by (simp add: mult.commute)
  then have "fl_sqrt 52 11 0x3FF0000000000000 = 0x3FF0000000000000"
    by (simp add: fl_sqrt_def pattern_one isqrt_square Let_def)
  then show ?thesis
    by (simp add: f64_sqrt_def)
qed

lemma f64_mul_one: "f64_mul 0x3FF0000000000000 0x3FF0000000000000 = 0x3FF0000000000000"
proof -
  have "round_mag 52 11 (2 ^ ulp_exp 52 11 * 2 ^ ulp_exp 52 11) (2 ^ ulp_exp 52 11) = 0x3FF0000000000000"
    using round_mag_exact [of "2 ^ ulp_exp 52 11" "0x3FF0000000000000" 52 11] pattern_one by simp
  then have "fl_mul 52 11 0x3FF0000000000000 0x3FF0000000000000 = 0x3FF0000000000000"
    by (simp add: fl_mul_def pattern_one Let_def)
  then show ?thesis
    by (simp add: f64_mul_def)
qed

lemma f64_add_one:
  "f64_add 0x3FF0000000000000 0 = 0x3FF0000000000000" "f64_add 0x8000000000000000 0x3FF0000000000000 = 0x3FF0000000000000"
proof -
  have "round_mag 52 11 (2 ^ ulp_exp 52 11) 1 = 0x3FF0000000000000"
    using round_mag_exact [of 1 "0x3FF0000000000000" 52 11] pattern_one by simp
  moreover have "\<not> fl_is_nan 52 11 0" "\<not> fl_is_inf 52 11 0" "\<not> fl_is_nan 52 11 0x8000000000000000"
      "\<not> fl_is_inf 52 11 0x8000000000000000" "fl_mag 52 11 0 = 0" "fl_mag 52 11 0x8000000000000000 = 0"
    by (simp_all add: fl_is_nan_def fl_is_inf_def fl_mag_def inf_mag_def)
  ultimately have "fl_add 52 11 0x3FF0000000000000 0 = 0x3FF0000000000000"
      "fl_add 52 11 0x8000000000000000 0x3FF0000000000000 = 0x3FF0000000000000"
    by (simp_all add: fl_add_def fl_units_def pattern_one Let_def nat_power_eq)
  then show "f64_add 0x3FF0000000000000 0 = 0x3FF0000000000000"
      "f64_add 0x8000000000000000 0x3FF0000000000000 = 0x3FF0000000000000"
    by (simp_all add: f64_add_def)
qed

lemma convert_one: "f64_of_f32 f32_one = 0x3FF0000000000000" "f32_of_f64 0x3FF0000000000000 = f32_one"
proof -
  have one: "mag_val 23 0x3F800000 = 2 ^ ulp_exp 23 8" "fl_mag 23 8 0x3F800000 = 0x3F800000" "\<not> fl_is_nan 23 8 0x3F800000"
      "\<not> fl_is_inf 23 8 0x3F800000" "\<not> fl_sign 23 8 0x3F800000" "fl_pack 23 8 False 0x3F800000 = 0x3F800000"
      "0x3F800000 \<le> inf_mag 23 8"
    by (simp_all add: fl_eval)
  have "round_mag 52 11 (2 ^ ulp_exp 23 8 * 2 ^ ulp_exp 52 11) (2 ^ ulp_exp 23 8) = 0x3FF0000000000000"
    using round_mag_exact [of "2 ^ ulp_exp 23 8" "0x3FF0000000000000" 52 11] pattern_one by (simp add: mult.commute)
  then have "fl_convert 23 8 52 11 0x3F800000 = 0x3FF0000000000000"
    by (simp add: fl_convert_def one pattern_one)
  then show "f64_of_f32 f32_one = 0x3FF0000000000000"
    by (simp add: f64_of_f32_def f32_one_def)
  have "round_mag 23 8 (2 ^ ulp_exp 52 11 * 2 ^ ulp_exp 23 8) (2 ^ ulp_exp 52 11) = 0x3F800000"
    using round_mag_exact [of "2 ^ ulp_exp 52 11" "0x3F800000" 23 8] one by (simp add: mult.commute)
  then have "fl_convert 52 11 23 8 0x3FF0000000000000 = 0x3F800000"
    by (simp add: fl_convert_def one pattern_one)
  then show "f32_of_f64 0x3FF0000000000000 = f32_one"
    by (simp add: f32_of_f64_def f32_one_def)
qed

lemma one_hot_norm: "f64_norm (f32_one # replicate 511 0) = 0x3FF0000000000000"
proof -
  have z: "foldl f64_add 0x3FF0000000000000 (replicate k 0) = 0x3FF0000000000000" for k
    by (induction k) (simp_all add: f64_add_one)
  have "f64_mul (f64_of_f32 0) (f64_of_f32 0) = 0"
    by (simp add: fl_wide_eval fl_eval)
  then show ?thesis
    using z [of 511] f64_sqrt_one f64_mul_one by (simp add: f64_norm_def f64_sum_def f64_add_one convert_one)
qed

lemma prod_score_exact_witness:
  "\<exists>e prepared. prod_encode demo_prod (f32_one # replicate 511 0) = Some (Inr e) \<and>
     prepare_prod_query demo_prod (replicate 512 f32_one) = Some (Inr prepared) \<and>
     prod_score prepared (encoded_code e) =
       Some (prod_reference demo_prod (replicate 512 f32_one) (f32_one # replicate 511 0))"
proof -
  let ?v = "f32_one # replicate 511 0" and ?q = "replicate 512 f32_one"
  have d: "unat (cfg_dim (tp_config demo_prod)) = 512"
    by (simp add: demo_prod_def prod_v1_def)
  have nrm: "f32_is_finite (f32_of_f64 (f64_norm ?v))"
    unfolding one_hot_norm convert_one by (simp add: f32_one_def fl_eval)
  have fin: "list_all f32_is_finite ?v"
    by (simp add: list_all_iff f32_one_def fl_eval)
  have lu: "length (unit_vector ?v (f64_norm ?v)) = length ?v"
    by (simp add: unit_vector_def)
  obtain x where "rotate_vec (tp_rotation demo_prod) (unit_vector ?v (f64_norm ?v)) (length ?v) = Inr x"
    using prod_rotate_returns [OF demo_prod_ok, of "unit_vector ?v (f64_norm ?v)"] lu d by auto
  then obtain e where e: "prod_encode demo_prod ?v = Some (Inr e)"
    using prod_encode_cases [OF demo_prod_ok _ fin nrm] d by auto
  obtain y where y: "rotate_vec (tp_rotation demo_prod) ?q (length ?q) = Inr y" "length y = 512"
    using prod_rotate_returns [OF demo_prod_ok, of ?q] d by auto
  obtain prepared where q: "prepare_prod_query demo_prod ?q = Some (Inr prepared)"
  proof -
    have "length (cb_centroids (tp_codebook demo_prod)) = 4" "unat (qjl_dim (tp_qjl demo_prod)) = 512"
      by (simp_all add: demo_prod_def committed_lengths)
    then show ?thesis
      using that y d by (simp add: prepare_prod_query_def prod_check_len_def prepare_qjl_query_def check_len_def Let_def)
  qed
  show ?thesis
    using prod_score_exact [OF demo_prod_ok e q] e q by blast
qed


section \<open>A generated codec reloads from its files\<close>

lemma committed_check_config:
  assumes "check_config c = Inr ()"
  shows "cfg_dim c = 512" "cfg_mse_bits c = 2" "cfg_qjl_dim c \<noteq> 0"
  using assms by (auto simp: check_config_ok_iff validate_config_ok_iff)

lemma prod_generate_ok:
  assumes "prod_generate sm c = Some (Inr p)"
  shows "tp_config p = c" "prod_ok p" "rotation_ok (tp_rotation p)" "qjl_ok (tp_qjl p)" "codebook_ok (tp_codebook p)"
    "from_assets c (tp_rotation p) (tp_codebook p) (tp_qjl p) = Inr p"
proof -
  obtain cb rot s where c: "check_config c = Inr ()" and cb: "committed_codebook c = Inr cb"
    and rot: "rotation_generate sm (cfg_dim c) (cfg_mse_seed c) = Some rot"
    and s: "qjl_generate sm (cfg_dim c) (cfg_qjl_dim c) (cfg_qjl_seed c) = Some s"
    and p: "from_assets c rot cb s = Inr p"
    using assms by (auto simp: prod_generate_def bind_eq_Some_conv split: sum.splits if_splits)
  have e: "p = \<lparr> tp_config = c, tp_rotation = rot, tp_codebook = cb, tp_qjl = s \<rparr>"
    using p by (simp add: from_assets_ok_iff)
  have o: "rotation_ok rot" "qjl_ok s"
    using rotation_generate_ok(1) [OF rot] qjl_generate_draws(2) [OF s] by simp_all
  have "committed 512 2 = Some cb"
    using cb committed_check_config [OF c] by (simp add: committed_codebook_def ok_or_def split: option.splits)
  then show "codebook_ok (tp_codebook p)"
    unfolding e by (auto intro: committed_ok(1))
  show "prod_ok p"
    by (rule from_assets_prod_ok(1) [OF p o])
  show "tp_config p = c" "rotation_ok (tp_rotation p)" "qjl_ok (tp_qjl p)"
      "from_assets c (tp_rotation p) (tp_codebook p) (tp_qjl p) = Inr p"
    using p o by (simp_all add: e)
qed

lemma prod_generate_returns:
  assumes c: "check_config c = Inr ()" and v: "cfg_generator_version c = GAUSSIAN_GENERATOR_VERSION"
  shows "\<exists>p. prod_generate sm c = Some (Inr p)"
proof -
  note cc = committed_check_config [OF c]
  obtain rot where rot: "rotation_generate sm (cfg_dim c) (cfg_mse_seed c) = Some rot"
    using cc(1) by (simp add: rotation_generate_def case_prod_unfold Let_def)
  obtain s where s: "qjl_generate sm (cfg_dim c) (cfg_qjl_dim c) (cfg_qjl_seed c) = Some s"
    using cc by (simp add: qjl_generate_def word_gt_0)
  note cb = committed_codebook_ok [OF c]
  have "try_all asset_check (asset_checks c rot (from_centroids 512 2 D512_B2_CENTROIDS) s) = Inr ()"
    unfolding try_asset_checks_ok_iff
    using rotation_generate_ok [OF rot] qjl_generate_draws [OF s] v cc by (simp add: from_centroids_def)
  then have "\<exists>p. from_assets c rot (from_centroids 512 2 D512_B2_CENTROIDS) s = Inr p"
    unfolding from_assets_ok_iff using c committed_eq_refl by simp
  then show ?thesis
    using c v rot s cb by (auto simp: prod_generate_def)
qed

text \<open>
  C27. What a builder generates, a reader gets back: the three asset
  files of a generated codec parse, and assembling them under the same configuration gives the
  codec itself, whatever the random streams were.
\<close>

theorem generated_codec_reloads:
  assumes "prod_generate sm c = Some (Inr p)"
  shows "\<exists>rot cb s. rotation_from_bytes (rotation_to_bytes (tp_rotation p)) = Inr rot \<and>
    codebook_from_bytes (codebook_to_bytes (tp_codebook p)) = Inr cb \<and>
    qjl_from_bytes (qjl_to_bytes (tp_qjl p)) = Inr s \<and> from_assets c rot cb s = Inr p"
  using prod_generate_ok [OF assms] rotation_file.read_write codebook_file.read_write qjl_file.read_write
  by blast

lemma generated_codec_reloads_witness:
  "\<exists>p rot cb s. prod_generate \<lparr> sm_words = (\<lambda>seed stream pos. of_nat pos), sm_log = (\<lambda>x. x), sm_sincos = (\<lambda>x. (x, x)) \<rparr> prod_v1 =
      Some (Inr p) \<and>
    rotation_from_bytes (rotation_to_bytes (tp_rotation p)) = Inr rot \<and>
    codebook_from_bytes (codebook_to_bytes (tp_codebook p)) = Inr cb \<and>
    qjl_from_bytes (qjl_to_bytes (tp_qjl p)) = Inr s \<and> from_assets prod_v1 rot cb s = Inr p"
proof -
  have "cfg_generator_version prod_v1 = GAUSSIAN_GENERATOR_VERSION"
    by (simp add: prod_v1_def GAUSSIAN_GENERATOR_VERSION_def)
  then obtain p where "prod_generate \<lparr> sm_words = (\<lambda>seed stream pos. of_nat pos), sm_log = (\<lambda>x. x), sm_sincos = (\<lambda>x. (x, x)) \<rparr>
      prod_v1 = Some (Inr p)"
    using prod_generate_returns [OF prod_v1_checked] by blast
  with generated_codec_reloads [OF this] show ?thesis
    by blast
qed


section \<open>Messages\<close>

fun show_prod_error :: "(string \<Rightarrow> string) \<Rightarrow> turbo_prod_error \<Rightarrow> string" where
  "show_prod_error quoted (ProdConfig e) = ''invalid codec config: '' @ show_config_error quoted e"
| "show_prod_error quoted (NotTurboQuantProd c) =
     msg [''codec '', codec_name c, '' is not '', codec_name TurboQuantProdV1]"
| "show_prod_error quoted (ProdUnsupportedMseBits b) =
     msg [codec_name TurboQuantProdV1, '' packs '', show_nat (unat IDX_BITS), ''-bit indices, got mse_bits '', show_nat (unat b)]"
| "show_prod_error quoted (NoCommittedCodebook d b) =
     msg [''no committed codebook for dim '', show_nat (unat d), '' and mse_bits '', show_nat (unat b)]"
| "show_prod_error quoted (UnsupportedGeneratorVersion v) =
     msg [''cannot generate generator_version '', show_nat (unat v),
          '' assets: this build's generators are version '', show_nat (unat GAUSSIAN_GENERATOR_VERSION)]"
| "show_prod_error quoted (AssetMismatch asset field e a) =
     msg [asset, '' asset '', field, '' mismatch: config expects '', show_nat e, '', asset has '', show_nat a]"
| "show_prod_error quoted NotTheCommittedCodebook =
     msg [''codebook asset is not the committed codebook '', codec_name TurboQuantProdV1, '' is defined with'']"
| "show_prod_error quoted (ProdDimensionMismatch e a) =
     msg [''dimension mismatch: expected '', show_nat e, '', got '', show_nat a]"
| "show_prod_error quoted NonFiniteInput = ''vector contains a non-finite value''"
| "show_prod_error quoted NormOverflow = ''vector norm overflows f32''"

end
