(* ===== verification/Mmap_Index.thy ===== *)
theory Mmap_Index
  imports Prod_Codec Legacy_Codec Publish_Storage
begin

text \<open>
  Loading and reading a static index image (\<^verbatim>\<open>src/index/mmap_index.rs\<close>).  Opening and mapping
  a file is an argument; a mapping has bytes and a start address.  An access that panics, or
  that reads outside a mapping or at an unaligned address, is \<^term>\<open>None\<close>.
\<close>


section \<open>Errors\<close>

datatype mmap_error =
    MmapIo string string
  | MmapHeader header_error
  | MmapAsset string asset_error
  | FileSizeMismatch string nat nat
  | MetaCountMismatch nat nat
  | MetaBlobOutOfBounds nat string
  | MetaBlobInvalidUtf8 nat string
  | MetaExtCountMismatch nat nat
  | MetaExtBlobOutOfBounds nat string
  | MetaExtBlobInvalidUtf8 nat string
  | AssetDimensionMismatch string u32 u32
  | UnsupportedLegacyAsset string string u32 u32
  | MisalignedRecords string nat
  | MmapCodec turbo_prod_error
  | UnsupportedCodeLayout nat nat
  | CodecFingerprintMismatch blob blob

fun show_header_error :: "header_error \<Rightarrow> string" where
  "show_header_error (HeaderInvalidSize e a) =
     msg [''header size mismatch: expected '', show_nat e, '', got '', show_nat a]"
| "show_header_error (HeaderInvalidMagic a) = ''invalid magic bytes: '' @ debug_bytes a"
| "show_header_error HeaderInvalidDim = ''dim must be positive''"
| "show_header_error (UnsupportedVersion v) =
     msg [''unsupported version: '', show_nat (unat v), '' (this build reads versions '',
          show_nat (unat TURBO_VERSION_V2), '' to '', show_nat (unat TURBO_VERSION_V4),
          (if TURBO_VERSION_V4 < v
           then msg [''; deploy a build that reads version '', show_nat (unat v), '' before activating this release'']
           else []), '')'']"
| "show_header_error (UnsupportedLayout v d) =
     msg [''unsupported turbo record layout: version='', show_nat (unat v), '', dim='', show_nat (unat d)]"
| "show_header_error (RecordCountOverflow n) =
     msg [''record count '', show_nat (unat n), '' overflows the file size'']"
| "show_header_error (UnknownCodec c) = ''unknown codec code: '' @ show_nat (unat c)"
| "show_header_error (UnsupportedCodec v c) =
     msg [''version '', show_nat (unat v), '' does not hold '', codec_name c, '' records'']"

definition hex_encode :: "blob \<Rightarrow> string" where
  "hex_encode bs = concat (map (\<lambda>b. hex_digits 2 (unat b)) bs)"

fun show_mmap_error :: "(string \<Rightarrow> string) \<Rightarrow> mmap_error \<Rightarrow> string" where
  "show_mmap_error quoted (MmapIo path e) = msg [''failed to open '', path, '': '', e]"
| "show_mmap_error quoted (MmapHeader e) = ''invalid header: '' @ show_header_error e"
| "show_mmap_error quoted (MmapAsset f e) = msg [''invalid '', f, '': '', show_asset_error e]"
| "show_mmap_error quoted (FileSizeMismatch f e a) =
     msg [f, '' size mismatch: expected '', show_nat e, '' bytes, got '', show_nat a]"
| "show_mmap_error quoted (MetaCountMismatch e a) =
     msg [''meta record count mismatch: expected '', show_nat e, '', got '', show_nat a]"
| "show_mmap_error quoted (MetaBlobOutOfBounds i b) =
     msg [''meta '', b, '' blob out of bounds at record '', show_nat i]"
| "show_mmap_error quoted (MetaBlobInvalidUtf8 i b) =
     msg [''meta '', b, '' blob contains invalid UTF-8 at record '', show_nat i]"
| "show_mmap_error quoted (MetaExtCountMismatch e a) =
     msg [''meta ext record count mismatch: expected '', show_nat e, '', got '', show_nat a]"
| "show_mmap_error quoted (MetaExtBlobOutOfBounds i b) =
     msg [''meta ext '', b, '' blob out of bounds at record '', show_nat i]"
| "show_mmap_error quoted (MetaExtBlobInvalidUtf8 i b) =
     msg [''meta ext '', b, '' blob contains invalid UTF-8 at record '', show_nat i]"
| "show_mmap_error quoted (AssetDimensionMismatch f e a) =
     msg [f, '' dimension mismatch: expected '', show_nat (unat e), '', got '', show_nat (unat a)]"
| "show_mmap_error quoted (UnsupportedLegacyAsset f field e a) =
     msg [f, '' has '', field, ''='', show_nat (unat a), '', but the legacy codec only scores '', field, ''='',
          show_nat (unat e)]"
| "show_mmap_error quoted (MisalignedRecords f n) =
     msg [f, '' records are not mapped at a '', show_nat n, ''-byte aligned address'']"
| "show_mmap_error quoted (MmapCodec e) = ''invalid codec assets: '' @ show_prod_error quoted e"
| "show_mmap_error quoted (UnsupportedCodeLayout i s) =
     msg [''the codec'', [CHR 0x27], ''s codes ('', show_nat i, '' index bytes, '', show_nat s,
          '' sign bytes) are not the 128 and 64 bytes a v4 record holds'']"
| "show_mmap_error quoted (CodecFingerprintMismatch e a) =
     msg [''codec fingerprint mismatch: turbo_static.bin was encoded with '', hex_encode e, '', the asset files are '',
          hex_encode a, ''; the records and the assets are not from the same build'']"


section \<open>Mapped files\<close>

record mapped_file =
  mm_bytes :: blob
  mm_address :: nat

type_synonym mapper = "string \<Rightarrow> string + mapped_file"

definition TURBO_STATIC_FILE :: string where "TURBO_STATIC_FILE = ''turbo_static.bin''"
definition META_FILE :: string where "META_FILE = ''turbo_static_meta.bin''"
definition META_EXT_FILE :: string where "META_EXT_FILE = ''turbo_static_meta_ext.bin''"
definition CENTROIDS_FILE :: string where "CENTROIDS_FILE = ''centroids.bin''"
definition PROJECTION_FILE :: string where "PROJECTION_FILE = ''projection.bin''"
definition TEXT_FILE :: string where "TEXT_FILE = ''turbo_static_text.bin''"
definition TITLE_FILE :: string where "TITLE_FILE = ''turbo_static_title.bin''"
definition DOCID_FILE :: string where "DOCID_FILE = ''turbo_static_docid.bin''"
definition META_JSON_FILE :: string where "META_JSON_FILE = ''turbo_static_meta_json.bin''"

definition mmap_file :: "mapper \<Rightarrow> string \<Rightarrow> mmap_error + mapped_file" where
  "mmap_file files path = map_err (MmapIo path) (files path)"

definition ensure_aligned :: "nat \<Rightarrow> string \<Rightarrow> mapped_file \<Rightarrow> nat \<Rightarrow> mmap_error + unit" where
  "ensure_aligned alignment file m offset =
     (if alignment dvd mm_address m + offset then Inr () else Inl (MisalignedRecords file alignment))"

text \<open>
  The cast of the bytes at an offset to a record of a given size.  Every record type has
  alignment 8: its widest field is a \<^verbatim>\<open>u64\<close>.
\<close>

definition cast_at :: "(blob \<Rightarrow> 'r) \<Rightarrow> nat \<Rightarrow> mapped_file \<Rightarrow> nat \<Rightarrow> 'r option" where
  "cast_at dec width m offset =
     (if offset + width \<le> length (mm_bytes m) \<and> 8 dvd mm_address m + offset
      then Some (dec (span (mm_bytes m) offset width)) else None)"

text \<open>\<^verbatim>\<open>range_in_blob\<close>: the sum is checked at the width of \<^verbatim>\<open>usize\<close>.\<close>

definition range_in_blob :: "nat \<Rightarrow> u64 \<Rightarrow> u32 \<Rightarrow> bool" where
  "range_in_blob blob_len offset len =
     (case checked_add_u64 (unat offset) (unat len) of None \<Rightarrow> False | Some end \<Rightarrow> end \<le> blob_len)"


section \<open>Loading\<close>

datatype index_codec =
    LegacyAssets centroid_table projection_matrix
  | ProdAssets turbo_quant_prod

record mmap_index =
  mi_header :: turbo_header
  mi_layout :: record_layout
  mi_bin :: mapped_file
  mi_meta :: mapped_file
  mi_text :: mapped_file
  mi_title :: mapped_file
  mi_meta_ext :: "mapped_file option"
  mi_docid :: "mapped_file option"
  mi_meta_json :: "mapped_file option"
  mi_codec :: index_codec

definition load_legacy_codec :: "mapper \<Rightarrow> string \<Rightarrow> turbo_header \<Rightarrow> mmap_error + index_codec" where
  "load_legacy_codec files dir header =
     and_then (mmap_file files (path_join dir CENTROIDS_FILE)) (\<lambda>centroids_mmap.
     and_then (mmap_file files (path_join dir PROJECTION_FILE)) (\<lambda>projection_mmap.
     and_then (map_err (MmapAsset CENTROIDS_FILE) (centroid_table_from_bytes (mm_bytes centroids_mmap))) (\<lambda>centroids.
       if ct_dim centroids \<noteq> th_dim header
       then Inl (AssetDimensionMismatch CENTROIDS_FILE (th_dim header) (ct_dim centroids))
       else if ct_centroids_per_dim centroids \<noteq> 4
       then Inl (UnsupportedLegacyAsset CENTROIDS_FILE ''centroids_per_dim'' 4 (ct_centroids_per_dim centroids))
       else
         and_then (map_err (MmapAsset PROJECTION_FILE) (projection_from_bytes (mm_bytes projection_mmap))) (\<lambda>projection.
           if pm_input_dim projection \<noteq> th_dim header
           then Inl (AssetDimensionMismatch PROJECTION_FILE (th_dim header) (pm_input_dim projection))
           else if pm_output_dim projection \<noteq> th_dim header
           then Inl (AssetDimensionMismatch PROJECTION_FILE (th_dim header) (pm_output_dim projection))
           else Inr (LegacyAssets centroids projection)))))"

definition load_prod_codec :: "(blob \<Rightarrow> blob) \<Rightarrow> mapper \<Rightarrow> string \<Rightarrow> turbo_header \<Rightarrow> mmap_error + index_codec" where
  "load_prod_codec sha256 files dir header =
     and_then (mmap_file files (path_join dir ROTATION_FILE)) (\<lambda>rotation_mmap.
     and_then (mmap_file files (path_join dir CODEBOOK_FILE)) (\<lambda>codebook_mmap.
     and_then (mmap_file files (path_join dir QJL_FILE)) (\<lambda>qjl_mmap.
     and_then (map_err (MmapAsset ROTATION_FILE) (rotation_from_bytes (mm_bytes rotation_mmap))) (\<lambda>rotation.
     and_then (map_err (MmapAsset CODEBOOK_FILE) (codebook_from_bytes (mm_bytes codebook_mmap))) (\<lambda>codebook.
     and_then (map_err (MmapAsset QJL_FILE) (qjl_from_bytes (mm_bytes qjl_mmap))) (\<lambda>qjl.
       let config = \<lparr> cfg_codec_id = TurboQuantProdV1, cfg_dim = th_dim header, cfg_mse_bits = cb_bits codebook,
                      cfg_qjl_dim = qjl_qjl_dim qjl, cfg_mse_seed = rot_seed rotation, cfg_qjl_seed = qjl_seed qjl,
                      cfg_generator_version = rot_generator_version rotation,
                      cfg_norm_policy = NormalizeAndStore \<rparr>
       in and_then (map_err MmapCodec (from_assets config rotation codebook qjl)) (\<lambda>codec.
            if \<not> holds_codes_of codec
            then Inl (UnsupportedCodeLayout (prod_idx_len codec) (prod_signs_len codec))
            else
              let actual = fingerprint sha256 config
                    [(ROTATION_FILE, mm_bytes rotation_mmap), (CODEBOOK_FILE, mm_bytes codebook_mmap),
                     (QJL_FILE, mm_bytes qjl_mmap)]
              in if header_fingerprint header = Some actual then Inr (ProdAssets codec)
                 else Inl (CodecFingerprintMismatch
                   (case header_fingerprint header of Some f \<Rightarrow> f | None \<Rightarrow> replicate 8 0) actual))))))))"

text \<open>A step that may panic, after one that may have.\<close>

definition panic_then :: "('e + 'a) option \<Rightarrow> ('a \<Rightarrow> ('e + 'b) option) \<Rightarrow> ('e + 'b) option" where
  "panic_then m f = (case m of None \<Rightarrow> None | Some (Inl e) \<Rightarrow> Some (Inl e) | Some (Inr x) \<Rightarrow> f x)"

fun try_each :: "('a \<Rightarrow> ('e + unit) option) \<Rightarrow> 'a list \<Rightarrow> ('e + unit) option" where
  "try_each f [] = Some (Inr ())"
| "try_each f (x # xs) = panic_then (f x) (\<lambda>_. try_each f xs)"

definition check_range :: "(string \<Rightarrow> mmap_error) \<Rightarrow> string \<times> nat \<times> u64 \<times> u32 \<Rightarrow> mmap_error + unit" where
  "check_range err = (\<lambda>(blob, blob_len, offset, len).
     if range_in_blob blob_len offset len then Inr () else Inl (err blob))"

definition check_meta :: "mapped_file \<Rightarrow> nat \<Rightarrow> nat \<Rightarrow> nat \<Rightarrow> (mmap_error + unit) option" where
  "check_meta meta text_len title_len i =
     map_option (\<lambda>m. try_all (check_range (MetaBlobOutOfBounds i))
         [(''text'', text_len, mr_text_offset m, mr_text_len m),
          (''title'', title_len, mr_title_offset m, mr_title_len m)])
       (cast_at meta_record_cast META_RECORD_SIZE meta (i * META_RECORD_SIZE))"

definition check_meta_ext :: "mapped_file \<Rightarrow> nat \<Rightarrow> nat \<Rightarrow> nat \<Rightarrow> (mmap_error + unit) option" where
  "check_meta_ext ext docid_len json_len i =
     map_option (\<lambda>m. try_all (check_range (MetaExtBlobOutOfBounds i))
         [(''docid'', docid_len, me_docid_offset m, me_docid_len m),
          (''meta_json'', json_len, me_meta_json_offset m, me_meta_json_len m)])
       (cast_at meta_ext_record_cast META_EXT_RECORD_SIZE ext (i * META_EXT_RECORD_SIZE))"

text \<open>The header, before any other file is opened.\<close>

definition load_header :: "mapped_file \<Rightarrow> mmap_error + turbo_header \<times> record_layout" where
  "load_header bin =
     (if length (mm_bytes bin) < HEADER_SIZE
      then Inl (FileSizeMismatch TURBO_STATIC_FILE HEADER_SIZE (length (mm_bytes bin)))
      else
        and_then (map_err MmapHeader (header_from_bytes (take HEADER_SIZE (mm_bytes bin)))) (\<lambda>header.
        and_then (map_err MmapHeader (layout_from_header header)) (\<lambda>layout. Inr (header, layout))))"

text \<open>The size and alignment of the records and of the metadata records.\<close>

definition check_regions :: "turbo_header \<Rightarrow> mapped_file \<Rightarrow> mapped_file \<Rightarrow> mmap_error + unit" where
  "check_regions header bin meta =
     and_then (map_err MmapHeader (expected_file_size header)) (\<lambda>expected.
       if length (mm_bytes bin) \<noteq> expected
       then Inl (FileSizeMismatch TURBO_STATIC_FILE expected (length (mm_bytes bin)))
       else and_then (ensure_aligned 8 TURBO_STATIC_FILE bin HEADER_SIZE) (\<lambda>_.
         let count = length (mm_bytes meta) div META_RECORD_SIZE; records = unat (th_record_count header)
         in if length (mm_bytes meta) mod META_RECORD_SIZE \<noteq> 0 then Inl (MetaCountMismatch records count)
            else if count \<noteq> records then Inl (MetaCountMismatch records count)
            else ensure_aligned 8 META_FILE meta 0))"

text \<open>The sidecars of versions 3 and 4.\<close>

definition open_sidecars ::
  "mapper \<Rightarrow> string \<Rightarrow> turbo_header \<Rightarrow> mmap_error + mapped_file \<times> mapped_file \<times> mapped_file" where
  "open_sidecars files dir header =
     and_then (mmap_file files (path_join dir META_EXT_FILE)) (\<lambda>ext.
     and_then (mmap_file files (path_join dir DOCID_FILE)) (\<lambda>docid.
     and_then (mmap_file files (path_join dir META_JSON_FILE)) (\<lambda>json.
       let count = length (mm_bytes ext) div META_EXT_RECORD_SIZE; records = unat (th_record_count header)
       in if length (mm_bytes ext) mod META_EXT_RECORD_SIZE \<noteq> 0 then Inl (MetaExtCountMismatch records count)
          else if count \<noteq> records then Inl (MetaExtCountMismatch records count)
          else map_ok (\<lambda>_. (ext, docid, json)) (ensure_aligned 8 META_EXT_FILE ext 0))))"

definition load_sidecars ::
  "mapper \<Rightarrow> string \<Rightarrow> turbo_header \<Rightarrow> (mmap_error + mapped_file \<times> mapped_file \<times> mapped_file) option" where
  "load_sidecars files dir header =
     panic_then (Some (open_sidecars files dir header)) (\<lambda>(ext, docid, json).
       map_option (map_ok (\<lambda>_. (ext, docid, json)))
         (try_each (check_meta_ext ext (length (mm_bytes docid)) (length (mm_bytes json)))
           [0..<length (mm_bytes ext) div META_EXT_RECORD_SIZE]))"

definition has_sidecars :: "record_layout \<Rightarrow> bool" where
  "has_sidecars layout \<longleftrightarrow> layout = V3Dim512 \<or> layout = V4Dim512"

definition load_codec ::
  "(blob \<Rightarrow> blob) \<Rightarrow> mapper \<Rightarrow> string \<Rightarrow> turbo_header \<Rightarrow> record_layout \<Rightarrow> mmap_error + index_codec" where
  "load_codec sha256 files dir header layout =
     (case layout of
        V4Dim512 \<Rightarrow> load_prod_codec sha256 files dir header
      | _ \<Rightarrow> load_legacy_codec files dir header)"

definition load_doc_files ::
  "mapper \<Rightarrow> string \<Rightarrow> turbo_header \<Rightarrow> record_layout \<Rightarrow>
     (mmap_error + mapped_file option \<times> mapped_file option \<times> mapped_file option) option" where
  "load_doc_files files dir header layout =
     (if has_sidecars layout
      then map_option (map_ok (\<lambda>(ext, docid, json). (Some ext, Some docid, Some json))) (load_sidecars files dir header)
      else Some (Inr (None, None, None)))"

text \<open>The files every version has, in the order they are opened.\<close>

record image_files =
  if_header :: turbo_header
  if_layout :: record_layout
  if_bin :: mapped_file
  if_meta :: mapped_file
  if_text :: mapped_file
  if_title :: mapped_file

definition open_image :: "mapper \<Rightarrow> string \<Rightarrow> mmap_error + image_files" where
  "open_image files dir =
     and_then (mmap_file files (path_join dir TURBO_STATIC_FILE)) (\<lambda>bin.
     and_then (load_header bin) (\<lambda>(header, layout).
     and_then (mmap_file files (path_join dir META_FILE)) (\<lambda>meta.
     and_then (mmap_file files (path_join dir TEXT_FILE)) (\<lambda>tx.
     and_then (mmap_file files (path_join dir TITLE_FILE)) (\<lambda>ti.
       map_ok (\<lambda>_. \<lparr> if_header = header, if_layout = layout, if_bin = bin, if_meta = meta, if_text = tx,
                     if_title = ti \<rparr>)
         (check_regions header bin meta))))))"

definition check_image :: "image_files \<Rightarrow> (mmap_error + unit) option" where
  "check_image f =
     try_each (check_meta (if_meta f) (length (mm_bytes (if_text f))) (length (mm_bytes (if_title f))))
       [0..<length (mm_bytes (if_meta f)) div META_RECORD_SIZE]"

definition mmap_load :: "(blob \<Rightarrow> blob) \<Rightarrow> mapper \<Rightarrow> string \<Rightarrow> (mmap_error + mmap_index) option" where
  "mmap_load sha256 files dir =
     panic_then (Some (open_image files dir)) (\<lambda>f.
     panic_then (check_image f) (\<lambda>_.
     panic_then (load_doc_files files dir (if_header f) (if_layout f)) (\<lambda>(ext, docid, json).
       Some (map_ok (\<lambda>codec.
               \<lparr> mi_header = if_header f, mi_layout = if_layout f, mi_bin = if_bin f, mi_meta = if_meta f,
                 mi_text = if_text f, mi_title = if_title f, mi_meta_ext = ext, mi_docid = docid,
                 mi_meta_json = json, mi_codec = codec \<rparr>)
             (load_codec sha256 files dir (if_header f) (if_layout f))))))"


section \<open>Reading\<close>

definition mmap_record_count :: "mmap_index \<Rightarrow> nat" where
  "mmap_record_count m = unat (th_record_count (mi_header m))"

definition record_data :: "mmap_index \<Rightarrow> blob" where
  "record_data m = drop HEADER_SIZE (mm_bytes (mi_bin m))"

definition mmap_record :: "mmap_index \<Rightarrow> nat \<Rightarrow> record_ref option" where
  "mmap_record m index =
     (if \<not> index < mmap_record_count m then None
      else let width = record_size (mi_layout m); start = index * width
           in Option.bind (slice (record_data m) start (start + width)) (\<lambda>data. record_ref_new data (mi_layout m)))"

datatype record_slice = SliceV2 "turbo_record512 list" | SliceV4 "turbo_prod_record512 list"

text \<open>A typed view of the whole record region: every record is read in place.\<close>

definition cast_region :: "(blob \<Rightarrow> 'r) \<Rightarrow> nat \<Rightarrow> mapped_file \<Rightarrow> nat \<Rightarrow> nat \<Rightarrow> 'r list option" where
  "cast_region dec width m offset n = those (map (\<lambda>i. cast_at dec width m (offset + i * width)) [0..<n])"

definition mmap_records :: "mmap_index \<Rightarrow> record_slice option" where
  "mmap_records m =
     (case mi_layout m of
        V4Dim512 \<Rightarrow> map_option SliceV4 (cast_region prod_record_cast 208 (mi_bin m) HEADER_SIZE (mmap_record_count m))
      | _ \<Rightarrow> map_option SliceV2 (cast_region turbo_record_cast 208 (mi_bin m) HEADER_SIZE (mmap_record_count m)))"

definition mmap_meta :: "mmap_index \<Rightarrow> nat \<Rightarrow> meta_record option" where
  "mmap_meta m index =
     (if \<not> index < mmap_record_count m then None
      else cast_at meta_record_cast META_RECORD_SIZE (mi_meta m) (index * META_RECORD_SIZE))"

definition mmap_text :: "mmap_index \<Rightarrow> nat \<Rightarrow> (mmap_error + string) option" where
  "mmap_text m index =
     Option.bind (mmap_meta m index) (\<lambda>meta.
       map_option (map_err (\<lambda>_. MetaBlobInvalidUtf8 index ''text'')) (text_from_blob meta (mm_bytes (mi_text m))))"

definition mmap_title :: "mmap_index \<Rightarrow> nat \<Rightarrow> (mmap_error + string option) option" where
  "mmap_title m index =
     Option.bind (mmap_meta m index) (\<lambda>meta.
       map_option (map_err (\<lambda>_. MetaBlobInvalidUtf8 index ''title'')) (title_from_blob meta (mm_bytes (mi_title m))))"

definition meta_ext_at :: "mmap_index \<Rightarrow> nat \<Rightarrow> meta_ext_record option option" where
  "meta_ext_at m i =
     (case mi_meta_ext m of
        None \<Rightarrow> Some None
      | Some ext \<Rightarrow>
          if mmap_record_count m \<le> i then Some None
          else map_option Some (cast_at meta_ext_record_cast META_EXT_RECORD_SIZE ext (i * META_EXT_RECORD_SIZE)))"

definition sidecar_text ::
  "mmap_index \<Rightarrow> nat \<Rightarrow> mapped_file option \<Rightarrow> (meta_ext_record \<Rightarrow> blob \<Rightarrow> (unit + string) option) \<Rightarrow> string \<Rightarrow>
     (mmap_error + string option) option" where
  "sidecar_text m i blob read name =
     Option.bind (meta_ext_at m i) (\<lambda>ext.
       case (ext, blob) of
         (Some e, Some b) \<Rightarrow> map_option (\<lambda>r. map_ok Some (map_err (\<lambda>_. MetaExtBlobInvalidUtf8 i name) r)) (read e (mm_bytes b))
       | _ \<Rightarrow> Some (Inr None))"

definition original_doc_id :: "mmap_index \<Rightarrow> nat \<Rightarrow> (mmap_error + string option) option" where
  "original_doc_id m i = sidecar_text m i (mi_docid m) doc_id_from_blob ''docid''"

definition metadata_json :: "mmap_index \<Rightarrow> nat \<Rightarrow> (mmap_error + string option) option" where
  "metadata_json m i = sidecar_text m i (mi_meta_json m) metadata_json_from_blob ''meta_json''"

definition check_utf8_at :: "mmap_index \<Rightarrow> nat \<Rightarrow> (mmap_error + unit) option" where
  "check_utf8_at m i =
     panic_then (mmap_text m i) (\<lambda>_.
     panic_then (mmap_title m i) (\<lambda>_.
     panic_then (original_doc_id m i) (\<lambda>_.
     panic_then (metadata_json m i) (\<lambda>_. Some (Inr ())))))"

definition check_utf8 :: "mmap_index \<Rightarrow> (mmap_error + unit) option" where
  "check_utf8 m = try_each (check_utf8_at m) [0..<mmap_record_count m]"


section \<open>What a loaded index satisfies\<close>

lemma panic_then_Some_Inr:
  "panic_then m f = Some (Inr y) \<longleftrightarrow> (\<exists>x. m = Some (Inr x) \<and> f x = Some (Inr y))"
  by (auto simp: panic_then_def split: option.splits sum.splits)

lemma panic_then_None:
  "panic_then m f = None \<longleftrightarrow> m = None \<or> (\<exists>x. m = Some (Inr x) \<and> f x = None)"
  by (auto simp: panic_then_def split: option.splits sum.splits)

lemma try_each_ok_iff: "try_each f xs = Some (Inr ()) \<longleftrightarrow> (\<forall>x \<in> set xs. f x = Some (Inr ()))"
  by (induction xs) (auto simp: panic_then_Some_Inr)

lemma try_each_total: "(\<And>x. x \<in> set xs \<Longrightarrow> f x \<noteq> None) \<Longrightarrow> try_each f xs \<noteq> None"
  by (induction xs) (auto simp: panic_then_None)

lemma range_in_blob_iff:
  "range_in_blob n off len \<longleftrightarrow> unat off + unat len < 2 ^ 64 \<and> unat off + unat len \<le> n"
  by (auto simp: range_in_blob_def checked_add_u64_def)

lemma range_slice:
  "range_in_blob (length b) off len \<Longrightarrow>
     slice b (unat off) (usize_add (unat off) (unat len)) = Some (span b (unat off) (unat len))"
  by (simp add: range_in_blob_iff usize_add_def slice_def)

lemma cast_at_region:
  assumes "length (mm_bytes m) = off + n * width" "8 dvd mm_address m + off" "8 dvd width" "i < n"
  shows "cast_at dec width m (off + i * width) = Some (dec (span (mm_bytes m) (off + i * width) width))"
proof -
  have "(i + 1) * width \<le> n * width"
    using assms(4) by (intro mult_le_mono1) simp
  moreover have "8 dvd mm_address m + off + i * width"
    using dvd_add [OF assms(2) dvd_mult [OF assms(3), of i]] .
  ultimately show ?thesis
    using assms(1) by (simp add: cast_at_def algebra_simps)
qed

text \<open>The invariant of a loaded index, which every accessor relies on.\<close>

definition meta_ok :: "nat \<Rightarrow> mapped_file \<Rightarrow> nat \<Rightarrow> nat \<Rightarrow> bool" where
  "meta_ok n meta text_len title_len \<longleftrightarrow>
     length (mm_bytes meta) = n * META_RECORD_SIZE \<and> 8 dvd mm_address meta \<and>
     (\<forall>i < n. check_meta meta text_len title_len i = Some (Inr ()))"

definition sidecars_ok :: "nat \<Rightarrow> mapped_file \<Rightarrow> nat \<Rightarrow> nat \<Rightarrow> bool" where
  "sidecars_ok n ext docid_len json_len \<longleftrightarrow>
     length (mm_bytes ext) = n * META_EXT_RECORD_SIZE \<and> 8 dvd mm_address ext \<and>
     (\<forall>i < n. check_meta_ext ext docid_len json_len i = Some (Inr ()))"

definition codec_ok :: "record_layout \<Rightarrow> index_codec \<Rightarrow> bool" where
  "codec_ok layout codec \<longleftrightarrow>
     (case codec of
        ProdAssets p \<Rightarrow> layout = V4Dim512 \<and> prod_ok p \<and> holds_codes_of p
      | LegacyAssets c p \<Rightarrow> layout \<noteq> V4Dim512 \<and> centroid_table_ok c \<and> projection_ok p \<and>
          validate_codec_inputs 512 c p = Inr ())"

definition doc_files_ok ::
  "nat \<Rightarrow> record_layout \<Rightarrow> mapped_file option \<Rightarrow> mapped_file option \<Rightarrow> mapped_file option \<Rightarrow> bool" where
  "doc_files_ok n layout ext docid json \<longleftrightarrow>
     (if has_sidecars layout
      then \<exists>e d j. ext = Some e \<and> docid = Some d \<and> json = Some j \<and>
             sidecars_ok n e (length (mm_bytes d)) (length (mm_bytes j))
      else ext = None \<and> docid = None \<and> json = None)"

definition mmap_ok :: "mmap_index \<Rightarrow> bool" where
  "mmap_ok m \<longleftrightarrow>
     layout_from_header (mi_header m) = Inr (mi_layout m) \<and>
     length (mm_bytes (mi_bin m)) = HEADER_SIZE + mmap_record_count m * 208 \<and>
     8 dvd mm_address (mi_bin m) + HEADER_SIZE \<and>
     meta_ok (mmap_record_count m) (mi_meta m) (length (mm_bytes (mi_text m))) (length (mm_bytes (mi_title m))) \<and>
     doc_files_ok (mmap_record_count m) (mi_layout m) (mi_meta_ext m) (mi_docid m) (mi_meta_json m) \<and>
     codec_ok (mi_layout m) (mi_codec m)"

lemma record_size_208 [simp]: "record_size layout = 208"
  by (cases layout) simp_all

lemma layout_dim: "layout_from_header h = Inr layout \<Longrightarrow> th_dim h = 512"
  by (auto simp: layout_from_header_def split: if_splits)

lemma expected_file_size_ok:
  "expected_file_size h = Inr n \<Longrightarrow> n = HEADER_SIZE + unat (th_record_count h) * 208 \<and> n < 2 ^ 64"
  by (auto simp: expected_file_size_def result_simps checked_mul_u64_def checked_add_u64_def
      bind_eq_Some_conv split: if_splits)

lemma check_regions_ok:
  assumes "check_regions h bin meta = Inr ()"
  shows "length (mm_bytes bin) = HEADER_SIZE + unat (th_record_count h) * 208"
    "8 dvd mm_address bin + HEADER_SIZE" "length (mm_bytes meta) = unat (th_record_count h) * META_RECORD_SIZE"
    "8 dvd mm_address meta"
  using assms expected_file_size_ok [of h]
  by (auto simp: check_regions_def result_simps Let_def ensure_aligned_def split: if_splits)

lemma load_header_ok:
  "load_header bin = Inr (h, layout) \<Longrightarrow> layout_from_header h = Inr layout \<and>
     header_from_bytes (take HEADER_SIZE (mm_bytes bin)) = Inr h"
  by (auto simp: load_header_def result_simps split: if_splits)

lemma check_meta_total:
  assumes "length (mm_bytes meta) = n * META_RECORD_SIZE" "8 dvd mm_address meta" "i < n"
  shows "check_meta meta a b i \<noteq> None"
  using cast_at_region [of meta 0 n META_RECORD_SIZE i meta_record_cast] assms
  by (simp add: check_meta_def META_RECORD_SIZE_def)

lemma check_meta_ext_total:
  assumes "length (mm_bytes meta) = n * META_EXT_RECORD_SIZE" "8 dvd mm_address meta" "i < n"
  shows "check_meta_ext meta a b i \<noteq> None"
  using cast_at_region [of meta 0 n META_EXT_RECORD_SIZE i meta_ext_record_cast] assms
  by (simp add: check_meta_ext_def META_EXT_RECORD_SIZE_def)

lemma load_legacy_codec_ok:
  assumes "load_legacy_codec files dir h = Inr codec" "th_dim h = 512" "layout \<noteq> V4Dim512"
  shows "codec_ok layout codec"
proof -
  have "\<exists>cm pm c p. centroid_table_from_bytes cm = Inr c \<and> projection_from_bytes pm = Inr p \<and>
      codec = LegacyAssets c p \<and> ct_dim c = 512 \<and> ct_centroids_per_dim c = 4 \<and> pm_input_dim p = 512 \<and>
      pm_output_dim p = 512"
    using assms(1,2) by (auto simp: load_legacy_codec_def result_simps split: if_splits)
  then obtain cm pm c p where c: "centroid_table_from_bytes cm = Inr c"
      "projection_from_bytes pm = Inr p" "codec = LegacyAssets c p" "ct_dim c = 512"
      "ct_centroids_per_dim c = 4" "pm_input_dim p = 512" "pm_output_dim p = 512"
    by blast
  then show ?thesis
    using centroid_file.write_read [OF c(1)] projection_file.write_read [OF c(2)] assms(3)
    by (simp add: codec_ok_def validate_codec_inputs_def EXPECTED_CENTROIDS_PER_DIM_def)
qed

lemma load_prod_codec_cases:
  assumes "load_prod_codec sha256 files dir h = Inr codec"
  obtains rm cm qm rotation codebook qjl config p where
    "files (path_join dir ROTATION_FILE) = Inr rm" "files (path_join dir CODEBOOK_FILE) = Inr cm"
    "files (path_join dir QJL_FILE) = Inr qm" "rotation_from_bytes (mm_bytes rm) = Inr rotation"
    "codebook_from_bytes (mm_bytes cm) = Inr codebook" "qjl_from_bytes (mm_bytes qm) = Inr qjl"
    "from_assets config rotation codebook qjl = Inr p" "holds_codes_of p" "codec = ProdAssets p"
    "header_fingerprint h = Some (fingerprint sha256 config
       [(ROTATION_FILE, mm_bytes rm), (CODEBOOK_FILE, mm_bytes cm), (QJL_FILE, mm_bytes qm)])"
  using assms
  by (auto simp: load_prod_codec_def mmap_file_def result_simps Let_def simp del: from_assets_ok_iff split: if_splits)

lemma load_prod_codec_ok:
  assumes "load_prod_codec sha256 files dir h = Inr codec"
  shows "codec_ok V4Dim512 codec"
proof (rule load_prod_codec_cases [OF assms])
  fix rm cm qm rotation codebook qjl config p
  assume r: "rotation_from_bytes (mm_bytes rm) = Inr rotation" and q: "qjl_from_bytes (mm_bytes qm) = Inr qjl"
    and p: "from_assets config rotation codebook qjl = Inr p" "holds_codes_of p" "codec = ProdAssets p"
  then show "codec_ok V4Dim512 codec"
    using rotation_file.write_read [OF r] qjl_file.write_read [OF q] from_assets_prod_ok(1) [OF p(1)]
    by (simp add: codec_ok_def)
qed

lemma load_codec_ok:
  assumes "load_codec sha256 files dir h layout = Inr codec" "layout_from_header h = Inr layout"
  shows "codec_ok layout codec"
proof (cases "layout = V4Dim512")
  case True
  then show ?thesis
    using assms load_prod_codec_ok by (simp add: load_codec_def)
next
  case False
  then have "load_legacy_codec files dir h = Inr codec"
    using assms(1) by (cases layout) (simp_all add: load_codec_def)
  then show ?thesis
    by (rule load_legacy_codec_ok [OF _ layout_dim [OF assms(2)] False])
qed

lemma open_sidecars_ok:
  assumes "open_sidecars files dir h = Inr (e, d, j)"
  shows "length (mm_bytes e) = unat (th_record_count h) * META_EXT_RECORD_SIZE" "8 dvd mm_address e"
  using assms by (auto simp: open_sidecars_def result_simps Let_def ensure_aligned_def split: if_splits)

lemma load_sidecars_ok:
  assumes "load_sidecars files dir h = Some (Inr (e, d, j))"
  shows "sidecars_ok (unat (th_record_count h)) e (length (mm_bytes d)) (length (mm_bytes j))"
proof -
  have o: "open_sidecars files dir h = Inr (e, d, j)"
    and t: "try_each (check_meta_ext e (length (mm_bytes d)) (length (mm_bytes j)))
        [0..<length (mm_bytes e) div META_EXT_RECORD_SIZE] = Some (Inr ())"
    using assms by (auto simp: load_sidecars_def panic_then_Some_Inr result_simps)
  show ?thesis
    using t open_sidecars_ok [OF o] by (simp add: sidecars_ok_def try_each_ok_iff META_EXT_RECORD_SIZE_def)
qed

lemma load_sidecars_total: "load_sidecars files dir h \<noteq> None"
proof -
  have "try_each (check_meta_ext e a b) [0..<length (mm_bytes e) div META_EXT_RECORD_SIZE] \<noteq> None"
    if "open_sidecars files dir h = Inr (e, d, j)" for e d j a b
    using open_sidecars_ok [OF that] check_meta_ext_total [of e "unat (th_record_count h)" _ a b]
    by (intro try_each_total) (simp add: META_EXT_RECORD_SIZE_def)
  then show ?thesis
    unfolding load_sidecars_def panic_then_None by (auto simp del: not_None_eq)
qed

lemma open_image_ok:
  assumes "open_image files dir = Inr f"
  shows "check_regions (if_header f) (if_bin f) (if_meta f) = Inr ()"
    "layout_from_header (if_header f) = Inr (if_layout f)"
  using assms load_header_ok by (auto simp: open_image_def result_simps)

lemma load_doc_files_ok:
  assumes "load_doc_files files dir h layout = Some (Inr (ext, docid, json))"
  shows "doc_files_ok (unat (th_record_count h)) layout ext docid json"
  using assms load_sidecars_ok [of files dir h]
  by (auto simp: load_doc_files_def doc_files_ok_def result_simps split: if_splits)

lemma load_doc_files_total: "load_doc_files files dir h layout \<noteq> None"
  using load_sidecars_total by (simp add: load_doc_files_def del: not_None_eq)

lemma mmap_load_cases:
  assumes "mmap_load sha256 files dir = Some (Inr m)"
  obtains f ext docid json codec where "open_image files dir = Inr f" "check_image f = Some (Inr ())"
    "load_doc_files files dir (if_header f) (if_layout f) = Some (Inr (ext, docid, json))"
    "load_codec sha256 files dir (if_header f) (if_layout f) = Inr codec"
    "m = \<lparr> mi_header = if_header f, mi_layout = if_layout f, mi_bin = if_bin f, mi_meta = if_meta f,
           mi_text = if_text f, mi_title = if_title f, mi_meta_ext = ext, mi_docid = docid,
           mi_meta_json = json, mi_codec = codec \<rparr>"
  using assms unfolding mmap_load_def panic_then_Some_Inr by (auto simp: result_simps)

lemma mmap_load_ok:
  assumes "mmap_load sha256 files dir = Some (Inr m)"
  shows "mmap_ok m"
proof (rule mmap_load_cases [OF assms])
  fix f ext docid json codec
  assume f: "open_image files dir = Inr f" and check: "check_image f = Some (Inr ())"
    and docs: "load_doc_files files dir (if_header f) (if_layout f) = Some (Inr (ext, docid, json))"
    and codec: "load_codec sha256 files dir (if_header f) (if_layout f) = Inr codec"
    and m: "m = \<lparr> mi_header = if_header f, mi_layout = if_layout f, mi_bin = if_bin f, mi_meta = if_meta f,
           mi_text = if_text f, mi_title = if_title f, mi_meta_ext = ext, mi_docid = docid,
           mi_meta_json = json, mi_codec = codec \<rparr>"
  note o = open_image_ok [OF f]
  note r = check_regions_ok [OF o(1)]
  have "meta_ok (unat (th_record_count (if_header f))) (if_meta f) (length (mm_bytes (if_text f)))
      (length (mm_bytes (if_title f)))"
    using r check by (simp add: meta_ok_def check_image_def try_each_ok_iff META_RECORD_SIZE_def)
  then show "mmap_ok m"
    using r o load_codec_ok [OF codec o(2)] load_doc_files_ok [OF docs]
    by (simp add: mmap_ok_def m mmap_record_count_def)
qed

text \<open>
  C32. Loading returns on every set of files, whatever their contents, sizes and
  addresses: the pointer casts of its range checks stay inside their mappings and are aligned,
  because the sizes and alignments are checked before.
\<close>

theorem load_never_panics: "mmap_load sha256 files dir \<noteq> None"
proof -
  have "check_image f \<noteq> None" if "open_image files dir = Inr f" for f
  proof -
    note r = check_regions_ok [OF open_image_ok(1) [OF that]]
    show ?thesis
      unfolding check_image_def
    proof (rule try_each_total)
      fix i
      assume "i \<in> set [0..<length (mm_bytes (if_meta f)) div META_RECORD_SIZE]"
      then show "check_meta (if_meta f) (length (mm_bytes (if_text f))) (length (mm_bytes (if_title f))) i \<noteq> None"
        using r by (intro check_meta_total) (simp_all add: META_RECORD_SIZE_def)
    qed
  qed
  then show ?thesis
    using load_doc_files_total unfolding mmap_load_def panic_then_None
    by (auto simp del: not_None_eq split: prod.splits)
qed

lemma text_accessors_total:
  assumes "meta_ok n meta (length text) (length title)" "i < n"
  shows "\<exists>r. cast_at meta_record_cast META_RECORD_SIZE meta (i * META_RECORD_SIZE) = Some r \<and>
    text_from_blob r text = Some (ok_or () (from_utf8 (span text (unat (mr_text_offset r)) (unat (mr_text_len r))))) \<and>
    title_from_blob r title \<noteq> None"
proof -
  have c: "check_meta meta (length text) (length title) i = Some (Inr ())"
    using assms by (simp add: meta_ok_def)
  then obtain r where r: "cast_at meta_record_cast META_RECORD_SIZE meta (i * META_RECORD_SIZE) = Some r"
    and "range_in_blob (length text) (mr_text_offset r) (mr_text_len r)"
      "range_in_blob (length title) (mr_title_offset r) (mr_title_len r)"
    by (auto simp: check_meta_def check_range_def result_simps split: if_splits)
  then show ?thesis
    by (simp add: text_from_blob_def title_from_blob_def Let_def range_slice)
qed

lemma sidecar_accessors_total:
  assumes "sidecars_ok n ext (length docid) (length json)" "i < n"
  shows "\<exists>r. cast_at meta_ext_record_cast META_EXT_RECORD_SIZE ext (i * META_EXT_RECORD_SIZE) = Some r \<and>
    doc_id_from_blob r docid \<noteq> None \<and> metadata_json_from_blob r json \<noteq> None"
proof -
  have c: "check_meta_ext ext (length docid) (length json) i = Some (Inr ())"
    using assms by (simp add: sidecars_ok_def)
  then obtain r where r: "cast_at meta_ext_record_cast META_EXT_RECORD_SIZE ext (i * META_EXT_RECORD_SIZE) = Some r"
    and "range_in_blob (length docid) (me_docid_offset r) (me_docid_len r)"
      "range_in_blob (length json) (me_meta_json_offset r) (me_meta_json_len r)"
    by (auto simp: check_meta_ext_def check_range_def result_simps split: if_splits)
  then show ?thesis
    by (simp add: doc_id_from_blob_def metadata_json_from_blob_def Let_def range_slice)
qed

lemma those_map_Some: "(\<forall>i \<in> set xs. f i = Some (g i)) \<Longrightarrow> those (map f xs) = Some (map g xs)"
  by (induction xs) auto

lemma cast_region_total:
  assumes "length (mm_bytes m) = off + n * width" "8 dvd mm_address m + off" "8 dvd width"
  shows "cast_region dec width m off n = Some (map (\<lambda>i. dec (span (mm_bytes m) (off + i * width) width)) [0..<n])"
  unfolding cast_region_def using cast_at_region [OF assms, where dec = dec] by (intro those_map_Some) simp

lemma mmap_record_total:
  assumes "mmap_ok m" "i < mmap_record_count m"
  shows "mmap_record m i \<noteq> None"
proof -
  have l: "length (record_data m) = mmap_record_count m * 208"
    using assms(1) by (simp add: mmap_ok_def record_data_def)
  have "(i + 1) * 208 \<le> mmap_record_count m * 208"
    using assms(2) by (intro mult_le_mono1) simp
  then show ?thesis
    using l assms(2) by (simp add: mmap_record_def slice_def record_ref_new_def length_span Let_def)
qed

lemma mmap_records_eq:
  assumes "mmap_ok m"
  defines "region i \<equiv> span (mm_bytes (mi_bin m)) (HEADER_SIZE + i * 208) 208"
  shows "mmap_records m = Some
    (if mi_layout m = V4Dim512 then SliceV4 (map (\<lambda>i. prod_record_cast (region i)) [0..<mmap_record_count m])
     else SliceV2 (map (\<lambda>i. turbo_record_cast (region i)) [0..<mmap_record_count m]))"
proof -
  have l: "length (mm_bytes (mi_bin m)) = HEADER_SIZE + mmap_record_count m * 208"
      "8 dvd mm_address (mi_bin m) + HEADER_SIZE" "8 dvd (208 :: nat)"
    using assms(1) by (simp_all add: mmap_ok_def)
  show ?thesis
    using cast_region_total [OF l, where dec = turbo_record_cast] cast_region_total [OF l, where dec = prod_record_cast]
    by (cases "mi_layout m") (simp_all add: mmap_records_def region_def)
qed

lemma mmap_records_total: "mmap_ok m \<Longrightarrow> mmap_records m \<noteq> None"
  by (simp add: mmap_records_eq)

lemma mmap_text_total: "mmap_ok m \<Longrightarrow> i < mmap_record_count m \<Longrightarrow> mmap_text m i \<noteq> None"
  using text_accessors_total [of "mmap_record_count m" "mi_meta m" "mm_bytes (mi_text m)" "mm_bytes (mi_title m)" i]
  by (auto simp: mmap_text_def mmap_meta_def mmap_ok_def bind_eq_None_conv)

lemma mmap_title_total: "mmap_ok m \<Longrightarrow> i < mmap_record_count m \<Longrightarrow> mmap_title m i \<noteq> None"
  using text_accessors_total [of "mmap_record_count m" "mi_meta m" "mm_bytes (mi_text m)" "mm_bytes (mi_title m)" i]
  by (auto simp: mmap_title_def mmap_meta_def mmap_ok_def bind_eq_None_conv)

lemma mmap_sidecars_total:
  assumes "mmap_ok m"
  shows "original_doc_id m i \<noteq> None" "metadata_json m i \<noteq> None"
proof -
  have "original_doc_id m i \<noteq> None \<and> metadata_json m i \<noteq> None"
  proof (cases "has_sidecars (mi_layout m) \<and> i < mmap_record_count m")
    case True
    then obtain e d j where s: "mi_meta_ext m = Some e" "mi_docid m = Some d" "mi_meta_json m = Some j"
        "sidecars_ok (mmap_record_count m) e (length (mm_bytes d)) (length (mm_bytes j))"
      using assms by (auto simp: mmap_ok_def doc_files_ok_def)
    then show ?thesis
      using sidecar_accessors_total [OF s(4), of i] True
      by (auto simp: original_doc_id_def metadata_json_def sidecar_text_def meta_ext_at_def bind_eq_None_conv
          split: option.splits)
  next
    case False
    then show ?thesis
      using assms by (auto simp: original_doc_id_def metadata_json_def sidecar_text_def meta_ext_at_def mmap_ok_def
          doc_files_ok_def split: option.splits if_splits)
  qed
  then show "original_doc_id m i \<noteq> None" "metadata_json m i \<noteq> None"
    by simp_all
qed

lemma check_utf8_total: "mmap_ok m \<Longrightarrow> check_utf8 m \<noteq> None"
  unfolding check_utf8_def check_utf8_at_def
  by (intro try_each_total) (auto simp: panic_then_None mmap_text_total mmap_title_total mmap_sidecars_total)

text \<open>
  C31. After a load succeeds, whatever the files held, no accessor panics, reads
  outside a mapping or reads at an unaligned address: every record, its metadata, text, title,
  document id and metadata document are readable at every index below the record count, and so
  is the typed view of all records and the UTF-8 check of the whole image.
\<close>

theorem load_is_memory_safe:
  assumes "mmap_load sha256 files dir = Some (Inr m)" and "i < mmap_record_count m"
  shows "mmap_records m \<noteq> None \<and> check_utf8 m \<noteq> None \<and> mmap_record m i \<noteq> None \<and> mmap_meta m i \<noteq> None \<and>
    mmap_text m i \<noteq> None \<and> mmap_title m i \<noteq> None \<and> original_doc_id m i \<noteq> None \<and> metadata_json m i \<noteq> None"
proof -
  note ok = mmap_load_ok [OF assms(1)]
  have "mmap_meta m i \<noteq> None"
    using mmap_text_total [OF ok assms(2)] by (cases "mmap_meta m i") (simp_all add: mmap_text_def)
  then show ?thesis
    using ok assms(2) by (simp add: mmap_records_total check_utf8_total mmap_record_total mmap_text_total
        mmap_title_total mmap_sidecars_total del: not_None_eq)
qed

end
