(* ===== verification/Dynamic_Search.thy ===== *)
theory Dynamic_Search
  imports Router Mmap_Index
begin

text \<open>
  The two searchers of the dynamic corpus (\<^verbatim>\<open>src/query/keyword_searcher.rs\<close>,
  \<^verbatim>\<open>src/query/vector_searcher.rs\<close>, \<^verbatim>\<open>src/query/lance_decode.rs\<close>, \<^verbatim>\<open>src/query/lance_cache.rs\<close>)
  and the path checks they share (\<^verbatim>\<open>src/query/retrieval_common.rs\<close>).  Tantivy, LanceDB and
  the file system are arguments, records of the calls the source makes.
\<close>


section \<open>Artifact paths\<close>

datatype file_kind = FileOfSize u64 | Directory | OtherFile

record artifact_fs =
  af_canonicalize :: "string \<Rightarrow> string + string"
  af_metadata :: "string \<Rightarrow> string + file_kind"
  af_read_dir :: "string \<Rightarrow> string + (string + string) list"

text \<open>\<^verbatim>\<open>Path::starts_with\<close> compares components.\<close>

definition path_starts_with :: "string \<Rightarrow> string \<Rightarrow> bool" where
  "path_starts_with p base \<longleftrightarrow> take (length (path_components base)) (path_components p) = path_components base"

definition canonical_root :: "artifact_fs \<Rightarrow> string \<Rightarrow> search_error + string" where
  "canonical_root fs store_root =
     map_err (\<lambda>e. SearchExecution (msg [''failed to canonicalize artifact root '', store_root, '': '', e])) (af_canonicalize fs store_root)"

definition resolve_artifact_path :: "artifact_fs \<Rightarrow> string \<Rightarrow> string \<Rightarrow> string \<Rightarrow> search_error + string" where
  "resolve_artifact_path fs store_root artifact_path kind =
     (let invalid = SearchExecution (msg [''invalid '', kind, '' artifact path: '', artifact_path])
      in and_then (ok_or invalid (Option.bind (strip_prefix ''s3://'' artifact_path) (split_once CHR ''/''))) (\<lambda>(_, key).
         if ParentDir \<in> set (path_components key) \<or> RootDir \<in> set (path_components key) then Inl invalid
         else
           and_then (canonical_root fs store_root) (\<lambda>canonical.
           let resolved = path_join store_root key
           in and_then
                (map_err (\<lambda>e. SearchExecution (msg [''failed to canonicalize '', kind, '' artifact path '', resolved, '': '', e]))
                  (af_canonicalize fs resolved)) (\<lambda>path.
              if path_starts_with path canonical then Inr path
              else Inl (SearchExecution (msg [''resolved '', kind, '' artifact path escapes artifact root: '', path]))))))"

text \<open>
  The walk over a shard directory: \<open>pending\<close> is the stack of paths, its top first, \<open>visited\<close>
  the canonical directories.  Sizes are added in \<^verbatim>\<open>u64\<close>.  The fuel is used up by one per path.
\<close>

definition entry_paths :: "string \<Rightarrow> (string + string) list \<Rightarrow> search_error + string list" where
  "entry_paths dir entries =
     try_map (map_err (\<lambda>e. SearchExecution (msg [''failed to read local LanceDB artifact directory entry in '', dir, '': '', e])))
       entries"

definition inspect_path :: "artifact_fs \<Rightarrow> string \<Rightarrow> string \<Rightarrow> search_error + string \<times> file_kind" where
  "inspect_path fs store_root path =
     and_then
       (map_err (\<lambda>e. SearchExecution (msg [''failed to canonicalize local LanceDB documents path '', path, '': '', e]))
         (af_canonicalize fs path)) (\<lambda>canonical.
     if \<not> path_starts_with canonical store_root
     then Inl (SearchExecution (''resolved local LanceDB documents path escapes artifact root: '' @ canonical))
     else map_ok (Pair canonical)
       (map_err (\<lambda>e. SearchExecution (msg [''failed to inspect local LanceDB documents path '', canonical, '': '', e]))
         (af_metadata fs canonical)))"

definition list_directory :: "artifact_fs \<Rightarrow> string list \<Rightarrow> string \<Rightarrow> search_error + string list" where
  "list_directory fs visited canonical =
     (if canonical \<in> set visited
      then Inl (SearchExecution
        (''local LanceDB artifact path contains a symlink cycle under artifact root: '' @ canonical))
      else and_then
        (map_err (\<lambda>e. SearchExecution (msg [''failed to read local LanceDB artifact directory '', canonical, '': '', e]))
          (af_read_dir fs canonical)) (entry_paths canonical))"

fun walk_tree ::
  "artifact_fs \<Rightarrow> string \<Rightarrow> nat \<Rightarrow> string list \<Rightarrow> string list \<Rightarrow> u64 \<Rightarrow> (search_error + u64) option" where
  "walk_tree fs store_root n [] visited total_bytes = Some (Inr total_bytes)"
| "walk_tree fs store_root 0 (path # pending) visited total_bytes = None"
| "walk_tree fs store_root (Suc n) (path # pending) visited total_bytes =
     (case inspect_path fs store_root path of
        Inl e \<Rightarrow> Some (Inl e)
      | Inr (_, FileOfSize n_bytes) \<Rightarrow> walk_tree fs store_root n pending visited (total_bytes + n_bytes)
      | Inr (_, OtherFile) \<Rightarrow> walk_tree fs store_root n pending visited total_bytes
      | Inr (canonical, Directory) \<Rightarrow>
          (case list_directory fs visited canonical of
             Inl e \<Rightarrow> Some (Inl e)
           | Inr paths \<Rightarrow> walk_tree fs store_root n (rev paths @ pending) (canonical # visited) total_bytes))"

definition inspect_path_tree :: "artifact_fs \<Rightarrow> nat \<Rightarrow> string \<Rightarrow> string \<Rightarrow> (search_error + u64) option" where
  "inspect_path_tree fs n artifact_root store_root =
     (case canonical_root fs artifact_root of
        Inl e \<Rightarrow> Some (Inl e)
      | Inr canonical \<Rightarrow> walk_tree fs canonical n [store_root] [] 0)"


section \<open>Keyword search\<close>

definition QUERY_LIMIT_CHARS :: nat where "QUERY_LIMIT_CHARS = 1000"

text \<open>
  An open index: its fields by name, and for a reader the number of documents, the parser of
  queries, the ranking of a query and the stored documents.  A stored value that is not text
  is \<^term>\<open>None\<close> inside.
\<close>

record 'q tantivy =
  tv_field :: "string \<Rightarrow> string + nat"
  tv_reader :: "string + unit"
  tv_num_docs :: nat
  tv_parse :: "nat \<Rightarrow> string \<Rightarrow> string + 'q"
  tv_top :: "'q \<Rightarrow> nat \<Rightarrow> string + (f32 \<times> nat) list"
  tv_doc :: "nat \<Rightarrow> string + (nat \<Rightarrow> string option option)"

record 'q keyword_env =
  ke_fs :: artifact_fs
  ke_open :: "string \<Rightarrow> string + 'q tantivy"
  ke_parse_metadata :: "string \<Rightarrow> string + metadata"
  ke_iter :: "(string, search_result) hmap \<Rightarrow> (string, search_result) hmap"

definition validate_query :: "string \<Rightarrow> search_error + unit" where
  "validate_query query =
     (if chars_count query = 0 then Inl (SearchValidation (Required ''query''))
      else if QUERY_LIMIT_CHARS < chars_count query
      then Inl (SearchValidation (LengthOutOfRange ''query'' 1 QUERY_LIMIT_CHARS))
      else Inr ())"

definition first_text :: "(nat \<Rightarrow> string option option) \<Rightarrow> nat \<Rightarrow> string option" where
  "first_text document field = Option.bind (document field) (\<lambda>v. v)"

definition load_metadata ::
  "(string \<Rightarrow> string + metadata) \<Rightarrow> (nat \<Rightarrow> string option option) \<Rightarrow> nat option \<Rightarrow> search_error + metadata option" where
  "load_metadata parse document field =
     (case Option.bind field (first_text document) of
        None \<Rightarrow> Inr None
      | Some text \<Rightarrow>
          map_err (\<lambda>e. SearchExecution (''matched document has invalid metadata: '' @ e)) (map_ok Some (parse text)))"

definition build_search_result ::
  "'q tantivy \<Rightarrow> (string \<Rightarrow> string + metadata) \<Rightarrow> nat \<Rightarrow> nat \<Rightarrow> nat option \<Rightarrow> f32 \<times> nat \<Rightarrow> search_error + search_result" where
  "build_search_result index parse doc_id_field text_field metadata_field = (\<lambda>(score, address).
     and_then (map_err (\<lambda>e. SearchExecution (''failed to load matched document: '' @ e)) (tv_doc index address)) (\<lambda>document.
     and_then (ok_or (SearchExecution ''matched document is missing doc_id'') (first_text document doc_id_field)) (\<lambda>i.
     and_then (ok_or (SearchExecution ''matched document is missing text'') (first_text document text_field)) (\<lambda>content.
     map_ok (\<lambda>metadata.
         \<lparr> res_doc_id = i, res_score = score, res_text = content, res_metadata = metadata, res_source = Keyword,
           res_chunk_source = DynamicChunk, res_corpus_type = None,
           res_citation = Option.bind metadata citation_from_metadata \<rparr>)
       (load_metadata parse document metadata_field)))))"

definition dedupe_top_docs ::
  "'q keyword_env \<Rightarrow> 'q tantivy \<Rightarrow> nat \<Rightarrow> nat \<Rightarrow> nat option \<Rightarrow> nat \<Rightarrow> (f32 \<times> nat) list \<Rightarrow> search_error + search_result list" where
  "dedupe_top_docs ke index doc_id_field text_field metadata_field k top_docs =
     map_ok (\<lambda>results. dedupe_best_by_doc_id (ke_iter ke) results k)
       (try_map (build_search_result index (ke_parse_metadata ke) doc_id_field text_field metadata_field) top_docs)"

text \<open>The widening loop; a limit of zero would panic inside the collector.\<close>

partial_function (option) keyword_loop ::
  "(nat \<Rightarrow> search_error + search_result list) \<Rightarrow> nat \<Rightarrow> nat \<Rightarrow> nat \<Rightarrow> (search_error + search_result list) option" where
  "keyword_loop retrieve max_docs k limit =
     (if limit = 0 then None
      else
        case retrieve limit of
          Inl e \<Rightarrow> Some (Inl e)
        | Inr results \<Rightarrow>
            if k \<le> length results \<or> max_docs \<le> limit then Some (Inr results)
            else keyword_loop retrieve max_docs k (min (limit * 2) max_docs))"

text \<open>An index ready to be searched: the fields, the parsed query and the reader.\<close>

definition open_keyword_index ::
  "'q keyword_env \<Rightarrow> string \<Rightarrow> string \<Rightarrow> string \<Rightarrow> search_error + ('q tantivy \<times> nat \<times> nat \<times> nat option \<times> 'q)" where
  "open_keyword_index ke store_root tantivy_uri query =
     and_then (resolve_artifact_path (ke_fs ke) store_root tantivy_uri ''Tantivy'') (\<lambda>path.
     and_then (map_err (\<lambda>e. SearchExecution (msg [''failed to open Tantivy index at '', path, '': '', e])) (ke_open ke path)) (\<lambda>index.
     and_then (map_err (\<lambda>e. SearchExecution (''missing doc_id field: '' @ e)) (tv_field index ''doc_id'')) (\<lambda>doc_id_field.
     and_then (map_err (\<lambda>e. SearchExecution (''missing text field: '' @ e)) (tv_field index ''text'')) (\<lambda>text_field.
     and_then (map_err (\<lambda>e. SearchExecution (''failed to open index reader: '' @ e)) (tv_reader index)) (\<lambda>_.
     map_ok (\<lambda>q. (index, doc_id_field, text_field,
         (case tv_field index ''metadata'' of Inr f \<Rightarrow> Some f | Inl _ \<Rightarrow> None), q))
       (map_err (\<lambda>e. SearchExecution (''invalid Tantivy query: '' @ e)) (tv_parse index text_field query)))))))"

definition retrieve_top ::
  "'q keyword_env \<Rightarrow> 'q tantivy \<times> nat \<times> nat \<times> nat option \<times> 'q \<Rightarrow> nat \<Rightarrow> nat \<Rightarrow> search_error + search_result list" where
  "retrieve_top ke = (\<lambda>(index, doc_id_field, text_field, metadata_field, q) k limit.
     and_then (map_err (\<lambda>e. SearchExecution (''failed to execute Tantivy query: '' @ e)) (tv_top index q limit))
       (dedupe_top_docs ke index doc_id_field text_field metadata_field k))"

definition search_shard ::
  "'q keyword_env \<Rightarrow> string \<Rightarrow> shard_manifest \<Rightarrow> string \<Rightarrow> nat \<Rightarrow> (search_error + search_result list) option" where
  "search_shard ke store_root shard query k =
     (case open_keyword_index ke store_root (tantivy_path shard) query of
        Inl e \<Rightarrow> Some (Inl e)
      | Inr opened \<Rightarrow>
          let max_docs = tv_num_docs (fst opened)
          in keyword_loop (retrieve_top ke opened k) max_docs k (min k (max max_docs 1)))"

definition keyword_search_active ::
  "'q keyword_env \<Rightarrow> string \<Rightarrow> active_manifest \<Rightarrow> string \<Rightarrow> nat \<Rightarrow> (search_error + search_result list) option" where
  "keyword_search_active ke store_root am query k =
     (case and_then (validate_query query) (\<lambda>_. validate_top_k k) of
        Inl e \<Rightarrow> Some (Inl e)
      | Inr _ \<Rightarrow>
          (case shards (am_manifest am) of
             [shard] \<Rightarrow> search_shard ke store_root shard query k
           | ss \<Rightarrow> Some (Inl (SearchExecution (msg
               [''keyword search currently supports only single-shard manifests, found '', show_nat (length ss), '' shards''])))))"

definition manifest_error :: "(manifest_store_error \<Rightarrow> string) \<Rightarrow> manifest_store_error + 'a \<Rightarrow> search_error + 'a" where
  "manifest_error show_error = map_err (SearchExecution \<circ> show_error)"

definition keyword_search ::
  "'q keyword_env \<Rightarrow> string \<Rightarrow> (manifest_store_error \<Rightarrow> string) \<Rightarrow> manifest_store_error + active_manifest \<Rightarrow> string \<Rightarrow> nat \<Rightarrow>
     (search_error + search_result list) option" where
  "keyword_search ke store_root show_error stored query k =
     (case and_then (validate_query query) (\<lambda>_. and_then (validate_top_k k) (\<lambda>_. manifest_error show_error stored)) of
        Inl e \<Rightarrow> Some (Inl e)
      | Inr am \<Rightarrow> keyword_search_active ke store_root am query k)"

text \<open>The check of a whole request, for either searcher.\<close>

definition plain_request :: "string \<Rightarrow> search_request \<Rightarrow> search_error + unit" where
  "plain_request kind request =
     and_then (map_err SearchValidation (search_request_validate request)) (\<lambda>_.
     if req_filters request \<noteq> None then Inl (SearchExecution (msg [''filters are unsupported for '', kind, '' search'']))
     else if include_metadata request
     then Inl (SearchExecution (msg [''include_metadata is unsupported for '', kind, '' search'']))
     else Inr ())"

definition keyword_search_request ::
  "'q keyword_env \<Rightarrow> string \<Rightarrow> (manifest_store_error \<Rightarrow> string) \<Rightarrow> manifest_store_error + active_manifest \<Rightarrow> search_request \<Rightarrow>
     (search_error + search_result list) option" where
  "keyword_search_request ke store_root show_error stored request =
     (case plain_request ''keyword'' request of
        Inl e \<Rightarrow> Some (Inl e)
      | Inr _ \<Rightarrow> keyword_search ke store_root show_error stored (req_query request) (top_k request))"


section \<open>Rows of the vector database\<close>

text \<open>A batch of rows: its columns by name.  A value beyond the column would panic.\<close>

datatype lance_column = TextColumn "string list" | Column32 "f32 list" | Column64 "f64 list" | OtherColumn

record lance_batch =
  lb_columns :: "string \<Rightarrow> lance_column option"
  lb_rows :: nat

definition at_index :: "'a list \<Rightarrow> nat \<Rightarrow> 'a option" where
  "at_index xs i = (if i < length xs then Some (xs ! i) else None)"

definition downcast_string_column :: "lance_batch \<Rightarrow> string \<Rightarrow> string \<Rightarrow> search_error + string list" where
  "downcast_string_column batch name shard_path =
     and_then (ok_or (SearchExecution (msg [''local LanceDB query did not return '', name, '' column at '', shard_path]))
       (lb_columns batch name)) (\<lambda>column.
     case column of
       TextColumn values \<Rightarrow> Inr values
     | _ \<Rightarrow> Inl (SearchExecution (msg [''local LanceDB column '', name, '' had unexpected type at '', shard_path])))"

definition distance_value :: "lance_column \<Rightarrow> nat \<Rightarrow> string \<Rightarrow> (search_error + f32) option" where
  "distance_value column i shard_path =
     (case column of
        Column32 values \<Rightarrow> map_option Inr (at_index values i)
      | Column64 values \<Rightarrow> map_option (Inr \<circ> f32_of_f64) (at_index values i)
      | _ \<Rightarrow> Some (Inl (SearchExecution (''local LanceDB distance column had unexpected type at '' @ shard_path))))"

definition lancedb_distance_to_score :: "f32 \<Rightarrow> search_error + f32" where
  "lancedb_distance_to_score distance =
     (if \<not> f32_is_finite distance then Inl (SearchExecution ''local LanceDB query returned non-finite distance'')
      else Inr (f32_clamp 0 f32_one (f32_sub f32_one distance)))"

definition parse_metadata_json :: "(string \<Rightarrow> string + metadata) \<Rightarrow> string \<Rightarrow> string \<Rightarrow> search_error + metadata option" where
  "parse_metadata_json parse json shard_path =
     map_ok (\<lambda>m. if m = [] then None else Some m)
       (map_err (\<lambda>e. SearchExecution (msg
           [''failed to parse metadata from local LanceDB documents table at '', shard_path, '': '', e])) (parse json))"

definition decode_row ::
  "(string \<Rightarrow> string + metadata) \<Rightarrow> string \<Rightarrow> string list \<Rightarrow> string list \<Rightarrow> string list \<Rightarrow> lance_column \<Rightarrow> nat \<Rightarrow>
     (search_error + search_result) option" where
  "decode_row parse shard_path doc_ids texts metadata distances i =
     panic_then (distance_value distances i shard_path) (\<lambda>distance.
     panic_then (Some (lancedb_distance_to_score distance)) (\<lambda>score.
     panic_then (map_option Inr (at_index metadata i)) (\<lambda>json.
     panic_then (Some (parse_metadata_json parse json shard_path)) (\<lambda>md.
     panic_then (map_option Inr (at_index doc_ids i)) (\<lambda>doc.
     panic_then (map_option Inr (at_index texts i)) (\<lambda>content.
       let result = \<lparr> res_doc_id = doc, res_score = score, res_text = content, res_metadata = md, res_source = Vector,
             res_chunk_source = DynamicChunk, res_corpus_type = None,
             res_citation = Option.bind md citation_from_metadata \<rparr>
       in Some (map_ok (\<lambda>_. result) (map_err SearchValidation (search_result_validate result)))))))))"

fun decode_rows :: "(nat \<Rightarrow> (search_error + search_result) option) \<Rightarrow> nat list \<Rightarrow> (search_error + search_result list) option" where
  "decode_rows row [] = Some (Inr [])"
| "decode_rows row (i # is) =
     panic_then (row i) (\<lambda>r. map_option (map_ok (Cons r)) (decode_rows row is))"

definition decode_batch ::
  "(string \<Rightarrow> string + metadata) \<Rightarrow> string \<Rightarrow> lance_batch \<Rightarrow> (search_error + search_result list) option" where
  "decode_batch parse shard_path batch =
     panic_then (Some (and_then (downcast_string_column batch ''doc_id'' shard_path) (\<lambda>doc_ids.
       and_then (downcast_string_column batch ''text'' shard_path) (\<lambda>texts.
       and_then (downcast_string_column batch ''metadata'' shard_path) (\<lambda>metadata.
       map_ok (\<lambda>distances. (doc_ids, texts, metadata, distances))
         (ok_or (SearchExecution (''local LanceDB query did not return _distance column at '' @ shard_path))
           (lb_columns batch ''_distance'')))))))
       (\<lambda>(doc_ids, texts, metadata, distances).
          decode_rows (decode_row parse shard_path doc_ids texts metadata distances) [0..<lb_rows batch])"

fun decode_lancedb_batches ::
  "(string \<Rightarrow> string + metadata) \<Rightarrow> string \<Rightarrow> lance_batch list \<Rightarrow> (search_error + search_result list) option" where
  "decode_lancedb_batches parse shard_path [] = Some (Inr [])"
| "decode_lancedb_batches parse shard_path (b # bs) =
     panic_then (decode_batch parse shard_path b) (\<lambda>rs.
       map_option (map_ok ((@) rs)) (decode_lancedb_batches parse shard_path bs))"


section \<open>The cache of shards\<close>

record lance_cache =
  seen_shards :: "(string, u64) hmap"
  hit_count :: u64
  miss_count :: u64
  attempted_version :: "u64 option"
  current_version :: "u64 option"
  bytes_used :: u64

definition empty_lance_cache :: lance_cache where
  "empty_lance_cache = \<lparr> seen_shards = [], hit_count = 0, miss_count = 0, attempted_version = None, current_version = None,
     bytes_used = 0 \<rparr>"

definition reset_for_attempt :: "u64 \<Rightarrow> lance_cache \<Rightarrow> lance_cache" where
  "reset_for_attempt v c =
     \<lparr> seen_shards = [], hit_count = 0, miss_count = 0, attempted_version = Some v, current_version = None, bytes_used = 0 \<rparr>"

definition publish_version :: "u64 \<Rightarrow> lance_cache \<Rightarrow> lance_cache" where
  "publish_version v c = c\<lparr> attempted_version := Some v, current_version := Some v \<rparr>"

definition begin_version_attempt :: "u64 \<Rightarrow> lance_cache \<Rightarrow> lance_cache" where
  "begin_version_attempt v c = (if attempted_version c \<noteq> Some v then reset_for_attempt v c else c)"

definition record_shard_access :: "string \<Rightarrow> u64 \<Rightarrow> u64 \<Rightarrow> lance_cache \<Rightarrow> lance_cache" where
  "record_shard_access shard_path v n_bytes c =
     (let c = publish_version v c
      in case hm_get (seen_shards c) shard_path of
           Some _ \<Rightarrow> c\<lparr> hit_count := hit_count c + 1 \<rparr>
         | None \<Rightarrow> c\<lparr> miss_count := miss_count c + 1, bytes_used := bytes_used c + n_bytes,
               seen_shards := hm_insert shard_path n_bytes (seen_shards c) \<rparr>)"

record cache_stats =
  cs_hit_count :: u64
  cs_miss_count :: u64
  cs_current_version :: "u64 option"
  cs_bytes_used :: u64

definition cache_stats_of :: "lance_cache \<Rightarrow> cache_stats" where
  "cache_stats_of c = \<lparr> cs_hit_count = hit_count c, cs_miss_count = miss_count c, cs_current_version = current_version c,
     cs_bytes_used = bytes_used c \<rparr>"


section \<open>Vector search\<close>

text \<open>
  An open table: its schema, the type of a column by name, its number of rows and the nearest rows
  to a vector.  \<open>ve_fuel\<close> bounds the walk over a shard directory.  A query runs on the runtime of a
  thread of its own when the caller is on a runtime already; \<open>ve_panic\<close> is the text of a panic
  there, which the caller sees only in a build whose panics unwind (the release profile aborts).
\<close>

datatype arrow_type = FixedSizeList int | OtherType string

datatype lance_query_error = BuildFailed string | ExecuteFailed string | CollectFailed string

record lance_table =
  lt_schema :: "string + (string \<Rightarrow> string + arrow_type)"
  lt_count :: "string + nat"
  lt_nearest :: "f32 list \<Rightarrow> nat \<Rightarrow> lance_query_error + lance_batch list"

record vector_env =
  ve_fs :: artifact_fs
  ve_fuel :: nat
  ve_runtime :: "string + unit"
  ve_on_runtime :: bool
  ve_panic :: string
  ve_unwinds :: bool
  ve_connect :: "string \<Rightarrow> string + unit"
  ve_open_table :: "string \<Rightarrow> string + lance_table"
  ve_parse_metadata :: "string \<Rightarrow> string + metadata"
  ve_iter :: "(string, search_result) hmap \<Rightarrow> (string, search_result) hmap"

definition top_k_for_shard :: "nat \<Rightarrow> nat \<Rightarrow> nat" where
  "top_k_for_shard row_count k = min row_count k"

definition lance_failed :: "string \<Rightarrow> string \<Rightarrow> string \<Rightarrow> search_error" where
  "lance_failed what shard_path e = SearchExecution (msg [what, '' at '', shard_path, '': '', e])"

definition check_embedding_type :: "string \<Rightarrow> nat \<Rightarrow> arrow_type \<Rightarrow> search_error + unit" where
  "check_embedding_type shard_path edim type =
     (case type of
        FixedSizeList len \<Rightarrow>
          if len mod 2 ^ 64 = int edim then Inr ()
          else Inl (SearchExecution (msg [''LanceDB embedding dimension '', show_int len,
                 '' does not match manifest embedding dimension '', show_nat edim, '' at '', shard_path]))
      | OtherType t \<Rightarrow>
          Inl (SearchExecution (msg [''LanceDB embedding column has unexpected type '', t, '' at '', shard_path])))"

definition open_shard_table :: "vector_env \<Rightarrow> string \<Rightarrow> nat \<Rightarrow> search_error + lance_table" where
  "open_shard_table ve shard_path edim =
     and_then (map_err (lance_failed ''failed to connect local LanceDB artifact'' shard_path) (ve_connect ve shard_path)) (\<lambda>_.
     and_then (map_err (lance_failed ''failed to open local LanceDB documents table'' shard_path)
       (ve_open_table ve shard_path)) (\<lambda>table.
     and_then (map_err (lance_failed ''failed to read local LanceDB schema'' shard_path) (lt_schema table)) (\<lambda>schema.
     and_then (map_err (lance_failed ''failed to locate LanceDB embedding column'' shard_path) (schema ''embedding'')) (\<lambda>type.
       map_ok (\<lambda>_. table) (check_embedding_type shard_path edim type)))))"

fun nearest_failed :: "string \<Rightarrow> lance_query_error \<Rightarrow> search_error" where
  "nearest_failed shard_path (BuildFailed e) =
     lance_failed ''failed to build local LanceDB nearest-neighbor query'' shard_path e"
| "nearest_failed shard_path (ExecuteFailed e) =
     lance_failed ''failed to execute local LanceDB nearest-neighbor query'' shard_path e"
| "nearest_failed shard_path (CollectFailed e) =
     lance_failed ''failed to collect local LanceDB query results'' shard_path e"

definition query_lance ::
  "vector_env \<Rightarrow> string \<Rightarrow> f32 list \<Rightarrow> nat \<Rightarrow> nat \<Rightarrow> (search_error + search_result list) option" where
  "query_lance ve shard_path query edim k =
     panic_then (Some (open_shard_table ve shard_path edim)) (\<lambda>table.
     panic_then (Some (map_err (lance_failed ''failed to count rows in local LanceDB documents table'' shard_path)
       (lt_count table))) (\<lambda>row_count.
     if row_count = 0 then Some (Inr [])
     else panic_then
       (Some (map_err (nearest_failed shard_path) (lt_nearest table query (top_k_for_shard row_count k))))
       (decode_lancedb_batches (ve_parse_metadata ve) shard_path)))"

definition run_lance_query ::
  "vector_env \<Rightarrow> (search_error + search_result list) option \<Rightarrow> (search_error + search_result list) option" where
  "run_lance_query ve future =
     panic_then (Some (map_err (\<lambda>e. SearchExecution (''failed to create tokio runtime for LanceDB query: '' @ e)) (ve_runtime ve)))
       (\<lambda>_. case future of
          None \<Rightarrow>
            if ve_on_runtime ve \<and> ve_unwinds ve then Some (Inl (SearchExecution (''LanceDB query thread panicked: '' @ ve_panic ve))) else None
        | Some r \<Rightarrow> Some r)"

definition shard_size_bytes ::
  "vector_env \<Rightarrow> string \<Rightarrow> u64 \<Rightarrow> string \<Rightarrow> lance_cache \<Rightarrow> (search_error + u64) option" where
  "shard_size_bytes ve store_root v shard_path c =
     (case (if attempted_version c = Some v then hm_get (seen_shards c) shard_path else None) of
        Some n_bytes \<Rightarrow> Some (Inr n_bytes)
      | None \<Rightarrow> inspect_path_tree (ve_fs ve) (ve_fuel ve) store_root shard_path)"

definition query_shard ::
  "vector_env \<Rightarrow> string \<Rightarrow> shard_manifest \<Rightarrow> u64 \<Rightarrow> f32 list \<Rightarrow> nat \<Rightarrow> nat \<Rightarrow> lance_cache \<Rightarrow>
     (search_error + search_result list) option \<times> lance_cache" where
  "query_shard ve store_root shard v query edim k c =
     (case panic_then (Some (resolve_artifact_path (ve_fs ve) store_root (lance_path shard) ''local LanceDB'')) (\<lambda>shard_path.
           panic_then (shard_size_bytes ve store_root v shard_path c) (\<lambda>n_bytes.
             map_option (map_ok (\<lambda>rs. (shard_path, n_bytes, rs))) (run_lance_query ve (query_lance ve shard_path query edim k)))) of
        None \<Rightarrow> (None, c)
      | Some (Inl e) \<Rightarrow> (Some (Inl e), c)
      | Some (Inr (shard_path, n_bytes, results)) \<Rightarrow>
          (Some (Inr results), record_shard_access shard_path v n_bytes c))"

fun query_shards ::
  "(shard_manifest \<Rightarrow> lance_cache \<Rightarrow> (search_error + search_result list) option \<times> lance_cache) \<Rightarrow> shard_manifest list \<Rightarrow>
     lance_cache \<Rightarrow> (search_error + search_result list) option \<times> lance_cache" where
  "query_shards shard_query [] c = (Some (Inr []), c)"
| "query_shards shard_query (s # ss) c =
     (case shard_query s c of
        (Some (Inr rs), c1) \<Rightarrow> map_prod (map_option (map_ok ((@) rs))) id (query_shards shard_query ss c1)
      | other \<Rightarrow> other)"

definition vector_search_active ::
  "vector_env \<Rightarrow> string \<Rightarrow> active_manifest \<Rightarrow> f32 list \<Rightarrow> nat \<Rightarrow> lance_cache \<Rightarrow>
     (search_error + search_result list) option \<times> lance_cache" where
  "vector_search_active ve store_root am query k c =
     (let manifest = am_manifest am; v = mh_version_id (am_head am)
      in case and_then (validate_query_embedding query) (\<lambda>_. and_then (validate_top_k k) (\<lambda>_.
           if length query \<noteq> embedding_dim manifest then Inl (SearchValidation (InvalidValue ''query_embedding'')) else Inr ())) of
        Inl e \<Rightarrow> (Some (Inl e), c)
      | Inr _ \<Rightarrow>
          map_prod (map_option (map_ok (\<lambda>rs. dedupe_best_by_doc_id (ve_iter ve) rs k))) id
            (query_shards (\<lambda>shard. query_shard ve store_root shard v query (embedding_dim manifest) k)
              (shards manifest) (begin_version_attempt v c)))"

definition vector_search ::
  "vector_env \<Rightarrow> string \<Rightarrow> (manifest_store_error \<Rightarrow> string) \<Rightarrow> manifest_store_error + active_manifest \<Rightarrow> f32 list \<Rightarrow> nat \<Rightarrow>
     lance_cache \<Rightarrow> (search_error + search_result list) option \<times> lance_cache" where
  "vector_search ve store_root show_error stored query k c =
     (case and_then (validate_query_embedding query) (\<lambda>_. and_then (validate_top_k k) (\<lambda>_. manifest_error show_error stored)) of
        Inl e \<Rightarrow> (Some (Inl e), c)
      | Inr am \<Rightarrow> vector_search_active ve store_root am query k c)"

definition vector_search_request ::
  "vector_env \<Rightarrow> string \<Rightarrow> (manifest_store_error \<Rightarrow> string) \<Rightarrow> manifest_store_error + active_manifest \<Rightarrow> search_request \<Rightarrow>
     f32 list \<Rightarrow> lance_cache \<Rightarrow> (search_error + search_result list) option \<times> lance_cache" where
  "vector_search_request ve store_root show_error stored request query c =
     (case plain_request ''vector'' request of
        Inl e \<Rightarrow> (Some (Inl e), c)
      | Inr _ \<Rightarrow> vector_search ve store_root show_error stored query (top_k request) c)"


section \<open>Keyword search returns, and is as good as an exhaustive search\<close>

lemma keyword_loop_result:
  assumes "0 < limit"
  shows "\<exists>r. keyword_loop retrieve max_docs k limit = Some r \<and>
    (\<exists>n > 0. retrieve n = r \<and> (\<forall>rs. r = Inr rs \<longrightarrow> k \<le> length rs \<or> max_docs \<le> n))"
  using assms
proof (induction "max_docs - limit" arbitrary: limit rule: less_induct)
  case less
  show ?case
  proof (cases "retrieve limit")
    case (Inl e)
    then show ?thesis
      using less.prems by (subst keyword_loop.simps) auto
  next
    case (Inr results)
    show ?thesis
    proof (cases "k \<le> length results \<or> max_docs \<le> limit")
      case True
      then show ?thesis
        using less.prems Inr by (subst keyword_loop.simps) auto
    next
      case False
      let ?next = "min (limit * 2) max_docs"
      have step: "keyword_loop retrieve max_docs k limit = keyword_loop retrieve max_docs k ?next"
        using less.prems Inr False by (subst keyword_loop.simps) simp
      show ?thesis
        unfolding step using less.prems False by (intro less.hyps) auto
    qed
  qed
qed

text \<open>
  A lawful index answers a query with a prefix of its ranking, which is in the order of descending
  score and has at most as many entries as there are documents.
\<close>

definition lawful_ranking :: "'q tantivy \<Rightarrow> 'q \<Rightarrow> (f32 \<times> nat) list \<Rightarrow> bool" where
  "lawful_ranking index q ranking \<longleftrightarrow>
     (\<forall>n > 0. tv_top index q n = Inr (take n ranking)) \<and>
     sorted_wrt (\<lambda>a b. f32_total_key (fst b) \<le> f32_total_key (fst a)) ranking \<and>
     (\<forall>x \<in> set ranking. \<not> f32_is_nan (fst x)) \<and> length ranking \<le> tv_num_docs index"

lemma try_map_take: "try_map f xs = Inr ys \<Longrightarrow> try_map f (take n xs) = Inr (take n ys)"
  by (induction f xs arbitrary: n ys rule: try_map.induct)
    (auto simp: result_simps take_Cons' split: nat.splits)

lemma build_search_result_score: "build_search_result index parse i t m x = Inr r \<Longrightarrow> res_score r = fst x"
  by (cases x) (auto simp: build_search_result_def result_simps)

lemma try_map_scores:
  "try_map (build_search_result index parse i t m) xs = Inr rs \<Longrightarrow> map res_score rs = map fst xs"
  by (induction xs arbitrary: rs) (auto simp: result_simps build_search_result_score)

lemma total_key_le:
  assumes "f32_total_key x \<le> f32_total_key y" "\<not> f32_is_nan x" "\<not> f32_is_nan y"
  shows "f32_le x y"
proof -
  have "fl_key 23 8 (unat x) \<le> fl_key 23 8 (unat y)"
    using assms(1) by (auto simp: f32_total_key_def fl_total_key_def fl_key_def split: if_splits)
  then show ?thesis
    using assms(2,3) by (simp add: f32_le_key)
qed

text \<open>Appending results that score no more changes the best of no document already there.\<close>

lemma best_for_append_low:
  assumes "best_for P i = Some e" "\<forall>r \<in> set R. \<forall>p \<in> set P. f32_le (res_score r) (res_score p)"
  shows "best_for (P @ R) i = Some e"
  using assms(2)
proof (induction R rule: rev_induct)
  case (snoc x R)
  have e: "e \<in> set P"
    using best_for_mem [OF assms(1)] by simp
  have "best_for (P @ R) i = Some e"
    using snoc by simp
  then have "best_for ((P @ R) @ [x]) i = Some e"
    unfolding best_for_snoc using snoc.prems e by (simp add: better_def)
  then show ?case
    by (simp only: append.assoc)
qed (simp add: assms(1))

definition score_rank :: "search_result \<Rightarrow> int" where
  "score_rank r = - f32_total_key (res_score r)"

lemma result_key_ranks: "result_key a \<le> result_key b \<Longrightarrow> score_rank a \<le> score_rank b"
  by (auto simp: result_key_def less_eq_rank_key_def score_rank_def)

lemma sorted_key_ranks: "sorted (map result_key xs) \<Longrightarrow> sorted (map score_rank xs)"
  by (induction xs) (auto simp: result_key_ranks)

lemma same_ranks_same_scores:
  assumes "map score_rank xs = map score_rank ys"
  shows "map res_score xs = map res_score ys"
proof -
  have "inj (\<lambda>x. - f32_total_key x)"
    by (intro injI) (simp add: f32_total_key_inj)
  moreover have "(\<lambda>x. - f32_total_key x) \<circ> res_score = score_rank"
    by (simp add: fun_eq_iff score_rank_def)
  ultimately show ?thesis
    using assms inj_map_eq_map [of "\<lambda>x. - f32_total_key x" "map res_score xs" "map res_score ys"] by simp
qed

lemma sorted_mset_unique: "mset xs = mset ys \<Longrightarrow> sorted xs \<Longrightarrow> sorted ys \<Longrightarrow> xs = (ys :: 'a::linorder list)"
  by (metis properties_for_sort)

text \<open>
  If the first results of a descending ranking hold \<open>k\<close> documents, the rest cannot change the \<open>k\<close>
  best scores.
\<close>

lemma dedupe_prefix_suffices:
  assumes iter: "\<forall>m. mset (iter m) = mset m"
    and sorted: "sorted_wrt (\<lambda>a b. f32_total_key (res_score b) \<le> f32_total_key (res_score a)) (P @ R)"
    and nan: "\<forall>r \<in> set (P @ R). \<not> f32_is_nan (res_score r)"
    and enough: "k \<le> length (dedupe_best_by_doc_id iter P k)"
  shows "map res_score (dedupe_best_by_doc_id iter P k) = map res_score (dedupe_best_by_doc_id iter (P @ R) k)"
proof -
  obtain fullP where P: "\<And>k. dedupe_best_by_doc_id iter P k = take k fullP" "distinct (map res_doc_id fullP)"
      "sorted (map result_key fullP)" "\<And>r. r \<in> set fullP \<longleftrightarrow> best_for P (res_doc_id r) = Some r"
    using dedupe_full [OF iter, of P] by metis
  obtain full where A: "\<And>k. dedupe_best_by_doc_id iter (P @ R) k = take k full" "distinct (map res_doc_id full)"
      "sorted (map result_key full)" "\<And>r. r \<in> set full \<longleftrightarrow> best_for (P @ R) (res_doc_id r) = Some r"
    using dedupe_full [OF iter, of "P @ R"] by metis
  have low: "f32_total_key (res_score r) \<le> f32_total_key (res_score p)" if "r \<in> set R" "p \<in> set P" for r p
    using sorted that by (auto simp: sorted_wrt_append)
  then have le: "\<forall>r \<in> set R. \<forall>p \<in> set P. f32_le (res_score r) (res_score p)"
    using nan by (auto intro: total_key_le)
  have sub: "set fullP \<subseteq> set full"
    using P(4) A(4) best_for_append_low [OF _ le] by blast
  define rest where "rest = filter (\<lambda>r. r \<notin> set fullP) full"
  have restR: "r \<in> set R" if "r \<in> set rest" for r
  proof (rule ccontr)
    assume "r \<notin> set R"
    moreover have r: "best_for (P @ R) (res_doc_id r) = Some r" "r \<notin> set fullP"
      using that A(4) by (auto simp: rest_def)
    ultimately have "r \<in> set P"
      using best_for_mem by fastforce
    then obtain e where "best_for P (res_doc_id r) = Some e"
      using best_for_exists by blast
    then show False
      using best_for_append_low [OF _ le] r P(4) [of r] by auto
  qed
  have "mset full = mset fullP + mset rest"
  proof -
    have "distinct full" "distinct fullP"
      using A(2) P(2) by (simp_all add: distinct_map)
    then have "mset fullP = mset (filter (\<lambda>r. r \<in> set fullP) full)"
      using sub by (intro set_eq_iff_mset_eq_distinct [THEN iffD1]) auto
    then show ?thesis
      using multiset_partition [of "mset full" "\<lambda>r. r \<in> set fullP"] by (simp add: rest_def)
  qed
  then have "mset (map score_rank full) = mset (map score_rank fullP @ map score_rank rest)"
    by simp
  moreover have "sorted (map score_rank fullP @ map score_rank rest)"
  proof -
    have "score_rank p \<le> score_rank r" if "p \<in> set fullP" "r \<in> set rest" for p r
      using low [OF restR [OF that(2)]] that(1) P(4) best_for_mem by (fastforce simp: score_rank_def)
    moreover have "sorted (map score_rank rest)"
      unfolding rest_def by (rule sorted_filter [OF sorted_key_ranks [OF A(3)]])
    ultimately show ?thesis
      using sorted_key_ranks [OF P(3)] by (auto simp: sorted_append)
  qed
  ultimately have "map score_rank full = map score_rank fullP @ map score_rank rest"
    using sorted_key_ranks [OF A(3)] by (intro sorted_mset_unique)
  then have "take k (map score_rank full) = take k (map score_rank fullP)"
    using enough P(1) by simp
  then show ?thesis
    unfolding P(1) A(1) by (intro same_ranks_same_scores) (simp add: take_map)
qed

text \<open>
  C22. Keyword search returns, and its widening loop loses nothing: over a lawful index
  whose matched documents can be read, the scores of its results are those of a search that
  fetches every match before it de-duplicates, each document comes once, and every result is a match.
\<close>

theorem keyword_search_is_exhaustive:
  assumes "\<forall>m. mset (ke_iter ke m) = mset m"
    and "validate_query query = Inr ()" "validate_top_k k = Inr ()"
    and "shards (am_manifest am) = [shard]"
    and "open_keyword_index ke store_root (tantivy_path shard) query = Inr (index, i, t, m, q)"
    and "lawful_ranking index q ranking"
    and "try_map (build_search_result index (ke_parse_metadata ke) i t m) ranking = Inr rows"
  shows "\<exists>rs. keyword_search_active ke store_root am query k = Some (Inr rs) \<and>
    map res_score rs = map res_score (dedupe_best_by_doc_id (ke_iter ke) rows k) \<and>
    distinct (map res_doc_id rs) \<and> set rs \<subseteq> set rows"
proof -
  let ?get = "retrieve_top ke (index, i, t, m, q) k"
  have get: "?get n = Inr (dedupe_best_by_doc_id (ke_iter ke) (take n rows) k)" if "0 < n" for n
    using that assms(6) try_map_take [OF assms(7)]
    by (simp add: retrieve_top_def dedupe_top_docs_def lawful_ranking_def)
  have k: "0 < min k (max (tv_num_docs index) 1)"
    using assms(3) by (auto simp: validate_top_k_def split: if_splits)
  obtain r n where r: "keyword_loop ?get (tv_num_docs index) k (min k (max (tv_num_docs index) 1)) = Some r"
      "0 < n" "?get n = r" "\<forall>rs. r = Inr rs \<longrightarrow> k \<le> length rs \<or> tv_num_docs index \<le> n"
    using keyword_loop_result [OF k, of ?get "tv_num_docs index" k] by blast
  define rs where "rs = dedupe_best_by_doc_id (ke_iter ke) (take n rows) k"
  have rs: "keyword_loop ?get (tv_num_docs index) k (min k (max (tv_num_docs index) 1)) = Some (Inr rs)"
      "0 < n" "?get n = Inr rs" "k \<le> length rs \<or> tv_num_docs index \<le> n"
    using r get [OF r(2)] by (simp_all add: rs_def)
  then have found: "keyword_search_active ke store_root am query k = Some (Inr rs)"
    using assms(2-5) by (simp add: keyword_search_active_def search_shard_def Let_def)
  have eq: "rs = dedupe_best_by_doc_id (ke_iter ke) (take n rows) k"
    using rs(2,3) get by simp
  have scores: "map res_score rows = map fst ranking"
    by (rule try_map_scores [OF assms(7)])
  have "sorted_wrt (\<lambda>a b. f32_total_key b \<le> f32_total_key a) (map res_score rows)"
    unfolding scores using assms(6) by (simp add: lawful_ranking_def sorted_wrt_map)
  then have sorted: "sorted_wrt (\<lambda>a b. f32_total_key (res_score b) \<le> f32_total_key (res_score a)) rows"
    by (simp add: sorted_wrt_map)
  have "\<forall>x \<in> set (map res_score rows). \<not> f32_is_nan x"
    unfolding scores using assms(6) by (auto simp: lawful_ranking_def)
  then have nan: "\<forall>r \<in> set rows. \<not> f32_is_nan (res_score r)"
    by simp
  have "map res_score rs = map res_score (dedupe_best_by_doc_id (ke_iter ke) rows k)"
  proof (cases "tv_num_docs index \<le> n")
    case True
    moreover have "length rows \<le> tv_num_docs index"
      using assms(6) scores by (metis lawful_ranking_def length_map)
    ultimately show ?thesis
      using eq by simp
  next
    case False
    then have enough: "k \<le> length (dedupe_best_by_doc_id (ke_iter ke) (take n rows) k)"
      using rs(4) eq by simp
    show ?thesis
      using dedupe_prefix_suffices [OF assms(1), of "take n rows" "drop n rows", OF _ _ enough] sorted nan eq by simp
  qed
  moreover obtain full where full: "rs = take k full" "distinct (map res_doc_id full)"
      "\<And>r. r \<in> set full \<longleftrightarrow> best_for (take n rows) (res_doc_id r) = Some r"
    using dedupe_full [OF assms(1), of "take n rows"] eq by metis
  moreover have "distinct (map res_doc_id rs)"
    unfolding full(1) using full(2) by (simp flip: take_map)
  moreover have "set rs \<subseteq> set rows"
    using full(1,3) best_for_mem by (metis in_set_takeD subsetI)
  ultimately show ?thesis
    using found by blast
qed

text \<open>Three matches of two documents: the first two fetched are one document.\<close>

definition demo_matches :: "(f32 \<times> nat) list" where
  "demo_matches = [(0x40400000, 0), (0x40000000, 1), (0x3F800000, 2)]"

definition demo_index :: "string tantivy" where
  "demo_index = \<lparr> tv_field = (\<lambda>name. if name = ''doc_id'' then Inr 0 else if name = ''text'' then Inr 1 else Inl ''no field''),
     tv_reader = Inr (), tv_num_docs = 3, tv_parse = (\<lambda>_ q. Inr q), tv_top = (\<lambda>_ n. Inr (take n demo_matches)),
     tv_doc = (\<lambda>address. Inr (\<lambda>field. Some (Some (if field = 0 \<and> address = 2 then ''b'' else ''a'')))) \<rparr>"

definition plain_fs :: artifact_fs where
  "plain_fs = \<lparr> af_canonicalize = Inr, af_metadata = (\<lambda>_. Inr (FileOfSize 4)), af_read_dir = (\<lambda>_. Inr []) \<rparr>"

definition demo_keyword :: "string keyword_env" where
  "demo_keyword = \<lparr> ke_fs = plain_fs, ke_open = (\<lambda>_. Inr demo_index), ke_parse_metadata = (\<lambda>_. Inr []), ke_iter = rev \<rparr>"

lemma keyword_search_is_exhaustive_witness:
  "\<exists>rs. keyword_search_active demo_keyword ''/r'' demo_active ''q'' 2 = Some (Inr rs) \<and>
     map res_score rs = [0x40400000, 0x3F800000]"
proof -
  have iter: "\<forall>m. mset (ke_iter demo_keyword m) = mset m"
    by (simp add: demo_keyword_def)
  have valid: "validate_query ''q'' = Inr ()" "validate_top_k 2 = Inr ()"
    by code_simp+
  have shard: "shards (am_manifest demo_active) = [sample_shard]"
    by (simp add: demo_active_def sample_manifest_def)
  have "resolve_artifact_path plain_fs ''/r'' ''s3://b/t'' ''Tantivy'' = Inr ''/r/t''"
    by code_simp
  then have opened: "open_keyword_index demo_keyword ''/r'' (tantivy_path sample_shard) ''q'' = Inr (demo_index, 0, 1, None, ''q'')"
    by (simp add: open_keyword_index_def demo_keyword_def sample_shard_def demo_index_def)
  have ranking: "lawful_ranking demo_index ''q'' demo_matches"
    by (simp add: lawful_ranking_def demo_index_def demo_matches_def fl_eval)
  let ?hit = "\<lambda>i x. \<lparr> res_doc_id = i, res_score = x, res_text = ''a'', res_metadata = None, res_source = Keyword,
    res_chunk_source = DynamicChunk, res_corpus_type = None, res_citation = None \<rparr>"
  have rows: "try_map (build_search_result demo_index (ke_parse_metadata demo_keyword) 0 1 None) demo_matches =
      Inr [?hit ''a'' 0x40400000, ?hit ''a'' 0x40000000, ?hit ''b'' 0x3F800000]"
    by (simp add: demo_matches_def demo_index_def demo_keyword_def build_search_result_def first_text_def load_metadata_def
        ok_or_def)
  moreover have "map res_score (dedupe_best_by_doc_id rev [?hit ''a'' 0x40400000, ?hit ''a'' 0x40000000, ?hit ''b'' 0x3F800000] 2) =
      [0x40400000, 0x3F800000]"
    by code_simp
  ultimately show ?thesis
    using keyword_search_is_exhaustive [OF iter valid shard opened ranking rows] by (auto simp: demo_keyword_def)
qed


section \<open>The walk over a shard ends\<close>

lemma walk_tree_more_fuel:
  "walk_tree fs store_root n pending visited t = Some r \<Longrightarrow> n \<le> m \<Longrightarrow> walk_tree fs store_root m pending visited t = Some r"
proof (induction n arbitrary: m pending visited t)
  case 0
  then show ?case
    by (cases pending) simp_all
next
  case (Suc n)
  then obtain m' where m: "m = Suc m'" "n \<le> m'"
    by (cases m) auto
  show ?case
  proof (cases pending)
    case (Cons path rest)
    then show ?thesis
      using Suc.prems(1) Suc.IH [OF _ m(2)] m(1)
      by (cases "inspect_path fs store_root path") (auto split: sum.splits file_kind.splits)
  qed (use Suc.prems(1) m in simp)
qed

lemma inspect_path_directory:
  "inspect_path fs store_root path = Inr (c, Directory) \<Longrightarrow> \<exists>p. af_canonicalize fs p = Inr c \<and> af_metadata fs c = Inr Directory"
  by (auto simp: inspect_path_def result_simps split: if_splits)

lemma walk_tree_returns:
  assumes "finite D" "\<And>p c. af_canonicalize fs p = Inr c \<Longrightarrow> af_metadata fs c = Inr Directory \<Longrightarrow> c \<in> D"
  shows "\<exists>n r. walk_tree fs store_root n pending visited t = Some r"
proof (induction "card (D - set visited)" arbitrary: visited pending t rule: less_induct)
  case less
  show ?case
  proof (induction pending arbitrary: t)
    case Nil
    then show ?case
      by (intro exI [of _ 0]) simp
  next
    case (Cons path rest)
    have "\<exists>n r. walk_tree fs store_root (Suc n) (path # rest) visited t = Some r"
    proof (cases "inspect_path fs store_root path")
      case (Inr found)
      obtain c kind where found: "found = (c, kind)"
        by fastforce
      show ?thesis
      proof (cases kind)
        case Directory
        then have "c \<in> D"
          using assms(2) inspect_path_directory Inr found by blast
        show ?thesis
        proof (cases "list_directory fs visited c")
          case (Inr paths)
          then have "c \<notin> set visited"
            by (auto simp: list_directory_def)
          then have "card (D - set (c # visited)) < card (D - set visited)"
            using \<open>c \<in> D\<close> assms(1) by (intro psubset_card_mono) auto
          from less [OF this] obtain n r where
            "walk_tree fs store_root n (rev paths @ rest) (c # visited) t = Some r"
            by blast
          then show ?thesis
            using \<open>inspect_path fs store_root path = Inr found\<close> found Directory Inr by auto
        qed (use Inr found Directory in auto)
      qed (use Inr found Cons.IH in auto)
    qed simp
    then show ?case
      by blast
  qed
qed

text \<open>
  C23. The walk that sizes a shard directory ends on every file system with finitely many
  directories, whatever symbolic links they hold: there is a number of steps after which it
  has a result, the same for every larger number.
\<close>

theorem shard_walk_ends:
  assumes "finite D" and "\<And>p c. af_canonicalize fs p = Inr c \<Longrightarrow> af_metadata fs c = Inr Directory \<Longrightarrow> c \<in> D"
  shows "\<exists>n0 r. \<forall>n \<ge> n0. inspect_path_tree fs n store_root path = Some r"
proof (cases "canonical_root fs store_root")
  case (Inl e)
  then show ?thesis
    by (simp add: inspect_path_tree_def)
next
  case (Inr canonical)
  have "\<exists>n r. walk_tree fs canonical n [path] [] 0 = Some r"
    using assms by (rule walk_tree_returns)
  then obtain n r where "walk_tree fs canonical n [path] [] 0 = Some r"
    by blast
  then have "inspect_path_tree fs m store_root path = Some r" if "n \<le> m" for m
    using Inr walk_tree_more_fuel [OF _ that] by (simp add: inspect_path_tree_def)
  then show ?thesis
    by blast
qed

text \<open>A directory with a link to itself.\<close>

definition loop_fs :: artifact_fs where
  "loop_fs = \<lparr> af_canonicalize = (\<lambda>p. if p = ''/r/s/link'' then Inr ''/r/s'' else Inr p),
     af_metadata = (\<lambda>p. if p = ''/r/s'' then Inr Directory else Inr (FileOfSize 4)),
     af_read_dir = (\<lambda>_. Inr [Inr ''/r/s/link'', Inr ''/r/s/data'']) \<rparr>"

lemma shard_walk_ends_witness:
  "\<exists>n0 r. \<forall>n \<ge> n0. inspect_path_tree loop_fs n ''/r'' ''/r/s'' = Some r"
  by (rule shard_walk_ends [of "{''/r/s''}"]) (simp_all add: loop_fs_def split: if_splits)

end
