(* ===== verification/Vector_Search.thy ===== *)
theory Vector_Search
  imports Dynamic_Search
begin

text \<open>
  Vector search over the shards of a version finds the nearest rows: the score of a distance is
  monotone, batches decode row by row, and the merge of the best rows of every shard is as good as
  the merge of all rows.
\<close>


section \<open>Scores\<close>

text \<open>Subtraction rounds the exact difference, and rounding is monotone.\<close>

definition signed_round :: "int \<Rightarrow> int" where
  "signed_round u = (if u < 0 then - int (round_mag 23 8 (nat (- u)) 1) else int (round_mag 23 8 (nat u) 1))"

lemma signed_round_mono:
  assumes "u \<le> v"
  shows "signed_round u \<le> signed_round v"
proof (cases "u < 0 \<and> v < 0 \<or> 0 \<le> u \<and> 0 \<le> v")
  case True
  then have "round_mag 23 8 (nat (- v)) 1 \<le> round_mag 23 8 (nat (- u)) 1"
      "round_mag 23 8 (nat u) 1 \<le> round_mag 23 8 (nat v) 1"
    using assms by (auto intro!: round_mag_mono)
  then show ?thesis
    using True by (auto simp: signed_round_def)
next
  case False
  then show ?thesis
    using assms by (auto simp: signed_round_def)
qed

lemma f32_sub_rounds:
  assumes "f32_is_finite x" "f32_is_finite y"
  shows "\<not> f32_is_nan (f32_sub x y)" "f32_key (f32_sub x y) = signed_round (f32_units x - f32_units y)"
proof -
  have m: "fl_mag 23 8 (unat y) < 2 ^ (8 + 23)"
    using f32_fields(3) [OF assms(2)] by (simp add: inf32)
  note neg = fl_pack_fields [OF m, of "\<not> fl_sign 23 8 (unat y)", folded fl_neg_def]
  have fin: "\<not> fl_is_nan 23 8 (fl_neg 23 8 (unat y))" "\<not> fl_is_inf 23 8 (fl_neg 23 8 (unat y))"
    using f32_fields(3) [OF assms(2)] by (simp_all add: fl_is_nan_def fl_is_inf_def neg(1))
  have units: "fl_units 23 8 (fl_neg 23 8 (unat y)) = - f32_units y"
    using neg(5) f32_fields(4) [OF assms(2)] by simp
  define s where "s = f32_units x - f32_units y"
  define r where "r = round_mag 23 8 (nat \<bar>s\<bar>) 1"
  define b where "b = (if s = 0 then fl_sign 23 8 (unat x) \<and> fl_sign 23 8 (fl_neg 23 8 (unat y)) else s < 0)"
  have add: "fl_add 23 8 (unat x) (fl_neg 23 8 (unat y)) = fl_pack 23 8 b r"
    using f32_fields(1,2) [OF assms(1)] fin units
    by (simp add: fl_add_def Let_def b_def r_def s_def f32_units_def)
  have r: "r \<le> inf_mag 23 8"
    unfolding r_def by (rule round_mag_le_inf)
  then have r31: "r < 2 ^ (8 + 23)"
    by (simp add: inf32)
  note packed = fl_pack_fields [OF r31, of b]
  have u: "unat (f32_sub x y) = fl_pack 23 8 b r"
    using packed(3) unfolding f32_sub_def add by (simp add: unat_of_nat take_bit_nat_eq_self)
  show "\<not> f32_is_nan (f32_sub x y)"
    using r unfolding f32_is_nan_def fl_is_nan_def u packed(1) by simp
  have "f32_key (f32_sub x y) = (if b then - int r else int r)"
    unfolding f32_key_def u by (rule packed(4))
  also have "\<dots> = signed_round s"
    by (auto simp: b_def r_def signed_round_def)
  finally show "f32_key (f32_sub x y) = signed_round (f32_units x - f32_units y)"
    by (simp add: s_def)
qed

lemma unit_keys: "f32_key 0 = 0" "f32_key f32_one = 0x3F800000" "\<not> f32_is_nan 0" "\<not> f32_is_nan f32_one"
  by (simp_all add: f32_key_def fl_eval f32_one_def)

lemma f32_lt_key: "\<not> f32_is_nan x \<Longrightarrow> \<not> f32_is_nan y \<Longrightarrow> f32_lt x y \<longleftrightarrow> f32_key x < f32_key y"
  by (simp add: f32_lt_def fl_lt_def f32_is_nan_def f32_key_def)

lemma f32_le_by_key: "\<not> f32_is_nan x \<Longrightarrow> \<not> f32_is_nan y \<Longrightarrow> f32_le x y \<longleftrightarrow> f32_key x \<le> f32_key y"
  by (simp add: f32_le_key f32_key_def)

lemma clamp_unit:
  assumes "\<not> f32_is_nan x"
  shows "\<not> f32_is_nan (f32_clamp 0 f32_one x)" "f32_key (f32_clamp 0 f32_one x) = max 0 (min 0x3F800000 (f32_key x))"
  using assms unit_keys by (auto simp: f32_clamp_def Let_def f32_lt_key)

text \<open>A score lies between zero and one, and a nearer row scores no less.\<close>

lemma score_exact:
  assumes "lancedb_distance_to_score d = Inr x"
  shows "f32_is_finite d" "\<not> f32_is_nan x" "f32_key x = max 0 (min 0x3F800000 (signed_round (f32_units f32_one - f32_units d)))"
proof -
  have one: "f32_is_finite f32_one"
    by (simp add: fl_eval f32_one_def)
  show d: "f32_is_finite d"
    using assms by (auto simp: lancedb_distance_to_score_def split: if_splits)
  then have x: "x = f32_clamp 0 f32_one (f32_sub f32_one d)"
    using assms by (simp add: lancedb_distance_to_score_def)
  show "\<not> f32_is_nan x" "f32_key x = max 0 (min 0x3F800000 (signed_round (f32_units f32_one - f32_units d)))"
    unfolding x using clamp_unit f32_sub_rounds [OF one d] by simp_all
qed

lemma score_in_unit_range: "lancedb_distance_to_score d = Inr x \<Longrightarrow> in_unit_range x"
  using score_exact [of d x] unit_keys by (simp add: in_unit_range_def f32_le_by_key)

lemma score_antimono:
  assumes "lancedb_distance_to_score d = Inr x" "lancedb_distance_to_score e = Inr y" "f32_le d e"
  shows "f32_key y \<le> f32_key x"
proof -
  have "f32_units d \<le> f32_units e"
    using assms(3) score_exact(1) [OF assms(1)] score_exact(1) [OF assms(2)] by (simp add: f32_le_units)
  then have "signed_round (f32_units f32_one - f32_units e) \<le> signed_round (f32_units f32_one - f32_units d)"
    by (intro signed_round_mono) simp
  then show ?thesis
    by (simp add: score_exact(3) [OF assms(1)] score_exact(3) [OF assms(2)])
qed


section \<open>Batches decode row by row\<close>

record lance_row =
  lr_doc_id :: string
  lr_text :: string
  lr_metadata :: string
  lr_distance :: f32

text \<open>
  A batch that holds some rows: their columns by name, whatever other columns there are, with the
  distance in single or in double precision.
\<close>

definition batch_holds :: "lance_batch \<Rightarrow> lance_row list \<Rightarrow> bool" where
  "batch_holds batch rows \<longleftrightarrow> lb_rows batch = length rows \<and>
     lb_columns batch ''doc_id'' = Some (TextColumn (map lr_doc_id rows)) \<and>
     lb_columns batch ''text'' = Some (TextColumn (map lr_text rows)) \<and>
     lb_columns batch ''metadata'' = Some (TextColumn (map lr_metadata rows)) \<and>
     (lb_columns batch ''_distance'' = Some (Column32 (map lr_distance rows)) \<or>
      (\<exists>ds. lb_columns batch ''_distance'' = Some (Column64 ds) \<and> map f32_of_f64 ds = map lr_distance rows))"

definition row_result :: "(string \<Rightarrow> string + metadata) \<Rightarrow> string \<Rightarrow> lance_row \<Rightarrow> search_error + search_result" where
  "row_result parse shard_path row =
     and_then (lancedb_distance_to_score (lr_distance row)) (\<lambda>score.
     and_then (parse_metadata_json parse (lr_metadata row) shard_path) (\<lambda>md.
       let result = \<lparr> res_doc_id = lr_doc_id row, res_score = score, res_text = lr_text row, res_metadata = md,
             res_source = Vector, res_chunk_source = DynamicChunk, res_corpus_type = None,
             res_citation = Option.bind md citation_from_metadata \<rparr>
       in map_ok (\<lambda>_. result) (map_err SearchValidation (search_result_validate result))))"

lemma panic_then_Some: "panic_then (Some r) f = (case r of Inl e \<Rightarrow> Some (Inl e) | Inr x \<Rightarrow> f x)"
  by (cases r) (simp_all add: panic_then_def)

lemma decode_row_batch:
  assumes "i < length rows"
    and "distances = Column32 (map lr_distance rows) \<or>
      (\<exists>ds. distances = Column64 ds \<and> map f32_of_f64 ds = map lr_distance rows)"
  shows "decode_row parse shard_path (map lr_doc_id rows) (map lr_text rows) (map lr_metadata rows) distances i =
    Some (row_result parse shard_path (rows ! i))"
proof -
  have "distance_value distances i shard_path = Some (Inr (lr_distance (rows ! i)))"
    using assms(2)
  proof
    assume "\<exists>ds. distances = Column64 ds \<and> map f32_of_f64 ds = map lr_distance rows"
    then obtain ds where ds: "distances = Column64 ds" "map f32_of_f64 ds = map lr_distance rows"
      by blast
    then have "length ds = length rows"
      by (metis length_map)
    then have "f32_of_f64 (ds ! i) = lr_distance (rows ! i)"
      using ds(2) assms(1) by (metis nth_map)
    then show ?thesis
      using ds(1) assms(1) \<open>length ds = length rows\<close> by (simp add: distance_value_def at_index_def)
  qed (use assms(1) in \<open>simp add: distance_value_def at_index_def\<close>)
  then show ?thesis
    using assms(1) by (simp add: decode_row_def row_result_def at_index_def panic_then_Some Let_def split: sum.splits)
qed

lemma decode_rows_total:
  "(\<And>i. i \<in> set is \<Longrightarrow> row i = Some (f i)) \<Longrightarrow> decode_rows row is = Some (try_map f is)"
  by (induction "is") (simp_all add: panic_then_Some split: sum.splits)

lemma try_map_index: "try_map (\<lambda>i. f (rows ! i)) [0..<length rows] = try_map f rows"
proof -
  have "try_map (\<lambda>i. f (rows ! i)) is = try_map f (map ((!) rows) is)" for "is"
    by (induction "is") simp_all
  then show ?thesis
    by (simp add: map_nth)
qed

lemma decode_held_batch:
  assumes "batch_holds batch rows"
  shows "decode_batch parse shard_path batch = Some (try_map (row_result parse shard_path) rows)"
proof -
  obtain distances where d: "lb_columns batch ''_distance'' = Some distances"
    "distances = Column32 (map lr_distance rows) \<or>
      (\<exists>ds. distances = Column64 ds \<and> map f32_of_f64 ds = map lr_distance rows)"
    using assms unfolding batch_holds_def by blast
  then show ?thesis
    using assms decode_rows_total [of "[0..<length rows]"] decode_row_batch [OF _ d(2), of _ parse shard_path]
    by (simp add: batch_holds_def decode_batch_def downcast_string_column_def ok_or_def panic_then_Some try_map_index)
qed

lemma try_map_append: "try_map f (xs @ ys) = and_then (try_map f xs) (\<lambda>rs. map_ok ((@) rs) (try_map f ys))"
proof (induction xs)
  case Nil
  then show ?case
    by (cases "try_map f ys") simp_all
next
  case (Cons x xs)
  then show ?case
    by (cases "f x"; cases "try_map f xs"; cases "try_map f ys") simp_all
qed

text \<open>However the database splits its answer into batches, every row is decoded, in order.\<close>

lemma decode_all_batches:
  "list_all2 batch_holds batches groups \<Longrightarrow>
     decode_lancedb_batches parse shard_path batches = Some (try_map (row_result parse shard_path) (concat groups))"
proof (induction rule: list_all2_induct)
  case (Cons batch batches rows groups)
  then show ?case
    by (cases "try_map (row_result parse shard_path) rows")
      (simp_all add: decode_held_batch panic_then_Some try_map_append)
qed simp

lemma row_result_fields:
  assumes "row_result parse shard_path row = Inr r"
  shows "res_doc_id r = lr_doc_id row" "lancedb_distance_to_score (lr_distance row) = Inr (res_score r)"
  using assms by (auto simp: row_result_def Let_def result_simps)


section \<open>The merge of the best rows\<close>

definition score_key :: "search_result \<Rightarrow> int" where
  "score_key r = f32_key (res_score r)"

lemma result_key_scores: "result_key a \<le> result_key b \<Longrightarrow> score_key b \<le> score_key a"
  by (auto simp: result_key_def less_eq_rank_key_def score_key_def f32_key_def f32_total_key_def fl_total_key_def fl_key_def
      split: if_splits)

lemma filter_takeWhile_sorted:
  "sorted_wrt (\<lambda>a b. f b \<le> f a) xs \<Longrightarrow> filter (\<lambda>x. (t::int) \<le> f x) xs = takeWhile (\<lambda>x. t \<le> f x) xs"
proof (induction xs)
  case (Cons x xs)
  show ?case
  proof (cases "t \<le> f x")
    case True
    then show ?thesis
      using Cons by simp
  next
    case False
    then have "filter (\<lambda>x. t \<le> f x) xs = []"
      using Cons.prems by (fastforce simp: filter_empty_conv)
    then show ?thesis
      using False by simp
  qed
qed simp

text \<open>If \<open>k\<close> of the sorted results reach a threshold, the first \<open>k\<close> do.\<close>

lemma top_k_reach:
  assumes "sorted (map result_key full)" "k \<le> card {e \<in> set full. t \<le> score_key e}"
  shows "length (take k full) = k \<and> (\<forall>e \<in> set (take k full). t \<le> score_key e)"
proof -
  let ?P = "\<lambda>e. t \<le> score_key e"
  have "sorted_wrt (\<lambda>a b. score_key b \<le> score_key a) full"
    using assms(1) unfolding sorted_map by (rule sorted_wrt_mono_rel [rotated]) (rule result_key_scores)
  then have eq: "filter ?P full = takeWhile ?P full"
    by (rule filter_takeWhile_sorted)
  have "card {e \<in> set full. ?P e} \<le> length (filter ?P full)"
    using card_length [of "filter ?P full"] by simp
  then have k: "k \<le> length (takeWhile ?P full)"
    using assms(2) eq by simp
  have "take k (takeWhile ?P full) = take k (take (length (takeWhile ?P full)) full)"
    by (simp only: takeWhile_eq_take [symmetric])
  then have prefix: "take k full = take k (takeWhile ?P full)"
    using k by (simp add: min_def)
  have "\<forall>e \<in> set (take k full). ?P e"
  proof
    fix e
    assume "e \<in> set (take k full)"
    then have "e \<in> set (takeWhile ?P full)"
      unfolding prefix by (rule in_set_takeD)
    then show "?P e"
      by (auto dest: set_takeWhileD)
  qed
  moreover have "length (take k full) = k"
    using k unfolding prefix by simp
  ultimately show ?thesis
    by blast
qed

text \<open>
  The results of a shard: no NaN, descending, one per document.
\<close>

definition shard_ranked :: "search_result list \<Rightarrow> bool" where
  "shard_ranked rs \<longleftrightarrow> (\<forall>r \<in> set rs. \<not> f32_is_nan (res_score r)) \<and> sorted_wrt (\<lambda>a b. score_key b \<le> score_key a) rs \<and>
     distinct (map res_doc_id rs)"

lemma best_for_reach:
  assumes "r \<in> set all" "\<forall>r \<in> set all. \<not> f32_is_nan (res_score r)"
  obtains e where "best_for all (res_doc_id r) = Some e" "score_key r \<le> score_key e" "res_doc_id e = res_doc_id r"
proof -
  obtain e where e: "best_for all (res_doc_id r) = Some e"
    using best_for_exists [OF assms(1)] by blast
  moreover have "e \<in> set all" "res_doc_id e = res_doc_id r"
    using best_for_mem [OF e] by auto
  moreover have "f32_le (res_score r) (res_score e)"
    by (rule best_for_max [OF e assms(2,1) refl])
  ultimately show thesis
    using that assms by (simp add: f32_le_by_key score_key_def)
qed

lemma merge_is_exhaustive:
  assumes iter: "\<forall>m. mset (iter m) = mset m" and ranked: "\<forall>rs \<in> set rss. shard_ranked rs"
    and rs: "rs \<in> set rss" and r: "r \<in> set rs"
    and found: "found = dedupe_best_by_doc_id iter (concat (map (take k) rss)) k"
  shows "(\<exists>e \<in> set found. res_doc_id e = res_doc_id r \<and> score_key r \<le> score_key e) \<or>
    length found = k \<and> (\<forall>e \<in> set found. score_key r \<le> score_key e)"
proof -
  define all where "all = concat (map (take k) rss)"
  have nan: "\<forall>r \<in> set all. \<not> f32_is_nan (res_score r)"
    using ranked by (auto simp: all_def shard_ranked_def dest!: in_set_takeD)
  obtain full where full: "\<And>k. dedupe_best_by_doc_id iter all k = take k full"
      "sorted (map result_key full)" "\<And>r. r \<in> set full \<longleftrightarrow> best_for all (res_doc_id r) = Some r"
    using dedupe_full [OF iter, of all] by metis
  have found: "found = take k full"
    using found full(1) by (simp add: all_def)
  show ?thesis
  proof (cases "r \<in> set (take k rs)")
    case True
    then have "r \<in> set all"
      using rs by (auto simp: all_def)
    then obtain e where e: "best_for all (res_doc_id r) = Some e" "score_key r \<le> score_key e" "res_doc_id e = res_doc_id r"
      using best_for_reach [OF _ nan] by blast
    then have "e \<in> set full"
      using full(3) [of e] by simp
    then consider "e \<in> set (take k full)" | "e \<in> set (drop k full)"
      by (metis Un_iff append_take_drop_id set_append)
    then show ?thesis
    proof cases
      case 1
      then show ?thesis
        using e found by blast
    next
      case 2
      have "sorted (map result_key (take k full) @ map result_key (drop k full))"
        using full(2) by (simp flip: map_append)
      then have "\<forall>e' \<in> set (take k full). result_key e' \<le> result_key e"
        using 2 by (auto simp: sorted_append)
      moreover have "k < length full"
        using 2 by (cases "k < length full") simp_all
      ultimately show ?thesis
        using e(2) result_key_scores found by (fastforce intro: order_trans)
    qed
  next
    case False
    let ?S = "{e \<in> set full. score_key r \<le> score_key e}"
    have low: "r \<in> set (drop k rs)"
      using r False by (metis Un_iff append_take_drop_id set_append)
    then have k: "length (take k rs) = k"
      by (cases "k < length rs") simp_all
    have s: "shard_ranked rs"
      using ranked rs by blast
    then have "sorted_wrt (\<lambda>a b. score_key b \<le> score_key a) (take k rs @ drop k rs)"
      by (simp add: shard_ranked_def)
    then have above: "\<forall>e \<in> set (take k rs). score_key r \<le> score_key e"
      using low unfolding sorted_wrt_append by blast
    have "res_doc_id ` set (take k rs) \<subseteq> res_doc_id ` ?S"
    proof
      fix i
      assume "i \<in> res_doc_id ` set (take k rs)"
      then obtain x where x: "x \<in> set (take k rs)" "i = res_doc_id x"
        by blast
      then have "x \<in> set all"
        using rs by (auto simp: all_def)
      then obtain e where "best_for all (res_doc_id x) = Some e" "score_key x \<le> score_key e" "res_doc_id e = res_doc_id x"
        using best_for_reach [OF _ nan] by blast
      then have "e \<in> ?S" "res_doc_id e = i"
        using full(3) [of e] x above by auto
      then show "i \<in> res_doc_id ` ?S"
        by blast
    qed
    then have "card (res_doc_id ` set (take k rs)) \<le> card (res_doc_id ` ?S)"
      by (intro card_mono) simp_all
    also have "\<dots> \<le> card ?S"
      by (intro card_image_le) simp
    finally have "card (res_doc_id ` set (take k rs)) \<le> card ?S" .
    moreover have "card (res_doc_id ` set (take k rs)) = k"
    proof -
      have "distinct (map res_doc_id (take k rs))"
        using s by (simp add: shard_ranked_def flip: take_map)
      then show ?thesis
        using distinct_card [of "map res_doc_id (take k rs)"] k by simp
    qed
    ultimately have "k \<le> card ?S"
      by (simp only:)
    from top_k_reach [OF full(2) this] show ?thesis
      unfolding found by blast
  qed
qed


section \<open>Vector search\<close>

text \<open>
  A lawful table answers a query for \<open>n\<close> rows with the first \<open>n\<close> of one order by distance, split
  into batches in any way; a shard serves \<open>results\<close> when its artifact is in place, its table opens
  with the embedding type of the manifest, and the rows of that order decode to them.
\<close>

definition nearest_rows :: "lance_table \<Rightarrow> f32 list \<Rightarrow> lance_row list \<Rightarrow> bool" where
  "nearest_rows table query rows \<longleftrightarrow>
     lt_count table = Inr (length rows) \<and>
     (\<forall>n > 0. \<exists>batches groups. lt_nearest table query n = Inr batches \<and> list_all2 batch_holds batches groups \<and>
        concat groups = take n rows) \<and>
     sorted_wrt (\<lambda>a b. f32_le (lr_distance a) (lr_distance b)) rows \<and> distinct (map lr_doc_id rows)"

definition shard_serves ::
  "vector_env \<Rightarrow> string \<Rightarrow> nat \<Rightarrow> f32 list \<Rightarrow> shard_manifest \<Rightarrow> search_result list \<Rightarrow> bool" where
  "shard_serves ve store_root edim query shard results \<longleftrightarrow>
     (\<exists>path bytes_on_disk table rows.
        resolve_artifact_path (ve_fs ve) store_root (lance_path shard) ''local LanceDB'' = Inr path \<and>
        inspect_path_tree (ve_fs ve) (ve_fuel ve) store_root path = Some (Inr bytes_on_disk) \<and>
        open_shard_table ve path edim = Inr table \<and> nearest_rows table query rows \<and>
        try_map (row_result (ve_parse_metadata ve) path) rows = Inr results)"

lemma row_results_ranked:
  assumes "try_map (row_result parse path) rows = Inr results"
    "sorted_wrt (\<lambda>a b. f32_le (lr_distance a) (lr_distance b)) rows" "distinct (map lr_doc_id rows)"
  shows "shard_ranked results"
proof -
  have all: "list_all2 (\<lambda>row r. res_doc_id r = lr_doc_id row \<and> lancedb_distance_to_score (lr_distance row) = Inr (res_score r)) rows results"
    using assms(1)
  proof (induction rows arbitrary: results)
    case (Cons row rows)
    then show ?case
      by (auto simp: result_simps row_result_fields)
  qed simp
  have "map res_doc_id results = map lr_doc_id rows"
    using all by (induction rule: list_all2_induct) simp_all
  then have "distinct (map res_doc_id results)"
    using assms(3) by simp
  moreover have "\<forall>r \<in> set results. \<not> f32_is_nan (res_score r)"
    using all by (induction rule: list_all2_induct) (auto dest: score_exact(2))
  moreover have "sorted_wrt (\<lambda>a b. score_key b \<le> score_key a) results"
    using all assms(2)
  proof (induction rule: list_all2_induct)
    case (Cons row rows r rs)
    have "score_key x \<le> score_key r" if x: "x \<in> set rs" for x
    proof -
      obtain row' where "row' \<in> set rows" "lancedb_distance_to_score (lr_distance row') = Inr (res_score x)"
        using Cons.hyps(2) x by (fastforce simp: list_all2_conv_all_nth in_set_conv_nth)
      then show ?thesis
        using score_antimono Cons by (auto simp: score_key_def)
    qed
    then show ?case
      using Cons by simp
  qed simp
  ultimately show ?thesis
    by (simp add: shard_ranked_def)
qed

lemma row_results_in_unit_range:
  assumes "try_map (row_result parse path) rows = Inr results"
  shows "\<forall>r \<in> set results. in_unit_range (res_score r)"
proof -
  have "list_all2 (\<lambda>row r. row_result parse path row = Inr r) rows results"
    using assms by (simp add: try_map_Inr_iff)
  then show ?thesis
    by (induction rule: list_all2_induct) (auto intro: score_in_unit_range [OF row_result_fields(2)])
qed

lemma shard_serves_ranked:
  assumes "shard_serves ve store_root edim query shard results"
  shows "shard_ranked results \<and> (\<forall>r \<in> set results. in_unit_range (res_score r))"
proof -
  obtain path table rows where *: "nearest_rows table query rows"
      "try_map (row_result (ve_parse_metadata ve) path) rows = Inr results"
    using assms by (auto simp: shard_serves_def)
  then show ?thesis
    using row_results_ranked [OF *(2)] row_results_in_unit_range [OF *(2)] by (simp add: nearest_rows_def)
qed

lemma query_lance_serves:
  assumes "open_shard_table ve path edim = Inr table" "nearest_rows table query rows" "0 < k"
    "try_map (row_result (ve_parse_metadata ve) path) rows = Inr results"
  shows "query_lance ve path query edim k = Some (Inr (take k results))"
proof (cases "rows = []")
  case True
  then show ?thesis
    using assms by (simp add: query_lance_def panic_then_Some nearest_rows_def)
next
  case False
  then have "0 < top_k_for_shard (length rows) k"
    using assms(3) by (simp add: top_k_for_shard_def)
  then obtain batches groups where "lt_nearest table query (top_k_for_shard (length rows) k) = Inr batches"
    "list_all2 batch_holds batches groups" "concat groups = take (min (length rows) k) rows"
    using assms(2) unfolding nearest_rows_def top_k_for_shard_def by blast
  moreover have "take (min (length rows) k) rows = take k rows"
    by (simp add: min_def)
  ultimately show ?thesis
    using assms(1,2) False decode_all_batches [of batches groups "ve_parse_metadata ve" path] try_map_take [OF assms(4), of k]
    by (simp add: query_lance_def panic_then_Some nearest_rows_def del: decode_lancedb_batches.simps)
qed


text \<open>The size of a shard is looked up in the cache or found by the walk; either way the search goes on.\<close>

lemma query_shard_serves:
  assumes "shard_serves ve store_root edim query shard results" "ve_runtime ve = Inr ()" "0 < k"
  shows "\<exists>c'. query_shard ve store_root shard v query edim k c = (Some (Inr (take k results)), c')"
proof -
  obtain path n table rows where *:
    "resolve_artifact_path (ve_fs ve) store_root (lance_path shard) ''local LanceDB'' = Inr path"
    "inspect_path_tree (ve_fs ve) (ve_fuel ve) store_root path = Some (Inr n)"
    "open_shard_table ve path edim = Inr table" "nearest_rows table query rows"
    "try_map (row_result (ve_parse_metadata ve) path) rows = Inr results"
    using assms(1) by (auto simp: shard_serves_def)
  have "\<exists>m. shard_size_bytes ve store_root v path c = Some (Inr m)"
    using *(2) by (cases "if attempted_version c = Some v then hm_get (seen_shards c) path else None")
      (simp_all add: shard_size_bytes_def)
  then obtain m where "shard_size_bytes ve store_root v path c = Some (Inr m)"
    by blast
  then show ?thesis
    using *(1) assms(2) query_lance_serves [OF *(3,4) assms(3) *(5)]
    by (simp add: query_shard_def panic_then_Some run_lance_query_def)
qed

lemma query_shards_serve:
  assumes "list_all2 (shard_serves ve store_root edim query) ss rss" "ve_runtime ve = Inr ()" "0 < k"
  shows "\<exists>c'. query_shards (\<lambda>shard. query_shard ve store_root shard v query edim k) ss c =
    (Some (Inr (concat (map (take k) rss))), c')"
  using assms(1)
proof (induction arbitrary: c rule: list_all2_induct)
  case (Cons s ss rs rss)
  obtain c1 where 1: "query_shard ve store_root s v query edim k c = (Some (Inr (take k rs)), c1)"
    using query_shard_serves [OF Cons.hyps(1) assms(2,3)] by blast
  obtain c2 where "query_shards (\<lambda>shard. query_shard ve store_root shard v query edim k) ss c1 =
      (Some (Inr (concat (map (take k) rss))), c2)"
    using Cons.IH by blast
  then show ?case
    using 1 by simp
qed simp

text \<open>
  C21. When the artifact of every shard is in place, its table opens and its rows decode,
  and LanceDB answers a query for \<open>n\<close> rows with the first \<open>n\<close> of its rows in the order of distance, in
  as many batches as it likes, then vector search over the shards of a version is exact although
  every shard returns at most \<^verbatim>\<open>top_k\<close> rows: it returns, from any state of the cache; its scores lie
  between zero and one; its documents are distinct and in order; and for every row of every shard
  either its document is among the results with a score at least as good, or the results are full
  and all of them score at least as much. (The distance is what LanceDB reports; a shard names a
  document once.)
\<close>

theorem vector_search_is_exhaustive:
  assumes "\<forall>m. mset (ve_iter ve m) = mset m" and "ve_runtime ve = Inr ()"
    and "validate_query_embedding query = Inr ()" and "validate_top_k k = Inr ()"
    and "length query = embedding_dim (am_manifest am)"
    and "list_all2 (shard_serves ve store_root (embedding_dim (am_manifest am)) query) (shards (am_manifest am)) rss"
  shows "\<exists>found c'. vector_search_active ve store_root am query k c = (Some (Inr found), c') \<and>
    distinct (map res_doc_id found) \<and> sorted (map result_key found) \<and> length found \<le> k \<and>
    (\<forall>r \<in> set found. in_unit_range (res_score r)) \<and>
    (\<forall>rs \<in> set rss. \<forall>r \<in> set rs.
       (\<exists>e \<in> set found. res_doc_id e = res_doc_id r \<and> score_key r \<le> score_key e) \<or>
       length found = k \<and> (\<forall>e \<in> set found. score_key r \<le> score_key e))"
proof -
  let ?all = "concat (map (take k) rss)" and ?v = "mh_version_id (am_head am)"
  define found where "found = dedupe_best_by_doc_id (ve_iter ve) ?all k"
  have k: "0 < k"
    using assms(4) by (auto simp: validate_top_k_def split: if_splits)
  obtain c' where "query_shards (\<lambda>shard. query_shard ve store_root shard ?v query (embedding_dim (am_manifest am)) k)
      (shards (am_manifest am)) (begin_version_attempt ?v c) = (Some (Inr ?all), c')"
    using query_shards_serve [OF assms(6,2) k] by blast
  then have search: "vector_search_active ve store_root am query k c = (Some (Inr found), c')"
    using assms(3-5) by (simp add: vector_search_active_def Let_def found_def)
  have ranked: "\<forall>rs \<in> set rss. shard_ranked rs \<and> (\<forall>r \<in> set rs. in_unit_range (res_score r))"
    using assms(6) by (induction rule: list_all2_induct) (auto dest: shard_serves_ranked)
  obtain full where full: "found = take k full" "distinct (map res_doc_id full)" "sorted (map result_key full)"
      "\<And>r. r \<in> set full \<longleftrightarrow> best_for ?all (res_doc_id r) = Some r"
    using dedupe_full [OF assms(1), of ?all] found_def by metis
  have "in_unit_range (res_score r)" if "r \<in> set found" for r
  proof -
    have "r \<in> set full"
      using that unfolding full(1) by (rule in_set_takeD)
    then have "r \<in> set ?all"
      using full(4) [of r] best_for_mem by blast
    then show ?thesis
      using ranked by (auto dest: in_set_takeD)
  qed
  then have "\<forall>r \<in> set found. in_unit_range (res_score r)"
    by blast
  moreover have "distinct (map res_doc_id found)" "sorted (map result_key found)" "length found \<le> k"
    using full(2,3) by (simp_all add: full(1) sorted_wrt_take flip: take_map)
  moreover have "\<forall>rs \<in> set rss. \<forall>r \<in> set rs.
       (\<exists>e \<in> set found. res_doc_id e = res_doc_id r \<and> score_key r \<le> score_key e) \<or>
       length found = k \<and> (\<forall>e \<in> set found. score_key r \<le> score_key e)"
    using merge_is_exhaustive [OF assms(1) _ _ _ found_def] ranked by blast
  ultimately show ?thesis
    using search by blast
qed


section \<open>The accounts of the cache\<close>

text \<open>
  The counters of the cache describe the shards seen in the current version, whatever the searches
  that used it returned.
\<close>

definition cache_accounts :: "lance_cache \<Rightarrow> bool" where
  "cache_accounts c \<longleftrightarrow>
     hm_ok (seen_shards c) \<and> bytes_used c = sum_list (map snd (seen_shards c)) \<and>
     miss_count c = of_nat (length (seen_shards c)) \<and>
     (current_version c = None \<longrightarrow> seen_shards c = [] \<and> hit_count c = 0) \<and>
     (current_version c \<noteq> None \<longrightarrow> attempted_version c = current_version c)"

lemma cache_accounts_steps:
  "cache_accounts empty_lance_cache" "cache_accounts c \<Longrightarrow> cache_accounts (begin_version_attempt v c)"
  "cache_accounts c \<Longrightarrow> cache_accounts (record_shard_access path v n c)"
proof -
  have new: "sum_list (map snd (hm_insert path n xs)) = sum_list (map snd xs) + n"
      "length (hm_insert path n xs) = Suc (length xs)" if "hm_get xs path = None" for xs :: "(string, u64) hmap"
    using that unfolding hm_insert_def hm_get_eq_None_iff by (induction xs) (auto simp: add.assoc)
  show "cache_accounts empty_lance_cache" "cache_accounts c \<Longrightarrow> cache_accounts (begin_version_attempt v c)"
    by (auto simp: cache_accounts_def empty_lance_cache_def begin_version_attempt_def reset_for_attempt_def)
  show "cache_accounts c \<Longrightarrow> cache_accounts (record_shard_access path v n c)"
    by (cases "hm_get (seen_shards c) path")
      (simp_all add: cache_accounts_def record_shard_access_def publish_version_def Let_def new)
qed

lemma query_shards_accounts:
  assumes "\<And>s c. cache_accounts c \<Longrightarrow> cache_accounts (snd (shard_query s c))" "cache_accounts c"
  shows "cache_accounts (snd (query_shards shard_query ss c))"
  using assms(2)
proof (induction ss arbitrary: c)
  case (Cons s ss)
  have "cache_accounts (snd (shard_query s c))"
    by (rule assms(1) [OF Cons.prems])
  then show ?case
    using Cons.IH [of "snd (shard_query s c)"]
    by (cases "shard_query s c") (auto split: option.splits sum.splits)
qed simp

text \<open>Every search keeps the accounts, whether it succeeds, fails or panics.\<close>

lemma vector_search_accounts:
  assumes "cache_accounts c"
  shows "cache_accounts (snd (vector_search_active ve store_root am query k c))"
proof -
  have "cache_accounts (snd (query_shard ve store_root s v query edim k c))" if "cache_accounts c" for s v edim c
    using that cache_accounts_steps(3) by (auto simp: query_shard_def split: option.splits sum.splits)
  then have "cache_accounts (snd (query_shards (\<lambda>shard. query_shard ve store_root shard v query edim k) ss (begin_version_attempt w c)))"
    for v edim ss w
    by (intro query_shards_accounts cache_accounts_steps(2) assms)
  then show ?thesis
    using assms by (auto simp: vector_search_active_def Let_def split: sum.splits)
qed

section \<open>Instances\<close>

text \<open>Two shards; the first holds two rows.\<close>

definition demo_row :: "string \<Rightarrow> f32 \<Rightarrow> lance_row" where
  "demo_row i d = \<lparr> lr_doc_id = i, lr_text = ''t'', lr_metadata = ''{}'', lr_distance = d \<rparr>"

definition demo_batch :: "lance_row \<Rightarrow> lance_batch" where
  "demo_batch row =
     \<lparr> lb_columns = (\<lambda>name.
         if name = ''doc_id'' then Some (TextColumn [lr_doc_id row])
         else if name = ''text'' then Some (TextColumn [lr_text row])
         else if name = ''metadata'' then Some (TextColumn [lr_metadata row])
         else if name = ''_distance'' then Some (Column32 [lr_distance row])
         else None),
       lb_rows = 1 \<rparr>"

text \<open>Every row arrives in a batch of its own.\<close>

definition demo_table :: "lance_row list \<Rightarrow> lance_table" where
  "demo_table rows = \<lparr> lt_schema = Inr (\<lambda>_. Inr (FixedSizeList 1)), lt_count = Inr (length rows),
     lt_nearest = (\<lambda>_ n. Inr (map demo_batch (take n rows))) \<rparr>"

definition demo_rows :: "string \<Rightarrow> lance_row list" where
  "demo_rows path = (if path = ''/r/l'' then [demo_row ''a'' 0x3E800000, demo_row ''b'' f32_one] else [demo_row ''c'' 0x3F000000])"

definition demo_vector :: vector_env where
  "demo_vector = \<lparr> ve_fs = plain_fs, ve_fuel = 1, ve_runtime = Inr (), ve_on_runtime = False, ve_panic = [], ve_unwinds = False,
     ve_connect = (\<lambda>_. Inr ()), ve_open_table = (\<lambda>path. Inr (demo_table (demo_rows path))),
     ve_parse_metadata = (\<lambda>_. Inr []), ve_iter = rev \<rparr>"

definition two_shards :: active_manifest where
  "two_shards = demo_active\<lparr> am_manifest := (sample_manifest 7)
     \<lparr> embedding_dim := 1, shards := [sample_shard, sample_shard\<lparr> lance_path := ''s3://b/m'' \<rparr>] \<rparr> \<rparr>"

definition demo_hit :: "string \<Rightarrow> f32 \<Rightarrow> search_result" where
  "demo_hit i x = \<lparr> res_doc_id = i, res_score = x, res_text = ''t'', res_metadata = None, res_source = Vector,
     res_chunk_source = DynamicChunk, res_corpus_type = None, res_citation = None \<rparr>"

lemma demo_shard_serves:
  assumes "resolve_artifact_path plain_fs ''/r'' (lance_path shard) ''local LanceDB'' = Inr path"
    "inspect_path_tree plain_fs 1 ''/r'' path = Some (Inr n)"
    "try_map (row_result (\<lambda>_. Inr []) path) (demo_rows path) = Inr results"
  shows "shard_serves demo_vector ''/r'' 1 [f32_one] shard results"
proof -
  have "list_all2 batch_holds (map demo_batch rows) (map (\<lambda>r. [r]) rows) \<and> concat (map (\<lambda>r. [r]) rows) = rows" for rows
    by (simp add: list_all2_map1 list_all2_map2 list_all2_same batch_holds_def demo_batch_def)
  then have "\<exists>batches groups. lt_nearest (demo_table rows) [f32_one] n = Inr batches \<and> list_all2 batch_holds batches groups \<and>
      concat groups = take n rows" for rows n
    by (intro exI [of _ "map demo_batch (take n rows)"] exI [of _ "map (\<lambda>r. [r]) (take n rows)"]) (simp add: demo_table_def)
  moreover have "lt_count (demo_table rows) = Inr (length rows)" for rows
    by (simp add: demo_table_def)
  moreover have "sorted_wrt (\<lambda>a b. f32_le (lr_distance a) (lr_distance b)) (demo_rows path) \<and> distinct (map lr_doc_id (demo_rows path))"
    by (simp add: demo_rows_def demo_row_def fl_eval f32_one_def)
  ultimately have "nearest_rows (demo_table (demo_rows path)) [f32_one] (demo_rows path)"
    unfolding nearest_rows_def by blast
  then show ?thesis
    using assms unfolding shard_serves_def
    by (intro exI [of _ path] exI [of _ n] exI [of _ "demo_table (demo_rows path)"] exI [of _ "demo_rows path"])
      (simp add: demo_vector_def open_shard_table_def demo_table_def check_embedding_type_def)
qed

lemma vector_search_is_exhaustive_witness:
  "\<exists>found c'. vector_search_active demo_vector ''/r'' two_shards [f32_one] 2 empty_lance_cache = (Some (Inr found), c') \<and>
     distinct (map res_doc_id found) \<and> (\<forall>r \<in> set found. in_unit_range (res_score r))"
proof -
  have paths: "resolve_artifact_path plain_fs ''/r'' ''s3://b/l'' ''local LanceDB'' = Inr ''/r/l''"
      "resolve_artifact_path plain_fs ''/r'' ''s3://b/m'' ''local LanceDB'' = Inr ''/r/m''"
      "inspect_path_tree plain_fs 1 ''/r'' ''/r/l'' = Some (Inr 4)" "inspect_path_tree plain_fs 1 ''/r'' ''/r/m'' = Some (Inr 4)"
    by code_simp+
  have "lancedb_distance_to_score 0x3E800000 = Inr 0x3F400000" "lancedb_distance_to_score f32_one = Inr 0"
      "lancedb_distance_to_score 0x3F000000 = Inr 0x3F000000" "f32_is_finite 0x3F400000" "f32_is_finite 0" "f32_is_finite 0x3F000000"
    by (simp_all add: lancedb_distance_to_score_def f32_clamp_def fl_eval f32_one_def)
  then have rows: "try_map (row_result (\<lambda>_. Inr []) ''/r/l'') (demo_rows ''/r/l'') = Inr [demo_hit ''a'' 0x3F400000, demo_hit ''b'' 0]"
      "try_map (row_result (\<lambda>_. Inr []) ''/r/m'') (demo_rows ''/r/m'') = Inr [demo_hit ''c'' 0x3F000000]"
    by (simp_all add: demo_rows_def demo_row_def row_result_def parse_metadata_json_def search_result_validate_def ensure_def
        demo_hit_def Let_def)
  have serve: "list_all2 (shard_serves demo_vector ''/r'' (embedding_dim (am_manifest two_shards)) [f32_one])
      (shards (am_manifest two_shards)) [[demo_hit ''a'' 0x3F400000, demo_hit ''b'' 0], [demo_hit ''c'' 0x3F000000]]"
    using demo_shard_serves [OF _ paths(3) rows(1), of sample_shard] demo_shard_serves [OF _ paths(4) rows(2), of "sample_shard\<lparr> lance_path := ''s3://b/m'' \<rparr>"] paths(1,2)
    by (simp add: two_shards_def sample_shard_def)
  have valid: "validate_query_embedding [f32_one] = Inr ()" "validate_top_k 2 = Inr ()"
    by code_simp+
  have env: "\<forall>m. mset (ve_iter demo_vector m) = mset m" "ve_runtime demo_vector = Inr ()"
      "length [f32_one] = embedding_dim (am_manifest two_shards)"
    by (simp_all add: demo_vector_def two_shards_def)
  show ?thesis
    using vector_search_is_exhaustive [OF env(1,2) valid env(3) serve, of empty_lance_cache]
    by (elim exE conjE) (intro exI conjI, assumption+)
qed

end
