(* ===== verification/Static_Image.thy ===== *)
theory Static_Image
  imports Mmap_Index Snapshot
begin

text \<open>
  Writing static index images: the chunks, their records and blobs, shared by the version 2
  writer (\<^verbatim>\<open>src/index/static_builder.rs\<close>) and the release writer
  (\<^verbatim>\<open>src/index/static_release.rs\<close>), up to the files as byte strings.  The random generators,
  SHA-256 and the JSON printer are arguments.
\<close>


section \<open>Chunks and records\<close>

record static_chunk =
  sc_doc_id :: string
  sc_text :: string
  sc_metadata :: metadata
  sc_corpus_type :: corpus_type

fun corpus_type_id :: "corpus_type \<Rightarrow> u8" where
  "corpus_type_id Legal = 0"
| "corpus_type_id Contract = 1"
| "corpus_type_id Rfc = 2"
| "corpus_type_id (OtherCorpus i) = i"

definition stable_hash_doc_id :: "string \<Rightarrow> u64" where
  "stable_hash_doc_id doc = foldl fnv_step 0xcbf29ce484222325 doc"

definition chunk_title :: "static_chunk \<Rightarrow> string option" where
  "chunk_title c =
     (case Option.bind (hm_get (sc_metadata c) ''title'') as_str of
        Some title \<Rightarrow> if title = [] then None else Some title
      | None \<Rightarrow> None)"

record release_env =
  re_uniform :: "u64 \<Rightarrow> nat \<Rightarrow> f32"
  re_sampler :: sampler
  re_sha256 :: "blob \<Rightarrow> blob"
  re_json :: "(string \<times> json) list \<Rightarrow> blob"

text \<open>The entries in the order of a \<^verbatim>\<open>BTreeMap\<close>: \<open>re_json\<close> prints them as one object.\<close>

definition canonical_metadata_json :: "release_env \<Rightarrow> metadata \<Rightarrow> blob" where
  "canonical_metadata_json env m = re_json env (sort_by (\<lambda>a b. cmp_ord (fst a) (fst b)) m)"

definition legacy_codec_assets ::
  "(u64 \<Rightarrow> nat \<Rightarrow> f32) \<Rightarrow> turbo_quant_config \<Rightarrow> (centroid_table \<times> projection_matrix) option" where
  "legacy_codec_assets uniform c =
     Option.bind (centroids_per_dim c) (\<lambda>k.
     Option.bind (centroid_table_generate uniform (cfg_dim c) k (cfg_mse_seed c)) (\<lambda>centroids.
     map_option (\<lambda>projection. (centroids, projection))
       (projection_generate uniform (cfg_dim c) (cfg_qjl_dim c) (cfg_qjl_seed c))))"

definition encode_turbo_record ::
  "u64 \<Rightarrow> f32 list \<Rightarrow> centroid_table \<Rightarrow> projection_matrix \<Rightarrow> string \<Rightarrow> index_error + turbo_record512" where
  "encode_turbo_record doc embedding centroids projection label =
     and_then (map_err (\<lambda>e. IndexOperation (msg [''failed to encode static chunk '', label, '': '', show_asset_error e]))
         (encode_vector embedding centroids projection)) (\<lambda>e.
       if length (ev_idx e) \<noteq> 128
       then Inl (IndexOperation (msg [''static chunk '', label, '' produced idx payload with unexpected length '',
              show_nat (length (ev_idx e))]))
       else if length (ev_qjl e) \<noteq> 64
       then Inl (IndexOperation (msg [''static chunk '', label, '' produced qjl payload with unexpected length '',
              show_nat (length (ev_qjl e))]))
       else Inr \<lparr> tr_doc_id = doc, tr_idx = ev_idx e, tr_qjl = ev_qjl e, tr_gamma = ev_gamma e,
                  tr_reserved = replicate 4 0 \<rparr>)"


section \<open>The codec of a release\<close>

datatype static_release_format = FormatV3 | FormatV4 turbo_quant_config

definition format_from_name :: "string \<Rightarrow> static_release_format option" where
  "format_from_name name =
     (if name = ''v3'' then Some FormatV3 else if name = ''v4'' then Some (FormatV4 prod_v1) else None)"

fun format_version :: "static_release_format \<Rightarrow> u32" where
  "format_version FormatV3 = TURBO_VERSION_V3"
| "format_version (FormatV4 c) = TURBO_VERSION_V4"

fun format_config :: "static_release_format \<Rightarrow> turbo_quant_config" where
  "format_config FormatV3 = legacy_v1"
| "format_config (FormatV4 c) = c"

datatype release_codec =
    ReleaseV3 turbo_quant_config centroid_table projection_matrix
  | ReleaseV4 turbo_quant_prod

fun release_codec_generate ::
  "(string \<Rightarrow> string) \<Rightarrow> release_env \<Rightarrow> static_release_format \<Rightarrow> (index_error + release_codec) option" where
  "release_codec_generate quoted env FormatV3 =
     map_option (\<lambda>(centroids, projection). Inr (ReleaseV3 legacy_v1 centroids projection))
       (legacy_codec_assets (re_uniform env) legacy_v1)"
| "release_codec_generate quoted env (FormatV4 c) =
     map_option (\<lambda>r.
         and_then (map_err (\<lambda>e. IndexOperation (''invalid v4 codec config: '' @ show_prod_error quoted e)) r) (\<lambda>codec.
           if \<not> holds_codes_of codec
           then Inl (IndexOperation (msg [''v4 records hold 128 index bytes and 64 sign bytes, but the codec config produces '',
                  show_nat (prod_idx_len codec), '' and '', show_nat (prod_signs_len codec)]))
           else Inr (ReleaseV4 codec)))
       (prod_generate (re_sampler env) c)"

fun codec_asset_files :: "release_codec \<Rightarrow> (string \<times> blob) list" where
  "codec_asset_files (ReleaseV3 c centroids projection) =
     [(CENTROIDS_FILE, centroid_table_to_bytes centroids), (PROJECTION_FILE, projection_to_bytes projection)]"
| "codec_asset_files (ReleaseV4 codec) =
     [(CODEBOOK_FILE, codebook_to_bytes (tp_codebook codec)), (QJL_FILE, qjl_to_bytes (tp_qjl codec)),
      (ROTATION_FILE, rotation_to_bytes (tp_rotation codec))]"

text \<open>A header of dimension zero panics.\<close>

fun release_header :: "(blob \<Rightarrow> blob) \<Rightarrow> release_codec \<Rightarrow> u64 \<Rightarrow> (string \<times> blob) list \<Rightarrow> turbo_header option" where
  "release_header sha256 (ReleaseV3 c centroids projection) n files = header_new_v3 (cfg_dim c) n"
| "release_header sha256 (ReleaseV4 codec) n files =
     (let c = tp_config codec
      in header_new_v4 (cfg_dim c) n
           \<lparr> hc_codec_id = cfg_codec_id c, hc_fingerprint = fingerprint sha256 c files \<rparr>)"

text \<open>The bytes \<^verbatim>\<open>append_record\<close> appends.\<close>

fun release_record ::
  "(string \<Rightarrow> string) \<Rightarrow> release_codec \<Rightarrow> u64 \<Rightarrow> f32 list \<Rightarrow> string \<Rightarrow> (index_error + blob) option" where
  "release_record quoted (ReleaseV3 c centroids projection) hash embedding label =
     Some (map_ok turbo_record_bytes (encode_turbo_record hash embedding centroids projection label))"
| "release_record quoted (ReleaseV4 codec) hash embedding label =
     map_option (\<lambda>r.
         and_then (map_err (\<lambda>e. IndexOperation (msg [''failed to encode static chunk '', label, '': '',
                       show_prod_error quoted e])) r) (\<lambda>encoded.
         map_ok prod_record_bytes
           (ok_or (IndexOperation (msg [''static chunk '', label, '' produced a code that does not fit a v4 record'']))
              (prod_record_new hash encoded))))
       (prod_encode codec embedding)"

fun release_manifest_codec :: "(string \<Rightarrow> string) \<Rightarrow> release_codec \<Rightarrow> (index_error + manifest_codec) option" where
  "release_manifest_codec quoted (ReleaseV3 c centroids projection) =
     map_option (\<lambda>r. map_ok CodecV3
         (map_err (\<lambda>e. IndexOperation (''invalid v3 codec config: '' @ show_config_error quoted e)) r))
       (to_v3_codec_metadata c)"
| "release_manifest_codec quoted (ReleaseV4 codec) =
     Some (map_ok CodecV4
       (map_err (\<lambda>e. IndexOperation (''invalid v4 codec config: '' @ show_config_error quoted e))
         (to_v4_codec_metadata (tp_config codec))))"


section \<open>The blobs of an image, one chunk after the other\<close>

record canonical_row =
  cr_doc_id :: string
  cr_embedding :: "f32 list"
  cr_text :: string
  cr_meta_json :: blob

record image =
  im_bin :: blob
  im_meta :: blob
  im_text :: blob
  im_title :: blob
  im_meta_ext :: blob
  im_docid :: blob
  im_meta_json :: blob
  im_rows :: "canonical_row list"

text \<open>\<^verbatim>\<open>len() as u32\<close> wraps for a text of 4 GiB or more.\<close>

definition title_bytes :: "static_chunk \<Rightarrow> blob" where
  "title_bytes c = (case chunk_title c of Some title \<Rightarrow> text_bytes title | None \<Rightarrow> [])"

definition chunk_meta :: "static_chunk \<Rightarrow> u64 \<Rightarrow> nat \<Rightarrow> nat \<Rightarrow> meta_record" where
  "chunk_meta c hash text_offset title_offset =
     \<lparr> mr_doc_id = hash, mr_text_offset = of_nat text_offset, mr_title_offset = of_nat title_offset,
       mr_text_len = of_nat (length (sc_text c)), mr_title_len = of_nat (length (title_bytes c)),
       mr_corpus_type = corpus_type_id (sc_corpus_type c), mr_pad = replicate 7 0 \<rparr>"

definition chunk_meta_ext :: "static_chunk \<Rightarrow> blob \<Rightarrow> nat \<Rightarrow> nat \<Rightarrow> meta_ext_record" where
  "chunk_meta_ext c json docid_offset json_offset =
     \<lparr> me_docid_offset = of_nat docid_offset, me_meta_json_offset = of_nat json_offset,
       me_docid_len = of_nat (length (sc_doc_id c)), me_meta_json_len = of_nat (length json) \<rparr>"

definition append_chunk ::
  "(string \<Rightarrow> string) \<Rightarrow> release_env \<Rightarrow> release_codec \<Rightarrow> image \<Rightarrow> static_chunk \<times> f32 list \<Rightarrow> (index_error + image) option" where
  "append_chunk quoted env codec im = (\<lambda>(c, embedding).
     let hash = stable_hash_doc_id (sc_doc_id c)
     in map_option (map_ok (\<lambda>record_bytes.
          let json = canonical_metadata_json env (sc_metadata c)
          in \<lparr> im_bin = im_bin im @ record_bytes,
               im_meta = im_meta im @ meta_record_bytes (chunk_meta c hash (length (im_text im)) (length (im_title im))),
               im_text = im_text im @ text_bytes (sc_text c),
               im_title = im_title im @ title_bytes c,
               im_meta_ext = im_meta_ext im @
                 meta_ext_record_bytes (chunk_meta_ext c json (length (im_docid im)) (length (im_meta_json im))),
               im_docid = im_docid im @ text_bytes (sc_doc_id c),
               im_meta_json = im_meta_json im @ json,
               im_rows = im_rows im @ [\<lparr> cr_doc_id = sc_doc_id c, cr_embedding = embedding, cr_text = sc_text c,
                                         cr_meta_json = json \<rparr>] \<rparr>))
        (release_record quoted codec hash embedding (sc_doc_id c)))"

fun append_chunks ::
  "(string \<Rightarrow> string) \<Rightarrow> release_env \<Rightarrow> release_codec \<Rightarrow> image \<Rightarrow> (static_chunk \<times> f32 list) list \<Rightarrow>
     (index_error + image) option" where
  "append_chunks quoted env codec im [] = Some (Inr im)"
| "append_chunks quoted env codec im (x # xs) =
     panic_then (append_chunk quoted env codec im x) (\<lambda>im. append_chunks quoted env codec im xs)"

definition empty_image :: "blob \<Rightarrow> image" where
  "empty_image bin = \<lparr> im_bin = bin, im_meta = [], im_text = [], im_title = [], im_meta_ext = [], im_docid = [],
     im_meta_json = [], im_rows = [] \<rparr>"

fun detect_duplicates :: "string list \<Rightarrow> static_chunk list \<Rightarrow> index_error + unit" where
  "detect_duplicates seen [] = Inr ()"
| "detect_duplicates seen (c # cs) =
     (if sc_doc_id c \<in> set seen then Inl (IndexOperation (''duplicate static chunk doc_id '' @ sc_doc_id c))
      else detect_duplicates (sc_doc_id c # seen) cs)"

definition detect_duplicate_doc_ids :: "static_chunk list \<Rightarrow> index_error + unit" where
  "detect_duplicate_doc_ids docs = detect_duplicates [] docs"

fun detect_collisions :: "(u64, string) hmap \<Rightarrow> (string \<times> u64) list \<Rightarrow> index_error + unit" where
  "detect_collisions by_hash [] = Inr ()"
| "detect_collisions by_hash ((doc, hash) # rest) =
     (case hm_get by_hash hash of
        Some existing \<Rightarrow>
          if existing \<noteq> doc
          then Inl (IndexOperation (msg [''doc_id hash collision: '', existing, '' and '', doc, '' share hash '',
                 show_nat (unat hash)]))
          else detect_collisions (hm_insert hash doc by_hash) rest
      | None \<Rightarrow> detect_collisions (hm_insert hash doc by_hash) rest)"

definition detect_hash_collisions :: "(string \<times> u64) list \<Rightarrow> index_error + unit" where
  "detect_hash_collisions hashed = detect_collisions [] hashed"

text \<open>The checks of \<^verbatim>\<open>build_release\<close> before any work.\<close>

definition check_embedding :: "u32 \<Rightarrow> static_chunk \<times> f32 list \<Rightarrow> index_error + unit" where
  "check_embedding n = (\<lambda>(c, embedding).
     if length embedding \<noteq> unat n
     then Inl (IndexOperation (msg [''static chunk '', sc_doc_id c, '' embedding dimension '', show_nat (length embedding),
            '' does not match profile dim '', show_nat (unat n)]))
     else if \<not> list_all f32_is_finite embedding
     then Inl (IndexOperation (msg [''static chunk '', sc_doc_id c, '' produced a non-finite embedding'']))
     else Inr ())"

definition check_release_input ::
  "static_release_format \<Rightarrow> static_chunk list \<Rightarrow> f32 list list \<Rightarrow> u32 \<Rightarrow> index_error + unit" where
  "check_release_input fmt docs embeddings profile_dim =
     (if length docs \<noteq> length embeddings
      then Inl (IndexOperation (msg [''static chunk count '', show_nat (length docs),
             '' does not match embedding count '', show_nat (length embeddings)]))
      else if docs = [] then Inl (IndexOperation ''static release requires at least one chunk'')
      else if profile_dim \<noteq> cfg_dim (format_config fmt)
      then Inl (IndexOperation (msg [''static release only supports typed turbo layout for '',
             show_nat (unat (cfg_dim (format_config fmt))), ''-dim embeddings, profile declares '',
             show_nat (unat profile_dim)]))
      else
        and_then (try_all (check_embedding profile_dim) (zip docs embeddings)) (\<lambda>_.
        and_then (detect_duplicate_doc_ids docs) (\<lambda>_.
          detect_hash_collisions (map (\<lambda>c. (sc_doc_id c, stable_hash_doc_id (sc_doc_id c))) docs))))"

text \<open>
  Everything \<^verbatim>\<open>build_release\<close> computes before it touches the file system: the codec and the
  image.
\<close>

definition release_image ::
  "(string \<Rightarrow> string) \<Rightarrow> release_env \<Rightarrow> static_release_format \<Rightarrow> static_chunk list \<Rightarrow> f32 list list \<Rightarrow> u32 \<Rightarrow>
     (index_error + release_codec \<times> image) option" where
  "release_image quoted env fmt docs embeddings profile_dim =
     panic_then (Some (check_release_input fmt docs embeddings profile_dim)) (\<lambda>_.
     panic_then (release_codec_generate quoted env fmt) (\<lambda>codec.
     Option.bind (release_header (re_sha256 env) codec (of_nat (length docs)) (codec_asset_files codec)) (\<lambda>header.
       map_option (map_ok (\<lambda>im. (codec, im)))
         (append_chunks quoted env codec (empty_image (header_to_bytes header)) (zip docs embeddings)))))"

definition release_files :: "release_codec \<Rightarrow> image \<Rightarrow> (string \<times> blob) list" where
  "release_files codec im =
     codec_asset_files codec @
     [(TURBO_STATIC_FILE, im_bin im), (META_FILE, im_meta im), (TEXT_FILE, im_text im), (TITLE_FILE, im_title im),
      (META_EXT_FILE, im_meta_ext im), (DOCID_FILE, im_docid im), (META_JSON_FILE, im_meta_json im)]"


section \<open>The image in closed form\<close>

text \<open>What the loop has written after the chunks of a list.\<close>

definition offset_at :: "('a \<Rightarrow> 'b list) \<Rightarrow> 'a list \<Rightarrow> nat \<Rightarrow> nat" where
  "offset_at f xs i = length (concat (map f (take i xs)))"

definition concat_all :: "('a \<Rightarrow> 'b list) \<Rightarrow> 'a list \<Rightarrow> 'b list" where
  "concat_all f xs = concat (map f xs)"

lemma concat_all_Nil [simp]: "concat_all f [] = []"
  by (simp add: concat_all_def)

lemma concat_all_snoc [simp]: "concat_all f (xs @ [x]) = concat_all f xs @ f x"
  by (simp add: concat_all_def)

lemma offset_at_length: "offset_at f xs (length xs) = length (concat_all f xs)"
  by (simp add: offset_at_def concat_all_def)

lemma offset_at_snoc: "i \<le> length xs \<Longrightarrow> offset_at f (xs @ [x]) i = offset_at f xs i"
  by (simp add: offset_at_def)

lemma offset_at_le: "i < length xs \<Longrightarrow> offset_at f xs i + length (f (xs ! i)) \<le> length (concat_all f xs)"
proof -
  assume "i < length xs"
  then have "xs = take i xs @ xs ! i # drop (Suc i) xs"
    by (simp add: id_take_nth_drop)
  then have "concat_all f xs = concat_all f (take i xs) @ f (xs ! i) @ concat_all f (drop (Suc i) xs)"
    by (metis concat.simps(2) concat_all_def concat_append list.simps(9) map_append)
  then show ?thesis
    by (simp add: offset_at_def concat_all_def)
qed

lemma span_concat_all:
  assumes "i < length xs"
  shows "span (concat_all f xs) (offset_at f xs i) (length (f (xs ! i))) = f (xs ! i)"
proof -
  have "xs = take i xs @ xs ! i # drop (Suc i) xs"
    using assms by (simp add: id_take_nth_drop)
  then have "concat_all f xs = concat_all f (take i xs) @ f (xs ! i) @ concat_all f (drop (Suc i) xs)"
    by (metis concat.simps(2) concat_all_def concat_append list.simps(9) map_append)
  then show ?thesis
    by (simp add: span_middle offset_at_def concat_all_def)
qed

definition metas_of :: "static_chunk list \<Rightarrow> meta_record list" where
  "metas_of cs = map (\<lambda>i. chunk_meta (cs ! i) (stable_hash_doc_id (sc_doc_id (cs ! i)))
     (offset_at (text_bytes \<circ> sc_text) cs i) (offset_at title_bytes cs i)) [0..<length cs]"

definition meta_exts_of :: "release_env \<Rightarrow> static_chunk list \<Rightarrow> meta_ext_record list" where
  "meta_exts_of env cs = map (\<lambda>i. chunk_meta_ext (cs ! i) (canonical_metadata_json env (sc_metadata (cs ! i)))
     (offset_at (text_bytes \<circ> sc_doc_id) cs i) (offset_at (canonical_metadata_json env \<circ> sc_metadata) cs i)) [0..<length cs]"

definition row_of :: "release_env \<Rightarrow> static_chunk \<times> f32 list \<Rightarrow> canonical_row" where
  "row_of env = (\<lambda>(c, embedding). \<lparr> cr_doc_id = sc_doc_id c, cr_embedding = embedding, cr_text = sc_text c,
     cr_meta_json = canonical_metadata_json env (sc_metadata c) \<rparr>)"

definition is_image ::
  "(string \<Rightarrow> string) \<Rightarrow> release_env \<Rightarrow> release_codec \<Rightarrow> blob \<Rightarrow> (static_chunk \<times> f32 list) list \<Rightarrow> image \<Rightarrow> bool" where
  "is_image quoted env codec header xs im \<longleftrightarrow>
     (\<exists>rs. im_bin im = header @ concat rs \<and>
        list_all2 (\<lambda>(c, embedding) r.
          release_record quoted codec (stable_hash_doc_id (sc_doc_id c)) embedding (sc_doc_id c) = Some (Inr r)) xs rs) \<and>
     im_meta im = concat (map meta_record_bytes (metas_of (map fst xs))) \<and>
     im_text im = concat_all (text_bytes \<circ> sc_text) (map fst xs) \<and>
     im_title im = concat_all title_bytes (map fst xs) \<and>
     im_meta_ext im = concat (map meta_ext_record_bytes (meta_exts_of env (map fst xs))) \<and>
     im_docid im = concat_all (text_bytes \<circ> sc_doc_id) (map fst xs) \<and>
     im_meta_json im = concat_all (canonical_metadata_json env \<circ> sc_metadata) (map fst xs) \<and>
     im_rows im = map (row_of env) xs"

lemma metas_of_snoc:
  "metas_of (cs @ [c]) = metas_of cs @ [chunk_meta c (stable_hash_doc_id (sc_doc_id c))
     (length (concat_all (text_bytes \<circ> sc_text) cs)) (length (concat_all title_bytes cs))]"
  by (simp add: metas_of_def offset_at_snoc nth_append flip: offset_at_length cong: map_cong)

lemma meta_exts_of_snoc:
  "meta_exts_of env (cs @ [c]) = meta_exts_of env cs @ [chunk_meta_ext c (canonical_metadata_json env (sc_metadata c))
     (length (concat_all (text_bytes \<circ> sc_doc_id) cs)) (length (concat_all (canonical_metadata_json env \<circ> sc_metadata) cs))]"
  by (simp add: meta_exts_of_def offset_at_snoc nth_append flip: offset_at_length cong: map_cong)

lemma is_image_empty: "is_image quoted env codec header [] (empty_image header)"
  by (simp add: is_image_def empty_image_def metas_of_def meta_exts_of_def)

lemma append_chunk_image:
  assumes "is_image quoted env codec header xs im" "append_chunk quoted env codec im x = Some (Inr im')"
  shows "is_image quoted env codec header (xs @ [x]) im'"
proof -
  obtain c embedding where x: "x = (c, embedding)"
    by (cases x)
  obtain r where r: "release_record quoted codec (stable_hash_doc_id (sc_doc_id c)) embedding (sc_doc_id c) = Some (Inr r)"
    using assms(2) by (auto simp: append_chunk_def x result_simps Let_def)
  obtain rs where rs: "im_bin im = header @ concat rs"
      "list_all2 (\<lambda>(c, embedding) r.
        release_record quoted codec (stable_hash_doc_id (sc_doc_id c)) embedding (sc_doc_id c) = Some (Inr r)) xs rs"
    using assms(1) by (auto simp: is_image_def)
  have "im_bin im' = header @ concat (rs @ [r]) \<and> list_all2 (\<lambda>(c, embedding) r.
        release_record quoted codec (stable_hash_doc_id (sc_doc_id c)) embedding (sc_doc_id c) = Some (Inr r))
      (xs @ [x]) (rs @ [r])"
    using assms(2) r rs by (auto simp: append_chunk_def x Let_def intro: list_all2_appendI)
  then have "\<exists>rs. im_bin im' = header @ concat rs \<and> list_all2 (\<lambda>(c, embedding) r.
        release_record quoted codec (stable_hash_doc_id (sc_doc_id c)) embedding (sc_doc_id c) = Some (Inr r))
      (xs @ [x]) rs"
    by blast
  moreover have "im_meta im' = concat (map meta_record_bytes (metas_of (map fst (xs @ [x])))) \<and>
      im_text im' = concat_all (text_bytes \<circ> sc_text) (map fst (xs @ [x])) \<and>
      im_title im' = concat_all title_bytes (map fst (xs @ [x])) \<and>
      im_meta_ext im' = concat (map meta_ext_record_bytes (meta_exts_of env (map fst (xs @ [x])))) \<and>
      im_docid im' = concat_all (text_bytes \<circ> sc_doc_id) (map fst (xs @ [x])) \<and>
      im_meta_json im' = concat_all (canonical_metadata_json env \<circ> sc_metadata) (map fst (xs @ [x])) \<and>
      im_rows im' = map (row_of env) (xs @ [x])"
    using assms r by (auto simp: is_image_def append_chunk_def x Let_def metas_of_snoc meta_exts_of_snoc row_of_def)
  ultimately show ?thesis
    unfolding is_image_def by blast
qed

lemma append_chunks_image:
  assumes "is_image quoted env codec header ys im" "append_chunks quoted env codec im xs = Some (Inr im')"
  shows "is_image quoted env codec header (ys @ xs) im'"
  using assms
proof (induction xs arbitrary: ys im)
  case (Cons x xs)
  then obtain im1 where "append_chunk quoted env codec im x = Some (Inr im1)"
      "append_chunks quoted env codec im1 xs = Some (Inr im')"
    by (auto simp: panic_then_Some_Inr)
  then show ?case
    using Cons.IH [of "ys @ [x]" im1] append_chunk_image [OF Cons.prems(1)] by simp
qed simp

lemma release_image_cases:
  assumes "release_image quoted env fmt docs embeddings n = Some (Inr (codec, im))"
  obtains header where "check_release_input fmt docs embeddings n = Inr ()"
    "release_codec_generate quoted env fmt = Some (Inr codec)"
    "release_header (re_sha256 env) codec (of_nat (length docs)) (codec_asset_files codec) = Some header"
    "is_image quoted env codec (header_to_bytes header) (zip docs embeddings) im"
    "length embeddings = length docs" "docs \<noteq> []"
proof -
  obtain u header where c: "check_release_input fmt docs embeddings n = Inr u"
      "release_codec_generate quoted env fmt = Some (Inr codec)"
      "release_header (re_sha256 env) codec (of_nat (length docs)) (codec_asset_files codec) = Some header"
      "append_chunks quoted env codec (empty_image (header_to_bytes header)) (zip docs embeddings) = Some (Inr im)"
    using assms by (auto simp: release_image_def panic_then_Some_Inr bind_eq_Some_conv result_simps)
  show ?thesis
    using c append_chunks_image [OF is_image_empty c(4)]
    by (intro that [of header]) (auto simp: check_release_input_def split: if_splits)
qed


section \<open>A written release loads\<close>

definition serves :: "mapper \<Rightarrow> string \<Rightarrow> (string \<times> blob) list \<Rightarrow> bool" where
  "serves files dir contents \<longleftrightarrow>
     (\<forall>(name, bytes) \<in> set contents. \<exists>a. files (path_join dir name) = Inr \<lparr> mm_bytes = bytes, mm_address = a \<rparr> \<and> 8 dvd a)"

lemma servesD:
  assumes "serves files dir contents" "(name, bytes) \<in> set contents"
  obtains m where "files (path_join dir name) = Inr m" "mmap_file files (path_join dir name) = Inr m"
    "mm_bytes m = bytes" "8 dvd mm_address m"
  using assms by (fastforce simp: serves_def mmap_file_def)

fun codec_layout :: "release_codec \<Rightarrow> record_layout" where
  "codec_layout (ReleaseV3 c centroids projection) = V3Dim512"
| "codec_layout (ReleaseV4 codec) = V4Dim512"

fun loaded_codec :: "release_codec \<Rightarrow> index_codec" where
  "loaded_codec (ReleaseV3 c centroids projection) = LegacyAssets centroids projection"
| "loaded_codec (ReleaseV4 codec) = ProdAssets codec"

lemma header_round_trip: "header_ok h \<Longrightarrow> header_from_bytes (header_to_bytes h) = Inr h"
  unfolding header_from_bytes_fields using header_bytes_fields [of h] length_header_to_bytes [of h]
  by (auto simp: header_ok_def HEADER_SIZE_def)

definition good_codec :: "release_codec \<Rightarrow> bool" where
  "good_codec codec \<longleftrightarrow>
     (case codec of
        ReleaseV3 c centroids projection \<Rightarrow> c = legacy_v1 \<and> centroid_table_ok centroids \<and> projection_ok projection \<and>
          ct_dim centroids = 512 \<and> ct_centroids_per_dim centroids = 4 \<and> pm_input_dim projection = 512 \<and>
          pm_output_dim projection = 512
      | ReleaseV4 p \<Rightarrow> prod_ok p \<and> holds_codes_of p \<and> rotation_ok (tp_rotation p) \<and> qjl_ok (tp_qjl p) \<and>
          codebook_ok (tp_codebook p) \<and> from_assets (tp_config p) (tp_rotation p) (tp_codebook p) (tp_qjl p) = Inr p)"

lemma legacy_centroids_per_dim: "centroids_per_dim legacy_v1 = Some 4"
  by (simp add: centroids_per_dim_def legacy_v1_def)

lemma generated_codec_good:
  assumes "release_codec_generate quoted env fmt = Some (Inr codec)"
  shows "good_codec codec"
proof (cases fmt)
  case FormatV3
  then obtain c p where cp: "legacy_codec_assets (re_uniform env) legacy_v1 = Some (c, p)" "codec = ReleaseV3 legacy_v1 c p"
    using assms by auto
  then have "centroid_table_generate (re_uniform env) 512 4 (cfg_mse_seed legacy_v1) = Some c"
      "projection_generate (re_uniform env) 512 512 (cfg_qjl_seed legacy_v1) = Some p"
    by (auto simp: legacy_codec_assets_def legacy_centroids_per_dim bind_eq_Some_conv) (simp_all add: legacy_v1_def)
  then show ?thesis
    using centroid_table_generate_ok projection_generate_ok cp(2)
    by (auto simp: good_codec_def) (auto simp: centroid_table_generate_def projection_generate_def split: if_splits)
next
  case (FormatV4 c)
  then obtain p where p: "prod_generate (re_sampler env) c = Some (Inr p)" "holds_codes_of p" "codec = ReleaseV4 p"
    using assms by (auto simp: result_simps split: if_splits)
  then show ?thesis
    using prod_generate_ok [OF p(1)] by (simp add: good_codec_def)
qed

lemma prod_ok_config:
  assumes "prod_ok p"
  shows "cfg_codec_id (tp_config p) = TurboQuantProdV1" "cfg_dim (tp_config p) = 512"
    "cfg_norm_policy (tp_config p) = NormalizeAndStore"
  using assms by (auto simp: prod_ok_def check_config_ok_iff validate_config_ok_iff)

lemma release_header_good:
  assumes "good_codec codec" "release_header sha256 codec n contents = Some h" "\<forall>b. length (sha256 b) = 32"
  shows "header_ok h" "th_record_count h = n" "layout_from_header h = Inr (codec_layout codec)" "th_dim h = 512"
proof -
  have "header_ok h \<and> th_record_count h = n \<and> layout_from_header h = Inr (codec_layout codec) \<and> th_dim h = 512"
  proof (cases codec)
    case (ReleaseV3 c centroids projection)
    then have "header_new_v3 512 n = Some h"
      using assms(1,2) by (simp add: good_codec_def legacy_v1_def)
    then show ?thesis
      using header_new_ok(2) [of 512 n h] ReleaseV3
      by (auto simp: header_new_v3_def layout_from_header_def TURBO_VERSION_V2_def TURBO_VERSION_V3_def)
  next
    case (ReleaseV4 p)
    then have h: "header_new_v4 512 n \<lparr> hc_codec_id = TurboQuantProdV1,
        hc_fingerprint = fingerprint sha256 (tp_config p) contents \<rparr> = Some h"
      using assms(1,2) prod_ok_config [of p] by (simp add: good_codec_def Let_def)
    have "length (fingerprint sha256 (tp_config p) contents) = 8"
      using assms(3) by (simp add: fingerprint_def CODEC_FINGERPRINT_LEN_def)
    then show ?thesis
      using h header_new_ok(3) [OF h] ReleaseV4
      by (auto simp: header_new_v4_def layout_from_header_def TURBO_VERSION_V2_def TURBO_VERSION_V3_def
          TURBO_VERSION_V4_def header_codec_id_def)
  qed
  then show "header_ok h" "th_record_count h = n" "layout_from_header h = Inr (codec_layout codec)" "th_dim h = 512"
    by simp_all
qed

lemma legacy_codec_loads:
  assumes "good_codec (ReleaseV3 c centroids projection)" "th_dim h = 512"
    and s: "serves files dir (codec_asset_files (ReleaseV3 c centroids projection))"
  shows "load_legacy_codec files dir h = Inr (LegacyAssets centroids projection)"
proof -
  obtain m1 where m1: "mmap_file files (path_join dir CENTROIDS_FILE) = Inr m1" "mm_bytes m1 = centroid_table_to_bytes centroids"
    by (rule servesD [OF s, of CENTROIDS_FILE "centroid_table_to_bytes centroids"]) auto
  obtain m2 where m2: "mmap_file files (path_join dir PROJECTION_FILE) = Inr m2" "mm_bytes m2 = projection_to_bytes projection"
    by (rule servesD [OF s, of PROJECTION_FILE "projection_to_bytes projection"]) auto
  show ?thesis
    using assms(1,2) centroid_file.read_write [of centroids] projection_file.read_write [of projection]
    by (simp add: load_legacy_codec_def m1 m2 good_codec_def)
qed

lemma from_assets_config:
  assumes "from_assets c rot cb s = Inr p"
  shows "c = \<lparr> cfg_codec_id = TurboQuantProdV1, cfg_dim = cfg_dim c, cfg_mse_bits = cb_bits cb,
    cfg_qjl_dim = qjl_qjl_dim s, cfg_mse_seed = rot_seed rot, cfg_qjl_seed = qjl_seed s,
    cfg_generator_version = rot_generator_version rot, cfg_norm_policy = NormalizeAndStore \<rparr>"
proof -
  have f: "check_config c = Inr ()" "try_all asset_check (asset_checks c rot cb s) = Inr ()"
    using assms by (simp_all add: from_assets_ok_iff)
  have "cfg_codec_id c = TurboQuantProdV1" "cfg_norm_policy c = NormalizeAndStore"
    using f(1) by (auto simp: check_config_ok_iff validate_config_ok_iff)
  moreover have "cfg_mse_bits c = cb_bits cb" "cfg_qjl_dim c = qjl_qjl_dim s" "cfg_mse_seed c = rot_seed rot"
      "cfg_qjl_seed c = qjl_seed s" "cfg_generator_version c = rot_generator_version rot"
    using f(2) unfolding try_asset_checks_ok_iff by auto
  ultimately show ?thesis
    by (intro turbo_quant_config.equality) simp_all
qed

lemma prod_codec_loads:
  assumes good: "good_codec (ReleaseV4 p)" and dims: "th_dim h = 512"
    and s: "serves files dir (codec_asset_files (ReleaseV4 p))"
    and f: "header_fingerprint h = Some (fingerprint sha256 (tp_config p) (codec_asset_files (ReleaseV4 p)))"
  shows "load_prod_codec sha256 files dir h = Inr (ProdAssets p)"
proof -
  obtain m1 where m1: "mmap_file files (path_join dir CODEBOOK_FILE) = Inr m1" "mm_bytes m1 = codebook_to_bytes (tp_codebook p)"
    by (rule servesD [OF s, of CODEBOOK_FILE "codebook_to_bytes (tp_codebook p)"]) auto
  obtain m2 where m2: "mmap_file files (path_join dir QJL_FILE) = Inr m2" "mm_bytes m2 = qjl_to_bytes (tp_qjl p)"
    by (rule servesD [OF s, of QJL_FILE "qjl_to_bytes (tp_qjl p)"]) auto
  obtain m3 where m3: "mmap_file files (path_join dir ROTATION_FILE) = Inr m3" "mm_bytes m3 = rotation_to_bytes (tp_rotation p)"
    by (rule servesD [OF s, of ROTATION_FILE "rotation_to_bytes (tp_rotation p)"]) auto
  have g: "prod_ok p" "holds_codes_of p" "from_assets (tp_config p) (tp_rotation p) (tp_codebook p) (tp_qjl p) = Inr p"
      "rotation_from_bytes (rotation_to_bytes (tp_rotation p)) = Inr (tp_rotation p)"
      "codebook_from_bytes (codebook_to_bytes (tp_codebook p)) = Inr (tp_codebook p)"
      "qjl_from_bytes (qjl_to_bytes (tp_qjl p)) = Inr (tp_qjl p)"
    using good rotation_file.read_write codebook_file.read_write qjl_file.read_write by (simp_all add: good_codec_def)
  define config where "config = \<lparr> cfg_codec_id = TurboQuantProdV1, cfg_dim = th_dim h, cfg_mse_bits = cb_bits (tp_codebook p),
      cfg_qjl_dim = qjl_qjl_dim (tp_qjl p), cfg_mse_seed = rot_seed (tp_rotation p), cfg_qjl_seed = qjl_seed (tp_qjl p),
      cfg_generator_version = rot_generator_version (tp_rotation p), cfg_norm_policy = NormalizeAndStore \<rparr>"
  have c: "config = tp_config p"
    unfolding config_def dims using from_assets_config [OF g(3)] prod_ok_config(2) [OF g(1)] by simp
  have fp: "fingerprint sha256 (tp_config p) [(ROTATION_FILE, rotation_to_bytes (tp_rotation p)),
        (CODEBOOK_FILE, codebook_to_bytes (tp_codebook p)), (QJL_FILE, qjl_to_bytes (tp_qjl p))] =
      fingerprint sha256 (tp_config p) (codec_asset_files (ReleaseV4 p))"
    by (rule fingerprint_order) (simp_all add: ROTATION_FILE_def CODEBOOK_FILE_def QJL_FILE_def)
  show ?thesis
    using g(2,3) f unfolding load_prod_codec_def m1(1) m2(1) m3(1) and_then.simps m1(2) m2(2) m3(2) g(4-6) map_err.simps
      config_def [symmetric] Let_def c by (simp add: fp)
qed

lemma release_codec_loads:
  assumes good: "good_codec codec" and h: "release_header sha256 codec n (codec_asset_files codec) = Some h"
    and sha: "\<forall>b. length (sha256 b) = 32" and s: "serves files dir (codec_asset_files codec)"
  shows "load_codec sha256 files dir h (codec_layout codec) = Inr (loaded_codec codec)"
proof (cases codec)
  case (ReleaseV3 c centroids projection)
  then show ?thesis
    using legacy_codec_loads [of c centroids projection h files dir] assms release_header_good(4) [OF good h sha]
    by (simp add: load_codec_def)
next
  case (ReleaseV4 p)
  have "header_fingerprint h = Some (fingerprint sha256 (tp_config p) (codec_asset_files (ReleaseV4 p)))"
    using h ReleaseV4 by (auto simp: header_new_v4_def header_fingerprint_def Let_def split: if_splits)
  then show ?thesis
    using prod_codec_loads [of p h files dir sha256] ReleaseV4 good s release_header_good(4) [OF good h sha]
    by (simp add: load_codec_def)
qed

section \<open>Reading back what was written\<close>

text \<open>What a blob of fields one after the other gives back, when offsets and lengths fit their widths.\<close>

definition small_fields :: "('a \<Rightarrow> blob) \<Rightarrow> 'a list \<Rightarrow> bool" where
  "small_fields f xs \<longleftrightarrow> length xs < 2 ^ 32 \<and> (\<forall>x \<in> set xs. length (f x) < 2 ^ 32)"

lemma length_concat_all_bound:
  "\<forall>x \<in> set xs. length (f x) \<le> k \<Longrightarrow> length (concat_all f xs) \<le> length xs * k"
  by (induction xs) (auto simp: concat_all_def add_mono)

lemma small_fields_total: "small_fields f xs \<Longrightarrow> length (concat_all f xs) < 2 ^ 64"
proof -
  assume s: "small_fields f xs"
  then have "length (concat_all f xs) \<le> length xs * (2 ^ 32 - 1)"
    by (intro length_concat_all_bound) (auto simp: small_fields_def)
  also have "\<dots> \<le> (2 ^ 32 - 1) * (2 ^ 32 - 1)"
    using s by (intro mult_le_mono1) (simp add: small_fields_def)
  finally show ?thesis
    by simp
qed

lemma field_numbers:
  assumes "small_fields f xs" "i < length xs"
  shows "unat (of_nat (offset_at f xs i) :: u64) = offset_at f xs i"
    "unat (of_nat (length (f (xs ! i))) :: u32) = length (f (xs ! i))"
proof -
  have "offset_at f xs i < 2 ^ 64"
    using offset_at_le [OF assms(2), of f] small_fields_total [OF assms(1)] by linarith
  moreover have "length (f (xs ! i)) < 2 ^ 32"
    using assms by (simp add: small_fields_def)
  ultimately show "unat (of_nat (offset_at f xs i) :: u64) = offset_at f xs i"
    "unat (of_nat (length (f (xs ! i))) :: u32) = length (f (xs ! i))"
    by (simp_all add: unat_of_nat take_bit_nat_eq_self)
qed

lemma field_range:
  assumes "small_fields f xs" "i < length xs"
  shows "range_in_blob (length (concat_all f xs)) (of_nat (offset_at f xs i)) (of_nat (length (f (xs ! i))))"
  using field_numbers [OF assms] offset_at_le [OF assms(2), of f] small_fields_total [OF assms(1)]
  by (simp add: range_in_blob_iff)

lemma field_slice:
  assumes "small_fields f xs" "i < length xs"
  shows "slice (concat_all f xs) (unat (of_nat (offset_at f xs i) :: u64))
      (usize_add (unat (of_nat (offset_at f xs i) :: u64)) (unat (of_nat (length (f (xs ! i))) :: u32))) =
    Some (f (xs ! i))"
  using range_slice [OF field_range [OF assms]] field_numbers [OF assms] span_concat_all [OF assms(2), of f] by simp

context fixed_layout
begin

lemma region_cast:
  assumes "\<forall>r \<in> set rs. ok r" "8 dvd width" "mm_bytes m = concat (map enc rs)" "8 dvd mm_address m" "i < length rs"
  shows "cast_at dec width m (i * width) = Some (rs ! i)"
  using cast_at_region [of m 0 "length rs" width i dec] assms region_length [OF assms(1)] region_read [OF assms(1,5)]
  by (simp add: mult.commute)

end

text \<open>What the writer assumes of a chunk: the lengths it stores as \<^verbatim>\<open>u32\<close> fit, and the texts are UTF-8.\<close>

definition chunk_fits :: "release_env \<Rightarrow> static_chunk \<Rightarrow> bool" where
  "chunk_fits env c \<longleftrightarrow>
     length (sc_text c) < 2 ^ 32 \<and> length (title_bytes c) < 2 ^ 32 \<and> length (sc_doc_id c) < 2 ^ 32 \<and>
     length (canonical_metadata_json env (sc_metadata c)) < 2 ^ 32 \<and>
     utf8_valid (sc_text c) \<and> utf8_valid (sc_doc_id c) \<and> utf8_valid (bytes_text (canonical_metadata_json env (sc_metadata c))) \<and>
     (case chunk_title c of Some title \<Rightarrow> utf8_valid title | None \<Rightarrow> True)"

lemma chunks_small:
  assumes "length cs < 2 ^ 32" "\<forall>c \<in> set cs. chunk_fits env c"
  shows "small_fields (text_bytes \<circ> sc_text) cs" "small_fields title_bytes cs"
    "small_fields (text_bytes \<circ> sc_doc_id) cs" "small_fields (canonical_metadata_json env \<circ> sc_metadata) cs"
  using assms by (auto simp: small_fields_def chunk_fits_def)

lemma metas_of_read:
  assumes "mm_bytes m = concat (map meta_record_bytes (metas_of cs))" "8 dvd mm_address m" "i < length cs"
  shows "cast_at meta_record_cast META_RECORD_SIZE m (i * META_RECORD_SIZE) = Some (metas_of cs ! i)"
  by (rule meta_layout.region_cast [OF _ _ assms(1,2)])
    (use assms(3) in \<open>auto simp: metas_of_def chunk_meta_def META_RECORD_SIZE_def\<close>)

lemma meta_exts_of_read:
  assumes "mm_bytes m = concat (map meta_ext_record_bytes (meta_exts_of env cs))" "8 dvd mm_address m" "i < length cs"
  shows "cast_at meta_ext_record_cast META_EXT_RECORD_SIZE m (i * META_EXT_RECORD_SIZE) = Some (meta_exts_of env cs ! i)"
  by (rule meta_ext_layout.region_cast [OF _ _ assms(1,2)])
    (use assms(3) in \<open>auto simp: meta_exts_of_def META_EXT_RECORD_SIZE_def\<close>)

lemma metas_of_length:
  "length (concat (map meta_record_bytes (metas_of cs))) = length cs * META_RECORD_SIZE"
  "length (concat (map meta_ext_record_bytes (meta_exts_of env cs))) = length cs * META_EXT_RECORD_SIZE"
  using meta_layout.region_length [of "metas_of cs"] meta_ext_layout.region_length [of "meta_exts_of env cs"]
  by (auto simp: metas_of_def meta_exts_of_def chunk_meta_def)

lemma metas_of_checked:
  assumes m: "mm_bytes m = concat (map meta_record_bytes (metas_of cs))" "8 dvd mm_address m" "i < length cs"
    and s: "length cs < 2 ^ 32" "\<forall>c \<in> set cs. chunk_fits env c"
  shows "check_meta m (length (concat_all (text_bytes \<circ> sc_text) cs)) (length (concat_all title_bytes cs)) i =
    Some (Inr ())"
  using field_range [OF chunks_small(1) [OF s] m(3)] field_range [OF chunks_small(2) [OF s] m(3)] m(3)
  by (simp add: check_meta_def metas_of_read [OF m] check_range_def metas_of_def chunk_meta_def)

lemma meta_exts_of_checked:
  assumes m: "mm_bytes m = concat (map meta_ext_record_bytes (meta_exts_of env cs))" "8 dvd mm_address m" "i < length cs"
    and s: "length cs < 2 ^ 32" "\<forall>c \<in> set cs. chunk_fits env c"
  shows "check_meta_ext m (length (concat_all (text_bytes \<circ> sc_doc_id) cs))
      (length (concat_all (canonical_metadata_json env \<circ> sc_metadata) cs)) i = Some (Inr ())"
  using field_range [OF chunks_small(3) [OF s] m(3)] field_range [OF chunks_small(4) [OF s] m(3)] m(3)
  by (simp add: check_meta_ext_def meta_exts_of_read [OF m] check_range_def meta_exts_of_def chunk_meta_ext_def)

lemma release_record_length:
  assumes "release_record quoted codec hash embedding label = Some (Inr r)"
  shows "length r = 208"
proof (cases codec)
  case (ReleaseV3 c centroids projection)
  then show ?thesis
    using assms by (auto simp: encode_turbo_record_def result_simps turbo_record_bytes_def split: if_splits)
next
  case (ReleaseV4 p)
  then show ?thesis
    using assms by (auto simp: result_simps prod_record_bytes_def prod_record_new_def ok_or_Inr_iff split: if_splits)
qed

lemma image_records:
  assumes "is_image quoted env codec header xs im" "length header = HEADER_SIZE"
  shows "length (im_bin im) = HEADER_SIZE + length xs * 208"
    and "i < length xs \<Longrightarrow> release_record quoted codec (stable_hash_doc_id (sc_doc_id (fst (xs ! i)))) (snd (xs ! i))
      (sc_doc_id (fst (xs ! i))) = Some (Inr (span (im_bin im) (HEADER_SIZE + i * 208) 208))"
proof -
  obtain rs where rs: "im_bin im = header @ concat rs"
      "list_all2 (\<lambda>(c, embedding) r.
        release_record quoted codec (stable_hash_doc_id (sc_doc_id c)) embedding (sc_doc_id c) = Some (Inr r)) xs rs"
    using assms(1) by (auto simp: is_image_def)
  have l: "\<forall>r \<in> set rs. length r = 208" "length rs = length xs"
    using rs(2) release_record_length by (fastforce simp: list_all2_conv_all_nth in_set_conv_nth)+
  have "length (concat rs) = 208 * length rs"
    using l(1) by (induction rs) simp_all
  then show "length (im_bin im) = HEADER_SIZE + length xs * 208"
    using rs(1) assms(2) l(2) by simp
  assume i: "i < length xs"
  have "chunks_exact 208 (concat rs) = rs"
    using l(1) by (intro chunks_exact_concat) simp_all
  then have "span (concat rs) (i * 208) 208 = rs ! i"
    using nth_chunks_exact [of i 208 "concat rs"] i l(2) by simp
  then have "span (im_bin im) (HEADER_SIZE + i * 208) 208 = rs ! i"
    using rs(1) assms(2) by (simp add: span_append_right)
  then show "release_record quoted codec (stable_hash_doc_id (sc_doc_id (fst (xs ! i)))) (snd (xs ! i))
      (sc_doc_id (fst (xs ! i))) = Some (Inr (span (im_bin im) (HEADER_SIZE + i * 208) 208))"
    using list_all2_nthD [OF rs(2) i] by (simp add: case_prod_beta split: prod.splits)
qed

text \<open>The mapped files of a release, by the parts of the image they hold.\<close>

lemma served_image:
  assumes "serves files dir (release_files codec im)"
  shows "\<exists>m. files (path_join dir TURBO_STATIC_FILE) = Inr m \<and> mm_bytes m = im_bin im \<and> 8 dvd mm_address m"
    "\<exists>m. files (path_join dir META_FILE) = Inr m \<and> mm_bytes m = im_meta im \<and> 8 dvd mm_address m"
    "\<exists>m. files (path_join dir TEXT_FILE) = Inr m \<and> mm_bytes m = im_text im"
    "\<exists>m. files (path_join dir TITLE_FILE) = Inr m \<and> mm_bytes m = im_title im"
    "\<exists>m. files (path_join dir META_EXT_FILE) = Inr m \<and> mm_bytes m = im_meta_ext im \<and> 8 dvd mm_address m"
    "\<exists>m. files (path_join dir DOCID_FILE) = Inr m \<and> mm_bytes m = im_docid im"
    "\<exists>m. files (path_join dir META_JSON_FILE) = Inr m \<and> mm_bytes m = im_meta_json im"
  using assms by (auto simp: serves_def release_files_def)

lemma served_codec: "serves files dir (release_files codec im) \<Longrightarrow> serves files dir (codec_asset_files codec)"
  by (auto simp: serves_def release_files_def)

lemma has_sidecars_codec [simp]: "has_sidecars (codec_layout codec)"
  by (cases codec) (simp_all add: has_sidecars_def)

text \<open>The mapped index of an image is the image: what loading has to produce.\<close>

definition holds_image :: "release_codec \<Rightarrow> image \<Rightarrow> turbo_header \<Rightarrow> mmap_index \<Rightarrow> bool" where
  "holds_image codec im header m \<longleftrightarrow>
     mi_header m = header \<and> mi_layout m = codec_layout codec \<and> mi_codec m = loaded_codec codec \<and>
     mm_bytes (mi_bin m) = im_bin im \<and> mm_bytes (mi_meta m) = im_meta im \<and> 8 dvd mm_address (mi_meta m) \<and>
     mm_bytes (mi_text m) = im_text im \<and> mm_bytes (mi_title m) = im_title im \<and>
     (\<exists>e d j. mi_meta_ext m = Some e \<and> mi_docid m = Some d \<and> mi_meta_json m = Some j \<and>
        mm_bytes e = im_meta_ext im \<and> 8 dvd mm_address e \<and> mm_bytes d = im_docid im \<and> mm_bytes j = im_meta_json im)"

definition written ::
  "(string \<Rightarrow> string) \<Rightarrow> release_env \<Rightarrow> release_codec \<Rightarrow> turbo_header \<Rightarrow> image \<Rightarrow> mapper \<Rightarrow> string \<Rightarrow> static_chunk list \<Rightarrow>
     f32 list list \<Rightarrow> bool" where
  "written quoted env codec header im files dir docs embeddings \<longleftrightarrow>
     good_codec codec \<and> (\<forall>b. length (re_sha256 env b) = 32) \<and>
     release_header (re_sha256 env) codec (of_nat (length docs)) (codec_asset_files codec) = Some header \<and>
     is_image quoted env codec (header_to_bytes header) (zip docs embeddings) im \<and>
     length embeddings = length docs \<and> serves files dir (release_files codec im) \<and>
     length docs < 2 ^ 32 \<and> (\<forall>c \<in> set docs. chunk_fits env c)"

lemma written_blobs:
  assumes "written quoted env codec header im files dir docs embeddings"
  shows "im_meta im = concat (map meta_record_bytes (metas_of docs))"
    "im_meta_ext im = concat (map meta_ext_record_bytes (meta_exts_of env docs))"
    "im_text im = concat_all (text_bytes \<circ> sc_text) docs" "im_title im = concat_all title_bytes docs"
    "im_docid im = concat_all (text_bytes \<circ> sc_doc_id) docs"
    "im_meta_json im = concat_all (canonical_metadata_json env \<circ> sc_metadata) docs"
    "length docs < 2 ^ 32" "\<forall>c \<in> set docs. chunk_fits env c"
  using assms by (auto simp: written_def is_image_def)

lemma written_header:
  assumes "written quoted env codec header im files dir docs embeddings"
  shows "header_ok header" "th_record_count header = of_nat (length docs)" "unat (th_record_count header) = length docs"
    "layout_from_header header = Inr (codec_layout codec)" "take HEADER_SIZE (im_bin im) = header_to_bytes header"
    "length (im_bin im) = HEADER_SIZE + length docs * 208"
proof -
  have w: "good_codec codec" "\<forall>b. length (re_sha256 env b) = 32"
      "release_header (re_sha256 env) codec (of_nat (length docs)) (codec_asset_files codec) = Some header"
      "is_image quoted env codec (header_to_bytes header) (zip docs embeddings) im" "length embeddings = length docs"
    using assms by (simp_all add: written_def)
  note h = release_header_good [OF w(1,3,2)]
  show "header_ok header" "th_record_count header = of_nat (length docs)"
      "layout_from_header header = Inr (codec_layout codec)"
    using h by simp_all
  show "unat (th_record_count header) = length docs"
    using h(2) assms by (simp add: written_def unat_of_nat take_bit_nat_eq_self)
  show "take HEADER_SIZE (im_bin im) = header_to_bytes header"
    using w(4) length_header_to_bytes [OF h(1)] by (auto simp: is_image_def)
  show "length (im_bin im) = HEADER_SIZE + length docs * 208"
    using image_records(1) [OF w(4) length_header_to_bytes [OF h(1)]] w(5) by simp
qed

lemma written_opens:
  assumes w: "written quoted env codec header im files dir docs embeddings"
  obtains f where "open_image files dir = Inr f" "if_header f = header" "if_layout f = codec_layout codec"
    "mm_bytes (if_bin f) = im_bin im" "mm_bytes (if_meta f) = im_meta im" "8 dvd mm_address (if_meta f)"
    "mm_bytes (if_text f) = im_text im" "mm_bytes (if_title f) = im_title im"
proof -
  have s: "serves files dir (release_files codec im)"
    using w by (simp add: written_def)
  obtain b m t1 t2 where p: "files (path_join dir TURBO_STATIC_FILE) = Inr b" "mm_bytes b = im_bin im" "8 dvd mm_address b"
      "files (path_join dir META_FILE) = Inr m" "mm_bytes m = im_meta im" "8 dvd mm_address m"
      "files (path_join dir TEXT_FILE) = Inr t1" "mm_bytes t1 = im_text im"
      "files (path_join dir TITLE_FILE) = Inr t2" "mm_bytes t2 = im_title im"
    using served_image [OF s] by blast
  note h = written_header [OF w]
  have "load_header b = Inr (header, codec_layout codec)"
    using h header_round_trip [OF h(1)] by (simp add: load_header_def p(2))
  moreover have "expected_file_size header = Inr (length docs * 208 + HEADER_SIZE)"
    using h written_blobs(7) [OF w]
    by (simp add: expected_file_size_def checked_mul_u64_def checked_add_u64_def HEADER_SIZE_def ok_or_def)
  then have "check_regions header b m = Inr ()"
    using h p(2,3,5,6) written_blobs(1) [OF w] metas_of_length(1) [of docs]
    by (simp add: check_regions_def ensure_aligned_def HEADER_SIZE_def Let_def META_RECORD_SIZE_def)
  ultimately have o: "open_image files dir = Inr \<lparr> if_header = header, if_layout = codec_layout codec, if_bin = b,
      if_meta = m, if_text = t1, if_title = t2 \<rparr>"
    using p by (simp add: open_image_def mmap_file_def)
  show ?thesis
    by (rule that [OF o]) (simp_all add: p)
qed

lemma written_sidecars:
  assumes w: "written quoted env codec header im files dir docs embeddings"
  obtains e d j where "load_doc_files files dir header (codec_layout codec) = Some (Inr (Some e, Some d, Some j))"
    "mm_bytes e = im_meta_ext im" "8 dvd mm_address e" "mm_bytes d = im_docid im" "mm_bytes j = im_meta_json im"
proof -
  have s: "serves files dir (release_files codec im)"
    using w by (simp add: written_def)
  obtain e d j where p: "files (path_join dir META_EXT_FILE) = Inr e" "mm_bytes e = im_meta_ext im" "8 dvd mm_address e"
      "files (path_join dir DOCID_FILE) = Inr d" "mm_bytes d = im_docid im"
      "files (path_join dir META_JSON_FILE) = Inr j" "mm_bytes j = im_meta_json im"
    using served_image [OF s] by blast
  note b = written_blobs [OF w] and h = written_header [OF w]
  have l: "length (mm_bytes e) = length docs * META_EXT_RECORD_SIZE"
    using p(2) b(2) metas_of_length(2) [of env docs] by simp
  have "open_sidecars files dir header = Inr (e, d, j)"
    using p(1,3,4,6) l h(3) by (simp add: open_sidecars_def mmap_file_def ensure_aligned_def META_EXT_RECORD_SIZE_def Let_def)
  moreover have "check_meta_ext e (length (mm_bytes d)) (length (mm_bytes j)) i = Some (Inr ())" if "i < length docs" for i
    using meta_exts_of_checked [OF _ p(3) that b(7,8)] p b(2,5,6) by simp
  then have "try_each (check_meta_ext e (length (mm_bytes d)) (length (mm_bytes j)))
      [0..<length (mm_bytes e) div META_EXT_RECORD_SIZE] = Some (Inr ())"
    using l by (simp add: try_each_ok_iff META_EXT_RECORD_SIZE_def)
  ultimately have "load_doc_files files dir header (codec_layout codec) = Some (Inr (Some e, Some d, Some j))"
    by (simp add: load_doc_files_def load_sidecars_def panic_then_def)
  then show ?thesis
    using that p by blast
qed

lemma written_loads:
  assumes w: "written quoted env codec header im files dir docs embeddings"
  obtains m where "mmap_load (re_sha256 env) files dir = Some (Inr m)" "holds_image codec im header m"
proof -
  obtain f where f: "open_image files dir = Inr f" "if_header f = header" "if_layout f = codec_layout codec"
    "mm_bytes (if_bin f) = im_bin im" "mm_bytes (if_meta f) = im_meta im" "8 dvd mm_address (if_meta f)"
    "mm_bytes (if_text f) = im_text im" "mm_bytes (if_title f) = im_title im"
    by (rule written_opens [OF w])
  obtain e d j where s: "load_doc_files files dir header (codec_layout codec) = Some (Inr (Some e, Some d, Some j))"
    "mm_bytes e = im_meta_ext im" "8 dvd mm_address e" "mm_bytes d = im_docid im" "mm_bytes j = im_meta_json im"
    by (rule written_sidecars [OF w])
  note b = written_blobs [OF w]
  have "check_meta (if_meta f) (length (im_text im)) (length (im_title im)) i = Some (Inr ())" if "i < length docs" for i
    using metas_of_checked [OF _ f(6) that b(7,8)] f(5) b(1,3,4) by simp
  then have c: "check_image f = Some (Inr ())"
    using f(5,7,8) b(1) metas_of_length(1) [of docs] by (simp add: check_image_def try_each_ok_iff META_RECORD_SIZE_def)
  have k: "load_codec (re_sha256 env) files dir header (codec_layout codec) = Inr (loaded_codec codec)"
    using w release_codec_loads [of codec "re_sha256 env" "of_nat (length docs)" header files dir] served_codec [of files dir codec im]
    by (simp add: written_def)
  show ?thesis
    by (rule that, unfold mmap_load_def f(1) panic_then_Some_Inr, intro exI conjI, rule refl, rule c)
      (use f s k in \<open>auto simp: holds_image_def panic_then_def\<close>)
qed

lemma held_texts:
  assumes m: "holds_image codec im header m" and w: "written quoted env codec header im files dir docs embeddings"
    and i: "i < length docs"
  shows "mmap_record_count m = length docs"
    "mmap_meta m i = Some (metas_of docs ! i)" "meta_ext_at m i = Some (Some (meta_exts_of env docs ! i))"
    "mmap_text m i = Some (Inr (sc_text (docs ! i)))" "mmap_title m i = Some (Inr (chunk_title (docs ! i)))"
proof -
  note b = written_blobs [OF w] and h = written_header [OF w]
  note small = chunks_small [OF b(7,8)]
  show n: "mmap_record_count m = length docs"
    using m h(3) by (simp add: mmap_record_count_def holds_image_def)
  show r: "mmap_meta m i = Some (metas_of docs ! i)"
    using m b(1) i metas_of_read [of "mi_meta m" docs i] by (simp add: mmap_meta_def n holds_image_def)
  show "meta_ext_at m i = Some (Some (meta_exts_of env docs ! i))"
    using m b(2) i meta_exts_of_read [of _ env docs i] by (auto simp: meta_ext_at_def n holds_image_def)
  have c: "chunk_fits env (docs ! i)"
    using b(8) i by simp
  show "mmap_text m i = Some (Inr (sc_text (docs ! i)))"
    using m c i field_slice [OF small(1) i] b(3)
    by (simp add: mmap_text_def r text_from_blob_def Let_def holds_image_def metas_of_def chunk_meta_def chunk_fits_def
        from_utf8_text_bytes ok_or_def)
  show "mmap_title m i = Some (Inr (chunk_title (docs ! i)))"
  proof (cases "chunk_title (docs ! i)")
    case None
    then show ?thesis
      using i by (simp add: mmap_title_def r title_from_blob_def metas_of_def chunk_meta_def title_bytes_def)
  next
    case (Some title)
    then have t: "title_bytes (docs ! i) = text_bytes title" "title \<noteq> []" "utf8_valid title"
      using c by (auto simp: title_bytes_def chunk_title_def chunk_fits_def split: option.splits if_splits)
    have "(of_nat (length title) :: u32) \<noteq> 0"
      using field_numbers(2) [OF small(2) i] t by (metis length_0_conv length_text_bytes unsigned_0)
    then show ?thesis
      using m t i field_slice [OF small(2) i] b(4) Some
      by (simp add: mmap_title_def r title_from_blob_def Let_def holds_image_def metas_of_def chunk_meta_def
          from_utf8_text_bytes ok_or_def)
  qed
qed

lemma held_sidecars:
  assumes m: "holds_image codec im header m" and w: "written quoted env codec header im files dir docs embeddings"
    and i: "i < length docs"
  shows "original_doc_id m i = Some (Inr (Some (sc_doc_id (docs ! i))))"
    "metadata_json m i = Some (Inr (Some (bytes_text (canonical_metadata_json env (sc_metadata (docs ! i))))))"
proof -
  note b = written_blobs [OF w]
  note small = chunks_small [OF b(7,8)] and e = held_texts(3) [OF m w i]
  obtain d j where s: "mi_docid m = Some d" "mi_meta_json m = Some j" "mm_bytes d = im_docid im" "mm_bytes j = im_meta_json im"
    using m by (auto simp: holds_image_def)
  have c: "chunk_fits env (docs ! i)"
    using b(8) i by simp
  show "original_doc_id m i = Some (Inr (Some (sc_doc_id (docs ! i))))"
    using s c i field_slice [OF small(3) i] b(5)
    by (simp add: original_doc_id_def sidecar_text_def e doc_id_from_blob_def Let_def meta_exts_of_def chunk_meta_ext_def
        chunk_fits_def from_utf8_text_bytes ok_or_def)
  show "metadata_json m i = Some (Inr (Some (bytes_text (canonical_metadata_json env (sc_metadata (docs ! i))))))"
    using s c i field_slice [OF small(4) i] b(6)
    by (simp add: metadata_json_def sidecar_text_def e metadata_json_from_blob_def Let_def meta_exts_of_def
        chunk_meta_ext_def chunk_fits_def from_utf8_def ok_or_def)
qed

lemma held_record:
  assumes m: "holds_image codec im header m" and w: "written quoted env codec header im files dir docs embeddings"
    and i: "i < length docs"
  shows "\<exists>r. mmap_record m i = Some r \<and> ref_layout r = codec_layout codec \<and>
    release_record quoted codec (stable_hash_doc_id (sc_doc_id (docs ! i))) (embeddings ! i) (sc_doc_id (docs ! i)) =
      Some (Inr (ref_data r))"
proof -
  note h = written_header [OF w]
  have im: "is_image quoted env codec (header_to_bytes header) (zip docs embeddings) im" "length embeddings = length docs"
    using w by (simp_all add: written_def)
  have r: "release_record quoted codec (stable_hash_doc_id (sc_doc_id (docs ! i))) (embeddings ! i) (sc_doc_id (docs ! i)) =
      Some (Inr (span (im_bin im) (HEADER_SIZE + i * 208) 208))"
    using image_records(2) [OF im(1) length_header_to_bytes [OF h(1)], of i] i im(2) by simp
  have "(i + 1) * 208 \<le> length docs * 208"
    using i by (intro mult_le_mono1) simp
  then have "slice (record_data m) (i * 208) (i * 208 + 208) = Some (span (im_bin im) (HEADER_SIZE + i * 208) 208)"
    using m h(6) by (simp add: slice_def record_data_def holds_image_def span_def add.commute)
  then show ?thesis
    using r release_record_length [OF r] i held_texts(1) [OF m w i] m
    by (simp add: mmap_record_def Let_def record_ref_new_def holds_image_def)
qed

lemma release_written:
  assumes "release_image quoted env fmt docs embeddings n = Some (Inr (codec, im))"
    and "serves files dir (release_files codec im)" and "\<forall>b. length (re_sha256 env b) = 32"
    and "length docs < 2 ^ 32" and "\<forall>c \<in> set docs. chunk_fits env c"
  obtains header where "written quoted env codec header im files dir docs embeddings" "docs \<noteq> []"
  by (rule release_image_cases [OF assms(1)])
    (use assms(2-5) generated_codec_good in \<open>auto simp: written_def\<close>)

lemma release_loads:
  assumes "release_image quoted env fmt docs embeddings n = Some (Inr (codec, im))"
    and "serves files dir (release_files codec im)" and "\<forall>b. length (re_sha256 env b) = 32"
    and "length docs < 2 ^ 32" and "\<forall>c \<in> set docs. chunk_fits env c"
  obtains m where "mmap_load (re_sha256 env) files dir = Some (Inr m)" "mmap_record_count m = length docs"
proof (rule release_written [OF assms])
  fix header
  assume w: "written quoted env codec header im files dir docs embeddings" "docs \<noteq> []"
  obtain m where m: "mmap_load (re_sha256 env) files dir = Some (Inr m)" "holds_image codec im header m"
    by (rule written_loads [OF w(1)])
  show ?thesis
    by (rule that [OF m(1)]) (use held_texts(1) [OF m(2) w(1), of 0] w(2) in simp)
qed

text \<open>
  A static release loads back as what was written: from the files a
  release build writes, loading returns an index with one record per chunk and the codec the build
  generated, and at every index the text, the title, the document id and the canonical metadata
  are those of the chunk, and the record is the one its embedding was encoded to under the hash of
  its document id.  The build assumes of its input that lengths fit the \<^verbatim>\<open>u32\<close> fields and
  texts are UTF-8.
\<close>

theorem static_image_roundtrip:
  assumes "release_image quoted env fmt docs embeddings n = Some (Inr (codec, im))"
    and "serves files dir (release_files codec im)" and "\<forall>b. length (re_sha256 env b) = 32"
    and "length docs < 2 ^ 32" and "\<forall>c \<in> set docs. chunk_fits env c"
  shows "\<exists>m. mmap_load (re_sha256 env) files dir = Some (Inr m) \<and> mmap_record_count m = length docs \<and>
    mi_codec m = loaded_codec codec \<and>
    (\<forall>i < length docs.
       mmap_text m i = Some (Inr (sc_text (docs ! i))) \<and> mmap_title m i = Some (Inr (chunk_title (docs ! i))) \<and>
       original_doc_id m i = Some (Inr (Some (sc_doc_id (docs ! i)))) \<and>
       metadata_json m i = Some (Inr (Some (bytes_text (canonical_metadata_json env (sc_metadata (docs ! i)))))) \<and>
       (\<exists>r. mmap_record m i = Some r \<and> ref_layout r = codec_layout codec \<and>
          release_record quoted codec (stable_hash_doc_id (sc_doc_id (docs ! i))) (embeddings ! i)
            (sc_doc_id (docs ! i)) = Some (Inr (ref_data r))))"
proof (rule release_written [OF assms])
  fix header
  assume w: "written quoted env codec header im files dir docs embeddings" and r: "docs \<noteq> []"
  obtain m where m: "mmap_load (re_sha256 env) files dir = Some (Inr m)" "holds_image codec im header m"
    by (rule written_loads [OF w])
  then show ?thesis
    using held_texts(1) [OF m(2) w, of 0] held_texts(4,5) [OF m(2) w] held_sidecars [OF m(2) w]
      held_record [OF m(2) w] r
    by (intro exI [of _ m]) (simp add: holds_image_def)
qed

section \<open>When a release builds\<close>

lemma detect_duplicates_ok_iff:
  "detect_duplicates seen cs = Inr () \<longleftrightarrow> distinct (map sc_doc_id cs) \<and> set (map sc_doc_id cs) \<inter> set seen = {}"
  by (induction cs arbitrary: seen) auto

lemma detect_collisions_ok_iff:
  "detect_collisions m (map (\<lambda>d. (d, f d)) ds) = Inr () \<longleftrightarrow>
     inj_on f (set ds) \<and> (\<forall>d \<in> set ds. \<forall>d'. hm_get m (f d) = Some d' \<longrightarrow> d' = d)"
proof (induction ds arbitrary: m)
  case (Cons d ds)
  have inj: "inj_on f (set (d # ds)) \<longleftrightarrow> inj_on f (set ds) \<and> (\<forall>e \<in> set ds. f e = f d \<longrightarrow> e = d)"
    by (auto simp: inj_on_def)
  show ?case
  proof (cases "hm_get m (f d) = None \<or> hm_get m (f d) = Some d")
    case True
    then have step: "detect_collisions m (map (\<lambda>d. (d, f d)) (d # ds)) =
        detect_collisions (hm_insert (f d) d m) (map (\<lambda>d. (d, f d)) ds)"
      by auto
    have "(\<forall>d'. hm_get (hm_insert (f d) d m) (f e) = Some d' \<longrightarrow> d' = e) \<longleftrightarrow>
        (f e = f d \<longrightarrow> e = d) \<and> (\<forall>d'. hm_get m (f e) = Some d' \<longrightarrow> d' = e)" for e
      using True by (cases "f e = f d") auto
    then show ?thesis
      unfolding step Cons.IH inj using True by auto
  next
    case False
    then obtain d' where "hm_get m (f d) = Some d'" "d' \<noteq> d"
      by auto
    then show ?thesis
      by auto
  qed
qed simp

lemma detect_hash_collisions_ok_iff:
  "detect_hash_collisions (map (\<lambda>c. (sc_doc_id c, stable_hash_doc_id (sc_doc_id c))) docs) = Inr () \<longleftrightarrow>
     inj_on stable_hash_doc_id (sc_doc_id ` set docs)"
  using detect_collisions_ok_iff [of "[]" stable_hash_doc_id "map sc_doc_id docs"]
  by (simp add: detect_hash_collisions_def o_def)

lemma check_embedding_ok_iff:
  "check_embedding n (c, e) = Inr () \<longleftrightarrow> length e = unat n \<and> list_all f32_is_finite e"
  by (simp add: check_embedding_def)

lemma check_embeddings_ok_iff:
  assumes "length docs = length embeddings"
  shows "try_all (check_embedding n) (zip docs embeddings) = Inr () \<longleftrightarrow>
    (\<forall>e \<in> set embeddings. length e = unat n \<and> list_all f32_is_finite e)"
  using assms by (induction docs embeddings rule: list_induct2) (auto simp: and_then_Inr_iff check_embedding_ok_iff)

lemma check_release_input_ok_iff:
  "check_release_input fmt docs embeddings n = Inr () \<longleftrightarrow>
     length docs = length embeddings \<and> docs \<noteq> [] \<and> n = cfg_dim (format_config fmt) \<and>
     (\<forall>e \<in> set embeddings. length e = unat n \<and> list_all f32_is_finite e) \<and>
     distinct (map sc_doc_id docs) \<and> inj_on stable_hash_doc_id (sc_doc_id ` set docs)"
  using check_embeddings_ok_iff [of docs embeddings n]
  by (auto simp: check_release_input_def and_then_Inr_iff detect_duplicate_doc_ids_def detect_duplicates_ok_iff
      detect_hash_collisions_ok_iff)

lemma encode_vector_lengths:
  assumes "encode_vector v c p = Inr e"
  shows "length (ev_idx e) = idx_len (length v)" "length (ev_qjl e) = qjl_len (length v)"
  using assms
  by (auto simp: encode_vector_def result_simps Let_def write_idx_fields write_sign_fields validate_codec_inputs_def
      fold_sign_map dest!: project_checked_length split: if_splits)

lemma legacy_record_returns:
  assumes "good_codec (ReleaseV3 c centroids projection)" "length embedding = 512"
  shows "\<exists>r. release_record quoted (ReleaseV3 c centroids projection) hash embedding label = Some (Inr r)"
proof -
  have "validate_codec_inputs 512 centroids projection = Inr ()"
    using assms(1) by (simp add: good_codec_def validate_codec_inputs_def EXPECTED_CENTROIDS_PER_DIM_def)
  then obtain e where e: "encode_vector embedding centroids projection = Inr e"
    using encode_vector_returns [of embedding] assms(2) by auto
  show ?thesis
    using encode_vector_lengths [OF e] assms(2) by (simp add: encode_turbo_record_def e idx_len_def qjl_len_def IDX_BITS_PER_DIM_def)
qed

lemma append_chunks_returns:
  assumes "\<forall>(c, e) \<in> set xs. \<exists>r. release_record quoted codec (stable_hash_doc_id (sc_doc_id c)) e (sc_doc_id c) = Some (Inr r)"
  shows "\<exists>im'. append_chunks quoted env codec im xs = Some (Inr im')"
  using assms by (induction xs arbitrary: im) (fastforce simp: append_chunk_def Let_def panic_then_def)+

lemma legacy_v3_generates:
  "\<exists>centroids projection. release_codec_generate quoted env FormatV3 = Some (Inr (ReleaseV3 legacy_v1 centroids projection))"
  by (simp add: legacy_codec_assets_def legacy_centroids_per_dim centroid_table_generate_def projection_generate_def)
    (simp add: legacy_v1_def)

lemma v3_builds_legacy:
  assumes ok: "check_release_input FormatV3 docs embeddings n = Inr ()"
  shows "\<exists>centroids projection im. release_image quoted env FormatV3 docs embeddings n =
    Some (Inr (ReleaseV3 legacy_v1 centroids projection, im))"
proof -
  obtain centroids projection where g:
    "release_codec_generate quoted env FormatV3 = Some (Inr (ReleaseV3 legacy_v1 centroids projection))"
    using legacy_v3_generates by blast
  obtain h where h: "release_header (re_sha256 env) (ReleaseV3 legacy_v1 centroids projection) (of_nat (length docs))
      (codec_asset_files (ReleaseV3 legacy_v1 centroids projection)) = Some h"
    by (simp add: header_new_v3_def legacy_v1_def)
  have "\<exists>im'. append_chunks quoted env (ReleaseV3 legacy_v1 centroids projection) (empty_image (header_to_bytes h))
      (zip docs embeddings) = Some (Inr im')"
    using ok legacy_record_returns [OF generated_codec_good [OF g]] unfolding check_release_input_ok_iff
    by (intro append_chunks_returns) (auto simp: legacy_v1_def dest!: set_zip_rightD)
  then show ?thesis
    using ok g h by (auto simp: release_image_def panic_then_def simp del: release_header.simps)
qed

lemma v3_accepted_builds:
  "check_release_input FormatV3 docs embeddings n = Inr () \<Longrightarrow>
     \<exists>r. release_image quoted env FormatV3 docs embeddings n = Some (Inr r)"
  using v3_builds_legacy by blast

text \<open>
  A version 3 image is built exactly when there is one 512-dimensional finite
  embedding per chunk, at least one chunk, a profile of dimension 512, and the document ids are
  distinct and so are their 64-bit hashes: after the checks nothing can fail.
\<close>

theorem v3_release_builds:
  "(\<exists>r. release_image quoted env FormatV3 docs embeddings n = Some (Inr r)) \<longleftrightarrow>
     length docs = length embeddings \<and> docs \<noteq> [] \<and> n = 512 \<and>
     (\<forall>e \<in> set embeddings. length e = 512 \<and> list_all f32_is_finite e) \<and>
     distinct (map sc_doc_id docs) \<and> inj_on stable_hash_doc_id (sc_doc_id ` set docs)"
    (is "?built \<longleftrightarrow> ?accepted")
proof -
  have a: "?accepted \<longleftrightarrow> check_release_input FormatV3 docs embeddings n = Inr ()"
    unfolding check_release_input_ok_iff by (auto simp: legacy_v1_def)
  show ?thesis
  proof
    assume ?built
    then show ?accepted
      unfolding a by (auto simp: release_image_def panic_then_Some_Inr)
  next
    assume ?accepted
    then show ?built
      unfolding a by (rule v3_accepted_builds)
  qed
qed

section \<open>A release at work\<close>

definition demo_env :: release_env where
  "demo_env = \<lparr> re_uniform = (\<lambda>seed i. f32_one),
     re_sampler = \<lparr> sm_words = (\<lambda>seed stream i. 0), sm_log = (\<lambda>x. x), sm_sincos = (\<lambda>x. (x, x)) \<rparr>,
     re_sha256 = (\<lambda>b. replicate 32 (of_nat (length b))), re_json = (\<lambda>m. text_bytes ''{}'') \<rparr>"

definition law_chunk :: static_chunk where
  "law_chunk = \<lparr> sc_doc_id = ''law-1'', sc_text = ''Article 1'', sc_metadata = [(''title'', JString ''Civil Code'')],
     sc_corpus_type = Legal \<rparr>"

text \<open>A directory that maps the files of a list, each at the start of a page.\<close>

definition directory_of :: "string \<Rightarrow> (string \<times> blob) list \<Rightarrow> mapper" where
  "directory_of dir contents path =
     (case map_of (map (\<lambda>(name, bytes). (path_join dir name, bytes)) contents) path of
        Some bytes \<Rightarrow> Inr \<lparr> mm_bytes = bytes, mm_address = 4096 \<rparr>
      | None \<Rightarrow> Inl ''not found'')"

lemma directory_of_serves:
  assumes "distinct (map (path_join dir \<circ> fst) contents)"
  shows "serves (directory_of dir contents) dir contents"
proof -
  have "map_of (map (\<lambda>(name, bytes). (path_join dir name, bytes)) contents) (path_join dir name) = Some bytes"
    if "(name, bytes) \<in> set contents" for name bytes
    using assms that by (intro map_of_is_SomeI) (force simp: o_def case_prod_beta)+
  then show ?thesis
    by (auto simp: serves_def directory_of_def)
qed

lemma demo_accepted: "check_release_input FormatV3 [law_chunk] [replicate 512 f32_one] 512 = Inr ()"
proof -
  have "list_all f32_is_finite (replicate 512 f32_one)"
    by (simp add: list_all_iff fl_eval f32_one_def)
  then show ?thesis
    unfolding check_release_input_ok_iff by (simp add: legacy_v1_def)
qed

lemma law_chunk_fits: "chunk_fits demo_env law_chunk"
  by (simp add: chunk_fits_def law_chunk_def demo_env_def canonical_metadata_json_def title_bytes_def chunk_title_def
      hm_get_def utf8_valid_ascii)

lemma demo_release:
  obtains codec im where
    "release_image (\<lambda>s. s) demo_env FormatV3 [law_chunk] [replicate 512 f32_one] 512 = Some (Inr (codec, im))"
    "serves (directory_of ''d'' (release_files codec im)) ''d'' (release_files codec im)"
    "\<forall>b. length (re_sha256 demo_env b) = 32" "\<forall>c \<in> set [law_chunk]. chunk_fits demo_env c"
proof -
  obtain codec im where r:
    "release_image (\<lambda>s. s) demo_env FormatV3 [law_chunk] [replicate 512 f32_one] 512 = Some (Inr (codec, im))"
    using v3_accepted_builds [OF demo_accepted] by fastforce
  moreover have "distinct (map (path_join ''d'' \<circ> fst) (release_files codec im))"
    by (cases codec) (simp_all add: release_files_def path_join_def CENTROIDS_FILE_def PROJECTION_FILE_def
        CODEBOOK_FILE_def QJL_FILE_def ROTATION_FILE_def TURBO_STATIC_FILE_def META_FILE_def TEXT_FILE_def TITLE_FILE_def
        META_EXT_FILE_def DOCID_FILE_def META_JSON_FILE_def)
  ultimately show ?thesis
    using directory_of_serves law_chunk_fits by (intro that [OF r]) (simp_all add: demo_env_def)
qed

lemma static_image_roundtrip_witness:
  "\<exists>codec im m. mmap_load (re_sha256 demo_env) (directory_of ''d'' (release_files codec im)) ''d'' = Some (Inr m) \<and>
     mmap_record_count m = 1 \<and> mmap_text m 0 = Some (Inr ''Article 1'') \<and>
     mmap_title m 0 = Some (Inr (Some ''Civil Code'')) \<and> original_doc_id m 0 = Some (Inr (Some ''law-1'')) \<and>
     metadata_json m 0 = Some (Inr (Some ''{}''))"
proof (rule demo_release)
  fix codec im
  assume r: "release_image (\<lambda>s. s) demo_env FormatV3 [law_chunk] [replicate 512 f32_one] 512 = Some (Inr (codec, im))"
    "serves (directory_of ''d'' (release_files codec im)) ''d'' (release_files codec im)"
    "\<forall>b. length (re_sha256 demo_env b) = 32" "\<forall>c \<in> set [law_chunk]. chunk_fits demo_env c"
  have "chunk_title law_chunk = Some ''Civil Code''"
    by (simp add: law_chunk_def chunk_title_def hm_get_def)
  then show ?thesis
    using static_image_roundtrip [OF r(1,2,3) _ r(4)] by (auto simp: law_chunk_def demo_env_def canonical_metadata_json_def)
qed

lemma load_is_memory_safe_witness:
  "\<exists>codec im m. mmap_load (re_sha256 demo_env) (directory_of ''d'' (release_files codec im)) ''d'' = Some (Inr m) \<and>
     mmap_records m \<noteq> None \<and> check_utf8 m \<noteq> None \<and> mmap_record m 0 \<noteq> None"
proof (rule demo_release)
  fix codec im
  assume r: "release_image (\<lambda>s. s) demo_env FormatV3 [law_chunk] [replicate 512 f32_one] 512 = Some (Inr (codec, im))"
    "serves (directory_of ''d'' (release_files codec im)) ''d'' (release_files codec im)"
    "\<forall>b. length (re_sha256 demo_env b) = 32" "\<forall>c \<in> set [law_chunk]. chunk_fits demo_env c"
  obtain m where "mmap_load (re_sha256 demo_env) (directory_of ''d'' (release_files codec im)) ''d'' = Some (Inr m)"
      "mmap_record_count m = 1"
    using release_loads [OF r(1,2,3) _ r(4)] by auto
  then show ?thesis
    using load_is_memory_safe [of "re_sha256 demo_env" "directory_of ''d'' (release_files codec im)" "''d''" m 0] by auto
qed

lemma v3_release_builds_witness:
  "(\<exists>r. release_image (\<lambda>s. s) demo_env FormatV3 [law_chunk] [replicate 512 f32_one] 512 = Some (Inr r)) \<and>
     \<not> (\<exists>r. release_image (\<lambda>s. s) demo_env FormatV3 [law_chunk, law_chunk] [replicate 512 f32_one, replicate 512 f32_one] 512 =
          Some (Inr r))"
proof -
  have "list_all f32_is_finite (replicate 512 f32_one)"
    by (simp add: list_all_iff fl_eval f32_one_def)
  then show ?thesis
    unfolding v3_release_builds by simp
qed

end
