(* ===== verification/Static_Release.thy ===== *)
theory Static_Release
  imports Static_Image
begin

text \<open>
  Static releases: the manifest and the content-derived release id
  (\<^verbatim>\<open>src/index/release_manifest.rs\<close>), the release builder with its staging and the atomic
  replacement of the output directory (\<^verbatim>\<open>src/index/static_release.rs\<close>,
  \<^verbatim>\<open>src/storage/staged_publish.rs\<close>), and the version 2 builder
  (\<^verbatim>\<open>src/index/static_builder.rs\<close>).  SHA-256, the JSON printers, the file system and the
  embedding model are arguments; paths have no trailing slash.
\<close>


section \<open>The manifest\<close>

record release_source =
  rs_kind :: string
  rs_dataset_path :: string
  rs_table_version :: u64
  rs_table_row_count :: u64
  rs_corpus_type :: corpus_type

record embedding_profile =
  ep_model_id :: string
  ep_dim :: u32

record input_fingerprint =
  fp_doc_count :: u64
  fp_content_digest :: string

record output_file =
  of_name :: string
  of_sha256 :: string
  of_size_bytes :: u64

record release_manifest =
  rm_schema_version :: u32
  rm_turbo_version :: u32
  rm_release_id :: string
  rm_source :: release_source
  rm_profile :: embedding_profile
  rm_fingerprint :: input_fingerprint
  rm_codec :: manifest_codec
  rm_outputs :: "output_file list"

definition RELEASE_MANIFEST_FILE :: string where "RELEASE_MANIFEST_FILE = ''release_manifest.json''"

definition V3_RELEASE_OUTPUT_FILES :: "string list" where
  "V3_RELEASE_OUTPUT_FILES =
     [CENTROIDS_FILE, PROJECTION_FILE, TURBO_STATIC_FILE, DOCID_FILE, META_FILE, META_EXT_FILE, META_JSON_FILE, TEXT_FILE,
      TITLE_FILE]"

definition V4_RELEASE_OUTPUT_FILES :: "string list" where
  "V4_RELEASE_OUTPUT_FILES =
     [CODEBOOK_FILE, QJL_FILE, ROTATION_FILE, TURBO_STATIC_FILE, DOCID_FILE, META_FILE, META_EXT_FILE, META_JSON_FILE,
      TEXT_FILE, TITLE_FILE]"

definition release_output_files :: "u32 \<Rightarrow> string list option" where
  "release_output_files version =
     (if version = TURBO_VERSION_V3 then Some V3_RELEASE_OUTPUT_FILES
      else if version = TURBO_VERSION_V4 then Some V4_RELEASE_OUTPUT_FILES
      else None)"

definition sha256_hex :: "(blob \<Rightarrow> blob) \<Rightarrow> blob \<Rightarrow> string" where
  "sha256_hex sha256 bytes = hex_encode (sha256 bytes)"

text \<open>The bytes fed to the hasher, field after field.\<close>

definition len_prefixed :: "blob \<Rightarrow> blob" where
  "len_prefixed bytes = u64_to_le (of_nat (length bytes)) @ bytes"

definition row_bytes :: "canonical_row \<Rightarrow> blob" where
  "row_bytes r =
     len_prefixed (text_bytes (cr_doc_id r)) @
     u64_to_le (of_nat (length (cr_embedding r))) @ concat (map u32_to_le (cr_embedding r)) @
     len_prefixed (text_bytes (cr_text r)) @ len_prefixed (cr_meta_json r)"

definition content_digest_input :: "canonical_row list \<Rightarrow> blob" where
  "content_digest_input rows = concat (map row_bytes rows)"

definition content_digest :: "(blob \<Rightarrow> blob) \<Rightarrow> canonical_row list \<Rightarrow> string" where
  "content_digest sha256 rows = hex_encode (sha256 (content_digest_input rows))"

fun codec_id_bytes :: "manifest_codec \<Rightarrow> blob" where
  "codec_id_bytes (CodecV3 c) =
     u32_to_le (cm_dim c) @ u32_to_le (cm_centroids_per_dim c) @ u64_to_le (cm_centroids_seed c) @
     u64_to_le (cm_projection_seed c)"
| "codec_id_bytes (CodecV4 c) =
     len_prefixed (text_bytes (v4_codec_id c)) @ u32_to_le (v4_dim c) @ [v4_mse_bits c] @ u32_to_le (v4_qjl_dim c) @
     u64_to_le (v4_rotation_seed c) @ u64_to_le (v4_qjl_seed c) @ u32_to_le (v4_generator_version c) @
     len_prefixed (text_bytes (v4_norm_policy c))"

definition output_bytes :: "output_file \<Rightarrow> blob" where
  "output_bytes out =
     len_prefixed (text_bytes (of_name out)) @ text_bytes (of_sha256 out) @ u64_to_le (of_size_bytes out)"

definition sort_outputs :: "output_file list \<Rightarrow> output_file list" where
  "sort_outputs outputs = sort_by (\<lambda>a b. cmp_ord (of_name a) (of_name b)) outputs"

definition release_id_input ::
  "u32 \<Rightarrow> embedding_profile \<Rightarrow> manifest_codec \<Rightarrow> string \<Rightarrow> output_file list \<Rightarrow> blob" where
  "release_id_input version profile codec digest outputs =
     u32_to_le version @ len_prefixed (text_bytes (ep_model_id profile)) @ u32_to_le (ep_dim profile) @
     codec_id_bytes codec @ len_prefixed (text_bytes digest) @ concat (map output_bytes (sort_outputs outputs))"

definition derive_release_id ::
  "(blob \<Rightarrow> blob) \<Rightarrow> u32 \<Rightarrow> embedding_profile \<Rightarrow> manifest_codec \<Rightarrow> string \<Rightarrow> output_file list \<Rightarrow> string" where
  "derive_release_id sha256 version profile codec digest outputs =
     hex_encode (sha256 (release_id_input version profile codec digest outputs))"


section \<open>The hashed bytes determine the content\<close>

lemma append_eq_lengths: "length a = length b \<Longrightarrow> a @ c = b @ d \<longleftrightarrow> a = b \<and> c = d"
  by (rule append_eq_append_conv) simp

lemma u64_of_nat_inj:
  assumes "m < 2 ^ 64" "n < 2 ^ 64"
  shows "(of_nat m :: u64) = of_nat n \<longleftrightarrow> m = n"
proof -
  have "unat (of_nat m :: u64) = m" "unat (of_nat n :: u64) = n"
    using assms by (simp_all add: unat_of_nat take_bit_nat_eq_self)
  then show ?thesis
    by metis
qed

lemma len_prefixed_append:
  assumes "length a < 2 ^ 64" "length b < 2 ^ 64"
  shows "len_prefixed a @ c = len_prefixed b @ d \<longleftrightarrow> a = b \<and> c = d"
  using u64_of_nat_inj [OF assms] by (auto simp: len_prefixed_def append_eq_lengths u64_to_le_inj)

lemma len_prefixed_inj:
  "length a < 2 ^ 64 \<Longrightarrow> length b < 2 ^ 64 \<Longrightarrow> len_prefixed a = len_prefixed b \<longleftrightarrow> a = b"
  using len_prefixed_append [of a b "[]" "[]"] by simp

lemma u32_list_append:
  "length a = length b \<Longrightarrow> concat (map u32_to_le a) @ c = concat (map u32_to_le b) @ d \<longleftrightarrow> a = b \<and> c = d"
  by (induction a b rule: list_induct2) (auto simp: append_eq_lengths u32_to_le_inj)

text \<open>Every field in memory is shorter than \<^verbatim>\<open>2^64\<close>.\<close>

definition row_fits :: "canonical_row \<Rightarrow> bool" where
  "row_fits r \<longleftrightarrow> length (cr_doc_id r) < 2 ^ 64 \<and> length (cr_embedding r) < 2 ^ 64 \<and> length (cr_text r) < 2 ^ 64 \<and>
     length (cr_meta_json r) < 2 ^ 64"

lemma row_bytes_append:
  assumes "row_fits r" "row_fits s"
  shows "row_bytes r @ c = row_bytes s @ d \<longleftrightarrow> r = s \<and> c = d"
proof -
  have "row_bytes r @ c = row_bytes s @ d \<longleftrightarrow>
      cr_doc_id r = cr_doc_id s \<and> cr_embedding r = cr_embedding s \<and> cr_text r = cr_text s \<and>
      cr_meta_json r = cr_meta_json s \<and> c = d"
    using assms u64_of_nat_inj [of "length (cr_embedding r)" "length (cr_embedding s)"]
    by (auto simp: row_bytes_def row_fits_def len_prefixed_append append_eq_lengths u64_to_le_inj text_bytes_inj
        u32_list_append)
  then show ?thesis
    by (cases r; cases s) auto
qed

lemma row_bytes_nonempty: "row_bytes r \<noteq> []"
  by (simp add: row_bytes_def len_prefixed_def flip: length_0_conv)

lemma content_digest_input_inj:
  assumes "\<forall>r \<in> set rows. row_fits r" "\<forall>r \<in> set rows'. row_fits r"
  shows "content_digest_input rows = content_digest_input rows' \<longleftrightarrow> rows = rows'"
  using assms
proof (induction rows arbitrary: rows')
  case Nil
  then show ?case
    by (cases rows') (auto simp: content_digest_input_def row_bytes_nonempty)
next
  case (Cons r rows)
  then show ?case
    by (cases rows') (auto simp: content_digest_input_def row_bytes_nonempty row_bytes_append)
qed

definition codec_names_fit :: "manifest_codec \<Rightarrow> bool" where
  "codec_names_fit codec \<longleftrightarrow>
     (\<forall>m. codec = CodecV4 m \<longrightarrow> length (v4_codec_id m) < 2 ^ 64 \<and> length (v4_norm_policy m) < 2 ^ 64)"

lemma codec_id_bytes_append:
  assumes "manifest_codec_version a = manifest_codec_version b" "codec_names_fit a" "codec_names_fit b"
  shows "codec_id_bytes a @ c = codec_id_bytes b @ d \<longleftrightarrow> a = b \<and> c = d"
proof (cases a; cases b)
  fix x y
  assume "a = CodecV3 x" "b = CodecV3 y"
  then show ?thesis
    by (cases x; cases y) (auto simp: append_eq_lengths u32_to_le_inj u64_to_le_inj)
next
  fix x y
  assume ab: "a = CodecV4 x" "b = CodecV4 y"
  then have "length (v4_codec_id x) < 2 ^ 64" "length (v4_codec_id y) < 2 ^ 64"
      "length (v4_norm_policy x) < 2 ^ 64" "length (v4_norm_policy y) < 2 ^ 64"
    using assms(2,3) by (simp_all add: codec_names_fit_def)
  then have "codec_id_bytes a @ c = codec_id_bytes b @ d \<longleftrightarrow>
      v4_codec_id x = v4_codec_id y \<and> v4_dim x = v4_dim y \<and> v4_mse_bits x = v4_mse_bits y \<and>
      v4_qjl_dim x = v4_qjl_dim y \<and> v4_rotation_seed x = v4_rotation_seed y \<and> v4_qjl_seed x = v4_qjl_seed y \<and>
      v4_generator_version x = v4_generator_version y \<and> v4_norm_policy x = v4_norm_policy y \<and> c = d"
    by (simp add: ab append_eq_lengths u32_to_le_inj u64_to_le_inj len_prefixed_append text_bytes_inj)
  then show ?thesis
    using ab by (cases x; cases y) auto
qed (use assms(1) in \<open>simp_all add: TURBO_VERSION_V3_def TURBO_VERSION_V4_def\<close>)

definition output_fits :: "output_file \<Rightarrow> bool" where
  "output_fits out \<longleftrightarrow> length (of_name out) < 2 ^ 64 \<and> length (of_sha256 out) = 64"

lemma output_bytes_append:
  assumes "output_fits a" "output_fits b"
  shows "output_bytes a @ c = output_bytes b @ d \<longleftrightarrow> a = b \<and> c = d"
proof -
  have "output_bytes a @ c = output_bytes b @ d \<longleftrightarrow>
      of_name a = of_name b \<and> of_sha256 a = of_sha256 b \<and> of_size_bytes a = of_size_bytes b \<and> c = d"
    using assms by (auto simp: output_bytes_def output_fits_def len_prefixed_append append_eq_lengths u64_to_le_inj
        text_bytes_inj)
  then show ?thesis
    by (cases a; cases b) auto
qed

lemma output_bytes_nonempty: "output_bytes a \<noteq> []"
  by (simp add: output_bytes_def len_prefixed_def flip: length_0_conv)

lemma outputs_bytes_inj:
  assumes "\<forall>a \<in> set as. output_fits a" "\<forall>b \<in> set bs. output_fits b"
  shows "concat (map output_bytes as) = concat (map output_bytes bs) \<longleftrightarrow> as = bs"
  using assms
proof (induction as arbitrary: bs)
  case Nil
  then show ?case
    by (cases bs) (auto simp: output_bytes_nonempty)
next
  case (Cons a as)
  then show ?case
    by (cases bs) (auto simp: output_bytes_append output_bytes_nonempty)
qed

text \<open>What a manifest of this build holds: the codec section of its version, and digests of 64 digits.\<close>

definition id_fields_ok ::
  "u32 \<Rightarrow> embedding_profile \<Rightarrow> manifest_codec \<Rightarrow> string \<Rightarrow> output_file list \<Rightarrow> bool" where
  "id_fields_ok version profile codec digest outputs \<longleftrightarrow>
     manifest_codec_version codec = version \<and> length (ep_model_id profile) < 2 ^ 64 \<and> length digest < 2 ^ 64 \<and>
     codec_names_fit codec \<and> (\<forall>a \<in> set outputs. output_fits a)"

interpretation by_output_name: key_comparator "\<lambda>a b :: output_file. cmp_ord (of_name a) (of_name b)" of_name
  by unfold_locales simp

text \<open>
  The bytes a release id is the hash of determine the content of the release,
  and nothing else enters them: two manifests hash the same bytes if and only if they agree on the
  image version, the embedding model and dimension, every codec parameter, the content digest,
  and the output files (name, digest, size) in name order.  The source section is not among
  them, so the same content from another path has the same id.
\<close>

theorem release_id_exact:
  assumes "id_fields_ok v p c d outs" and "id_fields_ok v' p' c' d' outs'"
  shows "release_id_input v p c d outs = release_id_input v' p' c' d' outs' \<longleftrightarrow>
    v = v' \<and> p = p' \<and> c = c' \<and> d = d' \<and> sort_outputs outs = sort_outputs outs'"
proof -
  have fits: "\<forall>a \<in> set (sort_outputs outs). output_fits a" "\<forall>a \<in> set (sort_outputs outs'). output_fits a"
    using assms by (auto simp: id_fields_ok_def sort_outputs_def by_output_name.sort_by_sort_key)
  have "release_id_input v p c d outs = release_id_input v' p' c' d' outs' \<longleftrightarrow>
      v = v' \<and> ep_model_id p = ep_model_id p' \<and> ep_dim p = ep_dim p' \<and>
      codec_id_bytes c @ len_prefixed (text_bytes d) @ concat (map output_bytes (sort_outputs outs)) =
      codec_id_bytes c' @ len_prefixed (text_bytes d') @ concat (map output_bytes (sort_outputs outs'))"
    using assms by (auto simp: release_id_input_def id_fields_ok_def append_eq_lengths u32_to_le_inj len_prefixed_append
        text_bytes_inj)
  also have "\<dots> \<longleftrightarrow> v = v' \<and> ep_model_id p = ep_model_id p' \<and> ep_dim p = ep_dim p' \<and> c = c' \<and> d = d' \<and>
      sort_outputs outs = sort_outputs outs'"
    using assms codec_id_bytes_append [of c c'] outputs_bytes_inj [OF fits]
    by (auto simp: id_fields_ok_def len_prefixed_append len_prefixed_inj text_bytes_inj)
  also have "\<dots> \<longleftrightarrow> v = v' \<and> p = p' \<and> c = c' \<and> d = d' \<and> sort_outputs outs = sort_outputs outs'"
    by (cases p; cases p') auto
  finally show ?thesis .
qed

section \<open>Writing the release\<close>

text \<open>
  What the builder takes from its surroundings: the environment of the image, the JSON of the
  manifest (\<open>Inl\<close> a serialisation error), the text of a missing file, the process id and the
  clock readings that name the staging and backup directories.
\<close>

record release_ports =
  rp_env :: release_env
  rp_quoted :: "string \<Rightarrow> string"
  rp_manifest_json :: "release_manifest \<Rightarrow> string + string"
  rp_not_found :: string
  rp_pid :: nat
  rp_staging_nonce :: nat
  rp_backup_nonce :: nat

definition path_file_name :: "string \<Rightarrow> string option" where
  "path_file_name p =
     (let name = rev (takeWhile (\<lambda>c. c \<noteq> CHR ''/'') (rev p)) in if name = [] \<or> name = ''..'' then None else Some name)"

definition write_out_file :: "'f os_ops \<Rightarrow> string \<Rightarrow> blob \<Rightarrow> 'f \<Rightarrow> (index_error + unit) \<times> 'f" where
  "write_out_file os path bytes fs =
     map_prod (map_err (\<lambda>e. IndexOperation (msg [''failed to write '', path, '': '', e]))) id
       (os_write os path (bytes_text bytes) fs)"

fun write_files :: "'f os_ops \<Rightarrow> string \<Rightarrow> (string \<times> blob) list \<Rightarrow> 'f \<Rightarrow> (index_error + unit) \<times> 'f" where
  "write_files os dir [] fs = (Inr (), fs)"
| "write_files os dir ((name, bytes) # rest) fs =
     (case write_out_file os (path_join dir name) bytes fs of
        (Inl e, fs1) \<Rightarrow> (Inl e, fs1)
      | (Inr _, fs1) \<Rightarrow> write_files os dir rest fs1)"

definition describe_output ::
  "release_ports \<Rightarrow> 'f os_ops \<Rightarrow> string \<Rightarrow> 'f \<Rightarrow> string \<Rightarrow> index_error + output_file" where
  "describe_output ports os dir fs name =
     map_ok (\<lambda>contents. let bytes = text_bytes contents
         in \<lparr> of_name = name, of_sha256 = sha256_hex (re_sha256 (rp_env ports)) bytes,
              of_size_bytes = of_nat (length bytes) \<rparr>)
       (map_err (\<lambda>e. IndexOperation (msg [''failed to read staged output '', name, '': '',
           (case e of NotFound \<Rightarrow> rp_not_found ports | OtherIo t \<Rightarrow> t)]))
         (os_read os (path_join dir name) fs))"

definition collect_outputs ::
  "release_ports \<Rightarrow> 'f os_ops \<Rightarrow> string \<Rightarrow> string list \<Rightarrow> 'f \<Rightarrow> index_error + output_file list" where
  "collect_outputs ports os dir names fs = try_map (describe_output ports os dir fs) names"

definition make_manifest ::
  "release_ports \<Rightarrow> u32 \<Rightarrow> embedding_profile \<Rightarrow> release_source \<Rightarrow> nat \<Rightarrow> canonical_row list \<Rightarrow> manifest_codec \<Rightarrow>
     output_file list \<Rightarrow> release_manifest" where
  "make_manifest ports version profile source n rows codec outputs =
     (let sha256 = re_sha256 (rp_env ports);
          fp = \<lparr> fp_doc_count = of_nat n, fp_content_digest = content_digest sha256 rows \<rparr>
      in \<lparr> rm_schema_version = 1, rm_turbo_version = version,
           rm_release_id = derive_release_id sha256 version profile codec (fp_content_digest fp) outputs,
           rm_source = source, rm_profile = profile, rm_fingerprint = fp, rm_codec = codec, rm_outputs = outputs \<rparr>)"

text \<open>Every failure after staging removes the staging directory.\<close>

definition aborting :: "'f os_ops \<Rightarrow> string \<Rightarrow> index_error \<Rightarrow> 'f \<Rightarrow> (index_error + 'a) \<times> 'f" where
  "aborting os staged e fs =
     (case remove_dir_all_if_exists os staged fs of
        (cleanup, fs1) \<Rightarrow> (Inl (append_cleanup_failure e cleanup), fs1))"

text \<open>The parent and the name of the output directory.\<close>

definition output_place :: "string \<Rightarrow> index_error + string \<times> string" where
  "output_place out =
     (case path_parent out of
        None \<Rightarrow> Inl (IndexOperation (msg [''path '', out, '' has no parent'']))
      | Some parent \<Rightarrow>
          (case path_file_name out of
             None \<Rightarrow> Inl (IndexOperation (msg [''path '', out, '' has no file name'']))
           | Some name \<Rightarrow> Inr (parent, name)))"

definition backup_dir_name :: "string \<Rightarrow> nat \<Rightarrow> nat \<Rightarrow> string" where
  "backup_dir_name name pid nonce = msg [''.'', name, ''-backup-'', show_nat pid, ''-'', show_nat nonce]"

definition replace_output_dir ::
  "release_ports \<Rightarrow> 'f os_ops \<Rightarrow> string \<Rightarrow> string \<Rightarrow> 'f \<Rightarrow> (index_error + unit) \<times> 'f" where
  "replace_output_dir ports os staged out fs =
     (case output_place out of
        Inl e \<Rightarrow> (Inl e, fs)
      | Inr (parent, name) \<Rightarrow>
          commit_replace_dir os staged (path_join parent (backup_dir_name name (rp_pid ports) (rp_backup_nonce ports)))
            out fs)"

text \<open>Steps 4 to 7: the files, their digests, the manifest, all in the staging directory.\<close>

definition describe_release ::
  "release_ports \<Rightarrow> 'f os_ops \<Rightarrow> string \<Rightarrow> static_release_format \<Rightarrow> release_codec \<Rightarrow> image \<Rightarrow> nat \<Rightarrow> embedding_profile \<Rightarrow>
     release_source \<Rightarrow> 'f \<Rightarrow> (index_error + release_manifest \<times> string) option" where
  "describe_release ports os staged fmt codec im n profile source fs =
     (case release_output_files (format_version fmt) of
        None \<Rightarrow> None
      | Some names \<Rightarrow>
          (case collect_outputs ports os staged names fs of
             Inl e \<Rightarrow> Some (Inl e)
           | Inr outputs \<Rightarrow>
               map_option (\<lambda>c.
                   and_then c (\<lambda>codec_section.
                     let manifest = make_manifest ports (format_version fmt) profile source n (im_rows im) codec_section outputs
                     in map_ok (Pair manifest)
                          (map_err (\<lambda>e. IndexOperation (''failed to serialize release manifest: '' @ e))
                            (rp_manifest_json ports manifest))))
                 (release_manifest_codec (rp_quoted ports) codec)))"

definition stage_release ::
  "release_ports \<Rightarrow> 'f os_ops \<Rightarrow> string \<Rightarrow> static_release_format \<Rightarrow> release_codec \<Rightarrow> image \<Rightarrow> nat \<Rightarrow> embedding_profile \<Rightarrow>
     release_source \<Rightarrow> 'f \<Rightarrow> ((index_error + release_manifest) \<times> 'f) option" where
  "stage_release ports os staged fmt codec im n profile source fs =
     (case write_files os staged (release_files codec im) fs of
        (Inl e, fs1) \<Rightarrow> Some (aborting os staged e fs1)
      | (Inr _, fs1) \<Rightarrow>
          (case describe_release ports os staged fmt codec im n profile source fs1 of
             None \<Rightarrow> None
           | Some (Inl e) \<Rightarrow> Some (aborting os staged e fs1)
           | Some (Inr (manifest, json)) \<Rightarrow>
               (case os_write os (path_join staged RELEASE_MANIFEST_FILE) json fs1 of
                  (Inl e, fs2) \<Rightarrow> Some (aborting os staged
                    (IndexOperation (msg [''failed to write '', path_join staged RELEASE_MANIFEST_FILE, '': '', e])) fs2)
                | (Inr _, fs2) \<Rightarrow> Some (Inr manifest, fs2))))"

definition build_release ::
  "release_ports \<Rightarrow> 'f os_ops \<Rightarrow> static_release_format \<Rightarrow> string \<Rightarrow> static_chunk list \<Rightarrow> f32 list list \<Rightarrow>
     embedding_profile \<Rightarrow> release_source \<Rightarrow> 'f \<Rightarrow> ((index_error + release_manifest) \<times> 'f) option" where
  "build_release ports os fmt out docs embeddings profile source fs =
     (case release_image (rp_quoted ports) (rp_env ports) fmt docs embeddings (ep_dim profile) of
        None \<Rightarrow> None
      | Some (Inl e) \<Rightarrow> Some (Inl e, fs)
      | Some (Inr (codec, im)) \<Rightarrow>
          (case output_place out of
             Inl e \<Rightarrow> Some (Inl e, fs)
           | Inr (parent, name) \<Rightarrow>
               (case staged_create os parent name (rp_pid ports) (rp_staging_nonce ports) fs of
                  (Inl e, fs1) \<Rightarrow> Some (Inl e, fs1)
                | (Inr staged, fs1) \<Rightarrow>
                    (case stage_release ports os staged fmt codec im (length docs) profile source fs1 of
                       None \<Rightarrow> None
                     | Some (Inl e, fs2) \<Rightarrow> Some (Inl e, fs2)
                     | Some (Inr manifest, fs2) \<Rightarrow>
                         Some (case replace_output_dir ports os staged out fs2 of
                                 (Inl e, fs3) \<Rightarrow> (Inl e, fs3)
                               | (Inr _, fs3) \<Rightarrow> (Inr manifest, fs3))))))"


section \<open>The version 2 builder\<close>

text \<open>\<open>generate\<close> is the embedding model: a text to a vector, or an error message.\<close>

fun resolve_from ::
  "(string \<Rightarrow> string + f32 list) \<Rightarrow> nat option \<Rightarrow> (static_chunk \<times> f32 list option) list \<Rightarrow>
     index_error + f32 list list" where
  "resolve_from generate expected [] = Inr []"
| "resolve_from generate expected ((c, e) # rest) =
     and_then
       (case e of
          Some embedding \<Rightarrow> Inr embedding
        | None \<Rightarrow> map_err (\<lambda>m. IndexOperation (msg [''failed to generate embedding for static chunk '', sc_doc_id c, '': '', m]))
            (generate (sc_text c)))
       (\<lambda>embedding.
         if embedding = [] then Inl (IndexOperation (msg [''static chunk '', sc_doc_id c, '' produced an empty embedding'']))
         else if \<not> list_all f32_is_finite embedding
         then Inl (IndexOperation (msg [''static chunk '', sc_doc_id c, '' produced a non-finite embedding'']))
         else
           (case expected of
              Some d \<Rightarrow>
                if d \<noteq> length embedding
                then Inl (IndexOperation (msg [''static chunk '', sc_doc_id c, '' embedding dimension '',
                       show_nat (length embedding), '' does not match expected '', show_nat d]))
                else map_ok (Cons embedding) (resolve_from generate expected rest)
            | None \<Rightarrow> map_ok (Cons embedding) (resolve_from generate (Some (length embedding)) rest)))"

definition resolve_embeddings ::
  "(string \<Rightarrow> string + f32 list) \<Rightarrow> static_chunk list \<Rightarrow> f32 list option list \<Rightarrow> index_error + f32 list list" where
  "resolve_embeddings generate docs embeddings = resolve_from generate None (zip docs embeddings)"

definition parse_doc_id :: "string \<Rightarrow> index_error + u64" where
  "parse_doc_id doc =
     (if doc = [] then Inl (IndexOperation ''static chunk doc_id must not be empty'') else Inr (stable_hash_doc_id doc))"

definition append_v2_chunk ::
  "centroid_table \<Rightarrow> projection_matrix \<Rightarrow> image \<Rightarrow> static_chunk \<times> f32 list \<Rightarrow> index_error + image" where
  "append_v2_chunk centroids projection im = (\<lambda>(c, embedding).
     and_then (parse_doc_id (sc_doc_id c)) (\<lambda>hash.
     and_then (encode_turbo_record hash embedding centroids projection (sc_doc_id c)) (\<lambda>r.
       Inr (im\<lparr> im_bin := im_bin im @ turbo_record_bytes r,
                im_meta := im_meta im @ meta_record_bytes (chunk_meta c hash (length (im_text im)) (length (im_title im))),
                im_text := im_text im @ text_bytes (sc_text c),
                im_title := im_title im @ title_bytes c \<rparr>))))"

fun append_v2_chunks ::
  "centroid_table \<Rightarrow> projection_matrix \<Rightarrow> image \<Rightarrow> (static_chunk \<times> f32 list) list \<Rightarrow> index_error + image" where
  "append_v2_chunks centroids projection im [] = Inr im"
| "append_v2_chunks centroids projection im (x # xs) =
     and_then (append_v2_chunk centroids projection im x) (\<lambda>im. append_v2_chunks centroids projection im xs)"

definition static_files :: "centroid_table \<Rightarrow> projection_matrix \<Rightarrow> image \<Rightarrow> (string \<times> blob) list" where
  "static_files centroids projection im =
     [(CENTROIDS_FILE, centroid_table_to_bytes centroids), (PROJECTION_FILE, projection_to_bytes projection),
      (TURBO_STATIC_FILE, im_bin im), (META_FILE, im_meta im), (TEXT_FILE, im_text im), (TITLE_FILE, im_title im)]"

record static_build_result =
  sr_record_count :: u64
  sr_embedding_dim :: u32

text \<open>The dimension check precedes the output directory; encoding errors come after it exists.\<close>

definition check_v2_input ::
  "(string \<Rightarrow> string + f32 list) \<Rightarrow> static_chunk list \<Rightarrow> f32 list option list \<Rightarrow> index_error + f32 list list \<times> u32" where
  "check_v2_input generate docs embeddings =
     (if length docs \<noteq> length embeddings
      then Inl (IndexOperation (msg [''static chunk count '', show_nat (length docs),
             '' does not match embedding count '', show_nat (length embeddings)]))
      else and_then (resolve_embeddings generate docs embeddings) (\<lambda>resolved.
        case resolved of
          [] \<Rightarrow> Inl (IndexOperation ''static builder requires at least one chunk'')
        | e # _ \<Rightarrow>
            if (of_nat (length e) :: u32) \<noteq> cfg_dim legacy_v1
            then Inl (IndexOperation (msg [''static builder only supports typed turbo layout for '',
                   show_nat (unat (cfg_dim legacy_v1)), ''-dim embeddings, got '',
                   show_nat (unat (of_nat (length e) :: u32))]))
            else Inr (resolved, of_nat (length e))))"

definition build_static ::
  "release_ports \<Rightarrow> 'f os_ops \<Rightarrow> (string \<Rightarrow> string + f32 list) \<Rightarrow> string \<Rightarrow> static_chunk list \<Rightarrow> f32 list option list \<Rightarrow>
     'f \<Rightarrow> ((index_error + static_build_result) \<times> 'f) option" where
  "build_static ports os generate out docs embeddings fs =
     (case check_v2_input generate docs embeddings of
        Inl e \<Rightarrow> Some (Inl e, fs)
      | Inr (resolved, d) \<Rightarrow>
          (case os_create_dir_all os out fs of
             (Inl e, fs1) \<Rightarrow> Some (Inl (IndexOperation (msg [''failed to create static output directory '', out, '': '', e])), fs1)
           | (Inr _, fs1) \<Rightarrow>
               Option.bind (legacy_codec_assets (re_uniform (rp_env ports)) legacy_v1) (\<lambda>(centroids, projection).
               Option.bind (header_new d (of_nat (length docs))) (\<lambda>header. Some
                 (case and_then (append_v2_chunks centroids projection (empty_image (header_to_bytes header))
                          (zip docs resolved)) (\<lambda>im. map_ok (Pair im) (output_place out)) of
                    Inl e \<Rightarrow> (Inl e, fs1)
                  | Inr (im, parent, name) \<Rightarrow>
                      (case staged_create os parent name (rp_pid ports) (rp_staging_nonce ports) fs1 of
                         (Inl e, fs2) \<Rightarrow> (Inl e, fs2)
                       | (Inr staged, fs2) \<Rightarrow>
                           (case write_files os staged (static_files centroids projection im) fs2 of
                              (Inl e, fs3) \<Rightarrow> aborting os staged e fs3
                            | (Inr _, fs3) \<Rightarrow>
                                (case replace_output_dir ports os staged out fs3 of
                                   (Inl e, fs4) \<Rightarrow> (Inl e, fs4)
                                 | (Inr _, fs4) \<Rightarrow>
                                     (Inr \<lparr> sr_record_count = of_nat (length docs), sr_embedding_dim = d \<rparr>, fs4)))))))))"

section \<open>What a build leaves behind\<close>

text \<open>
  What the file system guarantees of a set \<open>D\<close> of sibling directories, seen as maps from file names
  to contents: a rename moves a directory whole or changes nothing, a removal or creation of one
  directory leaves the others alone, and a file written is the file read.
\<close>

type_synonym 'f dir_view = "'f \<Rightarrow> string \<Rightarrow> (string \<Rightarrow> string option) option"

definition exists_law :: "'f os_ops \<Rightarrow> 'f dir_view \<Rightarrow> string set \<Rightarrow> bool" where
  "exists_law os view D \<longleftrightarrow> (\<forall>p \<in> D. \<forall>fs. os_exists os p fs \<longleftrightarrow> view fs p \<noteq> None)"

definition rename_law :: "'f os_ops \<Rightarrow> 'f dir_view \<Rightarrow> string set \<Rightarrow> bool" where
  "rename_law os view D \<longleftrightarrow>
     (\<forall>p \<in> D. \<forall>q \<in> D. \<forall>fs r fs'. p \<noteq> q \<longrightarrow> os_rename os p q fs = (r, fs') \<longrightarrow>
        (\<forall>x \<in> D. view fs' x = (if \<not> is_ok r then view fs x else if x = q then view fs p else if x = p then None else view fs x)))"

definition remove_law :: "'f os_ops \<Rightarrow> 'f dir_view \<Rightarrow> string set \<Rightarrow> bool" where
  "remove_law os view D \<longleftrightarrow>
     (\<forall>p \<in> D. \<forall>fs r fs'. os_remove_dir_all os p fs = (r, fs') \<longrightarrow> (\<forall>x \<in> D. x \<noteq> p \<longrightarrow> view fs' x = view fs x))"

definition create_law :: "'f os_ops \<Rightarrow> 'f dir_view \<Rightarrow> string set \<Rightarrow> bool" where
  "create_law os view D \<longleftrightarrow>
     (\<forall>p \<in> D. \<forall>fs r fs'. os_create_dir_all os p fs = (r, fs') \<longrightarrow>
        (is_ok r \<longrightarrow> view fs p = None \<longrightarrow> view fs' p = Some Map.empty) \<and> (\<forall>x \<in> D. x \<noteq> p \<longrightarrow> view fs' x = view fs x))"

definition write_law :: "'f os_ops \<Rightarrow> 'f dir_view \<Rightarrow> string set \<Rightarrow> bool" where
  "write_law os view D \<longleftrightarrow>
     (\<forall>p \<in> D. \<forall>name bytes fs r fs'. CHR ''/'' \<notin> set name \<longrightarrow> os_write os (path_join p name) bytes fs = (r, fs') \<longrightarrow>
        (is_ok r \<longrightarrow> (\<forall>m. view fs p = Some m \<longrightarrow> view fs' p = Some (m(name \<mapsto> bytes)))) \<and>
        (\<forall>x \<in> D. x \<noteq> p \<longrightarrow> view fs' x = view fs x))"

definition read_law :: "'f os_ops \<Rightarrow> 'f dir_view \<Rightarrow> string set \<Rightarrow> bool" where
  "read_law os view D \<longleftrightarrow>
     (\<forall>p \<in> D. \<forall>name fs m c. CHR ''/'' \<notin> set name \<longrightarrow> view fs p = Some m \<longrightarrow> os_read os (path_join p name) fs = Inr c \<longrightarrow>
        m name = Some c)"

definition lawful_dirs :: "'f os_ops \<Rightarrow> 'f dir_view \<Rightarrow> string set \<Rightarrow> bool" where
  "lawful_dirs os view D \<longleftrightarrow>
     exists_law os view D \<and> rename_law os view D \<and> remove_law os view D \<and> create_law os view D \<and> write_law os view D \<and>
     read_law os view D"

lemma lawful_dirsD:
  assumes "lawful_dirs os view D" and p: "p \<in> D"
  shows "os_exists os p fs \<longleftrightarrow> view fs p \<noteq> None"
    and "q \<in> D \<Longrightarrow> p \<noteq> q \<Longrightarrow> os_rename os p q fs = (Inr u, fs') \<Longrightarrow> view fs' q = view fs p"
    and "q \<in> D \<Longrightarrow> p \<noteq> q \<Longrightarrow> os_rename os p q fs = (Inr u, fs') \<Longrightarrow> view fs' p = None"
    and "q \<in> D \<Longrightarrow> p \<noteq> q \<Longrightarrow> os_rename os p q fs = (Inr u, fs') \<Longrightarrow> x \<in> D \<Longrightarrow> x \<noteq> p \<Longrightarrow> x \<noteq> q \<Longrightarrow> view fs' x = view fs x"
    and "q \<in> D \<Longrightarrow> p \<noteq> q \<Longrightarrow> os_rename os p q fs = (Inl e, fs') \<Longrightarrow> x \<in> D \<Longrightarrow> view fs' x = view fs x"
    and "os_remove_dir_all os p fs = (r, fs') \<Longrightarrow> x \<in> D \<Longrightarrow> x \<noteq> p \<Longrightarrow> view fs' x = view fs x"
    and "os_create_dir_all os p fs = (Inr u, fs') \<Longrightarrow> view fs p = None \<Longrightarrow> view fs' p = Some Map.empty"
    and "os_create_dir_all os p fs = (r, fs') \<Longrightarrow> x \<in> D \<Longrightarrow> x \<noteq> p \<Longrightarrow> view fs' x = view fs x"
    and "CHR ''/'' \<notin> set name \<Longrightarrow> os_write os (path_join p name) bytes fs = (Inr u, fs') \<Longrightarrow> view fs p = Some m \<Longrightarrow>
      view fs' p = Some (m(name \<mapsto> bytes))"
    and "CHR ''/'' \<notin> set name \<Longrightarrow> os_write os (path_join p name) bytes fs = (r, fs') \<Longrightarrow> x \<in> D \<Longrightarrow> x \<noteq> p \<Longrightarrow>
      view fs' x = view fs x"
    and "CHR ''/'' \<notin> set name \<Longrightarrow> view fs p = Some m \<Longrightarrow> os_read os (path_join p name) fs = Inr c \<Longrightarrow> m name = Some c"
proof -
  have laws: "exists_law os view D" "rename_law os view D" "remove_law os view D" "create_law os view D"
      "write_law os view D" "read_law os view D"
    using assms(1) by (simp_all add: lawful_dirs_def)
  show "os_exists os p fs \<longleftrightarrow> view fs p \<noteq> None"
    using laws(1) p by (simp add: exists_law_def)
  show "view fs' q = view fs p" if "q \<in> D" "p \<noteq> q" "os_rename os p q fs = (Inr u, fs')"
    using laws(2) p that unfolding rename_law_def by (metis is_ok.simps(2))
  show "view fs' p = None" if "q \<in> D" "p \<noteq> q" "os_rename os p q fs = (Inr u, fs')"
    using laws(2) p that unfolding rename_law_def by (metis is_ok.simps(2))
  show "view fs' x = view fs x" if "q \<in> D" "p \<noteq> q" "os_rename os p q fs = (Inr u, fs')" "x \<in> D" "x \<noteq> p" "x \<noteq> q"
    using laws(2) p that unfolding rename_law_def by (metis is_ok.simps(2))
  show "view fs' x = view fs x" if "q \<in> D" "p \<noteq> q" "os_rename os p q fs = (Inl e, fs')" "x \<in> D"
    using laws(2) p that unfolding rename_law_def by (metis is_ok.simps(1))
  show "view fs' x = view fs x" if "os_remove_dir_all os p fs = (r, fs')" "x \<in> D" "x \<noteq> p"
    using laws(3) p that unfolding remove_law_def by blast
  show "view fs' p = Some Map.empty" if "os_create_dir_all os p fs = (Inr u, fs')" "view fs p = None"
    using laws(4) p that unfolding create_law_def by (metis is_ok.simps(2))
  show "view fs' x = view fs x" if "os_create_dir_all os p fs = (r, fs')" "x \<in> D" "x \<noteq> p"
    using laws(4) p that unfolding create_law_def by blast
  show "view fs' p = Some (m(name \<mapsto> bytes))"
    if "CHR ''/'' \<notin> set name" "os_write os (path_join p name) bytes fs = (Inr u, fs')" "view fs p = Some m"
    using laws(5) p that unfolding write_law_def by (metis is_ok.simps(2))
  show "view fs' x = view fs x"
    if "CHR ''/'' \<notin> set name" "os_write os (path_join p name) bytes fs = (r, fs')" "x \<in> D" "x \<noteq> p"
    using laws(5) p that unfolding write_law_def by blast
  show "m name = Some c"
    if "CHR ''/'' \<notin> set name" "view fs p = Some m" "os_read os (path_join p name) fs = Inr c"
    using laws(6) p that unfolding read_law_def by blast
qed

lemma remove_dir_view:
  assumes "lawful_dirs os view D" "p \<in> D" "remove_dir_all_if_exists os p fs = (r, fs')" "x \<in> D" "x \<noteq> p"
  shows "view fs' x = view fs x"
  using assms lawful_dirsD(6) [OF assms(1,2), of fs _ fs' x]
  by (cases "os_remove_dir_all os p fs") (auto simp: remove_dir_all_if_exists_def split: if_splits sum.splits)

text \<open>The destination afterwards: the old tree, the staged tree, or the old tree set aside.\<close>

definition replace_outcome ::
  "('f \<Rightarrow> string \<Rightarrow> 'v option) \<Rightarrow> string \<Rightarrow> string \<Rightarrow> string \<Rightarrow> 'f \<Rightarrow> 'f \<Rightarrow> bool \<Rightarrow> bool" where
  "replace_outcome view staged backup out fs fs' ok \<longleftrightarrow>
     (if ok then view fs' out = view fs staged
      else view fs' out = view fs out \<or> view fs' out = view fs staged \<or>
           view fs' out = None \<and> view fs' backup = view fs out)"

lemma swap_outcome:
  assumes laws: "lawful_dirs os view D" and D: "staged \<in> D" "backup \<in> D" "out \<in> D"
    and ne: "staged \<noteq> backup" "staged \<noteq> out" "backup \<noteq> out"
    and had: "had \<longleftrightarrow> view fs out \<noteq> None" and ex: "os_exists os out fs \<longleftrightarrow> had"
    and r: "commit_replace_dir os staged backup out fs = (r, fs')"
  shows "replace_outcome view staged backup out fs fs' (is_ok r)"
proof -
  note d = lawful_dirsD [OF laws]
  show ?thesis
  proof (cases had)
    case False
    show ?thesis
    proof (cases "os_rename os staged out fs")
      case (Pair r1 fs1)
      then show ?thesis
        using r False ex D ne d(2) [OF D(1,3) ne(2), of fs _ fs1] d(5) [OF D(1,3) ne(2), of fs _ fs1]
          remove_dir_view [OF laws D(1), of fs1 _ fs' out]
        by (cases r1) (auto simp: commit_replace_dir_def replace_outcome_def Let_def split: prod.splits)
    qed
  next
    case True
    obtain r1 fs1 where 1: "os_rename os out backup fs = (r1, fs1)"
      by (cases "os_rename os out backup fs")
    show ?thesis
    proof (cases r1)
      case (Inl e)
      then show ?thesis
        using r True ex 1 D ne d(5) [OF D(3,2) ne(3) [symmetric], of fs e fs1 out] remove_dir_view [OF laws D(1), of fs1 _ fs' out]
        by (auto simp: commit_replace_dir_def replace_outcome_def Let_def split: prod.splits)
    next
      case (Inr u)
      have aside: "view fs1 backup = view fs out" "view fs1 out = None" "view fs1 staged = view fs staged"
        using 1 Inr D ne d(2-4) [of out backup] by auto
      obtain r2 fs2 where 2: "os_rename os staged out fs1 = (r2, fs2)"
        by (cases "os_rename os staged out fs1")
      show ?thesis
      proof (cases r2)
        case (Inr v)
        then have "view fs2 out = view fs staged"
          using 2 d(2) [OF D(1,3) ne(2)] aside by simp
        then show ?thesis
          using r True ex 1 2 \<open>r1 = Inr u\<close> Inr D ne remove_dir_view [OF laws D(2), of fs2 r fs' out]
          by (auto simp: commit_replace_dir_def replace_outcome_def Let_def)
      next
        case (Inl e)
        then have kept: "view fs2 backup = view fs out" "view fs2 out = None"
          using 2 d(5) [OF D(1,3) ne(2)] D aside by auto
        obtain r3 fs3 where 3: "os_rename os backup out fs2 = (r3, fs3)"
          by (cases "os_rename os backup out fs2")
        obtain r4 fs4 where 4: "remove_dir_all_if_exists os staged fs3 = (r4, fs4)"
          by (cases "remove_dir_all_if_exists os staged fs3")
        have "view fs4 x = view fs3 x" if "x \<in> {out, backup}" for x
          using remove_dir_view [OF laws D(1) 4, of x] that D ne by auto
        moreover have "view fs3 out = view fs out \<or> view fs3 out = None \<and> view fs3 backup = view fs out"
          using 3 kept D ne d(2) [OF D(2,3) ne(3), of fs2 _ fs3] d(5) [OF D(2,3) ne(3), of fs2 _ fs3]
          by (cases r3) auto
        moreover have "fs' = fs4" "\<not> is_ok r"
          using r True ex 1 2 3 4 \<open>r1 = Inr u\<close> Inl
          by (auto simp: commit_replace_dir_def Let_def split: sum.splits)
        ultimately show ?thesis
          by (auto simp: replace_outcome_def)
      qed
    qed
  qed
qed

lemma bytes_text_inverse: "text_bytes (bytes_text b) = b"
proof -
  have "of_char (char_of (unat w)) = w" for w :: u8
  proof -
    have "unat w < 256"
      using unat_bound [of w] by simp
    then have "of_nat (of_char (char_of (unat w))) = w"
      by simp
    then show ?thesis
      by (metis of_nat_of_char)
  qed
  then show ?thesis
    by (simp add: text_bytes_def bytes_text_def o_def)
qed

lemma rev_takeWhile_name:
  assumes "CHR ''/'' \<notin> set n" "p = [] \<or> last p = CHR ''/''"
  shows "rev (takeWhile (\<lambda>c. c \<noteq> CHR ''/'') (rev (p @ n))) = n"
proof -
  have "takeWhile (\<lambda>c. c \<noteq> CHR ''/'') (rev n @ rev p) = rev n @ takeWhile (\<lambda>c. c \<noteq> CHR ''/'') (rev p)"
    using assms(1) by (intro takeWhile_append2) auto
  moreover have "takeWhile (\<lambda>c. c \<noteq> CHR ''/'') (rev p) = []"
    using assms(2) by (cases p rule: rev_cases) auto
  ultimately show ?thesis
    by simp
qed

lemma path_file_name_join:
  assumes "CHR ''/'' \<notin> set n" "n \<noteq> []" "n \<noteq> ''..''"
  shows "path_file_name (path_join base n) = Some n"
proof -
  have "hd n \<noteq> CHR ''/''"
    using assms(1,2) hd_in_set by metis
  then obtain p where "path_join base n = p @ n" "p = [] \<or> last p = CHR ''/''"
    by (cases "base = [] \<or> last base = CHR ''/''") (auto simp: path_join_def intro: that [of "base @ ''/''"])
  then show ?thesis
    using rev_takeWhile_name [OF assms(1), of p] assms(2,3) by (simp add: path_file_name_def)
qed

definition staging_path :: "release_ports \<Rightarrow> string \<Rightarrow> string \<Rightarrow> string" where
  "staging_path ports parent name = path_join parent (staged_dir_name name (rp_pid ports) (rp_staging_nonce ports))"

definition backup_path :: "release_ports \<Rightarrow> string \<Rightarrow> string \<Rightarrow> string" where
  "backup_path ports parent name = path_join parent (backup_dir_name name (rp_pid ports) (rp_backup_nonce ports))"

lemma digit_char_not_slash: "d < 10 \<Longrightarrow> digit_char d \<noteq> CHR ''/''"
proof -
  have "list_all (\<lambda>d. digit_char d \<noteq> CHR ''/'') [0..<10]"
    by code_simp
  then show "d < 10 \<Longrightarrow> digit_char d \<noteq> CHR ''/''"
    by (simp add: list_all_iff)
qed

lemma show_nat_no_slash: "CHR ''/'' \<notin> set (show_nat n)"
proof
  assume "CHR ''/'' \<in> set (show_nat n)"
  then obtain d where "d < 10" "CHR ''/'' = digit_char d"
    using digits_of_show_nat [of n] by auto
  then show False
    using digit_char_not_slash by metis
qed

lemma output_place_name:
  assumes "output_place out = Inr (parent, name)"
  shows "path_file_name out = Some name" "CHR ''/'' \<notin> set name"
  using assms by (auto simp: output_place_def path_file_name_def Let_def dest: set_takeWhileD split: option.splits if_splits)

lemma release_dirs_distinct:
  assumes "output_place out = Inr (parent, name)"
  shows "staging_path ports parent name \<noteq> backup_path ports parent name" "staging_path ports parent name \<noteq> out"
    "backup_path ports parent name \<noteq> out"
proof -
  let ?s = "staged_dir_name name (rp_pid ports) (rp_staging_nonce ports)"
  let ?b = "backup_dir_name name (rp_pid ports) (rp_backup_nonce ports)"
  have s: "CHR ''/'' \<notin> set ?s" "?s \<noteq> []" "?s \<noteq> ''..''" "?s \<noteq> name" and b: "CHR ''/'' \<notin> set ?b" "?b \<noteq> []" "?b \<noteq> ''..''" "?b \<noteq> name"
    using output_place_name(2) [OF assms] show_nat_no_slash
    by (auto simp: staged_dir_name_def backup_dir_name_def msg_def dest: arg_cong [of _ _ length])
  have "?s \<noteq> ?b"
    by (simp add: staged_dir_name_def backup_dir_name_def msg_def)
  then show "staging_path ports parent name \<noteq> backup_path ports parent name" "staging_path ports parent name \<noteq> out"
      "backup_path ports parent name \<noteq> out"
    using path_file_name_join [OF s(1-3), of parent] path_file_name_join [OF b(1-3), of parent]
      output_place_name(1) [OF assms] s(4) b(4) by (auto simp: staging_path_def backup_path_def)
qed

lemma write_files_view:
  assumes laws: "lawful_dirs os view D" "p \<in> D" and names: "\<forall>(n, b) \<in> set files. CHR ''/'' \<notin> set n"
    and w: "write_files os p files fs = (r, fs')"
  shows "x \<in> D \<Longrightarrow> x \<noteq> p \<Longrightarrow> view fs' x = view fs x"
    and "is_ok r \<Longrightarrow> view fs p = Some m \<Longrightarrow> view fs' p = Some (m ++ map_of (rev (map (\<lambda>(n, b). (n, bytes_text b)) files)))"
proof -
  have "(\<forall>x \<in> D. x \<noteq> p \<longrightarrow> view fs' x = view fs x) \<and> (is_ok r \<longrightarrow> (\<forall>m. view fs p = Some m \<longrightarrow>
      view fs' p = Some (m ++ map_of (rev (map (\<lambda>(n, b). (n, bytes_text b)) files)))))"
    using names w
  proof (induction files arbitrary: fs)
    case (Cons f files)
    obtain n b where f: "f = (n, b)"
      by (cases f)
    obtain r1 fs1 where 1: "os_write os (path_join p n) (bytes_text b) fs = (r1, fs1)"
      by (cases "os_write os (path_join p n) (bytes_text b) fs")
    have n: "CHR ''/'' \<notin> set n"
      using Cons.prems(1) f by simp
    have others: "\<forall>x \<in> D. x \<noteq> p \<longrightarrow> view fs1 x = view fs x"
      using lawful_dirsD(10) [OF laws n 1] by blast
    show ?case
    proof (cases r1)
      case (Inl e)
      then show ?thesis
        using Cons.prems(2) 1 f others by (auto simp: write_out_file_def)
    next
      case (Inr u)
      then have rest: "write_files os p files fs1 = (r, fs')"
        using Cons.prems(2) 1 f by (simp add: write_out_file_def)
      have "view fs1 p = Some (m(n \<mapsto> bytes_text b))" if "view fs p = Some m" for m
        using lawful_dirsD(9) [OF laws n 1 [unfolded Inr] that] .
      then show ?thesis
        using Cons.IH [OF _ rest] Cons.prems(1) others f by (simp add: map_add_assoc)
    qed
  qed simp
  then show "x \<in> D \<Longrightarrow> x \<noteq> p \<Longrightarrow> view fs' x = view fs x"
    "is_ok r \<Longrightarrow> view fs p = Some m \<Longrightarrow> view fs' p = Some (m ++ map_of (rev (map (\<lambda>(n, b). (n, bytes_text b)) files)))"
    by blast+
qed

lemma release_file_names:
  "\<forall>(n, b) \<in> set (release_files codec im). CHR ''/'' \<notin> set n" "distinct (map fst (release_files codec im))"
  "RELEASE_MANIFEST_FILE \<notin> fst ` set (release_files codec im)" "CHR ''/'' \<notin> set RELEASE_MANIFEST_FILE"
  by (cases codec; simp add: release_files_def CENTROIDS_FILE_def PROJECTION_FILE_def CODEBOOK_FILE_def QJL_FILE_def
      ROTATION_FILE_def TURBO_STATIC_FILE_def META_FILE_def TEXT_FILE_def TITLE_FILE_def META_EXT_FILE_def DOCID_FILE_def
      META_JSON_FILE_def RELEASE_MANIFEST_FILE_def)+

definition release_tree :: "release_codec \<Rightarrow> image \<Rightarrow> string \<Rightarrow> string \<Rightarrow> string option" where
  "release_tree codec im json =
     (map_of (map (\<lambda>(n, b). (n, bytes_text b)) (release_files codec im)))(RELEASE_MANIFEST_FILE \<mapsto> json)"

text \<open>What the manifest of a release says of its files and its content.\<close>

definition manifest_describes ::
  "release_ports \<Rightarrow> static_release_format \<Rightarrow> embedding_profile \<Rightarrow> release_source \<Rightarrow> nat \<Rightarrow> release_codec \<Rightarrow> image \<Rightarrow>
     release_manifest \<Rightarrow> bool" where
  "manifest_describes ports fmt profile source n codec im manifest \<longleftrightarrow>
     (let sha256 = re_sha256 (rp_env ports)
      in rm_schema_version manifest = 1 \<and> Some (map of_name (rm_outputs manifest)) = release_output_files (format_version fmt) \<and>
         (\<forall>out \<in> set (rm_outputs manifest). \<exists>b. (of_name out, b) \<in> set (release_files codec im) \<and>
            of_sha256 out = sha256_hex sha256 b \<and> of_size_bytes out = of_nat (length b)) \<and>
         rm_turbo_version manifest = format_version fmt \<and> rm_profile manifest = profile \<and> rm_source manifest = source \<and>
         rm_fingerprint manifest = \<lparr> fp_doc_count = of_nat n, fp_content_digest = content_digest sha256 (im_rows im) \<rparr> \<and>
         release_manifest_codec (rp_quoted ports) codec = Some (Inr (rm_codec manifest)) \<and>
         rm_release_id manifest = derive_release_id sha256 (format_version fmt) profile (rm_codec manifest)
           (content_digest sha256 (im_rows im)) (rm_outputs manifest))"

lemma output_files_no_slash:
  "release_output_files v = Some names \<Longrightarrow> n \<in> set names \<Longrightarrow> CHR ''/'' \<notin> set n \<and> n \<noteq> RELEASE_MANIFEST_FILE"
  by (auto simp: release_output_files_def V3_RELEASE_OUTPUT_FILES_def V4_RELEASE_OUTPUT_FILES_def CENTROIDS_FILE_def
      PROJECTION_FILE_def CODEBOOK_FILE_def QJL_FILE_def ROTATION_FILE_def TURBO_STATIC_FILE_def META_FILE_def
      TEXT_FILE_def TITLE_FILE_def META_EXT_FILE_def DOCID_FILE_def META_JSON_FILE_def RELEASE_MANIFEST_FILE_def
      split: if_splits)

lemma map_of_rev_distinct: "distinct (map fst xs) \<Longrightarrow> map_of (rev xs) = map_of xs"
  by (subst map_of_inject_set) (simp_all add: rev_map [symmetric])

lemma describe_output_ok:
  assumes laws: "lawful_dirs os view D" "p \<in> D" and v: "view fs p = Some (map_of (map (\<lambda>(n, b). (n, bytes_text b)) files))"
    and n: "CHR ''/'' \<notin> set name" and d: "describe_output ports os p fs name = Inr out"
  shows "of_name out = name \<and> (\<exists>b. (name, b) \<in> set files \<and> of_sha256 out = sha256_hex (re_sha256 (rp_env ports)) b \<and>
    of_size_bytes out = of_nat (length b))"
proof -
  obtain c where c: "os_read os (path_join p name) fs = Inr c"
    and out: "out = \<lparr> of_name = name, of_sha256 = sha256_hex (re_sha256 (rp_env ports)) (text_bytes c),
                      of_size_bytes = of_nat (length (text_bytes c)) \<rparr>"
    using d by (auto simp: describe_output_def Let_def map_ok_Inr_iff map_err_Inr_iff)
  have "map_of (map (\<lambda>(n, b). (n, bytes_text b)) files) name = Some c"
    using lawful_dirsD(11) [OF laws n v c] .
  then obtain b where b: "(name, b) \<in> set files" "c = bytes_text b"
    by (auto dest!: map_of_SomeD)
  have "text_bytes c = b"
    by (simp add: b(2) bytes_text_inverse)
  then show ?thesis
    using b(1) out by auto
qed

lemma describe_release_ok:
  assumes laws: "lawful_dirs os view D" "staged \<in> D"
    and v: "view fs staged = Some (map_of (map (\<lambda>(n, b). (n, bytes_text b)) (release_files codec im)))"
    and d: "describe_release ports os staged fmt codec im n profile source fs = Some (Inr (manifest, json))"
  shows "manifest_describes ports fmt profile source n codec im manifest" "rp_manifest_json ports manifest = Inr json"
proof -
  obtain names outputs sec where r: "release_output_files (format_version fmt) = Some names"
    "collect_outputs ports os staged names fs = Inr outputs"
    "release_manifest_codec (rp_quoted ports) codec = Some (Inr sec)"
    "manifest = make_manifest ports (format_version fmt) profile source n (im_rows im) sec outputs"
    "rp_manifest_json ports manifest = Inr json"
    using d by (auto simp: describe_release_def Let_def result_simps split: option.splits sum.splits)
  have o: "list_all2 (\<lambda>name out. describe_output ports os staged fs name = Inr out) names outputs"
    using r(2) by (simp add: collect_outputs_def try_map_Inr_iff)
  have each: "of_name out = name \<and> (\<exists>b. (name, b) \<in> set (release_files codec im) \<and>
      of_sha256 out = sha256_hex (re_sha256 (rp_env ports)) b \<and> of_size_bytes out = of_nat (length b))"
    if "name \<in> set names" "describe_output ports os staged fs name = Inr out" for name out
    using describe_output_ok [OF laws v _ that(2)] output_files_no_slash [OF r(1) that(1)] by blast
  have "list_all2 (\<lambda>name out. of_name out = name \<and> (\<exists>b. (name, b) \<in> set (release_files codec im) \<and>
      of_sha256 out = sha256_hex (re_sha256 (rp_env ports)) b \<and> of_size_bytes out = of_nat (length b))) names outputs"
    by (rule list.rel_mono_strong [OF o]) (rule each)
  then have "map of_name outputs = names" "\<forall>out \<in> set outputs. \<exists>b. (of_name out, b) \<in> set (release_files codec im) \<and>
      of_sha256 out = sha256_hex (re_sha256 (rp_env ports)) b \<and> of_size_bytes out = of_nat (length b)"
    by (induction names outputs rule: list_all2_induct) auto
  then show "manifest_describes ports fmt profile source n codec im manifest"
    using r by (simp add: manifest_describes_def make_manifest_def Let_def)
  show "rp_manifest_json ports manifest = Inr json"
    by (rule r(5))
qed

lemma aborting_view:
  assumes "lawful_dirs os view D" "staged \<in> D" "aborting os staged e fs = (r, fs')"
  shows "\<not> is_ok r" "x \<in> D \<Longrightarrow> x \<noteq> staged \<Longrightarrow> view fs' x = view fs x"
  using assms(3) remove_dir_view [OF assms(1,2), of fs _ fs' x]
  by (auto simp: aborting_def split: prod.splits)

lemma stage_release_others:
  assumes laws: "lawful_dirs os view D" "staged \<in> D" and x: "x \<in> D" "x \<noteq> staged"
    and s: "stage_release ports os staged fmt codec im n profile source fs = Some (r, fs')"
  shows "view fs' x = view fs x"
proof -
  obtain r1 fs1 where 1: "write_files os staged (release_files codec im) fs = (r1, fs1)"
    by (cases "write_files os staged (release_files codec im) fs")
  have v1: "view fs1 x = view fs x"
    using write_files_view(1) [OF laws release_file_names(1) 1 x] .
  have abort: "view fs2 x = view fs3 x" if "aborting os staged e fs3 = (r, fs2)" for e fs2 fs3
    using aborting_view(2) [OF laws that x] .
  show ?thesis
  proof (cases r1)
    case (Inl e)
    then show ?thesis
      using s 1 v1 abort by (auto simp: stage_release_def)
  next
    case (Inr u)
    show ?thesis
    proof (cases "describe_release ports os staged fmt codec im n profile source fs1")
      case None
      then show ?thesis
        using s 1 Inr by (simp add: stage_release_def)
    next
      case (Some d)
      show ?thesis
      proof (cases d)
        case (Inl e)
        then show ?thesis
          using s 1 v1 \<open>r1 = Inr u\<close> Some abort by (auto simp: stage_release_def)
      next
        case (Inr mj)
        obtain manifest json where mj: "mj = (manifest, json)"
          by (cases mj)
        obtain r2 fs2 where 2: "os_write os (path_join staged RELEASE_MANIFEST_FILE) json fs1 = (r2, fs2)"
          by (cases "os_write os (path_join staged RELEASE_MANIFEST_FILE) json fs1")
        have v2: "view fs2 x = view fs1 x"
          using lawful_dirsD(10) [OF laws release_file_names(4) 2 x] .
        show ?thesis
          using s 1 v1 2 v2 \<open>r1 = Inr u\<close> Some Inr mj abort by (auto simp: stage_release_def split: sum.splits)
      qed
    qed
  qed
qed

lemma stage_release_ok:
  assumes laws: "lawful_dirs os view D" "staged \<in> D" and v: "view fs staged = Some Map.empty"
    and s: "stage_release ports os staged fmt codec im n profile source fs = Some (Inr manifest, fs')"
  shows "\<exists>json. manifest_describes ports fmt profile source n codec im manifest \<and>
    rp_manifest_json ports manifest = Inr json \<and> view fs' staged = Some (release_tree codec im json)"
proof -
  obtain u fs1 json w where 1: "write_files os staged (release_files codec im) fs = (Inr u, fs1)"
    and d: "describe_release ports os staged fmt codec im n profile source fs1 = Some (Inr (manifest, json))"
    and 2: "os_write os (path_join staged RELEASE_MANIFEST_FILE) json fs1 = (Inr w, fs')"
    using s by (auto simp: stage_release_def aborting_def split: prod.splits sum.splits option.splits)
  have "distinct (map fst (map (\<lambda>(n, b). (n, bytes_text b)) (release_files codec im)))"
    using release_file_names(2) by (simp add: o_def case_prod_beta)
  then have "view fs1 staged = Some (map_of (map (\<lambda>(n, b). (n, bytes_text b)) (release_files codec im)))"
    using write_files_view(2) [OF laws release_file_names(1) 1 _ v] by (simp add: map_of_rev_distinct)
  then show ?thesis
    using describe_release_ok [OF laws _ d] lawful_dirsD(9) [OF laws release_file_names(4) 2]
    by (auto simp: release_tree_def)
qed

text \<open>What a build of a release returns, by the steps it has gone through.\<close>

lemma build_release_cases:
  assumes "build_release ports os fmt out docs embeddings profile source fs = Some (r, fs')"
    and "output_place out = Inr (parent, name)"
  obtains (rejected) e where "r = Inl e" "fs' = fs"
  | (unstaged) e0 where "\<not> is_ok r" "staged_create os parent name (rp_pid ports) (rp_staging_nonce ports) fs = (Inl e0, fs')"
  | (abandoned) codec im staged fs1 e where "r = Inl e"
      "staged_create os parent name (rp_pid ports) (rp_staging_nonce ports) fs = (Inr staged, fs1)"
      "stage_release ports os staged fmt codec im (length docs) profile source fs1 = Some (Inl e, fs')"
  | (replaced) codec im staged fs1 manifest fs2 c where
      "release_image (rp_quoted ports) (rp_env ports) fmt docs embeddings (ep_dim profile) = Some (Inr (codec, im))"
      "staged_create os parent name (rp_pid ports) (rp_staging_nonce ports) fs = (Inr staged, fs1)"
      "stage_release ports os staged fmt codec im (length docs) profile source fs1 = Some (Inr manifest, fs2)"
      "replace_output_dir ports os staged out fs2 = (c, fs')" "r = map_ok (\<lambda>_. manifest) c"
proof -
  obtain res where ri: "release_image (rp_quoted ports) (rp_env ports) fmt docs embeddings (ep_dim profile) = Some res"
    using assms(1) by (auto simp: build_release_def split: option.splits)
  show ?thesis
  proof (cases res)
    case (Inl e)
    then show ?thesis
      using assms(1) ri rejected by (auto simp: build_release_def)
  next
    case (Inr ci)
    obtain codec im where ci: "ci = (codec, im)"
      by (cases ci)
    obtain r1 fs1 where c: "staged_create os parent name (rp_pid ports) (rp_staging_nonce ports) fs = (r1, fs1)"
      by (cases "staged_create os parent name (rp_pid ports) (rp_staging_nonce ports) fs")
    show ?thesis
    proof (cases r1)
      case (Inl e)
      then show ?thesis
        using assms ri Inr ci c by (intro unstaged [of e]) (auto simp: build_release_def)
    next
      case (Inr staged)
      obtain r2 fs2 where s: "stage_release ports os staged fmt codec im (length docs) profile source fs1 = Some (r2, fs2)"
        using assms ri \<open>res = Inr ci\<close> ci c Inr by (auto simp: build_release_def split: option.splits prod.splits)
      show ?thesis
      proof (cases r2)
        case (Inl e)
        show ?thesis
          by (rule abandoned [of e staged fs1 codec im]) (use assms ri \<open>res = Inr ci\<close> ci c \<open>r1 = Inr staged\<close> s Inl in
            \<open>auto simp: build_release_def\<close>)
      next
        case (Inr manifest)
        obtain c2 fs3 where p: "replace_output_dir ports os staged out fs2 = (c2, fs3)"
          by (cases "replace_output_dir ports os staged out fs2")
        show ?thesis
          by (rule replaced [of codec im staged fs1 manifest fs2 c2])
            (use assms ri \<open>res = Inr ci\<close> ci c \<open>r1 = Inr staged\<close> s Inr p in
              \<open>auto simp: build_release_def split: sum.splits\<close>)
      qed
    qed
  qed
qed

lemma build_release_outcome:
  assumes "build_release ports os fmt out docs embeddings profile source fs = Some (r, fs')"
    and "output_place out = Inr (parent, name)"
    and "lawful_dirs os view {staging_path ports parent name, backup_path ports parent name, out}"
    and "view fs (staging_path ports parent name) = None"
  shows "case r of
      Inr manifest \<Rightarrow> \<exists>codec im json.
        release_image (rp_quoted ports) (rp_env ports) fmt docs embeddings (ep_dim profile) = Some (Inr (codec, im)) \<and>
        manifest_describes ports fmt profile source (length docs) codec im manifest \<and>
        rp_manifest_json ports manifest = Inr json \<and> view fs' out = Some (release_tree codec im json)
    | Inl e \<Rightarrow> view fs' out = view fs out \<or>
        (\<exists>codec im json. release_image (rp_quoted ports) (rp_env ports) fmt docs embeddings (ep_dim profile) =
           Some (Inr (codec, im)) \<and> view fs' out = Some (release_tree codec im json)) \<or>
        view fs' out = None \<and> view fs' (backup_path ports parent name) = view fs out"
  using assms(1,2)
proof (cases rule: build_release_cases)
  let ?s = "staging_path ports parent name" and ?b = "backup_path ports parent name"
  note laws = assms(3) and ne = release_dirs_distinct [OF assms(2), of ports]
  have created: "view fs1 out = view fs out" "view fs1 ?b = view fs ?b"
      "is_ok c \<Longrightarrow> c = Inr ?s \<and> view fs1 ?s = Some Map.empty"
    if "staged_create os parent name (rp_pid ports) (rp_staging_nonce ports) fs = (c, fs1)" for c fs1
    using that lawful_dirsD(7,8) [OF laws, of ?s fs] ne assms(4)
    by (auto simp: staged_create_def staging_path_def Let_def split: prod.splits sum.splits)
  {
    case (rejected e)
    then show ?thesis
      by simp
  next
    case (unstaged e0)
    then show ?thesis
      using created(1) by (cases r) auto
  next
    case (abandoned codec im staged fs1 e)
    then show ?thesis
      using created(1,3) [OF abandoned(2)] stage_release_others [OF laws, of ?s out] ne by auto
  next
    case (replaced codec im staged fs1 manifest fs2 c)
    have st: "staged = ?s" "view fs1 ?s = Some Map.empty"
      using created(3) [OF replaced(2)] by simp_all
    obtain json where j: "manifest_describes ports fmt profile source (length docs) codec im manifest"
        "rp_manifest_json ports manifest = Inr json" "view fs2 ?s = Some (release_tree codec im json)"
      using stage_release_ok [OF laws _ st(2) replaced(3) [unfolded st(1)]] by auto
    have kept: "view fs2 out = view fs out" "view fs2 ?b = view fs ?b"
      using created(1,2) [OF replaced(2)] stage_release_others [OF laws, of ?s] replaced(3) st(1) ne by auto
    have "commit_replace_dir os ?s ?b out fs2 = (c, fs')"
      using replaced(4) assms(2) st(1) by (simp add: replace_output_dir_def backup_path_def)
    then have "replace_outcome view ?s ?b out fs2 fs' (is_ok c)"
      using swap_outcome [OF laws _ _ _ ne(1,2,3) refl] lawful_dirsD(1) [OF laws, of out] by auto
    then show ?thesis
      using replaced(1,5) j kept by (cases c) (auto simp: replace_outcome_def)
  }
qed

text \<open>
  C30. Building a release replaces the output directory as a whole or leaves it
  alone.  On success the directory holds exactly the files of the image and the manifest, and the
  manifest lists the files of the format with the digests and sizes of what is in the directory,
  and an id derived from them.  On any failure the directory is what it was, or the complete new
  release (only the backup could not be removed), or it is absent and the previous release is
  whole in the backup directory.
\<close>

theorem build_release_atomic:
  assumes "build_release ports os fmt out docs embeddings profile source fs = Some (r, fs')"
    and "output_place out = Inr (parent, name)"
    and "lawful_dirs os view {staging_path ports parent name, backup_path ports parent name, out}"
    and "view fs (staging_path ports parent name) = None"
  shows "case r of
      Inr manifest \<Rightarrow> \<exists>codec im json.
        release_image (rp_quoted ports) (rp_env ports) fmt docs embeddings (ep_dim profile) = Some (Inr (codec, im)) \<and>
        manifest_describes ports fmt profile source (length docs) codec im manifest \<and>
        rp_manifest_json ports manifest = Inr json \<and> view fs' out = Some (release_tree codec im json)
    | Inl e \<Rightarrow> view fs' out = view fs out \<or>
        (\<exists>codec im json. release_image (rp_quoted ports) (rp_env ports) fmt docs embeddings (ep_dim profile) =
           Some (Inr (codec, im)) \<and> view fs' out = Some (release_tree codec im json)) \<or>
        view fs' out = None \<and> view fs' (backup_path ports parent name) = view fs out"
  by (rule build_release_outcome [OF assms])

text \<open>A mapping of the files of a directory: every file is mapped whole, at an aligned address.\<close>

definition maps_directory :: "mapper \<Rightarrow> 'f dir_view \<Rightarrow> 'f \<Rightarrow> string \<Rightarrow> bool" where
  "maps_directory files view fs dir \<longleftrightarrow>
     (\<forall>tree name bytes. view fs dir = Some tree \<longrightarrow> tree name = Some bytes \<longrightarrow>
        (\<exists>a. files (path_join dir name) = Inr \<lparr> mm_bytes = text_bytes bytes, mm_address = a \<rparr> \<and> 8 dvd a))"

lemma release_tree_file:
  assumes "(n, b) \<in> set (release_files codec im)"
  shows "release_tree codec im json n = Some (bytes_text b)"
proof -
  have "distinct (map fst (map (\<lambda>(n, b). (n, bytes_text b)) (release_files codec im)))"
    using release_file_names(2) by (simp add: o_def case_prod_beta)
  moreover have "(n, bytes_text b) \<in> set (map (\<lambda>(n, b). (n, bytes_text b)) (release_files codec im))"
    using assms by force
  moreover have "n \<noteq> RELEASE_MANIFEST_FILE"
    using release_file_names(3) assms by force
  ultimately show ?thesis
    unfolding release_tree_def by (simp add: map_of_eq_Some_iff)
qed

lemma release_tree_serves:
  assumes "maps_directory files view fs out" "view fs out = Some (release_tree codec im json)"
  shows "serves files out (release_files codec im)"
proof -
  have "\<exists>a. files (path_join out n) = Inr \<lparr> mm_bytes = b, mm_address = a \<rparr> \<and> 8 dvd a" if "(n, b) \<in> set (release_files codec im)" for n b
    using assms release_tree_file [OF that] unfolding maps_directory_def by (metis bytes_text_inverse)
  then show ?thesis
    by (auto simp: serves_def)
qed

text \<open>
  A release that was built and published loads from its directory: on a file
  system with atomic renames, after a successful build the index loaded from the output directory
  has one record per chunk, and at every index the text, title, document id and canonical
  metadata of the chunk.
\<close>

theorem published_release_loads:
  assumes "build_release ports os fmt out docs embeddings profile source fs = Some (Inr manifest, fs')"
    and "output_place out = Inr (parent, name)"
    and "lawful_dirs os view {staging_path ports parent name, backup_path ports parent name, out}"
    and "view fs (staging_path ports parent name) = None"
    and "maps_directory files view fs' out" and "\<forall>b. length (re_sha256 (rp_env ports) b) = 32"
    and "length docs < 2 ^ 32" and "\<forall>c \<in> set docs. chunk_fits (rp_env ports) c"
  shows "\<exists>m. mmap_load (re_sha256 (rp_env ports)) files out = Some (Inr m) \<and> mmap_record_count m = length docs \<and>
    (\<forall>i < length docs.
       mmap_text m i = Some (Inr (sc_text (docs ! i))) \<and> mmap_title m i = Some (Inr (chunk_title (docs ! i))) \<and>
       original_doc_id m i = Some (Inr (Some (sc_doc_id (docs ! i)))) \<and>
       metadata_json m i =
         Some (Inr (Some (bytes_text (canonical_metadata_json (rp_env ports) (sc_metadata (docs ! i)))))))"
proof -
  obtain codec im json where
    r: "release_image (rp_quoted ports) (rp_env ports) fmt docs embeddings (ep_dim profile) = Some (Inr (codec, im))"
    and v: "view fs' out = Some (release_tree codec im json)"
    using build_release_outcome [OF assms(1-4)] by auto
  show ?thesis
  proof (rule release_written [OF r release_tree_serves [OF assms(5) v] assms(6-8)])
    fix header
    assume w: "written (rp_quoted ports) (rp_env ports) codec header im files out docs embeddings" "docs \<noteq> []"
    obtain m where m: "mmap_load (re_sha256 (rp_env ports)) files out = Some (Inr m)" "holds_image codec im header m"
      by (rule written_loads [OF w(1)])
    then show ?thesis
      using held_texts(1) [OF m(2) w(1), of 0] held_texts(4,5) [OF m(2) w(1)] held_sidecars [OF m(2) w(1)] w(2)
      by (intro exI [of _ m]) simp
  qed
qed


section \<open>A release built on a small file system\<close>

type_synonym flat_fs = "string \<Rightarrow> (string \<Rightarrow> string option) option"

text \<open>A file system of flat directories whose calls fail only where a directory or file is missing.\<close>

definition split_path :: "string \<Rightarrow> (string \<times> string) option" where
  "split_path p = Option.bind (path_parent p) (\<lambda>dir. map_option (Pair dir) (path_file_name p))"

definition flat_os :: "flat_fs os_ops" where
  "flat_os = \<lparr>os_is_dir = (\<lambda>p f. f p \<noteq> None), os_exists = (\<lambda>p f. f p \<noteq> None), os_read_dir = (\<lambda>p f. Inr []),
     os_create_dir_all = (\<lambda>p f. (Inr (), f(p \<mapsto> (case f p of None \<Rightarrow> Map.empty | Some m \<Rightarrow> m)))),
     os_copy = (\<lambda>_ _ f. (Inl ''unsupported'', f)),
     os_read = (\<lambda>p f. case Option.bind (split_path p) (\<lambda>(d, n). Option.bind (f d) (\<lambda>m. m n)) of
        Some c \<Rightarrow> Inr c | None \<Rightarrow> Inl NotFound),
     os_write = (\<lambda>p c f. case Option.bind (split_path p) (\<lambda>(d, n). map_option (\<lambda>m. f(d \<mapsto> m(n \<mapsto> c))) (f d)) of
        Some f' \<Rightarrow> (Inr (), f') | None \<Rightarrow> (Inl ''no such directory'', f)),
     os_rename = (\<lambda>p q f. case f p of Some m \<Rightarrow> (Inr (), f(q \<mapsto> m, p := None)) | None \<Rightarrow> (Inl ''no such directory'', f)),
     os_remove_dir_all = (\<lambda>p f. (Inr (), f(p := None))),
     os_remove_file = (\<lambda>p f. (Inl ''unsupported'', f))\<rparr>"

definition plain_dir :: "string \<Rightarrow> bool" where
  "plain_dir p \<longleftrightarrow> p \<noteq> [] \<and> last p \<noteq> CHR ''/''"

lemma split_path_join:
  assumes "plain_dir p" "CHR ''/'' \<notin> set n"
  shows "split_path (path_join p n) = (if n = [] \<or> n = ''..'' then None else Some (p, n))"
proof -
  have j: "path_join p n = (p @ ''/'') @ n"
    using assms by (cases n) (auto simp: path_join_def plain_dir_def)
  have name: "rev (takeWhile (\<lambda>c. c \<noteq> CHR ''/'') (rev ((p @ ''/'') @ n))) = n"
    using assms(2) by (intro rev_takeWhile_name) auto
  have "dropWhile (\<lambda>c. c \<noteq> CHR ''/'') (rev n @ CHR ''/'' # rev p) = CHR ''/'' # rev p"
    using assms(2) by (subst dropWhile_append2) auto
  then have "path_parent ((p @ ''/'') @ n) = Some p"
    using assms(1) by (auto simp: path_parent_def plain_dir_def Let_def)
  then show ?thesis
    unfolding j split_path_def path_file_name_def name by simp
qed

lemma flat_lawful:
  assumes "\<forall>p \<in> D. plain_dir p"
  shows "lawful_dirs flat_os (\<lambda>f. f) D"
proof -
  have "write_law flat_os (\<lambda>f. f) D" "read_law flat_os (\<lambda>f. f) D"
    using assms by (auto simp: write_law_def read_law_def flat_os_def split_path_join split: option.splits if_splits)
  then show ?thesis
    by (auto simp: lawful_dirs_def exists_law_def rename_law_def remove_law_def create_law_def flat_os_def
        split: option.splits)
qed

lemma flat_write:
  assumes "plain_dir p" "CHR ''/'' \<notin> set n" "n \<noteq> []" "n \<noteq> ''..''" "f p = Some m"
  shows "os_write flat_os (path_join p n) c f = (Inr (), f(p \<mapsto> m(n \<mapsto> c)))"
    and "os_read flat_os (path_join p n) f = (case m n of Some c \<Rightarrow> Inr c | None \<Rightarrow> Inl NotFound)"
  using assms by (simp_all add: flat_os_def split_path_join)

definition proper_name :: "string \<Rightarrow> bool" where
  "proper_name n \<longleftrightarrow> CHR ''/'' \<notin> set n \<and> n \<noteq> [] \<and> n \<noteq> ''..''"

lemma flat_write_files:
  assumes "plain_dir p" "\<forall>(n, b) \<in> set contents. proper_name n" "f p = Some m"
  shows "\<exists>f' m'. write_files flat_os p contents f = (Inr (), f') \<and> f' p = Some m' \<and> (\<forall>x. x \<noteq> p \<longrightarrow> f' x = f x) \<and>
    (\<forall>n. m n \<noteq> None \<or> n \<in> fst ` set contents \<longrightarrow> m' n \<noteq> None)"
  using assms(2,3)
proof (induction contents arbitrary: f m)
  case (Cons nb contents)
  obtain n b where nb: "nb = (n, b)"
    by (cases nb)
  have "os_write flat_os (path_join p n) (bytes_text b) f = (Inr (), f(p \<mapsto> m(n \<mapsto> bytes_text b)))"
    using Cons.prems assms(1) nb by (intro flat_write(1)) (auto simp: proper_name_def)
  moreover obtain f' m' where "write_files flat_os p contents (f(p \<mapsto> m(n \<mapsto> bytes_text b))) = (Inr (), f')" "f' p = Some m'"
      "\<forall>x. x \<noteq> p \<longrightarrow> f' x = f x" "\<forall>k. (m(n \<mapsto> bytes_text b)) k \<noteq> None \<or> k \<in> fst ` set contents \<longrightarrow> m' k \<noteq> None"
    using Cons.IH [of "f(p \<mapsto> m(n \<mapsto> bytes_text b))" "m(n \<mapsto> bytes_text b)"] Cons.prems(1) by fastforce
  ultimately show ?case
    by (auto simp: nb write_out_file_def)
qed simp

lemma try_map_returns: "(\<And>x. x \<in> set xs \<Longrightarrow> \<exists>y. f x = Inr y) \<Longrightarrow> \<exists>ys. try_map f xs = Inr ys"
  by (induction xs) fastforce+

lemma v3_release_names:
  "set V3_RELEASE_OUTPUT_FILES = fst ` set (release_files (ReleaseV3 c centroids projection) im)"
  "\<forall>(n, b) \<in> set (release_files (ReleaseV3 c centroids projection) im). proper_name n" "proper_name RELEASE_MANIFEST_FILE"
  "\<forall>n \<in> set V3_RELEASE_OUTPUT_FILES. proper_name n"
  by (auto simp: V3_RELEASE_OUTPUT_FILES_def release_files_def proper_name_def CENTROIDS_FILE_def PROJECTION_FILE_def
      TURBO_STATIC_FILE_def META_FILE_def TEXT_FILE_def TITLE_FILE_def META_EXT_FILE_def DOCID_FILE_def
      META_JSON_FILE_def RELEASE_MANIFEST_FILE_def)

definition demo_ports :: release_ports where
  "demo_ports = \<lparr> rp_env = demo_env, rp_quoted = (\<lambda>s. s), rp_manifest_json = (\<lambda>m. Inr ''{}''), rp_not_found = ''not found'',
     rp_pid = 1, rp_staging_nonce = 2, rp_backup_nonce = 3 \<rparr>"

definition demo_source :: release_source where
  "demo_source = \<lparr> rs_kind = ''lance'', rs_dataset_path = ''/data'', rs_table_version = 1, rs_table_row_count = 1,
     rs_corpus_type = Legal \<rparr>"

definition demo_profile :: embedding_profile where
  "demo_profile = \<lparr> ep_model_id = ''m'', ep_dim = 512 \<rparr>"

lemma demo_place:
  "output_place ''/r/live'' = Inr (''/r'', ''live'')" "staging_path demo_ports ''/r'' ''live'' = ''/r/.live-staging-1-2''"
  "backup_path demo_ports ''/r'' ''live'' = ''/r/.live-backup-1-3''"
  by code_simp+

lemma v3_stages:
  assumes p: "plain_dir p" "f p = Some Map.empty"
  shows "\<exists>manifest f' m. stage_release demo_ports flat_os p FormatV3 (ReleaseV3 legacy_v1 centroids projection) im n
      demo_profile demo_source f = Some (Inr manifest, f') \<and> f' p = Some m \<and> (\<forall>x. x \<noteq> p \<longrightarrow> f' x = f x)"
proof -
  let ?codec = "ReleaseV3 legacy_v1 centroids projection"
  have "\<exists>f1 m1. write_files flat_os p (release_files ?codec im) f = (Inr (), f1) \<and> f1 p = Some m1 \<and>
      (\<forall>x. x \<noteq> p \<longrightarrow> f1 x = f x) \<and> (\<forall>n. (Map.empty :: string \<Rightarrow> string option) n \<noteq> None \<or> n \<in> fst ` set (release_files ?codec im) \<longrightarrow> m1 n \<noteq> None)"
    by (rule flat_write_files [where p = p and f = f and m = Map.empty and contents = "release_files ?codec im"])
      (rule p v3_release_names(2))+
  then obtain f1 m1 where 1: "write_files flat_os p (release_files ?codec im) f = (Inr (), f1)" "f1 p = Some m1"
      "\<forall>x. x \<noteq> p \<longrightarrow> f1 x = f x" "\<forall>n. (Map.empty :: string \<Rightarrow> string option) n \<noteq> None \<or> n \<in> fst ` set (release_files ?codec im) \<longrightarrow> m1 n \<noteq> None"
    by (elim exE conjE) (rule that)
  have "\<exists>y. describe_output demo_ports flat_os p f1 name = Inr y" if "name \<in> set V3_RELEASE_OUTPUT_FILES" for name
    using that 1(2,4) v3_release_names(1) v3_release_names(4) flat_write(2) [OF p(1), of name f1 m1]
    by (auto simp: describe_output_def proper_name_def)
  then obtain outputs where o: "collect_outputs demo_ports flat_os p V3_RELEASE_OUTPUT_FILES f1 = Inr outputs"
    using try_map_returns unfolding collect_outputs_def by blast
  obtain sec where c: "release_manifest_codec (rp_quoted demo_ports) ?codec = Some (Inr sec)"
  proof -
    have "validate_config legacy_v1 = Inr ()" "cfg_codec_id legacy_v1 = Legacy3BitV1"
      unfolding validate_config_ok_iff by (simp_all add: legacy_v1_def)
    then have "\<exists>c. to_v3_codec_metadata legacy_v1 = Some (Inr c)"
      by (simp add: to_v3_codec_metadata_def legacy_centroids_per_dim)
    then show ?thesis
      using that by auto
  qed
  define manifest where "manifest = make_manifest demo_ports TURBO_VERSION_V3 demo_profile demo_source n (im_rows im) sec outputs"
  have "describe_release demo_ports flat_os p FormatV3 ?codec im n demo_profile demo_source f1 =
      Some (Inr (manifest, ''{}''))"
    using o c by (simp add: describe_release_def release_output_files_def manifest_def Let_def demo_ports_def
        del: release_manifest_codec.simps)
  moreover have "os_write flat_os (path_join p RELEASE_MANIFEST_FILE) ''{}'' f1 =
      (Inr (), f1(p \<mapsto> m1(RELEASE_MANIFEST_FILE \<mapsto> ''{}'')))"
    using v3_release_names(3) 1(2) p(1) by (intro flat_write(1)) (auto simp: proper_name_def)
  ultimately show ?thesis
    using 1 by (simp add: stage_release_def)
qed

lemma demo_release_published:
  obtains manifest f' where
    "build_release demo_ports flat_os FormatV3 ''/r/live'' [law_chunk] [replicate 512 f32_one] demo_profile demo_source
       (\<lambda>_. None) = Some (Inr manifest, f')"
    "lawful_dirs flat_os (\<lambda>f. f) {staging_path demo_ports ''/r'' ''live'', backup_path demo_ports ''/r'' ''live'', ''/r/live''}"
proof -
  let ?s = "''/r/.live-staging-1-2''"
  have "check_release_input FormatV3 [law_chunk] [replicate 512 f32_one] 512 = Inr ()"
    by (rule demo_accepted)
  then obtain centroids projection im where ri: "release_image (\<lambda>s. s) demo_env FormatV3 [law_chunk] [replicate 512 f32_one] 512 =
      Some (Inr (ReleaseV3 legacy_v1 centroids projection, im))"
    using v3_builds_legacy by blast
  have place: "staged_create flat_os ''/r'' ''live'' (rp_pid demo_ports) (rp_staging_nonce demo_ports) (\<lambda>_. None) =
      (Inr ?s, (\<lambda>_. None)(?s \<mapsto> Map.empty))"
    using demo_place(2) by (simp add: staged_create_def staging_path_def flat_os_def Let_def)
  have "plain_dir ?s"
    by (simp add: plain_dir_def)
  then obtain manifest f1 m where st: "stage_release demo_ports flat_os ?s FormatV3 (ReleaseV3 legacy_v1 centroids projection) im
      (length [law_chunk]) demo_profile demo_source ((\<lambda>_. None)(?s \<mapsto> Map.empty)) = Some (Inr manifest, f1)"
      "f1 ?s = Some m" "\<forall>x. x \<noteq> ?s \<longrightarrow> f1 x = None"
    using v3_stages [of ?s "(\<lambda>_. None)(?s \<mapsto> Map.empty)" centroids projection im "length [law_chunk]"] by auto
  have "replace_output_dir demo_ports flat_os ?s ''/r/live'' f1 = (Inr (), f1(''/r/live'' \<mapsto> m, ?s := None))"
    using st(2,3) by (simp add: replace_output_dir_def demo_place commit_replace_dir_def flat_os_def Let_def)
  then have "build_release demo_ports flat_os FormatV3 ''/r/live'' [law_chunk] [replicate 512 f32_one] demo_profile demo_source
       (\<lambda>_. None) = Some (Inr manifest, f1(''/r/live'' \<mapsto> m, ?s := None))"
    using ri place st(1) by (simp add: build_release_def demo_place demo_ports_def demo_profile_def)
  then show ?thesis
    using flat_lawful by (intro that) (auto simp: demo_place plain_dir_def)
qed

lemma release_tree_names: "release_tree codec im json n \<noteq> None \<Longrightarrow> proper_name n"
proof -
  assume "release_tree codec im json n \<noteq> None"
  then have "n = RELEASE_MANIFEST_FILE \<or> n \<in> fst ` set (release_files codec im)"
    by (auto simp: release_tree_def image_image case_prod_beta dest!: map_of_SomeD split: if_splits)
  moreover have "\<forall>m \<in> fst ` set (release_files codec im). proper_name m"
    by (cases codec) (auto simp: release_files_def proper_name_def CENTROIDS_FILE_def PROJECTION_FILE_def
        CODEBOOK_FILE_def QJL_FILE_def ROTATION_FILE_def TURBO_STATIC_FILE_def META_FILE_def TEXT_FILE_def TITLE_FILE_def
        META_EXT_FILE_def DOCID_FILE_def META_JSON_FILE_def)
  ultimately show ?thesis
    using v3_release_names(3) by blast
qed

definition flat_mapper :: "flat_fs \<Rightarrow> mapper" where
  "flat_mapper f path =
     (case Option.bind (split_path path) (\<lambda>(d, n). Option.bind (f d) (\<lambda>m. m n)) of
        Some c \<Rightarrow> Inr \<lparr> mm_bytes = text_bytes c, mm_address = 4096 \<rparr>
      | None \<Rightarrow> Inl ''not found'')"

lemma flat_maps:
  assumes "plain_dir d" "f d = Some (release_tree codec im json)"
  shows "maps_directory (flat_mapper f) (\<lambda>f. f) f d"
  using assms(2) split_path_join [OF assms(1)] release_tree_names [of codec im json]
  by (fastforce simp: maps_directory_def flat_mapper_def proper_name_def)

lemma build_release_atomic_witness:
  "\<exists>manifest f' codec im json.
     build_release demo_ports flat_os FormatV3 ''/r/live'' [law_chunk] [replicate 512 f32_one] demo_profile demo_source
       (\<lambda>_. None) = Some (Inr manifest, f') \<and>
     manifest_describes demo_ports FormatV3 demo_profile demo_source 1 codec im manifest \<and>
     f' ''/r/live'' = Some (release_tree codec im json)"
proof (rule demo_release_published)
  fix manifest f'
  assume b: "build_release demo_ports flat_os FormatV3 ''/r/live'' [law_chunk] [replicate 512 f32_one] demo_profile demo_source
       (\<lambda>_. None) = Some (Inr manifest, f')"
    and l: "lawful_dirs flat_os (\<lambda>f. f) {staging_path demo_ports ''/r'' ''live'', backup_path demo_ports ''/r'' ''live'', ''/r/live''}"
  show ?thesis
    using build_release_atomic [OF b demo_place(1) l] b by auto
qed

lemma published_release_loads_witness:
  "\<exists>manifest f' m.
     build_release demo_ports flat_os FormatV3 ''/r/live'' [law_chunk] [replicate 512 f32_one] demo_profile demo_source
       (\<lambda>_. None) = Some (Inr manifest, f') \<and>
     mmap_load (re_sha256 demo_env) (flat_mapper f') ''/r/live'' = Some (Inr m) \<and> mmap_record_count m = 1 \<and>
     mmap_text m 0 = Some (Inr ''Article 1'') \<and> original_doc_id m 0 = Some (Inr (Some ''law-1''))"
proof (rule demo_release_published)
  fix manifest f'
  assume b: "build_release demo_ports flat_os FormatV3 ''/r/live'' [law_chunk] [replicate 512 f32_one] demo_profile demo_source
       (\<lambda>_. None) = Some (Inr manifest, f')"
    and l: "lawful_dirs flat_os (\<lambda>f. f) {staging_path demo_ports ''/r'' ''live'', backup_path demo_ports ''/r'' ''live'', ''/r/live''}"
  obtain codec im json where "f' ''/r/live'' = Some (release_tree codec im json)"
    using build_release_outcome [OF b demo_place(1) l] by auto
  then have maps: "maps_directory (flat_mapper f') (\<lambda>f. f) f' ''/r/live''"
    by (intro flat_maps) (simp_all add: plain_dir_def)
  have env: "rp_env demo_ports = demo_env" "\<forall>b. length (re_sha256 demo_env b) = 32"
    by (simp_all add: demo_ports_def demo_env_def)
  show ?thesis
    using published_release_loads [OF b demo_place(1) l _ maps, unfolded env, OF _ env(2)] law_chunk_fits b
    by (auto simp: law_chunk_def)
qed

definition demo_output :: "string \<Rightarrow> output_file" where
  "demo_output name = \<lparr> of_name = name, of_sha256 = replicate 64 CHR ''0'', of_size_bytes = 9 \<rparr>"

lemma release_id_exact_witness:
  "release_id_input 3 demo_profile (CodecV3 \<lparr> cm_dim = 512, cm_centroids_per_dim = 4, cm_centroids_seed = 7,
       cm_projection_seed = 11 \<rparr>) ''digest'' [demo_output ''b'', demo_output ''a''] =
     release_id_input 3 demo_profile (CodecV3 \<lparr> cm_dim = 512, cm_centroids_per_dim = 4, cm_centroids_seed = 7,
       cm_projection_seed = 11 \<rparr>) ''digest'' [demo_output ''a'', demo_output ''b''] \<and>
   release_id_input 3 demo_profile (CodecV3 \<lparr> cm_dim = 512, cm_centroids_per_dim = 4, cm_centroids_seed = 7,
       cm_projection_seed = 11 \<rparr>) ''digest'' [demo_output ''a''] \<noteq>
     release_id_input 3 demo_profile (CodecV3 \<lparr> cm_dim = 512, cm_centroids_per_dim = 4, cm_centroids_seed = 7,
       cm_projection_seed = 12 \<rparr>) ''digest'' [demo_output ''a'']"
proof -
  have ok: "id_fields_ok 3 demo_profile (CodecV3 \<lparr> cm_dim = 512, cm_centroids_per_dim = 4, cm_centroids_seed = 7,
       cm_projection_seed = s \<rparr>) ''digest'' outs" if "set outs \<subseteq> {demo_output ''a'', demo_output ''b''}" for s outs
    using that by (auto simp: id_fields_ok_def demo_profile_def codec_names_fit_def output_fits_def demo_output_def
        TURBO_VERSION_V3_def)
  have sorted: "sort_outputs [demo_output ''b'', demo_output ''a''] = sort_outputs [demo_output ''a'', demo_output ''b'']"
    by code_simp
  show ?thesis
    using release_id_exact [OF ok ok, of "[demo_output ''b'', demo_output ''a'']" "[demo_output ''a'', demo_output ''b'']" 11 11]
      release_id_exact [OF ok ok, of "[demo_output ''a'']" "[demo_output ''a'']" 11 12] sorted by simp
qed

end
