(* ===== verification/Turbo_Search.thy ===== *)
theory Turbo_Search
  imports Static_Release Ranking Context
begin

text \<open>
  Scanning a loaded static index for the best records
  (\<^verbatim>\<open>src/query/turbo_searcher.rs\<close>): the parallel bounded top-K, the dispatch on the record
  layout, and the hits with their texts.  A parallel reduction is a tree of runs over consecutive
  records; how \<^verbatim>\<open>rayon\<close> splits is an argument, and so is the parser of metadata documents.  A
  panic is \<^term>\<open>None\<close>.
\<close>


section \<open>Candidates and their order\<close>

record ranked_result =
  rr_score :: f32
  rr_doc_id :: u64
  rr_record_index :: nat

text \<open>Descending score in the total order of \<^verbatim>\<open>f32\<close>, then ascending id.\<close>

datatype hit_key = HitKey (hk_score: f32) (hk_doc_id: u64)

instantiation hit_key :: linorder
begin

definition less_eq_hit_key :: "hit_key \<Rightarrow> hit_key \<Rightarrow> bool" where
  "less_eq_hit_key a b \<longleftrightarrow>
     f32_total_key (hk_score b) < f32_total_key (hk_score a) \<or>
     hk_score a = hk_score b \<and> hk_doc_id a \<le> hk_doc_id b"

definition less_hit_key :: "hit_key \<Rightarrow> hit_key \<Rightarrow> bool" where
  "less_hit_key a b \<longleftrightarrow>
     f32_total_key (hk_score b) < f32_total_key (hk_score a) \<or>
     hk_score a = hk_score b \<and> hk_doc_id a < hk_doc_id b"

instance
proof
  fix x y z :: hit_key
  show "x < y \<longleftrightarrow> x \<le> y \<and> \<not> y \<le> x"
    by (auto simp: less_eq_hit_key_def less_hit_key_def)
  show "x \<le> x"
    by (simp add: less_eq_hit_key_def)
  show "x \<le> y \<Longrightarrow> y \<le> z \<Longrightarrow> x \<le> z"
    by (auto simp: less_eq_hit_key_def)
  show "x \<le> y \<Longrightarrow> y \<le> x \<Longrightarrow> x = y"
    by (cases x; cases y) (auto simp: less_eq_hit_key_def)
  show "x \<le> y \<or> y \<le> x"
    using f32_total_key_inj [of "hk_score x" "hk_score y"] by (fastforce simp: less_eq_hit_key_def)
qed

end

definition rank_of :: "ranked_result \<Rightarrow> hit_key" where
  "rank_of r = HitKey (rr_score r) (rr_doc_id r)"

definition compare_ranked_results :: "ranked_result \<Rightarrow> ranked_result \<Rightarrow> ordering" where
  "compare_ranked_results left right =
     then_with (f32_total_cmp (rr_score right) (rr_score left)) (cmp_ord (rr_doc_id left) (rr_doc_id right))"

interpretation ranked_order: key_comparator compare_ranked_results rank_of
proof
  fix x y
  show "compare_ranked_results x y = cmp_ord (rank_of x) (rank_of y)"
    using f32_total_key_inj [of "rr_score x" "rr_score y"]
    by (auto simp: compare_ranked_results_def f32_total_cmp_def cmp_ord_def rank_of_def less_hit_key_def)
qed


section \<open>The bounded heap\<close>

text \<open>
  A \<^verbatim>\<open>BinaryHeap\<close> is the list of its elements in their order, best first: it pops the last.
  Which of several equal elements is popped is not determined; they have the same score and id.
\<close>

definition push_bounded :: "ranked_result list \<Rightarrow> ranked_result \<Rightarrow> nat \<Rightarrow> ranked_result list" where
  "push_bounded heap candidate k =
     (if length heap < k then insert_by compare_ranked_results candidate heap
      else if heap = [] \<or> compare_ranked_results candidate (last heap) = Less
      then insert_by compare_ranked_results candidate (butlast heap)
      else heap)"

definition fold_run :: "nat \<Rightarrow> ranked_result list \<Rightarrow> ranked_result list" where
  "fold_run k run = foldl (\<lambda>heap candidate. push_bounded heap candidate k) [] run"

definition merge_heaps :: "nat \<Rightarrow> ranked_result list \<Rightarrow> ranked_result list \<Rightarrow> ranked_result list" where
  "merge_heaps k left right = foldl (\<lambda>heap candidate. push_bounded heap candidate k) left right"

text \<open>
  How the records are split and the partial heaps combined: runs of consecutive records, joined
  in order, with empty heaps anywhere.
\<close>

datatype 'a reduction = Run "'a list" | Join "'a reduction" "'a reduction" | Identity

fun items :: "'a reduction \<Rightarrow> 'a list" where
  "items (Run xs) = xs"
| "items (Join l r) = items l @ items r"
| "items Identity = []"

fun reduce_heaps :: "nat \<Rightarrow> ranked_result reduction \<Rightarrow> ranked_result list" where
  "reduce_heaps k (Run xs) = fold_run k xs"
| "reduce_heaps k (Join l r) = merge_heaps k (reduce_heaps k l) (reduce_heaps k r)"
| "reduce_heaps k Identity = []"

type_synonym scheduler = "ranked_result list \<Rightarrow> ranked_result reduction"

text \<open>A scheduler keeps the records and their order.\<close>

definition schedules :: "scheduler \<Rightarrow> bool" where
  "schedules sched \<longleftrightarrow> (\<forall>xs. items (sched xs) = xs)"

definition scored :: "('r \<Rightarrow> (u64 \<times> f32) option) \<Rightarrow> 'r list \<Rightarrow> ranked_result list option" where
  "scored score_record records =
     those (map (\<lambda>(i, r). map_option (\<lambda>(doc, score). \<lparr> rr_score = score, rr_doc_id = doc, rr_record_index = i \<rparr>)
         (score_record r))
       (zip [0..<length records] records))"

definition scan_top_k ::
  "scheduler \<Rightarrow> 'r list \<Rightarrow> nat \<Rightarrow> ('r \<Rightarrow> (u64 \<times> f32) option) \<Rightarrow> ranked_result list option" where
  "scan_top_k sched records k score_record =
     map_option (\<lambda>candidates. reduce_heaps k (sched candidates)) (scored score_record records)"


section \<open>A search\<close>

record search_ports =
  sp_scheduler :: scheduler
  sp_quoted :: "string \<Rightarrow> string"
  sp_parse_metadata :: "string \<Rightarrow> metadata option"

definition scan_index ::
  "search_ports \<Rightarrow> mmap_index \<Rightarrow> f32 list \<Rightarrow> nat \<Rightarrow> (search_error + ranked_result list) option" where
  "scan_index ports m query k =
     Option.bind (mmap_records m) (\<lambda>records.
       case (records, mi_codec m) of
         (SliceV2 rs, LegacyAssets centroids projection) \<Rightarrow>
           (case prepare_turbo_query query centroids projection of
              Inl e \<Rightarrow> Some (Inl (SearchExecution (''failed to prepare turbo query: '' @ show_asset_error e)))
            | Inr prepared \<Rightarrow>
                map_option Inr (scan_top_k (sp_scheduler ports) rs k (\<lambda>r. Some (tr_doc_id r, turbo_score prepared r))))
       | (SliceV4 rs, ProdAssets codec) \<Rightarrow>
           Option.bind (prepare_prod_query codec query) (\<lambda>p.
             case p of
               Inl e \<Rightarrow> Some (Inl (SearchExecution (''failed to prepare turbo query: '' @ show_prod_error (sp_quoted ports) e)))
             | Inr prepared \<Rightarrow>
                 map_option Inr (scan_top_k (sp_scheduler ports) rs k
                   (\<lambda>r. map_option (Pair (pr_doc_id r)) (prod_score prepared (record_code r)))))
       | _ \<Rightarrow> Some (Inl (SearchExecution ''static index records and codec are of different versions'')))"

text \<open>The id and the metadata of a hit: from the sidecars where the version has them.\<close>

definition hit_identity ::
  "search_ports \<Rightarrow> mmap_index \<Rightarrow> ranked_result \<Rightarrow> (search_error + string \<times> metadata option) option" where
  "hit_identity ports m c =
     (if has_sidecars (mi_layout m)
      then panic_then (map_option (map_err (\<lambda>e. SearchExecution (''failed to read static index doc_id: '' @
              show_mmap_error (sp_quoted ports) e))) (original_doc_id m (rr_record_index c))) (\<lambda>original.
        map_option (\<lambda>json. Inr
            (case original of Some doc \<Rightarrow> doc | None \<Rightarrow> show_nat (unat (rr_doc_id c)),
             case json of Inr (Some text) \<Rightarrow> sp_parse_metadata ports text | _ \<Rightarrow> None))
          (metadata_json m (rr_record_index c)))
      else Some (Inr (show_nat (unat (rr_doc_id c)), None)))"

definition hit_citation ::
  "mmap_index \<Rightarrow> ranked_result \<Rightarrow> corpus_type \<Rightarrow> string \<Rightarrow> metadata option \<Rightarrow> citation option option" where
  "hit_citation m c ct doc metadata =
     (case Option.bind metadata citation_from_metadata of
        Some citation \<Rightarrow> Some (Some citation)
      | None \<Rightarrow> map_option (\<lambda>title.
            case title of
              Inr (Some t) \<Rightarrow> Some \<lparr> resource_id = doc, source_type = corpus_type_label (Some ct), source_ref = doc,
                                    cit_title = Some t, cit_url = None \<rparr>
            | _ \<Rightarrow> None)
          (mmap_title m (rr_record_index c)))"

definition hit_of :: "search_ports \<Rightarrow> mmap_index \<Rightarrow> ranked_result \<Rightarrow> (search_error + search_result) option" where
  "hit_of ports m c =
     Option.bind (mmap_meta m (rr_record_index c)) (\<lambda>meta.
       let ct = corpus_type_from_id (mr_corpus_type meta)
       in panic_then (map_option (map_err (\<lambda>e. SearchExecution (''failed to read static index text: '' @
              show_mmap_error (sp_quoted ports) e))) (mmap_text m (rr_record_index c))) (\<lambda>text.
          panic_then (hit_identity ports m c) (\<lambda>(doc, metadata).
          map_option (\<lambda>citation. Inr
              \<lparr> res_doc_id = doc, res_score = rr_score c, res_text = text, res_metadata = metadata, res_source = Static,
                res_chunk_source = StaticChunk, res_corpus_type = Some ct, res_citation = citation \<rparr>)
            (hit_citation m c ct doc metadata))))"

fun collect_hits :: "('a \<Rightarrow> ('e + 'b) option) \<Rightarrow> 'a list \<Rightarrow> ('e + 'b list) option" where
  "collect_hits f [] = Some (Inr [])"
| "collect_hits f (x # xs) =
     panic_then (f x) (\<lambda>y. map_option (map_ok (Cons y)) (collect_hits f xs))"

definition turbo_search ::
  "search_ports \<Rightarrow> mmap_index \<Rightarrow> f32 list \<Rightarrow> nat \<Rightarrow> (search_error + search_result list) option" where
  "turbo_search ports m query k =
     panic_then (Some (and_then (validate_query_embedding query) (\<lambda>_.
         and_then (validate_embedding_dim query (unat (th_dim (mi_header m)))) (\<lambda>_. validate_top_k k)))) (\<lambda>_.
     panic_then (scan_index ports m query k) (\<lambda>heap.
       collect_hits (hit_of ports m) (sort_by compare_ranked_results heap)))"


section \<open>The scan finds the best, however it is split\<close>

lemma insort_length [simp]: "length (insort x s) = Suc (length s)"
  by (induction s) auto

lemma take_insort:
  assumes "sorted s"
  shows "take k (insort x (take k s)) = take k (insort x s)"
  using assms
proof (induction s arbitrary: k)
  case (Cons y s)
  show ?case
  proof (cases k)
    case (Suc k')
    then show ?thesis
      using Cons by (cases "x \<le> y") (simp_all add: take_Cons')
  qed simp
qed simp

lemma sorted_unique: "sorted xs \<Longrightarrow> sorted ys \<Longrightarrow> mset xs = mset ys \<Longrightarrow> xs = ys"
  by (metis properties_for_sort)

lemma insort_last:
  assumes "sorted s" "s \<noteq> []"
  shows "take (length s) (insort x s) = (if x < last s then insort x (butlast s) else s)"
proof -
  obtain t y where s: "s = t @ [y]"
    using assms(2) append_butlast_last_id by metis
  show ?thesis
  proof (cases "x < y")
    case True
    have "\<forall>z \<in> set (insort x t). z \<le> y"
      using assms(1) True by (auto simp: s sorted_append set_insort_key)
    then have "insort x s = insort x t @ [y]"
      using assms(1) by (intro sorted_unique) (simp_all add: s sorted_append sorted_insort)
    then show ?thesis
      using True by (simp add: s)
  next
    case False
    then have "insort x s = s @ [x]"
      using assms(1) by (intro sorted_unique) (auto simp: s sorted_append sorted_insort)
    then show ?thesis
      using False by (simp add: s)
  qed
qed

text \<open>The first \<open>k\<close> in order, as a function of the elements alone.\<close>

definition best :: "nat \<Rightarrow> 'k::linorder list \<Rightarrow> 'k list" where
  "best k xs = take k (sort xs)"

lemma best_insort: "take k (insort x (best k xs)) = best k (x # xs)"
  by (simp add: best_def take_insort)

lemma best_perm: "mset xs = mset ys \<Longrightarrow> best k xs = best k ys"
  unfolding best_def by (metis properties_for_sort mset_sort sorted_sort)

lemma best_append_left: "best k (best k xs @ ys) = best k (xs @ ys)"
proof (induction ys)
  case Nil
  then show ?case
    by (simp add: best_def sorted_sort_id sorted_wrt_take)
next
  case (Cons y ys)
  have "best k (zs @ y # ys) = take k (insort y (best k (zs @ ys)))" for zs
    unfolding best_insort by (rule best_perm) simp
  then show ?case
    using Cons.IH by simp
qed

lemma best_append: "best k (best k xs @ best k ys) = best k (xs @ ys)"
proof -
  have "best k (best k xs @ best k ys) = best k (xs @ best k ys)"
    by (rule best_append_left)
  also have "\<dots> = best k (best k ys @ xs)"
    by (rule best_perm) simp
  also have "\<dots> = best k (ys @ xs)"
    by (rule best_append_left)
  also have "\<dots> = best k (xs @ ys)"
    by (rule best_perm) simp
  finally show ?thesis .
qed

lemma map_insert_by: "map rank_of (insert_by compare_ranked_results c h) = insort (rank_of c) (map rank_of h)"
  unfolding ranked_order.insert_by_insort by (induction h) auto

definition heap_bound :: "nat \<Rightarrow> nat" where
  "heap_bound k = max 1 k"

definition heap_ok :: "nat \<Rightarrow> ranked_result list \<Rightarrow> bool" where
  "heap_ok k h \<longleftrightarrow> sorted (map rank_of h) \<and> length h \<le> heap_bound k"

lemma push_bounded_ranks:
  assumes "heap_ok k h"
  shows "map rank_of (push_bounded h c k) = take (heap_bound k) (insort (rank_of c) (map rank_of h))"
proof (cases "length h < k")
  case True
  then show ?thesis
    by (simp add: push_bounded_def map_insert_by heap_bound_def)
next
  case False
  show ?thesis
  proof (cases "h = []")
    case True
    then show ?thesis
      using False by (simp add: push_bounded_def heap_bound_def)
  next
    case h: False
    have l: "heap_bound k = length h"
      using assms False h by (cases h) (auto simp: heap_ok_def heap_bound_def)
    have less: "compare_ranked_results c (last h) = Less \<longleftrightarrow> rank_of c < last (map rank_of h)"
      using h by (simp add: ranked_order.cmp_key cmp_ord_def last_map)
    show ?thesis
      using insort_last [of "map rank_of h" "rank_of c"] assms h False
      unfolding push_bounded_def less l by (simp add: heap_ok_def map_insert_by map_butlast)
  qed
qed

lemma push_bounded_ok: "heap_ok k h \<Longrightarrow> heap_ok k (push_bounded h c k)"
  unfolding heap_ok_def using push_bounded_ranks [unfolded heap_ok_def, of h k c]
  by (auto simp: sorted_wrt_take sorted_insort dest: arg_cong [of _ _ length])

lemma foldl_push_ranks:
  assumes "heap_ok k h"
  shows "heap_ok k (foldl (\<lambda>heap c. push_bounded heap c k) h cs) \<and>
    map rank_of (foldl (\<lambda>heap c. push_bounded heap c k) h cs) = best (heap_bound k) (map rank_of (h @ cs))"
  using assms
proof (induction cs arbitrary: h)
  case Nil
  then show ?case
    by (simp add: best_def heap_ok_def sorted_sort_id)
next
  case (Cons c cs)
  have ok: "heap_ok k (push_bounded h c k)"
    by (rule push_bounded_ok [OF Cons.prems])
  have b: "map rank_of h = best (heap_bound k) (map rank_of h)"
    using Cons.prems by (simp add: best_def heap_ok_def sorted_sort_id)
  have "map rank_of (push_bounded h c k) = best (heap_bound k) (rank_of c # map rank_of h)"
    using push_bounded_ranks [OF Cons.prems] b best_insort by metis
  then have "best (heap_bound k) (map rank_of (push_bounded h c k) @ map rank_of cs) =
      best (heap_bound k) (rank_of c # map rank_of h @ map rank_of cs)"
    using best_append_left [of "heap_bound k" "rank_of c # map rank_of h" "map rank_of cs"] by simp
  also have "\<dots> = best (heap_bound k) (map rank_of (h @ c # cs))"
    by (rule best_perm) simp
  finally show ?case
    using Cons.IH [OF ok] by simp
qed

lemma reduce_heaps_ranks:
  "heap_ok k (reduce_heaps k plan) \<and> map rank_of (reduce_heaps k plan) = best (heap_bound k) (map rank_of (items plan))"
proof (induction plan)
  case (Run xs)
  have "heap_ok k []"
    by (simp add: heap_ok_def)
  then show ?case
    using foldl_push_ranks [of k "[]" xs] by (simp add: fold_run_def)
next
  case (Join l r)
  then show ?case
    using foldl_push_ranks [of k "reduce_heaps k l" "reduce_heaps k r"] best_append [of "heap_bound k"]
    by (simp add: merge_heaps_def)
next
  case Identity
  then show ?case
    by (simp add: heap_ok_def best_def)
qed

text \<open>Nothing is invented: the heap holds candidates, each at most as often as there are.\<close>

lemma push_bounded_subset: "mset (push_bounded h c k) \<subseteq># add_mset c (mset h)"
proof -
  have "mset (butlast h) \<subseteq># mset h"
    by (cases h rule: rev_cases) auto
  then show ?thesis
    by (auto simp: push_bounded_def)
qed

lemma foldl_push_subset: "mset (foldl (\<lambda>heap c. push_bounded heap c k) h cs) \<subseteq># mset h + mset cs"
proof (induction cs arbitrary: h)
  case (Cons c cs)
  have "mset (foldl (\<lambda>heap c. push_bounded heap c k) (push_bounded h c k) cs) \<subseteq># mset (push_bounded h c k) + mset cs"
    by (rule Cons.IH)
  also have "\<dots> \<subseteq># add_mset c (mset h) + mset cs"
    by (rule subset_mset.add_right_mono [OF push_bounded_subset])
  finally show ?case
    by simp
qed simp

lemma reduce_heaps_subset: "mset (reduce_heaps k plan) \<subseteq># mset (items plan)"
proof (induction plan)
  case (Run xs)
  then show ?case
    using foldl_push_subset [of k "[]" xs] by (simp add: fold_run_def)
next
  case (Join l r)
  have "mset (reduce_heaps k (Join l r)) \<subseteq># mset (reduce_heaps k l) + mset (reduce_heaps k r)"
    using foldl_push_subset [of k "reduce_heaps k l" "reduce_heaps k r"] by (simp add: merge_heaps_def)
  also have "\<dots> \<subseteq># mset (items (Join l r))"
    using Join by (simp add: subset_mset.add_mono)
  finally show ?case .
qed simp

text \<open>
  C34. The parallel scan is the sequential top-K: however the records are split into
  runs and the partial heaps are combined, the scores and document hashes it returns, in order,
  are the first \<open>k\<close> of all records sorted by descending score and ascending hash; a
  \<open>k\<close> of zero acts as one.
\<close>

theorem scan_is_exact_top_k:
  assumes "schedules sched" and "scored score_record records = Some candidates"
  shows "\<exists>heap. scan_top_k sched records k score_record = Some heap \<and>
    map rank_of heap = take (max 1 k) (sort (map rank_of candidates)) \<and> mset heap \<subseteq># mset candidates"
proof -
  have i: "items (sched candidates) = candidates"
    using assms(1) by (simp add: schedules_def)
  show ?thesis
    using reduce_heaps_ranks [of k "sched candidates"] reduce_heaps_subset [of k "sched candidates"] assms(2)
    by (simp add: scan_top_k_def i best_def heap_bound_def)
qed

lemma top_before_rest:
  fixes key :: "'a \<Rightarrow> 'k::linorder"
  assumes "map key heap = take k (sort (map key xs))" "mset heap \<subseteq># mset xs" "x \<in> set xs" "x \<notin> set heap" "y \<in> set heap"
  shows "key y \<le> key x"
proof -
  define s where "s = sort (map key xs)"
  obtain R where R: "mset xs = mset heap + R"
    using assms(2) by (metis mset_subset_eq_exists_conv)
  have "image_mset key (mset xs) = mset (take k s) + mset (drop k s)"
    unfolding s_def by (metis append_take_drop_id mset_append mset_map mset_sort)
  moreover have "image_mset key (mset xs) = mset (take k s) + image_mset key R"
    using assms(1) R unfolding s_def by (metis image_mset_union mset_map)
  ultimately have rest: "image_mset key R = mset (drop k s)"
    by simp
  have "x \<in># R"
    using assms(3,4) R by (metis in_multiset_in_set union_iff)
  then have "key x \<in> set (drop k s)"
    using rest by (metis imageI set_image_mset set_mset_mset)
  moreover have "key y \<in> set (take k s)"
    using assms(1,5) unfolding s_def by (metis image_eqI set_map)
  moreover have "sorted (take k s @ drop k s)"
    by (simp add: s_def)
  ultimately show ?thesis
    unfolding sorted_append by blast
qed


section \<open>A search on a loaded index\<close>

lemma prepare_prod_shapes:
  assumes ok: "prod_ok p"
  shows "prepare_prod_query p q \<noteq> None"
    and "prepare_prod_query p q = Some (Inr prepared) \<Longrightarrow>
      length (pp_lut prepared) = unat (cfg_dim (tp_config p)) \<and>
      length (pq_projected (pp_qjl prepared)) = unat (qjl_qjl_dim (tp_qjl p))"
    and "length q = unat (cfg_dim (tp_config p)) \<Longrightarrow> \<exists>prepared. prepare_prod_query p q = Some (Inr prepared)"
proof -
  have shape: "\<exists>prepared. prepare_prod_query p q = Some (Inr prepared) \<and>
      length (pp_lut prepared) = unat (cfg_dim (tp_config p)) \<and>
      length (pq_projected (pp_qjl prepared)) = unat (qjl_qjl_dim (tp_qjl p))"
    if l: "length q = unat (cfg_dim (tp_config p))"
  proof -
    define y where "y = map (\<lambda>row. dot row q) (chunks_exact (length q) (rot_matrix (tp_rotation p)))"
    have r: "rotate_vec (tp_rotation p) q (length q) = Inr y"
      using ok l by (simp add: rotate_vec_ok_iff y_def prod_ok_def)
    then have ly: "length y = unat (cfg_dim (tp_config p))"
      using rotate_vec_length [OF _ r] ok by (simp add: prod_ok_def)
    have "length (chunks_exact (length y) (qjl_values (tp_qjl p))) = unat (qjl_qjl_dim (tp_qjl p))"
      using ok ly by (subst length_chunks_exact) (auto simp: prod_ok_def qjl_ok_def unat_eq_zero)
    then show ?thesis
      using r ok l ly by (simp add: prepare_prod_query_def prod_check_len_def Let_def prod_ok_def prepare_qjl_query_def
          check_len_def)
  qed
  then show "length q = unat (cfg_dim (tp_config p)) \<Longrightarrow> \<exists>prepared. prepare_prod_query p q = Some (Inr prepared)"
    by blast
  have other: "prepare_prod_query p q = Some (Inl e)" if "prod_check_len p (length q) = Inl e" for e
    using that by (simp add: prepare_prod_query_def)
  have "length q = unat (cfg_dim (tp_config p)) \<or> (\<exists>e. prod_check_len p (length q) = Inl e)"
    by (auto simp: prod_check_len_def Let_def)
  then show "prepare_prod_query p q \<noteq> None"
    "prepare_prod_query p q = Some (Inr prepared) \<Longrightarrow>
      length (pp_lut prepared) = unat (cfg_dim (tp_config p)) \<and>
      length (pq_projected (pp_qjl prepared)) = unat (qjl_qjl_dim (tp_qjl p))"
    using shape other by force+
qed

lemma prod_score_returns:
  assumes "prod_ok p" "holds_codes_of p" "prepare_prod_query p q = Some (Inr prepared)"
    and "length (tc_idx code) = 128" "length (tc_signs code) = 64"
  shows "\<exists>v. prod_score prepared code = Some v"
  using prepare_prod_shapes(2) [OF assms(1,3)] assms(2,4,5)
  by (auto simp: prod_score_def prod_score_breakdown_def holds_codes_of_def prod_idx_len_def prod_signs_len_def
      signs_len_def qjl_estimate_def signed_sum_def)

lemma scored_map:
  assumes "\<forall>i < n. score_record (g i) = Some (d i, v i)"
  shows "scored score_record (map g [0..<n]) =
    Some (map (\<lambda>i. \<lparr> rr_score = v i, rr_doc_id = d i, rr_record_index = i \<rparr>) [0..<n])"
proof -
  have "zip [0..<n] (map g [0..<n]) = map (\<lambda>i. (i, g i)) [0..<n]"
    by (simp add: zip_map2 zip_same_conv_map)
  then have "map (\<lambda>(i, r). map_option (\<lambda>(doc, score). \<lparr> rr_score = score, rr_doc_id = doc, rr_record_index = i \<rparr>)
      (score_record r)) (zip [0..<n] (map g [0..<n])) =
    map (\<lambda>i. Some \<lparr> rr_score = v i, rr_doc_id = d i, rr_record_index = i \<rparr>) [0..<n]"
    using assms by simp
  then show ?thesis
    by (simp add: scored_def those_map_Some [of "[0..<n]", where g = "\<lambda>i. \<lparr> rr_score = v i, rr_doc_id = d i, rr_record_index = i \<rparr>"])
qed

text \<open>The bytes of a record of a loaded index, and its score under the index's codec.\<close>

definition record_bytes_at :: "mmap_index \<Rightarrow> nat \<Rightarrow> blob" where
  "record_bytes_at m i = span (mm_bytes (mi_bin m)) (HEADER_SIZE + i * 208) 208"

fun codec_score :: "index_codec \<Rightarrow> f32 list \<Rightarrow> blob \<Rightarrow> f32 option" where
  "codec_score (LegacyAssets centroids projection) q raw =
     (case prepare_turbo_query q centroids projection of
        Inl _ \<Rightarrow> None
      | Inr prepared \<Rightarrow> Some (turbo_score prepared (turbo_record_cast raw)))"
| "codec_score (ProdAssets p) q raw =
     (case prepare_prod_query p q of
        Some (Inr prepared) \<Rightarrow> prod_score prepared (record_code (prod_record_cast raw))
      | _ \<Rightarrow> None)"

definition candidate_at :: "mmap_index \<Rightarrow> f32 list \<Rightarrow> nat \<Rightarrow> ranked_result" where
  "candidate_at m q i =
     \<lparr> rr_score = the (codec_score (mi_codec m) q (record_bytes_at m i)),
       rr_doc_id = u64_from_le (span (record_bytes_at m i) 0 8), rr_record_index = i \<rparr>"

lemma length_record_bytes: "mmap_ok m \<Longrightarrow> i < mmap_record_count m \<Longrightarrow> length (record_bytes_at m i) = 208"
proof -
  assume "mmap_ok m" "i < mmap_record_count m"
  moreover from this have "(i + 1) * 208 \<le> mmap_record_count m * 208"
    by (intro mult_le_mono1) simp
  ultimately show ?thesis
    unfolding record_bytes_at_def by (intro length_span) (simp add: mmap_ok_def)
qed

definition best_candidates :: "mmap_index \<Rightarrow> f32 list \<Rightarrow> nat \<Rightarrow> ranked_result list \<Rightarrow> bool" where
  "best_candidates m q k heap \<longleftrightarrow>
     (let all = map (candidate_at m q) [0..<mmap_record_count m]
      in map rank_of heap = take (max 1 k) (sort (map rank_of all)) \<and> mset heap \<subseteq># mset all)"

lemma scan_best:
  assumes sched: "schedules sched"
    and s: "\<forall>i < mmap_record_count m. score_record (g i) =
      Some (u64_from_le (span (record_bytes_at m i) 0 8), the (codec_score (mi_codec m) q (record_bytes_at m i)))"
  shows "\<exists>heap. scan_top_k sched (map g [0..<mmap_record_count m]) k score_record = Some heap \<and> best_candidates m q k heap"
proof -
  have "scored score_record (map g [0..<mmap_record_count m]) = Some (map (candidate_at m q) [0..<mmap_record_count m])"
    using scored_map [of "mmap_record_count m" score_record g "\<lambda>i. u64_from_le (span (record_bytes_at m i) 0 8)"
        "\<lambda>i. the (codec_score (mi_codec m) q (record_bytes_at m i))"] s
    by (simp add: candidate_at_def [abs_def])
  moreover have "items (sched cs) = cs" for cs
    using sched by (simp add: schedules_def)
  ultimately show ?thesis
    using reduce_heaps_ranks [of k "sched (map (candidate_at m q) [0..<mmap_record_count m])"]
      reduce_heaps_subset [of k "sched (map (candidate_at m q) [0..<mmap_record_count m])"]
    by (simp add: scan_top_k_def best_candidates_def Let_def best_def heap_bound_def)
qed

lemma scan_index_ok:
  assumes ok: "mmap_ok m" and sched: "schedules (sp_scheduler ports)"
  shows "(\<exists>e. scan_index ports m q k = Some (Inl e)) \<or>
    (\<exists>heap. scan_index ports m q k = Some (Inr heap) \<and> best_candidates m q k heap)"
    and "length q = 512 \<Longrightarrow> \<exists>heap. scan_index ports m q k = Some (Inr heap) \<and> best_candidates m q k heap"
proof -
  have c: "codec_ok (mi_layout m) (mi_codec m)"
    using ok by (simp add: mmap_ok_def)
  have id: "u64_from_le (span (record_bytes_at m i) 0 8) = tr_doc_id (turbo_record_cast (record_bytes_at m i))"
      "u64_from_le (span (record_bytes_at m i) 0 8) = pr_doc_id (prod_record_cast (record_bytes_at m i))" for i
    by (simp_all add: turbo_record_cast_def prod_record_cast_def)
  have "((\<exists>e. scan_index ports m q k = Some (Inl e)) \<and> length q \<noteq> 512) \<or>
    (\<exists>heap. scan_index ports m q k = Some (Inr heap) \<and> best_candidates m q k heap)"
  proof (cases "mi_codec m")
    case (LegacyAssets centroids projection)
    then have v: "validate_codec_inputs 512 centroids projection = Inr ()" and "mi_layout m \<noteq> V4Dim512"
      using c by (auto simp: codec_ok_def)
    then have r: "mmap_records m = Some (SliceV2 (map (\<lambda>i. turbo_record_cast (record_bytes_at m i)) [0..<mmap_record_count m]))"
      by (simp add: mmap_records_eq [OF ok] record_bytes_at_def)
    show ?thesis
    proof (cases "prepare_turbo_query q centroids projection")
      case (Inl e)
      then have "length q \<noteq> 512"
        using prepare_turbo_query_returns [of q centroids projection] v by auto
      then show ?thesis
        using r LegacyAssets Inl by (simp add: scan_index_def)
    next
      case (Inr prepared)
      have "\<exists>heap. scan_top_k (sp_scheduler ports) (map (\<lambda>i. turbo_record_cast (record_bytes_at m i)) [0..<mmap_record_count m])
          k (\<lambda>r. Some (tr_doc_id r, turbo_score prepared r)) = Some heap \<and> best_candidates m q k heap"
        by (rule scan_best [OF sched]) (simp add: id(1) LegacyAssets Inr)
      then show ?thesis
        using r LegacyAssets Inr by (auto simp: scan_index_def)
    qed
  next
    case (ProdAssets p)
    then have p: "prod_ok p" "holds_codes_of p" and "mi_layout m = V4Dim512"
      using c by (auto simp: codec_ok_def)
    then have r: "mmap_records m = Some (SliceV4 (map (\<lambda>i. prod_record_cast (record_bytes_at m i)) [0..<mmap_record_count m]))"
      by (simp add: mmap_records_eq [OF ok] record_bytes_at_def)
    have d: "unat (cfg_dim (tp_config p)) = 512"
      using prod_ok_config(2) [OF p(1)] by simp
    obtain x where x: "prepare_prod_query p q = Some x"
      using prepare_prod_shapes(1) [OF p(1), of q] by blast
    show ?thesis
    proof (cases x)
      case (Inl e)
      then have "length q \<noteq> 512"
        using prepare_prod_shapes(3) [OF p(1), of q] d x by auto
      then show ?thesis
        using r ProdAssets Inl x by (simp add: scan_index_def)
    next
      case (Inr prepared)
      have "\<exists>v. prod_score prepared (record_code (prod_record_cast (record_bytes_at m i))) = Some v"
        if "i < mmap_record_count m" for i
        using length_record_bytes [OF ok that] x Inr
        by (intro prod_score_returns [OF p, of q]) (simp_all add: record_code_def prod_record_cast_def length_span)
      then have "\<exists>heap. scan_top_k (sp_scheduler ports) (map (\<lambda>i. prod_record_cast (record_bytes_at m i)) [0..<mmap_record_count m])
          k (\<lambda>r. map_option (Pair (pr_doc_id r)) (prod_score prepared (record_code r))) = Some heap \<and> best_candidates m q k heap"
        using x Inr by (intro scan_best [OF sched]) (fastforce simp: id(2) ProdAssets)
      then show ?thesis
        using r ProdAssets Inr x by (auto simp: scan_index_def)
    qed
  qed
  then show "(\<exists>e. scan_index ports m q k = Some (Inl e)) \<or>
      (\<exists>heap. scan_index ports m q k = Some (Inr heap) \<and> best_candidates m q k heap)"
    "length q = 512 \<Longrightarrow> \<exists>heap. scan_index ports m q k = Some (Inr heap) \<and> best_candidates m q k heap"
    by blast+
qed

lemma distinct_subset_mset:
  assumes "mset xs \<subseteq># mset ys" "distinct ys"
  shows "distinct xs"
proof -
  obtain R where "mset ys = mset xs + R"
    using assms(1) by (metis mset_subset_eq_exists_conv)
  moreover obtain zs where "mset zs = R"
    using ex_mset by blast
  ultimately have "mset ys = mset (xs @ zs)"
    by simp
  then have "distinct (xs @ zs)"
    using assms(2) mset_eq_imp_distinct_iff by blast
  then show ?thesis
    by simp
qed

lemma best_candidates_index:
  assumes "best_candidates m q k heap"
  shows "c \<in> set heap \<Longrightarrow> rr_record_index c < mmap_record_count m \<and> c = candidate_at m q (rr_record_index c)"
    and "distinct (map rr_record_index heap)" and "length heap = min (max 1 k) (mmap_record_count m)"
proof -
  let ?all = "map (candidate_at m q) [0..<mmap_record_count m]"
  have sub: "mset heap \<subseteq># mset ?all" and ranks: "map rank_of heap = take (max 1 k) (sort (map rank_of ?all))"
    using assms unfolding best_candidates_def Let_def by blast+
  show "rr_record_index c < mmap_record_count m \<and> c = candidate_at m q (rr_record_index c)" if "c \<in> set heap"
  proof -
    have "c \<in> set ?all"
      using that sub by (metis mset_subset_eqD set_mset_mset)
    then show ?thesis
      by (auto simp: candidate_at_def)
  qed
  have "image_mset rr_record_index (mset heap) \<subseteq># image_mset rr_record_index (mset ?all)"
    using sub by (rule image_mset_subseteq_mono)
  moreover have "map rr_record_index ?all = [0..<mmap_record_count m]"
    by (simp add: candidate_at_def o_def)
  then have "image_mset rr_record_index (mset ?all) = mset [0..<mmap_record_count m]"
    by (metis mset_map)
  ultimately have "mset (map rr_record_index heap) \<subseteq># mset [0..<mmap_record_count m]"
    by simp
  then show "distinct (map rr_record_index heap)"
    using distinct_subset_mset distinct_upt by blast
  show "length heap = min (max 1 k) (mmap_record_count m)"
    using arg_cong [OF ranks, of length] by simp
qed

lemma collect_hits_total: "(\<And>x. x \<in> set xs \<Longrightarrow> f x \<noteq> None) \<Longrightarrow> collect_hits f xs \<noteq> None"
  by (induction xs) (auto simp: panic_then_def split: option.splits sum.splits)

lemma collect_hits_ok:
  "(\<And>x. x \<in> set xs \<Longrightarrow> f x = Some (Inr (g x))) \<Longrightarrow> collect_hits f xs = Some (Inr (map g xs))"
  by (induction xs) (auto simp: panic_then_def)

lemma hit_of_total:
  assumes ok: "mmap_ok m" and i: "rr_record_index c < mmap_record_count m"
  shows "hit_of ports m c \<noteq> None"
proof -
  have "mmap_meta m (rr_record_index c) \<noteq> None"
    using mmap_text_total [OF ok i] by (cases "mmap_meta m (rr_record_index c)") (simp_all add: mmap_text_def)
  moreover have "hit_identity ports m c \<noteq> None" "hit_citation m c ct doc metadata \<noteq> None" for ct doc metadata
    using mmap_sidecars_total [OF ok, of "rr_record_index c"] mmap_title_total [OF ok i]
    by (auto simp: hit_identity_def hit_citation_def panic_then_def split: option.splits sum.splits)
  ultimately show ?thesis
    using mmap_text_total [OF ok i]
    by (auto simp: hit_of_def Let_def panic_then_def split: option.splits sum.splits prod.splits)
qed

text \<open>
  A search on an index that loaded returns, whatever the files held, the
  query and the number of hits asked for, and however the scan is split: no record, text or
  sidecar is read out of bounds, no code has the wrong length for its codec, and the records are
  of the version of the codec.
\<close>

theorem static_search_never_panics:
  assumes "mmap_load sha256 files dir = Some (Inr m)" and "schedules (sp_scheduler ports)"
  shows "turbo_search ports m query k \<noteq> None"
proof -
  note ok = mmap_load_ok [OF assms(1)]
  have "collect_hits (hit_of ports m) (sort_by compare_ranked_results heap) \<noteq> None" if "best_candidates m query k heap" for heap
    using best_candidates_index(1) [OF that] hit_of_total [OF ok] by (intro collect_hits_total) simp
  then show ?thesis
    using scan_index_ok(1) [OF ok assms(2), of query k] by (auto simp: turbo_search_def panic_then_def split: sum.splits)
qed


section \<open>Searching a release finds its best chunks\<close>

text \<open>The score of a chunk: its embedding encoded by the codec of the release, scored against the query.\<close>

definition chunk_score :: "(string \<Rightarrow> string) \<Rightarrow> release_codec \<Rightarrow> f32 list \<Rightarrow> static_chunk \<times> f32 list \<Rightarrow> f32" where
  "chunk_score quoted codec query = (\<lambda>(c, embedding).
     case release_record quoted codec (stable_hash_doc_id (sc_doc_id c)) embedding (sc_doc_id c) of
       Some (Inr raw) \<Rightarrow> the (codec_score (loaded_codec codec) query raw)
     | _ \<Rightarrow> 0)"

definition chunk_rank :: "(string \<Rightarrow> string) \<Rightarrow> release_codec \<Rightarrow> f32 list \<Rightarrow> static_chunk \<times> f32 list \<Rightarrow> hit_key" where
  "chunk_rank quoted codec query x = HitKey (chunk_score quoted codec query x) (stable_hash_doc_id (sc_doc_id (fst x)))"

lemma release_record_hash:
  assumes "release_record quoted codec hash embedding label = Some (Inr raw)"
  shows "u64_from_le (span raw 0 8) = hash"
proof (cases codec)
  case (ReleaseV3 c centroids projection)
  then show ?thesis
    using assms by (auto simp: encode_turbo_record_def result_simps turbo_record_bytes_def span_def split: if_splits)
next
  case (ReleaseV4 p)
  then show ?thesis
    using assms by (auto simp: result_simps prod_record_bytes_def prod_record_new_def ok_or_Inr_iff span_def split: if_splits)
qed

lemma held_candidate:
  assumes m: "holds_image codec im header m" and w: "written quoted env codec header im files dir docs embeddings"
    and i: "i < length docs"
  shows "rank_of (candidate_at m q i) = chunk_rank quoted codec q (docs ! i, embeddings ! i)"
proof -
  note h = written_header [OF w]
  have im: "is_image quoted env codec (header_to_bytes header) (zip docs embeddings) im" "length embeddings = length docs"
    using w by (simp_all add: written_def)
  have "release_record quoted codec (stable_hash_doc_id (sc_doc_id (docs ! i))) (embeddings ! i) (sc_doc_id (docs ! i)) =
      Some (Inr (record_bytes_at m i))"
    using image_records(2) [OF im(1) length_header_to_bytes [OF h(1)], of i] i im(2) m
    by (simp add: record_bytes_at_def holds_image_def)
  then show ?thesis
    using release_record_hash m
    by (simp add: candidate_at_def rank_of_def chunk_rank_def chunk_score_def holds_image_def)
qed

lemma held_hit:
  assumes m: "holds_image codec im header m" and w: "written quoted env codec header im files dir docs embeddings"
    and i: "i < length docs" "rr_record_index c = i"
  shows "\<exists>r. hit_of ports m c = Some (Inr r) \<and> res_doc_id r = sc_doc_id (docs ! i) \<and> res_text r = sc_text (docs ! i) \<and>
    res_score r = rr_score c \<and> res_corpus_type r = Some (corpus_type_from_id (corpus_type_id (sc_corpus_type (docs ! i))))"
proof -
  note t = held_texts [OF m w i(1)] and s = held_sidecars [OF m w i(1)]
  have sidecars: "has_sidecars (mi_layout m)"
    using m by (simp add: holds_image_def)
  have "\<exists>md. hit_identity ports m c = Some (Inr (sc_doc_id (docs ! i), md))"
    using s sidecars i(2) by (simp add: hit_identity_def panic_then_def)
  moreover have "\<exists>cit. hit_citation m c ct doc md = Some cit" for ct doc md
    using t(5) i(2) by (auto simp: hit_citation_def split: option.splits)
  moreover have "mr_corpus_type (metas_of docs ! i) = corpus_type_id (sc_corpus_type (docs ! i))"
    using i(1) by (simp add: metas_of_def chunk_meta_def)
  ultimately show ?thesis
    using t(2,4) i(2) by (fastforce simp: hit_of_def panic_then_def Let_def)
qed

text \<open>
  C33. A search over a written release finds its best chunks: with a finite
  512-dimensional query and a valid number of hits, it returns that many hits (or one per chunk, if
  there are fewer), each the id and the text of a different chunk with the score of the chunk's
  embedding under the codec of the release, best first, and no chunk that is left out ranks
  before one that is returned.
\<close>

theorem static_search_finds_best:
  assumes "release_image quoted env fmt docs embeddings n = Some (Inr (codec, im))"
    and "serves files dir (release_files codec im)" and "\<forall>b. length (re_sha256 env b) = 32"
    and "length docs < 2 ^ 32" and "\<forall>c \<in> set docs. chunk_fits env c"
    and "schedules (sp_scheduler ports)"
    and "length query = 512" and "\<forall>x \<in> set query. f32_is_finite x" and "1 \<le> k" and "k \<le> TOP_K_MAX"
  defines "rank i \<equiv> chunk_rank quoted codec query (docs ! i, embeddings ! i)"
  shows "\<exists>m hits chosen.
    mmap_load (re_sha256 env) files dir = Some (Inr m) \<and> turbo_search ports m query k = Some (Inr hits) \<and>
    length hits = min k (length docs) \<and> distinct chosen \<and> set chosen \<subseteq> {..<length docs} \<and> sorted (map rank chosen) \<and>
    (\<forall>i < length docs. i \<notin> set chosen \<longrightarrow> (\<forall>j \<in> set chosen. rank j \<le> rank i)) \<and>
    list_all2 (\<lambda>i r. res_doc_id r = sc_doc_id (docs ! i) \<and> res_text r = sc_text (docs ! i) \<and>
        res_score r = hk_score (rank i)) chosen hits"
proof (rule release_written [OF assms(1-5)])
  fix header
  assume w: "written quoted env codec header im files dir docs embeddings" "docs \<noteq> []"
  obtain m where m: "mmap_load (re_sha256 env) files dir = Some (Inr m)" "holds_image codec im header m"
    by (rule written_loads [OF w(1)])
  note ok = mmap_load_ok [OF m(1)]
  have count: "mmap_record_count m = length docs"
    using held_texts(1) [OF m(2) w(1), of 0] w(2) by simp
  have checks: "validate_query_embedding query = Inr ()" "validate_top_k k = Inr ()"
      "validate_embedding_dim query (unat (th_dim (mi_header m))) = Inr ()"
    using assms(7-10) layout_dim [of "mi_header m" "mi_layout m"] ok
    by (auto simp: validate_query_embedding_def validate_top_k_def validate_embedding_dim_def mmap_ok_def)
  obtain heap where heap: "scan_index ports m query k = Some (Inr heap)" "best_candidates m query k heap"
    using scan_index_ok(2) [OF ok assms(6,7)] by blast
  define ranked where "ranked = sort_by compare_ranked_results heap"
  define chosen where "chosen = map rr_record_index ranked"
  have perm: "mset ranked = mset heap" "set ranked = set heap"
    by (simp_all add: ranked_def)
  have idx: "rr_record_index c < length docs" "c = candidate_at m query (rr_record_index c)" if "c \<in> set ranked" for c
    using best_candidates_index(1) [OF heap(2), of c] that perm count by simp_all
  have rank: "rank_of c = rank (rr_record_index c)" if "c \<in> set ranked" for c
    using held_candidate [OF m(2) w(1) idx(1) [OF that], of query] idx(2) [OF that] by (simp add: rank_def)
  have score: "hk_score (rank (rr_record_index c)) = rr_score c" if "c \<in> set ranked" for c
    using rank [OF that, symmetric] by (simp add: rank_of_def)
  have "\<forall>c \<in> set ranked. \<exists>r. hit_of ports m c = Some (Inr r) \<and> res_doc_id r = sc_doc_id (docs ! rr_record_index c) \<and>
      res_text r = sc_text (docs ! rr_record_index c) \<and> res_score r = rr_score c"
    using held_hit [OF m(2) w(1) idx(1) refl, of _ ports] by blast
  then obtain hit where hit: "\<forall>c \<in> set ranked. hit_of ports m c = Some (Inr (hit c)) \<and>
      res_doc_id (hit c) = sc_doc_id (docs ! rr_record_index c) \<and>
      res_text (hit c) = sc_text (docs ! rr_record_index c) \<and> res_score (hit c) = rr_score c"
    by (rule bchoice [THEN exE])
  have "turbo_search ports m query k = Some (Inr (map hit ranked))"
    using checks heap(1) collect_hits_ok [of ranked "hit_of ports m" hit] hit
    by (simp add: turbo_search_def panic_then_def ranked_def)
  moreover have "length (map hit ranked) = min k (length docs)"
    using best_candidates_index(3) [OF heap(2)] assms(9) count by (simp add: ranked_def max_def)
  moreover have "distinct chosen"
    unfolding chosen_def using best_candidates_index(2) [OF heap(2)] perm(1) by (metis mset_eq_imp_distinct_iff mset_map)
  moreover have "set chosen \<subseteq> {..<length docs}"
    using idx(1) by (auto simp: chosen_def)
  moreover have "map rank chosen = map rank_of ranked"
    using rank by (simp add: chosen_def)
  then have "sorted (map rank chosen)"
    using ranked_order.sorted_sort_by [of heap] by (simp add: ranked_def)
  moreover have "rank j \<le> rank i" if i: "i < length docs" "i \<notin> set chosen" and j: "j \<in> set chosen" for i j
  proof -
    obtain c where c: "c \<in> set ranked" "j = rr_record_index c"
      using j by (auto simp: chosen_def)
    have "candidate_at m query i \<notin> set heap"
      using i(2) perm(2) by (force simp: chosen_def candidate_at_def)
    then have "rank_of c \<le> rank_of (candidate_at m query i)"
      using heap(2) c(1) perm(2) i(1) count unfolding best_candidates_def Let_def
      by (intro top_before_rest [where heap = heap and xs = "map (candidate_at m query) [0..<mmap_record_count m]"]) auto
    then show ?thesis
      using rank [OF c(1)] c(2) held_candidate [OF m(2) w(1) i(1), of query] by (simp add: rank_def)
  qed
  moreover have "list_all2 (\<lambda>i r. res_doc_id r = sc_doc_id (docs ! i) \<and> res_text r = sc_text (docs ! i) \<and>
      res_score r = hk_score (rank i)) chosen (map hit ranked)"
    using hit score by (simp add: chosen_def list_all2_map1 list_all2_map2 list_all2_same)
  ultimately show ?thesis
    using m(1) by blast
qed

section \<open>Searches at work\<close>

definition halves :: scheduler where
  "halves xs = Join (Run (take (length xs div 2) xs)) (Join Identity (Run (drop (length xs div 2) xs)))"

lemma schedules_halves: "schedules halves"
  by (simp add: schedules_def halves_def)

definition demo_search :: search_ports where
  "demo_search = \<lparr> sp_scheduler = halves, sp_quoted = (\<lambda>s. s), sp_parse_metadata = (\<lambda>s. Some []) \<rparr>"

lemma scan_is_exact_top_k_witness:
  "\<exists>heap. scan_top_k halves [(7, f32_one), (5, 0x40000000), (3, 0x40000000)] 2 Some = Some heap \<and>
     map rank_of heap = take 2 (sort [HitKey f32_one 7, HitKey 0x40000000 5, HitKey 0x40000000 3])"
proof -
  have "scored Some [(7, f32_one), (5, 0x40000000), (3, 0x40000000)] =
      Some [\<lparr> rr_score = f32_one, rr_doc_id = 7, rr_record_index = 0 \<rparr>,
            \<lparr> rr_score = 0x40000000, rr_doc_id = 5, rr_record_index = 1 \<rparr>,
            \<lparr> rr_score = 0x40000000, rr_doc_id = 3, rr_record_index = 2 \<rparr>]"
    by (simp add: scored_def upt_rec)
  from scan_is_exact_top_k [OF schedules_halves this, of 2] show ?thesis
    by (auto simp: rank_of_def)
qed

lemma static_search_never_panics_witness:
  "\<exists>codec im m. mmap_load (re_sha256 demo_env) (directory_of ''d'' (release_files codec im)) ''d'' = Some (Inr m) \<and>
     turbo_search demo_search m (replicate 512 f32_one) 5 \<noteq> None \<and> turbo_search demo_search m [] 0 \<noteq> None"
proof (rule demo_release)
  fix codec im
  assume r: "release_image (\<lambda>s. s) demo_env FormatV3 [law_chunk] [replicate 512 f32_one] 512 = Some (Inr (codec, im))"
    "serves (directory_of ''d'' (release_files codec im)) ''d'' (release_files codec im)"
    "\<forall>b. length (re_sha256 demo_env b) = 32" "\<forall>c \<in> set [law_chunk]. chunk_fits demo_env c"
  obtain m where m: "mmap_load (re_sha256 demo_env) (directory_of ''d'' (release_files codec im)) ''d'' = Some (Inr m)"
    by (rule release_loads [OF r(1,2,3) _ r(4)]) auto
  have "schedules (sp_scheduler demo_search)"
    by (simp add: demo_search_def schedules_halves)
  from static_search_never_panics [OF m this] show ?thesis
    using m by blast
qed

lemma static_search_finds_best_witness:
  "\<exists>codec im m hits. mmap_load (re_sha256 demo_env) (directory_of ''d'' (release_files codec im)) ''d'' = Some (Inr m) \<and>
     turbo_search demo_search m (replicate 512 f32_one) 5 = Some (Inr hits) \<and> length hits = 1 \<and>
     res_doc_id (hd hits) = ''law-1'' \<and> res_text (hd hits) = ''Article 1''"
proof (rule demo_release)
  fix codec im
  assume r: "release_image (\<lambda>s. s) demo_env FormatV3 [law_chunk] [replicate 512 f32_one] 512 = Some (Inr (codec, im))"
    "serves (directory_of ''d'' (release_files codec im)) ''d'' (release_files codec im)"
    "\<forall>b. length (re_sha256 demo_env b) = 32" "\<forall>c \<in> set [law_chunk]. chunk_fits demo_env c"
  have s: "schedules (sp_scheduler demo_search)"
    by (simp add: demo_search_def schedules_halves)
  have q: "length (replicate 512 f32_one) = 512" "\<forall>x \<in> set (replicate 512 f32_one). f32_is_finite x"
    by (simp_all add: fl_eval f32_one_def)
  obtain m hits chosen where "mmap_load (re_sha256 demo_env) (directory_of ''d'' (release_files codec im)) ''d'' = Some (Inr m)"
      "turbo_search demo_search m (replicate 512 f32_one) 5 = Some (Inr hits)" "length hits = 1"
      "set chosen \<subseteq> {..<length [law_chunk]}"
      "list_all2 (\<lambda>i r. res_doc_id r = sc_doc_id ([law_chunk] ! i) \<and> res_text r = sc_text ([law_chunk] ! i) \<and>
         res_score r = hk_score (chunk_rank (\<lambda>s. s) codec (replicate 512 f32_one) ([law_chunk] ! i, [replicate 512 f32_one] ! i)))
         chosen hits"
    using static_search_finds_best [OF r(1,2,3) _ r(4) s q, of 5] by (auto simp: TOP_K_MAX_def)
  moreover from this obtain r where "hits = [r]" "res_doc_id r = ''law-1''" "res_text r = ''Article 1''"
    by (cases chosen; cases hits) (auto simp: law_chunk_def)
  ultimately show ?thesis
    by (intro exI [of _ codec] exI [of _ im] exI [of _ m] exI [of _ hits]) simp
qed

end
