(* ===== verification/Query_Service.thy ===== *)
theory Query_Service
  imports Vector_Search Turbo_Search
begin

text \<open>
  The query service (\<^verbatim>\<open>src/query_lambda.rs\<close>, \<^verbatim>\<open>src/query_service.rs\<close>,
  \<^verbatim>\<open>src/embedding/provider.rs\<close>): which stores are read, how a handler is assembled for a pair of
  an index version and a static release, and the cache that keeps one handler for its pair.
  A panic is \<^term>\<open>None\<close>.
\<close>


section \<open>Errors\<close>

record query_lambda_error =
  ql_error_type :: string
  ql_message :: string

fun query_lambda_error_from :: "search_error \<Rightarrow> query_lambda_error" where
  "query_lambda_error_from (SearchValidation e) =
     \<lparr> ql_error_type = ''validation_error'', ql_message = show_validation_error e \<rparr>"
| "query_lambda_error_from (SearchExecution m) =
     \<lparr> ql_error_type = ''execution_error'', ql_message = show_search_error (SearchExecution m) \<rparr>"

definition bootstrap_error :: "string \<Rightarrow> query_lambda_error" where
  "bootstrap_error message =
     \<lparr> ql_error_type = ''execution_error'', ql_message = ''query lambda bootstrap failed: '' @ message \<rparr>"

definition ACTIVE_VERSION_CHANGED_DURING_BOOTSTRAP :: string where
  "ACTIVE_VERSION_CHANGED_DURING_BOOTSTRAP = ''active manifest version changed during bootstrap''"

definition is_retriable_bootstrap_version_change :: "query_lambda_error \<Rightarrow> bool" where
  "is_retriable_bootstrap_version_change e \<longleftrightarrow>
     ql_error_type e = ''execution_error'' \<and> str_contains (ql_message e) ACTIVE_VERSION_CHANGED_DURING_BOOTSTRAP"


section \<open>The embedding provider\<close>

datatype embedding_provider = FixedProvider | LTEmbedProvider

type_synonym env_vars = "string \<Rightarrow> string option"

text \<open>\<open>ltembed\<close> tells whether the feature is compiled in.\<close>

definition parse_provider :: "bool \<Rightarrow> string \<Rightarrow> string \<Rightarrow> string + embedding_provider" where
  "parse_provider ltembed var provider =
     (if provider = ''fixed'' then Inr FixedProvider
      else if provider = ''ltembed'' then
        if ltembed then Inr LTEmbedProvider
        else Inl (msg [''unsupported '', var, '': ltembed (feature disabled)''])
      else Inl (msg [''unsupported '', var, '': '', provider]))"

definition required_provider_from_env :: "bool \<Rightarrow> env_vars \<Rightarrow> string \<Rightarrow> string + embedding_provider" where
  "required_provider_from_env ltembed env var =
     and_then (ok_or (''missing '' @ var) (env var)) (parse_provider ltembed var)"

definition provider_from_env_or_default ::
  "bool \<Rightarrow> env_vars \<Rightarrow> string \<Rightarrow> embedding_provider \<Rightarrow> string + embedding_provider" where
  "provider_from_env_or_default ltembed env var fallback =
     (case env var of Some provider \<Rightarrow> parse_provider ltembed var provider | None \<Rightarrow> Inr fallback)"

definition parse_embedding_part :: "(string \<Rightarrow> f32 option) \<Rightarrow> string \<Rightarrow> string \<Rightarrow> string + f32" where
  "parse_embedding_part parse_f32 var part =
     (let invalid = var @ '' must be a comma-separated list of numbers''; trimmed = str_trim part
      in if trimmed = [] then Inl invalid
         else and_then (ok_or invalid (parse_f32 trimmed)) (\<lambda>x.
           if f32_is_finite x then Inr x else Inl (var @ '' must contain only finite numbers'')))"

definition parse_fixed_embedding :: "(string \<Rightarrow> f32 option) \<Rightarrow> string \<Rightarrow> string \<Rightarrow> string + f32 list" where
  "parse_fixed_embedding parse_f32 value var =
     and_then (try_map (parse_embedding_part parse_f32 var) (split_on CHR '','' value)) (\<lambda>embedding.
       if embedding = [] then Inl (var @ '' must not be empty'') else Inr embedding)"

definition parse_usize_or_zero :: "string option \<Rightarrow> nat" where
  "parse_usize_or_zero v = (case Option.bind v (parse_unsigned (2 ^ 64)) of Some n \<Rightarrow> n | None \<Rightarrow> 0)"

definition fixed_generator_from_env ::
  "(string \<Rightarrow> f32 option) \<Rightarrow> env_vars \<Rightarrow> string \<Rightarrow> string option \<Rightarrow> string + f32 list" where
  "fixed_generator_from_env parse_f32 env var dim_var =
     and_then (ok_or (''missing '' @ var) (env var)) (\<lambda>value.
     and_then (parse_fixed_embedding parse_f32 value var) (\<lambda>embedding.
     case dim_var of
       None \<Rightarrow> Inr embedding
     | Some d \<Rightarrow>
         let n = parse_usize_or_zero (env d)
         in if 0 < n \<and> length embedding \<noteq> n
            then Inl (msg [var, '' dimension '', show_nat (length embedding), '' does not match '', d, '' '', show_nat n])
            else Inr embedding))"


section \<open>The surroundings\<close>

text \<open>
  A world is what is stored at one moment.  \<open>qp_open_db\<close> opens the control-plane database when
  its file exists, \<open>qp_tables\<close> are its tables; the engine of \<open>qp_ltembed\<close> embeds a text.
\<close>

record 'w query_ports =
  qp_env :: env_vars
  qp_ltembed_enabled :: bool
  qp_parse_f32 :: "string \<Rightarrow> f32 option"
  qp_ltembed :: "string + (string \<Rightarrow> string + f32 list)"
  qp_open_db :: "'w \<Rightarrow> string \<Rightarrow> (string + unit) option"
  qp_tables :: "'w \<Rightarrow> db"
  qp_faults :: "'w \<Rightarrow> sql_faults"
  qp_read :: "'w \<Rightarrow> string \<Rightarrow> io_error + string"
  qp_files :: "'w \<Rightarrow> mapper"
  qp_parse_head :: "string \<Rightarrow> string + manifest_head"
  qp_parse_manifest :: "string \<Rightarrow> string + index_manifest"
  qp_parse_static_head :: "string \<Rightarrow> string + static_release_head"
  qp_show_store_error :: "manifest_store_error \<Rightarrow> string"
  qp_show_static_error :: "static_release_store_error \<Rightarrow> string"
  qp_sha256 :: "blob \<Rightarrow> blob"
  qp_quoted :: "string \<Rightarrow> string"
  qp_keyword :: "string keyword_env"
  qp_vector :: vector_env
  qp_static :: search_ports
  qp_rrf_k :: f32
  qp_iter :: "(string, f32) hmap \<Rightarrow> (string, f32) hmap"
  qp_latency :: u64
  qp_panic :: "string option"
  qp_unwinds :: bool

definition query_artifact_root :: "'w query_ports \<Rightarrow> query_lambda_error + string" where
  "query_artifact_root ports =
     ok_or (bootstrap_error ''missing LTSEARCH_QUERY_ARTIFACT_ROOT'') (qp_env ports ''LTSEARCH_QUERY_ARTIFACT_ROOT'')"

text \<open>The store is chosen when it is opened; what it holds is read later.\<close>

datatype store_kind = FileStore | DatabaseStore

definition store_for :: "'w query_ports \<Rightarrow> string \<Rightarrow> 'w \<Rightarrow> query_lambda_error + store_kind" where
  "store_for ports store_root w =
     (let db_path = path_join store_root ''ltsearch.db''
      in case qp_open_db ports w db_path of
           None \<Rightarrow> Inr FileStore
         | Some opened \<Rightarrow>
             map_ok (\<lambda>_. DatabaseStore)
               (map_err (\<lambda>e. bootstrap_error (msg [''failed to open local control-plane db '', db_path, '': '', e])) opened))"

definition store_load_head ::
  "'w query_ports \<Rightarrow> string \<Rightarrow> store_kind \<Rightarrow> 'w \<Rightarrow> manifest_store_error + manifest_head" where
  "store_load_head ports store_root kind w =
     (case kind of
        FileStore \<Rightarrow> local_load_head (qp_read ports w) (qp_parse_head ports) store_root
      | DatabaseStore \<Rightarrow> sqlite_load_head (qp_faults ports w) (qp_parse_head ports) (qp_tables ports w))"

text \<open>The head and the manifest it names are read one after the other.\<close>

definition store_load_active_manifest ::
  "'w query_ports \<Rightarrow> string \<Rightarrow> store_kind \<Rightarrow> 'w \<Rightarrow> 'w \<Rightarrow> manifest_store_error + active_manifest" where
  "store_load_active_manifest ports store_root kind w w' =
     and_then (store_load_head ports store_root kind w)
       (load_manifest_of_head (qp_read ports w') (qp_parse_manifest ports) store_root)"

definition store_load_active_release ::
  "'w query_ports \<Rightarrow> string \<Rightarrow> store_kind \<Rightarrow> 'w \<Rightarrow> static_release_store_error + static_release_head option" where
  "store_load_active_release ports store_root kind w =
     (case kind of
        FileStore \<Rightarrow> local_load_active_release (qp_read ports w) (qp_parse_static_head ports) store_root
      | DatabaseStore \<Rightarrow> sqlite_load_active_release (qp_faults ports w) (qp_parse_static_head ports) (qp_tables ports w))"



section \<open>What is active\<close>

text \<open>A history \<open>h\<close> gives the world at each access.\<close>

definition resolve_active_static_release_id ::
  "'w query_ports \<Rightarrow> string \<Rightarrow> (nat \<Rightarrow> 'w) \<Rightarrow> query_lambda_error + string option" where
  "resolve_active_static_release_id ports store_root h =
     and_then (store_for ports store_root (h 0)) (\<lambda>kind.
     map_ok (map_option sh_release_id)
       (map_err (\<lambda>e. bootstrap_error (''failed to load active static release: '' @ qp_show_static_error ports e))
         (store_load_active_release ports store_root kind (h 1))))"

definition version_error :: "'w query_ports \<Rightarrow> manifest_store_error \<Rightarrow> query_lambda_error" where
  "version_error ports e = bootstrap_error (''failed to load active version: '' @ qp_show_store_error ports e)"

definition load_active_query_version :: "'w query_ports \<Rightarrow> (nat \<Rightarrow> 'w) \<Rightarrow> query_lambda_error + u64" where
  "load_active_query_version ports h =
     and_then (query_artifact_root ports) (\<lambda>store_root.
     and_then (store_for ports store_root (h 0)) (\<lambda>kind.
       map_err (version_error ports) (load_active_version (store_load_head ports store_root kind (h 1)))))"

definition load_active_query_key :: "'w query_ports \<Rightarrow> (nat \<Rightarrow> 'w) \<Rightarrow> query_lambda_error + u64 \<times> string option" where
  "load_active_query_key ports h =
     and_then (load_active_query_version ports h) (\<lambda>version.
     and_then (query_artifact_root ports) (\<lambda>store_root.
       map_ok (Pair version) (resolve_active_static_release_id ports store_root (\<lambda>n. h (n + 2)))))"

text \<open>A missing head is not an error here: nothing is published yet.\<close>

definition load_active_query_version_opt :: "'w query_ports \<Rightarrow> (nat \<Rightarrow> 'w) \<Rightarrow> query_lambda_error + u64 option" where
  "load_active_query_version_opt ports h =
     and_then (query_artifact_root ports) (\<lambda>store_root.
     and_then (store_for ports store_root (h 0)) (\<lambda>kind.
       case load_active_version (store_load_head ports store_root kind (h 1)) of
         Inr version \<Rightarrow> Inr (Some version)
       | Inl (MissingHead _) \<Rightarrow> Inr None
       | Inl e \<Rightarrow> Inl (version_error ports e)))"


section \<open>A handler for a pair\<close>

record query_handler =
  qh_active :: active_manifest
  qh_embed :: "string \<Rightarrow> string + f32 list"
  qh_static :: "mmap_index option"
  qh_release_id :: "string option"

definition build_query_embedding_generator ::
  "'w query_ports \<Rightarrow> embedding_provider \<Rightarrow> string + (string \<Rightarrow> string + f32 list) \<times> string \<times> string" where
  "build_query_embedding_generator ports provider =
     (case provider of
        FixedProvider \<Rightarrow>
          map_ok (\<lambda>embedding. (\<lambda>_. Inr embedding, ''LTSEARCH_QUERY_FIXED_EMBEDDING'', ''dimension''))
            (fixed_generator_from_env (qp_parse_f32 ports) (qp_env ports) ''LTSEARCH_QUERY_FIXED_EMBEDDING'' None)
      | LTEmbedProvider \<Rightarrow>
          map_ok (\<lambda>engine. (engine, ''LTSEARCH_QUERY_LTEMBED'', ''embedding dimension'')) (qp_ltembed ports))"

definition query_provider :: "'w query_ports \<Rightarrow> string + embedding_provider" where
  "query_provider ports = required_provider_from_env (qp_ltembed_enabled ports) (qp_env ports) ''LTSEARCH_QUERY_EMBEDDING_PROVIDER''"

definition probe_query_embedding :: "'w query_ports \<Rightarrow> string + nat" where
  "probe_query_embedding ports =
     and_then (query_provider ports) (\<lambda>provider.
     and_then (build_query_embedding_generator ports provider) (\<lambda>(generate, _, _).
       map_ok length (generate ''healthcheck'')))"

definition try_load_static_searcher ::
  "'w query_ports \<Rightarrow> string \<Rightarrow> string option \<Rightarrow> 'w \<Rightarrow> (query_lambda_error + mmap_index option) option" where
  "try_load_static_searcher ports store_root release_id w =
     (case release_id of
        None \<Rightarrow> Some (Inr None)
      | Some i \<Rightarrow>
          let static_dir = path_join store_root (static_release_dir_key i)
          in map_option (map_ok Some \<circ> map_err (\<lambda>e. bootstrap_error (msg
               [''failed to load TurboQuant static index from '', static_dir, '': '', show_mmap_error (qp_quoted ports) e])))
             (mmap_load (qp_sha256 ports) (qp_files ports w) static_dir))"

text \<open>The manifest must still be the expected one and fit the embedding; then it is frozen.\<close>

definition check_bootstrap ::
  "'w query_ports \<Rightarrow> embedding_provider \<Rightarrow> u64 option \<Rightarrow> active_manifest \<Rightarrow>
     query_lambda_error + (string \<Rightarrow> string + f32 list)" where
  "check_bootstrap ports provider expected am =
     and_then (case expected of
        Some v \<Rightarrow>
          if mh_version_id (am_head am) \<noteq> v
          then Inl (bootstrap_error (msg [ACTIVE_VERSION_CHANGED_DURING_BOOTSTRAP, '': expected '', show_u64 v, '', got '',
                 show_u64 (mh_version_id (am_head am))]))
          else Inr ()
      | None \<Rightarrow> Inr ())
       (\<lambda>_. and_then (map_err bootstrap_error (build_query_embedding_generator ports provider)) (\<lambda>(generate, name, what).
          and_then (map_err bootstrap_error (generate ''ignored'')) (\<lambda>embedding.
          if length embedding \<noteq> embedding_dim (am_manifest am)
          then Inl (bootstrap_error (msg [name, '' '', what, '' '', show_nat (length embedding),
                 '' does not match manifest embedding_dim '', show_nat (embedding_dim (am_manifest am))]))
          else Inr generate)))"

definition bootstrap_query_embedding_handler ::
  "'w query_ports \<Rightarrow> embedding_provider \<Rightarrow> u64 option \<Rightarrow> string option \<Rightarrow> (nat \<Rightarrow> 'w) \<Rightarrow>
     (query_lambda_error + query_handler) option" where
  "bootstrap_query_embedding_handler ports provider expected release_id h =
     panic_then (Some (and_then (query_artifact_root ports) (\<lambda>store_root.
         and_then (store_for ports store_root (h 0)) (\<lambda>kind.
         and_then
           (map_err (\<lambda>e. bootstrap_error (''failed to load active manifest: '' @ qp_show_store_error ports e))
             (store_load_active_manifest ports store_root kind (h 1) (h 2))) (\<lambda>am.
         map_ok (\<lambda>generate. (store_root, am, generate)) (check_bootstrap ports provider expected am)))))) (\<lambda>(store_root, am, generate).
       map_option (map_ok (\<lambda>index.
           \<lparr> qh_active = am, qh_embed = generate, qh_static = index, qh_release_id = release_id \<rparr>))
         (try_load_static_searcher ports store_root release_id (h 3)))"

definition bootstrap_query_handler ::
  "'w query_ports \<Rightarrow> (nat \<Rightarrow> 'w) \<Rightarrow> (query_lambda_error + query_handler) option" where
  "bootstrap_query_handler ports h =
     panic_then (Some (and_then (map_err bootstrap_error (query_provider ports)) (\<lambda>provider.
         and_then (query_artifact_root ports) (\<lambda>store_root.
           map_ok (Pair provider) (resolve_active_static_release_id ports store_root h))))) (\<lambda>(provider, release_id).
       bootstrap_query_embedding_handler ports provider None release_id (\<lambda>n. h (n + 2)))"

definition bootstrap_query_handler_for_version ::
  "'w query_ports \<Rightarrow> (nat \<Rightarrow> 'w) \<Rightarrow> u64 \<Rightarrow> (query_lambda_error + query_handler) option" where
  "bootstrap_query_handler_for_version ports h v =
     panic_then (Some (map_err bootstrap_error (query_provider ports))) (\<lambda>provider.
       bootstrap_query_embedding_handler ports provider (Some v) None h)"

definition bootstrap_query_handler_for_key ::
  "'w query_ports \<Rightarrow> (nat \<Rightarrow> 'w) \<Rightarrow> u64 \<times> string option \<Rightarrow> (query_lambda_error + query_handler) option" where
  "bootstrap_query_handler_for_key ports h = (\<lambda>(v, release_id).
     panic_then (Some (map_err bootstrap_error (query_provider ports))) (\<lambda>provider.
       bootstrap_query_embedding_handler ports provider (Some v) release_id h))"

text \<open>
  The router of a handler.  Its searchers are those of the pair.  \<open>caches\<close> is the state of the shard
  cache at each retrieval, whatever earlier requests left there; a retrieval is told by the number
  of results it asks for.
\<close>

definition joined :: "string option \<Rightarrow> (search_error + search_result list) option \<Rightarrow> retrieved" where
  "joined payload r = (case r of Some x \<Rightarrow> Returned x | None \<Rightarrow> Panicked payload)"

definition handler_router :: "'w query_ports \<Rightarrow> string \<Rightarrow> query_handler \<Rightarrow> (nat \<Rightarrow> lance_cache) \<Rightarrow> router" where
  "handler_router ports store_root handler caches =
     \<lparr> rt_load_manifest = Inr (qh_active handler),
       rt_show_store_error = qp_show_store_error ports,
       rt_generate = (\<lambda>_. qh_embed handler),
       rt_keyword = (\<lambda>am query k. joined (qp_panic ports) (keyword_search_active (qp_keyword ports) store_root am query k)),
       rt_vector = (\<lambda>am embedding k. joined (qp_panic ports)
         (fst (vector_search_active (qp_vector ports) store_root am embedding k (caches k)))),
       rt_static = (\<lambda>_ embedding k. joined (qp_panic ports)
         (case qh_static handler of
            None \<Rightarrow> Some (Inr [])
          | Some index \<Rightarrow> turbo_search (qp_static ports) index embedding k)),
       rt_rrf_k = qp_rrf_k ports, rt_iter = qp_iter ports, rt_static_release_id = qh_release_id handler,
       rt_latency = qp_latency ports, rt_unwinds = qp_unwinds ports \<rparr>"

definition handle_search_request ::
  "'w query_ports \<Rightarrow> string \<Rightarrow> query_handler \<Rightarrow> (nat \<Rightarrow> lance_cache) \<Rightarrow> search_request \<Rightarrow>
     (query_lambda_error + search_response) option" where
  "handle_search_request ports store_root handler caches request =
     map_option (map_err query_lambda_error_from) (fst (router_search (handler_router ports store_root handler caches) request))"


section \<open>The cache of handlers\<close>

text \<open>A panic while the lock is held poisons it; the service then panics for good.\<close>

type_synonym ('k, 'h) handler_cache = "('k \<times> 'h) option"

definition resolve_versioned_handler ::
  "query_lambda_error + 'k \<Rightarrow> ('k \<Rightarrow> (query_lambda_error + 'h) option) \<Rightarrow> ('k, 'h) handler_cache \<Rightarrow>
     ((query_lambda_error + 'h) \<times> ('k, 'h) handler_cache) option" where
  "resolve_versioned_handler loaded_key bootstrap cache =
     (case loaded_key of
        Inl e \<Rightarrow> Some (Inl e, cache)
      | Inr key \<Rightarrow>
          (case cache of
             Some (k, handler) \<Rightarrow> if k = key then Some (Inr handler, cache) else
               map_option (\<lambda>r. (r, case r of Inr handler \<Rightarrow> Some (key, handler) | Inl _ \<Rightarrow> cache)) (bootstrap key)
           | None \<Rightarrow>
               map_option (\<lambda>r. (r, case r of Inr handler \<Rightarrow> Some (key, handler) | Inl _ \<Rightarrow> cache)) (bootstrap key)))"

text \<open>
  One retry, when the version changed during the bootstrap.  \<open>others\<close> is what other requests do to
  the cache in between; the functions are those of the first and of the second attempt.
\<close>

definition resolve_versioned_handler_with_retry ::
  "(('k, 'h) handler_cache \<Rightarrow> ('k, 'h) handler_cache) \<Rightarrow> (nat \<Rightarrow> query_lambda_error + 'k) \<Rightarrow>
     (nat \<Rightarrow> 'k \<Rightarrow> (query_lambda_error + 'h) option) \<Rightarrow> ('k, 'h) handler_cache \<Rightarrow>
     ((query_lambda_error + 'h) \<times> ('k, 'h) handler_cache) option" where
  "resolve_versioned_handler_with_retry others load_key bootstrap cache =
     (case resolve_versioned_handler (load_key 0) (bootstrap 0) cache of
        Some (Inl e, cache1) \<Rightarrow>
          if is_retriable_bootstrap_version_change e
          then resolve_versioned_handler (load_key 1) (bootstrap 1) (others cache1)
          else Some (Inl e, cache1)
      | r \<Rightarrow> r)"

type_synonym query_cache = "(u64 \<times> string option, query_handler) handler_cache"

text \<open>\<open>h i\<close> is the history of attempt \<open>i\<close>: first the key is read, then the handler is assembled.\<close>

definition resolve_handler ::
  "'w query_ports \<Rightarrow> (query_cache \<Rightarrow> query_cache) \<Rightarrow> (nat \<Rightarrow> nat \<Rightarrow> 'w) \<Rightarrow> query_cache \<Rightarrow>
     ((query_lambda_error + query_handler) \<times> query_cache) option" where
  "resolve_handler ports others h cache =
     resolve_versioned_handler_with_retry others (\<lambda>i. load_active_query_key ports (h i))
       (\<lambda>i. bootstrap_query_handler_for_key ports (\<lambda>n. h i (n + 4))) cache"

definition cached_pair :: "('k, 'h) handler_cache \<Rightarrow> 'k option" where
  "cached_pair cache = map_option fst cache"

definition cached_version :: "query_cache \<Rightarrow> u64 option" where
  "cached_version cache = map_option fst (cached_pair cache)"

definition cached_static_release_id :: "query_cache \<Rightarrow> string option" where
  "cached_static_release_id cache = Option.bind (cached_pair cache) snd"



section \<open>One pair per request\<close>

text \<open>A handler serves a pair: its index version, and the image of its release, loaded at some moment.\<close>

definition handler_for :: "'w query_ports \<Rightarrow> u64 \<times> string option \<Rightarrow> query_handler \<Rightarrow> bool" where
  "handler_for ports key handler \<longleftrightarrow>
     mh_version_id (am_head (qh_active handler)) = fst key \<and> version_id (am_manifest (qh_active handler)) = fst key \<and>
     qh_release_id handler = snd key \<and>
     (case snd key of
        None \<Rightarrow> qh_static handler = None
      | Some i \<Rightarrow> \<exists>store_root w m. query_artifact_root ports = Inr store_root \<and>
          mmap_load (qp_sha256 ports) (qp_files ports w) (path_join store_root (static_release_dir_key i)) = Some (Inr m) \<and>
          qh_static handler = Some m) \<and>
     (\<exists>embedding. qh_embed handler ''ignored'' = Inr embedding \<and>
        length embedding = embedding_dim (am_manifest (qh_active handler)))"

definition cache_sound :: "'w query_ports \<Rightarrow> query_cache \<Rightarrow> bool" where
  "cache_sound ports cache \<longleftrightarrow> (\<forall>key handler. cache = Some (key, handler) \<longrightarrow> handler_for ports key handler)"

lemma store_load_active_manifest_version:
  "store_load_active_manifest ports store_root kind w w' = Inr am \<Longrightarrow> version_id (am_manifest am) = mh_version_id (am_head am)"
  by (auto simp: store_load_active_manifest_def load_manifest_of_head_def Let_def result_simps split: if_splits)

lemma check_bootstrap_ok:
  assumes "check_bootstrap ports provider expected am = Inr generate"
  shows "\<forall>v. expected = Some v \<longrightarrow> mh_version_id (am_head am) = v"
    "\<exists>embedding. generate ''ignored'' = Inr embedding \<and> length embedding = embedding_dim (am_manifest am)"
  using assms by (auto simp: check_bootstrap_def result_simps split: option.splits if_splits)

lemma bootstrap_for_key_ok:
  assumes "bootstrap_query_handler_for_key ports h key = Some (Inr handler)"
  shows "handler_for ports key handler"
proof -
  obtain v i where key: "key = (v, i)"
    by fastforce
  obtain provider store_root kind am generate index where b:
      "query_artifact_root ports = Inr store_root"
      "store_load_active_manifest ports store_root kind (h 1) (h 2) = Inr am"
      "check_bootstrap ports provider (Some v) am = Inr generate"
      "try_load_static_searcher ports store_root i (h 3) = Some (Inr index)"
      "handler = \<lparr> qh_active = am, qh_embed = generate, qh_static = index, qh_release_id = i \<rparr>"
    using assms key
    by (auto simp: bootstrap_query_handler_for_key_def bootstrap_query_embedding_handler_def panic_then_Some_Inr
        result_simps)
  have "case i of None \<Rightarrow> index = None
      | Some j \<Rightarrow> \<exists>w m. mmap_load (qp_sha256 ports) (qp_files ports w) (path_join store_root (static_release_dir_key j)) = Some (Inr m) \<and>
          index = Some m"
    using b(4) by (auto simp: try_load_static_searcher_def Let_def result_simps split: option.splits)
  then show ?thesis
    using b(1,5) check_bootstrap_ok [OF b(3)] store_load_active_manifest_version [OF b(2)] key
    by (auto simp: handler_for_def split: option.splits)
qed

lemma resolve_versioned_handler_ok:
  assumes "resolve_versioned_handler loaded bootstrap cache = Some (Inr handler, cache')"
  shows "\<exists>key. loaded = Inr key \<and> cache' = Some (key, handler) \<and>
    (cache = Some (key, handler) \<or> bootstrap key = Some (Inr handler))"
  using assms by (auto simp: resolve_versioned_handler_def split: sum.splits option.splits prod.splits if_splits)

lemma resolve_versioned_handler_error:
  "resolve_versioned_handler loaded bootstrap cache = Some (Inl e, cache') \<Longrightarrow> cache' = cache"
  by (auto simp: resolve_versioned_handler_def split: sum.splits option.splits prod.splits if_splits)

lemma resolve_with_retry_ok:
  assumes "resolve_versioned_handler_with_retry others load_key bootstrap cache = Some (Inr handler, cache')"
  obtains i key where "i < 2" "load_key i = Inr key" "cache' = Some (key, handler)"
    "cache = Some (key, handler) \<or> others cache = Some (key, handler) \<or> bootstrap i key = Some (Inr handler)"
proof (cases "resolve_versioned_handler (load_key 0) (bootstrap 0) cache")
  case (Some first)
  obtain r cache1 where first: "first = (r, cache1)"
    by fastforce
  show thesis
  proof (cases r)
    case (Inl e)
    then have "cache1 = cache"
      using Some first resolve_versioned_handler_error by metis
    then have "resolve_versioned_handler (load_key 1) (bootstrap 1) (others cache) = Some (Inr handler, cache')"
      using assms Some first Inl by (auto simp: resolve_versioned_handler_with_retry_def split: if_splits)
    then show thesis
      using that [of 1] resolve_versioned_handler_ok by fastforce
  next
    case (Inr x)
    then have "resolve_versioned_handler (load_key 0) (bootstrap 0) cache = Some (Inr handler, cache')"
      using assms Some first by (auto simp: resolve_versioned_handler_with_retry_def)
    then show thesis
      using that [of 0] resolve_versioned_handler_ok by fastforce
  qed
qed (use assms in \<open>simp add: resolve_versioned_handler_with_retry_def\<close>)

lemma response_version:
  assumes "router_search rt request = (Some (Inr response), warnings)" "rt_load_manifest rt = Inr am"
  shows "index_version response = mh_version_id (am_head am) \<and> static_release_id response = rt_static_release_id rt"
proof -
  have step: "\<exists>r. f r = y" if "map_prod (map_option f) id x = (Some y, ws)"
    for f :: "search_error + grouped_results \<Rightarrow> search_error + search_response" and x y ws
    using that by (cases x) auto
  have "\<exists>r. and_then r (respond rt request am) = Inr response"
    using assms by (auto simp: router_search_def Let_def dest!: step split: sum.splits if_splits)
  then show ?thesis
    by (auto simp: respond_def Let_def result_simps)
qed

lemma resolve_handler_ok:
  assumes "cache_sound ports cache" "cache_sound ports (others cache)"
    and "resolve_handler ports others h cache = Some (Inr handler, cache')"
  obtains i key where "i < 2" "load_active_query_key ports (h i) = Inr key" "cache' = Some (key, handler)"
    "handler_for ports key handler" "cache_sound ports cache'"
proof -
  obtain i key where k: "i < 2" "load_active_query_key ports (h i) = Inr key" "cache' = Some (key, handler)"
    and src: "cache = Some (key, handler) \<or> others cache = Some (key, handler) \<or>
      bootstrap_query_handler_for_key ports (\<lambda>n. h i (n + 4)) key = Some (Inr handler)"
    using assms(3) unfolding resolve_handler_def by (rule resolve_with_retry_ok)
  have for_key: "handler_for ports key handler"
    using src assms(1,2) unfolding cache_sound_def by (blast intro: bootstrap_for_key_ok)
  moreover have "cache_sound ports cache'"
    using k(3) for_key by (simp add: cache_sound_def)
  ultimately show thesis
    using that k by blast
qed

text \<open>
  C15. No request mixes two pairs of index version and static release, however the
  pointers move while it runs.  When a handler is resolved, the cache holds it under the pair that
  was read in one of the two attempts; it was assembled for exactly that pair; and every response it
  gives, for any request and any state of its caches, names that version and that release.
  The cache stays sound.
\<close>

theorem responses_keep_one_pair:
  assumes "cache_sound ports cache" and "\<And>c. cache_sound ports c \<Longrightarrow> cache_sound ports (others c)"
    and "resolve_handler ports others h cache = Some (Inr handler, cache')"
  shows "cache_sound ports cache' \<and>
    (\<exists>key. (load_active_query_key ports (h 0) = Inr key \<or> load_active_query_key ports (h 1) = Inr key) \<and>
       cached_pair cache' = Some key \<and> handler_for ports key handler \<and>
       (\<forall>store_root caches request response.
          handle_search_request ports store_root handler caches request = Some (Inr response) \<longrightarrow>
            index_version response = fst key \<and> static_release_id response = snd key))"
proof -
  obtain i key where k: "i < 2" "load_active_query_key ports (h i) = Inr key" "cache' = Some (key, handler)"
      "handler_for ports key handler" "cache_sound ports cache'"
    using resolve_handler_ok [OF assms(1) assms(2) [OF assms(1)] assms(3)] .
  note for_key = k(4)
  have "index_version response = fst key \<and> static_release_id response = snd key"
    if answer: "handle_search_request ports store_root handler caches request = Some (Inr response)" for store_root caches request response
  proof -
    let ?rt = "handler_router ports store_root handler caches"
    obtain warnings where "router_search ?rt request = (Some (Inr response), warnings)"
      using answer by (cases "router_search ?rt request") (auto simp: handle_search_request_def result_simps)
    then show ?thesis
      using response_version [of ?rt request response warnings "qh_active handler"] for_key
      by (simp add: handler_router_def handler_for_def)
  qed
  moreover have "load_active_query_key ports (h 0) = Inr key \<or> load_active_query_key ports (h 1) = Inr key"
    using k(1,2) by (cases i) auto
  moreover note k(5)
  moreover have "cached_pair cache' = Some key"
    using k(3) by (simp add: cached_pair_def)
  ultimately show ?thesis
    using for_key by blast
qed



section \<open>A publication during a bootstrap\<close>

text \<open>
  Stores that can be read at every moment of a history, with an embedding of the right size, and
  releases that stay where they are once they have been active.
\<close>

definition serves_queries ::
  "'w query_ports \<Rightarrow> string \<Rightarrow> store_kind \<Rightarrow> (nat \<Rightarrow> nat \<Rightarrow> 'w) \<Rightarrow> bool" where
  "serves_queries ports store_root kind h \<longleftrightarrow>
     query_artifact_root ports = Inr store_root \<and>
     (\<forall>i n. store_for ports store_root (h i n) = Inr kind) \<and>
     (\<exists>provider generate name what embedding.
        query_provider ports = Inr provider \<and>
        build_query_embedding_generator ports provider = Inr (generate, name, what) \<and>
        generate ''ignored'' = Inr embedding \<and>
        (\<forall>i n m. \<exists>am. store_load_active_manifest ports store_root kind (h i n) (h i m) = Inr am \<and>
           embedding_dim (am_manifest am) = length embedding)) \<and>
     (\<forall>i n. \<exists>head. store_load_active_release ports store_root kind (h i n) = Inr head \<and>
        (\<forall>hd. head = Some hd \<longrightarrow> (\<forall>j m. \<exists>index.
           mmap_load (qp_sha256 ports) (qp_files ports (h j m)) (path_join store_root (static_release_dir_key (sh_release_id hd))) =
             Some (Inr index))))"

lemma store_manifest_head:
  "store_load_active_manifest ports store_root kind w w' = Inr am \<Longrightarrow> store_load_head ports store_root kind w = Inr (am_head am)"
  by (auto simp: store_load_active_manifest_def load_manifest_of_head_def Let_def result_simps split: if_splits)

lemma changed_version_is_retriable:
  "is_retriable_bootstrap_version_change (bootstrap_error (msg (ACTIVE_VERSION_CHANGED_DURING_BOOTSTRAP # rest)))"
  unfolding is_retriable_bootstrap_version_change_def bootstrap_error_def msg_def
  using str_contains_infix [of "''query lambda bootstrap failed: ''" ACTIVE_VERSION_CHANGED_DURING_BOOTSTRAP "concat rest"]
  by (simp del: str_contains.simps)

text \<open>An attempt over such a history succeeds, or reports that the version changed under it.\<close>

lemma attempt_serves:
  assumes "serves_queries ports store_root kind h"
  obtains v release_id r where "load_active_query_key ports (h i) = Inr (v, release_id)"
    "map_ok mh_version_id (store_load_head ports store_root kind (h i 1)) = Inr v"
    "bootstrap_query_handler_for_key ports (\<lambda>n. h i (n + 4)) (v, release_id) = Some r"
    "map_ok mh_version_id (store_load_head ports store_root kind (h i 5)) = Inr v \<Longrightarrow> is_ok r"
    "\<forall>e. r = Inl e \<longrightarrow> is_retriable_bootstrap_version_change e"
proof -
  obtain provider generate name what embedding where e: "query_provider ports = Inr provider"
      "build_query_embedding_generator ports provider = Inr (generate, name, what)" "generate ''ignored'' = Inr embedding"
      and ams: "\<forall>i n m. \<exists>am. store_load_active_manifest ports store_root kind (h i n) (h i m) = Inr am \<and>
        embedding_dim (am_manifest am) = length embedding"
    using assms unfolding serves_queries_def by (elim conjE exE)
  have base: "query_artifact_root ports = Inr store_root" "store_for ports store_root (h i n) = Inr kind" for n
    using assms by (simp_all add: serves_queries_def)
  obtain am0 where am0: "store_load_active_manifest ports store_root kind (h i 1) (h i 1) = Inr am0"
    using ams by blast
  obtain am where am: "store_load_active_manifest ports store_root kind (h i 5) (h i 6) = Inr am"
      "embedding_dim (am_manifest am) = length embedding"
    using ams by blast
  let ?v = "mh_version_id (am_head am0)"
  obtain head where head: "store_load_active_release ports store_root kind (h i 3) = Inr head"
      "\<forall>hd. head = Some hd \<longrightarrow> (\<forall>j m. \<exists>index.
           mmap_load (qp_sha256 ports) (qp_files ports (h j m)) (path_join store_root (static_release_dir_key (sh_release_id hd))) =
             Some (Inr index))"
  proof -
    have "\<forall>i n. \<exists>head. store_load_active_release ports store_root kind (h i n) = Inr head \<and>
        (\<forall>hd. head = Some hd \<longrightarrow> (\<forall>j m. \<exists>index.
           mmap_load (qp_sha256 ports) (qp_files ports (h j m)) (path_join store_root (static_release_dir_key (sh_release_id hd))) =
             Some (Inr index)))"
      using assms unfolding serves_queries_def by (elim conjE)
    then show thesis
      using that by blast
  qed
  let ?i = "map_option sh_release_id head"
  have key: "load_active_query_key ports (h i) = Inr (?v, ?i)"
    using base store_manifest_head [OF am0] head(1)
    by (simp add: load_active_query_key_def load_active_query_version_def resolve_active_static_release_id_def
        load_active_version_def numeral_3_eq_3)
  have static: "\<exists>index. try_load_static_searcher ports store_root ?i (h i 7) = Some (Inr index)"
  proof (cases head)
    case (Some hd)
    then obtain index where
      "mmap_load (qp_sha256 ports) (qp_files ports (h i 7)) (path_join store_root (static_release_dir_key (sh_release_id hd))) = Some (Inr index)"
      using head(2) by blast
    then show ?thesis
      using Some by (simp add: try_load_static_searcher_def Let_def)
  qed (simp add: try_load_static_searcher_def)
  then obtain index where index: "try_load_static_searcher ports store_root ?i (h i 7) = Some (Inr index)"
    by blast
  let ?r = "if mh_version_id (am_head am) \<noteq> ?v
    then Inl (bootstrap_error (msg [ACTIVE_VERSION_CHANGED_DURING_BOOTSTRAP, '': expected '', show_u64 ?v, '', got '',
                 show_u64 (mh_version_id (am_head am))]))
    else Inr \<lparr> qh_active = am, qh_embed = generate, qh_static = index, qh_release_id = ?i \<rparr>"
  have boot: "bootstrap_query_handler_for_key ports (\<lambda>n. h i (n + 4)) (?v, ?i) = Some ?r"
    using base e am index
    by (simp add: bootstrap_query_handler_for_key_def bootstrap_query_embedding_handler_def panic_then_Some
        check_bootstrap_def)
  show thesis
    using that [OF key _ boot] store_manifest_head [OF am0] store_manifest_head [OF am(1)] changed_version_is_retriable
    by simp
qed

lemma resolve_handler_serves:
  assumes "serves_queries ports store_root kind h"
    and "\<And>n. map_ok mh_version_id (store_load_head ports store_root kind (h 1 n)) = Inr v"
  shows "\<exists>handler cache'. resolve_handler ports others h cache = Some (Inr handler, cache')"
proof -
  have attempt: "\<exists>r cache'. resolve_versioned_handler (load_active_query_key ports (h i))
      (bootstrap_query_handler_for_key ports (\<lambda>n. h i (n + 4))) c = Some (r, cache') \<and>
      (\<forall>e. r = Inl e \<longrightarrow> is_retriable_bootstrap_version_change e) \<and> (i = 1 \<longrightarrow> is_ok r)" for i c
  proof -
    obtain u release_id r where *: "load_active_query_key ports (h i) = Inr (u, release_id)"
      "map_ok mh_version_id (store_load_head ports store_root kind (h i 1)) = Inr u"
      "bootstrap_query_handler_for_key ports (\<lambda>n. h i (n + 4)) (u, release_id) = Some r"
      "map_ok mh_version_id (store_load_head ports store_root kind (h i 5)) = Inr u \<Longrightarrow> is_ok r"
      "\<forall>e. r = Inl e \<longrightarrow> is_retriable_bootstrap_version_change e"
      using attempt_serves [OF assms(1), of i] by (metis (no_types, lifting))
    have "i = 1 \<longrightarrow> is_ok r"
      using *(2,4) assms(2) by (metis sum.inject(2))
    then show ?thesis
      using *(1,3,5) by (auto simp: resolve_versioned_handler_def split: option.splits)
  qed
  obtain r c1 where 1: "resolve_versioned_handler (load_active_query_key ports (h 0))
      (bootstrap_query_handler_for_key ports (\<lambda>n. h 0 (n + 4))) cache = Some (r, c1)"
      "\<forall>e. r = Inl e \<longrightarrow> is_retriable_bootstrap_version_change e"
    using attempt [of 0 cache] by blast
  obtain r' c2 where 2: "resolve_versioned_handler (load_active_query_key ports (h 1))
      (bootstrap_query_handler_for_key ports (\<lambda>n. h 1 (n + 4))) (others c1) = Some (r', c2)" "is_ok r'"
    using attempt [of 1 "others c1"] by blast
  show ?thesis
  proof (cases r)
    case (Inl e)
    then show ?thesis
      using 1 2 by (cases r') (simp_all add: resolve_handler_def resolve_versioned_handler_with_retry_def)
  next
    case (Inr handler)
    then show ?thesis
      using 1 by (simp add: resolve_handler_def resolve_versioned_handler_with_retry_def)
  qed
qed

text \<open>
  C16. A publication or activation that lands while a handler is assembled does not fail
  the request.  When the stores are readable throughout and the version is the same at every
  moment of the second attempt, the service resolves a handler, whatever moved during the first
  attempt and whatever is in the cache.
\<close>

theorem publication_is_absorbed:
  assumes "serves_queries ports store_root kind h"
    and "\<And>n. map_ok mh_version_id (store_load_head ports store_root kind (h 1 n)) = Inr v"
  shows "\<exists>handler cache'. resolve_handler ports others h cache = Some (Inr handler, cache')"
  using assms by (rule resolve_handler_serves)


section \<open>A service to run\<close>

text \<open>A world says whether version 8 has replaced version 7.\<close>

definition demo_env_vars :: env_vars where
  "demo_env_vars name =
     (if name = ''LTSEARCH_QUERY_ARTIFACT_ROOT'' then Some ''/r''
      else if name = ''LTSEARCH_QUERY_EMBEDDING_PROVIDER'' then Some ''fixed''
      else if name = ''LTSEARCH_QUERY_FIXED_EMBEDDING'' then Some ''1,1,1,1''
      else None)"

definition demo_query_ports :: "bool query_ports" where
  "demo_query_ports = \<lparr> qp_env = demo_env_vars, qp_ltembed_enabled = False, qp_parse_f32 = (\<lambda>_. Some f32_one),
     qp_ltembed = Inl [], qp_open_db = (\<lambda>_ _. None), qp_tables = (\<lambda>_. empty_db), qp_faults = (\<lambda>_. no_faults),
     qp_read = (\<lambda>w path. if path = ''/r/static/_head'' then Inl NotFound
       else if path = ''/r/index/_head'' then Inr (if w then ''8'' else ''7'') else Inr path),
     qp_files = (\<lambda>_ _. Inl []),
     qp_parse_head = (\<lambda>s. Inr (manifest_head_new (if s = ''8'' then 8 else 7) 1700000000000)),
     qp_parse_manifest = (\<lambda>s. Inr (sample_manifest (if s = ''/r/index/versions/8/manifest.json'' then 8 else 7))),
     qp_parse_static_head = (\<lambda>_. Inl []), qp_show_store_error = (\<lambda>_. []), qp_show_static_error = (\<lambda>_. []),
     qp_sha256 = id, qp_quoted = id, qp_keyword = demo_keyword, qp_vector = demo_vector, qp_static = demo_search,
     qp_rrf_k = rrf_60, qp_iter = id, qp_latency = 0, qp_panic = None, qp_unwinds = True \<rparr>"

definition demo_moves :: "nat \<Rightarrow> nat \<Rightarrow> bool" where
  "demo_moves i n \<longleftrightarrow> i \<noteq> 0 \<or> 5 \<le> n"

lemma demo_head: "store_load_head demo_query_ports ''/r'' FileStore w = Inr (manifest_head_new (if w then 8 else 7) 1700000000000)"
proof -
  have "path_join ''/r'' INDEX_HEAD_KEY = ''/r/index/_head''"
    by code_simp
  then show ?thesis
    by (cases w) (simp_all add: store_load_head_def local_load_head_def ms_read_to_string_def demo_query_ports_def
      manifest_head_from_json_def manifest_head_validate_def manifest_head_new_def ensure_def MIN_PLAUSIBLE_EPOCH_MILLIS_def)
qed

lemma demo_manifest:
  "store_load_active_manifest demo_query_ports ''/r'' FileStore w w' =
     Inr \<lparr> am_head = manifest_head_new (if w then 8 else 7) 1700000000000, am_manifest = sample_manifest (if w then 8 else 7) \<rparr>"
proof -
  have "path_join ''/r'' (version_manifest_key 7) = ''/r/index/versions/7/manifest.json''"
      "path_join ''/r'' (version_manifest_key 8) = ''/r/index/versions/8/manifest.json''"
    by code_simp+
  then have "load_manifest_of_head (qp_read demo_query_ports w') (qp_parse_manifest demo_query_ports) ''/r''
      (manifest_head_new v 1700000000000) = Inr \<lparr> am_head = manifest_head_new v 1700000000000, am_manifest = sample_manifest v \<rparr>"
    if "v = 7 \<or> v = 8" for v
    using that sample_manifest_valid [of v]
    by (auto simp: load_manifest_of_head_def ms_read_to_string_def demo_query_ports_def manifest_head_new_def Let_def)
      (simp_all add: sample_manifest_def)
  then show ?thesis
    by (simp add: store_load_active_manifest_def demo_head)
qed

lemma demo_serves: "serves_queries demo_query_ports ''/r'' FileStore demo_moves"
proof -
  have "query_artifact_root demo_query_ports = Inr ''/r''"
    by code_simp
  moreover have "store_for demo_query_ports ''/r'' w = Inr FileStore" for w
    by (simp add: store_for_def demo_query_ports_def)
  moreover have "query_provider demo_query_ports = Inr FixedProvider"
    by code_simp
  moreover have "build_query_embedding_generator demo_query_ports FixedProvider =
      Inr (\<lambda>_. Inr (replicate 4 f32_one), ''LTSEARCH_QUERY_FIXED_EMBEDDING'', ''dimension'')"
  proof -
    have "split_on CHR '','' ''1,1,1,1'' = [''1'', ''1'', ''1'', ''1'']" "str_trim ''1'' = ''1''"
      by code_simp+
    moreover have "f32_is_finite f32_one"
      by (simp add: fl_eval f32_one_def)
    ultimately have "parse_fixed_embedding (\<lambda>_. Some f32_one) ''1,1,1,1'' var = Inr [f32_one, f32_one, f32_one, f32_one]" for var
      by (simp add: parse_fixed_embedding_def parse_embedding_part_def ok_or_def Let_def)
    moreover have "[f32_one, f32_one, f32_one, f32_one] = replicate 4 f32_one"
      by (simp add: numeral_eq_Suc)
    ultimately have "parse_fixed_embedding (\<lambda>_. Some f32_one) ''1,1,1,1'' var = Inr (replicate 4 f32_one)" for var
      by (simp only:)
    then show ?thesis
      by (simp add: build_query_embedding_generator_def fixed_generator_from_env_def demo_query_ports_def demo_env_vars_def
          ok_or_def)
  qed
  moreover have "store_load_active_release demo_query_ports ''/r'' FileStore w = Inr None" for w
  proof -
    have "path_join ''/r'' STATIC_HEAD_KEY = ''/r/static/_head''"
      by code_simp
    then show ?thesis
      by (simp add: store_load_active_release_def local_load_active_release_def demo_query_ports_def)
  qed
  ultimately show ?thesis
    unfolding serves_queries_def by (simp add: demo_manifest) (simp add: sample_manifest_def)
qed

text \<open>The version moves from 7 to 8 between the key and the bootstrap of the first attempt.\<close>

lemma publication_is_absorbed_witness:
  "\<exists>handler cache'. resolve_handler demo_query_ports id demo_moves None = Some (Inr handler, cache')"
  using publication_is_absorbed [OF demo_serves, of 8 id None]
  by (simp add: demo_head demo_moves_def) (simp add: manifest_head_new_def)

lemma responses_keep_one_pair_witness:
  "\<exists>handler cache' key. resolve_handler demo_query_ports id demo_moves None = Some (Inr handler, cache') \<and>
     cached_pair cache' = Some key \<and> handler_for demo_query_ports key handler"
proof -
  obtain handler cache' where r: "resolve_handler demo_query_ports id demo_moves None = Some (Inr handler, cache')"
    using resolve_handler_serves [OF demo_serves, of 8 id None]
    by (simp add: demo_head demo_moves_def) (auto simp: manifest_head_new_def)
  have "cache_sound demo_query_ports None"
    by (simp add: cache_sound_def)
  then show ?thesis
    using responses_keep_one_pair [OF _ _ r] r by auto
qed

end
