(* ===== verification/Endpoints.thy ===== *)
theory Endpoints
  imports Query_Service Build_Worker Write_Api
begin

text \<open>
  The endpoints (\<^verbatim>\<open>src/http/*.rs\<close>, \<^verbatim>\<open>src/lambda_events.rs\<close> and the handlers of
  \<^verbatim>\<open>src/bin/query_lambda.rs\<close>, \<^verbatim>\<open>src/bin/write_lambda.rs\<close>, \<^verbatim>\<open>src/bin/index_builder_lambda.rs\<close>):
  bodies and events are decoded, requests validated and passed to the services, results put in an
  envelope.  Routing, JSON and base64 are those of libraries: parsers and printers are arguments.
\<close>


section \<open>Responses\<close>

datatype 'b http_body = JsonBody 'b | ErrorBody string string

record 'b http_response =
  hr_status :: nat
  hr_body :: "'b http_body"

definition http_error :: "string \<Rightarrow> string \<Rightarrow> 'b http_response" where
  "http_error kind message =
     \<lparr> hr_status = status_code_for_error_type kind, hr_body = ErrorBody kind message \<rparr>"

definition http_json :: "'b \<Rightarrow> 'b http_response" where
  "http_json body = \<lparr> hr_status = 200, hr_body = JsonBody body \<rparr>"

record health_body =
  hb_status :: string
  hb_component :: string
  hb_index_version :: "u64 option"
  hb_static_release_id :: "string option"
  hb_detail :: "string option"

definition health_response :: "health_body \<Rightarrow> nat \<times> health_body" where
  "health_response body = (if hb_status body = ''ok'' then 200 else 503, body)"

definition port_from_env :: "env_vars \<Rightarrow> nat" where
  "port_from_env env = (case Option.bind (env ''LTSEARCH_HTTP_PORT'') (parse_unsigned (2 ^ 16)) of Some p \<Rightarrow> p | None \<Rightarrow> 8080)"

text \<open>The envelope of the API gateway.\<close>

record gateway_request =
  gr_raw_path :: string
  gr_body :: "string option"
  gr_is_base64 :: bool

record gateway_response =
  gw_status :: nat
  gw_headers :: "(string \<times> string) list"
  gw_body :: string
  gw_is_base64 :: bool

definition body_bytes :: "(string \<Rightarrow> string + string) \<Rightarrow> gateway_request \<Rightarrow> string + string" where
  "body_bytes decode_base64 event =
     (case gr_body event of
        None \<Rightarrow> Inr []
      | Some body \<Rightarrow>
          if gr_is_base64 event then map_err (\<lambda>e. ''invalid base64 request body: '' @ e) (decode_base64 body) else Inr body)"

definition unserializable :: "string \<Rightarrow> string" where
  \<open>unserializable e = msg [''{"error_type":"execution_error","message":"failed to serialize response: '', e, ''"}'']\<close>

definition gateway_json :: "nat \<Rightarrow> string + string \<Rightarrow> gateway_response" where
  "gateway_json status serialized =
     \<lparr> gw_status = status, gw_headers = [(''content-type'', ''application/json'')],
       gw_body = (case serialized of Inr body \<Rightarrow> body | Inl e \<Rightarrow> unserializable e), gw_is_base64 = False \<rparr>"

record gateway_ports =
  gp_parse_event :: "string \<Rightarrow> string + gateway_request"
  gp_base64 :: "string \<Rightarrow> string + string"
  gp_error_json :: "string \<Rightarrow> string \<Rightarrow> string + string"

definition gateway_error :: "gateway_ports \<Rightarrow> string \<Rightarrow> string \<Rightarrow> gateway_response" where
  "gateway_error gp kind message =
     gateway_json (status_code_for_error_type kind) (gp_error_json gp kind message)"

text \<open>The event of a request, and the bytes of its body.\<close>

definition decode_event :: "gateway_ports \<Rightarrow> string \<Rightarrow> gateway_response + gateway_request \<times> string" where
  "decode_event gp payload =
     and_then (map_err (\<lambda>source. gateway_error gp ''validation_error'' (''failed to deserialize API Gateway event: '' @ source))
       (gp_parse_event gp payload)) (\<lambda>event.
     map_ok (Pair event) (map_err (gateway_error gp ''validation_error'') (body_bytes (gp_base64 gp) event)))"


section \<open>The query endpoint\<close>

text \<open>
  The state of the service is its cache; \<^term>\<open>None\<close> is a poisoned lock.  \<open>qs_meanwhile\<close> is what
  other requests do to it between the resolution of a handler and the report of the pair.
\<close>

type_synonym query_state = "query_cache option"

record 'w query_server =
  qs_ports :: "'w query_ports"
  qs_parse_request :: "string \<Rightarrow> string + search_request"
  qs_probe :: "string + nat"
  qs_synced :: "string + unit"
  qs_others :: "query_cache \<Rightarrow> query_cache"
  qs_meanwhile :: "query_cache \<Rightarrow> query_state"
  qs_version_history :: "nat \<Rightarrow> 'w"
  qs_history :: "nat \<Rightarrow> nat \<Rightarrow> 'w"
  qs_caches :: "nat \<Rightarrow> lance_cache"
  qs_join_error :: string

text \<open>The key is read before the lock is taken, which panics when it is poisoned.\<close>

definition service_resolve ::
  "'w query_server \<Rightarrow> query_state \<Rightarrow> (query_lambda_error + query_handler) option \<times> query_state" where
  "service_resolve srv st =
     (case st of
        Some cache \<Rightarrow>
          (case resolve_handler (qs_ports srv) (qs_others srv) (qs_history srv) cache of
             None \<Rightarrow> (None, None)
           | Some (r, cache') \<Rightarrow> (Some r, Some cache'))
      | None \<Rightarrow>
          (case load_active_query_key (qs_ports srv) (qs_history srv 0) of
             Inr _ \<Rightarrow> (None, None)
           | Inl e \<Rightarrow>
               if is_retriable_bootstrap_version_change e
               then (case load_active_query_key (qs_ports srv) (qs_history srv 1) of
                       Inr _ \<Rightarrow> (None, None)
                     | Inl e' \<Rightarrow> (Some (Inl e'), None))
               else (Some (Inl e), None)))"

definition service_root :: "'w query_server \<Rightarrow> string" where
  "service_root srv = (case query_artifact_root (qs_ports srv) of Inr store_root \<Rightarrow> store_root | Inl _ \<Rightarrow> [])"

definition resolve_and_search ::
  "'w query_server \<Rightarrow> search_request \<Rightarrow> query_state \<Rightarrow> (query_lambda_error + search_response) option \<times> query_state" where
  "resolve_and_search srv request st =
     (case service_resolve srv st of
        (Some (Inr handler), st') \<Rightarrow>
          (handle_search_request (qs_ports srv) (service_root srv) handler (qs_caches srv) request, st')
      | (Some (Inl e), st') \<Rightarrow> (Some (Inl e), st')
      | (None, st') \<Rightarrow> (None, st'))"

text \<open>
  The search runs in a task of its own, so its panic is an error in a build whose panics unwind; in
  the release profile it ends the process, and there is no answer.
\<close>

definition handle_query ::
  "'w query_server \<Rightarrow> string \<Rightarrow> query_state \<Rightarrow> search_response http_response option \<times> query_state" where
  "handle_query srv body st =
     (case qs_parse_request srv body of
        Inl source \<Rightarrow> (Some (http_error ''validation_error'' (''failed to deserialize search request: '' @ source)), st)
      | Inr request \<Rightarrow>
          (case search_request_validate request of
             Inl e \<Rightarrow> (Some (http_error ''validation_error'' (show_validation_error e)), st)
           | Inr _ \<Rightarrow>
               (case qs_synced srv of
                  Inl e \<Rightarrow> (Some (http_error ''execution_error'' (''query bootstrap failed: '' @ e)), st)
                | Inr _ \<Rightarrow>
                    map_prod (\<lambda>r. case r of
                        Some (Inr response) \<Rightarrow> Some (http_json response)
                      | Some (Inl e) \<Rightarrow> Some (http_error (ql_error_type e) (ql_message e))
                      | None \<Rightarrow>
                          if qp_unwinds (qs_ports srv)
                          then Some (http_error ''execution_error'' (''query task panicked: '' @ qs_join_error srv))
                          else None)
                      id (resolve_and_search srv request st))))"

text \<open>The same on the API gateway, where a panic ends the invocation.\<close>

definition decode_search_request :: "gateway_ports \<Rightarrow> 'w query_server \<Rightarrow> string \<Rightarrow> gateway_response + search_request" where
  "decode_search_request gp srv payload =
     and_then (decode_event gp payload) (\<lambda>(_, raw).
       map_err (\<lambda>source. gateway_error gp ''validation_error'' (''failed to deserialize search request: '' @ source))
         (qs_parse_request srv raw))"

definition query_function ::
  "gateway_ports \<Rightarrow> (search_response \<Rightarrow> string + string) \<Rightarrow> 'w query_server \<Rightarrow> string \<Rightarrow> query_state \<Rightarrow>
     gateway_response option \<times> query_state" where
  "query_function gp ser srv payload st =
     (case decode_search_request gp srv payload of
        Inl response \<Rightarrow> (Some response, st)
      | Inr request \<Rightarrow>
          (case search_request_validate request of
             Inl e \<Rightarrow> (Some (gateway_error gp ''validation_error'' (show_validation_error e)), st)
           | Inr _ \<Rightarrow>
               (case qs_synced srv of
                  Inl e \<Rightarrow> (Some (gateway_error gp ''execution_error'' (''query lambda bootstrap failed: '' @ e)), st)
                | Inr _ \<Rightarrow>
                    map_prod (map_option (\<lambda>r. case r of
                        Inr response \<Rightarrow> gateway_json 200 (ser response)
                      | Inl e \<Rightarrow> gateway_error gp (ql_error_type e) (ql_message e)))
                      id (resolve_and_search srv request st))))"


section \<open>Health\<close>

definition wide_colon :: string where
  "wide_colon =
     [CHR 0xEF, CHR 0xBC, CHR 0x9A]"

definition RELOAD_HINT :: string where
  "RELOAD_HINT =
     [CHR 0xEF, CHR 0xBC, CHR 0x9B, CHR 0xE8, CHR 0xAF, CHR 0xB7, CHR 0xE9, CHR 0x87, CHR 0x8D, CHR 0xE6,
      CHR 0x96, CHR 0xB0, CHR 0xE6, CHR 0x8B, CHR 0x89, CHR 0xE5, CHR 0x8F, CHR 0x96] @
     '' LTEmbed bundle '' @
     [CHR 0xE5, CHR 0x88, CHR 0xB0, CHR 0xE6, CHR 0x8C, CHR 0x82, CHR 0xE8, CHR 0xBD, CHR 0xBD, CHR 0xE7,
      CHR 0x9B, CHR 0xAE, CHR 0xE5, CHR 0xBD, CHR 0x95, CHR 0xE5, CHR 0x90, CHR 0x8E, CHR 0xE9, CHR 0x87,
      CHR 0x8D, CHR 0xE5, CHR 0x90, CHR 0xAF, CHR 0xE5, CHR 0xAE, CHR 0xB9, CHR 0xE5, CHR 0x99, CHR 0xA8]"

definition NOT_PUBLISHED_YET :: string where
  "NOT_PUBLISHED_YET =
     [CHR 0xE7, CHR 0xB4, CHR 0xA2, CHR 0xE5, CHR 0xBC, CHR 0x95, CHR 0xE5, CHR 0xB0, CHR 0x9A, CHR 0xE6,
      CHR 0x9C, CHR 0xAA, CHR 0xE5, CHR 0x8F, CHR 0x91, CHR 0xE5, CHR 0xB8, CHR 0x83, CHR 0xEF, CHR 0xBC,
      CHR 0x88, CHR 0xE6, CHR 0x97, CHR 0xA0] @
     '' _head'' @
     [CHR 0xEF, CHR 0xBC, CHR 0x89, CHR 0xEF, CHR 0xBC, CHR 0x8C, CHR 0xE7, CHR 0xAD, CHR 0x89, CHR 0xE5,
      CHR 0xBE, CHR 0x85, CHR 0xE9, CHR 0xA6, CHR 0x96, CHR 0xE6, CHR 0xAC, CHR 0xA1, CHR 0xE5, CHR 0xAF,
      CHR 0xBC, CHR 0xE5, CHR 0x85, CHR 0xA5]"

definition probe_detail :: "env_vars \<Rightarrow> string \<Rightarrow> string \<Rightarrow> string" where
  "probe_detail env dir_var detail =
     (case env dir_var of
        Some bundle_dir \<Rightarrow> if bundle_dir \<noteq> [] then msg [''bundle_dir='', bundle_dir, wide_colon, detail] else detail
      | None \<Rightarrow> detail) @ RELOAD_HINT"

definition QUERY_COMPONENT :: string where "QUERY_COMPONENT = ''ltsearch-query''"
definition WRITE_COMPONENT :: string where "WRITE_COMPONENT = ''ltsearch-write''"
definition BUILD_COMPONENT :: string where "BUILD_COMPONENT = ''ltsearch-index-builder''"

definition unavailable :: "u64 option \<Rightarrow> string \<Rightarrow> nat \<times> health_body" where
  "unavailable version detail =
     health_response \<lparr> hb_status = ''unavailable'', hb_component = QUERY_COMPONENT, hb_index_version = version,
       hb_static_release_id = None, hb_detail = Some detail \<rparr>"

definition query_ok :: "u64 option \<Rightarrow> string option \<Rightarrow> string option \<Rightarrow> nat \<times> health_body" where
  "query_ok version release_id detail =
     health_response \<lparr> hb_status = ''ok'', hb_component = QUERY_COMPONENT, hb_index_version = version,
       hb_static_release_id = release_id, hb_detail = detail \<rparr>"

text \<open>The pair is read from the cache in one step; a poisoned lock panics.\<close>

definition report_pair :: "u64 \<Rightarrow> query_state \<Rightarrow> (nat \<times> health_body) option" where
  "report_pair version st =
     map_option (\<lambda>cache. case cached_pair cache of
         Some (cached, release_id) \<Rightarrow> query_ok (Some cached) release_id None
       | None \<Rightarrow> query_ok (Some version) None None) st"

definition handle_query_health :: "'w query_server \<Rightarrow> query_state \<Rightarrow> (nat \<times> health_body) option \<times> query_state" where
  "handle_query_health srv st =
     (case qs_probe srv of
        Inl detail \<Rightarrow>
          (Some (unavailable None (probe_detail (qp_env (qs_ports srv)) ''LTSEARCH_QUERY_LTEMBED_BUNDLE_DIR'' detail)), st)
      | Inr _ \<Rightarrow>
          (case qs_synced srv of
             Inl e \<Rightarrow> (Some (unavailable None (''artifact sync failed: '' @ e)), st)
           | Inr _ \<Rightarrow>
               (case load_active_query_version_opt (qs_ports srv) (qs_version_history srv) of
                  Inl e \<Rightarrow> (Some (unavailable None (ql_message e)), st)
                | Inr None \<Rightarrow> (Some (query_ok None None (Some NOT_PUBLISHED_YET)), st)
                | Inr (Some version) \<Rightarrow>
                    (case service_resolve srv st of
                       (None, st') \<Rightarrow>
                         (if qp_unwinds (qs_ports srv)
                          then Some (unavailable (Some version) (''health probe panicked: '' @ qs_join_error srv))
                          else None, st')
                     | (Some (Inl e), st') \<Rightarrow> (Some (unavailable (Some version) (ql_message e)), st')
                     | (Some (Inr _), st') \<Rightarrow>
                         (let later = Option.bind st' (qs_meanwhile srv) in (report_pair version later, later))))))"

definition handle_write_health :: "nat \<times> health_body" where
  "handle_write_health =
     health_response \<lparr> hb_status = ''ok'', hb_component = WRITE_COMPONENT, hb_index_version = None,
       hb_static_release_id = None, hb_detail = None \<rparr>"

definition handle_build_health :: "env_vars \<Rightarrow> string + nat \<Rightarrow> nat \<times> health_body" where
  "handle_build_health env probe =
     (case probe of
        Inl detail \<Rightarrow>
          health_response \<lparr> hb_status = ''unavailable'', hb_component = BUILD_COMPONENT, hb_index_version = None,
            hb_static_release_id = None, hb_detail = Some (probe_detail env ''LTSEARCH_BUILD_LTEMBED_BUNDLE_DIR'' detail) \<rparr>
      | Inr _ \<Rightarrow>
          health_response \<lparr> hb_status = ''ok'', hb_component = BUILD_COMPONENT, hb_index_version = None,
            hb_static_release_id = None, hb_detail = None \<rparr>)"


section \<open>The write endpoint\<close>

record 's write_server =
  ws_parse_write :: "string \<Rightarrow> string + write_request"
  ws_parse_delete :: "string \<Rightarrow> string + string list"
  ws_ingest :: "document list \<Rightarrow> 's \<Rightarrow> (ingest_error + write_response) \<times> 's"
  ws_delete :: "string list \<Rightarrow> 's \<Rightarrow> (ingest_error + write_response) \<times> 's"

definition write_dispatch :: "'s write_server \<Rightarrow> write_request \<Rightarrow> 's \<Rightarrow> write_response http_response \<times> 's" where
  "write_dispatch srv request s =
     map_prod (\<lambda>r. case r of
         Inr response \<Rightarrow> http_json response
       | Inl e \<Rightarrow> http_error (error_type e) (error_message e))
       id (handle_write_request (ws_ingest srv) (ws_delete srv) request s)"

definition handle_write :: "'s write_server \<Rightarrow> string \<Rightarrow> 's \<Rightarrow> write_response http_response \<times> 's" where
  "handle_write srv body s =
     (case ws_parse_write srv body of
        Inl source \<Rightarrow> (http_error ''validation_error'' (''failed to deserialize write request: '' @ source), s)
      | Inr request \<Rightarrow> write_dispatch srv request s)"

definition handle_delete :: "'s write_server \<Rightarrow> string \<Rightarrow> 's \<Rightarrow> write_response http_response \<times> 's" where
  "handle_delete srv body s =
     (case ws_parse_delete srv body of
        Inl source \<Rightarrow> (http_error ''validation_error'' (''failed to deserialize delete request: '' @ source), s)
      | Inr doc_ids \<Rightarrow> write_dispatch srv (DeleteRequest doc_ids) s)"

definition decode_write_request :: "gateway_ports \<Rightarrow> 's write_server \<Rightarrow> string \<Rightarrow> gateway_response + write_request" where
  "decode_write_request gp srv payload =
     and_then (decode_event gp payload) (\<lambda>(event, raw).
       if gr_raw_path event = ''/delete'' then
         map_ok DeleteRequest
           (map_err (\<lambda>source. gateway_error gp ''validation_error'' (''failed to deserialize delete request: '' @ source))
             (ws_parse_delete srv raw))
       else if gr_raw_path event = ''/write'' then
         map_err (\<lambda>source. gateway_error gp ''validation_error'' (''failed to deserialize write request: '' @ source))
           (ws_parse_write srv raw)
       else Inl (gateway_error gp ''not_found'' (''unsupported path: '' @ gr_raw_path event)))"

definition write_function ::
  "gateway_ports \<Rightarrow> (write_response \<Rightarrow> string + string) \<Rightarrow> 's write_server \<Rightarrow> string \<Rightarrow> 's \<Rightarrow> gateway_response \<times> 's" where
  "write_function gp ser srv payload s =
     (case decode_write_request gp srv payload of
        Inl response \<Rightarrow> (response, s)
      | Inr request \<Rightarrow>
          map_prod (\<lambda>r. case r of
              Inr response \<Rightarrow> gateway_json 200 (ser response)
            | Inl e \<Rightarrow> gateway_error gp (error_type e) (error_message e))
            id (handle_write_request (ws_ingest srv) (ws_delete srv) request s))"


section \<open>The build queue as a trigger\<close>

record sqs_record =
  sr_message_id :: string
  sr_body :: string

text \<open>The identifiers of the records that failed; the number tells the records of a batch apart.\<close>

fun process_sqs_records ::
  "(nat \<Rightarrow> sqs_record \<Rightarrow> 's \<Rightarrow> (string + unit) \<times> 's) \<Rightarrow> nat \<Rightarrow> sqs_record list \<Rightarrow> 's \<Rightarrow> string list \<times> 's" where
  "process_sqs_records process n [] s = ([], s)"
| "process_sqs_records process n (r # records) s =
     (case process n r s of
        (Inr _, s1) \<Rightarrow> process_sqs_records process (Suc n) records s1
      | (Inl e, s1) \<Rightarrow> map_prod (Cons (sr_message_id r)) id (process_sqs_records process (Suc n) records s1))"

definition index_builder_function ::
  "(string \<Rightarrow> string + sqs_record list) \<Rightarrow> (nat \<Rightarrow> 's worker) \<Rightarrow> string \<Rightarrow> 's \<Rightarrow> (string + string list) \<times> 's" where
  "index_builder_function parse_event workers payload s =
     (case parse_event payload of
        Inl source \<Rightarrow> (Inl (''failed to deserialize SQS event: '' @ source), s)
      | Inr records \<Rightarrow>
          map_prod Inr id (process_sqs_records
            (\<lambda>n r s. map_prod (map_ok (\<lambda>_. ())) id (process_queue_message (workers n) (sr_body r) s)) 0 records s))"



section \<open>The gateway answers like the server\<close>

text \<open>An HTTP response in the envelope of the gateway.\<close>

definition enveloped :: "gateway_ports \<Rightarrow> ('b \<Rightarrow> string + string) \<Rightarrow> 'b http_response \<Rightarrow> gateway_response" where
  "enveloped gp ser r =
     (case hr_body r of
        JsonBody body \<Rightarrow> gateway_json (hr_status r) (ser body)
      | ErrorBody kind message \<Rightarrow> gateway_error gp kind message)"

lemma enveloped_simps [simp]:
  "enveloped gp ser (http_error kind message) = gateway_error gp kind message"
  "enveloped gp ser (http_json body) = gateway_json 200 (ser body)"
  by (simp_all add: enveloped_def http_error_def http_json_def)

lemma status_simps [simp]:
  "hr_status (http_error kind message) = status_code_for_error_type kind"
  "hr_status (http_json body) = 200" "gw_status (gateway_json n serialized) = n"
  "gw_status (gateway_error gp kind message) = status_code_for_error_type kind"
  by (simp_all add: http_error_def http_json_def gateway_json_def gateway_error_def)

text \<open>The answers to a well-formed search whose artifact sync has failed, which each deployment words in its own way.\<close>

definition sync_failed :: "'w query_server \<Rightarrow> string \<Rightarrow> string \<Rightarrow> bool" where
  "sync_failed srv raw e \<longleftrightarrow> qs_synced srv = Inl e \<and>
     (\<exists>request. qs_parse_request srv raw = Inr request \<and> search_request_validate request = Inr ())"

lemma query_function_answers:
  assumes "decode_event gp payload = Inr (event, raw)"
    and "query_function gp ser srv payload st = (Some response, st')"
  shows "\<exists>http. handle_query srv raw st = (Some http, st') \<and> gw_status response = hr_status http \<and>
    (if \<exists>e. sync_failed srv raw e
     then \<exists>e. sync_failed srv raw e \<and> st' = st \<and>
       http = http_error ''execution_error'' (''query bootstrap failed: '' @ e) \<and>
       response = gateway_error gp ''execution_error'' (''query lambda bootstrap failed: '' @ e)
     else response = enveloped gp ser http)"
proof (cases "qs_parse_request srv raw")
  case (Inl source)
  then show ?thesis
    using assms by (auto simp: query_function_def decode_search_request_def handle_query_def sync_failed_def)
next
  case (Inr request)
  then have decoded: "decode_search_request gp srv payload = Inr request"
    using assms(1) by (simp add: decode_search_request_def)
  show ?thesis
  proof (cases "search_request_validate request")
    case (Inl e)
    then show ?thesis
      using assms(2) decoded Inr by (auto simp: query_function_def handle_query_def sync_failed_def)
  next
    case valid: (Inr u)
    show ?thesis
    proof (cases "qs_synced srv")
      case (Inl e)
      then show ?thesis
        using assms(2) decoded Inr valid by (auto simp: query_function_def handle_query_def sync_failed_def)
    next
      case synced: (Inr v)
      obtain r st1 where 1: "resolve_and_search srv request st = (r, st1)"
        by fastforce
      show ?thesis
        using assms(2) decoded Inr valid synced 1
        by (cases r) (auto simp: query_function_def handle_query_def sync_failed_def split: sum.splits)
    qed
  qed
qed

lemma query_function_panics:
  assumes "decode_event gp payload = Inr (event, raw)"
    and "query_function gp ser srv payload st = (None, st')"
  shows "handle_query srv raw st =
    (if qp_unwinds (qs_ports srv)
     then Some (http_error ''execution_error'' (''query task panicked: '' @ qs_join_error srv)) else None, st')"
  using assms
  by (auto simp: query_function_def decode_search_request_def handle_query_def map_prod_def split: sum.splits prod.splits)

lemma write_function_answers:
  assumes "decode_event gp payload = Inr (event, raw)"
  shows "write_function gp ser srv payload s =
    (if gr_raw_path event = ''/delete'' then map_prod (enveloped gp ser) id (handle_delete srv raw s)
     else if gr_raw_path event = ''/write'' then map_prod (enveloped gp ser) id (handle_write srv raw s)
     else (gateway_error gp ''not_found'' (''unsupported path: '' @ gr_raw_path event), s))"
proof -
  have dispatch: "map_prod (\<lambda>r. case r of
              Inr response \<Rightarrow> gateway_json 200 (ser response)
            | Inl e \<Rightarrow> gateway_error gp (error_type e) (error_message e))
            id (handle_write_request (ws_ingest srv) (ws_delete srv) request s) =
        map_prod (enveloped gp ser) id (write_dispatch srv request s)" for request
    by (cases "handle_write_request (ws_ingest srv) (ws_delete srv) request s")
      (auto simp: write_dispatch_def split: sum.splits)
  show ?thesis
    using assms
    by (auto simp: write_function_def decode_write_request_def handle_delete_def handle_write_def dispatch split: sum.splits)
qed

text \<open>
  C18. A request gets the same answer on both deployments, with one difference in wording and
  one in panics.  When the event decodes to a body and the query function answers, the server answers
  that body with the same status and leaves the same cache, and the answer of the function is that
  of the server in the envelope of the gateway; only a well-formed search that finds the
  artifact sync failed is answered with the error of either deployment, which are spelled out.
  When the function panics, the server panics with it, or reports an error of the server where
  panics unwind.  The write function does the same as the two routes of the write server and
  refuses every other path.
\<close>

theorem gateway_answers_like_http:
  assumes "decode_event gp payload = Inr (event, raw)"
  shows "(\<forall>response st'. query_function gp ser srv payload st = (Some response, st') \<longrightarrow>
      (\<exists>http. handle_query srv raw st = (Some http, st') \<and> gw_status response = hr_status http \<and>
        (if \<exists>e. sync_failed srv raw e
         then \<exists>e. sync_failed srv raw e \<and> st' = st \<and>
           http = http_error ''execution_error'' (''query bootstrap failed: '' @ e) \<and>
           response = gateway_error gp ''execution_error'' (''query lambda bootstrap failed: '' @ e)
         else response = enveloped gp ser http))) \<and>
    (\<forall>st'. query_function gp ser srv payload st = (None, st') \<longrightarrow>
      handle_query srv raw st =
        (if qp_unwinds (qs_ports srv)
         then Some (http_error ''execution_error'' (''query task panicked: '' @ qs_join_error srv)) else None, st')) \<and>
    (\<forall>wsrv wser s. write_function gp wser wsrv payload s =
      (if gr_raw_path event = ''/delete'' then map_prod (enveloped gp wser) id (handle_delete wsrv raw s)
       else if gr_raw_path event = ''/write'' then map_prod (enveloped gp wser) id (handle_write wsrv raw s)
       else (gateway_error gp ''not_found'' (''unsupported path: '' @ gr_raw_path event), s)))"
proof (intro conjI allI impI)
  fix response st'
  assume "query_function gp ser srv payload st = (Some response, st')"
  from query_function_answers [OF assms this] show "\<exists>http. handle_query srv raw st = (Some http, st') \<and>
      gw_status response = hr_status http \<and>
        (if \<exists>e. sync_failed srv raw e
         then \<exists>e. sync_failed srv raw e \<and> st' = st \<and>
           http = http_error ''execution_error'' (''query bootstrap failed: '' @ e) \<and>
           response = gateway_error gp ''execution_error'' (''query lambda bootstrap failed: '' @ e)
         else response = enveloped gp ser http)" .
qed (rule query_function_panics [OF assms], assumption, rule write_function_answers [OF assms])

text \<open>A request that does not parse or validate is refused before anything else is looked at.\<close>

lemma invalid_query_is_refused:
  assumes "\<forall>request. qs_parse_request srv raw = Inr request \<longrightarrow> \<not> is_ok (search_request_validate request)"
  shows "map_option hr_status (fst (handle_query srv raw st)) = Some 400" "snd (handle_query srv raw st) = st"
  using assms by (auto simp: handle_query_def status_code_for_error_type_def split: sum.splits)

text \<open>Every record is processed once, in order, and exactly the failed ones are reported.\<close>

fun record_outcomes ::
  "(nat \<Rightarrow> sqs_record \<Rightarrow> 's \<Rightarrow> (string + unit) \<times> 's) \<Rightarrow> nat \<Rightarrow> sqs_record list \<Rightarrow> 's \<Rightarrow> bool list \<times> 's" where
  "record_outcomes process n [] s = ([], s)"
| "record_outcomes process n (r # records) s =
     map_prod (Cons (is_ok (fst (process n r s)))) id (record_outcomes process (Suc n) records (snd (process n r s)))"

lemma process_sqs_records_exact:
  "process_sqs_records process n records s =
     (map (sr_message_id \<circ> fst) (filter (Not \<circ> snd) (zip records (fst (record_outcomes process n records s)))),
      snd (record_outcomes process n records s))"
proof (induction records arbitrary: n s)
  case (Cons r records)
  obtain x s1 where "process n r s = (x, s1)"
    by fastforce
  then show ?case
    using Cons by (cases x) (auto simp: map_prod_def split_beta)
qed simp


section \<open>Health reports what is served\<close>

lemma service_resolve_ok:
  assumes "cache_sound (qs_ports srv) cache" "cache_sound (qs_ports srv) (qs_others srv cache)"
    and "service_resolve srv (Some cache) = (Some (Inr handler), st')"
  obtains key where "st' = Some (Some (key, handler))" "handler_for (qs_ports srv) key handler"
    "cache_sound (qs_ports srv) (Some (key, handler))"
proof -
  obtain cache' where r: "resolve_handler (qs_ports srv) (qs_others srv) (qs_history srv) cache = Some (Inr handler, cache')"
    and st: "st' = Some cache'"
    using assms(3) by (auto simp: service_resolve_def split: option.splits prod.splits)
  obtain i key where "cache' = Some (key, handler)" "handler_for (qs_ports srv) key handler" "cache_sound (qs_ports srv) cache'"
    by (rule resolve_handler_ok [OF assms(1,2) r])
  then show thesis
    using that st by blast
qed

lemma unavailable_status: "fst (unavailable v detail) = 503"
  by (simp add: unavailable_def health_response_def)

lemma query_ok_cases: "query_ok v i d = (n, body) \<Longrightarrow>
  n = 200 \<and> hb_status body = ''ok'' \<and> hb_index_version body = v \<and> hb_static_release_id body = i"
  by (auto simp: query_ok_def health_response_def)

text \<open>
  C17. A health check that answers 200 reports what queries get: either no index is
  published and none is reported, or the version and the release it reports are one pair, the
  cache holds a handler for exactly this pair, and both come from one reading of the cache,
  whatever other requests do to it in between.
\<close>

theorem health_reports_a_served_pair:
  assumes "cache_sound (qs_ports srv) cache"
    and "\<And>c. cache_sound (qs_ports srv) c \<Longrightarrow> cache_sound (qs_ports srv) (qs_others srv c)"
    and "\<And>c c'. cache_sound (qs_ports srv) c \<Longrightarrow> qs_meanwhile srv c = Some c' \<Longrightarrow> cache_sound (qs_ports srv) c' \<and> (c \<noteq> None \<longrightarrow> c' \<noteq> None)"
    and "handle_query_health srv (Some cache) = (Some (200, body), st')"
  shows "hb_status body = ''ok'' \<and>
    (case hb_index_version body of
       None \<Rightarrow> load_active_query_version_opt (qs_ports srv) (qs_version_history srv) = Inr None \<and>
         hb_static_release_id body = None \<and> st' = Some cache
     | Some version \<Rightarrow> \<exists>handler. st' = Some (Some ((version, hb_static_release_id body), handler)) \<and>
         handler_for (qs_ports srv) (version, hb_static_release_id body) handler)"
proof -
  have no: "unavailable v detail \<noteq> (200, body)" for v detail
    using unavailable_status [of v detail] by auto
  obtain d where probe: "qs_probe srv = Inr d" and synced: "qs_synced srv = Inr ()"
    using assms(4) no by (auto simp: handle_query_health_def split: sum.splits)
  consider "load_active_query_version_opt (qs_ports srv) (qs_version_history srv) = Inr None"
    | version where "load_active_query_version_opt (qs_ports srv) (qs_version_history srv) = Inr (Some version)"
    using assms(4) probe synced no by (auto simp: handle_query_health_def split: sum.splits option.splits)
  then show ?thesis
  proof cases
    case 1
    then show ?thesis
      using assms(4) probe synced query_ok_cases [of None None "Some NOT_PUBLISHED_YET" 200 body]
      by (auto simp: handle_query_health_def)
  next
    case 2
    obtain handler st1 where 3: "service_resolve srv (Some cache) = (Some (Inr handler), st1)"
      using assms(4) probe synced 2 no
      by (auto simp: handle_query_health_def split: prod.splits option.splits sum.splits if_splits)
    obtain key where key: "st1 = Some (Some (key, handler))" "cache_sound (qs_ports srv) (Some (key, handler))"
      by (rule service_resolve_ok [OF assms(1) assms(2) [OF assms(1)] 3])
    have report: "report_pair version (qs_meanwhile srv (Some (key, handler))) = Some (200, body)"
        "st' = qs_meanwhile srv (Some (key, handler))"
      using assms(4) probe synced 2 3 key(1) by (auto simp: handle_query_health_def Let_def)
    then obtain c' where c': "qs_meanwhile srv (Some (key, handler)) = Some c'"
      by (auto simp: report_pair_def)
    then obtain key' handler' where h: "c' = Some (key', handler')" "handler_for (qs_ports srv) key' handler'"
      using assms(3) [OF key(2) c'] by (auto simp: cache_sound_def)
    have "query_ok (Some (fst key')) (snd key') None = (200, body)"
      using report(1) c' h(1) by (auto simp: report_pair_def cached_pair_def split_beta)
    then show ?thesis
      using query_ok_cases [of "Some (fst key')" "snd key'" None 200 body] report(2) c' h by auto
  qed
qed


section \<open>Instances\<close>

definition demo_server :: "string + unit \<Rightarrow> bool query_server" where
  "demo_server synced = \<lparr> qs_ports = demo_query_ports,
     qs_parse_request = (\<lambda>raw. if raw = ''q'' then Inr demo_request else Inl ''syntax''),
     qs_probe = Inr 4, qs_synced = synced, qs_others = id, qs_meanwhile = Some, qs_version_history = (\<lambda>_. True),
     qs_history = demo_moves, qs_caches = (\<lambda>_. empty_lance_cache), qs_join_error = [] \<rparr>"

definition demo_gateway :: gateway_ports where
  "demo_gateway = \<lparr> gp_parse_event = (\<lambda>p. Inr \<lparr> gr_raw_path = ''/query'', gr_body = Some p, gr_is_base64 = False \<rparr>),
     gp_base64 = Inr, gp_error_json = (\<lambda>t m. Inr (t @ m)) \<rparr>"

definition demo_writes :: "unit write_server" where
  "demo_writes = \<lparr> ws_parse_write = (\<lambda>_. Inl []), ws_parse_delete = (\<lambda>_. Inl []), ws_ingest = (\<lambda>_ s. (Inl (IngestOperation []), s)),
     ws_delete = (\<lambda>_ s. (Inl (IngestOperation []), s)) \<rparr>"

text \<open>A search that does not parse; one that finds the sync failed; a write to a path nobody serves.\<close>

lemma gateway_answers_like_http_witness:
  "handle_query (demo_server (Inr ())) ''r'' (Some None) =
     (Some (http_error ''validation_error'' ''failed to deserialize search request: syntax''), Some None) \<and>
   (\<exists>http. handle_query (demo_server (Inl ''S3'')) ''q'' (Some None) = (Some http, Some None) \<and> hr_status http = 500) \<and>
   write_function demo_gateway (\<lambda>_. Inr []) demo_writes ''r'' () =
     (gateway_error demo_gateway ''not_found'' ''unsupported path: /query'', ())"
proof -
  define event where "event = (\<lambda>p. \<lparr> gr_raw_path = ''/query'', gr_body = Some p, gr_is_base64 = False \<rparr>)"
  have decode: "decode_event demo_gateway p = Inr (event p, p)" for p
    by (simp add: decode_event_def demo_gateway_def body_bytes_def event_def)
  have run: "query_function demo_gateway (\<lambda>_. Inr []) (demo_server (Inr ())) ''r'' (Some None) =
      (Some (gateway_error demo_gateway ''validation_error'' ''failed to deserialize search request: syntax''), Some None)"
    and unsynced: "query_function demo_gateway (\<lambda>_. Inr []) (demo_server (Inl ''S3'')) ''q'' (Some None) =
      (Some (gateway_error demo_gateway ''execution_error'' ''query lambda bootstrap failed: S3''), Some None)"
    by (simp_all add: query_function_def decode_search_request_def decode demo_server_def demo_request_valid)
  have "\<not> sync_failed (demo_server (Inr ())) ''r'' e" for e
    by (simp add: sync_failed_def demo_server_def)
  then obtain http where http: "handle_query (demo_server (Inr ())) ''r'' (Some None) = (Some http, Some None)"
    "gateway_error demo_gateway ''validation_error'' ''failed to deserialize search request: syntax'' =
       enveloped demo_gateway (\<lambda>_. Inr []) http"
    using conjunct1 [OF gateway_answers_like_http [OF decode [of "''r''"], where ser = "\<lambda>_. Inr []" and srv = "demo_server (Inr ())"],
        rule_format, OF run] by auto
  have "handle_query (demo_server (Inr ())) ''r'' (Some None) =
      (Some (http_error ''validation_error'' ''failed to deserialize search request: syntax''), Some None)"
    by (simp add: handle_query_def demo_server_def)
  moreover have "\<exists>http. handle_query (demo_server (Inl ''S3'')) ''q'' (Some None) = (Some http, Some None) \<and> hr_status http = 500"
    using conjunct1 [OF gateway_answers_like_http [OF decode [of "''q''"], where ser = "\<lambda>_. Inr []" and srv = "demo_server (Inl ''S3'')"],
        rule_format, OF unsynced] by (auto simp: status_code_for_error_type_def)
  moreover have "write_function demo_gateway (\<lambda>_. Inr []) demo_writes ''r'' () =
      (gateway_error demo_gateway ''not_found'' ''unsupported path: /query'', ())"
    using conjunct2 [OF conjunct2 [OF gateway_answers_like_http [OF decode [of "''r''"], where ser = "\<lambda>_. Inr []" and
        srv = "demo_server (Inr ())" and st = None]], rule_format, of "\<lambda>_. Inr []" demo_writes "()"]
    by (simp add: event_def)
  ultimately show ?thesis
    by blast
qed

lemma health_reports_a_served_pair_witness:
  "\<exists>body st' version handler. handle_query_health (demo_server (Inr ())) (Some None) = (Some (200, body), st') \<and>
     hb_index_version body = Some version \<and>
     st' = Some (Some ((version, hb_static_release_id body), handler)) \<and>
     handler_for demo_query_ports (version, hb_static_release_id body) handler"
proof -
  let ?srv = "demo_server (Inr ())"
  have ports: "qs_ports ?srv = demo_query_ports" "qs_others ?srv = id" "qs_meanwhile ?srv = Some" "qs_history ?srv = demo_moves"
      "qs_probe ?srv = Inr 4" "qs_synced ?srv = Inr ()" "qs_version_history ?srv = (\<lambda>_. True)"
    by (simp_all add: demo_server_def)
  have sound: "cache_sound demo_query_ports None"
    by (simp add: cache_sound_def)
  obtain handler cache' where r: "resolve_handler demo_query_ports id demo_moves None = Some (Inr handler, cache')"
    using resolve_handler_serves [OF demo_serves, of 8 id None]
    by (simp add: demo_head demo_moves_def) (auto simp: manifest_head_new_def)
  obtain key where key: "cache' = Some (key, handler)"
    by (rule resolve_handler_ok [OF sound _ r]) (use sound in auto)
  have "query_artifact_root demo_query_ports = Inr ''/r''" "store_for demo_query_ports ''/r'' True = Inr FileStore"
    by code_simp (simp add: store_for_def demo_query_ports_def)
  then have version: "load_active_query_version_opt demo_query_ports (\<lambda>_. True) = Inr (Some 8)"
    by (simp add: load_active_query_version_opt_def load_active_version_def demo_head manifest_head_new_def)
  obtain body where run: "handle_query_health ?srv (Some None) = (Some (200, body), Some cache')" "hb_index_version body = Some (fst key)"
    using r version key
    by (auto simp: handle_query_health_def ports service_resolve_def report_pair_def cached_pair_def query_ok_def health_response_def
        split_beta)
  show ?thesis
    using health_reports_a_served_pair [of ?srv None body "Some cache'"] run sound by (auto simp: ports)
qed

end
