(* ===== verification/Static_Activate.thy ===== *)
theory Static_Activate
  imports Turbo_Search Publisher
begin

text \<open>
  Activation of a static release (\<^verbatim>\<open>src/indexing/static_publisher.rs\<close>): verification of a
  release directory, installation into the managed store and the swap of the static pointer.
  The manifest parser, SHA-256, the file system, the mapping of files and the storage are
  arguments.
\<close>


section \<open>Errors\<close>

datatype static_activate_error =
    VerifyError string
  | LostCas string
  | StorageError publish_error
  | InstallIo string

fun show_static_activate_error :: "static_activate_error \<Rightarrow> string" where
  "show_static_activate_error (VerifyError m) = ''release verification failed: '' @ m"
| "show_static_activate_error (LostCas i) =
     msg [''static pointer CAS lost for release '', i, '' (concurrent writer won)'']"
| "show_static_activate_error (StorageError e) = ''publish storage error: '' @ show_publish_error e"
| "show_static_activate_error (InstallIo m) = ''install failed: '' @ m"

record static_activation_result =
  ar_release_id :: string
  ar_previous_release_id :: "string option"

text \<open>
  The surroundings: SHA-256, the parser of the manifest, the \<^verbatim>\<open>Debug\<close> form of a string and the
  text of a missing file.
\<close>

record verify_ports =
  vp_sha256 :: "blob \<Rightarrow> blob"
  vp_parse_manifest :: "string \<Rightarrow> string + release_manifest"
  vp_quoted :: "string \<Rightarrow> string"
  vp_not_found :: string

definition show_io_error :: "verify_ports \<Rightarrow> io_error \<Rightarrow> string" where
  "show_io_error ports e = (case e of NotFound \<Rightarrow> vp_not_found ports | OtherIo t \<Rightarrow> t)"

text \<open>The derived \<^verbatim>\<open>Debug\<close> forms that reach an error message.\<close>

fun comma_joined :: "string list \<Rightarrow> string" where
  "comma_joined [] = []"
| "comma_joined [s] = s"
| "comma_joined (s # ss) = s @ '', '' @ comma_joined ss"

definition debug_names :: "verify_ports \<Rightarrow> string list \<Rightarrow> string" where
  "debug_names ports names = msg [''['', comma_joined (map (vp_quoted ports) names), '']'']"

definition debug_v3_codec :: "codec_metadata \<Rightarrow> string" where
  "debug_v3_codec c =
     msg [''CodecMetadata { dim: '', show_nat (unat (cm_dim c)), '', centroids_per_dim: '',
          show_nat (unat (cm_centroids_per_dim c)), '', centroids_seed: '', show_u64 (cm_centroids_seed c),
          '', projection_seed: '', show_u64 (cm_projection_seed c), '' }'']"

fun debug_codec_id :: "turbo_codec_id \<Rightarrow> string" where
  "debug_codec_id Legacy3BitV1 = ''Legacy3BitV1''"
| "debug_codec_id TurboQuantProdV1 = ''TurboQuantProdV1''"

definition debug_config :: "turbo_quant_config \<Rightarrow> string" where
  "debug_config c =
     msg [''TurboQuantConfig { codec_id: '', debug_codec_id (cfg_codec_id c), '', dim: '', show_nat (unat (cfg_dim c)),
          '', mse_bits: '', show_nat (unat (cfg_mse_bits c)), '', qjl_dim: '', show_nat (unat (cfg_qjl_dim c)),
          '', mse_seed: '', show_u64 (cfg_mse_seed c), '', qjl_seed: '', show_u64 (cfg_qjl_seed c),
          '', generator_version: '', show_nat (unat (cfg_generator_version c)),
          '', norm_policy: '', debug_policy (cfg_norm_policy c), '' }'']"


section \<open>Verification\<close>

definition EXPECTED_MANIFEST_SCHEMA_VERSION :: u32 where "EXPECTED_MANIFEST_SCHEMA_VERSION = 1"
definition EXPECTED_EMBEDDING_DIM :: u32 where "EXPECTED_EMBEDDING_DIM = 512"

text \<open>Step 1: the manifest.\<close>

definition read_release_manifest ::
  "verify_ports \<Rightarrow> 'f os_ops \<Rightarrow> string \<Rightarrow> 'f \<Rightarrow> static_activate_error + release_manifest" where
  "read_release_manifest ports os dir fs =
     (let path = path_join dir RELEASE_MANIFEST_FILE
      in and_then
           (map_err (\<lambda>e. VerifyError (msg [''failed to read release manifest '', path, '': '', show_io_error ports e]))
             (os_read os path fs)) (\<lambda>bytes.
         map_err (\<lambda>e. VerifyError (msg [''failed to parse release manifest '', path, '': '', e]))
           (vp_parse_manifest ports bytes)))"

text \<open>Step 2: the versions, and the codec section of that version.\<close>

definition verify_versions :: "release_manifest \<Rightarrow> static_activate_error + string list" where
  "verify_versions manifest =
     (let version = rm_turbo_version manifest
      in if rm_schema_version manifest \<noteq> EXPECTED_MANIFEST_SCHEMA_VERSION
         then Inl (VerifyError (msg [''manifest_schema_version '', show_nat (unat (rm_schema_version manifest)), '' != '',
                show_nat (unat EXPECTED_MANIFEST_SCHEMA_VERSION)]))
         else and_then
           (ok_or (VerifyError (msg [''turbo_version '', show_nat (unat version),
               '' is not a static release version this build verifies (3 or 4)''])) (release_output_files version))
           (\<lambda>expected_files.
             if manifest_codec_version (rm_codec manifest) \<noteq> version
             then Inl (VerifyError (msg [''turbo_version '', show_nat (unat version), '' has a v'',
                    show_nat (unat (manifest_codec_version (rm_codec manifest))), '' codec section'']))
             else Inr expected_files))"

definition verify_codec_section ::
  "verify_ports \<Rightarrow> manifest_codec \<Rightarrow> (static_activate_error + turbo_quant_config option) option" where
  "verify_codec_section ports codec =
     (case codec of
        CodecV3 c \<Rightarrow>
          panic_then
            (map_option (map_err (\<lambda>e. VerifyError (''invalid legacy codec config: '' @ show_config_error (vp_quoted ports) e)))
              (to_v3_codec_metadata legacy_v1)) (\<lambda>legacy. Some
            (if c \<noteq> legacy
             then Inl (VerifyError (msg [''v3 codec section '', debug_v3_codec c, '' is not the legacy codec '',
                    debug_v3_codec legacy]))
             else Inr None))
      | CodecV4 c \<Rightarrow> Some
          (map_err (\<lambda>e. VerifyError (''invalid codec section: '' @ show_config_error (vp_quoted ports) e))
            (map_ok Some (from_v4_codec_metadata c))))"

text \<open>Step 3: the names of the outputs in order, then the size and digest of every file.\<close>

definition verify_output_names ::
  "verify_ports \<Rightarrow> u32 \<Rightarrow> string list \<Rightarrow> string list \<Rightarrow> static_activate_error + unit" where
  "verify_output_names ports version expected_files actual_names =
     (if actual_names = expected_files then Inr ()
      else if sort_by cmp_ord actual_names = expected_files
      then Inl (VerifyError (msg [''outputs not name-ascending: expected '', debug_names ports expected_files, '', got '',
             debug_names ports actual_names]))
      else Inl (VerifyError (msg [''outputs must list exactly the '', show_nat (length expected_files), '' v'',
             show_nat (unat version), '' artifact files; missing '',
             debug_names ports (filter (\<lambda>n. n \<notin> set actual_names) expected_files), '', unexpected '',
             debug_names ports (filter (\<lambda>n. n \<notin> set expected_files) actual_names)])))"

definition verify_output ::
  "verify_ports \<Rightarrow> 'f os_ops \<Rightarrow> string \<Rightarrow> 'f \<Rightarrow> output_file \<Rightarrow> static_activate_error + unit" where
  "verify_output ports os dir fs out =
     (let path = path_join dir (of_name out)
      in and_then
           (map_err (\<lambda>e. VerifyError (msg [''failed to read output '', path, '': '', show_io_error ports e]))
             (os_read os path fs)) (\<lambda>contents.
           let bytes = text_bytes contents; actual_size = (of_nat (length bytes) :: u64);
               actual_sha = sha256_hex (vp_sha256 ports) bytes
           in if actual_size \<noteq> of_size_bytes out
              then Inl (VerifyError (msg [''output '', of_name out, '' size mismatch: manifest '', show_u64 (of_size_bytes out),
                     '', disk '', show_u64 actual_size]))
              else if actual_sha \<noteq> of_sha256 out
              then Inl (VerifyError (msg [''output '', of_name out, '' sha256 mismatch: manifest '', of_sha256 out,
                     '', disk '', actual_sha]))
              else Inr ()))"

text \<open>Step 4: the release id.\<close>

definition verify_release_id :: "verify_ports \<Rightarrow> release_manifest \<Rightarrow> static_activate_error + unit" where
  "verify_release_id ports manifest =
     (let recomputed = derive_release_id (vp_sha256 ports) (rm_turbo_version manifest) (rm_profile manifest)
            (rm_codec manifest) (fp_content_digest (rm_fingerprint manifest)) (rm_outputs manifest)
      in if recomputed \<noteq> rm_release_id manifest
         then Inl (VerifyError (msg [''release_id mismatch: manifest '', rm_release_id manifest, '', recomputed '', recomputed]))
         else Inr ())"

text \<open>Step 5: the provenance.\<close>

definition verify_source :: "release_manifest \<Rightarrow> static_activate_error + unit" where
  "verify_source manifest =
     (let source = rm_source manifest; doc_count = fp_doc_count (rm_fingerprint manifest)
      in if rs_kind source \<noteq> ''lance''
         then Inl (VerifyError (msg [''source.kind '', rs_kind source, '' != '', [CHR 0x22], ''lance'', [CHR 0x22]]))
         else if rs_dataset_path source = [] then Inl (VerifyError ''source.dataset_path is empty'')
         else if rs_table_version source = 0 then Inl (VerifyError ''source.table_version must be > 0'')
         else if rs_table_row_count source \<noteq> doc_count
         then Inl (VerifyError (msg [''source.table_row_count '', show_u64 (rs_table_row_count source),
                '' != input_fingerprint.doc_count '', show_u64 doc_count]))
         else Inr ())"

text \<open>Step 6: the embedding profile and the expectations of the caller.\<close>

definition verify_profile ::
  "string option \<Rightarrow> u32 option \<Rightarrow> release_manifest \<Rightarrow> static_activate_error + unit" where
  "verify_profile expect_model_id expect_dim manifest =
     (let profile = rm_profile manifest
      in if ep_dim profile \<noteq> EXPECTED_EMBEDDING_DIM
         then Inl (VerifyError (msg [''embedding_profile.dim '', show_nat (unat (ep_dim profile)), '' != '',
                show_nat (unat EXPECTED_EMBEDDING_DIM)]))
         else if manifest_codec_dim (rm_codec manifest) \<noteq> EXPECTED_EMBEDDING_DIM
         then Inl (VerifyError (msg [''codec.dim '', show_nat (unat (manifest_codec_dim (rm_codec manifest))), '' != '',
                show_nat (unat EXPECTED_EMBEDDING_DIM)]))
         else if ep_model_id profile = [] then Inl (VerifyError ''embedding_profile.model_id is empty'')
         else and_then
           (case expect_model_id of
              None \<Rightarrow> Inr ()
            | Some expected \<Rightarrow>
                if ep_model_id profile \<noteq> expected
                then Inl (VerifyError (msg [''embedding_profile.model_id '', ep_model_id profile, '' != expected '', expected]))
                else Inr ()) (\<lambda>_.
           case expect_dim of
             None \<Rightarrow> Inr ()
           | Some expected \<Rightarrow>
               if ep_dim profile \<noteq> expected
               then Inl (VerifyError (msg [''embedding_profile.dim '', show_nat (unat (ep_dim profile)), '' != expected '',
                      show_nat (unat expected)]))
               else Inr ()))"

text \<open>Step 7: the image loads, is what the manifest says, and every text in it is UTF-8.\<close>

definition verify_loaded_codec :: "turbo_quant_config option \<Rightarrow> index_codec \<Rightarrow> static_activate_error + unit" where
  "verify_loaded_codec v4_config codec =
     (case v4_config of
        None \<Rightarrow> Inr ()
      | Some expected \<Rightarrow>
          (case codec of
             ProdAssets p \<Rightarrow>
               if tp_config p = expected then Inr ()
               else Inl (VerifyError (msg [''manifest codec '', debug_config expected, '' != the loaded assets' codec '',
                      debug_config (tp_config p)]))
           | LegacyAssets _ _ \<Rightarrow>
               Inl (VerifyError ''manifest records a v4 codec but the image loaded with the legacy codec'')))"

definition verify_index ::
  "turbo_quant_config option \<Rightarrow> release_manifest \<Rightarrow> mmap_index \<Rightarrow> static_activate_error + unit" where
  "verify_index v4_config manifest m =
     (let version = th_version (mi_header m); count = th_record_count (mi_header m);
          row_count = rs_table_row_count (rm_source manifest)
      in if version \<noteq> rm_turbo_version manifest
         then Inl (VerifyError (msg [''loaded image version '', show_nat (unat version), '' != manifest turbo_version '',
                show_nat (unat (rm_turbo_version manifest))]))
         else and_then (verify_loaded_codec v4_config (mi_codec m)) (\<lambda>_.
           if count \<noteq> row_count
           then Inl (VerifyError (msg [''loaded record_count '', show_u64 count, '' != source.table_row_count '',
                  show_u64 row_count]))
           else Inr ()))"

definition verify_image ::
  "verify_ports \<Rightarrow> mapper \<Rightarrow> string \<Rightarrow> turbo_quant_config option \<Rightarrow> release_manifest \<Rightarrow>
     (static_activate_error + unit) option" where
  "verify_image ports files dir v4_config manifest =
     panic_then
       (map_option (map_err (\<lambda>e. VerifyError (msg [''MmapIndex::load('', dir, '') failed: '',
           show_mmap_error (vp_quoted ports) e])))
         (mmap_load (vp_sha256 ports) files dir)) (\<lambda>m.
     panic_then (Some (verify_index v4_config manifest m)) (\<lambda>_.
       map_option (map_err (\<lambda>e. VerifyError (msg [''MmapIndex::check_utf8('', dir, '') failed: '',
           show_mmap_error (vp_quoted ports) e])))
         (check_utf8 m)))"

text \<open>\<open>os\<close> and \<open>fs\<close> serve the reads, \<open>files\<close> the mappings of the same directory.\<close>

definition verify_release_dir ::
  "verify_ports \<Rightarrow> 'f os_ops \<Rightarrow> mapper \<Rightarrow> string \<Rightarrow> string option \<Rightarrow> u32 option \<Rightarrow> 'f \<Rightarrow>
     (static_activate_error + release_manifest) option" where
  "verify_release_dir ports os files dir expect_model_id expect_dim fs =
     panic_then (Some (read_release_manifest ports os dir fs)) (\<lambda>manifest.
     panic_then (Some (verify_versions manifest)) (\<lambda>expected_files.
     panic_then (verify_codec_section ports (rm_codec manifest)) (\<lambda>v4_config.
     panic_then (Some
       (and_then (verify_output_names ports (rm_turbo_version manifest) expected_files
           (map of_name (rm_outputs manifest))) (\<lambda>_.
        and_then (try_all (verify_output ports os dir fs) (rm_outputs manifest)) (\<lambda>_.
        and_then (verify_release_id ports manifest) (\<lambda>_.
        and_then (verify_source manifest) (\<lambda>_.
        verify_profile expect_model_id expect_dim manifest)))))) (\<lambda>_.
     map_option (map_ok (\<lambda>_. manifest)) (verify_image ports files dir v4_config manifest)))))"


section \<open>Installation\<close>

definition install_err :: "string \<Rightarrow> string \<Rightarrow> string \<Rightarrow> static_activate_error" where
  "install_err what path e = InstallIo (msg [''failed to '', what, '' '', path, '': '', e])"

text \<open>
  The recursive copy, with the nesting depth as fuel; \<open>stat\<close> tells a directory entry from a
  file without following a link, or fails.
\<close>

fun copy_dir_entries ::
  "(string \<Rightarrow> 'f \<Rightarrow> ((static_activate_error + unit) \<times> 'f) option) \<Rightarrow> string \<Rightarrow> (string + string) list \<Rightarrow> 'f \<Rightarrow>
     ((static_activate_error + unit) \<times> 'f) option" where
  "copy_dir_entries copy src [] fs = Some (Inr (), fs)"
| "copy_dir_entries copy src (Inl e # es) fs = Some (Inl (install_err ''read entry under'' src e), fs)"
| "copy_dir_entries copy src (Inr name # es) fs =
     (case copy name fs of
        None \<Rightarrow> None
      | Some (Inl e, fs1) \<Rightarrow> Some (Inl e, fs1)
      | Some (Inr _, fs1) \<Rightarrow> copy_dir_entries copy src es fs1)"

definition copy_dir_file :: "'f os_ops \<Rightarrow> string \<Rightarrow> string \<Rightarrow> 'f \<Rightarrow> (static_activate_error + unit) \<times> 'f" where
  "copy_dir_file os from to fs =
     map_prod (map_err (\<lambda>e. InstallIo (msg [''failed to copy '', from, '' to '', to, '': '', e]))) id (os_copy os from to fs)"

fun copy_dir_recursive ::
  "'f os_ops \<Rightarrow> (string \<Rightarrow> 'f \<Rightarrow> string + bool) \<Rightarrow> nat \<Rightarrow> string \<Rightarrow> string \<Rightarrow> 'f \<Rightarrow>
     ((static_activate_error + unit) \<times> 'f) option" where
  "copy_dir_recursive os stat 0 src dst fs = None"
| "copy_dir_recursive os stat (Suc n) src dst fs =
     (case os_create_dir_all os dst fs of
        (Inl e, fs1) \<Rightarrow> Some (Inl (install_err ''create'' dst e), fs1)
      | (Inr _, fs1) \<Rightarrow>
          (case os_read_dir os src fs1 of
             Inl e \<Rightarrow> Some (Inl (install_err ''read'' src e), fs1)
           | Inr entries \<Rightarrow>
               copy_dir_entries (\<lambda>name fs.
                 case stat (path_join src name) fs of
                   Inl e \<Rightarrow> Some (Inl (install_err ''stat'' (path_join src name) e), fs)
                 | Inr True \<Rightarrow> copy_dir_recursive os stat n (path_join src name) (path_join dst name) fs
                 | Inr False \<Rightarrow> Some (copy_dir_file os (path_join src name) (path_join dst name) fs)) src entries fs1))"

definition install_staging_name :: "string \<Rightarrow> string" where
  "install_staging_name release_id = msg [''.'', release_id, ''-staging'']"

text \<open>The slow path: a copy into a staging sibling, renamed into place.\<close>

definition install_by_copy ::
  "'f os_ops \<Rightarrow> (string \<Rightarrow> 'f \<Rightarrow> string + bool) \<Rightarrow> nat \<Rightarrow> string \<Rightarrow> string \<Rightarrow> string \<Rightarrow> 'f \<Rightarrow>
     ((static_activate_error + unit) \<times> 'f) option" where
  "install_by_copy os stat depth src staging target fs =
     (case (if os_exists os staging fs then os_remove_dir_all os staging fs else (Inr (), fs)) of
        (Inl e, fs1) \<Rightarrow> Some (Inl (install_err ''clear stale staging'' staging e), fs1)
      | (Inr _, fs1) \<Rightarrow>
          (case copy_dir_recursive os stat depth src staging fs1 of
             None \<Rightarrow> None
           | Some (Inl e, fs2) \<Rightarrow> Some (Inl e, fs2)
           | Some (Inr _, fs2) \<Rightarrow>
               Some (case os_rename os staging target fs2 of
                       (Inl e, fs3) \<Rightarrow> (Inl (InstallIo (msg [''failed to rename staging '', staging, '' into '', target,
                          '': '', e])), fs3)
                     | (Inr _, fs3) \<Rightarrow> (Inr (), fs3))))"

definition install_into_managed_store ::
  "'f os_ops \<Rightarrow> (string \<Rightarrow> 'f \<Rightarrow> string + bool) \<Rightarrow> nat \<Rightarrow> string \<Rightarrow> string \<Rightarrow> string \<Rightarrow> 'f \<Rightarrow>
     ((static_activate_error + unit) \<times> 'f) option" where
  "install_into_managed_store os stat depth store_root release_id src fs =
     (let target = path_join store_root (static_release_dir_key release_id)
      in if os_exists os target fs then Some (Inr (), fs)
         else
           (case path_parent target of
              None \<Rightarrow> Some (Inl (InstallIo (msg [''target '', target, '' has no parent directory''])), fs)
            | Some parent \<Rightarrow>
                (case os_create_dir_all os parent fs of
                   (Inl e, fs1) \<Rightarrow> Some (Inl (install_err ''create'' parent e), fs1)
                 | (Inr _, fs1) \<Rightarrow>
                     (case os_rename os src target fs1 of
                        (Inr _, fs2) \<Rightarrow> Some (Inr (), fs2)
                      | (Inl _, fs2) \<Rightarrow>
                          install_by_copy os stat depth src (path_join parent (install_staging_name release_id)) target fs2))))"


section \<open>The pointer\<close>

text \<open>
  \<open>env\<close> is what other processes do to the storage between the read and the swap.
\<close>

definition activate_static_pointer ::
  "('s \<Rightarrow> 's) \<Rightarrow> 's publish_ops \<Rightarrow> (string \<Rightarrow> string + static_release_head) \<Rightarrow> (static_release_head \<Rightarrow> string) \<Rightarrow>
     string \<Rightarrow> int \<Rightarrow> 's \<Rightarrow> (static_activate_error + static_activation_result) \<times> 's" where
  "activate_static_pointer env ops de ser release_id updated_at s =
     (case and_then (map_err StorageError (op_read ops STATIC_HEAD_KEY s)) (\<lambda>current.
           and_then (case current of
               None \<Rightarrow> Inr None
             | Some object \<Rightarrow>
                 map_ok (Some \<circ> sh_release_id)
                   (map_err (\<lambda>e. VerifyError (''existing static/_head is malformed: '' @ show_static_head_error e))
                     (static_release_head_from_json de (vo_bytes object)))) (\<lambda>previous.
           let head = static_release_head_new release_id updated_at
           in map_ok (\<lambda>_. (map_option vo_etag current, previous, ser head))
                (map_err (\<lambda>e. VerifyError (''new static/_head is invalid: '' @ show_static_head_error e))
                  (static_release_head_validate head)))) of
        Inl e \<Rightarrow> (Inl e, s)
      | Inr (expected_etag, previous, head_bytes) \<Rightarrow>
          (case op_cas ops STATIC_HEAD_KEY expected_etag head_bytes (env s) of
             (Inl e, s1) \<Rightarrow> (Inl (StorageError e), s1)
           | (Inr False, s1) \<Rightarrow> (Inl (LostCas release_id), s1)
           | (Inr True, s1) \<Rightarrow> (Inr \<lparr> ar_release_id = release_id, ar_previous_release_id = previous \<rparr>, s1)))"


section \<open>What a verified release satisfies\<close>

text \<open>The result of a verification, with every check it went through.\<close>

definition output_matches :: "verify_ports \<Rightarrow> 'f os_ops \<Rightarrow> string \<Rightarrow> 'f \<Rightarrow> output_file \<Rightarrow> bool" where
  "output_matches ports os dir fs out \<longleftrightarrow>
     (\<exists>contents. os_read os (path_join dir (of_name out)) fs = Inr contents \<and>
        of_size_bytes out = of_nat (length (text_bytes contents)) \<and>
        of_sha256 out = sha256_hex (vp_sha256 ports) (text_bytes contents))"

lemma verify_output_ok_iff: "verify_output ports os dir fs out = Inr () \<longleftrightarrow> output_matches ports os dir fs out"
  by (auto simp: verify_output_def output_matches_def Let_def result_simps)

lemma verify_output_names_ok_iff: "verify_output_names ports v expected actual = Inr () \<longleftrightarrow> actual = expected"
  by (simp add: verify_output_names_def)

lemma verify_release_id_ok_iff:
  "verify_release_id ports manifest = Inr () \<longleftrightarrow>
     rm_release_id manifest = derive_release_id (vp_sha256 ports) (rm_turbo_version manifest) (rm_profile manifest)
       (rm_codec manifest) (fp_content_digest (rm_fingerprint manifest)) (rm_outputs manifest)"
  by (auto simp: verify_release_id_def Let_def)

lemma verify_source_ok_iff:
  "verify_source manifest = Inr () \<longleftrightarrow>
     rs_kind (rm_source manifest) = ''lance'' \<and> rs_dataset_path (rm_source manifest) \<noteq> [] \<and>
     rs_table_version (rm_source manifest) \<noteq> 0 \<and>
     rs_table_row_count (rm_source manifest) = fp_doc_count (rm_fingerprint manifest)"
  by (auto simp: verify_source_def Let_def)

lemma verify_profile_ok_iff:
  "verify_profile model d manifest = Inr () \<longleftrightarrow>
     ep_dim (rm_profile manifest) = 512 \<and> manifest_codec_dim (rm_codec manifest) = 512 \<and>
     ep_model_id (rm_profile manifest) \<noteq> [] \<and>
     (\<forall>expected. model = Some expected \<longrightarrow> ep_model_id (rm_profile manifest) = expected) \<and>
     (\<forall>expected. d = Some expected \<longrightarrow> ep_dim (rm_profile manifest) = expected)"
  by (auto simp: verify_profile_def Let_def EXPECTED_EMBEDDING_DIM_def result_simps split: option.splits)

lemma verify_versions_ok_iff:
  "verify_versions manifest = Inr names \<longleftrightarrow>
     rm_schema_version manifest = 1 \<and> release_output_files (rm_turbo_version manifest) = Some names \<and>
     manifest_codec_version (rm_codec manifest) = rm_turbo_version manifest"
  by (auto simp: verify_versions_def Let_def EXPECTED_MANIFEST_SCHEMA_VERSION_def result_simps)

definition image_matches :: "turbo_quant_config option \<Rightarrow> release_manifest \<Rightarrow> mmap_index \<Rightarrow> bool" where
  "image_matches v4_config manifest m \<longleftrightarrow>
     th_version (mi_header m) = rm_turbo_version manifest \<and>
     th_record_count (mi_header m) = rs_table_row_count (rm_source manifest) \<and>
     (\<forall>expected. v4_config = Some expected \<longrightarrow> (\<exists>p. mi_codec m = ProdAssets p \<and> tp_config p = expected))"

lemma verify_index_ok_iff: "verify_index v4 manifest m = Inr () \<longleftrightarrow> image_matches v4 manifest m"
  by (auto simp: verify_index_def image_matches_def Let_def verify_loaded_codec_def result_simps
      split: option.splits index_codec.splits if_splits)

lemma verify_image_ok_iff:
  "verify_image ports files dir v4 manifest = Some (Inr ()) \<longleftrightarrow>
     (\<exists>m. mmap_load (vp_sha256 ports) files dir = Some (Inr m) \<and> image_matches v4 manifest m \<and>
        check_utf8 m = Some (Inr ()))"
  by (auto simp: verify_image_def panic_then_Some_Inr map_err_Inr_iff verify_index_ok_iff)

definition verified_release ::
  "verify_ports \<Rightarrow> 'f os_ops \<Rightarrow> mapper \<Rightarrow> string \<Rightarrow> string option \<Rightarrow> u32 option \<Rightarrow> 'f \<Rightarrow> release_manifest \<Rightarrow>
     turbo_quant_config option \<Rightarrow> mmap_index \<Rightarrow> bool" where
  "verified_release ports os files dir model d fs manifest v4 m \<longleftrightarrow>
     (\<exists>json. os_read os (path_join dir RELEASE_MANIFEST_FILE) fs = Inr json \<and>
        vp_parse_manifest ports json = Inr manifest) \<and>
     rm_schema_version manifest = 1 \<and>
     release_output_files (rm_turbo_version manifest) = Some (map of_name (rm_outputs manifest)) \<and>
     manifest_codec_version (rm_codec manifest) = rm_turbo_version manifest \<and>
     verify_codec_section ports (rm_codec manifest) = Some (Inr v4) \<and>
     (\<forall>out \<in> set (rm_outputs manifest). output_matches ports os dir fs out) \<and>
     verify_release_id ports manifest = Inr () \<and> verify_source manifest = Inr () \<and> verify_profile model d manifest = Inr () \<and>
     mmap_load (vp_sha256 ports) files dir = Some (Inr m) \<and> image_matches v4 manifest m \<and> check_utf8 m = Some (Inr ())"

lemma read_release_manifest_ok_iff:
  "read_release_manifest ports os dir fs = Inr manifest \<longleftrightarrow>
     (\<exists>json. os_read os (path_join dir RELEASE_MANIFEST_FILE) fs = Inr json \<and> vp_parse_manifest ports json = Inr manifest)"
  by (auto simp: read_release_manifest_def Let_def result_simps)

lemma verify_release_dir_ok_iff:
  "verify_release_dir ports os files dir model d fs = Some (Inr manifest) \<longleftrightarrow>
     (\<exists>v4 m. verified_release ports os files dir model d fs manifest v4 m)"
proof -
  have "map_option (map_ok (\<lambda>_. y)) r = Some (Inr x) \<longleftrightarrow> r = Some (Inr ()) \<and> x = y" for r :: "('e + unit) option" and x y :: 'b
    by (cases r) (auto simp: result_simps)
  then show ?thesis
    by (auto simp: verify_release_dir_def verified_release_def panic_then_Some_Inr read_release_manifest_ok_iff
        verify_versions_ok_iff verify_image_ok_iff result_simps verify_output_names_ok_iff verify_output_ok_iff)
qed

text \<open>Every string of a checked image is UTF-8, so a hit always has its text and id.\<close>

lemma check_utf8_ok_iff:
  "check_utf8 m = Some (Inr ()) \<longleftrightarrow>
     (\<forall>i < mmap_record_count m. \<exists>text title doc json. mmap_text m i = Some (Inr text) \<and> mmap_title m i = Some (Inr title) \<and>
        original_doc_id m i = Some (Inr doc) \<and> metadata_json m i = Some (Inr json))"
  by (auto simp: check_utf8_def try_each_ok_iff check_utf8_at_def panic_then_Some_Inr)

lemma readable_hit:
  assumes "mmap_text m (rr_record_index c) = Some (Inr text)" "mmap_title m (rr_record_index c) = Some (Inr title)"
    and "original_doc_id m (rr_record_index c) = Some (Inr doc)" "metadata_json m (rr_record_index c) = Some (Inr json)"
  shows "\<exists>r. hit_of ports m c = Some (Inr r)"
proof -
  obtain meta where meta: "mmap_meta m (rr_record_index c) = Some meta"
    using assms(1) by (cases "mmap_meta m (rr_record_index c)") (simp_all add: mmap_text_def)
  obtain i d where "hit_identity ports m c = Some (Inr (i, d))"
    using assms(3,4) by (cases "has_sidecars (mi_layout m)") (simp_all add: hit_identity_def panic_then_def)
  moreover have "\<exists>x. hit_citation m c ct i d = Some x" for ct
    using assms(2) by (auto simp: hit_citation_def split: option.splits)
  ultimately show ?thesis
    using assms(1) meta by (auto simp: hit_of_def panic_then_def Let_def)
qed

lemma collect_hits_returns: "(\<And>x. x \<in> set xs \<Longrightarrow> \<exists>y. f x = Some (Inr y)) \<Longrightarrow> \<exists>ys. collect_hits f xs = Some (Inr ys) \<and> length ys = length xs"
  by (induction xs) (fastforce simp: panic_then_def)+

lemma readable_search:
  assumes ok: "mmap_ok m" and utf8: "check_utf8 m = Some (Inr ())" and sched: "schedules (sp_scheduler ports)"
    and q: "length query = 512" "\<forall>x \<in> set query. f32_is_finite x" and k: "1 \<le> k" "k \<le> TOP_K_MAX"
  shows "\<exists>hits. turbo_search ports m query k = Some (Inr hits) \<and> length hits = min k (mmap_record_count m)"
proof -
  obtain heap where heap: "scan_index ports m query k = Some (Inr heap)" "best_candidates m query k heap"
    using scan_index_ok(2) [OF ok sched q(1)] by blast
  have "\<exists>r. hit_of ports m c = Some (Inr r)" if "c \<in> set (sort_by compare_ranked_results heap)" for c
  proof -
    have "rr_record_index c < mmap_record_count m"
      using best_candidates_index(1) [OF heap(2), of c] that by simp
    then show ?thesis
      using utf8 readable_hit unfolding check_utf8_ok_iff by blast
  qed
  then obtain hits where "collect_hits (hit_of ports m) (sort_by compare_ranked_results heap) = Some (Inr hits)"
      "length hits = length heap"
    using collect_hits_returns [of "sort_by compare_ranked_results heap" "hit_of ports m"] by auto
  moreover have "unat (th_dim (mi_header m)) = 512"
    using ok layout_dim [of "mi_header m"] by (auto simp: mmap_ok_def)
  ultimately show ?thesis
    using heap(1) best_candidates_index(3) [OF heap(2)] q k
    by (auto simp: turbo_search_def panic_then_def validate_query_embedding_def validate_embedding_dim_def
        validate_top_k_def list_all_iff)
qed

section \<open>A built release verifies\<close>

lemma release_codec_format:
  assumes "release_codec_generate quoted env fmt = Some (Inr codec)"
  shows "case codec of ReleaseV3 c _ _ \<Rightarrow> fmt = FormatV3 \<and> c = legacy_v1 | ReleaseV4 p \<Rightarrow> fmt = FormatV4 (tp_config p)"
proof (cases fmt)
  case FormatV3
  then show ?thesis
    using assms by auto
next
  case (FormatV4 c)
  then obtain p where "prod_generate (re_sampler env) c = Some (Inr p)" "codec = ReleaseV4 p"
    using assms by (auto simp: result_simps split: if_splits)
  then show ?thesis
    using FormatV4 prod_generate_ok(1) by auto
qed

text \<open>The codec section a release is written with passes the checks, and names the codec that loads.\<close>

lemma written_section_verifies:
  assumes gen: "release_codec_generate quoted env fmt = Some (Inr codec)"
    and sec: "release_manifest_codec quoted' codec = Some (Inr section_written)"
  obtains v4 where "verify_codec_section ports section_written = Some (Inr v4)"
    "manifest_codec_version section_written = format_version fmt" "manifest_codec_dim section_written = 512"
    "\<forall>expected. v4 = Some expected \<longrightarrow> (\<exists>p. loaded_codec codec = ProdAssets p \<and> tp_config p = expected)"
proof (cases codec)
  case (ReleaseV3 c centroids projection)
  then have f: "fmt = FormatV3" "c = legacy_v1"
    using release_codec_format [OF gen] by auto
  obtain meta where m: "to_v3_codec_metadata legacy_v1 = Some (Inr meta)" "section_written = CodecV3 meta"
    using sec ReleaseV3 f by (auto simp: result_simps)
  then have "cm_dim meta = 512"
    by (auto simp: to_v3_codec_metadata_def legacy_v1_def split: sum.splits if_splits)
  moreover have "verify_codec_section ports section_written = Some (Inr None)"
    using m by (simp add: verify_codec_section_def panic_then_def)
  ultimately show ?thesis
    using that [of None] m f by simp
next
  case (ReleaseV4 p)
  then have f: "fmt = FormatV4 (tp_config p)"
    using release_codec_format [OF gen] by auto
  obtain meta where m: "to_v4_codec_metadata (tp_config p) = Inr meta" "section_written = CodecV4 meta"
    using sec ReleaseV4 by (auto simp: result_simps)
  then have "from_v4_codec_metadata meta = Inr (tp_config p)"
    by (simp add: v4_metadata_roundtrip)
  then have "verify_codec_section ports section_written = Some (Inr (Some (tp_config p)))"
    using m by (simp add: verify_codec_section_def)
  moreover have "v4_dim meta = 512"
    using m(1) by (auto simp: to_v4_codec_metadata_def validate_config_ok_iff result_simps split: if_splits)
  ultimately show ?thesis
    using that [of "Some (tp_config p)"] m f ReleaseV4 by simp
qed

lemma format_codec_dim:
  assumes "release_codec_generate quoted env fmt = Some (Inr codec)"
  shows "cfg_dim (format_config fmt) = 512"
proof (cases codec)
  case (ReleaseV3 c centroids projection)
  then show ?thesis
    using release_codec_format [OF assms] by (auto simp: legacy_v1_def)
next
  case (ReleaseV4 p)
  then show ?thesis
    using release_codec_format [OF assms] generated_codec_good [OF assms] prod_ok_config(2) [of p]
    by (auto simp: good_codec_def)
qed

lemma release_header_version:
  assumes "release_codec_generate quoted env fmt = Some (Inr codec)"
    and "release_header sha256 codec n contents = Some h"
  shows "th_version h = format_version fmt"
  using assms(2) release_codec_format [OF assms(1)]
  by (cases codec) (auto simp: header_new_v3_def header_new_v4_def Let_def split: if_splits)

definition reads_directory :: "'f os_ops \<Rightarrow> 'f dir_view \<Rightarrow> 'f \<Rightarrow> string \<Rightarrow> bool" where
  "reads_directory os view fs dir \<longleftrightarrow>
     (\<forall>tree name contents. view fs dir = Some tree \<longrightarrow> tree name = Some contents \<longrightarrow>
        os_read os (path_join dir name) fs = Inr contents)"

text \<open>The claims a release makes of its source and model.\<close>

definition release_claims :: "release_source \<Rightarrow> embedding_profile \<Rightarrow> nat \<Rightarrow> string option \<Rightarrow> u32 option \<Rightarrow> bool" where
  "release_claims source profile n model d \<longleftrightarrow>
     rs_kind source = ''lance'' \<and> rs_dataset_path source \<noteq> [] \<and> rs_table_version source \<noteq> 0 \<and>
     rs_table_row_count source = of_nat n \<and> ep_model_id profile \<noteq> [] \<and>
     (\<forall>expected. model = Some expected \<longrightarrow> ep_model_id profile = expected) \<and>
     (\<forall>expected. d = Some expected \<longrightarrow> ep_dim profile = expected)"

lemma release_image_verifies:
  assumes image: "release_image quoted env fmt docs embeddings n = Some (Inr (codec, im))"
    and serves: "serves files dir (release_files codec im)" and sha: "\<forall>b. length (re_sha256 env b) = 32"
    and docs: "length docs < 2 ^ 32" "\<forall>c \<in> set docs. chunk_fits env c"
    and version: "rm_turbo_version manifest = format_version fmt"
    and rows: "rs_table_row_count (rm_source manifest) = of_nat (length docs)"
    and v4: "\<forall>expected. v4 = Some expected \<longrightarrow> (\<exists>p. loaded_codec codec = ProdAssets p \<and> tp_config p = expected)"
  shows "\<exists>m. mmap_load (re_sha256 env) files dir = Some (Inr m) \<and> image_matches v4 manifest m \<and> check_utf8 m = Some (Inr ())"
proof (rule release_written [OF image serves sha docs])
  fix header
  assume w: "written quoted env codec header im files dir docs embeddings" and "docs \<noteq> []"
  obtain m where m: "mmap_load (re_sha256 env) files dir = Some (Inr m)" "holds_image codec im header m"
    by (rule written_loads [OF w])
  have gen: "release_codec_generate quoted env fmt = Some (Inr codec)"
    by (rule release_image_cases [OF image])
  have "th_version header = format_version fmt"
    using w release_header_version [OF gen] unfolding written_def by blast
  then have "image_matches v4 manifest m"
    using m(2) written_header(2) [OF w] version rows v4 by (simp add: image_matches_def holds_image_def)
  moreover have "mmap_record_count m = length docs"
    using m(2) written_header(3) [OF w] by (simp add: mmap_record_count_def holds_image_def)
  then have "check_utf8 m = Some (Inr ())"
    using held_texts(4,5) [OF m(2) w] held_sidecars [OF m(2) w] by (simp add: check_utf8_ok_iff)
  ultimately show ?thesis
    using m(1) by blast
qed

lemma described_outputs_match:
  assumes d: "manifest_describes ports fmt profile source n codec im manifest"
    and v: "view fs dir = Some (release_tree codec im json)" and r: "reads_directory os view fs dir"
    and "vp_sha256 vports = re_sha256 (rp_env ports)" and out: "out \<in> set (rm_outputs manifest)"
  shows "output_matches vports os dir fs out"
proof -
  obtain b where b: "(of_name out, b) \<in> set (release_files codec im)"
    "of_sha256 out = sha256_hex (re_sha256 (rp_env ports)) b" "of_size_bytes out = of_nat (length b)"
    using d out by (auto simp: manifest_describes_def Let_def)
  have "os_read os (path_join dir (of_name out)) fs = Inr (bytes_text b)"
    using r v release_tree_file [OF b(1)] by (auto simp: reads_directory_def)
  then show ?thesis
    using b assms(4) bytes_text_inverse [of b] by (auto simp: output_matches_def simp del: length_text_bytes)
qed

text \<open>What the two sides of a build and a verification share.\<close>

definition verifier_agrees ::
  "release_ports \<Rightarrow> verify_ports \<Rightarrow> 'f os_ops \<Rightarrow> mapper \<Rightarrow> 'f dir_view \<Rightarrow> 'f \<Rightarrow> string \<Rightarrow> release_manifest \<Rightarrow> bool" where
  "verifier_agrees ports vports os files view fs dir manifest \<longleftrightarrow>
     vp_sha256 vports = re_sha256 (rp_env ports) \<and>
     (\<forall>json. rp_manifest_json ports manifest = Inr json \<longrightarrow> vp_parse_manifest vports json = Inr manifest) \<and>
     maps_directory files view fs dir \<and> reads_directory os view fs dir"

lemma build_release_verified:
  assumes "build_release ports os fmt out docs embeddings profile source fs = Some (Inr manifest, fs')"
    and "output_place out = Inr (parent, name)"
    and "lawful_dirs os view {staging_path ports parent name, backup_path ports parent name, out}"
    and "view fs (staging_path ports parent name) = None"
    and "verifier_agrees ports vports os files view fs' out manifest"
    and "\<forall>b. length (re_sha256 (rp_env ports) b) = 32"
    and "length docs < 2 ^ 32" and "\<forall>c \<in> set docs. chunk_fits (rp_env ports) c"
    and "release_claims source profile (length docs) model d"
  shows "\<exists>v4 m. verified_release vports os files out model d fs' manifest v4 m"
proof -
  have agree: "vp_sha256 vports = re_sha256 (rp_env ports)" "maps_directory files view fs' out"
      "reads_directory os view fs' out"
    using assms(5) by (simp_all add: verifier_agrees_def)
  obtain codec im json where image: "release_image (rp_quoted ports) (rp_env ports) fmt docs embeddings (ep_dim profile) =
      Some (Inr (codec, im))"
    and desc: "manifest_describes ports fmt profile source (length docs) codec im manifest"
    and json: "rp_manifest_json ports manifest = Inr json" and tree: "view fs' out = Some (release_tree codec im json)"
    using build_release_outcome [OF assms(1-4)] by auto
  have gen: "release_codec_generate (rp_quoted ports) (rp_env ports) fmt = Some (Inr codec)"
    and "check_release_input fmt docs embeddings (ep_dim profile) = Inr ()"
    by (rule release_image_cases [OF image], assumption)+
  then have dim: "ep_dim profile = 512"
    using format_codec_dim [OF gen] by (simp add: check_release_input_ok_iff)
  obtain v4 where sec: "verify_codec_section vports (rm_codec manifest) = Some (Inr v4)"
    "manifest_codec_version (rm_codec manifest) = format_version fmt" "manifest_codec_dim (rm_codec manifest) = 512"
    "\<forall>expected. v4 = Some expected \<longrightarrow> (\<exists>p. loaded_codec codec = ProdAssets p \<and> tp_config p = expected)"
    by (rule written_section_verifies [OF gen, of "rp_quoted ports" "rm_codec manifest" vports])
      (use desc in \<open>simp add: manifest_describes_def Let_def\<close>)
  have fields: "rm_schema_version manifest = 1"
      "Some (map of_name (rm_outputs manifest)) = release_output_files (format_version fmt)"
      "rm_turbo_version manifest = format_version fmt" "rm_profile manifest = profile" "rm_source manifest = source"
      "fp_doc_count (rm_fingerprint manifest) = of_nat (length docs)" "verify_release_id vports manifest = Inr ()"
    using desc agree(1) by (simp_all add: manifest_describes_def Let_def verify_release_id_ok_iff)
  obtain m where "mmap_load (re_sha256 (rp_env ports)) files out = Some (Inr m)" "image_matches v4 manifest m"
      "check_utf8 m = Some (Inr ())"
    using release_image_verifies [OF image release_tree_serves [OF agree(2) tree] assms(6-8) fields(3) _ sec(4)]
      assms(9) fields(5) by (auto simp: release_claims_def)
  moreover have "os_read os (path_join out RELEASE_MANIFEST_FILE) fs' = Inr json" "vp_parse_manifest vports json = Inr manifest"
    using json tree agree(3) assms(5) by (simp_all add: verifier_agrees_def reads_directory_def release_tree_def)
  moreover have "verify_source manifest = Inr ()" "verify_profile model d manifest = Inr ()"
    using fields assms(9) dim sec(3) by (simp_all add: verify_source_ok_iff verify_profile_ok_iff release_claims_def)
  moreover have "\<forall>x \<in> set (rm_outputs manifest). output_matches vports os out fs' x"
    using described_outputs_match [OF desc tree agree(3,1)] by blast
  ultimately have "verified_release vports os files out model d fs' manifest v4 m"
    using sec(1,2) fields agree(1) unfolding verified_release_def by (intro conjI exI [of _ json]) simp_all
  then show ?thesis
    by blast
qed

text \<open>
  C35. What the builder publishes, the verifier accepts: when a build with a Lance
  source of as many rows as chunks succeeds, the verification of its output directory returns
  exactly the manifest of the build, for any expectation the model and dimension meet.
\<close>

theorem built_release_verifies:
  assumes "build_release ports os fmt out docs embeddings profile source fs = Some (Inr manifest, fs')"
    and "output_place out = Inr (parent, name)"
    and "lawful_dirs os view {staging_path ports parent name, backup_path ports parent name, out}"
    and "view fs (staging_path ports parent name) = None"
    and "verifier_agrees ports vports os files view fs' out manifest"
    and "\<forall>b. length (re_sha256 (rp_env ports) b) = 32"
    and "length docs < 2 ^ 32" and "\<forall>c \<in> set docs. chunk_fits (rp_env ports) c"
    and "release_claims source profile (length docs) model d"
  shows "verify_release_dir vports os files out model d fs' = Some (Inr manifest)"
  unfolding verify_release_dir_ok_iff by (rule build_release_verified [OF assms])

section \<open>The release id binds the content\<close>

lemma hex_byte_inj: "hex_digits 2 (unat a) = hex_digits 2 (unat b) \<longleftrightarrow> a = (b :: u8)"
proof -
  have d: "hex_digits 2 n = [hex_digit (n div 16 mod 16), hex_digit (n mod 16)]" for n
    by (simp add: hex_digits_def upt_rec)
  have "unat a = unat b" if "unat a div 16 mod 16 = unat b div 16 mod 16" "unat a mod 16 = unat b mod 16"
  proof -
    have "unat a < 256" "unat b < 256"
      using unat_bound [of a] unat_bound [of b] by simp_all
    then have "unat a div 16 = unat b div 16"
      using that(1) by (simp add: less_mult_imp_div_less)
    then show ?thesis
      using that(2) by (metis div_mult_mod_eq)
  qed
  then show ?thesis
    by (auto simp: d hex_digit_inj word_unat_eq_iff)
qed

lemma length_hex_encode: "length (hex_encode b) = 2 * length b"
  by (induction b) (simp_all add: hex_encode_def hex_digits_def)

lemma hex_encode_inj: "hex_encode a = hex_encode b \<Longrightarrow> a = b"
proof (induction a arbitrary: b)
  case Nil
  then show ?case
    using length_hex_encode [of b] length_hex_encode [of "[]"] by simp
next
  case (Cons x a)
  then obtain y b' where b: "b = y # b'"
    using length_hex_encode [of b] length_hex_encode [of "x # a"] by (cases b) auto
  have "hex_digits 2 (unat x) = hex_digits 2 (unat y) \<and> hex_encode a = hex_encode b'"
    using Cons.prems b by (simp add: hex_encode_def hex_digits_def)
  then show ?case
    using Cons.IH [of b'] b hex_byte_inj by blast
qed

definition no_collision :: "(blob \<Rightarrow> blob) \<Rightarrow> blob \<Rightarrow> blob \<Rightarrow> bool" where
  "no_collision sha256 a b \<longleftrightarrow> (sha256 a = sha256 b \<longrightarrow> a = b)"

definition id_strings_fit :: "release_manifest \<Rightarrow> bool" where
  "id_strings_fit manifest \<longleftrightarrow>
     length (ep_model_id (rm_profile manifest)) < 2 ^ 64 \<and> length (fp_content_digest (rm_fingerprint manifest)) < 2 ^ 64"

definition hashed_id :: "release_manifest \<Rightarrow> blob" where
  "hashed_id manifest = release_id_input (rm_turbo_version manifest) (rm_profile manifest) (rm_codec manifest)
     (fp_content_digest (rm_fingerprint manifest)) (rm_outputs manifest)"

lemma verified_codec_names_fit:
  assumes "verify_codec_section ports codec = Some (Inr v4)"
  shows "codec_names_fit codec"
proof (cases codec)
  case (CodecV4 m)
  then obtain c p where "codec_from_name (v4_codec_id m) = Some c" "policy_from_name (v4_norm_policy m) = Some p"
    using assms by (auto simp: verify_codec_section_def from_v4_codec_metadata_def result_simps)
  then have "v4_codec_id m = codec_name c" "v4_norm_policy m = policy_name p"
    by (simp_all add: codec_from_name_iff policy_from_name_iff)
  then show ?thesis
    using CodecV4 by (cases c; cases p) (simp_all add: codec_names_fit_def)
qed (simp add: codec_names_fit_def)

lemma release_file_names_short: "release_output_files v = Some names \<Longrightarrow> n \<in> set names \<Longrightarrow> length n < 2 ^ 64"
  by (auto simp: release_output_files_def V3_RELEASE_OUTPUT_FILES_def V4_RELEASE_OUTPUT_FILES_def CENTROIDS_FILE_def
      PROJECTION_FILE_def CODEBOOK_FILE_def QJL_FILE_def ROTATION_FILE_def TURBO_STATIC_FILE_def META_FILE_def
      TEXT_FILE_def TITLE_FILE_def META_EXT_FILE_def DOCID_FILE_def META_JSON_FILE_def split: if_splits)

lemma verified_id_fields:
  assumes v: "verified_release ports os files dir model d fs manifest v4 m" and sha: "\<forall>b. length (vp_sha256 ports b) = 32"
    and fit: "id_strings_fit manifest"
  shows "id_fields_ok (rm_turbo_version manifest) (rm_profile manifest) (rm_codec manifest)
    (fp_content_digest (rm_fingerprint manifest)) (rm_outputs manifest)"
proof -
  have "output_fits out" if out: "out \<in> set (rm_outputs manifest)" for out
  proof -
    have "output_matches ports os dir fs out" "length (of_name out) < 2 ^ 64"
      using v out release_file_names_short [of "rm_turbo_version manifest" "map of_name (rm_outputs manifest)" "of_name out"]
      by (simp_all add: verified_release_def)
    then show ?thesis
      using sha by (auto simp: output_fits_def output_matches_def sha256_hex_def length_hex_encode)
  qed
  then show ?thesis
    using v fit verified_codec_names_fit [of ports "rm_codec manifest" v4]
    by (simp add: id_fields_ok_def verified_release_def id_strings_fit_def)
qed

text \<open>
  C36. A release id names one content: two directories that verify with the same
  release id agree on the image version, the embedding model and dimension, the codec and the
  content digest, and hold the same bytes in every file, unless two of the byte strings that the
  verifier hashed (the fields of the two manifests, or the two versions of one file) collide
  under SHA-256.
\<close>

theorem release_id_binds_content:
  assumes "verify_release_dir ports os files dir model d fs = Some (Inr a)"
    and "verify_release_dir ports os files' dir' model' d' fs' = Some (Inr b)"
    and "rm_release_id a = rm_release_id b"
    and "\<forall>b. length (vp_sha256 ports b) = 32" and "id_strings_fit a" and "id_strings_fit b"
    and "no_collision (vp_sha256 ports) (hashed_id a) (hashed_id b)"
    and "\<forall>out \<in> set (rm_outputs a). \<forall>x y.
      os_read os (path_join dir (of_name out)) fs = Inr x \<longrightarrow> os_read os (path_join dir' (of_name out)) fs' = Inr y \<longrightarrow>
      no_collision (vp_sha256 ports) (text_bytes x) (text_bytes y)"
  shows "rm_turbo_version a = rm_turbo_version b \<and> rm_profile a = rm_profile b \<and> rm_codec a = rm_codec b \<and>
    fp_content_digest (rm_fingerprint a) = fp_content_digest (rm_fingerprint b) \<and>
    (\<forall>name \<in> of_name ` set (rm_outputs a). \<exists>bytes.
       os_read os (path_join dir name) fs = Inr bytes \<and> os_read os (path_join dir' name) fs' = Inr bytes)"
proof -
  obtain v4 m v4' m' where va: "verified_release ports os files dir model d fs a v4 m"
    and vb: "verified_release ports os files' dir' model' d' fs' b v4' m'"
    using assms(1,2) unfolding verify_release_dir_ok_iff by blast
  have "rm_release_id a = hex_encode (vp_sha256 ports (hashed_id a))" "rm_release_id b = hex_encode (vp_sha256 ports (hashed_id b))"
    using va vb by (simp_all add: verified_release_def verify_release_id_ok_iff derive_release_id_def hashed_id_def)
  then have "hashed_id a = hashed_id b"
    using assms(3,7) hex_encode_inj unfolding no_collision_def by metis
  then have same: "rm_turbo_version a = rm_turbo_version b" "rm_profile a = rm_profile b" "rm_codec a = rm_codec b"
      "fp_content_digest (rm_fingerprint a) = fp_content_digest (rm_fingerprint b)"
      "sort_outputs (rm_outputs a) = sort_outputs (rm_outputs b)"
    using release_id_exact [OF verified_id_fields [OF va assms(4,5)] verified_id_fields [OF vb assms(4,6)]]
    unfolding hashed_id_def by blast+
  have "set (rm_outputs a) = set (rm_outputs b)"
    using arg_cong [OF same(5), of set] by (simp add: sort_outputs_def)
  then have *: "output_matches ports os dir fs out \<and> output_matches ports os dir' fs' out" if "out \<in> set (rm_outputs a)" for out
    using va vb that by (simp add: verified_release_def)
  have "\<exists>bytes. os_read os (path_join dir (of_name out)) fs = Inr bytes \<and> os_read os (path_join dir' (of_name out)) fs' = Inr bytes"
    if out: "out \<in> set (rm_outputs a)" for out
  proof -
    obtain x y where xy: "os_read os (path_join dir (of_name out)) fs = Inr x" "os_read os (path_join dir' (of_name out)) fs' = Inr y"
      "sha256_hex (vp_sha256 ports) (text_bytes x) = sha256_hex (vp_sha256 ports) (text_bytes y)"
      using * [OF out] unfolding output_matches_def by auto
    then have "text_bytes x = text_bytes y"
      using assms(8) out hex_encode_inj unfolding no_collision_def sha256_hex_def by blast
    then show ?thesis
      using xy(1,2) text_bytes_inj by auto
  qed
  then show ?thesis
    using same by blast
qed

text \<open>
  C37. A release that verifies can be served: its image loads, holds as many
  records as the manifest counts documents, and every well-formed search on it succeeds with the
  full number of hits, so no text, title or id that is not UTF-8 is ever met.
\<close>

theorem verified_release_serves:
  assumes "verify_release_dir ports os files dir model d fs = Some (Inr manifest)"
    and "schedules (sp_scheduler search)"
    and "length query = 512" and "\<forall>x \<in> set query. f32_is_finite x" and "1 \<le> k" and "k \<le> TOP_K_MAX"
  shows "\<exists>m hits. mmap_load (vp_sha256 ports) files dir = Some (Inr m) \<and>
    mmap_record_count m = unat (fp_doc_count (rm_fingerprint manifest)) \<and>
    turbo_search search m query k = Some (Inr hits) \<and>
    length hits = min k (unat (fp_doc_count (rm_fingerprint manifest)))"
proof -
  obtain v4 m where v: "verified_release ports os files dir model d fs manifest v4 m"
    using assms(1) unfolding verify_release_dir_ok_iff by blast
  then have m: "mmap_load (vp_sha256 ports) files dir = Some (Inr m)" "check_utf8 m = Some (Inr ())"
    and n: "mmap_record_count m = unat (fp_doc_count (rm_fingerprint manifest))"
    by (auto simp: verified_release_def image_matches_def verify_source_ok_iff mmap_record_count_def)
  show ?thesis
    using readable_search [OF mmap_load_ok [OF m(1)] m(2) assms(2-6)] m(1) n by auto
qed

section \<open>The swap of the pointer\<close>

context publish_storage
begin

lemma activate_ok:
  assumes "pointer STATIC_HEAD_KEY" "activate_static_pointer env ops de ser release_id t s = (Inr res, s')"
  shows "ar_release_id res = release_id" "static_release_head_validate (static_release_head_new release_id t) = Inr ()"
    "map_option tag (peek STATIC_HEAD_KEY (env s)) = map_option tag (peek STATIC_HEAD_KEY s)"
    "peek STATIC_HEAD_KEY s' = Some (ser (static_release_head_new release_id t))"
    "case peek STATIC_HEAD_KEY s of
       None \<Rightarrow> ar_previous_release_id res = None
     | Some raw \<Rightarrow> \<exists>h. static_release_head_from_json de raw = Inr h \<and> ar_previous_release_id res = Some (sh_release_id h)"
    "pointer j \<Longrightarrow> j \<noteq> STATIC_HEAD_KEY \<Longrightarrow> peek j s' = peek j (env s)"
proof -
  obtain current previous where r: "op_read ops STATIC_HEAD_KEY s = Inr current"
    "(case current of None \<Rightarrow> previous = None
      | Some ob \<Rightarrow> \<exists>h. static_release_head_from_json de (vo_bytes ob) = Inr h \<and> previous = Some (sh_release_id h))"
    "static_release_head_validate (static_release_head_new release_id t) = Inr ()"
    "op_cas ops STATIC_HEAD_KEY (map_option vo_etag current) (ser (static_release_head_new release_id t)) (env s) = (Inr True, s')"
    "res = \<lparr> ar_release_id = release_id, ar_previous_release_id = previous \<rparr>"
    using assms(2) by (fastforce simp: activate_static_pointer_def Let_def result_simps
        split: sum.splits option.splits prod.splits bool.splits)
  note p = read_peeks [OF assms(1) r(1)] and c = cas_swaps [OF assms(1) r(4)]
  show "ar_release_id res = release_id" "static_release_head_validate (static_release_head_new release_id t) = Inr ()"
    "peek STATIC_HEAD_KEY s' = Some (ser (static_release_head_new release_id t))"
    using r c by simp_all
  show "map_option tag (peek STATIC_HEAD_KEY (env s)) = map_option tag (peek STATIC_HEAD_KEY s)"
    using p c by (simp add: option.map_comp o_def)
  show "case peek STATIC_HEAD_KEY s of
       None \<Rightarrow> ar_previous_release_id res = None
     | Some raw \<Rightarrow> \<exists>h. static_release_head_from_json de raw = Inr h \<and> ar_previous_release_id res = Some (sh_release_id h)"
    using p r(2,5) by (cases "peek STATIC_HEAD_KEY s") auto
  show "peek j s' = peek j (env s)" if "pointer j" "j \<noteq> STATIC_HEAD_KEY"
    using cas_frame [OF assms(1) that r(4)] .
qed

lemma activate_fails:
  assumes "pointer STATIC_HEAD_KEY" "activate_static_pointer env ops de ser release_id t s = (Inl e, s')"
  shows "s' = s \<or> s' = env s"
    and "e = LostCas i \<Longrightarrow> i = release_id \<and>
      map_option tag (peek STATIC_HEAD_KEY (env s)) \<noteq> map_option tag (peek STATIC_HEAD_KEY s)"
proof -
  have p: "op_read ops STATIC_HEAD_KEY s = Inr ob \<Longrightarrow> map_option vo_etag ob = map_option tag (peek STATIC_HEAD_KEY s)" for ob
    by (auto dest!: read_peeks [OF assms(1)] simp: option.map_comp o_def)
  show "s' = s \<or> s' = env s"
    using assms cas_refuses [OF assms(1)] cas_fails [OF assms(1)]
    by (auto simp: activate_static_pointer_def Let_def result_simps split: sum.splits option.splits prod.splits bool.splits)
  show "i = release_id \<and> map_option tag (peek STATIC_HEAD_KEY (env s)) \<noteq> map_option tag (peek STATIC_HEAD_KEY s)"
    if "e = LostCas i"
    using assms that p cas_refuses [OF assms(1)]
    by (auto simp: activate_static_pointer_def Let_def result_simps split: sum.splits option.splits prod.splits bool.splits)
qed

end

lemma static_is_pointer: "is_pointer_key STATIC_HEAD_KEY"
  by (simp add: is_pointer_key_def)

lemma local_peek_static: "local_peek STATIC_HEAD_KEY s = static_release_head (ls_db s)"
  by (simp add: local_peek_def head_table_def)

text \<open>Equal tags, as checksums of what stands there: both absent, or present with one checksum.\<close>

lemma same_tag_iff: "map_option etag_of x = map_option etag_of y \<longleftrightarrow> rel_option (\<lambda>a b. fnv1a a = fnv1a b) x y"
  by (cases x; cases y) (simp_all add: etag_of_iff)

lemma same_tag_bytes:
  "map_option etag_of x = map_option etag_of y \<Longrightarrow>
    rel_option (\<lambda>old seen. fnv1a old = fnv1a seen \<and> \<not> one_byte_change old seen) x y"
  using one_byte_change_seen by (cases x; cases y) (auto simp: etag_of_iff)

text \<open>
  C38. An activation moves the static pointer only from a value with
  the 64-bit FNV-1a checksum of the one it read: when it succeeds, the pointer it replaced was
  absent exactly if it was read as absent, otherwise its checksum was still that of the bytes
  read (so it had not, for one, been changed in a single byte; a colliding value is not told
  apart); the pointer names the new release and loads as that head, and the result names the
  release that was active when it was read. When it fails, it changed nothing itself, and it
  reports a lost swap only when another process had changed the pointer's presence or checksum.
  The index pointer is never touched.
\<close>

theorem activation_swaps_the_observed_pointer:
  assumes "activate_static_pointer env (local_publish_ops flt os depth base) de ser release_id t s = (r, s')"
    and "de (ser (static_release_head_new release_id t)) = Inr (static_release_head_new release_id t)"
  shows "case r of
      Inr res \<Rightarrow>
        ar_release_id res = release_id \<and> is_release_id release_id \<and>
        rel_option (\<lambda>old seen. fnv1a old = fnv1a seen \<and> \<not> one_byte_change old seen)
          (local_peek STATIC_HEAD_KEY s) (local_peek STATIC_HEAD_KEY (env s)) \<and>
        sqlite_load_active_release no_faults de (ls_db s') = Inr (Some (static_release_head_new release_id t)) \<and>
        map_ok (map_option sh_release_id) (sqlite_load_active_release no_faults de (ls_db s)) =
          Inr (ar_previous_release_id res) \<and>
        local_peek INDEX_HEAD_KEY s' = local_peek INDEX_HEAD_KEY (env s)
    | Inl e \<Rightarrow>
        (s' = s \<or> s' = env s) \<and>
        (\<forall>i. e = LostCas i \<longrightarrow> i = release_id \<and>
           \<not> rel_option (\<lambda>old seen. fnv1a old = fnv1a seen) (local_peek STATIC_HEAD_KEY s)
             (local_peek STATIC_HEAD_KEY (env s)))"
proof (cases r)
  case (Inl e)
  then show ?thesis
    using local_pub.activate_fails [OF static_is_pointer assms(1) [unfolded Inl]]
    by (auto simp: same_tag_iff [symmetric])
next
  case (Inr res)
  note ok = local_pub.activate_ok [OF static_is_pointer assms(1) [unfolded Inr]]
  have head: "static_release_head_from_json de (ser (static_release_head_new release_id t)) = Inr (static_release_head_new release_id t)"
    using ok(2) assms(2) by (simp add: static_release_head_from_json_ok)
  have "sqlite_load_active_release no_faults de (ls_db s') = Inr (Some (static_release_head_new release_id t))"
    using ok(4) head by (simp add: sqlite_load_active_release_def local_peek_static)
  moreover have "map_ok (map_option sh_release_id) (sqlite_load_active_release no_faults de (ls_db s)) =
      Inr (ar_previous_release_id res)"
    using ok(5) by (cases "static_release_head (ls_db s)") (auto simp: sqlite_load_active_release_def local_peek_static)
  moreover have "is_release_id release_id"
    using ok(2) by (simp add: static_release_head_validate_ok static_release_head_new_def)
  ultimately show ?thesis
    using ok(1,6) same_tag_bytes [OF ok(3) [symmetric]] Inr by (simp add: is_pointer_key_def head_keys_distinct)
qed

section \<open>The installation is all or nothing\<close>

text \<open>
  What the file system adds for a copy between directories of the set \<open>D\<close>, whose entries are files:
  a listing has every name once or more, a copy writes one entry of its destination, a removal
  clears, and creating the parent directory changes none of them.
\<close>

definition list_law :: "'f os_ops \<Rightarrow> (string \<Rightarrow> 'f \<Rightarrow> string + bool) \<Rightarrow> 'f dir_view \<Rightarrow> string set \<Rightarrow> bool" where
  "list_law os stat view D \<longleftrightarrow>
     (\<forall>p \<in> D. \<forall>fs tree. view fs p = Some tree \<longrightarrow>
        (\<forall>entries. os_read_dir os p fs = Inr entries \<longrightarrow> {n. Inr n \<in> set entries} = dom tree) \<and>
        (\<forall>n \<in> dom tree. stat (path_join p n) fs \<noteq> Inr True))"

definition copy_law :: "'f os_ops \<Rightarrow> 'f dir_view \<Rightarrow> string set \<Rightarrow> bool" where
  "copy_law os view D \<longleftrightarrow>
     (\<forall>p \<in> D. \<forall>q \<in> D. \<forall>fs tree n r fs'. p \<noteq> q \<longrightarrow> view fs p = Some tree \<longrightarrow> n \<in> dom tree \<longrightarrow> CHR ''/'' \<notin> set n \<longrightarrow>
        os_copy os (path_join p n) (path_join q n) fs = (r, fs') \<longrightarrow>
        (is_ok r \<longrightarrow> (\<forall>m. view fs q = Some m \<longrightarrow> view fs' q = Some (m(n := tree n)))) \<and>
        (\<forall>x \<in> D. x \<noteq> q \<longrightarrow> view fs' x = view fs x))"

definition clear_law :: "'f os_ops \<Rightarrow> 'f dir_view \<Rightarrow> string set \<Rightarrow> bool" where
  "clear_law os view D \<longleftrightarrow>
     (\<forall>p \<in> D. \<forall>fs u fs'. os_remove_dir_all os p fs = (Inr u, fs') \<longrightarrow> view fs' p = None)"

definition parent_law :: "'f os_ops \<Rightarrow> 'f dir_view \<Rightarrow> string set \<Rightarrow> string \<Rightarrow> bool" where
  "parent_law os view D parent \<longleftrightarrow>
     (\<forall>fs r fs'. os_create_dir_all os parent fs = (r, fs') \<longrightarrow> (\<forall>x \<in> D. view fs' x = view fs x))"

definition lawful_install ::
  "'f os_ops \<Rightarrow> (string \<Rightarrow> 'f \<Rightarrow> string + bool) \<Rightarrow> 'f dir_view \<Rightarrow> string set \<Rightarrow> string \<Rightarrow> bool" where
  "lawful_install os stat view D parent \<longleftrightarrow>
     lawful_dirs os view D \<and> list_law os stat view D \<and> copy_law os view D \<and> clear_law os view D \<and>
     parent_law os view D parent"

definition copy_one ::
  "'f os_ops \<Rightarrow> (string \<Rightarrow> 'f \<Rightarrow> string + bool) \<Rightarrow> nat \<Rightarrow> string \<Rightarrow> string \<Rightarrow> string \<Rightarrow> 'f \<Rightarrow>
     ((static_activate_error + unit) \<times> 'f) option" where
  "copy_one os stat n src dst name fs =
     (case stat (path_join src name) fs of
        Inl e \<Rightarrow> Some (Inl (install_err ''stat'' (path_join src name) e), fs)
      | Inr True \<Rightarrow> copy_dir_recursive os stat n (path_join src name) (path_join dst name) fs
      | Inr False \<Rightarrow> Some (copy_dir_file os (path_join src name) (path_join dst name) fs))"

lemma copy_entries_view:
  assumes laws: "lawful_install os stat view D parent" and D: "src \<in> D" "dst \<in> D" "src \<noteq> dst"
    and plain: "\<forall>n \<in> dom tree. CHR ''/'' \<notin> set n"
    and v: "view fs src = Some tree" "view fs dst = Some m" and names: "{n. Inr n \<in> set entries} \<subseteq> dom tree"
  shows "\<exists>r fs'. copy_dir_entries (copy_one os stat depth src dst) src entries fs = Some (r, fs') \<and>
    (\<forall>x \<in> D. x \<noteq> dst \<longrightarrow> view fs' x = view fs x) \<and>
    (is_ok r \<longrightarrow> view fs' dst = Some (\<lambda>n. if Inr n \<in> set entries then tree n else m n))"
  using v names
proof (induction entries arbitrary: fs m)
  case (Cons e entries)
  show ?case
  proof (cases e)
    case (Inr name)
    have name: "name \<in> dom tree" and rest: "{n. Inr n \<in> set entries} \<subseteq> dom tree"
      using Cons.prems(3) Inr by auto
    have "stat (path_join src name) fs \<noteq> Inr True"
      using laws D(1) Cons.prems(1) name by (auto simp: lawful_install_def list_law_def)
    then consider (fails) x where "stat (path_join src name) fs = Inl x" | (is_file) "stat (path_join src name) fs = Inr False"
      by (cases "stat (path_join src name) fs") auto
    then show ?thesis
    proof cases
      case fails
      then show ?thesis
        using Inr by (simp add: copy_one_def)
    next
      case is_file
      obtain c fs1 where 1: "os_copy os (path_join src name) (path_join dst name) fs = (c, fs1)"
        by fastforce
      have "copy_law os view D"
        using laws by (simp add: lawful_install_def)
      then have view1: "is_ok c \<longrightarrow> view fs1 dst = Some (m(name := tree name))" "\<forall>x \<in> D. x \<noteq> dst \<longrightarrow> view fs1 x = view fs x"
        using D plain Cons.prems(1,2) name 1 unfolding copy_law_def by blast+
      have one: "copy_one os stat depth src dst name fs = Some (copy_dir_file os (path_join src name) (path_join dst name) fs)"
        using is_file by (simp add: copy_one_def)
      show ?thesis
      proof (cases c)
        case (Inl x)
        then show ?thesis
          using Inr one 1 view1(2) by (simp add: copy_dir_file_def)
      next
        case (Inr u)
        have v1: "view fs1 src = Some tree" "view fs1 dst = Some (m(name := tree name))"
          using view1 D Cons.prems(1) Inr by auto
        obtain r fs' where "copy_dir_entries (copy_one os stat depth src dst) src entries fs1 = Some (r, fs')"
          "\<forall>x \<in> D. x \<noteq> dst \<longrightarrow> view fs' x = view fs1 x"
          "is_ok r \<longrightarrow> view fs' dst = Some (\<lambda>n. if Inr n \<in> set entries then tree n else (m(name := tree name)) n)"
          using Cons.IH [OF v1 rest] by blast
        moreover have "(\<lambda>n. if Inr n \<in> set entries then tree n else (m(name := tree name)) n) =
            (\<lambda>n. if Inr n \<in> set (e # entries) then tree n else m n)"
          using \<open>e = Inr name\<close> by auto
        ultimately show ?thesis
          using \<open>e = Inr name\<close> one 1 Inr view1(2) by (auto simp: copy_dir_file_def)
      qed
    qed
  qed simp
qed simp

lemma copy_dir_view:
  assumes laws: "lawful_install os stat view D parent" and D: "src \<in> D" "dst \<in> D" "src \<noteq> dst"
    and plain: "\<forall>n \<in> dom tree. CHR ''/'' \<notin> set n"
    and v: "view fs src = Some tree" "view fs dst = None"
  shows "\<exists>r fs'. copy_dir_recursive os stat (Suc depth) src dst fs = Some (r, fs') \<and>
    (\<forall>x \<in> D. x \<noteq> dst \<longrightarrow> view fs' x = view fs x) \<and> (is_ok r \<longrightarrow> view fs' dst = Some tree)"
proof -
  have dirs: "lawful_dirs os view D" and lists: "list_law os stat view D"
    using laws by (simp_all add: lawful_install_def)
  obtain c fs1 where 1: "os_create_dir_all os dst fs = (c, fs1)"
    by fastforce
  note others = lawful_dirsD(8) [OF dirs D(2) 1]
  show ?thesis
  proof (cases c)
    case (Inl e)
    then show ?thesis
      using 1 others by simp
  next
    case (Inr u)
    have v1: "view fs1 src = Some tree" "view fs1 dst = Some Map.empty"
      using others [OF D(1,3)] v(1) lawful_dirsD(7) [OF dirs D(2) 1 [unfolded Inr] v(2)] by simp_all
    show ?thesis
    proof (cases "os_read_dir os src fs1")
      case (Inl e)
      then show ?thesis
        using 1 Inr others by simp
    next
      case entries: (Inr entries)
      then have names: "{n. Inr n \<in> set entries} = dom tree"
        using lists D(1) v1(1) by (auto simp: list_law_def)
      then have whole: "(\<lambda>n. if Inr n \<in> set entries then tree n else None) = tree"
        by (auto simp: fun_eq_iff)
      obtain r fs' where r: "copy_dir_entries (copy_one os stat depth src dst) src entries fs1 = Some (r, fs')"
        "\<forall>x \<in> D. x \<noteq> dst \<longrightarrow> view fs' x = view fs1 x"
        "is_ok r \<longrightarrow> view fs' dst = Some (\<lambda>n. if Inr n \<in> set entries then tree n else Map.empty n)"
        using copy_entries_view [OF laws D plain v1, of entries depth] names by blast
      have "copy_dir_recursive os stat (Suc depth) src dst fs =
          copy_dir_entries (copy_one os stat depth src dst) src entries fs1"
        using 1 Inr entries by (simp add: copy_one_def [abs_def])
      then show ?thesis
        using r others whole by auto
    qed
  qed
qed

lemma install_by_copy_view:
  assumes laws: "lawful_install os stat view D parent" and D: "src \<in> D" "staging \<in> D" "target \<in> D"
    and ne: "src \<noteq> staging" "staging \<noteq> target" and plain: "\<forall>n \<in> dom tree. CHR ''/'' \<notin> set n"
    and v: "view fs src = Some tree" "view fs target = None"
  shows "\<exists>r fs'. install_by_copy os stat (Suc depth) src staging target fs = Some (r, fs') \<and>
    view fs' target = (if is_ok r then Some tree else None)"
proof -
  have dirs: "lawful_dirs os view D" and clears: "clear_law os view D"
    using laws by (simp_all add: lawful_install_def)
  obtain c fs1 where 1: "(if os_exists os staging fs then os_remove_dir_all os staging fs else (Inr (), fs)) = (c, fs1)"
    by fastforce
  then have view1: "\<forall>x \<in> D. x \<noteq> staging \<longrightarrow> view fs1 x = view fs x" "is_ok c \<longrightarrow> view fs1 staging = None"
    using lawful_dirsD(6) [OF dirs D(2)] lawful_dirsD(1) [OF dirs D(2)] clears D(2)
    by (auto simp: clear_law_def is_ok_iff split: if_splits)
  show ?thesis
  proof (cases c)
    case (Inl e)
    then show ?thesis
      using 1 view1(1) D ne v by (auto simp: install_by_copy_def)
  next
    case (Inr u)
    then obtain r fs2 where 2: "copy_dir_recursive os stat (Suc depth) src staging fs1 = Some (r, fs2)"
      "\<forall>x \<in> D. x \<noteq> staging \<longrightarrow> view fs2 x = view fs1 x" "is_ok r \<longrightarrow> view fs2 staging = Some tree"
      using copy_dir_view [OF laws D(1,2) ne(1) plain, of fs1 depth] view1 D(1) ne(1) v(1) by auto
    then have none: "view fs2 target = None"
      using view1(1) D(3) ne(2) v(2) by auto
    show ?thesis
    proof (cases r)
      case (Inl e)
      then show ?thesis
        using 1 Inr 2(1) none \<open>c = Inr u\<close> by (simp add: install_by_copy_def)
    next
      case ok: (Inr w)
      obtain c3 fs3 where 3: "os_rename os staging target fs2 = (c3, fs3)"
        by fastforce
      then show ?thesis
        using 1 Inr 2 ok none lawful_dirsD(2) [OF dirs D(2,3) ne(2), of fs2 _ fs3]
          lawful_dirsD(5) [OF dirs D(2,3) ne(2), of fs2 _ fs3 target] D(3)
        by (cases c3) (auto simp: install_by_copy_def)
    qed
  qed
qed

lemma release_target_name:
  assumes "is_release_id release_id"
  shows "path_file_name (path_join store_root (static_release_dir_key release_id)) = Some release_id"
proof -
  have "\<forall>c \<in> set release_id. c \<noteq> CHR ''/''" "release_id \<noteq> []" "release_id \<noteq> ''..''"
    using assms by (auto simp: is_release_id_def is_lower_hex_def RELEASE_ID_HEX_LEN_def Let_def)
  moreover have "\<exists>p. path_join store_root (static_release_dir_key release_id) = (p @ ''static/releases/'') @ release_id"
    by (cases "store_root = [] \<or> last store_root = CHR ''/''") (simp_all add: path_join_def static_release_dir_key_def msg_def)
  then obtain p where "path_join store_root (static_release_dir_key release_id) = (p @ ''static/releases/'') @ release_id"
    by blast
  moreover have "rev (takeWhile (\<lambda>c. c \<noteq> CHR ''/'') (rev ((p @ ''static/releases/'') @ release_id))) = release_id"
    using calculation(1) by (intro rev_takeWhile_name) auto
  ultimately show ?thesis
    by (simp add: path_file_name_def Let_def)
qed

text \<open>
  Installing a release directory of files returns, and the managed directory
  afterwards holds the whole release or does not exist: an existing one is left as it is; a
  rename moves the release there; when that fails, a copy into a staging directory, cleared of
  leftovers, is renamed into place only when every file was copied.
\<close>

theorem install_is_all_or_nothing:
  fixes os :: "'f os_ops"
  assumes "is_release_id release_id"
    and "path_parent (path_join store_root (static_release_dir_key release_id)) = Some parent"
    and "lawful_install os stat view {src, path_join parent (install_staging_name release_id),
           path_join store_root (static_release_dir_key release_id)} parent"
    and "src \<noteq> path_join parent (install_staging_name release_id)" and "view fs src = Some tree"
    and "\<forall>n \<in> dom tree. CHR ''/'' \<notin> set n"
  defines "target \<equiv> path_join store_root (static_release_dir_key release_id)"
  shows "\<exists>r fs'. install_into_managed_store os stat (Suc depth) store_root release_id src fs = Some (r, fs') \<and>
    (if view fs target \<noteq> None then r = Inr () \<and> fs' = fs
     else view fs' target = (if is_ok r then Some tree else None))"
proof -
  let ?staging = "path_join parent (install_staging_name release_id)" and ?D = "{src, path_join parent (install_staging_name release_id), target}"
  have laws: "lawful_install os stat view ?D parent"
    using assms(3) by (simp add: target_def)
  then have dirs: "lawful_dirs os view ?D" and parents: "parent_law os view ?D parent"
    by (simp_all add: lawful_install_def)
  have exists: "os_exists os target fs \<longleftrightarrow> view fs target \<noteq> None"
    by (rule lawful_dirsD(1) [OF dirs]) simp
  have slash: "CHR ''/'' \<notin> set (install_staging_name release_id)"
    using assms(1) by (auto simp: install_staging_name_def msg_def is_release_id_def is_lower_hex_def Let_def)
  have staging: "?staging \<noteq> target"
    using release_target_name [OF assms(1), of store_root] path_file_name_join [OF slash, of parent] assms(1)
    by (auto simp: target_def install_staging_name_def msg_def dest: arg_cong [of _ _ length])
  show ?thesis
  proof (cases "view fs target")
    case (Some old)
    then show ?thesis
      using exists by (simp add: install_into_managed_store_def target_def Let_def)
  next
    case None
    then have src: "src \<noteq> target"
      using assms(5) by auto
    obtain c fs1 where 1: "os_create_dir_all os parent fs = (c, fs1)"
      by fastforce
    then have view1: "view fs1 src = Some tree" "view fs1 target = None"
      using parents None assms(5) by (auto simp: parent_law_def)
    obtain c2 fs2 where 2: "os_rename os src target fs1 = (c2, fs2)"
      by fastforce
    note unfold = install_into_managed_store_def target_def [symmetric] Let_def
    show ?thesis
    proof (cases c)
      case (Inl e)
      then show ?thesis
        using None exists 1 view1 assms(2) by (simp add: unfold)
    next
      case (Inr v)
      then have ok: "c = Inr ()"
        by simp
      show ?thesis
      proof (cases c2)
        case (Inr u)
        then have "view fs2 target = Some tree"
          using 2 view1 src lawful_dirsD(2) [OF dirs, of src target fs1 u fs2] by auto
        then show ?thesis
          using None exists 1 2 ok Inr assms(2) by (simp add: unfold)
      next
        case (Inl e)
        then have view2: "view fs2 src = Some tree" "view fs2 target = None"
          using 2 view1 src lawful_dirsD(5) [OF dirs, of src target fs1 e fs2] by auto
        have "\<exists>r fs'. install_by_copy os stat (Suc depth) src ?staging target fs2 = Some (r, fs') \<and>
            view fs' target = (if is_ok r then Some tree else None)"
          by (rule install_by_copy_view [OF laws _ _ _ assms(4) staging assms(6) view2]) simp_all
        then show ?thesis
          using None exists 1 2 ok Inl assms(2) by (auto simp: unfold)
      qed
    qed
  qed
qed

section \<open>Instances\<close>

definition demo_verify :: "release_manifest \<Rightarrow> verify_ports" where
  "demo_verify manifest = \<lparr> vp_sha256 = re_sha256 demo_env, vp_parse_manifest = (\<lambda>_. Inr manifest), vp_quoted = (\<lambda>s. s),
     vp_not_found = ''not found'' \<rparr>"

lemma flat_reads:
  assumes "plain_dir d" "f d = Some (release_tree codec im json)"
  shows "reads_directory flat_os (\<lambda>f. f) f d"
  using assms(2) split_path_join [OF assms(1)] release_tree_names [of codec im json]
  by (fastforce simp: reads_directory_def flat_os_def proper_name_def)

lemma demo_published_release:
  obtains manifest f' where
    "build_release demo_ports flat_os FormatV3 ''/r/live'' [law_chunk] [replicate 512 f32_one] demo_profile demo_source
       (\<lambda>_. None) = Some (Inr manifest, f')"
    "lawful_dirs flat_os (\<lambda>f. f) {staging_path demo_ports ''/r'' ''live'', backup_path demo_ports ''/r'' ''live'', ''/r/live''}"
    "verifier_agrees demo_ports (demo_verify manifest) flat_os (flat_mapper f') (\<lambda>f. f) f' ''/r/live'' manifest"
    "\<forall>b. length (re_sha256 (rp_env demo_ports) b) = 32" "\<forall>c \<in> set [law_chunk]. chunk_fits (rp_env demo_ports) c"
    "release_claims demo_source demo_profile (length [law_chunk]) None (Some 512)"
proof (rule demo_release_published)
  fix manifest f'
  assume b: "build_release demo_ports flat_os FormatV3 ''/r/live'' [law_chunk] [replicate 512 f32_one] demo_profile demo_source
       (\<lambda>_. None) = Some (Inr manifest, f')"
    and l: "lawful_dirs flat_os (\<lambda>f. f) {staging_path demo_ports ''/r'' ''live'', backup_path demo_ports ''/r'' ''live'', ''/r/live''}"
  obtain codec im json where tree: "f' ''/r/live'' = Some (release_tree codec im json)"
    using build_release_outcome [OF b demo_place(1) l] by auto
  have live: "plain_dir ''/r/live''"
    by (simp add: plain_dir_def)
  have "verifier_agrees demo_ports (demo_verify manifest) flat_os (flat_mapper f') (\<lambda>f. f) f' ''/r/live'' manifest"
    using flat_maps [of "''/r/live''" f' codec im json, OF live tree] flat_reads [of "''/r/live''" f' codec im json, OF live tree]
    by (simp add: verifier_agrees_def demo_verify_def demo_ports_def)
  moreover have "\<forall>b. length (re_sha256 (rp_env demo_ports) b) = 32"
    by (simp add: demo_ports_def demo_env_def)
  moreover have "\<forall>c \<in> set [law_chunk]. chunk_fits (rp_env demo_ports) c"
    using law_chunk_fits by (simp add: demo_ports_def)
  moreover have "release_claims demo_source demo_profile (length [law_chunk]) None (Some 512)"
    by (simp add: release_claims_def demo_source_def demo_profile_def)
  ultimately show ?thesis
    using that [OF b l] by blast
qed

lemma built_release_verifies_witness:
  "\<exists>manifest f'.
     build_release demo_ports flat_os FormatV3 ''/r/live'' [law_chunk] [replicate 512 f32_one] demo_profile demo_source
       (\<lambda>_. None) = Some (Inr manifest, f') \<and>
     verify_release_dir (demo_verify manifest) flat_os (flat_mapper f') ''/r/live'' None (Some 512) f' = Some (Inr manifest)"
proof (rule demo_published_release)
  fix manifest f'
  assume b: "build_release demo_ports flat_os FormatV3 ''/r/live'' [law_chunk] [replicate 512 f32_one] demo_profile demo_source
       (\<lambda>_. None) = Some (Inr manifest, f')"
    and h: "lawful_dirs flat_os (\<lambda>f. f) {staging_path demo_ports ''/r'' ''live'', backup_path demo_ports ''/r'' ''live'', ''/r/live''}"
      "verifier_agrees demo_ports (demo_verify manifest) flat_os (flat_mapper f') (\<lambda>f. f) f' ''/r/live'' manifest"
      "\<forall>b. length (re_sha256 (rp_env demo_ports) b) = 32" "\<forall>c \<in> set [law_chunk]. chunk_fits (rp_env demo_ports) c"
      "release_claims demo_source demo_profile (length [law_chunk]) None (Some 512)"
  show ?thesis
    using built_release_verifies [OF b demo_place(1) h(1) refl h(2,3) _ h(4,5)] b by auto
qed

lemma demo_verified:
  obtains manifest f' where
    "verify_release_dir (demo_verify manifest) flat_os (flat_mapper f') ''/r/live'' None (Some 512) f' = Some (Inr manifest)"
    "rm_profile manifest = demo_profile" "fp_doc_count (rm_fingerprint manifest) = 1"
    "length (fp_content_digest (rm_fingerprint manifest)) = 64"
proof (rule demo_published_release)
  fix manifest f'
  assume b: "build_release demo_ports flat_os FormatV3 ''/r/live'' [law_chunk] [replicate 512 f32_one] demo_profile demo_source
       (\<lambda>_. None) = Some (Inr manifest, f')"
    and h: "lawful_dirs flat_os (\<lambda>f. f) {staging_path demo_ports ''/r'' ''live'', backup_path demo_ports ''/r'' ''live'', ''/r/live''}"
      "verifier_agrees demo_ports (demo_verify manifest) flat_os (flat_mapper f') (\<lambda>f. f) f' ''/r/live'' manifest"
      "\<forall>b. length (re_sha256 (rp_env demo_ports) b) = 32" "\<forall>c \<in> set [law_chunk]. chunk_fits (rp_env demo_ports) c"
      "release_claims demo_source demo_profile (length [law_chunk]) None (Some 512)"
  have "verify_release_dir (demo_verify manifest) flat_os (flat_mapper f') ''/r/live'' None (Some 512) f' = Some (Inr manifest)"
    unfolding verify_release_dir_ok_iff
    by (rule build_release_verified [OF b demo_place(1) h(1) refl h(2,3) _ h(4,5)]) simp
  moreover have "rm_profile manifest = demo_profile" "fp_doc_count (rm_fingerprint manifest) = 1"
      "length (fp_content_digest (rm_fingerprint manifest)) = 64"
    using build_release_outcome [OF b demo_place(1) h(1)] h(3)
    by (auto simp: manifest_describes_def Let_def content_digest_def length_hex_encode)
  ultimately show ?thesis
    using that by blast
qed

lemma verified_release_serves_witness:
  "\<exists>manifest f' m hits.
     verify_release_dir (demo_verify manifest) flat_os (flat_mapper f') ''/r/live'' None (Some 512) f' = Some (Inr manifest) \<and>
     mmap_load (re_sha256 demo_env) (flat_mapper f') ''/r/live'' = Some (Inr m) \<and>
     turbo_search demo_search m (replicate 512 f32_one) 5 = Some (Inr hits) \<and> length hits = 1"
proof (rule demo_verified)
  fix manifest f'
  assume v: "verify_release_dir (demo_verify manifest) flat_os (flat_mapper f') ''/r/live'' None (Some 512) f' = Some (Inr manifest)"
    and n: "fp_doc_count (rm_fingerprint manifest) = 1"
  have s: "schedules (sp_scheduler demo_search)"
    by (simp add: demo_search_def schedules_halves)
  have q: "length (replicate 512 f32_one) = 512" "\<forall>x \<in> set (replicate 512 f32_one). f32_is_finite x"
    by (simp_all add: fl_eval f32_one_def)
  have "vp_sha256 (demo_verify manifest) = re_sha256 demo_env"
    by (simp add: demo_verify_def)
  then show ?thesis
    using verified_release_serves [OF v s q, of 5] v n by (auto simp: TOP_K_MAX_def)
qed

lemma release_id_binds_content_witness:
  "\<exists>manifest f'.
     verify_release_dir (demo_verify manifest) flat_os (flat_mapper f') ''/r/live'' None (Some 512) f' = Some (Inr manifest) \<and>
     (\<forall>name \<in> of_name ` set (rm_outputs manifest). \<exists>bytes. os_read flat_os (path_join ''/r/live'' name) f' = Inr bytes)"
proof (rule demo_verified)
  fix manifest f'
  assume v: "verify_release_dir (demo_verify manifest) flat_os (flat_mapper f') ''/r/live'' None (Some 512) f' = Some (Inr manifest)"
    and m: "rm_profile manifest = demo_profile" "length (fp_content_digest (rm_fingerprint manifest)) = 64"
  have sha: "\<forall>b. length (vp_sha256 (demo_verify manifest) b) = 32"
    by (simp add: demo_verify_def demo_env_def)
  have fit: "id_strings_fit manifest"
    using m by (simp add: id_strings_fit_def demo_profile_def)
  show ?thesis
    using release_id_binds_content [OF v v refl sha fit fit] v by (auto simp: no_collision_def)
qed

definition demo_release_id :: string where "demo_release_id = replicate 64 CHR ''a''"

definition demo_activation :: "(static_activate_error + static_activation_result) \<times> unit local_store" where
  "demo_activation = activate_static_pointer (\<lambda>s. s) demo_ops
     (\<lambda>_. Inr (static_release_head_new demo_release_id 1700000000001)) (\<lambda>_. ''head'') demo_release_id 1700000000001 demo_store"

lemma demo_activation_ok:
  "demo_activation = (Inr \<lparr> ar_release_id = demo_release_id, ar_previous_release_id = None \<rparr>, snd demo_activation)"
  by code_simp

lemma activation_swaps_the_observed_pointer_witness:
  "sqlite_load_active_release no_faults (\<lambda>_. Inr (static_release_head_new demo_release_id 1700000000001))
     (ls_db (snd demo_activation)) = Inr (Some (static_release_head_new demo_release_id 1700000000001))"
  using activation_swaps_the_observed_pointer [OF demo_activation_ok [unfolded demo_activation_def demo_ops_def]]
  by (simp add: demo_activation_def demo_ops_def)

text \<open>Directories as lists of files, two of which are on different devices: a rename across them fails.\<close>

type_synonym listed_fs = "string \<Rightarrow> (string \<times> string) list option"

definition in_dir :: "string \<Rightarrow> listed_fs \<Rightarrow> (string \<times> string \<times> (string \<times> string) list) option" where
  "in_dir p f = Option.bind (split_path p) (\<lambda>(d, n). map_option (\<lambda>m. (d, n, m)) (f d))"

definition device_os :: "listed_fs os_ops" where
  "device_os = \<lparr>os_is_dir = (\<lambda>p f. f p \<noteq> None), os_exists = (\<lambda>p f. f p \<noteq> None),
     os_read_dir = (\<lambda>p f. case f p of None \<Rightarrow> Inl ''no such directory'' | Some m \<Rightarrow> Inr (map (Inr \<circ> fst) m)),
     os_create_dir_all = (\<lambda>p f. (Inr (), f(p \<mapsto> (case f p of None \<Rightarrow> [] | Some m \<Rightarrow> m)))),
     os_copy = (\<lambda>p q f. case in_dir p f of
        None \<Rightarrow> (Inl ''no such file'', f)
      | Some (d, n, m) \<Rightarrow>
          (case (map_of m n, in_dir q f) of
             (Some c, Some (d', n', m')) \<Rightarrow> (Inr (), f(d' \<mapsto> (n', c) # m'))
           | _ \<Rightarrow> (Inl ''no such file'', f))),
     os_read = (\<lambda>p f. case in_dir p f of
        Some (d, n, m) \<Rightarrow> (case map_of m n of Some c \<Rightarrow> Inr c | None \<Rightarrow> Inl NotFound)
      | None \<Rightarrow> Inl NotFound),
     os_write = (\<lambda>p c f. case in_dir p f of
        Some (d, n, m) \<Rightarrow> (Inr (), f(d \<mapsto> (n, c) # m))
      | None \<Rightarrow> (Inl ''no such directory'', f)),
     os_rename = (\<lambda>p q f. case f p of
        Some m \<Rightarrow> if p = ''/src'' then (Inl ''invalid cross-device link'', f) else (Inr (), f(q \<mapsto> m, p := None))
      | None \<Rightarrow> (Inl ''no such directory'', f)),
     os_remove_dir_all = (\<lambda>p f. (Inr (), f(p := None))),
     os_remove_file = (\<lambda>p f. (Inl ''unsupported'', f))\<rparr>"

definition listed_view :: "listed_fs dir_view" where
  "listed_view f d = map_option map_of (f d)"

lemma device_lawful_dirs:
  assumes "\<forall>p \<in> D. plain_dir p"
  shows "lawful_dirs device_os listed_view D"
proof -
  have "write_law device_os listed_view D" "read_law device_os listed_view D"
    using assms by (auto simp: write_law_def read_law_def device_os_def in_dir_def split_path_join listed_view_def
        split: option.splits if_splits)
  moreover have "exists_law device_os listed_view D" "rename_law device_os listed_view D" "remove_law device_os listed_view D"
      "create_law device_os listed_view D"
    by (auto simp: exists_law_def rename_law_def remove_law_def create_law_def device_os_def listed_view_def
        split: option.splits if_splits)
  ultimately show ?thesis
    by (simp add: lawful_dirs_def)
qed

lemma device_lawful:
  assumes "\<forall>p \<in> D. plain_dir p" "parent \<notin> D"
  shows "lawful_install device_os (\<lambda>_ _. Inr False) listed_view D parent"
proof -
  have "copy_law device_os listed_view D"
    unfolding copy_law_def
  proof (intro ballI allI impI)
    fix p q fs tree n r fs'
    assume pq: "p \<in> D" "q \<in> D" "listed_view fs p = Some tree" "n \<in> dom tree" "CHR ''/'' \<notin> set n"
      and c: "os_copy device_os (path_join p n) (path_join q n) fs = (r, fs')"
    then obtain m where m: "fs p = Some m" "tree = map_of m"
      by (auto simp: listed_view_def)
    show "(is_ok r \<longrightarrow> (\<forall>m. listed_view fs q = Some m \<longrightarrow> listed_view fs' q = Some (m(n := tree n)))) \<and>
        (\<forall>x \<in> D. x \<noteq> q \<longrightarrow> listed_view fs' x = listed_view fs x)"
      using assms(1) pq c m by (auto simp: device_os_def in_dir_def split_path_join listed_view_def split: if_splits option.splits)
  qed
  moreover have "list_law device_os (\<lambda>_ _. Inr False) listed_view D" "clear_law device_os listed_view D"
      "parent_law device_os listed_view D parent"
    using assms(2) by (auto simp: list_law_def clear_law_def parent_law_def device_os_def listed_view_def dom_map_of_conv_image_fst
        split: option.splits if_splits)
  ultimately show ?thesis
    using device_lawful_dirs [OF assms(1)] by (simp add: lawful_install_def)
qed

lemma install_is_all_or_nothing_witness:
  "\<exists>r fs'. install_into_managed_store device_os (\<lambda>_ _. Inr False) 1 ''/data'' demo_release_id ''/src''
       [''/src'' \<mapsto> [(''a.bin'', ''x''), (''b.bin'', ''y'')]] = Some (r, fs') \<and>
     listed_view fs' (path_join ''/data'' (static_release_dir_key demo_release_id)) =
       (if is_ok r then Some [''a.bin'' \<mapsto> ''x'', ''b.bin'' \<mapsto> ''y''] else None)"
proof -
  let ?fs = "[''/src'' \<mapsto> [(''a.bin'', ''x''), (''b.bin'', ''y'')]] :: listed_fs"
  have id: "is_release_id demo_release_id"
    by code_simp
  have parent: "path_parent (path_join ''/data'' (static_release_dir_key demo_release_id)) = Some ''/data/static/releases''"
    by code_simp
  have plain: "\<forall>p \<in> {''/src'', path_join ''/data/static/releases'' (install_staging_name demo_release_id),
      path_join ''/data'' (static_release_dir_key demo_release_id)}. plain_dir p"
    by code_simp
  have apart: "''/data/static/releases'' \<notin> {''/src'', path_join ''/data/static/releases'' (install_staging_name demo_release_id),
      path_join ''/data'' (static_release_dir_key demo_release_id)}"
    by code_simp
  have src: "''/src'' \<noteq> path_join ''/data/static/releases'' (install_staging_name demo_release_id)"
    by code_simp
  have tree: "listed_view ?fs ''/src'' = Some [''a.bin'' \<mapsto> ''x'', ''b.bin'' \<mapsto> ''y'']"
    by (auto simp: listed_view_def fun_eq_iff)
  have target: "path_join ''/data'' (static_release_dir_key demo_release_id) \<noteq> ''/src''"
    by code_simp
  have "\<exists>r fs'. install_into_managed_store device_os (\<lambda>_ _. Inr False) (Suc 0) ''/data'' demo_release_id ''/src'' ?fs =
      Some (r, fs') \<and>
      (if listed_view ?fs (path_join ''/data'' (static_release_dir_key demo_release_id)) \<noteq> None then r = Inr () \<and> fs' = ?fs
       else listed_view fs' (path_join ''/data'' (static_release_dir_key demo_release_id)) =
         (if is_ok r then Some [''a.bin'' \<mapsto> ''x'', ''b.bin'' \<mapsto> ''y''] else None))"
    by (rule install_is_all_or_nothing [where view = listed_view, OF id parent _ src tree])
      (rule device_lawful [OF plain apart], simp)
  moreover have "listed_view ?fs (path_join ''/data'' (static_release_dir_key demo_release_id)) = None"
    using target by (simp add: listed_view_def)
  ultimately show ?thesis
    by simp
qed

text \<open>The copy path: the rename from \<^verbatim>\<open>/src\<close> fails, and the release still arrives whole.\<close>

lemma demo_install_copies:
  "map_option (\<lambda>(r, fs). (r, fs (path_join ''/data'' (static_release_dir_key ''id''))))
     (install_into_managed_store device_os (\<lambda>_ _. Inr False) 1 ''/data'' ''id'' ''/src''
       [''/src'' \<mapsto> [(''a.bin'', ''x''), (''b.bin'', ''y'')]]) =
   Some (Inr (), Some [(''b.bin'', ''y''), (''a.bin'', ''x'')])"
  by code_simp

end
