(* ===== verification/S3_Store.thy ===== *)
theory S3_Store
  imports Static_Activate Write_Api Build_Worker
begin

text \<open>
  The object store and queue adapters (\<^verbatim>\<open>src/adapters/s3_publish.rs\<close>, \<^verbatim>\<open>src/adapters/s3_wal.rs\<close>,
  \<^verbatim>\<open>src/adapters/sqs_build_queue.rs\<close>, \<^verbatim>\<open>src/adapters/sqs_job_source.rs\<close>).  The clients of the two
  services are arguments, records of the calls the source makes; what the source relies on
  is stated as laws of a client.
\<close>


section \<open>The client of the object store\<close>

text \<open>
  An error has the code of the service, if the service answered, the status of the raw response,
  if there is one, and its text.  Collecting the body of an object may fail after the object was
  found.
\<close>

record s3_error =
  se_code :: "string option"
  se_status :: "nat option"
  se_text :: string

record s3_object =
  so_etag :: "string option"
  so_body :: "string + string"

datatype put_condition = PutAlways | PutIfMatch string | PutIfNoneMatch

record 's s3_client =
  s3_get_object :: "string \<Rightarrow> 's \<Rightarrow> s3_error + s3_object"
  s3_put_object :: "string \<Rightarrow> string \<Rightarrow> put_condition \<Rightarrow> 's \<Rightarrow> (s3_error + unit) \<times> 's"

definition is_precondition_failure :: "s3_error \<Rightarrow> bool" where
  "is_precondition_failure e \<longleftrightarrow>
     se_code e = Some ''PreconditionFailed'' \<or> se_code e = Some ''ConditionalRequestConflict'' \<or>
     se_status e = Some 412 \<or> se_status e = Some 409"

definition is_missing_object_error :: "s3_error \<Rightarrow> bool" where
  "is_missing_object_error e \<longleftrightarrow> se_code e = Some ''NoSuchKey'' \<or> se_code e = Some ''NotFound''"


section \<open>The publish storage on it\<close>

definition CREATE_ONLY_CONFLICT_PHRASE :: string where
  "CREATE_ONLY_CONFLICT_PHRASE = ''refusing to overwrite existing version artifact''"

text \<open>The local files a publisher uploads, as the calls that read them.\<close>

record local_files =
  lf_read :: "string \<Rightarrow> string + string"
  lf_is_dir :: "string \<Rightarrow> bool"
  lf_read_dir :: "string \<Rightarrow> string + (string + string) list"

definition aws_upload_file ::
  "'s s3_client \<Rightarrow> local_files \<Rightarrow> string \<Rightarrow> string \<Rightarrow> upload_mode \<Rightarrow> 's \<Rightarrow> (publish_error + unit) \<times> 's" where
  "aws_upload_file s3 files key source mode s =
     (case lf_read files source of
        Inl e \<Rightarrow> (Inl (PublishOperation (msg [''failed to read '', source, '': '', e])), s)
      | Inr raw \<Rightarrow>
          (case s3_put_object s3 key raw (if mode = CreateOnly then PutIfNoneMatch else PutAlways) s of
             (Inr _, s1) \<Rightarrow> (Inr (), s1)
           | (Inl e, s1) \<Rightarrow>
               (Inl (PublishOperation
                  (if mode = CreateOnly \<and> is_precondition_failure e
                   then msg [CREATE_ONLY_CONFLICT_PHRASE, '' '', key, '': version artifacts are immutable'']
                   else msg [''failed to upload '', key, '': '', se_text e])), s1)))"

fun aws_upload_entries ::
  "(string \<Rightarrow> 's \<Rightarrow> ((publish_error + unit) \<times> 's) option) \<Rightarrow> string \<Rightarrow> (string + string) list \<Rightarrow> 's \<Rightarrow>
     ((publish_error + unit) \<times> 's) option" where
  "aws_upload_entries upload source [] s = Some (Inr (), s)"
| "aws_upload_entries upload source (Inl e # es) s =
     Some (Inl (PublishOperation (msg [''failed to iterate directory '', source, '': '', e])), s)"
| "aws_upload_entries upload source (Inr name # es) s =
     (case upload name s of
        None \<Rightarrow> None
      | Some (Inl e, s1) \<Rightarrow> Some (Inl e, s1)
      | Some (Inr _, s1) \<Rightarrow> aws_upload_entries upload source es s1)"

text \<open>The fuel is the depth of the directory.\<close>

fun aws_upload_directory ::
  "'s s3_client \<Rightarrow> local_files \<Rightarrow> nat \<Rightarrow> string \<Rightarrow> string \<Rightarrow> upload_mode \<Rightarrow> 's \<Rightarrow> ((publish_error + unit) \<times> 's) option" where
  "aws_upload_directory s3 files 0 key source mode s = None"
| "aws_upload_directory s3 files (Suc n) key source mode s =
     (if \<not> lf_is_dir files source
      then Some (Inl (PublishOperation (''missing source directory '' @ source)), s)
      else
        (case lf_read_dir files source of
           Inl e \<Rightarrow> Some (Inl (PublishOperation (msg [''failed to read directory '', source, '': '', e])), s)
         | Inr entries \<Rightarrow>
             aws_upload_entries (\<lambda>name s.
               let path = path_join source name; child_key = msg [key, ''/'', name]
               in if lf_is_dir files path then aws_upload_directory s3 files n child_key path mode s
                  else Some (aws_upload_file s3 files child_key path mode s)) source entries s))"

definition aws_read :: "'s s3_client \<Rightarrow> string \<Rightarrow> 's \<Rightarrow> publish_error + versioned_object option" where
  "aws_read s3 key s =
     (case s3_get_object s3 key s of
        Inl e \<Rightarrow>
          if is_missing_object_error e then Inr None
          else Inl (PublishOperation (msg [''failed to load object '', key, '': '', se_text e]))
      | Inr object \<Rightarrow>
          and_then (ok_or (PublishOperation (msg [''object '', key, '' has no ETag''])) (so_etag object)) (\<lambda>etag.
          map_ok (\<lambda>raw. Some \<lparr> vo_bytes = raw, vo_etag = etag \<rparr>)
            (map_err (\<lambda>e. PublishOperation (msg [''failed to read object body '', key, '': '', e])) (so_body object))))"

definition aws_compare_and_swap ::
  "'s s3_client \<Rightarrow> string \<Rightarrow> string option \<Rightarrow> string \<Rightarrow> 's \<Rightarrow> (publish_error + bool) \<times> 's" where
  "aws_compare_and_swap s3 key expected new_value s =
     (case s3_put_object s3 key new_value (case expected of Some etag \<Rightarrow> PutIfMatch etag | None \<Rightarrow> PutIfNoneMatch) s of
        (Inr _, s1) \<Rightarrow> (Inr True, s1)
      | (Inl e, s1) \<Rightarrow>
          if is_precondition_failure e then (Inr False, s1)
          else (Inl (PublishOperation (msg [''failed to update '', key, '': '', se_text e])), s1))"

definition aws_publish_ops :: "'s s3_client \<Rightarrow> local_files \<Rightarrow> nat \<Rightarrow> 's publish_ops" where
  "aws_publish_ops s3 files depth =
     \<lparr>op_upload_directory = (\<lambda>key source mode s.
        case aws_upload_directory s3 files depth key source mode s of
          None \<Rightarrow> (Inl (PublishOperation (''directory nested too deep: '' @ source)), s)
        | Some r \<Rightarrow> r),
      op_upload_file = aws_upload_file s3 files,
      op_read = aws_read s3,
      op_cas = aws_compare_and_swap s3\<rparr>"


section \<open>The write-ahead log on it\<close>

definition aws_wal_append :: "'s s3_client \<Rightarrow> string \<Rightarrow> string \<Rightarrow> 's \<Rightarrow> (ingest_error + unit) \<times> 's" where
  "aws_wal_append s3 key raw s =
     (case (case s3_get_object s3 key s of
              Inr object \<Rightarrow> map_err (\<lambda>e. IngestOperation (msg [''failed to read existing WAL object '', key, '': '', e])) (so_body object)
            | Inl e \<Rightarrow>
                if is_missing_object_error e then Inr []
                else Inl (IngestOperation (msg [''failed to load existing WAL object '', key, '': '', se_text e]))) of
        Inl e \<Rightarrow> (Inl e, s)
      | Inr existing \<Rightarrow>
          (case s3_put_object s3 key (existing @ raw) PutAlways s of
             (r, s1) \<Rightarrow> (map_err (\<lambda>e. IngestOperation (msg [''failed to write WAL object '', key, '': '', se_text e])) r, s1)))"

definition aws_wal_read :: "'s s3_client \<Rightarrow> string \<Rightarrow> 's \<Rightarrow> ingest_error + string" where
  "aws_wal_read s3 key s =
     and_then (map_err (\<lambda>e. IngestOperation (msg [''failed to load WAL object '', key, '': '', se_text e]))
       (s3_get_object s3 key s)) (\<lambda>object.
     map_err (\<lambda>e. IngestOperation (msg [''failed to read WAL object body '', key, '': '', e])) (so_body object))"


section \<open>The queue\<close>

record 's sqs_client =
  sqs_send :: "string \<Rightarrow> string \<Rightarrow> 's \<Rightarrow> (string + unit) \<times> 's"
  sqs_receive :: "string \<Rightarrow> 's \<Rightarrow> (string + (string option \<times> string option) list option) \<times> 's"
  sqs_delete :: "string \<Rightarrow> string \<Rightarrow> 's \<Rightarrow> (string + unit) \<times> 's"

definition sqs_enqueue ::
  "'s sqs_client \<Rightarrow> string \<Rightarrow> (queue_batch \<Rightarrow> string + string) \<Rightarrow> queue_batch \<Rightarrow> 's \<Rightarrow> (ingest_error + unit) \<times> 's" where
  "sqs_enqueue sqs url ser batch s =
     (case ser batch of
        Inl e \<Rightarrow> (Inl (IngestOperation (''failed to serialize queue batch: '' @ e)), s)
      | Inr message \<Rightarrow>
          map_prod (map_err (\<lambda>e. IngestOperation (''failed to enqueue queue batch: '' @ e))) id (sqs_send sqs url message s))"

text \<open>A message without a receipt handle is skipped; one without a body has the empty body.\<close>

definition sqs_jobs :: "(string option \<times> string option) list option \<Rightarrow> build_job list" where
  "sqs_jobs messages =
     List.map_filter (\<lambda>(receipt, body). map_option (\<lambda>r. \<lparr>job_receipt = r, bj_body = (case body of Some b \<Rightarrow> b | None \<Rightarrow> [])\<rparr>) receipt)
       (case messages of Some ms \<Rightarrow> ms | None \<Rightarrow> [])"

text \<open>\<^verbatim>\<open>nack\<close> is the default of the trait: it acknowledges.\<close>

definition sqs_job_source :: "'s sqs_client \<Rightarrow> string \<Rightarrow> 's job_source" where
  "sqs_job_source sqs url =
     (let acknowledge = (\<lambda>job s. map_prod (map_err (\<lambda>e. ''delete_message failed: '' @ e)) id (sqs_delete sqs url (job_receipt job) s))
      in \<lparr>src_receive = (\<lambda>s. map_prod (map_ok sqs_jobs \<circ> map_err (\<lambda>e. ''receive_message failed: '' @ e)) id (sqs_receive sqs url s)),
          src_ack = (\<lambda>n. acknowledge),
          src_nack = (\<lambda>n job error. acknowledge job)\<rparr>)"


section \<open>What the object store guarantees\<close>

text \<open>
  A lawful client, with \<open>peek\<close> the object under a key and its tag: a read finds what is stored or
  reports that nothing is; a write that succeeds found its condition true, stores the body, and
  changes no other key; a write that fails may still have happened, even when it reports a
  failed condition, since a client that repeats a request whose answer was lost finds its own write.
\<close>

type_synonym 's object_view = "string \<Rightarrow> 's \<Rightarrow> (string \<times> string) option"

definition condition_holds :: "put_condition \<Rightarrow> (string \<times> string) option \<Rightarrow> bool" where
  "condition_holds c object \<longleftrightarrow>
     (case c of
        PutAlways \<Rightarrow> True
      | PutIfMatch tag \<Rightarrow> map_option snd object = Some tag
      | PutIfNoneMatch \<Rightarrow> object = None)"

definition put_applied :: "'s object_view \<Rightarrow> string \<Rightarrow> string \<Rightarrow> put_condition \<Rightarrow> 's \<Rightarrow> 's \<Rightarrow> bool" where
  "put_applied peek key raw c s s' \<longleftrightarrow>
     condition_holds c (peek key s) \<and> map_option fst (peek key s') = Some raw \<and> (\<forall>j. j \<noteq> key \<longrightarrow> peek j s' = peek j s)"

definition lawful_s3 :: "'s s3_client \<Rightarrow> 's object_view \<Rightarrow> bool" where
  "lawful_s3 s3 peek \<longleftrightarrow>
     (\<forall>key s object. s3_get_object s3 key s = Inr object \<longrightarrow>
        (\<exists>raw tag. peek key s = Some (raw, tag) \<and> so_etag object = Some tag \<and> (\<forall>b. so_body object = Inr b \<longrightarrow> b = raw))) \<and>
     (\<forall>key s e. s3_get_object s3 key s = Inl e \<longrightarrow> is_missing_object_error e \<longrightarrow> peek key s = None) \<and>
     (\<forall>key raw c s r s'. s3_put_object s3 key raw c s = (r, s') \<longrightarrow>
        (case r of
           Inr _ \<Rightarrow> put_applied peek key raw c s s'
         | Inl e \<Rightarrow> (\<forall>j. peek j s' = peek j s) \<or> put_applied peek key raw c s s'))"

lemma lawful_s3D:
  assumes "lawful_s3 s3 peek"
  shows "s3_get_object s3 key s = Inr object \<Longrightarrow>
      \<exists>raw tag. peek key s = Some (raw, tag) \<and> so_etag object = Some tag \<and> (\<forall>b. so_body object = Inr b \<longrightarrow> b = raw)"
    and "s3_get_object s3 key s = Inl e \<Longrightarrow> is_missing_object_error e \<Longrightarrow> peek key s = None"
    and "s3_put_object s3 key raw c s = (Inr u, s') \<Longrightarrow> put_applied peek key raw c s s'"
    and "s3_put_object s3 key raw c s = (Inl e, s') \<Longrightarrow>
      (\<forall>j. peek j s' = peek j s) \<or> put_applied peek key raw c s s'"
proof -
  note laws = assms [unfolded lawful_s3_def]
  show "s3_get_object s3 key s = Inr object \<Longrightarrow>
      \<exists>raw tag. peek key s = Some (raw, tag) \<and> so_etag object = Some tag \<and> (\<forall>b. so_body object = Inr b \<longrightarrow> b = raw)"
    using laws by blast
  show "s3_get_object s3 key s = Inl e \<Longrightarrow> is_missing_object_error e \<Longrightarrow> peek key s = None"
    using laws by blast
  have put: "s3_put_object s3 key raw c s = (r, s') \<Longrightarrow> (case r of
           Inr _ \<Rightarrow> put_applied peek key raw c s s'
         | Inl e \<Rightarrow> (\<forall>j. peek j s' = peek j s) \<or> put_applied peek key raw c s s')" for r
    using laws by blast
  show "s3_put_object s3 key raw c s = (Inr u, s') \<Longrightarrow> put_applied peek key raw c s s'"
    using put [of "Inr u"] by simp
  show "s3_put_object s3 key raw c s = (Inl e, s') \<Longrightarrow>
      (\<forall>j. peek j s' = peek j s) \<or> put_applied peek key raw c s s'"
    using put [of "Inl e"] by simp
qed

lemma aws_read_ok:
  assumes "lawful_s3 s3 peek" "aws_read s3 key s = Inr object"
  shows "object = map_option (\<lambda>(raw, tag). \<lparr> vo_bytes = raw, vo_etag = tag \<rparr>) (peek key s)"
proof (cases "s3_get_object s3 key s")
  case (Inl e)
  then show ?thesis
    using assms lawful_s3D(2) [OF assms(1) Inl] by (auto simp: aws_read_def split: if_splits)
next
  case (Inr found)
  then show ?thesis
    using assms lawful_s3D(1) [OF assms(1) Inr] by (auto simp: aws_read_def result_simps)
qed

text \<open>An upload stores the local file under a new key, or changes nothing.\<close>

lemma aws_upload_file_cases:
  assumes "lawful_s3 s3 peek" "aws_upload_file s3 files key source CreateOnly s = (r, s')"
  shows "(\<forall>j. peek j s' = peek j s) \<and> \<not> is_ok r \<or>
    (\<exists>raw. lf_read files source = Inr raw \<and> peek key s = None \<and> map_option fst (peek key s') = Some raw \<and>
       (\<forall>j. j \<noteq> key \<longrightarrow> peek j s' = peek j s))"
proof (cases "lf_read files source")
  case (Inl e)
  then show ?thesis
    using assms(2) by (auto simp: aws_upload_file_def)
next
  case (Inr raw)
  obtain r1 s1 where 1: "s3_put_object s3 key raw PutIfNoneMatch s = (r1, s1)"
    by fastforce
  then have s1: "s' = s1" "is_ok r \<longleftrightarrow> is_ok r1"
    using assms(2) Inr by (auto simp: aws_upload_file_def split: sum.splits)
  show ?thesis
  proof (cases r1)
    case (Inl e)
    then show ?thesis
      using lawful_s3D(4) [OF assms(1) 1 [unfolded Inl]] s1 \<open>lf_read files source = Inr raw\<close>
      by (auto simp: put_applied_def condition_holds_def)
  next
    case ok: (Inr u)
    then show ?thesis
      using lawful_s3D(3) [OF assms(1) 1 [unfolded ok]] s1 Inr by (auto simp: put_applied_def condition_holds_def)
  qed
qed

text \<open>With no writer in between, an append that succeeds is read after what was there.\<close>

lemma aws_wal_append_reads:
  assumes "lawful_s3 s3 peek" "aws_wal_append s3 key raw s = (Inr (), s')"
  shows "map_option fst (peek key s') = Some ((case peek key s of Some (old, _) \<Rightarrow> old | None \<Rightarrow> []) @ raw) \<and>
    (\<forall>j. j \<noteq> key \<longrightarrow> peek j s' = peek j s)"
proof -
  obtain old u where old: "(case s3_get_object s3 key s of
              Inr object \<Rightarrow> map_err (\<lambda>e. IngestOperation (msg [''failed to read existing WAL object '', key, '': '', e])) (so_body object)
            | Inl e \<Rightarrow>
                if is_missing_object_error e then Inr []
                else Inl (IngestOperation (msg [''failed to load existing WAL object '', key, '': '', se_text e]))) = Inr old"
    and put: "s3_put_object s3 key (old @ raw) PutAlways s = (Inr u, s')"
    using assms(2) by (auto simp: aws_wal_append_def result_simps split: sum.splits prod.splits)
  have "old = (case peek key s of Some (b, _) \<Rightarrow> b | None \<Rightarrow> [])"
  proof (cases "s3_get_object s3 key s")
    case (Inl e)
    then show ?thesis
      using old lawful_s3D(2) [OF assms(1) Inl] by (auto split: if_splits)
  next
    case (Inr object)
    then show ?thesis
      using old lawful_s3D(1) [OF assms(1) Inr] by (auto simp: result_simps)
  qed
  then show ?thesis
    using lawful_s3D(3) [OF assms(1) put] by (simp add: put_applied_def)
qed

end
