(* ===== verification/Model_Assets.thy ===== *)
theory Model_Assets
  imports Query_Service S3_Store
begin

text \<open>
  Model files at the start of a function (\<^verbatim>\<open>src/embedding/model_assets.rs\<close>): the files of a bundle
  are downloaded, checked against a manifest and moved into place; the manifest is written last and
  marks the bundle as complete.
\<close>


section \<open>The source of a bundle\<close>

definition MODEL_MANIFEST_FILE :: string where "MODEL_MANIFEST_FILE = ''manifest.json''"

record model_asset_source =
  mas_bucket :: string
  mas_prefix :: string

record asset_file =
  asf_name :: string
  asf_bytes :: u64
  asf_sha256 :: string

definition trim_slashes :: "string \<Rightarrow> string" where
  "trim_slashes s = rev (dropWhile (\<lambda>c. c = CHR ''/'') (rev (dropWhile (\<lambda>c. c = CHR ''/'') s)))"

definition model_asset_source_from_env :: "env_vars \<Rightarrow> string \<Rightarrow> string + model_asset_source option" where
  "model_asset_source_from_env env side =
     (let bucket_var = msg [''LTSEARCH_'', side, ''_LTEMBED_S3_BUCKET'']; prefix_var = msg [''LTSEARCH_'', side, ''_LTEMBED_S3_PREFIX'']
      in case (env bucket_var, env prefix_var) of
           (None, None) \<Rightarrow> Inr None
         | (Some bucket, Some p) \<Rightarrow> Inr (Some \<lparr> mas_bucket = bucket, mas_prefix = trim_slashes p \<rparr>)
         | (Some _, None) \<Rightarrow> Inl (msg [bucket_var, '' is set but '', prefix_var, '' is missing''])
         | (None, Some _) \<Rightarrow> Inl (msg [prefix_var, '' is set but '', bucket_var, '' is missing'']))"

text \<open>
  The surroundings: the file system with the size of a file, the parser of a manifest, the digest,
  and the objects of the bucket.  Request \<open>n\<close> for a key fails or gives a stream of chunks, which
  may break off.
\<close>

record 'f asset_env =
  ae_os :: "'f os_ops"
  ae_size :: "string \<Rightarrow> 'f \<Rightarrow> nat option"
  ae_parse :: "string \<Rightarrow> string + asset_file list"
  ae_sha256 :: "blob \<Rightarrow> blob"
  ae_get :: "nat \<Rightarrow> string \<Rightarrow> string \<Rightarrow> string + (string + string) list"

definition asset_key :: "model_asset_source \<Rightarrow> string \<Rightarrow> string" where
  "asset_key source name = msg [mas_prefix source, ''/'', name]"

definition asset_uri :: "model_asset_source \<Rightarrow> string \<Rightarrow> string" where
  "asset_uri source name = msg [''s3://'', mas_bucket source, ''/'', asset_key source name]"

definition asset_label :: "model_asset_source \<Rightarrow> string" where
  "asset_label source = msg [''s3://'', mas_bucket source, ''/'', mas_prefix source]"

definition not_provisioned :: "string list \<Rightarrow> string" where
  "not_provisioned parts = ''model assets not provisioned: '' @ concat parts"

definition send_get :: "'f asset_env \<Rightarrow> model_asset_source \<Rightarrow> nat \<Rightarrow> string \<Rightarrow> string + (string + string) list" where
  "send_get env source n name =
     map_err (\<lambda>e. not_provisioned [''GET '', asset_uri source name, '' failed: '', e])
       (ae_get env n (mas_bucket source) (asset_key source name))"

definition fetch_bytes :: "'f asset_env \<Rightarrow> model_asset_source \<Rightarrow> nat \<Rightarrow> string \<Rightarrow> string + string" where
  "fetch_bytes env source n name =
     and_then (send_get env source n name) (\<lambda>stream.
       map_ok concat (map_err (\<lambda>e. not_provisioned [''reading '', asset_uri source name, '' body failed: '', e])
         (try_map (\<lambda>chunk. chunk) stream)))"

text \<open>A file is written and hashed chunk by chunk; \<open>acc\<close> is what it holds so far.\<close>

fun write_chunks ::
  "'f asset_env \<Rightarrow> string \<Rightarrow> string \<Rightarrow> (string + string) list \<Rightarrow> string \<Rightarrow> 'f \<Rightarrow> (string + u64 \<times> string) \<times> 'f" where
  "write_chunks env uri dest [] acc fs = (Inr (of_nat (length acc), sha256_hex (ae_sha256 env) (text_bytes acc)), fs)"
| "write_chunks env uri dest (Inl e # stream) acc fs =
     (Inl (not_provisioned [''streaming '', uri, '' after '', show_u64 (of_nat (length acc)), '' bytes: '', e]), fs)"
| "write_chunks env uri dest (Inr chunk # stream) acc fs =
     (case os_write (ae_os env) dest (acc @ chunk) fs of
        (Inl e, fs1) \<Rightarrow> (Inl (not_provisioned [''writing '', dest, '': '', e]), fs1)
      | (Inr _, fs1) \<Rightarrow> write_chunks env uri dest stream (acc @ chunk) fs1)"

definition fetch_to_file ::
  "'f asset_env \<Rightarrow> model_asset_source \<Rightarrow> nat \<Rightarrow> string \<Rightarrow> string \<Rightarrow> 'f \<Rightarrow> (string + u64 \<times> string) \<times> 'f" where
  "fetch_to_file env source n name dest fs =
     (case send_get env source n name of
        Inl e \<Rightarrow> (Inl e, fs)
      | Inr stream \<Rightarrow>
          (case os_write (ae_os env) dest [] fs of
             (Inl e, fs1) \<Rightarrow> (Inl (not_provisioned [''creating '', dest, '': '', e]), fs1)
           | (Inr _, fs1) \<Rightarrow> write_chunks env (asset_uri source name) dest stream [] fs1))"


section \<open>Provisioning\<close>

definition assets_ready :: "'f asset_env \<Rightarrow> string \<Rightarrow> 'f \<Rightarrow> bool" where
  "assets_ready env bundle_dir fs =
     (case os_read (ae_os env) (path_join bundle_dir MODEL_MANIFEST_FILE) fs of
        Inl _ \<Rightarrow> False
      | Inr raw \<Rightarrow>
          (case ae_parse env raw of
             Inl _ \<Rightarrow> False
           | Inr files \<Rightarrow> list_all (\<lambda>file. case ae_size env (path_join bundle_dir (asf_name file)) fs of
                 Some n \<Rightarrow> of_nat n = asf_bytes file
               | None \<Rightarrow> False) files))"

definition partial_name :: "string \<Rightarrow> string" where
  "partial_name name = ''.partial-'' @ name"

definition check_asset :: "model_asset_source \<Rightarrow> asset_file \<Rightarrow> u64 \<times> string \<Rightarrow> string + unit" where
  "check_asset source file = (\<lambda>(n, actual).
     if n \<noteq> asf_bytes file
     then Inl (not_provisioned [asset_label source, ''/'', asf_name file, '' is '', show_u64 n, '' bytes, manifest says '',
            show_u64 (asf_bytes file)])
     else if actual \<noteq> asf_sha256 file
     then Inl (not_provisioned [asset_label source, ''/'', asf_name file, '' sha256 '', actual, '' does not match manifest '',
            asf_sha256 file])
     else Inr ())"

definition install_asset ::
  "'f asset_env \<Rightarrow> model_asset_source \<Rightarrow> string \<Rightarrow> nat \<Rightarrow> asset_file \<Rightarrow> 'f \<Rightarrow> (string + unit) \<times> 'f" where
  "install_asset env source bundle_dir n file fs =
     (let partial = path_join bundle_dir (partial_name (asf_name file))
      in case fetch_to_file env source n (asf_name file) partial fs of
           (Inl e, fs1) \<Rightarrow> (Inl e, fs1)
         | (Inr fetched, fs1) \<Rightarrow>
             (case check_asset source file fetched of
                Inl e \<Rightarrow> (Inl e, fs1)
              | Inr _ \<Rightarrow>
                  map_prod (map_err (\<lambda>e. not_provisioned [''staging '', asf_name file, '': '', e])) id
                    (os_rename (ae_os env) partial (path_join bundle_dir (asf_name file)) fs1)))"

fun install_assets ::
  "'f asset_env \<Rightarrow> model_asset_source \<Rightarrow> string \<Rightarrow> nat \<Rightarrow> asset_file list \<Rightarrow> 'f \<Rightarrow> (string + unit) \<times> 'f" where
  "install_assets env source bundle_dir n [] fs = (Inr (), fs)"
| "install_assets env source bundle_dir n (file # files) fs =
     (case install_asset env source bundle_dir n file fs of
        (Inl e, fs1) \<Rightarrow> (Inl e, fs1)
      | (Inr _, fs1) \<Rightarrow> install_assets env source bundle_dir (Suc n) files fs1)"

definition invalidate_marker :: "'f asset_env \<Rightarrow> string \<Rightarrow> 'f \<Rightarrow> (string + unit) \<times> 'f" where
  "invalidate_marker env bundle_dir fs =
     (let marker = path_join bundle_dir MODEL_MANIFEST_FILE
      in if os_exists (ae_os env) marker fs
         then map_prod (map_err (\<lambda>e. not_provisioned [''invalidating stale '', MODEL_MANIFEST_FILE, '': '', e])) id
                (os_remove_file (ae_os env) marker fs)
         else (Inr (), fs))"

definition refresh_bundle :: "'f asset_env \<Rightarrow> model_asset_source \<Rightarrow> string \<Rightarrow> 'f \<Rightarrow> (string + unit) \<times> 'f" where
  "refresh_bundle env source bundle_dir fs =
     (case and_then (fetch_bytes env source 0 MODEL_MANIFEST_FILE) (\<lambda>raw.
           map_ok (Pair raw) (map_err (\<lambda>e. not_provisioned
               [asset_label source, ''/'', MODEL_MANIFEST_FILE, '' is not a valid manifest: '', e]) (ae_parse env raw))) of
        Inl e \<Rightarrow> (Inl e, fs)
      | Inr (raw, files) \<Rightarrow>
          (case install_assets env source bundle_dir 1 files fs of
             (Inl e, fs1) \<Rightarrow> (Inl e, fs1)
           | (Inr _, fs1) \<Rightarrow>
               map_prod (map_err (\<lambda>e. not_provisioned [''writing '', MODEL_MANIFEST_FILE, '': '', e])) id
                 (os_write (ae_os env) (path_join bundle_dir MODEL_MANIFEST_FILE) raw fs1)))"

definition provision_with :: "'f asset_env \<Rightarrow> model_asset_source \<Rightarrow> string \<Rightarrow> 'f \<Rightarrow> (string + unit) \<times> 'f" where
  "provision_with env source bundle_dir fs =
     (if assets_ready env bundle_dir fs then (Inr (), fs)
      else
        (case os_create_dir_all (ae_os env) bundle_dir fs of
           (Inl e, fs1) \<Rightarrow> (Inl (not_provisioned [''mkdir '', bundle_dir, '': '', e]), fs1)
         | (Inr _, fs1) \<Rightarrow>
             (case invalidate_marker env bundle_dir fs1 of
                (Inl e, fs2) \<Rightarrow> (Inl e, fs2)
              | (Inr _, fs2) \<Rightarrow> refresh_bundle env source bundle_dir fs2)))"

definition provision_from_env :: "'f asset_env \<Rightarrow> env_vars \<Rightarrow> string \<Rightarrow> 'f \<Rightarrow> (string + unit) \<times> 'f" where
  "provision_from_env env vars side fs =
     (if vars (msg [''LTSEARCH_'', side, ''_EMBEDDING_PROVIDER'']) \<noteq> Some ''ltembed'' then (Inr (), fs)
      else
        (case model_asset_source_from_env vars side of
           Inl e \<Rightarrow> (Inl e, fs)
         | Inr None \<Rightarrow> (Inr (), fs)
         | Inr (Some source) \<Rightarrow>
             (let bundle_dir_var = msg [''LTSEARCH_'', side, ''_LTEMBED_BUNDLE_DIR'']
              in case vars bundle_dir_var of
                   None \<Rightarrow> (Inl (msg [''LTSEARCH_'', side, ''_LTEMBED_S3_BUCKET is set but '', bundle_dir_var, '' is missing'']), fs)
                 | Some bundle_dir \<Rightarrow> provision_with env source bundle_dir fs)))"


section \<open>A marked bundle is complete\<close>

text \<open>
  The files of the bundle directory.  A failed write may leave a beginning of what was to be written;
  other failed calls leave the files as they were.
\<close>

type_synonym 'f bundle_view = "'f \<Rightarrow> (string \<Rightarrow> string option) option"

definition plain_name :: "string \<Rightarrow> bool" where
  "plain_name n \<longleftrightarrow> n \<noteq> [] \<and> CHR ''/'' \<notin> set n \<and> n \<noteq> ''.'' \<and> n \<noteq> ''..''"

definition wrote :: "'f bundle_view \<Rightarrow> string \<Rightarrow> string \<Rightarrow> bool \<Rightarrow> 'f \<Rightarrow> 'f \<Rightarrow> bool" where
  "wrote view n raw succeeded fs fs' \<longleftrightarrow>
     (\<forall>m. view fs = Some m \<longrightarrow> (\<exists>m'. view fs' = Some m' \<and> (\<forall>x. x \<noteq> n \<longrightarrow> m' x = m x) \<and>
        (if succeeded then m' n = Some raw else m' n = m n \<or> (\<exists>p. prefix p raw \<and> m' n = Some p))))"

definition lawful_bundle :: "'f asset_env \<Rightarrow> 'f bundle_view \<Rightarrow> string \<Rightarrow> bool" where
  "lawful_bundle env view dir \<longleftrightarrow>
     (\<forall>n fs raw. plain_name n \<longrightarrow> os_read (ae_os env) (path_join dir n) fs = Inr raw \<longrightarrow> (\<exists>m. view fs = Some m \<and> m n = Some raw)) \<and>
     (\<forall>n fs. plain_name n \<longrightarrow> os_exists (ae_os env) (path_join dir n) fs = (\<exists>m. view fs = Some m \<and> m n \<noteq> None)) \<and>
     (\<forall>n fs raw r fs'. plain_name n \<longrightarrow> os_write (ae_os env) (path_join dir n) raw fs = (r, fs') \<longrightarrow> wrote view n raw (is_ok r) fs fs') \<and>
     (\<forall>p n fs m r fs'. plain_name p \<longrightarrow> plain_name n \<longrightarrow> p \<noteq> n \<longrightarrow> view fs = Some m \<longrightarrow>
        os_rename (ae_os env) (path_join dir p) (path_join dir n) fs = (r, fs') \<longrightarrow>
        view fs' = Some (if is_ok r then m(n := m p, p := None) else m)) \<and>
     (\<forall>n fs m r fs'. plain_name n \<longrightarrow> view fs = Some m \<longrightarrow> os_remove_file (ae_os env) (path_join dir n) fs = (r, fs') \<longrightarrow>
        view fs' = Some (if is_ok r then m(n := None) else m)) \<and>
     (\<forall>fs r fs'. os_create_dir_all (ae_os env) dir fs = (r, fs') \<longrightarrow>
        view fs' = view fs \<or> view fs = None \<and> view fs' = Some Map.empty) \<and>
     (\<forall>fs r fs'. os_create_dir_all (ae_os env) dir fs = (r, fs') \<longrightarrow> is_ok r \<longrightarrow> view fs' \<noteq> None)"

lemma lawful_bundleD:
  assumes "lawful_bundle env view dir"
  shows "plain_name n \<Longrightarrow> os_read (ae_os env) (path_join dir n) fs = Inr raw \<Longrightarrow> \<exists>m. view fs = Some m \<and> m n = Some raw"
    "plain_name n \<Longrightarrow> os_exists (ae_os env) (path_join dir n) fs = (\<exists>m. view fs = Some m \<and> m n \<noteq> None)"
    "plain_name n \<Longrightarrow> os_write (ae_os env) (path_join dir n) raw fs = (r, fs') \<Longrightarrow> wrote view n raw (is_ok r) fs fs'"
    "plain_name p \<Longrightarrow> plain_name n \<Longrightarrow> p \<noteq> n \<Longrightarrow> view fs = Some m \<Longrightarrow>
      os_rename (ae_os env) (path_join dir p) (path_join dir n) fs = (r, fs') \<Longrightarrow>
      view fs' = Some (if is_ok r then m(n := m p, p := None) else m)"
    "plain_name n \<Longrightarrow> view fs = Some m \<Longrightarrow> os_remove_file (ae_os env) (path_join dir n) fs = (r, fs') \<Longrightarrow>
      view fs' = Some (if is_ok r then m(n := None) else m)"
    "os_create_dir_all (ae_os env) dir fs = (r, fs') \<Longrightarrow> view fs' = view fs \<or> view fs = None \<and> view fs' = Some Map.empty"
    "os_create_dir_all (ae_os env) dir fs = (r, fs') \<Longrightarrow> is_ok r \<Longrightarrow> view fs' \<noteq> None"
proof -
  note laws = assms [unfolded lawful_bundle_def]
  note l1 = laws [THEN conjunct1]
    and l2 = laws [THEN conjunct2, THEN conjunct1]
    and l3 = laws [THEN conjunct2, THEN conjunct2, THEN conjunct1]
    and l4 = laws [THEN conjunct2, THEN conjunct2, THEN conjunct2, THEN conjunct1]
    and l5 = laws [THEN conjunct2, THEN conjunct2, THEN conjunct2, THEN conjunct2, THEN conjunct1]
    and l6 = laws [THEN conjunct2, THEN conjunct2, THEN conjunct2, THEN conjunct2, THEN conjunct2, THEN conjunct1]
    and l7 = laws [THEN conjunct2, THEN conjunct2, THEN conjunct2, THEN conjunct2, THEN conjunct2, THEN conjunct2]
  show "plain_name n \<Longrightarrow> os_read (ae_os env) (path_join dir n) fs = Inr raw \<Longrightarrow> \<exists>m. view fs = Some m \<and> m n = Some raw"
    by (rule l1 [rule_format])
  show "plain_name n \<Longrightarrow> os_exists (ae_os env) (path_join dir n) fs = (\<exists>m. view fs = Some m \<and> m n \<noteq> None)"
    by (rule l2 [rule_format])
  show "plain_name n \<Longrightarrow> os_write (ae_os env) (path_join dir n) raw fs = (r, fs') \<Longrightarrow> wrote view n raw (is_ok r) fs fs'"
    by (rule l3 [rule_format])
  show "plain_name p \<Longrightarrow> plain_name n \<Longrightarrow> p \<noteq> n \<Longrightarrow> view fs = Some m \<Longrightarrow>
      os_rename (ae_os env) (path_join dir p) (path_join dir n) fs = (r, fs') \<Longrightarrow>
      view fs' = Some (if is_ok r then m(n := m p, p := None) else m)"
    by (rule l4 [rule_format])
  show "plain_name n \<Longrightarrow> view fs = Some m \<Longrightarrow> os_remove_file (ae_os env) (path_join dir n) fs = (r, fs') \<Longrightarrow>
      view fs' = Some (if is_ok r then m(n := None) else m)"
    by (rule l5 [rule_format])
  show "os_create_dir_all (ae_os env) dir fs = (r, fs') \<Longrightarrow> view fs' = view fs \<or> view fs = None \<and> view fs' = Some Map.empty"
    by (rule l6 [rule_format])
  show "os_create_dir_all (ae_os env) dir fs = (r, fs') \<Longrightarrow> is_ok r \<Longrightarrow> view fs' \<noteq> None"
    by (rule l7 [rule_format])
qed

definition assets_match :: "'f asset_env \<Rightarrow> asset_file list \<Rightarrow> (string \<Rightarrow> string option) \<Rightarrow> bool" where
  "assets_match env files m \<longleftrightarrow>
     (\<forall>file \<in> set files. \<exists>raw. m (asf_name file) = Some raw \<and> asf_bytes file = of_nat (length raw) \<and>
        asf_sha256 file = sha256_hex (ae_sha256 env) (text_bytes raw))"

text \<open>The invariant: what a marker that parses lists is there, with its digest.\<close>

definition bundle_sound :: "'f asset_env \<Rightarrow> 'f bundle_view \<Rightarrow> 'f \<Rightarrow> bool" where
  "bundle_sound env view fs \<longleftrightarrow>
     (\<forall>m raw files. view fs = Some m \<longrightarrow> m MODEL_MANIFEST_FILE = Some raw \<longrightarrow> ae_parse env raw = Inr files \<longrightarrow> assets_match env files m)"

definition bundle_provisioned :: "'f asset_env \<Rightarrow> 'f bundle_view \<Rightarrow> 'f \<Rightarrow> bool" where
  "bundle_provisioned env view fs \<longleftrightarrow>
     (\<exists>m raw files. view fs = Some m \<and> m MODEL_MANIFEST_FILE = Some raw \<and> ae_parse env raw = Inr files \<and> assets_match env files m)"

text \<open>Manifests name files: different ones, none of them the marker or a partial file.\<close>

definition proper_assets :: "asset_file list \<Rightarrow> bool" where
  "proper_assets files \<longleftrightarrow>
     distinct (map asf_name files) \<and>
     (\<forall>file \<in> set files. plain_name (asf_name file) \<and> asf_name file \<noteq> MODEL_MANIFEST_FILE \<and> \<not> prefix ''.partial-'' (asf_name file))"

lemma plain_marker: "plain_name MODEL_MANIFEST_FILE"
  by (simp add: plain_name_def MODEL_MANIFEST_FILE_def)

lemma partial_name_plain: "plain_name n \<Longrightarrow> plain_name (partial_name n)"
  by (auto simp: plain_name_def partial_name_def)

lemma partial_name_other: "partial_name n \<noteq> MODEL_MANIFEST_FILE" "\<not> prefix ''.partial-'' x \<Longrightarrow> x \<noteq> partial_name n"
  by (auto simp: partial_name_def MODEL_MANIFEST_FILE_def)

text \<open>The other files stay while one is downloaded.\<close>

definition only_changes :: "string \<Rightarrow> 'f bundle_view \<Rightarrow> 'f \<Rightarrow> 'f \<Rightarrow> bool" where
  "only_changes n view fs fs' \<longleftrightarrow> (\<forall>m. view fs = Some m \<longrightarrow> (\<exists>m'. view fs' = Some m' \<and> (\<forall>x. x \<noteq> n \<longrightarrow> m' x = m x)))"

lemma only_changes_refl: "only_changes n view fs fs"
  by (simp add: only_changes_def)

lemma only_changes_trans: "only_changes n view fs fs1 \<Longrightarrow> only_changes n view fs1 fs2 \<Longrightarrow> only_changes n view fs fs2"
  unfolding only_changes_def by metis

lemma wrote_only_changes: "wrote view n raw b fs fs' \<Longrightarrow> only_changes n view fs fs'"
  unfolding wrote_def only_changes_def by meson

lemma write_chunks_view:
  assumes laws: "lawful_bundle env view dir" and n: "plain_name n"
    and "write_chunks env uri (path_join dir n) stream acc fs = (r, fs')" "view fs = Some m" "m n = Some acc"
  shows "only_changes n view fs fs' \<and>
    (\<forall>k digest. r = Inr (k, digest) \<longrightarrow> (\<exists>m' raw. view fs' = Some m' \<and> m' n = Some raw \<and> k = of_nat (length raw) \<and>
       digest = sha256_hex (ae_sha256 env) (text_bytes raw)))"
  using assms(3-5)
proof (induction stream arbitrary: acc fs m)
  case (Cons chunk stream)
  show ?case
  proof (cases chunk)
    case (Inr c)
    obtain w fs1 where 1: "os_write (ae_os env) (path_join dir n) (acc @ c) fs = (w, fs1)"
      by fastforce
    have w: "wrote view n (acc @ c) (is_ok w) fs fs1"
      by (rule lawful_bundleD(3) [OF laws n 1])
    show ?thesis
    proof (cases w)
      case (Inl e)
      then show ?thesis
        using Cons.prems(1) Inr 1 wrote_only_changes [OF w] by auto
    next
      case ok: (Inr u)
      then obtain m1 where m1: "view fs1 = Some m1" "m1 n = Some (acc @ c)"
        using w Cons.prems(2) by (auto simp: wrote_def)
      have "write_chunks env uri (path_join dir n) stream (acc @ c) fs1 = (r, fs')"
        using Cons.prems(1) Inr 1 ok by simp
      from Cons.IH [OF this m1] show ?thesis
        using only_changes_trans [OF wrote_only_changes [OF w]] by blast
    qed
  qed (use Cons.prems in \<open>auto simp: only_changes_refl\<close>)
qed (auto simp: only_changes_refl)

lemma fetch_to_file_view:
  assumes laws: "lawful_bundle env view dir" and n: "plain_name n"
    and "fetch_to_file env source k name (path_join dir n) fs = (r, fs')" "view fs = Some m"
  shows "only_changes n view fs fs' \<and>
    (\<forall>len digest. r = Inr (len, digest) \<longrightarrow> (\<exists>m' raw. view fs' = Some m' \<and> m' n = Some raw \<and> len = of_nat (length raw) \<and>
       digest = sha256_hex (ae_sha256 env) (text_bytes raw)))"
proof (cases "send_get env source k name")
  case (Inl e)
  then show ?thesis
    using assms(3) by (auto simp: fetch_to_file_def only_changes_refl)
next
  case (Inr stream)
  obtain w fs1 where 1: "os_write (ae_os env) (path_join dir n) [] fs = (w, fs1)"
    by fastforce
  have w: "wrote view n [] (is_ok w) fs fs1"
    by (rule lawful_bundleD(3) [OF laws n 1])
  show ?thesis
  proof (cases w)
    case (Inl e)
    then show ?thesis
      using assms(3) Inr 1 wrote_only_changes [OF w] by (auto simp: fetch_to_file_def)
  next
    case ok: (Inr u)
    then obtain m1 where m1: "view fs1 = Some m1" "m1 n = Some []"
      using w assms(4) by (auto simp: wrote_def)
    have "write_chunks env (asset_uri source name) (path_join dir n) stream [] fs1 = (r, fs')"
      using assms(3) Inr 1 ok by (simp add: fetch_to_file_def)
    from write_chunks_view [OF laws n this m1] show ?thesis
      using only_changes_trans [OF wrote_only_changes [OF w]] by blast
  qed
qed

lemma check_asset_ok: "check_asset source file (len, digest) = Inr () \<longleftrightarrow> len = asf_bytes file \<and> digest = asf_sha256 file"
  by (auto simp: check_asset_def)

lemma install_asset_view:
  assumes laws: "lawful_bundle env view dir" and asset: "plain_name (asf_name file)" "\<not> prefix ''.partial-'' (asf_name file)"
    and run: "install_asset env source dir n file fs = (r, fs')" and v: "view fs = Some m"
  shows "\<exists>m'. view fs' = Some m' \<and> (\<forall>x. x \<noteq> asf_name file \<longrightarrow> x \<noteq> partial_name (asf_name file) \<longrightarrow> m' x = m x) \<and>
    (r = Inr () \<longrightarrow> assets_match env [file] m')"
proof -
  let ?p = "partial_name (asf_name file)"
  have p: "plain_name ?p" "?p \<noteq> asf_name file"
    using partial_name_plain [OF asset(1)] partial_name_other(2) [OF asset(2), of "asf_name file"] by auto
  obtain got fs1 where 1: "fetch_to_file env source n (asf_name file) (path_join dir ?p) fs = (got, fs1)"
    by fastforce
  note fetched = fetch_to_file_view [OF laws p(1) 1 v]
  obtain m1 where m1: "view fs1 = Some m1" "\<forall>x. x \<noteq> ?p \<longrightarrow> m1 x = m x"
    using fetched v by (auto simp: only_changes_def)
  show ?thesis
  proof (cases got)
    case (Inl e)
    then show ?thesis
      using run 1 m1 by (auto simp: install_asset_def)
  next
    case (Inr g)
    obtain len digest where g: "g = (len, digest)"
      by fastforce
    show ?thesis
    proof (cases "check_asset source file g")
      case bad: (Inl e)
      then show ?thesis
        using run 1 Inr m1 by (auto simp: install_asset_def)
    next
      case ok: (Inr u)
      obtain raw where raw: "m1 ?p = Some raw" "asf_bytes file = of_nat (length raw)"
          "asf_sha256 file = sha256_hex (ae_sha256 env) (text_bytes raw)"
        using fetched Inr g m1(1) ok check_asset_ok [of source "file" len digest] by auto
      obtain w fs2 where 2: "os_rename (ae_os env) (path_join dir ?p) (path_join dir (asf_name file)) fs1 = (w, fs2)"
        by fastforce
      have v2: "view fs2 = Some (if is_ok w then m1(asf_name file := m1 ?p, ?p := None) else m1)"
        by (rule lawful_bundleD(4) [OF laws p(1) asset(1) p(2) m1(1) 2])
      have "fs' = fs2" "r = Inr () \<longrightarrow> is_ok w"
        using run 1 Inr ok 2 by (auto simp: install_asset_def result_simps)
      then show ?thesis
        using v2 m1(2) raw p(2) by (auto simp: assets_match_def)
    qed
  qed
qed

lemma install_assets_view:
  assumes laws: "lawful_bundle env view dir" and "proper_assets files"
    and "install_assets env source dir n files fs = (r, fs')" "view fs = Some m"
  shows "\<exists>m'. view fs' = Some m' \<and> (\<forall>x. x \<notin> asf_name ` set files \<longrightarrow> x \<notin> partial_name ` asf_name ` set files \<longrightarrow> m' x = m x) \<and>
    (r = Inr () \<longrightarrow> assets_match env files m')"
  using assms(2-4)
proof (induction files arbitrary: n fs m)
  case (Cons f files)
  have asset: "plain_name (asf_name f)" "\<not> prefix ''.partial-'' (asf_name f)" "asf_name f \<notin> asf_name ` set files"
    and files: "proper_assets files"
    using Cons.prems(1) by (auto simp: proper_assets_def)
  obtain r1 fs1 where 1: "install_asset env source dir n f fs = (r1, fs1)"
    by fastforce
  obtain m1 where m1: "view fs1 = Some m1" "\<forall>x. x \<noteq> asf_name f \<longrightarrow> x \<noteq> partial_name (asf_name f) \<longrightarrow> m1 x = m x"
      "r1 = Inr () \<longrightarrow> assets_match env [f] m1"
    using install_asset_view [OF laws asset(1,2) 1 Cons.prems(3)] by blast
  show ?case
  proof (cases r1)
    case (Inl e)
    then show ?thesis
      using Cons.prems(2) 1 m1(1,2) by auto
  next
    case (Inr u)
    have "install_assets env source dir (Suc n) files fs1 = (r, fs')"
      using Cons.prems(2) 1 Inr by simp
    from Cons.IH [OF files this m1(1)] obtain m' where m': "view fs' = Some m'"
        "\<forall>x. x \<notin> asf_name ` set files \<longrightarrow> x \<notin> partial_name ` asf_name ` set files \<longrightarrow> m' x = m1 x"
        "r = Inr () \<longrightarrow> assets_match env files m'"
      by blast
    have "asf_name f \<notin> partial_name ` asf_name ` set files"
      using partial_name_other(2) [OF asset(2)] by auto
    then have "m' (asf_name f) = m1 (asf_name f)"
      using m'(2) asset(3) by blast
    then have "assets_match env (f # files) m'" if "r = Inr ()"
      using m'(3) m1(3) Inr that by (auto simp: assets_match_def)
    then show ?thesis
      using m'(1,2) m1(2) by auto
  qed
qed (auto simp: assets_match_def)


lemma invalidate_marker_view:
  assumes laws: "lawful_bundle env view dir" and run: "invalidate_marker env dir fs = (r, fs')" and v: "view fs = Some m"
    and sound: "bundle_sound env view fs"
  shows "bundle_sound env view fs' \<and> (r = Inr () \<longrightarrow> (\<exists>m'. view fs' = Some m' \<and> m' MODEL_MANIFEST_FILE = None))"
proof (cases "os_exists (ae_os env) (path_join dir MODEL_MANIFEST_FILE) fs")
  case True
  obtain w fs1 where 1: "os_remove_file (ae_os env) (path_join dir MODEL_MANIFEST_FILE) fs = (w, fs1)"
    by fastforce
  have v1: "view fs1 = Some (if is_ok w then m(MODEL_MANIFEST_FILE := None) else m)"
    by (rule lawful_bundleD(5) [OF laws plain_marker v 1])
  show ?thesis
  proof (cases w)
    case (Inl e)
    then show ?thesis
      using run True 1 v1 v sound by (auto simp: invalidate_marker_def bundle_sound_def)
  next
    case (Inr u)
    then show ?thesis
      using run True 1 v1 by (auto simp: invalidate_marker_def bundle_sound_def)
  qed
next
  case False
  then have "m MODEL_MANIFEST_FILE = None"
    using lawful_bundleD(2) [OF laws plain_marker, of fs] v by auto
  then show ?thesis
    using run False v sound by (auto simp: invalidate_marker_def)
qed

lemma refresh_bundle_view:
  assumes laws: "lawful_bundle env view dir"
    and proper: "\<forall>raw files. fetch_bytes env source 0 MODEL_MANIFEST_FILE = Inr raw \<longrightarrow> ae_parse env raw = Inr files \<longrightarrow>
      proper_assets files \<and> (\<forall>p files'. prefix p raw \<longrightarrow> ae_parse env p = Inr files' \<longrightarrow> files' = files)"
    and run: "refresh_bundle env source dir fs = (r, fs')" and v: "view fs = Some m" "m MODEL_MANIFEST_FILE = None"
  shows "bundle_sound env view fs' \<and> (r = Inr () \<longrightarrow> bundle_provisioned env view fs')"
proof (cases "\<exists>raw files. fetch_bytes env source 0 MODEL_MANIFEST_FILE = Inr raw \<and> ae_parse env raw = Inr files")
  case False
  then have "fs' = fs \<and> \<not> is_ok r"
    using run by (cases "fetch_bytes env source 0 MODEL_MANIFEST_FILE"; cases "ae_parse env (projr (fetch_bytes env source 0 MODEL_MANIFEST_FILE))")
      (auto simp: refresh_bundle_def)
  then show ?thesis
    using v by (auto simp: bundle_sound_def)
next
  case True
  then obtain raw files where got: "fetch_bytes env source 0 MODEL_MANIFEST_FILE = Inr raw" "ae_parse env raw = Inr files"
    by blast
  then have files: "proper_assets files" and torn: "\<forall>p files'. prefix p raw \<longrightarrow> ae_parse env p = Inr files' \<longrightarrow> files' = files"
    using proper by blast+
  obtain r1 fs1 where 1: "install_assets env source dir 1 files fs = (r1, fs1)"
    by fastforce
  obtain m1 where m1: "view fs1 = Some m1" "r1 = Inr () \<longrightarrow> assets_match env files m1"
      "\<forall>x. x \<notin> asf_name ` set files \<longrightarrow> x \<notin> partial_name ` asf_name ` set files \<longrightarrow> m1 x = m x"
    using install_assets_view [OF laws files 1 v(1)] by blast
  have names: "MODEL_MANIFEST_FILE \<notin> asf_name ` set files" "MODEL_MANIFEST_FILE \<notin> partial_name ` asf_name ` set files"
    using files by (auto simp: proper_assets_def partial_name_def MODEL_MANIFEST_FILE_def)
  then have unmarked: "m1 MODEL_MANIFEST_FILE = None"
    using m1(3) v(2) by simp
  show ?thesis
  proof (cases r1)
    case (Inl e)
    then show ?thesis
      using run got 1 m1(1) unmarked by (auto simp: refresh_bundle_def bundle_sound_def)
  next
    case ok: (Inr u)
    obtain w fs2 where 2: "os_write (ae_os env) (path_join dir MODEL_MANIFEST_FILE) raw fs1 = (w, fs2)"
      by fastforce
    have "wrote view MODEL_MANIFEST_FILE raw (is_ok w) fs1 fs2"
      by (rule lawful_bundleD(3) [OF laws plain_marker 2])
    then obtain m2 where m2: "view fs2 = Some m2" "\<forall>x. x \<noteq> MODEL_MANIFEST_FILE \<longrightarrow> m2 x = m1 x"
        "if is_ok w then m2 MODEL_MANIFEST_FILE = Some raw
         else m2 MODEL_MANIFEST_FILE = None \<or> (\<exists>p. prefix p raw \<and> m2 MODEL_MANIFEST_FILE = Some p)"
      using m1(1) unmarked unfolding wrote_def by (metis (full_types))
    have "m2 (asf_name f) = m1 (asf_name f)" if "f \<in> set files" for f
      using m2(2) names(1) that by (metis image_eqI)
    then have match: "assets_match env files m2"
      using m1(2) ok by (simp add: assets_match_def)
    have marked: "ae_parse env c = Inr fl \<Longrightarrow> assets_match env fl m2" if "m2 MODEL_MANIFEST_FILE = Some c" for c fl
      using m2(3) that match got(2) torn by (cases "is_ok w") auto
    have "fs' = fs2" "r = Inr () \<longrightarrow> is_ok w"
      using run got 1 ok 2 by (auto simp: refresh_bundle_def result_simps)
    then show ?thesis
      using m2(1,3) marked match got(2) by (auto simp: bundle_sound_def bundle_provisioned_def)
  qed
qed

text \<open>
  C24. A marked bundle is complete.  When the marker in the bundle directory parses,
  every file it lists is there with the length and the digest it gives; provisioning keeps this,
  wherever it fails, downloads broken off and half-written markers included, so a later start that
  finds the marker may skip the download.  Provisioning that succeeds leaves such a bundle.
  The manifest is JSON, so what is cut off at its end (the newline it is written with) does not change
  what it parses to; its files have distinct plain names, none of which is that of the manifest or of
  a partial download.
\<close>

theorem marked_bundle_is_complete:
  assumes "lawful_bundle env view dir"
    and "\<forall>raw files. fetch_bytes env source 0 MODEL_MANIFEST_FILE = Inr raw \<longrightarrow> ae_parse env raw = Inr files \<longrightarrow>
      proper_assets files \<and> (\<forall>p files'. prefix p raw \<longrightarrow> ae_parse env p = Inr files' \<longrightarrow> files' = files)"
    and "bundle_sound env view fs" and "provision_with env source dir fs = (r, fs')"
  shows "bundle_sound env view fs' \<and> (r = Inr () \<longrightarrow> bundle_provisioned env view fs')"
proof (cases "assets_ready env dir fs")
  case True
  then obtain raw files where raw: "os_read (ae_os env) (path_join dir MODEL_MANIFEST_FILE) fs = Inr raw" "ae_parse env raw = Inr files"
    by (auto simp: assets_ready_def split: sum.splits)
  obtain m where "view fs = Some m" "m MODEL_MANIFEST_FILE = Some raw"
    using lawful_bundleD(1) [OF assms(1) plain_marker raw(1)] by blast
  then show ?thesis
    using True assms(3,4) raw(2) by (auto simp: provision_with_def bundle_sound_def bundle_provisioned_def)
next
  case False
  obtain c fs1 where 1: "os_create_dir_all (ae_os env) dir fs = (c, fs1)"
    by fastforce
  have sound1: "bundle_sound env view fs1"
    using lawful_bundleD(6) [OF assms(1) 1] assms(3) by (auto simp: bundle_sound_def)
  show ?thesis
  proof (cases c)
    case (Inl e)
    then show ?thesis
      using assms(4) False 1 sound1 by (auto simp: provision_with_def)
  next
    case (Inr u)
    then obtain m1 where m1: "view fs1 = Some m1"
      using lawful_bundleD(7) [OF assms(1) 1] by auto
    obtain r2 fs2 where 2: "invalidate_marker env dir fs1 = (r2, fs2)"
      by fastforce
    note invalidated = invalidate_marker_view [OF assms(1) 2 m1 sound1]
    show ?thesis
    proof (cases r2)
      case failed: (Inl e)
      then show ?thesis
        using assms(4) False 1 Inr 2 invalidated by (auto simp: provision_with_def)
    next
      case ok: (Inr v)
      then obtain m2 where m2: "view fs2 = Some m2" "m2 MODEL_MANIFEST_FILE = None"
        using invalidated by auto
      have "refresh_bundle env source dir fs2 = (r, fs')"
        using assms(4) False 1 Inr 2 ok by (simp add: provision_with_def)
      then show ?thesis
        using refresh_bundle_view [OF assms(1,2) _ m2] by blast
    qed
  qed
qed


section \<open>An instance\<close>

text \<open>One directory of files; a bundle of one file.\<close>

definition in_bundle :: "string \<Rightarrow> string option" where
  "in_bundle p = strip_prefix ''/m/'' p"

definition bundle_os :: "(string \<Rightarrow> string option) os_ops" where
  "bundle_os = \<lparr>os_is_dir = (\<lambda>p f. False), os_exists = (\<lambda>p f. Option.bind (in_bundle p) f \<noteq> None), os_read_dir = (\<lambda>p f. Inr []),
     os_create_dir_all = (\<lambda>p f. (Inr (), f)), os_copy = (\<lambda>_ _ f. (Inl ''unsupported'', f)),
     os_read = (\<lambda>p f. case Option.bind (in_bundle p) f of Some c \<Rightarrow> Inr c | None \<Rightarrow> Inl NotFound),
     os_write = (\<lambda>p c f. case in_bundle p of Some n \<Rightarrow> (Inr (), f(n \<mapsto> c)) | None \<Rightarrow> (Inl ''denied'', f)),
     os_rename = (\<lambda>p q f. case (in_bundle p, in_bundle q) of
        (Some n, Some k) \<Rightarrow> (Inr (), f(k := f n, n := None)) | _ \<Rightarrow> (Inl ''denied'', f)),
     os_remove_dir_all = (\<lambda>p f. (Inl ''unsupported'', f)),
     os_remove_file = (\<lambda>p f. case in_bundle p of Some n \<Rightarrow> (Inr (), f(n := None)) | None \<Rightarrow> (Inl ''denied'', f))\<rparr>"

definition demo_assets :: "(string \<Rightarrow> string option) asset_env" where
  "demo_assets = \<lparr> ae_os = bundle_os, ae_size = (\<lambda>p f. map_option length (Option.bind (in_bundle p) f)),
     ae_parse = (\<lambda>raw. if raw = ''M'' \<or> raw = ''M'' @ [LF] then Inr [\<lparr> asf_name = ''g'', asf_bytes = 1, asf_sha256 = [] \<rparr>] else Inl ''syntax''),
     ae_sha256 = (\<lambda>_. []), ae_get = (\<lambda>n bucket key. Inr [Inr (if key = ''p/manifest.json'' then ''M'' @ [LF] else ''x'')]) \<rparr>"

definition demo_asset_source :: model_asset_source where
  "demo_asset_source = \<lparr> mas_bucket = ''b'', mas_prefix = ''p'' \<rparr>"

lemma demo_bundle_lawful: "lawful_bundle demo_assets Some ''/m''"
proof -
  have "in_bundle (path_join ''/m'' n) = Some n" if "plain_name n" for n
    using that by (cases n) (auto simp: plain_name_def path_join_def in_bundle_def)
  then show ?thesis
    unfolding lawful_bundle_def wrote_def by (auto simp: demo_assets_def bundle_os_def split: option.splits)
qed

lemma marked_bundle_is_complete_witness:
  "\<exists>fs'. provision_with demo_assets demo_asset_source ''/m'' Map.empty = (Inr (), fs') \<and> bundle_provisioned demo_assets Some fs'"
proof -
  have run: "is_ok (fst (provision_with demo_assets demo_asset_source ''/m'' Map.empty))"
    by code_simp
  then obtain fs' where fs': "provision_with demo_assets demo_asset_source ''/m'' Map.empty = (Inr (), fs')"
    by (cases "provision_with demo_assets demo_asset_source ''/m'' Map.empty"; cases "fst (provision_with demo_assets demo_asset_source ''/m'' Map.empty)")
      auto
  have proper: "\<forall>raw files. fetch_bytes demo_assets demo_asset_source 0 MODEL_MANIFEST_FILE = Inr raw \<longrightarrow> ae_parse demo_assets raw = Inr files \<longrightarrow>
      proper_assets files \<and> (\<forall>p files'. prefix p raw \<longrightarrow> ae_parse demo_assets p = Inr files' \<longrightarrow> files' = files)"
    by (auto simp: demo_assets_def proper_assets_def plain_name_def MODEL_MANIFEST_FILE_def prefix_Cons split: if_splits)
  have "bundle_sound demo_assets Some Map.empty"
    by (simp add: bundle_sound_def)
  then show ?thesis
    using marked_bundle_is_complete [OF demo_bundle_lawful proper _ fs'] fs' by auto
qed

end
