(* ===== verification/S3_Release.thy ===== *)
theory S3_Release
  imports S3_Store
begin

text \<open>
  Activation of a release in the object store (\<^verbatim>\<open>src/bin/static_activate.rs\<close>): a resumable upload
  of the files, the manifest last, then the swap of the pointer.
\<close>


section \<open>The upload\<close>

definition is_create_only_conflict :: "publish_error \<Rightarrow> bool" where
  "is_create_only_conflict e =
     (case e of PublishOperation message \<Rightarrow> str_contains message CREATE_ONLY_CONFLICT_PHRASE | _ \<Rightarrow> False)"

text \<open>An object that is already there is compared with the manifest.\<close>

definition verify_remote_object ::
  "(blob \<Rightarrow> blob) \<Rightarrow> 's publish_ops \<Rightarrow> string \<Rightarrow> string \<Rightarrow> release_manifest \<Rightarrow> 's \<Rightarrow> string + unit" where
  "verify_remote_object sha256 ops object_key name manifest s =
     and_then (ok_or (msg [''manifest has no output entry for '', name, ''; cannot verify pre-existing '', object_key])
       (List.find (\<lambda>out. of_name out = name) (rm_outputs manifest))) (\<lambda>expected.
     and_then (map_err (\<lambda>e. msg [''failed to read pre-existing object '', object_key, '': '', show_publish_error e])
       (op_read ops object_key s)) (\<lambda>found.
     and_then (ok_or (msg [''pre-existing object '', object_key, '' reported present then vanished during integrity check''])
       found) (\<lambda>stored.
       let raw = text_bytes (vo_bytes stored); actual_size = (of_nat (length raw) :: u64);
           actual_sha = sha256_hex sha256 raw
       in if actual_size \<noteq> of_size_bytes expected
          then Inl (msg [''pre-existing object '', object_key, '' size mismatch: manifest '', show_u64 (of_size_bytes expected),
                 '', remote '', show_u64 actual_size, ''; refusing to activate a corrupt release''])
          else if actual_sha \<noteq> of_sha256 expected
          then Inl (msg [''pre-existing object '', object_key, '' sha256 mismatch: manifest '', of_sha256 expected,
                 '', remote '', actual_sha, ''; refusing to activate a corrupt release''])
          else Inr ())))"

definition release_object_key :: "release_manifest \<Rightarrow> string \<Rightarrow> string" where
  "release_object_key manifest name = msg [static_release_dir_key (rm_release_id manifest), ''/'', name]"

definition upload_object ::
  "(blob \<Rightarrow> blob) \<Rightarrow> 's publish_ops \<Rightarrow> string \<Rightarrow> release_manifest \<Rightarrow> string \<Rightarrow> 's \<Rightarrow> (string + unit) \<times> 's" where
  "upload_object sha256 ops release_dir manifest name s =
     (let object_key = release_object_key manifest name
      in case op_upload_file ops object_key (path_join release_dir name) CreateOnly s of
           (Inr _, s1) \<Rightarrow> (Inr (), s1)
         | (Inl e, s1) \<Rightarrow>
             (if is_create_only_conflict e then verify_remote_object sha256 ops object_key name manifest s1
              else Inl (msg [''failed to upload static release object '', object_key, '': '', show_publish_error e]), s1))"

text \<open>\<open>env n\<close> is what other processes do to the store before the \<open>n\<close>-th upload.\<close>

fun upload_objects ::
  "(nat \<Rightarrow> 's \<Rightarrow> 's) \<Rightarrow> (string \<Rightarrow> 's \<Rightarrow> (string + unit) \<times> 's) \<Rightarrow> nat \<Rightarrow> string list \<Rightarrow> 's \<Rightarrow> (string + unit) \<times> 's" where
  "upload_objects env upload n [] s = (Inr (), s)"
| "upload_objects env upload n (name # names) s =
     (case upload name (env n s) of
        (Inl e, s1) \<Rightarrow> (Inl e, s1)
      | (Inr _, s1) \<Rightarrow> upload_objects env upload (Suc n) names s1)"

definition upload_manifest ::
  "'s publish_ops \<Rightarrow> (string \<Rightarrow> string + string) \<Rightarrow> string \<Rightarrow> release_manifest \<Rightarrow> 's \<Rightarrow> (string + unit) \<times> 's" where
  "upload_manifest ops rd release_dir manifest s =
     (let manifest_key = static_release_manifest_key (rm_release_id manifest);
          manifest_source = path_join release_dir RELEASE_MANIFEST_FILE
      in case rd manifest_source of
           Inl e \<Rightarrow> (Inl (msg [''failed to read local manifest '', manifest_source, '': '', e]), s)
         | Inr local_manifest \<Rightarrow>
             (case op_upload_file ops manifest_key manifest_source CreateOnly s of
                (Inr _, s1) \<Rightarrow> (Inr (), s1)
              | (Inl e, s1) \<Rightarrow>
                  (if is_create_only_conflict e
                   then
                     and_then (map_err (\<lambda>e. msg [''failed to read stored manifest '', manifest_key, '': '', show_publish_error e])
                       (op_read ops manifest_key s1)) (\<lambda>found.
                     and_then (ok_or (msg [''manifest '', manifest_key,
                         '' reported present then vanished during idempotency check'']) found) (\<lambda>stored.
                       if vo_bytes stored \<noteq> local_manifest
                       then Inl (msg [''static release '', rm_release_id manifest,
                              '' already installed with a DIFFERENT manifest at '', manifest_key,
                              '': content-addressed ids make this impossible; treating as corruption''])
                       else Inr ()))
                   else Inl (msg [''failed to upload static release manifest '', manifest_key, '': '', show_publish_error e]),
                   s1)))"

definition upload_release ::
  "(nat \<Rightarrow> 's \<Rightarrow> 's) \<Rightarrow> (blob \<Rightarrow> blob) \<Rightarrow> 's publish_ops \<Rightarrow> (string \<Rightarrow> string + string) \<Rightarrow> string \<Rightarrow> release_manifest \<Rightarrow> 's \<Rightarrow>
     (string + unit) \<times> 's" where
  "upload_release env sha256 ops rd release_dir manifest s =
     (case release_output_files (rm_turbo_version manifest) of
        None \<Rightarrow> (Inl (''no static release file set for turbo_version '' @ show_nat (unat (rm_turbo_version manifest))), s)
      | Some output_files \<Rightarrow>
          (case upload_objects env (upload_object sha256 ops release_dir manifest) 0 output_files s of
             (Inl e, s1) \<Rightarrow> (Inl e, s1)
           | (Inr _, s1) \<Rightarrow> upload_manifest ops rd release_dir manifest (env (length output_files) s1)))"


section \<open>The command\<close>

definition QUERY_BUCKET_ENV :: string where "QUERY_BUCKET_ENV = ''LTSEARCH_QUERY_S3_BUCKET''"
definition LEGACY_BUCKET_ENV :: string where "LEGACY_BUCKET_ENV = ''LTSEARCH_STATIC_S3_BUCKET''"

definition non_empty_trimmed :: "string option \<Rightarrow> string option" where
  "non_empty_trimmed v = (case map_option str_trim v of Some t \<Rightarrow> if t = [] then None else Some t | None \<Rightarrow> None)"

definition resolve_bucket :: "string option \<Rightarrow> string option \<Rightarrow> string + string" where
  "resolve_bucket query_value legacy_value =
     and_then (ok_or (''missing required environment variable '' @ QUERY_BUCKET_ENV) (non_empty_trimmed query_value)) (\<lambda>query.
       case non_empty_trimmed legacy_value of
         Some legacy \<Rightarrow>
           if legacy \<noteq> query
           then Inl (msg [LEGACY_BUCKET_ENV, '' ('', legacy, '') differs from '', QUERY_BUCKET_ENV, '' ('', query, ''); '',
                  LEGACY_BUCKET_ENV, '' is deprecated '', [CHR 0xE2, CHR 0x80, CHR 0x94], '' unset it and publish to '',
                  QUERY_BUCKET_ENV])
           else Inr query
       | None \<Rightarrow> Inr query)"

record cli_args =
  ca_release_dir :: "string option"
  ca_expect_model_id :: "string option"
  ca_expect_dim :: "u32 option"

definition no_cli_args :: cli_args where
  "no_cli_args = \<lparr> ca_release_dir = None, ca_expect_model_id = None, ca_expect_dim = None \<rparr>"

definition parse_expect_dim :: "string \<Rightarrow> string + u32" where
  "parse_expect_dim value =
     ok_or (''--expect-dim must be a positive integer, got '' @ value) (map_option of_nat (parse_u32 value))"

text \<open>A flag takes the next argument; a repeated flag takes the last value.\<close>

fun parse_cli_flags :: "cli_args \<Rightarrow> string list \<Rightarrow> string + cli_args" where
  "parse_cli_flags acc [] = Inr acc"
| "parse_cli_flags acc (flag # rest) =
     (if flag = ''--release'' \<or> flag = ''--expect-model-id'' \<or> flag = ''--expect-dim''
      then
        (case rest of
           [] \<Rightarrow> Inl (''missing value for '' @ flag)
         | value # rest' \<Rightarrow>
             if flag = ''--release'' then parse_cli_flags (acc\<lparr>ca_release_dir := Some value\<rparr>) rest'
             else if flag = ''--expect-model-id'' then parse_cli_flags (acc\<lparr>ca_expect_model_id := Some value\<rparr>) rest'
             else and_then (parse_expect_dim value) (\<lambda>n. parse_cli_flags (acc\<lparr>ca_expect_dim := Some n\<rparr>) rest'))
      else Inl (''unknown argument: '' @ flag))"

text \<open>The first argument is the name of the binary.\<close>

definition parse_cli_args :: "string list \<Rightarrow> string + string \<times> string option \<times> u32 option" where
  "parse_cli_args args =
     and_then (parse_cli_flags no_cli_args (drop 1 args)) (\<lambda>acc.
       map_ok (\<lambda>dir. (dir, ca_expect_model_id acc, ca_expect_dim acc))
         (ok_or ''missing required --release'' (ca_release_dir acc)))"

definition local_files_of :: "verify_ports \<Rightarrow> 'f os_ops \<Rightarrow> 'f \<Rightarrow> local_files" where
  "local_files_of ports os fs =
     \<lparr> lf_read = (\<lambda>p. map_err (show_io_error ports) (os_read os p fs)), lf_is_dir = (\<lambda>p. os_is_dir os p fs),
       lf_read_dir = (\<lambda>p. os_read_dir os p fs) \<rparr>"

text \<open>
  The surroundings of a run: the client of a bucket, other processes, the printer and parser of
  the head, and the clock.
\<close>

record 's activation_env =
  ae_s3 :: "string \<Rightarrow> 's s3_client"
  ae_others :: "nat \<Rightarrow> 's \<Rightarrow> 's"
  ae_parse_head :: "string \<Rightarrow> string + static_release_head"
  ae_print_head :: "static_release_head \<Rightarrow> string"
  ae_now :: int

definition activated_message :: "static_activation_result \<Rightarrow> string" where
  "activated_message result =
     msg [''activated static release '', ar_release_id result, '' (previous '',
          (case ar_previous_release_id result of Some i \<Rightarrow> i | None \<Rightarrow> ''<none>''), '')'']"

definition run_activation ::
  "verify_ports \<Rightarrow> 'f os_ops \<Rightarrow> mapper \<Rightarrow> 'f \<Rightarrow> 's activation_env \<Rightarrow> string option \<Rightarrow> string option \<Rightarrow>
     string \<times> string option \<times> u32 option \<Rightarrow> 's \<Rightarrow> ((string + string) \<times> 's) option" where
  "run_activation ports os files fs ae query_bucket legacy_bucket = (\<lambda>(release_dir, expect_model_id, expect_dim) s.
     case resolve_bucket query_bucket legacy_bucket of
       Inl e \<Rightarrow> Some (Inl e, s)
     | Inr bucket \<Rightarrow>
         map_option (\<lambda>verified.
           case verified of
             Inl e \<Rightarrow> (Inl (show_static_activate_error e), s)
           | Inr manifest \<Rightarrow>
               (let local = local_files_of ports os fs; ops = aws_publish_ops (ae_s3 ae bucket) local 1
                in case upload_release (ae_others ae) (vp_sha256 ports) ops (lf_read local) release_dir manifest s of
                     (Inl e, s1) \<Rightarrow> (Inl e, s1)
                   | (Inr _, s1) \<Rightarrow>
                       map_prod (map_ok activated_message \<circ> map_err show_static_activate_error) id
                         (activate_static_pointer (ae_others ae 0) ops (ae_parse_head ae) (ae_print_head ae)
                           (rm_release_id manifest) (ae_now ae) s1)))
           (verify_release_dir ports os files release_dir expect_model_id expect_dim fs))"


section \<open>A release is complete before it is marked, and marked before it is active\<close>

text \<open>The object of a file is the one the manifest describes.\<close>

definition remote_matches ::
  "(blob \<Rightarrow> blob) \<Rightarrow> 's object_view \<Rightarrow> release_manifest \<Rightarrow> 's \<Rightarrow> string \<Rightarrow> bool" where
  "remote_matches sha256 peek manifest s name \<longleftrightarrow>
     (\<exists>raw tag out. peek (release_object_key manifest name) s = Some (raw, tag) \<and>
        List.find (\<lambda>out. of_name out = name) (rm_outputs manifest) = Some out \<and>
        of_size_bytes out = of_nat (length (text_bytes raw)) \<and> of_sha256 out = sha256_hex sha256 (text_bytes raw))"

definition release_files_of :: "release_manifest \<Rightarrow> string list" where
  "release_files_of manifest = (case release_output_files (rm_turbo_version manifest) of Some names \<Rightarrow> names | None \<Rightarrow> [])"

definition remote_complete :: "(blob \<Rightarrow> blob) \<Rightarrow> 's object_view \<Rightarrow> release_manifest \<Rightarrow> 's \<Rightarrow> bool" where
  "remote_complete sha256 peek manifest s \<longleftrightarrow>
     (\<forall>name \<in> set (release_files_of manifest). remote_matches sha256 peek manifest s name)"

definition release_marked :: "'s object_view \<Rightarrow> release_manifest \<Rightarrow> 's \<Rightarrow> bool" where
  "release_marked peek manifest s \<longleftrightarrow> peek (static_release_manifest_key (rm_release_id manifest)) s \<noteq> None"

definition release_active :: "'s object_view \<Rightarrow> (string \<Rightarrow> string + static_release_head) \<Rightarrow> release_manifest \<Rightarrow> 's \<Rightarrow> bool" where
  "release_active peek de manifest s \<longleftrightarrow>
     (\<exists>raw tag h. peek STATIC_HEAD_KEY s = Some (raw, tag) \<and> de raw = Inr h \<and> sh_release_id h = rm_release_id manifest)"

text \<open>The invariant of the store: active only if marked, marked only if complete.\<close>

definition release_safe ::
  "(blob \<Rightarrow> blob) \<Rightarrow> 's object_view \<Rightarrow> (string \<Rightarrow> string + static_release_head) \<Rightarrow> release_manifest \<Rightarrow> 's \<Rightarrow> bool" where
  "release_safe sha256 peek de manifest s \<longleftrightarrow>
     (release_marked peek manifest s \<longrightarrow> remote_complete sha256 peek manifest s) \<and>
     (release_active peek de manifest s \<longrightarrow> release_marked peek manifest s)"

definition release_keys :: "release_manifest \<Rightarrow> string set" where
  "release_keys manifest =
     insert (static_release_manifest_key (rm_release_id manifest))
       (release_object_key manifest ` set (release_files_of manifest))"

definition objects_kept :: "'s object_view \<Rightarrow> string set \<Rightarrow> 's \<Rightarrow> 's \<Rightarrow> bool" where
  "objects_kept peek K s s' \<longleftrightarrow> (\<forall>j \<in> K. peek j s \<noteq> None \<longrightarrow> peek j s' = peek j s)"

text \<open>Other processes never replace or remove an object of the release, and keep the invariant.\<close>

definition others_respect ::
  "(nat \<Rightarrow> 's \<Rightarrow> 's) \<Rightarrow> (blob \<Rightarrow> blob) \<Rightarrow> 's object_view \<Rightarrow> (string \<Rightarrow> string + static_release_head) \<Rightarrow> release_manifest \<Rightarrow> bool" where
  "others_respect env sha256 peek de manifest \<longleftrightarrow>
     (\<forall>n s. objects_kept peek (release_keys manifest) s (env n s) \<and>
        (release_safe sha256 peek de manifest s \<longrightarrow> release_safe sha256 peek de manifest (env n s)))"

text \<open>The local directory is the one that was verified.\<close>

definition local_matches :: "(blob \<Rightarrow> blob) \<Rightarrow> (string \<Rightarrow> string + string) \<Rightarrow> string \<Rightarrow> release_manifest \<Rightarrow> bool" where
  "local_matches sha256 rd release_dir manifest \<longleftrightarrow>
     (\<forall>name \<in> set (release_files_of manifest). \<exists>raw out. rd (path_join release_dir name) = Inr raw \<and>
        List.find (\<lambda>out. of_name out = name) (rm_outputs manifest) = Some out \<and>
        of_size_bytes out = of_nat (length (text_bytes raw)) \<and> of_sha256 out = sha256_hex sha256 (text_bytes raw))"

lemma release_file_not_manifest: "name \<in> set (release_files_of manifest) \<Longrightarrow> name \<noteq> RELEASE_MANIFEST_FILE"
  by (auto simp: release_files_of_def release_output_files_def V3_RELEASE_OUTPUT_FILES_def V4_RELEASE_OUTPUT_FILES_def
      RELEASE_MANIFEST_FILE_def CENTROIDS_FILE_def PROJECTION_FILE_def TURBO_STATIC_FILE_def DOCID_FILE_def META_FILE_def
      META_EXT_FILE_def META_JSON_FILE_def TEXT_FILE_def TITLE_FILE_def CODEBOOK_FILE_def QJL_FILE_def ROTATION_FILE_def
      split: if_splits)

lemma release_keys_distinct:
  "name \<in> set (release_files_of manifest) \<Longrightarrow>
     release_object_key manifest name \<noteq> static_release_manifest_key (rm_release_id manifest)"
  "release_object_key manifest name \<noteq> STATIC_HEAD_KEY"
  "static_release_manifest_key i \<noteq> STATIC_HEAD_KEY"
  using release_file_not_manifest [of name manifest]
  by (auto simp: release_object_key_def static_release_dir_key_def static_release_manifest_key_def STATIC_HEAD_KEY_def
      RELEASE_MANIFEST_FILE_def msg_def)

lemma objects_kept_trans: "objects_kept peek K s s1 \<Longrightarrow> objects_kept peek K s1 s2 \<Longrightarrow> objects_kept peek K s s2"
  by (auto simp: objects_kept_def)

lemma remote_matches_kept:
  "objects_kept peek (release_keys manifest) s s' \<Longrightarrow> name \<in> set (release_files_of manifest) \<Longrightarrow>
     remote_matches sha256 peek manifest s name \<Longrightarrow> remote_matches sha256 peek manifest s' name"
  by (auto simp: objects_kept_def remote_matches_def release_keys_def)

lemma remote_complete_kept:
  "objects_kept peek (release_keys manifest) s s' \<Longrightarrow> remote_complete sha256 peek manifest s \<Longrightarrow>
     remote_complete sha256 peek manifest s'"
  by (auto simp: remote_complete_def intro: remote_matches_kept)

text \<open>Storing one more object under a new key keeps the rest.\<close>

definition adds_object :: "'s object_view \<Rightarrow> string \<Rightarrow> 's \<Rightarrow> 's \<Rightarrow> bool" where
  "adds_object peek key s s' \<longleftrightarrow> (peek key s \<noteq> None \<longrightarrow> peek key s' = peek key s) \<and> (\<forall>j. j \<noteq> key \<longrightarrow> peek j s' = peek j s)"

lemma adds_object_kept: "adds_object peek key s s' \<Longrightarrow> objects_kept peek K s s'"
  unfolding adds_object_def objects_kept_def by metis

lemma aws_upload_file_adds:
  assumes "lawful_s3 s3 peek" "aws_upload_file s3 files key source CreateOnly s = (r, s')"
  shows "adds_object peek key s s'"
    and "r = Inr () \<Longrightarrow> \<exists>raw tag. lf_read files source = Inr raw \<and> peek key s' = Some (raw, tag)"
    and "r = Inl e \<Longrightarrow> is_create_only_conflict e \<Longrightarrow> peek key s' = peek key s \<or>
      (\<exists>raw tag. lf_read files source = Inr raw \<and> peek key s' = Some (raw, tag))"
  using aws_upload_file_cases [OF assms] by (auto simp: adds_object_def)

lemma release_safe_file_added:
  assumes "name \<in> set (release_files_of manifest)" "release_safe sha256 peek de manifest s"
    "adds_object peek (release_object_key manifest name) s s'"
  shows "release_safe sha256 peek de manifest s'"
proof -
  note d = release_keys_distinct(1) [OF assms(1)] release_keys_distinct(2) [of manifest name]
  have "release_marked peek manifest s' = release_marked peek manifest s"
      "release_active peek de manifest s' = release_active peek de manifest s"
    using assms(3) d [symmetric] by (simp_all add: adds_object_def release_marked_def release_active_def)
  then show ?thesis
    using assms(2) remote_complete_kept [OF adds_object_kept [OF assms(3)]] by (auto simp: release_safe_def)
qed

lemma verify_remote_object_ok:
  assumes "lawful_s3 s3 peek"
    "verify_remote_object sha256 (aws_publish_ops s3 files depth) (release_object_key manifest name) name manifest s = Inr ()"
  shows "remote_matches sha256 peek manifest s name"
proof -
  obtain out stored where *: "List.find (\<lambda>out. of_name out = name) (rm_outputs manifest) = Some out"
      "aws_read s3 (release_object_key manifest name) s = Inr (Some stored)"
      "of_size_bytes out = of_nat (length (text_bytes (vo_bytes stored)))"
      "of_sha256 out = sha256_hex sha256 (text_bytes (vo_bytes stored))"
    using assms(2) by (auto simp: verify_remote_object_def Let_def result_simps aws_publish_ops_def split: if_splits)
  moreover obtain raw tag where "peek (release_object_key manifest name) s = Some (raw, tag)" "vo_bytes stored = raw"
    using aws_read_ok [OF assms(1) *(2)] by (cases "peek (release_object_key manifest name) s") auto
  ultimately show ?thesis
    by (auto simp: remote_matches_def)
qed

lemma upload_object_step:
  assumes "lawful_s3 s3 peek" "local_matches sha256 (lf_read files) dir manifest" "name \<in> set (release_files_of manifest)"
    "upload_object sha256 (aws_publish_ops s3 files depth) dir manifest name s = (r, s')"
  shows "adds_object peek (release_object_key manifest name) s s'"
    and "r = Inr () \<Longrightarrow> remote_matches sha256 peek manifest s' name"
proof -
  obtain r1 s1 where up: "aws_upload_file s3 files (release_object_key manifest name) (path_join dir name) CreateOnly s = (r1, s1)"
    by fastforce
  have s1: "s' = s1"
    using assms(4) up by (auto simp: upload_object_def Let_def aws_publish_ops_def split: sum.splits)
  note adds = aws_upload_file_adds [OF assms(1) up]
  show "adds_object peek (release_object_key manifest name) s s'"
    using adds(1) s1 by simp
  show "remote_matches sha256 peek manifest s' name" if "r = Inr ()"
  proof (cases r1)
    case (Inr u)
    then obtain raw tag where "lf_read files (path_join dir name) = Inr raw" "peek (release_object_key manifest name) s1 = Some (raw, tag)"
      using adds(2) by auto
    then show ?thesis
      using assms(2,3) s1 by (auto simp: local_matches_def remote_matches_def)
  next
    case (Inl e)
    then have "verify_remote_object sha256 (aws_publish_ops s3 files depth) (release_object_key manifest name) name manifest s' = Inr ()"
      using assms(4) up that by (auto simp: upload_object_def Let_def aws_publish_ops_def split: if_splits)
    then show ?thesis
      by (rule verify_remote_object_ok [OF assms(1)])
  qed
qed

lemma upload_objects_step:
  assumes "lawful_s3 s3 peek" "local_matches sha256 (lf_read files) dir manifest"
    "others_respect env sha256 peek de manifest" "set names \<subseteq> set (release_files_of manifest)"
    "upload_objects env (upload_object sha256 (aws_publish_ops s3 files depth) dir manifest) n names s = (r, s')"
    "release_safe sha256 peek de manifest s"
  shows "release_safe sha256 peek de manifest s' \<and> objects_kept peek (release_keys manifest) s s' \<and>
    (r = Inr () \<longrightarrow> (\<forall>name \<in> set names. remote_matches sha256 peek manifest s' name))"
  using assms(4-6)
proof (induction names arbitrary: n s)
  case Nil
  then show ?case
    by (simp add: objects_kept_def)
next
  case (Cons name names)
  let ?e = "env n s"
  obtain r1 s1 where up: "upload_object sha256 (aws_publish_ops s3 files depth) dir manifest name ?e = (r1, s1)"
    by fastforce
  have name: "name \<in> set (release_files_of manifest)"
    using Cons.prems(1) by simp
  have e: "release_safe sha256 peek de manifest ?e" "objects_kept peek (release_keys manifest) s ?e"
    using assms(3) Cons.prems(3) by (auto simp: others_respect_def)
  note step = upload_object_step [OF assms(1,2) name up]
  have safe: "release_safe sha256 peek de manifest s1"
    by (rule release_safe_file_added [OF name e(1) step(1)])
  have kept: "objects_kept peek (release_keys manifest) s s1"
    by (rule objects_kept_trans [OF e(2) adds_object_kept [OF step(1)]])
  show ?case
  proof (cases r1)
    case (Inl err)
    then show ?thesis
      using Cons.prems(2) up safe kept by auto
  next
    case (Inr u)
    then have rest: "upload_objects env (upload_object sha256 (aws_publish_ops s3 files depth) dir manifest) (Suc n) names s1 = (r, s')"
      using Cons.prems(2) up by simp
    have ih: "release_safe sha256 peek de manifest s' \<and> objects_kept peek (release_keys manifest) s1 s' \<and>
        (r = Inr () \<longrightarrow> (\<forall>name \<in> set names. remote_matches sha256 peek manifest s' name))"
      using Cons.IH [OF _ rest safe] Cons.prems(1) by simp
    have "remote_matches sha256 peek manifest s' name"
      by (rule remote_matches_kept [OF _ name]) (use ih step(2) Inr in auto)
    then show ?thesis
      using ih objects_kept_trans [OF kept] by auto
  qed
qed

lemma upload_manifest_step:
  assumes "lawful_s3 s3 peek" "remote_complete sha256 peek manifest s" "release_safe sha256 peek de manifest s"
    "upload_manifest (aws_publish_ops s3 files depth) (lf_read files) dir manifest s = (r, s')"
  shows "release_safe sha256 peek de manifest s' \<and> objects_kept peek (release_keys manifest) s s' \<and>
    (r = Inr () \<longrightarrow> remote_complete sha256 peek manifest s' \<and>
       (\<exists>raw tag. lf_read files (path_join dir RELEASE_MANIFEST_FILE) = Inr raw \<and>
          peek (static_release_manifest_key (rm_release_id manifest)) s' = Some (raw, tag)))"
proof (cases "lf_read files (path_join dir RELEASE_MANIFEST_FILE)")
  case (Inl e)
  then show ?thesis
    using assms(3,4) by (auto simp: upload_manifest_def Let_def objects_kept_def)
next
  case (Inr raw)
  let ?key = "static_release_manifest_key (rm_release_id manifest)"
  obtain r1 s1 where up: "aws_upload_file s3 files ?key (path_join dir RELEASE_MANIFEST_FILE) CreateOnly s = (r1, s1)"
    by fastforce
  have s1: "s' = s1"
    using assms(4) up Inr by (auto simp: upload_manifest_def Let_def aws_publish_ops_def split: sum.splits)
  note adds = aws_upload_file_adds [OF assms(1) up]
  have kept: "objects_kept peek (release_keys manifest) s s'"
    using adds_object_kept [OF adds(1)] s1 by simp
  have complete: "remote_complete sha256 peek manifest s'"
    by (rule remote_complete_kept [OF kept assms(2)])
  have "peek STATIC_HEAD_KEY s' = peek STATIC_HEAD_KEY s"
    using adds(1) s1 release_keys_distinct(3) [of "rm_release_id manifest"] by (auto simp: adds_object_def)
  then have "release_active peek de manifest s' = release_active peek de manifest s"
    by (simp add: release_active_def)
  moreover have "release_marked peek manifest s \<Longrightarrow> release_marked peek manifest s'"
    using adds(1) s1 by (auto simp: adds_object_def release_marked_def)
  ultimately have safe: "release_safe sha256 peek de manifest s'"
    using assms(3) complete by (auto simp: release_safe_def)
  have "\<exists>raw tag. lf_read files (path_join dir RELEASE_MANIFEST_FILE) = Inr raw \<and> peek ?key s' = Some (raw, tag)" if ok: "r = Inr ()"
  proof (cases r1)
    case r1: (Inr u)
    then show ?thesis
      using adds(2) s1 by auto
  next
    case (Inl e)
    then obtain stored where "aws_read s3 ?key s' = Inr (Some stored)" "vo_bytes stored = raw"
      using assms(4) up Inr ok by (auto simp: upload_manifest_def Let_def aws_publish_ops_def result_simps split: if_splits)
    then show ?thesis
      using aws_read_ok [OF assms(1), of ?key s' "Some stored"] Inr by (cases "peek ?key s'") auto
  qed
  then show ?thesis
    using safe kept complete by blast
qed

lemma upload_release_step:
  assumes "lawful_s3 s3 peek" "local_matches sha256 (lf_read files) dir manifest"
    "others_respect env sha256 peek de manifest" "release_safe sha256 peek de manifest s"
    "upload_release env sha256 (aws_publish_ops s3 files depth) (lf_read files) dir manifest s = (r, s')"
  shows "release_safe sha256 peek de manifest s'" "objects_kept peek (release_keys manifest) s s'"
    and "r = Inr () \<Longrightarrow> remote_complete sha256 peek manifest s' \<and>
       (\<exists>raw tag. lf_read files (path_join dir RELEASE_MANIFEST_FILE) = Inr raw \<and>
          peek (static_release_manifest_key (rm_release_id manifest)) s' = Some (raw, tag))"
proof -
  have "release_safe sha256 peek de manifest s' \<and> objects_kept peek (release_keys manifest) s s' \<and>
    (r = Inr () \<longrightarrow> remote_complete sha256 peek manifest s' \<and>
       (\<exists>raw tag. lf_read files (path_join dir RELEASE_MANIFEST_FILE) = Inr raw \<and>
          peek (static_release_manifest_key (rm_release_id manifest)) s' = Some (raw, tag)))"
  proof (cases "release_output_files (rm_turbo_version manifest)")
    case None
    then show ?thesis
      using assms(4,5) by (auto simp: upload_release_def objects_kept_def)
  next
    case (Some names)
    have names: "release_files_of manifest = names"
      using Some by (simp add: release_files_of_def)
    obtain r1 s1 where up: "upload_objects env (upload_object sha256 (aws_publish_ops s3 files depth) dir manifest) 0 names s = (r1, s1)"
      by fastforce
    note files = upload_objects_step [OF assms(1-3) _ up assms(4)]
    show ?thesis
    proof (cases r1)
      case (Inl e)
      then show ?thesis
        using files assms(5) up Some names by (auto simp: upload_release_def)
    next
      case (Inr u)
      let ?e = "env (length names) s1"
      have m: "upload_manifest (aws_publish_ops s3 files depth) (lf_read files) dir manifest ?e = (r, s')"
        using Inr assms(5) up Some by (auto simp: upload_release_def)
      have "remote_complete sha256 peek manifest s1" "release_safe sha256 peek de manifest s1"
          "objects_kept peek (release_keys manifest) s s1"
        using files names Inr by (auto simp: remote_complete_def)
      moreover have "objects_kept peek (release_keys manifest) s1 ?e"
        using assms(3) by (simp add: others_respect_def)
      ultimately have e: "remote_complete sha256 peek manifest ?e" "release_safe sha256 peek de manifest ?e"
          "objects_kept peek (release_keys manifest) s ?e"
        using assms(3) by (auto simp: others_respect_def intro: objects_kept_trans remote_complete_kept)
      show ?thesis
        using upload_manifest_step [OF assms(1) e(1,2) m] objects_kept_trans [OF e(3)] by blast
    qed
  qed
  then show "release_safe sha256 peek de manifest s'" "objects_kept peek (release_keys manifest) s s'"
    "r = Inr () \<Longrightarrow> remote_complete sha256 peek manifest s' \<and>
       (\<exists>raw tag. lf_read files (path_join dir RELEASE_MANIFEST_FILE) = Inr raw \<and>
          peek (static_release_manifest_key (rm_release_id manifest)) s' = Some (raw, tag))"
    by blast+
qed


section \<open>The whole run\<close>

lemma is_ok_maps [simp]: "is_ok (map_ok f r) = is_ok r" "is_ok (map_err g r) = is_ok r"
  by (cases r; simp)+

definition head_points ::
  "'s object_view \<Rightarrow> (static_release_head \<Rightarrow> string) \<Rightarrow> static_release_head \<Rightarrow> 's \<Rightarrow> bool" where
  "head_points peek ser head s \<longleftrightarrow> map_option fst (peek STATIC_HEAD_KEY s) = Some (ser head)"

lemma pointer_swap_keeps_safe:
  assumes "release_safe sha256 peek de manifest s" "release_marked peek manifest s"
    "\<forall>j. j \<noteq> STATIC_HEAD_KEY \<longrightarrow> peek j s' = peek j s"
  shows "release_safe sha256 peek de manifest s'" "release_marked peek manifest s'"
    "remote_complete sha256 peek manifest s'" "objects_kept peek (release_keys manifest) s s'"
proof -
  show kept: "objects_kept peek (release_keys manifest) s s'"
    using assms(3) release_keys_distinct(2,3) by (auto simp: objects_kept_def release_keys_def)
  show marked: "release_marked peek manifest s'"
    using assms(2,3) release_keys_distinct(3) [of "rm_release_id manifest"] by (simp add: release_marked_def)
  show "remote_complete sha256 peek manifest s'"
    using assms(1,2) remote_complete_kept [OF kept] by (simp add: release_safe_def)
  then show "release_safe sha256 peek de manifest s'"
    using marked by (simp add: release_safe_def)
qed

lemma aws_cas_frame:
  assumes "lawful_s3 s3 peek" "aws_compare_and_swap s3 key expected raw s = (r, s')"
  shows "\<forall>j. j \<noteq> key \<longrightarrow> peek j s' = peek j s" and "r = Inr True \<Longrightarrow> map_option fst (peek key s') = Some raw"
proof -
  let ?c = "case expected of Some etag \<Rightarrow> PutIfMatch etag | None \<Rightarrow> PutIfNoneMatch"
  obtain r1 where put: "s3_put_object s3 key raw ?c s = (r1, s')"
    using assms(2) by (auto simp: aws_compare_and_swap_def split: sum.splits prod.splits if_splits)
  show "\<forall>j. j \<noteq> key \<longrightarrow> peek j s' = peek j s"
    using lawful_s3D(3) [OF assms(1), of key raw ?c s "()" s'] lawful_s3D(4) [OF assms(1), of key raw ?c s _ s'] put
    by (cases r1) (fastforce simp: put_applied_def)+
  show "map_option fst (peek key s') = Some raw" if "r = Inr True"
    using lawful_s3D(3) [OF assms(1)] put assms(2) that
    by (cases r1) (auto simp: put_applied_def aws_compare_and_swap_def split: if_splits)
qed

lemma activate_static_pointer_aws:
  assumes "lawful_s3 s3 peek"
    "activate_static_pointer env (aws_publish_ops s3 files depth) de ser i now s = (r, s')"
  obtains "s' = s" "\<not> is_ok r"
  | "\<forall>j. j \<noteq> STATIC_HEAD_KEY \<longrightarrow> peek j s' = peek j (env s)"
    "is_ok r \<Longrightarrow> head_points peek ser (static_release_head_new i now) s'"
proof -
  consider e where "r = Inl e" "s' = s"
  | expected r1 where "aws_compare_and_swap s3 STATIC_HEAD_KEY expected (ser (static_release_head_new i now)) (env s) = (r1, s')"
      "is_ok r \<longrightarrow> r1 = Inr True"
    using assms(2)
    by (auto simp: activate_static_pointer_def Let_def aws_publish_ops_def result_simps
        split: sum.splits prod.splits bool.splits)
  then show thesis
  proof cases
    case 1
    then show ?thesis
      using that(1) by simp
  next
    case 2
    then show ?thesis
      using that(2) aws_cas_frame [OF assms(1) 2(1)] by (auto simp: head_points_def)
  qed
qed


lemma verified_local_matches:
  assumes "verify_release_dir ports os files dir model d fs = Some (Inr manifest)"
  shows "local_matches (vp_sha256 ports) (lf_read (local_files_of ports os fs)) dir manifest"
proof -
  obtain v4 m where v: "verified_release ports os files dir model d fs manifest v4 m"
    using assms unfolding verify_release_dir_ok_iff by blast
  then have names: "release_files_of manifest = map of_name (rm_outputs manifest)"
    by (simp add: verified_release_def release_files_of_def)
  have "\<exists>raw out. lf_read (local_files_of ports os fs) (path_join dir name) = Inr raw \<and>
      List.find (\<lambda>out. of_name out = name) (rm_outputs manifest) = Some out \<and>
      of_size_bytes out = of_nat (length (text_bytes raw)) \<and> of_sha256 out = sha256_hex (vp_sha256 ports) (text_bytes raw)"
    if name: "name \<in> set (release_files_of manifest)" for name
  proof -
    obtain out where out: "List.find (\<lambda>out. of_name out = name) (rm_outputs manifest) = Some out"
      using name names by (cases "List.find (\<lambda>out. of_name out = name) (rm_outputs manifest)") (auto simp: find_None_iff)
    then have "out \<in> set (rm_outputs manifest)" "of_name out = name"
      by (auto simp: find_Some_iff)
    then have "output_matches ports os dir fs out" "of_name out = name"
      using v by (simp_all add: verified_release_def)
    then show ?thesis
      using out by (auto simp: output_matches_def local_files_of_def)
  qed
  then show ?thesis
    by (simp add: local_matches_def)
qed

text \<open>
  C39. An activation into the object store never makes an incomplete
  release visible.  Whatever the outcome of every request, with partial uploads, lost answers
  and other processes in between, it keeps the invariant that a release is active only when its
  manifest object is stored, and that its manifest object is stored only when every file object
  has the size and digest the manifest records.  It replaces no object of the release.  When it
  succeeds, the pointer holds the head of the release and the stored manifest is the
  verified one.
\<close>

theorem activation_exposes_complete_release:
  assumes "verify_release_dir ports os files dir model d fs = Some (Inr manifest)"
    and "resolve_bucket query_bucket legacy_bucket = Inr bucket"
    and "lawful_s3 (ae_s3 ae bucket) peek"
    and "others_respect (ae_others ae) (vp_sha256 ports) peek (ae_parse_head ae) manifest"
    and "release_safe (vp_sha256 ports) peek (ae_parse_head ae) manifest s"
    and "run_activation ports os files fs ae query_bucket legacy_bucket (dir, model, d) s = Some (r, s')"
  shows "release_safe (vp_sha256 ports) peek (ae_parse_head ae) manifest s' \<and>
    objects_kept peek (release_keys manifest) s s' \<and>
    (is_ok r \<longrightarrow>
       head_points peek (ae_print_head ae) (static_release_head_new (rm_release_id manifest) (ae_now ae)) s' \<and>
       remote_complete (vp_sha256 ports) peek manifest s' \<and>
       (\<exists>json tag. os_read os (path_join dir RELEASE_MANIFEST_FILE) fs = Inr json \<and>
          peek (static_release_manifest_key (rm_release_id manifest)) s' = Some (json, tag)))"
proof -
  let ?sha = "vp_sha256 ports" and ?de = "ae_parse_head ae" and ?local = "local_files_of ports os fs"
  let ?ops = "aws_publish_ops (ae_s3 ae bucket) ?local 1" and ?key = "static_release_manifest_key (rm_release_id manifest)"
  obtain r1 s1 where up: "upload_release (ae_others ae) ?sha ?ops (lf_read ?local) dir manifest s = (r1, s1)"
    by fastforce
  note local = verified_local_matches [OF assms(1)]
  note uploaded = upload_release_step [OF assms(3) local assms(4,5) up]
  show ?thesis
  proof (cases r1)
    case (Inl e)
    then show ?thesis
      using assms(1,2,6) up uploaded(1,2) by (auto simp: run_activation_def Let_def)
  next
    case ok: (Inr u)
    let ?e = "ae_others ae 0 s1"
    obtain json tag where stored: "remote_complete ?sha peek manifest s1" "os_read os (path_join dir RELEASE_MANIFEST_FILE) fs = Inr json"
        "peek ?key s1 = Some (json, tag)"
      using uploaded(3) ok by (auto simp: local_files_of_def map_err_Inr_iff)
    have e: "release_safe ?sha peek ?de manifest ?e" "objects_kept peek (release_keys manifest) s1 ?e"
      using assms(4) uploaded(1) by (auto simp: others_respect_def)
    then have marked: "peek ?key ?e = Some (json, tag)"
      using stored(3) by (auto simp: objects_kept_def release_keys_def)
    have kept: "objects_kept peek (release_keys manifest) s ?e"
      using objects_kept_trans [OF uploaded(2) e(2)] .
    obtain r2 where act: "activate_static_pointer (ae_others ae 0) ?ops ?de (ae_print_head ae) (rm_release_id manifest)
        (ae_now ae) s1 = (r2, s')" "is_ok r \<longrightarrow> is_ok r2"
      using assms(1,2,6) up ok
      by (cases "activate_static_pointer (ae_others ae 0) ?ops ?de (ae_print_head ae) (rm_release_id manifest) (ae_now ae) s1")
        (auto simp: run_activation_def Let_def split: sum.splits)
    show ?thesis
    proof (rule activate_static_pointer_aws [OF assms(3) act(1)])
      assume "s' = s1" "\<not> is_ok r2"
      then show ?thesis
        using uploaded(1,2) act(2) by simp
    next
      assume frame: "\<forall>j. j \<noteq> STATIC_HEAD_KEY \<longrightarrow> peek j s' = peek j ?e"
        and head: "is_ok r2 \<Longrightarrow> head_points peek (ae_print_head ae) (static_release_head_new (rm_release_id manifest) (ae_now ae)) s'"
      have m: "release_marked peek manifest ?e"
        using marked by (simp add: release_marked_def)
      note swapped = pointer_swap_keeps_safe [OF e(1) m frame]
      have "peek ?key s' = Some (json, tag)"
        using marked frame release_keys_distinct(3) [of "rm_release_id manifest"] by simp
      then show ?thesis
        using swapped(1,3) objects_kept_trans [OF kept swapped(4)] stored(2) head act(2) by blast
    qed
  qed
qed


section \<open>An interrupted activation can be repeated\<close>

text \<open>A client of a service that answers.\<close>

definition answers :: "'s s3_client \<Rightarrow> 's object_view \<Rightarrow> bool" where
  "answers s3 peek \<longleftrightarrow>
     (\<forall>key s. case peek key s of
        Some (raw, tag) \<Rightarrow> s3_get_object s3 key s = Inr \<lparr> so_etag = Some tag, so_body = Inr raw \<rparr>
      | None \<Rightarrow> \<exists>e. s3_get_object s3 key s = Inl e \<and> is_missing_object_error e) \<and>
     (\<forall>key raw c s. case fst (s3_put_object s3 key raw c s) of
        Inr _ \<Rightarrow> condition_holds c (peek key s)
      | Inl e \<Rightarrow> \<not> condition_holds c (peek key s) \<and> is_precondition_failure e)"

text \<open>Every object of the release is missing or right.\<close>

definition resumable :: "(blob \<Rightarrow> blob) \<Rightarrow> 's object_view \<Rightarrow> release_manifest \<Rightarrow> string \<Rightarrow> 's \<Rightarrow> bool" where
  "resumable sha256 peek manifest json s \<longleftrightarrow>
     (\<forall>name \<in> set (release_files_of manifest). peek (release_object_key manifest name) s = None \<or> remote_matches sha256 peek manifest s name) \<and>
     (peek (static_release_manifest_key (rm_release_id manifest)) s = None \<or>
      (\<exists>tag. peek (static_release_manifest_key (rm_release_id manifest)) s = Some (json, tag)))"

lemma answers_read:
  assumes "answers s3 peek"
  shows "aws_read s3 key s = Inr (map_option (\<lambda>(raw, tag). \<lparr> vo_bytes = raw, vo_etag = tag \<rparr>) (peek key s))"
proof -
  have "case peek key s of
        Some (raw, tag) \<Rightarrow> s3_get_object s3 key s = Inr \<lparr> so_etag = Some tag, so_body = Inr raw \<rparr>
      | None \<Rightarrow> \<exists>e. s3_get_object s3 key s = Inl e \<and> is_missing_object_error e"
    using assms by (simp add: answers_def)
  then show ?thesis
    by (auto simp: aws_read_def ok_or_def split: option.splits)
qed

lemma answers_put:
  assumes "answers s3 peek" "lawful_s3 s3 peek" "s3_put_object s3 key raw c s = (r, s')"
  shows "case r of Inr _ \<Rightarrow> put_applied peek key raw c s s' | Inl e \<Rightarrow> is_precondition_failure e \<and> (\<forall>j. peek j s' = peek j s) \<and> \<not> condition_holds c (peek key s)"
proof (cases r)
  case (Inl e)
  have "case fst (s3_put_object s3 key raw c s) of Inr _ \<Rightarrow> condition_holds c (peek key s)
      | Inl e \<Rightarrow> \<not> condition_holds c (peek key s) \<and> is_precondition_failure e"
    using assms(1) by (simp add: answers_def)
  then show ?thesis
    using Inl lawful_s3D(4) [OF assms(2), of key raw c s e s'] assms(3) by (auto simp: put_applied_def)
next
  case (Inr u)
  then show ?thesis
    using lawful_s3D(3) [OF assms(2), of key raw c s u s'] assms(3) by simp
qed

lemma str_contains_Nil: "str_contains s []"
  by (cases s) simp_all

lemma str_contains_self: "str_contains (p @ s) p"
  by (cases p) (simp_all add: str_contains_Nil)

lemma conflict_phrase: "is_create_only_conflict (PublishOperation (CREATE_ONLY_CONFLICT_PHRASE @ s))"
  by (simp add: is_create_only_conflict_def str_contains_self)

text \<open>With a service that answers, an upload stores a new object or reports a conflict.\<close>

lemma answers_upload_file:
  assumes "answers s3 peek" "lawful_s3 s3 peek" "lf_read files source = Inr raw"
    "aws_upload_file s3 files key source CreateOnly s = (r, s')"
  shows "peek key s = None \<and> r = Inr () \<and> (\<exists>tag. peek key s' = Some (raw, tag)) \<and> (\<forall>j. j \<noteq> key \<longrightarrow> peek j s' = peek j s) \<or>
    peek key s \<noteq> None \<and> (\<exists>e. r = Inl e \<and> is_create_only_conflict e) \<and> (\<forall>j. peek j s' = peek j s)"
proof -
  obtain r1 where put: "s3_put_object s3 key raw PutIfNoneMatch s = (r1, s')"
    using assms(3,4) by (auto simp: aws_upload_file_def split: sum.splits prod.splits)
  show ?thesis
  proof (cases r1)
    case (Inl e)
    then show ?thesis
      using answers_put [OF assms(1,2) put] assms(3,4) put conflict_phrase
      by (auto simp: aws_upload_file_def condition_holds_def msg_def)
  next
    case (Inr u)
    then show ?thesis
      using answers_put [OF assms(1,2) put] assms(3,4) put
      by (auto simp: aws_upload_file_def condition_holds_def put_applied_def)
  qed
qed


lemma remote_matches_verified:
  assumes "answers s3 peek" "remote_matches sha256 peek manifest s name"
  shows "verify_remote_object sha256 (aws_publish_ops s3 files depth) (release_object_key manifest name) name manifest s = Inr ()"
  using assms(2) answers_read [OF assms(1), of "release_object_key manifest name" s]
  by (auto simp: remote_matches_def verify_remote_object_def aws_publish_ops_def ok_or_def Let_def)

lemma upload_object_answers:
  assumes "answers s3 peek" "lawful_s3 s3 peek" "local_matches sha256 (lf_read files) dir manifest"
    "resumable sha256 peek manifest json s" "name \<in> set (release_files_of manifest)"
  obtains s' where "upload_object sha256 (aws_publish_ops s3 files depth) dir manifest name s = (Inr (), s')"
    "adds_object peek (release_object_key manifest name) s s'"
proof -
  let ?key = "release_object_key manifest name"
  obtain raw where raw: "lf_read files (path_join dir name) = Inr raw"
    using assms(3,5) by (auto simp: local_matches_def)
  obtain r s' where up: "aws_upload_file s3 files ?key (path_join dir name) CreateOnly s = (r, s')"
    by fastforce
  have adds: "adds_object peek ?key s s'"
    by (rule aws_upload_file_adds(1) [OF assms(2) up])
  show thesis
  proof (cases r)
    case (Inr u)
    then show thesis
      using that adds up by (simp add: upload_object_def Let_def aws_publish_ops_def)
  next
    case (Inl e)
    then have e: "peek ?key s \<noteq> None" "is_create_only_conflict e" "peek ?key s' = peek ?key s"
      using answers_upload_file [OF assms(1,2) raw up] by auto
    then have "remote_matches sha256 peek manifest s' name"
      using assms(4,5) by (auto simp: resumable_def remote_matches_def)
    then have "verify_remote_object sha256 (aws_publish_ops s3 files depth) ?key name manifest s' = Inr ()"
      by (rule remote_matches_verified [OF assms(1)])
    then show thesis
      using that adds up Inl e(2) by (simp add: upload_object_def Let_def aws_publish_ops_def)
  qed
qed

text \<open>Adding a right object leaves the upload resumable.\<close>

lemma resumable_added:
  assumes "resumable sha256 peek manifest json s" "name \<in> set (release_files_of manifest)"
    "adds_object peek (release_object_key manifest name) s s'"
    "peek (release_object_key manifest name) s' = peek (release_object_key manifest name) s \<or> remote_matches sha256 peek manifest s' name"
  shows "resumable sha256 peek manifest json s'"
proof -
  have "peek (release_object_key manifest m) s' = None \<or> remote_matches sha256 peek manifest s' m"
    if "m \<in> set (release_files_of manifest)" for m
  proof (cases "release_object_key manifest m = release_object_key manifest name")
    case True
    then have "m = name"
      by (simp add: release_object_key_def msg_def)
    then show ?thesis
      using assms(1,4) that by (auto simp: resumable_def remote_matches_def)
  next
    case False
    then have "peek (release_object_key manifest m) s' = peek (release_object_key manifest m) s"
      using assms(3) by (simp add: adds_object_def)
    then show ?thesis
      using assms(1) that by (auto simp: resumable_def remote_matches_def)
  qed
  moreover have "peek (static_release_manifest_key (rm_release_id manifest)) s' = peek (static_release_manifest_key (rm_release_id manifest)) s"
    using assms(3) release_keys_distinct(1) [OF assms(2)] by (auto simp: adds_object_def)
  ultimately show ?thesis
    using assms(1) by (simp add: resumable_def)
qed

lemma upload_object_resumable:
  assumes "lawful_s3 s3 peek" "local_matches sha256 (lf_read files) dir manifest" "name \<in> set (release_files_of manifest)"
    "upload_object sha256 (aws_publish_ops s3 files depth) dir manifest name s = (r, s')"
    "resumable sha256 peek manifest json s"
  shows "resumable sha256 peek manifest json s'"
proof -
  let ?key = "release_object_key manifest name"
  obtain r1 where up: "aws_upload_file s3 files ?key (path_join dir name) CreateOnly s = (r1, s')"
    using assms(4) by (auto simp: upload_object_def Let_def aws_publish_ops_def split: sum.splits prod.splits)
  have "peek ?key s' = peek ?key s \<or> remote_matches sha256 peek manifest s' name"
    using aws_upload_file_cases [OF assms(1) up] assms(2,3) by (auto simp: remote_matches_def local_matches_def)
  then show ?thesis
    by (rule resumable_added [OF assms(5,3) upload_object_step(1) [OF assms(1-4)]])
qed

lemma upload_objects_resumable:
  assumes "lawful_s3 s3 peek" "local_matches sha256 (lf_read files) dir manifest" "set names \<subseteq> set (release_files_of manifest)"
    "\<And>n s. resumable sha256 peek manifest json s \<Longrightarrow> resumable sha256 peek manifest json (env n s)"
    "upload_objects env (upload_object sha256 (aws_publish_ops s3 files depth) dir manifest) n names s = (r, s')"
    "resumable sha256 peek manifest json s"
  shows "resumable sha256 peek manifest json s'"
  using assms(3,5,6)
proof (induction names arbitrary: n s)
  case (Cons name names)
  obtain r1 s1 where up: "upload_object sha256 (aws_publish_ops s3 files depth) dir manifest name (env n s) = (r1, s1)"
    by fastforce
  then have "resumable sha256 peek manifest json s1"
    using upload_object_resumable [OF assms(1,2) _ up] assms(4) Cons.prems(1,3) by auto
  then show ?case
    using Cons.IH Cons.prems(1,2) up by (auto split: sum.splits)
qed simp

lemma upload_release_resumable:
  assumes "lawful_s3 s3 peek" "local_matches sha256 (lf_read files) dir manifest"
    "lf_read files (path_join dir RELEASE_MANIFEST_FILE) = Inr json"
    "\<And>n s. resumable sha256 peek manifest json s \<Longrightarrow> resumable sha256 peek manifest json (env n s)"
    "upload_release env sha256 (aws_publish_ops s3 files depth) (lf_read files) dir manifest s = (r, s')"
    "resumable sha256 peek manifest json s"
  shows "resumable sha256 peek manifest json s'"
proof (cases "release_output_files (rm_turbo_version manifest)")
  case None
  then show ?thesis
    using assms(5,6) by (simp add: upload_release_def)
next
  case (Some names)
  let ?key = "static_release_manifest_key (rm_release_id manifest)"
  obtain r1 s1 where up: "upload_objects env (upload_object sha256 (aws_publish_ops s3 files depth) dir manifest) 0 names s = (r1, s1)"
    by fastforce
  have names: "set names \<subseteq> set (release_files_of manifest)"
    using Some by (simp add: release_files_of_def)
  have 1: "resumable sha256 peek manifest json s1"
    by (rule upload_objects_resumable [OF assms(1,2) names assms(4) up assms(6)])
  show ?thesis
  proof (cases r1)
    case (Inl e)
    then show ?thesis
      using assms(5) up Some 1 by (simp add: upload_release_def)
  next
    case (Inr u)
    let ?e = "env (length names) s1"
    have e: "resumable sha256 peek manifest json ?e"
      by (rule assms(4) [OF 1])
    obtain r2 where m: "aws_upload_file s3 files ?key (path_join dir RELEASE_MANIFEST_FILE) CreateOnly ?e = (r2, s')"
      using assms(3,5) up Some Inr
      by (auto simp: upload_release_def upload_manifest_def Let_def aws_publish_ops_def split: sum.splits prod.splits)
    have adds: "adds_object peek ?key ?e s'"
      by (rule aws_upload_file_adds(1) [OF assms(1) m])
    have "peek (release_object_key manifest n) s' = peek (release_object_key manifest n) ?e"
      if "n \<in> set (release_files_of manifest)" for n
      using adds release_keys_distinct(1) [OF that] by (simp add: adds_object_def)
    moreover have "peek ?key s' = peek ?key ?e \<or> (\<exists>tag. peek ?key s' = Some (json, tag))"
      using aws_upload_file_cases [OF assms(1) m] assms(3) by auto
    ultimately show ?thesis
      using e by (auto simp: resumable_def remote_matches_def)
  qed
qed

lemma upload_objects_answer:
  assumes "answers s3 peek" "lawful_s3 s3 peek" "local_matches sha256 (lf_read files) dir manifest"
    "set names \<subseteq> set (release_files_of manifest)" "resumable sha256 peek manifest json s"
  shows "\<exists>s'. upload_objects (\<lambda>_ s. s) (upload_object sha256 (aws_publish_ops s3 files depth) dir manifest) n names s = (Inr (), s') \<and>
    resumable sha256 peek manifest json s' \<and> objects_kept peek (release_keys manifest) s s' \<and>
    (\<forall>name \<in> set names. remote_matches sha256 peek manifest s' name)"
  using assms(4,5)
proof (induction names arbitrary: n s)
  case Nil
  then show ?case
    by (simp add: objects_kept_def)
next
  case (Cons name names)
  have name: "name \<in> set (release_files_of manifest)"
    using Cons.prems(1) by simp
  obtain s1 where up: "upload_object sha256 (aws_publish_ops s3 files depth) dir manifest name s = (Inr (), s1)"
    by (rule upload_object_answers [OF assms(1-3) Cons.prems(2) name])
  have 1: "resumable sha256 peek manifest json s1" "objects_kept peek (release_keys manifest) s s1"
      "remote_matches sha256 peek manifest s1 name"
    using upload_object_resumable [OF assms(2,3) name up Cons.prems(2)] upload_object_step [OF assms(2,3) name up]
      adds_object_kept by auto
  then obtain s' where s': "upload_objects (\<lambda>_ s. s) (upload_object sha256 (aws_publish_ops s3 files depth) dir manifest) (Suc n) names s1 = (Inr (), s')"
      "resumable sha256 peek manifest json s'" "objects_kept peek (release_keys manifest) s1 s'"
      "\<forall>name \<in> set names. remote_matches sha256 peek manifest s' name"
    using Cons.IH [of s1 "Suc n"] Cons.prems(1) by auto
  show ?case
    using up s' objects_kept_trans [OF 1(2) s'(3)] remote_matches_kept [OF s'(3) name 1(3)] by simp
qed

lemma upload_manifest_answers:
  assumes "answers s3 peek" "lawful_s3 s3 peek" "lf_read files (path_join dir RELEASE_MANIFEST_FILE) = Inr json"
    "resumable sha256 peek manifest json s" "remote_complete sha256 peek manifest s"
  shows "\<exists>s'. upload_manifest (aws_publish_ops s3 files depth) (lf_read files) dir manifest s = (Inr (), s') \<and>
    remote_complete sha256 peek manifest s' \<and> release_marked peek manifest s'"
proof -
  let ?key = "static_release_manifest_key (rm_release_id manifest)"
  obtain r s' where m: "aws_upload_file s3 files ?key (path_join dir RELEASE_MANIFEST_FILE) CreateOnly s = (r, s')"
    by fastforce
  have complete: "remote_complete sha256 peek manifest s'"
    by (rule remote_complete_kept [OF adds_object_kept [OF aws_upload_file_adds(1) [OF assms(2) m]] assms(5)])
  show ?thesis
  proof (cases r)
    case (Inr u)
    then have "\<exists>tag. peek ?key s' = Some (json, tag)"
      using answers_upload_file [OF assms(1-3) m] by auto
    then show ?thesis
      using complete m assms(3) Inr
      by (auto simp: upload_manifest_def aws_publish_ops_def Let_def release_marked_def)
  next
    case (Inl e)
    then have e: "peek ?key s \<noteq> None" "is_create_only_conflict e" "peek ?key s' = peek ?key s"
      using answers_upload_file [OF assms(1-3) m] by auto
    then obtain tag where "peek ?key s' = Some (json, tag)"
      using assms(4) by (auto simp: resumable_def)
    then show ?thesis
      using m assms(3) Inl e(2) answers_read [OF assms(1), of ?key s'] complete
      by (simp add: upload_manifest_def aws_publish_ops_def Let_def ok_or_def release_marked_def)
  qed
qed

lemma upload_release_answers:
  assumes "answers s3 peek" "lawful_s3 s3 peek" "local_matches sha256 (lf_read files) dir manifest"
    "lf_read files (path_join dir RELEASE_MANIFEST_FILE) = Inr json"
    "release_output_files (rm_turbo_version manifest) = Some names" "resumable sha256 peek manifest json s"
  shows "\<exists>s'. upload_release (\<lambda>_ s. s) sha256 (aws_publish_ops s3 files depth) (lf_read files) dir manifest s = (Inr (), s') \<and>
    remote_complete sha256 peek manifest s' \<and> release_marked peek manifest s'"
proof -
  have names: "release_files_of manifest = names"
    using assms(5) by (simp add: release_files_of_def)
  obtain s1 where up: "upload_objects (\<lambda>_ s. s) (upload_object sha256 (aws_publish_ops s3 files depth) dir manifest) 0 names s = (Inr (), s1)"
      "resumable sha256 peek manifest json s1" "\<forall>name \<in> set names. remote_matches sha256 peek manifest s1 name"
    using upload_objects_answer [OF assms(1-3) _ assms(6), of names depth 0] names by auto
  then have complete: "remote_complete sha256 peek manifest s1"
    using names by (simp add: remote_complete_def)
  show ?thesis
    using upload_manifest_answers [OF assms(1,2,4) up(2) complete, of depth] up(1) assms(5)
    by (auto simp: upload_release_def)
qed

text \<open>
  C40. An upload that was cut off can be repeated.  From a store where every object of
  the release is missing or right, an attempt that fails at any request, or whose answers are
  lost, or that runs beside other attempts, leaves the store in the same condition, and a later
  attempt against a service that answers succeeds and leaves the release complete and marked.
\<close>

theorem interrupted_upload_resumes:
  assumes "lawful_s3 faulty peek" "lawful_s3 s3 peek" "answers s3 peek"
    and "local_matches sha256 (lf_read files) dir manifest"
    and "lf_read files (path_join dir RELEASE_MANIFEST_FILE) = Inr json"
    and "release_output_files (rm_turbo_version manifest) = Some names"
    and "\<And>n s. resumable sha256 peek manifest json s \<Longrightarrow> resumable sha256 peek manifest json (env n s)"
    and "resumable sha256 peek manifest json s"
    and "upload_release env sha256 (aws_publish_ops faulty files 1) (lf_read files) dir manifest s = (r, s1)"
  shows "resumable sha256 peek manifest json s1 \<and>
    (\<exists>s2. upload_release (\<lambda>_ s. s) sha256 (aws_publish_ops s3 files 1) (lf_read files) dir manifest s1 = (Inr (), s2) \<and>
       remote_complete sha256 peek manifest s2 \<and> release_marked peek manifest s2)"
proof -
  have 1: "resumable sha256 peek manifest json s1"
    by (rule upload_release_resumable [OF assms(1,4,5,7,9,8)])
  then show ?thesis
    using upload_release_answers [OF assms(3,2,4,5,6) 1] by blast
qed


section \<open>Instances\<close>

text \<open>
  A store that answers a number of write requests; after that an answer is lost, before or after
  the write happened.
\<close>

type_synonym demo_objects = "(string \<Rightarrow> (string \<times> string) option) \<times> nat"

definition demo_peek :: "demo_objects object_view" where
  "demo_peek key s = fst s key"

definition demo_s3 :: "bool \<Rightarrow> bool \<Rightarrow> demo_objects s3_client" where
  "demo_s3 reliable applies =
     \<lparr> s3_get_object = (\<lambda>key (m, n). case m key of
           None \<Rightarrow> Inl \<lparr> se_code = Some ''NoSuchKey'', se_status = Some 404, se_text = ''no such key'' \<rparr>
         | Some (raw, tag) \<Rightarrow> Inr \<lparr> so_etag = Some tag, so_body = Inr raw \<rparr>),
       s3_put_object = (\<lambda>key raw c (m, n).
         if \<not> condition_holds c (m key)
         then (Inl \<lparr> se_code = Some ''PreconditionFailed'', se_status = Some 412, se_text = ''precondition'' \<rparr>, (m, n))
         else if n = 0 \<and> \<not> reliable
         then (Inl \<lparr> se_code = None, se_status = None, se_text = ''timeout'' \<rparr>,
               (if applies then m(key \<mapsto> (raw, raw)) else m, n))
         else (Inr (), (m(key \<mapsto> (raw, raw)), n - 1))) \<rparr>"

lemma demo_s3_lawful: "lawful_s3 (demo_s3 reliable applies) demo_peek"
  by (auto simp: lawful_s3_def demo_s3_def demo_peek_def put_applied_def is_missing_object_error_def
      is_precondition_failure_def split: option.splits if_splits sum.splits)

lemma demo_s3_answers: "answers (demo_s3 True applies) demo_peek"
  by (auto simp: answers_def demo_s3_def demo_peek_def is_missing_object_error_def is_precondition_failure_def
      split: option.splits)

definition demo_activation_env :: "demo_objects activation_env" where
  "demo_activation_env = \<lparr> ae_s3 = (\<lambda>_. demo_s3 False True), ae_others = (\<lambda>_ s. s),
     ae_parse_head = (\<lambda>raw. Inr (static_release_head_new raw 1700000000001)), ae_print_head = sh_release_id,
     ae_now = 1700000000001 \<rparr>"

lemma demo_bucket: "resolve_bucket (Some ''bucket'') None = Inr ''bucket''"
  by code_simp

lemma activation_exposes_complete_release_witness:
  "\<exists>manifest f' r s'.
     run_activation (demo_verify manifest) flat_os (flat_mapper f') f' demo_activation_env (Some ''bucket'') None
       (''/r/live'', None, Some 512) (Map.empty, 4) = Some (r, s') \<and>
     release_safe (re_sha256 demo_env) demo_peek (ae_parse_head demo_activation_env) manifest s'"
proof (rule demo_verified)
  fix manifest f'
  assume v: "verify_release_dir (demo_verify manifest) flat_os (flat_mapper f') ''/r/live'' None (Some 512) f' = Some (Inr manifest)"
  have l: "lawful_s3 (ae_s3 demo_activation_env ''bucket'') demo_peek"
    by (simp add: demo_activation_env_def demo_s3_lawful)
  have o: "others_respect (ae_others demo_activation_env) (vp_sha256 (demo_verify manifest)) demo_peek
      (ae_parse_head demo_activation_env) manifest"
    by (simp add: others_respect_def objects_kept_def demo_activation_env_def)
  have e: "release_safe (vp_sha256 (demo_verify manifest)) demo_peek (ae_parse_head demo_activation_env) manifest (Map.empty, 4)"
    by (simp add: release_safe_def release_marked_def release_active_def demo_peek_def)
  obtain r s' where run: "run_activation (demo_verify manifest) flat_os (flat_mapper f') f' demo_activation_env (Some ''bucket'') None
      (''/r/live'', None, Some 512) (Map.empty, 4) = Some (r, s')"
  proof -
    assume *: "\<And>r s'. run_activation (demo_verify manifest) flat_os (flat_mapper f') f' demo_activation_env (Some ''bucket'') None
      (''/r/live'', None, Some 512) (Map.empty, 4) = Some (r, s') \<Longrightarrow> thesis"
    have "run_activation (demo_verify manifest) flat_os (flat_mapper f') f' demo_activation_env (Some ''bucket'') None
      (''/r/live'', None, Some 512) (Map.empty, 4) \<noteq> None"
      using v demo_bucket by (simp add: run_activation_def del: not_None_eq)
    then show thesis
      using * by auto
  qed
  have "vp_sha256 (demo_verify manifest) = re_sha256 demo_env"
    by (simp add: demo_verify_def)
  then have "release_safe (re_sha256 demo_env) demo_peek (ae_parse_head demo_activation_env) manifest s'"
    using activation_exposes_complete_release [OF v demo_bucket l o e run] by simp
  then show ?thesis
    using run by blast
qed

text \<open>The attempt is cut off at its fifth write, whose answer is lost.\<close>

lemma interrupted_upload_resumes_witness:
  "\<exists>manifest f' s2.
     verify_release_dir (demo_verify manifest) flat_os (flat_mapper f') ''/r/live'' None (Some 512) f' = Some (Inr manifest) \<and>
     upload_release (\<lambda>_ s. s) (re_sha256 demo_env)
       (aws_publish_ops (demo_s3 True True) (local_files_of (demo_verify manifest) flat_os f') 1)
       (lf_read (local_files_of (demo_verify manifest) flat_os f')) ''/r/live'' manifest
       (snd (upload_release (\<lambda>_ s. s) (re_sha256 demo_env)
         (aws_publish_ops (demo_s3 False True) (local_files_of (demo_verify manifest) flat_os f') 1)
         (lf_read (local_files_of (demo_verify manifest) flat_os f')) ''/r/live'' manifest (Map.empty, 4))) = (Inr (), s2) \<and>
     remote_complete (re_sha256 demo_env) demo_peek manifest s2"
proof (rule demo_verified)
  fix manifest f'
  assume v: "verify_release_dir (demo_verify manifest) flat_os (flat_mapper f') ''/r/live'' None (Some 512) f' = Some (Inr manifest)"
  let ?files = "local_files_of (demo_verify manifest) flat_os f'"
  obtain v4 m where "verified_release (demo_verify manifest) flat_os (flat_mapper f') ''/r/live'' None (Some 512) f' manifest v4 m"
    using v unfolding verify_release_dir_ok_iff by blast
  then obtain json names where j: "lf_read ?files (path_join ''/r/live'' RELEASE_MANIFEST_FILE) = Inr json"
      and n: "release_output_files (rm_turbo_version manifest) = Some names"
    by (auto simp: verified_release_def local_files_of_def)
  have sha: "vp_sha256 (demo_verify manifest) = re_sha256 demo_env"
    by (simp add: demo_verify_def)
  have r: "resumable (re_sha256 demo_env) demo_peek manifest json (Map.empty, 4)"
    by (simp add: resumable_def demo_peek_def)
  show ?thesis
    using interrupted_upload_resumes [OF demo_s3_lawful demo_s3_lawful demo_s3_answers
        verified_local_matches [OF v, unfolded sha] j n _ r prod.collapse [symmetric], of "\<lambda>_ s. s" False True] v
    by blast
qed

end
