(* ===== verification/Static_Source.thy ===== *)
theory Static_Source
  imports S3_Release
begin

text \<open>
  Where a static corpus comes from (\<^verbatim>\<open>src/index/lance_source.rs\<close>, \<^verbatim>\<open>src/index/static_source.rs\<close>) and
  the commands that build it (\<^verbatim>\<open>src/app.rs\<close>, \<^verbatim>\<open>src/bin/turbo_index_builder.rs\<close>).  A pinned
  version of a LanceDB table, or files of JSON lines, become chunks and embeddings for the builders.
  LanceDB, the JSON parsers and the bucket are arguments.
\<close>


section \<open>A snapshot of a LanceDB table\<close>

definition LANCE_TABLE_NAME :: string where "LANCE_TABLE_NAME = ''documents''"
definition DOC_ID_COLUMN :: string where "DOC_ID_COLUMN = ''doc_id''"
definition TEXT_COLUMN :: string where "TEXT_COLUMN = ''text''"
definition METADATA_COLUMN :: string where "METADATA_COLUMN = ''metadata''"
definition EMBEDDING_COLUMN :: string where "EMBEDDING_COLUMN = ''embedding''"
definition SUPPORTED_DIM :: u32 where "SUPPORTED_DIM = 512"

record lance_source_config =
  lc_dataset_path :: string
  lc_table_version :: u64
  lc_corpus_type :: corpus_type
  lc_profile :: embedding_profile

record lance_snapshot =
  lsn_chunks :: "static_chunk list"
  lsn_embeddings :: "f32 list list"
  lsn_table_version :: u64
  lsn_row_count :: u64

text \<open>
  The columns of a record batch, by row.  A cell of a list column is null, a list of numbers with
  a count of its null coordinates (which have some value in the buffer), or of another type.
\<close>

datatype list_cell = NullCell | FloatCell "f32 list" nat | OtherCell

datatype lance_column =
    Utf8Column "nat \<Rightarrow> string"
  | FixedSizeListColumn "nat \<Rightarrow> list_cell"
  | OtherColumn

record lance_batch =
  lb_rows :: nat
  lb_column :: "string \<Rightarrow> lance_column option"

text \<open>
  LanceDB, the JSON parser, and the order in which the hash map of a row's metadata is
  iterated over.
\<close>

record lance_port =
  lp_connect :: "string \<Rightarrow> string + unit"
  lp_open_table :: "string \<Rightarrow> string \<Rightarrow> string + unit"
  lp_checkout :: "string \<Rightarrow> u64 \<Rightarrow> string + unit"
  lp_execute :: "string \<Rightarrow> u64 \<Rightarrow> string + unit"
  lp_batches :: "string \<Rightarrow> u64 \<Rightarrow> string + lance_batch list"
  lp_version :: "string \<Rightarrow> u64 \<Rightarrow> string + u64"
  lp_json :: "string \<Rightarrow> string + json"
  lp_hash_order :: "string \<Rightarrow> metadata \<Rightarrow> metadata"

definition single_quoted :: "string \<Rightarrow> string" where
  "single_quoted s = [CHR 0x27] @ s @ [CHR 0x27]"

definition downcast_string :: "lance_batch \<Rightarrow> string \<Rightarrow> index_error + (nat \<Rightarrow> string)" where
  "downcast_string batch column =
     (case lb_column batch column of
        None \<Rightarrow> Inl (IndexOperation (msg [''Lance scan missing '', single_quoted column, '' column'']))
      | Some (Utf8Column f) \<Rightarrow> Inr f
      | Some _ \<Rightarrow> Inl (IndexOperation (msg [''Lance column '', single_quoted column, '' is not Utf8''])))"

definition downcast_fixed_size_list :: "lance_batch \<Rightarrow> string \<Rightarrow> index_error + (nat \<Rightarrow> list_cell)" where
  "downcast_fixed_size_list batch column =
     (case lb_column batch column of
        None \<Rightarrow> Inl (IndexOperation (msg [''Lance scan missing '', single_quoted column, '' column'']))
      | Some (FixedSizeListColumn f) \<Rightarrow> Inr f
      | Some _ \<Rightarrow> Inl (IndexOperation (msg [''Lance column '', single_quoted column, '' is not a FixedSizeList''])))"

definition parse_metadata_object :: "lance_port \<Rightarrow> string \<Rightarrow> string \<Rightarrow> index_error + metadata" where
  "parse_metadata_object port raw doc =
     (case lp_json port raw of
        Inl e \<Rightarrow> Inl (IndexOperation (msg [''Lance row '', doc, '' has non-JSON metadata: '', e]))
      | Inr (JObject m) \<Rightarrow> Inr (lp_hash_order port doc m)
      | Inr _ \<Rightarrow> Inl (IndexOperation (msg [''Lance row '', doc, '' metadata is not a JSON object''])))"

fun decode_embedding :: "list_cell \<Rightarrow> nat \<Rightarrow> string \<Rightarrow> index_error + f32 list" where
  "decode_embedding NullCell expected_dim doc = Inl (IndexOperation (msg [''Lance row '', doc, '' has a null embedding'']))"
| "decode_embedding OtherCell expected_dim doc = Inl (IndexOperation (msg [''Lance row '', doc, '' embedding is not Float32'']))"
| "decode_embedding (FloatCell values null_count) expected_dim doc =
     (if length values \<noteq> expected_dim
      then Inl (IndexOperation (msg [''Lance row '', doc, '' embedding dim '', show_nat (length values),
             '' does not match expected '', show_nat expected_dim]))
      else if null_count > 0
      then Inl (IndexOperation (msg [''Lance row '', doc, '' embedding contains a null coordinate'']))
      else if \<not> list_all f32_is_finite values
      then Inl (IndexOperation (msg [''Lance row '', doc, '' embedding contains a non-finite value'']))
      else Inr values)"

fun lance_row ::
  "lance_port \<Rightarrow> lance_source_config \<Rightarrow> string \<times> string \<times> string \<times> list_cell \<Rightarrow> index_error + static_chunk \<times> f32 list" where
  "lance_row port cfg (doc, text, raw, cell) =
     (if doc = [] then Inl (IndexOperation ''Lance row has empty doc_id'')
      else if text = [] then Inl (IndexOperation (msg [''Lance row '', doc, '' has empty text'']))
      else
        and_then (parse_metadata_object port raw doc) (\<lambda>parsed.
        and_then (decode_embedding cell (unat (ep_dim (lc_profile cfg))) doc) (\<lambda>embedding.
          Inr (\<lparr> sc_doc_id = doc, sc_text = text, sc_metadata = parsed, sc_corpus_type = lc_corpus_type cfg \<rparr>, embedding))))"

definition lance_batch_rows ::
  "lance_port \<Rightarrow> lance_source_config \<Rightarrow> lance_batch \<Rightarrow> index_error + (static_chunk \<times> f32 list) list" where
  "lance_batch_rows port cfg batch =
     and_then (downcast_string batch DOC_ID_COLUMN) (\<lambda>docs.
     and_then (downcast_string batch TEXT_COLUMN) (\<lambda>texts.
     and_then (downcast_string batch METADATA_COLUMN) (\<lambda>metadata.
     and_then (downcast_fixed_size_list batch EMBEDDING_COLUMN) (\<lambda>embeddings.
       try_map (\<lambda>row. lance_row port cfg (docs row, texts row, metadata row, embeddings row)) [0..<lb_rows batch]))))"

definition op_err :: "string list \<Rightarrow> string + 'a \<Rightarrow> index_error + 'a" where
  "op_err what = map_err (\<lambda>e. IndexOperation (msg what @ e))"

definition by_doc_id :: "static_chunk \<times> f32 list \<Rightarrow> static_chunk \<times> f32 list \<Rightarrow> ordering" where
  "by_doc_id a b = cmp_ord (sc_doc_id (fst a)) (sc_doc_id (fst b))"

definition load_lance_snapshot :: "lance_port \<Rightarrow> lance_source_config \<Rightarrow> index_error + lance_snapshot" where
  "load_lance_snapshot port cfg =
     (let path = lc_dataset_path cfg; version = lc_table_version cfg; declared = ep_dim (lc_profile cfg)
      in if declared \<noteq> SUPPORTED_DIM
         then Inl (IndexOperation (msg [''lance snapshot only supports '', show_nat (unat SUPPORTED_DIM),
                ''-dim embeddings, profile declared '', show_nat (unat declared)]))
         else
           and_then (op_err [''failed to connect Lance dataset at '', path, '': ''] (lp_connect port path)) (\<lambda>_.
           and_then (op_err [''failed to open Lance table '', single_quoted LANCE_TABLE_NAME, '' at '', path, '': '']
               (lp_open_table port path LANCE_TABLE_NAME)) (\<lambda>_.
           and_then (op_err [''failed to checkout Lance table version '', show_u64 version, '' at '', path, '': '']
               (lp_checkout port path version)) (\<lambda>_.
           and_then (op_err [''failed to execute full-table scan on Lance table at '', path, '': '']
               (lp_execute port path version)) (\<lambda>_.
           and_then (op_err [''failed to collect Lance scan batches at '', path, '': ''] (lp_batches port path version)) (\<lambda>batches.
           and_then (try_map (lance_batch_rows port cfg) batches) (\<lambda>per_batch.
             let rows = sort_by by_doc_id (concat per_batch)
             in map_ok (\<lambda>actual. \<lparr> lsn_chunks = map fst rows, lsn_embeddings = map snd rows, lsn_table_version = actual,
                    lsn_row_count = of_nat (length rows) \<rparr>)
                  (op_err [''failed to read Lance table version at '', path, '': ''] (lp_version port path version)))))))))"


section \<open>Files of JSON lines\<close>

record static_source_config =
  ssc_bucket :: string
  ssc_key :: string
  ssc_corpus_type :: corpus_type

record static_source_line =
  ssl_doc_id :: string
  ssl_text :: string
  ssl_metadata :: metadata

text \<open>\<open>utf8_error\<close> and \<open>parse\<close> are the standard library's message and the parser of a line.\<close>

definition parse_static_source_lines ::
  "(string \<Rightarrow> string) \<Rightarrow> (string \<Rightarrow> string + static_source_line) \<Rightarrow> string \<Rightarrow> corpus_type \<Rightarrow> string \<Rightarrow>
     index_error + static_chunk list" where
  "parse_static_source_lines utf8_error parse contents corpus origin =
     (if \<not> utf8_valid contents
      then Inl (IndexOperation (msg [''static source '', origin, '' was not valid utf-8: '', utf8_error contents]))
      else
        try_map (\<lambda>(line_number, line).
            map_err (\<lambda>e. IndexOperation (msg [''failed to parse static source line '', show_nat (line_number + 1), '' from '',
                origin, '': '', e]))
              (map_ok (\<lambda>l. \<lparr> sc_doc_id = ssl_doc_id l, sc_text = ssl_text l, sc_metadata = ssl_metadata l,
                  sc_corpus_type = corpus \<rparr>) (parse line)))
          (filter (\<lambda>(line_number, line). str_trim line \<noteq> []) (enumerate 0 (str_lines contents))))"

definition source_uri :: "static_source_config \<Rightarrow> string" where
  "source_uri source = msg [''s3://'', ssc_bucket source, ''/'', ssc_key source]"

text \<open>\<open>get n\<close> answers the request for the \<open>n\<close>-th source: an error, or a body that may break off.\<close>

definition load_source_chunks ::
  "(string \<Rightarrow> string) \<Rightarrow> (string \<Rightarrow> string + static_source_line) \<Rightarrow> (nat \<Rightarrow> string \<Rightarrow> string \<Rightarrow> string + (string + string)) \<Rightarrow>
     nat \<times> static_source_config \<Rightarrow> index_error + static_chunk list" where
  "load_source_chunks utf8_error parse get = (\<lambda>(n, source).
     and_then (op_err [''failed to load static source '', source_uri source, '': ''] (get n (ssc_bucket source) (ssc_key source)))
       (\<lambda>body.
     and_then (op_err [''failed to read static source body '', source_uri source, '': ''] body) (\<lambda>contents.
       parse_static_source_lines utf8_error parse contents (ssc_corpus_type source) (source_uri source))))"

definition load_static_chunks_from_s3 ::
  "(string \<Rightarrow> string) \<Rightarrow> (string \<Rightarrow> string + static_source_line) \<Rightarrow> (nat \<Rightarrow> string \<Rightarrow> string \<Rightarrow> string + (string + string)) \<Rightarrow>
     static_source_config list \<Rightarrow> index_error + static_chunk list" where
  "load_static_chunks_from_s3 utf8_error parse get sources =
     map_ok concat (try_map (load_source_chunks utf8_error parse get) (enumerate 0 sources))"


section \<open>The commands\<close>

record build_args =
  ba_config :: "string option"
  ba_output :: "string option"

fun parse_build_flags :: "build_args \<Rightarrow> string list \<Rightarrow> string + build_args" where
  "parse_build_flags acc [] = Inr acc"
| "parse_build_flags acc (flag # rest) =
     (if flag = ''--config'' \<or> flag = ''--output''
      then
        (case rest of
           [] \<Rightarrow> Inl (''missing value for '' @ flag)
         | value # rest' \<Rightarrow>
             if flag = ''--config'' then parse_build_flags (acc\<lparr>ba_config := Some value\<rparr>) rest'
             else parse_build_flags (acc\<lparr>ba_output := Some value\<rparr>) rest')
      else Inl (''unknown argument: '' @ flag))"

definition parse_static_build_args :: "string list \<Rightarrow> string + string \<times> string" where
  "parse_static_build_args args =
     and_then (parse_build_flags \<lparr> ba_config = None, ba_output = None \<rparr> args) (\<lambda>acc.
     and_then (ok_or ''missing required --config'' (ba_config acc)) (\<lambda>config.
     and_then (ok_or ''missing required --output'' (ba_output acc)) (\<lambda>output. Inr (config, output))))"

definition parse_turbo_args :: "string list \<Rightarrow> string + string \<times> string" where
  "parse_turbo_args args = parse_static_build_args (drop 1 args)"

definition double_quoted :: "string \<Rightarrow> string" where
  "double_quoted s = [CHR 0x22] @ s @ [CHR 0x22]"

text \<open>\<open>parse\<close> is the JSON parser of the configuration file.\<close>

definition parse_static_build_config ::
  "(string \<Rightarrow> string) \<Rightarrow> (string \<Rightarrow> string + lance_source_config \<times> string option) \<Rightarrow> string \<Rightarrow>
     string + lance_source_config \<times> static_release_format" where
  "parse_static_build_config quoted parse text =
     and_then (parse text) (\<lambda>(source, release_format).
       map_ok (Pair source)
         (case release_format of
            None \<Rightarrow> Inr FormatV3
          | Some name \<Rightarrow> ok_or (msg [''release_format must be '', double_quoted ''v3'', '' or '', double_quoted ''v4'',
                '', got '', quoted name]) (format_from_name name)))"

definition built_message :: "release_manifest \<Rightarrow> string \<Rightarrow> string" where
  "built_message manifest output =
     msg [''built static release '', rm_release_id manifest, '' (format v'', show_nat (unat (rm_turbo_version manifest)),
       '', '', show_u64 (fp_doc_count (rm_fingerprint manifest)), '' records, dim='', show_nat (unat (ep_dim (rm_profile manifest))),
       '') into '', output]"

text \<open>\<open>read\<close> reads the configuration file.\<close>

definition run_static_build ::
  "release_ports \<Rightarrow> 'f os_ops \<Rightarrow> lance_port \<Rightarrow> (string \<Rightarrow> string + string) \<Rightarrow>
     (string \<Rightarrow> string + lance_source_config \<times> string option) \<Rightarrow> string list \<Rightarrow> 'f \<Rightarrow> ((string + string) \<times> 'f) option" where
  "run_static_build ports os port read parse args fs =
     (case and_then (parse_static_build_args args) (\<lambda>(config_path, output).
           and_then (map_err (\<lambda>e. msg [''failed to read '', config_path, '': '', e]) (read config_path)) (\<lambda>text.
           and_then (map_err (\<lambda>e. msg [''failed to parse '', config_path, '': '', e])
               (parse_static_build_config (rp_quoted ports) parse text)) (\<lambda>(config, fmt).
             map_ok (\<lambda>snapshot. (output, config, fmt, snapshot))
               (map_err show_index_error (load_lance_snapshot port config))))) of
        Inl e \<Rightarrow> Some (Inl e, fs)
      | Inr (output, config, fmt, snapshot) \<Rightarrow>
          map_option (\<lambda>(built, fs1). (map_ok (\<lambda>manifest. built_message manifest output) (map_err show_index_error built), fs1))
            (build_release ports os fmt output (lsn_chunks snapshot) (lsn_embeddings snapshot) (lc_profile config)
              \<lparr> rs_kind = ''lance'', rs_dataset_path = lc_dataset_path config, rs_table_version = lsn_table_version snapshot,
                rs_table_row_count = lsn_row_count snapshot, rs_corpus_type = lc_corpus_type config \<rparr> fs))"

definition TURBO_FILES :: "string list" where
  "TURBO_FILES = [''centroids.bin'', ''projection.bin'', ''turbo_static.bin'', ''turbo_static_meta.bin'',
     ''turbo_static_text.bin'', ''turbo_static_title.bin'']"

text \<open>
  The version 2 builder on files of JSON lines.  \<open>generator\<close> is the configured embedding model, or why
  there is none; \<open>size_of\<close> is the size of a file, \<open>elapsed\<close> the time in the message.
\<close>

definition run_turbo_builder ::
  "release_ports \<Rightarrow> 'f os_ops \<Rightarrow> (string \<Rightarrow> string) \<Rightarrow> (string \<Rightarrow> string + static_source_line) \<Rightarrow>
     (nat \<Rightarrow> string \<Rightarrow> string \<Rightarrow> string + (string + string)) \<Rightarrow> (string \<Rightarrow> string + string) \<Rightarrow>
     (string \<Rightarrow> string + static_source_config list) \<Rightarrow> string + (string \<Rightarrow> string + f32 list) \<Rightarrow>
     (string \<Rightarrow> 'f \<Rightarrow> u64 option) \<Rightarrow> string \<Rightarrow> string \<times> string \<Rightarrow> 'f \<Rightarrow> ((string + string) \<times> 'f) option" where
  "run_turbo_builder ports os utf8_error parse_line get read parse generator size_of elapsed = (\<lambda>(config_path, output) fs.
     case and_then (map_err (\<lambda>e. msg [''failed to read '', config_path, '': '', e]) (read config_path)) (\<lambda>text.
          and_then (map_err (\<lambda>e. msg [''failed to parse '', config_path, '': '', e]) (parse text)) (\<lambda>sources.
          and_then (map_err show_index_error (load_static_chunks_from_s3 utf8_error parse_line get sources)) (\<lambda>docs.
            map_ok (Pair docs) generator))) of
       Inl e \<Rightarrow> Some (Inl e, fs)
     | Inr (docs, generate) \<Rightarrow>
         map_option (\<lambda>(built, fs1).
             (map_ok (\<lambda>result. msg [''built '', show_u64 (sr_record_count result), '' static records (dim='',
                    show_nat (unat (sr_embedding_dim result)), '') in '', elapsed, '', total '',
                    show_u64 (sum_list (List.map_filter (\<lambda>name. size_of (path_join output name) fs1) TURBO_FILES)), '' bytes''])
                (map_err show_index_error built), fs1))
           (build_static ports os generate output docs (replicate (length docs) None) fs))"


section \<open>The order of a scan does not matter\<close>

text \<open>The rows of a batch, whatever its columns are.\<close>

definition text_at :: "lance_batch \<Rightarrow> string \<Rightarrow> nat \<Rightarrow> string" where
  "text_at batch column i = (case lb_column batch column of Some (Utf8Column f) \<Rightarrow> f i | _ \<Rightarrow> [])"

definition list_at :: "lance_batch \<Rightarrow> string \<Rightarrow> nat \<Rightarrow> list_cell" where
  "list_at batch column i = (case lb_column batch column of Some (FixedSizeListColumn f) \<Rightarrow> f i | _ \<Rightarrow> OtherCell)"

definition batch_scan :: "lance_batch \<Rightarrow> (string \<times> string \<times> string \<times> list_cell) list" where
  "batch_scan batch =
     map (\<lambda>i. (text_at batch DOC_ID_COLUMN i, text_at batch TEXT_COLUMN i, text_at batch METADATA_COLUMN i,
        list_at batch EMBEDDING_COLUMN i)) [0..<lb_rows batch]"

definition scan_rows :: "lance_batch list \<Rightarrow> (string \<times> string \<times> string \<times> list_cell) list" where
  "scan_rows batches = concat (map batch_scan batches)"

definition lance_schema :: "lance_batch \<Rightarrow> bool" where
  "lance_schema batch \<longleftrightarrow>
     (\<exists>docs texts metadata embeddings.
        lb_column batch DOC_ID_COLUMN = Some (Utf8Column docs) \<and> lb_column batch TEXT_COLUMN = Some (Utf8Column texts) \<and>
        lb_column batch METADATA_COLUMN = Some (Utf8Column metadata) \<and>
        lb_column batch EMBEDDING_COLUMN = Some (FixedSizeListColumn embeddings))"

text \<open>Two answers to a scan: the same rows, in any order and in any batches.\<close>

definition same_scan :: "lance_batch list \<Rightarrow> lance_batch list \<Rightarrow> bool" where
  "same_scan batches batches' \<longleftrightarrow>
     (\<forall>batch \<in> set batches'. lance_schema batch) \<and> mset (scan_rows batches') = mset (scan_rows batches)"

text \<open>Chunks that differ at most in the order of their metadata.\<close>

definition same_chunk :: "static_chunk \<Rightarrow> static_chunk \<Rightarrow> bool" where
  "same_chunk c c' \<longleftrightarrow>
     sc_doc_id c = sc_doc_id c' \<and> sc_text c = sc_text c' \<and> sc_corpus_type c = sc_corpus_type c' \<and>
     hm_ok (sc_metadata c) \<and> hm_ok (sc_metadata c') \<and> mset (sc_metadata c) = mset (sc_metadata c')"

definition same_rows :: "(static_chunk \<times> f32 list) list \<Rightarrow> (static_chunk \<times> f32 list) list \<Rightarrow> bool" where
  "same_rows xs ys \<longleftrightarrow> list_all2 (\<lambda>(c, e) (c', e'). same_chunk c c' \<and> e = e') xs ys"

lemma downcast_string_iff: "downcast_string batch column = Inr f \<longleftrightarrow> lb_column batch column = Some (Utf8Column f)"
  by (auto simp: downcast_string_def split: option.splits lance_column.splits)

lemma downcast_list_iff: "downcast_fixed_size_list batch column = Inr f \<longleftrightarrow> lb_column batch column = Some (FixedSizeListColumn f)"
  by (auto simp: downcast_fixed_size_list_def split: option.splits lance_column.splits)

lemma try_map_projr: "try_map f xs = Inr ys \<longleftrightarrow> (\<forall>x \<in> set xs. is_ok (f x)) \<and> ys = map (projr \<circ> f) xs"
proof (induction xs arbitrary: ys)
  case (Cons x xs)
  then show ?case
    by (cases "f x") (auto simp: result_simps)
qed auto

lemma lance_batch_rows_iff:
  "lance_batch_rows port cfg batch = Inr rows \<longleftrightarrow>
     lance_schema batch \<and> try_map (lance_row port cfg) (batch_scan batch) = Inr rows"
proof -
  have map_arg: "try_map (\<lambda>i. f (g i)) xs = try_map f (map g xs)" for f :: "'a \<Rightarrow> 'b + 'c" and g :: "'d \<Rightarrow> 'a" and xs
    by (induction xs) simp_all
  have "try_map (\<lambda>i. lance_row port cfg (docs i, texts i, metadata i, embeddings i)) [0..<lb_rows batch] =
      try_map (lance_row port cfg) (batch_scan batch)"
    if "lb_column batch DOC_ID_COLUMN = Some (Utf8Column docs)" "lb_column batch TEXT_COLUMN = Some (Utf8Column texts)"
      "lb_column batch METADATA_COLUMN = Some (Utf8Column metadata)"
      "lb_column batch EMBEDDING_COLUMN = Some (FixedSizeListColumn embeddings)"
    for docs texts metadata embeddings
    using that unfolding batch_scan_def map_arg [symmetric] by (simp add: text_at_def list_at_def)
  then show ?thesis
    by (auto simp: lance_batch_rows_def lance_schema_def and_then_Inr_iff downcast_string_iff downcast_list_iff)
qed

lemma batches_rows_iff:
  "(\<exists>per_batch. try_map (lance_batch_rows port cfg) batches = Inr per_batch \<and> rows = concat per_batch) \<longleftrightarrow>
     (\<forall>batch \<in> set batches. lance_schema batch) \<and> try_map (lance_row port cfg) (scan_rows batches) = Inr rows"
proof -
  have ok: "is_ok (lance_batch_rows port cfg b) \<longleftrightarrow> lance_schema b \<and> (\<forall>x \<in> set (batch_scan b). is_ok (lance_row port cfg x))" for b
    unfolding is_ok_iff [of "lance_batch_rows port cfg b"] lance_batch_rows_iff try_map_projr by blast
  have rows: "projr (lance_batch_rows port cfg b) = map (projr \<circ> lance_row port cfg) (batch_scan b)"
    if good: "is_ok (lance_batch_rows port cfg b)" for b
  proof -
    obtain r where "lance_batch_rows port cfg b = Inr r"
      using good by (auto simp: is_ok_iff)
    then show ?thesis
      using lance_batch_rows_iff [of port cfg b r] by (simp add: try_map_projr)
  qed
  have "concat (map (projr \<circ> lance_batch_rows port cfg) bs) = map (projr \<circ> lance_row port cfg) (scan_rows bs)"
    if "\<forall>b \<in> set bs. is_ok (lance_batch_rows port cfg b)" for bs
    using that by (induction bs) (simp_all add: scan_rows_def rows)
  then show ?thesis
    unfolding try_map_projr by (auto simp: ok scan_rows_def)
qed

lemma load_lance_snapshot_iff:
  "load_lance_snapshot port cfg = Inr snapshot \<longleftrightarrow>
     (let path = lc_dataset_path cfg; version = lc_table_version cfg
      in ep_dim (lc_profile cfg) = SUPPORTED_DIM \<and> lp_connect port path = Inr () \<and> lp_open_table port path LANCE_TABLE_NAME = Inr () \<and>
         lp_checkout port path version = Inr () \<and> lp_execute port path version = Inr () \<and>
         (\<exists>batches rows. lp_batches port path version = Inr batches \<and> (\<forall>batch \<in> set batches. lance_schema batch) \<and>
            try_map (lance_row port cfg) (scan_rows batches) = Inr rows \<and>
            lp_version port path version = Inr (lsn_table_version snapshot) \<and>
            lsn_chunks snapshot = map fst (sort_by by_doc_id rows) \<and> lsn_embeddings snapshot = map snd (sort_by by_doc_id rows) \<and>
            lsn_row_count snapshot = of_nat (length rows)))"
  unfolding load_lance_snapshot_def Let_def op_err_def batches_rows_iff [of port cfg, symmetric] conj_assoc [symmetric]
  by (cases snapshot) (auto simp: result_simps)

text \<open>The image is made of what chunks agree on.\<close>

interpretation metadata_order: key_comparator "\<lambda>a b :: string \<times> json. cmp_ord (fst a) (fst b)" fst
  by unfold_locales (rule refl)

interpretation row_order: key_comparator by_doc_id "\<lambda>r. sc_doc_id (fst r)"
  by unfold_locales (rule by_doc_id_def)

lemma same_metadata:
  assumes "same_chunk c c'"
  shows "hm_get (sc_metadata c) k = hm_get (sc_metadata c') k"
    "canonical_metadata_json env (sc_metadata c) = canonical_metadata_json env (sc_metadata c')"
proof -
  have ok: "hm_ok (sc_metadata c)" "hm_ok (sc_metadata c')" and same: "mset (sc_metadata c) = mset (sc_metadata c')"
    using assms by (simp_all add: same_chunk_def)
  have entries: "set (sc_metadata c) = set (sc_metadata c')"
    using same by (metis set_mset_mset)
  show "hm_get (sc_metadata c) k = hm_get (sc_metadata c') k"
    using hm_get_eq_Some_iff [OF ok(1)] hm_get_eq_Some_iff [OF ok(2)] entries by (metis option.exhaust)
  have inj: "inj_on fst (set (sc_metadata c))"
    using ok(1) by (simp add: hm_ok_def distinct_map)
  show "canonical_metadata_json env (sc_metadata c) = canonical_metadata_json env (sc_metadata c')"
    unfolding canonical_metadata_json_def metadata_order.sort_by_perm [OF same inj] by (rule refl)
qed

lemma same_title: "same_chunk c c' \<Longrightarrow> title_bytes c = title_bytes c'"
  using same_metadata(1) [of c c'] by (simp add: title_bytes_def chunk_title_def)

lemma append_same_chunk:
  assumes "same_chunk c c'"
  shows "append_chunk quoted env codec im (c, e) = append_chunk quoted env codec im (c', e)"
proof -
  have "sc_doc_id c = sc_doc_id c'" "sc_text c = sc_text c'" "sc_corpus_type c = sc_corpus_type c'"
    using assms by (simp_all add: same_chunk_def)
  then show ?thesis
    by (simp add: append_chunk_def chunk_meta_def chunk_meta_ext_def same_title [OF assms] same_metadata(2) [OF assms] Let_def)
qed

lemma append_same_rows: "same_rows xs ys \<Longrightarrow> append_chunks quoted env codec im xs = append_chunks quoted env codec im ys"
  unfolding same_rows_def
proof (induction arbitrary: im rule: list_all2_induct)
  case (Cons x xs y ys)
  then have "append_chunk quoted env codec im x = append_chunk quoted env codec im y" for im
    by (auto split: prod.splits intro: append_same_chunk)
  then show ?case
    using Cons by simp
qed simp

lemma same_rows_ids: "same_rows xs ys \<Longrightarrow> map (sc_doc_id \<circ> fst) xs = map (sc_doc_id \<circ> fst) ys"
  unfolding same_rows_def by (induction rule: list_all2_induct) (auto simp: same_chunk_def)

lemma same_rows_embeddings: "same_rows xs ys \<Longrightarrow> map snd xs = map snd ys"
  unfolding same_rows_def by (induction rule: list_all2_induct) auto

lemma same_release_image:
  assumes "same_rows xs ys"
  shows "release_image quoted env fmt (map fst xs) (map snd xs) n = release_image quoted env fmt (map fst ys) (map snd ys) n"
proof -
  have len: "length xs = length ys"
    using assms by (simp add: same_rows_def list_all2_lengthD)
  have ids: "map sc_doc_id (map fst xs) = map sc_doc_id (map fst ys)"
    using same_rows_ids [OF assms] by simp
  have checks: "try_all (check_embedding n) xs = try_all (check_embedding n) ys"
    using assms unfolding same_rows_def
    by (induction rule: list_all2_induct) (auto simp: check_embedding_def same_chunk_def)
  have dups: "detect_duplicates seen cs = detect_duplicates seen ds" if "map sc_doc_id cs = map sc_doc_id ds" for seen cs ds
    using that
  proof (induction cs arbitrary: seen ds)
    case (Cons c cs)
    then show ?case
      by (cases ds) auto
  qed simp
  have hashes: "map (\<lambda>c. (sc_doc_id c, stable_hash_doc_id (sc_doc_id c))) cs = map (\<lambda>d. (d, stable_hash_doc_id d)) (map sc_doc_id cs)" for cs
    by simp
  have "check_release_input fmt (map fst xs) (map snd xs) n = check_release_input fmt (map fst ys) (map snd ys) n"
    using len unfolding check_release_input_def detect_duplicate_doc_ids_def hashes dups [OF ids] ids zip_map_fst_snd checks
    by (simp del: map_map) (metis length_0_conv)
  then show ?thesis
    unfolding release_image_def zip_map_fst_snd using len append_same_rows [OF assms] by (simp add: zip_map_fst_snd)
qed

lemma same_release:
  assumes "same_rows xs ys"
  shows "build_release ports os fmt out (map fst xs) (map snd xs) profile source fs =
    build_release ports os fmt out (map fst ys) (map snd ys) profile source fs"
proof -
  have "length (map fst xs) = length (map fst ys)"
    using assms by (simp add: same_rows_def list_all2_lengthD)
  note sizes = this
  show ?thesis
    unfolding build_release_def same_release_image [OF assms] sizes by (rule refl)
qed

lemma sort_key_map: "(\<And>x. x \<in> set xs \<Longrightarrow> k (g x) = h x) \<Longrightarrow> sort_key k (map g xs) = map g (sort_key h xs)"
proof (induction xs)
  case (Cons x xs)
  have "insort_key k (g x) (map g ys) = map g (insort_key h x ys)" if "set ys \<subseteq> set xs" for ys
    using that Cons.prems by (induction ys) auto
  then show ?case
    using Cons by simp
qed simp

text \<open>A row decodes alike whatever the order of its metadata.\<close>

definition keeps_entries :: "lance_port \<Rightarrow> bool" where
  "keeps_entries port \<longleftrightarrow>
     (\<forall>doc m. mset (lp_hash_order port doc m) = mset m) \<and> (\<forall>raw m. lp_json port raw = Inr (JObject m) \<longrightarrow> hm_ok m)"

lemma hm_ok_perm: "mset a = mset b \<Longrightarrow> hm_ok b \<Longrightarrow> hm_ok a"
  unfolding hm_ok_def by (metis mset_eq_imp_distinct_iff mset_map)

lemma lance_row_same:
  assumes "lance_row port cfg row = Inr (c, e)" and "keeps_entries port" "keeps_entries port'" "lp_json port' = lp_json port"
  shows "\<exists>c'. lance_row port' cfg row = Inr (c', e) \<and> same_chunk c c' \<and> sc_doc_id c = fst row"
proof -
  obtain doc words raw cell where row: "row = (doc, words, raw, cell)"
    by (cases row) auto
  obtain m where m: "lp_json port raw = Inr (JObject m)" and c: "sc_metadata c = lp_hash_order port doc m"
    using assms(1) unfolding row by (auto simp: parse_metadata_object_def and_then_Inr_iff split: sum.splits json.splits if_splits)
  have ok: "hm_ok m" "mset (lp_hash_order port doc m) = mset m" "mset (lp_hash_order port' doc m) = mset m"
    using assms(2,3) m by (auto simp: keeps_entries_def)
  then have "hm_ok (lp_hash_order port doc m)" "hm_ok (lp_hash_order port' doc m)"
    using hm_ok_perm by blast+
  then show ?thesis
    using assms(1,4) m c ok unfolding row
    by (auto simp: parse_metadata_object_def and_then_Inr_iff same_chunk_def split: if_splits)
qed

lemma lance_rows_same:
  assumes decoded: "try_map (lance_row port cfg) xs = Inr rows" and "keeps_entries port" "keeps_entries port'" "lp_json port' = lp_json port"
    and distinct: "distinct (map (sc_doc_id \<circ> fst) rows)" and perm: "mset xs' = mset xs"
  shows "\<exists>rows'. try_map (lance_row port' cfg) xs' = Inr rows' \<and> same_rows (sort_by by_doc_id rows) (sort_by by_doc_id rows')"
proof -
  let ?g = "projr \<circ> lance_row port cfg" and ?g' = "projr \<circ> lance_row port' cfg"
  have rows: "rows = map ?g xs" and ok: "\<forall>x \<in> set xs. is_ok (lance_row port cfg x)"
    using decoded by (auto simp: try_map_projr)
  have same: "is_ok (lance_row port' cfg x) \<and> sc_doc_id (fst (?g x)) = fst x \<and> sc_doc_id (fst (?g' x)) = fst x \<and>
      (\<lambda>(c, e) (c', e'). same_chunk c c' \<and> e = e') (?g x) (?g' x)" if x: "x \<in> set xs" for x
  proof -
    have "is_ok (lance_row port cfg x)"
      using ok x by blast
    then obtain c e where run: "lance_row port cfg x = Inr (c, e)"
      by (cases "lance_row port cfg x") auto
    then obtain c' where "lance_row port' cfg x = Inr (c', e)" "same_chunk c c'" "sc_doc_id c = fst x"
      using lance_row_same [OF run assms(2-4)] by blast
    then show ?thesis
      using run by (auto simp: same_chunk_def)
  qed
  have sets: "set xs' = set xs"
    using perm by (metis set_mset_mset)
  have "inj_on fst (set xs)" "distinct xs"
    using distinct same unfolding rows by (auto simp: distinct_map inj_on_def)
  then have "sort_key fst xs' = sort_key fst xs"
    using perm sets by (intro sort_key_inj_key_eq) auto
  then have "sort_by by_doc_id rows = map ?g (sort_key fst xs)" "sort_by by_doc_id (map ?g' xs') = map ?g' (sort_key fst xs)"
    unfolding row_order.sort_by_sort_key rows using sort_key_map [of xs "\<lambda>r. sc_doc_id (fst r)" ?g fst]
      sort_key_map [of xs' "\<lambda>r. sc_doc_id (fst r)" ?g' fst] same sets by auto
  moreover have "list_all2 (\<lambda>(c, e) (c', e'). same_chunk c c' \<and> e = e') (map ?g ys) (map ?g' ys)" if "set ys \<subseteq> set xs" for ys
    using that same by (induction ys) auto
  ultimately have "same_rows (sort_by by_doc_id rows) (sort_by by_doc_id (map ?g' xs'))"
    by (simp add: same_rows_def)
  moreover have "try_map (lance_row port' cfg) xs' = Inr (map ?g' xs')"
    using same sets by (simp add: try_map_projr)
  ultimately show ?thesis
    by blast
qed

text \<open>What a successful run did.\<close>

lemma run_static_build_ok:
  assumes "run_static_build ports os port read parse args fs = Some (Inr text, fs')"
  obtains out cfg fmt snapshot manifest where
    "\<forall>port'. run_static_build ports os port' read parse args fs =
       (case load_lance_snapshot port' cfg of
          Inl e \<Rightarrow> Some (Inl (show_index_error e), fs)
        | Inr snapshot \<Rightarrow>
            map_option (\<lambda>(built, fs1). (map_ok (\<lambda>manifest. built_message manifest out) (map_err show_index_error built), fs1))
              (build_release ports os fmt out (lsn_chunks snapshot) (lsn_embeddings snapshot) (lc_profile cfg)
                \<lparr> rs_kind = ''lance'', rs_dataset_path = lc_dataset_path cfg, rs_table_version = lsn_table_version snapshot,
                  rs_table_row_count = lsn_row_count snapshot, rs_corpus_type = lc_corpus_type cfg \<rparr> fs))"
    "load_lance_snapshot port cfg = Inr snapshot"
    "build_release ports os fmt out (lsn_chunks snapshot) (lsn_embeddings snapshot) (lc_profile cfg)
       \<lparr> rs_kind = ''lance'', rs_dataset_path = lc_dataset_path cfg, rs_table_version = lsn_table_version snapshot,
         rs_table_row_count = lsn_row_count snapshot, rs_corpus_type = lc_corpus_type cfg \<rparr> fs = Some (Inr manifest, fs')"
    "text = built_message manifest out"
proof -
  obtain config out where 1: "parse_static_build_args args = Inr (config, out)"
    using assms by (cases "parse_static_build_args args") (auto simp: run_static_build_def)
  obtain contents where 2: "read config = Inr contents"
    using assms 1 by (cases "read config") (auto simp: run_static_build_def)
  obtain cfg fmt where 3: "parse_static_build_config (rp_quoted ports) parse contents = Inr (cfg, fmt)"
    using assms 1 2 by (cases "parse_static_build_config (rp_quoted ports) parse contents") (auto simp: run_static_build_def)
  have run: "run_static_build ports os port' read parse args fs =
       (case load_lance_snapshot port' cfg of
          Inl e \<Rightarrow> Some (Inl (show_index_error e), fs)
        | Inr snapshot \<Rightarrow>
            map_option (\<lambda>(built, fs1). (map_ok (\<lambda>manifest. built_message manifest out) (map_err show_index_error built), fs1))
              (build_release ports os fmt out (lsn_chunks snapshot) (lsn_embeddings snapshot) (lc_profile cfg)
                \<lparr> rs_kind = ''lance'', rs_dataset_path = lc_dataset_path cfg, rs_table_version = lsn_table_version snapshot,
                  rs_table_row_count = lsn_row_count snapshot, rs_corpus_type = lc_corpus_type cfg \<rparr> fs))" for port'
    using 1 2 3 by (auto simp: run_static_build_def split: sum.splits)
  show ?thesis
  proof (cases "load_lance_snapshot port cfg")
    case (Inl e)
    then show ?thesis
      using assms run [of port] by simp
  next
    case (Inr snapshot)
    then show ?thesis
      using assms run [of port] that [OF _ Inr] run by (auto simp: result_simps)
  qed
qed

lemma release_ids_distinct:
  assumes "build_release ports os fmt out docs embeddings profile source fs = Some (Inr manifest, fs')"
  shows "distinct (map sc_doc_id docs)"
proof -
  have "check_release_input fmt docs embeddings (ep_dim profile) = Inr ()"
    using assms by (cases "check_release_input fmt docs embeddings (ep_dim profile)")
      (auto simp: build_release_def release_image_def panic_then_def)
  then show ?thesis
    by (simp add: check_release_input_ok_iff)
qed

text \<open>
  C29. A static build does not depend on the order of a scan.  When a build from a
  pinned table version succeeds, a build from an answer with the same rows in any order and any
  batches, with any iteration order of the metadata's hash maps, writes the same files and
  prints the same release: rows are sorted by document id, duplicates are refused, and metadata is
  canonical.
\<close>

theorem static_build_ignores_scan_order:
  assumes "run_static_build ports os port read parse args fs = Some (Inr text, fs')"
    and "\<forall>path version batches. lp_batches port path version = Inr batches \<longrightarrow>
      (\<exists>batches'. scan path version = Inr batches' \<and> same_scan batches batches')"
    and "keeps_entries port" "\<forall>doc m. mset (order doc m) = mset m"
  shows "run_static_build ports os (port\<lparr> lp_batches := scan, lp_hash_order := order \<rparr>) read parse args fs = Some (Inr text, fs')"
proof -
  let ?port = "port\<lparr> lp_batches := scan, lp_hash_order := order \<rparr>"
  obtain out cfg fmt snapshot manifest where run: "\<forall>port'. run_static_build ports os port' read parse args fs =
       (case load_lance_snapshot port' cfg of
          Inl e \<Rightarrow> Some (Inl (show_index_error e), fs)
        | Inr snapshot \<Rightarrow>
            map_option (\<lambda>(built, fs1). (map_ok (\<lambda>manifest. built_message manifest out) (map_err show_index_error built), fs1))
              (build_release ports os fmt out (lsn_chunks snapshot) (lsn_embeddings snapshot) (lc_profile cfg)
                \<lparr> rs_kind = ''lance'', rs_dataset_path = lc_dataset_path cfg, rs_table_version = lsn_table_version snapshot,
                  rs_table_row_count = lsn_row_count snapshot, rs_corpus_type = lc_corpus_type cfg \<rparr> fs))"
    and loaded: "load_lance_snapshot port cfg = Inr snapshot"
    and built: "build_release ports os fmt out (lsn_chunks snapshot) (lsn_embeddings snapshot) (lc_profile cfg)
       \<lparr> rs_kind = ''lance'', rs_dataset_path = lc_dataset_path cfg, rs_table_version = lsn_table_version snapshot,
         rs_table_row_count = lsn_row_count snapshot, rs_corpus_type = lc_corpus_type cfg \<rparr> fs = Some (Inr manifest, fs')"
    and printed: "text = built_message manifest out"
    by (rule run_static_build_ok [OF assms(1)])
  obtain batches rows where scanned: "lp_batches port (lc_dataset_path cfg) (lc_table_version cfg) = Inr batches"
      "try_map (lance_row port cfg) (scan_rows batches) = Inr rows"
    and parts: "lsn_chunks snapshot = map fst (sort_by by_doc_id rows)" "lsn_embeddings snapshot = map snd (sort_by by_doc_id rows)"
      "lsn_row_count snapshot = of_nat (length rows)"
    using loaded by (auto simp: load_lance_snapshot_iff Let_def)
  obtain batches' where scan': "scan (lc_dataset_path cfg) (lc_table_version cfg) = Inr batches'" "same_scan batches batches'"
    using assms(2) scanned(1) by blast
  have "distinct (map sc_doc_id (lsn_chunks snapshot))"
    by (rule release_ids_distinct [OF built])
  then have "distinct (map (sc_doc_id \<circ> fst) (sort_by by_doc_id rows))"
    unfolding parts(1) map_map .
  moreover have "mset (map (sc_doc_id \<circ> fst) (sort_by by_doc_id rows)) = mset (map (sc_doc_id \<circ> fst) rows)"
    by (simp only: mset_map mset_sort_by)
  ultimately have distinct: "distinct (map (sc_doc_id \<circ> fst) rows)"
    using mset_eq_imp_distinct_iff by blast
  have "keeps_entries ?port" "lp_json ?port = lp_json port"
    using assms(3,4) by (simp_all add: keeps_entries_def)
  then obtain rows' where rows': "try_map (lance_row ?port cfg) (scan_rows batches') = Inr rows'"
      "same_rows (sort_by by_doc_id rows) (sort_by by_doc_id rows')"
    using lance_rows_same [OF scanned(2) assms(3) _ _ distinct, of ?port "scan_rows batches'"] scan'(2)
    by (auto simp: same_scan_def)
  have count: "length rows' = length rows"
    using rows'(2) list_all2_lengthD unfolding same_rows_def by fastforce
  let ?snapshot = "snapshot\<lparr> lsn_chunks := map fst (sort_by by_doc_id rows'), lsn_embeddings := map snd (sort_by by_doc_id rows') \<rparr>"
  have "load_lance_snapshot ?port cfg = Inr ?snapshot"
    using loaded rows'(1) scan' count parts(3) scanned(2)
    by (auto simp: load_lance_snapshot_iff Let_def same_scan_def)
  moreover have "build_release ports os fmt out (lsn_chunks ?snapshot) (lsn_embeddings ?snapshot) (lc_profile cfg)
       \<lparr> rs_kind = ''lance'', rs_dataset_path = lc_dataset_path cfg, rs_table_version = lsn_table_version ?snapshot,
         rs_table_row_count = lsn_row_count ?snapshot, rs_corpus_type = lc_corpus_type cfg \<rparr> fs = Some (Inr manifest, fs')"
    using built unfolding parts(1,2) same_release [OF rows'(2)] by simp
  ultimately show ?thesis
    using run printed by simp
qed


section \<open>A run\<close>

text \<open>One row, in one batch or after an empty one.\<close>

definition law_batch :: "nat \<Rightarrow> lance_batch" where
  "law_batch n = \<lparr> lb_rows = n, lb_column = [DOC_ID_COLUMN \<mapsto> Utf8Column (\<lambda>i. ''law-1''), TEXT_COLUMN \<mapsto> Utf8Column (\<lambda>i. ''Article 1''),
     METADATA_COLUMN \<mapsto> Utf8Column (\<lambda>i. ''{}''), EMBEDDING_COLUMN \<mapsto> FixedSizeListColumn (\<lambda>i. FloatCell (replicate 512 f32_one) 0)] \<rparr>"

definition demo_lance :: lance_port where
  "demo_lance = \<lparr> lp_connect = (\<lambda>_. Inr ()), lp_open_table = (\<lambda>_ _. Inr ()), lp_checkout = (\<lambda>_ _. Inr ()), lp_execute = (\<lambda>_ _. Inr ()),
     lp_batches = (\<lambda>_ _. Inr [law_batch 1]), lp_version = (\<lambda>_ version. Inr version),
     lp_json = (\<lambda>_. Inr (JObject [(''title'', JString ''Civil Code'')])), lp_hash_order = (\<lambda>_ m. m) \<rparr>"

definition demo_lance_config :: lance_source_config where
  "demo_lance_config = \<lparr> lc_dataset_path = ''/data'', lc_table_version = 1, lc_corpus_type = Legal, lc_profile = demo_profile \<rparr>"

definition demo_build_args :: "string list" where
  "demo_build_args = [''--config'', ''c.json'', ''--output'', ''/r/live'']"

lemma law_batch_schema: "lance_schema (law_batch n)"
  by (simp add: lance_schema_def law_batch_def DOC_ID_COLUMN_def TEXT_COLUMN_def METADATA_COLUMN_def EMBEDDING_COLUMN_def)

lemma law_batch_scan:
  "batch_scan (law_batch n) = replicate n (''law-1'', ''Article 1'', ''{}'', FloatCell (replicate 512 f32_one) 0)"
  by (simp add: batch_scan_def law_batch_def text_at_def list_at_def DOC_ID_COLUMN_def TEXT_COLUMN_def METADATA_COLUMN_def
      EMBEDDING_COLUMN_def map_replicate_const)

lemma demo_snapshot:
  "load_lance_snapshot demo_lance demo_lance_config =
     Inr \<lparr> lsn_chunks = [law_chunk], lsn_embeddings = [replicate 512 f32_one], lsn_table_version = 1, lsn_row_count = 1 \<rparr>"
proof -
  have "list_all f32_is_finite (replicate 512 f32_one)"
    by (simp add: list_all_iff fl_eval f32_one_def)
  then have "lance_row demo_lance demo_lance_config (''law-1'', ''Article 1'', ''{}'', FloatCell (replicate 512 f32_one) 0) =
      Inr (law_chunk, replicate 512 f32_one)"
    by (simp add: parse_metadata_object_def demo_lance_def demo_lance_config_def demo_profile_def law_chunk_def)
  then show ?thesis
    unfolding load_lance_snapshot_iff
    by (simp add: Let_def scan_rows_def law_batch_scan law_batch_schema SUPPORTED_DIM_def demo_profile_def)
      (simp add: demo_lance_def demo_lance_config_def demo_profile_def scan_rows_def law_batch_scan law_batch_schema)
qed

lemma demo_lance_fields:
  "lc_profile demo_lance_config = demo_profile" "lc_dataset_path demo_lance_config = ''/data''"
  "lc_corpus_type demo_lance_config = Legal"
  by (simp_all add: demo_lance_config_def)

lemma static_build_ignores_scan_order_witness:
  "\<exists>text fs'. run_static_build demo_ports flat_os demo_lance (\<lambda>_. Inr []) (\<lambda>_. Inr (demo_lance_config, None)) demo_build_args
       (\<lambda>_. None) = Some (Inr text, fs') \<and>
     run_static_build demo_ports flat_os (demo_lance\<lparr> lp_batches := (\<lambda>_ _. Inr [law_batch 0, law_batch 1]), lp_hash_order := (\<lambda>_. rev) \<rparr>)
       (\<lambda>_. Inr []) (\<lambda>_. Inr (demo_lance_config, None)) demo_build_args (\<lambda>_. None) = Some (Inr text, fs')"
proof (rule demo_release_published)
  fix manifest f'
  assume b: "build_release demo_ports flat_os FormatV3 ''/r/live'' [law_chunk] [replicate 512 f32_one] demo_profile demo_source
       (\<lambda>_. None) = Some (Inr manifest, f')"
  have args: "parse_static_build_args demo_build_args = Inr (''c.json'', ''/r/live'')"
    by code_simp
  have run: "run_static_build demo_ports flat_os demo_lance (\<lambda>_. Inr []) (\<lambda>_. Inr (demo_lance_config, None)) demo_build_args
       (\<lambda>_. None) = Some (Inr (built_message manifest ''/r/live''), f')"
    using b unfolding run_static_build_def args
    by (simp add: parse_static_build_config_def demo_snapshot demo_lance_fields demo_source_def)
  have scans: "\<forall>path version batches. lp_batches demo_lance path version = Inr batches \<longrightarrow>
      (\<exists>batches'. (\<lambda>_ _. Inr [law_batch 0, law_batch 1]) path version = (Inr batches' :: string + _) \<and> same_scan batches batches')"
    by (simp add: demo_lance_def same_scan_def law_batch_schema scan_rows_def law_batch_scan)
  have keeps: "keeps_entries demo_lance" "\<forall>doc m. mset ((\<lambda>_. rev) doc m) = mset m"
    by (simp_all add: keeps_entries_def demo_lance_def hm_ok_def)
  show ?thesis
    using run static_build_ignores_scan_order [OF run scans keeps] by blast
qed

end
