(* ===== verification/Artifact_Sync.thy ===== *)
theory Artifact_Sync
  imports S3_Release
begin

text \<open>
  Downloading artifacts before queries (\<^verbatim>\<open>src/adapters/s3_artifact_sync.rs\<close>,
  \<^verbatim>\<open>src/local/noop_sync.rs\<close>): the batch of index and table objects, the pull of the active static
  release through a staging directory, the pointer written last.
\<close>


section \<open>Keys as paths\<close>

text \<open>\<^verbatim>\<open>Path::components\<close> on Unix: empty segments and inner dots disappear.\<close>

datatype path_component = RootDir | CurDir | ParentDir | NormalPart string

definition segment_component :: "string \<Rightarrow> path_component option" where
  "segment_component segment =
     (if segment = [] \<or> segment = ''.'' then None
      else if segment = ''..'' then Some ParentDir
      else Some (NormalPart segment))"

definition path_components :: "string \<Rightarrow> path_component list" where
  "path_components p =
     (let segments = split_on CHR ''/'' p
      in (if p \<noteq> [] \<and> hd p = CHR ''/'' then [RootDir] else if hd segments = ''.'' then [CurDir] else []) @
         List.map_filter segment_component segments)"

fun is_normal_part :: "path_component \<Rightarrow> bool" where
  "is_normal_part (NormalPart _) = True"
| "is_normal_part _ = False"

definition validate_object_key :: "string \<Rightarrow> string + unit" where
  "validate_object_key key =
     (let refused = Inl (''refusing S3 key with non-normal path component: '' @ key)
      in if key = [] then Inl ''refusing empty S3 key''
         else if \<not> list_all is_normal_part (path_components key) then refused
         else if ''.'' \<in> set (split_on CHR ''/'' key) then refused
         else Inr ())"


section \<open>Downloading a prefix\<close>

text \<open>Listing gives pages; the last one is not truncated, the others give the token of the next.\<close>

record list_page =
  lp_keys :: "string option list"
  lp_truncated :: "bool option"
  lp_next_token :: "string option"

record 's sync_client =
  sc_objects :: "'s s3_client"
  sc_list :: "string \<Rightarrow> string option \<Rightarrow> 's \<Rightarrow> s3_error + list_page"

text \<open>
  The surroundings of a download.  The bucket may change between two requests, so \<open>sy_store n\<close> is
  its state at request \<open>n\<close>.  \<open>sy_others\<close> is what other processes do to the files before the
  release is moved into place, the one moment at which the source looks at what they left.  The attempt is told by its process and number; the fuel bounds
  the pages of a listing.
\<close>

record ('s, 'f) sync_env =
  sy_client :: "'s sync_client"
  sy_os :: "'f os_ops"
  sy_store :: "nat \<Rightarrow> 's"
  sy_others :: "'f \<Rightarrow> 'f"
  sy_process :: nat
  sy_attempt :: nat
  sy_fuel :: nat
  sy_parse_head :: "string \<Rightarrow> string + static_release_head"

definition create_parent :: "'f os_ops \<Rightarrow> string \<Rightarrow> 'f \<Rightarrow> (string + unit) \<times> 'f" where
  "create_parent os path fs = (case path_parent path of None \<Rightarrow> (Inr (), fs) | Some parent \<Rightarrow> os_create_dir_all os parent fs)"

definition download_object ::
  "'s sync_client \<Rightarrow> (string \<Rightarrow> string + string) \<Rightarrow> string \<Rightarrow> 's \<Rightarrow> string + string \<times> string" where
  "download_object client destination_for key s =
     and_then (validate_object_key key) (\<lambda>_.
     and_then (map_err (\<lambda>e. msg [''failed to download '', key, '' from S3: '', se_text e])
       (s3_get_object (sc_objects client) key s)) (\<lambda>object.
     and_then (map_err (\<lambda>e. msg [''failed to read '', key, '' body from S3: '', e]) (so_body object)) (\<lambda>body.
     map_ok (\<lambda>destination. (destination, body)) (destination_for key))))"

definition sync_object ::
  "('s, 'f) sync_env \<Rightarrow> (string \<Rightarrow> string + string) \<Rightarrow> string \<Rightarrow> 's \<Rightarrow> 'f \<Rightarrow> (string + unit) \<times> 'f" where
  "sync_object env destination_for key s fs =
     (case download_object (sy_client env) destination_for key s of
        Inl e \<Rightarrow> (Inl e, fs)
      | Inr (destination, body) \<Rightarrow>
          (case create_parent (sy_os env) destination fs of
             (Inl e, fs1) \<Rightarrow> (Inl (''failed to create local artifact directories: '' @ e), fs1)
           | (Inr _, fs1) \<Rightarrow>
               map_prod (map_err (\<lambda>e. msg [''failed to write local artifact '', key, '': '', e])) id
                 (os_write (sy_os env) destination body fs1)))"

text \<open>The objects of a page; the result is the number of the next request.\<close>

definition is_directory_marker :: "string \<Rightarrow> bool" where
  "is_directory_marker key \<longleftrightarrow> key \<noteq> [] \<and> last key = CHR ''/''"

fun sync_contents ::
  "('s, 'f) sync_env \<Rightarrow> (string \<Rightarrow> string + string) \<Rightarrow> string option list \<Rightarrow> nat \<Rightarrow> 'f \<Rightarrow> (string + nat) \<times> 'f" where
  "sync_contents env destination_for [] n fs = (Inr n, fs)"
| "sync_contents env destination_for (None # objects) n fs = sync_contents env destination_for objects n fs"
| "sync_contents env destination_for (Some key # objects) n fs =
     (if is_directory_marker key then sync_contents env destination_for objects n fs
      else
        (case sync_object env destination_for key (sy_store env n) fs of
           (Inl e, fs1) \<Rightarrow> (Inl e, fs1)
         | (Inr _, fs1) \<Rightarrow> sync_contents env destination_for objects (Suc n) fs1))"

fun sync_pages ::
  "('s, 'f) sync_env \<Rightarrow> string \<Rightarrow> (string \<Rightarrow> string + string) \<Rightarrow> nat \<Rightarrow> string option \<Rightarrow> nat \<Rightarrow> 'f \<Rightarrow>
     ((string + nat) \<times> 'f) option" where
  "sync_pages env prefix_key destination_for 0 token n fs = None"
| "sync_pages env prefix_key destination_for (Suc fuel) token n fs =
     (case sc_list (sy_client env) prefix_key token (sy_store env n) of
        Inl e \<Rightarrow> Some (Inl (msg [''failed to list '', prefix_key, '' objects from S3: '', se_text e]), fs)
      | Inr page \<Rightarrow>
          (case sync_contents env destination_for (lp_keys page) (Suc n) fs of
             (Inl e, fs1) \<Rightarrow> Some (Inl e, fs1)
           | (Inr n1, fs1) \<Rightarrow>
               if lp_truncated page \<noteq> Some True then Some (Inr n1, fs1)
               else sync_pages env prefix_key destination_for fuel (lp_next_token page) n1 fs1))"

definition sync_prefix_to ::
  "('s, 'f) sync_env \<Rightarrow> string \<Rightarrow> (string \<Rightarrow> string + string) \<Rightarrow> nat \<Rightarrow> 'f \<Rightarrow> ((string + nat) \<times> 'f) option" where
  "sync_prefix_to env prefix_key destination_for n fs = sync_pages env prefix_key destination_for (sy_fuel env) None n fs"

definition sync_prefix :: "('s, 'f) sync_env \<Rightarrow> string \<Rightarrow> string \<Rightarrow> nat \<Rightarrow> 'f \<Rightarrow> ((string + nat) \<times> 'f) option" where
  "sync_prefix env artifact_root prefix_key n fs = sync_prefix_to env prefix_key (\<lambda>key. Inr (path_join artifact_root key)) n fs"


section \<open>The static release\<close>

definition release_prefix_key :: "string \<Rightarrow> string" where
  "release_prefix_key release_id = static_release_dir_key release_id @ ''/''"

definition staged_destination :: "string \<Rightarrow> string \<Rightarrow> string \<Rightarrow> string + string" where
  "staged_destination staging release_id key =
     map_ok (path_join staging)
       (ok_or (msg [''listed key '', key, '' does not start with requested prefix '', release_prefix_key release_id])
         (strip_prefix (release_prefix_key release_id) key))"

definition pull_staging_name :: "('s, 'f) sync_env \<Rightarrow> string \<Rightarrow> string" where
  "pull_staging_name env release_id =
     msg [''.'', release_id, ''-staging-'', show_nat (sy_process env), ''-'', show_nat (sy_attempt env)]"

definition promote_staging ::
  "('s, 'f) sync_env \<Rightarrow> string \<Rightarrow> string \<Rightarrow> string \<Rightarrow> 'f \<Rightarrow> (string + unit) \<times> 'f" where
  "promote_staging env release_id staging final_dir fs =
     (let os = sy_os env
      in if \<not> os_exists os (path_join staging RELEASE_MANIFEST_FILE) fs
         then (Inl (msg [''remote release '', release_id, '' is incomplete: no release manifest under '',
                 release_prefix_key release_id]), snd (os_remove_dir_all os staging fs))
         else
           (case os_rename os staging final_dir (sy_others env fs) of
              (Inr _, fs1) \<Rightarrow> (Inr (), fs1)
            | (Inl e, fs1) \<Rightarrow>
                if os_exists os (path_join final_dir RELEASE_MANIFEST_FILE) fs1
                then (Inr (), snd (os_remove_dir_all os staging fs1))
                else (Inl (msg [''failed to promote staged release '', staging, '' into '', final_dir, '': '', e]), fs1)))"

definition pull_release_via_staging ::
  "('s, 'f) sync_env \<Rightarrow> string \<Rightarrow> string \<Rightarrow> nat \<Rightarrow> 'f \<Rightarrow> ((string + unit) \<times> 'f) option" where
  "pull_release_via_staging env artifact_root release_id n fs =
     (let os = sy_os env; final_dir = path_join artifact_root (static_release_dir_key release_id)
      in case path_parent final_dir of
           None \<Rightarrow> Some (Inl (msg [''release dir '', final_dir, '' has no parent'']), fs)
         | Some releases_parent \<Rightarrow>
             (let staging = path_join releases_parent (pull_staging_name env release_id)
              in case os_create_dir_all os staging fs of
                   (Inl e, fs1) \<Rightarrow> Some (Inl (msg [''failed to create staging '', staging, '': '', e]), fs1)
                 | (Inr _, fs1) \<Rightarrow>
                     map_option (\<lambda>(r, fs2).
                       case r of
                         Inl e \<Rightarrow> (Inl e, snd (os_remove_dir_all os staging fs2))
                       | Inr _ \<Rightarrow> promote_staging env release_id staging final_dir fs2)
                       (sync_prefix_to env (release_prefix_key release_id) (staged_destination staging release_id) n fs1)))"

definition read_static_head :: "'s sync_client \<Rightarrow> 's \<Rightarrow> string + string option" where
  "read_static_head client s =
     (case s3_get_object (sc_objects client) STATIC_HEAD_KEY s of
        Inr object \<Rightarrow> map_ok Some (map_err (\<lambda>e. ''failed to read static/_head body from S3: '' @ e) (so_body object))
      | Inl e \<Rightarrow>
          if is_missing_object_error e then Inr None
          else Inl (''failed to load static/_head from S3: '' @ se_text e))"

definition write_local_head :: "('s, 'f) sync_env \<Rightarrow> string \<Rightarrow> string \<Rightarrow> 'f \<Rightarrow> (string + unit) \<times> 'f" where
  "write_local_head env artifact_root head_bytes fs =
     (let head_path = path_join artifact_root STATIC_HEAD_KEY
      in case create_parent (sy_os env) head_path fs of
           (Inl e, fs1) \<Rightarrow> (Inl (''failed to create local static directory: '' @ e), fs1)
         | (Inr _, fs1) \<Rightarrow>
             map_prod (map_err (\<lambda>e. ''failed to write local static/_head: '' @ e)) id
               (os_write (sy_os env) head_path head_bytes fs1))"

definition sync_static_release ::
  "('s, 'f) sync_env \<Rightarrow> string \<Rightarrow> nat \<Rightarrow> 'f \<Rightarrow> ((string + unit) \<times> 'f) option" where
  "sync_static_release env artifact_root n fs =
     (case read_static_head (sy_client env) (sy_store env n) of
        Inl e \<Rightarrow> Some (Inl e, fs)
      | Inr None \<Rightarrow> Some (Inr (), fs)
      | Inr (Some head_bytes) \<Rightarrow>
          (case static_release_head_from_json (sy_parse_head env) head_bytes of
             Inl e \<Rightarrow> Some (Inl (''remote static/_head is malformed: '' @ show_static_head_error e), fs)
           | Inr head \<Rightarrow>
               map_option (\<lambda>(r, fs1).
                 case r of
                   Inl e \<Rightarrow> (Inl e, fs1)
                 | Inr _ \<Rightarrow> write_local_head env artifact_root head_bytes fs1)
                 (if os_exists (sy_os env) (path_join artifact_root (static_release_manifest_key (sh_release_id head))) fs
                  then Some (Inr (), fs)
                  else pull_release_via_staging env artifact_root (sh_release_id head) (Suc n) fs)))"

definition synced_artifact_prefixes :: "string list" where
  "synced_artifact_prefixes = [''index/'', ''lance/'']"

fun sync_prefixes :: "('s, 'f) sync_env \<Rightarrow> string \<Rightarrow> string list \<Rightarrow> nat \<Rightarrow> 'f \<Rightarrow> ((string + nat) \<times> 'f) option" where
  "sync_prefixes env artifact_root [] n fs = Some (Inr n, fs)"
| "sync_prefixes env artifact_root (p # ps) n fs =
     (case sync_prefix env artifact_root p n fs of
        Some (Inr n1, fs1) \<Rightarrow> sync_prefixes env artifact_root ps n1 fs1
      | r \<Rightarrow> r)"

definition sync_artifacts :: "('s, 'f) sync_env \<Rightarrow> string \<Rightarrow> 'f \<Rightarrow> ((string + unit) \<times> 'f) option" where
  "sync_artifacts env artifact_root fs =
     (case os_create_dir_all (sy_os env) artifact_root fs of
        (Inl e, fs1) \<Rightarrow> Some (Inl (''failed to create query artifact root: '' @ e), fs1)
      | (Inr _, fs1) \<Rightarrow>
          (case sync_prefixes env artifact_root synced_artifact_prefixes 0 fs1 of
             None \<Rightarrow> None
           | Some (Inl e, fs2) \<Rightarrow> Some (Inl e, fs2)
           | Some (Inr n, fs2) \<Rightarrow> sync_static_release env artifact_root n fs2))"

text \<open>The local profile has nothing to download.\<close>

definition noop_sync :: "string \<Rightarrow> 'f \<Rightarrow> ((string + unit) \<times> 'f) option" where
  "noop_sync artifact_root fs = Some (Inr (), fs)"

text \<open>\<open>aws\<close> tells whether the feature is compiled in; without a bucket nothing is downloaded.\<close>

definition sync_artifacts_if_configured ::
  "bool \<Rightarrow> (string \<Rightarrow> string option) \<Rightarrow> (string \<Rightarrow> ('s, 'f) sync_env) \<Rightarrow> 'f \<Rightarrow> ((string + unit) \<times> 'f) option" where
  "sync_artifacts_if_configured aws vars env_of fs =
     (if aws then
        (case vars ''LTSEARCH_QUERY_S3_BUCKET'' of
           None \<Rightarrow> Some (Inr (), fs)
         | Some bucket \<Rightarrow>
             (case vars ''LTSEARCH_QUERY_ARTIFACT_ROOT'' of
                None \<Rightarrow> Some (Inl ''missing LTSEARCH_QUERY_ARTIFACT_ROOT'', fs)
              | Some artifact_root \<Rightarrow> sync_artifacts (env_of bucket) artifact_root fs))
      else noop_sync ''.'' fs)"


section \<open>Where a key leads\<close>

lemma split_on_not_Nil [simp]: "split_on d s \<noteq> []"
  by (induction s) (auto split: list.splits)

lemma split_on_append: "split_on d (a @ d # b) = split_on d a @ split_on d b"
  by (induction a) (auto split: list.splits)

lemma split_on_plain: "d \<notin> set s \<Longrightarrow> split_on d s = [s]"
  by (induction s) auto

lemma hd_split_on_append: "hd (split_on d (a @ d # b)) = hd (split_on d a)"
  by (simp add: split_on_append)

lemma last_split_on: "s \<noteq> [] \<Longrightarrow> last s \<noteq> d \<Longrightarrow> last (split_on d s) \<noteq> []"
proof (induction s)
  case (Cons c s)
  show ?case
  proof (cases "s = []")
    case False
    then have "last (split_on d s) \<noteq> []"
      using Cons by simp
    then show ?thesis
      by (cases "split_on d s") (auto split: if_splits)
  qed (use Cons in auto)
qed simp

lemma map_filter_append [simp]: "List.map_filter f (xs @ ys) = List.map_filter f xs @ List.map_filter f ys"
  by (simp add: List.map_filter_def)

text \<open>What the segments of a path add to it.\<close>

abbreviation (input) parts :: "string \<Rightarrow> path_component list" where
  "parts p \<equiv> List.map_filter segment_component (split_on CHR ''/'' p)"

lemma path_components_join:
  assumes "key \<noteq> []" "hd key \<noteq> CHR ''/''" "hd (split_on CHR ''/'' key) \<noteq> ''.''"
  shows "path_components (path_join base key) = path_components base @ parts key"
proof (cases "base = [] \<or> last base = CHR ''/''")
  case True
  show ?thesis
  proof (cases "base = []")
    case True
    then show ?thesis
      using assms by (simp add: path_join_def path_components_def segment_component_def)
  next
    case False
    then obtain b where b: "base = b @ [CHR ''/'']"
      using True by (metis append_butlast_last_id)
    have "path_join base key = b @ CHR ''/'' # key"
      using assms False True b by (simp add: path_join_def)
    then show ?thesis
      using b by (auto simp: path_components_def split_on_append segment_component_def hd_append Let_def List.map_filter_def)
  qed
next
  case False
  then have "path_join base key = base @ CHR ''/'' # key"
    using assms by (simp add: path_join_def)
  then show ?thesis
    using False by (simp add: path_components_def split_on_append Let_def hd_append)
qed

lemma path_components_parent:
  assumes "path_parent p = Some q" "segment_component (last (split_on CHR ''/'' p)) = Some c"
  shows "path_components p = path_components q @ [c]"
proof -
  define name where "name = rev (takeWhile (\<lambda>c. c \<noteq> CHR ''/'') (rev p))"
  define up where "up = rev (dropWhile (\<lambda>c. c \<noteq> CHR ''/'') (rev p))"
  have p: "p = up @ name"
    unfolding up_def name_def by (metis rev_append rev_rev_ident takeWhile_dropWhile_id)
  have plain: "CHR ''/'' \<notin> set name"
    using set_takeWhileD [of "CHR ''/''" "\<lambda>c. c \<noteq> CHR ''/''" "rev p"] by (auto simp: name_def)
  have q: "q = (if up = [] then [] else if up = ''/'' then ''/'' else butlast up)" "p \<noteq> []"
    using assms(1) unfolding path_parent_def up_def [symmetric] by (auto simp: Let_def split: if_splits)
  have "up = [] \<or> (\<exists>u. up = u @ [CHR ''/''])"
    unfolding up_def using hd_dropWhile [of "\<lambda>c. c \<noteq> CHR ''/''" "rev p"]
    by (cases "dropWhile (\<lambda>c. c \<noteq> CHR ''/'') (rev p)") auto
  then show ?thesis
  proof
    assume "up = []"
    then have "p = name" "q = []" "split_on CHR ''/'' p = [name]"
      using p q split_on_plain [OF plain] by auto
    moreover have "hd name \<noteq> CHR ''/''"
      using calculation(1) q(2) plain hd_in_set by metis
    ultimately show ?thesis
      using assms(2) q(2)
      by (auto simp: path_components_def segment_component_def Let_def List.map_filter_simps split: if_splits)
  next
    assume "\<exists>u. up = u @ [CHR ''/'']"
    then obtain u where u: "up = u @ [CHR ''/'']"
      by blast
    then have s: "split_on CHR ''/'' p = split_on CHR ''/'' u @ [name]"
      using p split_on_append split_on_plain [OF plain] by simp
    then have c: "segment_component name = Some c"
      using assms(2) by simp
    show ?thesis
    proof (cases "u = []")
      case True
      then show ?thesis
        using p q u s c
        by (simp add: path_components_def Let_def List.map_filter_simps) (simp add: segment_component_def List.map_filter_simps)
    next
      case False
      then have "q = u" "hd p = hd u" "p \<noteq> []"
        using p q u by (auto simp: hd_append)
      then show ?thesis
        using s c False by (simp add: path_components_def Let_def List.map_filter_def hd_append)
    qed
  qed
qed

text \<open>Paths at or below a directory: normal parts are added to it.\<close>

definition at_or_below :: "string \<Rightarrow> string \<Rightarrow> bool" where
  "at_or_below base p \<longleftrightarrow> (\<exists>names. path_components p = path_components base @ map NormalPart names)"

definition below :: "string \<Rightarrow> string \<Rightarrow> bool" where
  "below base p \<longleftrightarrow> (\<exists>names. names \<noteq> [] \<and> path_components p = path_components base @ map NormalPart names)"

lemma at_or_below_refl: "at_or_below base base"
  by (auto simp: at_or_below_def intro: exI [of _ "[]"])

lemma below_at_or_below: "below base p \<Longrightarrow> at_or_below base p"
  by (auto simp: below_def at_or_below_def)

lemma at_or_below_below: "at_or_below base p \<Longrightarrow> below p q \<Longrightarrow> below base q"
  unfolding at_or_below_def below_def by (elim exE conjE) (metis append.assoc append_is_Nil_conv map_append)

lemma at_or_below_trans: "at_or_below base p \<Longrightarrow> at_or_below p q \<Longrightarrow> at_or_below base q"
  unfolding at_or_below_def by (metis append.assoc map_append)

lemma normal_parts: "list_all is_normal_part cs \<Longrightarrow> \<exists>names. cs = map NormalPart names"
proof (induction cs)
  case (Cons c cs)
  then obtain names where "cs = map NormalPart names"
    by auto
  moreover obtain name where "c = NormalPart name"
    using Cons.prems by (cases c) auto
  ultimately show ?case
    by (metis list.simps(9))
qed simp

lemma valid_key:
  assumes "validate_object_key key = Inr ()"
  shows "key \<noteq> []" "hd key \<noteq> CHR ''/''" "hd (split_on CHR ''/'' key) \<noteq> ''.''" "''.'' \<notin> set (split_on CHR ''/'' key)"
    "list_all is_normal_part (parts key)" "parts key = path_components key"
  using assms by (auto simp: validate_object_key_def Let_def path_components_def split: if_splits)

lemma valid_key_name:
  assumes "validate_object_key key = Inr ()" "\<not> is_directory_marker key"
  shows "\<exists>name. segment_component (last (split_on CHR ''/'' key)) = Some (NormalPart name)"
proof -
  let ?s = "last (split_on CHR ''/'' key)"
  have "?s \<noteq> []"
    using assms valid_key(1) [OF assms(1)] last_split_on by (auto simp: is_directory_marker_def)
  moreover have mem: "?s \<in> set (split_on CHR ''/'' key)"
    by simp
  then have "?s \<noteq> ''.''"
    using valid_key(4) [OF assms(1)] by metis
  ultimately have some: "segment_component ?s \<noteq> None"
    by (simp add: segment_component_def)
  then obtain c where c: "segment_component ?s = Some c"
    by blast
  then have "c \<in> set (parts key)"
    using mem by (force simp: List.map_filter_def)
  then have "is_normal_part c"
    using valid_key(5) [OF assms(1)] by (auto simp: list_all_iff)
  then show ?thesis
    using c by (cases c) auto
qed

text \<open>A key that is accepted stays below the directory it is joined to.\<close>

lemma valid_key_below:
  assumes "validate_object_key key = Inr ()" "\<not> is_directory_marker key"
  shows "below base (path_join base key)" "path_parent (path_join base key) = Some q \<Longrightarrow> at_or_below base q"
proof -
  note key = valid_key [OF assms(1)]
  obtain name where name: "segment_component (last (split_on CHR ''/'' key)) = Some (NormalPart name)"
    using valid_key_name [OF assms] by blast
  obtain names where names: "parts key = map NormalPart names"
    using normal_parts [OF key(5)] by blast
  have "NormalPart name \<in> set (parts key)"
    using name last_in_set [of "split_on CHR ''/'' key"] by (force simp: List.map_filter_def)
  then have ne: "names \<noteq> []"
    using names by auto
  have join: "path_components (path_join base key) = path_components base @ map NormalPart names"
    using path_components_join [OF key(1-3)] names by simp
  then show "below base (path_join base key)"
    using ne by (auto simp: below_def)
  show "at_or_below base q" if parent: "path_parent (path_join base key) = Some q"
  proof -
    have "last (split_on CHR ''/'' (path_join base key)) = last (split_on CHR ''/'' key)"
    proof (cases "base = [] \<or> last base = CHR ''/''")
      case True
      show ?thesis
      proof (cases "base = []")
        case False
        then obtain b where "base = b @ [CHR ''/'']"
          using True by (metis append_butlast_last_id)
        then show ?thesis
          using key(2) by (simp add: path_join_def split_on_append)
      qed (use key(2) in \<open>simp add: path_join_def\<close>)
    qed (use key(2) in \<open>simp add: path_join_def split_on_append\<close>)
    then have "path_components (path_join base key) = path_components q @ [NormalPart name]"
      using path_components_parent [OF parent] name by simp
    then have "path_components q = path_components base @ map NormalPart (butlast names)"
      using join ne by (metis butlast_append butlast_snoc map_butlast map_is_Nil_conv)
    then show ?thesis
      unfolding at_or_below_def by blast
  qed
qed



section \<open>Nothing is written outside\<close>

text \<open>
  What holds of the files is kept by every call that creates, writes, moves or removes at or below
  the artifact directory.
\<close>

definition confined :: "'f os_ops \<Rightarrow> string \<Rightarrow> ('f \<Rightarrow> bool) \<Rightarrow> bool" where
  "confined os base I \<longleftrightarrow>
     (\<forall>p fs. at_or_below base p \<longrightarrow> I fs \<longrightarrow> I (snd (os_create_dir_all os p fs))) \<and>
     (\<forall>p raw fs. below base p \<longrightarrow> I fs \<longrightarrow> I (snd (os_write os p raw fs))) \<and>
     (\<forall>p q fs. below base p \<longrightarrow> below base q \<longrightarrow> I fs \<longrightarrow> I (snd (os_rename os p q fs))) \<and>
     (\<forall>p fs. below base p \<longrightarrow> I fs \<longrightarrow> I (snd (os_remove_dir_all os p fs)))"

lemma confinedD:
  assumes "confined os base I" "I fs"
  shows "at_or_below base p \<Longrightarrow> os_create_dir_all os p fs = (r, fs') \<Longrightarrow> I fs'"
    "below base p \<Longrightarrow> os_write os p raw fs = (r, fs') \<Longrightarrow> I fs'"
    "below base p \<Longrightarrow> below base q \<Longrightarrow> os_rename os p q fs = (r, fs') \<Longrightarrow> I fs'"
    "below base p \<Longrightarrow> I (snd (os_remove_dir_all os p fs))"
  using assms unfolding confined_def by (metis snd_conv)+

text \<open>A destination that stays inside: the file below, its directory at or below.\<close>

definition safe_destination :: "string \<Rightarrow> string \<Rightarrow> bool" where
  "safe_destination base p \<longleftrightarrow> below base p \<and> (\<forall>q. path_parent p = Some q \<longrightarrow> at_or_below base q)"

lemma valid_key_safe:
  "validate_object_key key = Inr () \<Longrightarrow> \<not> is_directory_marker key \<Longrightarrow> at_or_below base p \<Longrightarrow> safe_destination base (path_join p key)"
  using valid_key_below [of key p] at_or_below_below [of base p] at_or_below_trans [of base p] by (auto simp: safe_destination_def)

lemma create_parent_confined:
  assumes "confined os base I" "safe_destination base p" "I fs" "create_parent os p fs = (r, fs')"
  shows "I fs'"
  using assms confinedD(1) [OF assms(1,3)] by (auto simp: create_parent_def safe_destination_def split: option.splits)

lemma sync_object_confined:
  assumes os: "confined (sy_os env) base I"
    and safe: "\<And>destination. validate_object_key key = Inr () \<Longrightarrow> destination_for key = Inr destination \<Longrightarrow>
      safe_destination base destination"
    and "I fs" and 1: "sync_object env destination_for key s fs = (r, fs')"
  shows "I fs'"
proof (cases "download_object (sy_client env) destination_for key s")
  case (Inr found)
  obtain destination body where found: "found = (destination, body)"
    by fastforce
  have safe1: "safe_destination base destination"
    using Inr found safe [of destination] by (auto simp: download_object_def result_simps)
  obtain c fs2 where 2: "create_parent (sy_os env) destination fs = (c, fs2)"
    by fastforce
  have "I fs2"
    by (rule create_parent_confined [OF os safe1 assms(3) 2])
  then show ?thesis
    using 1 2 Inr found confinedD(2) [OF os \<open>I fs2\<close>, of destination] safe1
    by (cases c; cases "os_write (sy_os env) destination body fs2") (auto simp: sync_object_def safe_destination_def)
qed (use 1 assms(3) in \<open>simp add: sync_object_def\<close>)

lemma sync_contents_confined:
  assumes os: "confined (sy_os env) base I"
    and safe: "\<And>key destination. Some key \<in> set objects \<Longrightarrow> \<not> is_directory_marker key \<Longrightarrow> validate_object_key key = Inr () \<Longrightarrow>
      destination_for key = Inr destination \<Longrightarrow> safe_destination base destination"
    and "I fs" "sync_contents env destination_for objects n fs = (r, fs')"
  shows "I fs'"
  using safe assms(3,4)
proof (induction objects arbitrary: n fs)
  case (Cons object objects)
  show ?case
  proof (cases object)
    case (Some key)
    show ?thesis
    proof (cases "is_directory_marker key")
      case False
      obtain r1 fs1 where 1: "sync_object env destination_for key (sy_store env n) fs = (r1, fs1)"
        by fastforce
      have "I fs1"
        by (rule sync_object_confined [OF os _ Cons.prems(2) 1]) (use Cons.prems(1) Some False in auto)
      then show ?thesis
        using Cons Some False 1 by (cases r1) auto
    qed (use Cons Some in auto)
  qed (use Cons in auto)
qed simp

lemma sync_pages_confined:
  assumes os: "confined (sy_os env) base I"
    and safe: "\<And>token k page key destination. sc_list (sy_client env) prefix_key token (sy_store env k) = Inr page \<Longrightarrow> Some key \<in> set (lp_keys page) \<Longrightarrow>
      \<not> is_directory_marker key \<Longrightarrow> validate_object_key key = Inr () \<Longrightarrow> destination_for key = Inr destination \<Longrightarrow>
      safe_destination base destination"
    and "I fs" "sync_pages env prefix_key destination_for fuel token n fs = Some (r, fs')"
  shows "I fs'"
  using assms(3,4)
proof (induction fuel arbitrary: token n fs)
  case (Suc fuel)
  show ?case
  proof (cases "sc_list (sy_client env) prefix_key token (sy_store env n)")
    case (Inr page)
    obtain r1 fs1 where 1: "sync_contents env destination_for (lp_keys page) (Suc n) fs = (r1, fs1)"
      by fastforce
    have "I fs1"
      using sync_contents_confined [OF os _ Suc.prems(1) 1] safe [OF Inr] by blast
    then show ?thesis
      using Suc Inr 1 by (cases r1) (auto split: if_splits)
  qed (use Suc in auto)
qed simp

lemma sync_prefix_confined:
  assumes "confined (sy_os env) base I" "I fs" "sync_prefix env base prefix_key n fs = Some (r, fs')"
  shows "I fs'"
proof (rule sync_pages_confined [OF assms(1) _ assms(2)])
  show "sync_pages env prefix_key (\<lambda>key. Inr (path_join base key)) (sy_fuel env) None n fs = Some (r, fs')"
    using assms(3) by (simp add: sync_prefix_def sync_prefix_to_def)
qed (auto intro: valid_key_safe at_or_below_refl)

lemma sync_prefixes_confined:
  assumes "confined (sy_os env) base I" "I fs" "sync_prefixes env base keys n fs = Some (r, fs')"
  shows "I fs'"
  using assms(2,3)
proof (induction keys arbitrary: n fs)
  case (Cons p ps)
  then obtain r1 fs1 where 1: "sync_prefix env base p n fs = Some (r1, fs1)"
    by (auto split: option.splits)
  have "I fs1"
    by (rule sync_prefix_confined [OF assms(1) Cons.prems(1) 1])
  then show ?case
    using Cons 1 by (cases r1) auto
qed simp

lemma release_id_segment:
  assumes "is_release_id i"
  shows "CHR ''/'' \<notin> set i" "i \<noteq> []" "i \<noteq> ''.''" "i \<noteq> ''..''" "last i \<noteq> CHR ''/''" "length i = 64"
proof -
  show "CHR ''/'' \<notin> set i" "i \<noteq> []" "i \<noteq> ''.''" "i \<noteq> ''..''" "length i = 64"
    using assms by (auto simp: is_release_id_def is_lower_hex_def RELEASE_ID_HEX_LEN_def Let_def)
  then show "last i \<noteq> CHR ''/''"
    using last_in_set by metis
qed

lemma name_is_valid:
  assumes "CHR ''/'' \<notin> set name" "name \<noteq> []" "name \<noteq> ''.''" "name \<noteq> ''..''"
  shows "validate_object_key name = Inr ()" "\<not> is_directory_marker name"
proof -
  have "hd name \<noteq> CHR ''/''" "last name \<noteq> CHR ''/''"
    using assms(1,2) hd_in_set last_in_set by metis+
  then show "validate_object_key name = Inr ()" "\<not> is_directory_marker name"
    using assms split_on_plain [OF assms(1)]
    by (simp_all add: validate_object_key_def path_components_def segment_component_def Let_def is_directory_marker_def
        List.map_filter_simps)
qed

lemma release_dir_is_valid:
  assumes "is_release_id i"
  shows "validate_object_key (static_release_dir_key i) = Inr ()" "\<not> is_directory_marker (static_release_dir_key i)"
proof -
  have split: "split_on CHR ''/'' (static_release_dir_key i) = [''static'', ''releases'', i]"
    using split_on_plain [OF release_id_segment(1) [OF assms]] by (simp add: static_release_dir_key_def)
  show "validate_object_key (static_release_dir_key i) = Inr ()"
    using release_id_segment(2-4) [OF assms] split
    by (simp add: validate_object_key_def path_components_def segment_component_def Let_def List.map_filter_simps)
      (simp add: static_release_dir_key_def)
  show "\<not> is_directory_marker (static_release_dir_key i)"
    using release_id_segment(2,5) [OF assms] by (simp add: is_directory_marker_def static_release_dir_key_def)
qed


lemma safe_destination_trans: "at_or_below base p \<Longrightarrow> safe_destination p q \<Longrightarrow> safe_destination base q"
  using at_or_below_below at_or_below_trans by (auto simp: safe_destination_def)

text \<open>Behind an accepted key that begins with a directory there is an accepted key, unless a slash is doubled.\<close>

lemma validate_tail:
  assumes "validate_object_key (dir @ CHR ''/'' # r) = Inr ()" "r \<noteq> []" "hd r \<noteq> CHR ''/''"
  shows "validate_object_key r = Inr ()"
proof -
  note key = valid_key [OF assms(1)]
  have "''.'' \<notin> set (split_on CHR ''/'' r)" "list_all is_normal_part (parts r)"
    using key(4,5) by (simp_all add: split_on_append)
  moreover from this have "hd (split_on CHR ''/'' r) \<noteq> ''.''"
    by (metis hd_in_set split_on_not_Nil)
  ultimately show ?thesis
    using assms(2,3) by (simp add: validate_object_key_def path_components_def Let_def)
qed

lemma staged_destination_safe:
  assumes "validate_object_key key = Inr ()" "\<not> is_directory_marker key" "staged_destination staging i key = Inr destination"
    "at_or_below base staging" "\<And>r. key \<noteq> release_prefix_key i @ CHR ''/'' # r"
  shows "safe_destination base destination"
proof -
  obtain r where r: "key = static_release_dir_key i @ CHR ''/'' # r" "destination = path_join staging r"
    using assms(3) by (auto simp: staged_destination_def release_prefix_key_def strip_prefix_Some_iff result_simps)
  have ne: "r \<noteq> []" and slash: "hd r \<noteq> CHR ''/''"
  proof -
    show "r \<noteq> []"
      using assms(2) r(1) by (auto simp: is_directory_marker_def)
    then show "hd r \<noteq> CHR ''/''"
      using assms(5) [of "tl r"] r(1) by (cases r) (auto simp: release_prefix_key_def)
  qed
  have "validate_object_key r = Inr ()"
    by (rule validate_tail [OF assms(1) [unfolded r(1)] ne slash])
  moreover have "\<not> is_directory_marker r"
    using assms(2) ne r(1) by (auto simp: is_directory_marker_def)
  ultimately show ?thesis
    using valid_key_safe [of r base staging] assms(4) r(2) by simp
qed

lemma pull_staging_name_plain:
  assumes "is_release_id i"
  shows "CHR ''/'' \<notin> set (pull_staging_name env i)" "hd (pull_staging_name env i) = CHR ''.''" "pull_staging_name env i \<noteq> []"
    "pull_staging_name env i \<noteq> ''.''" "pull_staging_name env i \<noteq> ''..''"
  using release_id_segment(1,2) [OF assms] slash_not_in_show_nat by (auto simp: pull_staging_name_def msg_def)

text \<open>Where a release is staged and where it goes.\<close>

lemma release_paths:
  assumes "is_release_id i" "path_parent (path_join base (static_release_dir_key i)) = Some parent"
  shows "below base (path_join base (static_release_dir_key i))" "below base (path_join parent (pull_staging_name env i))"
proof -
  note dir = valid_key_below [OF release_dir_is_valid [OF assms(1)], of base]
  show "below base (path_join base (static_release_dir_key i))"
    by (rule dir(1))
  show "below base (path_join parent (pull_staging_name env i))"
    using at_or_below_below [OF dir(2) [OF assms(2)]] valid_key_below(1) [OF name_is_valid]
      pull_staging_name_plain [OF assms(1), of env] by blast
qed

lemma promote_confined:
  assumes os: "confined (sy_os env) base I" and others: "\<And>fs. I fs \<Longrightarrow> I (sy_others env fs)"
    and below: "below base staging" "below base final_dir" and "I fs"
    and "promote_staging env i staging final_dir fs = (r, fs')"
  shows "I fs'"
proof -
  obtain r1 fs1 where 1: "os_rename (sy_os env) staging final_dir (sy_others env fs) = (r1, fs1)"
    by fastforce
  have "I fs1"
    by (rule confinedD(3) [OF os others [OF assms(5)] below 1])
  then show ?thesis
    using assms(5,6) 1 confinedD(4) [OF os _ below(1)]
    by (cases r1) (auto simp: promote_staging_def Let_def split: if_splits)
qed

lemma pull_confined:
  assumes os: "confined (sy_os env) base I" and others: "\<And>fs. I fs \<Longrightarrow> I (sy_others env fs)"
    and listed: "\<And>token k page key r. sc_list (sy_client env) (release_prefix_key i) token (sy_store env k) = Inr page \<Longrightarrow>
      Some key \<in> set (lp_keys page) \<Longrightarrow> key \<noteq> release_prefix_key i @ CHR ''/'' # r"
    and "is_release_id i" "I fs" "pull_release_via_staging env base i n fs = Some (r, fs')"
  shows "I fs'"
proof (cases "path_parent (path_join base (static_release_dir_key i))")
  case None
  then show ?thesis
    using assms(5,6) by (simp add: pull_release_via_staging_def Let_def)
next
  case (Some parent)
  let ?staging = "path_join parent (pull_staging_name env i)" and ?final = "path_join base (static_release_dir_key i)"
  note below = release_paths [OF assms(4) Some]
  obtain c fs1 where 1: "os_create_dir_all (sy_os env) ?staging fs = (c, fs1)"
    by fastforce
  have I1: "I fs1"
    by (rule confinedD(1) [OF os assms(5) below_at_or_below [OF below(2)] 1])
  show ?thesis
  proof (cases c)
    case (Inr u)
    then obtain r2 fs2 where 2: "sync_prefix_to env (release_prefix_key i) (staged_destination ?staging i) n fs1 = Some (r2, fs2)"
      using assms(6) Some 1 by (auto simp: pull_release_via_staging_def Let_def)
    have I2: "I fs2"
    proof (rule sync_pages_confined [OF os _ I1 2 [unfolded sync_prefix_to_def]])
      fix token k page key destination
      assume "sc_list (sy_client env) (release_prefix_key i) token (sy_store env k) = Inr page" "Some key \<in> set (lp_keys page)"
        "\<not> is_directory_marker key" "validate_object_key key = Inr ()" "staged_destination ?staging i key = Inr destination"
      then show "safe_destination base destination"
        using staged_destination_safe [OF _ _ _ below_at_or_below [OF below(2)]] listed by blast
    qed
    show ?thesis
    proof (cases r2)
      case (Inl e)
      then show ?thesis
        using assms(6) Some 1 Inr 2 confinedD(4) [OF os I2 below(2)] by (auto simp: pull_release_via_staging_def Let_def)
    next
      case ok: (Inr k)
      then show ?thesis
        using assms(6) Some 1 Inr 2 promote_confined [OF os others below(2,1) I2] by (auto simp: pull_release_via_staging_def Let_def)
    qed
  qed (use assms(6) Some 1 I1 in \<open>auto simp: pull_release_via_staging_def Let_def\<close>)
qed

lemma head_key_safe: "safe_destination base (path_join base STATIC_HEAD_KEY)"
proof -
  have "validate_object_key STATIC_HEAD_KEY = Inr ()" "\<not> is_directory_marker STATIC_HEAD_KEY"
    by code_simp+
  then show ?thesis
    by (rule valid_key_safe [OF _ _ at_or_below_refl])
qed

lemma write_local_head_confined:
  assumes os: "confined (sy_os env) base I" and "I fs" "write_local_head env base raw fs = (r, fs')"
  shows "I fs'"
proof -
  obtain c fs1 where 1: "create_parent (sy_os env) (path_join base STATIC_HEAD_KEY) fs = (c, fs1)"
    by fastforce
  have "I fs1"
    by (rule create_parent_confined [OF os head_key_safe assms(2) 1])
  then show ?thesis
    using assms(3) 1 confinedD(2) [OF os \<open>I fs1\<close>, of "path_join base STATIC_HEAD_KEY" raw] head_key_safe [of base]
    by (cases c; cases "os_write (sy_os env) (path_join base STATIC_HEAD_KEY) raw fs1")
      (auto simp: write_local_head_def safe_destination_def)
qed

lemma sync_static_confined:
  assumes os: "confined (sy_os env) base I" and others: "\<And>fs. I fs \<Longrightarrow> I (sy_others env fs)"
    and listed: "\<And>i token k page key r. sc_list (sy_client env) (release_prefix_key i) token (sy_store env k) = Inr page \<Longrightarrow>
      Some key \<in> set (lp_keys page) \<Longrightarrow> key \<noteq> release_prefix_key i @ CHR ''/'' # r"
    and "I fs" "sync_static_release env base n fs = Some (r, fs')"
  shows "I fs'"
proof (cases "(\<exists>head_bytes head. read_static_head (sy_client env) (sy_store env n) = Inr (Some head_bytes) \<and>
    static_release_head_from_json (sy_parse_head env) head_bytes = Inr head)")
  case True
  then obtain head_bytes head where head: "read_static_head (sy_client env) (sy_store env n) = Inr (Some head_bytes)"
    "static_release_head_from_json (sy_parse_head env) head_bytes = Inr head"
    by blast
  have id: "is_release_id (sh_release_id head)"
    using head(2) by (auto simp: static_release_head_from_json_def result_simps validate_simps)
  let ?pulled = "if os_exists (sy_os env) (path_join base (static_release_manifest_key (sh_release_id head))) fs
     then Some (Inr (), fs) else pull_release_via_staging env base (sh_release_id head) (Suc n) fs"
  obtain r1 fs1 where 1: "?pulled = Some (r1, fs1)"
    using assms(5) head by (auto simp: sync_static_release_def)
  have "I fs1"
    using 1 assms(4) pull_confined [OF os others listed id assms(4)] by (auto split: if_splits)
  then show ?thesis
    using assms(5) head 1 write_local_head_confined [OF os]
    by (cases r1) (auto simp: sync_static_release_def simp del: if_split)
next
  case False
  then show ?thesis
    using assms(4,5) by (auto simp: sync_static_release_def split: sum.splits option.splits)
qed

text \<open>The pages of a listing come to an end.\<close>

definition listing_ends :: "'s sync_client \<Rightarrow> (string option \<Rightarrow> nat) \<Rightarrow> bool" where
  "listing_ends client rank \<longleftrightarrow>
     (\<forall>p token s page. sc_list client p token s = Inr page \<longrightarrow> lp_truncated page = Some True \<longrightarrow> rank (lp_next_token page) < rank token)"

lemma sync_pages_returns:
  "listing_ends (sy_client env) rank \<Longrightarrow> rank token < fuel \<Longrightarrow> sync_pages env p destination_for fuel token n fs \<noteq> None"
proof (induction fuel arbitrary: token n fs)
  case (Suc fuel)
  show ?case
  proof (cases "sc_list (sy_client env) p token (sy_store env n)")
    case (Inr page)
    obtain r1 fs1 where 1: "sync_contents env destination_for (lp_keys page) (Suc n) fs = (r1, fs1)"
      by fastforce
    have "rank (lp_next_token page) < fuel" if "lp_truncated page = Some True"
      using Suc.prems Inr that unfolding listing_ends_def by fastforce
    then show ?thesis
      using Suc.IH [OF Suc.prems(1)] Inr 1 by (cases r1) auto
  qed simp
qed simp

text \<open>
  A download that is cut off before its request number \<open>k\<close>: this and every later request fails. It
  shows the files as any download leaves them at that point, one whose listing never ends included;
  every page is a request, so \<open>k + 1\<close> pages suffice as fuel.
\<close>

definition cut_error :: s3_error where
  "cut_error = \<lparr> se_code = None, se_status = None, se_text = ''connection lost'' \<rparr>"

definition cut_at :: "nat \<Rightarrow> ('s, 'f) sync_env \<Rightarrow> ('s option, 'f) sync_env" where
  "cut_at k env =
     \<lparr> sy_client = \<lparr> sc_objects = \<lparr> s3_get_object = (\<lambda>key s. case s of None \<Rightarrow> Inl cut_error
             | Some s \<Rightarrow> s3_get_object (sc_objects (sy_client env)) key s),
           s3_put_object = (\<lambda>_ _ _ s. (Inl cut_error, s)) \<rparr>,
         sc_list = (\<lambda>p token s. case s of None \<Rightarrow> Inl cut_error | Some s \<Rightarrow> sc_list (sy_client env) p token s) \<rparr>,
       sy_os = sy_os env, sy_store = (\<lambda>n. if n < k then Some (sy_store env n) else None),
       sy_others = sy_others env, sy_process = sy_process env, sy_attempt = sy_attempt env, sy_fuel = Suc k,
       sy_parse_head = sy_parse_head env \<rparr>"

lemma sync_contents_counts: "sync_contents env destination_for keys n fs = (Inr n1, fs1) \<Longrightarrow> n \<le> n1"
  by (induction env destination_for keys n fs rule: sync_contents.induct)
    (auto split: if_splits prod.splits sum.splits)

lemma cut_pages_return:
  "0 < fuel \<Longrightarrow> k < n + fuel \<Longrightarrow> sync_pages (cut_at k env) p destination_for fuel token n fs \<noteq> None"
proof (induction fuel arbitrary: token n fs)
  case (Suc fuel)
  show ?case
  proof (cases "sc_list (sy_client (cut_at k env)) p token (sy_store (cut_at k env) n)")
    case (Inr page)
    then have n: "n < k"
      by (auto simp: cut_at_def split: if_splits)
    obtain r1 fs1 where 1: "sync_contents (cut_at k env) destination_for (lp_keys page) (Suc n) fs = (r1, fs1)"
      by fastforce
    show ?thesis
    proof (cases r1)
      case (Inl e)
      then show ?thesis
        using Inr 1 by simp
    next
      case ok: (Inr n1)
      have "Suc n \<le> n1"
        by (rule sync_contents_counts [OF 1 [unfolded ok]])
      then have "0 < fuel" "k < n1 + fuel"
        using Suc.prems n by linarith+
      then show ?thesis
        using Suc.IH Inr 1 ok by simp
    qed
  qed simp
qed simp

lemma sync_artifacts_returns:
  assumes "\<And>p destination_for n fs. sync_pages env p destination_for (sy_fuel env) None n fs \<noteq> None"
  shows "sync_artifacts env base fs \<noteq> None"
proof -
  have prefixes: "sync_prefixes env base ps n fs \<noteq> None" for ps n fs
  proof (induction ps arbitrary: n fs)
    case (Cons p ps)
    obtain r1 fs1 where "sync_prefix env base p n fs = Some (r1, fs1)"
      using assms [of p "\<lambda>key. Inr (path_join base key)" n fs] by (auto simp: sync_prefix_def sync_prefix_to_def)
    then show ?case
      using Cons by (cases r1) auto
  qed simp
  have "pull_release_via_staging env base i n fs \<noteq> None" for i n fs
  proof (cases "path_parent (path_join base (static_release_dir_key i))")
    case (Some parent)
    let ?staging = "path_join parent (pull_staging_name env i)"
    obtain c fs1 where 1: "os_create_dir_all (sy_os env) ?staging fs = (c, fs1)"
      by fastforce
    obtain r2 fs2 where "sync_prefix_to env (release_prefix_key i) (staged_destination ?staging i) n fs1 = Some (r2, fs2)"
      using assms [of "release_prefix_key i" "staged_destination ?staging i" n fs1] by (auto simp: sync_prefix_to_def)
    then show ?thesis
      using Some 1 by (cases c) (simp_all add: pull_release_via_staging_def Let_def)
  qed (simp add: pull_release_via_staging_def Let_def)
  then have "sync_static_release env base n fs \<noteq> None" for n fs
    by (simp add: sync_static_release_def del: not_None_eq split: sum.split option.split)
  then show ?thesis
    using prefixes by (simp add: sync_artifacts_def del: not_None_eq split: prod.split sum.split option.split)
qed

lemma sync_confined:
  assumes "confined (sy_os env) base I" and "\<And>fs. I fs \<Longrightarrow> I (sy_others env fs)"
    and "\<And>i token k page key r. sc_list (sy_client env) (release_prefix_key i) token (sy_store env k) = Inr page \<Longrightarrow>
      Some key \<in> set (lp_keys page) \<Longrightarrow> key \<noteq> release_prefix_key i @ CHR ''/'' # r"
    and "I fs" and "sync_artifacts env base fs = Some (r, fs')"
  shows "I fs'"
proof -
  obtain c fs1 where 1: "os_create_dir_all (sy_os env) base fs = (c, fs1)"
    by fastforce
  have I1: "I fs1"
    by (rule confinedD(1) [OF assms(1,4) at_or_below_refl 1])
  show ?thesis
  proof (cases c)
    case (Inr u)
    then obtain r2 fs2 where 2: "sync_prefixes env base synced_artifact_prefixes 0 fs1 = Some (r2, fs2)"
      using assms(5) 1 by (auto simp: sync_artifacts_def split: option.splits)
    have I2: "I fs2"
      by (rule sync_prefixes_confined [OF assms(1) I1 2])
    then show ?thesis
      using assms(5) 1 Inr 2 sync_static_confined [OF assms(1-3) I2] by (cases r2) (auto simp: sync_artifacts_def)
  qed (use assms(5) 1 I1 in \<open>simp add: sync_artifacts_def\<close>)
qed

text \<open>
  C20. Downloading artifacts touches nothing outside the artifact directory, whatever keys the
  bucket holds, with parent steps and absolute keys included: everything that holds of the files and
  is kept by calls at or below the directory (and by other processes) holds when the download
  returns, with success or an error, and also at every point of it, when it is cut off before any
  of its requests.  It returns whenever the pages of every listing come to an end within the
  fuel; one whose listing never ends is covered up to every request it makes.
  The one exception is a doubled slash right behind the directory of a release, which is assumed
  away here.
\<close>

theorem sync_stays_inside:
  assumes "confined (sy_os env) base I" and "\<And>fs. I fs \<Longrightarrow> I (sy_others env fs)"
    and "\<And>i token k page key r. sc_list (sy_client env) (release_prefix_key i) token (sy_store env k) = Inr page \<Longrightarrow>
      Some key \<in> set (lp_keys page) \<Longrightarrow> key \<noteq> release_prefix_key i @ CHR ''/'' # r"
    and "I fs"
  shows "(\<forall>r fs'. sync_artifacts env base fs = Some (r, fs') \<longrightarrow> I fs') \<and>
    (\<forall>rank. listing_ends (sy_client env) rank \<longrightarrow> rank None < sy_fuel env \<longrightarrow>
       (\<exists>r fs'. sync_artifacts env base fs = Some (r, fs') \<and> I fs')) \<and>
    (\<forall>k. \<exists>r fs'. sync_artifacts (cut_at k env) base fs = Some (r, fs') \<and> I fs')"
proof (intro conjI allI impI)
  show safe: "I fs'" if "sync_artifacts env base fs = Some (r, fs')" for r fs'
    by (rule sync_confined [OF assms that])
  show "\<exists>r fs'. sync_artifacts env base fs = Some (r, fs') \<and> I fs'"
    if "listing_ends (sy_client env) rank" "rank None < sy_fuel env" for rank
    using sync_artifacts_returns [of env base fs] sync_pages_returns [OF that] safe by fastforce
  show "\<exists>r fs'. sync_artifacts (cut_at k env) base fs = Some (r, fs') \<and> I fs'" for k
  proof -
    have "sync_pages (cut_at k env) p destination_for (sy_fuel (cut_at k env)) None n fs \<noteq> None" for p destination_for n fs
      by (rule cut_pages_return) (simp_all add: cut_at_def)
    then obtain r fs' where r: "sync_artifacts (cut_at k env) base fs = Some (r, fs')"
      using sync_artifacts_returns [of "cut_at k env" base fs] by fastforce
    have listed: "key \<noteq> release_prefix_key i @ CHR ''/'' # t"
      if "sc_list (sy_client (cut_at k env)) (release_prefix_key i) token (sy_store (cut_at k env) n) = Inr page"
        "Some key \<in> set (lp_keys page)" for i token n page key t
      using that assms(3) [of i token n page key t] by (auto simp: cut_at_def split: if_splits)
    have cut: "confined (sy_os (cut_at k env)) base I" "\<And>fs. I fs \<Longrightarrow> I (sy_others (cut_at k env) fs)"
      using assms(1,2) by (simp_all add: cut_at_def)
    have "I fs'"
      by (rule sync_confined [OF cut listed assms(4) r])
    then show ?thesis
      using r by blast
  qed
qed



section \<open>A release on disk is complete\<close>

text \<open>
  What the listing promises besides coming to an end: a key under the prefix that a page does not
  show lies behind the token of the page.
\<close>

definition lawful_listing :: "'s sync_client \<Rightarrow> 's object_view \<Rightarrow> (string option \<Rightarrow> string \<Rightarrow> bool) \<Rightarrow> bool" where
  "lawful_listing client peek behind \<longleftrightarrow>
     (\<forall>key. behind None key) \<and>
     (\<forall>p token s page key. sc_list client p token s = Inr page \<longrightarrow> prefix p key \<longrightarrow> peek key s \<noteq> None \<longrightarrow> behind token key \<longrightarrow>
        Some key \<in> set (lp_keys page) \<or> lp_truncated page = Some True \<and> behind (lp_next_token page) key)"

text \<open>
  The file system, on the staging and the final directory: besides the laws of directories, creating
  one that exists keeps its files, the manifest exists when its directory holds it, and the pointer lies
  outside.
\<close>

definition lawful_pull :: "'f os_ops \<Rightarrow> 'f dir_view \<Rightarrow> string set \<Rightarrow> string \<Rightarrow> bool" where
  "lawful_pull os view D base \<longleftrightarrow>
     lawful_dirs os view D \<and>
     (\<forall>p \<in> D. \<forall>fs m r fs'. view fs p = Some m \<longrightarrow> os_create_dir_all os p fs = (r, fs') \<longrightarrow> view fs' p = Some m) \<and>
     (\<forall>p \<in> D. \<forall>fs. os_exists os (path_join p RELEASE_MANIFEST_FILE) fs = (\<exists>m. view fs p = Some m \<and> RELEASE_MANIFEST_FILE \<in> dom m)) \<and>
     (\<forall>p \<in> D. \<forall>fs r fs'. create_parent os (path_join base STATIC_HEAD_KEY) fs = (r, fs') \<longrightarrow> view fs' p = view fs p) \<and>
     (\<forall>p \<in> D. \<forall>fs raw r fs'. os_write os (path_join base STATIC_HEAD_KEY) raw fs = (r, fs') \<longrightarrow> view fs' p = view fs p)"

lemma lawful_pullD:
  assumes "lawful_pull os view D base" "p \<in> D"
  shows "lawful_dirs os view D"
    "view fs p = Some m \<Longrightarrow> os_create_dir_all os p fs = (r, fs') \<Longrightarrow> view fs' p = Some m"
    "os_exists os (path_join p RELEASE_MANIFEST_FILE) fs = (\<exists>m. view fs p = Some m \<and> RELEASE_MANIFEST_FILE \<in> dom m)"
    "create_parent os (path_join base STATIC_HEAD_KEY) fs = (r, fs') \<Longrightarrow> view fs' p = view fs p"
    "os_write os (path_join base STATIC_HEAD_KEY) raw fs = (r, fs') \<Longrightarrow> view fs' p = view fs p"
  using assms unfolding lawful_pull_def by blast+

text \<open>A directory holds every file the manifest lists, as it describes it.\<close>

definition dir_complete :: "(blob \<Rightarrow> blob) \<Rightarrow> release_manifest \<Rightarrow> (string \<Rightarrow> string option) \<Rightarrow> bool" where
  "dir_complete sha256 manifest files \<longleftrightarrow>
     (\<forall>name \<in> set (release_files_of manifest). \<exists>raw out. files name = Some raw \<and>
        List.find (\<lambda>out. of_name out = name) (rm_outputs manifest) = Some out \<and>
        of_size_bytes out = of_nat (length (text_bytes raw)) \<and> of_sha256 out = sha256_hex sha256 (text_bytes raw))"

text \<open>The gate: the manifest is there only when everything is.\<close>

definition gate_sound :: "(blob \<Rightarrow> blob) \<Rightarrow> release_manifest \<Rightarrow> 'f dir_view \<Rightarrow> string \<Rightarrow> 'f \<Rightarrow> bool" where
  "gate_sound sha256 manifest view final_dir fs \<longleftrightarrow>
     (\<forall>files. view fs final_dir = Some files \<longrightarrow> RELEASE_MANIFEST_FILE \<in> dom files \<longrightarrow> dir_complete sha256 manifest files)"

definition release_installed :: "(blob \<Rightarrow> blob) \<Rightarrow> release_manifest \<Rightarrow> 'f dir_view \<Rightarrow> string \<Rightarrow> 'f \<Rightarrow> bool" where
  "release_installed sha256 manifest view final_dir fs \<longleftrightarrow>
     (\<exists>files. view fs final_dir = Some files \<and> RELEASE_MANIFEST_FILE \<in> dom files \<and> dir_complete sha256 manifest files)"

lemma path_parent_below: "a \<noteq> [] \<Longrightarrow> CHR ''/'' \<notin> set n \<Longrightarrow> path_parent (a @ CHR ''/'' # n) = Some a"
proof -
  assume a: "a \<noteq> []" and n: "CHR ''/'' \<notin> set n"
  have "dropWhile (\<lambda>c. c \<noteq> CHR ''/'') (rev n @ CHR ''/'' # rev a) = CHR ''/'' # rev a"
    using n by (subst dropWhile_append2) auto
  then show ?thesis
    using a by (simp add: path_parent_def Let_def)
qed

lemma path_join_below: "plain_dir p \<Longrightarrow> n \<noteq> [] \<Longrightarrow> CHR ''/'' \<notin> set n \<Longrightarrow> path_join p n = p @ CHR ''/'' # n"
  by (cases n) (auto simp: path_join_def plain_dir_def)

text \<open>The final directory and the staging directory are siblings.\<close>

lemma release_siblings:
  assumes "is_release_id i"
  obtains parent where "plain_dir parent" "path_parent (path_join base (static_release_dir_key i)) = Some parent"
    "path_join base (static_release_dir_key i) = parent @ CHR ''/'' # i"
    "path_join parent (pull_staging_name env i) = parent @ CHR ''/'' # pull_staging_name env i"
proof -
  obtain p where p: "path_join base (static_release_dir_key i) = p @ ''static/releases/'' @ i"
    by (cases "base = [] \<or> last base = CHR ''/''") (auto simp: path_join_def static_release_dir_key_def)
  define parent where "parent = p @ ''static/releases''"
  have plain: "plain_dir parent"
    by (simp add: plain_dir_def parent_def)
  have final: "path_join base (static_release_dir_key i) = parent @ CHR ''/'' # i"
    using p by (simp add: parent_def)
  moreover have "path_parent (path_join base (static_release_dir_key i)) = Some parent"
    unfolding final using path_parent_below [OF _ release_id_segment(1) [OF assms]] plain by (simp add: plain_dir_def)
  moreover have "path_join parent (pull_staging_name env i) = parent @ CHR ''/'' # pull_staging_name env i"
    by (rule path_join_below [OF plain pull_staging_name_plain(3,1) [OF assms]])
  ultimately show thesis
    using that plain by blast
qed

lemma manifest_path: "path_join base (static_release_manifest_key i) = path_join (path_join base (static_release_dir_key i)) RELEASE_MANIFEST_FILE"
  if "is_release_id i"
proof -
  have i: "i \<noteq> []" "last i \<noteq> CHR ''/''"
    using release_id_segment [OF that] by auto
  show ?thesis
    using i by (cases "base = [] \<or> last base = CHR ''/''")
      (auto simp: path_join_def static_release_manifest_key_def static_release_dir_key_def RELEASE_MANIFEST_FILE_def)
qed

lemma release_file_plain: "name \<in> set (release_files_of manifest) \<Longrightarrow> name \<noteq> [] \<and> CHR ''/'' \<notin> set name"
  by (auto simp: release_files_of_def release_output_files_def V3_RELEASE_OUTPUT_FILES_def V4_RELEASE_OUTPUT_FILES_def
      CENTROIDS_FILE_def PROJECTION_FILE_def TURBO_STATIC_FILE_def DOCID_FILE_def META_FILE_def
      META_EXT_FILE_def META_JSON_FILE_def TEXT_FILE_def TITLE_FILE_def CODEBOOK_FILE_def QJL_FILE_def ROTATION_FILE_def
      split: if_splits)

text \<open>One object, a page, a listing.\<close>

lemma download_object_ok:
  "download_object client destination_for key s = Inr (destination, body) \<Longrightarrow>
     \<exists>object. s3_get_object (sc_objects client) key s = Inr object \<and> so_body object = Inr body \<and> destination_for key = Inr destination"
  by (auto simp: download_object_def result_simps)

lemma staged_destination_ok:
  "staged_destination staging i key = Inr destination \<longleftrightarrow>
     (\<exists>name. key = release_prefix_key i @ name \<and> destination = path_join staging name)"
  by (auto simp: staged_destination_def strip_prefix_Some_iff result_simps simp del: msg_def)

lemma sync_object_stores:
  assumes laws: "lawful_pull os view D base" and os: "os = sy_os env" and D: "staging \<in> D" and plain: "plain_dir staging"
    and flat: "\<not> is_directory_marker key" "\<And>name. key = release_prefix_key i @ name \<Longrightarrow> CHR ''/'' \<notin> set name"
    and v: "view fs staging = Some m"
    and run: "sync_object env (staged_destination staging i) key s fs = (r, fs')"
  shows "(\<forall>x \<in> D. x \<noteq> staging \<longrightarrow> view fs' x = view fs x) \<and>
    (r = Inr () \<longrightarrow> (\<exists>name object body. key = release_prefix_key i @ name \<and> s3_get_object (sc_objects (sy_client env)) key s = Inr object \<and>
       so_body object = Inr body \<and> view fs' staging = Some (m(name \<mapsto> body))))"
proof (cases "download_object (sy_client env) (staged_destination staging i) key s")
  case (Inr found)
  obtain destination body where found: "found = (destination, body)"
    by fastforce
  obtain name object where got: "key = release_prefix_key i @ name" "s3_get_object (sc_objects (sy_client env)) key s = Inr object"
      "so_body object = Inr body" "destination = path_join staging name"
    using download_object_ok [OF Inr [unfolded found]] unfolding staged_destination_ok by blast
  have "name \<noteq> []"
    using flat(1) got(1) by (auto simp: is_directory_marker_def release_prefix_key_def)
  then have name: "name \<noteq> []" "CHR ''/'' \<notin> set name"
    using flat(2) [OF got(1)] by simp_all
  have dirs: "lawful_dirs os view D"
    and kept: "\<And>fs m r fs'. view fs staging = Some m \<Longrightarrow> os_create_dir_all os staging fs = (r, fs') \<Longrightarrow> view fs' staging = Some m"
    using lawful_pullD(1,2) [OF laws D] by blast+
  have "path_parent destination = Some staging"
    using got(4) path_join_below [OF plain name] path_parent_below [OF _ name(2), of staging] plain by (simp add: plain_dir_def)
  then have parent: "create_parent os destination fs = os_create_dir_all os staging fs"
    by (simp add: create_parent_def)
  obtain c fs1 where 1: "os_create_dir_all os staging fs = (c, fs1)"
    by fastforce
  note others1 = lawful_dirsD(8) [OF dirs D 1]
  show ?thesis
  proof (cases c)
    case (Inl e)
    then show ?thesis
      using run Inr found parent 1 others1 os by (auto simp: sync_object_def)
  next
    case ok: (Inr u)
    obtain w fs2 where 2: "os_write os destination body fs1 = (w, fs2)"
      by fastforce
    then have 2: "os_write os (path_join staging name) body fs1 = (w, fs2)" "os_write os destination body fs1 = (w, fs2)"
      using got(4) by simp_all
    have "fs' = fs2" "r = Inr () \<longrightarrow> (\<exists>u. w = Inr u)"
      using run Inr found parent 1 ok 2 os by (auto simp: sync_object_def result_simps)
    then show ?thesis
      using lawful_dirsD(10) [OF dirs D name(2) 2(1)] lawful_dirsD(9) [OF dirs D name(2)] 2(1) kept [OF v 1] others1 got
      by auto
  qed
qed (use run in \<open>auto simp: sync_object_def\<close>)

text \<open>What is stored under the release does not change while it is pulled.\<close>

definition bodies_stored ::
  "('s, 'f) sync_env \<Rightarrow> string \<Rightarrow> string set \<Rightarrow> (string \<Rightarrow> string option) \<Rightarrow> nat \<Rightarrow> bool" where
  "bodies_stored env i files stored n \<longleftrightarrow>
     (\<forall>k name object body. n \<le> k \<longrightarrow> name \<in> files \<longrightarrow>
        s3_get_object (sc_objects (sy_client env)) (release_prefix_key i @ name) (sy_store env k) = Inr object \<longrightarrow>
        so_body object = Inr body \<longrightarrow> stored name = Some body)"

lemma sync_contents_stores:
  assumes laws: "lawful_pull (sy_os env) view D base" and D: "staging \<in> D" and plain: "plain_dir staging"
    and files: "\<forall>name \<in> files. name \<noteq> [] \<and> CHR ''/'' \<notin> set name" and bodies: "bodies_stored env i files stored n0"
    and "\<forall>name. Some (release_prefix_key i @ name) \<in> set objects \<longrightarrow> CHR ''/'' \<notin> set name"
    and "view fs staging = Some m" and "n0 \<le> n"
    and "sync_contents env (staged_destination staging i) objects n fs = (r, fs')"
  shows "(\<forall>x \<in> D. x \<noteq> staging \<longrightarrow> view fs' x = view fs x) \<and>
    (\<forall>k. r = Inr k \<longrightarrow> n \<le> k \<and> (\<exists>m'. view fs' staging = Some m' \<and>
       (\<forall>name \<in> files. m name = stored name \<or> Some (release_prefix_key i @ name) \<in> set objects \<longrightarrow> m' name = stored name)))"
  using assms(6-9)
proof (induction objects arbitrary: n fs m)
  case (Cons object objects)
  have flat: "\<forall>name. Some (release_prefix_key i @ name) \<in> set objects \<longrightarrow> CHR ''/'' \<notin> set name"
    using Cons.prems(1) by simp
  note IH = Cons.IH [OF flat]
  show ?case
  proof (cases "object = None \<or> (\<exists>key. object = Some key \<and> is_directory_marker key)")
    case True
    have "\<forall>name \<in> files. name \<noteq> [] \<and> last name \<noteq> CHR ''/''"
      using files last_in_set by metis
    then have no: "\<forall>name \<in> files. Some (release_prefix_key i @ name) \<noteq> object"
      using True by (auto simp: is_directory_marker_def)
    have "sync_contents env (staged_destination staging i) objects n fs = (r, fs')"
      using True Cons.prems(4) by auto
    from IH [OF Cons.prems(2,3) this] show ?thesis
      using no by simp
  next
    case False
    then obtain key where key: "object = Some key" "\<not> is_directory_marker key"
      by (cases object) auto
    obtain r1 fs1 where 1: "sync_object env (staged_destination staging i) key (sy_store env n) fs = (r1, fs1)"
      by fastforce
    have one: "(\<forall>x \<in> D. x \<noteq> staging \<longrightarrow> view fs1 x = view fs x) \<and>
      (r1 = Inr () \<longrightarrow> (\<exists>name object body. key = release_prefix_key i @ name \<and>
         s3_get_object (sc_objects (sy_client env)) key (sy_store env n) = Inr object \<and>
         so_body object = Inr body \<and> view fs1 staging = Some (m(name \<mapsto> body))))"
      by (rule sync_object_stores [OF laws refl D plain key(2) _ Cons.prems(2) 1]) (use Cons.prems(1) key(1) in auto)
    show ?thesis
    proof (cases r1)
      case (Inl e)
      then show ?thesis
        using Cons.prems(4) key 1 one by auto
    next
      case (Inr u)
      then obtain name got body where w: "key = release_prefix_key i @ name"
          "s3_get_object (sc_objects (sy_client env)) key (sy_store env n) = Inr got" "so_body got = Inr body"
          "view fs1 staging = Some (m(name \<mapsto> body))"
        using one by auto
      have stored: "name \<in> files \<longrightarrow> stored name = Some body"
        using bodies w(1-3) Cons.prems(3) unfolding bodies_stored_def by blast
      have rest: "sync_contents env (staged_destination staging i) objects (Suc n) fs1 = (r, fs')"
        using Cons.prems(4) key 1 Inr by simp
      have "n0 \<le> Suc n"
        using Cons.prems(3) by simp
      note ih = IH [OF w(4) this rest]
      have step: "\<forall>x \<in> files. m x = stored x \<or> Some (release_prefix_key i @ x) \<in> set (object # objects) \<longrightarrow>
          (m(name \<mapsto> body)) x = stored x \<or> Some (release_prefix_key i @ x) \<in> set objects"
        using stored key(1) w(1) by auto
      show ?thesis
      proof (intro conjI allI impI ballI)
        show "view fs' x = view fs x" if "x \<in> D" "x \<noteq> staging" for x
          using ih one that by auto
        fix k
        assume "r = Inr k"
        then obtain m' where m': "Suc n \<le> k" "view fs' staging = Some m'"
          "\<forall>x \<in> files. (m(name \<mapsto> body)) x = stored x \<or> Some (release_prefix_key i @ x) \<in> set objects \<longrightarrow> m' x = stored x"
          using ih by blast
        show "n \<le> k"
          using m'(1) by simp
        show "\<exists>m'. view fs' staging = Some m' \<and> (\<forall>x \<in> files. m x = stored x \<or>
            Some (release_prefix_key i @ x) \<in> set (object # objects) \<longrightarrow> m' x = stored x)"
          using m'(2,3) step by blast
      qed
    qed
  qed
qed auto


lemma sync_pages_stores:
  assumes laws: "lawful_pull (sy_os env) view D base" and D: "staging \<in> D" and plain: "plain_dir staging"
    and files: "\<forall>name \<in> files. name \<noteq> [] \<and> CHR ''/'' \<notin> set name" and bodies: "bodies_stored env i files stored n0"
    and listing: "lawful_listing (sy_client env) peek behind"
    and flat: "\<forall>token k page name. sc_list (sy_client env) (release_prefix_key i) token (sy_store env k) = Inr page \<longrightarrow>
      Some (release_prefix_key i @ name) \<in> set (lp_keys page) \<longrightarrow> CHR ''/'' \<notin> set name"
    and present: "\<forall>k name. n0 \<le> k \<longrightarrow> name \<in> files \<longrightarrow> peek (release_prefix_key i @ name) (sy_store env k) \<noteq> None"
    and "view fs staging = Some m" "n0 \<le> n" "\<forall>name \<in> files. m name = stored name \<or> behind token (release_prefix_key i @ name)"
    and "sync_pages env (release_prefix_key i) (staged_destination staging i) fuel token n fs = Some (r, fs')"
  shows "(\<forall>x \<in> D. x \<noteq> staging \<longrightarrow> view fs' x = view fs x) \<and>
    (\<forall>k. r = Inr k \<longrightarrow> (\<exists>m'. view fs' staging = Some m' \<and> (\<forall>name \<in> files. m' name = stored name)))"
  using assms(9-12)
proof (induction fuel arbitrary: token n fs m)
  case (Suc fuel)
  show ?case
  proof (cases "sc_list (sy_client env) (release_prefix_key i) token (sy_store env n)")
    case (Inr page)
    have shown: "Some (release_prefix_key i @ name) \<in> set (lp_keys page) \<or>
        lp_truncated page = Some True \<and> behind (lp_next_token page) (release_prefix_key i @ name)"
      if name: "name \<in> files" "behind token (release_prefix_key i @ name)" for name
    proof -
      have "prefix (release_prefix_key i) (release_prefix_key i @ name)"
        by simp
      moreover have "peek (release_prefix_key i @ name) (sy_store env n) \<noteq> None"
        using present Suc.prems(2) name(1) by blast
      ultimately show ?thesis
        using listing Inr name(2) unfolding lawful_listing_def by blast
    qed
    obtain r1 fs1 where 1: "sync_contents env (staged_destination staging i) (lp_keys page) (Suc n) fs = (r1, fs1)"
      by fastforce
    have "\<forall>name. Some (release_prefix_key i @ name) \<in> set (lp_keys page) \<longrightarrow> CHR ''/'' \<notin> set name" "n0 \<le> Suc n"
      using flat Inr Suc.prems(2) by auto
    note one = sync_contents_stores [OF laws D plain files bodies this(1) Suc.prems(1) this(2) 1]
    show ?thesis
    proof (cases r1)
      case (Inl e)
      then show ?thesis
        using Suc.prems(4) Inr 1 one by auto
    next
      case ok: (Inr k)
      then obtain m' where m': "Suc n \<le> k" "view fs1 staging = Some m'"
          "\<forall>name \<in> files. m name = stored name \<or> Some (release_prefix_key i @ name) \<in> set (lp_keys page) \<longrightarrow> m' name = stored name"
        using one by blast
      show ?thesis
      proof (cases "lp_truncated page = Some True")
        case True
        have "n0 \<le> k" "\<forall>name \<in> files. m' name = stored name \<or> behind (lp_next_token page) (release_prefix_key i @ name)"
          using m' Suc.prems(2,3) shown by (fastforce)+
        moreover have "sync_pages env (release_prefix_key i) (staged_destination staging i) fuel (lp_next_token page) k fs1 = Some (r, fs')"
          using Suc.prems(4) Inr 1 ok True by simp
        ultimately show ?thesis
          using Suc.IH [OF m'(2)] one by auto
      next
        case False
        then have "r = Inr k" "fs' = fs1"
          using Suc.prems(4) Inr 1 ok by auto
        moreover have "\<forall>name \<in> files. m' name = stored name"
          using m'(3) Suc.prems(3) shown False by blast
        ultimately show ?thesis
          using one m'(2) by auto
      qed
    qed
  qed (use Suc.prems in auto)
qed simp

text \<open>The staged copy takes the place of the release, or another complete one is there.\<close>

lemma promote_complete:
  assumes laws: "lawful_pull (sy_os env) view {staging, final_dir} base" and ne: "staging \<noteq> final_dir"
    and others: "\<forall>fs. view (sy_others env fs) staging = view fs staging"
      "\<forall>fs. gate_sound sha256 manifest view final_dir fs \<longrightarrow> gate_sound sha256 manifest view final_dir (sy_others env fs)"
    and v: "view fs staging = Some m" "dir_complete sha256 manifest m" and gate: "gate_sound sha256 manifest view final_dir fs"
    and run: "promote_staging env i staging final_dir fs = (r, fs')"
  shows "gate_sound sha256 manifest view final_dir fs' \<and> (r = Inr () \<longrightarrow> release_installed sha256 manifest view final_dir fs')"
proof -
  have D: "staging \<in> {staging, final_dir}" "final_dir \<in> {staging, final_dir}"
    by auto
  have dirs: "lawful_dirs (sy_os env) view {staging, final_dir}"
    by (rule lawful_pullD(1) [OF laws D(1)])
  note exists = lawful_pullD(3) [OF laws D(1)] lawful_pullD(3) [OF laws D(2)]
  have removed: "view (snd (os_remove_dir_all (sy_os env) staging fs0)) final_dir = view fs0 final_dir" for fs0
    using lawful_dirsD(6) [OF dirs D(1) _ D(2) ne [symmetric]] by (metis prod.collapse)
  have gate_of: "gate_sound sha256 manifest view final_dir fs1 \<Longrightarrow> view fs2 final_dir = view fs1 final_dir \<Longrightarrow>
      gate_sound sha256 manifest view final_dir fs2" for fs1 fs2
    by (simp add: gate_sound_def)
  show ?thesis
  proof (cases "os_exists (sy_os env) (path_join staging RELEASE_MANIFEST_FILE) fs")
    case False
    then show ?thesis
      using run gate_of [OF gate removed] by (auto simp: promote_staging_def Let_def)
  next
    case True
    then have manifest: "RELEASE_MANIFEST_FILE \<in> dom m"
      using exists(1) v(1) by auto
    obtain r1 fs1 where 1: "os_rename (sy_os env) staging final_dir (sy_others env fs) = (r1, fs1)"
      by fastforce
    show ?thesis
    proof (cases r1)
      case (Inr u)
      then have "view fs1 final_dir = Some m"
        using lawful_dirsD(2) [OF dirs D(1,2) ne 1 [unfolded Inr]] others(1) v(1) by simp
      then have "release_installed sha256 manifest view final_dir fs1" "gate_sound sha256 manifest view final_dir fs1"
        using manifest v(2) by (auto simp: release_installed_def gate_sound_def)
      then show ?thesis
        using run True 1 Inr by (simp add: promote_staging_def Let_def)
    next
      case (Inl e)
      have same: "view fs1 final_dir = view (sy_others env fs) final_dir"
        by (rule lawful_dirsD(5) [OF dirs D(1,2) ne 1 [unfolded Inl] D(2)])
      have g1: "gate_sound sha256 manifest view final_dir fs1"
        by (rule gate_of [OF _ same]) (use others(2) gate in blast)
      show ?thesis
      proof (cases "os_exists (sy_os env) (path_join final_dir RELEASE_MANIFEST_FILE) fs1")
        case True
        then have "release_installed sha256 manifest view final_dir (snd (os_remove_dir_all (sy_os env) staging fs1))"
          using g1 exists(2) removed by (auto simp: gate_sound_def release_installed_def)
        then show ?thesis
          using run \<open>os_exists (sy_os env) (path_join staging RELEASE_MANIFEST_FILE) fs\<close> 1 Inl True gate_of [OF g1 removed]
          by (auto simp: promote_staging_def Let_def)
      next
        case False
        then show ?thesis
          using run \<open>os_exists (sy_os env) (path_join staging RELEASE_MANIFEST_FILE) fs\<close> 1 Inl g1
          by (auto simp: promote_staging_def Let_def)
      qed
    qed
  qed
qed


lemma pull_complete:
  fixes env :: "('s, 'f) sync_env"
  assumes id: "is_release_id i" and siblings: "path_parent (path_join base (static_release_dir_key i)) = Some parent"
  defines "final_dir \<equiv> path_join base (static_release_dir_key i)" and "staging \<equiv> path_join parent (pull_staging_name env i)"
  assumes laws: "lawful_pull (sy_os env) view {staging, final_dir} base"
    and others: "\<forall>fs. view (sy_others env fs) staging = view fs staging"
      "\<forall>fs. gate_sound sha256 manifest view final_dir fs \<longrightarrow> gate_sound sha256 manifest view final_dir (sy_others env fs)"
    and bodies: "bodies_stored env i files stored n0" and files: "\<forall>name \<in> files. name \<noteq> [] \<and> CHR ''/'' \<notin> set name"
    and listing: "lawful_listing (sy_client env) peek behind" "listing_ends (sy_client env) rank" "rank None < sy_fuel env"
    and flat: "\<forall>token k page name. sc_list (sy_client env) (release_prefix_key i) token (sy_store env k) = Inr page \<longrightarrow>
      Some (release_prefix_key i @ name) \<in> set (lp_keys page) \<longrightarrow> CHR ''/'' \<notin> set name"
    and present: "\<forall>k name. n0 \<le> k \<longrightarrow> name \<in> files \<longrightarrow> peek (release_prefix_key i @ name) (sy_store env k) \<noteq> None"
    and complete: "\<forall>m. (\<forall>name \<in> files. m name = stored name) \<longrightarrow> dir_complete sha256 manifest m"
    and gate: "gate_sound sha256 manifest view final_dir fs" and fresh: "view fs staging = None" and n: "n0 \<le> n"
  shows "\<exists>r fs'. pull_release_via_staging env base i n fs = Some (r, fs') \<and> gate_sound sha256 manifest view final_dir fs' \<and>
    (r = Inr () \<longrightarrow> release_installed sha256 manifest view final_dir fs')"
proof -
  obtain p where p: "plain_dir p" "path_parent (path_join base (static_release_dir_key i)) = Some p"
      "path_join base (static_release_dir_key i) = p @ CHR ''/'' # i"
      "path_join p (pull_staging_name env i) = p @ CHR ''/'' # pull_staging_name env i"
    using release_siblings [OF id] .
  then have paths: "final_dir = parent @ CHR ''/'' # i" "staging = parent @ CHR ''/'' # pull_staging_name env i"
    using siblings by (simp_all add: final_dir_def staging_def)
  have name: "pull_staging_name env i \<noteq> []" "last (pull_staging_name env i) \<noteq> CHR ''/''"
    using pull_staging_name_plain [OF id, of env] last_in_set by metis+
  then have plain: "plain_dir staging"
    using paths(2) by (simp add: plain_dir_def)
  have "hd i \<noteq> CHR ''.''"
    using id by (cases i) (auto simp: is_release_id_def is_lower_hex_def RELEASE_ID_HEX_LEN_def Let_def)
  then have ne: "staging \<noteq> final_dir"
    using paths pull_staging_name_plain(2) [OF id, of env] by auto
  have D: "staging \<in> {staging, final_dir}" "final_dir \<in> {staging, final_dir}"
    by auto
  have dirs: "lawful_dirs (sy_os env) view {staging, final_dir}"
    by (rule lawful_pullD(1) [OF laws D(1)])
  have gate_of: "view fs' final_dir = view fs final_dir \<Longrightarrow> gate_sound sha256 manifest view final_dir fs'" for fs'
    using gate by (simp add: gate_sound_def)
  have removed: "view (snd (os_remove_dir_all (sy_os env) staging fs0)) final_dir = view fs0 final_dir" for fs0
    using lawful_dirsD(6) [OF dirs D(1) _ D(2) ne [symmetric]] by (metis prod.collapse)
  obtain c fs1 where 1: "os_create_dir_all (sy_os env) staging fs = (c, fs1)"
    by fastforce
  have final1: "view fs1 final_dir = view fs final_dir"
    by (rule lawful_dirsD(8) [OF dirs D(1) 1 D(2) ne [symmetric]])
  note pull = pull_release_via_staging_def [of env base i n fs, unfolded Let_def siblings option.case,
      folded final_dir_def staging_def, unfolded 1 prod.case]
  show ?thesis
  proof (cases c)
    case (Inl e)
    then show ?thesis
      using pull gate_of [OF final1] by simp
  next
    case (Inr u)
    have v1: "view fs1 staging = Some Map.empty"
      by (rule lawful_dirsD(7) [OF dirs D(1) 1 [unfolded Inr] fresh])
    obtain r2 fs2 where 2: "sync_pages env (release_prefix_key i) (staged_destination staging i) (sy_fuel env) None n fs1 = Some (r2, fs2)"
      using sync_pages_returns [OF listing(2,3)] by fastforce
    have "\<forall>name \<in> files. Map.empty name = stored name \<or> behind None (release_prefix_key i @ name)"
      using listing(1) by (simp add: lawful_listing_def)
    note stored = sync_pages_stores [OF laws D(1) plain files bodies listing(1) flat present v1 n this 2]
    have final2: "view fs2 final_dir = view fs final_dir"
      using stored final1 D(2) ne by auto
    show ?thesis
    proof (cases r2)
      case (Inl e)
      then show ?thesis
        using pull Inr 2 gate_of [OF trans [OF removed final2]] by (simp add: sync_prefix_to_def)
    next
      case ok: (Inr k)
      then obtain m where m: "view fs2 staging = Some m" "\<forall>name \<in> files. m name = stored name"
        using stored by blast
      obtain r fs' where 3: "promote_staging env i staging final_dir fs2 = (r, fs')"
        by fastforce
      show ?thesis
        using promote_complete [OF laws ne others m(1) _ gate_of [OF final2] 3] complete m(2) pull Inr 2 ok 3
        by (simp add: sync_prefix_to_def)
    qed
  qed
qed

lemma write_local_head_view:
  assumes "lawful_pull (sy_os env) view D base" "p \<in> D" "write_local_head env base raw fs = (r, fs')"
  shows "view fs' p = view fs p"
proof -
  obtain c fs1 where 1: "create_parent (sy_os env) (path_join base STATIC_HEAD_KEY) fs = (c, fs1)"
    by fastforce
  obtain w fs2 where 2: "os_write (sy_os env) (path_join base STATIC_HEAD_KEY) raw fs1 = (w, fs2)"
    by fastforce
  show ?thesis
    using lawful_pullD(4) [OF assms(1,2) 1] lawful_pullD(5) [OF assms(1,2) 2] assms(3) 1 2
    by (cases c) (auto simp: write_local_head_def)
qed

lemma read_active_head:
  assumes "lawful_s3 (sc_objects client) peek" "release_active peek de manifest s"
  shows "(\<exists>e. read_static_head client s = Inl e) \<or>
    (\<exists>raw h. read_static_head client s = Inr (Some raw) \<and> de raw = Inr h \<and> sh_release_id h = rm_release_id manifest)"
proof -
  obtain raw tag h where h: "peek STATIC_HEAD_KEY s = Some (raw, tag)" "de raw = Inr h" "sh_release_id h = rm_release_id manifest"
    using assms(2) by (auto simp: release_active_def)
  show ?thesis
  proof (cases "s3_get_object (sc_objects client) STATIC_HEAD_KEY s")
    case (Inl e)
    then show ?thesis
      using lawful_s3D(2) [OF assms(1) Inl] h(1) by (auto simp: read_static_head_def)
  next
    case (Inr object)
    then show ?thesis
      using lawful_s3D(1) [OF assms(1) Inr] h by (cases "so_body object") (auto simp: read_static_head_def)
  qed
qed

text \<open>
  C19. Pulling the active release returns, and what it leaves on disk can be trusted:
  a local release directory with a manifest holds every file as the manifest describes it, whether
  the pull succeeds, fails half way, loses a race or finds the release there; and a pull that
  succeeds has the release installed.  The bucket may change meanwhile, but the release in it
  is complete before its pointer is set and its objects stay.
\<close>

theorem synced_release_is_complete:
  fixes env :: "('s, 'f) sync_env"
  assumes "lawful_s3 (sc_objects (sy_client env)) peek"
    and "lawful_listing (sy_client env) peek behind" "listing_ends (sy_client env) rank" "rank None < sy_fuel env"
    and "\<And>token k page name. sc_list (sy_client env) (release_prefix_key (rm_release_id manifest)) token (sy_store env k) = Inr page \<Longrightarrow>
      Some (release_prefix_key (rm_release_id manifest) @ name) \<in> set (lp_keys page) \<Longrightarrow> CHR ''/'' \<notin> set name"
    and "release_safe sha256 peek (sy_parse_head env) manifest (sy_store env n)"
    and "release_active peek (sy_parse_head env) manifest (sy_store env n)"
    and "\<And>k. n \<le> k \<Longrightarrow> objects_kept peek (release_keys manifest) (sy_store env n) (sy_store env k)"
    and "path_parent (path_join base (static_release_dir_key (rm_release_id manifest))) = Some parent"
  defines "final_dir \<equiv> path_join base (static_release_dir_key (rm_release_id manifest))"
    and "staging \<equiv> path_join parent (pull_staging_name env (rm_release_id manifest))"
  assumes "lawful_pull (sy_os env) view {staging, final_dir} base"
    and "\<And>fs. view (sy_others env fs) staging = view fs staging"
    and "\<And>fs. gate_sound sha256 manifest view final_dir fs \<Longrightarrow> gate_sound sha256 manifest view final_dir (sy_others env fs)"
    and "gate_sound sha256 manifest view final_dir fs" and "view fs staging = None"
  shows "\<exists>r fs'. sync_static_release env base n fs = Some (r, fs') \<and> gate_sound sha256 manifest view final_dir fs' \<and>
    (r = Inr () \<longrightarrow> release_installed sha256 manifest view final_dir fs')"
proof -
  let ?i = "rm_release_id manifest" and ?files = "set (release_files_of manifest)"
  let ?stored = "\<lambda>name. map_option fst (peek (release_prefix_key ?i @ name) (sy_store env n))"
  have key: "release_object_key manifest name = release_prefix_key ?i @ name" for name
    by (simp add: release_object_key_def release_prefix_key_def msg_def)
  have matches: "remote_matches sha256 peek manifest (sy_store env n) name" if "name \<in> ?files" for name
    using assms(6,7) that by (simp add: release_safe_def remote_complete_def)
  have kept: "peek (release_prefix_key ?i @ name) (sy_store env k) = peek (release_prefix_key ?i @ name) (sy_store env n) \<and>
      peek (release_prefix_key ?i @ name) (sy_store env k) \<noteq> None" if "n \<le> k" "name \<in> ?files" for k name
    using assms(8) [OF that(1)] matches [OF that(2)] that(2)
    by (auto simp: objects_kept_def remote_matches_def release_keys_def key)
  have bodies: "bodies_stored env ?i ?files ?stored n"
    unfolding bodies_stored_def
  proof (intro allI impI)
    fix k name object body
    assume *: "n \<le> k" "name \<in> ?files" "s3_get_object (sc_objects (sy_client env)) (release_prefix_key ?i @ name) (sy_store env k) = Inr object"
      "so_body object = Inr body"
    then show "?stored name = Some body"
      using lawful_s3D(1) [OF assms(1) *(3)] kept [OF *(1,2)] by auto
  qed
  have complete: "dir_complete sha256 manifest m" if "\<forall>name \<in> ?files. m name = ?stored name" for m
    unfolding dir_complete_def
  proof
    fix name
    assume name: "name \<in> ?files"
    then show "\<exists>raw out. m name = Some raw \<and> List.find (\<lambda>out. of_name out = name) (rm_outputs manifest) = Some out \<and>
        of_size_bytes out = of_nat (length (text_bytes raw)) \<and> of_sha256 out = sha256_hex sha256 (text_bytes raw)"
      using matches [OF name] that by (auto simp: remote_matches_def key)
  qed
  have gate_of: "view fs2 final_dir = view fs1 final_dir \<Longrightarrow> gate_sound sha256 manifest view final_dir fs1 \<Longrightarrow>
      gate_sound sha256 manifest view final_dir fs2" for fs1 fs2
    by (simp add: gate_sound_def)
  have D: "final_dir \<in> {staging, final_dir}"
    by simp
  consider (unread) e where "read_static_head (sy_client env) (sy_store env n) = Inl e"
    | (head) raw h where "read_static_head (sy_client env) (sy_store env n) = Inr (Some raw)" "sy_parse_head env raw = Inr h"
        "sh_release_id h = ?i"
    using read_active_head [OF assms(1,7)] by blast
  then show ?thesis
  proof cases
    case unread
    then show ?thesis
      using assms(15) by (simp add: sync_static_release_def)
  next
    case head
    show ?thesis
    proof (cases "static_release_head_validate h")
      case (Inl e)
      then show ?thesis
        using head assms(15) by (simp add: sync_static_release_def static_release_head_from_json_def)
    next
      case (Inr u)
      then have json: "static_release_head_from_json (sy_parse_head env) raw = Inr h"
        using head(2) by (simp add: static_release_head_from_json_def)
      have id: "is_release_id ?i"
        using head(3) Inr by (auto simp: validate_simps)
      let ?pulled = "if os_exists (sy_os env) (path_join base (static_release_manifest_key ?i)) fs
        then Some (Inr (), fs) else pull_release_via_staging env base ?i (Suc n) fs"
      obtain r1 fs1 where 1: "?pulled = Some (r1, fs1)" "gate_sound sha256 manifest view final_dir fs1"
        "r1 = Inr () \<longrightarrow> release_installed sha256 manifest view final_dir fs1"
      proof (cases "os_exists (sy_os env) (path_join base (static_release_manifest_key ?i)) fs")
        case True
        have "release_installed sha256 manifest view final_dir fs"
          using True lawful_pullD(3) [OF assms(12) D] manifest_path [OF id, of base] assms(15)
          by (auto simp: final_dir_def gate_sound_def release_installed_def)
        then show thesis
          using that [of "Inr ()" fs] True assms(15) by simp
      next
        case False
        have files: "\<forall>name \<in> ?files. name \<noteq> [] \<and> CHR ''/'' \<notin> set name"
          using release_file_plain by blast
        have present: "\<forall>k name. n \<le> k \<longrightarrow> name \<in> ?files \<longrightarrow> peek (release_prefix_key ?i @ name) (sy_store env k) \<noteq> None"
          using kept by blast
        have later: "n \<le> Suc n"
          by simp
        have flat: "\<forall>token k page name. sc_list (sy_client env) (release_prefix_key ?i) token (sy_store env k) = Inr page \<longrightarrow>
            Some (release_prefix_key ?i @ name) \<in> set (lp_keys page) \<longrightarrow> CHR ''/'' \<notin> set name"
          using assms(5) by blast
        have others: "\<forall>fs. view (sy_others env fs) staging = view fs staging"
            "\<forall>fs. gate_sound sha256 manifest view final_dir fs \<longrightarrow> gate_sound sha256 manifest view final_dir (sy_others env fs)"
          using assms(13,14) by blast+
        have whole: "\<forall>m. (\<forall>name \<in> ?files. m name = ?stored name) \<longrightarrow> dir_complete sha256 manifest m"
          using complete by blast
        show thesis
          using pull_complete [OF id assms(9) assms(12) [unfolded final_dir_def staging_def] others [unfolded final_dir_def staging_def]
              bodies files assms(2-4) flat present whole assms(15,16) [unfolded final_dir_def staging_def] later] that False
          by (auto simp: final_dir_def)
      qed
      have run: "sync_static_release env base n fs = map_option (\<lambda>(r, fs1).
          case r of Inl e \<Rightarrow> (Inl e, fs1) | Inr _ \<Rightarrow> write_local_head env base raw fs1) ?pulled"
        using head(1,3) json by (simp add: sync_static_release_def)
      show ?thesis
      proof (cases r1)
        case (Inl e)
        then show ?thesis
          using run 1 by simp
      next
        case ok: (Inr u)
        obtain r fs' where 2: "write_local_head env base raw fs1 = (r, fs')"
          by fastforce
        have "view fs' final_dir = view fs1 final_dir"
          by (rule write_local_head_view [OF assms(12) D 2])
        then show ?thesis
          using run 1 ok 2 gate_of [of fs' fs1] by (auto simp: release_installed_def)
      qed
    qed
  qed
qed



section \<open>Instances\<close>

text \<open>A bucket one may read, as a list of objects; a listing is one page.\<close>

type_synonym bucket = "(string \<times> string) list"

definition bucket_s3 :: "bucket s3_client" where
  "bucket_s3 =
     \<lparr> s3_get_object = (\<lambda>key s. case map_of s key of
           None \<Rightarrow> Inl \<lparr> se_code = Some ''NoSuchKey'', se_status = Some 404, se_text = ''no such key'' \<rparr>
         | Some raw \<Rightarrow> Inr \<lparr> so_etag = Some raw, so_body = Inr raw \<rparr>),
       s3_put_object = (\<lambda>key raw c s. (Inl \<lparr> se_code = Some ''AccessDenied'', se_status = Some 403, se_text = ''denied'' \<rparr>, s)) \<rparr>"

definition bucket_peek :: "bucket object_view" where
  "bucket_peek key s = map_option (\<lambda>raw. (raw, raw)) (map_of s key)"

definition bucket_client :: "bucket sync_client" where
  "bucket_client = \<lparr> sc_objects = bucket_s3,
     sc_list = (\<lambda>p token s. Inr \<lparr> lp_keys = map Some (filter (prefix p) (map fst s)), lp_truncated = Some False,
       lp_next_token = None \<rparr>) \<rparr>"

lemma bucket_lawful: "lawful_s3 (sc_objects bucket_client) bucket_peek"
  by (auto simp: lawful_s3_def bucket_client_def bucket_s3_def bucket_peek_def is_missing_object_error_def
      split: option.splits)

lemma bucket_listing: "lawful_listing bucket_client bucket_peek (\<lambda>_ _. True)" "listing_ends bucket_client (\<lambda>_. 0)"
  by (force simp: lawful_listing_def listing_ends_def bucket_client_def bucket_peek_def dest: map_of_SomeD)+

text \<open>A file system of paths, and a bucket whose keys try to leave the directory.\<close>

definition path_os :: "(string \<Rightarrow> string option) os_ops" where
  "path_os = \<lparr>os_is_dir = (\<lambda>p f. False), os_exists = (\<lambda>p f. f p \<noteq> None), os_read_dir = (\<lambda>p f. Inr []),
     os_create_dir_all = (\<lambda>p f. (Inr (), f)), os_copy = (\<lambda>_ _ f. (Inl ''unsupported'', f)),
     os_read = (\<lambda>p f. case f p of Some c \<Rightarrow> Inr c | None \<Rightarrow> Inl NotFound),
     os_write = (\<lambda>p c f. (Inr (), f(p \<mapsto> c))), os_rename = (\<lambda>p q f. (Inr (), f(q := f p, p := None))),
     os_remove_dir_all = (\<lambda>p f. (Inr (), f(p := None))), os_remove_file = (\<lambda>p f. (Inr (), f(p := None)))\<rparr>"

definition head_env :: "bucket \<Rightarrow> (bucket, string \<Rightarrow> string option) sync_env" where
  "head_env s = \<lparr> sy_client = bucket_client, sy_os = path_os, sy_store = (\<lambda>_. s), sy_others = id, sy_process = 1, sy_attempt = 0,
     sy_fuel = 1, sy_parse_head = (\<lambda>raw. Inr (static_release_head_new raw 1700000000001)) \<rparr>"

definition hostile_bucket :: bucket where
  "hostile_bucket = [(''index/a'', ''1''), (''index/../../etc/passwd'', ''2'')]"

lemma sync_stays_inside_witness:
  "(\<exists>r fs'. sync_artifacts (head_env hostile_bucket) ''/data'' Map.empty = Some (r, fs') \<and> \<not> is_ok r \<and> fs' ''/etc/passwd'' = None) \<and>
   (\<exists>r fs'. sync_artifacts (cut_at 1 (head_env hostile_bucket)) ''/data'' Map.empty = Some (r, fs') \<and> fs' ''/etc/passwd'' = None)"
proof -
  have outside: "\<not> below ''/data'' ''/etc/passwd''"
  proof -
    have "path_components ''/etc/passwd'' = [RootDir, NormalPart ''etc'', NormalPart ''passwd'']"
      "path_components ''/data'' = [RootDir, NormalPart ''data'']"
      by code_simp+
    then show ?thesis
      by (simp add: below_def)
  qed
  have os: "confined (sy_os (head_env hostile_bucket)) ''/data'' (\<lambda>fs. fs ''/etc/passwd'' = None)"
    using outside by (auto simp: confined_def head_env_def path_os_def)
  have listed: "key \<noteq> release_prefix_key i @ CHR ''/'' # r"
    if "sc_list (sy_client (head_env hostile_bucket)) (release_prefix_key i) token (sy_store (head_env hostile_bucket) k) = Inr page"
      "Some key \<in> set (lp_keys page)" for i token k page key r
    using that by (auto simp: head_env_def bucket_client_def hostile_bucket_def release_prefix_key_def static_release_dir_key_def)
  have run: "map_option (is_ok \<circ> fst) (sync_artifacts (head_env hostile_bucket) ''/data'' Map.empty) = Some False"
    by code_simp
  then obtain r fs' where r: "sync_artifacts (head_env hostile_bucket) ''/data'' Map.empty = Some (r, fs')" "\<not> is_ok r"
    by auto
  have all: "(\<forall>r fs'. sync_artifacts (head_env hostile_bucket) ''/data'' Map.empty = Some (r, fs') \<longrightarrow> fs' ''/etc/passwd'' = None) \<and>
    (\<forall>rank. listing_ends (sy_client (head_env hostile_bucket)) rank \<longrightarrow> rank None < sy_fuel (head_env hostile_bucket) \<longrightarrow>
       (\<exists>r fs'. sync_artifacts (head_env hostile_bucket) ''/data'' Map.empty = Some (r, fs') \<and> fs' ''/etc/passwd'' = None)) \<and>
    (\<forall>k. \<exists>r fs'. sync_artifacts (cut_at k (head_env hostile_bucket)) ''/data'' Map.empty = Some (r, fs') \<and> fs' ''/etc/passwd'' = None)"
    by (rule sync_stays_inside [OF os _ listed]) (simp_all add: head_env_def)
  have cut: "\<exists>r fs'. sync_artifacts (cut_at 1 (head_env hostile_bucket)) ''/data'' Map.empty = Some (r, fs') \<and> fs' ''/etc/passwd'' = None"
    using all by blast
  have "listing_ends (sy_client (head_env hostile_bucket)) (\<lambda>_. 0)" "(0 :: nat) < sy_fuel (head_env hostile_bucket)"
    using bucket_listing(2) by (simp_all add: head_env_def)
  then have "\<exists>r fs'. sync_artifacts (head_env hostile_bucket) ''/data'' Map.empty = Some (r, fs') \<and> fs' ''/etc/passwd'' = None"
    using all by blast
  then show ?thesis
    using r cut by auto
qed

text \<open>
  The exception is real.  Behind a doubled slash the rest of a key is an absolute path; it is
  accepted as a key, and joining it to the staging directory drops the directory.
\<close>

definition doubled_slash_bucket :: bucket where
  "doubled_slash_bucket = [(STATIC_HEAD_KEY, demo_release_id), (release_prefix_key demo_release_id @ ''/etc/passwd'', ''2'')]"

lemma doubled_slash_escapes:
  "validate_object_key (release_prefix_key demo_release_id @ ''/etc/passwd'') = Inr ()"
  "Option.bind (sync_static_release (head_env doubled_slash_bucket) ''/data'' 0 Map.empty) (\<lambda>r. snd r ''/etc/passwd'') = Some ''2''"
  by code_simp+

text \<open>A release of version 3 in the bucket; directories that hold files.\<close>

definition pull_os :: "string set \<Rightarrow> listed_fs os_ops" where
  "pull_os D = device_os\<lparr> os_exists := (\<lambda>p f. if p \<in> D then f p \<noteq> None else
     (case in_dir p f of Some (d, n, m) \<Rightarrow> map_of m n \<noteq> None | None \<Rightarrow> False)) \<rparr>"

lemma pull_os_lawful:
  assumes "\<forall>p \<in> D. plain_dir p" "\<forall>p \<in> D. \<forall>q \<in> D. \<forall>n. CHR ''/'' \<notin> set n \<longrightarrow> path_join p n \<noteq> q"
    and "\<forall>p \<in> D. path_parent (path_join base STATIC_HEAD_KEY) \<noteq> Some p"
  shows "lawful_pull (pull_os D) listed_view D base"
proof -
  have "write_law (pull_os D) listed_view D" "read_law (pull_os D) listed_view D" "rename_law (pull_os D) listed_view D"
      "remove_law (pull_os D) listed_view D" "create_law (pull_os D) listed_view D"
    using device_lawful_dirs [OF assms(1)]
    by (simp_all add: lawful_dirs_def write_law_def read_law_def rename_law_def remove_law_def create_law_def pull_os_def)
  moreover have "exists_law (pull_os D) listed_view D"
    by (simp add: exists_law_def pull_os_def listed_view_def)
  ultimately have dirs: "lawful_dirs (pull_os D) listed_view D"
    by (simp add: lawful_dirs_def)
  have path: "in_dir (path_join p name) fs = (if name = [] \<or> name = ''..'' then None else map_option (\<lambda>m. (p, name, m)) (fs p))"
    if "p \<in> D" "CHR ''/'' \<notin> set name" for p name fs
    using split_path_join [of p name] assms(1) that by (auto simp: in_dir_def)
  show ?thesis
    unfolding lawful_pull_def
  proof (intro conjI ballI allI impI)
    show "lawful_dirs (pull_os D) listed_view D"
      by (rule dirs)
    show "listed_view fs' p = Some m" if "p \<in> D" "listed_view fs p = Some m" "os_create_dir_all (pull_os D) p fs = (r, fs')"
      for p fs m r fs'
      using that by (auto simp: pull_os_def device_os_def listed_view_def)
    show "os_exists (pull_os D) (path_join p RELEASE_MANIFEST_FILE) fs =
        (\<exists>m. listed_view fs p = Some m \<and> RELEASE_MANIFEST_FILE \<in> dom m)" if "p \<in> D" for p fs
    proof -
      have "CHR ''/'' \<notin> set RELEASE_MANIFEST_FILE" "RELEASE_MANIFEST_FILE \<noteq> []" "RELEASE_MANIFEST_FILE \<noteq> ''..''"
        by (simp_all add: RELEASE_MANIFEST_FILE_def)
      then show ?thesis
        using path [OF that, of RELEASE_MANIFEST_FILE fs] that assms(2)
        by (auto simp: pull_os_def listed_view_def split: option.splits)
    qed
    show "listed_view fs' p = listed_view fs p"
      if "p \<in> D" "create_parent (pull_os D) (path_join base STATIC_HEAD_KEY) fs = (r, fs')" for p fs r fs'
      using that assms(3) by (auto simp: create_parent_def pull_os_def device_os_def listed_view_def split: option.splits)
    show "listed_view fs' p = listed_view fs p"
      if "p \<in> D" "os_write (pull_os D) (path_join base STATIC_HEAD_KEY) raw fs = (r, fs')" for p fs raw r fs'
      using that assms(3) by (auto simp: pull_os_def device_os_def in_dir_def split_path_def listed_view_def
          split: option.splits bind_splits)
  qed
qed


definition pulled_manifest :: release_manifest where
  "pulled_manifest = \<lparr> rm_schema_version = 1, rm_turbo_version = 3, rm_release_id = demo_release_id, rm_source = demo_source,
     rm_profile = demo_profile, rm_fingerprint = \<lparr> fp_doc_count = 1, fp_content_digest = [] \<rparr>,
     rm_codec = CodecV3 \<lparr> cm_dim = 512, cm_centroids_per_dim = 8, cm_centroids_seed = 0, cm_projection_seed = 0 \<rparr>,
     rm_outputs = map (\<lambda>name. \<lparr> of_name = name, of_sha256 = sha256_hex id (text_bytes ''x''), of_size_bytes = 1 \<rparr>) V3_RELEASE_OUTPUT_FILES \<rparr>"

definition release_bucket :: bucket where
  "release_bucket = (STATIC_HEAD_KEY, demo_release_id) # (static_release_manifest_key demo_release_id, ''{}'') #
     map (\<lambda>name. (release_object_key pulled_manifest name, ''x'')) V3_RELEASE_OUTPUT_FILES"

definition pull_env :: "(bucket, listed_fs) sync_env" where
  "pull_env = \<lparr> sy_client = bucket_client,
     sy_os = pull_os {''/data/static/releases/.'' @ demo_release_id @ ''-staging-1-0'', ''/data/static/releases/'' @ demo_release_id},
     sy_store = (\<lambda>_. release_bucket), sy_others = id, sy_process = 1, sy_attempt = 0, sy_fuel = 1,
     sy_parse_head = (\<lambda>raw. Inr (static_release_head_new raw 1700000000001)) \<rparr>"

lemma pulled_files: "release_files_of pulled_manifest = V3_RELEASE_OUTPUT_FILES"
  by code_simp

lemma release_bucket_safe:
  "release_safe id bucket_peek (sy_parse_head pull_env) pulled_manifest release_bucket"
  "release_active bucket_peek (sy_parse_head pull_env) pulled_manifest release_bucket"
proof -
  have "list_all (\<lambda>name. map_of release_bucket (release_object_key pulled_manifest name) = Some ''x'' \<and>
      List.find (\<lambda>out. of_name out = name) (rm_outputs pulled_manifest) =
        Some \<lparr> of_name = name, of_sha256 = sha256_hex id (text_bytes ''x''), of_size_bytes = 1 \<rparr>) V3_RELEASE_OUTPUT_FILES"
    by code_simp
  moreover have "of_nat (length (text_bytes ''x'')) = (1 :: u64)"
    by code_simp
  ultimately have "remote_complete id bucket_peek pulled_manifest release_bucket"
    by (auto simp: remote_complete_def remote_matches_def pulled_files bucket_peek_def list_all_iff)
  moreover have "map_of release_bucket (static_release_manifest_key demo_release_id) = Some ''{}''"
      "map_of release_bucket STATIC_HEAD_KEY = Some demo_release_id"
    by code_simp+
  ultimately show "release_safe id bucket_peek (sy_parse_head pull_env) pulled_manifest release_bucket"
      "release_active bucket_peek (sy_parse_head pull_env) pulled_manifest release_bucket"
    by (auto simp: release_safe_def release_marked_def release_active_def bucket_peek_def pulled_manifest_def pull_env_def
        static_release_head_new_def)
qed

lemma synced_release_is_complete_witness:
  "\<exists>r fs'. sync_static_release pull_env ''/data'' 0 Map.empty = Some (r, fs') \<and>
     (r = Inr () \<longrightarrow> release_installed id pulled_manifest listed_view (''/data/static/releases/'' @ demo_release_id) fs')"
proof -
  let ?staging = "path_join ''/data/static/releases'' (pull_staging_name pull_env (rm_release_id pulled_manifest))"
  let ?final = "path_join ''/data'' (static_release_dir_key (rm_release_id pulled_manifest))"
  have paths: "?staging = ''/data/static/releases/.'' @ demo_release_id @ ''-staging-1-0''"
      "?final = ''/data/static/releases/'' @ demo_release_id" "path_parent ?final = Some ''/data/static/releases''"
    by code_simp+
  have "sy_os pull_env = pull_os {?staging, ?final}"
    unfolding paths by (simp add: pull_env_def)
  moreover have "lawful_pull (pull_os {?staging, ?final}) listed_view {?staging, ?final} ''/data''"
  proof (rule pull_os_lawful)
    have "demo_release_id = CHR ''a'' # tl demo_release_id"
      by code_simp
    then obtain t where id: "demo_release_id = CHR ''a'' # t"
      by blast
    have last: "last demo_release_id = CHR ''a''"
      by code_simp
    show plain: "\<forall>p \<in> {?staging, ?final}. plain_dir p"
      unfolding paths using last id by (auto simp: plain_dir_def)
    show "\<forall>p \<in> {?staging, ?final}. \<forall>q \<in> {?staging, ?final}. \<forall>n. CHR ''/'' \<notin> set n \<longrightarrow> path_join p n \<noteq> q"
    proof (intro ballI allI impI)
      fix p q n
      assume *: "p \<in> {?staging, ?final}" "q \<in> {?staging, ?final}" "CHR ''/'' \<notin> set (n :: string)"
      have "path_join p n = p @ CHR ''/'' # n"
        using plain *(1,3) by (cases n) (auto simp: path_join_def plain_dir_def)
      then show "path_join p n \<noteq> q"
        using *(1,2) unfolding paths id by auto
    qed
    have "path_parent (path_join ''/data'' STATIC_HEAD_KEY) = Some ''/data/static''"
      by code_simp
    then show "\<forall>p \<in> {?staging, ?final}. path_parent (path_join ''/data'' STATIC_HEAD_KEY) \<noteq> Some p"
      unfolding paths by auto
  qed
  ultimately have laws: "lawful_pull (sy_os pull_env) listed_view {?staging, ?final} ''/data''"
    by simp
  have env: "sy_client pull_env = bucket_client" "sy_store pull_env = (\<lambda>_. release_bucket)" "sy_others pull_env = id" "sy_fuel pull_env = 1"
    by (simp_all add: pull_env_def)
  have flat: "CHR ''/'' \<notin> set name"
    if "sc_list (sy_client pull_env) (release_prefix_key (rm_release_id pulled_manifest)) token (sy_store pull_env k) = Inr page"
      "Some (release_prefix_key (rm_release_id pulled_manifest) @ name) \<in> set (lp_keys page)" for token k page name
  proof -
    have id: "rm_release_id pulled_manifest = demo_release_id"
      by (simp add: pulled_manifest_def)
    have keys: "map fst release_bucket = STATIC_HEAD_KEY # (release_prefix_key demo_release_id @ RELEASE_MANIFEST_FILE) #
        map (\<lambda>name. release_prefix_key demo_release_id @ name) V3_RELEASE_OUTPUT_FILES"
      by (simp add: release_bucket_def release_object_key_def release_prefix_key_def id msg_def static_release_manifest_key_def
          static_release_dir_key_def RELEASE_MANIFEST_FILE_def)
    have "release_prefix_key demo_release_id @ name \<in> set (map fst release_bucket)"
      using that by (auto simp: env id bucket_client_def)
    moreover have "release_prefix_key demo_release_id @ name \<noteq> STATIC_HEAD_KEY"
      by (simp add: release_prefix_key_def static_release_dir_key_def STATIC_HEAD_KEY_def)
    ultimately have "name \<in> insert RELEASE_MANIFEST_FILE (set V3_RELEASE_OUTPUT_FILES)"
      unfolding keys by auto
    then show ?thesis
      using release_file_plain [of name pulled_manifest] pulled_files by (auto simp: RELEASE_MANIFEST_FILE_def)
  qed
  have "\<exists>r fs'. sync_static_release pull_env ''/data'' 0 Map.empty = Some (r, fs') \<and>
      gate_sound id pulled_manifest listed_view ?final fs' \<and>
      (r = Inr () \<longrightarrow> release_installed id pulled_manifest listed_view ?final fs')"
  proof (rule synced_release_is_complete [where peek = bucket_peek and rank = "\<lambda>_. 0" and behind = "\<lambda>_ _. True"])
    show "path_parent ?final = Some ''/data/static/releases''"
      by (rule paths(3))
    show "lawful_pull (sy_os pull_env) listed_view {?staging, ?final} ''/data''"
      by (rule laws)
  qed (use bucket_lawful bucket_listing release_bucket_safe flat in
      \<open>auto simp: env objects_kept_def gate_sound_def listed_view_def\<close>)
  then show ?thesis
    unfolding paths by blast
qed

end
