(* ===== verification/Local_Activation.thy ===== *)
theory Local_Activation
  imports S3_Release Artifact_Sync
begin

text \<open>
  The local \<^verbatim>\<open>static-activate\<close> command (\<^verbatim>\<open>run_static_activate\<close> in \<^verbatim>\<open>src/app.rs\<close>): a built release is
  verified, installed below the local root, and only then named by the static pointer in SQLite.
  The opening of the database, the file system, the mapping of files, the JSON codecs and the clock
  are arguments.
\<close>


section \<open>The command\<close>

record activate_args =
  aa_release_dir :: "string option"
  aa_root :: "string option"
  aa_expect_model_id :: "string option"
  aa_expect_dim :: "u32 option"

definition no_activate_args :: activate_args where
  "no_activate_args = \<lparr> aa_release_dir = None, aa_root = None, aa_expect_model_id = None, aa_expect_dim = None \<rparr>"

fun parse_activate_flags :: "activate_args \<Rightarrow> string list \<Rightarrow> string + activate_args" where
  "parse_activate_flags acc [] = Inr acc"
| "parse_activate_flags acc (flag # rest) =
     (if flag = ''--release'' \<or> flag = ''--root'' \<or> flag = ''--expect-model-id'' \<or> flag = ''--expect-dim''
      then
        (case rest of
           [] \<Rightarrow> Inl (''missing value for '' @ flag)
         | value # rest' \<Rightarrow>
             if flag = ''--release'' then parse_activate_flags (acc\<lparr>aa_release_dir := Some value\<rparr>) rest'
             else if flag = ''--root'' then parse_activate_flags (acc\<lparr>aa_root := Some value\<rparr>) rest'
             else if flag = ''--expect-model-id'' then parse_activate_flags (acc\<lparr>aa_expect_model_id := Some value\<rparr>) rest'
             else and_then (parse_expect_dim value) (\<lambda>n. parse_activate_flags (acc\<lparr>aa_expect_dim := Some n\<rparr>) rest'))
      else Inl (''unknown argument: '' @ flag))"

definition parse_static_activate_args :: "string list \<Rightarrow> string + string \<times> string \<times> string option \<times> u32 option" where
  "parse_static_activate_args args =
     and_then (parse_activate_flags no_activate_args args) (\<lambda>acc.
     and_then (ok_or ''missing required --release'' (aa_release_dir acc)) (\<lambda>dir.
     map_ok (\<lambda>base. (dir, base, aa_expect_model_id acc, aa_expect_dim acc))
       (ok_or ''missing required --root'' (aa_root acc))))"

text \<open>
  \<open>opened\<close> is the outcome of opening the database, \<open>files\<close> the mappings of a file system, \<open>stat\<close> tells a
  directory from a file, \<open>depth\<close> bounds the nesting of a copy, \<open>others\<close> is what other processes do
  between the read and the swap of the pointer.
\<close>

record 'f activate_env =
  ac_ports :: verify_ports
  ac_os :: "'f os_ops"
  ac_files :: "'f \<Rightarrow> mapper"
  ac_stat :: "string \<Rightarrow> 'f \<Rightarrow> string + bool"
  ac_depth :: nat
  ac_opened :: "string \<Rightarrow> string + unit"
  ac_faults :: sql_faults
  ac_others :: "'f local_store \<Rightarrow> 'f local_store"
  ac_parse_head :: "string \<Rightarrow> string + static_release_head"
  ac_print_head :: "static_release_head \<Rightarrow> string"
  ac_now :: int

text \<open>From the verified manifest on.\<close>

definition install_and_switch ::
  "'f activate_env \<Rightarrow> string \<Rightarrow> string \<Rightarrow> release_manifest \<Rightarrow> 'f local_store \<Rightarrow> ((string + string) \<times> 'f local_store) option" where
  "install_and_switch env base release_dir manifest s =
     (case install_into_managed_store (ac_os env) (ac_stat env) (ac_depth env) base (rm_release_id manifest) release_dir (ls_fs s) of
        None \<Rightarrow> None
      | Some (Inl e, fs) \<Rightarrow> Some (Inl (show_static_activate_error e), s\<lparr>ls_fs := fs\<rparr>)
      | Some (Inr _, fs) \<Rightarrow>
          Some (map_prod (map_ok activated_message \<circ> map_err show_static_activate_error) id
            (activate_static_pointer (ac_others env) (local_publish_ops (ac_faults env) (ac_os env) (ac_depth env) base)
              (ac_parse_head env) (ac_print_head env) (rm_release_id manifest) (ac_now env) (s\<lparr>ls_fs := fs\<rparr>))))"

definition run_static_activate ::
  "'f activate_env \<Rightarrow> string list \<Rightarrow> 'f local_store \<Rightarrow> ((string + string) \<times> 'f local_store) option" where
  "run_static_activate env args s =
     (case parse_static_activate_args args of
        Inl e \<Rightarrow> Some (Inl e, s)
      | Inr (release_dir, base, expect_model_id, expect_dim) \<Rightarrow>
          (case on_fs (os_create_dir_all (ac_os env) base) s of
             (Inl e, s1) \<Rightarrow> Some (Inl (msg [''failed to create local root '', vp_quoted (ac_ports env) base, '': '', e]), s1)
           | (Inr _, s1) \<Rightarrow>
               (case ac_opened env (path_join base ''ltsearch.db'') of
                  Inl e \<Rightarrow> Some (Inl e, s1)
                | Inr _ \<Rightarrow>
                    (case verify_release_dir (ac_ports env) (ac_os env) (ac_files env (ls_fs s1)) release_dir expect_model_id
                            expect_dim (ls_fs s1) of
                       None \<Rightarrow> None
                     | Some (Inl e) \<Rightarrow> Some (Inl (show_static_activate_error e), s1)
                     | Some (Inr manifest) \<Rightarrow> install_and_switch env base release_dir manifest s1))))"


section \<open>The pointer moves to what is installed\<close>

lemma hex_digit_lower: "n < 16 \<Longrightarrow> is_lower_hex (hex_digit n)"
proof -
  have "list_all (\<lambda>n. is_lower_hex (hex_digit n)) [0..<16]"
    by code_simp
  then show "n < 16 \<Longrightarrow> is_lower_hex (hex_digit n)"
    by (simp add: list_all_iff)
qed

lemma hex_encode_lower: "c \<in> set (hex_encode b) \<Longrightarrow> is_lower_hex c"
  by (auto simp: hex_encode_def hex_digits_def hex_digit_lower)

lemma verified_is_release_id:
  assumes "verify_release_dir ports os files dir model d fs = Some (Inr manifest)" and "\<forall>b. length (vp_sha256 ports b) = 32"
  shows "is_release_id (rm_release_id manifest)"
proof -
  have "verify_release_id ports manifest = Inr ()"
    using assms(1) unfolding verify_release_dir_ok_iff verified_release_def by blast
  then show ?thesis
    using assms(2) hex_encode_lower
    by (simp add: verify_release_id_ok_iff is_release_id_def derive_release_id_def length_hex_encode RELEASE_ID_HEX_LEN_def)
qed

text \<open>The managed place of a release, and a source directory apart from it.\<close>

definition installable :: "'f activate_env \<Rightarrow> 'f dir_view \<Rightarrow> string \<Rightarrow> string \<Rightarrow> string \<Rightarrow> bool" where
  "installable env view base dir release_id \<longleftrightarrow>
     (\<exists>parent. path_parent (path_join base (static_release_dir_key release_id)) = Some parent \<and>
        lawful_install (ac_os env) (ac_stat env) view {dir, path_join parent (install_staging_name release_id),
          path_join base (static_release_dir_key release_id)} parent \<and>
        dir \<noteq> path_join parent (install_staging_name release_id))"

lemma switch_view:
  assumes "activate_static_pointer others (local_publish_ops flt os depth base) de ser release_id t s = (r, s')"
  shows "ls_fs s' = ls_fs s \<or> ls_fs s' = ls_fs (others s)"
proof -
  have "ls_fs s2 = ls_fs s1" if "local_cas flt os base STATIC_HEAD_KEY expected bytes s1 = (c, s2)" for expected bytes s1 c s2
    using that by (auto simp: local_cas_def head_table_def head_keys_distinct on_db_def split: prod.splits option.splits if_splits)
  then show ?thesis
    using assms by (auto simp: activate_static_pointer_def local_publish_ops_def Let_def split: sum.splits prod.splits bool.splits)
qed

text \<open>
  C28. Local activation installs before it switches the pointer.  The
  command returns; a release that fails verification changes nothing; after a verified one the managed
  directory holds the whole release, or what was there before, or nothing; the pointer in the
  database moves only when the directory is there, and it then loads as the head of that release;
  whenever the command fails it has left the database as it was.
\<close>

theorem activation_installs_before_switching:
  fixes env :: "'f activate_env"
  assumes "parse_static_activate_args args = Inr (dir, base, model, d)"
    and "on_fs (os_create_dir_all (ac_os env) base) s = (Inr (), s1)" "ac_opened env (path_join base ''ltsearch.db'') = Inr ()"
    and "verify_release_dir (ac_ports env) (ac_os env) (ac_files env (ls_fs s1)) dir model d (ls_fs s1) = Some verified"
    and "\<forall>b. length (vp_sha256 (ac_ports env) b) = 32" "ac_depth env > 0"
    and "\<forall>manifest. verified = Inr manifest \<longrightarrow> installable env view base dir (rm_release_id manifest)"
    and "view (ls_fs s1) dir = Some tree" "\<forall>n \<in> dom tree. CHR ''/'' \<notin> set n"
    and "\<forall>x p. view (ls_fs (ac_others env x)) p = view (ls_fs x) p"
    and "\<forall>i. ac_parse_head env (ac_print_head env (static_release_head_new i (ac_now env))) = Inr (static_release_head_new i (ac_now env))"
  shows "\<exists>r s'. run_static_activate env args s = Some (r, s') \<and>
    (case verified of
       Inl e \<Rightarrow> r = Inl (show_static_activate_error e) \<and> s' = s1
     | Inr manifest \<Rightarrow>
         (let target = path_join base (static_release_dir_key (rm_release_id manifest));
              installed = Some (case view (ls_fs s1) target of Some old \<Rightarrow> old | None \<Rightarrow> tree)
          in case r of
               Inr message \<Rightarrow> view (ls_fs s') target = installed \<and>
                 sqlite_load_active_release no_faults (ac_parse_head env) (ls_db s') =
                   Inr (Some (static_release_head_new (rm_release_id manifest) (ac_now env)))
             | Inl e \<Rightarrow> (view (ls_fs s') target = installed \<or> view (ls_fs s') target = None) \<and>
                 (ls_db s' = ls_db s1 \<or> (\<exists>x. ls_db x = ls_db s1 \<and> ls_db s' = ls_db (ac_others env x)))))"
proof (cases verified)
  case (Inl e)
  then show ?thesis
    using assms(1-4) by (simp add: run_static_activate_def)
next
  case (Inr manifest)
  let ?id = "rm_release_id manifest"
  let ?target = "path_join base (static_release_dir_key ?id)"
  have run: "run_static_activate env args s = install_and_switch env base dir manifest s1"
    using assms(1-4) Inr by (simp add: run_static_activate_def)
  have id: "is_release_id ?id"
    by (rule verified_is_release_id [OF assms(4) [unfolded Inr] assms(5)])
  obtain parent where parent: "path_parent ?target = Some parent"
      "lawful_install (ac_os env) (ac_stat env) view {dir, path_join parent (install_staging_name ?id), ?target} parent"
      "dir \<noteq> path_join parent (install_staging_name ?id)"
    using assms(7) Inr by (auto simp: installable_def)
  obtain k where depth: "ac_depth env = Suc k"
    using assms(6) by (cases "ac_depth env") auto
  obtain i fs where inst: "install_into_managed_store (ac_os env) (ac_stat env) (ac_depth env) base ?id dir (ls_fs s1) = Some (i, fs)"
      "if view (ls_fs s1) ?target \<noteq> None then i = Inr () \<and> fs = ls_fs s1
       else view fs ?target = (if is_ok i then Some tree else None)"
    using install_is_all_or_nothing [OF id parent(1,2,3) assms(8,9), where depth = k] unfolding depth by blast
  let ?old = "Some (case view (ls_fs s1) ?target of Some old \<Rightarrow> old | None \<Rightarrow> tree)"
  show ?thesis
  proof (cases i)
    case failed: (Inl e)
    then have "view fs ?target = None"
      using inst(2) by (auto split: if_splits)
    then show ?thesis
      using run inst(1) failed Inr by (simp add: install_and_switch_def Let_def)
  next
    case ok: (Inr u)
    let ?s2 = "s1\<lparr>ls_fs := fs\<rparr>"
    have placed: "view fs ?target = ?old"
      using inst(2) ok by (auto split: option.splits if_splits)
    obtain a s' where sw: "activate_static_pointer (ac_others env) (local_publish_ops (ac_faults env) (ac_os env) (ac_depth env) base)
        (ac_parse_head env) (ac_print_head env) ?id (ac_now env) ?s2 = (a, s')"
      by fastforce
    have after: "view (ls_fs s') ?target = ?old"
      using switch_view [OF sw] placed assms(10) by auto
    have result: "run_static_activate env args s = Some (map_ok activated_message (map_err show_static_activate_error a), s')"
      using run inst(1) ok sw by (simp add: install_and_switch_def)
    show ?thesis
    proof (cases a)
      case lost: (Inl e)
      have "s' = ?s2 \<or> s' = ac_others env ?s2"
        using local_pub.activate_fails(1) [OF static_is_pointer sw [unfolded lost]] .
      then have "ls_db s' = ls_db s1 \<or> (\<exists>x. ls_db x = ls_db s1 \<and> ls_db s' = ls_db (ac_others env x))"
        by (metis local_store.select_convs(1) local_store.surjective local_store.update_convs(2))
      then show ?thesis
        using result lost after Inr by (simp add: Let_def)
    next
      case won: (Inr res)
      note facts = local_pub.activate_ok [OF static_is_pointer sw [unfolded won]]
      have "static_release_head_from_json (ac_parse_head env) (ac_print_head env (static_release_head_new ?id (ac_now env))) =
          Inr (static_release_head_new ?id (ac_now env))"
        using facts(2) assms(11) by (simp add: static_release_head_from_json_ok)
      then have "sqlite_load_active_release no_faults (ac_parse_head env) (ls_db s') =
          Inr (Some (static_release_head_new ?id (ac_now env)))"
        using facts(4) by (simp add: sqlite_load_active_release_def local_peek_static)
      then show ?thesis
        using result won after Inr by (simp add: Let_def)
    qed
  qed
qed


section \<open>A run\<close>

text \<open>A machine where \<^verbatim>\<open>/data\<close> exists, whose copies fail.\<close>

definition managed_os :: "flat_fs os_ops" where
  "managed_os = flat_os\<lparr> os_read_dir := (\<lambda>p f. Inl ''unsupported''),
     os_create_dir_all := (\<lambda>p f. if p = ''/data'' then (Inr (), f) else os_create_dir_all flat_os p f) \<rparr>"

definition demo_activate_args :: "string list" where
  "demo_activate_args = [''--release'', ''/r/live'', ''--root'', ''/data'', ''--expect-dim'', ''512'']"

definition demo_activate :: "release_manifest \<Rightarrow> flat_fs activate_env" where
  "demo_activate manifest = \<lparr> ac_ports = demo_verify manifest, ac_os = managed_os, ac_files = flat_mapper,
     ac_stat = (\<lambda>_ _. Inr False), ac_depth = 1, ac_opened = (\<lambda>_. Inr ()), ac_faults = no_faults, ac_others = (\<lambda>s. s),
     ac_parse_head = (\<lambda>i. Inr (static_release_head_new i 1700000000001)), ac_print_head = sh_release_id, ac_now = 1700000000001 \<rparr>"

lemma managed_installs:
  assumes "\<forall>p \<in> D. plain_dir p" "parent \<notin> D" "''/data'' \<notin> D"
  shows "lawful_install managed_os (\<lambda>_ _. Inr False) (\<lambda>f. f) D parent"
proof -
  have "write_law managed_os (\<lambda>f. f) D" "read_law managed_os (\<lambda>f. f) D"
    using assms by (auto simp: write_law_def read_law_def managed_os_def flat_os_def split_path_join split: option.splits if_splits)
  moreover have "exists_law managed_os (\<lambda>f. f) D" "rename_law managed_os (\<lambda>f. f) D" "remove_law managed_os (\<lambda>f. f) D"
      "create_law managed_os (\<lambda>f. f) D"
    using assms(3) by (auto simp: exists_law_def rename_law_def remove_law_def create_law_def managed_os_def flat_os_def
        split: option.splits if_splits)
  moreover have "list_law managed_os (\<lambda>_ _. Inr False) (\<lambda>f. f) D" "copy_law managed_os (\<lambda>f. f) D" "clear_law managed_os (\<lambda>f. f) D"
      "parent_law managed_os (\<lambda>f. f) D parent"
    using assms(2) by (auto simp: list_law_def copy_law_def clear_law_def parent_law_def managed_os_def flat_os_def
        split: option.splits if_splits)
  ultimately show ?thesis
    by (simp add: lawful_install_def lawful_dirs_def)
qed

lemma demo_installable:
  assumes "is_release_id i"
  shows "installable (demo_activate manifest) (\<lambda>f. f) ''/data'' ''/r/live'' i"
proof -
  let ?parent = "''/data/static/releases''"
  have target: "path_join ''/data'' (static_release_dir_key i) = ?parent @ CHR ''/'' # i"
    by (simp add: path_join_def static_release_dir_key_def)
  have staging: "path_join ?parent (install_staging_name i) = ?parent @ CHR ''/'' # install_staging_name i"
    by (simp add: path_join_def install_staging_name_def msg_def)
  have parent: "path_parent (?parent @ CHR ''/'' # i) = Some ?parent"
    using path_parent_below [OF _ release_id_segment(1) [OF assms], of ?parent] by simp
  have "plain_dir (?parent @ CHR ''/'' # i)" "plain_dir (?parent @ CHR ''/'' # install_staging_name i)"
    using release_id_segment(2,5) [OF assms] by (simp_all add: plain_dir_def install_staging_name_def msg_def)
  then have "lawful_install managed_os (\<lambda>_ _. Inr False) (\<lambda>f. f)
      {''/r/live'', ?parent @ CHR ''/'' # install_staging_name i, ?parent @ CHR ''/'' # i} ?parent"
    by (intro managed_installs) (auto simp: plain_dir_def)
  then show ?thesis
    using parent staging target by (simp add: installable_def demo_activate_def)
qed

lemma managed_verifies:
  "verify_release_dir ports flat_os files dir model d fs = Some (Inr manifest) \<Longrightarrow>
     verify_release_dir ports managed_os files dir model d fs = Some (Inr manifest)"
  by (simp add: verify_release_dir_ok_iff verified_release_def output_matches_def managed_os_def)

lemma demo_switch_succeeds:
  assumes "is_release_id i"
  shows "is_ok (fst (activate_static_pointer (\<lambda>s. s) (local_publish_ops no_faults os depth base) de sh_release_id i 1700000000001
    \<lparr> ls_db = empty_db, ls_fs = fs \<rparr>))"
proof -
  let ?s = "\<lparr> ls_db = empty_db, ls_fs = fs \<rparr>" and ?ops = "local_publish_ops no_faults os depth base"
  have absent: "op_read ?ops STATIC_HEAD_KEY ?s = Inr None"
    by (simp add: local_publish_ops_def local_read_def head_table_def head_keys_distinct head_row_read_def sql_def no_faults_def
        empty_db_def)
  have swapped: "fst (op_cas ?ops STATIC_HEAD_KEY None bytes ?s) = Inr True" for bytes
    by (simp add: local_publish_ops_def local_cas_def head_table_def head_keys_distinct on_db_def head_row_cas_def head_row_read_def
        sql_def no_faults_def empty_db_def in_tx_def split: prod.splits sum.splits)
  have "static_release_head_validate (static_release_head_new i 1700000000001) = Inr ()"
    using assms by (simp add: static_release_head_validate_ok static_release_head_new_def)
  then show ?thesis
    using swapped [of "sh_release_id (static_release_head_new i 1700000000001)"]
    by (auto simp: activate_static_pointer_def absent Let_def split: prod.splits sum.splits bool.splits)
qed

lemma demo_installs:
  assumes "is_release_id i" "f ''/r/live'' = Some tree"
  shows "\<exists>fs. install_into_managed_store managed_os stat depth ''/data'' i ''/r/live'' f = Some (Inr (), fs)"
proof -
  have "path_join ''/data'' (static_release_dir_key i) = ''/data/static/releases'' @ CHR ''/'' # i"
    by (simp add: path_join_def static_release_dir_key_def)
  then have "path_parent (path_join ''/data'' (static_release_dir_key i)) = Some ''/data/static/releases''"
    using path_parent_below [OF _ release_id_segment(1) [OF assms(1)], of "''/data/static/releases''"] by simp
  then show ?thesis
    using assms(2) by (simp add: install_into_managed_store_def managed_os_def flat_os_def Let_def)
qed

lemma activation_installs_before_switching_witness:
  "\<exists>manifest f' message s'. run_static_activate (demo_activate manifest) demo_activate_args \<lparr> ls_db = empty_db, ls_fs = f' \<rparr> =
       Some (Inr message, s') \<and>
     ls_fs s' (path_join ''/data'' (static_release_dir_key (rm_release_id manifest))) \<noteq> None \<and>
     sqlite_load_active_release no_faults (ac_parse_head (demo_activate manifest)) (ls_db s') =
       Inr (Some (static_release_head_new (rm_release_id manifest) 1700000000001))"
proof (rule demo_published_release)
  fix manifest f'
  assume b: "build_release demo_ports flat_os FormatV3 ''/r/live'' [law_chunk] [replicate 512 f32_one] demo_profile demo_source
       (\<lambda>_. None) = Some (Inr manifest, f')"
    and h: "lawful_dirs flat_os (\<lambda>f. f) {staging_path demo_ports ''/r'' ''live'', backup_path demo_ports ''/r'' ''live'', ''/r/live''}"
      "verifier_agrees demo_ports (demo_verify manifest) flat_os (flat_mapper f') (\<lambda>f. f) f' ''/r/live'' manifest"
      "\<forall>b. length (re_sha256 (rp_env demo_ports) b) = 32" "\<forall>c \<in> set [law_chunk]. chunk_fits (rp_env demo_ports) c"
      "release_claims demo_source demo_profile (length [law_chunk]) None (Some 512)"
  let ?env = "demo_activate manifest" and ?s = "\<lparr> ls_db = empty_db, ls_fs = f' \<rparr>"
  have "verify_release_dir (demo_verify manifest) flat_os (flat_mapper f') ''/r/live'' None (Some 512) f' = Some (Inr manifest)"
    unfolding verify_release_dir_ok_iff
    by (rule build_release_verified [OF b demo_place(1) h(1) refl h(2,3) _ h(4,5)]) simp
  then have v: "verify_release_dir (ac_ports ?env) (ac_os ?env) (ac_files ?env (ls_fs ?s)) ''/r/live'' None (Some 512) (ls_fs ?s) =
      Some (Inr manifest)"
    using managed_verifies by (simp add: demo_activate_def)
  have sha: "\<forall>b. length (vp_sha256 (ac_ports ?env) b) = 32"
    by (simp add: demo_activate_def demo_verify_def demo_env_def)
  have id: "is_release_id (rm_release_id manifest)"
    by (rule verified_is_release_id [OF v sha])
  obtain codec im json where tree: "f' ''/r/live'' = Some (release_tree codec im json)"
    using build_release_outcome [OF b demo_place(1) h(1)] by auto
  have names: "\<forall>n \<in> dom (release_tree codec im json). CHR ''/'' \<notin> set n"
    using release_tree_names [of codec im json] by (auto simp: proper_name_def)
  have args: "parse_static_activate_args demo_activate_args = Inr (''/r/live'', ''/data'', None, Some 512)"
    by code_simp
  have created: "on_fs (os_create_dir_all (ac_os ?env) ''/data'') ?s = (Inr (), ?s)" "ac_opened ?env (path_join ''/data'' ''ltsearch.db'') = Inr ()"
    by (simp_all add: on_fs_def demo_activate_def managed_os_def)
  have place: "\<forall>m. Inr manifest = (Inr m :: static_activate_error + _) \<longrightarrow> installable ?env (\<lambda>f. f) ''/data'' ''/r/live'' (rm_release_id m)"
    using demo_installable [OF id] by simp
  have "\<exists>r s'. run_static_activate ?env demo_activate_args ?s = Some (r, s') \<and>
      (case Inr manifest of
         Inl e \<Rightarrow> r = Inl (show_static_activate_error e) \<and> s' = ?s
       | Inr manifest \<Rightarrow>
           (let target = path_join ''/data'' (static_release_dir_key (rm_release_id manifest));
                installed = Some (case ls_fs ?s target of Some old \<Rightarrow> old | None \<Rightarrow> release_tree codec im json)
            in case r of
                 Inr message \<Rightarrow> ls_fs s' target = installed \<and>
                   sqlite_load_active_release no_faults (ac_parse_head ?env) (ls_db s') =
                     Inr (Some (static_release_head_new (rm_release_id manifest) (ac_now ?env)))
               | Inl e \<Rightarrow> (ls_fs s' target = installed \<or> ls_fs s' target = None) \<and>
                   (ls_db s' = ls_db ?s \<or> (\<exists>x. ls_db x = ls_db ?s \<and> ls_db s' = ls_db (ac_others ?env x)))))"
    by (rule activation_installs_before_switching [where view = "\<lambda>f. f", OF args created v sha _ place _ names])
      (simp_all add: demo_activate_def tree static_release_head_new_def)
  then obtain r s' where run: "run_static_activate ?env demo_activate_args ?s = Some (r, s')"
    and r: "\<forall>message. r = Inr message \<longrightarrow> ls_fs s' (path_join ''/data'' (static_release_dir_key (rm_release_id manifest))) \<noteq> None \<and>
      sqlite_load_active_release no_faults (ac_parse_head ?env) (ls_db s') =
        Inr (Some (static_release_head_new (rm_release_id manifest) 1700000000001))"
    by (fastforce simp: Let_def demo_activate_def)
  have "run_static_activate ?env demo_activate_args ?s = install_and_switch ?env ''/data'' ''/r/live'' manifest ?s"
    using args created v by (simp add: run_static_activate_def)
  moreover obtain fs where "install_into_managed_store managed_os (\<lambda>_ _. Inr False) 1 ''/data'' (rm_release_id manifest) ''/r/live'' f' =
      Some (Inr (), fs)"
    using demo_installs [where f = f', OF id tree] by blast
  ultimately have "is_ok r"
    using run demo_switch_succeeds [OF id, of managed_os 1 "''/data''" "\<lambda>i. Inr (static_release_head_new i 1700000000001)" fs]
    by (auto simp: install_and_switch_def demo_activate_def is_ok_iff result_simps map_prod_def split: prod.splits)
  then obtain message where "r = Inr message"
    by (cases r) auto
  then show ?thesis
    using run r by blast
qed

end
