(* ===== verification/Spec2Isabelle.thy ===== *)
theory Spec2Isabelle
  imports Write_Api Build_Worker Router Context Lloyd_Max Legacy_Codec Prod_Codec Endpoints Model_Assets Static_Source
    Local_Activation
begin

text \<open>
  \<^bold>\<open>LTSearch.\<close>  A search service over two corpora.  Documents arrive through the write API, are
  appended to a write-ahead log and queued; a build worker turns the log into numbered index
  versions and publishes them; a static corpus is encoded once into an immutable release and
  activated by a pointer.  A query is answered from one index version and one release at a time,
  by keyword, vector and static retrieval, fused and cut to a token budget.  This development
  models the Rust sources under \<^verbatim>\<open>src/\<close> (the paths below are relative to the crate) and proves the
  contracts the parts rely on.

  \<^bold>\<open>The parts and their theories.\<close>

  \<^item> \<^verbatim>\<open>Prelude\<close>: error sums, UTF-8 text, decimal printing and parsing, hash maps as association
    lists, comparators and stable sorting; \<^verbatim>\<open>Floats\<close>, \<^verbatim>\<open>Floats_Wide\<close>: the operations of \<^verbatim>\<open>f32\<close> and
    \<^verbatim>\<open>f64\<close> on their bit patterns, rounded to nearest even, with the conversions between them;
    \<^verbatim>\<open>Bytes\<close>: little-endian fields and byte strings.
  \<^item> \<^verbatim>\<open>Models\<close>: \<^verbatim>\<open>models/*.rs\<close> and \<^verbatim>\<open>error.rs\<close>, the data and every validator.
  \<^item> \<^verbatim>\<open>Wal\<close>, \<^verbatim>\<open>Write_Api\<close>: \<^verbatim>\<open>write/wal.rs\<close>, \<^verbatim>\<open>write/api.rs\<close> and \<^verbatim>\<open>write_lambda.rs\<close>, segment keys, dates, the JSONL log,
    ingestion and deletion.  \<^verbatim>\<open>Sqlite_Wal\<close>, \<^verbatim>\<open>Sqlite_Queue\<close>: \<^verbatim>\<open>local/sqlite/{wal,queue}.rs\<close>, the tables
    as one state, transactions that roll back, leases, retries and dead letters.
  \<^item> \<^verbatim>\<open>Heads\<close>, \<^verbatim>\<open>Publish_Storage\<close>, \<^verbatim>\<open>Publisher\<close>: \<^verbatim>\<open>storage/*.rs\<close>, \<^verbatim>\<open>local/fs_publish.rs\<close>,
    \<^verbatim>\<open>local/sqlite/{head, manifest, static_release}.rs\<close> and \<^verbatim>\<open>indexing/publisher.rs\<close>, the two pointers, the stores behind them with compare-and-swap, and
    publication and rollback of index versions.
  \<^item> \<^verbatim>\<open>Snapshot\<close>, \<^verbatim>\<open>Build_Worker\<close>: \<^verbatim>\<open>indexing/builder.rs\<close>, \<^verbatim>\<open>storage/staged_publish.rs\<close>,
    \<^verbatim>\<open>build_lambda.rs\<close>, \<^verbatim>\<open>build_worker.rs\<close> and \<^verbatim>\<open>http/build.rs\<close>, the latest state of the log, the staged build and its publication, the job loop and the build endpoint.
  \<^item> \<^verbatim>\<open>Ranking\<close>, \<^verbatim>\<open>Fusion\<close>, \<^verbatim>\<open>Router\<close>, \<^verbatim>\<open>Context\<close>: \<^verbatim>\<open>query/*.rs\<close>, the order of results,
    de-duplication, filters, reciprocal rank fusion, the router and the context of an answer.
  \<^item> \<^verbatim>\<open>Codec_Config\<close>, \<^verbatim>\<open>Image_Format\<close>, \<^verbatim>\<open>Assets\<close>, \<^verbatim>\<open>Codebook\<close>, \<^verbatim>\<open>Lloyd_Max\<close>, \<^verbatim>\<open>Gaussian\<close>,
    \<^verbatim>\<open>Matrices\<close>, \<^verbatim>\<open>Legacy_Codec\<close>, \<^verbatim>\<open>Prod_Codec\<close>: \<^verbatim>\<open>index/{codec_config, header, record, meta,
    meta_ext, assets, codebook, gaussian, rotation, qjl, turbo_codec, turbo_prod}.rs\<close>, the vector codecs and the
    binary format of the static image.
  \<^item> \<^verbatim>\<open>Mmap_Index\<close>, \<^verbatim>\<open>Static_Image\<close>, \<^verbatim>\<open>Static_Release\<close>, \<^verbatim>\<open>Turbo_Search\<close>: loading, writing, packaging
    and searching a static image (\<^verbatim>\<open>index/{mmap_index, static_builder, static_release, release_manifest}.rs\<close>,
    \<^verbatim>\<open>query/turbo_searcher.rs\<close>).
  \<^item> \<^verbatim>\<open>Static_Activate\<close>: \<^verbatim>\<open>indexing/static_publisher.rs\<close>, verification, installation and the static
    pointer.  \<^verbatim>\<open>S3_Store\<close>, \<^verbatim>\<open>S3_Release\<close>: \<^verbatim>\<open>adapters/s3_*.rs\<close>, \<^verbatim>\<open>adapters/sqs_*.rs\<close> and
    \<^verbatim>\<open>bin/static_activate.rs\<close>, the same on an object store.
  \<^item> \<^verbatim>\<open>Dynamic_Search\<close>, \<^verbatim>\<open>Vector_Search\<close>: \<^verbatim>\<open>query/keyword_searcher.rs\<close>,
    \<^verbatim>\<open>query/vector_searcher.rs\<close>, the searches of an index version with the shard cache.
    \<^verbatim>\<open>Query_Service\<close>: \<^verbatim>\<open>query_lambda.rs\<close>, \<^verbatim>\<open>query_service.rs\<close> and \<^verbatim>\<open>embedding/provider.rs\<close>, the
    handler for a pair of version and release and its cache.
  \<^item> \<^verbatim>\<open>Artifact_Sync\<close>: \<^verbatim>\<open>adapters/s3_artifact_sync.rs\<close>, the download of what queries read.
    \<^verbatim>\<open>Endpoints\<close>: \<^verbatim>\<open>http/*.rs\<close>, \<^verbatim>\<open>lambda_events.rs\<close> and the functions of \<^verbatim>\<open>bin/*_lambda.rs\<close>.
  \<^item> \<^verbatim>\<open>Static_Source\<close>: \<^verbatim>\<open>index/{lance_source, static_source}.rs\<close>, the \<^verbatim>\<open>static-build\<close> command of
    \<^verbatim>\<open>app.rs\<close> and \<^verbatim>\<open>bin/turbo_index_builder.rs\<close>, where a static corpus comes from.  \<^verbatim>\<open>Local_Activation\<close>: the
    \<^verbatim>\<open>static-activate\<close> command of \<^verbatim>\<open>app.rs\<close>.  \<^verbatim>\<open>Model_Assets\<close>: \<^verbatim>\<open>embedding/model_assets.rs\<close>, the files of the
    embedding model.

  \<^bold>\<open>How the code is represented.\<close>  A struct is a record, an enum a datatype, a function that
  returns \<^verbatim>\<open>Result\<close> has a sum type with the error on the left; a panic, an access outside a
  mapping or a loop that does not return is \<^term>\<open>None\<close>.  Integers keep their width where the code
  can wrap (\<^verbatim>\<open>u32\<close> and \<^verbatim>\<open>u64\<close> are words); \<^verbatim>\<open>usize\<close> is a natural number and \<^verbatim>\<open>i64\<close> an integer.  Text is
  its UTF-8 bytes.  State is passed explicitly; a store, a database or a directory tree is a value,
  a statement or request may fail, and what other processes do between two steps is an
  argument (\<open>env\<close>), arbitrary in the theorems about swaps; where a conclusion speaks of a value
  that other processes may touch, it is a relation every step of theirs keeps (\<open>others_move\<close>).
  A thread that panics is a value of its own, and whether the build unwinds or aborts is a field of the
  collaborators: the release profile aborts, and the result is then \<^term>\<open>None\<close>.
  Hash maps are association lists whose iteration order is an argument.

  \<^bold>\<open>Parameters.\<close>  JSON printers and parsers, the clock, UUIDs, SHA-256, the random generator,
  the functions of \<^verbatim>\<open>libm\<close>, LanceDB, Tantivy and the embedding engine, SQLite faults, the file
  system and the clients of S3 and SQS are arguments of the definitions.  What the code relies on is
  a named predicate (\<open>lawful_dirs\<close>, \<open>lawful_s3\<close>, \<open>publish_storage\<close> and so on), assumed where
  it is used and shown to hold of a concrete instance by the witness of the theorem.

  \<^bold>\<open>What is shown.\<close>  Write path: an ingestion is atomic with its queue entry; a queue entry is
  delivered, retried and buried as specified and never lost before its version is published.  Build:
  the snapshot is the latest state of the log, a failed publication is rolled back.
  A build that succeeds publishes the next version, made of exactly
  the documents of the segments the log had when it ran.
  Publication: a pointer only moves forward from the value it was read at, and what it names is
  complete.  The local swap compares content tags, a 64-bit FNV-1a checksum: what it proves is
  that the checksum did not change, which excludes every change of one byte but not a collision.  Query: responses are validated, ranked and cut without panics; fusion and
  de-duplication compute their specifications.  Codecs: encoding is nearest-centroid, scores
  equal their reference formulas, generated codecs reload.  Static corpus: a built release loads
  without undefined behaviour, verifies, does not depend on the order of the scan it came from, is bound by its content to its identifier, is found by the
  parallel scan exactly, and is activated on disk and in the object store so that no reader meets
  an incomplete release; an interrupted upload can be repeated; a downloaded release is complete
  whenever its manifest is on disk, and a download writes nothing outside its directory; a model bundle that is marked is
  complete.  Serving:
  keyword and vector search return what an exhaustive search of all shards returns; every response and
  every health report names one pair of version and release, whatever is published meanwhile; the two
  deployments of an endpoint answer alike, but for the wording of a failed download.

  \<^bold>\<open>Fuel and bounds.\<close>  Recursion over directories takes its depth as fuel, the walk over a shard the
  number of its entries, a listing the number of its pages; the theorems that need it ask for enough and
  prove that the code then returns.  A listing that never ends is not refused by the code; the safety of
  the download is therefore also proved for a run cut off at any request.  The job loop has the bound of the code; every other loop
  terminates by a measure.

  \<^bold>\<open>Not modelled.\<close>  The composition roots (\<^verbatim>\<open>bootstrap.rs\<close>, \<^verbatim>\<open>aws_wiring.rs\<close>, the main functions of
  \<^verbatim>\<open>bin/\<close>), which only pass environment variables and clients to the modelled functions; the
  embedding engine (\<^verbatim>\<open>embedding/{generator, ltembed}.rs\<close>); the connection and schema of SQLite (\<^verbatim>\<open>local/sqlite/mod.rs\<close>); the bodies of
  LanceDB, Tantivy, Arrow, axum and AWS calls; logging; benchmarks and examples.
\<close>

end
